(* ===== verification/Prelude.thy ===== *)
theory Prelude
  imports Complex_Main "HOL-Library.AList" "HOL-Library.Sublist"
begin

text \<open>
  Shared vocabulary of the development.

  \<^item> Python dictionaries whose iteration order matters are association lists; writing a key
    is \<open>AList.update\<close> (in place, or appended at the end), dropping one is \<open>AList.delete\<close>.
  \<^item> A database table is the list of its rows in storage order. \<open>sql_update\<close> is one
    \<open>UPDATE ... WHERE ...\<close> statement: the rows that satisfy the predicate are rewritten
    and the number of them is the row count the code branches on.
  \<^item> Clock values are integers (microseconds since the epoch, the resolution of a Python
    \<open>datetime\<close>).
  \<^item> The locales \<open>op_system\<close>, \<open>op_system_rel\<close> and \<open>transition_table\<close> are the contracts
    several components share: operations that keep an invariant, operations that only move
    forward in a relation, and a state machine given by a table with absorbing states.
\<close>

named_theorems table_simps \<open>facts on table statements\<close>
named_theorems dict_simps \<open>facts on insertion-ordered dictionaries\<close>

type_synonym time = int

section \<open>Options and lists\<close>

definition or_else :: "'a option \<Rightarrow> 'a \<Rightarrow> 'a" where
  "or_else x d = (case x of None \<Rightarrow> d | Some v \<Rightarrow> v)"

lemma or_else_simps [simp]:
  "or_else None d = d"
  "or_else (Some v) d = v"
  by (simp_all add: or_else_def)

text \<open>A Python string or list is falsy when it is empty; \<open>None\<close> is falsy too.\<close>

definition truthy :: "'a list option \<Rightarrow> bool" where
  "truthy x = (case x of None \<Rightarrow> False | Some s \<Rightarrow> s \<noteq> [])"

lemma truthy_simps [simp]:
  "truthy None = False"
  "truthy (Some s) = (s \<noteq> [])"
  by (simp_all add: truthy_def)

lemma truthy_iff: "truthy x \<longleftrightarrow> (\<exists>s. x = Some s \<and> s \<noteq> [])"
  by (cases x) auto

text \<open>\<open>xs[-n:]\<close>: the last \<open>n\<close> elements.\<close>

definition take_last :: "nat \<Rightarrow> 'a list \<Rightarrow> 'a list" where
  "take_last n xs = drop (length xs - n) xs"

lemma length_take_last [simp]: "length (take_last n xs) = min n (length xs)"
  by (simp add: take_last_def)

lemma set_take_last: "set (take_last n xs) \<subseteq> set xs"
  by (simp add: take_last_def set_drop_subset)

lemma take_last_append1:
  "0 < n \<Longrightarrow> take_last n (xs @ [x]) = take_last (n - 1) xs @ [x]"
  by (cases n) (auto simp: take_last_def)

text \<open>A loop of checks that raises at the first failing one: the error, if any.\<close>

fun first_some :: "('a \<Rightarrow> 'e option) \<Rightarrow> 'a list \<Rightarrow> 'e option" where
  "first_some f [] = None"
| "first_some f (x # xs) = (case f x of None \<Rightarrow> first_some f xs | Some e \<Rightarrow> Some e)"

lemma first_some_None: "first_some f xs = None \<longleftrightarrow> (\<forall>x \<in> set xs. f x = None)"
  by (induction xs) (auto split: option.splits)

lemma first_some_Some: "first_some f xs = Some e \<Longrightarrow> \<exists>x \<in> set xs. f x = Some e"
  by (induction xs) (auto split: option.splits)

section \<open>Text\<close>

text \<open>
  Python strings are \<open>string\<close>: one \<open>char\<close> per character, over the characters with code
  points below 256. \<open>str(n)\<close> of an integer, \<open>" ".join\<close> and \<open>strip()\<close> (with the
  white space characters of that range).
\<close>

fun nat_str :: "nat \<Rightarrow> string" where
  "nat_str n = (if n < 10 then [char_of (48 + n)] else nat_str (n div 10) @ [char_of (48 + n mod 10)])"

declare nat_str.simps [simp del]

definition int_str :: "int \<Rightarrow> string" where
  "int_str i = (if i < 0 then ''-'' @ nat_str (nat (- i)) else nat_str (nat i))"

lemma nat_str_nonempty [simp]: "nat_str n \<noteq> []"
  by (subst nat_str.simps) simp

lemma int_str_nonempty [simp]: "int_str i \<noteq> []"
  by (simp add: int_str_def)

definition is_space :: "char \<Rightarrow> bool" where
  "is_space c = (let n = (of_char c :: nat)
     in n = 32 \<or> (9 \<le> n \<and> n \<le> 13) \<or> (28 \<le> n \<and> n \<le> 31) \<or> n = 133 \<or> n = 160)"

definition strip :: "string \<Rightarrow> string" where
  "strip s = rev (dropWhile is_space (rev (dropWhile is_space s)))"

fun join :: "string \<Rightarrow> string list \<Rightarrow> string" where
  "join sep [] = []"
| "join sep [x] = x"
| "join sep (x # y # zs) = x @ sep @ join sep (y # zs)"

section \<open>Dictionaries\<close>

lemma dict_update_lookup [dict_simps]:
  "map_of (AList.update k v d) k' = (if k' = k then Some v else map_of d k')"
  by (simp add: update_conv')

lemma dict_delete_lookup [dict_simps]:
  "map_of (AList.delete k d) k' = (if k' = k then None else map_of d k')"
  by (simp add: delete_conv')

lemma dict_keys_update [dict_simps]:
  "fst ` set (AList.update k v d) = insert k (fst ` set d)"
  by (simp add: dom_update)

text \<open>\<open>d.setdefault(k, []).append(x)\<close>: the multi-map the graph code builds.\<close>

definition dict_push :: "'k \<Rightarrow> 'v \<Rightarrow> ('k \<times> 'v list) list \<Rightarrow> ('k \<times> 'v list) list" where
  "dict_push k x d = AList.update k (or_else (map_of d k) [] @ [x]) d"

definition dict_items :: "('k \<times> 'v list) list \<Rightarrow> 'k \<Rightarrow> 'v list" where
  "dict_items d k = or_else (map_of d k) []"

lemma dict_items_push [dict_simps]:
  "dict_items (dict_push k x d) k' = (if k' = k then dict_items d k @ [x] else dict_items d k')"
  by (simp add: dict_items_def dict_push_def dict_update_lookup)

lemma dict_items_empty [simp]: "dict_items [] k = []"
  by (simp add: dict_items_def)

lemma dict_items_member:
  "x \<in> set (dict_items d k) \<Longrightarrow> \<exists>xs. (k, xs) \<in> set d \<and> x \<in> set xs"
  by (cases "map_of d k") (auto simp: dict_items_def dest: map_of_SomeD)

lemma dict_push_distinct [dict_simps]:
  "distinct (map fst d) \<Longrightarrow> distinct (map fst (dict_push k x d))"
  by (simp add: dict_push_def distinct_update)

section \<open>Tables\<close>

definition sql_update :: "('r \<Rightarrow> bool) \<Rightarrow> ('r \<Rightarrow> 'r) \<Rightarrow> 'r list \<Rightarrow> 'r list \<times> nat" where
  "sql_update p f t = (map (\<lambda>r. if p r then f r else r) t, length (filter p t))"

definition sql_where :: "('r \<Rightarrow> bool) \<Rightarrow> 'r list \<Rightarrow> 'r list" where
  "sql_where p t = filter p t"

text \<open>\<open>scalar_one_or_none\<close> / \<open>first\<close> on a query: the first matching row, if any.\<close>

definition sql_first :: "('r \<Rightarrow> bool) \<Rightarrow> 'r list \<Rightarrow> 'r option" where
  "sql_first p t = List.find p t"

lemma sql_update_fst [table_simps]:
  "fst (sql_update p f t) = map (\<lambda>r. if p r then f r else r) t"
  by (simp add: sql_update_def)

lemma sql_update_snd [table_simps]:
  "snd (sql_update p f t) = length (filter p t)"
  by (simp add: sql_update_def)

lemma sql_update_zero:
  "snd (sql_update p f t) = 0 \<Longrightarrow> fst (sql_update p f t) = t"
  by (auto simp: sql_update_def filter_empty_conv intro!: map_idI)

lemma sql_update_length [table_simps]: "length (fst (sql_update p f t)) = length t"
  by (simp add: sql_update_def)

lemma sql_first_Some: "sql_first p t = Some r \<Longrightarrow> r \<in> set t \<and> p r"
  by (auto simp: sql_first_def find_Some_iff)

lemma sql_first_None: "sql_first p t = None \<longleftrightarrow> (\<forall>r\<in>set t. \<not> p r)"
  by (auto simp: sql_first_def find_None_iff)

lemma sql_first_Nil [simp]: "sql_first p [] = None"
  by (simp add: sql_first_def)

lemma sql_first_Cons [simp]:
  "sql_first p (r # t) = (if p r then Some r else sql_first p t)"
  by (simp add: sql_first_def)

lemma sql_first_False [simp]: "sql_first (\<lambda>r. False) t = None"
  by (simp add: sql_first_None)

text \<open>
  A keyed table: no two rows have the same key. Lookups by key after a statement that keeps
  the key of every row are what the statement does to the row with that key.
\<close>

definition keyed :: "('r \<Rightarrow> 'k) \<Rightarrow> 'r list \<Rightarrow> bool" where
  "keyed key t = distinct (map key t)"

definition row_at :: "('r \<Rightarrow> 'k) \<Rightarrow> 'k \<Rightarrow> 'r list \<Rightarrow> 'r option" where
  "row_at key k t = sql_first (\<lambda>r. key r = k) t"

lemma row_at_Some: "row_at key k t = Some r \<Longrightarrow> r \<in> set t \<and> key r = k"
  by (auto simp: row_at_def dest: sql_first_Some)

lemma row_at_None: "row_at key k t = None \<longleftrightarrow> k \<notin> key ` set t"
  by (auto simp: row_at_def sql_first_None)

lemma row_at_simps [simp]:
  "row_at key k [] = None"
  "row_at key k (r # t) = (if key r = k then Some r else row_at key k t)"
  by (simp_all add: row_at_def)

lemma row_at_keyed:
  "keyed key t \<Longrightarrow> r \<in> set t \<Longrightarrow> row_at key (key r) t = Some r"
  by (induction t) (auto simp: keyed_def image_iff)

lemma keyed_sql_update [table_simps]:
  assumes "\<And>r. key (f r) = key r"
  shows "keyed key (fst (sql_update p f t)) = keyed key t"
proof -
  have "map key (map (\<lambda>r. if p r then f r else r) t) = map key t"
    by (simp add: assms)
  then show ?thesis by (simp only: keyed_def sql_update_fst)
qed

lemma row_at_sql_update [table_simps]:
  assumes "\<And>r. key (f r) = key r"
  shows "row_at key k (fst (sql_update p f t)) =
         map_option (\<lambda>r. if p r then f r else r) (row_at key k t)"
  by (induction t) (auto simp: sql_update_def assms)

lemma row_at_append: "row_at key k t = Some r \<Longrightarrow> row_at key k (t @ u) = Some r"
  by (induction t) (auto split: if_splits)

text \<open>
  The count of a statement that names one key: one row or none, and which of the two is
  decided by the row the key finds.
\<close>

lemma sql_update_count_key:
  assumes "keyed key t"
  shows "length (filter (\<lambda>r. key r = k \<and> q r) t) =
         (case row_at key k t of None \<Rightarrow> 0 | Some r \<Rightarrow> if q r then 1 else 0)"
  using assms
proof (induction t)
  case Nil
  then show ?case by simp
next
  case (Cons a t)
  then have IH: "length (filter (\<lambda>r. key r = k \<and> q r) t) =
      (case row_at key k t of None \<Rightarrow> 0 | Some r \<Rightarrow> if q r then 1 else 0)"
    by (simp add: keyed_def)
  show ?case
  proof (cases "key a = k")
    case True
    with Cons.prems have "k \<notin> key ` set t" by (simp add: keyed_def)
    then have none: "filter (\<lambda>r. key r = k \<and> q r) t = []"
      by (auto simp: filter_empty_conv)
    show ?thesis
      by (simp add: True none del: filter.simps(2)) (simp add: True none)
  next
    case False
    with IH show ?thesis by simp
  qed
qed

text \<open>A statement that names one key replaces at most the row with that key.\<close>

definition row_put :: "('r \<Rightarrow> 'k) \<Rightarrow> 'k \<Rightarrow> 'r \<Rightarrow> 'r list \<Rightarrow> 'r list" where
  "row_put key k r t = map (\<lambda>x. if key x = k then r else x) t"

lemma sql_update_put:
  assumes "keyed key t" and "row_at key k t = Some r"
  shows "sql_update (\<lambda>x. key x = k \<and> q x) f t = (if q r then (row_put key k (f r) t, 1) else (t, 0))"
proof -
  have same: "x = r" if "x \<in> set t" "key x = k" for x
    using row_at_keyed [OF assms(1) that(1)] that(2) assms(2) by simp
  have "map (\<lambda>x. if key x = k \<and> q x then f x else x) t = (if q r then row_put key k (f r) t else t)"
    using same by (auto simp: row_put_def intro!: map_cong map_idI)
  moreover have "length (filter (\<lambda>x. key x = k \<and> q x) t) = (if q r then 1 else 0)"
    using sql_update_count_key [OF assms(1), of k q] assms(2) by simp
  ultimately show ?thesis by (simp add: sql_update_def)
qed

lemma sql_update_none:
  "row_at key k t = None \<Longrightarrow> sql_update (\<lambda>x. key x = k \<and> q x) f t = (t, 0)"
  by (auto simp: row_at_None sql_update_def filter_empty_conv intro!: map_idI)

lemma row_at_put [table_simps]:
  "key r = k \<Longrightarrow> row_at key k' (row_put key k r t) =
     (if k' = k then map_option (\<lambda>x. r) (row_at key k t) else row_at key k' t)"
  by (induction t) (auto simp: row_put_def)

lemma keyed_put [table_simps]: "key r = k \<Longrightarrow> keyed key (row_put key k r t) = keyed key t"
proof -
  assume "key r = k"
  then have "map key (row_put key k r t) = map key t" by (simp add: row_put_def)
  then show ?thesis by (simp only: keyed_def)
qed

lemma row_put_twice [table_simps]:
  "key r = k \<Longrightarrow> row_put key k r' (row_put key k r t) = row_put key k r' t"
  by (simp add: row_put_def)

section \<open>Runs of operations\<close>

definition run_ops :: "('s \<Rightarrow> 'op \<Rightarrow> 's) \<Rightarrow> 's \<Rightarrow> 'op list \<Rightarrow> 's" where
  "run_ops step s ops = foldl step s ops"

lemma run_ops_simps [simp]:
  "run_ops step s [] = s"
  "run_ops step s (x # xs) = run_ops step (step s x) xs"
  by (simp_all add: run_ops_def)

lemma run_ops_append: "run_ops step s (xs @ ys) = run_ops step (run_ops step s xs) ys"
  by (simp add: run_ops_def)

text \<open>The operations that meet \<open>ok\<close> keep the invariant, so every run of them does.\<close>

locale op_system =
  fixes step :: "'s \<Rightarrow> 'op \<Rightarrow> 's"
    and inv :: "'s \<Rightarrow> bool"
    and ok :: "'op \<Rightarrow> bool"
  assumes step_inv: "ok x \<Longrightarrow> inv s \<Longrightarrow> inv (step s x)"
begin

lemma run_inv: "list_all ok xs \<Longrightarrow> inv s \<Longrightarrow> inv (run_ops step s xs)"
  by (induction xs arbitrary: s) (auto simp: step_inv)

end

text \<open>
  Operations that, under the invariant, only move forward in a reflexive and transitive
  relation: the relation holds between any two points of a run.
\<close>

locale op_system_rel = op_system +
  fixes rel :: "'s \<Rightarrow> 's \<Rightarrow> bool"
  assumes rel_refl: "rel s s"
    and rel_trans: "rel a b \<Longrightarrow> rel b c \<Longrightarrow> rel a c"
    and step_rel: "ok x \<Longrightarrow> inv s \<Longrightarrow> rel s (step s x)"
begin

lemma run_rel: "list_all ok xs \<Longrightarrow> inv s \<Longrightarrow> rel s (run_ops step s xs)"
proof (induction xs arbitrary: s)
  case Nil
  show ?case by (simp add: rel_refl)
next
  case (Cons x xs)
  have "rel (step s x) (run_ops step (step s x) xs)"
    using Cons by (simp add: step_inv)
  with step_rel [of x s] Cons.prems show ?case
    by (auto intro: rel_trans)
qed

lemma run_between:
  "list_all ok xs \<Longrightarrow> list_all ok ys \<Longrightarrow> inv s \<Longrightarrow>
   rel (run_ops step s xs) (run_ops step s (xs @ ys))"
  by (simp add: run_ops_append run_rel run_inv)

end

section \<open>Transition tables\<close>

text \<open>
  The shape both state machines of the program share: a table of allowed successors and the
  states with none. \<open>path\<close> is a sequence of allowed steps.
\<close>

fun path :: "('s \<Rightarrow> 's list) \<Rightarrow> 's \<Rightarrow> 's list \<Rightarrow> bool" where
  "path succ s [] = True"
| "path succ s (t # ts) = (t \<in> set (succ s) \<and> path succ t ts)"

locale transition_table =
  fixes succ :: "'s \<Rightarrow> 's list"
    and absorbing :: "'s \<Rightarrow> bool"
  assumes absorbing_stuck: "absorbing s \<Longrightarrow> succ s = []"
    and no_self_loop: "s \<notin> set (succ s)"
begin

lemma absorbing_path: "absorbing s \<Longrightarrow> path succ s ts \<Longrightarrow> ts = []"
  by (cases ts) (auto dest: absorbing_stuck)

lemma absorbing_last:
  assumes "path succ s (ts @ us)" and "ts \<noteq> []" and "absorbing (last ts)"
  shows "us = []"
  using assms
proof (induction ts arbitrary: s)
  case Nil
  then show ?case by simp
next
  case (Cons t ts)
  show ?case
  proof (cases ts)
    case Nil
    with Cons.prems show ?thesis by (auto dest: absorbing_path)
  next
    case (Cons u us')
    with Cons.prems Cons.IH [of t] show ?thesis by simp
  qed
qed

end

end
