(* ===== verification/Jobs_Lifecycle.thy ===== *)
theory Jobs_Lifecycle
  imports Prelude
begin

text \<open>
  The lifecycle of a durable job, \<open>app/services/jobs/lifecycle.py\<close>: the statuses, the
  table of legal transitions, the coercion of a stored string to a status, and the checks
  every writer of the job table goes through. The component provides a
  \<open>transition_table\<close>; the job store rests on \<open>sources_for\<close>.
\<close>

section \<open>Statuses and the transition table\<close>

datatype job_status = J_pending | J_queued | J_running | J_cancelling
  | J_cancelled | J_completed | J_failed | J_stale

datatype job_kind = K_agent | K_analysis | K_workflow | K_explorer | K_atlas_export

definition all_job_statuses :: "job_status list" where
  "all_job_statuses = [J_pending, J_queued, J_running, J_cancelling,
     J_cancelled, J_completed, J_failed, J_stale]"

fun status_value :: "job_status \<Rightarrow> string" where
  "status_value J_pending = ''pending''"
| "status_value J_queued = ''queued''"
| "status_value J_running = ''running''"
| "status_value J_cancelling = ''cancelling''"
| "status_value J_cancelled = ''cancelled''"
| "status_value J_completed = ''completed''"
| "status_value J_failed = ''failed''"
| "status_value J_stale = ''stale''"

fun kind_value :: "job_kind \<Rightarrow> string" where
  "kind_value K_agent = ''agent''"
| "kind_value K_analysis = ''analysis''"
| "kind_value K_workflow = ''workflow''"
| "kind_value K_explorer = ''explorer''"
| "kind_value K_atlas_export = ''atlas_export''"

definition TERMINAL_STATUSES :: "job_status list" where
  "TERMINAL_STATUSES = [J_cancelled, J_completed, J_failed, J_stale]"

definition IMMUTABLE_STATUSES :: "job_status list" where
  "IMMUTABLE_STATUSES = [J_cancelled, J_completed]"

definition CANCELLABLE_STATUSES :: "job_status list" where
  "CANCELLABLE_STATUSES = [J_pending, J_queued, J_running]"

definition RETRYABLE_STATUSES :: "job_status list" where
  "RETRYABLE_STATUSES = [J_failed, J_stale]"

definition ACTIVE_STATUSES :: "job_status list" where
  "ACTIVE_STATUSES = [J_pending, J_queued, J_running, J_cancelling]"

fun ALLOWED_TRANSITIONS :: "job_status \<Rightarrow> job_status list" where
  "ALLOWED_TRANSITIONS J_pending = [J_queued, J_running, J_cancelling, J_cancelled, J_failed]"
| "ALLOWED_TRANSITIONS J_queued = [J_running, J_cancelling, J_cancelled, J_failed, J_stale]"
| "ALLOWED_TRANSITIONS J_running = [J_cancelling, J_completed, J_failed, J_stale]"
| "ALLOWED_TRANSITIONS J_cancelling = [J_cancelled, J_failed]"
| "ALLOWED_TRANSITIONS J_cancelled = []"
| "ALLOWED_TRANSITIONS J_completed = []"
| "ALLOWED_TRANSITIONS J_failed = [J_queued]"
| "ALLOWED_TRANSITIONS J_stale = [J_queued]"

lemmas status_sets = TERMINAL_STATUSES_def IMMUTABLE_STATUSES_def CANCELLABLE_STATUSES_def
  RETRYABLE_STATUSES_def ACTIVE_STATUSES_def all_job_statuses_def

section \<open>Coercion and checks\<close>

text \<open>The three shapes \<open>coerce_status\<close> accepts: a status, a stored string, \<open>None\<close>.\<close>

datatype status_arg = Status job_status | Text string | NoStatus

fun status_of_value_in :: "job_status list \<Rightarrow> string \<Rightarrow> job_status option" where
  "status_of_value_in [] v = None"
| "status_of_value_in (s # ss) v = (if status_value s = v then Some s else status_of_value_in ss v)"

text \<open>\<open>JobStatus(str(value))\<close>, with \<open>None\<close> for the \<open>ValueError\<close> of an unknown string.\<close>

definition status_of_value :: "string \<Rightarrow> job_status option" where
  "status_of_value v = status_of_value_in all_job_statuses v"

fun coerce_status :: "status_arg \<Rightarrow> job_status" where
  "coerce_status (Status s) = s"
| "coerce_status NoStatus = J_pending"
| "coerce_status (Text v) =
     (if v = [] then J_pending
      else case status_of_value v of Some s \<Rightarrow> s | None \<Rightarrow> J_pending)"

definition is_terminal :: "status_arg \<Rightarrow> bool" where
  "is_terminal s = (coerce_status s \<in> set TERMINAL_STATUSES)"

definition is_active :: "status_arg \<Rightarrow> bool" where
  "is_active s = (coerce_status s \<in> set ACTIVE_STATUSES)"

definition can_transition :: "status_arg \<Rightarrow> status_arg \<Rightarrow> bool" where
  "can_transition current target =
     (coerce_status target \<in> set (ALLOWED_TRANSITIONS (coerce_status current)))"

record invalid_job_transition =
  ijt_current :: job_status
  ijt_target :: job_status
  ijt_job_id :: "string option"

definition validate_transition ::
  "status_arg \<Rightarrow> status_arg \<Rightarrow> string option \<Rightarrow> invalid_job_transition + job_status" where
  "validate_transition current target job_id =
     (let cur = coerce_status current; tgt = coerce_status target
      in if tgt \<notin> set (ALLOWED_TRANSITIONS cur)
         then Inl \<lparr>ijt_current = cur, ijt_target = tgt, ijt_job_id = job_id\<rparr>
         else Inr tgt)"

definition sources_for :: "status_arg \<Rightarrow> job_status list" where
  "sources_for target =
     filter (\<lambda>src. coerce_status target \<in> set (ALLOWED_TRANSITIONS src)) all_job_statuses"

definition is_cancellable :: "status_arg \<Rightarrow> bool" where
  "is_cancellable s = (coerce_status s \<in> set CANCELLABLE_STATUSES)"

definition is_retryable_status :: "status_arg \<Rightarrow> bool" where
  "is_retryable_status s = (coerce_status s \<in> set RETRYABLE_STATUSES)"

section \<open>Facts\<close>

lemma all_job_statuses_complete: "s \<in> set all_job_statuses"
  by (cases s) (simp_all add: all_job_statuses_def)

lemma status_value_inj [simp]: "status_value s = status_value t \<longleftrightarrow> s = t"
  by (cases s; cases t) simp_all

lemma inj_status_value: "inj status_value"
  by (simp add: inj_def)

lemma status_value_nonempty [simp]: "status_value s \<noteq> []"
  by (cases s) simp_all

lemma status_of_value_status_value [simp]: "status_of_value (status_value s) = Some s"
  by (cases s) (simp_all add: status_of_value_def all_job_statuses_def)

lemma status_of_value_in_Some:
  "status_of_value_in ss v = Some s \<Longrightarrow> s \<in> set ss \<and> status_value s = v"
  by (induction ss) (auto split: if_splits)

lemma status_of_value_Some: "status_of_value v = Some s \<longleftrightarrow> v = status_value s"
proof
  show "v = status_value s" if "status_of_value v = Some s"
    using that by (auto simp: status_of_value_def dest: status_of_value_in_Some)
qed simp

lemma coerce_status_value [simp]: "coerce_status (Text (status_value s)) = s"
  by simp

lemma sources_for_iff [simp]:
  "src \<in> set (sources_for target) \<longleftrightarrow> coerce_status target \<in> set (ALLOWED_TRANSITIONS src)"
  by (simp add: sources_for_def all_job_statuses_complete)

interpretation job_table: transition_table ALLOWED_TRANSITIONS "\<lambda>s. s \<in> set IMMUTABLE_STATUSES"
proof
  show "ALLOWED_TRANSITIONS s = []" if "s \<in> set IMMUTABLE_STATUSES" for s
    using that by (auto simp: IMMUTABLE_STATUSES_def)
  show "s \<notin> set (ALLOWED_TRANSITIONS s)" for s
    by (cases s) simp_all
qed

text \<open>
  Along any history of legal transitions a cancelled or completed job is the end of it, and
  a job whose cancellation was requested reaches \<open>completed\<close> only by failing first and being
  queued again.
\<close>

theorem job_histories:
  "(path ALLOWED_TRANSITIONS s (ts @ us) \<and> ts \<noteq> [] \<and> last ts \<in> {J_cancelled, J_completed} \<longrightarrow> us = []) \<and>
   (path ALLOWED_TRANSITIONS J_cancelling vs \<and> J_completed \<in> set vs \<longrightarrow>
      take 2 vs = [J_failed, J_queued])"
proof (intro conjI impI)
  assume "path ALLOWED_TRANSITIONS s (ts @ us) \<and> ts \<noteq> [] \<and> last ts \<in> {J_cancelled, J_completed}"
  then show "us = []"
    by (intro job_table.absorbing_last [of s ts us]) (auto simp: IMMUTABLE_STATUSES_def)
next
  assume v: "path ALLOWED_TRANSITIONS J_cancelling vs \<and> J_completed \<in> set vs"
  then obtain a ws where vs: "vs = a # ws" and a: "a \<in> {J_cancelled, J_failed}"
    by (cases vs) auto
  have "path ALLOWED_TRANSITIONS a ws" using v vs by simp
  with a v vs show "take 2 vs = [J_failed, J_queued]"
    by (cases ws) auto
qed

lemma job_histories_witness:
  "path ALLOWED_TRANSITIONS J_pending ([J_running, J_cancelling, J_cancelled] @ []) \<and>
   path ALLOWED_TRANSITIONS J_cancelling [J_failed, J_queued, J_running, J_completed] \<and>
   take 2 [J_failed, J_queued, J_running, J_completed] = [J_failed, J_queued]"
  using job_histories [of J_pending "[J_running, J_cancelling, J_cancelled]" "[]"
      "[J_failed, J_queued, J_running, J_completed]"] by simp

end
