(* ===== verification/Jobs_Progress.thy ===== *)
theory Jobs_Progress
  imports Prelude
begin

text \<open>
  Progress reports of a durable job, \<open>app/services/jobs/progress.py\<close>: the snapshot with its
  clamping and its stored message, the throttle that decides which reports reach the store,
  and the reporter that hands the accepted ones to its sink. Clock values and percentages are
  exact rationals where the code has floats; the sink is the list of snapshots it was given.
\<close>

section \<open>Snapshots\<close>

record job_progress =
  jp_progress :: "int option"
  jp_message :: "string option"
  jp_phase :: "string option"
  jp_current_step :: "int option"
  jp_total_steps :: "int option"

definition indeterminate :: "job_progress \<Rightarrow> bool" where
  "indeterminate p = (jp_progress p = None)"

definition clamped :: "job_progress \<Rightarrow> job_progress" where
  "clamped p = (case jp_progress p of
     None \<Rightarrow> p
   | Some n \<Rightarrow>
       let v = (if n < 0 then 0 else if n > 100 then 100 else n)
       in if v = n then p
          else \<lparr>jp_progress = Some v, jp_message = jp_message p, jp_phase = jp_phase p,
                jp_current_step = jp_current_step p, jp_total_steps = jp_total_steps p\<rparr>)"

definition message_parts :: "job_progress \<Rightarrow> string list" where
  "message_parts p =
     (case jp_phase p of Some ph \<Rightarrow> if ph \<noteq> [] then [''['' @ ph @ '']''] else [] | None \<Rightarrow> []) @
     (case jp_message p of Some m \<Rightarrow> if m \<noteq> [] then [m] else [] | None \<Rightarrow> []) @
     (case (jp_current_step p, jp_total_steps p) of
        (Some c, Some t) \<Rightarrow>
          if t \<noteq> 0 then [''('' @ int_str c @ ''/'' @ int_str t @ '')''] else []
      | _ \<Rightarrow> [])"

definition as_message :: "job_progress \<Rightarrow> string option" where
  "as_message p =
     (let text = strip (join '' '' (message_parts p))
      in if text = [] then None else Some (take 255 text))"

section \<open>The throttle\<close>

record progress_throttle =
  th_min_delta :: rat
  th_min_interval :: rat
  th_last_pct :: "rat option"
  th_last_at :: "rat option"
  th_emitted :: nat

definition new_throttle :: "rat \<Rightarrow> rat \<Rightarrow> progress_throttle" where
  "new_throttle min_delta_pct min_interval_s =
     \<lparr>th_min_delta = min_delta_pct, th_min_interval = min_interval_s,
      th_last_pct = None, th_last_at = None, th_emitted = 0\<rparr>"

definition default_throttle :: progress_throttle where
  "default_throttle = new_throttle 1 (1 / 2)"

definition record_emit :: "progress_throttle \<Rightarrow> int option \<Rightarrow> rat \<Rightarrow> progress_throttle" where
  "record_emit th progress now =
     th\<lparr>th_last_pct := (case progress of Some p \<Rightarrow> Some (of_int p) | None \<Rightarrow> th_last_pct th),
        th_last_at := Some now,
        th_emitted := Suc (th_emitted th)\<rparr>"

definition should_emit ::
  "progress_throttle \<Rightarrow> rat \<Rightarrow> int option \<Rightarrow> bool \<Rightarrow> progress_throttle \<times> bool" where
  "should_emit th now progress force =
     (if force then (record_emit th progress now, True)
      else case th_last_at th of
        None \<Rightarrow> (record_emit th progress now, True)
      | Some last_at \<Rightarrow>
         (case progress of
            None \<Rightarrow>
              if now - last_at \<ge> th_min_interval th
              then (record_emit th progress now, True) else (th, False)
          | Some p \<Rightarrow>
              if p \<ge> 100 then (record_emit th progress now, True)
              else if (case th_last_pct th of None \<Rightarrow> False
                       | Some l \<Rightarrow> abs (of_int p - l) \<ge> th_min_delta th)
              then (record_emit th progress now, True)
              else if now - last_at \<ge> th_min_interval th
              then (record_emit th progress now, True)
              else (th, False)))"

definition reset_throttle :: "progress_throttle \<Rightarrow> progress_throttle" where
  "reset_throttle th = th\<lparr>th_last_pct := None, th_last_at := None, th_emitted := 0\<rparr>"

section \<open>The reporter\<close>

record progress_reporter =
  rp_sink :: "job_progress list"
  rp_throttle :: progress_throttle
  rp_last :: "job_progress option"

definition report ::
  "progress_reporter \<Rightarrow> rat \<Rightarrow> job_progress \<Rightarrow> bool \<Rightarrow> progress_reporter \<times> bool" where
  "report rp now snap force =
     (let snapshot = clamped snap;
          (th, ok) = should_emit (rp_throttle rp) now (jp_progress snapshot) force
      in if \<not> ok then (rp\<lparr>rp_throttle := th\<rparr>, False)
         else (rp\<lparr>rp_throttle := th, rp_last := Some snapshot,
                  rp_sink := rp_sink rp @ [snapshot]\<rparr>, True))"

definition flush_report ::
  "progress_reporter \<Rightarrow> rat \<Rightarrow> job_progress \<Rightarrow> progress_reporter \<times> bool" where
  "flush_report rp now snap = report rp now snap True"

section \<open>Facts\<close>

lemma clamped_range: "jp_progress (clamped p) = Some n \<Longrightarrow> 0 \<le> n \<and> n \<le> 100"
  by (auto simp: clamped_def Let_def split: option.splits if_splits)

lemma clamped_other [simp]:
  "jp_message (clamped p) = jp_message p"
  "jp_phase (clamped p) = jp_phase p"
  "jp_current_step (clamped p) = jp_current_step p"
  "jp_total_steps (clamped p) = jp_total_steps p"
  by (simp_all add: clamped_def Let_def split: option.splits)

lemma clamped_idem: "clamped (clamped p) = clamped p"
  by (auto simp: clamped_def Let_def split: option.splits)

lemma record_emit_simps [simp]:
  "th_min_delta (record_emit th p now) = th_min_delta th"
  "th_min_interval (record_emit th p now) = th_min_interval th"
  "th_last_at (record_emit th p now) = Some now"
  "th_emitted (record_emit th p now) = Suc (th_emitted th)"
  "th_last_pct (record_emit th (Some q) now) = Some (of_int q)"
  "th_last_pct (record_emit th None now) = th_last_pct th"
  by (simp_all add: record_emit_def)

lemma should_emit_params [simp]:
  "th_min_delta (fst (should_emit th now p f)) = th_min_delta th"
  "th_min_interval (fst (should_emit th now p f)) = th_min_interval th"
  by (simp_all add: should_emit_def split: option.splits)

lemma should_emit_rejected: "\<not> snd (should_emit th now p f) \<Longrightarrow> fst (should_emit th now p f) = th"
  by (auto simp: should_emit_def split: option.splits if_splits)

lemma should_emit_accepted:
  "snd (should_emit th now p f) \<Longrightarrow> fst (should_emit th now p f) = record_emit th p now"
  by (auto simp: should_emit_def split: option.splits if_splits)

section \<open>How many reports a climbing job stores\<close>

text \<open>
  \<open>climbing t q rs\<close>: the reports come in clock order from \<open>t\<close> on, and the percentages they
  carry do not fall from \<open>q\<close> on and stay below 100.
\<close>

fun climbing :: "rat \<Rightarrow> int \<Rightarrow> (rat \<times> int option) list \<Rightarrow> bool" where
  "climbing t q [] = True"
| "climbing t q ((now, p) # rs) = (t \<le> now \<and>
     (case p of None \<Rightarrow> climbing now q rs
      | Some n \<Rightarrow> q \<le> n \<and> n < 100 \<and> climbing now n rs))"

fun last_time :: "rat \<Rightarrow> (rat \<times> int option) list \<Rightarrow> rat" where
  "last_time t [] = t"
| "last_time t ((now, p) # rs) = last_time now rs"

definition emit_step :: "progress_throttle \<Rightarrow> rat \<times> int option \<Rightarrow> progress_throttle" where
  "emit_step th r = fst (should_emit th (fst r) (snd r) False)"

lemma emit_step_apply: "emit_step th (now, p) = fst (should_emit th now p False)"
  by (simp add: emit_step_def)

definition pct_level :: "progress_throttle \<Rightarrow> rat" where
  "pct_level th = or_else (th_last_pct th) 0"

text \<open>What one emission is paid with: a step of the percentage or a stretch of time.\<close>

definition paid :: "progress_throttle \<Rightarrow> rat \<Rightarrow> rat" where
  "paid th b = pct_level th / th_min_delta th + b / th_min_interval th"

lemma le_divide_one: "0 < (d::rat) \<Longrightarrow> d \<le> x \<Longrightarrow> 1 \<le> x / d"
  by (simp add: pos_le_divide_eq)

lemma emit_step_paid:
  assumes d: "0 < th_min_delta th" and i: "0 < th_min_interval th"
    and last: "th_last_at th = Some b" and bt: "b \<le> now"
    and lev: "pct_level th \<le> of_int q" and p: "\<And>n. p = Some n \<Longrightarrow> q \<le> n \<and> n < 100"
    and em: "snd (should_emit th now p False)"
  shows "1 + paid th b \<le> paid (record_emit th p now) now"
proof -
  have mono: "pct_level th \<le> pct_level (record_emit th p now)"
    using lev p by (cases p) (auto simp: pct_level_def intro: order_trans)
  have time: "b / th_min_interval th \<le> now / th_min_interval th"
    using i bt by (simp add: divide_right_mono)
  have pct: "pct_level th / th_min_delta th \<le> pct_level (record_emit th p now) / th_min_delta th"
    using d mono by (simp add: divide_right_mono)
  consider (slow) "th_min_interval th \<le> now - b"
    | (step) n l where "p = Some n" "th_last_pct th = Some l" "th_min_delta th \<le> \<bar>of_int n - l\<bar>"
    using em last p by (auto simp: should_emit_def split: option.splits if_splits)
  then show ?thesis
  proof cases
    case slow
    from le_divide_one [OF i slow] have "1 + b / th_min_interval th \<le> now / th_min_interval th"
      by (simp add: diff_divide_distrib)
    with pct show ?thesis by (simp add: paid_def)
  next
    case step
    have "th_min_delta th \<le> of_int n - l"
      using step lev p by (auto simp: pct_level_def abs_if split: if_splits)
    from le_divide_one [OF d this] have "1 + l / th_min_delta th \<le> of_int n / th_min_delta th"
      by (simp add: diff_divide_distrib)
    with time step show ?thesis by (simp add: paid_def pct_level_def)
  qed
qed

lemma emitted_run_paid:
  assumes "0 < th_min_delta th" and "0 < th_min_interval th"
    and "th_last_at th = Some b" and "b \<le> t" and "pct_level th \<le> of_int q" and "q \<le> 99"
    and "climbing t q rs"
  shows "of_nat (th_emitted (run_ops emit_step th rs)) \<le>
         of_nat (th_emitted th) + (99 - pct_level th) / th_min_delta th +
         (last_time t rs - b) / th_min_interval th"
  using assms
proof (induction rs arbitrary: th b t q)
  case Nil
  have "pct_level th \<le> 99"
    using Nil.prems(5,6) by linarith
  then have "0 \<le> (99 - pct_level th) / th_min_delta th"
    using Nil.prems(1) by simp
  moreover have "0 \<le> (t - b) / th_min_interval th"
    using Nil.prems(2,4) by simp
  ultimately show ?case by simp
next
  case (Cons r rs)
  obtain now p where r: "r = (now, p)" by (cases r)
  define q' where "q' = or_else p q"
  have tn: "t \<le> now" and rest: "climbing now q' rs" and q': "q \<le> q'" "q' \<le> 99"
    and p: "\<And>n. p = Some n \<Longrightarrow> q \<le> n \<and> n < 100"
    using Cons.prems(6,7) by (auto simp: r q'_def split: option.splits)
  have bn: "b \<le> now" using Cons.prems(4) tn by simp
  show ?case
  proof (cases "snd (should_emit th now p False)")
    case False
    have "pct_level th \<le> of_int q'"
      using Cons.prems(5) q' by linarith
    with Cons.IH [OF Cons.prems(1-3) bn _ q'(2) rest] show ?thesis
      using should_emit_rejected [OF False] by (simp add: emit_step_apply r)
  next
    case True
    let ?th = "record_emit th p now"
    have lev: "pct_level ?th \<le> of_int q'"
      using Cons.prems(5) by (cases p) (auto simp: pct_level_def q'_def)
    have "1 + paid th b \<le> paid ?th now"
      using emit_step_paid [OF Cons.prems(1-3) bn Cons.prems(5) p True] .
    moreover have "of_nat (th_emitted (run_ops emit_step ?th rs)) \<le>
         of_nat (th_emitted ?th) + (99 - pct_level ?th) / th_min_delta ?th +
         (last_time now rs - now) / th_min_interval ?th"
      by (rule Cons.IH [OF _ _ _ order_refl lev q'(2) rest]) (use Cons.prems in simp_all)
    ultimately show ?thesis
      using should_emit_accepted [OF True]
      by (simp add: emit_step_apply r paid_def diff_divide_distrib)
  qed
qed

text \<open>
  The number of store writes of one execution is bounded by its length and not by the
  number of reports: for unforced reports in clock order whose percentages never fall and stay
  below 100, at most one write, plus one for each \<open>min_delta\<close> of the way to 99 percent, plus
  one for each \<open>min_interval\<close> between the first report and the last.
\<close>

theorem throttled_writes_bounded:
  assumes "0 < d" and "0 < i" and "climbing t0 0 rs"
  shows "of_nat (th_emitted (run_ops emit_step (new_throttle d i) rs)) \<le>
         1 + 99 / d + (last_time t0 rs - t0) / i"
proof (cases rs)
  case Nil
  with assms show ?thesis by (simp add: new_throttle_def)
next
  case (Cons r rs')
  obtain now p where r: "r = (now, p)" by (cases r)
  let ?th = "record_emit (new_throttle d i) p now"
  define q where "q = or_else p 0"
  have q: "0 \<le> q" "q \<le> 99" and tn: "t0 \<le> now" and rest: "climbing now q rs'"
    using assms(3) by (auto simp: Cons r q_def split: option.splits)
  have lev: "pct_level ?th \<le> of_int q" "0 \<le> pct_level ?th"
    using q by (cases p; simp add: pct_level_def q_def new_throttle_def)+
  have "of_nat (th_emitted (run_ops emit_step ?th rs')) \<le>
         of_nat (th_emitted ?th) + (99 - pct_level ?th) / th_min_delta ?th +
         (last_time now rs' - now) / th_min_interval ?th"
    by (rule emitted_run_paid [OF _ _ _ order_refl lev(1) q(2) rest])
       (simp_all add: new_throttle_def assms)
  moreover have "(99 - pct_level ?th) / d \<le> 99 / d"
    using lev(2) assms(1) by (simp add: divide_right_mono)
  moreover have "(last_time now rs' - now) / i \<le> (last_time now rs' - t0) / i"
    using tn assms(2) by (simp add: divide_right_mono)
  moreover have "emit_step (new_throttle d i) r = ?th"
    by (simp add: emit_step_def should_emit_def r new_throttle_def)
  ultimately show ?thesis
    by (simp add: Cons r new_throttle_def)
qed

theorem throttled_writes_bounded_witness:
  "climbing 0 0 [(0, Some 0), (1/10, Some 0), (2/10, Some 3), (3/10, None)] \<and>
   (of_nat (th_emitted (run_ops emit_step (new_throttle 1 (1/2))
      [(0, Some 0), (1/10, Some 0), (2/10, Some 3), (3/10, None)])) :: rat)
     \<le> 1 + 99 / 1 + (last_time 0 [(0, Some 0), (1/10, Some 0), (2/10, Some 3), (3/10, None)] - 0) / (1/2)"
proof -
  have c: "climbing 0 0 [(0, Some 0), (1/10, Some 0), (2/10, Some 3), (3/10, None)]"
    by simp
  from throttled_writes_bounded [OF _ _ c, of 1 "1/2"] c show ?thesis by simp
qed

end
