(* ===== verification/Jobs_Store.thy ===== *)
theory Jobs_Store
  imports Jobs_Lifecycle Jobs_Progress Py_Value "HOL-Library.Product_Lexorder"
begin

text \<open>
  The durable job store, \<open>app/services/jobs/store.py\<close>, over the table \<open>analysis_tasks\<close>
  (\<open>app/models/db_model.py\<close>): the table is the list of its rows in storage order and every
  conditional \<open>UPDATE\<close> is one \<open>sql_update\<close>, whose row count the code branches on. The clock is
  the argument \<open>now\<close> (all reads of \<open>_utcnow()\<close> inside one operation return it). Operations of
  several statements take an environment \<open>env\<close>: \<open>env i\<close> is what other transactions commit
  between statement \<open>i\<close> and the next one. The redactors of \<open>redaction.py\<close> and the digest of
  \<open>core/owner_tokens.py\<close> are arguments.
\<close>

section \<open>Rows\<close>

record job =
  jb_id :: int
  jb_task_type :: string
  jb_job_kind :: string
  jb_display_name :: string
  jb_creator_id :: "string option"
  jb_owner_token :: "string option"
  jb_org_id :: "int option"
  jb_session_id :: "string option"
  jb_project_id :: "string option"
  jb_parameters :: pyval
  jb_idempotency_key :: "string option"
  jb_celery_task_id :: "string option"
  jb_run_id :: "string option"
  jb_turn_id :: "string option"
  jb_tool_call_id :: "string option"
  jb_agent_task_id :: "string option"
  jb_agent_step_id :: "string option"
  jb_status :: string
  jb_progress :: int
  jb_progress_message :: "string option"
  jb_result_summary :: "pyval option"
  jb_result_ref :: "string option"
  jb_error_trace :: "string option"
  jb_attempt :: "int option"
  jb_retry_count :: "int option"
  jb_max_retries :: "int option"
  jb_created_at :: time
  jb_updated_at :: "time option"
  jb_queued_at :: "time option"
  jb_started_at :: "time option"
  jb_completed_at :: "time option"
  jb_heartbeat_at :: "time option"
  jb_cancel_requested_at :: "time option"
  jb_worker_id :: "string option"
  jb_dispatch_spec :: "pyval option"

type_synonym job_table = "job list"
type_synonym environment = "nat \<Rightarrow> job_table \<Rightarrow> job_table"

definition idle :: environment where
  "idle i db = db"

text \<open>\<open>(x or d)\<close> on an optional string: empty is falsy.\<close>

definition text_or :: "string option \<Rightarrow> string \<Rightarrow> string" where
  "text_or x d = (case x of None \<Rightarrow> d | Some s \<Rightarrow> if s = [] then d else s)"

definition NON_OWNER_IDS :: "string list" where
  "NON_OWNER_IDS = [[], ''anonymous'', ''none'', ''null'']"

definition normalize_owner_id :: "string option \<Rightarrow> string option" where
  "normalize_owner_id owner_id = (case owner_id of
     None \<Rightarrow> None
   | Some o_id \<Rightarrow>
       let text = strip o_id
       in if text = [] \<or> lower text \<in> set NON_OWNER_IDS then None else Some text)"

definition worker_identity :: "string \<Rightarrow> int \<Rightarrow> string" where
  "worker_identity host pid = take 128 (host @ '':'' @ int_str pid)"

datatype job_not_found = JobNotFound string
datatype integrity_error = IntegrityError

text \<open>
  The three ways a caller proves ownership; with none of them the predicate is false on every
  row. A null column never equals anything, as in SQL. \<open>digest\<close> is what the token column
  applies to the values it binds.
\<close>

definition ownership_predicate ::
  "(string \<Rightarrow> string) \<Rightarrow> string option \<Rightarrow> string option \<Rightarrow> string list option \<Rightarrow> job \<Rightarrow> bool" where
  "ownership_predicate digest owner_id owner_token session_ids r =
     ((case normalize_owner_id owner_id of None \<Rightarrow> False | Some u \<Rightarrow> jb_creator_id r = Some u) \<or>
      (case owner_token of None \<Rightarrow> False
       | Some tok \<Rightarrow> tok \<noteq> [] \<and> jb_owner_token r = Some (digest tok)) \<or>
      (case session_ids of None \<Rightarrow> False
       | Some ids \<Rightarrow> (case jb_session_id r of None \<Rightarrow> False | Some sid \<Rightarrow> sid \<in> set ids)))"

definition is_reusable :: "int \<Rightarrow> time \<Rightarrow> job \<Rightarrow> bool" where
  "is_reusable ttl_env now r =
     (let status = coerce_status (Text (jb_status r))
      in if \<not> is_terminal (Status status) then True
         else if status \<noteq> J_completed then False
         else (case (case jb_completed_at r of Some t \<Rightarrow> Some t | None \<Rightarrow> jb_updated_at r) of
                 None \<Rightarrow> False
               | Some stamp \<Rightarrow>
                   let ttl_s = max 0 ttl_env in now - stamp \<le> ttl_s * 1000000))"

section \<open>Construction\<close>

datatype error_arg = Exc string string | ErrText string

record redactors =
  rd_parameters :: "pyval \<Rightarrow> pyval"
  rd_result :: "pyval option \<Rightarrow> pyval option"
  rd_error :: "error_arg option \<Rightarrow> string option"
  rd_dispatch :: "pyval option \<Rightarrow> pyval option"

text \<open>
  The keyword arguments of \<open>build\<close>. Those \<open>create\<close> may take from the tool call's origin are
  optional twice: an absent argument is \<open>None\<close>, one given as \<open>None\<close> is \<open>Some None\<close>.
\<close>

record job_kwargs =
  kw_task_type :: string
  kw_kind :: "job_kind + string"
  kw_display_name :: "string option"
  kw_owner_id :: "string option option"
  kw_owner_token :: "string option option"
  kw_org_id :: "int option option"
  kw_session_id :: "string option option"
  kw_project_id :: "string option option"
  kw_parameters :: pyval
  kw_idempotency_key :: "string option"
  kw_celery_task_id :: "string option"
  kw_run_id :: "string option option"
  kw_turn_id :: "string option option"
  kw_tool_call_id :: "string option option"
  kw_agent_task_id :: "string option option"
  kw_agent_step_id :: "string option option"
  kw_max_retries :: int
  kw_status :: job_status
  kw_dispatch_spec :: "pyval option"

definition given :: "'a option option \<Rightarrow> 'a option" where
  "given x = or_else x None"

definition build ::
  "redactors \<Rightarrow> (string \<Rightarrow> string) \<Rightarrow> time \<Rightarrow> int \<Rightarrow> job_kwargs \<Rightarrow> job" where
  "build rd digest now new_id kw =
     (let kind_val = (case kw_kind kw of Inl k \<Rightarrow> kind_value k | Inr t \<Rightarrow> t)
      in \<lparr>jb_id = new_id,
          jb_task_type = take 50 (kw_task_type kw),
          jb_job_kind = take 20 kind_val,
          jb_display_name = take 200 (text_or (kw_display_name kw) (kw_task_type kw)),
          jb_creator_id = normalize_owner_id (given (kw_owner_id kw)),
          jb_owner_token = map_option digest (given (kw_owner_token kw)),
          jb_org_id = given (kw_org_id kw),
          jb_session_id = given (kw_session_id kw),
          jb_project_id = given (kw_project_id kw),
          jb_parameters = rd_parameters rd (kw_parameters kw),
          jb_idempotency_key = kw_idempotency_key kw,
          jb_celery_task_id = kw_celery_task_id kw,
          jb_run_id = given (kw_run_id kw),
          jb_turn_id = given (kw_turn_id kw),
          jb_tool_call_id = given (kw_tool_call_id kw),
          jb_agent_task_id = given (kw_agent_task_id kw),
          jb_agent_step_id = given (kw_agent_step_id kw),
          jb_status = status_value (kw_status kw),
          jb_progress = 0,
          jb_progress_message = None,
          jb_result_summary = None,
          jb_result_ref = None,
          jb_error_trace = None,
          jb_attempt = Some 1,
          jb_retry_count = Some 0,
          jb_max_retries = Some (kw_max_retries kw),
          jb_created_at = now,
          jb_updated_at = Some now,
          jb_queued_at = None,
          jb_started_at = None,
          jb_completed_at = None,
          jb_heartbeat_at = None,
          jb_cancel_requested_at = None,
          jb_worker_id = None,
          jb_dispatch_spec = rd_dispatch rd (kw_dispatch_spec kw)\<rparr>)"

text \<open>
  The table's constraints: a primary key from the table's sequence, and unique non-null
  idempotency keys and Celery task ids. A statement whose outcome would repeat one of them
  raises and changes nothing.
\<close>

definition next_job_id :: "job_table \<Rightarrow> int" where
  "next_job_id db = foldr max (List.map jb_id db) 0 + 1"

definition unique_col :: "(job \<Rightarrow> string option) \<Rightarrow> job_table \<Rightarrow> bool" where
  "unique_col col t = distinct (List.map_filter col t)"

definition insert_job :: "job \<Rightarrow> job_table \<Rightarrow> integrity_error + job_table" where
  "insert_job j db =
     (if unique_col jb_idempotency_key (db @ [j]) \<and> unique_col jb_celery_task_id (db @ [j])
      then Inr (db @ [j]) else Inl IntegrityError)"

definition checked :: "job_table \<times> bool \<Rightarrow> integrity_error + job_table \<times> bool" where
  "checked res = (if unique_col jb_celery_task_id (fst res) then Inr res else Inl IntegrityError)"

section \<open>Reads\<close>

datatype job_id_arg = Id_int int | Id_str string

fun job_id_int :: "job_id_arg \<Rightarrow> int option" where
  "job_id_int (Id_int n) = Some n"
| "job_id_int (Id_str s) = py_int s"

definition id_text :: "job_id_arg \<Rightarrow> string" where
  "id_text a = (case a of Id_int n \<Rightarrow> int_str n | Id_str s \<Rightarrow> s)"

definition get_job :: "job_table \<Rightarrow> job_id_arg \<Rightarrow> job option" where
  "get_job db job_id = (case job_id_int job_id of
     None \<Rightarrow> None
   | Some n \<Rightarrow> row_at jb_id n db)"

definition get_job_sync :: "job_table \<Rightarrow> job_id_arg \<Rightarrow> job option" where
  "get_job_sync db job_id = (case job_id_int job_id of
     None \<Rightarrow> None
   | Some n \<Rightarrow> row_at jb_id n db)"

definition get_by_idempotency_key :: "job_table \<Rightarrow> string \<Rightarrow> job option" where
  "get_by_idempotency_key db key = sql_first (\<lambda>r. jb_idempotency_key r = Some key) db"

definition get_by_celery_id :: "job_table \<Rightarrow> string \<Rightarrow> job option" where
  "get_by_celery_id db cid =
     (if cid = [] then None else sql_first (\<lambda>r. jb_celery_task_id r = Some cid) db)"

definition get_for_owner ::
  "(string \<Rightarrow> string) \<Rightarrow> job_table \<Rightarrow> job_id_arg \<Rightarrow> string option \<Rightarrow> string option \<Rightarrow>
   string list option \<Rightarrow> job_not_found + job" where
  "get_for_owner digest db job_id owner_id owner_token session_ids =
     (case job_id_int job_id of
        None \<Rightarrow> Inl (JobNotFound (id_text job_id))
      | Some n \<Rightarrow>
          (case sql_first (\<lambda>r. jb_id r = n \<and>
                  ownership_predicate digest owner_id owner_token session_ids r) db of
             None \<Rightarrow> Inl (JobNotFound (id_text job_id))
           | Some r \<Rightarrow> Inr r))"

definition DEFAULT_LIST_LIMIT :: int where "DEFAULT_LIST_LIMIT = 50"
definition MAX_LIST_LIMIT :: int where "MAX_LIST_LIMIT = 200"

definition active_values :: "string list" where
  "active_values = List.map status_value ACTIVE_STATUSES"

definition list_stmt ::
  "(string \<Rightarrow> string) \<Rightarrow> string option \<Rightarrow> string option \<Rightarrow> string list option \<Rightarrow> bool \<Rightarrow>
   string option \<Rightarrow> nat \<Rightarrow> job_table \<Rightarrow> job list" where
  "list_stmt digest owner_id owner_token session_ids active_only agent_task_id limit db =
     take limit
       (sort_key (\<lambda>r. (- jb_created_at r, - jb_id r))
         (filter (\<lambda>r. ownership_predicate digest owner_id owner_token session_ids r \<and>
                      (active_only \<longrightarrow> jb_status r \<in> set active_values) \<and>
                      (truthy agent_task_id \<longrightarrow> jb_agent_task_id r = agent_task_id)) db))"

definition list_for_owner ::
  "(string \<Rightarrow> string) \<Rightarrow> job_table \<Rightarrow> string option \<Rightarrow> string option \<Rightarrow> string list option \<Rightarrow>
   bool \<Rightarrow> string option \<Rightarrow> int option \<Rightarrow> job list" where
  "list_for_owner digest db owner_id owner_token session_ids active_only agent_task_id limit =
     (let bounded = max 1 (min (int_or limit DEFAULT_LIST_LIMIT) MAX_LIST_LIMIT)
      in list_stmt digest owner_id owner_token session_ids active_only agent_task_id
           (nat bounded) db)"

definition has_active_for_owner ::
  "(string \<Rightarrow> string) \<Rightarrow> job_table \<Rightarrow> string option \<Rightarrow> string option \<Rightarrow> string list option \<Rightarrow> bool" where
  "has_active_for_owner digest db owner_id owner_token session_ids =
     (sql_first (\<lambda>r. ownership_predicate digest owner_id owner_token session_ids r \<and>
        jb_status r \<in> set active_values) db \<noteq> None)"

definition verify_celery_owner ::
  "(string \<Rightarrow> string) \<Rightarrow> job_table \<Rightarrow> string \<Rightarrow> string option \<Rightarrow> string option \<Rightarrow>
   string list option \<Rightarrow> bool" where
  "verify_celery_owner digest db cid owner_id owner_token session_ids =
     (if cid = [] then False
      else sql_first (\<lambda>r. jb_celery_task_id r = Some cid \<and>
             ownership_predicate digest owner_id owner_token session_ids r) db \<noteq> None)"

definition is_terminal_job :: "job \<Rightarrow> bool" where
  "is_terminal_job r = is_terminal (Text (jb_status r))"

section \<open>Creation\<close>

text \<open>
  The origin of a tool call: the values it fills in for absent arguments, and the ids of the
  jobs it created.
\<close>

record job_origin =
  or_session_id :: "string option"
  or_owner_id :: "string option"
  or_owner_token :: "string option"
  or_org_id :: "int option"
  or_project_id :: "string option"
  or_run_id :: "string option"
  or_turn_id :: "string option"
  or_tool_call_id :: "string option"
  or_agent_task_id :: "string option"
  or_agent_step_id :: "string option"
  or_created_job_ids :: "string list"

definition record_job :: "job_origin \<Rightarrow> int \<Rightarrow> job_origin" where
  "record_job o_ctx job_id =
     (let sid = int_str job_id
      in if sid \<notin> set (or_created_job_ids o_ctx)
         then o_ctx\<lparr>or_created_job_ids := or_created_job_ids o_ctx @ [sid]\<rparr> else o_ctx)"

definition set_default :: "'a option \<Rightarrow> 'a \<Rightarrow> 'a option" where
  "set_default x d = (case x of None \<Rightarrow> Some d | Some v \<Rightarrow> Some v)"

definition fill_origin :: "job_origin \<Rightarrow> job_kwargs \<Rightarrow> job_kwargs" where
  "fill_origin o_ctx kw = kw\<lparr>
     kw_session_id := set_default (kw_session_id kw) (or_session_id o_ctx),
     kw_owner_id := set_default (kw_owner_id kw) (or_owner_id o_ctx),
     kw_owner_token := set_default (kw_owner_token kw) (or_owner_token o_ctx),
     kw_org_id := set_default (kw_org_id kw) (or_org_id o_ctx),
     kw_project_id := set_default (kw_project_id kw) (or_project_id o_ctx),
     kw_run_id := set_default (kw_run_id kw) (or_run_id o_ctx),
     kw_turn_id := set_default (kw_turn_id kw) (or_turn_id o_ctx),
     kw_tool_call_id := set_default (kw_tool_call_id kw) (or_tool_call_id o_ctx),
     kw_agent_task_id := set_default (kw_agent_task_id kw) (or_agent_task_id o_ctx),
     kw_agent_step_id := set_default (kw_agent_step_id kw) (or_agent_step_id o_ctx)\<rparr>"

text \<open>
  The flush of \<open>existing.idempotency_key = None\<close>: an update of that row by its primary key
  (every update of the table stamps \<open>updated_at\<close>, the column's \<open>onupdate\<close>).
\<close>

definition release_key :: "time \<Rightarrow> job \<Rightarrow> job_table \<Rightarrow> job_table" where
  "release_key now existing db =
     fst (sql_update (\<lambda>r. jb_id r = jb_id existing)
       (\<lambda>r. r\<lparr>jb_idempotency_key := None, jb_updated_at := Some now\<rparr>) db)"

definition insert_or_reread ::
  "redactors \<Rightarrow> (string \<Rightarrow> string) \<Rightarrow> environment \<Rightarrow> time \<Rightarrow> job_kwargs \<Rightarrow> job_table \<Rightarrow>
   job_table \<times> (integrity_error + job)" where
  "insert_or_reread rd digest env now kw db =
     (let job = build rd digest now (next_job_id db) kw
      in case insert_job job db of
           Inr db' \<Rightarrow> (db', Inr job)
         | Inl e \<Rightarrow>
             let db' = env 2 db
             in if truthy (kw_idempotency_key kw)
                then (case get_by_idempotency_key db' (or_else (kw_idempotency_key kw) []) of
                        Some existing \<Rightarrow> (db', Inr existing)
                      | None \<Rightarrow> (db', Inl e))
                else (db', Inl e))"

definition create_job ::
  "redactors \<Rightarrow> (string \<Rightarrow> string) \<Rightarrow> int \<Rightarrow> environment \<Rightarrow> time \<Rightarrow> job_origin option \<Rightarrow>
   job_kwargs \<Rightarrow> job_table \<Rightarrow> job_table \<times> job_origin option \<times> (integrity_error + job)" where
  "create_job rd digest ttl_env env now origin kwargs db =
     (let kw = (case origin of None \<Rightarrow> kwargs | Some o_ctx \<Rightarrow> fill_origin o_ctx kwargs);
          found = (\<lambda>j. map_option (\<lambda>o_ctx. record_job o_ctx (jb_id j)) origin);
          inserting = (\<lambda>db. case insert_or_reread rd digest env now kw db of
             (db', Inr j) \<Rightarrow> (db', found j, Inr j)
           | (db', Inl e) \<Rightarrow> (db', origin, Inl e))
      in if truthy (kw_idempotency_key kw)
         then (case get_by_idempotency_key db (or_else (kw_idempotency_key kw) []) of
                 None \<Rightarrow> inserting (env 1 (env 0 db))
               | Some existing \<Rightarrow>
                   if is_reusable ttl_env now existing then (db, found existing, Inr existing)
                   else inserting (env 1 (release_key now existing (env 0 db))))
         else inserting (env 1 (env 0 db)))"

definition create_job_sync ::
  "redactors \<Rightarrow> (string \<Rightarrow> string) \<Rightarrow> int \<Rightarrow> environment \<Rightarrow> time \<Rightarrow>
   job_kwargs \<Rightarrow> job_table \<Rightarrow> job_table \<times> (integrity_error + job)" where
  "create_job_sync rd digest ttl_env env now kw db =
     (let inserting = (\<lambda>db. insert_or_reread rd digest env now kw db)
      in if truthy (kw_idempotency_key kw)
         then (case get_by_idempotency_key db (or_else (kw_idempotency_key kw) []) of
                 None \<Rightarrow> inserting (env 1 (env 0 db))
               | Some existing \<Rightarrow>
                   if is_reusable ttl_env now existing then (db, Inr existing)
                   else inserting (env 1 (release_key now existing (env 0 db))))
         else inserting (env 1 (env 0 db)))"

section \<open>Transitions\<close>

text \<open>
  One conditional update: the row by id, its status among the legal predecessors, and the
  fencing predicates when the caller names a worker or an attempt.
\<close>

definition transition_where ::
  "int \<Rightarrow> job_status list \<Rightarrow> string option \<Rightarrow> int option \<Rightarrow> job \<Rightarrow> bool" where
  "transition_where job_id allowed require_worker_id require_attempt r =
     (jb_id r = job_id \<and>
      jb_status r \<in> set (List.map status_value allowed) \<and>
      (case require_worker_id of None \<Rightarrow> True | Some w \<Rightarrow> jb_worker_id r = Some w) \<and>
      (case require_attempt of None \<Rightarrow> True | Some a \<Rightarrow> jb_attempt r = Some a))"

definition transition_stmt ::
  "time \<Rightarrow> int \<Rightarrow> job_status \<Rightarrow> job_status list option \<Rightarrow> (job \<Rightarrow> job) \<Rightarrow> string option \<Rightarrow>
   int option \<Rightarrow> job_table \<Rightarrow> job_table \<times> nat" where
  "transition_stmt now job_id target expected extra require_worker_id require_attempt db =
     (let allowed = (case expected of Some e \<Rightarrow> e | None \<Rightarrow> sources_for (Status target))
      in sql_update (transition_where job_id allowed require_worker_id require_attempt)
           (\<lambda>r. extra (r\<lparr>jb_status := status_value target, jb_updated_at := Some now\<rparr>)) db)"

definition transition ::
  "time \<Rightarrow> job_table \<Rightarrow> job_id_arg \<Rightarrow> job_status \<Rightarrow> job_status list option \<Rightarrow> string option \<Rightarrow>
   int option \<Rightarrow> (job \<Rightarrow> job) \<Rightarrow> job_table \<times> bool" where
  "transition now db job_id target expected require_worker_id require_attempt extra =
     (case job_id_int job_id of
        None \<Rightarrow> (db, False)
      | Some n \<Rightarrow>
          let (db', rowcount) =
            transition_stmt now n target expected extra require_worker_id require_attempt db
          in (db', rowcount \<noteq> 0))"

definition transition_sync ::
  "time \<Rightarrow> job_table \<Rightarrow> job_id_arg \<Rightarrow> job_status \<Rightarrow> job_status list option \<Rightarrow> string option \<Rightarrow>
   int option \<Rightarrow> (job \<Rightarrow> job) \<Rightarrow> job_table \<times> bool" where
  "transition_sync now db job_id target expected require_worker_id require_attempt extra =
     (case job_id_int job_id of
        None \<Rightarrow> (db, False)
      | Some n \<Rightarrow>
          let (db', rowcount) =
            transition_stmt now n target expected extra require_worker_id require_attempt db
          in (db', rowcount \<noteq> 0))"

definition mark_queued ::
  "time \<Rightarrow> job_table \<Rightarrow> job_id_arg \<Rightarrow> string option \<Rightarrow> integrity_error + job_table \<times> bool" where
  "mark_queued now db job_id cid =
     checked (transition now db job_id J_queued (Some [J_pending]) None None
       (\<lambda>r. if truthy cid then r\<lparr>jb_queued_at := Some now, jb_celery_task_id := cid\<rparr>
            else r\<lparr>jb_queued_at := Some now\<rparr>))"

definition mark_running_sync ::
  "string \<Rightarrow> time \<Rightarrow> job_table \<Rightarrow> job_id_arg \<Rightarrow> string option \<Rightarrow> job_table \<times> bool" where
  "mark_running_sync identity now db job_id worker_id =
     transition_sync now db job_id J_running None None None
       (\<lambda>r. r\<lparr>jb_started_at := Some now, jb_heartbeat_at := Some now,
             jb_worker_id := Some (text_or worker_id identity)\<rparr>)"

definition mark_running ::
  "string \<Rightarrow> time \<Rightarrow> job_table \<Rightarrow> job_id_arg \<Rightarrow> string option \<Rightarrow> job_table \<times> bool" where
  "mark_running identity now db job_id worker_id =
     transition now db job_id J_running None None None
       (\<lambda>r. r\<lparr>jb_started_at := Some now, jb_heartbeat_at := Some now,
             jb_worker_id := Some (text_or worker_id identity)\<rparr>)"

definition terminal_fields :: "time \<Rightarrow> job \<Rightarrow> job" where
  "terminal_fields now r = r\<lparr>jb_completed_at := Some now, jb_heartbeat_at := None\<rparr>"

text \<open>Column reads that bypass the object cache; an unknown id reads as pending.\<close>

definition status_and_started_at :: "job_table \<Rightarrow> job_id_arg \<Rightarrow> job_status \<times> time option" where
  "status_and_started_at db job_id = (case job_id_int job_id of
     None \<Rightarrow> (J_pending, None)
   | Some n \<Rightarrow>
       (case row_at jb_id n db of
          None \<Rightarrow> (J_pending, None)
        | Some r \<Rightarrow> (coerce_status (Text (jb_status r)), jb_started_at r)))"

definition status_sync :: "job_table \<Rightarrow> job_id_arg \<Rightarrow> job_status" where
  "status_sync db job_id = (case job_id_int job_id of
     None \<Rightarrow> J_pending
   | Some n \<Rightarrow>
       (case row_at jb_id n db of
          None \<Rightarrow> coerce_status NoStatus
        | Some r \<Rightarrow> coerce_status (Text (jb_status r))))"

definition confirm_cancelled ::
  "time \<Rightarrow> job_table \<Rightarrow> job_id_arg \<Rightarrow> string option \<Rightarrow> string option \<Rightarrow> int option \<Rightarrow>
   job_table \<times> bool" where
  "confirm_cancelled now db job_id msg worker_id attempt =
     transition now db job_id J_cancelled None worker_id attempt
       (\<lambda>r. terminal_fields now
          (r\<lparr>jb_progress_message := Some (take 255 (text_or msg ''cancelled''))\<rparr>))"

definition confirm_cancelled_sync ::
  "time \<Rightarrow> job_table \<Rightarrow> job_id_arg \<Rightarrow> string option \<Rightarrow> string option \<Rightarrow> int option \<Rightarrow>
   job_table \<times> bool" where
  "confirm_cancelled_sync now db job_id msg worker_id attempt =
     transition_sync now db job_id J_cancelled None worker_id attempt
       (\<lambda>r. terminal_fields now
          (r\<lparr>jb_progress_message := Some (take 255 (text_or msg ''cancelled''))\<rparr>))"

definition succeeded_fields ::
  "redactors \<Rightarrow> time \<Rightarrow> pyval option \<Rightarrow> string option \<Rightarrow> string option \<Rightarrow> job \<Rightarrow> job" where
  "succeeded_fields rd now result result_ref msg r = terminal_fields now
     (r\<lparr>jb_progress := 100,
        jb_progress_message := Some (take 255 (text_or msg ''completed'')),
        jb_result_summary := rd_result rd result,
        jb_result_ref := (if truthy result_ref then map_option (take 512) result_ref else None)\<rparr>)"

definition mark_succeeded ::
  "redactors \<Rightarrow> environment \<Rightarrow> time \<Rightarrow> job_table \<Rightarrow> job_id_arg \<Rightarrow> pyval option \<Rightarrow> string option \<Rightarrow>
   string option \<Rightarrow> string option \<Rightarrow> int option \<Rightarrow> job_table \<times> job_status" where
  "mark_succeeded rd env now db job_id result result_ref msg worker_id attempt =
     (let (db1, ok) = transition now db job_id J_completed None worker_id attempt
            (succeeded_fields rd now result result_ref msg)
      in if ok then (db1, J_completed)
         else
           let db2 = env 0 db1; current = fst (status_and_started_at db2 job_id)
           in if current = J_cancelling then
                let db3 = fst (confirm_cancelled now (env 1 db2) job_id
                       (Some ''late success discarded after cancel'') worker_id attempt);
                    db4 = env 2 db3
                in (db4, fst (status_and_started_at db4 job_id))
              else (db2, current))"

definition mark_succeeded_sync ::
  "redactors \<Rightarrow> environment \<Rightarrow> time \<Rightarrow> job_table \<Rightarrow> job_id_arg \<Rightarrow> pyval option \<Rightarrow> string option \<Rightarrow>
   string option \<Rightarrow> string option \<Rightarrow> int option \<Rightarrow> job_table \<times> job_status" where
  "mark_succeeded_sync rd env now db job_id result result_ref msg worker_id attempt =
     (let (db1, ok) = transition_sync now db job_id J_completed None worker_id attempt
            (succeeded_fields rd now result result_ref msg)
      in if ok then (db1, J_completed)
         else
           let db2 = env 0 db1; current = status_sync db2 job_id
           in if current = J_cancelling then
                let db3 = fst (confirm_cancelled_sync now (env 1 db2) job_id
                       (Some ''late success discarded after cancel'') worker_id attempt);
                    db4 = env 2 db3
                in (db4, status_sync db4 job_id)
              else (db2, current))"

definition failed_fields ::
  "redactors \<Rightarrow> time \<Rightarrow> error_arg option \<Rightarrow> string option \<Rightarrow> job \<Rightarrow> job" where
  "failed_fields rd now err msg r = terminal_fields now
     (r\<lparr>jb_error_trace := rd_error rd err,
        jb_progress_message := Some (take 255
          (text_or msg (text_or (rd_error rd err) ''failed'')))\<rparr>)"

definition mark_failed ::
  "redactors \<Rightarrow> time \<Rightarrow> job_table \<Rightarrow> job_id_arg \<Rightarrow> error_arg option \<Rightarrow> string option \<Rightarrow>
   string option \<Rightarrow> int option \<Rightarrow> job_table \<times> bool" where
  "mark_failed rd now db job_id err msg worker_id attempt =
     transition now db job_id J_failed None worker_id attempt (failed_fields rd now err msg)"

definition mark_failed_sync ::
  "redactors \<Rightarrow> time \<Rightarrow> job_table \<Rightarrow> job_id_arg \<Rightarrow> error_arg option \<Rightarrow> string option \<Rightarrow>
   string option \<Rightarrow> int option \<Rightarrow> job_table \<times> bool" where
  "mark_failed_sync rd now db job_id err msg worker_id attempt =
     transition_sync now db job_id J_failed None worker_id attempt (failed_fields rd now err msg)"

section \<open>Cancellation\<close>

definition cancel_fields :: "time \<Rightarrow> job \<Rightarrow> job" where
  "cancel_fields now r =
     r\<lparr>jb_cancel_requested_at := Some now, jb_progress_message := Some ''cancelling''\<rparr>"

definition request_cancel ::
  "environment \<Rightarrow> time \<Rightarrow> job_table \<Rightarrow> job_id_arg \<Rightarrow> job_table \<times> bool \<times> job_status" where
  "request_cancel env now db job_id =
     (let (db1, changed) =
            transition now db job_id J_cancelling None None None (cancel_fields now);
          db2 = env 0 db1;
          (current, started_at) = status_and_started_at db2 job_id
      in if changed \<and> current = J_cancelling \<and> started_at = None then
           let (db3, ok) = confirm_cancelled now (env 1 db2) job_id
                 (Some ''cancelled before start'') None None
           in if ok then (db3, True, J_cancelled) else (db3, changed, current)
         else (db2, changed, current))"

definition request_cancel_sync ::
  "environment \<Rightarrow> time \<Rightarrow> job_table \<Rightarrow> job_id_arg \<Rightarrow> job_table \<times> bool \<times> job_status" where
  "request_cancel_sync env now db job_id =
     (let (db1, changed) =
            transition_sync now db job_id J_cancelling None None None (cancel_fields now);
          db2 = env 0 db1;
          row = (case job_id_int job_id of None \<Rightarrow> None | Some n \<Rightarrow> row_at jb_id n db2);
          current = coerce_status (case row of None \<Rightarrow> NoStatus | Some r \<Rightarrow> Text (jb_status r));
          started_at = (case row of None \<Rightarrow> None | Some r \<Rightarrow> jb_started_at r)
      in if changed \<and> current = J_cancelling \<and> started_at = None then
           let (db3, ok) = confirm_cancelled_sync now (env 1 db2) job_id
                 (Some ''cancelled before start'') None None
           in if ok then (db3, True, J_cancelled) else (db3, changed, current)
         else (db2, changed, current))"

definition set_celery_id :: "time \<Rightarrow> int \<Rightarrow> string \<Rightarrow> job_table \<Rightarrow> job_table \<times> nat" where
  "set_celery_id now n cid db = sql_update (\<lambda>r. jb_id r = n)
     (\<lambda>r. r\<lparr>jb_celery_task_id := Some cid, jb_updated_at := Some now\<rparr>) db"

definition attach_celery_task ::
  "time \<Rightarrow> job_table \<Rightarrow> job_id_arg \<Rightarrow> string \<Rightarrow> integrity_error + job_table \<times> bool" where
  "attach_celery_task now db job_id cid = (case job_id_int job_id of
     None \<Rightarrow> Inr (db, False)
   | Some n \<Rightarrow>
       if cid = [] then Inr (db, False)
       else let (db', rowcount) = set_celery_id now n cid db in checked (db', rowcount \<noteq> 0))"

definition set_celery_task_id_sync ::
  "time \<Rightarrow> job_table \<Rightarrow> job_id_arg \<Rightarrow> string \<Rightarrow> integrity_error + job_table \<times> bool" where
  "set_celery_task_id_sync now db job_id cid = (case job_id_int job_id of
     None \<Rightarrow> Inr (db, False)
   | Some n \<Rightarrow>
       if cid = [] then Inr (db, False)
       else let (db', rowcount) = set_celery_id now n cid db in checked (db', rowcount \<noteq> 0))"

definition is_cancel_requested_sync :: "job_table \<Rightarrow> job_id_arg \<Rightarrow> bool" where
  "is_cancel_requested_sync db job_id = (case job_id_int job_id of
     None \<Rightarrow> False
   | Some n \<Rightarrow>
       (case row_at jb_id n db of
          None \<Rightarrow> False
        | Some r \<Rightarrow> jb_cancel_requested_at r \<noteq> None \<or>
            coerce_status (Text (jb_status r)) \<in> set [J_cancelling, J_cancelled]))"

section \<open>Progress and heartbeat\<close>

definition progress_values :: "time \<Rightarrow> job_progress \<Rightarrow> job \<Rightarrow> job" where
  "progress_values now snapshot r =
     (let r1 = r\<lparr>jb_updated_at := Some now, jb_heartbeat_at := Some now\<rparr>;
          r2 = (case jp_progress snapshot of None \<Rightarrow> r1 | Some p \<Rightarrow> r1\<lparr>jb_progress := p\<rparr>)
      in case as_message snapshot of None \<Rightarrow> r2 | Some m \<Rightarrow> r2\<lparr>jb_progress_message := Some m\<rparr>)"

definition active_where :: "int \<Rightarrow> string option \<Rightarrow> int option \<Rightarrow> job \<Rightarrow> bool" where
  "active_where job_id require_worker_id require_attempt r =
     (jb_id r = job_id \<and> jb_status r \<in> set active_values \<and>
      (case require_worker_id of None \<Rightarrow> True | Some w \<Rightarrow> jb_worker_id r = Some w) \<and>
      (case require_attempt of None \<Rightarrow> True | Some a \<Rightarrow> jb_attempt r = Some a))"

definition progress_stmt ::
  "time \<Rightarrow> int \<Rightarrow> job_progress \<Rightarrow> string option \<Rightarrow> int option \<Rightarrow> job_table \<Rightarrow> job_table \<times> nat" where
  "progress_stmt now job_id snapshot require_worker_id require_attempt db =
     sql_update (active_where job_id require_worker_id require_attempt)
       (progress_values now snapshot) db"

definition update_progress ::
  "time \<Rightarrow> job_table \<Rightarrow> job_id_arg \<Rightarrow> job_progress \<Rightarrow> string option \<Rightarrow> int option \<Rightarrow>
   job_table \<times> bool" where
  "update_progress now db job_id snapshot worker_id attempt = (case job_id_int job_id of
     None \<Rightarrow> (db, False)
   | Some n \<Rightarrow>
       let (db', rowcount) = progress_stmt now n (clamped snapshot) worker_id attempt db
       in (db', rowcount \<noteq> 0))"

definition update_progress_sync ::
  "time \<Rightarrow> job_table \<Rightarrow> job_id_arg \<Rightarrow> job_progress \<Rightarrow> string option \<Rightarrow> int option \<Rightarrow>
   job_table \<times> bool" where
  "update_progress_sync now db job_id snapshot worker_id attempt = (case job_id_int job_id of
     None \<Rightarrow> (db, False)
   | Some n \<Rightarrow>
       let (db', rowcount) = progress_stmt now n (clamped snapshot) worker_id attempt db
       in (db', rowcount \<noteq> 0))"

definition heartbeat_sync ::
  "time \<Rightarrow> job_table \<Rightarrow> job_id_arg \<Rightarrow> string option \<Rightarrow> int option \<Rightarrow> job_table \<times> bool" where
  "heartbeat_sync now db job_id worker_id attempt = (case job_id_int job_id of
     None \<Rightarrow> (db, False)
   | Some n \<Rightarrow>
       let (db', rowcount) = sql_update (active_where n worker_id attempt)
             (\<lambda>r. r\<lparr>jb_heartbeat_at := Some now, jb_updated_at := Some now\<rparr>) db
       in (db', rowcount \<noteq> 0))"

section \<open>Sweeps\<close>

definition DEFAULT_STALE_AFTER_S :: int where "DEFAULT_STALE_AFTER_S = 300"
definition ORPHAN_AFTER_S :: int where "ORPHAN_AFTER_S = 3600"

definition stale_predicate :: "time \<Rightarrow> job \<Rightarrow> bool" where
  "stale_predicate cutoff r =
     (jb_status r \<in> set [status_value J_running, status_value J_cancelling] \<and>
      (case jb_heartbeat_at r of
         Some t \<Rightarrow> t < cutoff
       | None \<Rightarrow> (case jb_started_at r of None \<Rightarrow> False | Some t \<Rightarrow> t < cutoff)))"

definition orphan_predicate :: "time \<Rightarrow> job \<Rightarrow> bool" where
  "orphan_predicate cutoff r =
     (jb_status r \<in> set [status_value J_pending, status_value J_queued] \<and> jb_created_at r < cutoff)"

text \<open>
  Both sweeps read their rows with one query and then move them one by one; \<open>env i\<close> commits
  before the \<open>i\<close>-th of those statements. The result counts the statements that found their row.
\<close>

fun sweep_rows ::
  "(job \<Rightarrow> job_table \<Rightarrow> job_table \<times> bool) \<Rightarrow> environment \<Rightarrow> nat \<Rightarrow> job list \<Rightarrow> job_table \<Rightarrow>
   job_table \<times> nat" where
  "sweep_rows act env i [] db = (db, 0)"
| "sweep_rows act env i (j # js) db =
     (let (db1, ok) = act j (env i db); (db2, swept) = sweep_rows act env (Suc i) js db1
      in (db2, (if ok then Suc swept else swept)))"

definition orphan_fields :: "time \<Rightarrow> job \<Rightarrow> job" where
  "orphan_fields now r = terminal_fields now
     (r\<lparr>jb_progress_message := Some ''never picked up by a worker'',
        jb_error_trace := Some ''job orphaned: never picked up by a worker''\<rparr>)"

definition sweep_orphan :: "time \<Rightarrow> job \<Rightarrow> job_table \<Rightarrow> job_table \<times> bool" where
  "sweep_orphan now j db = transition now db (Id_int (jb_id j)) J_failed
     (Some [J_pending, J_queued]) None None (orphan_fields now)"

definition sweep_orphans ::
  "environment \<Rightarrow> time \<Rightarrow> int option \<Rightarrow> nat \<Rightarrow> job_table \<Rightarrow> job_table \<times> nat" where
  "sweep_orphans env now orphan_after_s limit db =
     (let seconds = or_else orphan_after_s ORPHAN_AFTER_S;
          cutoff = now - seconds * 1000000;
          rows = take limit (sql_where (orphan_predicate cutoff) db)
      in sweep_rows (sweep_orphan now) env 0 rows db)"

definition find_stale :: "time \<Rightarrow> int \<Rightarrow> nat \<Rightarrow> job_table \<Rightarrow> job list" where
  "find_stale now stale_after_s limit db =
     take limit (sql_where (stale_predicate (now - stale_after_s * 1000000)) db)"

definition stale_fields :: "time \<Rightarrow> job \<Rightarrow> job" where
  "stale_fields now r = terminal_fields now
     (r\<lparr>jb_progress_message := Some ''worker heartbeat lost'',
        jb_error_trace := Some ''job marked stale: worker heartbeat lost''\<rparr>)"

definition sweep_stale_job :: "time \<Rightarrow> job \<Rightarrow> job_table \<Rightarrow> job_table \<times> bool" where
  "sweep_stale_job now j db =
     (if coerce_status (Text (jb_status j)) = J_cancelling
      then confirm_cancelled now db (Id_int (jb_id j))
             (Some ''cancelled (worker heartbeat lost)'') None None
      else transition now db (Id_int (jb_id j)) J_stale None None None (stale_fields now))"

definition sweep_stale ::
  "environment \<Rightarrow> time \<Rightarrow> int \<Rightarrow> nat \<Rightarrow> job_table \<Rightarrow> job_table \<times> nat" where
  "sweep_stale env now stale_after_s limit db =
     sweep_rows (sweep_stale_job now) env 0 (find_stale now stale_after_s limit db) db"

section \<open>Retry\<close>

definition retry_fields :: "time \<Rightarrow> int \<Rightarrow> int \<Rightarrow> job \<Rightarrow> job" where
  "retry_fields now new_attempt new_count r =
     r\<lparr>jb_attempt := Some new_attempt, jb_retry_count := Some new_count,
       jb_queued_at := Some now, jb_started_at := None, jb_completed_at := None,
       jb_cancel_requested_at := None, jb_heartbeat_at := None, jb_worker_id := None,
       jb_progress := 0, jb_progress_message := Some ''requeued for retry''\<rparr>"

definition start_retry ::
  "environment \<Rightarrow> time \<Rightarrow> job_table \<Rightarrow> job_id_arg \<Rightarrow> job_table \<times> bool \<times> string" where
  "start_retry env now db job_id = (case get_job db job_id of
     None \<Rightarrow> (db, False, ''not_found'')
   | Some job \<Rightarrow>
       let current = coerce_status (Text (jb_status job))
       in if current = J_cancelled then (db, False, ''cancelled_jobs_are_never_retried'')
          else if current \<notin> set [J_failed, J_stale]
          then (db, False, ''not_retryable_from_'' @ status_value current)
          else if int_or (jb_retry_count job) 0 \<ge> int_or (jb_max_retries job) 0
          then (db, False, ''max_retries_exhausted'')
          else (case jb_dispatch_spec job of
             Some (PDict spec) \<Rightarrow>
               if spec = [] then (db, False, ''no_dispatch_spec'')
               else if py_truthy (py_get spec ''__truncated__'')
               then (db, False, ''dispatch_spec_unusable'')
               else if \<not> py_truthy (py_get spec ''task'') then (db, False, ''no_dispatch_spec'')
               else
                 let (db', ok) = transition now (env 0 db) job_id J_queued
                       (Some [J_failed, J_stale]) None None
                       (retry_fields now (int_or (jb_attempt job) 1 + 1)
                          (int_or (jb_retry_count job) 0 + 1))
                 in (db', ok, if ok then ''requeued'' else ''state_changed_concurrently'')
           | _ \<Rightarrow> (db, False, ''no_dispatch_spec'')))"

end
