(* ===== verification/Jobs_Invariant.thy ===== *)
theory Jobs_Invariant
  imports Jobs_Store
begin

text \<open>
  What every operation of the job store keeps: the table invariant \<open>jobs_inv\<close> and the history
  relation \<open>jobs_rel\<close> (identity columns never change, a cancelled or completed row is frozen but
  for its idempotency key, its Celery id and its time stamp). Both are stated under an
  environment of other transactions that keeps them too; \<open>job_step\<close> collects the operations
  and instantiates the run locales.
\<close>

section \<open>The invariant and the history relation\<close>

definition terminal_values :: "string list" where
  "terminal_values = List.map status_value TERMINAL_STATUSES"

definition immutable_values :: "string list" where
  "immutable_values = List.map status_value IMMUTABLE_STATUSES"

definition attempts_ok :: "job \<Rightarrow> bool" where
  "attempts_ok r = (case (jb_attempt r, jb_retry_count r) of
     (Some a, Some n) \<Rightarrow> a = n + 1 \<and> 0 \<le> n \<and> n \<le> max 0 (int_or (jb_max_retries r) 0)
   | _ \<Rightarrow> False)"

definition job_ok :: "job \<Rightarrow> bool" where
  "job_ok r =
     (status_of_value (jb_status r) \<noteq> None \<and>
      0 \<le> jb_progress r \<and> jb_progress r \<le> 100 \<and> attempts_ok r \<and>
      (jb_status r \<in> set terminal_values \<longrightarrow> jb_completed_at r \<noteq> None \<and> jb_heartbeat_at r = None) \<and>
      (jb_status r \<in> set active_values \<longrightarrow> jb_completed_at r = None))"

definition jobs_inv :: "job_table \<Rightarrow> bool" where
  "jobs_inv db = (keyed jb_id db \<and> unique_col jb_idempotency_key db \<and>
     unique_col jb_celery_task_id db \<and> list_all job_ok db)"

definition same_identity :: "job \<Rightarrow> job \<Rightarrow> bool" where
  "same_identity r r' =
     (jb_id r' = jb_id r \<and> jb_task_type r' = jb_task_type r \<and> jb_creator_id r' = jb_creator_id r \<and>
      jb_owner_token r' = jb_owner_token r \<and> jb_session_id r' = jb_session_id r \<and>
      jb_org_id r' = jb_org_id r \<and> jb_parameters r' = jb_parameters r \<and>
      jb_created_at r' = jb_created_at r \<and> jb_max_retries r' = jb_max_retries r \<and>
      jb_dispatch_spec r' = jb_dispatch_spec r)"

definition frozen :: "job \<Rightarrow> job \<Rightarrow> bool" where
  "frozen r r' = (r' = r\<lparr>jb_idempotency_key := jb_idempotency_key r',
     jb_celery_task_id := jb_celery_task_id r', jb_updated_at := jb_updated_at r'\<rparr>)"

definition job_rel :: "job \<Rightarrow> job \<Rightarrow> bool" where
  "job_rel r r' = (same_identity r r' \<and> (jb_status r \<in> set immutable_values \<longrightarrow> frozen r r'))"

definition jobs_rel :: "job_table \<Rightarrow> job_table \<Rightarrow> bool" where
  "jobs_rel db db' = (\<forall>n r. row_at jb_id n db = Some r \<longrightarrow>
     (\<exists>r'. row_at jb_id n db' = Some r' \<and> job_rel r r'))"

text \<open>One step: the invariant holds again and the history relation joins the two tables.\<close>

definition good :: "job_table \<Rightarrow> job_table \<Rightarrow> bool" where
  "good db db' = (jobs_inv db' \<and> jobs_rel db db')"

definition env_ok :: "environment \<Rightarrow> bool" where
  "env_ok env = (\<forall>i db. jobs_inv db \<longrightarrow> good db (env i db))"

lemmas value_lists = terminal_values_def immutable_values_def active_values_def status_sets

lemma frozen_refl: "frozen r r"
  by (simp add: frozen_def)

lemma frozen_trans: "frozen a b \<Longrightarrow> frozen b c \<Longrightarrow> frozen a c"
  unfolding frozen_def by (cases a; cases b; cases c) simp

lemma frozen_status: "frozen a b \<Longrightarrow> jb_status b = jb_status a"
  unfolding frozen_def by (cases a; cases b) simp

lemma job_rel_refl: "job_rel r r"
  by (simp add: job_rel_def same_identity_def frozen_refl)

lemma job_rel_trans: "job_rel a b \<Longrightarrow> job_rel b c \<Longrightarrow> job_rel a c"
  by (auto simp: job_rel_def same_identity_def frozen_status intro: frozen_trans)

lemma job_rel_movable:
  "same_identity r r' \<Longrightarrow> jb_status r \<notin> set immutable_values \<Longrightarrow> job_rel r r'"
  by (simp add: job_rel_def)

lemma jobs_rel_refl: "jobs_rel db db"
  by (auto simp: jobs_rel_def job_rel_refl)

lemma jobs_rel_trans: "jobs_rel a b \<Longrightarrow> jobs_rel b c \<Longrightarrow> jobs_rel a c"
  unfolding jobs_rel_def by (metis job_rel_trans)

lemma good_refl: "jobs_inv db \<Longrightarrow> good db db"
  by (simp add: good_def jobs_rel_refl)

lemma good_trans: "good a b \<Longrightarrow> good b c \<Longrightarrow> good a c"
  by (auto simp: good_def intro: jobs_rel_trans)

lemma good_inv: "good a b \<Longrightarrow> jobs_inv b"
  by (simp add: good_def)

lemma env_good: "env_ok env \<Longrightarrow> jobs_inv db \<Longrightarrow> good db (env i db)"
  by (simp add: env_ok_def)

lemma env_ok_idle: "env_ok idle"
  by (simp add: env_ok_def idle_def good_refl)

lemma good_env: "env_ok env \<Longrightarrow> good a b \<Longrightarrow> good a (env i b)"
  by (blast intro: good_trans env_good good_inv)

lemma jobs_inv_row: "jobs_inv db \<Longrightarrow> row_at jb_id n db = Some r \<Longrightarrow> job_ok r"
  by (auto simp: jobs_inv_def list_all_iff dest: row_at_Some)

section \<open>Statements\<close>

lemma unique_col_map:
  assumes "\<And>r. r \<in> set t \<Longrightarrow> col (g r) = col r \<or> col (g r) = None" and "unique_col col t"
  shows "unique_col col (List.map g t)"
proof -
  have "set (List.map_filter col (List.map g t)) \<subseteq> set (List.map_filter col t) \<and>
        distinct (List.map_filter col (List.map g t))"
    using assms
    by (induction t) (auto simp: List.map_filter_simps unique_col_def split: option.splits, force+)
  then show ?thesis by (simp add: unique_col_def)
qed

text \<open>
  One update is good when each row it rewrites stays well-formed and related; the unique
  columns may only be kept or set to null.
\<close>

lemma sql_update_good:
  assumes inv: "jobs_inv db"
    and row: "\<And>r. r \<in> set db \<Longrightarrow> p r \<Longrightarrow> job_ok r \<Longrightarrow> job_ok (f r) \<and> job_rel r (f r)"
    and id_kept: "\<And>r. jb_id (f r) = jb_id r"
    and idem: "\<And>r. jb_idempotency_key (f r) = jb_idempotency_key r \<or> jb_idempotency_key (f r) = None"
    and celery: "unique_col jb_celery_task_id (fst (sql_update p f db))"
  shows "good db (fst (sql_update p f db))"
proof -
  have "unique_col jb_idempotency_key (fst (sql_update p f db))"
    unfolding sql_update_fst using idem inv
    by (intro unique_col_map) (auto simp: jobs_inv_def)
  moreover have "list_all job_ok (fst (sql_update p f db))"
    using inv row by (auto simp: sql_update_fst list_all_iff jobs_inv_def)
  moreover have "jobs_rel db (fst (sql_update p f db))"
    using inv row by (auto simp: jobs_rel_def row_at_sql_update [of jb_id f, OF id_kept] job_rel_refl
      jobs_inv_def list_all_iff dest: row_at_Some)
  ultimately show ?thesis
    using inv celery by (simp add: good_def jobs_inv_def keyed_sql_update [of jb_id f, OF id_kept])
qed

lemma celery_kept:
  assumes "jobs_inv db" and "\<And>r. jb_celery_task_id (f r) = jb_celery_task_id r"
  shows "unique_col jb_celery_task_id (fst (sql_update p f db))"
  unfolding sql_update_fst using assms by (intro unique_col_map) (auto simp: jobs_inv_def)

definition keeps_keys :: "(job \<Rightarrow> job) \<Rightarrow> bool" where
  "keeps_keys f = (\<forall>r. jb_id (f r) = jb_id r \<and> jb_idempotency_key (f r) = jb_idempotency_key r)"

definition keeps_celery :: "(job \<Rightarrow> job) \<Rightarrow> bool" where
  "keeps_celery f = (\<forall>r. jb_celery_task_id (f r) = jb_celery_task_id r)"

lemma transition_cases:
  "transition now db job_id target expected w a extra =
     (case job_id_int job_id of
        None \<Rightarrow> (db, False)
      | Some n \<Rightarrow>
         let st = sql_update (transition_where n
               (case expected of Some e \<Rightarrow> e | None \<Rightarrow> sources_for (Status target)) w a)
             (\<lambda>r. extra (r\<lparr>jb_status := status_value target, jb_updated_at := Some now\<rparr>)) db
         in (fst st, snd st \<noteq> 0))"
  by (simp add: transition_def transition_stmt_def Let_def split: option.splits prod.splits)

text \<open>
  A transition is good when its fields make a well-formed row of any well-formed row whose
  status is one of the allowed predecessors.
\<close>

lemma transition_good:
  assumes inv: "jobs_inv db" and keys: "keeps_keys extra" and celery: "keeps_celery extra"
    and row: "\<And>n r. job_id_int job_id = Some n \<Longrightarrow> row_at jb_id n db = Some r \<Longrightarrow> job_ok r \<Longrightarrow>
       jb_status r \<in> set (List.map status_value
          (case expected of Some e \<Rightarrow> e | None \<Rightarrow> sources_for (Status target))) \<Longrightarrow>
       job_ok (extra (r\<lparr>jb_status := status_value target, jb_updated_at := Some now\<rparr>)) \<and>
       job_rel r (extra (r\<lparr>jb_status := status_value target, jb_updated_at := Some now\<rparr>))"
  shows "good db (fst (transition now db job_id target expected w a extra))"
proof (cases "job_id_int job_id")
  case None
  with inv show ?thesis by (simp add: transition_cases good_refl)
next
  case (Some n)
  let ?allowed = "case expected of Some e \<Rightarrow> e | None \<Rightarrow> sources_for (Status target)"
  let ?f = "\<lambda>r. extra (r\<lparr>jb_status := status_value target, jb_updated_at := Some now\<rparr>)"
  have "good db (fst (sql_update (transition_where n ?allowed w a) ?f db))"
  proof (rule sql_update_good [OF inv])
    fix r
    assume r: "r \<in> set db" "transition_where n ?allowed w a r" "job_ok r"
    then have "row_at jb_id n db = Some r"
      using row_at_keyed [of jb_id db r] inv by (auto simp: transition_where_def jobs_inv_def)
    with row [OF Some _ r(3)] r(2) show "job_ok (?f r) \<and> job_rel r (?f r)"
      by (simp only: transition_where_def)
  qed (use keys celery celery_kept [OF inv, of ?f] in \<open>auto simp: keeps_keys_def keeps_celery_def\<close>)
  then show ?thesis by (simp add: transition_cases Some Let_def)
qed

section \<open>The transitions\<close>

lemma sources_of [simp]:
  "sources_for (Status J_queued) = [J_pending, J_failed, J_stale]"
  "sources_for (Status J_running) = [J_pending, J_queued]"
  "sources_for (Status J_cancelling) = [J_pending, J_queued, J_running]"
  "sources_for (Status J_cancelled) = [J_pending, J_queued, J_cancelling]"
  "sources_for (Status J_completed) = [J_running]"
  "sources_for (Status J_failed) = [J_pending, J_queued, J_running, J_cancelling]"
  "sources_for (Status J_stale) = [J_queued, J_running]"
  by (simp_all add: sources_for_def all_job_statuses_def)

text \<open>A status the code can move is neither of the two frozen ones.\<close>

lemma row_step:
  assumes "job_ok r" and "set allowed \<inter> set IMMUTABLE_STATUSES = {}"
    and "jb_status r \<in> set (List.map status_value allowed)"
    and "same_identity r r'" and "jb_status r' = status_value target"
    and "0 \<le> jb_progress r'" and "jb_progress r' \<le> 100" and "attempts_ok r'"
    and "target \<in> set TERMINAL_STATUSES \<Longrightarrow> jb_completed_at r' \<noteq> None \<and> jb_heartbeat_at r' = None"
    and "target \<in> set ACTIVE_STATUSES \<Longrightarrow> jb_completed_at r' = None"
  shows "job_ok r' \<and> job_rel r r'"
proof
  have "jb_status r \<notin> set immutable_values"
    using assms(2,3) by (auto simp: immutable_values_def)
  with assms(4) show "job_rel r r'" by (rule job_rel_movable)
  show "job_ok r'"
    using assms by (auto simp: job_ok_def terminal_values_def active_values_def)
qed

text \<open>
  What the fields of an ordinary transition do: identity, attempt counters and keys stay, the
  progress stays or becomes 100; a terminal target also gets its completion time and loses its
  heartbeat, an active one keeps having no completion time.
\<close>

definition extra_ok :: "job_status \<Rightarrow> (job \<Rightarrow> job) \<Rightarrow> bool" where
  "extra_ok target f = (\<forall>r. same_identity r (f r) \<and> jb_status (f r) = jb_status r \<and>
     (jb_progress (f r) = jb_progress r \<or> jb_progress (f r) = 100) \<and>
     jb_attempt (f r) = jb_attempt r \<and> jb_retry_count (f r) = jb_retry_count r \<and>
     jb_idempotency_key (f r) = jb_idempotency_key r \<and>
     jb_celery_task_id (f r) = jb_celery_task_id r \<and>
     (if target \<in> set TERMINAL_STATUSES
      then jb_completed_at (f r) \<noteq> None \<and> jb_heartbeat_at (f r) = None
      else jb_completed_at (f r) = jb_completed_at r))"

lemma extras_ok:
  "extra_ok J_cancelled (\<lambda>r. terminal_fields now (r\<lparr>jb_progress_message := m\<rparr>))"
  "extra_ok J_completed (succeeded_fields rd now res ref msg)"
  "extra_ok J_failed (failed_fields rd now err msg)"
  "extra_ok J_failed (orphan_fields now)"
  "extra_ok J_stale (stale_fields now)"
  "extra_ok J_cancelling (cancel_fields now)"
  "extra_ok J_running (\<lambda>r. r\<lparr>jb_started_at := t, jb_heartbeat_at := h, jb_worker_id := w\<rparr>)"
  by (simp_all add: extra_ok_def same_identity_def terminal_fields_def succeeded_fields_def
      failed_fields_def orphan_fields_def stale_fields_def cancel_fields_def TERMINAL_STATUSES_def)

definition legal_sources :: "job_status \<Rightarrow> job_status list \<Rightarrow> bool" where
  "legal_sources target allowed = (set allowed \<inter> set IMMUTABLE_STATUSES = {} \<and>
     (target \<in> set TERMINAL_STATUSES \<or> set allowed \<subseteq> set ACTIVE_STATUSES))"

lemma extra_transition_good:
  assumes inv: "jobs_inv db" and f: "extra_ok target f"
    and allowed: "legal_sources target
       (case expected of Some e \<Rightarrow> e | None \<Rightarrow> sources_for (Status target))"
  shows "good db (fst (transition now db job_id target expected w a f))"
proof (rule transition_good [OF inv])
  fix n and r :: job
  let ?r = "r\<lparr>jb_status := status_value target, jb_updated_at := Some now\<rparr>"
  assume ok: "job_ok r"
    and st: "jb_status r \<in> set (List.map status_value
          (case expected of Some e \<Rightarrow> e | None \<Rightarrow> sources_for (Status target)))"
  have fr: "same_identity ?r (f ?r)" "jb_status (f ?r) = status_value target"
    "jb_progress (f ?r) = jb_progress r \<or> jb_progress (f ?r) = 100"
    "jb_attempt (f ?r) = jb_attempt r" "jb_retry_count (f ?r) = jb_retry_count r"
    "if target \<in> set TERMINAL_STATUSES
     then jb_completed_at (f ?r) \<noteq> None \<and> jb_heartbeat_at (f ?r) = None
     else jb_completed_at (f ?r) = jb_completed_at r"
    using f [unfolded extra_ok_def, rule_format, of ?r] by simp_all
  have same: "same_identity r (f ?r)"
    using fr(1) by (simp add: same_identity_def)
  have att: "attempts_ok (f ?r)"
    using ok fr same
    by (auto simp: job_ok_def attempts_ok_def same_identity_def split: option.splits)
  have none: "jb_completed_at (f ?r) = None" if "target \<in> set ACTIVE_STATUSES"
    using that allowed st ok fr(6)
    by (auto simp: legal_sources_def job_ok_def status_sets active_values_def)
  show "job_ok (f ?r) \<and> job_rel r (f ?r)"
  proof (rule row_step [OF ok _ st same fr(2) _ _ att])
    show "set (case expected of Some e \<Rightarrow> e | None \<Rightarrow> sources_for (Status target)) \<inter>
          set IMMUTABLE_STATUSES = {}"
      using allowed by (simp add: legal_sources_def)
  qed (use ok fr none in \<open>auto simp: job_ok_def split: if_splits\<close>)
qed (use f in \<open>auto simp: keeps_keys_def keeps_celery_def extra_ok_def same_identity_def\<close>)

lemma confirm_cancelled_good:
  "jobs_inv db \<Longrightarrow> good db (fst (confirm_cancelled now db job_id msg w a))"
  unfolding confirm_cancelled_def
  by (rule extra_transition_good [OF _ extras_ok(1)]) (simp_all add: legal_sources_def status_sets)

lemma mark_failed_good:
  "jobs_inv db \<Longrightarrow> good db (fst (mark_failed rd now db job_id err msg w a))"
  unfolding mark_failed_def
  by (rule extra_transition_good [OF _ extras_ok(3)]) (simp_all add: legal_sources_def status_sets)

lemma sweep_orphan_good: "jobs_inv db \<Longrightarrow> good db (fst (sweep_orphan now j db))"
  unfolding sweep_orphan_def
  by (rule extra_transition_good [OF _ extras_ok(4)]) (simp_all add: legal_sources_def status_sets)

lemma sweep_stale_job_good: "jobs_inv db \<Longrightarrow> good db (fst (sweep_stale_job now j db))"
  unfolding sweep_stale_job_def
  by (auto intro!: confirm_cancelled_good extra_transition_good [OF _ extras_ok(5)]
      simp: legal_sources_def status_sets)

lemma mark_succeeded_good:
  assumes inv: "jobs_inv db" and env: "env_ok env"
  shows "good db (fst (mark_succeeded rd env now db job_id res ref msg w a))"
proof -
  obtain db1 ok where t: "transition now db job_id J_completed None w a
      (succeeded_fields rd now res ref msg) = (db1, ok)" by force
  have "good db (fst (transition now db job_id J_completed None w a (succeeded_fields rd now res ref msg)))"
    by (rule extra_transition_good [OF inv extras_ok(2)])
       (simp_all add: legal_sources_def status_sets)
  with t have "good db db1" by simp
  then have g: "good db db1" "good db (env 0 db1)" "good db (env 1 (env 0 db1))"
    by (auto intro!: good_env [OF env])
  have "good db (fst (confirm_cancelled now (env 1 (env 0 db1)) job_id m w a))" for m
    using g(3) confirm_cancelled_good [OF good_inv [OF g(3)]] by (rule good_trans)
  then have "good db (env 2 (fst (confirm_cancelled now (env 1 (env 0 db1)) job_id m w a)))" for m
    by (rule good_env [OF env])
  with g show ?thesis by (simp add: mark_succeeded_def t Let_def)
qed

lemma mark_running_good: "jobs_inv db \<Longrightarrow> good db (fst (mark_running identity now db job_id w))"
  unfolding mark_running_def
  by (rule extra_transition_good [OF _ extras_ok(7)]) (simp_all add: legal_sources_def status_sets)

lemma request_cancel_good:
  assumes inv: "jobs_inv db" and env: "env_ok env"
  shows "good db (fst (request_cancel env now db job_id))"
proof -
  obtain db1 ok where t: "transition now db job_id J_cancelling None None None
      (cancel_fields now) = (db1, ok)" by force
  have "good db (fst (transition now db job_id J_cancelling None None None (cancel_fields now)))"
    by (rule extra_transition_good [OF inv extras_ok(6)])
       (simp_all add: legal_sources_def status_sets)
  with t have "good db db1" by simp
  then have g: "good db (env 0 db1)" "good db (env 1 (env 0 db1))"
    by (auto intro!: good_env [OF env])
  have "good db (fst (confirm_cancelled now (env 1 (env 0 db1)) job_id m w a))" for m w a
    using g(2) confirm_cancelled_good [OF good_inv [OF g(2)]] by (rule good_trans)
  with g(1) show ?thesis
    by (simp add: request_cancel_def t Let_def case_prod_unfold)
qed

section \<open>Queueing, progress, heartbeats and Celery ids\<close>

lemma checked_good:
  assumes "jobs_inv db" and "checked (db', ok) = Inr res"
    and "unique_col jb_celery_task_id db' \<Longrightarrow> good db db'"
  shows "good db (fst res)"
  using assms by (auto simp: checked_def split: if_splits)

lemma mark_queued_good:
  assumes inv: "jobs_inv db" and res: "mark_queued now db job_id cid = Inr res"
  shows "good db (fst res)"
proof (cases "job_id_int job_id")
  case None
  with inv res show ?thesis
    by (auto simp: mark_queued_def transition_cases checked_def good_refl split: if_splits)
next
  case (Some n)
  let ?g = "\<lambda>r. if truthy cid then r\<lparr>jb_queued_at := Some now, jb_celery_task_id := cid\<rparr>
            else r\<lparr>jb_queued_at := Some now\<rparr>"
  let ?st = "sql_update (transition_where n [J_pending] None None)
     (\<lambda>r. ?g (r\<lparr>jb_status := status_value J_queued, jb_updated_at := Some now\<rparr>)) db"
  have "good db (fst ?st)" if "unique_col jb_celery_task_id (fst ?st)"
  proof (rule sql_update_good [OF inv _ _ _ that])
    fix r :: job
    let ?r = "?g (r\<lparr>jb_status := status_value J_queued, jb_updated_at := Some now\<rparr>)"
    assume ok: "job_ok r" and w: "transition_where n [J_pending] None None r"
    then have st: "jb_status r = status_value J_pending"
      by (simp add: transition_where_def)
    have kept: "same_identity r ?r" "jb_status ?r = status_value J_queued"
      "jb_progress ?r = jb_progress r" "jb_attempt ?r = jb_attempt r"
      "jb_retry_count ?r = jb_retry_count r" "jb_completed_at ?r = jb_completed_at r"
      by (simp_all add: same_identity_def)
    have "attempts_ok ?r"
      using ok kept by (auto simp: job_ok_def attempts_ok_def same_identity_def split: option.splits)
    moreover have "jb_completed_at r = None"
      using ok st by (simp add: job_ok_def active_values_def ACTIVE_STATUSES_def)
    ultimately show "job_ok ?r \<and> job_rel r ?r"
      using ok kept st
      by (intro row_step [where allowed = "[J_pending]" and target = J_queued])
         (simp_all only: job_ok_def kept, simp_all add: status_sets)
  qed auto
  moreover have "checked (fst ?st, snd ?st \<noteq> 0) = Inr res"
    using res by (simp add: mark_queued_def transition_cases Some Let_def)
  ultimately show ?thesis
    using inv by (blast intro: checked_good)
qed

lemma active_not_terminal:
  "v \<in> set active_values \<Longrightarrow> v \<notin> set terminal_values \<and> v \<notin> set immutable_values"
  by (auto simp: value_lists)

lemma movable_row:
  assumes "job_ok r" and "same_identity r r'" and "jb_status r \<in> set active_values"
    and "jb_status r' = jb_status r" and "0 \<le> jb_progress r'" and "jb_progress r' \<le> 100"
    and "jb_attempt r' = jb_attempt r" and "jb_retry_count r' = jb_retry_count r"
    and "jb_completed_at r' = jb_completed_at r"
  shows "job_ok r' \<and> job_rel r r'"
proof
  have "attempts_ok r'"
    using assms by (auto simp: job_ok_def attempts_ok_def same_identity_def split: option.splits)
  then show "job_ok r'"
    using assms active_not_terminal [OF assms(3)] by (simp add: job_ok_def)
  show "job_rel r r'"
    using assms(2) active_not_terminal [OF assms(3)] by (simp add: job_rel_movable)
qed

lemma active_update_good:
  assumes inv: "jobs_inv db"
    and f: "\<And>r. job_ok r \<Longrightarrow> same_identity r (f r) \<and> jb_status (f r) = jb_status r \<and>
       0 \<le> jb_progress (f r) \<and> jb_progress (f r) \<le> 100 \<and> jb_attempt (f r) = jb_attempt r \<and>
       jb_retry_count (f r) = jb_retry_count r \<and> jb_completed_at (f r) = jb_completed_at r"
    and keys: "\<And>r. jb_id (f r) = jb_id r \<and> jb_idempotency_key (f r) = jb_idempotency_key r \<and>
       jb_celery_task_id (f r) = jb_celery_task_id r"
  shows "good db (fst (sql_update (active_where n w a) f db))"
proof (rule sql_update_good [OF inv])
  fix r
  assume "active_where n w a r" "job_ok r"
  with f [of r] show "job_ok (f r) \<and> job_rel r (f r)"
    by (intro movable_row) (auto simp: active_where_def)
qed (use keys celery_kept [OF inv, of f] in auto)

lemma update_progress_good:
  assumes "jobs_inv db"
  shows "good db (fst (update_progress now db job_id snap w a))"
proof -
  have p: "0 \<le> jb_progress (progress_values now (clamped snap) r) \<and>
           jb_progress (progress_values now (clamped snap) r) \<le> 100" if "job_ok r" for r
    using that clamped_range [of snap]
    by (auto simp: progress_values_def job_ok_def Let_def split: option.splits)
  have "good db (fst (progress_stmt now n (clamped snap) w a db))" for n
    unfolding progress_stmt_def
    by (rule active_update_good [OF assms])
       (use p in \<open>auto simp: progress_values_def same_identity_def Let_def split: option.splits\<close>)
  then show ?thesis
    by (simp add: update_progress_def case_prod_unfold Let_def good_refl [OF assms] split: option.splits)
qed

lemma heartbeat_good:
  assumes "jobs_inv db"
  shows "good db (fst (heartbeat_sync now db job_id w a))"
proof -
  have "good db (fst (sql_update (active_where n w a)
      (\<lambda>r. r\<lparr>jb_heartbeat_at := Some now, jb_updated_at := Some now\<rparr>) db))" for n
    by (rule active_update_good [OF assms]) (auto simp: same_identity_def job_ok_def)
  then show ?thesis
    by (simp add: heartbeat_sync_def case_prod_unfold Let_def good_refl [OF assms] split: option.splits)
qed

text \<open>Updates of the three columns the frozen rows leave open.\<close>

lemma open_columns:
  assumes "job_ok r" and "r' = r\<lparr>jb_idempotency_key := x, jb_celery_task_id := y, jb_updated_at := z\<rparr>"
  shows "job_ok r' \<and> job_rel r r'"
  using assms
  by (auto simp: job_ok_def job_rel_def same_identity_def frozen_def attempts_ok_def
      split: option.splits)

lemma attach_celery_task_good:
  assumes inv: "jobs_inv db" and res: "attach_celery_task now db job_id cid = Inr res"
  shows "good db (fst res)"
proof (cases "job_id_int job_id = None \<or> cid = []")
  case True
  with inv res show ?thesis
    by (auto simp: attach_celery_task_def good_refl split: option.splits)
next
  case False
  then obtain n where n: "job_id_int job_id = Some n" by auto
  have "good db (fst (set_celery_id now n cid db))"
    if "unique_col jb_celery_task_id (fst (set_celery_id now n cid db))"
    using that unfolding set_celery_id_def
  proof (intro sql_update_good [OF inv])
    fix r
    assume "job_ok r"
    then show "job_ok (r\<lparr>jb_celery_task_id := Some cid, jb_updated_at := Some now\<rparr>) \<and>
          job_rel r (r\<lparr>jb_celery_task_id := Some cid, jb_updated_at := Some now\<rparr>)"
      by (rule open_columns [where x = "jb_idempotency_key r" and y = "Some cid" and z = "Some now"]) (cases r, simp)
  qed auto
  moreover have "checked (fst (set_celery_id now n cid db), snd (set_celery_id now n cid db) \<noteq> 0) =
      Inr res"
    using res False by (simp add: attach_celery_task_def n case_prod_unfold Let_def)
  ultimately show ?thesis
    using inv by (blast intro: checked_good)
qed

lemma release_key_good:
  assumes inv: "jobs_inv db"
  shows "good db (release_key now existing db)"
  unfolding release_key_def
proof (rule sql_update_good [OF inv])
  fix r
  assume "job_ok r"
  then show "job_ok (r\<lparr>jb_idempotency_key := None, jb_updated_at := Some now\<rparr>) \<and>
        job_rel r (r\<lparr>jb_idempotency_key := None, jb_updated_at := Some now\<rparr>)"
    by (rule open_columns [where x = None and y = "jb_celery_task_id r" and z = "Some now"]) (cases r, simp)
qed (auto intro: celery_kept [OF inv])

section \<open>Sweeps, retry and creation\<close>

lemma sweep_rows_good:
  assumes act: "\<And>j db. jobs_inv db \<Longrightarrow> good db (fst (act j db))" and env: "env_ok env"
  shows "jobs_inv db \<Longrightarrow> good db (fst (sweep_rows act env i js db))"
proof (induction js arbitrary: i db)
  case Nil
  then show ?case by (simp add: good_refl)
next
  case (Cons j js)
  have e: "good db (env i db)" by (rule env_good [OF env Cons.prems])
  have a: "good db (fst (act j (env i db)))"
    using e act [OF good_inv [OF e]] by (rule good_trans)
  have "good db (fst (sweep_rows act env (Suc i) js (fst (act j (env i db)))))"
    using a Cons.IH [OF good_inv [OF a]] by (rule good_trans)
  then show ?case by (simp add: case_prod_unfold Let_def)
qed

lemma sweep_orphans_good:
  "jobs_inv db \<Longrightarrow> env_ok env \<Longrightarrow> good db (fst (sweep_orphans env now secs limit db))"
  unfolding sweep_orphans_def Let_def by (rule sweep_rows_good [OF sweep_orphan_good])

lemma sweep_stale_good:
  "jobs_inv db \<Longrightarrow> env_ok env \<Longrightarrow> good db (fst (sweep_stale env now secs limit db))"
  unfolding sweep_stale_def by (rule sweep_rows_good [OF sweep_stale_job_good])

text \<open>
  The requeueing statement: the counters it writes were computed from the row as first read, so
  the row it meets need only have the same retry limit.
\<close>

lemma retry_transition_good:
  assumes inv: "jobs_inv db" and n: "job_id_int job_id = Some n"
    and row: "row_at jb_id n db = Some r0"
    and c: "0 \<le> c" "c < int_or (jb_max_retries r0) 0"
  shows "good db (fst (transition now db job_id J_queued (Some [J_failed, J_stale]) None None
           (retry_fields now (c + 2) (c + 1))))"
proof (rule transition_good [OF inv])
  fix m and r :: job
  let ?r = "retry_fields now (c + 2) (c + 1)
     (r\<lparr>jb_status := status_value J_queued, jb_updated_at := Some now\<rparr>)"
  assume m: "job_id_int job_id = Some m" "row_at jb_id m db = Some r" and ok: "job_ok r"
    and st: "jb_status r \<in> set (List.map status_value
      (case Some [J_failed, J_stale] of Some e \<Rightarrow> e | None \<Rightarrow> sources_for (Status J_queued)))"
  have "attempts_ok ?r"
    using c m n row by (simp add: attempts_ok_def retry_fields_def)
  then show "job_ok ?r \<and> job_rel r ?r"
    using ok st
    by (intro row_step [where allowed = "[J_failed, J_stale]" and target = J_queued])
       (simp_all add: same_identity_def retry_fields_def status_sets)
qed (simp_all add: keeps_keys_def keeps_celery_def retry_fields_def)

lemma start_retry_good:
  assumes inv: "jobs_inv db" and env: "env_ok env"
  shows "good db (fst (start_retry env now db job_id))"
proof (cases "get_job db job_id")
  case None
  with inv show ?thesis by (simp add: start_retry_def good_refl)
next
  case (Some r)
  then obtain n where n: "job_id_int job_id = Some n" and row: "row_at jb_id n db = Some r"
    by (auto simp: get_job_def split: option.splits)
  have "attempts_ok r" using jobs_inv_row [OF inv row] by (simp add: job_ok_def)
  then obtain c where c: "jb_retry_count r = Some c" "jb_attempt r = Some (c + 1)" "0 \<le> c"
    by (auto simp: attempts_ok_def split: option.splits)
  have e: "good db (env 0 db)" by (rule env_good [OF env inv])
  then obtain r0 where r0: "row_at jb_id n (env 0 db) = Some r0" "jb_max_retries r0 = jb_max_retries r"
    using row by (auto simp: good_def jobs_rel_def job_rel_def same_identity_def)
  have "good db (fst (transition now (env 0 db) job_id J_queued (Some [J_failed, J_stale]) None None
           (retry_fields now (c + 2) (c + 1))))" if "c < int_or (jb_max_retries r) 0"
    using e retry_transition_good [OF good_inv [OF e] n r0(1) c(3)] that r0(2)
    by (auto intro: good_trans)
  then have "good db (fst (transition now (env 0 db) job_id J_queued (Some [J_failed, J_stale]) None
       None (retry_fields now (int_or (jb_attempt r) 1 + 1) (int_or (jb_retry_count r) 0 + 1))))"
    if "int_or (jb_retry_count r) 0 < int_or (jb_max_retries r) 0"
    using that c by (simp add: int_or_def add.commute)
  with inv show ?thesis
    by (simp add: start_retry_def Some Let_def case_prod_unfold good_refl split: option.split pyval.split)
qed

lemma next_job_id_fresh: "r \<in> set db \<Longrightarrow> jb_id r < next_job_id db"
  unfolding next_job_id_def by (induction db) (auto simp: max_def)

lemma keyed_append_fresh: "keyed jb_id db \<Longrightarrow> jb_id j = next_job_id db \<Longrightarrow> keyed jb_id (db @ [j])"
  using next_job_id_fresh [of _ db] by (fastforce simp: keyed_def)

lemma build_ok:
  "kw_status kw \<in> set ACTIVE_STATUSES \<Longrightarrow> job_ok (build rd digest now n kw)"
  by (auto simp: build_def Let_def job_ok_def attempts_ok_def value_lists)

lemma insert_job_good:
  assumes inv: "jobs_inv db" and j: "j = build rd digest now (next_job_id db) kw"
    and act: "kw_status kw \<in> set ACTIVE_STATUSES" and ins: "insert_job j db = Inr db'"
  shows "good db db'"
proof -
  have db': "db' = db @ [j]" and u: "unique_col jb_idempotency_key db'" "unique_col jb_celery_task_id db'"
    using ins by (auto simp: insert_job_def split: if_splits)
  have "keyed jb_id (db @ [j])"
    using inv by (intro keyed_append_fresh) (simp_all add: jobs_inv_def j build_def Let_def)
  then show ?thesis
    using inv u build_ok [OF act] j
    by (auto simp: good_def jobs_inv_def db' jobs_rel_def row_at_append job_rel_refl)
qed

lemma insert_or_reread_good:
  assumes inv: "jobs_inv db" and env: "env_ok env" and act: "kw_status kw \<in> set ACTIVE_STATUSES"
  shows "good db (fst (insert_or_reread rd digest env now kw db))"
  using insert_job_good [OF inv refl act] env_good [OF env inv, of 2]
  by (auto simp: insert_or_reread_def Let_def split: sum.split option.split)

lemma fill_origin_status [simp]: "kw_status (fill_origin ctx kw) = kw_status kw"
  by (simp add: fill_origin_def)

lemma create_job_sync_good:
  assumes inv: "jobs_inv db" and env: "env_ok env" and act: "kw_status kw \<in> set ACTIVE_STATUSES"
  shows "good db (fst (create_job_sync rd digest ttl env now kw db))"
proof -
  have ins: "good db (fst (insert_or_reread rd digest env now kw db'))" if "good db db'" for db'
    using that insert_or_reread_good [OF good_inv [OF that] env act] by (rule good_trans)
  have e: "good db (env 1 (env 0 db))"
    by (intro good_env [OF env] good_refl inv)
  have e0: "good db (env 0 db)" by (rule env_good [OF env inv])
  have r: "good db (env 1 (release_key now x (env 0 db)))" for x
    by (rule good_env [OF env good_trans [OF e0 release_key_good [OF good_inv [OF e0]]]])
  show ?thesis
    using ins [OF e] ins [OF r] inv
    by (auto simp: create_job_sync_def Let_def good_refl split: option.split)
qed

text \<open>The asynchronous variant creates the same row from the arguments the origin completes.\<close>

lemma create_job_as_sync:
  "fst (create_job rd digest ttl env now origin kw db) =
     fst (create_job_sync rd digest ttl env now
       (case origin of None \<Rightarrow> kw | Some ctx \<Rightarrow> fill_origin ctx kw) db)"
  "snd (snd (create_job rd digest ttl env now origin kw db)) =
     snd (create_job_sync rd digest ttl env now
       (case origin of None \<Rightarrow> kw | Some ctx \<Rightarrow> fill_origin ctx kw) db)"
  by (auto simp: create_job_def create_job_sync_def Let_def fill_origin_def
      split: option.split sum.split prod.split)

lemma create_job_good:
  assumes "jobs_inv db" and "env_ok env" and "kw_status kw \<in> set ACTIVE_STATUSES"
  shows "good db (fst (create_job rd digest ttl env now origin kw db))"
  unfolding create_job_as_sync
  using create_job_sync_good [OF assms(1,2)] assms(3) by (auto split: option.split)

section \<open>Runs of the store\<close>

record store_config =
  cf_redactors :: redactors
  cf_digest :: "string \<Rightarrow> string"
  cf_ttl :: int
  cf_identity :: string

text \<open>
  One constructor per operation that writes the table. The synchronous variants are equal to
  the asynchronous ones (\<open>sync_variants\<close>), an operation that raises leaves the table as it was.
\<close>

datatype job_op =
    Op_create environment time "job_origin option" job_kwargs
  | Op_queue time job_id_arg "string option"
  | Op_run time job_id_arg "string option"
  | Op_succeed environment time job_id_arg "pyval option" "string option" "string option"
      "string option" "int option"
  | Op_fail time job_id_arg "error_arg option" "string option" "string option" "int option"
  | Op_cancel environment time job_id_arg
  | Op_confirm time job_id_arg "string option" "string option" "int option"
  | Op_attach time job_id_arg string
  | Op_progress time job_id_arg job_progress "string option" "int option"
  | Op_heartbeat time job_id_arg "string option" "int option"
  | Op_sweep_orphans environment time "int option" nat
  | Op_sweep_stale environment time int nat
  | Op_retry environment time job_id_arg

definition or_rollback :: "job_table \<Rightarrow> integrity_error + job_table \<times> bool \<Rightarrow> job_table" where
  "or_rollback db res = (case res of Inl e \<Rightarrow> db | Inr (db', ok) \<Rightarrow> db')"

fun job_step :: "store_config \<Rightarrow> job_table \<Rightarrow> job_op \<Rightarrow> job_table" where
  "job_step cf db (Op_create env now origin kw) =
     fst (create_job (cf_redactors cf) (cf_digest cf) (cf_ttl cf) env now origin kw db)"
| "job_step cf db (Op_queue now job_id cid) = or_rollback db (mark_queued now db job_id cid)"
| "job_step cf db (Op_run now job_id w) = fst (mark_running (cf_identity cf) now db job_id w)"
| "job_step cf db (Op_succeed env now job_id res ref msg w a) =
     fst (mark_succeeded (cf_redactors cf) env now db job_id res ref msg w a)"
| "job_step cf db (Op_fail now job_id err msg w a) =
     fst (mark_failed (cf_redactors cf) now db job_id err msg w a)"
| "job_step cf db (Op_cancel env now job_id) = fst (request_cancel env now db job_id)"
| "job_step cf db (Op_confirm now job_id msg w a) = fst (confirm_cancelled now db job_id msg w a)"
| "job_step cf db (Op_attach now job_id cid) = or_rollback db (attach_celery_task now db job_id cid)"
| "job_step cf db (Op_progress now job_id snap w a) = fst (update_progress now db job_id snap w a)"
| "job_step cf db (Op_heartbeat now job_id w a) = fst (heartbeat_sync now db job_id w a)"
| "job_step cf db (Op_sweep_orphans env now secs limit) = fst (sweep_orphans env now secs limit db)"
| "job_step cf db (Op_sweep_stale env now secs limit) = fst (sweep_stale env now secs limit db)"
| "job_step cf db (Op_retry env now job_id) = fst (start_retry env now db job_id)"

text \<open>
  The callers' side of the contract: the environment is made of transactions that keep the
  invariant, and jobs are created in an active status (every caller passes none or \<open>running\<close>).
\<close>

fun op_ok :: "job_op \<Rightarrow> bool" where
  "op_ok (Op_create env now origin kw) = (env_ok env \<and> kw_status kw \<in> set ACTIVE_STATUSES)"
| "op_ok (Op_succeed env now job_id res ref msg w a) = env_ok env"
| "op_ok (Op_cancel env now job_id) = env_ok env"
| "op_ok (Op_sweep_orphans env now secs limit) = env_ok env"
| "op_ok (Op_sweep_stale env now secs limit) = env_ok env"
| "op_ok (Op_retry env now job_id) = env_ok env"
| "op_ok _ = True"

lemma or_rollback_good:
  "jobs_inv db \<Longrightarrow> (\<And>x. res = Inr x \<Longrightarrow> good db (fst x)) \<Longrightarrow> good db (or_rollback db res)"
  by (auto simp: or_rollback_def good_refl split: sum.split)

lemma job_step_good: "op_ok x \<Longrightarrow> jobs_inv db \<Longrightarrow> good db (job_step cf db x)"
  by (cases x)
     (auto intro: or_rollback_good mark_queued_good attach_celery_task_good create_job_good
      mark_running_good mark_succeeded_good mark_failed_good request_cancel_good
      confirm_cancelled_good update_progress_good heartbeat_good sweep_orphans_good
      sweep_stale_good start_retry_good)

interpretation job_runs: op_system_rel "job_step cf" jobs_inv op_ok jobs_rel for cf
  by unfold_locales
     (auto intro: jobs_rel_refl jobs_rel_trans dest: job_step_good [of _ _ cf] simp: good_def)

lemma sync_variants:
  "transition_sync = transition"
  "mark_running_sync = mark_running"
  "confirm_cancelled_sync = confirm_cancelled"
  "mark_failed_sync = mark_failed"
  "update_progress_sync = update_progress"
  "set_celery_task_id_sync = attach_celery_task"
  "get_job_sync = get_job"
proof -
  show *: "transition_sync = transition"
    by (simp add: fun_eq_iff transition_def transition_sync_def)
  show "mark_running_sync = mark_running" "confirm_cancelled_sync = confirm_cancelled"
    "mark_failed_sync = mark_failed"
    by (simp_all add: fun_eq_iff * mark_running_def mark_running_sync_def confirm_cancelled_def
        confirm_cancelled_sync_def mark_failed_def mark_failed_sync_def)
qed (simp_all add: fun_eq_iff update_progress_def update_progress_sync_def get_job_def
      get_job_sync_def set_celery_task_id_sync_def attach_celery_task_def)

lemma status_sync_eq: "status_sync db job_id = fst (status_and_started_at db job_id)"
  by (simp add: status_sync_def status_and_started_at_def split: option.split)

lemma mark_succeeded_sync_eq: "mark_succeeded_sync = mark_succeeded"
  by (intro ext) (simp only: mark_succeeded_def mark_succeeded_sync_def sync_variants status_sync_eq)

lemma status_read:
  "status_and_started_at db job_id =
     (let row = (case job_id_int job_id of None \<Rightarrow> None | Some n \<Rightarrow> row_at jb_id n db)
      in (coerce_status (case row of None \<Rightarrow> NoStatus | Some r \<Rightarrow> Text (jb_status r)),
          case row of None \<Rightarrow> None | Some r \<Rightarrow> jb_started_at r))"
  by (simp add: status_and_started_at_def split: option.split)

lemma request_cancel_sync_eq: "request_cancel_sync = request_cancel"
  by (intro ext)
     (simp only: request_cancel_def request_cancel_sync_def sync_variants Let_def status_read
       prod.case)

end
