(* ===== verification/Jobs_Properties.thy ===== *)
theory Jobs_Properties
  imports Jobs_Invariant
begin

text \<open>
  The contracts of the durable job store: what each lifecycle operation does to the table on
  every branch, and the properties that hold over arbitrary runs of them. Single operations are
  stated with the \<open>idle\<close> environment where their exact effect is the point, and with an
  arbitrary one where interference is.
\<close>

section \<open>Exact effect of a transition\<close>

definition fence_ok :: "string option \<Rightarrow> int option \<Rightarrow> job \<Rightarrow> bool" where
  "fence_ok w a r =
     ((case w of None \<Rightarrow> True | Some x \<Rightarrow> jb_worker_id r = Some x) \<and>
      (case a of None \<Rightarrow> True | Some x \<Rightarrow> jb_attempt r = Some x))"

lemma fence_ok_None [simp]: "fence_ok None None r"
  by (simp add: fence_ok_def)

definition moved :: "time \<Rightarrow> job_status \<Rightarrow> (job \<Rightarrow> job) \<Rightarrow> job \<Rightarrow> job" where
  "moved now target extra r =
     extra (r\<lparr>jb_status := status_value target, jb_updated_at := Some now\<rparr>)"

lemma transition_at:
  assumes "keyed jb_id db" and "job_id_int job_id = Some n" and "row_at jb_id n db = Some r"
  shows "transition now db job_id target expected w a extra =
     (if jb_status r \<in> set (List.map status_value
           (case expected of Some e \<Rightarrow> e | None \<Rightarrow> sources_for (Status target))) \<and> fence_ok w a r
      then (row_put jb_id n (moved now target extra r) db, True) else (db, False))"
  using sql_update_put [OF assms(1,3), where
      q = "\<lambda>r. jb_status r \<in> set (List.map status_value
           (case expected of Some e \<Rightarrow> e | None \<Rightarrow> sources_for (Status target))) \<and> fence_ok w a r"
      and f = "moved now target extra"]
  by (simp add: transition_def transition_stmt_def assms(2) transition_where_def [abs_def]
      fence_ok_def moved_def [abs_def])

lemma transition_absent:
  "job_id_int job_id = None \<Longrightarrow> transition now db job_id target expected w a extra = (db, False)"
  "job_id_int job_id = Some n \<Longrightarrow> row_at jb_id n db = None \<Longrightarrow>
   transition now db job_id target expected w a extra = (db, False)"
  by (simp_all add: transition_def transition_stmt_def transition_where_def [abs_def]
      sql_update_none)

lemma status_at:
  "job_id_int job_id = Some n \<Longrightarrow> row_at jb_id n db = Some r \<Longrightarrow>
   status_and_started_at db job_id = (coerce_status (Text (jb_status r)), jb_started_at r)"
  by (simp add: status_and_started_at_def)

lemma idle_simp [simp]: "idle i db = db"
  by (simp add: idle_def)

lemma jobs_inv_keyed: "jobs_inv db \<Longrightarrow> keyed jb_id db"
  by (simp add: jobs_inv_def)

lemma moved_id:
  "(\<And>r. jb_id (extra r) = jb_id r) \<Longrightarrow> jb_id (moved now target extra r) = jb_id r"
  by (simp add: moved_def)

section \<open>Runs\<close>

text \<open>
  C31. Whatever sequence of store operations runs, with whatever invariant-keeping transactions
  of others between their statements: primary keys stay distinct, idempotency keys and Celery
  ids stay unique, every status stays one of the eight, the progress stays within 0 to 100, a
  terminal row has its completion time and no heartbeat, an active row has no completion time,
  and the attempt number is the retry count plus one with the retry count within its limit.
\<close>

theorem job_runs_keep_invariant:
  assumes "list_all op_ok ops" and "jobs_inv db"
  shows "jobs_inv (run_ops (job_step cf) db ops)"
  using assms by (rule job_runs.run_inv)

text \<open>
  C11. A cancelled or completed job is immutable: once a run has brought a row to one of the two
  statuses, at every later point of the run the row is there with the same content, except for
  its idempotency key (released for a new submission), its Celery id and its time stamp.
\<close>

theorem immutable_rows_frozen:
  assumes "list_all op_ok xs" and "list_all op_ok ys" and "jobs_inv db"
    and "row_at jb_id n (run_ops (job_step cf) db xs) = Some r"
    and "jb_status r \<in> {''cancelled'', ''completed''}"
  shows "\<exists>r'. row_at jb_id n (run_ops (job_step cf) db (xs @ ys)) = Some r' \<and>
    r' = r\<lparr>jb_idempotency_key := jb_idempotency_key r', jb_celery_task_id := jb_celery_task_id r',
           jb_updated_at := jb_updated_at r'\<rparr>"
proof -
  have "jobs_rel (run_ops (job_step cf) db xs) (run_ops (job_step cf) db (xs @ ys))"
    using assms(1-3) by (rule job_runs.run_between)
  then obtain r' where "row_at jb_id n (run_ops (job_step cf) db (xs @ ys)) = Some r'"
    and "job_rel r r'"
    using assms(4) by (auto simp: jobs_rel_def)
  moreover have "jb_status r \<in> set immutable_values"
    using assms(5) by (auto simp: immutable_values_def IMMUTABLE_STATUSES_def)
  ultimately show ?thesis by (auto simp: job_rel_def frozen_def)
qed

section \<open>Cancellation\<close>

definition discarded :: "time \<Rightarrow> string \<Rightarrow> job \<Rightarrow> job" where
  "discarded now msg r = r\<lparr>jb_status := ''cancelled'', jb_updated_at := Some now,
     jb_progress_message := Some msg, jb_completed_at := Some now, jb_heartbeat_at := None\<rparr>"

lemma confirm_cancelled_at:
  assumes "keyed jb_id db" and "job_id_int job_id = Some n" and "row_at jb_id n db = Some r"
    and "length msg \<le> 255" and "msg \<noteq> []"
  shows "confirm_cancelled now db job_id (Some msg) w a =
     (if jb_status r \<in> {''pending'', ''queued'', ''cancelling''} \<and> fence_ok w a r
      then (row_put jb_id n (discarded now msg r) db, True) else (db, False))"
  unfolding confirm_cancelled_def transition_at [OF assms(1-3)]
  by (simp add: moved_def discarded_def terminal_fields_def text_or_def assms)

text \<open>
  A result that arrives after the user asked to cancel is discarded: on a cancelling row
  \<open>mark_succeeded\<close> stores nothing of the result. If the caller still owns the row (worker and
  attempt match where given) the row becomes cancelled and that is the status returned;
  otherwise the table is untouched and the caller is told \<open>cancelling\<close>.
\<close>

theorem late_success_discarded:
  assumes "keyed jb_id db" and "job_id_int job_id = Some n" and "row_at jb_id n db = Some r"
    and "jb_status r = ''cancelling''"
  shows "mark_succeeded rd idle now db job_id res ref msg w a =
     (if fence_ok w a r
      then (row_put jb_id n (discarded now ''late success discarded after cancel'' r) db, J_cancelled)
      else (db, J_cancelling))"
proof -
  have c: "coerce_status (Text ''cancelling'') = J_cancelling" "coerce_status (Text ''cancelled'') = J_cancelled"
    using coerce_status_value [of J_cancelling] coerce_status_value [of J_cancelled] by simp_all
  have n: "jb_id r = n" using assms(3) by (auto dest: row_at_Some)
  then have "row_at jb_id n (row_put jb_id n (discarded now m r) db) = Some (discarded now m r)" for m
    using assms(3) by (simp add: row_at_put discarded_def)
  then show ?thesis
    using assms c
    by (simp add: mark_succeeded_def transition_at [OF assms(1-3)] status_at [OF assms(2)]
        confirm_cancelled_at [OF assms(1-3)] Let_def discarded_def del: coerce_status.simps)
qed

definition cancel_requested :: "time \<Rightarrow> job \<Rightarrow> job" where
  "cancel_requested now r = r\<lparr>jb_status := ''cancelling'', jb_updated_at := Some now,
     jb_cancel_requested_at := Some now, jb_progress_message := Some ''cancelling''\<rparr>"

lemma coerce_cancel [simp]:
  "coerce_status (Text ''cancelling'') = J_cancelling"
  "coerce_status (Text ''cancelled'') = J_cancelled"
  using coerce_status_value [of J_cancelling] coerce_status_value [of J_cancelled] by simp_all

lemma request_cancel_at:
  assumes "keyed jb_id db" and "job_id_int job_id = Some n" and "row_at jb_id n db = Some r"
  shows "request_cancel idle now db job_id =
     (if jb_status r \<in> {''pending'', ''queued'', ''running''} then
        if jb_started_at r = None
        then (row_put jb_id n (discarded now ''cancelled before start'' (cancel_requested now r)) db,
              True, J_cancelled)
        else (row_put jb_id n (cancel_requested now r) db, True, J_cancelling)
      else (db, False, coerce_status (Text (jb_status r))))"
proof -
  let ?c = "cancel_requested now r"
  have n: "jb_id r = n" using assms(3) by (auto dest: row_at_Some)
  have at: "row_at jb_id n (row_put jb_id n ?c db) = Some ?c" and
       k: "keyed jb_id (row_put jb_id n ?c db)"
    using assms n by (simp_all add: row_at_put keyed_put cancel_requested_def)
  have m: "moved now J_cancelling (cancel_fields now) r = ?c"
    by (simp add: moved_def cancel_fields_def cancel_requested_def)
  have twice: "row_put jb_id n x (row_put jb_id n ?c db) = row_put jb_id n x db" for x
    using n by (simp add: row_put_twice cancel_requested_def)
  have c: "jb_status ?c = ''cancelling''" "jb_started_at ?c = jb_started_at r"
    by (simp_all add: cancel_requested_def)
  show ?thesis
    by (auto simp: request_cancel_def transition_at [OF assms] m status_at [OF assms(2) at]
        status_at [OF assms(2,3)] confirm_cancelled_at [OF k assms(2) at] c twice Let_def
        simp del: coerce_status.simps)
qed

text \<open>
  The outcome of a cancel request on every status: a job that never started is cancelled at
  once, a started one becomes cancelling and waits for its worker, and any other job (already
  cancelling or terminal) is left as it is, with its status reported and no change signalled.
\<close>

theorem request_cancel_outcome:
  assumes "keyed jb_id db" and "job_id_int job_id = Some n" and "row_at jb_id n db = Some r"
  shows "request_cancel idle now db job_id =
     (if jb_status r \<in> {''pending'', ''queued'', ''running''} then
        if jb_started_at r = None
        then (row_put jb_id n (discarded now ''cancelled before start'' (cancel_requested now r)) db,
              True, J_cancelled)
        else (row_put jb_id n (cancel_requested now r) db, True, J_cancelling)
      else (db, False, coerce_status (Text (jb_status r))))"
  using assms by (rule request_cancel_at)

text \<open>A concrete row and a concrete store configuration for the examples.\<close>

definition sample_kwargs :: job_kwargs where
  "sample_kwargs = \<lparr>kw_task_type = ''buffer'', kw_kind = Inl K_analysis,
      kw_display_name = None, kw_owner_id = None, kw_owner_token = None, kw_org_id = None,
      kw_session_id = None, kw_project_id = None, kw_parameters = PNone,
      kw_idempotency_key = None, kw_celery_task_id = None, kw_run_id = None, kw_turn_id = None,
      kw_tool_call_id = None, kw_agent_task_id = None, kw_agent_step_id = None,
      kw_max_retries = 3, kw_status = J_pending, kw_dispatch_spec = None\<rparr>"

definition sample_redactors :: redactors where
  "sample_redactors = \<lparr>rd_parameters = id, rd_result = id, rd_error = (\<lambda>e. None), rd_dispatch = id\<rparr>"

definition sample_job :: "int \<Rightarrow> string \<Rightarrow> job" where
  "sample_job n status = (build sample_redactors id 0 n sample_kwargs)\<lparr>jb_status := status\<rparr>"

lemmas sample_simps = sample_job_def sample_kwargs_def sample_redactors_def build_def

lemma late_success_discarded_witness:
  "let r = (sample_job 7 ''cancelling'')\<lparr>jb_worker_id := Some ''w:1''\<rparr>
   in mark_succeeded sample_redactors idle 5 [r] (Id_str ''7'') None None None (Some ''w:1'') (Some 1) =
        ([discarded 5 ''late success discarded after cancel'' r], J_cancelled)"
proof -
  let ?r = "(sample_job 7 ''cancelling'')\<lparr>jb_worker_id := Some ''w:1''\<rparr>"
  have "jb_id ?r = 7" "fence_ok (Some ''w:1'') (Some 1) ?r"
    by (simp_all add: sample_simps fence_ok_def)
  moreover have "job_id_int (Id_str ''7'') = Some 7" by code_simp
  ultimately show ?thesis
    using late_success_discarded [of "[?r]" "Id_str ''7''" 7 ?r] by (simp add: keyed_def row_put_def sample_job_def)
qed

lemma request_cancel_outcome_witness:
  "keyed jb_id [sample_job 1 ''pending''] \<and>
   request_cancel idle 9 [sample_job 1 ''pending''] (Id_int 1) =
     ([discarded 9 ''cancelled before start'' (cancel_requested 9 (sample_job 1 ''pending''))],
      True, J_cancelled)"
proof -
  have k: "keyed jb_id [sample_job 1 ''pending'']" by (simp add: keyed_def)
  have r: "row_at jb_id 1 [sample_job 1 ''pending''] = Some (sample_job 1 ''pending'')"
    and j: "jb_status (sample_job 1 ''pending'') = ''pending''" "jb_id (sample_job 1 ''pending'') = 1"
      "jb_started_at (sample_job 1 ''pending'') = None"
    by (simp_all add: sample_simps)
  show ?thesis
    using request_cancel_outcome [OF k _ r, of "Id_int 1" 9] k j by (simp add: row_put_def)
qed

lemma request_cancel_again:
  assumes "keyed jb_id db" and "job_id_int job_id = Some n" and "row_at jb_id n db = Some r"
    and "jb_status r \<notin> {''pending'', ''queued'', ''running''}"
  shows "request_cancel idle now db job_id = (db, False, coerce_status (Text (jb_status r)))"
  using assms(4)
  by (auto simp: request_cancel_def transition_at [OF assms(1-3)] status_at [OF assms(2,3)] Let_def
      simp del: coerce_status.simps)

text \<open>
  Cancelling is idempotent: a second request right after the first changes nothing, signals
  no change, and reports the status the first one reported.
\<close>

theorem request_cancel_idempotent:
  assumes k: "keyed jb_id db" and first: "request_cancel idle now db job_id = (db1, ch, st)"
  shows "request_cancel idle now' db1 job_id = (db1, False, st)"
proof (cases "job_id_int job_id")
  case None
  with first show ?thesis
    by (auto simp: request_cancel_def transition_absent status_and_started_at_def)
next
  case (Some n)
  show ?thesis
  proof (cases "row_at jb_id n db")
    case None
    with first Some show ?thesis
      by (auto simp: request_cancel_def transition_absent(2) [OF Some] status_and_started_at_def)
  next
    case (Some r)
    note out = request_cancel_at [OF k \<open>job_id_int job_id = Some n\<close> Some, of now]
    have n: "jb_id r = n" using Some by (auto dest: row_at_Some)
    have again: "request_cancel idle now' (row_put jb_id n x db) job_id =
        (row_put jb_id n x db, False, coerce_status (Text (jb_status x)))"
      if "jb_id x = n" and "jb_status x \<in> {''cancelling'', ''cancelled''}" for x
      using that k Some
      by (intro request_cancel_again [OF _ \<open>job_id_int job_id = Some n\<close>])
         (auto simp: keyed_put row_at_put)
    show ?thesis
    proof (cases "jb_status r \<in> {''pending'', ''queued'', ''running''}")
      case True
      with out first n show ?thesis
        by (auto simp: again discarded_def cancel_requested_def simp del: coerce_status.simps
            split: if_splits)
    next
      case False
      note same = request_cancel_again [OF k \<open>job_id_int job_id = Some n\<close> Some False]
      from first same [of now] have "db1 = db" "st = coerce_status (Text (jb_status r))"
        by (metis prod.inject)+
      with same [of now'] show ?thesis by (simp only:)
    qed
  qed
qed

lemma request_cancel_idempotent_witness:
  "request_cancel idle 20 (fst (request_cancel idle 9 [sample_job 1 ''pending''] (Id_int 1)))
     (Id_int 1) = ([discarded 9 ''cancelled before start''
        (cancel_requested 9 (sample_job 1 ''pending''))], False, J_cancelled)"
proof -
  have k: "keyed jb_id [sample_job 1 ''pending'']" by (simp add: keyed_def)
  have "request_cancel idle 9 [sample_job 1 ''pending''] (Id_int 1) =
     ([discarded 9 ''cancelled before start'' (cancel_requested 9 (sample_job 1 ''pending''))],
      True, J_cancelled)"
    by (subst request_cancel_at [OF k, of _ 1 "sample_job 1 ''pending''"])
       (simp_all add: sample_simps row_put_def)
  from request_cancel_idempotent [OF k this, of 20] this show ?thesis by simp
qed

section \<open>Fencing\<close>

lemma fenced_writes:
  assumes "keyed jb_id db" and "job_id_int job_id = Some n" and "row_at jb_id n db = Some r"
    and "\<not> fence_ok w a r" and "jb_status r = status_value s"
  shows "mark_succeeded rd idle now db job_id res ref msg w a = (db, s) \<and>
    mark_failed rd now db job_id err msg w a = (db, False) \<and>
    update_progress now db job_id snap w a = (db, False) \<and>
    heartbeat_sync now db job_id w a = (db, False) \<and>
    confirm_cancelled now db job_id msg w a = (db, False)"
proof -
  have t: "transition now db job_id target expected w a extra = (db, False)" for target expected extra
    using assms(4) by (simp add: transition_at [OF assms(1-3)])
  have u: "sql_update (active_where n w a) f db = (db, 0)" for f
  proof -
    have "active_where n w a x = (jb_id x = n \<and> (jb_status x \<in> set active_values \<and> fence_ok w a x))"
      for x by (auto simp: active_where_def fence_ok_def)
    then have "active_where n w a = (\<lambda>x. jb_id x = n \<and> (jb_status x \<in> set active_values \<and> fence_ok w a x))"
      by (rule ext)
    then show ?thesis
      using sql_update_put [OF assms(1,3), of "\<lambda>x. jb_status x \<in> set active_values \<and> fence_ok w a x" f]
        assms(4) by simp
  qed
  have c: "fst (status_and_started_at db job_id) = s"
    by (simp add: status_at [OF assms(2,3)] assms(5))
  show ?thesis
    by (simp add: mark_succeeded_def mark_failed_def confirm_cancelled_def update_progress_def
        heartbeat_sync_def progress_stmt_def t u c assms(2) Let_def)
qed

text \<open>
  A worker that lost its claim cannot write: while the row's worker or attempt differs from
  the one the caller names, reporting success, failure, progress, a heartbeat or the
  confirmation of a cancel leaves the whole table as it is.
\<close>

theorem fenced_writes_change_nothing:
  assumes "keyed jb_id db" and "job_id_int job_id = Some n" and "row_at jb_id n db = Some r"
    and "\<not> fence_ok w a r" and "jb_status r = status_value s"
  shows "mark_succeeded rd idle now db job_id res ref msg w a = (db, s) \<and>
    mark_failed rd now db job_id err msg w a = (db, False) \<and>
    update_progress now db job_id snap w a = (db, False) \<and>
    heartbeat_sync now db job_id w a = (db, False) \<and>
    confirm_cancelled now db job_id msg w a = (db, False)"
  using assms by (rule fenced_writes)

lemma fenced_writes_change_nothing_witness:
  "let j = (sample_job 1 ''running'')\<lparr>jb_worker_id := Some ''new:2'', jb_attempt := Some 2\<rparr>
   in heartbeat_sync 9 [j] (Id_int 1) (Some ''old:1'') (Some 1) = ([j], False)"
proof -
  let ?j = "(sample_job 1 ''running'')\<lparr>jb_worker_id := Some ''new:2'', jb_attempt := Some 2\<rparr>"
  have "keyed jb_id [?j]" "row_at jb_id 1 [?j] = Some ?j" "\<not> fence_ok (Some ''old:1'') (Some 1) ?j"
    "jb_status ?j = status_value J_running"
    by (simp_all add: keyed_def sample_simps fence_ok_def)
  from fenced_writes_change_nothing [OF this(1) _ this(2-4), of "Id_int 1" sample_redactors 9]
  show ?thesis by simp
qed

section \<open>Retry\<close>

definition retried :: "time \<Rightarrow> job \<Rightarrow> job" where
  "retried now r = r\<lparr>jb_status := ''queued'', jb_updated_at := Some now,
     jb_attempt := map_option (\<lambda>a. a + 1) (jb_attempt r),
     jb_retry_count := map_option (\<lambda>c. c + 1) (jb_retry_count r),
     jb_queued_at := Some now, jb_started_at := None, jb_completed_at := None,
     jb_cancel_requested_at := None, jb_heartbeat_at := None, jb_worker_id := None,
     jb_progress := 0, jb_progress_message := Some ''requeued for retry''\<rparr>"

definition redispatchable :: "pyval option \<Rightarrow> bool" where
  "redispatchable spec = (case spec of
     Some (PDict d) \<Rightarrow> \<not> py_truthy (py_get d ''__truncated__'') \<and> py_truthy (py_get d ''task'')
   | _ \<Rightarrow> False)"

lemma start_retry_at:
  assumes inv: "jobs_inv db" and n: "job_id_int job_id = Some n" and row: "row_at jb_id n db = Some r"
  shows "(if jb_status r \<in> {''failed'', ''stale''} \<and>
             or_else (jb_retry_count r) 0 < int_or (jb_max_retries r) 0 \<and>
             redispatchable (jb_dispatch_spec r)
          then start_retry idle now db job_id =
            (row_put jb_id n (retried now r) db, True, ''requeued'')
          else \<exists>why. start_retry idle now db job_id = (db, False, why) \<and> why \<noteq> ''requeued'')"
proof -
  have ok: "job_ok r" using inv row by (rule jobs_inv_row)
  then obtain s where s: "jb_status r = status_value s"
    by (auto simp: job_ok_def status_of_value_Some)
  from ok obtain c where c: "jb_retry_count r = Some c" "jb_attempt r = Some (c + 1)" "0 \<le> c"
    by (auto simp: job_ok_def attempts_ok_def split: option.splits)
  have ints: "int_or (Some c) 0 = c" "int_or (Some (c + 1)) 1 = c + 1"
    using c(3) by (simp_all add: int_or_def)
  have t: "transition now db job_id J_queued (Some [J_failed, J_stale]) None None
       (retry_fields now (int_or (jb_attempt r) 1 + 1) (int_or (jb_retry_count r) 0 + 1)) =
       (if s \<in> {J_failed, J_stale} then (row_put jb_id n (retried now r) db, True) else (db, False))"
    unfolding transition_at [OF jobs_inv_keyed [OF inv] n row]
    by (cases s) (simp_all add: s c ints moved_def retry_fields_def retried_def)
  have g: "get_job db job_id = Some r" by (simp add: get_job_def n row)
  have co: "coerce_status (Text (jb_status r)) = s" by (simp add: s)
  have st: "jb_status r \<in> {''failed'', ''stale''} \<longleftrightarrow> s \<in> {J_failed, J_stale}"
    by (cases s) (simp_all add: s)
  show ?thesis
    using t unfolding st
    by (cases s)
       (simp_all add: start_retry_def Let_def g co c(1) ints redispatchable_def py_get_def
         split: option.split pyval.split del: coerce_status.simps)
qed

text \<open>
  When a retry happens and what it does. On a row of a well-formed table, a retry succeeds
  exactly if the job failed or went stale, has retries left and has a usable dispatch
  descriptor; then the row is queued again as the next attempt, without the previous claim,
  times and cancel request but with its error trace kept. In every other case, a cancelled job
  included, the table is untouched.
\<close>

theorem start_retry_exact:
  assumes inv: "jobs_inv db" and n: "job_id_int job_id = Some n" and row: "row_at jb_id n db = Some r"
  shows "(if jb_status r \<in> {''failed'', ''stale''} \<and>
             or_else (jb_retry_count r) 0 < int_or (jb_max_retries r) 0 \<and>
             redispatchable (jb_dispatch_spec r)
          then start_retry idle now db job_id =
            (row_put jb_id n (retried now r) db, True, ''requeued'')
          else \<exists>why. start_retry idle now db job_id = (db, False, why) \<and> why \<noteq> ''requeued'')"
  using assms by (rule start_retry_at)

lemma sample_job_ok: "status_of_value st \<noteq> None \<Longrightarrow> st \<in> set active_values \<Longrightarrow>
   job_ok (sample_job n st)"
  using active_not_terminal [of st]
  by (simp add: job_ok_def attempts_ok_def sample_simps)

definition failed_job :: job where
  "failed_job = (sample_job 1 ''failed'')\<lparr>jb_completed_at := Some 5,
     jb_worker_id := Some ''old:1'', jb_error_trace := Some ''boom'',
     jb_dispatch_spec := Some (PDict [(''task'', PStr ''t'')])\<rparr>"

lemma failed_job_inv: "jobs_inv [failed_job]"
proof -
  have "status_of_value (jb_status failed_job) \<noteq> None"
    using status_of_value_status_value [of J_failed] by (simp add: failed_job_def sample_job_def)
  then have "job_ok failed_job"
    by (simp add: job_ok_def attempts_ok_def failed_job_def sample_simps value_lists)
  then show ?thesis
    by (simp add: jobs_inv_def keyed_def unique_col_def List.map_filter_def)
qed

lemma failed_job_at: "row_at jb_id 1 [failed_job] = Some failed_job"
  by (simp add: failed_job_def sample_simps)

lemma start_retry_exact_witness:
  "start_retry idle 9 [failed_job] (Id_int 1) = ([retried 9 failed_job], True, ''requeued'')"
proof -
  have "jb_status failed_job \<in> {''failed'', ''stale''}"
    "or_else (jb_retry_count failed_job) 0 < int_or (jb_max_retries failed_job) 0"
    "redispatchable (jb_dispatch_spec failed_job)" "jb_id failed_job = 1"
    by (simp_all add: failed_job_def sample_simps redispatchable_def py_get_def int_or_def)
  with start_retry_exact [OF failed_job_inv _ failed_job_at, of "Id_int 1" 9] show ?thesis
    by (simp add: row_put_def)
qed

text \<open>
  C20. A retry invalidates every claim on the previous attempt: after a successful retry, a
  worker that still names its worker id, or the attempt it ran, can neither finish nor report on
  the job, whatever worker it was.
\<close>

theorem retry_fences_previous_claim:
  assumes inv: "jobs_inv db" and n: "job_id_int job_id = Some n" and row: "row_at jb_id n db = Some r"
    and retry: "start_retry idle now db job_id = (db1, True, why)"
    and claim: "w = Some wid \<or> a = jb_attempt r"
  shows "mark_succeeded rd idle t db1 job_id res ref msg w a = (db1, J_queued) \<and>
    update_progress t db1 job_id snap w a = (db1, False) \<and>
    heartbeat_sync t db1 job_id w a = (db1, False) \<and>
    mark_failed rd t db1 job_id err msg w a = (db1, False)"
proof -
  have id: "jb_id r = n" using row by (auto dest: row_at_Some)
  obtain c where c: "jb_attempt r = Some c"
    using jobs_inv_row [OF inv row] by (auto simp: job_ok_def attempts_ok_def split: option.splits)
  have db1: "db1 = row_put jb_id n (retried now r) db"
    using start_retry_at [OF inv n row, of now] retry by (auto split: if_splits)
  then have "keyed jb_id db1" "row_at jb_id n db1 = Some (retried now r)"
    using jobs_inv_keyed [OF inv] id row by (simp_all add: keyed_put row_at_put retried_def)
  moreover have "\<not> fence_ok w a (retried now r)"
    using claim c by (auto simp: fence_ok_def retried_def)
  moreover have "jb_status (retried now r) = status_value J_queued"
    by (simp add: retried_def)
  ultimately show ?thesis
    using fenced_writes [OF _ n] by blast
qed

lemma retry_fences_previous_claim_witness:
  "heartbeat_sync 11 [retried 9 failed_job] (Id_int 1) (Some ''old:1'') (Some 1) =
     ([retried 9 failed_job], False)"
proof -
  have "jb_status failed_job \<in> {''failed'', ''stale''}"
    "or_else (jb_retry_count failed_job) 0 < int_or (jb_max_retries failed_job) 0"
    "redispatchable (jb_dispatch_spec failed_job)" "jb_id failed_job = 1"
    by (simp_all add: failed_job_def sample_simps redispatchable_def py_get_def int_or_def)
  with start_retry_at [OF failed_job_inv _ failed_job_at, of "Id_int 1" 9]
  have "start_retry idle 9 [failed_job] (Id_int 1) = ([retried 9 failed_job], True, ''requeued'')"
    by (simp add: row_put_def)
  from retry_fences_previous_claim [OF failed_job_inv _ failed_job_at this, of "Some ''old:1''" "''old:1''"]
  show ?thesis by simp
qed

section \<open>Creation and idempotency\<close>

text \<open>
  Resubmitting with the idempotency key of a reusable job (one that is not terminal, or
  completed within the reuse window) creates nothing: the existing row is returned and the
  table is untouched.
\<close>

theorem create_reuses_existing:
  assumes "kw_idempotency_key kw = Some k" and "k \<noteq> []"
    and "get_by_idempotency_key db k = Some j" and "is_reusable ttl now j"
  shows "create_job_sync rd digest ttl env now kw db = (db, Inr j)"
  using assms by (simp add: create_job_sync_def Let_def)

text \<open>
  Two racing submissions of one key make one job: when another transaction inserts the key
  after this submission looked for it, the insert is refused by the table and the submission
  returns the other's row instead of raising, leaving the table as the others left it.
\<close>

theorem create_race_adopts_winner:
  assumes key: "kw_idempotency_key kw = Some k" "k \<noteq> []"
    and before: "get_by_idempotency_key db k = None"
    and winner: "get_by_idempotency_key (env 1 (env 0 db)) k = Some j"
    and quiet: "env 2 (env 1 (env 0 db)) = env 1 (env 0 db)"
  shows "create_job_sync rd digest ttl env now kw db = (env 1 (env 0 db), Inr j)"
proof -
  have "k \<in> set (List.map_filter jb_idempotency_key (env 1 (env 0 db)))"
    using winner by (force simp: get_by_idempotency_key_def List.map_filter_def dest: sql_first_Some)
  then have "\<not> unique_col jb_idempotency_key
      (env 1 (env 0 db) @ [build rd digest now (next_job_id (env 1 (env 0 db))) kw])"
    using key by (simp add: unique_col_def List.map_filter_def build_def)
  then show ?thesis
    using assms by (simp add: create_job_sync_def insert_or_reread_def insert_job_def Let_def)
qed

definition keyed_kwargs :: job_kwargs where
  "keyed_kwargs = sample_kwargs\<lparr>kw_idempotency_key := Some ''k''\<rparr>"

definition keyed_job :: job where
  "keyed_job = (sample_job 1 ''running'')\<lparr>jb_idempotency_key := Some ''k''\<rparr>"

lemma create_reuses_existing_witness:
  "create_job_sync sample_redactors id 60 idle 9 keyed_kwargs [keyed_job] = ([keyed_job], Inr keyed_job)"
proof -
  have "coerce_status (Text ''running'') = J_running"
    using coerce_status_value [of J_running] by (simp del: coerce_status.simps)
  then have "is_reusable 60 9 keyed_job"
    by (simp del: coerce_status.simps(3) add: is_reusable_def keyed_job_def sample_simps is_terminal_def TERMINAL_STATUSES_def)
  moreover have "get_by_idempotency_key [keyed_job] ''k'' = Some keyed_job"
    by (simp add: get_by_idempotency_key_def keyed_job_def)
  moreover have "kw_idempotency_key keyed_kwargs = Some ''k''"
    by (simp add: keyed_kwargs_def)
  ultimately show ?thesis
    using create_reuses_existing [of keyed_kwargs "''k''" "[keyed_job]" keyed_job 60 9] by simp
qed

lemma create_race_adopts_winner_witness:
  "create_job_sync sample_redactors id 60 (\<lambda>i db. if i = 1 then [keyed_job] else db) 9 keyed_kwargs []
     = ([keyed_job], Inr keyed_job)"
proof -
  let ?env = "\<lambda>i db. if i = (1::nat) then [keyed_job] else db"
  have "kw_idempotency_key keyed_kwargs = Some ''k''" "get_by_idempotency_key [] ''k'' = None"
    "get_by_idempotency_key (?env 1 (?env 0 [])) ''k'' = Some keyed_job"
    "?env 2 (?env 1 (?env 0 [])) = ?env 1 (?env 0 [])"
    by (simp_all add: keyed_kwargs_def get_by_idempotency_key_def keyed_job_def)
  from create_race_adopts_winner [OF this(1) _ this(2-4), of sample_redactors id 60 9] show ?thesis
    by simp
qed

section \<open>Ownership\<close>

text \<open>
  Jobs of others are invisible: a listing holds only rows the caller's predicate grants, at
  most 200 of them, no row twice as often as in the table, newest first; a caller with neither
  an owner id, nor a token, nor a session sees nothing through any of the four reads.
\<close>

theorem ownership_isolation:
  "(let rows = list_for_owner digest db uid tok sids act agent limit
    in set rows \<subseteq> {r \<in> set db. ownership_predicate digest uid tok sids r} \<and> length rows \<le> 200 \<and>
       sorted (List.map (\<lambda>r. (- jb_created_at r, - jb_id r)) rows)) \<and>
   (normalize_owner_id uid = None \<and> \<not> truthy tok \<and> sids \<in> {None, Some []} \<longrightarrow>
      list_for_owner digest db uid tok sids act agent limit = [] \<and>
      get_for_owner digest db job_id uid tok sids = Inl (JobNotFound (id_text job_id)) \<and>
      \<not> has_active_for_owner digest db uid tok sids \<and> \<not> verify_celery_owner digest db cid uid tok sids)"
proof (intro conjI impI)
  have "nat (max 1 (min (int_or limit DEFAULT_LIST_LIMIT) MAX_LIST_LIMIT)) \<le> 200"
    by (simp add: MAX_LIST_LIMIT_def)
  then show "let rows = list_for_owner digest db uid tok sids act agent limit
     in set rows \<subseteq> {r \<in> set db. ownership_predicate digest uid tok sids r} \<and> length rows \<le> 200 \<and>
        sorted (List.map (\<lambda>r. (- jb_created_at r, - jb_id r)) rows)"
    by (auto simp: list_for_owner_def list_stmt_def Let_def simp flip: take_map
        intro!: sorted_wrt_take dest: in_set_takeD)
next
  assume anon: "normalize_owner_id uid = None \<and> \<not> truthy tok \<and> sids \<in> {None, Some []}"
  have no: "ownership_predicate digest uid tok sids r = False" for r
    using anon by (auto simp: ownership_predicate_def split: option.split)
  show "list_for_owner digest db uid tok sids act agent limit = []"
    "get_for_owner digest db job_id uid tok sids = Inl (JobNotFound (id_text job_id))"
    "\<not> has_active_for_owner digest db uid tok sids" "\<not> verify_celery_owner digest db cid uid tok sids"
    by (simp_all add: list_for_owner_def list_stmt_def get_for_owner_def has_active_for_owner_def
        verify_celery_owner_def no sql_first_None Let_def split: option.split)
qed

lemma ownership_isolation_witness:
  "normalize_owner_id (Some '' Anonymous '') = None \<and>
   list_for_owner id [sample_job 1 ''running''] (Some '' Anonymous '') None None False None None = [] \<and>
   length (list_for_owner id [(sample_job 1 ''running'')\<lparr>jb_creator_id := Some ''u1''\<rparr>] (Some ''u1'')
     None None False None None) \<le> 200"
proof -
  have n: "normalize_owner_id (Some '' Anonymous '') = None" by code_simp
  from ownership_isolation [of id "[sample_job 1 ''running'']" "Some '' Anonymous ''" None None]
    ownership_isolation [of id "[(sample_job 1 ''running'')\<lparr>jb_creator_id := Some ''u1''\<rparr>]"
      "Some ''u1''" None None False None None]
    n show ?thesis by (simp only: truthy_simps Let_def) blast
qed

section \<open>Sweeps\<close>

text \<open>
  A sweep whose action on a row depends on the row alone does to the table what one
  simultaneous update would: every selected row is replaced by its new version.
\<close>

lemma sweep_rows_at_once:
  assumes "keyed jb_id db" and "distinct (List.map jb_id js)" and "set js \<subseteq> set db"
    and act: "\<And>j t. j \<in> set js \<Longrightarrow> keyed jb_id t \<Longrightarrow> row_at jb_id (jb_id j) t = Some j \<Longrightarrow>
       act j t = (row_put jb_id (jb_id j) (g j) t, True)"
    and g: "\<And>j. jb_id (g j) = jb_id j"
  shows "sweep_rows act idle i js db =
     (List.map (\<lambda>r. if r \<in> set js then g r else r) db, length js)"
  using assms(1-4)
proof (induction js arbitrary: i db)
  case Nil
  then show ?case by simp
next
  case (Cons j js)
  have j: "row_at jb_id (jb_id j) db = Some j"
    using Cons.prems(1,3) by (auto intro: row_at_keyed)
  let ?t = "row_put jb_id (jb_id j) (g j) db"
  have same: "r = j" if "r \<in> set db" "jb_id r = jb_id j" for r
    using row_at_keyed [OF Cons.prems(1) that(1)] that(2) j by simp
  have jn: "jb_id r \<noteq> jb_id j" if "r \<in> set js" for r
    using that Cons.prems(2) by (auto simp: image_iff)
  have t: "?t = List.map (\<lambda>r. if r = j then g r else r) db"
    using same by (auto simp: row_put_def intro!: map_cong)
  have "sweep_rows act idle (Suc i) js ?t = (List.map (\<lambda>r. if r \<in> set js then g r else r) ?t, length js)"
  proof (rule Cons.IH)
    show "keyed jb_id ?t" using Cons.prems(1) g by (simp add: keyed_put)
    show "set js \<subseteq> set ?t"
    proof
      fix r
      assume r: "r \<in> set js"
      then have "r \<in> set db" "r \<noteq> j" using Cons.prems(3) jn by auto
      then show "r \<in> set ?t" unfolding t by (auto intro!: image_eqI [of _ _ r])
    qed
  qed (use Cons.prems in auto)
  moreover have "List.map (\<lambda>r. if r \<in> set js then g r else r) ?t =
      List.map (\<lambda>r. if r \<in> set (j # js) then g r else r) db"
  proof -
    have "g j \<notin> set js" using jn g by force
    then show ?thesis unfolding t by (auto simp: comp_def)
  qed
  moreover have "idle i db = db" by simp
  ultimately show ?case
    using Cons.prems(4) [of j db] Cons.prems(1) j by (simp add: Let_def del: idle_simp)
qed

definition lost :: "time \<Rightarrow> job \<Rightarrow> job" where
  "lost now r = r\<lparr>jb_status := ''stale'', jb_updated_at := Some now,
     jb_progress_message := Some ''worker heartbeat lost'',
     jb_error_trace := Some ''job marked stale: worker heartbeat lost'',
     jb_completed_at := Some now, jb_heartbeat_at := None\<rparr>"

text \<open>
  The stale sweep as one update: when its limit covers the rows whose heartbeat (or start,
  without one) is older than the cutoff, the sweep turns each running one into stale and each
  cancelling one into cancelled, touches no other row, and returns their number. In particular
  a job being cancelled never becomes retryable, and a fresh heartbeat protects its job.
\<close>

theorem sweep_stale_exact:
  assumes inv: "jobs_inv db"
    and limit: "length (filter (stale_predicate (now - secs * 1000000)) db) \<le> limit"
  shows "sweep_stale idle now secs limit db =
    (List.map (\<lambda>r. if stale_predicate (now - secs * 1000000) r
        then if jb_status r = ''cancelling''
             then discarded now ''cancelled (worker heartbeat lost)'' r else lost now r
        else r) db,
     length (filter (stale_predicate (now - secs * 1000000)) db))"
proof -
  let ?p = "stale_predicate (now - secs * 1000000)"
  let ?g = "\<lambda>r. if jb_status r = ''cancelling''
     then discarded now ''cancelled (worker heartbeat lost)'' r else lost now r"
  have co: "coerce_status (Text v) = J_cancelling \<longleftrightarrow> v = ''cancelling''"
    if "v \<in> {''running'', ''cancelling''}" for v
    using that coerce_status_value [of J_running] coerce_status_value [of J_cancelling] by auto
  have "sweep_rows (sweep_stale_job now) idle 0 (filter ?p db) db =
     (List.map (\<lambda>r. if r \<in> set (filter ?p db) then ?g r else r) db, length (filter ?p db))"
  proof (rule sweep_rows_at_once)
    fix j t
    assume j: "j \<in> set (filter ?p db)" and k: "keyed jb_id t" and r: "row_at jb_id (jb_id j) t = Some j"
    have st: "jb_status j \<in> {''running'', ''cancelling''}"
      using j by (auto simp: stale_predicate_def)
    show "sweep_stale_job now j t = (row_put jb_id (jb_id j) (?g j) t, True)"
    proof (cases "jb_status j = ''cancelling''")
      case True
      then show ?thesis
        using co [OF st] confirm_cancelled_at [OF k _ r, of "Id_int (jb_id j)"]
        by (simp add: sweep_stale_job_def del: coerce_status.simps)
    next
      case False
      with st have "jb_status j = ''running''" by simp
      then show ?thesis
        using co [OF st] transition_at [OF k _ r, of "Id_int (jb_id j)"]
        by (simp add: sweep_stale_job_def moved_def stale_fields_def terminal_fields_def lost_def
            del: coerce_status.simps)
    qed
  qed (use inv in \<open>auto simp: jobs_inv_def keyed_def distinct_map_filter discarded_def lost_def\<close>)
  then show ?thesis
    using limit by (simp add: sweep_stale_def find_stale_def sql_where_def cong: list.map_cong)
qed

definition orphaned :: "time \<Rightarrow> job \<Rightarrow> job" where
  "orphaned now r = r\<lparr>jb_status := ''failed'', jb_updated_at := Some now,
     jb_progress_message := Some ''never picked up by a worker'',
     jb_error_trace := Some ''job orphaned: never picked up by a worker'',
     jb_completed_at := Some now, jb_heartbeat_at := None\<rparr>"

lemma sweep_orphans_at:
  assumes inv: "jobs_inv db"
    and limit: "length (filter (orphan_predicate (now - or_else secs 3600 * 1000000)) db) \<le> limit"
  shows "sweep_orphans idle now secs limit db =
    (List.map (\<lambda>r. if orphan_predicate (now - or_else secs 3600 * 1000000) r then orphaned now r else r) db,
     length (filter (orphan_predicate (now - or_else secs 3600 * 1000000)) db))"
proof -
  let ?p = "orphan_predicate (now - or_else secs 3600 * 1000000)"
  have "sweep_rows (sweep_orphan now) idle 0 (filter ?p db) db =
     (List.map (\<lambda>r. if r \<in> set (filter ?p db) then orphaned now r else r) db, length (filter ?p db))"
  proof (rule sweep_rows_at_once)
    fix j t
    assume j: "j \<in> set (filter ?p db)" and k: "keyed jb_id t" and r: "row_at jb_id (jb_id j) t = Some j"
    have st: "jb_status j \<in> {''pending'', ''queued''}"
      using j by (auto simp: orphan_predicate_def)
    then show "sweep_orphan now j t = (row_put jb_id (jb_id j) (orphaned now j) t, True)"
      using transition_at [OF k _ r, of "Id_int (jb_id j)"]
      by (simp add: sweep_orphan_def moved_def orphan_fields_def terminal_fields_def orphaned_def)
  qed (use inv in \<open>auto simp: jobs_inv_def keyed_def distinct_map_filter orphaned_def\<close>)
  then show ?thesis
    using limit
    by (simp add: sweep_orphans_def ORPHAN_AFTER_S_def sql_where_def Let_def cong: list.map_cong)
qed

definition silent_jobs :: job_table where
  "silent_jobs = [(sample_job 1 ''running'')\<lparr>jb_heartbeat_at := Some 10\<rparr>,
     (sample_job 2 ''cancelling'')\<lparr>jb_started_at := Some 10\<rparr>,
     (sample_job 3 ''running'')\<lparr>jb_heartbeat_at := Some 900000000\<rparr>]"

lemma silent_jobs_inv: "jobs_inv silent_jobs"
proof -
  have "status_of_value ''running'' \<noteq> None" "status_of_value ''cancelling'' \<noteq> None"
    using status_of_value_status_value [of J_running] status_of_value_status_value [of J_cancelling]
    by simp_all
  then show ?thesis
    by (simp add: jobs_inv_def keyed_def unique_col_def List.map_filter_def silent_jobs_def
        job_ok_def attempts_ok_def sample_simps value_lists)
qed

lemma sweep_stale_exact_witness:
  "let j1 = (sample_job 1 ''running'')\<lparr>jb_heartbeat_at := Some 10\<rparr>;
       j2 = (sample_job 2 ''cancelling'')\<lparr>jb_started_at := Some 10\<rparr>;
       j3 = (sample_job 3 ''running'')\<lparr>jb_heartbeat_at := Some 900000000\<rparr>
   in sweep_stale idle 1000000000 300 100 silent_jobs =
        ([lost 1000000000 j1, discarded 1000000000 ''cancelled (worker heartbeat lost)'' j2, j3], 2)"
proof -
  have "length (filter (stale_predicate (1000000000 - 300 * 1000000)) silent_jobs) \<le> 100"
    by (rule order_trans [OF length_filter_le]) (simp add: silent_jobs_def)
  from sweep_stale_exact [OF silent_jobs_inv this] show ?thesis
    by (simp add: silent_jobs_def stale_predicate_def sample_simps)
qed

text \<open>
  The orphan sweep judges a job by its creation, so a retry of an older job is failed again
  at once: if the limit covers the orphans, a job created more than the orphan age ago that a
  retry has just put back in the queue is marked \<open>failed\<close> (\<open>never picked up by a worker\<close>) by
  the next sweep, even at the very same instant.
\<close>

theorem retried_old_job_swept:
  assumes inv: "jobs_inv db" and n: "job_id_int job_id = Some n" and row: "row_at jb_id n db = Some r"
    and old: "jb_created_at r < now - 3600 * 1000000"
    and retry: "start_retry idle now db job_id = (db1, True, why)"
    and limit: "length (filter (orphan_predicate (now - 3600 * 1000000)) db1) \<le> limit"
  shows "row_at jb_id n (fst (sweep_orphans idle now None limit db1)) = Some (orphaned now (retried now r))"
proof -
  have id: "jb_id r = n" using row by (auto dest: row_at_Some)
  have good: "jobs_inv db1"
    using start_retry_good [OF inv env_ok_idle, of now job_id] retry by (simp add: good_def)
  have "db1 = row_put jb_id n (retried now r) db"
    using start_retry_at [OF inv n row, of now] retry by (auto split: if_splits)
  then have at: "row_at jb_id n db1 = Some (retried now r)"
    using id row by (simp add: row_at_put retried_def)
  have "orphan_predicate (now - 3600 * 1000000) (retried now r)"
    using old by (simp add: orphan_predicate_def retried_def)
  moreover have "row_at jb_id n (List.map (\<lambda>r. if p r then orphaned now r else r) db1) =
      map_option (\<lambda>r. if p r then orphaned now r else r) (row_at jb_id n db1)" for p
    using row_at_sql_update [of jb_id "orphaned now" n p db1]
    by (simp add: sql_update_def orphaned_def)
  ultimately show ?thesis
    using sweep_orphans_at [OF good, of now None limit] limit at by simp
qed

lemma retried_old_job_swept_witness:
  "row_at jb_id 1 (fst (sweep_orphans idle 4000000000 None 100
     (fst (start_retry idle 4000000000 [failed_job] (Id_int 1))))) =
     Some (orphaned 4000000000 (retried 4000000000 failed_job))"
proof -
  have "jb_status failed_job \<in> {''failed'', ''stale''}"
    "or_else (jb_retry_count failed_job) 0 < int_or (jb_max_retries failed_job) 0"
    "redispatchable (jb_dispatch_spec failed_job)" "jb_id failed_job = 1"
    "jb_created_at failed_job < 4000000000 - 3600 * 1000000"
    by (simp_all add: failed_job_def sample_simps redispatchable_def py_get_def int_or_def)
  note f = this
  have r: "start_retry idle 4000000000 [failed_job] (Id_int 1) =
      ([retried 4000000000 failed_job], True, ''requeued'')"
    using f start_retry_at [OF failed_job_inv _ failed_job_at, of "Id_int 1" 4000000000]
    by (simp add: row_put_def)
  show ?thesis
    using retried_old_job_swept [OF failed_job_inv _ failed_job_at f(5) r, of 100] r by simp
qed

text \<open>
  A requested cancellation does not survive a failure: when the worker of a cancelling job
  reports an error instead of confirming, the job becomes an ordinary failed job, and if it has
  retries left and a usable descriptor a retry puts it back in the queue with the cancel request
  erased.
\<close>

theorem failed_while_cancelling_is_retryable:
  assumes inv: "jobs_inv db" and n: "job_id_int job_id = Some n" and row: "row_at jb_id n db = Some r"
    and st: "jb_status r = ''cancelling''"
    and left: "or_else (jb_retry_count r) 0 < int_or (jb_max_retries r) 0"
    and spec: "redispatchable (jb_dispatch_spec r)"
  shows "\<exists>db1 r1. mark_failed rd now db job_id err msg None None = (db1, True) \<and>
    start_retry idle now' db1 job_id = (row_put jb_id n r1 db, True, ''requeued'') \<and>
    jb_status r1 = ''queued'' \<and> jb_cancel_requested_at r1 = None"
proof -
  let ?f = "moved now J_failed (failed_fields rd now err msg) r"
  have id: "jb_id ?f = n"
    using row by (auto simp: moved_def failed_fields_def terminal_fields_def dest: row_at_Some)
  have mf: "mark_failed rd now db job_id err msg None None = (row_put jb_id n ?f db, True)"
    by (simp add: mark_failed_def transition_at [OF jobs_inv_keyed [OF inv] n row] st)
  then have inv1: "jobs_inv (row_put jb_id n ?f db)"
    using mark_failed_good [OF inv, of rd now job_id err msg None None] by (simp add: good_def)
  have row1: "row_at jb_id n (row_put jb_id n ?f db) = Some ?f"
    using id row by (simp add: row_at_put)
  have "start_retry idle now' (row_put jb_id n ?f db) job_id =
      (row_put jb_id n (retried now' ?f) (row_put jb_id n ?f db), True, ''requeued'')"
    using start_retry_at [OF inv1 n row1, of now'] left spec
    by (simp add: moved_def failed_fields_def terminal_fields_def)
  with mf id show ?thesis
    by (intro exI [of _ "row_put jb_id n ?f db"] exI [of _ "retried now' ?f"])
       (simp add: row_put_twice, simp add: retried_def)
qed

lemma failed_while_cancelling_is_retryable_witness:
  "\<exists>r1. start_retry idle 20 (fst (mark_failed sample_redactors 10
      [failed_job\<lparr>jb_status := ''cancelling'', jb_completed_at := None\<rparr>] (Id_int 1)
      None None None None)) (Id_int 1) = ([r1], True, ''requeued'') \<and>
    jb_status r1 = ''queued'' \<and> jb_cancel_requested_at r1 = None"
proof -
  let ?r = "failed_job\<lparr>jb_status := ''cancelling'', jb_completed_at := None\<rparr>"
  have "status_of_value ''cancelling'' \<noteq> None"
    using status_of_value_status_value [of J_cancelling] by simp
  then have "jobs_inv [?r]"
    by (simp add: jobs_inv_def keyed_def unique_col_def List.map_filter_def job_ok_def
        attempts_ok_def failed_job_def sample_simps value_lists)
  moreover have "row_at jb_id 1 [?r] = Some ?r" and id: "jb_id ?r = 1"
    and "or_else (jb_retry_count ?r) 0 < int_or (jb_max_retries ?r) 0"
    and "redispatchable (jb_dispatch_spec ?r)" and "jb_status ?r = ''cancelling''"
    by (simp_all add: failed_job_def sample_simps redispatchable_def py_get_def int_or_def)
  ultimately obtain db1 r1 where "mark_failed sample_redactors 10 [?r] (Id_int 1) None None None None = (db1, True)"
    "start_retry idle 20 db1 (Id_int 1) = (row_put jb_id 1 r1 [?r], True, ''requeued'')"
    "jb_status r1 = ''queued''" "jb_cancel_requested_at r1 = None"
    using failed_while_cancelling_is_retryable [of "[?r]" "Id_int 1" 1 ?r sample_redactors 10 None None 20]
    by auto
  with id show ?thesis by (auto simp: row_put_def)
qed

section \<open>Witnesses of the run properties\<close>

definition sample_config :: store_config where
  "sample_config = \<lparr>cf_redactors = sample_redactors, cf_digest = id, cf_ttl = 60,
     cf_identity = ''host:1''\<rparr>"

definition sample_run :: "job_op list" where
  "sample_run = [Op_create idle 1 None sample_kwargs, Op_run 2 (Id_int 1) None,
     Op_cancel idle 3 (Id_int 1), Op_confirm 4 (Id_int 1) None None None]"

lemma sample_run_ok: "list_all op_ok sample_run"
  by (simp add: sample_run_def env_ok_idle sample_kwargs_def ACTIVE_STATUSES_def)

lemma empty_inv: "jobs_inv []"
  by (simp add: jobs_inv_def keyed_def unique_col_def List.map_filter_def)

lemma job_runs_keep_invariant_witness:
  "jobs_inv (run_ops (job_step sample_config) [] sample_run)"
  by (rule job_runs_keep_invariant [OF sample_run_ok empty_inv])

lemma immutable_rows_frozen_witness:
  "\<exists>r'. row_at jb_id 1 (run_ops (job_step sample_config) [failed_job\<lparr>jb_status := ''cancelled''\<rparr>]
      ([] @ sample_run)) = Some r' \<and> jb_status r' = ''cancelled''"
proof -
  let ?r = "failed_job\<lparr>jb_status := ''cancelled''\<rparr>"
  have "status_of_value ''cancelled'' \<noteq> None"
    using status_of_value_status_value [of J_cancelled] by simp
  then have "jobs_inv [?r]"
    by (simp add: jobs_inv_def keyed_def unique_col_def List.map_filter_def job_ok_def
        attempts_ok_def failed_job_def sample_simps value_lists)
  moreover have "row_at jb_id 1 (run_ops (job_step sample_config) [?r] []) = Some ?r"
    by (simp add: failed_job_def sample_simps)
  ultimately obtain r' where "row_at jb_id 1 (run_ops (job_step sample_config) [?r] ([] @ sample_run)) = Some r'"
    and r': "r' = ?r\<lparr>jb_idempotency_key := jb_idempotency_key r',
       jb_celery_task_id := jb_celery_task_id r', jb_updated_at := jb_updated_at r'\<rparr>"
    using immutable_rows_frozen [OF _ sample_run_ok, of "[]" "[?r]" 1 sample_config ?r] by auto
  moreover have "jb_status r' = ''cancelled''"
    by (subst r') simp
  ultimately show ?thesis by blast
qed

end
