(* ===== verification/Graph_Closure.thy ===== *)
theory Graph_Closure
  imports Prelude
begin

text \<open>
  The work-list traversals the program repeats over adjacency dictionaries, and what they
  compute. Two loops occur in the code:

  \<^item> mark on push: pop a node, and for each neighbour not yet marked, mark and push it
    (\<open>downstream_closure\<close>, \<open>upstream_closure\<close>); the seeds themselves are not marked. The
    result is the set of nodes reachable in at least one step.
  \<^item> mark on pop: pop a node, skip it if marked, else mark it and push its neighbours
    (delta descendants, plan descendants, the recursive marking of a recompute plan). The
    result is the set of nodes reachable in any number of steps. \<open>pop_mark\<close> takes from a stack
    and \<open>queue_mark\<close> from a queue (the descendants of an execution plan).

  A stack is a list whose head is its top, so \<open>stack.extend(ns)\<close> puts \<open>rev ns\<close> in front. The
  locales \<open>strict_closure\<close>, \<open>opposite_closures\<close> and \<open>closure\<close> are the contracts their users
  rest on.
\<close>

section \<open>Edges\<close>

type_synonym 'a adjacency = "('a \<times> 'a list) list"

definition adj_edges :: "'a adjacency \<Rightarrow> ('a \<times> 'a) set" where
  "adj_edges adj = {(a, b). b \<in> set (dict_items adj a)}"

definition adj_targets :: "'a adjacency \<Rightarrow> 'a set" where
  "adj_targets adj = (\<Union>(k, ns) \<in> set adj. set ns)"

lemma finite_adj_targets [simp]: "finite (adj_targets adj)"
  by (auto simp: adj_targets_def)

lemma dict_items_targets: "set (dict_items adj k) \<subseteq> adj_targets adj"
  by (auto simp: adj_targets_def dest: dict_items_member)

lemma adj_edges_iff: "(a, b) \<in> adj_edges adj \<longleftrightarrow> b \<in> set (dict_items adj a)"
  by (simp add: adj_edges_def)

lemma adj_edges_push:
  "adj_edges (dict_push k x adj) = insert (k, x) (adj_edges adj)"
  by (auto simp: adj_edges_iff dict_items_push split: if_splits)

lemma adj_edges_empty [simp]: "adj_edges [] = {}"
  by (auto simp: adj_edges_iff)

section \<open>Contracts\<close>

locale strict_closure =
  fixes run :: "'a list \<Rightarrow> 'a list" and edges :: "('a \<times> 'a) set"
  assumes run_reach: "set (run s) = edges\<^sup>+ `` set s"
begin

lemma run_closed: "a \<in> set s \<union> set (run s) \<Longrightarrow> (a, b) \<in> edges \<Longrightarrow> b \<in> set (run s)"
  by (auto simp: run_reach Image_iff intro: trancl_into_trancl)

lemma run_mono: "set s \<subseteq> set t \<Longrightarrow> set (run s) \<subseteq> set (run t)"
  by (auto simp: run_reach)

lemma run_append: "set (run (s @ t)) = set (run s) \<union> set (run t)"
  by (auto simp: run_reach)

lemma run_again: "set (run (run s)) \<subseteq> set (run s)"
  by (auto simp: run_reach intro: trancl_trans)

lemma run_least:
  assumes "\<And>a b. a \<in> set s \<union> C \<Longrightarrow> (a, b) \<in> edges \<Longrightarrow> b \<in> C"
  shows "set (run s) \<subseteq> C"
proof -
  have "b \<in> C" if "(a, b) \<in> edges\<^sup>+" and "a \<in> set s" for a b
    using that by (induction rule: trancl_induct) (auto intro: assms)
  then show ?thesis by (auto simp: run_reach)
qed

end

text \<open>Two strict closures over opposite edges find each other's seeds.\<close>

locale opposite_closures = down: strict_closure down edges + up: strict_closure up "edges\<inverse>"
  for down up :: "'a list \<Rightarrow> 'a list" and edges :: "('a \<times> 'a) set"
begin

lemma opposite: "b \<in> set (down [a]) \<longleftrightarrow> a \<in> set (up [b])"
  by (auto simp: down.run_reach up.run_reach trancl_converse)

end

locale closure =
  fixes run :: "'a list \<Rightarrow> 'a list" and edges :: "('a \<times> 'a) set" and ok :: "'a \<Rightarrow> bool"
  assumes run_reach: "set (run s) = {(a, b) \<in> edges. ok b}\<^sup>* `` {a \<in> set s. ok a}"
begin

lemma run_extensive: "a \<in> set s \<Longrightarrow> ok a \<Longrightarrow> a \<in> set (run s)"
  by (auto simp: run_reach)

lemma run_ok: "b \<in> set (run s) \<Longrightarrow> ok b"
proof -
  have "ok b" if "(a, b) \<in> {(a, b) \<in> edges. ok b}\<^sup>*" and "ok a" for a
    using that by (induction rule: rtrancl_induct) auto
  then show "b \<in> set (run s) \<Longrightarrow> ok b" by (auto simp: run_reach)
qed

lemma run_closed: "a \<in> set (run s) \<Longrightarrow> (a, b) \<in> edges \<Longrightarrow> ok b \<Longrightarrow> b \<in> set (run s)"
  by (auto simp: run_reach Image_iff intro: rtrancl_into_rtrancl)

lemma run_mono: "set s \<subseteq> set t \<Longrightarrow> set (run s) \<subseteq> set (run t)"
  by (auto simp: run_reach)

lemma run_append: "set (run (s @ t)) = set (run s) \<union> set (run t)"
  by (auto simp: run_reach)

lemma run_least:
  assumes "\<And>a. a \<in> set s \<Longrightarrow> ok a \<Longrightarrow> a \<in> C"
    and "\<And>a b. a \<in> C \<Longrightarrow> (a, b) \<in> edges \<Longrightarrow> ok b \<Longrightarrow> b \<in> C"
  shows "set (run s) \<subseteq> C"
proof -
  have "b \<in> C" if "(a, b) \<in> {(a, b) \<in> edges. ok b}\<^sup>*" and "a \<in> set s" "ok a" for a b
    using that by (induction rule: rtrancl_induct) (auto intro: assms)
  then show ?thesis by (auto simp: run_reach)
qed

end

section \<open>Mark on push\<close>

fun push_new :: "'a list \<Rightarrow> 'a list \<Rightarrow> 'a list \<Rightarrow> 'a list \<times> 'a list" where
  "push_new [] out stack = (out, stack)"
| "push_new (n # ns) out stack =
     (if n \<in> set out then push_new ns out stack else push_new ns (n # out) (n # stack))"

lemma push_new_out: "set (fst (push_new ns out stack)) = set out \<union> set ns"
  by (induction ns out stack rule: push_new.induct) auto

lemma push_new_stack:
  "set (snd (push_new ns out stack)) = set stack \<union> (set ns - set out)"
  by (induction ns out stack rule: push_new.induct) auto

lemma push_new_same: "set ns \<subseteq> set out \<Longrightarrow> push_new ns out stack = (out, stack)"
  by (induction ns out stack rule: push_new.induct) auto

lemma push_new_distinct: "distinct out \<Longrightarrow> distinct (fst (push_new ns out stack))"
  by (induction ns out stack rule: push_new.induct) auto

text \<open>
  The loop ends: an iteration that marks something leaves fewer unmarked targets, one that
  marks nothing leaves a shorter stack.
\<close>

function push_mark :: "'a adjacency \<Rightarrow> 'a list \<Rightarrow> 'a list \<Rightarrow> 'a list" where
  "push_mark adj out [] = out"
| "push_mark adj out (cur # stack) =
     (let (out', stack') = push_new (dict_items adj cur) out stack in push_mark adj out' stack')"
  by pat_completeness auto

termination
proof (relation "measures [\<lambda>(adj, out, stack). card (adj_targets adj - set out),
    \<lambda>(adj, out, stack). length stack]", goal_cases)
  case 1
  show ?case by simp
next
  case (2 adj out cur stack x out' stack')
  then have p: "push_new (dict_items adj cur) out stack = (out', stack')" by simp
  show ?case
  proof (cases "set (dict_items adj cur) \<subseteq> set out")
    case True
    with p push_new_same [OF True] show ?thesis by simp
  next
    case False
    then obtain n where n: "n \<in> set (dict_items adj cur)" "n \<notin> set out" by auto
    have "set out' = set out \<union> set (dict_items adj cur)"
      using push_new_out [of "dict_items adj cur" out stack] p by simp
    with n dict_items_targets [of adj cur] have "adj_targets adj - set out' \<subset> adj_targets adj - set out"
      by auto
    then have "card (adj_targets adj - set out') < card (adj_targets adj - set out)"
      by (intro psubset_card_mono) auto
    then show ?thesis by simp
  qed
qed

text \<open>
  Loop invariant: what is marked is reachable, and from a marked or seed node every edge leads
  to a marked node unless the node still waits on the stack.
\<close>

lemma push_mark_sound:
  "set out \<subseteq> R \<Longrightarrow> (\<And>a b. a \<in> set stack \<union> R \<Longrightarrow> (a, b) \<in> adj_edges adj \<Longrightarrow> b \<in> R) \<Longrightarrow>
   set (push_mark adj out stack) \<subseteq> R"
proof (induction adj out stack rule: push_mark.induct)
  case (1 adj out)
  then show ?case by simp
next
  case (2 adj out cur stack)
  obtain out' stack' where p: "push_new (dict_items adj cur) out stack = (out', stack')" by force
  have nb: "set (dict_items adj cur) \<subseteq> R"
    using 2(3) [of cur] by (auto simp: adj_edges_iff)
  have o': "set out' = set out \<union> set (dict_items adj cur)"
    using push_new_out [of "dict_items adj cur" out stack] p by simp
  have s': "set stack' \<subseteq> set stack \<union> R"
    using push_new_stack [of "dict_items adj cur" out stack] p nb by auto
  have "set (push_mark adj out' stack') \<subseteq> R"
  proof (rule 2(1) [OF p [symmetric] refl])
    show "set out' \<subseteq> R" using o' nb 2(2) by auto
    show "b \<in> R" if "a \<in> set stack' \<union> R" "(a, b) \<in> adj_edges adj" for a b
      using 2(3) [of a b] that s' by auto
  qed
  then show ?case by (simp add: p)
qed

lemma push_mark_complete:
  "(\<And>a b. a \<in> S \<union> set out \<Longrightarrow> a \<notin> set stack \<Longrightarrow> (a, b) \<in> adj_edges adj \<Longrightarrow> b \<in> set out) \<Longrightarrow>
   a \<in> S \<union> set (push_mark adj out stack) \<Longrightarrow> (a, b) \<in> adj_edges adj \<Longrightarrow>
   b \<in> set (push_mark adj out stack)"
proof (induction adj out stack arbitrary: a b rule: push_mark.induct)
  case (1 adj out)
  then show ?case by auto
next
  case (2 adj out cur stack)
  obtain out' stack' where p: "push_new (dict_items adj cur) out stack = (out', stack')" by force
  have o': "set out' = set out \<union> set (dict_items adj cur)"
    using push_new_out [of "dict_items adj cur" out stack] p by simp
  have s': "set stack' = set stack \<union> (set (dict_items adj cur) - set out)"
    using push_new_stack [of "dict_items adj cur" out stack] p by simp
  have "b \<in> set (push_mark adj out' stack')"
  proof (rule 2(1) [OF p [symmetric] refl])
    fix a b
    assume a: "a \<in> S \<union> set out'" "a \<notin> set stack'" "(a, b) \<in> adj_edges adj"
    show "b \<in> set out'"
    proof (cases "a = cur")
      case True
      with a(3) o' show ?thesis by (simp add: adj_edges_iff)
    next
      case False
      with a 2(2) [of a b] o' s' show ?thesis by auto
    qed
  qed (use p 2(3,4) in simp_all)
  then show ?case by (simp add: p)
qed

lemma push_mark_reach: "set (push_mark adj [] stack) = (adj_edges adj)\<^sup>+ `` set stack"
proof
  show "set (push_mark adj [] stack) \<subseteq> (adj_edges adj)\<^sup>+ `` set stack"
    by (rule push_mark_sound) (auto intro: trancl_into_trancl)
  have step: "b \<in> set (push_mark adj [] stack)"
    if "a \<in> set stack \<union> set (push_mark adj [] stack)" "(a, b) \<in> adj_edges adj" for a b
    using push_mark_complete [of "set stack" "[]" stack adj a b] that by auto
  show "(adj_edges adj)\<^sup>+ `` set stack \<subseteq> set (push_mark adj [] stack)"
  proof
    fix b
    assume "b \<in> (adj_edges adj)\<^sup>+ `` set stack"
    then obtain a where "(a, b) \<in> (adj_edges adj)\<^sup>+" "a \<in> set stack" by auto
    then show "b \<in> set (push_mark adj [] stack)"
      by (induction rule: trancl_induct) (auto intro: step)
  qed
qed

section \<open>Mark on pop\<close>

function mark :: "bool \<Rightarrow> ('a \<Rightarrow> bool) \<Rightarrow> 'a adjacency \<Rightarrow> 'a list \<Rightarrow> 'a list \<Rightarrow> 'a list" where
  "mark lifo ok adj seen [] = seen"
| "mark lifo ok adj seen (cur # stack) =
     (if cur \<in> set seen \<or> \<not> ok cur then mark lifo ok adj seen stack
      else mark lifo ok adj (cur # seen)
        (if lifo then dict_items adj cur @ stack else stack @ dict_items adj cur))"
  by pat_completeness auto

termination
proof (relation "measures [\<lambda>(lifo, ok, adj, seen, stack). card ((adj_targets adj \<union> set stack) - set seen),
    \<lambda>(lifo, ok, adj, seen, stack). length stack]", goal_cases)
  case 1
  show ?case by simp
next
  case (2 lifo ok adj seen cur stack)
  have "card ((adj_targets adj \<union> set stack) - set seen) \<le> card ((adj_targets adj \<union> set (cur # stack)) - set seen)"
    by (intro card_mono) auto
  then show ?case by auto
next
  case (3 lifo ok adj seen cur stack)
  have "(adj_targets adj \<union> set (if lifo then dict_items adj cur @ stack else stack @ dict_items adj cur)) - set (cur # seen) \<subset>
        (adj_targets adj \<union> set (cur # stack)) - set seen"
    using 3 dict_items_targets [of adj cur] by auto
  then have "card ((adj_targets adj \<union> set (if lifo then dict_items adj cur @ stack else stack @ dict_items adj cur)) - set (cur # seen)) <
        card ((adj_targets adj \<union> set (cur # stack)) - set seen)"
    by (intro psubset_card_mono) auto
  then show ?case by simp
qed

lemma mark_extends: "set seen \<subseteq> set (mark lifo ok adj seen stack)"
  by (induction lifo ok adj seen stack rule: mark.induct) auto

lemma mark_sound:
  "set seen \<union> {a \<in> set stack. ok a} \<subseteq> R \<Longrightarrow>
   (\<And>a b. a \<in> R \<Longrightarrow> (a, b) \<in> adj_edges adj \<Longrightarrow> ok b \<Longrightarrow> b \<in> R) \<Longrightarrow>
   set (mark lifo ok adj seen stack) \<subseteq> R"
proof (induction lifo ok adj seen stack rule: mark.induct)
  case (1 lifo ok adj seen)
  then show ?case by simp
next
  case (2 lifo ok adj seen cur stack)
  show ?case
  proof (cases "cur \<in> set seen \<or> \<not> ok cur")
    case True
    with 2(1) [OF True] 2(3,4) show ?thesis by auto
  next
    case False
    have "set (mark lifo ok adj (cur # seen) (if lifo then dict_items adj cur @ stack else stack @ dict_items adj cur)) \<subseteq> R"
    proof (rule 2(2) [OF False])
      show "set (cur # seen) \<union> {a \<in> set (if lifo then dict_items adj cur @ stack else stack @ dict_items adj cur). ok a} \<subseteq> R"
        using False 2(3) 2(4) [of cur] by (auto simp: adj_edges_iff)
    qed (use 2(4) in blast)
    with False show ?thesis by simp
  qed
qed

lemma mark_complete:
  "(\<And>a b. a \<in> set seen \<Longrightarrow> (a, b) \<in> adj_edges adj \<Longrightarrow> ok b \<Longrightarrow> b \<in> set seen \<union> set stack) \<Longrightarrow>
   ({a \<in> set stack. ok a} \<subseteq> set (mark lifo ok adj seen stack) \<and>
    (\<forall>a b. a \<in> set (mark lifo ok adj seen stack) \<longrightarrow> (a, b) \<in> adj_edges adj \<longrightarrow> ok b \<longrightarrow>
       b \<in> set (mark lifo ok adj seen stack)))"
proof (induction lifo ok adj seen stack rule: mark.induct)
  case (1 lifo ok adj seen)
  then show ?case by auto
next
  case (2 lifo ok adj seen cur stack)
  show ?case
  proof (cases "cur \<in> set seen \<or> \<not> ok cur")
    case True
    have "b \<in> set seen \<union> set stack"
      if "a \<in> set seen" "(a, b) \<in> adj_edges adj" "ok b" for a b
      using 2(3) [OF that] True that(3) by auto
    with 2(1) [OF True] True show ?thesis
      using mark_extends [of seen lifo ok adj stack] by auto
  next
    case False
    have nb: "b \<in> set (cur # seen) \<union> set (if lifo then dict_items adj cur @ stack else stack @ dict_items adj cur)"
      if "a \<in> set (cur # seen)" "(a, b) \<in> adj_edges adj" "ok b" for a b
      using 2(3) [of a b] that by (auto simp: adj_edges_iff)
    let ?res = "mark lifo ok adj (cur # seen) (if lifo then dict_items adj cur @ stack else stack @ dict_items adj cur)"
    have IH: "{a \<in> set (if lifo then dict_items adj cur @ stack else stack @ dict_items adj cur). ok a} \<subseteq> set ?res \<and>
        (\<forall>a b. a \<in> set ?res \<longrightarrow> (a, b) \<in> adj_edges adj \<longrightarrow> ok b \<longrightarrow> b \<in> set ?res)"
      by (rule 2(2) [OF False]) (rule nb)
    have "cur \<in> set (mark lifo ok adj (cur # seen) (if lifo then dict_items adj cur @ stack else stack @ dict_items adj cur))"
      using mark_extends [of "cur # seen" lifo ok adj "(if lifo then dict_items adj cur @ stack else stack @ dict_items adj cur)"] by simp
    with IH have "{a \<in> set (cur # stack). ok a} \<subseteq>
        set (mark lifo ok adj (cur # seen) (if lifo then dict_items adj cur @ stack else stack @ dict_items adj cur))"
      by auto
    with IH False show ?thesis
      by (simp only: mark.simps(2) if_False) blast
  qed
qed

abbreviation "pop_mark \<equiv> mark True"

abbreviation "queue_mark \<equiv> mark False"

text \<open>The marked nodes are those reachable through admitted nodes only.\<close>

lemma mark_reach:
  "set (mark lifo ok adj [] stack) = {(a, b) \<in> adj_edges adj. ok b}\<^sup>* `` {a \<in> set stack. ok a}"
proof
  show "set (mark lifo ok adj [] stack) \<subseteq> {(a, b) \<in> adj_edges adj. ok b}\<^sup>* `` {a \<in> set stack. ok a}"
    by (rule mark_sound) (auto intro: rtrancl_into_rtrancl)
  note c = mark_complete [of "[]" adj ok stack lifo, simplified]
  show "{(a, b) \<in> adj_edges adj. ok b}\<^sup>* `` {a \<in> set stack. ok a} \<subseteq> set (mark lifo ok adj [] stack)"
  proof
    fix b
    assume "b \<in> {(a, b) \<in> adj_edges adj. ok b}\<^sup>* `` {a \<in> set stack. ok a}"
    then obtain a where "(a, b) \<in> {(a, b) \<in> adj_edges adj. ok b}\<^sup>*" "a \<in> set stack" "ok a" by auto
    then show "b \<in> set (mark lifo ok adj [] stack)"
      by (induction rule: rtrancl_induct) (use c in auto)
  qed
qed

lemma mark_distinct: "distinct seen \<Longrightarrow> distinct (mark lifo ok adj seen stack)"
  by (induction lifo ok adj seen stack rule: mark.induct) auto

end
