(* ===== verification/Lease_Lock.thy ===== *)
theory Lease_Lock
  imports Prelude
begin

text \<open>
  The contract of a time-limited exclusive lease, which the run lease of a workflow instance and
  the collaboration locks of both back ends provide: who holds it and until when is a function
  of the state; taking it is refused while someone else's lease is unexpired; whoever takes it
  holds it at least for its term; and nobody but the holder gives it back. From that follows
  exclusion over every run of attempts by others before the lease expires.
\<close>

datatype 'tok lease_op = Take 'tok int | Give_back 'tok

fun lease_op_token :: "'tok lease_op \<Rightarrow> 'tok" where
  "lease_op_token (Take tok ttl) = tok"
| "lease_op_token (Give_back tok) = tok"

locale lease_lock =
  fixes take_lease :: "time \<Rightarrow> 'tok \<Rightarrow> int \<Rightarrow> 's \<Rightarrow> 's \<times> bool"
    and give_back :: "time \<Rightarrow> 'tok \<Rightarrow> 's \<Rightarrow> 's \<times> bool"
    and held_by :: "'s \<Rightarrow> ('tok \<times> time) option"
    and good_token :: "'tok \<Rightarrow> bool"
    and good_state :: "'s \<Rightarrow> bool"
  assumes take_granted: "good_state s \<Longrightarrow> good_token tok \<Longrightarrow> take_lease t tok ttl s = (s', True) \<Longrightarrow>
      good_state s' \<and> (\<exists>e. held_by s' = Some (tok, e) \<and> t + ttl \<le> e)"
    and take_refused: "good_state s \<Longrightarrow> held_by s = Some (h, e) \<Longrightarrow> t < e \<Longrightarrow> good_token tok \<Longrightarrow>
      tok \<noteq> h \<Longrightarrow> take_lease t tok ttl s = (s, False)"
    and give_back_other: "good_state s \<Longrightarrow> held_by s = Some (h, e) \<Longrightarrow> t < e \<Longrightarrow> good_token tok \<Longrightarrow>
      tok \<noteq> h \<Longrightarrow> give_back t tok s = (s, False)"
begin

definition lease_step :: "'s \<times> bool list \<Rightarrow> time \<times> 'tok lease_op \<Rightarrow> 's \<times> bool list" where
  "lease_step acc x =
     (let (s, rs) = acc;
          (s', r) = (case snd x of Take tok ttl \<Rightarrow> take_lease (fst x) tok ttl s
                     | Give_back tok \<Rightarrow> give_back (fst x) tok s)
      in (s', rs @ [r]))"

lemma others_refused:
  assumes "good_state s" and "held_by s = Some (h, e)"
    and "list_all (\<lambda>(t, x). t < e \<and> good_token (lease_op_token x) \<and> lease_op_token x \<noteq> h) xs"
  shows "run_ops lease_step (s, rs) xs = (s, rs @ replicate (length xs) False)"
  using assms(3)
proof (induction xs arbitrary: rs)
  case Nil
  then show ?case by simp
next
  case (Cons x xs)
  obtain t y where x: "x = (t, y)" by (cases x)
  have "lease_step (s, rs) x = (s, rs @ [False])"
    using Cons.prems assms(1,2)
    by (cases y) (simp_all add: x lease_step_def take_refused give_back_other)
  then show ?case
    using Cons by simp
qed

text \<open>
  Exclusion: after a token took the lease, no other token takes it, or gives it back, before the
  term is over, in any order and number of attempts.
\<close>

lemma exclusion:
  assumes "good_state s0" and "good_token h" and "take_lease t0 h ttl s0 = (s, True)"
    and "list_all (\<lambda>(t, x). t < t0 + ttl \<and> good_token (lease_op_token x) \<and> lease_op_token x \<noteq> h) xs"
  shows "run_ops lease_step (s, []) xs = (s, replicate (length xs) False)"
proof -
  obtain e where g: "good_state s" and e: "held_by s = Some (h, e)" "t0 + ttl \<le> e"
    using take_granted [OF assms(1-3)] by auto
  have "list_all (\<lambda>(t, x). t < e \<and> good_token (lease_op_token x) \<and> lease_op_token x \<noteq> h) xs"
    using assms(4) e(2) by (auto simp: list_all_iff)
  from others_refused [OF g e(1) this] show ?thesis by simp
qed

end

end
