(* ===== verification/Workflow_Contracts.thy ===== *)
theory Workflow_Contracts
  imports Prelude Py_Value
begin

text \<open>
  The vocabulary of the workflow runtime, \<open>app/services/workflow_runtime/contracts.py\<close> and
  \<open>retry.py\<close>: node states (strings, as the table stores them), the table of legal
  transitions, the bounded evidence records, the status of an instance computed from its
  nodes, and the classification of error codes.
\<close>

section \<open>States\<close>

abbreviation "N_PENDING \<equiv> ''PENDING''"
abbreviation "N_READY \<equiv> ''READY''"
abbreviation "N_RUNNING \<equiv> ''RUNNING''"
abbreviation "N_SUCCEEDED \<equiv> ''SUCCEEDED''"
abbreviation "N_FAILED \<equiv> ''FAILED''"
abbreviation "N_BLOCKED \<equiv> ''BLOCKED''"
abbreviation "N_SKIPPED \<equiv> ''SKIPPED''"
abbreviation "N_CANCELLED \<equiv> ''CANCELLED''"
abbreviation "N_STALE \<equiv> ''STALE''"

definition NODE_STATES :: "string list" where
  "NODE_STATES = [N_PENDING, N_READY, N_RUNNING, N_SUCCEEDED, N_FAILED, N_BLOCKED, N_SKIPPED,
     N_CANCELLED, N_STALE]"

abbreviation "I_RUNNING \<equiv> ''running''"
abbreviation "I_SUCCEEDED \<equiv> ''succeeded''"
abbreviation "I_FAILED \<equiv> ''failed''"
abbreviation "I_CANCELLED \<equiv> ''cancelled''"
abbreviation "I_SUPERSEDED \<equiv> ''superseded''"

definition INSTANCE_TERMINAL_STATUSES :: "string list" where
  "INSTANCE_TERMINAL_STATUSES = [I_SUCCEEDED, I_FAILED, I_CANCELLED, I_SUPERSEDED]"

definition LEGAL_TRANSITIONS :: "(string \<times> string list) list" where
  "LEGAL_TRANSITIONS =
    [(N_PENDING, [N_READY, N_BLOCKED, N_SKIPPED, N_CANCELLED]),
     (N_READY, [N_RUNNING, N_BLOCKED, N_STALE, N_CANCELLED]),
     (N_RUNNING, [N_SUCCEEDED, N_FAILED, N_CANCELLED, N_READY]),
     (N_FAILED, [N_READY, N_SKIPPED]),
     (N_BLOCKED, [N_READY, N_SKIPPED]),
     (N_SUCCEEDED, [N_STALE]),
     (N_STALE, [N_READY, N_SUCCEEDED]),
     (N_SKIPPED, [N_READY]),
     (N_CANCELLED, [])]"

definition TRANSITION_REASON_REQUIRED :: "string list" where
  "TRANSITION_REASON_REQUIRED =
    [N_PENDING @ ''>'' @ N_BLOCKED, N_READY @ ''>'' @ N_BLOCKED, N_RUNNING @ ''>'' @ N_FAILED,
     N_STALE @ ''>'' @ N_SUCCEEDED, N_SUCCEEDED @ ''>'' @ N_STALE]"

definition MAX_NODE_TRANSITIONS :: nat where "MAX_NODE_TRANSITIONS = 8"
definition MAX_INSTANCE_DECISIONS :: nat where "MAX_INSTANCE_DECISIONS = 16"
definition MAX_PENDING_CHANGES :: nat where "MAX_PENDING_CHANGES = 16"
definition MAX_APPLY_CHANGES :: nat where "MAX_APPLY_CHANGES = 16"
definition MAX_NODE_ATTEMPTS :: nat where "MAX_NODE_ATTEMPTS = 3"
definition MAX_INSTANCE_NODES :: nat where "MAX_INSTANCE_NODES = 64"

definition node_is_terminal :: "string \<Rightarrow> bool" where
  "node_is_terminal node_state = (node_state \<in> set [N_SUCCEEDED, N_FAILED, N_SKIPPED, N_CANCELLED])"

definition validate_node_transition :: "string \<Rightarrow> string \<Rightarrow> string option" where
  "validate_node_transition from_state to_state =
     (if from_state \<notin> set NODE_STATES \<or> to_state \<notin> set NODE_STATES
      then Some (''ILLEGAL_STATE:'' @ from_state @ '':'' @ to_state)
      else if to_state \<notin> set (dict_items LEGAL_TRANSITIONS from_state)
      then Some (''ILLEGAL_TRANSITION:'' @ from_state @ ''>'' @ to_state)
      else None)"

text \<open>\<open>illegal.split(":")[0]\<close>\<close>

definition reason_class :: "string \<Rightarrow> string" where
  "reason_class s = takeWhile (\<lambda>c. c \<noteq> CHR '':'') s"

section \<open>Evidence records\<close>

record transition_record =
  tr_rev :: int
  tr_from :: string
  tr_to :: string
  tr_reason :: string
  tr_event :: string

definition bounded_transition :: "transition_record \<Rightarrow> transition_record" where
  "bounded_transition t = \<lparr>tr_rev = tr_rev t, tr_from = take 16 (tr_from t),
     tr_to = take 16 (tr_to t), tr_reason = take 96 (tr_reason t), tr_event = take 32 (tr_event t)\<rparr>"

record pending_change =
  pc_dimension :: string
  pc_target_kind :: string
  pc_target :: string
  pc_detail :: string
  pc_source :: string

definition bounded_change :: "pending_change \<Rightarrow> pending_change" where
  "bounded_change c = \<lparr>pc_dimension = take 24 (pc_dimension c),
     pc_target_kind = take 24 (pc_target_kind c), pc_target = take 64 (pc_target c),
     pc_detail = take 200 (pc_detail c), pc_source = take 24 (pc_source c)\<rparr>"

record recompute_decision =
  rd_seq :: int
  rd_changes_fp :: string
  rd_dimensions :: "string list"
  rd_marked_stale :: "string list"
  rd_reuse_resolved :: "string list"
  rd_recomputed :: "string list"
  rd_reused :: "string list"
  rd_style_only :: bool

definition bounded_decision :: "recompute_decision \<Rightarrow> recompute_decision" where
  "bounded_decision d = \<lparr>rd_seq = rd_seq d, rd_changes_fp = take 32 (rd_changes_fp d),
     rd_dimensions = List.map (take 24) (take 5 (rd_dimensions d)),
     rd_marked_stale = List.map (take 64) (take 32 (rd_marked_stale d)),
     rd_reuse_resolved = List.map (take 64) (take 32 (rd_reuse_resolved d)),
     rd_recomputed = List.map (take 64) (take 32 (rd_recomputed d)),
     rd_reused = List.map (take 64) (take 32 (rd_reused d)),
     rd_style_only = rd_style_only d\<rparr>"

section \<open>Instance status\<close>

definition instance_status_from_nodes ::
  "(string \<times> string) list \<Rightarrow> (string \<times> bool) list \<Rightarrow> string" where
  "instance_status_from_nodes statuses optional_nodes =
     (let opt = (\<lambda>n. or_else (map_of optional_nodes n) False)
      in if statuses = [] then I_RUNNING
         else if list_ex (\<lambda>(n, s). s = N_RUNNING) statuses then I_RUNNING
         else if list_ex (\<lambda>(n, s). s = N_CANCELLED) statuses then I_CANCELLED
         else if list_all (\<lambda>(n, s). s \<in> set [N_SUCCEEDED, N_SKIPPED] \<or>
                     opt n \<and> s \<in> set [N_FAILED, N_BLOCKED]) statuses then I_SUCCEEDED
         else if list_ex (\<lambda>(n, s). \<not> opt n \<and> s \<in> set [N_FAILED, N_BLOCKED]) statuses then I_FAILED
         else I_RUNNING)"

section \<open>Error classification and retry policy\<close>

definition RETRYABLE_ERROR_CODES :: "string list" where
  "RETRYABLE_ERROR_CODES = [''NODE_TIMEOUT'', ''NODE_EXCEPTION'', ''DB_BUSY'', ''WORKER_LOSS'',
     ''ATTEMPT_INTERRUPTED'', ''RESOURCE_EXHAUSTED'']"

definition NON_RETRYABLE_ERROR_CODES :: "string list" where
  "NON_RETRYABLE_ERROR_CODES = [''NODE_NOT_EXECUTABLE'', ''INPUT_TRUNCATED'', ''MISSING_BINDING'',
     ''BINDING_BLOCKED'', ''SUBWORKFLOW_UNSUPPORTED'', ''SUBWORKFLOW_DEPTH'', ''SUBWORKFLOW_CYCLE'',
     ''SUBWORKFLOW_CAP'', ''CANCELLED'', ''RESOURCE_BUDGET_EXCEEDED'', ''AUTHORIZATION_DENIED'',
     ''NO_CAPABLE_WORKER'']"

text \<open>\<open>retryable_classes\<close> is the value set of \<open>geocompute.errors.RETRYABLE_FAILURE_CLASSES\<close>.\<close>

definition error_retryable :: "string list \<Rightarrow> string option \<Rightarrow> string \<Rightarrow> bool" where
  "error_retryable retryable_classes error_code failure_class =
     (let code = or_else error_code []
      in if code \<in> set NON_RETRYABLE_ERROR_CODES then False
         else if code \<in> set RETRYABLE_ERROR_CODES then True
         else failure_class \<noteq> [] \<and> failure_class \<in> set retryable_classes)"

record retry_policy =
  rp_max_attempts :: int
  rp_base_delay :: rat
  rp_factor :: rat
  rp_max_delay :: rat
  rp_jitter_ratio :: rat

text \<open>
  The field constraints pydantic checks on construction, and the back-off with the random
  draw as an argument \<open>u\<close> between -1 and 1 (\<open>rng.uniform(-j, j)\<close> is \<open>u * j\<close>).
\<close>

definition policy_valid :: "retry_policy \<Rightarrow> bool" where
  "policy_valid p = (1 \<le> rp_max_attempts p \<and> rp_max_attempts p \<le> int MAX_NODE_ATTEMPTS \<and>
     0 < rp_base_delay p \<and> rp_base_delay p \<le> 60 \<and> 1 \<le> rp_factor p \<and> rp_factor p \<le> 10 \<and>
     0 < rp_max_delay p \<and> rp_max_delay p \<le> 300 \<and> 0 \<le> rp_jitter_ratio p \<and> rp_jitter_ratio p \<le> 1)"

definition delay_for :: "retry_policy \<Rightarrow> int \<Rightarrow> rat \<Rightarrow> rat" where
  "delay_for p attempts_done u =
     (let expo = rp_base_delay p * rp_factor p ^ nat (max 0 (attempts_done - 1));
          delay = min expo (rp_max_delay p);
          jitter = delay * rp_jitter_ratio p
      in max 0 (delay + u * jitter))"

definition attempts_exhausted :: "retry_policy \<Rightarrow> int \<Rightarrow> bool" where
  "attempts_exhausted p attempts = (attempts \<ge> rp_max_attempts p)"

section \<open>Facts\<close>

lemma legal_from [simp]:
  "dict_items LEGAL_TRANSITIONS N_PENDING = [N_READY, N_BLOCKED, N_SKIPPED, N_CANCELLED]"
  "dict_items LEGAL_TRANSITIONS N_READY = [N_RUNNING, N_BLOCKED, N_STALE, N_CANCELLED]"
  "dict_items LEGAL_TRANSITIONS N_RUNNING = [N_SUCCEEDED, N_FAILED, N_CANCELLED, N_READY]"
  "dict_items LEGAL_TRANSITIONS N_FAILED = [N_READY, N_SKIPPED]"
  "dict_items LEGAL_TRANSITIONS N_BLOCKED = [N_READY, N_SKIPPED]"
  "dict_items LEGAL_TRANSITIONS N_SUCCEEDED = [N_STALE]"
  "dict_items LEGAL_TRANSITIONS N_STALE = [N_READY, N_SUCCEEDED]"
  "dict_items LEGAL_TRANSITIONS N_SKIPPED = [N_READY]"
  "dict_items LEGAL_TRANSITIONS N_CANCELLED = []"
  by (simp_all add: LEGAL_TRANSITIONS_def dict_items_def)

lemma legal_states:
  "t \<in> set (dict_items LEGAL_TRANSITIONS s) \<Longrightarrow> s \<in> set NODE_STATES \<and> t \<in> set NODE_STATES"
  by (auto simp: LEGAL_TRANSITIONS_def dict_items_def NODE_STATES_def split: if_splits)

lemma validate_None:
  "validate_node_transition s t = None \<longleftrightarrow> t \<in> set (dict_items LEGAL_TRANSITIONS s)"
  using legal_states by (auto simp: validate_node_transition_def split: if_splits)

lemma validate_class:
  "validate_node_transition s t = Some why \<Longrightarrow> reason_class why \<in> {''ILLEGAL_STATE'', ''ILLEGAL_TRANSITION''}"
  by (auto simp: validate_node_transition_def reason_class_def split: if_splits)

interpretation node_table: transition_table "dict_items LEGAL_TRANSITIONS" "\<lambda>s. s = N_CANCELLED"
proof
  show "s \<notin> set (dict_items LEGAL_TRANSITIONS s)" for s
    by (auto simp: LEGAL_TRANSITIONS_def dict_items_def split: if_splits)
qed simp

lemma bounded_change_idem: "bounded_change (bounded_change c) = bounded_change c"
  by (simp add: bounded_change_def)

text \<open>
  An instance is reported as succeeded only when it is over and nothing required is missing:
  \<open>succeeded\<close> means there are nodes, every node is SUCCEEDED or SKIPPED, or is an optional node
  that failed or was blocked; a running node always means \<open>running\<close>, a cancelled node is never
  washed into success, and \<open>failed\<close> needs a required node that failed or was blocked.
\<close>

theorem instance_status_meaning:
  "let st = instance_status_from_nodes ns opts
   in (st = ''succeeded'' \<longleftrightarrow> ns \<noteq> [] \<and> (\<forall>(n, s) \<in> set ns. s = ''SUCCEEDED'' \<or> s = ''SKIPPED'' \<or>
          map_of opts n = Some True \<and> s \<in> {''FAILED'', ''BLOCKED''})) \<and>
      ((\<exists>n. (n, ''RUNNING'') \<in> set ns) \<longrightarrow> st = ''running'') \<and>
      ((\<exists>n. (n, ''CANCELLED'') \<in> set ns) \<and> (\<forall>n. (n, ''RUNNING'') \<notin> set ns) \<longrightarrow> st = ''cancelled'') \<and>
      (st = ''failed'' \<longrightarrow> (\<exists>(n, s) \<in> set ns. map_of opts n \<noteq> Some True \<and> s \<in> {''FAILED'', ''BLOCKED''}))"
proof -
  have o: "or_else (map_of opts n) False \<longleftrightarrow> map_of opts n = Some True" for n
    by (cases "map_of opts n") auto
  show ?thesis
    by (auto simp: instance_status_from_nodes_def Let_def o list_ex_iff list_all_iff case_prod_unfold
        split: if_splits; force)
qed

lemma instance_status_meaning_witness:
  "instance_status_from_nodes [(''a'', ''SUCCEEDED''), (''b'', ''FAILED'')] [(''b'', True)] = ''succeeded'' \<and>
   instance_status_from_nodes [(''a'', ''SUCCEEDED''), (''b'', ''FAILED'')] [] = ''failed''"
proof -
  have "instance_status_from_nodes [(''a'', ''SUCCEEDED''), (''b'', ''FAILED'')] [] = ''failed''"
    by (simp add: instance_status_from_nodes_def)
  then show ?thesis
    using instance_status_meaning [of "[(''a'', ''SUCCEEDED''), (''b'', ''FAILED'')]" "[(''b'', True)]"]
    by (simp add: Let_def)
qed

text \<open>
  Retry delays are bounded and grow: for a valid policy and any jitter draw, the delay lies
  between zero and twice the maximal delay; without jitter it never shrinks from one attempt to
  the next and never exceeds the maximal delay.
\<close>

theorem retry_delay_bounds:
  assumes "policy_valid p" and "- 1 \<le> u" and "u \<le> 1" and "m \<le> n"
  shows "0 \<le> delay_for p n u \<and> delay_for p n u \<le> 2 * rp_max_delay p \<and>
    delay_for p m 0 \<le> delay_for p n 0 \<and> delay_for p n 0 \<le> rp_max_delay p"
proof -
  define d where "d k = min (rp_base_delay p * rp_factor p ^ nat (max 0 (k - 1))) (rp_max_delay p)"
    for k
  have delay: "delay_for p k v = max 0 (d k + v * (d k * rp_jitter_ratio p))" for k v
    by (simp add: delay_for_def d_def Let_def)
  have pos: "0 < d k" for k
    using assms(1) by (auto simp: policy_valid_def d_def)
  have le: "d k \<le> rp_max_delay p" for k
    by (simp add: d_def)
  have "u * (d n * rp_jitter_ratio p) \<le> 1 * (d n * 1)"
    using assms(1,3) pos [of n] unfolding policy_valid_def
    by (intro mult_mono) (auto intro: mult_nonneg_nonneg mult_left_le less_imp_le)
  then have up: "d n + u * (d n * rp_jitter_ratio p) \<le> 2 * rp_max_delay p"
    using le [of n] by linarith
  have "rp_factor p ^ nat (max 0 (m - 1)) \<le> rp_factor p ^ nat (max 0 (n - 1))"
    using assms(1,4) by (intro power_increasing) (auto simp: policy_valid_def nat_mono)
  then have "rp_base_delay p * rp_factor p ^ nat (max 0 (m - 1)) \<le>
      rp_base_delay p * rp_factor p ^ nat (max 0 (n - 1))"
    by (intro mult_left_mono) (use assms(1) in \<open>simp_all add: policy_valid_def\<close>)
  then have mono: "d m \<le> d n"
    unfolding d_def by (intro min.mono order_refl)
  have max: "0 \<le> 2 * rp_max_delay p"
    using assms(1) by (simp add: policy_valid_def)
  have "delay_for p k 0 = d k" for k
    using pos [of k] by (simp add: delay)
  then show ?thesis
    using up mono max le [of n] by (simp add: delay)
qed

lemma retry_delay_bounds_witness:
  "delay_for \<lparr>rp_max_attempts = 2, rp_base_delay = 1/2, rp_factor = 2, rp_max_delay = 8,
     rp_jitter_ratio = 1/5\<rparr> 3 1 \<le> 2 * 8"
  using retry_delay_bounds [of "\<lparr>rp_max_attempts = 2, rp_base_delay = 1/2, rp_factor = 2,
     rp_max_delay = 8, rp_jitter_ratio = 1/5\<rparr>" 1 3 3]
  by (simp add: policy_valid_def MAX_NODE_ATTEMPTS_def)

end
