(* ===== verification/Workflow_Graph.thy ===== *)
theory Workflow_Graph
  imports Graph_Closure Workflow_Contracts "HOL-Library.List_Lexorder" "HOL-Library.Char_ord"
begin

text \<open>
  The pure graph part of the workflow runtime: \<open>machine.py\<close> (adjacency, the dispatchable set,
  the closures for cancellation and branching) and the affected-subgraph computation of
  \<open>gis_harness/workflow_v4/recompute.py\<close>. A compiled typed DAG is the list of its nodes and the
  list of its edges, whose endpoints may carry a port after a dot. The explanation texts of a
  recompute plan are not modelled.
\<close>

section \<open>Typed DAGs\<close>

record dag_node =
  dn_id :: string
  dn_depends_on :: "string list"
  dn_parameters :: "pyval list"
  dn_optional :: bool

record dag_edge =
  de_from :: string
  de_to :: string

record workflow_dag =
  dg_nodes :: "dag_node list"
  dg_edges :: "dag_edge list"

text \<open>\<open>ep.rpartition(".")\<close>: what stands before the last dot, the dot, what stands after it.\<close>

definition rpartition_dot :: "string \<Rightarrow> string \<times> string \<times> string" where
  "rpartition_dot ep =
     (if CHR ''.'' \<in> set ep
      then let tail = rev (takeWhile (\<lambda>c. c \<noteq> CHR ''.'') (rev ep))
           in (take (length ep - length tail - 1) ep, ''.'', tail)
      else ([], [], ep))"

definition dag_ids :: "workflow_dag \<Rightarrow> string list" where
  "dag_ids dag = filter (\<lambda>n. n \<noteq> []) (List.map dn_id (dg_nodes dag))"

definition norm_endpoint :: "string list \<Rightarrow> string \<Rightarrow> string" where
  "norm_endpoint node_ids ep =
     (if ep \<in> set node_ids then ep
      else let (head, sep, tail) = rpartition_dot ep
           in if sep \<noteq> [] \<and> head \<noteq> [] \<and> head \<in> set node_ids then head else ep)"

definition add_edge :: "string list \<Rightarrow> dag_edge \<Rightarrow> string adjacency \<Rightarrow> string adjacency" where
  "add_edge node_ids e adjacency =
     (let src = norm_endpoint node_ids (de_from e); dst = norm_endpoint node_ids (de_to e)
      in if src \<noteq> [] \<and> dst \<noteq> [] then dict_push src dst adjacency else adjacency)"

definition add_depends :: "dag_node \<Rightarrow> string adjacency \<Rightarrow> string adjacency" where
  "add_depends n adjacency = fold (\<lambda>dep. dict_push dep (dn_id n)) (dn_depends_on n) adjacency"

definition build_adjacency :: "workflow_dag \<Rightarrow> string adjacency" where
  "build_adjacency dag =
     fold add_depends (dg_nodes dag) (fold (add_edge (dag_ids dag)) (dg_edges dag) [])"

definition invert_adjacency :: "string adjacency \<Rightarrow> string adjacency" where
  "invert_adjacency downstream =
     fold (\<lambda>(src, dsts). fold (\<lambda>dst. dict_push dst src) dsts) downstream []"

definition upstream_of :: "workflow_dag \<Rightarrow> string adjacency" where
  "upstream_of dag = invert_adjacency (build_adjacency dag)"

definition upstream_ports :: "workflow_dag \<Rightarrow> (string \<times> (string \<times> string) list) list" where
  "upstream_ports dag =
     fold (\<lambda>e out.
        let ids = dag_ids dag;
            (head, sep, port) = rpartition_dot (de_to e);
            dst = (if sep \<noteq> [] \<and> head \<in> set ids then head else de_to e);
            (shead, ssep, sport) = rpartition_dot (de_from e);
            src = (if ssep \<noteq> [] \<and> shead \<in> set ids then shead else de_from e)
        in if dst \<noteq> [] \<and> src \<noteq> []
           then dict_push dst (src, if sep \<noteq> [] then port else []) out else out)
       (dg_edges dag) []"

section \<open>The dispatchable set\<close>

definition settled :: "string option \<Rightarrow> bool" where
  "settled st = (st = Some N_SUCCEEDED \<or> st = Some N_SKIPPED)"

definition ready_set ::
  "workflow_dag \<Rightarrow> (string \<times> string) list \<Rightarrow> string list \<Rightarrow> string list" where
  "ready_set dag node_states skip_decided =
     (let upstream = upstream_of dag;
          declared = List.map dn_id (dg_nodes dag)
      in filter (\<lambda>nid. nid \<noteq> [] \<and> nid \<notin> set skip_decided \<and>
             or_else (map_of node_states nid) N_PENDING \<in> set [N_READY, N_PENDING] \<and>
             list_all (\<lambda>d. settled (map_of node_states d)) (dict_items upstream nid))
           declared)"

section \<open>Closures\<close>

text \<open>The seeds come as a set; their order on the stack is the argument's.\<close>

definition downstream_closure :: "workflow_dag \<Rightarrow> string list \<Rightarrow> string list" where
  "downstream_closure dag seeds = push_mark (build_adjacency dag) [] (rev seeds)"

definition upstream_closure :: "workflow_dag \<Rightarrow> string list \<Rightarrow> string list" where
  "upstream_closure dag seeds = push_mark (upstream_of dag) [] (rev seeds)"

section \<open>Affected subgraph\<close>

definition RECOMPUTE_DIMENSIONS :: "string list" where
  "RECOMPUTE_DIMENSIONS = [''data'', ''algorithm'', ''parameter'', ''style'', ''output'']"

record workflow_change =
  ch_dimension :: string
  ch_target_kind :: string
  ch_target :: string
  ch_detail :: string

record recompute_plan =
  pl_recompute :: "string list"
  pl_reuse :: "string list"
  pl_reuse_artifacts :: "string list"
  pl_dimensions :: "string list"

text \<open>The owner of a parameter is the last node that declares one of that name.\<close>

definition param_owners :: "workflow_dag \<Rightarrow> (string \<times> string) list" where
  "param_owners dag =
     fold (\<lambda>n owners. fold (\<lambda>p owners. case p of
          PDict d \<Rightarrow> if py_truthy (py_get d ''name'')
                     then AList.update (py_str (py_get d ''name'')) (dn_id n) owners else owners
        | _ \<Rightarrow> owners) (dn_parameters n) owners)
       (dg_nodes dag) []"

definition seed_nodes :: "string list \<Rightarrow> (string \<times> string) list \<Rightarrow> workflow_change \<Rightarrow> string list" where
  "seed_nodes node_set owners change =
     (let kind = ch_target_kind change; target = ch_target change
      in if kind = ''data_role'' then
           (let nid = ''data:'' @ target in if nid \<in> set node_set then [nid] else [])
         else if kind = ''parameter'' then
           (case map_of owners target of Some owner \<Rightarrow> if owner \<noteq> [] then [owner] else [] | None \<Rightarrow> [])
         else if kind = ''recipe'' then remdups node_set
         else if kind \<in> set [''algorithm'', ''node'', ''style'', ''output'']
         then (if target \<in> set node_set then [target] else [])
         else [])"

definition affected_adjacency :: "workflow_dag \<Rightarrow> string adjacency" where
  "affected_adjacency dag =
     fold add_depends (dg_nodes dag)
       (fold (\<lambda>e. dict_push (norm_endpoint (dag_ids dag) (de_from e)) (norm_endpoint (dag_ids dag) (de_to e)))
         (dg_edges dag) [])"

definition change_dimensions :: "workflow_change list \<Rightarrow> string list" where
  "change_dimensions changes =
     fold (\<lambda>ch ds. if ch_dimension ch \<notin> set RECOMPUTE_DIMENSIONS \<or> ch_dimension ch \<in> set ds
                   then ds else ds @ [ch_dimension ch]) changes []"

definition change_seeds :: "workflow_dag \<Rightarrow> workflow_change list \<Rightarrow> string list" where
  "change_seeds dag changes =
     concat (List.map (seed_nodes (dag_ids dag) (param_owners dag))
       (filter (\<lambda>ch. ch_dimension ch \<in> set RECOMPUTE_DIMENSIONS) changes))"

definition compute_affected_subgraph :: "workflow_dag \<Rightarrow> workflow_change list \<Rightarrow> recompute_plan" where
  "compute_affected_subgraph dag changes =
     (let node_set = dag_ids dag;
          dirty = pop_mark (\<lambda>n. n \<in> set node_set) (affected_adjacency dag) [] (change_seeds dag changes);
          reuse = sorted_list_of_set (set node_set - set dirty)
      in \<lparr>pl_recompute = sorted_list_of_set (set dirty),
          pl_reuse = reuse,
          pl_reuse_artifacts = filter (\<lambda>n. take 7 n = ''output:'') reuse,
          pl_dimensions = change_dimensions changes\<rparr>)"

section \<open>What the adjacency holds\<close>

text \<open>The edges of a DAG as its text gives them: data-flow edges and structural dependencies.\<close>

definition dag_step :: "workflow_dag \<Rightarrow> (string \<times> string) set" where
  "dag_step dag =
     {(a, b). a \<noteq> [] \<and> b \<noteq> [] \<and> (\<exists>e \<in> set (dg_edges dag).
        a = norm_endpoint (dag_ids dag) (de_from e) \<and> b = norm_endpoint (dag_ids dag) (de_to e))} \<union>
     {(a, b). \<exists>n \<in> set (dg_nodes dag). a \<in> set (dn_depends_on n) \<and> b = dn_id n}"

lemma add_edge_edges:
  "adj_edges (add_edge ids e adj) = adj_edges adj \<union>
     {(a, b). a \<noteq> [] \<and> b \<noteq> [] \<and> a = norm_endpoint ids (de_from e) \<and> b = norm_endpoint ids (de_to e)}"
  by (auto simp: add_edge_def Let_def adj_edges_push)

lemma fold_add_edge_edges:
  "adj_edges (fold (add_edge ids) es adj) = adj_edges adj \<union>
     {(a, b). a \<noteq> [] \<and> b \<noteq> [] \<and> (\<exists>e \<in> set es. a = norm_endpoint ids (de_from e) \<and>
        b = norm_endpoint ids (de_to e))}"
  by (induction es arbitrary: adj) (auto simp: add_edge_edges)

lemma fold_push_edges:
  "adj_edges (fold (\<lambda>dep. dict_push dep x) deps adj) = adj_edges adj \<union> {(a, b). a \<in> set deps \<and> b = x}"
  by (induction deps arbitrary: adj) (auto simp: adj_edges_push)

lemma fold_depends_edges:
  "adj_edges (fold add_depends ns adj) = adj_edges adj \<union>
     {(a, b). \<exists>n \<in> set ns. a \<in> set (dn_depends_on n) \<and> b = dn_id n}"
  by (induction ns arbitrary: adj) (auto simp: add_depends_def fold_push_edges)

lemma build_adjacency_edges: "adj_edges (build_adjacency dag) = dag_step dag"
  by (auto simp: build_adjacency_def fold_depends_edges fold_add_edge_edges dag_step_def)

definition dict_keys_distinct :: "('a \<times> 'b) list \<Rightarrow> bool" where
  "dict_keys_distinct d = distinct (List.map fst d)"

lemma fold_keys_distinct:
  "(\<And>x d. dict_keys_distinct d \<Longrightarrow> dict_keys_distinct (f x d)) \<Longrightarrow> dict_keys_distinct d \<Longrightarrow>
   dict_keys_distinct (fold f xs d)"
  by (induction xs arbitrary: d) auto

lemma push_keys_distinct: "dict_keys_distinct d \<Longrightarrow> dict_keys_distinct (dict_push k x d)"
  by (simp add: dict_keys_distinct_def dict_push_distinct)

lemma build_adjacency_keys: "dict_keys_distinct (build_adjacency dag)"
proof -
  have "dict_keys_distinct []" by (simp add: dict_keys_distinct_def)
  then show ?thesis
    unfolding build_adjacency_def add_depends_def add_edge_def Let_def
    by (intro fold_keys_distinct) (auto intro!: fold_keys_distinct push_keys_distinct)
qed

lemma invert_edges_items:
  "adj_edges (fold (\<lambda>(src, dsts). fold (\<lambda>dst. dict_push dst src) dsts) items adj) =
     adj_edges adj \<union> {(b, a). \<exists>bs. (a, bs) \<in> set items \<and> b \<in> set bs}"
  by (induction items arbitrary: adj) (auto simp: fold_push_edges)

lemma adj_edges_items:
  "dict_keys_distinct d \<Longrightarrow> adj_edges d = {(a, b). \<exists>bs. (a, bs) \<in> set d \<and> b \<in> set bs}"
  by (auto simp: adj_edges_iff dict_items_def dict_keys_distinct_def dest: map_of_SomeD
      split: option.splits)
     (metis dict_items_def dict_items_member)

lemma upstream_of_edges: "adj_edges (upstream_of dag) = (dag_step dag)\<inverse>"
  using adj_edges_items [OF build_adjacency_keys, of dag]
  by (auto simp: upstream_of_def invert_adjacency_def invert_edges_items build_adjacency_edges)

lemma norm_cases: "norm_endpoint ids ep \<in> set ids \<or> norm_endpoint ids ep = ep"
  by (auto simp: norm_endpoint_def Let_def split: prod.splits)

lemma affected_edges:
  "{(a, b) \<in> adj_edges (affected_adjacency dag). a \<noteq> [] \<and> b \<noteq> []} =
   {(a, b) \<in> dag_step dag. a \<noteq> [] \<and> b \<noteq> []}"
proof -
  have "adj_edges (fold (\<lambda>e. dict_push (f e) (g e)) es adj) =
      adj_edges adj \<union> {(a, b). \<exists>e \<in> set es. a = f e \<and> b = g e}"
    for f g and es :: "dag_edge list" and adj :: "string adjacency"
    by (induction es arbitrary: adj) (auto simp: adj_edges_push)
  then show ?thesis
    by (auto simp: affected_adjacency_def fold_depends_edges dag_step_def)
qed

section \<open>Closures\<close>

interpretation dag_closures: opposite_closures "downstream_closure dag" "upstream_closure dag" "dag_step dag"
  for dag
  by unfold_locales
     (simp_all add: downstream_closure_def upstream_closure_def push_mark_reach
       build_adjacency_edges upstream_of_edges)

text \<open>
  Cancelling or invalidating downstream of some nodes reaches exactly what depends on them:
  the closure terminates on every DAG text (cycles included) with the nodes reachable from the
  seeds in at least one step along data-flow edges and structural dependencies, and the
  upstream closure is its mirror image.
\<close>

theorem dag_closures_exact:
  "set (downstream_closure dag seeds) = (dag_step dag)\<^sup>+ `` set seeds \<and>
   set (upstream_closure dag seeds) = ((dag_step dag)\<inverse>)\<^sup>+ `` set seeds \<and>
   (b \<in> set (downstream_closure dag [a]) \<longleftrightarrow> a \<in> set (upstream_closure dag [b]))"
  using dag_closures.down.run_reach dag_closures.up.run_reach dag_closures.opposite by blast

section \<open>Dispatch\<close>

definition waits_for :: "workflow_dag \<Rightarrow> string \<Rightarrow> string set" where
  "waits_for dag n = {d. (d, n) \<in> dag_step dag}"

lemma upstream_items: "set (dict_items (upstream_of dag) n) = waits_for dag n"
  using upstream_of_edges [of dag] by (auto simp: waits_for_def adj_edges_def)

lemma ready_set_iff:
  "n \<in> set (ready_set dag states skip) \<longleftrightarrow>
     n \<in> set (dag_ids dag) \<and> n \<notin> set skip \<and>
     (case map_of states n of None \<Rightarrow> True | Some s \<Rightarrow> s \<in> {N_READY, N_PENDING}) \<and>
     (\<forall>d \<in> waits_for dag n. settled (map_of states d))"
  by (auto simp: ready_set_def Let_def dag_ids_def list_all_iff upstream_items split: option.splits)

text \<open>
  What may be dispatched: exactly the declared nodes that are not excluded, are READY or
  PENDING, and all of whose direct predecessors (along edges and dependencies of the DAG) have
  SUCCEEDED or were SKIPPED, in declaration order. So no node is dispatched in the same wave as
  a predecessor.
\<close>

theorem ready_set_exact:
  "subseq (ready_set dag states skip) (List.map dn_id (dg_nodes dag)) \<and>
   (n \<in> set (ready_set dag states skip) \<longleftrightarrow>
     n \<in> set (dag_ids dag) \<and> n \<notin> set skip \<and>
     (map_of states n = None \<or> map_of states n = Some ''READY'' \<or> map_of states n = Some ''PENDING'') \<and>
     (\<forall>d. (d, n) \<in> dag_step dag \<longrightarrow>
        map_of states d = Some ''SUCCEEDED'' \<or> map_of states d = Some ''SKIPPED''))"
proof
  show "subseq (ready_set dag states skip) (List.map dn_id (dg_nodes dag))"
    by (simp add: ready_set_def Let_def)
qed (auto simp: ready_set_iff settled_def waits_for_def split: option.splits)

lemma ready_set_exact_witness:
  "let dag = \<lparr>dg_nodes = [\<lparr>dn_id = ''a'', dn_depends_on = [], dn_parameters = [], dn_optional = False\<rparr>,
       \<lparr>dn_id = ''b'', dn_depends_on = [''a''], dn_parameters = [], dn_optional = False\<rparr>],
     dg_edges = []\<rparr> in ''b'' \<in> set (ready_set dag [(''a'', ''SUCCEEDED'')] [])"
  using ready_set_exact [of "\<lparr>dg_nodes = [\<lparr>dn_id = ''a'', dn_depends_on = [], dn_parameters = [], dn_optional = False\<rparr>,
       \<lparr>dn_id = ''b'', dn_depends_on = [''a''], dn_parameters = [], dn_optional = False\<rparr>],
     dg_edges = []\<rparr>" "[(''a'', ''SUCCEEDED'')]" "[]" "''b''"]
  by (auto simp: dag_ids_def dag_step_def)

text \<open>
  C32. An acyclic workflow never deadlocks: when every dependency names a declared node, every
  node is waiting, dispatchable, SUCCEEDED or SKIPPED, and some node is not yet settled, there
  is a node to dispatch.
\<close>

theorem ready_set_progress:
  assumes acyclic: "acyclic (dag_step dag)"
    and closed: "\<And>a b. (a, b) \<in> dag_step dag \<Longrightarrow> a \<in> set (dag_ids dag)"
    and states: "\<And>n. n \<in> set (dag_ids dag) \<Longrightarrow>
       map_of states n \<in> {None, Some ''PENDING'', Some ''READY'', Some ''SUCCEEDED'', Some ''SKIPPED''}"
    and todo: "m \<in> set (dag_ids dag)" "map_of states m \<notin> {Some ''SUCCEEDED'', Some ''SKIPPED''}"
  shows "ready_set dag states [] \<noteq> []"
proof -
  let ?todo = "{n \<in> set (dag_ids dag). map_of states n \<notin> {Some ''SUCCEEDED'', Some ''SKIPPED''}}"
  let ?r = "dag_step dag \<inter> (?todo \<times> ?todo)"
  have "finite ?r" by (rule finite_subset [of _ "?todo \<times> ?todo"]) auto
  moreover have "acyclic ?r" using acyclic by (rule acyclic_subset) auto
  ultimately have "wf ?r" by (rule finite_acyclic_wf)
  moreover have "m \<in> ?todo" using todo by simp
  ultimately obtain n where n: "n \<in> ?todo" and least: "\<And>d. (d, n) \<in> ?r \<Longrightarrow> d \<notin> ?todo"
    by (rule wfE_min) blast
  have "settled (map_of states d)" if "d \<in> waits_for dag n" for d
    using that n least [of d] closed [of d n] by (auto simp: waits_for_def settled_def)
  with n states [of n] have "n \<in> set (ready_set dag states [])"
    by (auto simp: ready_set_iff split: option.splits)
  then show ?thesis by auto
qed

lemma ready_set_progress_witness:
  "let dag = \<lparr>dg_nodes = [\<lparr>dn_id = ''a'', dn_depends_on = [], dn_parameters = [], dn_optional = False\<rparr>,
       \<lparr>dn_id = ''b'', dn_depends_on = [''a''], dn_parameters = [], dn_optional = False\<rparr>],
     dg_edges = []\<rparr> in ready_set dag [(''a'', ''SUCCEEDED'')] [] \<noteq> []"
proof -
  let ?dag = "\<lparr>dg_nodes = [\<lparr>dn_id = ''a'', dn_depends_on = [], dn_parameters = [], dn_optional = False\<rparr>,
       \<lparr>dn_id = ''b'', dn_depends_on = [''a''], dn_parameters = [], dn_optional = False\<rparr>],
     dg_edges = []\<rparr>"
  have s: "dag_step ?dag = {(''a'', ''b'')}" and i: "set (dag_ids ?dag) = {''a'', ''b''}"
    by (auto simp: dag_step_def dag_ids_def)
  have "acyclic (dag_step ?dag)"
    unfolding s by (auto simp: acyclic_def trancl_insert)
  then have "ready_set ?dag [(''a'', ''SUCCEEDED'')] [] \<noteq> []"
    by (rule ready_set_progress [where m = "''b''"]) (auto simp: s i)
  then show ?thesis by (simp add: Let_def)
qed

section \<open>Affected subgraph\<close>

definition affected_nodes :: "workflow_dag \<Rightarrow> string list \<Rightarrow> string list" where
  "affected_nodes dag = pop_mark (\<lambda>n. n \<in> set (dag_ids dag)) (affected_adjacency dag) []"

interpretation affected: closure "affected_nodes dag" "adj_edges (affected_adjacency dag)"
  "\<lambda>n. n \<in> set (dag_ids dag)" for dag
  by unfold_locales (simp add: affected_nodes_def mark_reach)

lemma affected_between_ids:
  assumes "a \<in> set (dag_ids dag)" and "b \<in> set (dag_ids dag)"
  shows "(a, b) \<in> adj_edges (affected_adjacency dag) \<longleftrightarrow> (a, b) \<in> dag_step dag"
proof -
  have "a \<noteq> []" "b \<noteq> []" using assms by (auto simp: dag_ids_def)
  with affected_edges [of dag] show ?thesis by blast
qed

text \<open>
  C33. The recompute plan of a set of changes is the least correct one: the nodes to recompute
  are those the changes point at and everything that depends on them within the DAG, no node
  outside can be reached from one inside, and any other set with these two properties contains
  them. The nodes to reuse are exactly the others; both lists are sorted without repetition.
\<close>

theorem affected_subgraph_least:
  "let plan = compute_affected_subgraph dag changes;
       R = set (pl_recompute plan); ids = set (dag_ids dag)
   in (\<forall>s \<in> set (change_seeds dag changes). s \<in> ids \<longrightarrow> s \<in> R) \<and>
      (\<forall>a b. a \<in> R \<longrightarrow> (a, b) \<in> dag_step dag \<longrightarrow> b \<in> ids \<longrightarrow> b \<in> R) \<and>
      (\<forall>C. (\<forall>s \<in> set (change_seeds dag changes). s \<in> ids \<longrightarrow> s \<in> C) \<and>
           (\<forall>a b. a \<in> C \<longrightarrow> (a, b) \<in> dag_step dag \<longrightarrow> b \<in> ids \<longrightarrow> b \<in> C) \<longrightarrow> R \<subseteq> C) \<and>
      R \<inter> set (pl_reuse plan) = {} \<and> R \<union> set (pl_reuse plan) = ids \<and>
      sorted (pl_recompute plan) \<and> distinct (pl_recompute plan) \<and>
      sorted (pl_reuse plan) \<and> distinct (pl_reuse plan)"
proof -
  let ?seeds = "change_seeds dag changes"
  let ?R = "set (affected_nodes dag ?seeds)"
  have R: "set (pl_recompute (compute_affected_subgraph dag changes)) = ?R"
    "set (pl_reuse (compute_affected_subgraph dag changes)) = set (dag_ids dag) - ?R"
    by (simp_all add: compute_affected_subgraph_def affected_nodes_def Let_def)
  have ids: "?R \<subseteq> set (dag_ids dag)"
    using affected.run_ok by blast
  have cl: "b \<in> ?R" if "a \<in> ?R" "(a, b) \<in> dag_step dag" "b \<in> set (dag_ids dag)" for a b
    using affected.run_closed [OF that(1)] affected_between_ids [of a dag b] that ids by blast
  have least: "?R \<subseteq> C" if "\<forall>s \<in> set ?seeds. s \<in> set (dag_ids dag) \<longrightarrow> s \<in> C"
    and "\<forall>a b. a \<in> C \<longrightarrow> (a, b) \<in> dag_step dag \<longrightarrow> b \<in> set (dag_ids dag) \<longrightarrow> b \<in> C" for C
  proof -
    have "?R \<subseteq> C \<inter> set (dag_ids dag)"
      by (rule affected.run_least) (use that affected_between_ids in blast)+
    then show ?thesis by blast
  qed
  show ?thesis
    unfolding Let_def R
    using affected.run_extensive [of _ ?seeds dag] cl least ids
    by (simp add: compute_affected_subgraph_def Let_def) blast
qed

lemma affected_subgraph_least_witness:
  "\<exists>dag changes. ''b'' \<in> set (pl_recompute (compute_affected_subgraph dag changes))"
proof -
  let ?dag = "\<lparr>dg_nodes = [\<lparr>dn_id = ''a'', dn_depends_on = [], dn_parameters = [], dn_optional = False\<rparr>,
       \<lparr>dn_id = ''b'', dn_depends_on = [''a''], dn_parameters = [], dn_optional = False\<rparr>],
     dg_edges = []\<rparr>"
  let ?ch = "[\<lparr>ch_dimension = ''algorithm'', ch_target_kind = ''node'', ch_target = ''a'', ch_detail = []\<rparr>]"
  have "''a'' \<in> set (change_seeds ?dag ?ch)" "''a'' \<in> set (dag_ids ?dag)" "''b'' \<in> set (dag_ids ?dag)"
    "(''a'', ''b'') \<in> dag_step ?dag"
    by (simp_all add: change_seeds_def RECOMPUTE_DIMENSIONS_def seed_nodes_def dag_ids_def dag_step_def)
  note f = this
  note least = affected_subgraph_least [of ?dag ?ch, unfolded Let_def]
  have "''a'' \<in> set (pl_recompute (compute_affected_subgraph ?dag ?ch))"
    using conjunct1 [OF least] f(1,2) by blast
  then have "''b'' \<in> set (pl_recompute (compute_affected_subgraph ?dag ?ch))"
    using conjunct1 [OF conjunct2 [OF least]] f(3,4) by blast
  then show ?thesis by blast
qed

end
