(* ===== verification/Workflow_Store.thy ===== *)
theory Workflow_Store
  imports Workflow_Contracts
begin

text \<open>
  The durable store of workflow instances, \<open>app/services/workflow_runtime/store.py\<close>, over its
  three tables (\<open>app/models/db_model.py\<close>): instances, one row per node, and the append-only
  event journal. Reads return rows (the code's projection to dictionaries renames columns and
  reads a null text as empty, written \<open>blank\<close>). Time spans are in microseconds. Operations of
  several statements take an environment \<open>env\<close>: what other transactions commit between them;
  \<open>busy\<close> says which transactions SQLite refuses as locked. The free-text \<open>detail\<close> of a result
  is not modelled.
\<close>

section \<open>Tables\<close>

record wf_node =
  wn_instance_id :: string
  wn_org_id :: string
  wn_node_id :: string
  wn_state :: string
  wn_revision :: int
  wn_claimed_by :: "string option"
  wn_attempts :: int
  wn_error_code :: "string option"
  wn_bound_ref :: "string option"
  wn_output_ref :: "string option"
  wn_output_fingerprint :: "string option"
  wn_binding :: pyval
  wn_reuse :: pyval
  wn_attempts_log :: "pyval list"
  wn_transitions :: "transition_record list"
  wn_lease_expires_at :: "time option"
  wn_heartbeat_at :: "time option"
  wn_cancel_requested :: bool
  wn_next_ready_at :: "time option"
  wn_updated_at :: time

record wf_instance =
  wi_instance_id :: string
  wi_package_id :: string
  wi_package_version :: string
  wi_package_fingerprint :: string
  wi_status :: string
  wi_revision :: int
  wi_owner_scope :: string
  wi_org_id :: string
  wi_session_id :: string
  wi_project_id :: "string option"
  wi_parent_instance_id :: "string option"
  wi_parent_node_id :: "string option"
  wi_turn_id :: "string option"
  wi_run_id :: "string option"
  wi_run_lease_owner :: "string option"
  wi_run_lease_expires_at :: "time option"
  wi_cancel_requested :: bool
  wi_pending_changes :: "pending_change list"
  wi_decisions :: "recompute_decision list"
  wi_visited_packages :: "string list"
  wi_error_code :: "string option"
  wi_error_detail :: "string option"
  wi_created_at :: time
  wi_updated_at :: time
  wi_started_at :: "time option"
  wi_terminal_at :: "time option"

record wf_event =
  we_id :: int
  we_instance_id :: string
  we_org_id :: string
  we_node_id :: string
  we_kind :: string
  we_from :: string
  we_to :: string
  we_reason :: string
  we_actor :: string
  we_attempt :: int
  we_payload :: "(string \<times> pyval) list"

record wf_store =
  ws_instances :: "wf_instance list"
  ws_nodes :: "wf_node list"
  ws_events :: "wf_event list"

type_synonym wf_env = "nat \<Rightarrow> wf_store \<Rightarrow> wf_store"

definition wf_idle :: wf_env where
  "wf_idle i st = st"

definition blank :: "string option \<Rightarrow> string" where
  "blank x = or_else x []"

definition none_if_empty :: "string \<Rightarrow> string option" where
  "none_if_empty s = (if s = [] then None else Some s)"

definition node_key :: "wf_node \<Rightarrow> string \<times> string" where
  "node_key r = (wn_instance_id r, wn_node_id r)"

definition next_event_id :: "wf_event list \<Rightarrow> int" where
  "next_event_id es = foldr max (List.map we_id es) 0 + 1"

definition add_event :: "wf_event \<Rightarrow> wf_store \<Rightarrow> wf_store" where
  "add_event e st = st\<lparr>ws_events := ws_events st @ [e\<lparr>we_id := next_event_id (ws_events st)\<rparr>]\<rparr>"

section \<open>Reads\<close>

definition get_instance :: "wf_store \<Rightarrow> string \<Rightarrow> string option \<Rightarrow> string option \<Rightarrow> wf_instance option" where
  "get_instance st instance_id owner_scope org_id =
     sql_first (\<lambda>r. wi_instance_id r = instance_id \<and>
        (case owner_scope of None \<Rightarrow> True | Some o_s \<Rightarrow> wi_owner_scope r = o_s) \<and>
        (case org_id of None \<Rightarrow> True | Some g \<Rightarrow> wi_org_id r = g)) (ws_instances st)"

definition get_node_states :: "wf_store \<Rightarrow> string \<Rightarrow> (string \<times> string) list" where
  "get_node_states st instance_id =
     List.map (\<lambda>r. (wn_node_id r, wn_state r))
       (sql_where (\<lambda>r. wn_instance_id r = instance_id) (ws_nodes st))"

definition get_nodes :: "wf_store \<Rightarrow> string \<Rightarrow> wf_node list" where
  "get_nodes st instance_id = sql_where (\<lambda>r. wn_instance_id r = instance_id) (ws_nodes st)"

definition get_node :: "wf_store \<Rightarrow> string \<Rightarrow> string \<Rightarrow> wf_node option" where
  "get_node st instance_id node_id = row_at node_key (instance_id, node_id) (ws_nodes st)"

definition MAX_JOURNAL_QUERY :: int where "MAX_JOURNAL_QUERY = 200"

definition get_events :: "wf_store \<Rightarrow> string \<Rightarrow> int \<Rightarrow> int \<Rightarrow> string \<Rightarrow> wf_event list" where
  "get_events st instance_id limit after_id kind =
     take (nat (max 1 (min limit MAX_JOURNAL_QUERY)))
       (sort_key we_id
         (sql_where (\<lambda>e. we_instance_id e = instance_id \<and> we_id e > after_id \<and>
            (kind \<noteq> [] \<longrightarrow> we_kind e = take 40 kind)) (ws_events st)))"

definition count_running_nodes :: "wf_store \<Rightarrow> string \<Rightarrow> nat" where
  "count_running_nodes st instance_id =
     length (sql_where (\<lambda>r. wn_instance_id r = instance_id \<and> wn_state r = N_RUNNING) (ws_nodes st))"

definition list_session_instances ::
  "wf_store \<Rightarrow> string \<Rightarrow> string option \<Rightarrow> string option \<Rightarrow> bool \<Rightarrow> wf_instance list" where
  "list_session_instances st session_id owner_scope org_id active_only =
     take 16 (sort_key (\<lambda>r. - wi_created_at r)
       (sql_where (\<lambda>r. wi_session_id r = session_id \<and>
          (case owner_scope of None \<Rightarrow> True | Some o_s \<Rightarrow> wi_owner_scope r = o_s) \<and>
          (case org_id of None \<Rightarrow> True | Some g \<Rightarrow> wi_org_id r = g) \<and>
          (active_only \<longrightarrow> wi_status r = I_RUNNING)) (ws_instances st)))"

definition list_owner_instances ::
  "wf_store \<Rightarrow> string \<Rightarrow> string option \<Rightarrow> int \<Rightarrow> string list option \<Rightarrow> wf_instance list" where
  "list_owner_instances st owner_scope org_id limit statuses =
     take (nat (max 1 (min limit 128))) (sort_key (\<lambda>r. - wi_created_at r)
       (sql_where (\<lambda>r. wi_owner_scope r = owner_scope \<and>
          (case org_id of None \<Rightarrow> True | Some g \<Rightarrow> wi_org_id r = g) \<and>
          (truthy statuses \<longrightarrow> wi_status r \<in> set (or_else statuses []))) (ws_instances st)))"

definition resolve_org_for_owner :: "wf_store \<Rightarrow> string \<Rightarrow> string option" where
  "resolve_org_for_owner st owner_scope =
     map_option wi_org_id (sql_first (\<lambda>r. wi_owner_scope r = take 40 owner_scope) (ws_instances st))"

section \<open>Creation\<close>

definition LEASE_TTL :: int where "LEASE_TTL = 120000000"
definition MAX_ACTIVE_SUBINSTANCES :: nat where "MAX_ACTIVE_SUBINSTANCES = 32"

definition active_child_query :: "wf_store \<Rightarrow> string \<Rightarrow> time \<Rightarrow> wf_instance list" where
  "active_child_query st owner_scope now =
     sql_where (\<lambda>r. wi_owner_scope r = owner_scope \<and> wi_status r = I_RUNNING \<and>
        truthy (wi_parent_instance_id r) \<and>
        (case wi_run_lease_expires_at r of
           Some e \<Rightarrow> e > now
         | None \<Rightarrow> wi_created_at r \<ge> now - LEASE_TTL)) (ws_instances st)"

definition count_active_subworkflows :: "wf_store \<Rightarrow> string \<Rightarrow> time \<Rightarrow> nat" where
  "count_active_subworkflows st owner_scope now = length (active_child_query st owner_scope now)"

datatype create_error = ValueError | SubworkflowCapacityExceeded | QuotaRejected | DuplicateRow

record create_args =
  ca_package_id :: string
  ca_package_version :: string
  ca_package_fingerprint :: string
  ca_owner_scope :: string
  ca_org_id :: "string option"
  ca_session_id :: string
  ca_project_id :: string
  ca_parent_instance_id :: string
  ca_parent_node_id :: string
  ca_turn_id :: string
  ca_run_id :: string
  ca_node_ids :: "string list"

definition new_node_row :: "string \<Rightarrow> string \<Rightarrow> time \<Rightarrow> string \<Rightarrow> wf_node" where
  "new_node_row instance_id org now node_id =
     \<lparr>wn_instance_id = instance_id, wn_org_id = take 255 org, wn_node_id = take 64 node_id,
      wn_state = N_PENDING, wn_revision = 1, wn_claimed_by = None, wn_attempts = 0,
      wn_error_code = None, wn_bound_ref = None, wn_output_ref = None,
      wn_output_fingerprint = None, wn_binding = PDict [], wn_reuse = PDict [],
      wn_attempts_log = [], wn_transitions = [], wn_lease_expires_at = None,
      wn_heartbeat_at = None, wn_cancel_requested = False, wn_next_ready_at = None,
      wn_updated_at = now\<rparr>"

definition new_instance_row :: "string \<Rightarrow> string \<Rightarrow> time \<Rightarrow> create_args \<Rightarrow> wf_instance" where
  "new_instance_row instance_id org now a =
     \<lparr>wi_instance_id = instance_id, wi_package_id = take 64 (ca_package_id a),
      wi_package_version = take 16 (ca_package_version a),
      wi_package_fingerprint = take 64 (ca_package_fingerprint a), wi_status = I_RUNNING,
      wi_revision = 1, wi_owner_scope = take 40 (ca_owner_scope a), wi_org_id = take 255 org,
      wi_session_id = take 255 (ca_session_id a),
      wi_project_id = none_if_empty (take 255 (ca_project_id a)),
      wi_parent_instance_id = none_if_empty (take 64 (ca_parent_instance_id a)),
      wi_parent_node_id = none_if_empty (take 64 (ca_parent_node_id a)),
      wi_turn_id = none_if_empty (take 80 (ca_turn_id a)),
      wi_run_id = none_if_empty (take 64 (ca_run_id a)),
      wi_run_lease_owner = None, wi_run_lease_expires_at = None, wi_cancel_requested = False,
      wi_pending_changes = [], wi_decisions = [], wi_visited_packages = [],
      wi_error_code = None, wi_error_detail = None, wi_created_at = now, wi_updated_at = now,
      wi_started_at = None, wi_terminal_at = None\<rparr>"

text \<open>
  One transaction: the child-capacity check (only for children, under the owner's lock), the
  organisation (\<open>default_org\<close> when none is given), the quota (\<open>admit\<close>), the instance row and
  one PENDING row per node. \<open>instance_id\<close> is the fresh random id.
\<close>

definition create_instance ::
  "string \<Rightarrow> (wf_store \<Rightarrow> string \<Rightarrow> bool) \<Rightarrow> string \<Rightarrow> time \<Rightarrow> create_args \<Rightarrow> wf_store \<Rightarrow>
   wf_store \<times> (create_error + wf_instance option)" where
  "create_instance default_org admit instance_id now a st =
     (if length (ca_owner_scope a) > 40 then (st, Inl ValueError)
      else if ca_node_ids a = [] then (st, Inl ValueError)
      else if length (ca_node_ids a) > MAX_INSTANCE_NODES then (st, Inl ValueError)
      else if ca_parent_instance_id a \<noteq> [] \<and>
              length (active_child_query st (ca_owner_scope a) now) \<ge> MAX_ACTIVE_SUBINSTANCES
      then (st, Inl SubworkflowCapacityExceeded)
      else
        let org = (if truthy (ca_org_id a) then or_else (ca_org_id a) [] else default_org);
            rows = List.map (new_node_row instance_id org now)
                     (take MAX_INSTANCE_NODES (ca_node_ids a))
        in if \<not> admit st org then (st, Inl QuotaRejected)
           else if instance_id \<in> wi_instance_id ` set (ws_instances st) \<or>
                   \<not> keyed node_key (ws_nodes st @ rows)
           then (st, Inl DuplicateRow)
           else
             let st' = st\<lparr>ws_instances := ws_instances st @ [new_instance_row instance_id org now a],
                          ws_nodes := ws_nodes st @ rows\<rparr>
             in (st', Inr (get_instance st' instance_id (Some (ca_owner_scope a)) None)))"

section \<open>Node transitions\<close>

record node_patch =
  np_bound_ref :: "string option option"
  np_output_ref :: "string option option"
  np_output_fingerprint :: "string option option"
  np_error_code :: "string option option"
  np_binding :: "pyval option"
  np_reuse :: "pyval option"
  np_next_ready_at :: "time option option"
  np_attempts_increment :: bool
  np_attempt_log :: "pyval option"

definition no_patch :: node_patch where
  "no_patch = \<lparr>np_bound_ref = None, np_output_ref = None, np_output_fingerprint = None,
     np_error_code = None, np_binding = None, np_reuse = None, np_next_ready_at = None,
     np_attempts_increment = False, np_attempt_log = None\<rparr>"

record transition_args =
  ta_expected_from :: "string option"
  ta_reason :: string
  ta_event :: string
  ta_claim :: bool
  ta_claimed_by :: string
  ta_require_claim :: bool
  ta_patch :: node_patch
  ta_complete :: bool
  ta_lease_ttl :: "int option"

record transition_result =
  rs_ok :: bool
  rs_code :: string
  rs_state :: string
  rs_revision :: int

definition result_of :: "bool \<Rightarrow> string \<Rightarrow> string \<Rightarrow> int \<Rightarrow> transition_result" where
  "result_of k c s v = \<lparr>rs_ok = k, rs_code = c, rs_state = s, rs_revision = v\<rparr>"

definition bounded_event_payload :: "node_patch \<Rightarrow> (string \<times> pyval) list" where
  "bounded_event_payload p =
     concat (List.map (\<lambda>(k, v). case v of
          Some (Some s) \<Rightarrow> if s \<noteq> [] then [(k, PStr (take 96 s))] else [] | _ \<Rightarrow> [])
       [(''error_code'', np_error_code p), (''output_ref'', np_output_ref p),
        (''bound_ref'', np_bound_ref p), (''output_fingerprint'', np_output_fingerprint p)]) @
     (if np_attempts_increment p then [(''attempts_increment'', PBool True)] else [])"

text \<open>
  The \<open>SET\<close> list of the update. Its values were computed from the row \<open>row\<close> as read; columns
  it does not name keep what the updated row \<open>r\<close> holds.
\<close>

definition claim_columns :: "time \<Rightarrow> transition_args \<Rightarrow> wf_node \<Rightarrow> wf_node" where
  "claim_columns now a r =
     (if ta_claim a
      then r\<lparr>wn_claimed_by := none_if_empty (take 64 (ta_claimed_by a)),
             wn_lease_expires_at := Some (now + max 1000000 (or_else (ta_lease_ttl a) LEASE_TTL)),
             wn_heartbeat_at := Some now\<rparr>
      else r)"

definition release_columns :: "string \<Rightarrow> wf_node \<Rightarrow> wf_node" where
  "release_columns to_state r =
     (let r1 = (if to_state \<in> set [N_READY, N_CANCELLED, N_SKIPPED]
                then r\<lparr>wn_claimed_by := None\<rparr> else r)
      in if to_state \<in> set [N_SUCCEEDED, N_FAILED, N_CANCELLED]
         then r1\<lparr>wn_lease_expires_at := None, wn_heartbeat_at := None\<rparr> else r1)"

definition patch_columns :: "node_patch \<Rightarrow> wf_node \<Rightarrow> wf_node" where
  "patch_columns p r =
     r\<lparr>wn_bound_ref := or_else (np_bound_ref p) (wn_bound_ref r),
       wn_output_ref := or_else (np_output_ref p) (wn_output_ref r),
       wn_output_fingerprint := or_else (np_output_fingerprint p) (wn_output_fingerprint r),
       wn_error_code := or_else (np_error_code p) (wn_error_code r),
       wn_binding := or_else (np_binding p) (wn_binding r),
       wn_reuse := or_else (np_reuse p) (wn_reuse r),
       wn_next_ready_at := or_else (np_next_ready_at p) (wn_next_ready_at r)\<rparr>"

definition log_columns :: "transition_args \<Rightarrow> string \<Rightarrow> wf_node \<Rightarrow> wf_node \<Rightarrow> wf_node" where
  "log_columns a to_state row r =
     (let p = ta_patch a;
          r1 = (if np_attempts_increment p then r\<lparr>wn_attempts := wn_attempts row + 1\<rparr> else r);
          r2 = (case np_attempt_log p of
                  Some e \<Rightarrow> if py_truthy e
                    then r1\<lparr>wn_attempts_log := take_last MAX_NODE_ATTEMPTS (wn_attempts_log row @ [e])\<rparr>
                    else r1
                | None \<Rightarrow> r1)
      in r2\<lparr>wn_transitions := take_last MAX_NODE_TRANSITIONS
           (wn_transitions row @ [bounded_transition
              \<lparr>tr_rev = wn_revision row + 1, tr_from = wn_state row, tr_to = to_state,
               tr_reason = take 96 (ta_reason a), tr_event = take 32 (ta_event a)\<rparr>])\<rparr>)"

definition transition_values ::
  "time \<Rightarrow> transition_args \<Rightarrow> string \<Rightarrow> wf_node \<Rightarrow> wf_node \<Rightarrow> wf_node" where
  "transition_values now a to_state row r =
     log_columns a to_state row
       (patch_columns (ta_patch a)
         (release_columns to_state
           (claim_columns now a
             (r\<lparr>wn_state := to_state, wn_revision := wn_revision row + 1, wn_updated_at := now\<rparr>))))"

definition transition_event :: "transition_args \<Rightarrow> string \<Rightarrow> wf_node \<Rightarrow> wf_event" where
  "transition_event a to_state row =
     \<lparr>we_id = 0, we_instance_id = wn_instance_id row, we_org_id = wn_org_id row,
      we_node_id = take 64 (wn_node_id row), we_kind = ''state_transition'',
      we_from = take 16 (wn_state row), we_to = take 16 to_state,
      we_reason = take 96 (ta_reason a), we_actor = take 64 (ta_event a),
      we_attempt = (if np_attempts_increment (ta_patch a) then wn_attempts row + 1 else wn_attempts row),
      we_payload = bounded_event_payload (ta_patch a)\<rparr>"

definition try_transition ::
  "(wf_store \<Rightarrow> wf_store) \<Rightarrow> time \<Rightarrow> string \<Rightarrow> string \<Rightarrow> string \<Rightarrow> transition_args \<Rightarrow> wf_store \<Rightarrow>
   wf_store \<times> transition_result" where
  "try_transition between now instance_id node_id to_state a st =
     (case get_node st instance_id node_id of
        None \<Rightarrow> (st, result_of False ''NO_SUCH_NODE'' [] 0)
      | Some row \<Rightarrow>
          if ta_require_claim a \<and> blank (wn_claimed_by row) \<noteq> ta_claimed_by a
          then (st, result_of False ''CLAIM_MISMATCH'' (wn_state row) 0)
          else (case validate_node_transition (wn_state row) to_state of
             Some illegal \<Rightarrow> (st, result_of False (reason_class illegal) (wn_state row) 0)
           | None \<Rightarrow>
               if (case ta_expected_from a of None \<Rightarrow> False | Some s \<Rightarrow> wn_state row \<noteq> s)
               then (st, result_of False ''CAS_CONFLICT'' (wn_state row) 0)
               else
                 let st1 = between st;
                     (nodes, rowcount) = sql_update
                        (\<lambda>r. node_key r = (instance_id, node_id) \<and> wn_revision r = wn_revision row)
                        (transition_values now a to_state row) (ws_nodes st1)
                 in if rowcount = 0 then (st1, result_of False ''CAS_CONFLICT'' (wn_state row) 0)
                    else (add_event (transition_event a to_state row) (st1\<lparr>ws_nodes := nodes\<rparr>),
                          result_of True ''OK'' to_state (wn_revision row + 1))))"

text \<open>What a completing caller finds when it reads the node again.\<close>

definition completion_check ::
  "string \<Rightarrow> string \<Rightarrow> string \<Rightarrow> transition_args \<Rightarrow> wf_store \<Rightarrow> transition_result option" where
  "completion_check instance_id node_id to_state a st =
     (if \<not> ta_complete a then None
      else case get_node st instance_id node_id of
        None \<Rightarrow> None
      | Some fresh \<Rightarrow>
          if wn_state fresh = to_state then
            if ta_require_claim a \<and> blank (wn_claimed_by fresh) \<noteq> ta_claimed_by a
            then Some (result_of False ''CLAIM_MISMATCH'' to_state (wn_revision fresh))
            else Some (result_of True ''OK_IDEMPOTENT'' to_state (wn_revision fresh))
          else None)"

text \<open>
  The bounded retry loop: one attempt without delay and one per back-off step. Attempt \<open>i\<close> sees
  the commits \<open>env (3 * i)\<close> before it reads, \<open>env (3 * i + 1)\<close> before its update and
  \<open>env (3 * i + 2)\<close> before a completing caller reads again.
\<close>

definition BACKOFF_STEPS :: nat where "BACKOFF_STEPS = 4"

fun attempt_loop ::
  "(nat \<Rightarrow> bool) \<Rightarrow> wf_env \<Rightarrow> time \<Rightarrow> string \<Rightarrow> string \<Rightarrow> string \<Rightarrow> transition_args \<Rightarrow> nat \<Rightarrow> nat \<Rightarrow>
   wf_store \<Rightarrow> wf_store \<times> transition_result" where
  "attempt_loop busy env now instance_id node_id to_state a 0 i st =
     (st, result_of False ''CAS_CONFLICT''
        (case get_node st instance_id node_id of Some r \<Rightarrow> wn_state r | None \<Rightarrow> ''?'') 0)"
| "attempt_loop busy env now instance_id node_id to_state a (Suc n) i st =
     (if busy i then
        if i = BACKOFF_STEPS then (st, result_of False ''DB_BUSY'' [] 0)
        else attempt_loop busy env now instance_id node_id to_state a n (Suc i) st
      else
        let (st1, result) = try_transition (env (3 * i + 1)) now instance_id node_id to_state a
                (env (3 * i) st)
        in if rs_code result \<noteq> ''CAS_CONFLICT'' then (st1, result)
           else
             let st2 = env (3 * i + 2) st1
             in case completion_check instance_id node_id to_state a st2 of
                  Some r \<Rightarrow> (st2, r)
                | None \<Rightarrow> attempt_loop busy env now instance_id node_id to_state a n (Suc i) st2)"

definition transition_node ::
  "(nat \<Rightarrow> bool) \<Rightarrow> wf_env \<Rightarrow> time \<Rightarrow> string \<Rightarrow> string \<Rightarrow> string \<Rightarrow> transition_args \<Rightarrow> wf_store \<Rightarrow>
   wf_store \<times> transition_result" where
  "transition_node busy env now instance_id node_id to_state a st =
     (case completion_check instance_id node_id to_state a st of
        Some r \<Rightarrow> (st, r)
      | None \<Rightarrow> attempt_loop busy env now instance_id node_id to_state a (Suc BACKOFF_STEPS) 0 st)"

section \<open>Instance updates\<close>

record instance_patch =
  ip_status :: "string option"
  ip_cancel_requested :: "bool option"
  ip_pending_changes :: "pending_change list option"
  ip_decisions :: "recompute_decision list option"
  ip_visited_packages :: "string list option"
  ip_error_code :: "string option option"
  ip_error_detail :: "string option option"
  ip_started_at :: "time option option"
  ip_terminal_at :: "time option option"
  ip_run_lease_owner :: "string option option"
  ip_run_lease_expires_at :: "time option option"

definition no_fields :: instance_patch where
  "no_fields = \<lparr>ip_status = None, ip_cancel_requested = None, ip_pending_changes = None,
     ip_decisions = None, ip_visited_packages = None, ip_error_code = None,
     ip_error_detail = None, ip_started_at = None, ip_terminal_at = None,
     ip_run_lease_owner = None, ip_run_lease_expires_at = None\<rparr>"

definition patch_instance :: "instance_patch \<Rightarrow> wf_instance \<Rightarrow> wf_instance" where
  "patch_instance p r =
     r\<lparr>wi_status := or_else (ip_status p) (wi_status r),
       wi_cancel_requested := or_else (ip_cancel_requested p) (wi_cancel_requested r),
       wi_pending_changes := or_else (ip_pending_changes p) (wi_pending_changes r),
       wi_decisions := or_else (ip_decisions p) (wi_decisions r),
       wi_visited_packages := or_else (ip_visited_packages p) (wi_visited_packages r),
       wi_error_code := or_else (ip_error_code p) (wi_error_code r),
       wi_error_detail := or_else (ip_error_detail p) (wi_error_detail r),
       wi_started_at := or_else (ip_started_at p) (wi_started_at r),
       wi_terminal_at := or_else (ip_terminal_at p) (wi_terminal_at r),
       wi_run_lease_owner := or_else (ip_run_lease_owner p) (wi_run_lease_owner r),
       wi_run_lease_expires_at := or_else (ip_run_lease_expires_at p) (wi_run_lease_expires_at r)\<rparr>"

definition cas_instance ::
  "string \<Rightarrow> int \<Rightarrow> (wf_instance \<Rightarrow> wf_instance) \<Rightarrow> wf_store \<Rightarrow> wf_store \<times> nat" where
  "cas_instance instance_id revision f st =
     (let (rows, rowcount) = sql_update
            (\<lambda>r. wi_instance_id r = instance_id \<and> wi_revision r = revision) f (ws_instances st)
      in (st\<lparr>ws_instances := rows\<rparr>, rowcount))"

definition update_instance ::
  "bool \<Rightarrow> wf_env \<Rightarrow> time \<Rightarrow> string \<Rightarrow> string option \<Rightarrow> int option \<Rightarrow> instance_patch \<Rightarrow> wf_store \<Rightarrow>
   wf_store \<times> wf_instance option" where
  "update_instance busy env now instance_id owner_scope expected_revision fs st =
     (if fs = no_fields then (st, get_instance st instance_id owner_scope None)
      else if busy then (st, None)
      else case get_instance st instance_id owner_scope None of
        None \<Rightarrow> (st, None)
      | Some row \<Rightarrow>
          if (case expected_revision of None \<Rightarrow> False | Some v \<Rightarrow> wi_revision row \<noteq> v)
          then (st, None)
          else
            let st1 = env 0 st;
                (st2, rowcount) = cas_instance instance_id (wi_revision row)
                  (\<lambda>r. (patch_instance fs r)\<lparr>wi_revision := wi_revision row + 1, wi_updated_at := now\<rparr>)
                  st1
            in if rowcount = 0 then (st1, None)
               else let st3 = env 1 st2 in (st3, get_instance st3 instance_id owner_scope None))"

section \<open>Run leases\<close>

definition unexpired :: "time \<Rightarrow> time option \<Rightarrow> bool" where
  "unexpired now e = (case e of None \<Rightarrow> False | Some t \<Rightarrow> t > now)"

definition acquire_run_lease ::
  "bool \<Rightarrow> wf_env \<Rightarrow> time \<Rightarrow> string \<Rightarrow> string \<Rightarrow> string \<Rightarrow> int \<Rightarrow> wf_store \<Rightarrow> wf_store \<times> bool" where
  "acquire_run_lease busy env now instance_id owner_scope token ttl st =
     (let expires = now + max 1000000 ttl
      in if busy then (st, False)
         else case get_instance st instance_id (Some owner_scope) None of
           None \<Rightarrow> (st, False)
         | Some row \<Rightarrow>
             if wi_status row \<in> set [I_CANCELLED, I_SUPERSEDED] then (st, False)
             else if unexpired now (wi_run_lease_expires_at row) \<and>
                     blank (wi_run_lease_owner row) \<noteq> token then (st, False)
             else
               let st1 = env 0 st;
                   (st2, rowcount) = cas_instance instance_id (wi_revision row)
                     (\<lambda>r. r\<lparr>wi_run_lease_owner := Some (take 64 token),
                           wi_run_lease_expires_at := Some expires,
                           wi_revision := wi_revision row + 1, wi_updated_at := now\<rparr>) st1
               in if rowcount = 0 then
                    let st3 = env 1 st1
                    in (st3, case get_instance st3 instance_id (Some owner_scope) None of
                          None \<Rightarrow> False
                        | Some reread \<Rightarrow> blank (wi_run_lease_owner reread) = take 64 token \<and>
                            unexpired now (wi_run_lease_expires_at reread))
                  else (st2, True))"

definition release_run_lease ::
  "bool \<Rightarrow> time \<Rightarrow> string \<Rightarrow> string \<Rightarrow> string \<Rightarrow> wf_store \<Rightarrow> wf_store \<times> bool" where
  "release_run_lease busy now instance_id owner_scope token st =
     (if busy then (st, False)
      else
        let (rows, rowcount) = sql_update
              (\<lambda>r. wi_instance_id r = instance_id \<and> wi_owner_scope r = owner_scope \<and>
                   wi_run_lease_owner r = Some (take 64 token))
              (\<lambda>r. r\<lparr>wi_run_lease_owner := None, wi_run_lease_expires_at := None, wi_updated_at := now\<rparr>)
              (ws_instances st)
        in (st\<lparr>ws_instances := rows\<rparr>, rowcount \<noteq> 0))"

section \<open>Node leases, heartbeats and cancel flags\<close>

definition find_orphan_running_nodes :: "time \<Rightarrow> string \<Rightarrow> string \<Rightarrow> wf_store \<Rightarrow> string list" where
  "find_orphan_running_nodes now instance_id current_token st =
     (case get_instance st instance_id None None of
        None \<Rightarrow> []
      | Some inst \<Rightarrow>
          if wi_status inst \<noteq> I_RUNNING then []
          else if unexpired now (wi_run_lease_expires_at inst) \<and>
                  blank (wi_run_lease_owner inst) \<noteq> [] \<and>
                  blank (wi_run_lease_owner inst) \<noteq> current_token then []
          else
            List.map wn_node_id
              (filter (\<lambda>r. blank (wn_claimed_by r) \<noteq> current_token \<and>
                           (case wn_lease_expires_at r of None \<Rightarrow> True | Some t \<Rightarrow> t \<le> now))
                (sql_where (\<lambda>r. wn_instance_id r = instance_id \<and> wn_state r = N_RUNNING)
                  (ws_nodes st))))"

definition heartbeat_node ::
  "bool \<Rightarrow> time \<Rightarrow> string \<Rightarrow> string \<Rightarrow> string \<Rightarrow> int \<Rightarrow> wf_store \<Rightarrow> wf_store \<times> bool" where
  "heartbeat_node busy now instance_id node_id token ttl st =
     (if busy then (st, False)
      else
        let (rows, rowcount) = sql_update
              (\<lambda>r. node_key r = (instance_id, node_id) \<and> wn_state r = N_RUNNING \<and>
                   wn_claimed_by r = Some (take 64 token))
              (\<lambda>r. r\<lparr>wn_lease_expires_at := Some (now + max 1000000 ttl),
                    wn_heartbeat_at := Some now, wn_updated_at := now\<rparr>)
              (ws_nodes st)
        in (st\<lparr>ws_nodes := rows\<rparr>, rowcount \<noteq> 0))"

definition instance_org :: "wf_store \<Rightarrow> string \<Rightarrow> string" where
  "instance_org st instance_id =
     (case get_instance st instance_id None None of Some i \<Rightarrow> wi_org_id i | None \<Rightarrow> [])"

definition cancellable_states :: "string list" where
  "cancellable_states = [N_PENDING, N_READY, N_RUNNING, N_BLOCKED, N_STALE]"

definition flag_node :: "time \<Rightarrow> string \<Rightarrow> string \<Rightarrow> wf_store \<times> string list \<Rightarrow> wf_store \<times> string list" where
  "flag_node now instance_id nid acc =
     (let (st, out) = acc;
          (rows, rowcount) = sql_update
            (\<lambda>r. node_key r = (instance_id, nid) \<and> wn_state r \<in> set cancellable_states \<and>
                 \<not> wn_cancel_requested r)
            (\<lambda>r. r\<lparr>wn_cancel_requested := True, wn_updated_at := now\<rparr>) (ws_nodes st)
      in (st\<lparr>ws_nodes := rows\<rparr>, if rowcount \<noteq> 0 then out @ [nid] else out))"

definition cancel_event :: "string \<Rightarrow> string \<Rightarrow> string \<Rightarrow> string \<Rightarrow> wf_event" where
  "cancel_event instance_id org actor nid =
     \<lparr>we_id = 0, we_instance_id = instance_id, we_org_id = org, we_node_id = take 64 nid,
      we_kind = ''node_cancel_requested'', we_from = [], we_to = [],
      we_reason = ''NODE_CANCEL_REQUESTED'', we_actor = take 64 actor, we_attempt = 0,
      we_payload = []\<rparr>"

definition request_node_cancel ::
  "time \<Rightarrow> string \<Rightarrow> string list \<Rightarrow> string \<Rightarrow> wf_store \<Rightarrow> wf_store \<times> string list" where
  "request_node_cancel now instance_id node_ids actor st =
     (let wanted = List.map (take 64) (filter (\<lambda>n. n \<noteq> []) node_ids)
      in if wanted = [] then (st, [])
         else
           let org = instance_org st instance_id;
               (st1, out) = fold (flag_node now instance_id) wanted (st, [])
           in (fold (\<lambda>nid. add_event (cancel_event instance_id org actor nid)) out st1, out))"

definition get_node_cancel_flags :: "wf_store \<Rightarrow> string \<Rightarrow> string list" where
  "get_node_cancel_flags st instance_id =
     List.map wn_node_id
       (sql_where (\<lambda>r. wn_instance_id r = instance_id \<and> wn_cancel_requested r) (ws_nodes st))"

definition clear_node_cancel :: "time \<Rightarrow> string \<Rightarrow> string \<Rightarrow> wf_store \<Rightarrow> wf_store \<times> bool" where
  "clear_node_cancel now instance_id node_id st =
     (let (rows, rowcount) = sql_update (\<lambda>r. node_key r = (instance_id, node_id))
            (\<lambda>r. r\<lparr>wn_cancel_requested := False, wn_updated_at := now\<rparr>) (ws_nodes st)
      in (st\<lparr>ws_nodes := rows\<rparr>, rowcount \<noteq> 0))"

definition append_event ::
  "string \<Rightarrow> string \<Rightarrow> string \<Rightarrow> string \<Rightarrow> string \<Rightarrow> int \<Rightarrow> (string \<times> pyval) list \<Rightarrow> wf_store \<Rightarrow> wf_store" where
  "append_event instance_id kind node_id reason actor attempt payload st =
     add_event \<lparr>we_id = 0, we_instance_id = instance_id, we_org_id = instance_org st instance_id,
        we_node_id = take 64 node_id, we_kind = take 40 kind, we_from = [], we_to = [],
        we_reason = take 96 reason, we_actor = take 64 actor, we_attempt = attempt,
        we_payload = payload\<rparr> st"

section \<open>Recovery scan\<close>

definition recoverable :: "time \<Rightarrow> int \<Rightarrow> wf_instance \<Rightarrow> bool" where
  "recoverable now ttl r =
     (wi_status r = I_RUNNING \<and>
      ((case wi_run_lease_expires_at r of Some e \<Rightarrow> e < now | None \<Rightarrow> False) \<or>
       (wi_run_lease_expires_at r = None \<and> wi_created_at r < now - max 1000000 ttl) \<or>
       wi_cancel_requested r))"

definition list_recoverable_instances :: "time \<Rightarrow> int \<Rightarrow> int \<Rightarrow> wf_store \<Rightarrow> wf_instance list" where
  "list_recoverable_instances now ttl limit st =
     take (nat (max 1 (min limit 64)))
       (sort_key wi_created_at (sql_where (recoverable now ttl) (ws_instances st)))"

end
