(* ===== verification/Workflow_Invariant.thy ===== *)
theory Workflow_Invariant
  imports Workflow_Store
begin

text \<open>
  What every operation of the workflow store keeps. \<open>wf_inv\<close>: the journal is the history of the
  nodes: the transition events of a node form a legal path from PENDING to its current state,
  each event starts where the previous one ended, and the node's revision counts them.
  \<open>wf_rel\<close>: the journal only grows at its end, nodes are never lost, revisions never fall and a
  cancelled node stays cancelled. Both under an environment of other transactions that does the
  same.
\<close>

section \<open>The journal invariant\<close>

definition node_events :: "wf_store \<Rightarrow> string \<times> string \<Rightarrow> wf_event list" where
  "node_events st k = filter (\<lambda>e. we_kind e = ''state_transition'' \<and>
     (we_instance_id e, we_node_id e) = k) (ws_events st)"

definition history_ok :: "wf_event list \<Rightarrow> string \<Rightarrow> int \<Rightarrow> bool" where
  "history_ok es state revision =
     (path (dict_items LEGAL_TRANSITIONS) N_PENDING (List.map we_to es) \<and>
      List.map we_from es = butlast (N_PENDING # List.map we_to es) \<and>
      state = last (N_PENDING # List.map we_to es) \<and> revision = 1 + int (length es))"

definition node_ok :: "wf_store \<Rightarrow> wf_node \<Rightarrow> bool" where
  "node_ok st r = (length (wn_node_id r) \<le> 64 \<and>
     history_ok (node_events st (node_key r)) (wn_state r) (wn_revision r))"

definition events_anchored :: "wf_store \<Rightarrow> bool" where
  "events_anchored st = (\<forall>e \<in> set (ws_events st). we_kind e = ''state_transition'' \<longrightarrow>
     (we_instance_id e, we_node_id e) \<in> node_key ` set (ws_nodes st))"

definition event_ids_ok :: "wf_store \<Rightarrow> bool" where
  "event_ids_ok st = (sorted_wrt (<) (List.map we_id (ws_events st)))"

definition wf_inv :: "wf_store \<Rightarrow> bool" where
  "wf_inv st = (keyed node_key (ws_nodes st) \<and> (\<forall>r \<in> set (ws_nodes st). node_ok st r) \<and>
     events_anchored st \<and> event_ids_ok st)"

definition node_rel :: "wf_node \<Rightarrow> wf_node \<Rightarrow> bool" where
  "node_rel r r' = (wn_org_id r' = wn_org_id r \<and> wn_revision r \<le> wn_revision r' \<and>
     (wn_revision r' = wn_revision r \<longrightarrow> wn_state r' = wn_state r) \<and>
     (wn_state r = N_CANCELLED \<longrightarrow> wn_state r' = N_CANCELLED))"

definition wf_rel :: "wf_store \<Rightarrow> wf_store \<Rightarrow> bool" where
  "wf_rel st st' = (prefix (ws_events st) (ws_events st') \<and>
     (\<forall>k r. row_at node_key k (ws_nodes st) = Some r \<longrightarrow>
        (\<exists>r'. row_at node_key k (ws_nodes st') = Some r' \<and> node_rel r r')))"

definition wf_good :: "wf_store \<Rightarrow> wf_store \<Rightarrow> bool" where
  "wf_good st st' = (wf_inv st' \<and> wf_rel st st')"

definition wf_env_ok :: "wf_env \<Rightarrow> bool" where
  "wf_env_ok env = (\<forall>i st. wf_inv st \<longrightarrow> wf_good st (env i st))"

lemma node_rel_refl: "node_rel r r"
  by (simp add: node_rel_def)

lemma node_rel_trans: "node_rel a b \<Longrightarrow> node_rel b c \<Longrightarrow> node_rel a c"
  by (auto simp: node_rel_def)

lemma wf_rel_refl: "wf_rel st st"
  by (auto simp: wf_rel_def node_rel_refl)

lemma wf_rel_trans: "wf_rel a b \<Longrightarrow> wf_rel b c \<Longrightarrow> wf_rel a c"
  unfolding wf_rel_def by (meson node_rel_trans prefix_order.trans)

lemma wf_good_refl: "wf_inv st \<Longrightarrow> wf_good st st"
  by (simp add: wf_good_def wf_rel_refl)

lemma wf_good_trans: "wf_good a b \<Longrightarrow> wf_good b c \<Longrightarrow> wf_good a c"
  by (auto simp: wf_good_def intro: wf_rel_trans)

lemma wf_good_inv: "wf_good a b \<Longrightarrow> wf_inv b"
  by (simp add: wf_good_def)

lemma wf_env_good: "wf_env_ok env \<Longrightarrow> wf_inv st \<Longrightarrow> wf_good st (env i st)"
  by (simp add: wf_env_ok_def)

lemma wf_good_env: "wf_env_ok env \<Longrightarrow> wf_good a b \<Longrightarrow> wf_good a (env i b)"
  by (blast intro: wf_good_trans wf_env_good wf_good_inv)

lemma wf_env_ok_idle: "wf_env_ok wf_idle"
  by (simp add: wf_env_ok_def wf_idle_def wf_good_refl)

section \<open>Operations that keep states and the history\<close>

lemma next_event_id_gt: "e \<in> set es \<Longrightarrow> we_id e < next_event_id es"
  unfolding next_event_id_def by (induction es) (auto simp: max_def)

lemma add_event_fields [simp]:
  "ws_nodes (add_event e st) = ws_nodes st"
  "ws_instances (add_event e st) = ws_instances st"
  "ws_events (add_event e st) = ws_events st @ [e\<lparr>we_id := next_event_id (ws_events st)\<rparr>]"
  by (simp_all add: add_event_def)

lemma event_ids_add: "event_ids_ok st \<Longrightarrow> event_ids_ok (add_event e st)"
  using next_event_id_gt [of _ "ws_events st"] by (auto simp: event_ids_ok_def sorted_wrt_append)

lemma node_events_add:
  "node_events (add_event e st) k = node_events st k @
     (if we_kind e = ''state_transition'' \<and> (we_instance_id e, we_node_id e) = k
      then [e\<lparr>we_id := next_event_id (ws_events st)\<rparr>] else [])"
  by (simp add: node_events_def)

lemma other_event_good:
  assumes "wf_inv st" and "we_kind e \<noteq> ''state_transition''"
  shows "wf_good st (add_event e st)"
  using assms
  by (auto simp: wf_good_def wf_inv_def wf_rel_def node_ok_def node_events_add events_anchored_def
      event_ids_add node_rel_refl)

text \<open>An update of columns other than key, organisation, state and revision.\<close>

definition side_columns :: "(wf_node \<Rightarrow> wf_node) \<Rightarrow> bool" where
  "side_columns f = (\<forall>r. node_key (f r) = node_key r \<and> wn_org_id (f r) = wn_org_id r \<and>
     wn_state (f r) = wn_state r \<and> wn_revision (f r) = wn_revision r)"

lemma side_update_good:
  assumes inv: "wf_inv st" and f: "side_columns f"
  shows "wf_good st (st\<lparr>ws_nodes := fst (sql_update p f (ws_nodes st))\<rparr>)"
proof -
  let ?st = "st\<lparr>ws_nodes := fst (sql_update p f (ws_nodes st))\<rparr>"
  have key: "node_key (f r) = node_key r" for r using f by (simp add: side_columns_def)
  have keep: "wn_org_id (f r) = wn_org_id r" "wn_state (f r) = wn_state r"
    "wn_revision (f r) = wn_revision r" "wn_node_id (f r) = wn_node_id r" for r
    using f key [of r] by (simp_all add: side_columns_def node_key_def)
  have ev: "node_events ?st k = node_events st k" for k
    by (simp add: node_events_def)
  have "List.map node_key (ws_nodes ?st) = List.map node_key (ws_nodes st)"
    by (simp add: sql_update_fst key)
  then have keys: "node_key ` set (ws_nodes ?st) = node_key ` set (ws_nodes st)"
    by (metis set_map)
  have ok: "node_ok ?st r \<and> node_ok ?st (f r)" if "r \<in> set (ws_nodes st)" for r
    using inv that by (simp add: wf_inv_def node_ok_def ev key keep)
  have "wf_inv ?st"
    unfolding wf_inv_def
  proof (intro conjI)
    show "keyed node_key (ws_nodes ?st)"
      using inv by (simp add: wf_inv_def keyed_sql_update [of node_key f, OF key])
    show "\<forall>r \<in> set (ws_nodes ?st). node_ok ?st r"
      using ok by (auto simp: sql_update_fst)
    show "events_anchored ?st"
      using inv keys by (simp add: wf_inv_def events_anchored_def)
    show "event_ids_ok ?st"
      using inv by (simp add: wf_inv_def event_ids_ok_def)
  qed
  moreover have "wf_rel st ?st"
    by (auto simp: wf_rel_def row_at_sql_update [of node_key f, OF key] node_rel_def keep)
  ultimately show ?thesis by (simp add: wf_good_def)
qed

lemma instances_good:
  assumes "wf_inv st" shows "wf_good st (st\<lparr>ws_instances := x\<rparr>)"
  using assms
  by (auto simp: wf_good_def wf_inv_def wf_rel_def node_ok_def node_events_def events_anchored_def
      event_ids_ok_def node_rel_refl)

section \<open>The transition\<close>

lemma transition_values_fields [simp]:
  "node_key (transition_values now a to row r) = node_key r"
  "wn_org_id (transition_values now a to row r) = wn_org_id r"
  "wn_state (transition_values now a to row r) = to"
  "wn_revision (transition_values now a to row r) = wn_revision row + 1"
  "wn_node_id (transition_values now a to row r) = wn_node_id r"
  by (simp_all add: transition_values_def log_columns_def patch_columns_def release_columns_def
      claim_columns_def node_key_def Let_def split: option.split)

lemma legal_lengths: "t \<in> set (dict_items LEGAL_TRANSITIONS s) \<Longrightarrow> length s \<le> 16 \<and> length t \<le> 16"
  by (drule legal_states) (auto simp: NODE_STATES_def)

lemma path_append:
  "path succ s (xs @ ys) \<longleftrightarrow> path succ s xs \<and> path succ (last (s # xs)) ys"
  by (induction xs arbitrary: s) auto

lemma history_extend:
  assumes "history_ok es s v" and "t \<in> set (dict_items LEGAL_TRANSITIONS s)"
    and "we_from e = s" and "we_to e = t"
  shows "history_ok (es @ [e]) t (v + 1)"
proof -
  let ?ts = "List.map we_to es"
  have last: "s = last (N_PENDING # ?ts)" and p: "path (dict_items LEGAL_TRANSITIONS) N_PENDING ?ts"
    and b: "List.map we_from es = butlast (N_PENDING # ?ts)" and v: "v = 1 + int (length es)"
    using assms(1) by (simp_all add: history_ok_def)
  have "path (dict_items LEGAL_TRANSITIONS) N_PENDING (?ts @ [t])"
    using assms(2) p last by (simp only: path_append) simp
  moreover have "butlast (N_PENDING # ?ts @ [t]) = butlast (N_PENDING # ?ts) @ [s]"
    unfolding last by (simp del: last.simps butlast.simps(2) add: butlast_append flip: append_Cons)
       (simp add: append_butlast_last_id [of "N_PENDING # ?ts", simplified])
  ultimately show ?thesis
    using b v assms(3,4) by (simp add: history_ok_def)
qed

text \<open>
  One compare-and-set step, the statement and its journal row together: the row read may be any
  earlier version of the node, the update only meets it when the revision is still the same.
\<close>

lemma cas_step_good:
  assumes inv: "wf_inv st" and row: "row_at node_key k (ws_nodes st) = Some r"
    and rev: "wn_revision r = wn_revision row" and state: "wn_state r = wn_state row"
    and key: "node_key row = k" and legal: "to \<in> set (dict_items LEGAL_TRANSITIONS (wn_state row))"
  shows "wf_good st (add_event (transition_event a to row)
     (st\<lparr>ws_nodes := row_put node_key k (transition_values now a to row r) (ws_nodes st)\<rparr>))"
proof -
  let ?r = "transition_values now a to row r"
  let ?nodes = "row_put node_key k ?r (ws_nodes st)"
  let ?e = "transition_event a to row"
  let ?st = "add_event ?e (st\<lparr>ws_nodes := ?nodes\<rparr>)"
  have k: "node_key r = k" "r \<in> set (ws_nodes st)"
    using row by (auto dest: row_at_Some)
  have kr: "node_key ?r = k" by (simp add: k(1))
  have ok: "length (wn_node_id r) \<le> 64" "history_ok (node_events st k) (wn_state r) (wn_revision r)"
    using inv k by (auto simp: wf_inv_def node_ok_def)
  have id: "wn_instance_id row = wn_instance_id r" "wn_node_id row = wn_node_id r"
    using key k(1) by (auto simp: node_key_def)
  have e: "we_kind ?e = ''state_transition''" "(we_instance_id ?e, we_node_id ?e) = k"
    "we_from ?e = wn_state r" "we_to ?e = to"
    using legal_lengths [OF legal] ok(1) key state
    by (simp_all add: transition_event_def id node_key_def)
  have ev: "node_events ?st k' = node_events st k' @
      (if k' = k then [?e\<lparr>we_id := next_event_id (ws_events st)\<rparr>] else [])" for k'
    using e by (simp add: node_events_def)
  have "List.map node_key ?nodes = List.map node_key (ws_nodes st)"
    using kr by (simp add: row_put_def)
  then have keys: "node_key ` set ?nodes = node_key ` set (ws_nodes st)"
    by (metis set_map)
  have hist: "history_ok (node_events ?st k) to (wn_revision row + 1)"
    using history_extend [OF ok(2), of to "?e\<lparr>we_id := next_event_id (ws_events st)\<rparr>"] e legal
    by (simp add: ev rev state)
  have "wf_inv ?st"
    unfolding wf_inv_def
  proof (intro conjI ballI)
    show "keyed node_key (ws_nodes ?st)"
      using inv kr by (simp add: wf_inv_def keyed_put)
    show "event_ids_ok ?st"
      using inv by (intro event_ids_add) (simp add: wf_inv_def event_ids_ok_def)
    show "events_anchored ?st"
    proof -
      have "k \<in> node_key ` set (ws_nodes st)" using k by auto
      with inv e(2) keys show ?thesis by (simp add: wf_inv_def events_anchored_def)
    qed
    fix x
    assume "x \<in> set (ws_nodes ?st)"
    then obtain y where y: "y \<in> set (ws_nodes st)" "x = (if node_key y = k then ?r else y)"
      by (auto simp: row_put_def)
    show "node_ok ?st x"
    proof (cases "node_key y = k")
      case True
      then show ?thesis using y hist ok(1) kr by (simp add: node_ok_def)
    next
      case False
      then show ?thesis using y inv by (simp add: node_ok_def ev wf_inv_def)
    qed
  qed
  moreover have "wf_rel st ?st"
  proof -
    have "wn_state r \<noteq> N_CANCELLED" using legal state by auto
    then have "node_rel r ?r"
      using rev by (simp add: node_rel_def)
    then show ?thesis
      using row kr by (auto simp: wf_rel_def row_at_put node_rel_refl)
  qed
  ultimately show ?thesis by (simp add: wf_good_def)
qed

lemma get_node_key: "get_node st i n = Some row \<Longrightarrow> node_key row = (i, n)"
  by (auto simp: get_node_def dest: row_at_Some)

lemma wf_inv_keyed: "wf_inv st \<Longrightarrow> keyed node_key (ws_nodes st)"
  by (simp add: wf_inv_def)

lemma try_transition_good:
  assumes inv: "wf_inv st" and between: "\<And>st. wf_inv st \<Longrightarrow> wf_good st (between st)"
  shows "wf_good st (fst (try_transition between now i n to a st))"
proof (cases "get_node st i n")
  case None
  with inv show ?thesis by (simp add: try_transition_def wf_good_refl)
next
  case (Some row)
  show ?thesis
  proof (cases "validate_node_transition (wn_state row) to = None \<and>
      (ta_require_claim a \<longrightarrow> blank (wn_claimed_by row) = ta_claimed_by a) \<and>
      (case ta_expected_from a of None \<Rightarrow> True | Some s \<Rightarrow> wn_state row = s)")
    case False
    then show ?thesis
      using inv Some by (auto simp: try_transition_def wf_good_refl split: option.splits)
  next
    case True
    let ?st1 = "between st"
    have g: "wf_good st ?st1" using inv by (rule between)
    obtain r where r: "row_at node_key (i, n) (ws_nodes ?st1) = Some r" "node_rel row r"
      using g Some unfolding wf_good_def wf_rel_def get_node_def by blast
    let ?u = "sql_update (\<lambda>r. node_key r = (i, n) \<and> wn_revision r = wn_revision row)
        (transition_values now a to row) (ws_nodes ?st1)"
    have u: "?u = (if wn_revision r = wn_revision row
        then (row_put node_key (i, n) (transition_values now a to row r) (ws_nodes ?st1), 1)
        else (ws_nodes ?st1, 0))"
      using sql_update_put [OF wf_inv_keyed [OF wf_good_inv [OF g]] r(1)] by simp
    have "fst (try_transition between now i n to a st) = (if wn_revision r = wn_revision row
        then add_event (transition_event a to row) (?st1\<lparr>ws_nodes :=
               row_put node_key (i, n) (transition_values now a to row r) (ws_nodes ?st1)\<rparr>)
        else ?st1)"
      using True Some u by (auto simp: try_transition_def Let_def split: option.splits)
    moreover have "wf_good ?st1 (add_event (transition_event a to row) (?st1\<lparr>ws_nodes :=
               row_put node_key (i, n) (transition_values now a to row r) (ws_nodes ?st1)\<rparr>))"
      if "wn_revision r = wn_revision row"
      using that True r get_node_key [OF Some]
      by (intro cas_step_good [OF wf_good_inv [OF g] r(1)]) (auto simp: node_rel_def validate_None)
    ultimately show ?thesis
      using g by (auto intro: wf_good_trans)
  qed
qed

lemma attempt_loop_good:
  assumes env: "wf_env_ok env"
  shows "wf_inv st \<Longrightarrow> wf_good st (fst (attempt_loop busy env now i n to a k j st))"
proof (induction k arbitrary: j st)
  case 0
  then show ?case by (simp add: wf_good_refl)
next
  case (Suc k)
  show ?case
  proof (cases "busy j")
    case True
    with Suc show ?thesis by (simp add: wf_good_refl)
  next
    case False
    obtain st1 r where t: "try_transition (env (3 * j + 1)) now i n to a (env (3 * j) st) = (st1, r)"
      by force
    have g0: "wf_good st (env (3 * j) st)" by (rule wf_env_good [OF env Suc.prems])
    have "wf_good (env (3 * j) st) st1"
      using try_transition_good [OF wf_good_inv [OF g0], of "env (3 * j + 1)" now i n to a]
        wf_env_good [OF env] t by simp
    then have g1: "wf_good st st1" by (rule wf_good_trans [OF g0])
    have g2: "wf_good st (env (3 * j + 2) st1)" by (rule wf_good_env [OF env g1])
    have g3: "wf_good st (fst (attempt_loop busy env now i n to a k (Suc j) (env (3 * j + 2) st1)))"
      using g2 Suc.IH [OF wf_good_inv [OF g2]] by (rule wf_good_trans)
    show ?thesis
      using False t g1 g2 g3 by (simp add: Let_def split: option.split)
  qed
qed

lemma transition_node_good:
  assumes "wf_inv st" and "wf_env_ok env"
  shows "wf_good st (fst (transition_node busy env now i n to a st))"
  using assms attempt_loop_good [OF assms(2,1)]
  by (simp add: transition_node_def wf_good_refl split: option.split del: attempt_loop.simps)

section \<open>The other operations\<close>

lemma cas_instance_good: "wf_inv st \<Longrightarrow> wf_good st (fst (cas_instance i v f st))"
  by (simp add: cas_instance_def case_prod_unfold Let_def instances_good)

lemma update_instance_good:
  assumes inv: "wf_inv st" and env: "wf_env_ok env"
  shows "wf_good st (fst (update_instance busy env now i o_s ver fs st))"
proof -
  have g: "wf_good st (env 0 st)" by (rule wf_env_good [OF env inv])
  have c: "wf_good st (fst (cas_instance i v f (env 0 st)))" for v f
    using g cas_instance_good [OF wf_good_inv [OF g]] by (rule wf_good_trans)
  then have "wf_good st (env 1 (fst (cas_instance i v f (env 0 st))))" for v f
    by (rule wf_good_env [OF env])
  with g c inv show ?thesis
    by (auto simp: update_instance_def Let_def case_prod_unfold wf_good_refl split: option.split)
qed

lemma acquire_run_lease_good:
  assumes inv: "wf_inv st" and env: "wf_env_ok env"
  shows "wf_good st (fst (acquire_run_lease busy env now i o_s token ttl st))"
proof -
  have g: "wf_good st (env 0 st)" by (rule wf_env_good [OF env inv])
  have c: "wf_good st (fst (cas_instance i v f (env 0 st)))" for v f
    using g cas_instance_good [OF wf_good_inv [OF g]] by (rule wf_good_trans)
  have "wf_good st (env 1 (env 0 st))" by (rule wf_good_env [OF env g])
  with g c inv show ?thesis
    by (auto simp: acquire_run_lease_def Let_def case_prod_unfold wf_good_refl split: option.split)
qed

lemma release_run_lease_good:
  "wf_inv st \<Longrightarrow> wf_good st (fst (release_run_lease busy now i o_s token st))"
  by (simp add: release_run_lease_def case_prod_unfold Let_def instances_good wf_good_refl)

lemma heartbeat_node_good:
  "wf_inv st \<Longrightarrow> wf_good st (fst (heartbeat_node busy now i n token ttl st))"
  by (simp add: heartbeat_node_def case_prod_unfold Let_def wf_good_refl)
     (intro impI side_update_good, simp_all add: side_columns_def node_key_def)

lemma clear_node_cancel_good: "wf_inv st \<Longrightarrow> wf_good st (fst (clear_node_cancel now i n st))"
  by (simp add: clear_node_cancel_def case_prod_unfold Let_def)
     (intro side_update_good, simp_all add: side_columns_def node_key_def)

lemma flag_node_good: "wf_inv (fst acc) \<Longrightarrow> wf_good (fst acc) (fst (flag_node now i nid acc))"
  by (simp add: flag_node_def case_prod_unfold Let_def)
     (intro side_update_good, simp_all add: side_columns_def node_key_def)

lemma fold_good:
  assumes "\<And>x s. wf_inv (p s) \<Longrightarrow> wf_good (p s) (p (f x s))" and "wf_inv (p s)"
  shows "wf_good (p s) (p (fold f xs s))"
  using assms(2)
proof (induction xs arbitrary: s)
  case Nil
  then show ?case by (simp add: wf_good_refl)
next
  case (Cons x xs)
  have g: "wf_good (p s) (p (f x s))" by (rule assms(1) [OF Cons.prems])
  from g Cons.IH [OF wf_good_inv [OF g]] show ?case by (simp add: wf_good_trans)
qed

lemma request_node_cancel_good:
  assumes inv: "wf_inv st"
  shows "wf_good st (fst (request_node_cancel now i ids actor st))"
proof -
  let ?wanted = "List.map (take 64) (filter (\<lambda>n. n \<noteq> []) ids)"
  obtain st1 out where f: "fold (flag_node now i) ?wanted (st, []) = (st1, out)" by force
  have g: "wf_good st st1"
    using fold_good [of fst "flag_node now i" "(st, [])" ?wanted] flag_node_good inv f by simp
  have "wf_good st1 (fold (\<lambda>nid. add_event (cancel_event i (instance_org st i) actor nid)) out st1)"
    using fold_good [of "\<lambda>s. s" "\<lambda>nid. add_event (cancel_event i (instance_org st i) actor nid)" st1 out]
      other_event_good wf_good_inv [OF g] by (simp add: cancel_event_def)
  with g have "wf_good st (fold (\<lambda>nid. add_event (cancel_event i (instance_org st i) actor nid)) out st1)"
    by (rule wf_good_trans)
  with inv f show ?thesis
    by (auto simp: request_node_cancel_def Let_def wf_good_refl)
qed

lemma append_event_good:
  "wf_inv st \<Longrightarrow> take 40 kind \<noteq> ''state_transition'' \<Longrightarrow>
   wf_good st (append_event i kind n reason actor attempt payload st)"
  unfolding append_event_def by (rule other_event_good) simp_all

lemma create_instance_good:
  assumes inv: "wf_inv st"
  shows "wf_good st (fst (create_instance dflt admit i now a st))"
proof (cases "snd (create_instance dflt admit i now a st)")
  case (Inl e)
  with inv show ?thesis
    by (auto simp: create_instance_def Let_def wf_good_refl split: if_splits)
next
  case (Inr x)
  let ?org = "if truthy (ca_org_id a) then or_else (ca_org_id a) [] else dflt"
  let ?rows = "List.map (new_node_row i ?org now) (take MAX_INSTANCE_NODES (ca_node_ids a))"
  let ?st = "st\<lparr>ws_instances := ws_instances st @ [new_instance_row i ?org now a],
                 ws_nodes := ws_nodes st @ ?rows\<rparr>"
  have st: "fst (create_instance dflt admit i now a st) = ?st"
    and k: "keyed node_key (ws_nodes st @ ?rows)"
    using Inr by (auto simp: create_instance_def Let_def split: if_splits)
  have ev: "node_events ?st k = node_events st k" for k
    by (simp add: node_events_def)
  have "node_events st (node_key r) = []" if "r \<in> set ?rows" for r
  proof -
    have "node_key r \<notin> node_key ` set (ws_nodes st)"
      using k that by (auto simp: keyed_def)
    then have "\<forall>e \<in> set (ws_events st). \<not> (we_kind e = ''state_transition'' \<and>
        (we_instance_id e, we_node_id e) = node_key r)"
      using inv unfolding wf_inv_def events_anchored_def by metis
    then show ?thesis
      by (simp add: node_events_def filter_empty_conv)
  qed
  then have "node_ok ?st r" if "r \<in> set ?rows" for r
    using that ev by (auto simp: node_ok_def history_ok_def new_node_row_def)
  then have "wf_inv ?st"
    using inv k ev by (auto simp: wf_inv_def node_ok_def events_anchored_def event_ids_ok_def)
  moreover have "row_at node_key q (ws_nodes st @ ?rows) = Some r"
    if "row_at node_key q (ws_nodes st) = Some r" for q r
    using that by (rule row_at_append)
  ultimately have "wf_good st ?st"
    by (auto simp: wf_good_def wf_rel_def node_rel_refl)
  with st show ?thesis by simp
qed

end
