(* ===== verification/Workflow_Recovery.thy ===== *)
theory Workflow_Recovery
  imports Workflow_Invariant Workflow_Graph
begin

text \<open>
  The two drivers of the workflow store that move nodes on their own: the recovery sweep
  (\<open>recovery.py\<close>) and the application of changes (\<open>recompute.py\<close>). Every store call is a step
  with its own world: which attempts find the database locked and what others commit meanwhile.
  The package registry's optional flags and the fingerprint of a change set are arguments;
  exceptions (which a sweep counts and skips), worker-registry hygiene and explanation texts
  are not modelled.
\<close>

type_synonym wf_world = "nat \<Rightarrow> (nat \<Rightarrow> bool) \<times> wf_env"

definition calm :: wf_world where
  "calm k = ((\<lambda>i. False), wf_idle)"

definition plain_args :: "string \<Rightarrow> string \<Rightarrow> transition_args" where
  "plain_args reason event =
     \<lparr>ta_expected_from = None, ta_reason = reason, ta_event = event, ta_claim = False,
      ta_claimed_by = [], ta_require_claim = False, ta_patch = no_patch, ta_complete = False,
      ta_lease_ttl = None\<rparr>"

definition move_node ::
  "wf_world \<Rightarrow> nat \<Rightarrow> time \<Rightarrow> string \<Rightarrow> string \<Rightarrow> string \<Rightarrow> string \<Rightarrow> string \<Rightarrow> wf_store \<Rightarrow> wf_store \<times> bool" where
  "move_node w k now instance_id nid to_state reason event st =
     (let (st', r) = transition_node (fst (w k)) (snd (w k)) now instance_id nid to_state
            (plain_args reason event) st
      in (st', rs_ok r))"

text \<open>A loop of moves; \<open>after\<close> is what follows a successful one, the count is of those.\<close>

fun move_nodes ::
  "wf_world \<Rightarrow> nat \<Rightarrow> time \<Rightarrow> string \<Rightarrow> string \<Rightarrow> string \<Rightarrow> string \<Rightarrow>
   (string \<Rightarrow> wf_store \<Rightarrow> wf_store) \<Rightarrow> string list \<Rightarrow> wf_store \<Rightarrow> wf_store \<times> string list" where
  "move_nodes w k now instance_id to_state reason event after [] st = (st, [])"
| "move_nodes w k now instance_id to_state reason event after (nid # nids) st =
     (let (st1, done) = move_node w k now instance_id nid to_state reason event st;
          st2 = (if done then after nid st1 else st1);
          (st3, moved_ids) = move_nodes w (Suc k) now instance_id to_state reason event after nids st2
      in (st3, if done then nid # moved_ids else moved_ids))"

section \<open>Recovery\<close>

definition decided_states :: "string list" where
  "decided_states = [N_SUCCEEDED, N_FAILED, N_SKIPPED, N_CANCELLED]"

definition consume_cancel :: "wf_world \<Rightarrow> time \<Rightarrow> string \<Rightarrow> wf_store \<Rightarrow> wf_store \<times> nat" where
  "consume_cancel w now instance_id st =
     (let states = get_node_states st instance_id;
          todo = List.map fst (filter (\<lambda>(nid, s). s \<notin> set decided_states) states);
          (st1, moved_ids) = move_nodes w 0 now instance_id N_CANCELLED ''RECOVERY_CANCEL'' ''recovery''
             (\<lambda>nid st. st) todo st;
          cancelled = length moved_ids;
          k = length todo
      in case get_instance st1 instance_id None None of
           None \<Rightarrow> (st1, cancelled)
         | Some fresh \<Rightarrow>
             if wi_status fresh = I_RUNNING then
               let (st2, updated) = update_instance (fst (w k) 0) (snd (w k)) now instance_id None
                      (Some (wi_revision fresh))
                      (no_fields\<lparr>ip_status := Some I_CANCELLED, ip_terminal_at := Some (Some now),
                                 ip_error_code := Some (Some ''RECOVERY_CANCELLED'')\<rparr>) st1
               in (if updated \<noteq> None
                   then append_event instance_id ''recovery_finalize'' [] ''CANCEL_CONVERGED'' ''recovery'' 0
                          [(''cancelled_nodes'', PInt (int cancelled))] st2
                   else st2, cancelled)
             else (st1, cancelled))"

definition reset_orphans :: "wf_world \<Rightarrow> time \<Rightarrow> string \<Rightarrow> wf_store \<Rightarrow> wf_store \<times> nat" where
  "reset_orphans w now instance_id st =
     (let orphans = find_orphan_running_nodes now instance_id [] st;
          (st1, moved_ids) = move_nodes w 0 now instance_id N_READY ''ORPHAN_LEASE_EXPIRED'' ''recovery''
             (\<lambda>nid. append_event instance_id ''recovery_orphan_reset'' nid ''ORPHAN_LEASE_EXPIRED''
                ''recovery'' 0 []) orphans st
      in (st1, length moved_ids))"

definition consume_node_cancels :: "wf_world \<Rightarrow> time \<Rightarrow> string \<Rightarrow> wf_store \<Rightarrow> wf_store \<times> nat" where
  "consume_node_cancels w now instance_id st =
     (let flags = get_node_cancel_flags st instance_id;
          states = get_node_states st instance_id;
          todo = filter (\<lambda>nid. case map_of states nid of None \<Rightarrow> False
                    | Some s \<Rightarrow> s \<notin> set (N_RUNNING # decided_states)) flags;
          (st1, moved_ids) = move_nodes w 0 now instance_id N_CANCELLED ''NODE_CANCELLED'' ''recovery''
             (\<lambda>nid st. st) todo st
      in (st1, length moved_ids))"

definition finalize_if_decided ::
  "(wf_instance \<Rightarrow> (string \<times> bool) list) \<Rightarrow> wf_world \<Rightarrow> time \<Rightarrow> string \<Rightarrow> wf_store \<Rightarrow> wf_store \<times> nat" where
  "finalize_if_decided optional_of w now instance_id st =
     (case get_instance st instance_id None None of
        None \<Rightarrow> (st, 0)
      | Some inst \<Rightarrow>
          if wi_status inst \<noteq> I_RUNNING then (st, 0)
          else
            let states = get_node_states st instance_id;
                decided = filter (\<lambda>(nid, s). s \<in> set decided_states) states
            in if states = [] \<or> length decided < 1 \<or> length decided \<noteq> length states then (st, 0)
               else
                 let status = instance_status_from_nodes states (optional_of inst);
                     failed = List.map fst (filter (\<lambda>(nid, s). s \<in> set [N_FAILED, N_BLOCKED]) states);
                     fs = no_fields\<lparr>ip_status := Some status, ip_terminal_at := Some (Some now)\<rparr>;
                     fs' = (if status = I_FAILED
                            then fs\<lparr>ip_error_code := Some (Some ''NODES_INCOMPLETE''),
                                    ip_error_detail := Some (Some (take 255 (join '','' (take 6 failed))))\<rparr>
                            else fs);
                     (st1, updated) = update_instance (fst (w 0) 0) (snd (w 0)) now instance_id None
                        (Some (wi_revision inst)) fs' st
                 in if updated \<noteq> None
                    then (append_event instance_id ''recovery_finalize'' [] ''CRASH_BEFORE_FINALIZE''
                            ''recovery'' 0 [(''status'', PStr status)] st1, 1)
                    else (st1, 0))"

record recovery_report =
  rr_scanned :: nat
  rr_cancelled :: nat
  rr_orphan_reset :: nat
  rr_finalized :: nat

definition empty_report :: recovery_report where
  "empty_report = \<lparr>rr_scanned = 0, rr_cancelled = 0, rr_orphan_reset = 0, rr_finalized = 0\<rparr>"

definition SWEEP_BATCH :: int where "SWEEP_BATCH = 16"

text \<open>The four phases of one instance have worlds of their own: \<open>ws 0\<close> to \<open>ws 3\<close>.\<close>

definition sweep_instance ::
  "(wf_instance \<Rightarrow> (string \<times> bool) list) \<Rightarrow> (nat \<Rightarrow> wf_world) \<Rightarrow> time \<Rightarrow> wf_instance \<Rightarrow>
   wf_store \<times> recovery_report \<Rightarrow> wf_store \<times> recovery_report" where
  "sweep_instance optional_of ws now inst acc =
     (let (st, report) = acc;
          i = wi_instance_id inst;
          report = report\<lparr>rr_scanned := rr_scanned report + 1\<rparr>
      in if wi_cancel_requested inst then
           let (st1, n) = consume_cancel (ws 0) now i st
           in (st1, report\<lparr>rr_cancelled := rr_cancelled report + n\<rparr>)
         else
           let (st1, n1) = reset_orphans (ws 1) now i st;
               (st2, n2) = consume_node_cancels (ws 2) now i st1;
               (st3, n3) = finalize_if_decided optional_of (ws 3) now i st2
           in (st3, report\<lparr>rr_orphan_reset := rr_orphan_reset report + n1 + n2,
                           rr_finalized := rr_finalized report + n3\<rparr>))"

definition sweep_recoverable ::
  "(wf_instance \<Rightarrow> (string \<times> bool) list) \<Rightarrow> (string \<Rightarrow> nat \<Rightarrow> wf_world) \<Rightarrow> time \<Rightarrow> int \<Rightarrow> int \<Rightarrow> wf_store \<Rightarrow>
   wf_store \<times> recovery_report" where
  "sweep_recoverable optional_of ws now ttl batch st =
     fold (\<lambda>inst. sweep_instance optional_of (ws (wi_instance_id inst)) now inst)
       (list_recoverable_instances now ttl batch st) (st, empty_report)"

section \<open>Applying changes\<close>

datatype change_result =
    Refused string
  | Deferred nat
  | Applied recompute_decision recompute_plan

definition pending_to_workflow_changes :: "pending_change list \<Rightarrow> workflow_change list" where
  "pending_to_workflow_changes changes =
     List.map (\<lambda>c. \<lparr>ch_dimension = pc_dimension c, ch_target_kind = pc_target_kind c,
        ch_target = pc_target c, ch_detail = (if pc_detail c \<noteq> [] then pc_detail c else pc_source c)\<rparr>)
       (take MAX_APPLY_CHANGES changes)"

definition plan_for_changes :: "workflow_dag \<Rightarrow> pending_change list \<Rightarrow> recompute_plan" where
  "plan_for_changes dag changes = compute_affected_subgraph dag (pending_to_workflow_changes changes)"

definition is_style_only :: "recompute_plan \<Rightarrow> bool" where
  "is_style_only plan = (pl_dimensions plan = [''style''])"

fun defer_loop ::
  "wf_world \<Rightarrow> time \<Rightarrow> string \<Rightarrow> string \<Rightarrow> pending_change list \<Rightarrow> string \<Rightarrow> nat \<Rightarrow> nat \<Rightarrow> wf_instance \<Rightarrow>
   wf_store \<Rightarrow> wf_store \<times> change_result" where
  "defer_loop w now instance_id owner_scope changes source 0 k inst st = (st, Refused ''cas_conflict'')"
| "defer_loop w now instance_id owner_scope changes source (Suc n) k inst st =
     (if length (wi_pending_changes inst) + length changes > MAX_PENDING_CHANGES
      then (st, Refused ''pending_full'')
      else
        let pending = wi_pending_changes inst @
               List.map (\<lambda>c. (bounded_change c)\<lparr>pc_source := source\<rparr>) changes;
            (st1, updated) = update_instance (fst (w k) 0) (snd (w k)) now instance_id
               (Some owner_scope) (Some (wi_revision inst))
               (no_fields\<lparr>ip_pending_changes := Some pending\<rparr>) st
        in if updated \<noteq> None then (st1, Deferred (length pending))
           else case get_instance st1 instance_id (Some owner_scope) None of
             None \<Rightarrow> (st1, Refused ''not_found'')
           | Some fresh \<Rightarrow> defer_loop w now instance_id owner_scope changes source n (Suc k) fresh st1)"

fun append_decision ::
  "wf_world \<Rightarrow> time \<Rightarrow> string \<Rightarrow> string \<Rightarrow> recompute_decision \<Rightarrow> nat \<Rightarrow> nat \<Rightarrow> wf_instance \<Rightarrow> wf_store \<Rightarrow>
   wf_store" where
  "append_decision w now instance_id owner_scope d 0 k inst st = st"
| "append_decision w now instance_id owner_scope d (Suc n) k inst st =
     (let payload = (bounded_decision d)\<lparr>rd_seq :=
             foldr max (List.map rd_seq (wi_decisions inst)) 0 + 1\<rparr>;
          (st1, updated) = update_instance (fst (w k) 0) (snd (w k)) now instance_id
             (Some owner_scope) (Some (wi_revision inst))
             (no_fields\<lparr>ip_decisions := Some (take_last MAX_INSTANCE_DECISIONS
                (wi_decisions inst @ [payload]))\<rparr>) st
      in if updated \<noteq> None then st1
         else case get_instance st1 instance_id (Some owner_scope) None of
           None \<Rightarrow> st1
         | Some fresh \<Rightarrow> append_decision w now instance_id owner_scope d n (Suc k) fresh st1)"

definition markable_states :: "string list" where
  "markable_states = [N_SUCCEEDED, N_READY, N_STALE]"

text \<open>\<open>w\<close> are the worlds of the marking moves, \<open>w'\<close> those of the instance update that follows.\<close>

definition apply_changes ::
  "(pending_change list \<Rightarrow> string) \<Rightarrow> wf_world \<Rightarrow> wf_world \<Rightarrow> time \<Rightarrow> string \<Rightarrow> string \<Rightarrow> workflow_dag \<Rightarrow>
   pending_change list \<Rightarrow> int \<Rightarrow> string \<Rightarrow> wf_store \<Rightarrow> wf_store \<times> change_result" where
  "apply_changes fp w w' now instance_id owner_scope dag changes seq_no source st =
     (case get_instance st instance_id (Some owner_scope) None of
        None \<Rightarrow> (st, Refused ''not_found'')
      | Some inst \<Rightarrow>
          let states = get_node_states st instance_id
          in if list_ex (\<lambda>(n, s). s = N_RUNNING) states
             then defer_loop w' now instance_id owner_scope changes source 3 0 inst st
             else if length changes > MAX_APPLY_CHANGES then (st, Refused ''too_many_changes'')
             else
               let plan = plan_for_changes dag changes;
                   style_only = is_style_only plan;
                   todo = (if style_only then []
                     else filter (\<lambda>nid. case map_of states nid of None \<Rightarrow> False
                            | Some s \<Rightarrow> s \<in> set markable_states) (pl_recompute plan));
                   (st1, marked) = move_nodes w 0 now instance_id N_STALE
                      (''RECOMPUTE_SEED:'' @ (case pl_dimensions plan of d # ds \<Rightarrow> take 24 d | [] \<Rightarrow> []))
                      ''apply_changes'' (\<lambda>nid st. st) todo st;
                   decision = \<lparr>rd_seq = seq_no, rd_changes_fp = fp changes,
                      rd_dimensions = pl_dimensions plan, rd_marked_stale = marked,
                      rd_reuse_resolved = [], rd_recomputed = [], rd_reused = [],
                      rd_style_only = style_only\<rparr>
               in (append_decision w' now instance_id owner_scope decision 3 0 inst st1,
                   Applied (bounded_decision decision) plan))"

definition drain_pending ::
  "(pending_change list \<Rightarrow> string) \<Rightarrow> wf_world \<Rightarrow> wf_world \<Rightarrow> wf_world \<Rightarrow> time \<Rightarrow> string \<Rightarrow> string \<Rightarrow>
   workflow_dag \<Rightarrow> wf_store \<Rightarrow> wf_store \<times> change_result option" where
  "drain_pending fp v w w' now instance_id owner_scope dag st =
     (case get_instance st instance_id (Some owner_scope) None of
        None \<Rightarrow> (st, None)
      | Some inst \<Rightarrow>
          if wi_pending_changes inst = [] \<or>
             list_ex (\<lambda>(n, s). s = N_RUNNING) (get_node_states st instance_id)
          then (st, None)
          else
            let (st1, cleared) = update_instance (fst (v 0) 0) (snd (v 0)) now instance_id
                   (Some owner_scope) (Some (wi_revision inst))
                   (no_fields\<lparr>ip_pending_changes := Some []\<rparr>) st
            in if cleared = None then (st1, None)
               else
                 let (st2, r) = apply_changes fp w w' now instance_id owner_scope dag
                        (wi_pending_changes inst) (int (length (wi_decisions inst)) + 1) ''deferred'' st1
                 in (st2, Some r))"

end
