(* ===== verification/Workflow_Properties.thy ===== *)
theory Workflow_Properties
  imports Workflow_Recovery Lease_Lock
begin

text \<open>
  The properties of the workflow store and its drivers: the journal over arbitrary runs, what a
  reported transition means, claims and fencing, exclusion of the run lease, what a recovery
  sweep and an applied change do to each node.
\<close>

section \<open>Runs\<close>

datatype wf_op =
    W_create string "wf_store \<Rightarrow> string \<Rightarrow> bool" string time create_args
  | W_move "nat \<Rightarrow> bool" wf_env time string string string transition_args
  | W_update bool wf_env time string "string option" "int option" instance_patch
  | W_acquire bool wf_env time string string string int
  | W_release bool time string string string
  | W_heartbeat bool time string string string int
  | W_cancel_nodes time string "string list" string
  | W_clear_cancel time string string
  | W_append string string string string string int "(string \<times> pyval) list"
  | W_sweep "wf_instance \<Rightarrow> (string \<times> bool) list" "string \<Rightarrow> nat \<Rightarrow> wf_world" time int int
  | W_apply "pending_change list \<Rightarrow> string" wf_world wf_world time string string workflow_dag
      "pending_change list" int string
  | W_drain "pending_change list \<Rightarrow> string" wf_world wf_world wf_world time string string workflow_dag

fun wf_step :: "wf_store \<Rightarrow> wf_op \<Rightarrow> wf_store" where
  "wf_step st (W_create d admit i now a) = fst (create_instance d admit i now a st)"
| "wf_step st (W_move busy env now i n to a) = fst (transition_node busy env now i n to a st)"
| "wf_step st (W_update busy env now i o_s v fs) = fst (update_instance busy env now i o_s v fs st)"
| "wf_step st (W_acquire busy env now i o_s tok ttl) = fst (acquire_run_lease busy env now i o_s tok ttl st)"
| "wf_step st (W_release busy now i o_s tok) = fst (release_run_lease busy now i o_s tok st)"
| "wf_step st (W_heartbeat busy now i n tok ttl) = fst (heartbeat_node busy now i n tok ttl st)"
| "wf_step st (W_cancel_nodes now i ns actor) = fst (request_node_cancel now i ns actor st)"
| "wf_step st (W_clear_cancel now i n) = fst (clear_node_cancel now i n st)"
| "wf_step st (W_append i kind n reason actor k p) = append_event i kind n reason actor k p st"
| "wf_step st (W_sweep opt ws now ttl batch) = fst (sweep_recoverable opt ws now ttl batch st)"
| "wf_step st (W_apply fp w w' now i o_s dag cs q src) = fst (apply_changes fp w w' now i o_s dag cs q src st)"
| "wf_step st (W_drain fp v w w' now i o_s dag) = fst (drain_pending fp v w w' now i o_s dag st)"

definition world_ok :: "wf_world \<Rightarrow> bool" where
  "world_ok w = (\<forall>k. wf_env_ok (snd (w k)))"

text \<open>Journal rows of kind \<open>state_transition\<close> are written by transitions only.\<close>

fun wf_op_ok :: "wf_op \<Rightarrow> bool" where
  "wf_op_ok (W_move busy env now i n to a) = wf_env_ok env"
| "wf_op_ok (W_update busy env now i o_s v fs) = wf_env_ok env"
| "wf_op_ok (W_acquire busy env now i o_s tok ttl) = wf_env_ok env"
| "wf_op_ok (W_append i kind n reason actor k p) = (take 40 kind \<noteq> ''state_transition'')"
| "wf_op_ok (W_sweep opt ws now ttl batch) = (\<forall>i k. world_ok (ws i k))"
| "wf_op_ok (W_apply fp w w' now i o_s dag cs q src) = (world_ok w \<and> world_ok w')"
| "wf_op_ok (W_drain fp v w w' now i o_s dag) = (world_ok v \<and> world_ok w \<and> world_ok w')"
| "wf_op_ok _ = True"

lemma move_node_good:
  "wf_inv st \<Longrightarrow> world_ok w \<Longrightarrow> wf_good st (fst (move_node w k now i n to reason event st))"
  by (simp add: move_node_def case_prod_unfold Let_def transition_node_good world_ok_def)

lemma move_nodes_good:
  assumes w: "world_ok w" and after: "\<And>nid st. wf_inv st \<Longrightarrow> wf_good st (after nid st)"
  shows "wf_inv st \<Longrightarrow> wf_good st (fst (move_nodes w k now i to reason event after nids st))"
proof (induction nids arbitrary: k st)
  case Nil
  then show ?case by (simp add: wf_good_refl)
next
  case (Cons n ns)
  obtain st1 d where m: "move_node w k now i n to reason event st = (st1, d)" by force
  have g1: "wf_good st st1"
    using move_node_good [OF Cons.prems w, of k now i n to reason event] m by simp
  let ?st2 = "if d then after n st1 else st1"
  have g2: "wf_good st ?st2"
    using wf_good_trans [OF g1 after [OF wf_good_inv [OF g1], of n]] g1 by auto
  have "wf_good st (fst (move_nodes w (Suc k) now i to reason event after ns ?st2))"
    using g2 Cons.IH [OF wf_good_inv [OF g2]] by (rule wf_good_trans)
  then show ?case by (cases d) (simp_all add: m Let_def case_prod_unfold)
qed

lemma world_env: "world_ok w \<Longrightarrow> wf_env_ok (snd (w k))"
  by (simp add: world_ok_def)

lemma consume_cancel_good:
  assumes inv: "wf_inv st" and w: "world_ok w"
  shows "wf_good st (fst (consume_cancel w now i st))"
proof -
  let ?st1 = "\<lambda>ns. fst (move_nodes w 0 now i N_CANCELLED ''RECOVERY_CANCEL'' ''recovery'' (\<lambda>nid st. st) ns st)"
  have g: "wf_good st (?st1 ns)" for ns
    by (rule move_nodes_good [OF w wf_good_refl inv])
  have u: "wf_good st (fst (update_instance b (snd (w k)) now i None v fs (?st1 ns)))" for b k v fs ns
    using g update_instance_good [OF wf_good_inv [OF g] world_env [OF w]] by (rule wf_good_trans)
  have "wf_good st (append_event i ''recovery_finalize'' [] reason actor q p
      (fst (update_instance b (snd (w k)) now i None v fs (?st1 ns))))" for reason actor q p b k v fs ns
    by (rule wf_good_trans [OF u append_event_good [OF wf_good_inv [OF u]]]) simp
  with g u show ?thesis
    by (simp add: consume_cancel_def Let_def case_prod_unfold split: option.split)
qed

lemma reset_orphans_good:
  assumes "wf_inv st" and "world_ok w"
  shows "wf_good st (fst (reset_orphans w now i st))"
  unfolding reset_orphans_def Let_def case_prod_unfold fst_conv
  by (rule move_nodes_good [OF assms(2) append_event_good assms(1)]) simp_all

lemma consume_node_cancels_good:
  assumes "wf_inv st" and "world_ok w"
  shows "wf_good st (fst (consume_node_cancels w now i st))"
  unfolding consume_node_cancels_def Let_def case_prod_unfold fst_conv
  by (rule move_nodes_good [OF assms(2) wf_good_refl assms(1)])

lemma finalize_good:
  assumes inv: "wf_inv st" and w: "world_ok w"
  shows "wf_good st (fst (finalize_if_decided opt w now i st))"
proof -
  have u: "wf_good st (fst (update_instance b (snd (w 0)) now i None v fs st))" for b v fs
    by (rule update_instance_good [OF inv world_env [OF w]])
  have "wf_good st (append_event i ''recovery_finalize'' [] reason actor q p
      (fst (update_instance b (snd (w 0)) now i None v fs st)))" for reason actor q p b v fs
    by (rule wf_good_trans [OF u append_event_good [OF wf_good_inv [OF u]]]) simp
  with u inv show ?thesis
    by (simp add: finalize_if_decided_def Let_def case_prod_unfold wf_good_refl split: option.split)
qed

lemma sweep_instance_good:
  assumes inv: "wf_inv (fst acc)" and w: "\<And>k. world_ok (ws k)"
  shows "wf_good (fst acc) (fst (sweep_instance opt ws now inst acc))"
proof -
  let ?i = "wi_instance_id inst"
  have g1: "wf_good (fst acc) (fst (reset_orphans (ws 1) now ?i (fst acc)))"
    by (rule reset_orphans_good [OF inv w])
  have g2: "wf_good (fst acc) (fst (consume_node_cancels (ws 2) now ?i
      (fst (reset_orphans (ws 1) now ?i (fst acc)))))"
    using g1 consume_node_cancels_good [OF wf_good_inv [OF g1] w] by (rule wf_good_trans)
  have g3: "wf_good (fst acc) (fst (finalize_if_decided opt (ws 3) now ?i
      (fst (consume_node_cancels (ws 2) now ?i (fst (reset_orphans (ws 1) now ?i (fst acc)))))))"
    using g2 finalize_good [OF wf_good_inv [OF g2] w] by (rule wf_good_trans)
  show ?thesis
    using g3 consume_cancel_good [OF inv w]
    by (simp add: sweep_instance_def Let_def case_prod_unfold)
qed

lemma sweep_good:
  assumes "wf_inv st" and "\<And>i k. world_ok (ws i k)"
  shows "wf_good st (fst (sweep_recoverable opt ws now ttl batch st))"
  unfolding sweep_recoverable_def
  using fold_good [of fst "\<lambda>inst. sweep_instance opt (ws (wi_instance_id inst)) now inst"
      "(st, empty_report)"] sweep_instance_good assms
  by simp

lemma defer_loop_good:
  "world_ok w \<Longrightarrow> wf_inv st \<Longrightarrow> wf_good st (fst (defer_loop w now i o_s cs src n k inst st))"
proof (induction n arbitrary: k inst st)
  case 0
  then show ?case by (simp add: wf_good_refl)
next
  case (Suc n)
  have u: "wf_good st (fst (update_instance b (snd (w k)) now i o_s' v fs st))" for b o_s' v fs
    by (rule update_instance_good [OF Suc.prems(2) world_env [OF Suc.prems(1)]])
  have "wf_good st (fst (defer_loop w now i o_s cs src n (Suc k) x
      (fst (update_instance b (snd (w k)) now i o_s' v fs st))))" for x b o_s' v fs
    using u Suc.IH [OF Suc.prems(1) wf_good_inv [OF u]] by (rule wf_good_trans)
  with u Suc.prems show ?case
    by (simp add: Let_def case_prod_unfold wf_good_refl split: option.split)
qed

lemma append_decision_good:
  "world_ok w \<Longrightarrow> wf_inv st \<Longrightarrow> wf_good st (append_decision w now i o_s d n k inst st)"
proof (induction n arbitrary: k inst st)
  case 0
  then show ?case by (simp add: wf_good_refl)
next
  case (Suc n)
  have u: "wf_good st (fst (update_instance b (snd (w k)) now i o_s' v fs st))" for b o_s' v fs
    by (rule update_instance_good [OF Suc.prems(2) world_env [OF Suc.prems(1)]])
  have "wf_good st (append_decision w now i o_s d n (Suc k) x
      (fst (update_instance b (snd (w k)) now i o_s' v fs st)))" for x b o_s' v fs
    using u Suc.IH [OF Suc.prems(1) wf_good_inv [OF u]] by (rule wf_good_trans)
  with u show ?case
    by (simp add: Let_def case_prod_unfold split: option.split)
qed

lemma apply_changes_good:
  assumes inv: "wf_inv st" and w: "world_ok w" "world_ok w'"
  shows "wf_good st (fst (apply_changes fp w w' now i o_s dag cs q src st))"
proof -
  have m: "wf_good st (fst (move_nodes w 0 now i to reason event (\<lambda>nid st. st) ns st))" for to reason event ns
    by (rule move_nodes_good [OF w(1) wf_good_refl inv])
  have "wf_good st (append_decision w' now i o_s d n k inst
      (fst (move_nodes w 0 now i to reason event (\<lambda>nid st. st) ns st)))" for d n k inst to reason event ns
    using m append_decision_good [OF w(2) wf_good_inv [OF m]] by (rule wf_good_trans)
  then show ?thesis
    using inv defer_loop_good [OF w(2) inv]
    by (simp add: apply_changes_def Let_def case_prod_unfold wf_good_refl
        del: defer_loop.simps append_decision.simps move_nodes.simps split: option.split)
qed

lemma drain_pending_good:
  assumes inv: "wf_inv st" and w: "world_ok v" "world_ok w" "world_ok w'"
  shows "wf_good st (fst (drain_pending fp v w w' now i o_s dag st))"
proof -
  have u: "wf_good st (fst (update_instance b (snd (v 0)) now i o_s' ver fs st))" for b o_s' ver fs
    by (rule update_instance_good [OF inv world_env [OF w(1)]])
  have "wf_good st (fst (apply_changes fp w w' now i o_s dag cs q src
      (fst (update_instance b (snd (v 0)) now i o_s' ver fs st))))" for cs q src b o_s' ver fs
    using u apply_changes_good [OF wf_good_inv [OF u] w(2,3)] by (rule wf_good_trans)
  with u inv show ?thesis
    by (simp add: drain_pending_def Let_def case_prod_unfold wf_good_refl split: option.split)
qed

lemma wf_step_good: "wf_op_ok x \<Longrightarrow> wf_inv st \<Longrightarrow> wf_good st (wf_step st x)"
  by (cases x)
     (simp_all add: create_instance_good transition_node_good update_instance_good
       acquire_run_lease_good release_run_lease_good heartbeat_node_good request_node_cancel_good
       clear_node_cancel_good append_event_good sweep_good apply_changes_good drain_pending_good)

interpretation wf_runs: op_system_rel wf_step wf_inv wf_op_ok wf_rel
  by unfold_locales
     (auto intro: wf_rel_refl wf_rel_trans dest: wf_step_good simp: wf_good_def)

text \<open>
  C15. The journal tells the truth: after any run of store operations, recovery sweeps and change
  applications, with any history-keeping transactions of others in between, the transition
  events of every node, in order, form a path of legal transitions from PENDING to the state the
  node is in, each starting where the one before ended, and the node's revision is one plus
  their number.
\<close>

theorem journal_is_history:
  assumes "list_all wf_op_ok ops" and "wf_inv st" and "r \<in> set (ws_nodes (run_ops wf_step st ops))"
  shows "let es = node_events (run_ops wf_step st ops) (node_key r)
    in path (dict_items LEGAL_TRANSITIONS) ''PENDING'' (List.map we_to es) \<and>
       List.map we_from es = butlast (''PENDING'' # List.map we_to es) \<and>
       wn_state r = last (''PENDING'' # List.map we_to es) \<and> wn_revision r = 1 + int (length es)"
proof -
  have "wf_inv (run_ops wf_step st ops)"
    using assms(1,2) by (rule wf_runs.run_inv)
  with assms(3) show ?thesis
    by (simp add: wf_inv_def node_ok_def history_ok_def Let_def)
qed

text \<open>
  Nothing is rewritten: along a run the journal only grows at its end, no node disappears,
  revisions never fall and change whenever the state does, and a cancelled node stays cancelled
  for ever.
\<close>

theorem workflow_runs_forward:
  assumes "list_all wf_op_ok xs" and "list_all wf_op_ok ys" and "wf_inv st"
    and "get_node (run_ops wf_step st xs) i n = Some r"
  shows "prefix (ws_events (run_ops wf_step st xs)) (ws_events (run_ops wf_step st (xs @ ys))) \<and>
    (\<exists>r'. get_node (run_ops wf_step st (xs @ ys)) i n = Some r' \<and> wn_revision r \<le> wn_revision r' \<and>
      (wn_revision r' = wn_revision r \<longrightarrow> wn_state r' = wn_state r) \<and>
      (wn_state r = ''CANCELLED'' \<longrightarrow> wn_state r' = ''CANCELLED''))"
  using wf_runs.run_between [OF assms(1-3)] assms(4)
  unfolding wf_rel_def get_node_def node_rel_def by blast

section \<open>The run lease\<close>

definition run_lease :: "string \<Rightarrow> string \<Rightarrow> wf_store \<Rightarrow> (string \<times> time) option" where
  "run_lease i o_s st = (case get_instance st i (Some o_s) None of
     None \<Rightarrow> None
   | Some r \<Rightarrow> (case (wi_run_lease_owner r, wi_run_lease_expires_at r) of
        (Some h, Some e) \<Rightarrow> Some (h, e) | _ \<Rightarrow> None))"

definition instances_keyed :: "wf_store \<Rightarrow> bool" where
  "instances_keyed st = keyed wi_instance_id (ws_instances st)"

lemma get_instance_keyed:
  assumes "instances_keyed st" and "get_instance st i (Some o_s) None = Some r"
  shows "row_at wi_instance_id i (ws_instances st) = Some r" "wi_owner_scope r = o_s" "wi_instance_id r = i"
  using assms row_at_keyed [of wi_instance_id "ws_instances st" r]
  by (auto simp: get_instance_def instances_keyed_def dest: sql_first_Some)

lemma get_instance_row:
  assumes "instances_keyed st"
  shows "get_instance st i (Some o_s) None =
    (case row_at wi_instance_id i (ws_instances st) of None \<Rightarrow> None
     | Some r \<Rightarrow> if wi_owner_scope r = o_s then Some r else None)"
proof (cases "get_instance st i (Some o_s) None")
  case (Some r)
  with get_instance_keyed [OF assms Some] show ?thesis by simp
next
  case None
  then show ?thesis
    by (auto simp: get_instance_def sql_first_None dest: row_at_Some split: option.split)
qed

lemma cas_instance_row:
  assumes "instances_keyed st" and "row_at wi_instance_id i (ws_instances st) = Some r"
    and "wi_instance_id (f r) = i"
  shows "cas_instance i v f st = (if wi_revision r = v
     then (st\<lparr>ws_instances := row_put wi_instance_id i (f r) (ws_instances st)\<rparr>, 1) else (st, 0))"
  using sql_update_put [of wi_instance_id "ws_instances st" i r "\<lambda>r. wi_revision r = v" f] assms
  by (simp add: cas_instance_def instances_keyed_def)

lemma wf_idle_simp: "wf_idle k st = st"
  by (simp add: wf_idle_def)

interpretation run_locks: lease_lock
  "\<lambda>t tok ttl. acquire_run_lease False wf_idle t i o_s tok ttl"
  "\<lambda>t tok. release_run_lease False t i o_s tok"
  "run_lease i o_s" "\<lambda>tok. length tok \<le> 64" instances_keyed for i o_s
proof
  fix st tok t ttl st'
  assume k: "instances_keyed st" and tok: "length tok \<le> (64::nat)"
    and a: "acquire_run_lease False wf_idle t i o_s tok ttl st = (st', True)"
  obtain r where r: "get_instance st i (Some o_s) None = Some r"
    using a by (auto simp: acquire_run_lease_def split: option.splits)
  note row = get_instance_keyed [OF k r]
  let ?f = "\<lambda>x. x\<lparr>wi_run_lease_owner := Some (take 64 tok),
       wi_run_lease_expires_at := Some (t + max 1000000 ttl),
       wi_revision := wi_revision r + 1, wi_updated_at := t\<rparr>"
  have "cas_instance i (wi_revision r) ?f st =
      (st\<lparr>ws_instances := row_put wi_instance_id i (?f r) (ws_instances st)\<rparr>, 1)"
    using cas_instance_row [OF k row(1), of ?f "wi_revision r"] row(3) by simp
  then have st': "st' = st\<lparr>ws_instances := row_put wi_instance_id i (?f r) (ws_instances st)\<rparr>"
    using a by (simp add: acquire_run_lease_def r Let_def wf_idle_simp split: if_splits)
  have k': "instances_keyed st'"
    using k row(3) by (simp add: instances_keyed_def st' keyed_put)
  have "get_instance st' i (Some o_s) None = Some (?f r)"
    unfolding get_instance_row [OF k'] using row by (simp add: st' row_at_put)
  with k' tok show "instances_keyed st' \<and> (\<exists>e. run_lease i o_s st' = Some (tok, e) \<and> t + ttl \<le> e)"
    by (simp add: run_lease_def)
next
  fix st h e t tok ttl
  assume "run_lease i o_s st = Some (h, e)" "t < e" "tok \<noteq> h"
  then show "acquire_run_lease False wf_idle t i o_s tok ttl st = (st, False)"
    by (auto simp: run_lease_def acquire_run_lease_def unexpired_def blank_def split: option.splits)
next
  fix st h e t and tok :: string
  assume k: "instances_keyed st" and l: "run_lease i o_s st = Some (h, e)" and tok: "length tok \<le> 64" "tok \<noteq> h"
  then obtain r where r: "get_instance st i (Some o_s) None = Some r" "wi_run_lease_owner r = Some h"
    by (auto simp: run_lease_def split: option.splits)
  have "sql_update (\<lambda>x. wi_instance_id x = i \<and> (wi_owner_scope x = o_s \<and>
          wi_run_lease_owner x = Some (take 64 tok)))
        (\<lambda>x. x\<lparr>wi_run_lease_owner := None, wi_run_lease_expires_at := None, wi_updated_at := t\<rparr>)
        (ws_instances st) = (ws_instances st, 0)"
    using sql_update_put [of wi_instance_id "ws_instances st" i r] k get_instance_keyed [OF k r(1)] r(2) tok
    by (simp add: instances_keyed_def)
  then show "release_run_lease False t i o_s tok st = (st, False)"
    by (simp add: release_run_lease_def)
qed

text \<open>
  C21. One driver at a time: once a driver took the run lease of an instance, no other token can
  take it or release it before its term is over, whatever the order and number of attempts; the
  store is left as it was.
\<close>

theorem run_lease_exclusive:
  assumes "instances_keyed st0" and "length h \<le> 64"
    and "acquire_run_lease False wf_idle t0 i o_s h ttl st0 = (st, True)"
    and "list_all (\<lambda>(t, x). t < t0 + ttl \<and> length (lease_op_token x) \<le> 64 \<and> lease_op_token x \<noteq> h) xs"
  shows "run_ops (run_locks.lease_step i o_s) (st, []) xs = (st, replicate (length xs) False)"
  using assms by (rule run_locks.exclusion)

section \<open>Transitions without interference\<close>

definition moved_store :: "time \<Rightarrow> transition_args \<Rightarrow> string \<Rightarrow> wf_node \<Rightarrow> wf_store \<Rightarrow> wf_store" where
  "moved_store now a to row st = add_event (transition_event a to row)
     (st\<lparr>ws_nodes := row_put node_key (node_key row) (transition_values now a to row row) (ws_nodes st)\<rparr>)"

lemma try_transition_calm:
  assumes "keyed node_key (ws_nodes st)" and "get_node st i n = Some row"
  shows "try_transition (wf_idle k) now i n to a st =
    (if ta_require_claim a \<and> blank (wn_claimed_by row) \<noteq> ta_claimed_by a
     then (st, result_of False ''CLAIM_MISMATCH'' (wn_state row) 0)
     else case validate_node_transition (wn_state row) to of
       Some illegal \<Rightarrow> (st, result_of False (reason_class illegal) (wn_state row) 0)
     | None \<Rightarrow> if (case ta_expected_from a of None \<Rightarrow> False | Some s \<Rightarrow> wn_state row \<noteq> s)
         then (st, result_of False ''CAS_CONFLICT'' (wn_state row) 0)
         else (moved_store now a to row st, result_of True ''OK'' to (wn_revision row + 1)))"
proof -
  have "sql_update (\<lambda>r. node_key r = (i, n) \<and> wn_revision r = wn_revision row)
      (transition_values now a to row) (ws_nodes st) =
      (row_put node_key (i, n) (transition_values now a to row row) (ws_nodes st), 1)"
    using sql_update_put [OF assms(1), of "(i, n)" row "\<lambda>r. wn_revision r = wn_revision row"
        "transition_values now a to row"] assms(2) by (simp add: get_node_def)
  then show ?thesis
    using get_node_key [OF assms(2)]
    by (simp add: try_transition_def assms(2) wf_idle_simp moved_store_def split: option.split)
qed

lemma reason_not_conflict:
  "validate_node_transition s t = Some why \<Longrightarrow> reason_class why \<noteq> ''CAS_CONFLICT''"
  by (drule validate_class) auto

lemma attempt_loop_same:
  assumes "\<And>k. try_transition (wf_idle k) now i n to a st = (st, result_of False ''CAS_CONFLICT'' s 0)"
    and "completion_check i n to a st = None" and "get_node st i n = Some row" and "wn_state row = s"
  shows "attempt_loop (\<lambda>j. False) wf_idle now i n to a m j st = (st, result_of False ''CAS_CONFLICT'' s 0)"
  by (induction m arbitrary: j) (simp_all add: assms wf_idle_simp result_of_def)

lemma transition_calm:
  assumes k: "keyed node_key (ws_nodes st)" and row: "get_node st i n = Some row"
  shows "transition_node (\<lambda>j. False) wf_idle now i n to a st =
    (if ta_complete a \<and> wn_state row = to
     then (st, if ta_require_claim a \<and> blank (wn_claimed_by row) \<noteq> ta_claimed_by a
               then result_of False ''CLAIM_MISMATCH'' to (wn_revision row)
               else result_of True ''OK_IDEMPOTENT'' to (wn_revision row))
     else try_transition (wf_idle 0) now i n to a st)"
proof (cases "ta_complete a \<and> wn_state row = to")
  case True
  then show ?thesis
    by (simp add: transition_node_def completion_check_def row)
next
  case False
  then have c: "completion_check i n to a st = None"
    by (auto simp: completion_check_def row)
  note calm = try_transition_calm [OF k row]
  show ?thesis
  proof (cases "rs_code (snd (try_transition (wf_idle 0) now i n to a st)) = ''CAS_CONFLICT''")
    case True
    then have t: "try_transition (wf_idle j) now i n to a st =
        (st, result_of False ''CAS_CONFLICT'' (wn_state row) 0)" for j
      by (auto simp: calm result_of_def dest: reason_not_conflict split: if_splits option.splits)
    show ?thesis
      using t c attempt_loop_same [OF t c row refl] unfolding if_not_P [OF False]
      by (simp add: transition_node_def del: attempt_loop.simps)
  next
    case conflict: False
    have "wf_idle (3 * 0) st = st" "wf_idle (3 * 0 + 1) = wf_idle 0"
      by (simp_all add: wf_idle_def fun_eq_iff)
    then show ?thesis
      using c conflict unfolding if_not_P [OF False]
      by (simp add: transition_node_def case_prod_unfold Let_def split: option.split)
  qed
qed

text \<open>
  What a transition does when nobody interferes, for a caller that completes a claimed node:
  if the node already is in the target state, nothing is written and the answer is
  \<open>OK_IDEMPOTENT\<close>; a caller whose token is not the claimant's gets \<open>CLAIM_MISMATCH\<close>; an illegal
  move is refused; in each refusal the store is untouched. Otherwise the node moves, its
  revision grows by one and one journal row is added.
\<close>

theorem completion_outcome:
  assumes k: "keyed node_key (ws_nodes st)" and row: "get_node st i n = Some row"
    and a: "ta_complete a" "ta_require_claim a" "ta_expected_from a = None"
  shows "transition_node (\<lambda>j. False) wf_idle now i n to a st =
    (if blank (wn_claimed_by row) \<noteq> ta_claimed_by a
     then (st, result_of False ''CLAIM_MISMATCH'' (wn_state row) (if wn_state row = to then wn_revision row else 0))
     else if wn_state row = to then (st, result_of True ''OK_IDEMPOTENT'' to (wn_revision row))
     else case validate_node_transition (wn_state row) to of
       Some illegal \<Rightarrow> (st, result_of False (reason_class illegal) (wn_state row) 0)
     | None \<Rightarrow> (moved_store now a to row st, result_of True ''OK'' to (wn_revision row + 1)))"
  unfolding transition_calm [OF k row] try_transition_calm [OF k row]
  using a by (simp split: option.split)

definition recorded ::
  "string \<Rightarrow> string \<Rightarrow> string \<Rightarrow> transition_args \<Rightarrow> wf_store \<Rightarrow> transition_result \<Rightarrow> bool" where
  "recorded i n to a st' r =
    (\<exists>x e. get_node st' i n = Some x \<and> wn_state x = to \<and> wn_revision x = rs_revision r \<and>
    (ta_claim a \<and> to = ''RUNNING'' \<longrightarrow> wn_claimed_by x = none_if_empty (take 64 (ta_claimed_by a))) \<and>
    last (ws_events st') = e \<and> we_kind e = ''state_transition'' \<and> we_to e = to \<and>
    (we_instance_id e, we_node_id e) = (i, n))"

lemma transition_claims:
  "ta_claim a \<Longrightarrow> wn_claimed_by (transition_values now a ''RUNNING'' row r) =
     none_if_empty (take 64 (ta_claimed_by a))"
  by (simp add: transition_values_def log_columns_def patch_columns_def release_columns_def
      claim_columns_def Let_def split: option.split)

lemma try_transition_recorded:
  assumes inv: "wf_inv st" and between: "\<And>s. wf_inv s \<Longrightarrow> wf_good s (between s)"
    and t: "try_transition between now i n to a st = (st', r)" "rs_code r = ''OK''"
  shows "recorded i n to a st' r"
proof -
  obtain row where row: "get_node st i n = Some row"
    using t by (auto simp: try_transition_def result_of_def split: option.splits)
  have key: "node_key row = (i, n)" by (rule get_node_key [OF row])
  have g: "wf_good st (between st)" by (rule between [OF inv])
  then obtain x where x: "row_at node_key (i, n) (ws_nodes (between st)) = Some x" "node_rel row x"
    using row unfolding wf_good_def wf_rel_def get_node_def by blast
  have xk: "node_key x = (i, n)" "x \<in> set (ws_nodes (between st))"
    using x by (auto dest: row_at_Some)
  have len: "length n \<le> 64"
    using wf_good_inv [OF g] xk by (auto simp: wf_inv_def node_ok_def node_key_def)
  let ?u = "sql_update (\<lambda>r. node_key r = (i, n) \<and> wn_revision r = wn_revision row)
      (transition_values now a to row) (ws_nodes (between st))"
  have u: "?u = (if wn_revision x = wn_revision row
      then (row_put node_key (i, n) (transition_values now a to row x) (ws_nodes (between st)), 1)
      else (ws_nodes (between st), 0))"
    using sql_update_put [OF wf_inv_keyed [OF wf_good_inv [OF g]] x(1)] by simp
  have legal: "validate_node_transition (wn_state row) to = None"
    using t row validate_class [of "wn_state row" to]
    by (auto simp: try_transition_def result_of_def split: option.splits if_splits)
  have eff: "wn_revision x = wn_revision row" "r = result_of True ''OK'' to (wn_revision row + 1)"
    "st' = add_event (transition_event a to row) (between st\<lparr>ws_nodes :=
        row_put node_key (i, n) (transition_values now a to row x) (ws_nodes (between st))\<rparr>)"
    using t row legal u
    by (auto simp: try_transition_def result_of_def Let_def split: option.splits if_splits)
  have "length to \<le> 16"
    using legal legal_lengths by (auto simp: validate_None)
  then have e: "we_kind (transition_event a to row) = ''state_transition''" "we_to (transition_event a to row) = to"
    "(we_instance_id (transition_event a to row), we_node_id (transition_event a to row)) = (i, n)"
    using key len by (auto simp: transition_event_def node_key_def)
  have "get_node st' i n = Some (transition_values now a to row x)"
    using eff(3) x(1) xk by (simp add: get_node_def row_at_put)
  then show ?thesis
    using eff(2) transition_claims [of a now row x] e
    by (auto simp: recorded_def result_of_def eff(3))
qed

text \<open>
  A transition that reports success took effect atomically with its journal row, whatever
  other transactions did between its statements: in the resulting store the node is in the
  target state with the reported revision, and the last journal row is this transition.
\<close>

theorem transition_ok_recorded:
  assumes inv: "wf_inv st" and env: "wf_env_ok env"
    and ok: "transition_node busy env now i n to a st = (st', r)" "rs_ok r" "rs_code r = ''OK''"
  shows "\<exists>x e. get_node st' i n = Some x \<and> wn_state x = to \<and> wn_revision x = rs_revision r \<and>
    (ta_claim a \<and> to = ''RUNNING'' \<longrightarrow> wn_claimed_by x = none_if_empty (take 64 (ta_claimed_by a))) \<and>
    last (ws_events st') = e \<and> we_kind e = ''state_transition'' \<and> we_to e = to \<and>
    (we_instance_id e, we_node_id e) = (i, n)"
proof -
  have tried: "recorded i n to a st1 r1"
    if t: "try_transition between now i n to a st0 = (st1, r1)" "rs_code r1 = ''OK''"
      and inv0: "wf_inv st0" and between: "\<And>s. wf_inv s \<Longrightarrow> wf_good s (between s)"
    for between st0 st1 r1
    by (rule try_transition_recorded [OF inv0 between t])
  have not_ok: "rs_code x \<noteq> ''OK''" if "completion_check i n to a s0 = Some x" for s0 x
    using that by (auto simp: completion_check_def result_of_def split: if_splits option.splits)
  have loop: "wf_inv st0 \<Longrightarrow> attempt_loop busy env now i n to a m j st0 = (st', r) \<Longrightarrow>
    recorded i n to a st' r" for m j st0
  proof (induction m arbitrary: j st0)
    case 0
    with ok(3) show ?case by (auto simp: result_of_def)
  next
    case (Suc m)
    show ?case
    proof (cases "busy j")
      case True
      with Suc ok(3) show ?thesis by (auto simp: result_of_def split: if_splits)
    next
      case False
      obtain st1 r1 where t: "try_transition (env (3 * j + 1)) now i n to a (env (3 * j) st0) = (st1, r1)"
        by force
      have inv0: "wf_inv (env (3 * j) st0)"
        by (rule wf_good_inv [OF wf_env_good [OF env Suc.prems(1)]])
      have inv2: "wf_inv (env (3 * j + 2) st1)"
        using try_transition_good [OF inv0, of "env (3 * j + 1)" now i n to a] wf_env_good [OF env] t
        by (metis fst_conv wf_good_inv)
      show ?thesis
      proof (cases "rs_code r1 = ''CAS_CONFLICT''")
        case True
        with Suc.prems(2) False t ok(3) Suc.IH [OF inv2, of "Suc j"] show ?thesis
          by (auto simp: Let_def dest: not_ok split: option.splits)
      next
        case conflict: False
        with Suc.prems(2) False t have "st1 = st'" "r1 = r" by simp_all
        with tried [OF t _ inv0] wf_env_good [OF env] ok(3) show ?thesis by blast
      qed
    qed
  qed
  have "completion_check i n to a st = None"
    using ok not_ok [of st r] by (auto simp: transition_node_def split: option.splits)
  with ok(1) loop [OF inv] have "recorded i n to a st' r"
    by (simp add: transition_node_def del: attempt_loop.simps)
  then show ?thesis by (simp add: recorded_def)
qed

section \<open>Recovery and change application, node by node\<close>

definition node_state :: "wf_store \<Rightarrow> string \<Rightarrow> string \<Rightarrow> string option" where
  "node_state st i n = map_option wn_state (get_node st i n)"

definition node_flag :: "wf_store \<Rightarrow> string \<Rightarrow> string \<Rightarrow> bool option" where
  "node_flag st i n = map_option wn_cancel_requested (get_node st i n)"

definition can_move :: "wf_store \<Rightarrow> string \<Rightarrow> string \<Rightarrow> string \<Rightarrow> bool" where
  "can_move st i to n = (case node_state st i n of None \<Rightarrow> False
     | Some s \<Rightarrow> to \<in> set (dict_items LEGAL_TRANSITIONS s))"

lemma calm_simps: "fst (calm k) = (\<lambda>j. False)" "snd (calm k) = wf_idle"
  by (simp_all add: calm_def)

lemma plain_simps [simp]:
  "\<not> ta_complete (plain_args reason event)" "\<not> ta_require_claim (plain_args reason event)"
  "ta_expected_from (plain_args reason event) = None"
  by (simp_all add: plain_args_def)

lemma move_node_calm:
  assumes k: "keyed node_key (ws_nodes st)"
  shows "move_node calm j now i n to reason event st =
    (if can_move st i to n
     then (moved_store now (plain_args reason event) to (the (get_node st i n)) st, True) else (st, False))"
proof (cases "get_node st i n")
  case None
  then have "try_transition (wf_idle 1) now i n to (plain_args reason event) st =
      (st, result_of False ''NO_SUCH_NODE'' [] 0)"
    by (simp add: try_transition_def)
  then have "transition_node (\<lambda>j. False) wf_idle now i n to (plain_args reason event) st =
      (st, result_of False ''NO_SUCH_NODE'' [] 0)"
    by (simp add: transition_node_def completion_check_def wf_idle_simp result_of_def)
  with None show ?thesis
    by (simp add: move_node_def calm_simps can_move_def node_state_def result_of_def)
next
  case (Some row)
  show ?thesis
    using transition_calm [OF k Some, of now to "plain_args reason event"]
      validate_None [of "wn_state row" to]
    by (simp add: move_node_def calm_simps try_transition_calm [OF k Some] can_move_def
        node_state_def Some result_of_def split: option.splits)
qed

lemma moved_store_state:
  assumes k: "keyed node_key (ws_nodes st)" and row: "get_node st i n = Some row"
  shows "node_state (moved_store now a to row st) j m = (if (j, m) = (i, n) then Some to else node_state st j m)"
    and "node_flag (moved_store now a to row st) j m = node_flag st j m"
    and "keyed node_key (ws_nodes (moved_store now a to row st))"
    and "ws_instances (moved_store now a to row st) = ws_instances st"
proof -
  have flag: "wn_cancel_requested (transition_values now a to row r) = wn_cancel_requested r" for r
    by (simp add: transition_values_def log_columns_def patch_columns_def release_columns_def
        claim_columns_def Let_def split: option.split)
  show "node_state (moved_store now a to row st) j m = (if (j, m) = (i, n) then Some to else node_state st j m)"
    "node_flag (moved_store now a to row st) j m = node_flag st j m"
    "keyed node_key (ws_nodes (moved_store now a to row st))"
    "ws_instances (moved_store now a to row st) = ws_instances st"
    using k row get_node_key [OF row]
    by (simp_all add: moved_store_def node_state_def node_flag_def get_node_def row_at_put keyed_put flag)
qed

lemma move_nodes_calm:
  assumes after: "\<And>n st. ws_nodes (after n st) = ws_nodes st" "\<And>n st. ws_instances (after n st) = ws_instances st"
  shows "keyed node_key (ws_nodes st) \<Longrightarrow> distinct nids \<Longrightarrow>
    move_nodes calm k now i to reason event after nids st = (st', ms) \<Longrightarrow>
    ms = filter (can_move st i to) nids \<and> keyed node_key (ws_nodes st') \<and>
    ws_instances st' = ws_instances st \<and>
    (\<forall>j m. node_state st' j m = (if j = i \<and> m \<in> set ms then Some to else node_state st j m)) \<and>
    (\<forall>j m. node_flag st' j m = node_flag st j m)"
proof (induction nids arbitrary: k st ms)
  case Nil
  then show ?case by simp
next
  case (Cons n ns)
  let ?st1 = "if can_move st i to n
      then after n (moved_store now (plain_args reason event) to (the (get_node st i n)) st) else st"
  obtain ms' where ms': "move_nodes calm (Suc k) now i to reason event after ns ?st1 = (st', ms')"
    and ms: "ms = (if can_move st i to n then n # ms' else ms')"
    using Cons.prems(1,3)
    by (auto simp: move_node_calm [OF Cons.prems(1)] Let_def split: if_splits prod.splits)
  have ns: "node_state (after n x) j m = node_state x j m" "node_flag (after n x) j m = node_flag x j m"
    for x j m
    by (simp_all add: node_state_def node_flag_def get_node_def after)
  have st1: "keyed node_key (ws_nodes ?st1) \<and> ws_instances ?st1 = ws_instances st \<and>
     (\<forall>j m. node_state ?st1 j m = (if can_move st i to n \<and> (j, m) = (i, n) then Some to else node_state st j m)) \<and>
     (\<forall>j m. node_flag ?st1 j m = node_flag st j m)"
  proof (cases "can_move st i to n")
    case True
    then obtain row where row: "get_node st i n = Some row"
      by (auto simp: can_move_def node_state_def split: option.splits)
    show ?thesis
      using moved_store_state [OF Cons.prems(1) row, of now "plain_args reason event" to]
      by (simp add: True row ns after)
  next
    case False
    then show ?thesis using Cons.prems(1) by simp
  qed
  then have same: "can_move ?st1 i to m = can_move st i to m" if "m \<noteq> n" for m
    using that by (simp add: can_move_def)
  have IH: "ms' = filter (can_move ?st1 i to) ns \<and> keyed node_key (ws_nodes st') \<and>
    ws_instances st' = ws_instances ?st1 \<and>
    (\<forall>j m. node_state st' j m = (if j = i \<and> m \<in> set ms' then Some to else node_state ?st1 j m)) \<and>
    (\<forall>j m. node_flag st' j m = node_flag ?st1 j m)"
    using Cons.IH [OF _ _ ms'] st1 Cons.prems(2) by simp
  have "filter (can_move ?st1 i to) ns = filter (can_move st i to) ns"
    using Cons.prems(2) by (intro filter_cong refl same) auto
  with IH st1 ms show ?case by auto
qed

lemma node_states_distinct:
  "keyed node_key (ws_nodes st) \<Longrightarrow> distinct (List.map fst (get_node_states st i))"
  by (auto simp: get_node_states_def sql_where_def keyed_def comp_def distinct_map node_key_def
      inj_on_def)

lemma node_states_lookup:
  assumes "keyed node_key (ws_nodes st)"
  shows "map_of (get_node_states st i) n = node_state st i n"
proof -
  have "map_of (List.map (\<lambda>r. (wn_node_id r, wn_state r)) (filter (\<lambda>r. wn_instance_id r = i) t)) n =
      map_option wn_state (row_at node_key (i, n) t)" for t
    by (induction t) (auto simp: node_key_def)
  then show ?thesis
    by (simp add: get_node_states_def sql_where_def node_state_def get_node_def)
qed

lemma node_states_member:
  assumes "keyed node_key (ws_nodes st)"
  shows "(n, s) \<in> set (get_node_states st i) \<longleftrightarrow> node_state st i n = Some s"
  using map_of_eq_Some_iff [OF node_states_distinct [OF assms, of i]]
  by (simp add: node_states_lookup [OF assms])

lemma get_instance_any:
  "get_instance st i None None = row_at wi_instance_id i (ws_instances st)"
  by (simp add: get_instance_def row_at_def)

lemma update_instance_calm:
  assumes k: "instances_keyed st" and r: "get_instance st i o_s None = Some r" and fs: "fs \<noteq> no_fields"
  shows "update_instance False wf_idle now i o_s (Some v) fs st =
    (if wi_revision r = v
     then let r' = (patch_instance fs r)\<lparr>wi_revision := v + 1, wi_updated_at := now\<rparr>
          in (st\<lparr>ws_instances := row_put wi_instance_id i r' (ws_instances st)\<rparr>, Some r')
     else (st, None))"
proof -
  have row: "row_at wi_instance_id i (ws_instances st) = Some r" and i: "wi_instance_id r = i"
    and o: "case o_s of None \<Rightarrow> True | Some o_x \<Rightarrow> wi_owner_scope r = o_x"
    using r get_instance_keyed [OF k, of i _ r]
    by (cases o_s; auto simp: get_instance_any dest: row_at_Some)+
  let ?f = "\<lambda>x. (patch_instance fs x)\<lparr>wi_revision := wi_revision r + 1, wi_updated_at := now\<rparr>"
  have f: "wi_instance_id (?f r) = i" "wi_owner_scope (?f r) = wi_owner_scope r"
    using i by (simp_all add: patch_instance_def)
  let ?st = "st\<lparr>ws_instances := row_put wi_instance_id i (?f r) (ws_instances st)\<rparr>"
  have k': "instances_keyed ?st"
    using k f by (simp add: instances_keyed_def keyed_put)
  have "get_instance ?st i o_s None = Some (?f r)"
  proof (cases o_s)
    case None
    then show ?thesis using row f by (simp add: get_instance_any row_at_put)
  next
    case (Some o_x)
    then show ?thesis using row f o by (simp add: get_instance_row [OF k'] row_at_put)
  qed
  note fresh = this
  have cas: "cas_instance i (wi_revision r) ?f st = (?st, 1)"
    using cas_instance_row [of st i r ?f "wi_revision r", OF k row f(1)] by simp
  show ?thesis
  proof (cases "wi_revision r = v")
    case True
    show ?thesis
      using fresh cas fs r unfolding True by (simp add: update_instance_def wf_idle_simp Let_def True)
  next
    case False
    then show ?thesis using fs r by (simp add: update_instance_def)
  qed
qed

lemma append_event_fields [simp]:
  "ws_nodes (append_event i kind n reason actor q p st) = ws_nodes st"
  "ws_instances (append_event i kind n reason actor q p st) = ws_instances st"
  by (simp_all add: append_event_def)

text \<open>
  What recovery does with a cancelled instance nobody drives: its running row becomes
  cancelled, and so does every node that was pending, ready or running. A blocked or stale node
  is left as it is (the state table has no way from these two to CANCELLED), so the instance
  ends cancelled with undecided nodes.
\<close>

theorem consume_cancel_effect:
  assumes k: "keyed node_key (ws_nodes st)" and ki: "instances_keyed st"
    and inst: "get_instance st i None None = Some inst" "wi_status inst = ''running''"
  shows "let st' = fst (consume_cancel calm now i st)
    in (\<exists>inst'. get_instance st' i None None = Some inst' \<and> wi_status inst' = ''cancelled'') \<and>
       (\<forall>n. node_state st' i n = (case node_state st i n of
           None \<Rightarrow> None
         | Some s \<Rightarrow> Some (if s \<in> {''PENDING'', ''READY'', ''RUNNING''} then ''CANCELLED'' else s)))"
proof -
  let ?todo = "List.map fst (filter (\<lambda>(nid, s). s \<notin> set decided_states) (get_node_states st i))"
  obtain st1 ms where m: "move_nodes calm 0 now i N_CANCELLED ''RECOVERY_CANCEL'' ''recovery'' (\<lambda>nid st. st)
     ?todo st = (st1, ms)" by force
  have "distinct ?todo"
    using node_states_distinct [OF k, of i] by (simp add: distinct_map_filter)
  from move_nodes_calm [OF _ _ k this m]
  have ms: "ms = filter (can_move st i N_CANCELLED) ?todo" and k1: "keyed node_key (ws_nodes st1)"
    and i1: "ws_instances st1 = ws_instances st"
    and s1: "\<And>n. node_state st1 i n = (if n \<in> set ms then Some N_CANCELLED else node_state st i n)"
    by auto
  have in_ms: "n \<in> set ms \<longleftrightarrow> (\<exists>s \<in> {N_PENDING, N_READY, N_RUNNING}. node_state st i n = Some s)" for n
    unfolding ms
    by (auto simp: node_states_member [OF k] image_iff can_move_def decided_states_def
        LEGAL_TRANSITIONS_def dict_items_def split: option.splits if_splits)
  have g1: "get_instance st1 i None None = Some inst" and ki1: "instances_keyed st1"
    using inst ki i1 by (simp_all add: get_instance_any instances_keyed_def)
  let ?fs = "no_fields\<lparr>ip_status := Some I_CANCELLED, ip_terminal_at := Some (Some now),
      ip_error_code := Some (Some ''RECOVERY_CANCELLED'')\<rparr>"
  let ?r = "(patch_instance ?fs inst)\<lparr>wi_revision := wi_revision inst + 1, wi_updated_at := now\<rparr>"
  have "?fs \<noteq> no_fields" by (simp add: no_fields_def)
  note u = update_instance_calm [OF ki1 g1 this, of now "wi_revision inst"]
  have id: "wi_instance_id ?r = i"
    using inst(1) by (auto simp: get_instance_any patch_instance_def dest: row_at_Some)
  have st': "fst (consume_cancel calm now i st) =
      append_event i ''recovery_finalize'' [] ''CANCEL_CONVERGED'' ''recovery'' 0
        [(''cancelled_nodes'', PInt (int (length ms)))]
        (st1\<lparr>ws_instances := row_put wi_instance_id i ?r (ws_instances st1)\<rparr>)"
    using u g1 inst(2) m by (simp add: consume_cancel_def calm_simps Let_def)
  show ?thesis
    unfolding Let_def st'
    using s1 in_ms g1 id
    by (auto simp: get_instance_any row_at_put node_state_def get_node_def patch_instance_def
        split: option.split)
qed

text \<open>The orphans of an instance that nobody drives: the RUNNING nodes without a live lease.\<close>

definition orphan_node :: "time \<Rightarrow> wf_store \<Rightarrow> string \<Rightarrow> string \<Rightarrow> bool" where
  "orphan_node now st i n = (case get_node st i n of
     None \<Rightarrow> False
   | Some r \<Rightarrow> wn_state r = N_RUNNING \<and> blank (wn_claimed_by r) \<noteq> [] \<and>
       \<not> unexpired now (wn_lease_expires_at r))"

lemma get_node_member:
  "keyed node_key (ws_nodes st) \<Longrightarrow>
   r \<in> set (ws_nodes st) \<and> wn_instance_id r = i \<and> wn_node_id r = n \<longleftrightarrow> get_node st i n = Some r"
  using row_at_keyed [of node_key "ws_nodes st" r] row_at_Some [of node_key "(i, n)" "ws_nodes st" r]
  by (auto simp: get_node_def node_key_def)

lemma orphans_member:
  assumes k: "keyed node_key (ws_nodes st)" and inst: "get_instance st i None None = Some inst"
    and run: "wi_status inst = I_RUNNING" "\<not> (unexpired now (wi_run_lease_expires_at inst) \<and> blank (wi_run_lease_owner inst) \<noteq> [])"
  shows "n \<in> set (find_orphan_running_nodes now i [] st) \<longleftrightarrow> orphan_node now st i n"
proof -
  note mem = get_node_member [OF k]
  have "n \<in> set (find_orphan_running_nodes now i [] st) \<longleftrightarrow>
      (\<exists>r. r \<in> set (ws_nodes st) \<and> wn_instance_id r = i \<and> wn_node_id r = n \<and> wn_state r = N_RUNNING \<and>
        blank (wn_claimed_by r) \<noteq> [] \<and> \<not> unexpired now (wn_lease_expires_at r))"
    using run by (auto simp: find_orphan_running_nodes_def inst sql_where_def unexpired_def image_iff
        split: option.splits; fastforce simp: not_less)
  also have "\<dots> \<longleftrightarrow> (\<exists>r. get_node st i n = Some r \<and> wn_state r = N_RUNNING \<and>
        blank (wn_claimed_by r) \<noteq> [] \<and> \<not> unexpired now (wn_lease_expires_at r))"
    using mem by blast
  finally show ?thesis
    by (simp add: orphan_node_def split: option.split)
qed

lemma orphans_distinct:
  "keyed node_key (ws_nodes st) \<Longrightarrow> distinct (find_orphan_running_nodes now i tok st)"
  by (auto simp: find_orphan_running_nodes_def sql_where_def keyed_def distinct_map node_key_def
      inj_on_def distinct_filter split: option.split)

lemma finalize_nodes: "ws_nodes (fst (finalize_if_decided opt w now i st)) = ws_nodes st" if "w = calm"
proof -
  have "ws_nodes (fst (update_instance False wf_idle now i None v fs st)) = ws_nodes st" for v fs
    by (auto simp: update_instance_def cas_instance_def case_prod_unfold Let_def wf_idle_simp
        split: option.split)
  then show ?thesis
    by (simp add: finalize_if_decided_def that calm_simps Let_def case_prod_unfold split: option.split)
qed

definition swept_state :: "bool \<Rightarrow> bool \<Rightarrow> string \<Rightarrow> string" where
  "swept_state orphan flagged s =
     (let s1 = (if orphan then N_READY else s)
      in if flagged \<and> s1 \<in> {N_PENDING, N_READY} then N_CANCELLED else s1)"

text \<open>
  What one recovery sweep does to an instance whose driver is gone (running, no live run
  lease, not cancelled), node by node: a RUNNING node that was claimed and has no live node
  lease goes back to READY; a node with a pending cancel request that is then PENDING or READY
  becomes CANCELLED; every other node keeps its state. A worker whose node lease is alive is
  never interrupted.
\<close>

theorem sweep_effect:
  assumes k: "keyed node_key (ws_nodes st)" and inst: "get_instance st i None None = Some inst"
    and run: "wi_status inst = ''running''" "\<not> wi_cancel_requested inst"
    and free: "\<not> unexpired now (wi_run_lease_expires_at inst)"
  shows "node_state (fst (sweep_instance opt (\<lambda>p. calm) now inst (st, rep))) i n =
    map_option (swept_state (orphan_node now st i n) (node_flag st i n = Some True)) (node_state st i n)"
proof -
  have id: "wi_instance_id inst = i" using inst by (auto simp: get_instance_any dest: row_at_Some)
  let ?orphans = "find_orphan_running_nodes now i [] st"
  obtain st1 ms1 where m1: "move_nodes calm 0 now i N_READY ''ORPHAN_LEASE_EXPIRED'' ''recovery''
     (\<lambda>nid. append_event i ''recovery_orphan_reset'' nid ''ORPHAN_LEASE_EXPIRED'' ''recovery'' 0 [])
     ?orphans st = (st1, ms1)" by force
  from move_nodes_calm [OF append_event_fields k orphans_distinct [OF k] m1]
  have ms1: "ms1 = filter (can_move st i N_READY) ?orphans" and k1: "keyed node_key (ws_nodes st1)"
    and s1: "\<And>m. node_state st1 i m = (if m \<in> set ms1 then Some N_READY else node_state st i m)"
    and f1: "\<And>m. node_flag st1 i m = node_flag st i m"
    by auto
  have o: "m \<in> set ms1 \<longleftrightarrow> orphan_node now st i m" for m
    using orphans_member [OF k inst run(1), of now m] free unfolding ms1
    by (auto simp: can_move_def node_state_def orphan_node_def split: option.splits)
  let ?todo = "filter (\<lambda>nid. case map_of (get_node_states st1 i) nid of None \<Rightarrow> False
      | Some s \<Rightarrow> s \<notin> set (N_RUNNING # decided_states)) (get_node_cancel_flags st1 i)"
  obtain st2 ms2 where m2: "move_nodes calm 0 now i N_CANCELLED ''NODE_CANCELLED'' ''recovery''
     (\<lambda>nid st. st) ?todo st1 = (st2, ms2)" by force
  have "distinct (get_node_cancel_flags st1 i)"
    using k1 by (auto simp: get_node_cancel_flags_def sql_where_def keyed_def distinct_map
        node_key_def inj_on_def)
  then have "distinct ?todo" by simp
  from move_nodes_calm [OF _ _ k1 this m2]
  have ms2: "ms2 = filter (can_move st1 i N_CANCELLED) ?todo"
    and s2: "\<And>m. node_state st2 i m = (if m \<in> set ms2 then Some N_CANCELLED else node_state st1 i m)"
    by auto
  have flag: "m \<in> set (get_node_cancel_flags st1 i) \<longleftrightarrow> node_flag st1 i m = Some True" for m
  proof -
    have "m \<in> set (get_node_cancel_flags st1 i) \<longleftrightarrow>
        (\<exists>r. (r \<in> set (ws_nodes st1) \<and> wn_instance_id r = i \<and> wn_node_id r = m) \<and> wn_cancel_requested r)"
      by (auto simp: get_node_cancel_flags_def sql_where_def image_iff)
    then show ?thesis by (simp only: get_node_member [OF k1]) (auto simp: node_flag_def)
  qed
  have c: "m \<in> set ms2 \<longleftrightarrow> node_flag st i m = Some True \<and>
      (\<exists>s \<in> {N_PENDING, N_READY}. node_state st1 i m = Some s)" for m
    unfolding ms2
    by (auto simp: flag f1 node_states_lookup [OF k1] can_move_def decided_states_def
        LEGAL_TRANSITIONS_def dict_items_def split: option.splits if_splits)
  have "ws_nodes (fst (sweep_instance opt (\<lambda>p. calm) now inst (st, rep))) = ws_nodes st2"
    using run(2) m1 m2 finalize_nodes [OF refl, of opt now i st2]
    by (simp add: sweep_instance_def reset_orphans_def consume_node_cancels_def id Let_def
        case_prod_unfold)
  then have "node_state (fst (sweep_instance opt (\<lambda>p. calm) now inst (st, rep))) i n = node_state st2 i n"
    by (simp add: node_state_def get_node_def)
  also have "\<dots> = (if node_flag st i n = Some True \<and> (\<exists>s \<in> {N_PENDING, N_READY}.
        (if orphan_node now st i n then Some N_READY else node_state st i n) = Some s)
      then Some N_CANCELLED else if orphan_node now st i n then Some N_READY else node_state st i n)"
    by (simp only: s2 c s1 o)
  also have "\<dots> = map_option (swept_state (orphan_node now st i n) (node_flag st i n = Some True)) (node_state st i n)"
  proof (cases "node_state st i n")
    case None
    then have "\<not> orphan_node now st i n"
      by (auto simp: orphan_node_def node_state_def split: option.splits)
    with None show ?thesis by simp
  next
    case (Some s)
    then show ?thesis by (simp add: swept_state_def) blast
  qed
  finally show ?thesis .
qed

text \<open>The states a change can invalidate: STALE itself is in the code's list but has no legal move.\<close>

definition invalidated :: "recompute_plan \<Rightarrow> string \<Rightarrow> string \<Rightarrow> bool" where
  "invalidated plan n s = (\<not> is_style_only plan \<and> n \<in> set (pl_recompute plan) \<and> s \<in> {N_SUCCEEDED, N_READY})"

lemma append_decision_nodes:
  "ws_nodes (append_decision calm now i o_s d m k inst st) = ws_nodes st"
proof (induction m arbitrary: k inst st)
  case (Suc m)
  have "ws_nodes (fst (update_instance False wf_idle now i x v fs st)) = ws_nodes st" for x v fs st
    by (auto simp: update_instance_def cas_instance_def case_prod_unfold Let_def wf_idle_simp
        split: option.split)
  with Suc show ?case
    by (simp add: Let_def case_prod_unfold calm_simps split: option.split)
qed simp

lemma defer_loop_nodes:
  "ws_nodes (fst (defer_loop calm now i o_s cs src m k inst st)) = ws_nodes st"
proof (induction m arbitrary: k inst st)
  case (Suc m)
  have "ws_nodes (fst (update_instance False wf_idle now i x v fs st)) = ws_nodes st" for x v fs st
    by (auto simp: update_instance_def cas_instance_def case_prod_unfold Let_def wf_idle_simp
        split: option.split)
  with Suc show ?case
    by (simp add: Let_def case_prod_unfold calm_simps split: option.split)
qed simp

text \<open>
  What applying a set of changes does to the nodes of an instance (at most 16 changes, no
  interference): while a node is RUNNING no node is touched at all (the changes are queued or
  refused); otherwise exactly the SUCCEEDED and READY nodes of the affected subgraph become
  STALE, none when the changes concern style only, and the decision lists those nodes. A node
  that already was STALE is not listed again.
\<close>

theorem apply_changes_effect:
  assumes k: "keyed node_key (ws_nodes st)"
    and inst: "get_instance st i (Some o_s) None = Some inst" and few: "length cs \<le> 16"
  shows "let (st', res) = apply_changes fp calm calm now i o_s dag cs q src st;
             plan = plan_for_changes dag cs;
             running = (\<exists>m. node_state st i m = Some ''RUNNING'')
    in (running \<longrightarrow> ws_nodes st' = ws_nodes st \<and> (\<forall>d p. res \<noteq> Applied d p)) \<and>
       (\<not> running \<longrightarrow>
          (\<forall>n. node_state st' i n = map_option (\<lambda>s. if invalidated plan n s then ''STALE'' else s) (node_state st i n)) \<and>
          (\<exists>d. res = Applied (bounded_decision d) plan \<and>
             (\<forall>n. n \<in> set (rd_marked_stale d) \<longleftrightarrow> (\<exists>s. node_state st i n = Some s \<and> invalidated plan n s))))"
proof -
  have run: "list_ex (\<lambda>(n, s). s = N_RUNNING) (get_node_states st i) \<longleftrightarrow> (\<exists>m. node_state st i m = Some N_RUNNING)"
    using node_states_member [OF k] by (auto simp: list_ex_iff)
  show ?thesis
  proof (cases "\<exists>m. node_state st i m = Some N_RUNNING")
    case True
    have "snd (defer_loop calm now i o_s cs src m j x s) \<noteq> Applied d p" for m j x s d p
      by (induction m arbitrary: j x s) (auto simp: Let_def case_prod_unfold split: option.split)
    with True run inst defer_loop_nodes [of now i o_s cs src 3 0 inst st] show ?thesis
      by (simp add: apply_changes_def case_prod_unfold Let_def del: defer_loop.simps)
  next
    case False
    let ?plan = "plan_for_changes dag cs"
    let ?states = "get_node_states st i"
    let ?todo = "if is_style_only ?plan then []
        else filter (\<lambda>nid. case map_of ?states nid of None \<Rightarrow> False | Some s \<Rightarrow> s \<in> set markable_states)
               (pl_recompute ?plan)"
    let ?reason = "''RECOMPUTE_SEED:'' @ (case pl_dimensions ?plan of d # ds \<Rightarrow> take 24 d | [] \<Rightarrow> [])"
    obtain st1 ms where m: "move_nodes calm 0 now i N_STALE ?reason ''apply_changes'' (\<lambda>nid st. st) ?todo st = (st1, ms)"
      by force
    have "distinct (pl_recompute ?plan)"
      by (simp add: plan_for_changes_def compute_affected_subgraph_def Let_def)
    then have "distinct ?todo" by simp
    from move_nodes_calm [OF _ _ k this m]
    have ms: "ms = filter (can_move st i N_STALE) ?todo"
      and s1: "\<And>m. node_state st1 i m = (if m \<in> set ms then Some N_STALE else node_state st i m)"
      by auto
    have in_ms: "n \<in> set ms \<longleftrightarrow> (\<exists>s. node_state st i n = Some s \<and> invalidated ?plan n s)" for n
      unfolding ms
      by (auto simp: node_states_lookup [OF k] can_move_def invalidated_def markable_states_def
          LEGAL_TRANSITIONS_def dict_items_def split: option.splits if_splits)
    let ?d = "\<lparr>rd_seq = q, rd_changes_fp = fp cs, rd_dimensions = pl_dimensions ?plan,
        rd_marked_stale = ms, rd_reuse_resolved = [], rd_recomputed = [], rd_reused = [],
        rd_style_only = is_style_only ?plan\<rparr>"
    have app: "apply_changes fp calm calm now i o_s dag cs q src st =
        (append_decision calm now i o_s ?d 3 0 inst st1, Applied (bounded_decision ?d) ?plan)"
      using False run inst few m
      by (simp add: apply_changes_def Let_def MAX_APPLY_CHANGES_def del: append_decision.simps)
    have st': "node_state (append_decision calm now i o_s ?d 3 0 inst st1) i n = node_state st1 i n" for n
      by (simp add: node_state_def get_node_def append_decision_nodes del: append_decision.simps)
    have states: "node_state st1 i n = map_option (\<lambda>s. if invalidated ?plan n s then N_STALE else s) (node_state st i n)" for n
      unfolding s1 in_ms by (cases "node_state st i n") auto
    have "\<forall>n. n \<in> set (rd_marked_stale ?d) \<longleftrightarrow> (\<exists>s. node_state st i n = Some s \<and> invalidated ?plan n s)"
      by (simp add: in_ms)
    then have "\<exists>d. Applied (bounded_decision ?d) ?plan = Applied (bounded_decision d) ?plan \<and>
        (\<forall>n. n \<in> set (rd_marked_stale d) \<longleftrightarrow> (\<exists>s. node_state st i n = Some s \<and> invalidated ?plan n s))"
      by blast
    with False show ?thesis
      unfolding Let_def app prod.case st' states by blast
  qed
qed

section \<open>Witnesses\<close>

definition empty_store :: wf_store where
  "empty_store = \<lparr>ws_instances = [], ws_nodes = [], ws_events = []\<rparr>"

definition sample_args :: create_args where
  "sample_args = \<lparr>ca_package_id = ''p'', ca_package_version = ''1'', ca_package_fingerprint = ''f'',
     ca_owner_scope = ''o'', ca_org_id = None, ca_session_id = [], ca_project_id = [],
     ca_parent_instance_id = [], ca_parent_node_id = [], ca_turn_id = [], ca_run_id = [],
     ca_node_ids = [''a'', ''b'']\<rparr>"

definition sample_create :: wf_op where
  "sample_create = W_create ''1'' (\<lambda>st g. True) ''wi'' 0 sample_args"

definition sample_inst :: wf_instance where
  "sample_inst = new_instance_row ''wi'' ''1'' 0 sample_args"

definition sample_store :: wf_store where
  "sample_store = \<lparr>ws_instances = [sample_inst],
     ws_nodes = [new_node_row ''wi'' ''1'' 0 ''a'', new_node_row ''wi'' ''1'' 0 ''b''], ws_events = []\<rparr>"

lemma empty_store_inv: "wf_inv empty_store"
  by (simp add: wf_inv_def empty_store_def keyed_def events_anchored_def event_ids_ok_def)

lemma sample_store_created: "run_ops wf_step empty_store [sample_create] = sample_store"
  by (simp add: sample_create_def create_instance_def sample_args_def empty_store_def sample_store_def
      sample_inst_def MAX_INSTANCE_NODES_def Let_def keyed_def node_key_def new_node_row_def)

lemma sample_store_inv: "wf_inv sample_store"
  using wf_runs.run_inv [of "[sample_create]" empty_store] sample_store_created empty_store_inv
  by (simp add: sample_create_def)

lemma sample_keyed: "keyed node_key (ws_nodes sample_store)" "instances_keyed sample_store"
  by (simp_all add: sample_store_def keyed_def node_key_def new_node_row_def instances_keyed_def)

lemma sample_node: "get_node sample_store ''wi'' ''a'' = Some (new_node_row ''wi'' ''1'' 0 ''a'')"
  by (simp add: get_node_def sample_store_def node_key_def new_node_row_def)

lemma sample_instance:
  "get_instance sample_store ''wi'' None None = Some sample_inst"
  "get_instance sample_store ''wi'' (Some ''o'') None = Some sample_inst"
  by (simp_all add: get_instance_def sample_store_def sample_inst_def new_instance_row_def sample_args_def)

lemma sample_states:
  "node_state sample_store ''wi'' n = (if n \<in> {''a'', ''b''} then Some N_PENDING else None)"
  by (simp add: node_state_def get_node_def sample_store_def node_key_def new_node_row_def)

lemma journal_is_history_witness:
  "path (dict_items LEGAL_TRANSITIONS) ''PENDING''
     (List.map we_to (node_events (run_ops wf_step empty_store [sample_create]) (''wi'', ''a'')))"
proof -
  let ?r = "new_node_row ''wi'' ''1'' 0 ''a''"
  have "?r \<in> set (ws_nodes (run_ops wf_step empty_store [sample_create]))"
    unfolding sample_store_created by (simp add: sample_store_def)
  moreover have "node_key ?r = (''wi'', ''a'')" by (simp add: node_key_def new_node_row_def)
  ultimately show ?thesis
    using journal_is_history [of "[sample_create]" empty_store ?r] empty_store_inv
    by (simp add: Let_def sample_create_def)
qed

lemma workflow_runs_forward_witness:
  "\<exists>r'. get_node (run_ops wf_step empty_store ([sample_create] @
      [W_cancel_nodes 1 ''wi'' [''a''] ''api''])) ''wi'' ''a'' = Some r' \<and> 1 \<le> wn_revision r'"
proof -
  let ?r = "new_node_row ''wi'' ''1'' 0 ''a''"
  have "get_node (run_ops wf_step empty_store [sample_create]) ''wi'' ''a'' = Some ?r"
    unfolding sample_store_created by (rule sample_node)
  from workflow_runs_forward [OF _ _ empty_store_inv this, of "[W_cancel_nodes 1 ''wi'' [''a''] ''api'']"]
  have "\<exists>r'. get_node (run_ops wf_step empty_store ([sample_create] @
      [W_cancel_nodes 1 ''wi'' [''a''] ''api''])) ''wi'' ''a'' = Some r' \<and> wn_revision ?r \<le> wn_revision r'"
    by (auto simp: sample_create_def)
  moreover have "wn_revision ?r = 1" by (simp add: new_node_row_def)
  ultimately show ?thesis by simp
qed

lemma run_lease_exclusive_witness:
  "let st = fst (acquire_run_lease False wf_idle 5 ''wi'' ''o'' ''t1'' 60000000 sample_store)
   in run_ops (run_locks.lease_step ''wi'' ''o'') (st, [])
        [(6, Take ''t2'' 1000000), (7, Give_back ''t2''), (60000004, Take ''t3'' 5)] =
      (st, [False, False, False])"
proof -
  obtain st where a: "acquire_run_lease False wf_idle 5 ''wi'' ''o'' ''t1'' 60000000 sample_store = (st, True)"
    using sample_instance
    by (simp add: acquire_run_lease_def sample_inst_def new_instance_row_def unexpired_def wf_idle_simp
        cas_instance_def sample_store_def sql_update_def)
  from run_lease_exclusive [OF sample_keyed(2) _ a,
      of "[(6, Take ''t2'' 1000000), (7, Give_back ''t2''), (60000004, Take ''t3'' 5)]"] a
  show ?thesis by (simp add: eval_nat_numeral)
qed

lemma completion_outcome_witness:
  "transition_node (\<lambda>j. False) wf_idle 9 ''wi'' ''a'' ''SUCCEEDED''
     ((plain_args [] [])\<lparr>ta_complete := True, ta_require_claim := True, ta_claimed_by := ''t''\<rparr>) sample_store =
   (sample_store, result_of False ''CLAIM_MISMATCH'' ''PENDING'' 0)"
  using completion_outcome [OF sample_keyed(1) sample_node, of
      "(plain_args [] [])\<lparr>ta_complete := True, ta_require_claim := True, ta_claimed_by := ''t''\<rparr>" 9 "''SUCCEEDED''"]
  by (simp add: plain_args_def new_node_row_def blank_def)

lemma transition_ok_recorded_witness:
  "\<exists>x. get_node (fst (transition_node (\<lambda>j. False) wf_idle 9 ''wi'' ''a'' ''READY'' (plain_args [] []) sample_store))
     ''wi'' ''a'' = Some x \<and> wn_state x = ''READY'' \<and> wn_revision x = 2"
proof -
  have "validate_node_transition N_PENDING N_READY = None"
    by (simp add: validate_None)
  then have "transition_node (\<lambda>j. False) wf_idle 9 ''wi'' ''a'' ''READY'' (plain_args [] []) sample_store =
      (moved_store 9 (plain_args [] []) ''READY'' (new_node_row ''wi'' ''1'' 0 ''a'') sample_store,
       result_of True ''OK'' ''READY'' 2)"
    using transition_calm [OF sample_keyed(1) sample_node, of 9 "''READY''" "plain_args [] []"]
      try_transition_calm [OF sample_keyed(1) sample_node, of 0 9 "''READY''" "plain_args [] []"]
    by (simp add: new_node_row_def)
  from transition_ok_recorded [OF sample_store_inv wf_env_ok_idle this] this show ?thesis
    by (auto simp: result_of_def)
qed

lemma consume_cancel_effect_witness:
  "node_state (fst (consume_cancel calm 9 ''wi'' sample_store)) ''wi'' ''b'' = Some ''CANCELLED''"
  using consume_cancel_effect [OF sample_keyed sample_instance(1), of 9]
  by (simp add: Let_def sample_states sample_inst_def new_instance_row_def)

lemma sweep_effect_witness:
  "node_state (fst (sweep_instance (\<lambda>i. []) (\<lambda>p. calm) 200000000 sample_inst (sample_store, empty_report)))
     ''wi'' ''a'' = Some ''PENDING''"
  using sweep_effect [OF sample_keyed(1) sample_instance(1), of 200000000 "\<lambda>i. []" empty_report "''a''"]
  by (simp add: sample_states sample_inst_def new_instance_row_def unexpired_def swept_state_def
      orphan_node_def sample_node node_flag_def new_node_row_def)

lemma apply_changes_effect_witness:
  "ws_nodes (fst (apply_changes (\<lambda>cs. []) calm calm 9 ''wi'' ''o''
      \<lparr>dg_nodes = [], dg_edges = []\<rparr> [] 1 ''api'' sample_store)) = ws_nodes sample_store \<or>
   node_state (fst (apply_changes (\<lambda>cs. []) calm calm 9 ''wi'' ''o''
      \<lparr>dg_nodes = [], dg_edges = []\<rparr> [] 1 ''api'' sample_store)) ''wi'' ''a'' = Some ''PENDING''"
  using apply_changes_effect [OF sample_keyed(1) sample_instance(2), of "[]" "\<lambda>cs. []" 9
      "\<lparr>dg_nodes = [], dg_edges = []\<rparr>" 1 "''api''"]
  by (simp add: Let_def case_prod_unfold sample_states invalidated_def)

end
