(* ===== verification/Kahn.thy ===== *)
theory Kahn
  imports Graph_Closure
begin

text \<open>
  Kahn's algorithm as the program writes it, twice: wave by wave over an execution plan
  (\<open>topo_wave_order\<close>) and with a queue over the steps of a plan (\<open>_topological_order\<close>). Both
  decrement the open-input counters of the dependents of the nodes they emit; \<open>release_dependents\<close> is that
  inner loop. \<open>kahn_inv\<close> is the invariant of both outer loops, \<open>kahn_step\<close> one turn of either.
\<close>

section \<open>The inner loop\<close>

abbreviation degree :: "('k \<times> int) list \<Rightarrow> 'k \<Rightarrow> int" where
  "degree deg k \<equiv> or_else (map_of deg k) 0"

fun release_dependents :: "'k list \<Rightarrow> ('k \<times> int) list \<Rightarrow> 'k list \<Rightarrow> ('k \<times> int) list \<times> 'k list" where
  "release_dependents [] deg out = (deg, out)"
| "release_dependents (d # ds) deg out =
     (let n = degree deg d - 1
      in release_dependents ds (AList.update d n deg) (if n = 0 then out @ [d] else out))"

lemma release_degree: "degree (fst (release_dependents ds deg out)) k = degree deg k - int (count_list ds k)"
  by (induction ds deg out rule: release_dependents.induct) (auto simp: Let_def dict_update_lookup)

lemma count_list_pos: "0 < count_list xs k \<longleftrightarrow> k \<in> set xs"
  by (induction xs) auto

lemma release_out:
  "k \<in> set (snd (release_dependents ds deg out)) \<longleftrightarrow>
     k \<in> set out \<or> 0 < degree deg k \<and> degree deg k \<le> int (count_list ds k)"
proof (induction ds deg out rule: release_dependents.induct)
  case (1 deg out)
  show ?case by auto
next
  case (2 d ds deg out)
  let ?n = "degree deg d - 1"
  have "k \<in> set (snd (release_dependents (d # ds) deg out)) \<longleftrightarrow>
      k \<in> set (if ?n = 0 then out @ [d] else out) \<or>
      0 < degree (AList.update d ?n deg) k \<and> degree (AList.update d ?n deg) k \<le> int (count_list ds k)"
    using 2 [OF refl] by (simp add: Let_def)
  also have "\<dots> \<longleftrightarrow> k \<in> set out \<or> 0 < degree deg k \<and> degree deg k \<le> int (count_list (d # ds) k)"
    by (cases "k = d"; cases "?n = 0") (auto simp: dict_update_lookup)
  finally show ?case .
qed

lemma release_distinct:
  "distinct out \<Longrightarrow> (\<And>k. k \<in> set out \<Longrightarrow> degree deg k \<le> 0) \<Longrightarrow> distinct (snd (release_dependents ds deg out))"
proof (induction ds deg out rule: release_dependents.induct)
  case (1 deg out)
  then show ?case by simp
next
  case (2 d ds deg out)
  let ?n = "degree deg d - 1"
  have "distinct (if ?n = 0 then out @ [d] else out)"
    using 2(2,3) by (auto dest: 2(3))
  moreover have "degree (AList.update d ?n deg) k \<le> 0"
    if "k \<in> set (if ?n = 0 then out @ [d] else out)" for k
    using that 2(3) [of k] by (auto simp: dict_update_lookup split: if_splits)
  ultimately show ?case
    using 2(1) [OF refl] by (simp add: Let_def)
qed

text \<open>Every node goes from waiting to released at most once: what makes the outer loops end.\<close>

definition waiting :: "('k \<times> int) list \<Rightarrow> nat" where
  "waiting deg = length (filter (\<lambda>p. 0 < snd p) deg)"

lemma waiting_update:
  "waiting (AList.update k n deg) + (if 0 < degree deg k then 1 else 0) =
   waiting deg + (if 0 < n then 1 else 0)"
  by (induction deg) (auto simp: waiting_def)

lemma release_waiting: "waiting (fst (release_dependents ds deg out)) + length (snd (release_dependents ds deg out)) = waiting deg + length out"
proof (induction ds deg out rule: release_dependents.induct)
  case (1 deg out)
  show ?case by simp
next
  case (2 d ds deg out)
  show ?case
    using 2 [OF refl] waiting_update [of d "degree deg d - 1" deg]
    by (auto simp: Let_def split: if_splits)
qed

section \<open>The outer loops\<close>

function waves :: "'k::linorder adjacency \<Rightarrow> ('k \<times> int) list \<Rightarrow> 'k list \<Rightarrow> 'k list list" where
  "waves dependents deg frontier =
     (if frontier = [] then []
      else let (deg', nxt) = release_dependents (concat (List.map (dict_items dependents) frontier)) deg []
           in frontier # waves dependents deg' (sort nxt))"
  by pat_completeness auto

termination
proof (relation "measure (\<lambda>(dependents, deg, frontier). waiting deg + length frontier)", goal_cases)
  case 1
  show ?case by simp
next
  case (2 dependents deg frontier x deg' nxt)
  have "waiting deg' + length nxt = waiting deg"
    using release_waiting [of "concat (List.map (dict_items dependents) frontier)" deg "[]"]
      2(2,3) by (metis fst_conv snd_conv add_0_right list.size(3))
  with 2(1) show ?case by simp
qed

declare waves.simps [simp del]

function queue_order :: "'k adjacency \<Rightarrow> ('k \<times> int) list \<Rightarrow> 'k list \<Rightarrow> 'k list" where
  "queue_order dependents deg [] = []"
| "queue_order dependents deg (k # queue) =
     (let (deg', new) = release_dependents (dict_items dependents k) deg []
      in k # queue_order dependents deg' (queue @ new))"
  by pat_completeness auto

termination
proof (relation "measure (\<lambda>(dependents, deg, queue). waiting deg + length queue)", goal_cases)
  case 1
  show ?case by simp
next
  case (2 dependents deg k queue x deg' new)
  have "waiting deg' + length new = waiting deg"
    using release_waiting [of "dict_items dependents k" deg "[]"] 2
    by (metis fst_conv snd_conv add_0_right list.size(3))
  then show ?case by simp
qed

section \<open>The invariant\<close>

definition open_inputs :: "('k \<Rightarrow> 'k list) \<Rightarrow> 'k set \<Rightarrow> 'k \<Rightarrow> nat" where
  "open_inputs ins P k = length (filter (\<lambda>s. s \<notin> P) (ins k))"

definition kahn_inv ::
  "('k \<Rightarrow> 'k list) \<Rightarrow> 'k set \<Rightarrow> 'k set \<Rightarrow> ('k \<times> int) list \<Rightarrow> 'k list \<Rightarrow> bool" where
  "kahn_inv ins ids P deg F =
     (distinct F \<and> P \<subseteq> ids \<and> (\<forall>k \<in> P. open_inputs ins P k = 0) \<and> (\<forall>k \<in> ids. degree deg k = int (open_inputs ins P k)) \<and>
      set F = {k \<in> ids. k \<notin> P \<and> open_inputs ins P k = 0})"

text \<open>\<open>dependents\<close> lists every node once for each of its inputs that is the given node.\<close>

definition dependents_ok :: "('k \<Rightarrow> 'k list) \<Rightarrow> 'k set \<Rightarrow> 'k adjacency \<Rightarrow> bool" where
  "dependents_ok ins ids dependents =
     (\<forall>a \<in> ids. \<forall>k. count_list (dict_items dependents a) k = (if k \<in> ids then count_list (ins k) a else 0))"

lemma count_concat: "count_list (concat xss) k = sum_list (List.map (\<lambda>xs. count_list xs k) xss)"
  by (induction xss) (auto simp: count_list_append)

lemma sum_list_swap:
  "sum_list (List.map (\<lambda>a. count_list xs a) B) = length (filter (\<lambda>s. s \<in> set B) xs)"
  if "distinct B"
proof (induction xs)
  case Nil
  show ?case by simp
next
  case (Cons x xs)
  have "sum_list (List.map (\<lambda>a. count_list (x # xs) a) B) =
      sum_list (List.map (\<lambda>a. (if x = a then 1 else 0) + count_list xs a) B)"
    by (rule arg_cong [where f = sum_list]) simp
  also have "\<dots> = sum_list (List.map (\<lambda>a. if x = a then 1 else 0) B) + sum_list (List.map (count_list xs) B)"
    by (simp add: sum_list_addf)
  also have "sum_list (List.map (\<lambda>a. if x = a then 1 else (0::nat)) B) = (if x \<in> set B then 1 else 0)"
    using that by (induction B) auto
  finally show ?case using Cons by simp
qed

lemma open_inputs_split:
  "open_inputs ins P k = open_inputs ins (P \<union> B) k + length (filter (\<lambda>s. s \<in> B) (ins k))"
  if "P \<inter> B = {}"
proof -
  have "length (filter (\<lambda>s. s \<notin> P) xs) =
      length (filter (\<lambda>s. s \<notin> P \<union> B) xs) + length (filter (\<lambda>s. s \<in> B) xs)" for xs
    using that by (induction xs) auto
  then show ?thesis by (simp add: open_inputs_def)
qed

lemma kahn_step:
  assumes inv: "kahn_inv ins ids P deg (B @ R)" and dep: "dependents_ok ins ids dependents"
    and rel: "release_dependents (concat (List.map (dict_items dependents) B)) deg [] = (deg', new)"
  shows "kahn_inv ins ids (P \<union> set B) deg' (R @ new)"
proof -
  let ?ds = "concat (List.map (dict_items dependents) B)"
  have B: "distinct B" "distinct R" "set B \<inter> set R = {}" "set B \<subseteq> ids" "P \<inter> set B = {}" "P \<subseteq> ids"
    and P: "\<And>k. k \<in> P \<Longrightarrow> open_inputs ins P k = 0"
    and deg: "\<And>k. k \<in> ids \<Longrightarrow> degree deg k = int (open_inputs ins P k)"
    and F: "set B \<union> set R = {k \<in> ids. k \<notin> P \<and> open_inputs ins P k = 0}"
    using inv by (auto simp: kahn_inv_def)
  have cnt: "count_list ?ds k = length (filter (\<lambda>s. s \<in> set B) (ins k))" if "k \<in> ids" for k
  proof -
    have "count_list ?ds k = sum_list (List.map (\<lambda>a. count_list (dict_items dependents a) k) B)"
      by (simp add: count_concat comp_def)
    also have "\<dots> = sum_list (List.map (\<lambda>a. count_list (ins k) a) B)"
      using dep that B(4) by (auto simp: dependents_ok_def intro!: arg_cong [where f = sum_list] map_cong)
    finally show ?thesis using sum_list_swap [OF B(1)] by simp
  qed
  have split: "open_inputs ins P k = open_inputs ins (P \<union> set B) k + length (filter (\<lambda>s. s \<in> set B) (ins k))" for k
    using B(5) by (rule open_inputs_split)
  have ds: "set ?ds \<subseteq> ids"
  proof
    fix k assume "k \<in> set ?ds"
    then obtain a where a: "a \<in> set B" "k \<in> set (dict_items dependents a)" by auto
    then have "0 < count_list (dict_items dependents a) k" by (simp add: count_list_pos)
    moreover have "a \<in> ids" using a(1) B(4) by auto
    ultimately show "k \<in> ids"
      using dep unfolding dependents_ok_def by (metis less_numeral_extra(3))
  qed
  have deg': "degree deg' k = int (open_inputs ins (P \<union> set B) k)" if "k \<in> ids" for k
    using release_degree [of ?ds deg "[]" k] rel deg [OF that] cnt [OF that] split [of k] by simp
  have new: "k \<in> set new \<longleftrightarrow> 0 < open_inputs ins P k \<and> open_inputs ins (P \<union> set B) k = 0"
    if "k \<in> ids" for k
    using release_out [of k ?ds deg "[]"] rel deg [OF that] cnt [OF that] split [of k] by auto
  have new_ids: "set new \<subseteq> ids"
  proof
    fix k assume "k \<in> set new"
    then have "0 < count_list ?ds k" using release_out [of k ?ds deg "[]"] rel by simp
    with ds show "k \<in> ids" by (auto simp only: count_list_pos)
  qed
  have P': "open_inputs ins (P \<union> set B) k = 0" if "k \<in> P \<union> set B \<union> set R" for k
  proof -
    from that F have "k \<in> P \<or> k \<in> {k \<in> ids. k \<notin> P \<and> open_inputs ins P k = 0}" by blast
    then have "open_inputs ins P k = 0" using P by blast
    with split [of k] show ?thesis by simp
  qed
  have F': "k \<in> set B \<or> k \<in> set R \<longleftrightarrow> k \<in> ids \<and> k \<notin> P \<and> open_inputs ins P k = 0" for k
    using F by blast
  have "k \<in> set R \<union> set new \<longleftrightarrow> k \<in> ids \<and> k \<notin> P \<union> set B \<and> open_inputs ins (P \<union> set B) k = 0" for k
  proof (cases "k \<in> ids")
    case False
    then show ?thesis using F' [of k] new_ids by blast
  next
    case True
    show ?thesis
    proof (cases "open_inputs ins P k = 0")
      case zero: True
      then have "k \<notin> set new" using new [OF True] by simp
      moreover have "open_inputs ins (P \<union> set B) k = 0" using zero split [of k] by simp
      moreover have "k \<in> set R \<longleftrightarrow> k \<notin> P \<and> k \<notin> set B"
        using F' [of k] True zero B(3) by blast
      ultimately show ?thesis using True by blast
    next
      case False
      then have "k \<notin> P \<and> k \<notin> set B \<and> k \<notin> set R" using P [of k] F' [of k] by auto
      then show ?thesis using new [OF True] True False by simp
    qed
  qed
  then have "set R \<union> set new = {k \<in> ids. k \<notin> P \<union> set B \<and> open_inputs ins (P \<union> set B) k = 0}"
    by blast
  moreover have "distinct new" using release_distinct [of "[]" deg ?ds] rel by simp
  moreover have "set R \<inter> set new = {}"
  proof -
    have "k \<notin> set new" if "k \<in> set R" for k
      using that F' [of k] new [of k] by simp
    then show ?thesis by blast
  qed
  moreover have "\<forall>k \<in> P \<union> set B. open_inputs ins (P \<union> set B) k = 0" using P' by blast
  ultimately show ?thesis
    using B(2,4,6) deg' by (simp add: kahn_inv_def)
qed

text \<open>
  When nothing is left to emit, everything was emitted, provided the graph has no cycle: a
  minimal node outside would have no open input.
\<close>

definition input_edges :: "('k \<Rightarrow> 'k list) \<Rightarrow> 'k set \<Rightarrow> ('k \<times> 'k) set" where
  "input_edges ins ids = {(a, b). b \<in> ids \<and> a \<in> set (ins b)}"

lemma kahn_complete:
  assumes inv: "kahn_inv ins ids P deg []" and "finite ids"
    and closed: "\<And>k. k \<in> ids \<Longrightarrow> set (ins k) \<subseteq> ids" and "acyclic (input_edges ins ids)"
  shows "P = ids"
proof (rule ccontr)
  assume "P \<noteq> ids"
  then obtain m where m: "m \<in> ids - P" using inv by (auto simp: kahn_inv_def)
  have "finite (input_edges ins ids)"
    by (rule finite_subset [of _ "ids \<times> ids"]) (use closed \<open>finite ids\<close> in \<open>auto simp: input_edges_def\<close>)
  then have "wf (input_edges ins ids)" using assms(4) by (rule finite_acyclic_wf)
  then obtain k where k: "k \<in> ids - P" and least: "\<And>a. (a, k) \<in> input_edges ins ids \<Longrightarrow> a \<notin> ids - P"
    using m by (rule wfE_min) blast
  have "filter (\<lambda>s. s \<notin> P) (ins k) = []"
    using least closed [of k] k by (auto simp: filter_empty_conv input_edges_def)
  with inv k show False by (auto simp: kahn_inv_def open_inputs_def)
qed

lemma kahn_inv_sort: "kahn_inv ins ids P deg F \<Longrightarrow> kahn_inv ins ids P deg (sort F)"
  by (simp add: kahn_inv_def)

lemma kahn_inv_member:
  "kahn_inv ins ids P deg F \<Longrightarrow> k \<in> set F \<Longrightarrow> k \<in> ids \<and> k \<notin> P \<and> set (ins k) \<subseteq> P"
  by (auto simp: kahn_inv_def open_inputs_def filter_empty_conv)

text \<open>What the two loops produce: an order in which inputs come first.\<close>

fun staged :: "('k \<Rightarrow> 'k list) \<Rightarrow> 'k set \<Rightarrow> 'k list list \<Rightarrow> bool" where
  "staged ins P [] = True"
| "staged ins P (w # ws) =
     (w \<noteq> [] \<and> distinct w \<and> set w \<inter> P = {} \<and> (\<forall>k \<in> set w. set (ins k) \<subseteq> P) \<and> staged ins (P \<union> set w) ws)"

lemma waves_staged:
  assumes "kahn_inv ins ids P deg F" and "dependents_ok ins ids dependents"
  shows "staged ins P (waves dependents deg F) \<and>
    (\<exists>deg'. kahn_inv ins ids (P \<union> set (concat (waves dependents deg F))) deg' [])"
  using assms
proof (induction dependents deg F arbitrary: P rule: waves.induct)
  case (1 dependents deg F)
  show ?case
  proof (cases "F = []")
    case True
    with 1(2) show ?thesis by (auto simp: waves.simps)
  next
    case False
    obtain deg' new where r: "release_dependents (concat (List.map (dict_items dependents) F)) deg [] = (deg', new)" by force
    have "kahn_inv ins ids (P \<union> set F) deg' ([] @ new)"
      using 1(2,3) r by (intro kahn_step) auto
    then have i: "kahn_inv ins ids (P \<union> set F) deg' (sort new)"
      by (simp add: kahn_inv_sort)
    have w: "waves dependents deg F = F # waves dependents deg' (sort new)"
      using False r by (subst waves.simps) simp
    have "staged ins (P \<union> set F) (waves dependents deg' (sort new)) \<and>
      (\<exists>d. kahn_inv ins ids (P \<union> set F \<union> set (concat (waves dependents deg' (sort new)))) d [])"
      using 1(1) [OF False r [symmetric] refl i 1(3)] .
    moreover have "distinct F" using 1(2) by (simp add: kahn_inv_def)
    ultimately show ?thesis
      unfolding w using False kahn_inv_member [OF 1(2)] by (auto simp: Un_assoc)
  qed
qed

lemma queue_staged:
  assumes "kahn_inv ins ids P deg F" and "dependents_ok ins ids dependents"
  shows "staged ins P (List.map (\<lambda>k. [k]) (queue_order dependents deg F)) \<and>
    (\<exists>deg'. kahn_inv ins ids (P \<union> set (queue_order dependents deg F)) deg' [])"
  using assms
proof (induction dependents deg F arbitrary: P rule: queue_order.induct)
  case (1 dependents deg)
  then show ?case by auto
next
  case (2 dependents deg k F)
  obtain deg' new where r: "release_dependents (dict_items dependents k) deg [] = (deg', new)" by force
  have i: "kahn_inv ins ids (P \<union> set [k]) deg' (F @ new)"
    using 2(2,3) r by (intro kahn_step) auto
  show ?case
    using 2(1) [OF r [symmetric] refl i 2(3)] kahn_inv_member [OF 2(2), of k] r by auto
qed

lemma staged_distinct: "staged ins P ws \<Longrightarrow> distinct (concat ws) \<and> set (concat ws) \<inter> P = {}"
proof (induction ws arbitrary: P)
  case (Cons w ws)
  from Cons.IH [of "P \<union> set w"] Cons.prems show ?case by auto
qed simp

lemma staged_nonempty: "staged ins P ws \<Longrightarrow> [] \<notin> set ws"
  by (induction ws arbitrary: P) auto

lemma staged_nth:
  "staged ins P ws \<Longrightarrow> j < length ws \<Longrightarrow> k \<in> set (ws ! j) \<Longrightarrow> s \<in> set (ins k) \<Longrightarrow>
   s \<in> P \<or> (\<exists>i < j. s \<in> set (ws ! i))"
proof (induction ws arbitrary: P j)
  case (Cons w ws)
  show ?case
  proof (cases j)
    case 0
    with Cons.prems show ?thesis by auto
  next
    case (Suc n)
    then have "s \<in> P \<union> set w \<or> (\<exists>i < n. s \<in> set (ws ! i))"
      using Cons.prems by (intro Cons.IH) auto
    with Suc show ?thesis by (auto intro: exI [of _ 0])
  qed
qed simp

section \<open>Filling the counters\<close>

text \<open>
  The loops before: one counter per node, one list of dependents per node, both filled from the
  inputs of every node. An input that is not a key is the \<open>Inl\<close> of the failing lookup.
\<close>

type_synonym 'k counters = "('k \<times> int) list \<times> 'k adjacency"

fun add_inputs :: "'k \<Rightarrow> 'k list \<Rightarrow> 'k counters \<Rightarrow> 'k + 'k counters" where
  "add_inputs nid [] acc = Inr acc"
| "add_inputs nid (src # srcs) (deg, dep) =
     (if map_of dep src = None then Inl src
      else add_inputs nid srcs (AList.update nid (degree deg nid + 1) deg, dict_push src nid dep))"

fun add_nodes :: "('k \<times> 'k list) list \<Rightarrow> 'k counters \<Rightarrow> 'k + 'k counters" where
  "add_nodes [] acc = Inr acc"
| "add_nodes (n # ns) acc =
     (case add_inputs (fst n) (snd n) acc of Inl e \<Rightarrow> Inl e | Inr acc' \<Rightarrow> add_nodes ns acc')"

definition zero_counters :: "'k list \<Rightarrow> 'k counters" where
  "zero_counters ks = (List.map (\<lambda>k. (k, 0)) ks, List.map (\<lambda>k. (k, [])) ks)"

text \<open>
  The two dictionaries grow by \<open>f k\<close> inputs of each node \<open>k\<close>, of which \<open>g a k\<close> are the node \<open>a\<close>.
\<close>

definition filled :: "('k \<Rightarrow> nat) \<Rightarrow> ('k \<Rightarrow> 'k \<Rightarrow> nat) \<Rightarrow> 'k counters \<Rightarrow> 'k counters \<Rightarrow> bool" where
  "filled f g x y =
    (distinct (List.map fst (fst y)) \<and> fst ` set (fst y) = fst ` set (fst x) \<and>
     fst ` set (snd y) = fst ` set (snd x) \<and>
     (\<forall>k. degree (fst y) k = degree (fst x) k + int (f k)) \<and>
     (\<forall>a k. count_list (dict_items (snd y) a) k = count_list (dict_items (snd x) a) k + g a k))"

lemma filled_trans:
  assumes "filled f g x y" and "filled f' g' y z"
  shows "filled (\<lambda>k. f k + f' k) (\<lambda>a k. g a k + g' a k) x z"
  using assms by (simp add: filled_def)

lemma add_inputs_known:
  "set srcs \<subseteq> fst ` set (snd acc) \<Longrightarrow> distinct (List.map fst (fst acc)) \<Longrightarrow> nid \<in> fst ` set (fst acc) \<Longrightarrow>
   \<exists>acc'. add_inputs nid srcs acc = Inr acc' \<and>
     filled (\<lambda>k. if k = nid then length srcs else 0) (\<lambda>a k. if k = nid then count_list srcs a else 0) acc acc'"
proof (induction srcs arbitrary: acc)
  case Nil
  then show ?case by (cases acc) (simp add: filled_def)
next
  case (Cons src srcs)
  obtain deg dep where acc: "acc = (deg, dep)" by (cases acc)
  let ?deg = "AList.update nid (degree deg nid + 1) deg" and ?dep = "dict_push src nid dep"
  let ?one = "\<lambda>k. if k = nid then 1 else (0::nat)"
  have known: "src \<in> fst ` set dep" "map_of dep src \<noteq> None"
    using Cons.prems by (auto simp: acc map_of_eq_None_iff)
  have keys: "fst ` set ?dep = fst ` set dep"
    using known by (auto simp: dict_push_def dict_keys_update)
  have step: "filled ?one (\<lambda>a k. if k = nid \<and> a = src then 1 else 0) acc (?deg, ?dep)"
    using Cons.prems keys
    by (auto simp: filled_def acc distinct_update dict_keys_update dict_update_lookup dict_items_push count_list_append)
  have "\<exists>acc'. add_inputs nid srcs (?deg, ?dep) = Inr acc' \<and>
     filled (\<lambda>k. if k = nid then length srcs else 0) (\<lambda>a k. if k = nid then count_list srcs a else 0) (?deg, ?dep) acc'"
    using Cons.prems keys by (intro Cons.IH) (auto simp: acc distinct_update dict_keys_update)
  then obtain acc' where r: "add_inputs nid srcs (?deg, ?dep) = Inr acc'"
    and f: "filled (\<lambda>k. if k = nid then length srcs else 0) (\<lambda>a k. if k = nid then count_list srcs a else 0) (?deg, ?dep) acc'"
    by (elim exE conjE)
  have "add_inputs nid (src # srcs) acc = Inr acc'" using r known by (simp add: acc)
  moreover have "filled (\<lambda>k. if k = nid then length (src # srcs) else 0)
      (\<lambda>a k. if k = nid then count_list (src # srcs) a else 0) acc acc'"
  proof -
    have "(\<lambda>k. ?one k + (if k = nid then length srcs else 0)) = (\<lambda>k. if k = nid then length (src # srcs) else 0)"
      "(\<lambda>a k. (if k = nid \<and> a = src then 1 else 0) + (if k = nid then count_list srcs a else 0)) =
       (\<lambda>a k. if k = nid then count_list (src # srcs) a else 0)"
      by (auto simp: fun_eq_iff)
    with filled_trans [OF step f] show ?thesis by simp
  qed
  ultimately show ?case by blast
qed

lemma add_nodes_known:
  "\<forall>n \<in> set ns. set (snd n) \<subseteq> fst ` set (snd acc) \<and> fst n \<in> fst ` set (fst acc) \<Longrightarrow>
   distinct (List.map fst (fst acc)) \<Longrightarrow>
   \<exists>acc'. add_nodes ns acc = Inr acc' \<and>
     filled (\<lambda>k. sum_list (List.map (\<lambda>n. if fst n = k then length (snd n) else 0) ns))
       (\<lambda>a k. sum_list (List.map (\<lambda>n. if fst n = k then count_list (snd n) a else 0) ns)) acc acc'"
proof (induction ns arbitrary: acc)
  case Nil
  then show ?case by (cases acc) (simp add: filled_def)
next
  case (Cons n ns)
  let ?f = "\<lambda>ns k. sum_list (List.map (\<lambda>n. if fst n = k then length (snd n) else 0) ns)"
  let ?g = "\<lambda>ns a k. sum_list (List.map (\<lambda>n. if fst n = k then count_list (snd n) a else 0) ns)"
  have "\<exists>acc1. add_inputs (fst n) (snd n) acc = Inr acc1 \<and>
     filled (\<lambda>k. if k = fst n then length (snd n) else 0)
       (\<lambda>a k. if k = fst n then count_list (snd n) a else 0) acc acc1"
    using Cons.prems by (intro add_inputs_known) auto
  then obtain acc1 where r1: "add_inputs (fst n) (snd n) acc = Inr acc1"
    and f1: "filled (\<lambda>k. if k = fst n then length (snd n) else 0)
       (\<lambda>a k. if k = fst n then count_list (snd n) a else 0) acc acc1"
    by (elim exE conjE)
  have "\<exists>acc'. add_nodes ns acc1 = Inr acc' \<and> filled (?f ns) (?g ns) acc1 acc'"
    using Cons.prems f1 by (intro Cons.IH) (auto simp: filled_def)
  then obtain acc' where r: "add_nodes ns acc1 = Inr acc'" and f: "filled (?f ns) (?g ns) acc1 acc'"
    by (elim exE conjE)
  have "(\<lambda>k. (if k = fst n then length (snd n) else 0) + ?f ns k) = ?f (n # ns)"
    "(\<lambda>a k. (if k = fst n then count_list (snd n) a else 0) + ?g ns a k) = ?g (n # ns)"
    by (auto simp: fun_eq_iff)
  with filled_trans [OF f1 f] have "filled (?f (n # ns)) (?g (n # ns)) acc acc'" by simp
  moreover have "add_nodes (n # ns) acc = Inr acc'" using r1 r by simp
  ultimately show ?case by blast
qed

lemma add_inputs_dependents:
  "add_inputs nid srcs (deg, dep) = Inr (deg', dep') \<Longrightarrow> \<exists>x. add_inputs nid srcs (deg2, dep) = Inr (x, dep')"
  by (induction srcs arbitrary: deg dep deg2) (auto split: if_splits)

lemma add_nodes_dependents:
  "add_nodes ns (deg, dep) = Inr (deg', dep') \<Longrightarrow> \<exists>x. add_nodes ns (deg2, dep) = Inr (x, dep')"
proof (induction ns arbitrary: deg dep deg2)
  case Nil
  then show ?case by simp
next
  case (Cons n ns)
  then obtain d1 e1 where a: "add_inputs (fst n) (snd n) (deg, dep) = Inr (d1, e1)"
    and b: "add_nodes ns (d1, e1) = Inr (deg', dep')"
    by (auto split: sum.splits)
  obtain x where "add_inputs (fst n) (snd n) (deg2, dep) = Inr (x, e1)"
    using add_inputs_dependents [OF a] by blast
  with Cons.IH [OF b, of x] show ?case by auto
qed

lemma map_of_const: "map_of (List.map (\<lambda>k. (k, c)) ks) k = (if k \<in> set ks then Some c else None)"
  by (induction ks) auto

lemma sum_at_key:
  "distinct (List.map fst ns) \<Longrightarrow> f [] = (0::nat) \<Longrightarrow>
   sum_list (List.map (\<lambda>n. if fst n = k then f (snd n) else 0) ns) = f (dict_items ns k)"
proof (induction ns)
  case Nil
  then show ?case by simp
next
  case (Cons n ns)
  have "sum_list (List.map (\<lambda>m. if fst m = fst n then f (snd m) else 0) ns) = 0"
    using Cons.prems by (intro sum_list_eq_0_iff [THEN iffD2]) (auto simp: image_iff)
  moreover have "map_of ns (fst n) = None"
    using Cons.prems by (simp add: map_of_eq_None_iff)
  ultimately show ?case using Cons by (cases n) (auto simp: dict_items_def)
qed

lemma zero_keys:
  assumes "distinct (List.map fst deg)"
  shows "set (List.map fst (filter (\<lambda>(k, d). d = 0) deg)) = {k \<in> fst ` set deg. degree deg k = (0::int)}"
    and "distinct (List.map fst (filter (\<lambda>(k, d). d = (0::int)) deg))"
proof -
  have "degree deg k = d" if "(k, d) \<in> set deg" for k d
    using that assms by simp
  then show "set (List.map fst (filter (\<lambda>(k, d). d = 0) deg)) = {k \<in> fst ` set deg. degree deg k = (0::int)}"
    by force
  show "distinct (List.map fst (filter (\<lambda>(k, d). d = (0::int)) deg))"
    using assms by (induction deg) (auto simp: image_iff)
qed

text \<open>
  Start of the algorithm: for distinct nodes with known inputs the counters hold the numbers of
  inputs, the dependents mirror the inputs, and the invariant holds with nothing emitted.
\<close>

lemma kahn_start:
  assumes d: "distinct (List.map fst ns)" and known: "\<And>n. n \<in> set ns \<Longrightarrow> set (snd n) \<subseteq> fst ` set ns"
    and ks: "distinct ks" "set ks = fst ` set ns"
  shows "\<exists>deg dep. add_nodes ns (zero_counters ks) = Inr (deg, dep) \<and>
    (\<forall>a k. count_list (dict_items dep a) k = count_list (dict_items ns k) a) \<and>
    dependents_ok (dict_items ns) (fst ` set ns) dep \<and>
    kahn_inv (dict_items ns) (fst ` set ns) {} deg (List.map fst (filter (\<lambda>(k, d). d = 0) deg))"
proof -
  have "\<forall>n \<in> set ns. set (snd n) \<subseteq> fst ` set (snd (zero_counters ks)) \<and> fst n \<in> fst ` set (fst (zero_counters ks))"
    using known ks(2) by (auto simp: zero_counters_def image_image)
  moreover have "distinct (List.map fst (fst (zero_counters ks)))"
    using ks(1) by (simp add: zero_counters_def comp_def)
  ultimately obtain acc where r: "add_nodes ns (zero_counters ks) = Inr acc"
    and f: "filled (\<lambda>k. length (dict_items ns k)) (\<lambda>a k. count_list (dict_items ns k) a) (zero_counters ks) acc"
    using add_nodes_known [of ns "zero_counters ks"] sum_at_key [OF d, of length]
      sum_at_key [OF d, of "\<lambda>xs. count_list xs _"] by auto
  obtain deg dep where acc: "acc = (deg, dep)" by (cases acc)
  have dist: "distinct (List.map fst deg)" and keys: "fst ` set deg = fst ` set ns"
    using f ks(2) by (auto simp: acc filled_def zero_counters_def image_image)
  have deg: "degree deg k = int (length (dict_items ns k))" for k
    using f unfolding filled_def acc zero_counters_def fst_conv snd_conv map_of_const by simp
  have cnt: "count_list (dict_items dep a) k = count_list (dict_items ns k) a" for a k
    using f unfolding filled_def acc zero_counters_def fst_conv snd_conv dict_items_def map_of_const by simp
  have "dict_items ns k = []" if "k \<notin> fst ` set ns" for k
    using that by (simp add: dict_items_def map_of_eq_None_iff [symmetric])
  then have "dependents_ok (dict_items ns) (fst ` set ns) dep"
    by (simp add: dependents_ok_def cnt)
  moreover have "open_inputs (dict_items ns) {} k = length (dict_items ns k)" for k
    by (simp add: open_inputs_def)
  then have "kahn_inv (dict_items ns) (fst ` set ns) {} deg (List.map fst (filter (\<lambda>(k, d). d = 0) deg))"
    using zero_keys [OF dist] by (simp add: kahn_inv_def deg keys)
  ultimately show ?thesis using r cnt by (auto simp: acc)
qed

end
