(* ===== verification/Py_Json.thy ===== *)
theory Py_Json
  imports Py_Value "HOL-Library.List_Lexorder" "HOL-Library.Char_ord"
begin

text \<open>
  \<open>json.dumps\<close> with \<open>ensure_ascii=False\<close> and \<open>sort_keys=True\<close> on JSON values, and the number of bytes of
  its UTF-8 encoding, which does not depend on the order of the keys.
\<close>

definition json_char :: "char \<Rightarrow> string" where
  "json_char c = (let n = char_code c; bs = CHR 0x5C
     in if n = 34 \<or> n = 92 then [bs, c]
        else if n = 8 then [bs, CHR ''b''] else if n = 9 then [bs, CHR ''t'']
        else if n = 10 then [bs, CHR ''n''] else if n = 12 then [bs, CHR ''f'']
        else if n = 13 then [bs, CHR ''r'']
        else if n < 32 then [bs] @ ''u00'' @ [hex_digit (n div 16), hex_digit (n mod 16)]
        else [c])"

definition json_str :: "string \<Rightarrow> string" where
  "json_str s = [CHR 0x22] @ concat (List.map json_char s) @ [CHR 0x22]"

fun json_dumps :: "pyval \<Rightarrow> string" where
  "json_dumps PNone = ''null''"
| "json_dumps (PBool b) = (if b then ''true'' else ''false'')"
| "json_dumps (PInt n) = int_str n"
| "json_dumps (PFloat t) = t"
| "json_dumps (PStr s) = json_str s"
| "json_dumps (PList xs) = ''['' @ join '', '' (List.map json_dumps xs) @ '']''"
| "json_dumps (PDict d) =
     ''{'' @ join '', '' (List.map snd (sort_key fst (List.map (\<lambda>(k, v). (k, json_str k @ '': '' @ json_dumps v)) d))) @ ''}''"

definition utf8_length :: "string \<Rightarrow> nat" where
  "utf8_length s = sum_list (List.map (\<lambda>c. if char_code c < 128 then 1 else 2) s)"

definition json_bytes :: "pyval \<Rightarrow> nat" where
  "json_bytes v = utf8_length (json_dumps v)"

end
