(* ===== verification/Geo_Plan.thy ===== *)
theory Geo_Plan
  imports Py_Json Kahn "HOL-Library.Multiset"
begin

text \<open>
  The execution plans of the data plane and their pure graph functions: \<open>normalization.py\<close>
  (canonical values and CRS references), \<open>plan.py\<close> (nodes, plans, fingerprints) and \<open>graph.py\<close>
  (validation, waves, descendants, invalidation, reuse keys) of \<open>app/services/geocompute\<close>.
  Parameters of a node are the JSON values of \<open>pyval\<close>, so the branches of \<open>canonicalize\<close> for
  sets, enumerations and foreign objects have no counterpart; the digest of a fingerprint is a
  parameter.
\<close>

section \<open>Canonical values\<close>

definition MAX_CANONICAL_DEPTH :: nat where "MAX_CANONICAL_DEPTH = 24"

fun type_qualname :: "pyval \<Rightarrow> string" where
  "type_qualname PNone = ''NoneType''"
| "type_qualname (PBool b) = ''bool''"
| "type_qualname (PInt n) = ''int''"
| "type_qualname (PFloat t) = ''float''"
| "type_qualname (PStr s) = ''str''"
| "type_qualname (PList xs) = ''list''"
| "type_qualname (PDict d) = ''dict''"

fun canonicalize :: "nat \<Rightarrow> pyval \<Rightarrow> pyval" where
  "canonicalize n v =
    (if n > MAX_CANONICAL_DEPTH then PStr (''__py__:depth_overflow:'' @ type_qualname v)
     else case v of
       PFloat t \<Rightarrow> if t = ''nan'' then PStr ''__float__:nan''
         else if t = ''inf'' then PStr ''__float__:+inf''
         else if t = ''-inf'' then PStr ''__float__:-inf'' else v
     | PDict d \<Rightarrow> PDict (sort_key fst (List.map (\<lambda>(k, x). (k, canonicalize (Suc n) x)) d))
     | PList xs \<Rightarrow> PList (List.map (canonicalize (Suc n)) xs)
     | _ \<Rightarrow> v)"

declare canonicalize.simps [simp del]

lemma canonicalize_dict:
  "canonicalize n (PDict d) = (if n > MAX_CANONICAL_DEPTH then PStr (''__py__:depth_overflow:'' @ ''dict'')
     else PDict (sort_key fst (List.map (\<lambda>(k, x). (k, canonicalize (Suc n) x)) d)))"
  by (subst canonicalize.simps) simp

lemma canonicalize_list:
  "canonicalize n (PList xs) = (if n > MAX_CANONICAL_DEPTH then PStr (''__py__:depth_overflow:'' @ ''list'')
     else PList (List.map (canonicalize (Suc n)) xs))"
  by (subst canonicalize.simps) simp

fun contains_py_marker :: "pyval \<Rightarrow> bool" where
  "contains_py_marker (PStr s) = (prefix ''__py__:'' s \<or> prefix ''__float__:'' s)"
| "contains_py_marker (PDict d) = list_ex (\<lambda>(k, v). contains_py_marker v) d"
| "contains_py_marker (PList xs) = list_ex contains_py_marker xs"
| "contains_py_marker v = False"

definition canonicalize_strict :: "pyval \<Rightarrow> pyval option" where
  "canonicalize_strict v =
    (let c = canonicalize 0 v in if contains_py_marker c then None else Some c)"

text \<open>\<open>json.dumps(canonicalize(value), sort_keys=True, ensure_ascii=False)\<close>.\<close>

definition canonical_dumps :: "pyval \<Rightarrow> string" where
  "canonical_dumps v = json_dumps (canonicalize 0 v)"

section \<open>CRS references\<close>

definition ascii_word :: "char \<Rightarrow> bool" where
  "ascii_word c = (let n = char_code c
     in is_digit c \<or> n = 95 \<or> (65 \<le> n \<and> n \<le> 90) \<or> (97 \<le> n \<and> n \<le> 122))"

definition upper_ascii :: "char \<Rightarrow> char" where
  "upper_ascii c = (let n = char_code c in if 97 \<le> n \<and> n \<le> 122 then char_of (n - 32) else c)"

definition authority_code :: "string \<Rightarrow> string \<Rightarrow> (string \<times> string) option" where
  "authority_code sep t =
    (let a = takeWhile ascii_word t; r = dropWhile ascii_word t; code = drop (length sep) r
     in if a \<noteq> [] \<and> prefix sep r \<and> code \<noteq> [] \<and> list_all is_digit code then Some (a, code) else None)"

definition URN_PREFIX :: string where "URN_PREFIX = ''urn:ogc:def:crs:''"

definition normalize_crs_ref :: "string \<Rightarrow> string" where
  "normalize_crs_ref crs =
    (let text = strip crs;
         urn = (if lower (take 16 text) = URN_PREFIX then authority_code ''::'' (drop 16 text) else None)
     in case urn of
          Some (a, code) \<Rightarrow> List.map upper_ascii a @ '':'' @ code
        | None \<Rightarrow> (case authority_code '':'' text of
            Some (a, code) \<Rightarrow>
              if List.map upper_ascii a \<in> {''EPSG'', ''ESRI'', ''IAU'', ''OGC''}
              then List.map upper_ascii a @ '':'' @ code else text
          | None \<Rightarrow> text))"

section \<open>Nodes and plans\<close>

datatype node_category = SOURCE_DISCOVERY | SOURCE_SCAN | QUERY | FILTER | PROJECT | REPROJECT
  | SPATIAL_JOIN | ATTRIBUTE_JOIN | AGGREGATE | VECTOR_OPERATION | RASTER_OPERATION
  | RASTER_WINDOW_OPERATION | INTERPOLATION | NETWORK_OPERATION | DECISION_OPERATION
  | MATERIALIZE | EXPORT | ARTIFACT_REGISTER

fun category_value :: "node_category \<Rightarrow> string" where
  "category_value SOURCE_DISCOVERY = ''source_discovery''"
| "category_value SOURCE_SCAN = ''source_scan''"
| "category_value QUERY = ''query''"
| "category_value FILTER = ''filter''"
| "category_value PROJECT = ''project''"
| "category_value REPROJECT = ''reproject''"
| "category_value SPATIAL_JOIN = ''spatial_join''"
| "category_value ATTRIBUTE_JOIN = ''attribute_join''"
| "category_value AGGREGATE = ''aggregate''"
| "category_value VECTOR_OPERATION = ''vector_operation''"
| "category_value RASTER_OPERATION = ''raster_operation''"
| "category_value RASTER_WINDOW_OPERATION = ''raster_window_operation''"
| "category_value INTERPOLATION = ''interpolation''"
| "category_value NETWORK_OPERATION = ''network_operation''"
| "category_value DECISION_OPERATION = ''decision_operation''"
| "category_value MATERIALIZE = ''materialize''"
| "category_value EXPORT = ''export''"
| "category_value ARTIFACT_REGISTER = ''artifact_register''"

datatype execution_policy = IN_PROCESS | DURABLE_JOB

datatype reuse_policy = ALLOW | DISALLOW

datatype payload_kind = FEATURES | ROWS | REF | RASTER_PATH | NONE_PAYLOAD | ANY_PAYLOAD

fun payload_value :: "payload_kind \<Rightarrow> string" where
  "payload_value FEATURES = ''features''"
| "payload_value ROWS = ''rows''"
| "payload_value REF = ''ref''"
| "payload_value RASTER_PATH = ''raster_path''"
| "payload_value NONE_PAYLOAD = ''none''"
| "payload_value ANY_PAYLOAD = ''any''"

record crs_expectation =
  output_crs :: "string option"
  allow_reproject :: bool

record partition_spec =
  ps_scheme :: string
  ps_target_tiles :: int
  ps_halo_px :: int
  ps_halo_ratio :: string
  ps_crs :: "string option"
  ps_mem_budget :: "string option"
  ps_min_rows :: int

record exec_node =
  en_id :: string
  en_category :: node_category
  en_operation :: string
  en_inputs :: "string list"
  en_datasets :: "(string \<times> string) list"
  en_parameters :: "(string \<times> pyval) list"
  en_crs :: "crs_expectation option"
  en_policy :: execution_policy
  en_reuse :: reuse_policy
  en_max_attempts :: int
  en_produces :: "payload_kind option"
  en_accepts :: "payload_kind list"
  en_deterministic :: bool
  en_upstream_fps :: "(string \<times> string) list"
  en_partition :: "partition_spec option"

record exec_plan =
  ep_nodes :: "exec_node list"
  ep_max_nodes :: int

definition node_map :: "exec_plan \<Rightarrow> (string \<times> exec_node) list" where
  "node_map p = fold (\<lambda>n m. AList.update (en_id n) n m) (ep_nodes p) []"

section \<open>Fingerprints\<close>

definition EXECUTION_PLAN_VERSION :: int where "EXECUTION_PLAN_VERSION = 2"

definition opt_str :: "string option \<Rightarrow> pyval" where
  "opt_str x = (case x of None \<Rightarrow> PNone | Some s \<Rightarrow> PStr s)"

definition normalized_crs :: "exec_node \<Rightarrow> pyval" where
  "normalized_crs n = (case en_crs n of
     None \<Rightarrow> PNone
   | Some c \<Rightarrow> PDict
       [(''output_crs'', if truthy (output_crs c) then PStr (normalize_crs_ref (or_else (output_crs c) []))
                        else opt_str (output_crs c)),
        (''allow_reproject'', PBool (allow_reproject c))])"

definition partition_dump :: "partition_spec \<Rightarrow> pyval" where
  "partition_dump s = PDict
     [(''scheme'', PStr (ps_scheme s)), (''target_tiles'', PInt (ps_target_tiles s)),
      (''halo_px'', PInt (ps_halo_px s)), (''halo_ratio'', PFloat (ps_halo_ratio s)),
      (''crs'', opt_str (ps_crs s)),
      (''per_tile_mem_budget_mb'', case ps_mem_budget s of None \<Rightarrow> PNone | Some t \<Rightarrow> PFloat t),
      (''min_rows_per_tile'', PInt (ps_min_rows s))]"

definition semantic_fields :: "exec_node \<Rightarrow> (string \<times> pyval) list" where
  "semantic_fields n =
     [(''v'', PInt EXECUTION_PLAN_VERSION),
      (''category'', PStr (category_value (en_category n))),
      (''operation'', PStr (en_operation n)),
      (''inputs'', PList (List.map PStr (sort (en_inputs n)))),
      (''dataset_fingerprints'', PDict (sort_key fst (List.map (\<lambda>(k, v). (k, PStr v)) (en_datasets n)))),
      (''parameters'', PDict (en_parameters n)),
      (''crs'', normalized_crs n),
      (''produces'', case en_produces n of None \<Rightarrow> PNone | Some k \<Rightarrow> PStr (payload_value k)),
      (''accepts'', PList (List.map PStr (sort (List.map payload_value (en_accepts n))))),
      (''partition'', case en_partition n of None \<Rightarrow> PNone | Some s \<Rightarrow> PStr (canonical_dumps (partition_dump s)))]"

definition semantic_payload :: "exec_node \<Rightarrow> pyval" where
  "semantic_payload n = PDict (semantic_fields n)"

definition semantic_fingerprint :: "(string \<Rightarrow> string) \<Rightarrow> exec_node \<Rightarrow> string" where
  "semantic_fingerprint digest n = take 16 (digest (canonical_dumps (semantic_payload n)))"

definition graph_fingerprint :: "(string \<Rightarrow> string) \<Rightarrow> exec_plan \<Rightarrow> string" where
  "graph_fingerprint digest p =
    take 16 (digest (json_dumps (PDict
      [(''v'', PInt EXECUTION_PLAN_VERSION),
       (''nodes'', PList (List.map PStr (sort (List.map (semantic_fingerprint digest) (ep_nodes p))))),
       (''edges'', PList (List.map PStr (sort
          (concat (List.map (\<lambda>n. List.map (\<lambda>src. src @ ''->'' @ en_id n) (en_inputs n)) (ep_nodes p))))))])))"

definition node_by_fingerprint :: "(string \<Rightarrow> string) \<Rightarrow> exec_plan \<Rightarrow> string \<Rightarrow> exec_node option" where
  "node_by_fingerprint digest p fp = List.find (\<lambda>n. semantic_fingerprint digest n = fp) (ep_nodes p)"

definition node_reuse_key :: "(string \<Rightarrow> string) \<Rightarrow> string \<Rightarrow> exec_node \<Rightarrow> string \<Rightarrow> string" where
  "node_reuse_key digest plan_fp n owner = owner @ '':'' @ plan_fp @ '':'' @ semantic_fingerprint digest n"

definition checkpoint_reuse_key :: "(string \<Rightarrow> string) \<Rightarrow> exec_node \<Rightarrow> string \<Rightarrow> string" where
  "checkpoint_reuse_key digest n owner = owner @ '':'' @ semantic_fingerprint digest n"

end
