(* ===== verification/Geo_Graph.thy ===== *)
theory Geo_Graph
  imports Geo_Plan
begin

text \<open>
  \<open>app/services/geocompute/graph.py\<close>: admission of an execution plan (\<open>validate_plan\<close>), its
  waves of parallel nodes (\<open>topo_wave_order\<close>), the descendants of a node and the nodes to run
  again when fingerprints change. A raised \<open>PlanValidationError\<close> is a value of \<open>plan_error\<close>.
\<close>

section \<open>Validation\<close>

datatype plan_error =
    NoNodes
  | DuplicateIds "string list"
  | UnknownInput string string
  | CycleThrough string
  | TooManyNodes nat
  | NothingToMaterialize string
  | UnsafeRetry string
  | ReuseOfNondeterministic string
  | DurableUnsupported string
  | EmptyCrs string
  | ImpossibleReproject string
  | ForbiddenParameters string "string list"
  | UnknownUpstream string "string list"
  | NotCanonical string
  | ConsumesNothing string string
  | IncompatiblePayload string string

definition MATERIALIZING_CATEGORIES :: "node_category list" where
  "MATERIALIZING_CATEGORIES = [MATERIALIZE, ARTIFACT_REGISTER, EXPORT]"

definition SIDE_EFFECT_CATEGORIES :: "node_category list" where
  "SIDE_EFFECT_CATEGORIES = [MATERIALIZE, ARTIFACT_REGISTER, EXPORT]"

definition DURABLE_UNSUPPORTED_CATEGORIES :: "node_category list" where
  "DURABLE_UNSUPPORTED_CATEGORIES = [RASTER_WINDOW_OPERATION, ARTIFACT_REGISTER]"

definition FORBIDDEN_PARAM_KEYS :: "string list" where
  "FORBIDDEN_PARAM_KEYS = [''pi_turn'', ''chat'', ''prompt'', ''messages'', ''conversation'',
     ''map_spec'', ''mapspec'', ''session_plan'', ''frontend_state'', ''ui_state'', ''tool_call_id'']"

text \<open>\<open>sorted(set(xs))\<close>.\<close>

definition sorted_set :: "string list \<Rightarrow> string list" where
  "sorted_set xs = sort (remdups xs)"

definition validate_node_contract :: "exec_node \<Rightarrow> plan_error option" where
  "validate_node_contract n =
    (let forbidden = sorted_set (filter (\<lambda>k. k \<in> set FORBIDDEN_PARAM_KEYS) (List.map fst (en_parameters n)));
         unknown_upstream = sorted_set (filter (\<lambda>k. k \<notin> set (en_inputs n)) (List.map fst (en_upstream_fps n)))
     in if en_category n \<in> set MATERIALIZING_CATEGORIES \<and> en_inputs n = []
        then Some (NothingToMaterialize (en_id n))
        else if en_category n \<in> set SIDE_EFFECT_CATEGORIES \<and> en_max_attempts n > 1 \<and>
          \<not> py_truthy (py_get (en_parameters n) ''idempotent'')
        then Some (UnsafeRetry (en_id n))
        else if \<not> en_deterministic n \<and> en_reuse n \<noteq> DISALLOW
        then Some (ReuseOfNondeterministic (en_id n))
        else if en_policy n = DURABLE_JOB \<and> en_category n \<in> set DURABLE_UNSUPPORTED_CATEGORIES \<and>
          en_partition n = None
        then Some (DurableUnsupported (en_id n))
        else if (case en_crs n of None \<Rightarrow> False
          | Some c \<Rightarrow> truthy (output_crs c) \<and> normalize_crs_ref (or_else (output_crs c) []) = [])
        then Some (EmptyCrs (en_id n))
        else if en_category n = REPROJECT \<and>
          (case en_crs n of None \<Rightarrow> False | Some c \<Rightarrow> \<not> allow_reproject c)
        then Some (ImpossibleReproject (en_id n))
        else if forbidden \<noteq> [] then Some (ForbiddenParameters (en_id n) forbidden)
        else if unknown_upstream \<noteq> [] then Some (UnknownUpstream (en_id n) unknown_upstream)
        else if canonicalize_strict (PDict (en_parameters n)) = None then Some (NotCanonical (en_id n))
        else None)"

definition validate_edge :: "(string \<times> exec_node) list \<Rightarrow> exec_node \<Rightarrow> string \<Rightarrow> plan_error option" where
  "validate_edge m n src =
    (case map_of m src of
       None \<Rightarrow> None
     | Some u \<Rightarrow> (case en_produces u of
         None \<Rightarrow> None
       | Some k \<Rightarrow>
           if k = NONE_PAYLOAD then Some (ConsumesNothing (en_id n) src)
           else if k \<notin> set (en_accepts n) then Some (IncompatiblePayload (en_id n) src)
           else None))"

definition validate_edge_contracts :: "(string \<times> exec_node) list \<Rightarrow> exec_node \<Rightarrow> plan_error option" where
  "validate_edge_contracts m n =
    (if en_accepts n = [] \<or> ANY_PAYLOAD \<in> set (en_accepts n) then None
     else first_some (validate_edge m n) (en_inputs n))"

text \<open>
  \<open>src_cycle_via\<close>: a depth-first search from the inputs of a node back to the node. The stack
  has its top first, so the inputs of a node are pushed in reverse.
\<close>

definition pushed_inputs :: "(string \<times> exec_node) list \<Rightarrow> string adjacency" where
  "pushed_inputs m = List.map (\<lambda>(k, n). (k, rev (en_inputs n))) m"

function cycle_search :: "string \<Rightarrow> string adjacency \<Rightarrow> string list \<Rightarrow> string list \<Rightarrow> bool" where
  "cycle_search goal adj seen [] = False"
| "cycle_search goal adj seen (cur # stack) =
     (if cur = goal then True
      else if cur \<in> set seen then cycle_search goal adj seen stack
      else cycle_search goal adj (cur # seen) (dict_items adj cur @ stack))"
  by pat_completeness auto

termination
proof (relation "measures [\<lambda>(goal, adj, seen, stack). card ((adj_targets adj \<union> set stack) - set seen),
    \<lambda>(goal, adj, seen, stack). length stack]", goal_cases)
  case 1
  show ?case by simp
next
  case (2 goal adj seen cur stack)
  have "card ((adj_targets adj \<union> set stack) - set seen) \<le> card ((adj_targets adj \<union> set (cur # stack)) - set seen)"
    by (intro card_mono) auto
  then show ?case by auto
next
  case (3 goal adj seen cur stack)
  have "(adj_targets adj \<union> set (dict_items adj cur @ stack)) - set (cur # seen) \<subset>
        (adj_targets adj \<union> set (cur # stack)) - set seen"
    using 3 dict_items_targets [of adj cur] by auto
  then have "card ((adj_targets adj \<union> set (dict_items adj cur @ stack)) - set (cur # seen)) <
        card ((adj_targets adj \<union> set (cur # stack)) - set seen)"
    by (intro psubset_card_mono) auto
  then show ?case by simp
qed

definition src_cycle_via :: "exec_node \<Rightarrow> (string \<times> exec_node) list \<Rightarrow> bool" where
  "src_cycle_via n m = cycle_search (en_id n) (pushed_inputs m) [] (rev (en_inputs n))"

definition validate_node :: "(string \<times> exec_node) list \<Rightarrow> exec_node \<Rightarrow> plan_error option" where
  "validate_node m n =
    (case validate_node_contract n of
       Some e \<Rightarrow> Some e
     | None \<Rightarrow> (case first_some (\<lambda>src. if map_of m src = None then Some (UnknownInput (en_id n) src) else None) (en_inputs n) of
         Some e \<Rightarrow> Some e
       | None \<Rightarrow> if src_cycle_via n m then Some (CycleThrough (en_id n)) else None))"

definition validate_plan :: "exec_plan \<Rightarrow> plan_error option" where
  "validate_plan p =
    (let ids = List.map en_id (ep_nodes p); m = node_map p
     in if ep_nodes p = [] then Some NoNodes
        else if \<not> distinct ids then Some (DuplicateIds (sorted_set (filter (\<lambda>i. count_list ids i > 1) ids)))
        else case first_some (validate_node m) (ep_nodes p) of
          Some e \<Rightarrow> Some e
        | None \<Rightarrow> (case first_some (validate_edge_contracts m) (ep_nodes p) of
            Some e \<Rightarrow> Some e
          | None \<Rightarrow> if int (length (ep_nodes p)) > ep_max_nodes p then Some (TooManyNodes (length (ep_nodes p))) else None))"

section \<open>Waves, descendants, invalidation\<close>

datatype graph_failure = UnknownNode string | CycleAfterValidation

definition input_lists :: "exec_plan \<Rightarrow> (string \<times> string list) list" where
  "input_lists p = List.map (\<lambda>n. (en_id n, en_inputs n)) (ep_nodes p)"

text \<open>The loops that fill \<open>indegree\<close> and \<open>dependents\<close>; an unknown input is a \<open>KeyError\<close>.\<close>

definition topo_wave_order :: "exec_plan \<Rightarrow> graph_failure + string list list" where
  "topo_wave_order p =
    (let ids = List.map fst (node_map p)
     in case add_nodes (input_lists p) (zero_counters ids) of
          Inl src \<Rightarrow> Inl (UnknownNode src)
        | Inr (deg, dep) \<Rightarrow>
            (let ws = waves dep deg (sort (List.map fst (filter (\<lambda>(k, d). d = 0) deg)))
             in if length (concat ws) \<noteq> length ids then Inl CycleAfterValidation else Inr ws))"

definition descendants_of :: "exec_plan \<Rightarrow> string \<Rightarrow> graph_failure + string list" where
  "descendants_of p nid =
    (case add_nodes (input_lists p) (zero_counters (List.map fst (node_map p))) of
       Inl src \<Rightarrow> Inl (UnknownNode src)
     | Inr (deg, dep) \<Rightarrow> Inr (queue_mark (\<lambda>k. True) dep [] (dict_items dep nid)))"

fun add_descendants :: "exec_plan \<Rightarrow> string list \<Rightarrow> string list \<Rightarrow> graph_failure + string list" where
  "add_descendants p [] out = Inr out"
| "add_descendants p (nid # nids) out =
     (case descendants_of p nid of Inl e \<Rightarrow> Inl e | Inr ds \<Rightarrow> add_descendants p nids (out @ ds))"

definition invalidation_set ::
  "(string \<Rightarrow> string) \<Rightarrow> exec_plan \<Rightarrow> string list \<Rightarrow> graph_failure + string list" where
  "invalidation_set digest p changed =
    (let changed_nodes = List.map en_id (filter (\<lambda>n. semantic_fingerprint digest n \<in> set changed) (ep_nodes p))
     in add_descendants p changed_nodes changed_nodes)"

end
