(* ===== verification/Geo_Properties.thy ===== *)
theory Geo_Properties
  imports Geo_Graph
begin

text \<open>
  What admission of an execution plan guarantees to the executor: the graph is acyclic and closed,
  the waves are a parallel schedule of all its nodes, an invalidation reaches exactly the
  descendants, and equivalent spellings of a node have one fingerprint.
\<close>

section \<open>The graph of a plan\<close>

definition plan_ids :: "exec_plan \<Rightarrow> string set" where
  "plan_ids p = en_id ` set (ep_nodes p)"

definition plan_edges :: "exec_plan \<Rightarrow> (string \<times> string) set" where
  "plan_edges p = {(src, en_id n) | src n. n \<in> set (ep_nodes p) \<and> src \<in> set (en_inputs n)}"

definition inputs_of :: "exec_plan \<Rightarrow> string \<Rightarrow> string list" where
  "inputs_of p k = (case map_of (node_map p) k of None \<Rightarrow> [] | Some n \<Rightarrow> en_inputs n)"

lemma update_new: "k \<notin> fst ` set m \<Longrightarrow> AList.update k v m = m @ [(k, v)]"
  by (induction m) auto

lemma fold_update_append:
  "distinct (List.map f ns) \<Longrightarrow> f ` set ns \<inter> fst ` set m = {} \<Longrightarrow>
   fold (\<lambda>n m. AList.update (f n) n m) ns m = m @ List.map (\<lambda>n. (f n, n)) ns"
proof (induction ns arbitrary: m)
  case Nil
  then show ?case by simp
next
  case (Cons n ns)
  have "f n \<notin> fst ` set m" using Cons.prems by auto
  then have u: "AList.update (f n) n m = m @ [(f n, n)]" by (rule update_new)
  show ?case using Cons by (auto simp: u image_iff)
qed

lemma node_map_distinct:
  assumes "distinct (List.map en_id (ep_nodes p))"
  shows "node_map p = List.map (\<lambda>n. (en_id n, n)) (ep_nodes p)"
  using fold_update_append [OF assms, of "[]"] by (simp add: node_map_def)

lemma node_map_keys: "fst ` set (node_map p) = plan_ids p"
proof -
  have "fst ` set (fold (\<lambda>n m. AList.update (en_id n) n m) ns m) = fst ` set m \<union> en_id ` set ns"
    for ns :: "exec_node list" and m
    by (induction ns arbitrary: m) (auto simp: dict_keys_update)
  then show ?thesis by (simp add: node_map_def plan_ids_def)
qed

lemma node_map_None: "map_of (node_map p) k = None \<longleftrightarrow> k \<notin> plan_ids p"
  by (simp add: map_of_eq_None_iff node_map_keys)

lemma node_map_node:
  assumes "distinct (List.map en_id (ep_nodes p))"
  shows "map_of (node_map p) k = Some n \<longleftrightarrow> n \<in> set (ep_nodes p) \<and> en_id n = k"
proof -
  have "distinct (List.map fst (node_map p))" using assms by (simp add: node_map_distinct comp_def)
  then show ?thesis by (auto simp: node_map_distinct [OF assms])
qed

lemma inputs_of_node:
  assumes "distinct (List.map en_id (ep_nodes p))" and "n \<in> set (ep_nodes p)"
  shows "inputs_of p (en_id n) = en_inputs n"
  using node_map_node [OF assms(1), of "en_id n" n] assms(2) by (simp add: inputs_of_def)

lemma plan_edges_iff:
  assumes "distinct (List.map en_id (ep_nodes p))"
  shows "(a, b) \<in> plan_edges p \<longleftrightarrow> a \<in> set (inputs_of p b)"
proof -
  have "(a, b) \<in> plan_edges p \<longleftrightarrow> (\<exists>n. map_of (node_map p) b = Some n \<and> a \<in> set (en_inputs n))"
    unfolding node_map_node [OF assms] by (auto simp: plan_edges_def)
  also have "\<dots> \<longleftrightarrow> a \<in> set (inputs_of p b)"
    by (cases "map_of (node_map p) b") (simp_all add: inputs_of_def)
  finally show ?thesis .
qed

section \<open>Cycles\<close>

lemma cycle_search_mark:
  "goal \<notin> set seen \<Longrightarrow>
   cycle_search goal adj seen stack \<longleftrightarrow> goal \<in> set (pop_mark (\<lambda>k. True) adj seen stack)"
proof (induction goal adj seen stack rule: cycle_search.induct)
  case (1 goal adj seen)
  then show ?case by simp
next
  case (2 goal adj seen cur stack)
  show ?case
  proof (cases "cur = goal")
    case True
    have "cur \<in> set (pop_mark (\<lambda>k. True) adj (cur # seen) (dict_items adj cur @ stack))"
      using mark_extends [of "cur # seen" True "\<lambda>k. True" adj] by auto
    with True 2(3) show ?thesis by simp
  next
    case False
    show ?thesis
    proof (cases "cur \<in> set seen")
      case True
      with False 2 show ?thesis by simp
    next
      case new: False
      with False 2(2) [OF False new] 2(3) show ?thesis by simp
    qed
  qed
qed

lemma pushed_edges:
  assumes "distinct (List.map en_id (ep_nodes p))"
  shows "adj_edges (pushed_inputs (node_map p)) = (plan_edges p)\<inverse>"
proof -
  have "dict_items (pushed_inputs (node_map p)) k = rev (inputs_of p k)" for k
    by (auto simp: dict_items_def pushed_inputs_def inputs_of_def map_of_map split: option.split)
  then show ?thesis by (auto simp: adj_edges_def plan_edges_iff [OF assms])
qed

lemma src_cycle_via_iff:
  assumes d: "distinct (List.map en_id (ep_nodes p))" and n: "n \<in> set (ep_nodes p)"
  shows "src_cycle_via n (node_map p) \<longleftrightarrow> (en_id n, en_id n) \<in> (plan_edges p)\<^sup>+"
proof -
  have e: "{(a, b). (a, b) \<in> adj_edges (pushed_inputs (node_map p)) \<and> True} = (plan_edges p)\<inverse>"
    using pushed_edges [OF d] by auto
  have "src_cycle_via n (node_map p) \<longleftrightarrow>
      en_id n \<in> set (pop_mark (\<lambda>k. True) (pushed_inputs (node_map p)) [] (rev (en_inputs n)))"
    by (simp add: src_cycle_via_def cycle_search_mark)
  also have "\<dots> \<longleftrightarrow> (\<exists>s \<in> set (en_inputs n). (s, en_id n) \<in> ((plan_edges p)\<inverse>)\<^sup>*)"
    unfolding mark_reach e by (auto simp: Image_iff)
  also have "\<dots> \<longleftrightarrow> (\<exists>s. (s, en_id n) \<in> plan_edges p \<and> (en_id n, s) \<in> (plan_edges p)\<^sup>*)"
    using plan_edges_iff [OF d, of _ "en_id n"] inputs_of_node [OF d n]
    by (auto simp: rtrancl_converse)
  also have "\<dots> \<longleftrightarrow> (en_id n, en_id n) \<in> (plan_edges p)\<^sup>+"
    by (auto intro: rtrancl_into_trancl1 dest: tranclD2)
  finally show ?thesis .
qed

lemma acyclic_iff_no_cycle_via:
  assumes "distinct (List.map en_id (ep_nodes p))"
  shows "acyclic (plan_edges p) \<longleftrightarrow> (\<forall>n \<in> set (ep_nodes p). \<not> src_cycle_via n (node_map p))"
proof -
  have "\<exists>n \<in> set (ep_nodes p). x = en_id n" if "(x, x) \<in> (plan_edges p)\<^sup>+" for x
    using tranclD2 [OF that] by (auto simp: plan_edges_def)
  then show ?thesis
    using src_cycle_via_iff [OF assms] by (auto simp: acyclic_def)
qed

definition payloads_fit :: "exec_plan \<Rightarrow> bool" where
  "payloads_fit p = (\<forall>n \<in> set (ep_nodes p). \<forall>u \<in> set (ep_nodes p). \<forall>k.
     en_id u \<in> set (en_inputs n) \<and> en_produces u = Some k \<and> en_accepts n \<noteq> [] \<and> ANY_PAYLOAD \<notin> set (en_accepts n) \<longrightarrow>
     k \<noteq> NONE_PAYLOAD \<and> k \<in> set (en_accepts n))"

lemma edge_contracts_iff:
  assumes d: "distinct (List.map en_id (ep_nodes p))"
  shows "(\<forall>n \<in> set (ep_nodes p). validate_edge_contracts (node_map p) n = None) \<longleftrightarrow> payloads_fit p"
proof -
  have "validate_edge (node_map p) n src = None \<longleftrightarrow>
      (\<forall>u \<in> set (ep_nodes p). \<forall>k. en_id u = src \<and> en_produces u = Some k \<longrightarrow>
        k \<noteq> NONE_PAYLOAD \<and> k \<in> set (en_accepts n))" for n src
  proof -
    have "validate_edge (node_map p) n src = None \<longleftrightarrow>
        (\<forall>u. map_of (node_map p) src = Some u \<longrightarrow> (\<forall>k. en_produces u = Some k \<longrightarrow>
          k \<noteq> NONE_PAYLOAD \<and> k \<in> set (en_accepts n)))"
      by (auto simp: validate_edge_def split: option.split)
    then show ?thesis unfolding node_map_node [OF d] by blast
  qed
  note edge = this
  have "validate_edge_contracts (node_map p) n = None \<longleftrightarrow>
      (en_accepts n \<noteq> [] \<and> ANY_PAYLOAD \<notin> set (en_accepts n) \<longrightarrow>
       (\<forall>src \<in> set (en_inputs n). validate_edge (node_map p) n src = None))" for n
    by (simp add: validate_edge_contracts_def first_some_None)
  then show ?thesis
    unfolding edge payloads_fit_def by blast
qed

lemma validate_plan_iff:
  "validate_plan p = None \<longleftrightarrow>
     ep_nodes p \<noteq> [] \<and> distinct (List.map en_id (ep_nodes p)) \<and>
     fst ` plan_edges p \<subseteq> plan_ids p \<and> acyclic (plan_edges p) \<and> payloads_fit p \<and>
     (\<forall>n \<in> set (ep_nodes p). validate_node_contract n = None) \<and>
     int (length (ep_nodes p)) \<le> ep_max_nodes p"
proof (cases "distinct (List.map en_id (ep_nodes p))")
  case False
  then show ?thesis by (simp add: validate_plan_def Let_def)
next
  case True
  have node: "first_some (validate_node (node_map p)) (ep_nodes p) = None \<longleftrightarrow>
      (\<forall>n \<in> set (ep_nodes p). validate_node_contract n = None \<and> set (en_inputs n) \<subseteq> plan_ids p \<and>
        \<not> src_cycle_via n (node_map p))"
  proof -
    have inputs: "first_some (\<lambda>src. if map_of (node_map p) src = None then Some (UnknownInput (en_id n) src) else None)
        (en_inputs n) = None \<longleftrightarrow> set (en_inputs n) \<subseteq> plan_ids p" for n
      by (auto simp: first_some_None node_map_None split: if_splits)
    have "validate_node (node_map p) n = None \<longleftrightarrow> validate_node_contract n = None \<and>
        set (en_inputs n) \<subseteq> plan_ids p \<and> \<not> src_cycle_via n (node_map p)" for n
      unfolding inputs [symmetric] by (auto simp: validate_node_def split: option.split)
    then show ?thesis by (simp add: first_some_None)
  qed
  have known: "fst ` plan_edges p \<subseteq> plan_ids p \<longleftrightarrow> (\<forall>n \<in> set (ep_nodes p). set (en_inputs n) \<subseteq> plan_ids p)"
    unfolding plan_edges_def by (auto simp: subset_iff image_iff)
  have "validate_plan p = None \<longleftrightarrow> ep_nodes p \<noteq> [] \<and>
      first_some (validate_node (node_map p)) (ep_nodes p) = None \<and>
      first_some (validate_edge_contracts (node_map p)) (ep_nodes p) = None \<and>
      int (length (ep_nodes p)) \<le> ep_max_nodes p"
    using True by (simp add: validate_plan_def Let_def not_less split: option.split)
  then show ?thesis
    unfolding node first_some_None [of "validate_edge_contracts (node_map p)"]
      edge_contracts_iff [OF True] known acyclic_iff_no_cycle_via [OF True]
    using True by blast
qed

text \<open>
  C34. A plan is admitted exactly when it is well formed: it has nodes with distinct identifiers,
  every input is the identifier of a node, the graph has no cycle, each payload a node consumes is
  one it accepts, every node meets its own contract, and the node budget is kept. The
  depth-first search per node detects precisely the cyclic graphs.
\<close>

theorem validate_plan_exact:
  "validate_plan p = None \<longleftrightarrow>
     ep_nodes p \<noteq> [] \<and> distinct (List.map en_id (ep_nodes p)) \<and>
     fst ` plan_edges p \<subseteq> plan_ids p \<and> acyclic (plan_edges p) \<and> payloads_fit p \<and>
     (\<forall>n \<in> set (ep_nodes p). validate_node_contract n = None) \<and>
     int (length (ep_nodes p)) \<le> ep_max_nodes p"
  by (rule validate_plan_iff)

section \<open>Waves and descendants\<close>

definition well_formed :: "exec_plan \<Rightarrow> bool" where
  "well_formed p = (distinct (List.map en_id (ep_nodes p)) \<and> fst ` plan_edges p \<subseteq> plan_ids p)"

lemma input_lists_items:
  assumes "distinct (List.map en_id (ep_nodes p))"
  shows "dict_items (input_lists p) = inputs_of p"
proof
  fix k
  have "map_of (input_lists p) k = map_option en_inputs (map_of (node_map p) k)"
  proof -
    have "map_of (List.map (\<lambda>n. (en_id n, en_inputs n)) ns) k =
        map_option en_inputs (map_of (List.map (\<lambda>n. (en_id n, n)) ns) k)" for ns :: "exec_node list"
      by (induction ns) auto
    then show ?thesis by (simp add: node_map_distinct [OF assms] input_lists_def)
  qed
  then show "dict_items (input_lists p) k = inputs_of p k"
    by (cases "map_of (node_map p) k") (simp_all add: dict_items_def inputs_of_def)
qed

lemma inputs_edges: "distinct (List.map en_id (ep_nodes p)) \<Longrightarrow> input_edges (inputs_of p) (plan_ids p) = plan_edges p"
  using plan_edges_iff by (auto simp: input_edges_def plan_edges_def plan_ids_def)

lemma known_input:
  assumes "well_formed p" and "(a, k) \<in> plan_edges p"
  shows "a \<in> plan_ids p"
proof -
  have "a \<in> fst ` plan_edges p" using assms(2) by (rule rev_image_eqI) simp
  with assms(1) show ?thesis unfolding well_formed_def by blast
qed

lemma plan_start:
  assumes wf: "well_formed p"
  shows "\<exists>deg dep. add_nodes (input_lists p) (zero_counters (List.map fst (node_map p))) = Inr (deg, dep) \<and>
    adj_edges dep = plan_edges p \<and> dependents_ok (inputs_of p) (plan_ids p) dep \<and>
    kahn_inv (inputs_of p) (plan_ids p) {} deg (List.map fst (filter (\<lambda>(k, d). d = 0) deg))"
proof -
  have d: "distinct (List.map en_id (ep_nodes p))" using wf by (simp add: well_formed_def)
  have ids: "fst ` set (input_lists p) = plan_ids p" by (auto simp: input_lists_def plan_ids_def image_image)
  have "set (snd n) \<subseteq> plan_ids p" if n: "n \<in> set (input_lists p)" for n
  proof
    fix a assume "a \<in> set (snd n)"
    with n have "(a, fst n) \<in> plan_edges p" by (auto simp: input_lists_def plan_edges_def)
    with wf show "a \<in> plan_ids p" by (rule known_input)
  qed
  note known = this
  have keys: "List.map fst (input_lists p) = List.map fst (node_map p)"
    by (simp add: input_lists_def node_map_distinct [OF d])
  have "distinct (List.map fst (input_lists p))" "distinct (List.map fst (node_map p))"
    using d unfolding keys by (simp_all add: node_map_distinct [OF d] comp_def)
  moreover have "set (List.map fst (node_map p)) = plan_ids p" using node_map_keys [of p] by simp
  ultimately obtain deg dep where r: "add_nodes (input_lists p) (zero_counters (List.map fst (node_map p))) = Inr (deg, dep)"
    and c: "\<And>a k. count_list (dict_items dep a) k = count_list (inputs_of p k) a"
    and o: "dependents_ok (inputs_of p) (plan_ids p) dep"
    and i: "kahn_inv (inputs_of p) (plan_ids p) {} deg (List.map fst (filter (\<lambda>(k, d). d = 0) deg))"
    using kahn_start [of "input_lists p" "List.map fst (node_map p)"] known
    unfolding ids input_lists_items [OF d] by blast
  have "adj_edges dep = plan_edges p"
    using c plan_edges_iff [OF d] by (auto simp: adj_edges_def count_list_pos [symmetric])
  with r o i show ?thesis by blast
qed

lemma topo_wave_order_staged:
  assumes wf: "well_formed p" and ac: "acyclic (plan_edges p)"
  shows "\<exists>ws. topo_wave_order p = Inr ws \<and> staged (inputs_of p) {} ws \<and> set (concat ws) = plan_ids p"
proof -
  have d: "distinct (List.map en_id (ep_nodes p))" using wf by (simp add: well_formed_def)
  obtain deg dep where r: "add_nodes (input_lists p) (zero_counters (List.map fst (node_map p))) = Inr (deg, dep)"
    and o: "dependents_ok (inputs_of p) (plan_ids p) dep"
    and i: "kahn_inv (inputs_of p) (plan_ids p) {} deg (List.map fst (filter (\<lambda>(k, d). d = 0) deg))"
    using plan_start [OF wf] by blast
  let ?ws = "waves dep deg (sort (List.map fst (filter (\<lambda>(k, d). d = 0) deg)))"
  from waves_staged [OF kahn_inv_sort [OF i] o] obtain deg' where
    s: "staged (inputs_of p) {} ?ws" and e: "kahn_inv (inputs_of p) (plan_ids p) (set (concat ?ws)) deg' []"
    by auto
  have "set (inputs_of p k) \<subseteq> plan_ids p" for k
    using known_input [OF wf] plan_edges_iff [OF d] by blast
  then have all: "set (concat ?ws) = plan_ids p"
  proof (intro kahn_complete [OF e])
    show "acyclic (input_edges (inputs_of p) (plan_ids p))"
      using ac by (simp only: inputs_edges [OF d])
  qed (simp_all add: plan_ids_def)
  have "length (concat ?ws) = card (set (concat ?ws))"
    using staged_distinct [OF s] by (metis distinct_card)
  also have "\<dots> = length (node_map p)" unfolding all plan_ids_def using d
    by (metis distinct_card length_map node_map_distinct [OF d] set_map)
  finally have "topo_wave_order p = Inr ?ws"
    using r by (simp add: topo_wave_order_def Let_def)
  with s all show ?thesis by blast
qed

lemma descendants_exact:
  assumes wf: "well_formed p"
  shows "\<exists>ds. descendants_of p k = Inr ds \<and> set ds = (plan_edges p)\<^sup>+ `` {k}"
proof -
  obtain deg dep where r: "add_nodes (input_lists p) (zero_counters (List.map fst (node_map p))) = Inr (deg, dep)"
    and e: "adj_edges dep = plan_edges p"
    using plan_start [OF wf] by blast
  have "set (queue_mark (\<lambda>k. True) dep [] (dict_items dep k)) = (plan_edges p)\<^sup>* `` set (dict_items dep k)"
    unfolding mark_reach e by simp
  also have "set (dict_items dep k) = plan_edges p `` {k}"
    using e by (auto simp: adj_edges_def)
  also have "(plan_edges p)\<^sup>* `` (plan_edges p `` {k}) = (plan_edges p)\<^sup>+ `` {k}"
    by (auto simp: Image_iff intro: rtrancl_into_trancl2 dest: tranclD)
  finally show ?thesis using r by (simp add: descendants_of_def)
qed

text \<open>
  C35. The schedule of an admitted plan exists and is a correct parallel order: the wave loop
  terminates without an error, every node is in exactly one wave, no wave is empty, and all inputs of
  a node are produced by strictly earlier waves.
\<close>

theorem waves_schedule_admitted:
  assumes "validate_plan p = None"
  shows "\<exists>ws. topo_wave_order p = Inr ws \<and> [] \<notin> set ws \<and> distinct (concat ws) \<and>
    set (concat ws) = en_id ` set (ep_nodes p) \<and>
    (\<forall>n \<in> set (ep_nodes p). \<forall>j < length ws. en_id n \<in> set (ws ! j) \<longrightarrow>
       (\<forall>src \<in> set (en_inputs n). \<exists>i < j. src \<in> set (ws ! i)))"
proof -
  have v: "distinct (List.map en_id (ep_nodes p))" "fst ` plan_edges p \<subseteq> plan_ids p" "acyclic (plan_edges p)"
    using assms unfolding validate_plan_iff by blast+
  then obtain ws where r: "topo_wave_order p = Inr ws" and s: "staged (inputs_of p) {} ws"
    and all: "set (concat ws) = plan_ids p"
    using topo_wave_order_staged [of p] by (auto simp: well_formed_def)
  have "[] \<notin> set ws" using staged_nonempty [OF s] .
  moreover have "\<exists>i < j. src \<in> set (ws ! i)"
    if "n \<in> set (ep_nodes p)" "j < length ws" "en_id n \<in> set (ws ! j)" "src \<in> set (en_inputs n)" for n j src
    using staged_nth [OF s that(2,3), of src] that(4) inputs_of_node [OF v(1) that(1)] by simp
  ultimately show ?thesis
    using r all staged_distinct [OF s] unfolding plan_ids_def by blast
qed

text \<open>
  Invalidation is exact: for an admitted plan, the nodes to run again are those whose
  fingerprint changed and everything downstream of them, no more and no less.
\<close>

theorem invalidation_exact:
  assumes "validate_plan p = None"
  shows "\<exists>out. invalidation_set digest p changed = Inr out \<and>
    set out = (plan_edges p)\<^sup>* ``
      {en_id n | n. n \<in> set (ep_nodes p) \<and> semantic_fingerprint digest n \<in> set changed}"
proof -
  have v: "well_formed p" and d: "distinct (List.map en_id (ep_nodes p))"
    using assms unfolding validate_plan_iff well_formed_def by blast+
  have desc: "\<exists>ds. descendants_of p k = Inr ds \<and> set ds = (plan_edges p)\<^sup>+ `` {k}" for k
    by (rule descendants_exact [OF v])
  have "\<exists>out. add_descendants p nids acc = Inr out \<and> set out = set acc \<union> (plan_edges p)\<^sup>+ `` set nids" for nids acc
  proof (induction nids arbitrary: acc)
    case Nil
    then show ?case by simp
  next
    case (Cons k nids)
    obtain ds where "descendants_of p k = Inr ds" "set ds = (plan_edges p)\<^sup>+ `` {k}" using desc by blast
    with Cons [of "acc @ ds"] show ?case by auto
  qed
  then obtain out where o: "invalidation_set digest p changed = Inr out"
    "set out = set (List.map en_id (filter (\<lambda>n. semantic_fingerprint digest n \<in> set changed) (ep_nodes p))) \<union>
      (plan_edges p)\<^sup>+ `` set (List.map en_id (filter (\<lambda>n. semantic_fingerprint digest n \<in> set changed) (ep_nodes p)))"
    unfolding invalidation_set_def Let_def by blast
  have "R \<union> (plan_edges p)\<^sup>+ `` R = (plan_edges p)\<^sup>* `` R" for R
    by (auto simp: rtrancl_eq_or_trancl)
  with o show ?thesis by (auto simp: image_def intro!: exI [of _ out])
qed

section \<open>Fingerprints and spelling\<close>

text \<open>
  Two values that are written differently but mean the same: the entries of a dictionary may
  stand in any order, at every depth.
\<close>

inductive same_value :: "pyval \<Rightarrow> pyval \<Rightarrow> bool" where
  same_refl: "same_value v v"
| same_list: "list_all2 same_value xs ys \<Longrightarrow> same_value (PList xs) (PList ys)"
| same_dict: "distinct (List.map fst d) \<Longrightarrow> list_all2 (\<lambda>p q. fst p = fst q \<and> same_value (snd p) (snd q)) d e \<Longrightarrow>
    mset e = mset e' \<Longrightarrow> same_value (PDict d) (PDict e')"

definition same_node :: "exec_node \<Rightarrow> exec_node \<Rightarrow> bool" where
  "same_node a b =
    (en_id a = en_id b \<and> en_category a = en_category b \<and> en_operation a = en_operation b \<and>
     mset (en_inputs a) = mset (en_inputs b) \<and>
     distinct (List.map fst (en_datasets a)) \<and> mset (en_datasets a) = mset (en_datasets b) \<and>
     same_value (PDict (en_parameters a)) (PDict (en_parameters b)) \<and>
     map_option allow_reproject (en_crs a) = map_option allow_reproject (en_crs b) \<and>
     map_option (map_option normalize_crs_ref \<circ> output_crs) (en_crs a) =
       map_option (map_option normalize_crs_ref \<circ> output_crs) (en_crs b) \<and>
     (\<forall>x \<in> {a, b}. \<forall>c. en_crs x = Some c \<longrightarrow> output_crs c \<noteq> Some []) \<and>
     en_produces a = en_produces b \<and> mset (en_accepts a) = mset (en_accepts b) \<and>
     en_partition a = en_partition b)"

lemma sort_key_same:
  assumes "mset xs = mset ys" and "distinct (List.map f xs)"
  shows "sort_key f xs = sort_key f ys"
proof (rule sort_key_inj_key_eq)
  show "mset xs = mset (sort_key f ys)" using assms(1) by simp
  show "inj_on f (set xs)" using assms(2) by (simp add: distinct_map)
  show "sorted (List.map f (sort_key f ys))" by simp
qed

lemma canonicalize_same:
  "same_value v w \<Longrightarrow> canonicalize n v = canonicalize n w"
proof (induction arbitrary: n rule: same_value.induct)
  case (same_refl v)
  show ?case by (rule refl)
next
  case (same_list xs ys)
  then have "List.map (canonicalize (Suc n)) xs = List.map (canonicalize (Suc n)) ys"
    by (induction rule: list_all2_induct) simp_all
  then show ?case by (simp add: canonicalize_list)
next
  case (same_dict d e e')
  let ?f = "\<lambda>(k, x). (k, canonicalize (Suc n) x)"
  from same_dict.IH have de: "List.map ?f d = List.map ?f e"
    by (induction rule: list_all2_induct) (simp_all add: case_prod_unfold)
  have "List.map fst (List.map ?f d) = List.map fst d" by (simp add: case_prod_unfold)
  with same_dict.hyps(1) have "distinct (List.map fst (List.map ?f e))" by (simp add: de del: map_map)
  moreover have "mset (List.map ?f e) = mset (List.map ?f e')" using same_dict.hyps(2) by simp
  ultimately have "sort_key fst (List.map ?f e) = sort_key fst (List.map ?f e')"
    by (intro sort_key_same)
  then show ?case by (simp only: canonicalize_dict de)
qed

lemma sort_mset: "mset xs = mset ys \<Longrightarrow> sort xs = sort ys"
  by (metis mset_sort sorted_list_of_multiset_mset)

lemma mset_concat_map_eq: "mset xs = mset ys \<Longrightarrow> mset (concat (List.map f xs)) = mset (concat (List.map f ys))"
proof -
  assume "mset xs = mset ys"
  then have "mset (List.map (mset \<circ> f) xs) = mset (List.map (mset \<circ> f) ys)" by simp
  then have "sum_mset (mset (List.map (mset \<circ> f) xs)) = sum_mset (mset (List.map (mset \<circ> f) ys))"
    by (rule arg_cong)
  then show ?thesis unfolding sum_mset_sum_list by (simp add: mset_concat comp_def)
qed

lemma normalized_crs_same:
  assumes "same_node a b"
  shows "normalized_crs a = normalized_crs b"
proof (cases "en_crs a")
  case None
  with assms show ?thesis by (cases "en_crs b") (simp_all add: same_node_def normalized_crs_def)
next
  case (Some c)
  then obtain c' where c': "en_crs b = Some c'"
    using assms by (cases "en_crs b") (simp_all add: same_node_def)
  have "map_option normalize_crs_ref (output_crs c) = map_option normalize_crs_ref (output_crs c')"
    "output_crs c \<noteq> Some []" "output_crs c' \<noteq> Some []" "allow_reproject c = allow_reproject c'"
    using assms Some c' by (simp_all add: same_node_def)
  then show ?thesis
    by (cases "output_crs c"; cases "output_crs c'")
       (simp_all add: normalized_crs_def Some c' opt_str_def)
qed

lemma payload_same:
  assumes "same_node a b"
  shows "canonicalize 0 (semantic_payload a) = canonicalize 0 (semantic_payload b)"
proof -
  let ?ds = "\<lambda>n. List.map (\<lambda>(k, v). (k, PStr v)) (en_datasets n)"
  have "sort (en_inputs a) = sort (en_inputs b)"
    "sort (List.map payload_value (en_accepts a)) = sort (List.map payload_value (en_accepts b))"
    using assms by (auto simp: same_node_def intro!: sort_mset)
  moreover have "sort_key fst (?ds a) = sort_key fst (?ds b)"
    using assms by (intro sort_key_same) (simp_all add: same_node_def case_prod_unfold comp_def)
  moreover have "canonicalize 1 (PDict (en_parameters a)) = canonicalize 1 (PDict (en_parameters b))"
    using assms by (auto simp: same_node_def intro: canonicalize_same)
  moreover have "normalized_crs a = normalized_crs b" using assms by (rule normalized_crs_same)
  ultimately have "List.map (\<lambda>(k, x). (k, canonicalize (Suc 0) x)) (semantic_fields a) =
      List.map (\<lambda>(k, x). (k, canonicalize (Suc 0) x)) (semantic_fields b)"
    using assms unfolding semantic_fields_def by (simp add: same_node_def)
  then show ?thesis
    by (simp only: semantic_payload_def canonicalize_dict)
qed

lemma fingerprint_same: "same_node a b \<Longrightarrow> semantic_fingerprint digest a = semantic_fingerprint digest b"
  using payload_same [of a b] by (simp add: semantic_fingerprint_def canonical_dumps_def)

text \<open>
  Fingerprints do not depend on spelling: two plans whose nodes correspond up to the order of
  nodes, inputs, datasets, accepted payloads and (nested) parameter entries and up to equivalent
  CRS references have the same graph fingerprint, for every digest.
\<close>

theorem fingerprint_ignores_spelling:
  assumes "list_all2 same_node (ep_nodes p) ns" and "mset ns = mset (ep_nodes q)"
  shows "graph_fingerprint digest p = graph_fingerprint digest q"
proof -
  let ?fps = "\<lambda>ns. List.map (semantic_fingerprint digest) ns"
  let ?edges = "\<lambda>ns. concat (List.map (\<lambda>n. List.map (\<lambda>src. src @ ''->'' @ en_id n) (en_inputs n)) ns)"
  have "?fps (ep_nodes p) = ?fps ns \<and> mset (?edges (ep_nodes p)) = mset (?edges ns)"
    using assms(1) by (induction rule: list_all2_induct) (auto simp: fingerprint_same same_node_def)
  moreover have "mset (?fps ns) = mset (?fps (ep_nodes q))" using assms(2) by simp
  moreover have "mset (?edges ns) = mset (?edges (ep_nodes q))"
    using assms(2) by (rule mset_concat_map_eq)
  ultimately have m: "mset (?fps (ep_nodes p)) = mset (?fps (ep_nodes q))"
    "mset (?edges (ep_nodes p)) = mset (?edges (ep_nodes q))" by simp_all
  show ?thesis unfolding graph_fingerprint_def sort_mset [OF m(1)] sort_mset [OF m(2)] by (rule refl)
qed

section \<open>A concrete plan\<close>

definition sample_exec_node :: "string \<Rightarrow> node_category \<Rightarrow> string list \<Rightarrow> (string \<times> pyval) list \<Rightarrow> exec_node" where
  "sample_exec_node i c ins ps = \<lparr>en_id = i, en_category = c, en_operation = [], en_inputs = ins, en_datasets = [],
     en_parameters = ps, en_crs = None, en_policy = IN_PROCESS, en_reuse = ALLOW, en_max_attempts = 1,
     en_produces = Some FEATURES, en_accepts = [FEATURES], en_deterministic = True, en_upstream_fps = [],
     en_partition = None\<rparr>"

definition sample_plan :: exec_plan where
  "sample_plan = \<lparr>ep_nodes = [sample_exec_node ''b'' EXPORT [''a''] [],
     sample_exec_node ''a'' QUERY [] [(''x'', PInt 1), (''y'', PInt 2)]], ep_max_nodes = 64\<rparr>"

lemma sample_plan_valid: "validate_plan sample_plan = None"
  by code_simp

lemma validate_plan_exact_witness:
  "acyclic (plan_edges sample_plan) \<and> payloads_fit sample_plan"
  using validate_plan_exact [of sample_plan] sample_plan_valid by simp

lemma waves_schedule_admitted_witness:
  "\<exists>ws. topo_wave_order sample_plan = Inr ws \<and> set (concat ws) = {''a'', ''b''}"
  using waves_schedule_admitted [OF sample_plan_valid]
  by (auto simp: sample_plan_def sample_exec_node_def)

lemma invalidation_exact_witness:
  "\<exists>out. invalidation_set (\<lambda>t. ''fp'') sample_plan [''fp''] = Inr out \<and> {''a'', ''b''} \<subseteq> set out"
proof -
  have "\<forall>n \<in> set (ep_nodes sample_plan). semantic_fingerprint (\<lambda>t. ''fp'') n \<in> set [''fp'']"
    by (simp add: semantic_fingerprint_def)
  then have "en_id ` set (ep_nodes sample_plan) \<subseteq> {en_id n | n. n \<in> set (ep_nodes sample_plan) \<and>
      semantic_fingerprint (\<lambda>t. ''fp'') n \<in> set [''fp'']}"
    by blast
  moreover have "en_id ` set (ep_nodes sample_plan) = {''a'', ''b''}"
    by (auto simp: sample_plan_def sample_exec_node_def)
  ultimately have "{''a'', ''b''} \<subseteq> {en_id n | n. n \<in> set (ep_nodes sample_plan) \<and>
      semantic_fingerprint (\<lambda>t. ''fp'') n \<in> set [''fp'']}"
    by simp
  with invalidation_exact [OF sample_plan_valid, of "\<lambda>t. ''fp''" "[''fp'']"] show ?thesis
    by (elim exE conjE) (intro exI conjI, assumption, blast)
qed

lemma fingerprint_ignores_spelling_witness:
  "graph_fingerprint id sample_plan = graph_fingerprint id \<lparr>ep_nodes =
     [sample_exec_node ''a'' QUERY [] [(''y'', PInt 2), (''x'', PInt 1)], sample_exec_node ''b'' EXPORT [''a''] []],
     ep_max_nodes = 8\<rparr>"
proof -
  let ?a = "sample_exec_node ''a'' QUERY [] [(''x'', PInt 1), (''y'', PInt 2)]"
  let ?a' = "sample_exec_node ''a'' QUERY [] [(''y'', PInt 2), (''x'', PInt 1)]"
  let ?b = "sample_exec_node ''b'' EXPORT [''a''] []"
  have "same_value (PDict [(''x'', PInt 1), (''y'', PInt 2)]) (PDict [(''y'', PInt 2), (''x'', PInt 1)])"
    by (rule same_dict [where e = "[(''x'', PInt 1), (''y'', PInt 2)]"]) (auto intro: same_refl)
  then have "same_node ?a ?a'" by (simp add: same_node_def sample_exec_node_def)
  moreover have "same_node ?b ?b" by (simp add: same_node_def sample_exec_node_def same_refl)
  ultimately have "list_all2 same_node (ep_nodes sample_plan) [?b, ?a']" by (simp add: sample_plan_def)
  then show ?thesis by (rule fingerprint_ignores_spelling) simp
qed

end
