(* ===== verification/Planning_Model.thy ===== *)
theory Planning_Model
  imports Py_Value Kahn
begin

text \<open>
  The canonical plan of the agent (\<open>app/services/planning\<close>): \<open>models.py\<close> (steps, plans, derived
  status, runnable steps) and \<open>deps.py\<close> (placeholders \<open>${step.path}\<close>, static validation of the
  dependencies, resolution of arguments). The iteration order of a Python set is the parameter
  \<open>order\<close>, any function that lists the elements of a list once each.
\<close>

section \<open>Plans\<close>

datatype plan_status = Proposed | Validated | Running | PartiallyCompleted | Completed | Failed
  | Cancelled | Superseded

definition TERMINAL_PLAN_STATUSES :: "plan_status list" where
  "TERMINAL_PLAN_STATUSES = [Completed, Failed, Cancelled, Superseded]"

definition plan_is_terminal :: "plan_status \<Rightarrow> bool" where
  "plan_is_terminal s = (s \<in> set TERMINAL_PLAN_STATUSES)"

datatype step_status = SPending | SRunning | SCompleted | SFailed | SSkipped | SCancelled

datatype failure_class = Validation | MissingRef | EmptyResult | NoData | Auth | ToolUnavailable
  | ResourceLimit | TransientNetwork | CancelledFailure | Internal

datatype recovery_action = CorrectArgs | ReuseRef | AlternateTool | ReplanRemaining | RetryTransient | Stop

record step_error =
  se_failure_class :: failure_class
  se_message :: string
  se_recovery_action :: "recovery_action option"
  se_tool_call_id :: "string option"

record plan_step =
  st_id :: string
  st_n :: int
  st_goal :: string
  st_tool_family :: "string option"
  st_tool_binding :: "string list option"
  st_tool :: "string option"
  st_args :: "(string \<times> pyval) list"
  st_depends_on :: "string list"
  st_status :: step_status
  st_result_ref :: "string option"
  st_error :: "step_error option"

record canonical_plan =
  cp_plan_id :: string
  cp_session_id :: string
  cp_intent :: string
  cp_domains :: "string list"
  cp_steps :: "plan_step list"
  cp_status :: plan_status
  cp_revision :: int
  cp_failure :: "step_error option"
  cp_created_at :: time
  cp_updated_at :: time

definition step_by_id :: "canonical_plan \<Rightarrow> string \<Rightarrow> plan_step option" where
  "step_by_id p i = List.find (\<lambda>s. st_id s = i) (cp_steps p)"

definition next_pending_steps :: "canonical_plan \<Rightarrow> plan_step list" where
  "next_pending_steps p = filter (\<lambda>s. st_status s = SPending \<and>
     list_all (\<lambda>d. case step_by_id p d of None \<Rightarrow> False | Some x \<Rightarrow> st_status x = SCompleted) (st_depends_on s))
     (cp_steps p)"

text \<open>The \<open>while True\<close> of \<open>recompute_status\<close>: pending steps behind a dead one, until no more.\<close>

definition newly_blocked :: "plan_step list \<Rightarrow> string list \<Rightarrow> string list" where
  "newly_blocked steps blocked = filter (\<lambda>i. i \<notin> set blocked)
     (List.map st_id (filter (\<lambda>s. st_status s = SPending \<and> list_ex (\<lambda>d. d \<in> set blocked) (st_depends_on s)) steps))"

function block_loop :: "plan_step list \<Rightarrow> string list \<Rightarrow> string list" where
  "block_loop steps blocked =
     (if newly_blocked steps blocked = [] then blocked
      else block_loop steps (blocked @ newly_blocked steps blocked))"
  by pat_completeness auto

termination
proof (relation "measure (\<lambda>(steps, blocked). card (st_id ` set steps - set blocked))", goal_cases)
  case 1
  show ?case by simp
next
  case (2 steps blocked)
  then obtain i where i: "i \<in> set (newly_blocked steps blocked)" by (cases "newly_blocked steps blocked") auto
  then have "i \<in> st_id ` set steps" "i \<notin> set blocked" by (auto simp: newly_blocked_def)
  with i have "st_id ` set steps - set (blocked @ newly_blocked steps blocked) \<subset> st_id ` set steps - set blocked"
    by auto
  then show ?case by (simp add: psubset_card_mono)
qed

declare block_loop.simps [simp del]

definition dead_statuses :: "step_status list" where
  "dead_statuses = [SFailed, SSkipped, SCancelled]"

definition blocked_ids :: "plan_step list \<Rightarrow> string list" where
  "blocked_ids steps = block_loop steps (List.map st_id (filter (\<lambda>s. st_status s \<in> set dead_statuses) steps))"

definition recompute_status :: "canonical_plan \<Rightarrow> plan_status" where
  "recompute_status p =
    (let steps = cp_steps p; blocked = blocked_ids steps;
         statuses = List.map (\<lambda>s. if st_status s = SPending \<and> st_id s \<in> set blocked then SSkipped else st_status s) steps;
         has_pending_or_running = list_ex (\<lambda>s. s \<in> {SPending, SRunning}) statuses;
         has_completed = list_ex (\<lambda>s. s = SCompleted) statuses;
         has_failed_or_skipped = list_ex (\<lambda>s. s \<in> {SFailed, SSkipped, SCancelled}) statuses
     in if steps = [] then cp_status p
        else if list_all (\<lambda>s. s = SCompleted) statuses then Completed
        else if list_ex (\<lambda>s. s = SRunning) statuses then Running
        else if has_completed \<and> has_failed_or_skipped \<and> \<not> has_pending_or_running then PartiallyCompleted
        else if \<not> has_pending_or_running \<and> has_failed_or_skipped
        then (if list_ex (\<lambda>s. s = SFailed) statuses then Failed
              else if list_ex (\<lambda>s. s = SCancelled) statuses then Cancelled else Failed)
        else cp_status p)"

definition bump_revision :: "time \<Rightarrow> canonical_plan \<Rightarrow> canonical_plan \<times> int" where
  "bump_revision now p = (p\<lparr>cp_revision := cp_revision p + 1, cp_updated_at := now\<rparr>, cp_revision p + 1)"

section \<open>Placeholders\<close>

definition ident_start :: "char \<Rightarrow> bool" where
  "ident_start c = (let n = char_code c in n = 95 \<or> (65 \<le> n \<and> n \<le> 90) \<or> (97 \<le> n \<and> n \<le> 122))"

definition path_char :: "char \<Rightarrow> bool" where
  "path_char c = (is_word_char c \<or> c = CHR ''.'')"

text \<open>One match of \<open>REF_PATTERN\<close> at the start of a text: step, path (empty when absent), rest.\<close>

definition match_ref :: "string \<Rightarrow> (string \<times> string \<times> string) option" where
  "match_ref s =
    (if \<not> prefix ''${'' s then None
     else let r = drop 2 s; i = takeWhile is_word_char r; r1 = dropWhile is_word_char r
       in if i = [] \<or> \<not> ident_start (hd i) then None
          else case r1 of
            [] \<Rightarrow> None
          | c # r2 \<Rightarrow>
              if c = CHR ''}'' then Some (i, [], r2)
              else if c = CHR ''.'' then
                (let p = takeWhile path_char r2; r3 = dropWhile path_char r2
                 in if p \<noteq> [] \<and> prefix ''}'' r3 then Some (i, p, drop 1 r3) else None)
              else None)"

lemma match_ref_shorter: "match_ref s = Some (i, p, rest) \<Longrightarrow> length rest < length s"
proof -
  assume m: "match_ref s = Some (i, p, rest)"
  let ?r = "drop 2 s" and ?r1 = "dropWhile is_word_char (drop 2 s)"
  have s: "prefix ''${'' s" and i: "takeWhile is_word_char ?r \<noteq> []"
    using m by (auto simp: match_ref_def Let_def split: if_splits)
  have "2 \<le> length s" using s by (auto dest: prefix_length_le)
  moreover have "length ?r1 \<le> length ?r" by (rule length_dropWhile_le)
  moreover have "?r1 \<noteq> []"
  proof
    assume e: "?r1 = []"
    have "match_ref s = None" unfolding match_ref_def Let_def e by simp
    with m show False by simp
  qed
  then obtain c r2 where r1: "?r1 = c # r2" by (cases ?r1) blast+
  moreover have "length ?r1 = Suc (length r2)" unfolding r1 by simp
  moreover have "length rest \<le> length r2"
    using m length_dropWhile_le [of path_char r2] unfolding match_ref_def Let_def r1
    by (auto split: if_splits)
  ultimately show ?thesis by simp
qed

text \<open>\<open>REF_PATTERN.finditer\<close>: the step ids named in a text.\<close>

function refs_in_text :: "string \<Rightarrow> string list" where
  "refs_in_text [] = []"
| "refs_in_text (c # cs) =
     (case match_ref (c # cs) of
        Some (i, p, rest) \<Rightarrow> i # refs_in_text rest
      | None \<Rightarrow> refs_in_text cs)"
  by pat_completeness auto
termination by (relation "measure length") (auto dest: match_ref_shorter)

fun extract_refs :: "pyval \<Rightarrow> string list" where
  "extract_refs (PStr s) = refs_in_text s"
| "extract_refs (PDict d) = concat (List.map (\<lambda>(k, v). extract_refs v) d)"
| "extract_refs (PList xs) = concat (List.map extract_refs xs)"
| "extract_refs v = []"

section \<open>Static validation\<close>

datatype ref_issue = DuplicateStep string | SelfDependency string | UnknownStep string string
  | ForwardReference string string | CyclicDependencies

definition set_order :: "(string list \<Rightarrow> string list) \<Rightarrow> bool" where
  "set_order order = (\<forall>xs. set (order xs) = set xs \<and> distinct (order xs))"

definition step_deps :: "plan_step \<Rightarrow> string list" where
  "step_deps s = st_depends_on s @ extract_refs (PDict (st_args s))"

definition other_deps :: "(string list \<Rightarrow> string list) \<Rightarrow> plan_step \<Rightarrow> string list" where
  "other_deps order s = order (filter (\<lambda>d. d \<noteq> st_id s) (step_deps s))"

fun index_steps :: "nat \<Rightarrow> plan_step list \<Rightarrow> (string \<times> nat) list \<Rightarrow> ref_issue list \<times> (string \<times> nat) list" where
  "index_steps i [] idx = ([], idx)"
| "index_steps i (s # ss) idx =
     (let (issues, idx') = index_steps (Suc i) ss (AList.update (st_id s) i idx)
      in ((if map_of idx (st_id s) \<noteq> None then [DuplicateStep (st_id s)] else []) @ issues, idx'))"

definition ref_issues :: "(string \<times> nat) list \<Rightarrow> plan_step \<Rightarrow> string \<Rightarrow> ref_issue list" where
  "ref_issues idx s r =
    (case map_of idx r of
       None \<Rightarrow> [UnknownStep (st_id s) r]
     | Some j \<Rightarrow> if j > or_else (map_of idx (st_id s)) 0 then [ForwardReference (st_id s) r] else [])"

definition topological_order ::
  "(string list \<Rightarrow> string list) \<Rightarrow> plan_step list \<Rightarrow> (string \<times> nat) list \<Rightarrow> string list option" where
  "topological_order order steps idx =
    (let ids = List.map fst idx;
         known = List.map (\<lambda>s. (st_id s, filter (\<lambda>d. d \<in> set ids) (other_deps order s))) steps
     in case add_nodes known (zero_counters ids) of
          Inl e \<Rightarrow> None
        | Inr (deg, edges) \<Rightarrow>
            (let res = queue_order edges deg (List.map fst (filter (\<lambda>(k, d). d = 0) deg))
             in if length res = length ids then Some res else None))"

definition validate_static_refs :: "(string list \<Rightarrow> string list) \<Rightarrow> plan_step list \<Rightarrow> ref_issue list" where
  "validate_static_refs order steps =
    (let (dups, idx) = index_steps 0 steps []
     in dups @
        concat (List.map (\<lambda>s. (if st_id s \<in> set (step_deps s) then [SelfDependency (st_id s)] else []) @
          concat (List.map (ref_issues idx s) (other_deps order s))) steps) @
        (if topological_order order steps idx = None then [CyclicDependencies] else []))"

section \<open>Resolution\<close>

record missing_ref =
  mr_step :: string
  mr_path :: string
  mr_available :: "string list"

definition is_slim :: "pyval \<Rightarrow> bool" where
  "is_slim v = (case v of PDict d \<Rightarrow> map_of d ''__slim__'' = Some (PBool True) | _ \<Rightarrow> False)"

text \<open>\<open>path.split(".")\<close>.\<close>

fun split_dots :: "string \<Rightarrow> string list" where
  "split_dots [] = [[]]"
| "split_dots (c # cs) =
     (if c = CHR ''.'' then [] # split_dots cs
      else case split_dots cs of w # ws \<Rightarrow> (c # w) # ws | [] \<Rightarrow> [[c]])"

fun walk_path :: "string list \<Rightarrow> pyval \<Rightarrow> pyval option" where
  "walk_path [] cur = Some cur"
| "walk_path (part # parts) cur =
     (if is_slim cur then None
      else case cur of
        PDict d \<Rightarrow> (case map_of d part of None \<Rightarrow> None | Some v \<Rightarrow> walk_path parts v)
      | PList xs \<Rightarrow> (case py_int part of
          None \<Rightarrow> None
        | Some idx \<Rightarrow> if idx < 0 \<or> idx \<ge> int (length xs) then None else walk_path parts (xs ! nat idx))
      | _ \<Rightarrow> None)"

definition resolve_path_ref :: "string \<Rightarrow> string \<Rightarrow> (string \<times> pyval) list \<Rightarrow> missing_ref + pyval" where
  "resolve_path_ref i pth results =
    (let missing = Inl \<lparr>mr_step = i, mr_path = pth, mr_available = List.map fst results\<rparr>
     in case map_of results i of
          None \<Rightarrow> missing
        | Some cur \<Rightarrow>
            if is_slim cur then missing
            else if pth = [] then Inr cur
            else case walk_path (split_dots pth) cur of None \<Rightarrow> missing | Some v \<Rightarrow> Inr v)"

text \<open>\<open>REF_PATTERN.sub\<close> with the resolving callback.\<close>

function subst_refs :: "(string \<times> pyval) list \<Rightarrow> string \<Rightarrow> missing_ref + string" where
  "subst_refs results [] = Inr []"
| "subst_refs results (c # cs) =
     (case match_ref (c # cs) of
        Some (i, p, rest) \<Rightarrow> (case resolve_path_ref i p results of
            Inl e \<Rightarrow> Inl e
          | Inr v \<Rightarrow> (case subst_refs results rest of Inl e \<Rightarrow> Inl e | Inr t \<Rightarrow> Inr (py_str v @ t)))
      | None \<Rightarrow> (case subst_refs results cs of Inl e \<Rightarrow> Inl e | Inr t \<Rightarrow> Inr (c # t)))"
  by pat_completeness auto
termination by (relation "measure (\<lambda>(results, s). length s)") (auto dest: match_ref_shorter)

text \<open>The comprehensions: results in order, the first error wins.\<close>

fun collect :: "('e + 'v) list \<Rightarrow> 'e + 'v list" where
  "collect [] = Inr []"
| "collect (x # xs) =
     (case x of Inl e \<Rightarrow> Inl e | Inr v \<Rightarrow> (case collect xs of Inl e \<Rightarrow> Inl e | Inr vs \<Rightarrow> Inr (v # vs)))"

fun resolve_arg_refs :: "(string \<times> pyval) list \<Rightarrow> pyval \<Rightarrow> missing_ref + pyval" where
  "resolve_arg_refs results (PStr s) =
     (case match_ref s of
        Some (i, p, []) \<Rightarrow> resolve_path_ref i p results
      | _ \<Rightarrow> (case subst_refs results s of Inl e \<Rightarrow> Inl e | Inr t \<Rightarrow> Inr (PStr t)))"
| "resolve_arg_refs results (PDict d) =
     (case collect (List.map (\<lambda>(k, v). resolve_arg_refs results v) d) of
        Inl e \<Rightarrow> Inl e | Inr vs \<Rightarrow> Inr (PDict (zip (List.map fst d) vs)))"
| "resolve_arg_refs results (PList xs) =
     (case collect (List.map (resolve_arg_refs results) xs) of
        Inl e \<Rightarrow> Inl e | Inr vs \<Rightarrow> Inr (PList vs))"
| "resolve_arg_refs results v = Inr v"

end
