(* ===== verification/Planning_Properties.thy ===== *)
theory Planning_Properties
  imports Planning_Model
begin

text \<open>
  What the static validation of a plan accepts, what the derived status means, why a plan that
  is not finished always has a step to run, and when arguments resolve.
\<close>

section \<open>Static validation\<close>

lemma index_steps_dups:
  "fst (index_steps i ss idx) = [] \<longleftrightarrow>
     distinct (List.map st_id ss) \<and> st_id ` set ss \<inter> fst ` set idx = {}"
proof (induction ss arbitrary: i idx)
  case Nil
  then show ?case by simp
next
  case (Cons s ss)
  show ?case
    using Cons [of "Suc i" "AList.update (st_id s) i idx"]
    by (auto simp: Let_def case_prod_unfold dict_keys_update map_of_eq_None_iff)
qed

lemma index_steps_new:
  "distinct (List.map st_id ss) \<Longrightarrow> st_id ` set ss \<inter> fst ` set idx = {} \<Longrightarrow>
   snd (index_steps i ss idx) = idx @ zip (List.map st_id ss) [i..<i + length ss]"
proof (induction ss arbitrary: i idx)
  case Nil
  then show ?case by simp
next
  case (Cons s ss)
  have new: "AList.update k v m = m @ [(k, v)]" if "k \<notin> fst ` set m" for k :: string and v :: nat and m
    using that by (induction m) auto
  have u: "AList.update (st_id s) i idx = idx @ [(st_id s, i)]"
    using Cons.prems by (intro new) auto
  have "snd (index_steps (Suc i) ss (idx @ [(st_id s, i)])) =
      (idx @ [(st_id s, i)]) @ zip (List.map st_id ss) [Suc i..<Suc i + length ss]"
    using Cons.prems by (intro Cons.IH) auto
  moreover have "[i..<i + length (s # ss)] = i # [Suc i..<Suc i + length ss]"
    by (subst upt_conv_Cons) simp_all
  ultimately show ?case by (simp add: Let_def case_prod_unfold u)
qed

definition earlier_deps :: "plan_step list \<Rightarrow> bool" where
  "earlier_deps steps =
    (\<forall>i < length steps. \<forall>d \<in> set (step_deps (steps ! i)). \<exists>j < i. st_id (steps ! j) = d)"

lemma index_of_step:
  assumes "distinct (List.map st_id steps)" and "i < length steps"
  shows "map_of (zip (List.map st_id steps) [0..<length steps]) (st_id (steps ! i)) = Some i"
proof -
  let ?z = "zip (List.map st_id steps) [0..<length steps]"
  have "?z ! i = (st_id (steps ! i), i)" using assms(2) by simp
  moreover have "i < length ?z" using assms(2) by simp
  ultimately have "(st_id (steps ! i), i) \<in> set ?z" by (metis nth_mem)
  moreover have "distinct (List.map fst ?z)" using assms(1) by simp
  ultimately show ?thesis by simp
qed

lemma index_of_None:
  "map_of (zip (List.map st_id steps) [0..<length steps]) d = None \<longleftrightarrow> (\<forall>j < length steps. st_id (steps ! j) \<noteq> d)"
proof -
  have "List.map fst (zip (List.map st_id steps) [0..<length steps]) = List.map st_id steps" by simp
  then have "fst ` set (zip (List.map st_id steps) [0..<length steps]) = st_id ` set steps"
    by (metis list.set_map)
  then show ?thesis unfolding map_of_eq_None_iff set_conv_nth [of steps] by auto
qed

lemma ref_issues_none:
  assumes d: "distinct (List.map st_id steps)" and i: "i < length steps" and ne: "r \<noteq> st_id (steps ! i)"
  shows "ref_issues (zip (List.map st_id steps) [0..<length steps]) (steps ! i) r = [] \<longleftrightarrow>
    (\<exists>j < i. st_id (steps ! j) = r)"
proof (cases "\<exists>j < length steps. st_id (steps ! j) = r")
  case True
  then obtain j where j: "j < length steps" "st_id (steps ! j) = r" by blast
  have "j \<noteq> i" using j ne by auto
  have uniq: "k = j" if "k < length steps" "st_id (steps ! k) = r" for k
    using index_of_step [OF d that(1)] index_of_step [OF d j(1)] that(2) j(2) by simp
  have "ref_issues (zip (List.map st_id steps) [0..<length steps]) (steps ! i) r = [] \<longleftrightarrow> \<not> j > i"
    using index_of_step [OF d j(1)] index_of_step [OF d i] j(2) by (simp add: ref_issues_def)
  also have "\<dots> \<longleftrightarrow> (\<exists>k < i. st_id (steps ! k) = r)"
  proof
    assume "\<not> i < j"
    with \<open>j \<noteq> i\<close> j(2) show "\<exists>k < i. st_id (steps ! k) = r" by (intro exI [of _ j]) simp
  next
    assume "\<exists>k < i. st_id (steps ! k) = r"
    then obtain k where "k < i" "st_id (steps ! k) = r" by blast
    with uniq [of k] i show "\<not> i < j" by simp
  qed
  finally show ?thesis .
next
  case False
  then have none: "map_of (zip (List.map st_id steps) [0..<length steps]) r = None"
    by (simp only: index_of_None) blast
  have "ref_issues (zip (List.map st_id steps) [0..<length steps]) (steps ! i) r \<noteq> []"
    unfolding ref_issues_def none by simp
  moreover have "\<not> (\<exists>j < i. st_id (steps ! j) = r)" using False i less_trans by blast
  ultimately show ?thesis by blast
qed

lemma topological_order_exists:
  assumes d: "distinct (List.map st_id steps)" and e: "earlier_deps steps" and o: "set_order order"
  shows "\<exists>res. topological_order order steps (zip (List.map st_id steps) [0..<length steps]) = Some res"
proof -
  let ?ids = "List.map fst (zip (List.map st_id steps) [0..<length steps])"
  have ids: "?ids = List.map st_id steps" by simp
  let ?ns = "List.map (\<lambda>s. (st_id s, filter (\<lambda>d. d \<in> set ?ids) (other_deps order s))) steps"
  have keys: "List.map fst ?ns = List.map st_id steps" by (simp add: comp_def)
  then have set_keys: "fst ` set ?ns = st_id ` set steps" by (metis image_set)
  obtain deg dep where r: "add_nodes ?ns (zero_counters ?ids) = Inr (deg, dep)"
    and ok: "dependents_ok (dict_items ?ns) (st_id ` set steps) dep"
    and inv: "kahn_inv (dict_items ?ns) (st_id ` set steps) {} deg (List.map fst (filter (\<lambda>(k, d). d = 0) deg))"
  proof -
    have "distinct (List.map fst ?ns)" using d unfolding keys .
    moreover have "set (snd n) \<subseteq> fst ` set ?ns" if "n \<in> set ?ns" for n
      unfolding set_keys using that unfolding ids by auto
    moreover have "distinct ?ids" using d unfolding ids .
    moreover have "set ?ids = fst ` set ?ns"
    proof -
      have "set ?ids = st_id ` set steps" by (simp only: ids list.set_map)
      then show ?thesis using set_keys by simp
    qed
    ultimately show thesis using kahn_start [of ?ns ?ids] that unfolding set_keys by blast
  qed
  let ?res = "queue_order dep deg (List.map fst (filter (\<lambda>(k, d). d = 0) deg))"
  from queue_staged [OF inv ok] obtain deg' where
    s: "staged (dict_items ?ns) {} (List.map (\<lambda>k. [k]) ?res)"
    and fin: "kahn_inv (dict_items ?ns) (st_id ` set steps) (set ?res) deg' []" by auto
  have item: "dict_items ?ns (st_id (steps ! i)) = filter (\<lambda>d. d \<in> set ?ids) (other_deps order (steps ! i))"
    if "i < length steps" for i
  proof -
    have "(st_id (steps ! i), filter (\<lambda>d. d \<in> set ?ids) (other_deps order (steps ! i))) \<in> set ?ns"
      using that by auto
    moreover have "distinct (List.map fst ?ns)" using d unfolding keys .
    ultimately have "map_of ?ns (st_id (steps ! i)) =
        Some (filter (\<lambda>d. d \<in> set ?ids) (other_deps order (steps ! i)))" by (intro map_of_is_SomeI)
    then show ?thesis unfolding dict_items_def by simp
  qed
  let ?idx = "\<lambda>k. or_else (map_of (zip (List.map st_id steps) [0..<length steps]) k) 0"
  have dec: "?idx a < ?idx b" if "(a, b) \<in> input_edges (dict_items ?ns) (st_id ` set steps)" for a b
  proof -
    from that have "b \<in> st_id ` set steps" and ab: "a \<in> set (dict_items ?ns b)" by (auto simp: input_edges_def)
    then obtain i where i: "i < length steps" "b = st_id (steps ! i)" by (auto simp: in_set_conv_nth)
    have "a \<in> set (step_deps (steps ! i))"
      using ab o unfolding i(2) item [OF i(1)] by (auto simp: other_deps_def set_order_def)
    then obtain j where "j < i" "st_id (steps ! j) = a" using e i(1) unfolding earlier_deps_def by blast
    with index_of_step [OF d, of j] index_of_step [OF d i(1)] i show ?thesis by simp
  qed
  have "?idx a < ?idx b" if "(a, b) \<in> (input_edges (dict_items ?ns) (st_id ` set steps))\<^sup>+" for a b
    using that
  proof (induction rule: trancl_induct)
    case (base y)
    then show ?case by (rule dec)
  next
    case (step y z)
    from step.IH dec [OF step.hyps(2)] show ?case by (rule less_trans)
  qed
  then have "acyclic (input_edges (dict_items ?ns) (st_id ` set steps))"
    unfolding acyclic_def by blast
  moreover have "set (dict_items ?ns k) \<subseteq> st_id ` set steps" if "k \<in> st_id ` set steps" for k
  proof -
    from that obtain i where i: "i < length steps" "k = st_id (steps ! i)" by (auto simp: in_set_conv_nth)
    have "set (dict_items ?ns k) \<subseteq> set ?ids" unfolding i(2) item [OF i(1)] by auto
    moreover have "set ?ids = st_id ` set steps" by (simp only: ids list.set_map)
    ultimately show ?thesis by simp
  qed
  ultimately have all: "set ?res = st_id ` set steps"
    by (intro kahn_complete [OF fin]) simp_all
  have "distinct ?res" using staged_distinct [OF s] by (simp add: comp_def concat_map_singleton)
  then have "length ?res = length steps"
    using all d by (metis distinct_card length_map list.set_map)
  then show ?thesis using r by (simp add: topological_order_def Let_def)
qed

lemma validate_static_refs_iff:
  assumes o: "set_order order"
  shows "validate_static_refs order steps = [] \<longleftrightarrow> distinct (List.map st_id steps) \<and> earlier_deps steps"
proof (cases "distinct (List.map st_id steps)")
  case False
  then show ?thesis
    using index_steps_dups [of 0 steps "[]"] by (auto simp: validate_static_refs_def case_prod_unfold Let_def)
next
  case d: True
  let ?z = "zip (List.map st_id steps) [0..<length steps]"
  have idx: "index_steps 0 steps [] = ([], ?z)"
    using index_steps_dups [of 0 steps "[]"] index_steps_new [OF d, of "[]" 0] d by (simp add: prod_eq_iff)
  have "(st_id s \<notin> set (step_deps s) \<and> (\<forall>r \<in> set (other_deps order s). ref_issues ?z s r = [])) \<longleftrightarrow>
      (\<forall>r \<in> set (step_deps s). \<exists>j < i. st_id (steps ! j) = r)"
    if "i < length steps" "s = steps ! i" for i s
  proof -
    have od: "set (other_deps order s) = set (step_deps s) - {st_id s}"
      using o by (auto simp: other_deps_def set_order_def)
    have self: "\<not> (\<exists>j < i. st_id (steps ! j) = st_id s)"
      using index_of_step [OF d] that by (metis less_irrefl less_trans option.inject)
    have ri: "ref_issues ?z s r = [] \<longleftrightarrow> (\<exists>j < i. st_id (steps ! j) = r)" if "r \<noteq> st_id s" for r
      using ref_issues_none [OF d \<open>i < length steps\<close>, of r] that \<open>s = steps ! i\<close> by simp
    show ?thesis using od self ri by (metis Diff_iff insert_iff empty_iff)
  qed
  note per_step = this
  have "(\<forall>s \<in> set steps. st_id s \<notin> set (step_deps s) \<and> (\<forall>r \<in> set (other_deps order s). ref_issues ?z s r = [])) \<longleftrightarrow>
      earlier_deps steps"
    unfolding earlier_deps_def all_set_conv_all_nth [of steps] using per_step by blast
  moreover have "validate_static_refs order steps = [] \<longleftrightarrow>
      (\<forall>s \<in> set steps. st_id s \<notin> set (step_deps s) \<and> (\<forall>r \<in> set (other_deps order s). ref_issues ?z s r = [])) \<and>
      topological_order order steps ?z \<noteq> None"
    by (auto simp: validate_static_refs_def idx concat_eq_Nil_conv)
  ultimately show ?thesis using topological_order_exists [OF d _ o] d by auto
qed

text \<open>
  Static validation accepts exactly the plans that can be executed in the order they are
  written: a plan has no issues if and only if its step ids are distinct and every dependency of a
  step, declared or written as a placeholder in its arguments, is the id of an earlier step. In
  particular the separate cycle check never rejects a plan the other checks accept.
\<close>

theorem validate_static_refs_exact:
  assumes "set_order order"
  shows "validate_static_refs order steps = [] \<longleftrightarrow>
    distinct (List.map st_id steps) \<and>
    (\<forall>i < length steps. \<forall>d \<in> set (st_depends_on (steps ! i)) \<union> set (extract_refs (PDict (st_args (steps ! i)))).
       \<exists>j < i. st_id (steps ! j) = d)"
  using validate_static_refs_iff [OF assms, of steps] unfolding earlier_deps_def step_deps_def by simp

section \<open>Derived status\<close>

definition block_edges :: "plan_step list \<Rightarrow> (string \<times> string) set" where
  "block_edges steps = {(d, st_id s) | d s. s \<in> set steps \<and> st_status s = SPending \<and> d \<in> set (st_depends_on s)}"

lemma block_loop_reach: "set (block_loop steps blocked) = (block_edges steps)\<^sup>* `` set blocked"
proof (induction steps blocked rule: block_loop.induct)
  case (1 steps blocked)
  have new: "set (newly_blocked steps blocked) = block_edges steps `` set blocked - set blocked"
    by (auto simp: newly_blocked_def block_edges_def list_ex_iff image_iff)
  show ?case
  proof (cases "newly_blocked steps blocked = []")
    case True
    then have "block_edges steps `` set blocked \<subseteq> set blocked" using new by auto
    then have "(block_edges steps)\<^sup>* `` set blocked = set blocked" by (rule Image_closed_trancl)
    with True show ?thesis by (simp add: block_loop.simps)
  next
    case False
    have "set (block_loop steps blocked) = (block_edges steps)\<^sup>* `` set (blocked @ newly_blocked steps blocked)"
      using 1 [OF False] False by (simp add: block_loop.simps [of steps blocked])
    also have "\<dots> = (block_edges steps)\<^sup>* `` set blocked"
      using new by (auto simp: Image_iff intro: converse_rtrancl_into_rtrancl)
    finally show ?thesis .
  qed
qed

interpretation blocked_closure: closure "block_loop steps" "block_edges steps" "\<lambda>i. True" for steps
  by unfold_locales (simp add: block_loop_reach)

definition dead_ids :: "plan_step list \<Rightarrow> string set" where
  "dead_ids steps = {st_id s | s. s \<in> set steps \<and> st_status s \<in> {SFailed, SSkipped, SCancelled}}"

lemma blocked_ids_reach: "set (blocked_ids steps) = (block_edges steps)\<^sup>* `` dead_ids steps"
proof -
  have "set (List.map st_id (filter (\<lambda>s. st_status s \<in> set dead_statuses) steps)) = dead_ids steps"
    by (auto simp: dead_ids_def dead_statuses_def)
  then show ?thesis by (simp add: blocked_ids_def block_loop_reach)
qed

text \<open>A pending step is hopeless when a failed, skipped or cancelled step lies behind it.\<close>

definition hopeless :: "plan_step list \<Rightarrow> plan_step \<Rightarrow> bool" where
  "hopeless steps s = (st_status s = SPending \<and> st_id s \<in> (block_edges steps)\<^sup>* `` dead_ids steps)"

text \<open>
  What the derived status of a plan with steps says. \<open>Completed\<close> is derived when every step
  completed; otherwise a running step makes it running; otherwise, while some pending step is not
  cut off by a failed, skipped or cancelled step (directly or through other pending steps), the
  status is left as it was; otherwise nothing can run any more, and the plan is partially completed
  when some step completed, failed when none did and one failed or only skips remain, and cancelled
  when none completed or failed and one was cancelled.
\<close>

theorem recompute_status_meaning:
  assumes "cp_steps p \<noteq> []"
  shows "recompute_status p =
    (let steps = cp_steps p; has = (\<lambda>x. \<exists>s \<in> set steps. st_status s = x)
     in if \<forall>s \<in> set steps. st_status s = SCompleted then Completed
        else if has SRunning then Running
        else if \<exists>s \<in> set steps. st_status s = SPending \<and> \<not> hopeless steps s then cp_status p
        else if has SCompleted then PartiallyCompleted
        else if has SFailed then Failed
        else if has SCancelled then Cancelled
        else Failed)"
proof -
  let ?steps = "cp_steps p"
  let ?st = "\<lambda>s. if st_status s = SPending \<and> st_id s \<in> set (blocked_ids ?steps) then SSkipped else st_status s"
  let ?has = "\<lambda>x. \<exists>s \<in> set ?steps. st_status s = x"
  have hop: "st_status s = SPending \<and> st_id s \<in> set (blocked_ids ?steps) \<longleftrightarrow> hopeless ?steps s" for s
    by (simp add: hopeless_def blocked_ids_reach)
  have la: "list_all P (List.map f xs) \<longleftrightarrow> (\<forall>s \<in> set xs. P (f s))"
    and le: "list_ex P (List.map f xs) \<longleftrightarrow> (\<exists>s \<in> set xs. P (f s))"
    for P and f :: "plan_step \<Rightarrow> step_status" and xs
    by (induction xs) auto
  have pt: "?st s = x \<longleftrightarrow> st_status s = x" if "x \<noteq> SPending" "x \<noteq> SSkipped" for s x
    using that by auto
  have all: "list_all (\<lambda>x. x = SCompleted) (List.map ?st ?steps) \<longleftrightarrow> (\<forall>s \<in> set ?steps. st_status s = SCompleted)"
    unfolding la by (subst pt) simp_all
  have run: "list_ex (\<lambda>x. x = SRunning) (List.map ?st ?steps) \<longleftrightarrow> ?has SRunning"
    unfolding le by (subst pt) simp_all
  have compl: "list_ex (\<lambda>x. x = SCompleted) (List.map ?st ?steps) \<longleftrightarrow> ?has SCompleted"
    unfolding le by (subst pt) simp_all
  have fail: "list_ex (\<lambda>x. x = SFailed) (List.map ?st ?steps) \<longleftrightarrow> ?has SFailed"
    unfolding le by (subst pt) simp_all
  have canc: "list_ex (\<lambda>x. x = SCancelled) (List.map ?st ?steps) \<longleftrightarrow> ?has SCancelled"
    unfolding le by (subst pt) simp_all
  have pend: "list_ex (\<lambda>x. x \<in> {SPending, SRunning}) (List.map ?st ?steps) \<longleftrightarrow>
      (\<exists>s \<in> set ?steps. st_status s = SPending \<and> \<not> hopeless ?steps s) \<or> ?has SRunning"
  proof -
    have "?st s \<in> {SPending, SRunning} \<longleftrightarrow> st_status s = SPending \<and> \<not> hopeless ?steps s \<or> st_status s = SRunning" for s
      unfolding hop by (auto simp: hopeless_def)
    then show ?thesis unfolding le by blast
  qed
  have dead: "list_ex (\<lambda>x. x \<in> {SFailed, SSkipped, SCancelled}) (List.map ?st ?steps) \<longleftrightarrow>
      (\<exists>s \<in> set ?steps. st_status s \<in> {SFailed, SSkipped, SCancelled} \<or> hopeless ?steps s)"
  proof -
    have "?st s \<in> {SFailed, SSkipped, SCancelled} \<longleftrightarrow>
        st_status s \<in> {SFailed, SSkipped, SCancelled} \<or> hopeless ?steps s" for s
      unfolding hop by (auto simp: hopeless_def)
    then show ?thesis unfolding le by blast
  qed
  have some: "(\<exists>s \<in> set ?steps. st_status s \<in> {SFailed, SSkipped, SCancelled} \<or> hopeless ?steps s)"
    if "\<not> (\<forall>s \<in> set ?steps. st_status s = SCompleted)" "\<not> ?has SRunning"
      "\<not> (\<exists>s \<in> set ?steps. st_status s = SPending \<and> \<not> hopeless ?steps s)"
  proof -
    from that(1) obtain s where "s \<in> set ?steps" "st_status s \<noteq> SCompleted" by blast
    with that(2,3) show ?thesis by (cases "st_status s") auto
  qed
  show ?thesis
    unfolding recompute_status_def Let_def all run compl fail canc pend dead
    using assms some by (simp only: if_False if_True) auto
qed

section \<open>Progress\<close>

lemma step_by_id_nth:
  assumes "distinct (List.map st_id (cp_steps p))" and "j < length (cp_steps p)"
  shows "step_by_id p (st_id (cp_steps p ! j)) = Some (cp_steps p ! j)"
proof -
  have "List.find (\<lambda>s. st_id s = st_id x) xs = Some x" if "distinct (List.map st_id xs)" "x \<in> set xs"
    for x and xs :: "plan_step list"
    using that by (induction xs) (auto simp: image_iff)
  then show ?thesis using assms by (simp add: step_by_id_def)
qed

lemma runnable_step:
  assumes d: "distinct (List.map st_id (cp_steps p))" and e: "earlier_deps (cp_steps p)"
    and s: "s \<in> set (cp_steps p)" "st_status s = SPending" "\<not> hopeless (cp_steps p) s"
    and idle: "\<forall>s \<in> set (cp_steps p). st_status s \<noteq> SRunning"
  shows "next_pending_steps p \<noteq> []"
proof -
  let ?steps = "cp_steps p"
  let ?live = "\<lambda>i. i < length ?steps \<and> st_status (?steps ! i) = SPending \<and> \<not> hopeless ?steps (?steps ! i)"
  define i where "i = (LEAST i. ?live i)"
  obtain k where "?live k" using s by (metis in_set_conv_nth)
  then have i: "?live i" unfolding i_def by (rule LeastI)
  have least: "\<not> ?live j" if "j < i" for j using that unfolding i_def by (rule not_less_Least)
  have mem: "?steps ! i \<in> set ?steps" using i by simp
  have "case step_by_id p x of None \<Rightarrow> False | Some y \<Rightarrow> st_status y = SCompleted"
    if x: "x \<in> set (st_depends_on (?steps ! i))" for x
  proof -
    have "x \<in> set (step_deps (?steps ! i))" using x by (simp add: step_deps_def)
    then obtain j where j: "j < i" "st_id (?steps ! j) = x"
      using e i unfolding earlier_deps_def by blast
    then have jl: "j < length ?steps" using i by simp
    let ?t = "?steps ! j"
    have edge: "(x, st_id (?steps ! i)) \<in> block_edges ?steps"
      using x i mem by (auto simp: block_edges_def)
    have no: "x \<notin> (block_edges ?steps)\<^sup>* `` dead_ids ?steps"
    proof
      assume "x \<in> (block_edges ?steps)\<^sup>* `` dead_ids ?steps"
      then have "st_id (?steps ! i) \<in> (block_edges ?steps)\<^sup>* `` dead_ids ?steps"
        using edge by (auto simp: Image_iff intro: rtrancl_into_rtrancl)
      with i show False by (simp add: hopeless_def)
    qed
    have "st_status ?t \<noteq> SPending"
    proof
      assume "st_status ?t = SPending"
      with least [OF j(1)] jl have "hopeless ?steps ?t" by blast
      with no j(2) show False by (simp add: hopeless_def)
    qed
    moreover have "st_status ?t \<noteq> SRunning" using idle jl by simp
    moreover have "st_status ?t \<notin> {SFailed, SSkipped, SCancelled}"
    proof
      assume "st_status ?t \<in> {SFailed, SSkipped, SCancelled}"
      moreover have "?t \<in> set ?steps" using jl by simp
      ultimately have "st_id ?t \<in> dead_ids ?steps" unfolding dead_ids_def by blast
      then have "x \<in> (block_edges ?steps)\<^sup>* `` dead_ids ?steps"
        unfolding j(2) by (intro ImageI [OF rtrancl_refl])
      with no show False by contradiction
    qed
    ultimately have "st_status ?t = SCompleted" by (cases "st_status ?t") auto
    with step_by_id_nth [OF d jl] j(2) show ?thesis by simp
  qed
  then have "?steps ! i \<in> set (next_pending_steps p)"
    using i mem by (auto simp: next_pending_steps_def list_all_iff)
  then show ?thesis by auto
qed

text \<open>
  C36. A validated plan never gets stuck: when static validation found no issue, no step is running
  and some pending step is not cut off by a failed, skipped or cancelled step, then there is a
  step that can be started now, so the driver always makes progress until the derived status is final.
\<close>

theorem validated_plan_never_stuck:
  assumes "set_order order" and "validate_static_refs order (cp_steps p) = []"
    and "\<exists>s \<in> set (cp_steps p). st_status s = SPending \<and> \<not> hopeless (cp_steps p) s"
    and "\<forall>s \<in> set (cp_steps p). st_status s \<noteq> SRunning"
  shows "next_pending_steps p \<noteq> []"
proof -
  have "distinct (List.map st_id (cp_steps p))" "earlier_deps (cp_steps p)"
    using assms(2) validate_static_refs_iff [OF assms(1)] by simp_all
  moreover obtain s where "s \<in> set (cp_steps p)" "st_status s = SPending" "\<not> hopeless (cp_steps p) s"
    using assms(3) by blast
  ultimately show ?thesis using assms(4) by (rule runnable_step)
qed

section \<open>Arguments\<close>

function text_placeholders :: "string \<Rightarrow> (string \<times> string) list" where
  "text_placeholders [] = []"
| "text_placeholders (c # cs) =
     (case match_ref (c # cs) of
        Some (i, p, rest) \<Rightarrow> (i, p) # text_placeholders rest
      | None \<Rightarrow> text_placeholders cs)"
  by pat_completeness auto
termination by (relation "measure length") (auto dest: match_ref_shorter)

fun placeholders :: "pyval \<Rightarrow> (string \<times> string) list" where
  "placeholders (PStr s) = text_placeholders s"
| "placeholders (PDict d) = concat (List.map (\<lambda>(k, v). placeholders v) d)"
| "placeholders (PList xs) = concat (List.map placeholders xs)"
| "placeholders v = []"

lemma refs_in_text_fst: "refs_in_text s = List.map fst (text_placeholders s)"
  by (induction s rule: refs_in_text.induct) (auto split: option.split)

lemma extract_refs_fst: "extract_refs v = List.map fst (placeholders v)"
  by (induction v rule: extract_refs.induct) (auto simp: refs_in_text_fst map_concat intro!: arg_cong [where f = concat])

definition good_ref :: "(string \<times> pyval) list \<Rightarrow> string \<times> string \<Rightarrow> bool" where
  "good_ref results ip = (\<exists>x. resolve_path_ref (fst ip) (snd ip) results = Inr x)"

definition bad_ref :: "(string \<times> pyval) list \<Rightarrow> (string \<times> string) list \<Rightarrow> missing_ref \<Rightarrow> bool" where
  "bad_ref results ps e = (\<exists>ip \<in> set ps. resolve_path_ref (fst ip) (snd ip) results = Inl e)"

text \<open>The outcome of a resolution, given the placeholders it meets and the value without any.\<close>

definition resolved :: "(string \<times> pyval) list \<Rightarrow> (string \<times> string) list \<Rightarrow> 'v \<Rightarrow> missing_ref + 'v \<Rightarrow> bool" where
  "resolved results ps v r =
    (case r of
       Inl e \<Rightarrow> bad_ref results ps e
     | Inr w \<Rightarrow> (\<forall>ip \<in> set ps. good_ref results ip) \<and> (ps = [] \<longrightarrow> w = v))"

lemma subst_refs_resolved: "resolved results (text_placeholders s) s (subst_refs results s)"
proof (induction results s rule: subst_refs.induct)
  case (1 results)
  show ?case by (simp add: resolved_def)
next
  case (2 results c cs)
  show ?case
  proof (cases "match_ref (c # cs)")
    case None
    with 2(1) [OF None] show ?thesis by (auto simp: resolved_def split: sum.splits)
  next
    case (Some m)
    obtain i p rest where m: "m = (i, p, rest)" by (cases m)
    show ?thesis
    proof (cases "resolve_path_ref i p results")
      case (Inl e)
      then show ?thesis using Some m by (simp add: resolved_def bad_ref_def)
    next
      case (Inr v)
      with 2(2) [OF Some m [symmetric] refl Inr] Some m show ?thesis
        by (auto simp: resolved_def bad_ref_def good_ref_def split: sum.splits)
    qed
  qed
qed

lemma collect_resolved:
  "(\<And>x. x \<in> set xs \<Longrightarrow> resolved results (ps x) (val x) (f x)) \<Longrightarrow>
   resolved results (concat (List.map ps xs)) (List.map val xs) (collect (List.map f xs))"
proof (induction xs)
  case Nil
  then show ?case by (simp add: resolved_def)
next
  case (Cons x xs)
  have "resolved results (ps x) (val x) (f x)"
    "resolved results (concat (List.map ps xs)) (List.map val xs) (collect (List.map f xs))"
    using Cons by auto
  then show ?case by (auto simp: resolved_def bad_ref_def split: sum.splits)
qed

lemma resolve_resolved: "resolved results (placeholders v) v (resolve_arg_refs results v)"
proof (induction results v rule: resolve_arg_refs.induct)
  case (1 results s)
  note sub = subst_refs_resolved [of results s]
  show ?case
  proof (cases "\<exists>i p. match_ref s = Some (i, p, [])")
    case True
    then obtain i p where m: "match_ref s = Some (i, p, [])" by blast
    then have "text_placeholders s = [(i, p)]"
      by (cases s) (simp_all add: match_ref_def Let_def)
    with m show ?thesis
      by (auto simp: resolved_def bad_ref_def good_ref_def split: sum.split)
  next
    case False
    then have "resolve_arg_refs results (PStr s) =
        (case subst_refs results s of Inl e \<Rightarrow> Inl e | Inr t \<Rightarrow> Inr (PStr t))"
      by (auto split: option.split list.split)
    with sub show ?thesis by (auto simp: resolved_def split: sum.splits)
  qed
next
  case (2 results d)
  have "resolved results (concat (List.map (\<lambda>(k, v). placeholders v) d)) (List.map snd d)
      (collect (List.map (\<lambda>(k, v). resolve_arg_refs results v) d))"
    by (rule collect_resolved) (auto intro: 2)
  then show ?case by (auto simp: resolved_def zip_map_fst_snd split: sum.splits)
next
  case (3 results xs)
  have "resolved results (concat (List.map placeholders xs)) (List.map id xs)
      (collect (List.map (resolve_arg_refs results) xs))"
    by (rule collect_resolved) (auto intro: 3)
  then show ?case by (auto simp: resolved_def split: sum.splits)
qed (simp_all add: resolved_def)

text \<open>
  Arguments never resolve to a made-up value: the resolution of an argument value succeeds if and
  only if every placeholder in it, at any depth, names a completed step whose result has the
  requested path; a failure reports one of the unresolvable placeholders; a value without placeholders
  is returned unchanged; and the steps named by the placeholders are the ones static validation
  looked at.
\<close>

theorem resolve_arg_refs_exact:
  "((\<exists>w. resolve_arg_refs results v = Inr w) \<longleftrightarrow>
      (\<forall>(i, path) \<in> set (placeholders v). \<exists>x. resolve_path_ref i path results = Inr x)) \<and>
   (\<forall>e. resolve_arg_refs results v = Inl e \<longrightarrow>
      (\<exists>(i, path) \<in> set (placeholders v). resolve_path_ref i path results = Inl e)) \<and>
   (placeholders v = [] \<longrightarrow> resolve_arg_refs results v = Inr v) \<and>
   List.map fst (placeholders v) = extract_refs v"
proof (cases "resolve_arg_refs results v")
  case (Inl e)
  with resolve_resolved [of results v] have "bad_ref results (placeholders v) e" by (simp add: resolved_def)
  with Inl show ?thesis by (force simp: bad_ref_def extract_refs_fst case_prod_unfold)
next
  case (Inr w)
  with resolve_resolved [of results v] show ?thesis
    by (auto simp: resolved_def good_ref_def extract_refs_fst)
qed

section \<open>A concrete plan\<close>

definition sample_step :: "string \<Rightarrow> (string \<times> pyval) list \<Rightarrow> string list \<Rightarrow> step_status \<Rightarrow> plan_step" where
  "sample_step i args deps st = \<lparr>st_id = i, st_n = 1, st_goal = [], st_tool_family = None, st_tool_binding = None,
     st_tool = None, st_args = args, st_depends_on = deps, st_status = st, st_result_ref = None, st_error = None\<rparr>"

definition sample_steps :: "plan_step list" where
  "sample_steps = [sample_step ''s1'' [] [] SCompleted,
     sample_step ''s2'' [(''data'', PStr ''${s1.ref}'')] [] SPending]"

definition sample_agent_plan :: canonical_plan where
  "sample_agent_plan = \<lparr>cp_plan_id = ''p'', cp_session_id = ''s'', cp_intent = [], cp_domains = [], cp_steps = sample_steps,
     cp_status = Running, cp_revision = 1, cp_failure = None, cp_created_at = 0, cp_updated_at = 0\<rparr>"

lemma remdups_order: "set_order remdups"
  by (simp add: set_order_def)

lemma sample_valid: "validate_static_refs remdups sample_steps = []"
  by code_simp

lemma validate_static_refs_exact_witness:
  "distinct (List.map st_id sample_steps) \<and> \<not> distinct (List.map st_id (sample_steps @ sample_steps)) \<and>
   validate_static_refs remdups (sample_steps @ sample_steps) \<noteq> []"
proof -
  have "distinct (List.map st_id sample_steps)"
    using sample_valid validate_static_refs_exact [OF remdups_order, of sample_steps] by blast
  moreover have "\<not> distinct (List.map st_id (sample_steps @ sample_steps))"
    by (simp add: sample_steps_def)
  ultimately show ?thesis
    using validate_static_refs_exact [OF remdups_order, of "sample_steps @ sample_steps"] by blast
qed

lemma sample_not_hopeless: "\<not> hopeless sample_steps (sample_step ''s2'' [(''data'', PStr ''${s1.ref}'')] [] SPending)"
proof -
  have "dead_ids sample_steps = {}" by (auto simp: dead_ids_def sample_steps_def sample_step_def)
  then show ?thesis by (simp add: hopeless_def)
qed

lemma validated_plan_never_stuck_witness: "next_pending_steps sample_agent_plan \<noteq> []"
proof -
  have steps: "cp_steps sample_agent_plan = sample_steps" by (simp add: sample_agent_plan_def)
  show ?thesis
  proof (rule validated_plan_never_stuck [OF remdups_order])
    show "validate_static_refs remdups (cp_steps sample_agent_plan) = []" by (simp add: steps sample_valid)
    show "\<exists>s \<in> set (cp_steps sample_agent_plan). st_status s = SPending \<and> \<not> hopeless (cp_steps sample_agent_plan) s"
      unfolding steps using sample_not_hopeless
      by (intro bexI [of _ "sample_step ''s2'' [(''data'', PStr ''${s1.ref}'')] [] SPending"])
         (simp_all add: sample_steps_def sample_step_def)
    show "\<forall>s \<in> set (cp_steps sample_agent_plan). st_status s \<noteq> SRunning"
      by (simp add: steps sample_steps_def sample_step_def)
  qed
qed

lemma recompute_status_meaning_witness:
  "recompute_status (sample_agent_plan\<lparr>cp_steps := [sample_step ''a'' [] [] SFailed, sample_step ''b'' [] [''a''] SPending]\<rparr>) = Failed"
proof -
  let ?a = "sample_step ''a'' [] [] SFailed" and ?b = "sample_step ''b'' [] [''a''] SPending"
  have "st_id ?a \<in> dead_ids [?a, ?b]"
    unfolding dead_ids_def by (intro CollectI exI [of _ ?a]) (simp add: sample_step_def)
  moreover have "(''a'', st_id ?b) \<in> block_edges [?a, ?b]"
    unfolding block_edges_def by (intro CollectI exI [of _ "''a''"] exI [of _ ?b]) (simp add: sample_step_def)
  ultimately have "''a'' \<in> dead_ids [?a, ?b]" "(''a'', ''b'') \<in> block_edges [?a, ?b]"
    by (simp_all add: sample_step_def)
  then have "''b'' \<in> (block_edges [?a, ?b])\<^sup>* `` dead_ids [?a, ?b]" by blast
  then have "hopeless [?a, ?b] ?b" by (simp add: hopeless_def sample_step_def)
  then show ?thesis
    using recompute_status_meaning [of "sample_agent_plan\<lparr>cp_steps := [?a, ?b]\<rparr>"]
    by (simp add: sample_step_def Let_def)
qed

lemma resolve_arg_refs_exact_witness:
  "(\<exists>w. resolve_arg_refs [(''s1'', PDict [(''ref'', PInt 7)])] (PStr ''${s1.ref}'') = Inr w) \<and>
   \<not> (\<exists>w. resolve_arg_refs [] (PStr ''${s1.ref}'') = Inr w)"
proof -
  have ph: "placeholders (PStr ''${s1.ref}'') = [(''s1'', ''ref'')]" by code_simp
  have "resolve_path_ref ''s1'' ''ref'' [(''s1'', PDict [(''ref'', PInt 7)])] = Inr (PInt 7)" by code_simp
  then have "\<exists>w. resolve_arg_refs [(''s1'', PDict [(''ref'', PInt 7)])] (PStr ''${s1.ref}'') = Inr w"
    using resolve_arg_refs_exact [of "[(''s1'', PDict [(''ref'', PInt 7)])]" "PStr ''${s1.ref}''"]
    unfolding ph by simp
  moreover have "\<not> (\<exists>x. resolve_path_ref ''s1'' ''ref'' [] = Inr x)" by (simp add: resolve_path_ref_def)
  then have "\<not> (\<exists>w. resolve_arg_refs [] (PStr ''${s1.ref}'') = Inr w)"
    using resolve_arg_refs_exact [of "[]" "PStr ''${s1.ref}''"] unfolding ph by simp
  ultimately show ?thesis by blast
qed

end
