(* ===== verification/Governor_Fairness.thy ===== *)
theory Governor_Fairness
  imports Py_Value "HOL-Library.Multiset" "HOL-Library.Product_Lexorder" "HOL-Library.List_Lexorder" "HOL-Library.Char_ord"
begin

text \<open>
  The fair waiting queue of one resource channel, \<open>app/services/governor/fairness.py\<close>. Floats
  (keys, weights, costs, seconds of the monotonic clock) are rational numbers. The binary heap of
  \<open>heapq\<close> is the list of its entries in ascending order of (key, sequence number): \<open>heappush\<close>
  inserts, the head is \<open>heap[0]\<close>. Sequence numbers come from one counter, so two entries never
  compare by their third component.
\<close>

section \<open>Waiters\<close>

definition AGING_BOOST :: rat where "AGING_BOOST = 1"
definition PRIORITY_PENALTY :: rat where "PRIORITY_PENALTY = 2"
definition CONSUMPTION_DECAY :: rat where "CONSUMPTION_DECAY = 1 / 2"
definition CONSUMPTION_CAP :: rat where "CONSUMPTION_CAP = 1000000000000"
definition MAX_CONSUMPTION_ENTRIES :: nat where "MAX_CONSUMPTION_ENTRIES = 4096"

record fair_waiter =
  fw_session :: string
  fw_weight :: rat
  fw_priority :: int
  fw_small :: bool
  fw_est_cost :: rat
  fw_enqueued_at :: rat
  fw_seq :: nat
  fw_snapshot :: rat

definition effective_key :: "rat \<Rightarrow> rat \<Rightarrow> fair_waiter \<Rightarrow> rat" where
  "effective_key now threshold w =
    (let wait = max 0 (now - fw_enqueued_at w);
         aging = (if threshold > 0 then (wait / threshold) * AGING_BOOST else 0);
         weight = max (1 / 1000000) (fw_weight w);
         base = fw_snapshot w / weight
     in base - aging + of_int (fw_priority w) * PRIORITY_PENALTY)"

section \<open>The scheduler\<close>

type_synonym heap_entry = "rat \<times> nat \<times> fair_waiter"

record fair_scheduler =
  fs_capacity :: nat
  fs_aging :: rat
  fs_heavy_capacity :: nat
  fs_in_flight :: nat
  fs_in_flight_small :: nat
  fs_heap :: "heap_entry list"
  fs_members :: "(nat \<times> fair_waiter) list"
  fs_consumption :: "(string \<times> rat) list"

definition new_scheduler :: "nat \<Rightarrow> rat \<Rightarrow> bool \<Rightarrow> fair_scheduler option" where
  "new_scheduler capacity aging bypass =
    (if capacity < 1 then None
     else Some \<lparr>fs_capacity = capacity, fs_aging = aging,
       fs_heavy_capacity = (if bypass \<and> capacity > 1 then capacity - 1 else capacity),
       fs_in_flight = 0, fs_in_flight_small = 0, fs_heap = [], fs_members = [], fs_consumption = []\<rparr>)"

definition waiting_count :: "fair_scheduler \<Rightarrow> nat" where
  "waiting_count s = length (fs_members s)"

definition waiting_sessions :: "fair_scheduler \<Rightarrow> nat" where
  "waiting_sessions s = card (set (List.map (fw_session \<circ> snd) (fs_members s)))"

definition consumption_of :: "fair_scheduler \<Rightarrow> string \<Rightarrow> rat" where
  "consumption_of s sid = or_else (map_of (fs_consumption s) sid) 0"

text \<open>\<open>min\<close> over the other sessions by (value, session id).\<close>

fun min_entry :: "(string \<times> rat) list \<Rightarrow> (string \<times> rat) option" where
  "min_entry [] = None"
| "min_entry (e # es) = (case min_entry es of
     None \<Rightarrow> Some e
   | Some m \<Rightarrow> if (snd m, fst m) < (snd e, fst e) then Some m else Some e)"

definition record_consumption :: "string \<Rightarrow> rat \<Rightarrow> fair_scheduler \<Rightarrow> fair_scheduler" where
  "record_consumption sid v s =
    (let c = AList.update sid v (fs_consumption s)
     in if length c \<le> MAX_CONSUMPTION_ENTRIES then s\<lparr>fs_consumption := c\<rparr>
        else case min_entry (filter (\<lambda>e. fst e \<noteq> sid) c) of
          None \<Rightarrow> s\<lparr>fs_consumption := c\<rparr>
        | Some victim \<Rightarrow> s\<lparr>fs_consumption := AList.delete (fst victim) c\<rparr>)"

definition admit :: "fair_waiter \<Rightarrow> fair_scheduler \<Rightarrow> fair_scheduler" where
  "admit w s =
    (let s1 = s\<lparr>fs_in_flight := fs_in_flight s + 1,
                fs_in_flight_small := (if fw_small w then fs_in_flight_small s + 1 else fs_in_flight_small s)\<rparr>
     in record_consumption (fw_session w) (min (consumption_of s1 (fw_session w) + fw_est_cost w) CONSUMPTION_CAP) s1)"

definition try_grant_immediate :: "fair_waiter \<Rightarrow> fair_scheduler \<Rightarrow> fair_scheduler \<times> bool" where
  "try_grant_immediate w s =
    (if fs_in_flight s \<ge> fs_capacity s then (s, False)
     else if \<not> fw_small w \<and> fs_in_flight s \<ge> fs_heavy_capacity s then (s, False)
     else (admit w s, True))"

definition entry_key :: "heap_entry \<Rightarrow> rat \<times> nat" where
  "entry_key e = (fst e, fst (snd e))"

definition heappush :: "heap_entry \<Rightarrow> heap_entry list \<Rightarrow> heap_entry list" where
  "heappush e h = insort_key entry_key e h"

definition position_of :: "nat \<Rightarrow> fair_scheduler \<Rightarrow> int" where
  "position_of seq s =
    (let order = sort (List.map fst (fs_members s))
     in if seq \<in> set order then int (length (takeWhile (\<lambda>x. x \<noteq> seq) order)) else -1)"

definition enqueue :: "rat \<Rightarrow> fair_waiter \<Rightarrow> fair_scheduler \<Rightarrow> fair_scheduler \<times> int" where
  "enqueue now w s =
    (let w' = w\<lparr>fw_snapshot := consumption_of s (fw_session w)\<rparr>;
         key = effective_key now (fs_aging s) w';
         s' = s\<lparr>fs_heap := heappush (key, fw_seq w, w') (fs_heap s),
                fs_members := AList.update (fw_seq w) w' (fs_members s)\<rparr>
     in (s', position_of (fw_seq w) s'))"

text \<open>
  The scan of \<open>pop_next_grantable\<close>: stale heads are dropped, a heavy head that only the reserved slot
  could take is stashed. The result is the granted waiter, the rest of the heap and the stash.
\<close>

definition grantable :: "fair_scheduler \<Rightarrow> fair_waiter \<Rightarrow> bool" where
  "grantable s w = (fw_small w \<or> fs_in_flight s < fs_heavy_capacity s)"

fun pop_scan ::
  "fair_scheduler \<Rightarrow> heap_entry list \<Rightarrow> heap_entry list \<Rightarrow>
   fair_waiter option \<times> heap_entry list \<times> heap_entry list" where
  "pop_scan s [] stash = (None, [], stash)"
| "pop_scan s ((key, seq, w) # heap) stash =
     (if map_of (fs_members s) seq = None then pop_scan s heap stash
      else if fs_in_flight s \<ge> fs_capacity s then (None, (key, seq, w) # heap, stash)
      else if grantable s w then (Some w, heap, stash)
      else pop_scan s heap (stash @ [(key, seq, w)]))"

definition pop_next_grantable :: "fair_scheduler \<Rightarrow> fair_scheduler \<times> fair_waiter option" where
  "pop_next_grantable s =
    (let (res, heap, stash) = pop_scan s (fs_heap s) [];
         heap' = fold heappush stash heap
     in case res of
          None \<Rightarrow> (s\<lparr>fs_heap := heap'\<rparr>, None)
        | Some w \<Rightarrow> ((admit w (s\<lparr>fs_members := AList.delete (fw_seq w) (fs_members s)\<rparr>))\<lparr>fs_heap := heap'\<rparr>, Some w))"

definition cancel :: "nat \<Rightarrow> fair_scheduler \<Rightarrow> fair_scheduler \<times> bool" where
  "cancel seq s = (s\<lparr>fs_members := AList.delete seq (fs_members s)\<rparr>, map_of (fs_members s) seq \<noteq> None)"

definition complete :: "string \<Rightarrow> bool \<Rightarrow> rat \<Rightarrow> fair_scheduler \<Rightarrow> fair_scheduler" where
  "complete sid small actual_cost s =
    (let s1 = s\<lparr>fs_in_flight := fs_in_flight s - 1,
                fs_in_flight_small := (if small then fs_in_flight_small s - 1 else fs_in_flight_small s)\<rparr>;
         nxt = (consumption_of s1 sid + max 0 actual_cost) * CONSUMPTION_DECAY
     in record_consumption sid (min nxt CONSUMPTION_CAP) s1)"

definition next_key_preview :: "fair_scheduler \<Rightarrow> rat option" where
  "next_key_preview s = (case fs_heap s of [] \<Rightarrow> None | e # h \<Rightarrow> Some (fst e))"

definition is_mathematically_sane :: "fair_scheduler \<Rightarrow> bool" where
  "is_mathematically_sane s =
    (fs_in_flight s \<le> fs_capacity s \<and>
     list_all (\<lambda>m. fst m \<in> set (List.map (fst \<circ> snd) (fs_heap s))) (fs_members s))"

definition fair_share_snapshot :: "(string \<times> rat) list \<Rightarrow> (string \<times> rat) list" where
  "fair_share_snapshot c =
    (let total = sum_list (List.map snd c)
     in if total \<le> 0 then List.map (\<lambda>(k, v). (k, 0)) c
        else List.map (\<lambda>(k, v). (k, v / total)) (filter (\<lambda>(k, v). v > 0) c))"

section \<open>What the bookkeeping touches\<close>

lemma record_consumption_fields [simp]:
  "fs_capacity (record_consumption sid v s) = fs_capacity s"
  "fs_aging (record_consumption sid v s) = fs_aging s"
  "fs_heavy_capacity (record_consumption sid v s) = fs_heavy_capacity s"
  "fs_in_flight (record_consumption sid v s) = fs_in_flight s"
  "fs_heap (record_consumption sid v s) = fs_heap s"
  "fs_members (record_consumption sid v s) = fs_members s"
  by (simp_all add: record_consumption_def Let_def split: option.split)

lemma admit_fields [simp]:
  "fs_capacity (admit w s) = fs_capacity s"
  "fs_aging (admit w s) = fs_aging s"
  "fs_heavy_capacity (admit w s) = fs_heavy_capacity s"
  "fs_in_flight (admit w s) = Suc (fs_in_flight s)"
  "fs_heap (admit w s) = fs_heap s"
  "fs_members (admit w s) = fs_members s"
  by (simp_all add: admit_def Let_def)

lemma complete_fields [simp]:
  "fs_capacity (complete sid small c s) = fs_capacity s"
  "fs_aging (complete sid small c s) = fs_aging s"
  "fs_heavy_capacity (complete sid small c s) = fs_heavy_capacity s"
  "fs_in_flight (complete sid small c s) = fs_in_flight s - 1"
  "fs_heap (complete sid small c s) = fs_heap s"
  "fs_members (complete sid small c s) = fs_members s"
  by (simp_all add: complete_def Let_def)

lemma set_heappush [simp]: "set (heappush e h) = insert e (set h)"
  by (simp add: heappush_def set_insort_key)

lemma set_fold_heappush: "set (fold heappush es h) = set es \<union> set h"
  by (induction es arbitrary: h) auto

lemma mset_fold_heappush: "mset (fold heappush es h) = mset es + mset h"
  by (induction es arbitrary: h) (auto simp: heappush_def)

definition heap_sorted :: "heap_entry list \<Rightarrow> bool" where
  "heap_sorted h = sorted (List.map entry_key h)"

lemma heappush_sorted: "heap_sorted h \<Longrightarrow> heap_sorted (heappush e h)"
  by (simp add: heap_sorted_def heappush_def sorted_insort_key)

lemma fold_heappush_sorted: "heap_sorted h \<Longrightarrow> heap_sorted (fold heappush es h)"
  by (induction es arbitrary: h) (auto simp: heappush_sorted)

section \<open>The waiting list behind the heap\<close>

text \<open>
  What the heap and the membership table stand for: the waiters that were not cancelled, in the
  order of their keys. Cancelled entries stay in the heap until the scan meets them.
\<close>

definition entry_seq :: "heap_entry \<Rightarrow> nat" where
  "entry_seq e = fst (snd e)"

definition live :: "fair_scheduler \<Rightarrow> heap_entry \<Rightarrow> bool" where
  "live s e = (map_of (fs_members s) (entry_seq e) \<noteq> None)"

definition waiting_entries :: "fair_scheduler \<Rightarrow> heap_entry list" where
  "waiting_entries s = filter (live s) (fs_heap s)"

definition sched_ok :: "fair_scheduler \<Rightarrow> bool" where
  "sched_ok s = (distinct (List.map fst (fs_members s)) \<and>
     distinct (List.map entry_seq (fs_heap s)) \<and> heap_sorted (fs_heap s) \<and>
     (\<forall>e \<in> set (fs_heap s). fw_seq (snd (snd e)) = entry_seq e) \<and>
     (\<forall>m \<in> set (fs_members s). \<exists>k. (k, fst m, snd m) \<in> set (fs_heap s)) \<and>
     0 < fs_heavy_capacity s \<and> fs_heavy_capacity s \<le> fs_capacity s \<and>
     fs_in_flight s \<le> fs_capacity s)"

lemma new_scheduler_ok: "new_scheduler n a b = Some s \<Longrightarrow> sched_ok s \<and> fs_heap s = [] \<and> fs_in_flight s = 0 \<and> fs_members s = [] \<and> fs_capacity s = n"
  by (auto simp: new_scheduler_def sched_ok_def heap_sorted_def split: if_splits)

lemma entry_key_seq: "entry_key e = entry_key e' \<Longrightarrow> entry_seq e = entry_seq e'"
  by (simp add: entry_key_def entry_seq_def)

lemma distinct_seqs_keys: "distinct (List.map entry_seq h) \<Longrightarrow> distinct (List.map entry_key h)"
  by (induction h) (auto simp: entry_key_def entry_seq_def)

lemma distinct_seqs_inj: "distinct (List.map entry_seq h) \<Longrightarrow> inj_on entry_key (set h)"
  using distinct_seqs_keys [of h] by (simp add: distinct_map)

lemma sorted_entries_unique:
  assumes "heap_sorted xs" and "heap_sorted ys" and "distinct (List.map entry_seq xs)"
    and "distinct (List.map entry_seq ys)" and "set xs = set ys"
  shows "xs = ys"
proof (rule map_sorted_distinct_set_unique)
  show "inj_on entry_key (set xs \<union> set ys)"
    using distinct_seqs_inj [OF assms(4)] assms(5) by simp
qed (use assms distinct_seqs_keys in \<open>auto simp: heap_sorted_def\<close>)

lemma sorted_filter_entries: "heap_sorted h \<Longrightarrow> heap_sorted (filter P h)"
  by (simp add: heap_sorted_def sorted_filter)

lemma distinct_filter_entries: "distinct (List.map entry_seq h) \<Longrightarrow> distinct (List.map entry_seq (filter P h))"
  by (simp add: distinct_map_filter)

lemma sched_ok_waiting:
  "sched_ok s \<Longrightarrow> heap_sorted (waiting_entries s)"
  "sched_ok s \<Longrightarrow> distinct (List.map entry_seq (waiting_entries s))"
  by (auto simp: sched_ok_def waiting_entries_def sorted_filter_entries distinct_filter_entries)

lemma live_iff: "live s e \<longleftrightarrow> entry_seq e \<in> fst ` set (fs_members s)"
  by (simp add: live_def map_of_eq_None_iff)

text \<open>The scan stops at the first live entry that may be granted.\<close>

lemma pop_scan_full:
  assumes "fs_in_flight s \<ge> fs_capacity s"
  shows "pop_scan s h st = (None, dropWhile (\<lambda>e. \<not> live s e) h, st)"
  using assms by (induction s h st rule: pop_scan.induct) (auto simp: live_def entry_seq_def)

lemma pop_scan_find:
  assumes "fs_in_flight s < fs_capacity s"
  shows "case find (\<lambda>e. live s e \<and> grantable s (snd (snd e))) h of
      None \<Rightarrow> pop_scan s h st = (None, [], st @ filter (live s) h)
    | Some e \<Rightarrow> \<exists>pre post. h = pre @ e # post \<and> live s e \<and> grantable s (snd (snd e)) \<and>
        pop_scan s h st = (Some (snd (snd e)), post, st @ filter (live s) pre)"
  using assms
proof (induction s h st rule: pop_scan.induct)
  case (2 s key seq w heap stash)
  let ?e = "(key, seq, w)"
  show ?case
  proof (cases "live s ?e \<and> grantable s w")
    case True
    then have "pop_scan s (?e # heap) stash = (Some w, heap, stash)"
      using 2 by (auto simp: live_def entry_seq_def)
    then show ?thesis using True by (auto intro!: exI [of _ "[]"])
  next
    case False
    let ?st = "if live s ?e then stash @ [?e] else stash"
    have scan: "pop_scan s (?e # heap) stash = pop_scan s heap ?st"
      using False 2 by (auto simp: live_def entry_seq_def)
    have IH: "case find (\<lambda>e. live s e \<and> grantable s (snd (snd e))) heap of
        None \<Rightarrow> pop_scan s heap ?st = (None, [], ?st @ filter (live s) heap)
      | Some e \<Rightarrow> \<exists>pre post. heap = pre @ e # post \<and> live s e \<and> grantable s (snd (snd e)) \<and>
          pop_scan s heap ?st = (Some (snd (snd e)), post, ?st @ filter (live s) pre)"
      using False 2 by (auto simp: live_def entry_seq_def)
    show ?thesis
    proof (cases "find (\<lambda>e. live s e \<and> grantable s (snd (snd e))) heap")
      case None
      then show ?thesis using IH scan False by (auto split: if_splits)
    next
      case (Some e)
      then obtain pre post where "heap = pre @ e # post" "live s e" "grantable s (snd (snd e))"
        "pop_scan s heap ?st = (Some (snd (snd e)), post, ?st @ filter (live s) pre)"
        using IH by auto
      then show ?thesis using Some scan False
        by (auto split: if_splits intro!: exI [of _ "?e # pre"])
    qed
  qed
qed simp

text \<open>
  \<open>pop_next_grantable\<close> on the waiting list: with a free slot it grants the least waiter by
  (key, arrival) among those the slot may go to, and removes only that one.
\<close>

definition least_grantable :: "fair_scheduler \<Rightarrow> heap_entry option" where
  "least_grantable s = find (\<lambda>e. fs_in_flight s < fs_capacity s \<and> grantable s (snd (snd e))) (waiting_entries s)"

lemma find_filter: "find P (filter Q xs) = find (\<lambda>x. Q x \<and> P x) xs"
  by (induction xs) auto

lemma find_Some_in: "find P xs = Some x \<Longrightarrow> x \<in> set xs \<and> P x"
  by (auto simp: find_Some_iff)

lemma sched_ok_heap_change:
  assumes ok: "sched_ok s" and sub: "set h \<subseteq> set (fs_heap s)" and live: "\<forall>e \<in> set (fs_heap s). live s e \<longrightarrow> e \<in> set h"
    and d: "distinct (List.map entry_seq h)" and so: "heap_sorted h"
  shows "sched_ok (s\<lparr>fs_heap := h\<rparr>) \<and> waiting_entries (s\<lparr>fs_heap := h\<rparr>) = waiting_entries s"
proof -
  have live': "live (s\<lparr>fs_heap := h\<rparr>) = live s"
    by (rule ext) (simp add: live_def)
  have ok': "sched_ok (s\<lparr>fs_heap := h\<rparr>)"
    unfolding sched_ok_def
  proof (intro conjI ballI)
    fix m
    assume m: "m \<in> set (fs_members (s\<lparr>fs_heap := h\<rparr>))"
    then obtain k where k: "(k, fst m, snd m) \<in> set (fs_heap s)"
      using ok by (auto simp: sched_ok_def)
    have "live s (k, fst m, snd m)"
      using m by (simp add: live_iff entry_seq_def)
    then show "\<exists>k. (k, fst m, snd m) \<in> set (fs_heap (s\<lparr>fs_heap := h\<rparr>))"
      using k live by auto
  qed (use ok sub d so in \<open>auto simp: sched_ok_def\<close>)
  have "waiting_entries (s\<lparr>fs_heap := h\<rparr>) = waiting_entries s"
  proof (rule sorted_entries_unique)
    show "set (waiting_entries (s\<lparr>fs_heap := h\<rparr>)) = set (waiting_entries s)"
      using sub live by (auto simp: waiting_entries_def live')
  qed (use ok ok' in \<open>simp_all add: sched_ok_waiting\<close>)
  with ok' show ?thesis by simp
qed

lemma distinct_entries_mset:
  "mset xs = mset ys \<Longrightarrow> distinct (List.map entry_seq xs) = distinct (List.map entry_seq ys)"
  by (metis distinct_count_atmost_1 mset_map mset_eq_imp_distinct_iff)

lemma pop_none:
  assumes ok: "sched_ok s" and none: "least_grantable s = None"
  shows "\<exists>h. pop_next_grantable s = (s\<lparr>fs_heap := h\<rparr>, None) \<and> sched_ok (s\<lparr>fs_heap := h\<rparr>) \<and>
    set h \<subseteq> set (fs_heap s) \<and> waiting_entries (s\<lparr>fs_heap := h\<rparr>) = waiting_entries s"
proof (cases "fs_in_flight s \<ge> fs_capacity s")
  case True
  let ?h = "dropWhile (\<lambda>e. \<not> live s e) (fs_heap s)"
  have "pop_next_grantable s = (s\<lparr>fs_heap := ?h\<rparr>, None)"
    by (simp add: pop_next_grantable_def pop_scan_full [OF True])
  moreover have "sched_ok (s\<lparr>fs_heap := ?h\<rparr>) \<and> waiting_entries (s\<lparr>fs_heap := ?h\<rparr>) = waiting_entries s"
  proof (rule sched_ok_heap_change [OF ok])
    show "\<forall>e \<in> set (fs_heap s). live s e \<longrightarrow> e \<in> set ?h"
      by (metis (lifting) UnE set_append set_takeWhileD takeWhile_dropWhile_id)
    show "distinct (List.map entry_seq ?h)"
      using ok unfolding sched_ok_def dropWhile_eq_drop
      by (metis distinct_drop drop_map)
    show "heap_sorted ?h"
      using ok unfolding sched_ok_def heap_sorted_def dropWhile_eq_drop
      by (metis drop_map sorted_wrt_drop)
  qed (meson set_dropWhileD subsetI)
  ultimately show ?thesis
    using set_dropWhileD by (intro exI [of _ ?h]) fastforce
next
  case False
  then have lt: "fs_in_flight s < fs_capacity s" by simp
  have "find (\<lambda>e. live s e \<and> grantable s (snd (snd e))) (fs_heap s) = None"
    using none lt by (simp add: least_grantable_def waiting_entries_def find_filter)
  then have scan: "pop_scan s (fs_heap s) [] = (None, [], waiting_entries s)"
    using pop_scan_find [OF lt, of "fs_heap s" "[]"] by (simp add: waiting_entries_def)
  let ?h = "fold heappush (waiting_entries s) []"
  have pop: "pop_next_grantable s = (s\<lparr>fs_heap := ?h\<rparr>, None)"
    by (simp add: pop_next_grantable_def scan)
  have set: "set ?h = set (waiting_entries s)"
    by (simp add: set_fold_heappush)
  have "sched_ok (s\<lparr>fs_heap := ?h\<rparr>) \<and> waiting_entries (s\<lparr>fs_heap := ?h\<rparr>) = waiting_entries s"
  proof (rule sched_ok_heap_change [OF ok])
    show "distinct (List.map entry_seq ?h)"
      using distinct_entries_mset [of ?h "waiting_entries s"] sched_ok_waiting(2) [OF ok]
      by (simp add: mset_fold_heappush)
    show "heap_sorted ?h"
      by (rule fold_heappush_sorted) (simp add: heap_sorted_def)
  qed (auto simp: set_fold_heappush waiting_entries_def)
  then show ?thesis
    using pop set by (intro exI [of _ ?h]) (auto simp: waiting_entries_def)
qed

text \<open>Taking a live entry out of the heap and the table together.\<close>

definition take_out :: "nat \<Rightarrow> heap_entry list \<Rightarrow> fair_scheduler \<Rightarrow> fair_scheduler" where
  "take_out q h s = s\<lparr>fs_members := AList.delete q (fs_members s), fs_heap := h\<rparr>"

lemma take_out_ok:
  assumes ok: "sched_ok s" and e: "e \<in> set (fs_heap s)" "live s e"
    and sub: "set h \<subseteq> set (fs_heap s) - {e}"
    and live: "\<forall>x \<in> set (fs_heap s). live s x \<longrightarrow> x \<noteq> e \<longrightarrow> x \<in> set h"
    and d: "distinct (List.map entry_seq h)" and so: "heap_sorted h"
  shows "sched_ok (take_out (entry_seq e) h s) \<and>
    waiting_entries (take_out (entry_seq e) h s) = remove1 e (waiting_entries s)"
proof -
  let ?s = "take_out (entry_seq e) h s"
  have inj: "inj_on entry_seq (set (fs_heap s))"
    using ok by (simp add: sched_ok_def distinct_map)
  have live': "live ?s x \<longleftrightarrow> live s x \<and> entry_seq x \<noteq> entry_seq e" for x
    by (simp add: live_def take_out_def dict_delete_lookup)
  have mem: "set (fs_members ?s) = {m \<in> set (fs_members s). fst m \<noteq> entry_seq e}"
    by (auto simp: take_out_def AList.delete_eq)
  have ok': "sched_ok ?s"
    unfolding sched_ok_def
  proof (intro conjI ballI)
    fix m
    assume "m \<in> set (fs_members ?s)"
    then have m: "m \<in> set (fs_members s)" "fst m \<noteq> entry_seq e" using mem by auto
    then obtain k where k: "(k, fst m, snd m) \<in> set (fs_heap s)"
      using ok by (auto simp: sched_ok_def)
    have "live s (k, fst m, snd m)" "(k, fst m, snd m) \<noteq> e"
      using m by (auto simp: live_iff entry_seq_def)
    then show "\<exists>k. (k, fst m, snd m) \<in> set (fs_heap ?s)"
      using k live by (auto simp: take_out_def)
  qed (use ok sub d so in \<open>auto simp: sched_ok_def take_out_def distinct_delete\<close>)
  have w: "distinct (waiting_entries s)"
    using sched_ok_waiting(2) [OF ok] by (simp add: distinct_map)
  have "waiting_entries ?s = remove1 e (waiting_entries s)"
  proof (rule sorted_entries_unique)
    have s1: "set (waiting_entries ?s) = {x \<in> set h. live s x \<and> entry_seq x \<noteq> entry_seq e}"
      by (auto simp: waiting_entries_def live') (auto simp: take_out_def)
    have s2: "set (remove1 e (waiting_entries s)) = {x \<in> set (fs_heap s). live s x \<and> x \<noteq> e}"
      unfolding set_remove1_eq [OF w] by (auto simp: waiting_entries_def)
    show "set (waiting_entries ?s) = set (remove1 e (waiting_entries s))"
      unfolding s1 s2 using sub live inj e(1) by (auto dest: inj_onD)
    show "heap_sorted (remove1 e (waiting_entries s))"
      using sched_ok_waiting(1) [OF ok] by (simp add: remove1_filter_not w distinct_remove1_removeAll removeAll_filter_not_eq sorted_filter_entries)
    show "distinct (List.map entry_seq (remove1 e (waiting_entries s)))"
      using sched_ok_waiting(2) [OF ok] by (simp add: w distinct_remove1_removeAll removeAll_filter_not_eq distinct_filter_entries)
  qed (use ok' in \<open>simp_all add: sched_ok_waiting\<close>)
  with ok' show ?thesis by simp
qed

lemma sched_ok_admit:
  "sched_ok s \<Longrightarrow> fs_in_flight s < fs_capacity s \<Longrightarrow> sched_ok (admit w s)"
  by (simp add: sched_ok_def)

lemma waiting_entries_cong:
  "fs_members s = fs_members t \<Longrightarrow> fs_heap s = fs_heap t \<Longrightarrow> waiting_entries s = waiting_entries t"
  by (simp add: waiting_entries_def live_def [abs_def])

lemma pop_some:
  assumes ok: "sched_ok s" and least: "least_grantable s = Some e"
  shows "\<exists>s'. pop_next_grantable s = (s', Some (snd (snd e))) \<and> sched_ok s' \<and>
    set (fs_heap s') \<subseteq> set (fs_heap s) \<and> waiting_entries s' = remove1 e (waiting_entries s) \<and>
    fs_members s' = AList.delete (entry_seq e) (fs_members s) \<and>
    fs_in_flight s' = Suc (fs_in_flight s) \<and> fs_capacity s' = fs_capacity s \<and>
    fs_heavy_capacity s' = fs_heavy_capacity s"
proof -
  have lt: "fs_in_flight s < fs_capacity s"
    using find_Some_in [OF least [unfolded least_grantable_def]] by simp
  have "find (\<lambda>e. live s e \<and> grantable s (snd (snd e))) (fs_heap s) = Some e"
    using least lt by (simp add: least_grantable_def waiting_entries_def find_filter)
  then obtain pre post where h: "fs_heap s = pre @ e # post" and e: "live s e"
    and scan: "pop_scan s (fs_heap s) [] = (Some (snd (snd e)), post, filter (live s) pre)"
    using pop_scan_find [OF lt, of "fs_heap s" "[]"] by auto
  let ?h = "fold heappush (filter (live s) pre) post"
  have q: "fw_seq (snd (snd e)) = entry_seq e"
    using ok h by (simp add: sched_ok_def)
  let ?s = "(admit (snd (snd e)) (s\<lparr>fs_members := AList.delete (entry_seq e) (fs_members s)\<rparr>))\<lparr>fs_heap := ?h\<rparr>"
  have pop: "pop_next_grantable s = (?s, Some (snd (snd e)))"
    by (simp add: pop_next_grantable_def scan q)
  have d: "distinct (List.map entry_seq (pre @ e # post))" and so: "heap_sorted (pre @ e # post)"
    using ok h by (auto simp: sched_ok_def)
  have ms: "mset ?h = mset (filter (live s) pre @ post)"
    by (simp add: mset_fold_heappush)
  have t: "sched_ok (take_out (entry_seq e) ?h s) \<and>
    waiting_entries (take_out (entry_seq e) ?h s) = remove1 e (waiting_entries s)"
  proof (rule take_out_ok [OF ok])
    show "distinct (List.map entry_seq ?h)"
      using d distinct_filter_entries [of "pre" "live s"]
      by (subst distinct_entries_mset [OF ms]) auto
    show "heap_sorted ?h"
      using so by (intro fold_heappush_sorted) (simp add: heap_sorted_def sorted_append)
    show "set ?h \<subseteq> set (fs_heap s) - {e}"
      using d by (auto simp: h set_fold_heappush)
  qed (use e h in \<open>auto simp: set_fold_heappush\<close>)
  have t': "sched_ok ?s" "waiting_entries ?s = remove1 e (waiting_entries s)"
    using t lt waiting_entries_cong [of ?s "take_out (entry_seq e) ?h s"]
    by (simp_all add: sched_ok_def take_out_def)
  show ?thesis
    using pop t' by (intro exI [of _ ?s]) (auto simp: h set_fold_heappush)
qed

lemma sched_ok_complete: "sched_ok s \<Longrightarrow> sched_ok (complete sid small c s)"
  by (auto simp: sched_ok_def)

lemma try_grant_ok:
  "sched_ok s \<Longrightarrow> sched_ok (fst (try_grant_immediate w s))"
  by (simp add: try_grant_immediate_def sched_ok_admit)

lemma cancel_ok:
  assumes ok: "sched_ok s"
  shows "sched_ok (fst (cancel q s)) \<and>
    waiting_entries (fst (cancel q s)) = filter (\<lambda>e. entry_seq e \<noteq> q) (waiting_entries s)"
proof
  have mem: "set (AList.delete q (fs_members s)) = {m \<in> set (fs_members s). fst m \<noteq> q}"
    by (auto simp: AList.delete_eq)
  show "sched_ok (fst (cancel q s))"
    using ok mem by (auto simp: sched_ok_def cancel_def distinct_delete)
  show "waiting_entries (fst (cancel q s)) = filter (\<lambda>e. entry_seq e \<noteq> q) (waiting_entries s)"
    by (auto simp: waiting_entries_def cancel_def live_def dict_delete_lookup intro!: filter_cong split: if_splits)
qed

lemma filter_insort_key:
  "heap_sorted h \<Longrightarrow> filter P (heappush e h) = (if P e then heappush e (filter P h) else filter P h)"
  unfolding heap_sorted_def heappush_def by (simp add: filter_insort filter_insort_triv)

lemma set_update_new: "k \<notin> fst ` set xs \<Longrightarrow> set (AList.update k v xs) = insert (k, v) (set xs)"
  by (induction xs) auto

definition enqueued_entry :: "rat \<Rightarrow> fair_waiter \<Rightarrow> fair_scheduler \<Rightarrow> heap_entry" where
  "enqueued_entry now w s =
    (let w' = w\<lparr>fw_snapshot := consumption_of s (fw_session w)\<rparr>
     in (effective_key now (fs_aging s) w', fw_seq w, w'))"

lemma enqueue_ok:
  assumes ok: "sched_ok s" and fresh: "\<forall>e \<in> set (fs_heap s). entry_seq e \<noteq> fw_seq w"
  shows "sched_ok (fst (enqueue now w s)) \<and>
    waiting_entries (fst (enqueue now w s)) = heappush (enqueued_entry now w s) (waiting_entries s) \<and>
    set (fs_heap (fst (enqueue now w s))) = insert (enqueued_entry now w s) (set (fs_heap s))"
proof -
  let ?w = "w\<lparr>fw_snapshot := consumption_of s (fw_session w)\<rparr>"
  let ?e = "enqueued_entry now w s" and ?s = "fst (enqueue now w s)"
  have seq: "entry_seq ?e = fw_seq w"
    by (simp add: enqueued_entry_def entry_seq_def Let_def)
  have heap: "fs_heap ?s = heappush ?e (fs_heap s)"
    by (simp add: enqueue_def enqueued_entry_def Let_def)
  have mem: "fs_members ?s = AList.update (fw_seq w) ?w (fs_members s)"
    by (simp add: enqueue_def Let_def)
  have new: "fw_seq w \<notin> fst ` set (fs_members s)"
  proof
    assume "fw_seq w \<in> fst ` set (fs_members s)"
    then obtain k v where "(k, fw_seq w, v) \<in> set (fs_heap s)"
      using ok by (auto simp: sched_ok_def)
    then show False using fresh by (auto simp: entry_seq_def)
  qed
  have mem': "set (fs_members ?s) = insert (fw_seq w, ?w) (set (fs_members s))"
    unfolding mem by (rule set_update_new [OF new])
  have dist: "distinct (List.map entry_seq (fs_heap ?s))"
  proof -
    have "mset (fs_heap ?s) = mset (?e # fs_heap s)"
      by (simp add: heap heappush_def)
    from distinct_entries_mset [OF this] show ?thesis
      using ok fresh seq by (auto simp: sched_ok_def)
  qed
  have "sched_ok ?s"
    unfolding sched_ok_def
  proof (intro conjI ballI)
    show "distinct (List.map fst (fs_members ?s))"
      using ok by (simp add: mem sched_ok_def distinct_update)
    show "heap_sorted (fs_heap ?s)"
      using ok by (simp add: heap sched_ok_def heappush_sorted)
    fix m
    assume "m \<in> set (fs_members ?s)"
    then show "\<exists>k. (k, fst m, snd m) \<in> set (fs_heap ?s)"
      using ok unfolding mem' heap by (auto simp: sched_ok_def enqueued_entry_def Let_def)
  next
    fix e
    assume "e \<in> set (fs_heap ?s)"
    then show "fw_seq (snd (snd e)) = entry_seq e"
      using ok unfolding heap by (auto simp: sched_ok_def enqueued_entry_def entry_seq_def Let_def)
  qed (use ok dist in \<open>auto simp: sched_ok_def enqueue_def Let_def\<close>)
  moreover have "waiting_entries ?s = heappush ?e (waiting_entries s)"
  proof -
    have "live ?s e \<longleftrightarrow> live s e" if "e \<in> set (fs_heap s)" for e
      using that fresh by (auto simp: live_iff mem')
    then have "filter (live ?s) (fs_heap s) = waiting_entries s"
      by (auto simp: waiting_entries_def intro: filter_cong)
    moreover have "live ?s ?e"
      by (auto simp: live_iff mem' seq)
    moreover have "heap_sorted (fs_heap s)"
      using ok by (simp add: sched_ok_def)
    ultimately show ?thesis
      by (simp add: waiting_entries_def [of ?s] heap filter_insort_key)
  qed
  ultimately show ?thesis by (simp add: heap)
qed

end
