(* ===== verification/Governor_Gate.thy ===== *)
theory Governor_Gate
  imports Governor_Fairness
begin

text \<open>
  The gate of one resource channel, class \<open>_ChannelGate\<close> of \<open>app/services/governor/backpressure.py\<close>.
  Every block under the lock of the gate is one atomic step; a waiter is named by its sequence number,
  which stands for the object in the lists and for its event. The asynchronous client of \<open>acquire\<close> is
  the step relation at the end: it arrives, waits, and is woken, timed out or interrupted. Two of its steps lose
  count of the slots; a reachable state carries how often each has happened.
\<close>

section \<open>The gate\<close>

record channel_gate =
  cg_sched :: fair_scheduler
  cg_waiters :: "(string \<times> nat list) list"
  cg_cancelled :: "nat set"
  cg_events :: "nat set"

definition new_gate :: "nat \<Rightarrow> rat \<Rightarrow> channel_gate option" where
  "new_gate capacity aging = map_option
    (\<lambda>s. \<lparr>cg_sched = s, cg_waiters = [], cg_cancelled = {}, cg_events = {}\<rparr>) (new_scheduler capacity aging True)"

definition make_waiter :: "nat \<Rightarrow> rat \<Rightarrow> string \<Rightarrow> bool \<Rightarrow> int \<Rightarrow> rat \<Rightarrow> rat \<Rightarrow> fair_waiter" where
  "make_waiter seq now sid small priority est_cost weight =
    \<lparr>fw_session = sid, fw_weight = weight, fw_priority = priority, fw_small = small,
     fw_est_cost = max (1 / 10) est_cost, fw_enqueued_at = now, fw_seq = seq, fw_snapshot = 0\<rparr>"

text \<open>The first locked block of \<open>acquire\<close>; \<open>None\<close> means that the caller has to wait.\<close>

definition acquire_begin :: "rat \<Rightarrow> fair_waiter \<Rightarrow> channel_gate \<Rightarrow> channel_gate \<times> bool option" where
  "acquire_begin now w g =
    (let (s, granted) = try_grant_immediate w (cg_sched g)
     in if granted then
          if fw_seq w \<in> cg_cancelled g
          then (g\<lparr>cg_sched := complete (fw_session w) (fw_small w) 0 s,
                  cg_cancelled := cg_cancelled g - {fw_seq w}\<rparr>, Some False)
          else (g\<lparr>cg_sched := s\<rparr>, Some True)
        else (g\<lparr>cg_sched := fst (enqueue now w s),
                cg_waiters := dict_push (fw_session w) (fw_seq w) (cg_waiters g)\<rparr>, None))"

definition discard_waiter :: "string \<Rightarrow> nat \<Rightarrow> channel_gate \<Rightarrow> channel_gate" where
  "discard_waiter sid q g =
    (case map_of (cg_waiters g) sid of
       None \<Rightarrow> g
     | Some lst \<Rightarrow>
         let lst' = remove1 q lst
         in g\<lparr>cg_waiters := (if lst' = [] then AList.delete sid (cg_waiters g)
                             else AList.update sid lst' (cg_waiters g))\<rparr>)"

definition return_slot_and_wake :: "string \<Rightarrow> bool \<Rightarrow> rat \<Rightarrow> channel_gate \<Rightarrow> channel_gate" where
  "return_slot_and_wake sid small cost g =
    (let (s, nxt) = pop_next_grantable (complete sid small cost (cg_sched g))
     in case nxt of
          None \<Rightarrow> g\<lparr>cg_sched := s\<rparr>
        | Some w \<Rightarrow> g\<lparr>cg_sched := s, cg_events := insert (fw_seq w) (cg_events g)\<rparr>)"

text \<open>The three ways in which the wait ends.\<close>

definition acquire_timeout :: "fair_waiter \<Rightarrow> channel_gate \<Rightarrow> channel_gate" where
  "acquire_timeout w g =
    (let (s, removed) = cancel (fw_seq w) (cg_sched g);
         g1 = g\<lparr>cg_sched := s\<rparr>;
         g2 = (if removed then g1 else return_slot_and_wake (fw_session w) (fw_small w) 0 g1)
     in discard_waiter (fw_session w) (fw_seq w) g2)"

definition acquire_interrupted :: "fair_waiter \<Rightarrow> channel_gate \<Rightarrow> channel_gate" where
  "acquire_interrupted w g =
    (let (s, removed) = cancel (fw_seq w) (cg_sched g);
         g1 = g\<lparr>cg_sched := s\<rparr>;
         g2 = (if removed then g1 else return_slot_and_wake (fw_session w) (fw_small w) 0 g1);
         g3 = discard_waiter (fw_session w) (fw_seq w) g2
     in g3\<lparr>cg_cancelled := cg_cancelled g3 - {fw_seq w}\<rparr>)"

definition acquire_woken :: "fair_waiter \<Rightarrow> channel_gate \<Rightarrow> channel_gate \<times> bool" where
  "acquire_woken w g =
    (let g1 = discard_waiter (fw_session w) (fw_seq w) g
     in if fw_seq w \<in> cg_cancelled g1
        then (g1\<lparr>cg_cancelled := cg_cancelled g1 - {fw_seq w}\<rparr>, False)
        else (g1, True))"

fun cancel_waiters :: "nat list \<Rightarrow> channel_gate \<times> nat \<Rightarrow> channel_gate \<times> nat" where
  "cancel_waiters [] acc = acc"
| "cancel_waiters (q # qs) (g, woken) =
    (let (s, removed) = cancel q (cg_sched g)
     in if removed
        then cancel_waiters qs (g\<lparr>cg_sched := s, cg_cancelled := insert q (cg_cancelled g),
                                  cg_events := insert q (cg_events g)\<rparr>, woken + 1)
        else cancel_waiters qs (g\<lparr>cg_sched := s\<rparr>, woken))"

definition gate_cancel_session :: "string \<Rightarrow> channel_gate \<Rightarrow> channel_gate \<times> nat" where
  "gate_cancel_session sid g =
    cancel_waiters (dict_items (cg_waiters g) sid)
      (g\<lparr>cg_waiters := AList.delete sid (cg_waiters g)\<rparr>, 0)"

definition gate_release :: "string \<Rightarrow> bool \<Rightarrow> rat \<Rightarrow> channel_gate \<Rightarrow> channel_gate" where
  "gate_release sid small cost g = return_slot_and_wake sid small cost g"

section \<open>Clients\<close>

text \<open>A \<open>Woken\<close> client has seen its event and waits for the lock of the gate.\<close>

datatype client_phase = Queued | Woken | Holding | Gone

type_synonym clients = "nat \<Rightarrow> (fair_waiter \<times> client_phase) option"

text \<open>
  A step may miscount: a client whose session was cancelled returns a slot it never had when its wait ends by a
  timeout or interruption before it has seen its event (\<open>Returned_twice\<close>), and a client that is interrupted on its way
  from the event to the lock never returns the slot it was granted (\<open>Never_returned\<close>).
\<close>

datatype slip = No_slip | Returned_twice | Never_returned

definition end_of_wait :: "nat \<Rightarrow> channel_gate \<Rightarrow> slip" where
  "end_of_wait q g = (if q \<in> cg_cancelled g then Returned_twice else No_slip)"

text \<open>
  One step of the gate with its clients. The wait of a client ends when its event is set, or by a timeout or
  interruption at any time, also when its event was set just before. The lock is taken without suspension as long as
  nobody holds it, and no block under it suspends, so \<open>abandon\<close> is a step more than one event loop can take.
\<close>

inductive gate_step :: "channel_gate \<times> clients \<Rightarrow> slip \<Rightarrow> channel_gate \<times> clients \<Rightarrow> bool" where
  arrive: "cs (fw_seq w) = None \<Longrightarrow> acquire_begin now w g = (g', r) \<Longrightarrow>
    gate_step (g, cs) No_slip (g', cs(fw_seq w \<mapsto>
      (w, case r of None \<Rightarrow> Queued | Some True \<Rightarrow> Holding | Some False \<Rightarrow> Gone)))"
| wake: "cs q = Some (w, Queued) \<Longrightarrow> q \<in> cg_events g \<Longrightarrow> gate_step (g, cs) No_slip (g, cs(q \<mapsto> (w, Woken)))"
| proceed: "cs q = Some (w, Woken) \<Longrightarrow> acquire_woken w g = (g', ok) \<Longrightarrow>
    gate_step (g, cs) No_slip (g', cs(q \<mapsto> (w, if ok then Holding else Gone)))"
| abandon: "cs q = Some (w, Woken) \<Longrightarrow>
    gate_step (g, cs) (if q \<in> cg_cancelled g then No_slip else Never_returned) (g, cs(q \<mapsto> (w, Gone)))"
| timeout: "cs q = Some (w, Queued) \<Longrightarrow>
    gate_step (g, cs) (end_of_wait q g) (acquire_timeout w g, cs(q \<mapsto> (w, Gone)))"
| interrupt: "cs q = Some (w, Queued) \<Longrightarrow>
    gate_step (g, cs) (end_of_wait q g) (acquire_interrupted w g, cs(q \<mapsto> (w, Gone)))"
| finish: "cs q = Some (w, Holding) \<Longrightarrow>
    gate_step (g, cs) No_slip (gate_release (fw_session w) (fw_small w) cost g, cs(q \<mapsto> (w, Gone)))"
| cancel_session: "gate_step (g, cs) No_slip (fst (gate_cancel_session sid g), cs)"

text \<open>The states of a gate that miscounted \<open>a\<close> times in one and \<open>b\<close> times in the other way.\<close>

inductive gate_reachable :: "nat \<Rightarrow> channel_gate \<times> clients \<Rightarrow> nat \<Rightarrow> nat \<Rightarrow> bool" for capacity where
  start: "new_gate capacity aging = Some g \<Longrightarrow> gate_reachable capacity (g, \<lambda>q. None) 0 0"
| step: "gate_reachable capacity x a b \<Longrightarrow> gate_step x e y \<Longrightarrow>
    gate_reachable capacity y (a + of_bool (e = Returned_twice)) (b + of_bool (e = Never_returned))"

text \<open>Who has a slot: the holders, and those granted one that have not run yet.\<close>

definition owns_slot :: "channel_gate \<Rightarrow> clients \<Rightarrow> nat \<Rightarrow> bool" where
  "owns_slot g cs q = (\<exists>w p. cs q = Some (w, p) \<and>
    (p = Holding \<or> (p = Woken \<or> p = Queued \<and> q \<in> cg_events g) \<and> q \<notin> cg_cancelled g))"

definition slots :: "channel_gate \<Rightarrow> clients \<Rightarrow> nat set" where
  "slots g cs = {q. owns_slot g cs q}"

definition heavy_slots :: "channel_gate \<Rightarrow> clients \<Rightarrow> nat set" where
  "heavy_slots g cs = {q \<in> slots g cs. \<exists>w p. cs q = Some (w, p) \<and> \<not> fw_small w}"

definition still_queued :: "channel_gate \<Rightarrow> clients \<Rightarrow> nat set" where
  "still_queued g cs = {q. \<exists>w. cs q = Some (w, Queued) \<and> q \<notin> cg_events g}"

definition clients_ok :: "channel_gate \<Rightarrow> clients \<Rightarrow> bool" where
  "clients_ok g cs = (finite (dom cs) \<and> (\<forall>q w p. cs q = Some (w, p) \<longrightarrow> fw_seq w = q) \<and>
     entry_seq ` set (fs_heap (cg_sched g)) \<subseteq> dom cs \<and> cg_events g \<subseteq> dom cs \<and>
     fst ` set (fs_members (cg_sched g)) = still_queued g cs \<and>
     (\<forall>m \<in> set (fs_members (cg_sched g)). \<exists>w. cs (fst m) = Some (w, Queued) \<and>
        fw_small (snd m) = fw_small w \<and> fw_session (snd m) = fw_session w) \<and>
     cg_cancelled g \<subseteq> cg_events g)"

definition slots_ok :: "nat \<Rightarrow> nat \<Rightarrow> channel_gate \<Rightarrow> clients \<Rightarrow> bool" where
  "slots_ok a b g cs = (fs_in_flight (cg_sched g) \<le> card (slots g cs) + b \<and>
     card (slots g cs) + b \<le> fs_in_flight (cg_sched g) + a \<and>
     card (heavy_slots g cs) \<le> fs_heavy_capacity (cg_sched g) + a)"

definition none_grantable :: "channel_gate \<Rightarrow> bool" where
  "none_grantable g = (\<forall>m \<in> set (fs_members (cg_sched g)).
     fs_in_flight (cg_sched g) = fs_capacity (cg_sched g) \<or> \<not> grantable (cg_sched g) (snd m))"

definition listed :: "channel_gate \<Rightarrow> bool" where
  "listed g = (\<forall>m \<in> set (fs_members (cg_sched g)).
     fst m \<in> set (dict_items (cg_waiters g) (fw_session (snd m))))"

definition gate_inv :: "nat \<Rightarrow> nat \<Rightarrow> nat \<Rightarrow> channel_gate \<Rightarrow> clients \<Rightarrow> bool" where
  "gate_inv n a b g cs = (fs_capacity (cg_sched g) = n \<and> sched_ok (cg_sched g) \<and> clients_ok g cs \<and> slots_ok a b g cs \<and> none_grantable g)"

section \<open>Each step keeps the invariant\<close>

lemma clients_okD:
  assumes "clients_ok g cs"
  shows "finite (dom cs)" and "cs q = Some (w, p) \<Longrightarrow> fw_seq w = q"
    and "e \<in> set (fs_heap (cg_sched g)) \<Longrightarrow> entry_seq e \<in> dom cs"
    and "fst ` set (fs_members (cg_sched g)) = still_queued g cs"
    and "q \<in> cg_cancelled g \<Longrightarrow> q \<in> cg_events g"
  using assms by (auto simp: clients_ok_def)

lemma slots_dom: "slots g cs \<subseteq> dom cs"
  by (auto simp: slots_def owns_slot_def)

lemma finite_slots: "clients_ok g cs \<Longrightarrow> finite (slots g cs)"
  by (meson clients_okD(1) finite_subset slots_dom)

lemma heavy_slots_sub: "heavy_slots g cs \<subseteq> slots g cs"
  by (auto simp: heavy_slots_def)

lemma waiting_members:
  assumes ok: "sched_ok s"
  shows "snd ` set (waiting_entries s) = set (fs_members s)"
proof (intro equalityI subsetI)
  fix m
  assume m: "m \<in> set (fs_members s)"
  then obtain k where k: "(k, fst m, snd m) \<in> set (fs_heap s)"
    using ok by (auto simp: sched_ok_def)
  then have "(k, fst m, snd m) \<in> set (waiting_entries s)"
    using m by (simp add: waiting_entries_def live_iff entry_seq_def)
  then show "m \<in> snd ` set (waiting_entries s)"
    by (rule rev_image_eqI) simp
next
  fix x
  assume "x \<in> snd ` set (waiting_entries s)"
  then obtain e where e: "e \<in> set (fs_heap s)" "live s e" "x = snd e"
    by (auto simp: waiting_entries_def)
  then obtain w where w: "(entry_seq e, w) \<in> set (fs_members s)"
    by (auto simp: live_iff)
  then obtain k where k: "(k, entry_seq e, w) \<in> set (fs_heap s)"
    using ok by (force simp: sched_ok_def)
  have "inj_on entry_seq (set (fs_heap s))"
    using ok by (simp add: sched_ok_def distinct_map)
  then have "e = (k, entry_seq e, w)"
    using inj_onD [of entry_seq _ e "(k, entry_seq e, w)"] e(1) k by (simp add: entry_seq_def)
  then show "x \<in> set (fs_members s)"
    using w e(3) by (metis snd_conv)
qed

lemma least_none_iff:
  assumes "sched_ok s"
  shows "least_grantable s = None \<longleftrightarrow>
    (\<forall>m \<in> set (fs_members s). \<not> (fs_in_flight s < fs_capacity s \<and> grantable s (snd m)))"
  unfolding least_grantable_def find_None_iff waiting_members [OF assms, symmetric] by auto

lemma least_member:
  assumes "sched_ok s" and "least_grantable s = Some e"
  shows "(entry_seq e, snd (snd e)) \<in> set (fs_members s)" and "fs_in_flight s < fs_capacity s"
    and "grantable s (snd (snd e))" and "fw_seq (snd (snd e)) = entry_seq e"
proof -
  have e: "e \<in> set (waiting_entries s)" "fs_in_flight s < fs_capacity s \<and> grantable s (snd (snd e))"
    using find_Some_in [OF assms(2) [unfolded least_grantable_def]] by auto
  then have "snd e \<in> set (fs_members s)"
    using waiting_members [OF assms(1)] by auto
  then show "(entry_seq e, snd (snd e)) \<in> set (fs_members s)"
    by (simp add: entry_seq_def)
  show "fs_in_flight s < fs_capacity s" "grantable s (snd (snd e))" using e by auto
  show "fw_seq (snd (snd e)) = entry_seq e"
    using e(1) assms(1) by (auto simp: waiting_entries_def sched_ok_def)
qed

lemma members_subset_keeps:
  assumes "set (fs_members (cg_sched g')) \<subseteq> set (fs_members (cg_sched g))"
  shows "listed g \<Longrightarrow> cg_waiters g' = cg_waiters g \<Longrightarrow> listed g'"
    and "none_grantable g \<Longrightarrow> fs_in_flight (cg_sched g') = fs_in_flight (cg_sched g) \<Longrightarrow>
      fs_capacity (cg_sched g') = fs_capacity (cg_sched g) \<Longrightarrow>
      fs_heavy_capacity (cg_sched g') = fs_heavy_capacity (cg_sched g) \<Longrightarrow> none_grantable g'"
  using assms by (auto simp: listed_def none_grantable_def grantable_def)

lemma set_members_delete: "set (AList.delete q ms) = {m \<in> set ms. fst m \<noteq> q}"
  by (auto simp: AList.delete_eq)

text \<open>A client that leaves the queue, whatever happened to the scheduler meanwhile.\<close>

lemma clients_ok_leave:
  assumes c: "clients_ok g cs" and q: "cs q = Some (w, p)" "p' \<noteq> Queued"
    and mem: "set (fs_members (cg_sched g')) \<subseteq> set (fs_members (cg_sched g))"
    and keys: "fst ` set (fs_members (cg_sched g')) = still_queued g' (cs(q \<mapsto> (w, p')))"
    and heap: "set (fs_heap (cg_sched g')) \<subseteq> set (fs_heap (cg_sched g))"
    and ev: "cg_events g \<subseteq> cg_events g'" "cg_events g' \<subseteq> dom cs"
    and can: "cg_cancelled g' \<subseteq> cg_cancelled g"
  shows "clients_ok g' (cs(q \<mapsto> (w, p')))"
  unfolding clients_ok_def
proof (intro conjI ballI allI impI)
  let ?cs = "cs(q \<mapsto> (w, p'))"
  show "finite (dom ?cs)" using clients_okD(1) [OF c] by simp
  show "fw_seq v = r" if "?cs r = Some (v, x)" for r v x
    using that clients_okD(2) [OF c] q(1) by (auto split: if_splits)
  have "entry_seq ` set (fs_heap (cg_sched g')) \<subseteq> dom cs"
    using heap clients_okD(3) [OF c] by blast
  then show "entry_seq ` set (fs_heap (cg_sched g')) \<subseteq> dom ?cs" by auto
  show "cg_events g' \<subseteq> dom ?cs" using ev(2) by auto
  show "fst ` set (fs_members (cg_sched g')) = still_queued g' ?cs" by (rule keys)
  show "\<exists>v. ?cs (fst m) = Some (v, Queued) \<and> fw_small (snd m) = fw_small v \<and> fw_session (snd m) = fw_session v"
    if "m \<in> set (fs_members (cg_sched g'))" for m
  proof -
    have "fst m \<in> still_queued g' ?cs" using that keys by auto
    then have "fst m \<noteq> q" using q(2) by (auto simp: still_queued_def)
    then show ?thesis using c mem that by (auto simp: clients_ok_def)
  qed
  show "cg_cancelled g' \<subseteq> cg_events g'" using can ev(1) c by (auto simp: clients_ok_def)
qed

definition heavy_client :: "clients \<Rightarrow> nat \<Rightarrow> bool" where
  "heavy_client cs q = (\<exists>w p. cs q = Some (w, p) \<and> \<not> fw_small w)"

lemma heavy_slots_alt: "heavy_slots g cs = {q \<in> slots g cs. heavy_client cs q}"
  by (auto simp: heavy_slots_def heavy_client_def)

lemma same_heavy: "cs q = Some (w, p) \<Longrightarrow> heavy_client (cs(q \<mapsto> (w, p'))) = heavy_client cs"
  by (rule ext) (auto simp: heavy_client_def)

lemma leaving_slots:
  assumes "clients_ok g cs" and "cs q = Some (w, p)"
    and "cg_events g' = cg_events g \<union> E" and "cg_cancelled g' = cg_cancelled g"
    and "\<forall>x \<in> E. x \<noteq> q \<and> x \<in> still_queued g cs"
  shows "slots g' (cs(q \<mapsto> (w, Gone))) = (slots g cs - {q}) \<union> E"
proof -
  have "x \<notin> cg_cancelled g" if "x \<in> E" for x using that assms(1,5) by (auto simp: clients_ok_def still_queued_def)
  then show ?thesis using assms(3-5) by (auto simp: slots_def owns_slot_def still_queued_def)
qed

lemma card_without: "finite S \<Longrightarrow> card (S - {q}) + of_bool (q \<in> S) = card S"
  using card_Suc_Diff1 [of S q] by (auto simp: of_bool_def)

text \<open>
  A client that does not wait in the queue leaves and returns a slot, its own or, as one slip more, none it had.
\<close>

lemma return_slot_none:
  assumes inv: "gate_inv n a b g cs" and q: "cs q = Some (w, p)" "q \<notin> still_queued g cs"
    and none: "least_grantable (complete (fw_session w) (fw_small w) cost (cg_sched g)) = None"
  shows "\<exists>s. return_slot_and_wake (fw_session w) (fw_small w) cost g = g\<lparr>cg_sched := s\<rparr> \<and>
    gate_inv n (a + of_bool (q \<notin> slots g cs)) b (g\<lparr>cg_sched := s\<rparr>) (cs(q \<mapsto> (w, Gone))) \<and> fs_members s = fs_members (cg_sched g)"
proof -
  let ?s = "complete (fw_session w) (fw_small w) cost (cg_sched g)" and ?cs = "cs(q \<mapsto> (w, Gone))"
  have c: "clients_ok g cs" and ok: "sched_ok ?s" and sl: "slots_ok a b g cs"
    and n: "fs_capacity (cg_sched g) = n"
    using inv by (auto simp: gate_inv_def sched_ok_complete)
  obtain h where pop: "pop_next_grantable ?s = (?s\<lparr>fs_heap := h\<rparr>, None)" and okh: "sched_ok (?s\<lparr>fs_heap := h\<rparr>)"
    and sub: "set h \<subseteq> set (fs_heap (cg_sched g))"
    using pop_none [OF ok none] by auto
  let ?g = "g\<lparr>cg_sched := ?s\<lparr>fs_heap := h\<rparr>\<rparr>"
  have fin: "finite (slots g cs)" by (rule finite_slots [OF c])
  have sq: "still_queued ?g ?cs = still_queued g cs"
    using q by (auto simp: still_queued_def)
  have sl': "slots ?g ?cs = slots g cs - {q}"
    using leaving_slots [OF c q(1), of ?g "{}"] by simp
  have "clients_ok ?g ?cs"
  proof (intro clients_ok_leave [OF c q(1)])
    show "fst ` set (fs_members (cg_sched ?g)) = still_queued ?g ?cs"
      unfolding sq using clients_okD(4) [OF c] by simp
  qed (use c sub in \<open>auto simp: clients_ok_def\<close>)
  moreover have "slots_ok (a + of_bool (q \<notin> slots g cs)) b ?g ?cs"
  proof -
    have "card (heavy_slots ?g ?cs) \<le> card (heavy_slots g cs)"
      using fin by (intro card_mono finite_subset [OF heavy_slots_sub]) (auto simp: heavy_slots_alt sl' same_heavy [of cs q w p, OF q(1)])
    then show ?thesis
      using sl card_without [OF fin, of q] by (auto simp: slots_ok_def sl' of_bool_def split: if_splits)
  qed
  moreover have "none_grantable ?g"
    using none [unfolded least_none_iff [OF ok]] okh
    by (auto simp: none_grantable_def grantable_def sched_ok_def)
  ultimately have "gate_inv n (a + of_bool (q \<notin> slots g cs)) b ?g ?cs"
    using okh n by (simp add: gate_inv_def)
  moreover have "return_slot_and_wake (fw_session w) (fw_small w) cost g = ?g"
    by (simp add: return_slot_and_wake_def pop)
  ultimately show ?thesis by (intro exI [of _ "?s\<lparr>fs_heap := h\<rparr>"]) simp
qed

lemma heavy_after_grant:
  assumes fin: "finite S" and hv: "card {x \<in> S. heavy x} \<le> hc" and gr: "heavy r \<longrightarrow> card (insert r (S - {q})) \<le> hc"
  shows "card {x \<in> insert r (S - {q}). heavy x} \<le> hc"
proof (cases "heavy r")
  case True
  have "card {x \<in> insert r (S - {q}). heavy x} \<le> card (insert r (S - {q}))"
    using fin by (intro card_mono) auto
  then show ?thesis using gr True by simp
next
  case False
  then have "{x \<in> insert r (S - {q}). heavy x} \<subseteq> {x \<in> S. heavy x}" by auto
  then have "card {x \<in> insert r (S - {q}). heavy x} \<le> card {x \<in> S. heavy x}"
    using fin by (intro card_mono) auto
  then show ?thesis using hv by simp
qed

lemma return_slot_some:
  assumes inv: "gate_inv n a b g cs" and q: "cs q = Some (w, p)" "q \<notin> still_queued g cs"
    and some: "least_grantable (complete (fw_session w) (fw_small w) cost (cg_sched g)) = Some e"
  shows "\<exists>s. return_slot_and_wake (fw_session w) (fw_small w) cost g =
      g\<lparr>cg_sched := s, cg_events := insert (entry_seq e) (cg_events g)\<rparr> \<and>
    gate_inv n (a + of_bool (q \<notin> slots g cs)) b
      (g\<lparr>cg_sched := s, cg_events := insert (entry_seq e) (cg_events g)\<rparr>) (cs(q \<mapsto> (w, Gone))) \<and>
    set (fs_members s) \<subseteq> set (fs_members (cg_sched g))"
proof -
  let ?s = "complete (fw_session w) (fw_small w) cost (cg_sched g)" and ?cs = "cs(q \<mapsto> (w, Gone))"
  let ?q = "entry_seq e" and ?a = "a + of_bool (q \<notin> slots g cs)"
  have c: "clients_ok g cs" and ok: "sched_ok ?s" and sl: "slots_ok a b g cs"
    and ng: "none_grantable g" and n: "fs_capacity (cg_sched g) = n"
    using inv by (auto simp: gate_inv_def sched_ok_complete)
  obtain s where pop: "pop_next_grantable ?s = (s, Some (snd (snd e)))" and ok': "sched_ok s"
    and sub: "set (fs_heap s) \<subseteq> set (fs_heap (cg_sched g))"
    and mem: "fs_members s = AList.delete ?q (fs_members (cg_sched g))"
    and s: "fs_in_flight s = Suc (fs_in_flight ?s)" "fs_capacity s = n"
      "fs_heavy_capacity s = fs_heavy_capacity (cg_sched g)"
    using pop_some [OF ok some] n by auto
  let ?g = "g\<lparr>cg_sched := s, cg_events := insert ?q (cg_events g)\<rparr>"
  have e: "(?q, snd (snd e)) \<in> set (fs_members (cg_sched g))" "grantable ?s (snd (snd e))"
    "fw_seq (snd (snd e)) = ?q" "fs_in_flight ?s < fs_capacity ?s"
    using least_member [OF ok some] by auto
  have infl: "Suc (fs_in_flight ?s) = fs_in_flight (cg_sched g)"
    using ng e(1,2,4) by (fastforce simp: none_grantable_def grantable_def)
  have eq: "?q \<in> still_queued g cs"
    using e(1) clients_okD(4) [OF c] by force
  then obtain v where v: "cs ?q = Some (v, Queued)" and nev: "?q \<notin> cg_events g"
    by (auto simp: still_queued_def)
  have small: "fw_small v = fw_small (snd (snd e))"
    using c e(1) v by (fastforce simp: clients_ok_def)
  have fin: "finite (slots g cs)" by (rule finite_slots [OF c])
  have qq: "?q \<noteq> q" using q(2) eq by auto
  have new: "?q \<notin> slots g cs" using v nev by (auto simp: slots_def owns_slot_def)
  have sl': "slots ?g ?cs = insert ?q (slots g cs - {q})"
    using leaving_slots [OF c q(1), of ?g "{?q}"] eq qq by simp
  have hv': "heavy_slots ?g ?cs = {x \<in> insert ?q (slots g cs - {q}). heavy_client cs x}"
    unfolding heavy_slots_alt sl' same_heavy [of cs q w p, OF q(1)] by simp
  have count: "card (insert ?q (slots g cs - {q})) + of_bool (q \<in> slots g cs) = Suc (card (slots g cs))"
    using new fin card_without [OF fin, of q] by (simp add: card_insert_if)
  have "still_queued ?g ?cs = still_queued g cs - {?q}"
    using q by (auto simp: still_queued_def)
  then have keys: "fst ` set (fs_members (cg_sched ?g)) = still_queued ?g ?cs"
    using clients_okD(4) [OF c] by (auto simp: mem set_members_delete image_iff)
  have "clients_ok ?g ?cs"
  proof (rule clients_ok_leave [OF c q(1) _ _ keys])
    show "cg_events ?g \<subseteq> dom cs"
      using c v by (auto simp: clients_ok_def)
  qed (use sub mem in \<open>auto simp: set_members_delete\<close>)
  moreover have "slots_ok ?a b ?g ?cs"
  proof -
    have "card {x \<in> insert ?q (slots g cs - {q}). heavy_client cs x} \<le> fs_heavy_capacity (cg_sched g) + ?a"
      using sl e(2) small v infl count
      by (intro heavy_after_grant [OF fin])
        (auto simp: slots_ok_def heavy_slots_alt heavy_client_def grantable_def of_bool_def split: if_splits)
    then show ?thesis
      using sl count infl s hv' sl' by (auto simp: slots_ok_def of_bool_def split: if_splits)
  qed
  moreover have "none_grantable ?g"
    using infl by (intro members_subset_keeps(2) [OF _ ng]) (auto simp: s n mem set_members_delete)
  ultimately have "gate_inv n ?a b ?g ?cs"
    using ok' s by (simp add: gate_inv_def)
  moreover have "return_slot_and_wake (fw_session w) (fw_small w) cost g = ?g"
    by (simp add: return_slot_and_wake_def pop e(3))
  ultimately show ?thesis
    using mem by (intro exI [of _ s]) (auto simp: set_members_delete)
qed

lemma return_slot_inv:
  assumes inv: "gate_inv n a b g cs" and q: "cs q = Some (w, p)" "q \<notin> still_queued g cs"
    and g': "g' = return_slot_and_wake (fw_session w) (fw_small w) cost g"
  shows "gate_inv n (a + of_bool (q \<notin> slots g cs)) b g' (cs(q \<mapsto> (w, Gone)))"
    and "set (fs_members (cg_sched g')) \<subseteq> set (fs_members (cg_sched g))"
    and "cg_waiters g' = cg_waiters g" and "cg_cancelled g' = cg_cancelled g"
proof -
  have "gate_inv n (a + of_bool (q \<notin> slots g cs)) b g' (cs(q \<mapsto> (w, Gone))) \<and>
    set (fs_members (cg_sched g')) \<subseteq> set (fs_members (cg_sched g)) \<and>
    cg_waiters g' = cg_waiters g \<and> cg_cancelled g' = cg_cancelled g"
  proof (cases "least_grantable (complete (fw_session w) (fw_small w) cost (cg_sched g))")
    case None
    from return_slot_none [OF inv q this] show ?thesis by (auto simp: g')
  next
    case (Some e)
    from return_slot_some [OF inv q this] show ?thesis by (auto simp: g')
  qed
  then show "gate_inv n (a + of_bool (q \<notin> slots g cs)) b g' (cs(q \<mapsto> (w, Gone)))"
    "set (fs_members (cg_sched g')) \<subseteq> set (fs_members (cg_sched g))"
    "cg_waiters g' = cg_waiters g" "cg_cancelled g' = cg_cancelled g" by auto
qed

text \<open>The list of waiters per session is not part of the invariant proper.\<close>

lemma gate_inv_waiters [simp]: "gate_inv n a b (g\<lparr>cg_waiters := x\<rparr>) cs = gate_inv n a b g cs"
  by (simp add: gate_inv_def clients_ok_def slots_ok_def slots_def heavy_slots_def owns_slot_def [abs_def]
      none_grantable_def still_queued_def)

lemma discard_waiter_shape: "\<exists>x. discard_waiter sid q g = g\<lparr>cg_waiters := x\<rparr>"
proof (cases "map_of (cg_waiters g) sid")
  case None
  then show ?thesis by (intro exI [of _ "cg_waiters g"]) (simp add: discard_waiter_def)
qed (auto simp: discard_waiter_def Let_def)

lemma discard_waiter_inv [simp]: "gate_inv n a b (discard_waiter sid q g) cs = gate_inv n a b g cs"
  using discard_waiter_shape [of sid q g] by (auto simp del: split_paired_Ex)

lemma discard_waiter_fields [simp]:
  "cg_sched (discard_waiter sid q g) = cg_sched g"
  "cg_cancelled (discard_waiter sid q g) = cg_cancelled g"
  "cg_events (discard_waiter sid q g) = cg_events g"
  using discard_waiter_shape [of sid q g] by auto

lemma discard_waiter_items:
  "dict_items (cg_waiters (discard_waiter sid q g)) sid' =
   (if sid' = sid then remove1 q (dict_items (cg_waiters g) sid) else dict_items (cg_waiters g) sid')"
  by (auto simp: discard_waiter_def dict_items_def Let_def dict_delete_lookup dict_update_lookup split: option.split)

lemma discard_waiter_listed:
  assumes l: "listed g" and q: "q \<notin> fst ` set (fs_members (cg_sched g))"
  shows "listed (discard_waiter sid q g)"
  unfolding listed_def
proof
  fix m
  assume "m \<in> set (fs_members (cg_sched (discard_waiter sid q g)))"
  then have m: "m \<in> set (fs_members (cg_sched g))" by simp
  then have "fst m \<noteq> q" "fst m \<in> set (dict_items (cg_waiters g) (fw_session (snd m)))"
    using l q by (auto simp: listed_def)
  then show "fst m \<in> set (dict_items (cg_waiters (discard_waiter sid q g)) (fw_session (snd m)))"
    by (auto simp: discard_waiter_items)
qed

lemma gate_finish_inv:
  assumes "gate_inv n a b g cs" and "listed g" and "cs q = Some (w, Holding)"
  shows "gate_inv n a b (gate_release (fw_session w) (fw_small w) cost g) (cs(q \<mapsto> (w, Gone))) \<and>
    listed (gate_release (fw_session w) (fw_small w) cost g)"
proof -
  have q: "q \<in> slots g cs" "q \<notin> still_queued g cs" using assms(3) by (auto simp: slots_def owns_slot_def still_queued_def)
  note r = return_slot_inv [OF assms(1,3) q(2) refl, of cost]
  show ?thesis
    using r(1) members_subset_keeps(1) [OF r(2) assms(2) r(3)] q(1) by (simp add: gate_release_def)
qed

lemma queued_cases:
  assumes "clients_ok g cs" and "cs q = Some (w, Queued)"
  shows "q \<in> fst ` set (fs_members (cg_sched g)) \<and> q \<notin> cg_events g \<and> q \<notin> cg_cancelled g \<or>
    q \<notin> fst ` set (fs_members (cg_sched g)) \<and> q \<notin> still_queued g cs \<and> (q \<in> slots g cs \<longleftrightarrow> q \<notin> cg_cancelled g)"
  using assms(2) clients_okD(5) [OF assms(1), of q]
  unfolding clients_okD(4) [OF assms(1)] by (auto simp: still_queued_def owns_slot_def slots_def)

lemma leave_queue_inv:
  assumes inv: "gate_inv n a b g cs" and q: "cs q = Some (w, Queued)" "q \<notin> cg_events g"
  shows "gate_inv n a b (g\<lparr>cg_sched := fst (cancel q (cg_sched g))\<rparr>) (cs(q \<mapsto> (w, Gone)))"
proof -
  let ?g = "g\<lparr>cg_sched := fst (cancel q (cg_sched g))\<rparr>" and ?cs = "cs(q \<mapsto> (w, Gone))"
  have c: "clients_ok g cs" and ok: "sched_ok (cg_sched g)" using inv by (auto simp: gate_inv_def)
  have mem: "set (fs_members (cg_sched ?g)) = {m \<in> set (fs_members (cg_sched g)). fst m \<noteq> q}"
    by (simp add: cancel_def set_members_delete)
  have "still_queued ?g ?cs = still_queued g cs - {q}"
    by (auto simp: still_queued_def)
  then have keys: "fst ` set (fs_members (cg_sched ?g)) = still_queued ?g ?cs"
    using clients_okD(4) [OF c] unfolding mem by (auto simp: image_iff)
  have ok': "clients_ok ?g ?cs"
    by (rule clients_ok_leave [OF c q(1) _ _ keys])
      (use q c in \<open>auto simp: cancel_def set_members_delete clients_ok_def\<close>)
  have "slots ?g ?cs = slots g cs"
    using q by (auto simp: slots_def owns_slot_def)
  then have "slots_ok a b ?g ?cs"
    using inv by (simp add: gate_inv_def slots_ok_def heavy_slots_alt same_heavy [of cs q w, OF q(1)] cancel_def)
  moreover have "none_grantable ?g"
    using inv by (intro members_subset_keeps(2) [of ?g g])
      (auto simp: gate_inv_def cancel_def set_members_delete)
  ultimately show ?thesis
    using inv ok' cancel_ok [OF ok] by (auto simp: gate_inv_def cancel_def)
qed

lemma acquire_timeout_inv:
  assumes inv: "gate_inv n a b g cs" and l: "listed g" and q: "cs q = Some (w, Queued)"
  shows "gate_inv n (a + of_bool (end_of_wait q g = Returned_twice)) b (acquire_timeout w g) (cs(q \<mapsto> (w, Gone))) \<and>
    listed (acquire_timeout w g)"
proof -
  have c: "clients_ok g cs" using inv by (simp add: gate_inv_def)
  have seq: "fw_seq w = q" using clients_okD(2) [OF c q] .
  let ?mem = "fst ` set (fs_members (cg_sched g))"
  show ?thesis
  proof (cases "q \<in> ?mem")
    case True
    have t: "acquire_timeout w g = discard_waiter (fw_session w) q (g\<lparr>cg_sched := fst (cancel q (cg_sched g))\<rparr>)"
      using True by (simp add: acquire_timeout_def cancel_def seq map_of_eq_None_iff)
    have "listed (g\<lparr>cg_sched := fst (cancel q (cg_sched g))\<rparr>)"
      using l by (auto simp: listed_def cancel_def set_members_delete)
    then have "listed (acquire_timeout w g)"
      unfolding t by (rule discard_waiter_listed) (auto simp: cancel_def set_members_delete)
    then show ?thesis
      using True leave_queue_inv [OF inv q] queued_cases [OF c q] by (simp add: t end_of_wait_def)
  next
    case False
    then have own: "q \<notin> still_queued g cs" "q \<in> slots g cs \<longleftrightarrow> q \<notin> cg_cancelled g" using queued_cases [OF c q] by auto
    let ?g = "return_slot_and_wake (fw_session w) (fw_small w) 0 g"
    have t: "acquire_timeout w g = discard_waiter (fw_session w) q ?g"
      using False by (simp add: acquire_timeout_def cancel_def seq map_of_eq_None_iff delete_idem Let_def)
    note r = return_slot_inv [OF inv q own(1) refl, of 0]
    have "listed ?g" using members_subset_keeps(1) [OF r(2) l r(3)] .
    then have "listed (acquire_timeout w g)"
      unfolding t by (rule discard_waiter_listed) (use r(2) False in auto)
    then show ?thesis using r(1) own(2) by (auto simp: t end_of_wait_def of_bool_def split: if_splits)
  qed
qed

lemma forget_cancelled:
  assumes "gate_inv n a b g cs" and "cs q = Some (w, p)" and "p = Gone \<or> p = Holding"
  shows "gate_inv n a b (g\<lparr>cg_cancelled := cg_cancelled g - {q}\<rparr>) cs"
proof -
  let ?g = "g\<lparr>cg_cancelled := cg_cancelled g - {q}\<rparr>"
  have "slots ?g cs = slots g cs" using assms(2,3) by (auto simp: slots_def owns_slot_def)
  moreover have "still_queued ?g cs = still_queued g cs" by (simp add: still_queued_def)
  ultimately show ?thesis
    using assms(1) by (auto simp: gate_inv_def slots_ok_def heavy_slots_alt none_grantable_def clients_ok_def)
qed

lemma acquire_interrupted_eq:
  "fw_seq w = q \<Longrightarrow> acquire_interrupted w g = (acquire_timeout w g)\<lparr>cg_cancelled := cg_cancelled (acquire_timeout w g) - {q}\<rparr>"
  by (simp add: acquire_interrupted_def acquire_timeout_def split_def Let_def)

lemma acquire_interrupted_inv:
  assumes inv: "gate_inv n a b g cs" and l: "listed g" and q: "cs q = Some (w, Queued)"
  shows "gate_inv n (a + of_bool (end_of_wait q g = Returned_twice)) b (acquire_interrupted w g) (cs(q \<mapsto> (w, Gone))) \<and>
    listed (acquire_interrupted w g)"
proof -
  have "fw_seq w = q" using inv q clients_okD(2) by (auto simp: gate_inv_def)
  note eq = acquire_interrupted_eq [OF this]
  from acquire_timeout_inv [OF assms]
  have t: "gate_inv n (a + of_bool (end_of_wait q g = Returned_twice)) b (acquire_timeout w g) (cs(q \<mapsto> (w, Gone)))"
    "listed (acquire_timeout w g)" by blast+
  from forget_cancelled [OF t(1), of q w Gone] t(2) show ?thesis by (simp add: eq listed_def)
qed

text \<open>A client that has seen its event: it takes the lock, or is interrupted before it does.\<close>

lemma wake_inv:
  assumes inv: "gate_inv n a b g cs" and q: "cs q = Some (w, Queued)" "q \<in> cg_events g"
  shows "gate_inv n a b g (cs(q \<mapsto> (w, Woken)))"
proof -
  let ?cs = "cs(q \<mapsto> (w, Woken))"
  have c: "clients_ok g cs" using inv by (simp add: gate_inv_def)
  have "still_queued g ?cs = still_queued g cs" using q by (auto simp: still_queued_def)
  then have "fst ` set (fs_members (cg_sched g)) = still_queued g ?cs" using clients_okD(4) [OF c] by simp
  then have "clients_ok g ?cs"
    by (rule clients_ok_leave [OF c q(1), rotated 2]) (use c in \<open>auto simp: clients_ok_def\<close>)
  moreover have "slots g ?cs = slots g cs" using q by (auto simp: slots_def owns_slot_def)
  ultimately show ?thesis
    using inv by (simp add: gate_inv_def slots_ok_def heavy_slots_alt same_heavy [of cs q w, OF q(1)])
qed

lemma acquire_woken_inv:
  assumes inv: "gate_inv n a b g cs" and l: "listed g" and q: "cs q = Some (w, Woken)"
    and woken: "acquire_woken w g = (g', ok)"
  shows "gate_inv n a b g' (cs(q \<mapsto> (w, if ok then Holding else Gone))) \<and> listed g'"
proof -
  let ?d = "discard_waiter (fw_session w) q g" and ?cs = "cs(q \<mapsto> (w, if ok then Holding else Gone))"
  have c: "clients_ok g cs" using inv by (simp add: gate_inv_def)
  have seq: "fw_seq w = q" using clients_okD(2) [OF c q] .
  have nm: "q \<notin> fst ` set (fs_members (cg_sched g))"
    using q clients_okD(4) [OF c] by (auto simp: still_queued_def)
  have g': "g' = (if ok then ?d else ?d\<lparr>cg_cancelled := cg_cancelled g - {q}\<rparr>)" and ok: "ok \<longleftrightarrow> q \<notin> cg_cancelled g"
    using woken by (auto simp: acquire_woken_def seq Let_def split: if_splits)
  have f: "cg_sched g' = cg_sched g" "cg_events g' = cg_events g" "cg_cancelled g' = cg_cancelled g - {q}"
    using ok by (auto simp: g')
  have l': "listed g'"
    using discard_waiter_listed [OF l nm, of "fw_session w"] by (simp add: g' listed_def)
  have "still_queued g' ?cs = still_queued g cs"
    using q by (auto simp: still_queued_def f)
  then have keys: "fst ` set (fs_members (cg_sched g')) = still_queued g' ?cs"
    using clients_okD(4) [OF c] by (simp add: f)
  have "clients_ok g' ?cs"
    by (rule clients_ok_leave [OF c q _ _ keys]) (use c in \<open>auto simp: f clients_ok_def\<close>)
  moreover have "slots g' ?cs = slots g cs"
    using q ok by (auto simp: slots_def owns_slot_def f)
  ultimately show ?thesis
    using inv l' by (auto simp: gate_inv_def slots_ok_def heavy_slots_alt same_heavy [of cs q w, OF q] none_grantable_def f)
qed

lemma abandon_inv:
  assumes inv: "gate_inv n a b g cs" and q: "cs q = Some (w, Woken)"
  shows "gate_inv n a (b + of_bool (q \<notin> cg_cancelled g)) g (cs(q \<mapsto> (w, Gone)))"
proof -
  let ?cs = "cs(q \<mapsto> (w, Gone))"
  have c: "clients_ok g cs" and sl: "slots_ok a b g cs" using inv by (auto simp: gate_inv_def)
  have fin: "finite (slots g cs)" by (rule finite_slots [OF c])
  have "still_queued g ?cs = still_queued g cs" using q by (auto simp: still_queued_def)
  then have "fst ` set (fs_members (cg_sched g)) = still_queued g ?cs" using clients_okD(4) [OF c] by simp
  then have ok: "clients_ok g ?cs"
    by (rule clients_ok_leave [OF c q, rotated 2]) (use c in \<open>auto simp: clients_ok_def\<close>)
  have out: "slots g ?cs = slots g cs - {q}" by (auto simp: slots_def owns_slot_def)
  have own: "q \<in> slots g cs \<longleftrightarrow> q \<notin> cg_cancelled g" using q by (auto simp: slots_def owns_slot_def)
  have "card (heavy_slots g ?cs) \<le> card (heavy_slots g cs)"
    using fin by (intro card_mono finite_subset [OF heavy_slots_sub]) (auto simp: heavy_slots_alt out same_heavy [of cs q w, OF q])
  then have "slots_ok a (b + of_bool (q \<notin> cg_cancelled g)) g ?cs"
    using sl card_without [OF fin, of q] by (simp add: slots_ok_def out own)
  with ok inv show ?thesis by (simp add: gate_inv_def)
qed

text \<open>Cancelling a session: its queued waiters are marked and woken, one after the other.\<close>

lemma cancel_one_inv:
  assumes inv: "gate_inv n a b g cs" and q: "q \<in> fst ` set (fs_members (cg_sched g))"
  shows "gate_inv n a b (g\<lparr>cg_sched := fst (cancel q (cg_sched g)), cg_cancelled := insert q (cg_cancelled g),
    cg_events := insert q (cg_events g)\<rparr>) cs" (is "gate_inv n a b ?g cs")
proof -
  have c: "clients_ok g cs" and ok: "sched_ok (cg_sched g)" using inv by (auto simp: gate_inv_def)
  obtain w where w: "cs q = Some (w, Queued)" "q \<notin> cg_events g"
    using q clients_okD(4) [OF c] by (auto simp: still_queued_def)
  have mem: "set (fs_members (cg_sched ?g)) = {m \<in> set (fs_members (cg_sched g)). fst m \<noteq> q}"
    by (simp add: cancel_def set_members_delete)
  have "fst ` set (fs_members (cg_sched ?g)) = fst ` set (fs_members (cg_sched g)) - {q}"
    unfolding mem by (auto simp: image_iff)
  also have "\<dots> = still_queued ?g cs"
    unfolding clients_okD(4) [OF c] by (auto simp: still_queued_def)
  finally have keys: "fst ` set (fs_members (cg_sched ?g)) = still_queued ?g cs" .
  have "clients_ok ?g cs"
    unfolding clients_ok_def keys mem
  proof (intro conjI)
    show "cg_cancelled ?g \<subseteq> cg_events ?g"
      using c by (auto simp: clients_ok_def)
    show "fst ` {m \<in> set (fs_members (cg_sched g)). fst m \<noteq> q} = still_queued ?g cs"
      using keys unfolding mem .
  qed (use c w(1) in \<open>simp_all add: clients_ok_def cancel_def domI\<close>)
  moreover have "slots ?g cs = slots g cs"
    using w by (auto simp: slots_def owns_slot_def)
  moreover have "none_grantable ?g"
    using inv by (intro members_subset_keeps(2) [of ?g g])
      (auto simp: gate_inv_def cancel_def set_members_delete)
  ultimately show ?thesis
    using inv cancel_ok [OF ok] by (auto simp: gate_inv_def slots_ok_def heavy_slots_alt cancel_def)
qed

lemma cancel_waiters_inv:
  "gate_inv n a b g cs \<Longrightarrow> cancel_waiters qs (g, k) = (g', k') \<Longrightarrow>
   gate_inv n a b g' cs \<and> cg_waiters g' = cg_waiters g \<and>
   set (fs_members (cg_sched g')) = {m \<in> set (fs_members (cg_sched g)). fst m \<notin> set qs}"
proof (induction qs arbitrary: g k)
  case Nil
  then show ?case by simp
next
  case (Cons q qs)
  show ?case
  proof (cases "q \<in> fst ` set (fs_members (cg_sched g))")
    case True
    let ?g = "g\<lparr>cg_sched := fst (cancel q (cg_sched g)), cg_cancelled := insert q (cg_cancelled g),
      cg_events := insert q (cg_events g)\<rparr>"
    have "cancel_waiters qs (?g, k + 1) = (g', k')"
      using True Cons.prems(2) by (simp add: cancel_def map_of_eq_None_iff)
    from Cons.IH [OF cancel_one_inv [OF Cons.prems(1) True] this] show ?thesis
      by (auto simp: cancel_def set_members_delete)
  next
    case False
    then have "cancel_waiters qs (g, k) = (g', k')"
      using Cons.prems(2) by (simp add: cancel_def map_of_eq_None_iff delete_idem)
    from Cons.IH [OF Cons.prems(1) this] False show ?thesis
      by (auto simp: image_iff)
  qed
qed

text \<open>The loop marks and wakes the same waiters, all of them out of the queue.\<close>

definition cancel_effect :: "channel_gate \<Rightarrow> channel_gate \<Rightarrow> bool" where
  "cancel_effect g g' = (\<exists>D. D \<subseteq> fst ` set (fs_members (cg_sched g)) \<and>
     cg_events g' = cg_events g \<union> D \<and> cg_cancelled g' = cg_cancelled g \<union> D \<and>
     fst ` set (fs_members (cg_sched g')) = fst ` set (fs_members (cg_sched g)) - D \<and>
     fs_in_flight (cg_sched g') = fs_in_flight (cg_sched g))"

lemma cancel_waiters_effect: "cancel_effect g (fst (cancel_waiters qs (g, k)))"
proof (induction qs arbitrary: g k)
  case Nil
  show ?case by (auto simp: cancel_effect_def intro!: exI [of _ "{}"])
next
  case (Cons q qs)
  show ?case
  proof (cases "q \<in> fst ` set (fs_members (cg_sched g))")
    case True
    let ?g = "g\<lparr>cg_sched := fst (cancel q (cg_sched g)), cg_cancelled := insert q (cg_cancelled g),
      cg_events := insert q (cg_events g)\<rparr>"
    have eq: "cancel_waiters (q # qs) (g, k) = cancel_waiters qs (?g, k + 1)"
      using True by (simp add: cancel_def map_of_eq_None_iff)
    obtain D where D: "D \<subseteq> fst ` set (fs_members (cg_sched ?g))"
      "cg_events (fst (cancel_waiters qs (?g, k + 1))) = cg_events ?g \<union> D"
      "cg_cancelled (fst (cancel_waiters qs (?g, k + 1))) = cg_cancelled ?g \<union> D"
      "fst ` set (fs_members (cg_sched (fst (cancel_waiters qs (?g, k + 1))))) = fst ` set (fs_members (cg_sched ?g)) - D"
      "fs_in_flight (cg_sched (fst (cancel_waiters qs (?g, k + 1)))) = fs_in_flight (cg_sched ?g)"
      using Cons.IH [of ?g "k + 1"] unfolding cancel_effect_def by blast
    have m: "fst ` set (fs_members (cg_sched ?g)) = fst ` set (fs_members (cg_sched g)) - {q}"
      by (auto simp: cancel_def set_members_delete image_iff)
    show ?thesis
      unfolding cancel_effect_def eq
      by (rule exI [of _ "insert q D"]) (use D m True in \<open>auto simp: cancel_def\<close>)
  next
    case False
    then have "cancel_waiters (q # qs) (g, k) = cancel_waiters qs (g, k)"
      by (simp add: cancel_def map_of_eq_None_iff delete_idem)
    then show ?thesis using Cons.IH [of g k] by simp
  qed
qed

lemma gate_cancel_session_inv:
  assumes inv: "gate_inv n a b g cs" and l: "listed g" and g': "g' = fst (gate_cancel_session sid g)"
  shows "gate_inv n a b g' cs" and "listed g'"
    and "set (fs_members (cg_sched g')) = {m \<in> set (fs_members (cg_sched g)). fst m \<notin> set (dict_items (cg_waiters g) sid)}"
    and "\<forall>m \<in> set (fs_members (cg_sched g')). fw_session (snd m) \<noteq> sid"
proof -
  let ?g = "g\<lparr>cg_waiters := AList.delete sid (cg_waiters g)\<rparr>"
  obtain k where "cancel_waiters (dict_items (cg_waiters g) sid) (?g, 0) = (g', k)"
    using g' by (metis gate_cancel_session_def prod.collapse)
  from cancel_waiters_inv [OF _ this, of n a b cs] inv
  have r: "gate_inv n a b g' cs" "cg_waiters g' = AList.delete sid (cg_waiters g)"
    "set (fs_members (cg_sched g')) = {m \<in> set (fs_members (cg_sched g)). fst m \<notin> set (dict_items (cg_waiters g) sid)}"
    by simp_all
  show none: "\<forall>m \<in> set (fs_members (cg_sched g')). fw_session (snd m) \<noteq> sid"
    using l unfolding r(3) by (auto simp: listed_def)
  have "dict_items (cg_waiters g') s = dict_items (cg_waiters g) s" if "s \<noteq> sid" for s
    using that by (simp add: r(2) dict_items_def dict_delete_lookup)
  then show "listed g'"
    using l none unfolding listed_def by (auto simp: r(3))
  show "gate_inv n a b g' cs" by (rule r(1))
  show "set (fs_members (cg_sched g')) = {m \<in> set (fs_members (cg_sched g)). fst m \<notin> set (dict_items (cg_waiters g) sid)}"
    by (rule r(3))
qed

section \<open>Arrivals\<close>

lemma arrive_granted_inv:
  assumes inv: "gate_inv n a b g cs" and new: "cs (fw_seq w) = None"
    and room: "fs_in_flight (cg_sched g) < fs_capacity (cg_sched g)" "grantable (cg_sched g) w"
  shows "gate_inv n a b (g\<lparr>cg_sched := admit w (cg_sched g)\<rparr>) (cs(fw_seq w \<mapsto> (w, Holding)))"
proof -
  let ?g = "g\<lparr>cg_sched := admit w (cg_sched g)\<rparr>" and ?cs = "cs(fw_seq w \<mapsto> (w, Holding))" and ?q = "fw_seq w"
  have c: "clients_ok g cs" and sl: "slots_ok a b g cs" using inv by (auto simp: gate_inv_def)
  have fin: "finite (slots g cs)" by (rule finite_slots [OF c])
  have q: "?q \<notin> slots g cs" using new by (auto simp: slots_def owns_slot_def)
  have nc: "?q \<notin> cg_cancelled g" using c new by (auto simp: clients_ok_def)
  have "still_queued ?g ?cs = still_queued g cs"
    using new by (auto simp: still_queued_def)
  then have keys: "fst ` set (fs_members (cg_sched g)) = still_queued ?g ?cs"
    using clients_okD(4) [OF c] by simp
  have "clients_ok ?g ?cs"
    unfolding clients_ok_def
  proof (intro conjI)
    show "fst ` set (fs_members (cg_sched ?g)) = still_queued ?g ?cs" using keys by simp
    show "\<forall>m \<in> set (fs_members (cg_sched ?g)). \<exists>v. ?cs (fst m) = Some (v, Queued) \<and>
        fw_small (snd m) = fw_small v \<and> fw_session (snd m) = fw_session v"
      using c new by (force simp: clients_ok_def)
    show "cg_cancelled ?g \<subseteq> cg_events ?g"
      using c by (simp add: clients_ok_def)
  qed (use c in \<open>auto simp: clients_ok_def\<close>)
  moreover have sl': "slots ?g ?cs = insert ?q (slots g cs)"
    by (auto simp: slots_def owns_slot_def)
  have "slots_ok a b ?g ?cs"
  proof -
    have "heavy_slots ?g ?cs \<subseteq> (if fw_small w then heavy_slots g cs else insert ?q (slots g cs))"
      using new by (auto simp: heavy_slots_alt sl' heavy_client_def)
    then have "card (heavy_slots ?g ?cs) \<le> card (if fw_small w then heavy_slots g cs else insert ?q (slots g cs))"
      using fin finite_subset [OF heavy_slots_sub fin] by (intro card_mono) auto
    then show ?thesis
      using sl room q fin by (auto simp: slots_ok_def sl' grantable_def split: if_splits)
  qed
  moreover have "none_grantable ?g"
    using inv room by (auto simp: gate_inv_def none_grantable_def grantable_def)
  ultimately show ?thesis
    using inv room sched_ok_admit by (simp add: gate_inv_def)
qed

lemma arrive_queued_inv:
  assumes inv: "gate_inv n a b g cs" and new: "cs (fw_seq w) = None"
    and full: "\<not> (fs_in_flight (cg_sched g) < fs_capacity (cg_sched g) \<and> grantable (cg_sched g) w)"
  shows "gate_inv n a b (g\<lparr>cg_sched := fst (enqueue now w (cg_sched g))\<rparr>) (cs(fw_seq w \<mapsto> (w, Queued)))"
proof -
  let ?s = "fst (enqueue now w (cg_sched g))"
  let ?g = "g\<lparr>cg_sched := ?s\<rparr>" and ?cs = "cs(fw_seq w \<mapsto> (w, Queued))" and ?q = "fw_seq w"
  let ?w = "w\<lparr>fw_snapshot := consumption_of (cg_sched g) (fw_session w)\<rparr>"
  have c: "clients_ok g cs" and ok: "sched_ok (cg_sched g)" using inv by (auto simp: gate_inv_def)
  have fresh: "\<forall>e \<in> set (fs_heap (cg_sched g)). entry_seq e \<noteq> ?q"
    using clients_okD(3) [OF c] new by fastforce
  note en = enqueue_ok [OF ok fresh, of now]
  have sched: "fs_in_flight ?s = fs_in_flight (cg_sched g)" "fs_capacity ?s = fs_capacity (cg_sched g)"
    "fs_heavy_capacity ?s = fs_heavy_capacity (cg_sched g)"
    by (simp_all add: enqueue_def Let_def)
  have nq: "?q \<notin> fst ` set (fs_members (cg_sched g))"
    using clients_okD(4) [OF c] new by (auto simp: still_queued_def)
  have mem: "set (fs_members ?s) = insert (?q, ?w) (set (fs_members (cg_sched g)))"
    using set_update_new [OF nq] by (simp add: enqueue_def Let_def)
  have nev: "?q \<notin> cg_events g" and nc: "?q \<notin> cg_cancelled g"
    using c new by (auto simp: clients_ok_def)
  have "still_queued ?g ?cs = insert ?q (still_queued g cs)"
    using nev by (auto simp: still_queued_def)
  then have keys: "fst ` set (fs_members ?s) = still_queued ?g ?cs"
    using clients_okD(4) [OF c] by (simp add: mem)
  have "clients_ok ?g ?cs"
    unfolding clients_ok_def
  proof (intro conjI)
    show "fst ` set (fs_members (cg_sched ?g)) = still_queued ?g ?cs" using keys by simp
    show "\<forall>m \<in> set (fs_members (cg_sched ?g)). \<exists>v. ?cs (fst m) = Some (v, Queued) \<and>
        fw_small (snd m) = fw_small v \<and> fw_session (snd m) = fw_session v"
    proof
      fix m
      assume "m \<in> set (fs_members (cg_sched ?g))"
      then consider "m = (?q, ?w)" | "m \<in> set (fs_members (cg_sched g))" "fst m \<noteq> ?q"
        using nq by (force simp: mem)
      then show "\<exists>v. ?cs (fst m) = Some (v, Queued) \<and> fw_small (snd m) = fw_small v \<and> fw_session (snd m) = fw_session v"
        using c by cases (auto simp: clients_ok_def)
    qed
    show "cg_cancelled ?g \<subseteq> cg_events ?g"
      using c by (simp add: clients_ok_def)
    have "entry_seq ` set (fs_heap ?s) = insert ?q (entry_seq ` set (fs_heap (cg_sched g)))"
      using en by (simp add: enqueued_entry_def entry_seq_def Let_def)
    then show "entry_seq ` set (fs_heap (cg_sched ?g)) \<subseteq> dom ?cs"
      using c by (auto simp: clients_ok_def)
  qed (use c in \<open>auto simp: clients_ok_def\<close>)
  moreover have "slots ?g ?cs = slots g cs"
    using new nev by (auto simp: slots_def owns_slot_def)
  moreover from this have "heavy_slots ?g ?cs = heavy_slots g cs"
    using new by (auto simp: heavy_slots_def slots_def owns_slot_def)
  moreover have "none_grantable ?g"
    using inv full ok by (auto simp: gate_inv_def none_grantable_def grantable_def mem sched sched_ok_def)
  ultimately show ?thesis
    using inv en by (simp add: gate_inv_def slots_ok_def sched)
qed

lemma acquire_begin_inv:
  assumes inv: "gate_inv n a b g cs" and l: "listed g" and new: "cs (fw_seq w) = None"
    and "begin": "acquire_begin now w g = (g', r)"
  shows "gate_inv n a b g' (cs(fw_seq w \<mapsto> (w, case r of None \<Rightarrow> Queued | Some True \<Rightarrow> Holding | Some False \<Rightarrow> Gone))) \<and> listed g'"
proof (cases "fs_in_flight (cg_sched g) < fs_capacity (cg_sched g) \<and> grantable (cg_sched g) w")
  case True
  have "fw_seq w \<notin> cg_cancelled g"
    using inv new by (auto simp: gate_inv_def clients_ok_def)
  then have "g' = g\<lparr>cg_sched := admit w (cg_sched g)\<rparr>" "r = Some True"
    using True "begin" by (auto simp: acquire_begin_def try_grant_immediate_def grantable_def split: if_splits)
  then show ?thesis
    using arrive_granted_inv [OF inv new] True l by (simp add: listed_def)
next
  case False
  let ?g = "g\<lparr>cg_sched := fst (enqueue now w (cg_sched g))\<rparr>"
  have refused: "try_grant_immediate w (cg_sched g) = (cg_sched g, False)"
    using False by (auto simp: try_grant_immediate_def grantable_def)
  have g': "g' = ?g\<lparr>cg_waiters := dict_push (fw_session w) (fw_seq w) (cg_waiters g)\<rparr>" "r = None"
    using "begin" by (auto simp: acquire_begin_def refused)
  have "fw_seq w \<notin> fst ` set (fs_members (cg_sched g))"
    using inv new by (auto simp: gate_inv_def clients_ok_def still_queued_def)
  then have "listed g'"
    using l by (auto simp: listed_def g' enqueue_def Let_def set_update_new dict_items_push)
  then show ?thesis
    using arrive_queued_inv [OF inv new False, of now] by (simp add: g' gate_inv_waiters)
qed

lemma gate_step_inv:
  assumes "gate_step x e y" and "gate_inv n a b (fst x) (snd x)" and "listed (fst x)"
  shows "gate_inv n (a + of_bool (e = Returned_twice)) (b + of_bool (e = Never_returned)) (fst y) (snd y) \<and> listed (fst y)"
  using assms
proof (cases rule: gate_step.cases)
  case (arrive cs w now g g' r)
  with assms(2,3) acquire_begin_inv [of n a b g cs w now g' r] show ?thesis by simp
next
  case (wake cs q w g)
  with assms(2,3) wake_inv [of n a b g cs q w] show ?thesis by simp
next
  case (proceed cs q w g g' ok)
  with assms(2,3) acquire_woken_inv [of n a b g cs q w g' ok] show ?thesis by simp
next
  case (abandon cs q w g)
  with assms(2,3) abandon_inv [of n a b g cs q w] show ?thesis by (cases "q \<in> cg_cancelled g") simp_all
next
  case (timeout cs q w g)
  moreover have "end_of_wait q g \<noteq> Never_returned" by (simp add: end_of_wait_def)
  ultimately show ?thesis using assms(2,3) acquire_timeout_inv [of n a b g cs q w] by simp
next
  case (interrupt cs q w g)
  moreover have "end_of_wait q g \<noteq> Never_returned" by (simp add: end_of_wait_def)
  ultimately show ?thesis using assms(2,3) acquire_interrupted_inv [of n a b g cs q w] by simp
next
  case (finish cs q w g cost)
  with assms(2,3) gate_finish_inv [of n a b g cs q w cost] show ?thesis by simp
next
  case (cancel_session g cs sid)
  with assms(2,3) gate_cancel_session_inv(1,2) [of n a b g cs "fst (gate_cancel_session sid g)" sid] show ?thesis by simp
qed

lemma gate_reachable_inv: "gate_reachable n x a b \<Longrightarrow> gate_inv n a b (fst x) (snd x) \<and> listed (fst x)"
proof (induction rule: gate_reachable.induct)
  case (start aging g)
  then obtain s where "new_scheduler n aging True = Some s"
    and g: "g = \<lparr>cg_sched = s, cg_waiters = [], cg_cancelled = {}, cg_events = {}\<rparr>"
    by (auto simp: new_gate_def)
  then show ?case
    using new_scheduler_ok [of n aging True s]
    by (simp add: gate_inv_def clients_ok_def slots_ok_def slots_def heavy_slots_def owns_slot_def
        none_grantable_def still_queued_def listed_def)
next
  case (step x a b e y)
  then show ?case using gate_step_inv by blast
qed

end
