(* ===== verification/Governor_Retry.thy ===== *)
theory Governor_Retry
  imports Prelude
begin

text \<open>
  The retry budget, \<open>app/services/governor/retry_budget.py\<close>: a global and a per-session token account,
  consulted before a retry and charged after it. The table of sessions and the window of recent
  degradations are insertion-ordered dictionaries; the reading of the monotonic clock is an argument,
  floats are rational numbers. The metric of \<open>charge\<close> is left out.
\<close>

section \<open>State\<close>

datatype retry_class = RC_tool | RC_http | RC_data_fabric | RC_workflow | RC_pi | RC_self_heal | RC_llm

fun retry_class_value :: "retry_class \<Rightarrow> string" where
  "retry_class_value RC_tool = ''tool''"
| "retry_class_value RC_http = ''http''"
| "retry_class_value RC_data_fabric = ''data_fabric''"
| "retry_class_value RC_workflow = ''workflow''"
| "retry_class_value RC_pi = ''pi''"
| "retry_class_value RC_self_heal = ''self_heal''"
| "retry_class_value RC_llm = ''llm''"

datatype retry_verdict = ALLOW | DENY_GLOBAL_EXHAUSTED | DENY_SESSION_EXHAUSTED | DENY_CANCELLED | DENY_DEGRADE_TAKEN

record session_tokens =
  st_tokens :: rat
  st_charges :: "(string \<times> nat) list"
  st_cancelled :: bool
  st_last_charge :: rat

record retry_budget =
  rb_global_tokens :: rat
  rb_session_tokens :: rat
  rb_global_left :: rat
  rb_sessions :: "(string \<times> session_tokens) list"
  rb_degraded :: "((string \<times> string) \<times> rat) list"

definition new_session :: "rat \<Rightarrow> session_tokens" where
  "new_session n = \<lparr>st_tokens = n, st_charges = [], st_cancelled = False, st_last_charge = 0\<rparr>"

definition new_budget :: "int \<Rightarrow> int \<Rightarrow> retry_budget" where
  "new_budget tokens per_session = \<lparr>rb_global_tokens = of_int tokens, rb_session_tokens = of_int per_session,
     rb_global_left = of_int tokens, rb_sessions = [], rb_degraded = []\<rparr>"

definition DEGRADE_WINDOW_S :: rat where "DEGRADE_WINDOW_S = 60"
definition RETRY_MAX_SESSIONS :: nat where "RETRY_MAX_SESSIONS = 2048"

section \<open>Operations\<close>

definition gc_degraded :: "rat \<Rightarrow> retry_budget \<Rightarrow> retry_budget" where
  "gc_degraded now b = b\<lparr>rb_degraded := filter (\<lambda>(k, t). \<not> t < now - DEGRADE_WINDOW_S) (rb_degraded b)\<rparr>"

definition retry_allowed ::
  "rat \<Rightarrow> string \<Rightarrow> retry_class \<Rightarrow> string \<Rightarrow> bool \<Rightarrow> retry_budget \<Rightarrow> retry_budget \<times> retry_verdict" where
  "retry_allowed now sid cls operation degrade_taken b0 =
    (let b = gc_degraded now b0;
         sess = map_of (rb_sessions b) sid;
         key = (sid, if operation \<noteq> [] then operation else retry_class_value cls)
     in if (case sess of Some s \<Rightarrow> st_cancelled s | None \<Rightarrow> False) then (b, DENY_CANCELLED)
        else if map_of (rb_degraded b) key \<noteq> None then (b, DENY_DEGRADE_TAKEN)
        else if degrade_taken then (b\<lparr>rb_degraded := AList.update key now (rb_degraded b)\<rparr>, DENY_DEGRADE_TAKEN)
        else if rb_global_left b \<le> 0 then (b, DENY_GLOBAL_EXHAUSTED)
        else case sess of
          None \<Rightarrow> (b, ALLOW)
        | Some s \<Rightarrow> if st_tokens s \<le> 0 then (b, DENY_SESSION_EXHAUSTED) else (b, ALLOW))"

definition note_degrade :: "rat \<Rightarrow> string \<Rightarrow> string \<Rightarrow> retry_budget \<Rightarrow> retry_budget" where
  "note_degrade now sid operation b0 =
    (let b = gc_degraded now b0
     in b\<lparr>rb_degraded := AList.update (sid, operation) now (rb_degraded b)\<rparr>)"

definition drop_sessions :: "string list \<Rightarrow> (string \<times> session_tokens) list \<Rightarrow> (string \<times> session_tokens) list" where
  "drop_sessions sids ss = filter (\<lambda>(sid, s). sid \<notin> set sids) ss"

definition evict :: "retry_budget \<Rightarrow> retry_budget" where
  "evict b =
    (let ss = rb_sessions b
     in if length ss \<le> RETRY_MAX_SESSIONS then b
        else
          let cancelled = List.map fst (filter (\<lambda>(sid, s). st_cancelled s) ss);
              ss1 = drop_sessions (take (length ss - RETRY_MAX_SESSIONS) cancelled) ss
          in if length ss1 \<le> RETRY_MAX_SESSIONS then b\<lparr>rb_sessions := ss1\<rparr>
             else
               let oldest = List.map fst (sort_key (\<lambda>(sid, s). st_last_charge s) ss1)
               in b\<lparr>rb_sessions := drop_sessions (take (length ss1 - RETRY_MAX_SESSIONS) oldest) ss1\<rparr>)"

definition charge :: "rat \<Rightarrow> string \<Rightarrow> retry_class \<Rightarrow> retry_budget \<Rightarrow> retry_budget" where
  "charge now sid cls b =
    (let s0 = or_else (map_of (rb_sessions b) sid) (new_session (rb_session_tokens b));
         s1 = (if st_cancelled s0 then s0 else s0\<lparr>st_tokens := max 0 (st_tokens s0 - 1)\<rparr>);
         left = (if st_cancelled s0 then rb_global_left b else max 0 (rb_global_left b - 1));
         c = retry_class_value cls;
         s2 = s1\<lparr>st_charges := AList.update c (or_else (map_of (st_charges s1) c) 0 + 1) (st_charges s1),
                  st_last_charge := now\<rparr>
     in evict (b\<lparr>rb_global_left := left, rb_sessions := AList.update sid s2 (rb_sessions b)\<rparr>))"

definition cancel_session_retries :: "string \<Rightarrow> retry_budget \<Rightarrow> retry_budget" where
  "cancel_session_retries sid b =
    (let s = or_else (map_of (rb_sessions b) sid) (new_session 0)
     in b\<lparr>rb_sessions := AList.update sid (s\<lparr>st_tokens := 0, st_cancelled := True\<rparr>) (rb_sessions b)\<rparr>)"

definition close_session :: "string \<Rightarrow> retry_budget \<Rightarrow> retry_budget" where
  "close_session sid b = b\<lparr>rb_sessions := AList.delete sid (rb_sessions b)\<rparr>"

definition refund_global :: "int \<Rightarrow> retry_budget \<Rightarrow> retry_budget" where
  "refund_global amount b = b\<lparr>rb_global_left := min (rb_global_tokens b) (rb_global_left b + of_int amount)\<rparr>"

section \<open>Runs\<close>

text \<open>
  A caller consults the budget and charges an allowed retry. The run collects the verdicts with their
  sessions.
\<close>

datatype retry_op =
    Attempt string retry_class string bool
  | Note string string
  | Cancel string
  | Close string

fun op_session :: "retry_op \<Rightarrow> string" where
  "op_session (Attempt sid cls operation degrade) = sid"
| "op_session (Note sid operation) = sid"
| "op_session (Cancel sid) = sid"
| "op_session (Close sid) = sid"

definition retry_step ::
  "retry_budget \<times> (string \<times> retry_verdict) list \<Rightarrow> rat \<times> retry_op \<Rightarrow> retry_budget \<times> (string \<times> retry_verdict) list" where
  "retry_step acc x =
    (let (b, out) = acc
     in case snd x of
          Attempt sid cls operation degrade \<Rightarrow>
            let (b1, v) = retry_allowed (fst x) sid cls operation degrade b
            in (if v = ALLOW then charge (fst x) sid cls b1 else b1, out @ [(sid, v)])
        | Note sid operation \<Rightarrow> (note_degrade (fst x) sid operation b, out)
        | Cancel sid \<Rightarrow> (cancel_session_retries sid b, out)
        | Close sid \<Rightarrow> (close_session sid b, out))"

lemma gc_fields [simp]:
  "rb_sessions (gc_degraded t b) = rb_sessions b"
  "rb_global_left (gc_degraded t b) = rb_global_left b"
  "rb_session_tokens (gc_degraded t b) = rb_session_tokens b"
  by (simp_all add: gc_degraded_def)

lemma retry_allowed_fields [simp]:
  "rb_sessions (fst (retry_allowed t sid cls op deg b)) = rb_sessions b"
  "rb_global_left (fst (retry_allowed t sid cls op deg b)) = rb_global_left b"
  by (simp_all add: retry_allowed_def Let_def split: option.split)

lemma retry_allowed_ALLOW:
  "snd (retry_allowed t sid cls op deg b) = ALLOW \<Longrightarrow>
   0 < rb_global_left b \<and> (\<forall>s. map_of (rb_sessions b) sid = Some s \<longrightarrow> \<not> st_cancelled s \<and> 0 < st_tokens s)"
  by (auto simp: retry_allowed_def Let_def not_le split: option.splits if_splits)

lemma note_degrade_fields [simp]:
  "rb_sessions (note_degrade t sid op b) = rb_sessions b"
  "rb_global_left (note_degrade t sid op b) = rb_global_left b"
  by (simp_all add: note_degrade_def Let_def)

lemma evict_fields [simp]: "rb_global_left (evict b) = rb_global_left b"
  by (simp add: evict_def Let_def)

lemma evict_small: "length (rb_sessions b) \<le> RETRY_MAX_SESSIONS \<Longrightarrow> evict b = b"
  by (simp add: evict_def)

text \<open>An eviction takes cancelled sessions first, so the mark does not outlive it.\<close>

lemma evict_forgets_cancel:
  assumes "rb_sessions b = (sid, s) # rest" and "st_cancelled s" and "RETRY_MAX_SESSIONS \<le> length rest"
  shows "map_of (rb_sessions (evict b)) sid = None"
proof -
  have "sid \<in> set (take (Suc (length rest) - RETRY_MAX_SESSIONS) (sid # List.map fst (filter (\<lambda>(sid, s). st_cancelled s) rest)))"
    using assms(3) by (simp add: Suc_diff_le)
  then show ?thesis
    using assms by (auto simp: evict_def Let_def drop_sessions_def map_of_eq_None_iff)
qed

section \<open>The global account\<close>

definition allowed_count :: "(string \<times> retry_verdict) list \<Rightarrow> nat" where
  "allowed_count out = length (filter (\<lambda>(sid, v). v = ALLOW) out)"

definition account_ok :: "int \<Rightarrow> retry_budget \<times> (string \<times> retry_verdict) list \<Rightarrow> bool" where
  "account_ok tokens acc = (\<exists>left. rb_global_left (fst acc) = of_int left \<and> 0 \<le> left \<and>
     int (allowed_count (snd acc)) + left = tokens)"

lemma charge_left:
  assumes "rb_global_left b = of_int n" and "0 < n" and "\<forall>s. map_of (rb_sessions b) sid = Some s \<longrightarrow> \<not> st_cancelled s"
  shows "rb_global_left (charge t sid cls b) = of_int (n - 1)"
  using assms by (cases "map_of (rb_sessions b) sid") (auto simp: charge_def Let_def new_session_def max_def)

lemma account_step:
  assumes "account_ok tokens acc"
  shows "account_ok tokens (retry_step acc x)"
proof -
  obtain b out where acc: "acc = (b, out)" by (cases acc)
  obtain n where n: "rb_global_left b = of_int n" "0 \<le> n" "int (allowed_count out) + n = tokens"
    using assms by (auto simp: account_ok_def acc)
  show ?thesis
  proof (cases "snd x")
    case (Attempt sid cls op deg)
    let ?r = "retry_allowed (fst x) sid cls op deg b"
    show ?thesis
    proof (cases "snd ?r = ALLOW")
      case True
      then have "0 < n" "\<forall>s. map_of (rb_sessions b) sid = Some s \<longrightarrow> \<not> st_cancelled s"
        using retry_allowed_ALLOW [OF True] n(1) by auto
      then have "rb_global_left (charge (fst x) sid cls (fst ?r)) = of_int (n - 1)"
        by (intro charge_left) (simp_all add: n(1))
      then show ?thesis
        using True n(3) \<open>0 < n\<close> unfolding account_ok_def
        by (intro exI [of _ "n - 1"]) (simp add: retry_step_def acc Attempt split_def Let_def allowed_count_def)
    next
      case False
      then show ?thesis
        using n by (auto simp: account_ok_def retry_step_def acc Attempt split_def Let_def allowed_count_def)
    qed
  qed (use n in \<open>auto simp: account_ok_def retry_step_def acc cancel_session_retries_def close_session_def Let_def\<close>)
qed

interpretation account: op_system retry_step "account_ok tokens" "\<lambda>x. True" for tokens
  by unfold_locales (rule account_step)

section \<open>Cancelled sessions\<close>

definition stays_cancelled :: "string \<Rightarrow> string set \<Rightarrow> nat \<Rightarrow> retry_budget \<times> (string \<times> retry_verdict) list \<Rightarrow> bool" where
  "stays_cancelled sid sids k acc = (distinct (List.map fst (rb_sessions (fst acc))) \<and>
     fst ` set (rb_sessions (fst acc)) \<subseteq> sids \<and>
     (\<exists>s. map_of (rb_sessions (fst acc)) sid = Some s \<and> st_cancelled s) \<and>
     (\<forall>v. (sid, v) \<in> set (drop k (snd acc)) \<longrightarrow> v = DENY_CANCELLED) \<and> k \<le> length (snd acc))"

definition small_table :: "string set \<Rightarrow> retry_budget \<times> (string \<times> retry_verdict) list \<Rightarrow> bool" where
  "small_table sids acc = (distinct (List.map fst (rb_sessions (fst acc))) \<and> fst ` set (rb_sessions (fst acc)) \<subseteq> sids)"

lemma table_length:
  assumes "distinct (List.map fst d)" and "fst ` set d \<subseteq> sids" and "finite sids" and "card sids \<le> n"
  shows "length d \<le> n"
proof -
  have "length d = card (fst ` set d)"
    using distinct_card [OF assms(1)] by simp
  also have "\<dots> \<le> card sids" by (rule card_mono [OF assms(3,2)])
  finally show ?thesis using assms(4) by simp
qed

lemma charge_sessions:
  assumes d: "distinct (List.map fst (rb_sessions b))" and k: "fst ` set (rb_sessions b) \<subseteq> sids" "sid \<in> sids"
    and n: "finite sids" "card sids \<le> RETRY_MAX_SESSIONS"
  shows "\<exists>s. rb_sessions (charge t sid cls b) = AList.update sid s (rb_sessions b)"
proof -
  have "length (AList.update sid s (rb_sessions b)) \<le> RETRY_MAX_SESSIONS" for s
    using d k by (intro table_length [OF _ _ n]) (auto simp: distinct_update dict_keys_update)
  then show ?thesis
    unfolding charge_def Let_def by (subst evict_small) auto
qed

lemma sessions_step:
  assumes acc: "small_table sids acc" and n: "finite sids" "card sids \<le> RETRY_MAX_SESSIONS" and x: "op_session (snd x) \<in> sids"
  shows "small_table sids (retry_step acc x) \<and>
    (\<forall>sid. sid \<noteq> op_session (snd x) \<longrightarrow>
      map_of (rb_sessions (fst (retry_step acc x))) sid = map_of (rb_sessions (fst acc)) sid)"
proof -
  obtain b out where a: "acc = (b, out)" by (cases acc)
  have b: "distinct (List.map fst (rb_sessions b))" "fst ` set (rb_sessions b) \<subseteq> sids"
    using acc by (auto simp: small_table_def a)
  show ?thesis
  proof (cases "snd x")
    case (Attempt sid cls op deg)
    let ?r = "retry_allowed (fst x) sid cls op deg b"
    obtain s where "rb_sessions (charge (fst x) sid cls (fst ?r)) = AList.update sid s (rb_sessions b)"
      using charge_sessions [OF _ _ _ n, of "fst ?r" sid "fst x" cls] b x Attempt by auto
    then show ?thesis
      using b x by (simp add: small_table_def retry_step_def a Attempt split_def Let_def distinct_update dict_keys_update
          dict_update_lookup)
  next
    case (Close sid)
    have "fst ` set (AList.delete sid (rb_sessions b)) \<subseteq> sids"
      using b(2) by (auto simp: AList.delete_eq)
    then show ?thesis
      using b by (simp add: small_table_def retry_step_def a Close close_session_def distinct_delete dict_delete_lookup)
  qed (use b x in \<open>simp_all add: small_table_def retry_step_def a cancel_session_retries_def Let_def
        distinct_update dict_keys_update dict_update_lookup\<close>)
qed

lemma cancelled_step:
  assumes c: "stays_cancelled sid sids k acc" and n: "finite sids" "card sids \<le> RETRY_MAX_SESSIONS"
    and x: "op_session (snd x) \<in> sids" "snd x \<noteq> Close sid"
  shows "stays_cancelled sid sids k (retry_step acc x)"
proof -
  obtain b out where a: "acc = (b, out)" by (cases acc)
  obtain s where s: "map_of (rb_sessions b) sid = Some s" "st_cancelled s"
    using c by (auto simp: stays_cancelled_def a)
  have st: "small_table sids (retry_step acc x)"
    and other: "op_session (snd x) \<noteq> sid \<Longrightarrow> map_of (rb_sessions (fst (retry_step acc x))) sid = Some s"
    using sessions_step [OF _ n x(1)] c s(1) by (auto simp: stays_cancelled_def small_table_def a)
  have deny: "snd (retry_allowed t sid cls op deg b) = DENY_CANCELLED" for t cls op deg
    using s by (simp add: retry_allowed_def Let_def)
  have mark: "\<exists>s. map_of (rb_sessions (fst (retry_step acc x))) sid = Some s \<and> st_cancelled s"
  proof (cases "op_session (snd x) = sid")
    case False
    then show ?thesis using other s(2) by auto
  next
    case True
    then show ?thesis
      using s x(2) deny
      by (cases "snd x") (auto simp: retry_step_def a split_def Let_def cancel_session_retries_def dict_update_lookup)
  qed
  have "\<forall>v. (sid, v) \<in> set (drop k (snd (retry_step acc x))) \<longrightarrow> v = DENY_CANCELLED"
    using c deny by (cases "snd x") (auto simp: stays_cancelled_def a retry_step_def split_def Let_def)
  moreover have "k \<le> length (snd (retry_step acc x))"
    using c by (cases "snd x") (auto simp: stays_cancelled_def a retry_step_def split_def Let_def)
  ultimately show ?thesis
    using st mark by (simp add: stays_cancelled_def small_table_def)
qed

definition table_inv :: "string set \<Rightarrow> retry_budget \<times> (string \<times> retry_verdict) list \<Rightarrow> bool" where
  "table_inv sids acc = (finite sids \<and> card sids \<le> RETRY_MAX_SESSIONS \<and> small_table sids acc)"

definition cancelled_inv :: "string \<Rightarrow> string set \<Rightarrow> nat \<Rightarrow> retry_budget \<times> (string \<times> retry_verdict) list \<Rightarrow> bool" where
  "cancelled_inv sid sids k acc = (finite sids \<and> card sids \<le> RETRY_MAX_SESSIONS \<and> stays_cancelled sid sids k acc)"

interpretation session_table: op_system retry_step "table_inv sids" "\<lambda>x. op_session (snd x) \<in> sids" for sids
  by unfold_locales (auto simp: table_inv_def dest: sessions_step)

interpretation cancelled_session: op_system retry_step "cancelled_inv sid sids k"
    "\<lambda>x. op_session (snd x) \<in> sids \<and> snd x \<noteq> Close sid" for sid sids k
  by unfold_locales (auto simp: cancelled_inv_def intro: cancelled_step)

lemma cancel_marks:
  assumes "table_inv sids acc" and "sid \<in> sids"
  shows "cancelled_inv sid sids (length (snd acc)) (retry_step acc (t, Cancel sid))"
  using assms by (auto simp: cancelled_inv_def stays_cancelled_def table_inv_def small_table_def retry_step_def
      split_def cancel_session_retries_def Let_def distinct_update dict_keys_update dict_update_lookup)

end
