(* ===== verification/Governor_Properties.thy ===== *)
theory Governor_Properties
  imports Governor_Gate Governor_Retry
begin

text \<open>
  What the governor promises: the capacity of a channel is never exceeded and never idles while
  someone could use it, the queue behaves as a list sorted by key and arrival, a cancelled session starts
  nothing, and retries are bounded and stop with a cancellation.
\<close>

section \<open>A small history\<close>

definition demo_waiter :: "nat \<Rightarrow> string \<Rightarrow> fair_waiter" where
  "demo_waiter q sid = make_waiter q 0 sid False 1 1 1"

definition demo0 :: channel_gate where "demo0 = the (new_gate 1 10)"
definition demo1 :: channel_gate where "demo1 = fst (acquire_begin 0 (demo_waiter 1 ''a'') demo0)"
definition demo2 :: channel_gate where "demo2 = fst (acquire_begin 0 (demo_waiter 2 ''b'') demo1)"
definition demo3 :: channel_gate where "demo3 = fst (gate_cancel_session ''b'' demo2)"
definition demo4 :: channel_gate where "demo4 = acquire_timeout (demo_waiter 2 ''b'') demo3"
definition demo5 :: channel_gate where "demo5 = fst (acquire_begin 0 (demo_waiter 3 ''c'') demo4)"

lemma demo_results:
  "new_gate 1 10 = Some demo0"
  "snd (acquire_begin 0 (demo_waiter 1 ''a'') demo0) = Some True"
  "snd (acquire_begin 0 (demo_waiter 2 ''b'') demo1) = None"
  "snd (acquire_begin 0 (demo_waiter 3 ''c'') demo4) = Some True"
  by code_simp+

lemma demo_seq [simp]: "fw_seq (demo_waiter q sid) = q" "fw_session (demo_waiter q sid) = sid"
  by (simp_all add: demo_waiter_def make_waiter_def)

definition demo_clients :: clients where
  "demo_clients = [1 \<mapsto> (demo_waiter 1 ''a'', Holding), 2 \<mapsto> (demo_waiter 2 ''b'', Queued)]"

lemma begin_pair: "snd (acquire_begin now w g) = r \<Longrightarrow> acquire_begin now w g = (fst (acquire_begin now w g), r)"
  by (cases "acquire_begin now w g") simp

lemma demo2_reachable: "gate_reachable 1 (demo2, demo_clients) 0 0"
proof -
  have 0: "gate_reachable 1 (demo0, \<lambda>q. None) 0 0"
    by (rule gate_reachable.start [OF demo_results(1)])
  have "gate_step (demo0, \<lambda>q. None) No_slip (demo1, [1 \<mapsto> (demo_waiter 1 ''a'', Holding)])"
    using gate_step.arrive [of "\<lambda>q. None", OF _ begin_pair [OF demo_results(2)]] by (simp add: demo1_def)
  from gate_reachable.step [OF 0 this]
  have 1: "gate_reachable 1 (demo1, [1 \<mapsto> (demo_waiter 1 ''a'', Holding)]) 0 0" by simp
  have "gate_step (demo1, [1 \<mapsto> (demo_waiter 1 ''a'', Holding)]) No_slip (demo2, demo_clients)"
    using gate_step.arrive [of "[1 \<mapsto> (demo_waiter 1 ''a'', Holding)]", OF _ begin_pair [OF demo_results(3)]]
    by (simp add: demo2_def demo_clients_def)
  from gate_reachable.step [OF 1 this] show ?thesis by simp
qed

section \<open>Slots\<close>

text \<open>
  C22. The gate's count of slots in flight is off by what its clients miscounted and no more. In every reachable
  state in which a clients returned a slot they never had (their wait ended by a timeout or interruption after their
  session was cancelled) and b clients never returned the one they were granted (interrupted between their event
  and the lock), the slots held or granted are at most the count plus a, and the count at most the slots plus b; so
  there are at most a more slots than the capacity and a more heavy ones than the reserved slot leaves, and both
  bounds are exact while neither has happened. The check \<open>is_mathematically_sane\<close> of the scheduler always succeeds.
\<close>

theorem gate_slots_exact:
  assumes "gate_reachable n (g, cs) a b"
  shows "fs_in_flight (cg_sched g) \<le> card (slots g cs) + b \<and> card (slots g cs) + b \<le> fs_in_flight (cg_sched g) + a \<and>
    card (slots g cs) + b \<le> n + a \<and> card (heavy_slots g cs) \<le> fs_heavy_capacity (cg_sched g) + a \<and>
    is_mathematically_sane (cg_sched g)"
proof -
  have inv: "gate_inv n a b g cs" using gate_reachable_inv [OF assms] by simp
  then have ok: "sched_ok (cg_sched g)" by (simp add: gate_inv_def)
  have "is_mathematically_sane (cg_sched g)"
    unfolding is_mathematically_sane_def list_all_iff
  proof (intro conjI ballI)
    fix m
    assume "m \<in> set (fs_members (cg_sched g))"
    then obtain k where "(k, fst m, snd m) \<in> set (fs_heap (cg_sched g))"
      using ok by (auto simp: sched_ok_def)
    then show "fst m \<in> set (List.map (fst \<circ> snd) (fs_heap (cg_sched g)))" by force
  qed (use ok in \<open>simp add: sched_ok_def\<close>)
  then show ?thesis
    using inv ok by (auto simp: gate_inv_def slots_ok_def sched_ok_def)
qed

lemma gate_slots_exact_witness:
  "fs_in_flight (cg_sched demo2) = card (slots demo2 demo_clients) \<and> is_mathematically_sane (cg_sched demo2)"
  using gate_slots_exact [OF demo2_reachable] by simp

text \<open>
  C23. No slot idles but those that were never returned: whenever a client is still queued, a light one finds the
  whole capacity taken by the slots held or granted and the ones never returned, a heavy one at least as many slots
  as heavy work may use.
\<close>

theorem gate_work_conserving:
  assumes "gate_reachable n (g, cs) a b" and "q \<in> still_queued g cs" and "cs q = Some (w, p)"
  shows "(if fw_small w then n else fs_heavy_capacity (cg_sched g)) \<le> card (slots g cs) + b"
proof -
  have inv: "gate_inv n a b g cs" using gate_reachable_inv [OF assms(1)] by simp
  then have c: "clients_ok g cs" by (simp add: gate_inv_def)
  obtain m where m: "m \<in> set (fs_members (cg_sched g))" "fst m = q"
    using assms(2) unfolding clients_okD(4) [OF c, symmetric] by auto
  then have "fw_small (snd m) = fw_small w"
    using c assms(3) by (auto simp: clients_ok_def)
  then show ?thesis
    using inv m(1) by (auto simp: gate_inv_def slots_ok_def none_grantable_def grantable_def sched_ok_def)
qed

lemma gate_work_conserving_witness: "fs_heavy_capacity (cg_sched demo2) \<le> card (slots demo2 demo_clients)"
proof -
  have "cg_events demo2 = {}" by code_simp
  then have "2 \<in> still_queued demo2 demo_clients"
    by (simp add: still_queued_def demo_clients_def)
  moreover have "demo_clients 2 = Some (demo_waiter 2 ''b'', Queued)" by (simp add: demo_clients_def)
  ultimately show ?thesis
    using gate_work_conserving [OF demo2_reachable] by (fastforce simp: demo_waiter_def make_waiter_def)
qed

text \<open>
  The first bound is met: a waiter that is timed out after \<open>cancel_session\<close> marked and woke it returns a slot it
  never had, and a channel of capacity one has two holders.
\<close>

theorem cancelled_timeout_overadmits:
  "\<exists>g cs. gate_reachable 1 (g, cs) 1 0 \<and> slots g cs = {1, 3} \<and> fs_in_flight (cg_sched g) = 1"
proof -
  let ?w1 = "demo_waiter 1 ''a''" and ?w2 = "demo_waiter 2 ''b''" and ?w3 = "demo_waiter 3 ''c''"
  let ?cs4 = "[1 \<mapsto> (?w1, Holding), 2 \<mapsto> (?w2, Gone)]"
  let ?cs5 = "[1 \<mapsto> (?w1, Holding), 2 \<mapsto> (?w2, Gone), 3 \<mapsto> (?w3, Holding)]"
  have "gate_step (demo2, demo_clients) No_slip (demo3, demo_clients)"
    unfolding demo3_def by (rule gate_step.cancel_session)
  from gate_reachable.step [OF demo2_reachable this]
  have 3: "gate_reachable 1 (demo3, demo_clients) 0 0" by simp
  have "2 \<in> cg_cancelled demo3" by code_simp
  then have "gate_step (demo3, demo_clients) Returned_twice (demo4, ?cs4)"
    using gate_step.timeout [of demo_clients 2 ?w2 demo3] by (simp add: demo4_def demo_clients_def end_of_wait_def)
  from gate_reachable.step [OF 3 this] have 4: "gate_reachable 1 (demo4, ?cs4) 1 0" by simp
  have "gate_step (demo4, ?cs4) No_slip (demo5, ?cs5)"
    using gate_step.arrive [of ?cs4, OF _ begin_pair [OF demo_results(4)]] by (simp add: demo5_def)
  from gate_reachable.step [OF 4 this] have "gate_reachable 1 (demo5, ?cs5) 1 0" by simp
  moreover have "slots demo5 ?cs5 = {1, 3}"
    by (auto simp: slots_def owns_slot_def split: if_splits)
  moreover have "fs_in_flight (cg_sched demo5) = 1" by code_simp
  ultimately show ?thesis by blast
qed

text \<open>
  Cancelling a session leaves none of its waiters in the queue, and every one that was still
  queued is woken only to learn that it did not get a slot.
\<close>

theorem cancel_session_starts_nothing:
  assumes reach: "gate_reachable n (g, cs) a b" and w: "cs q = Some (w, Queued)" "q \<in> still_queued g cs"
    and g': "g' = fst (gate_cancel_session (fw_session w) g)"
  shows "(\<forall>m \<in> set (fs_members (cg_sched g')). fw_session (snd m) \<noteq> fw_session w) \<and>
    slots g' cs = slots g cs \<and> q \<in> cg_events g' \<and> \<not> snd (acquire_woken w g')"
proof -
  have inv: "gate_inv n a b g cs" and l: "listed g" using gate_reachable_inv [OF reach] by auto
  have c: "clients_ok g cs" using inv by (simp add: gate_inv_def)
  have seq: "fw_seq w = q" using clients_okD(2) [OF c w(1)] .
  note r = gate_cancel_session_inv [OF inv l g']
  have c': "clients_ok g' cs" using r(1) by (simp add: gate_inv_def)
  have mem: "q \<notin> fst ` set (fs_members (cg_sched g'))"
  proof
    assume "q \<in> fst ` set (fs_members (cg_sched g'))"
    then obtain m where m: "m \<in> set (fs_members (cg_sched g'))" "fst m = q" by auto
    then have "fw_session (snd m) = fw_session w"
      using c' w(1) by (auto simp: clients_ok_def)
    then show False using m(1) r(4) by auto
  qed
  then have ev: "q \<in> cg_events g'"
    using clients_okD(4) [OF c'] w(1) by (auto simp: still_queued_def)
  have "cancel_effect (g\<lparr>cg_waiters := AList.delete (fw_session w) (cg_waiters g)\<rparr>) g'"
    unfolding g' gate_cancel_session_def by (rule cancel_waiters_effect)
  then have can: "cancel_effect g g'" by (simp add: cancel_effect_def)
  have qc: "q \<in> cg_cancelled g'"
    using can ev w(2) by (auto simp: cancel_effect_def still_queued_def)
  have "slots g' cs = slots g cs"
    using can clients_okD(4) [OF c] by (auto simp: cancel_effect_def slots_def owns_slot_def still_queued_def)
  moreover have "\<not> snd (acquire_woken w g')"
    using qc by (simp add: acquire_woken_def seq)
  ultimately show ?thesis using r(4) ev by blast
qed

lemma cancel_session_starts_nothing_witness:
  "2 \<in> cg_events demo3 \<and> \<not> snd (acquire_woken (demo_waiter 2 ''b'') demo3)"
proof -
  have "cg_events demo2 = {}" by code_simp
  then have "2 \<in> still_queued demo2 demo_clients"
    by (simp add: still_queued_def demo_clients_def)
  moreover have "demo_clients 2 = Some (demo_waiter 2 ''b'', Queued)" by (simp add: demo_clients_def)
  ultimately show ?thesis
    using cancel_session_starts_nothing [OF demo2_reachable, of 2 "demo_waiter 2 ''b''" demo3]
    by (simp add: demo3_def)
qed

section \<open>The queue\<close>

text \<open>
  C14. The heap with lazily dropped entries implements a list of waiters sorted by key and arrival:
  queueing inserts in order, cancelling removes, a returned slot leaves the list alone, and granting
  removes the first waiter that a free slot may go to, or nobody when there is none.
\<close>

theorem fair_queue_refines:
  assumes ok: "sched_ok s" and fresh: "\<forall>e \<in> set (fs_heap s). entry_seq e \<noteq> fw_seq w"
  shows "sched_ok (fst (enqueue now w s)) \<and> sched_ok (fst (cancel q s)) \<and>
    sched_ok (complete sid small cost s) \<and> sched_ok (fst (pop_next_grantable s)) \<and>
    waiting_entries (fst (enqueue now w s)) = insort_key entry_key (enqueued_entry now w s) (waiting_entries s) \<and>
    waiting_entries (fst (cancel q s)) = filter (\<lambda>e. entry_seq e \<noteq> q) (waiting_entries s) \<and>
    waiting_entries (complete sid small cost s) = waiting_entries s \<and>
    (case find (\<lambda>e. fs_in_flight s < fs_capacity s \<and> grantable s (snd (snd e))) (waiting_entries s) of
           None \<Rightarrow> snd (pop_next_grantable s) = None \<and>
             waiting_entries (fst (pop_next_grantable s)) = waiting_entries s \<and>
             fs_in_flight (fst (pop_next_grantable s)) = fs_in_flight s
         | Some e \<Rightarrow> snd (pop_next_grantable s) = Some (snd (snd e)) \<and>
             waiting_entries (fst (pop_next_grantable s)) = remove1 e (waiting_entries s) \<and>
             fs_in_flight (fst (pop_next_grantable s)) = Suc (fs_in_flight s))"
proof -
  have e: "sched_ok (fst (enqueue now w s)) \<and>
      waiting_entries (fst (enqueue now w s)) = insort_key entry_key (enqueued_entry now w s) (waiting_entries s)"
    using enqueue_ok [OF ok fresh, of now] by (simp add: heappush_def)
  have c: "sched_ok (complete sid small cost s) \<and> waiting_entries (complete sid small cost s) = waiting_entries s"
    using sched_ok_complete [OF ok] waiting_entries_cong [of "complete sid small cost s" s] by simp
  show ?thesis
  proof (cases "least_grantable s")
    case None
    from pop_none [OF ok this] show ?thesis
      using e c cancel_ok [OF ok, of q] by (auto simp: None [unfolded least_grantable_def])
  next
    case (Some x)
    from pop_some [OF ok this] show ?thesis
      using e c cancel_ok [OF ok, of q] by (auto simp: Some [unfolded least_grantable_def])
  qed
qed

lemma fair_queue_refines_witness:
  "waiting_entries (fst (pop_next_grantable (cg_sched demo2))) = waiting_entries (cg_sched demo2) \<and>
   length (waiting_entries (cg_sched demo2)) = 1 \<and>
   waiting_entries (fst (cancel 2 (cg_sched demo2))) = []"
proof -
  have ok: "sched_ok (cg_sched demo2)"
    using gate_reachable_inv [OF demo2_reachable] by (simp add: gate_inv_def)
  have "find (\<lambda>e. fs_in_flight (cg_sched demo2) < fs_capacity (cg_sched demo2) \<and>
      grantable (cg_sched demo2) (snd (snd e))) (waiting_entries (cg_sched demo2)) = None"
    "length (waiting_entries (cg_sched demo2)) = 1"
    "filter (\<lambda>e. entry_seq e \<noteq> 2) (waiting_entries (cg_sched demo2)) = []"
    by code_simp+
  moreover have fresh: "\<forall>e \<in> set (fs_heap (cg_sched demo2)). entry_seq e \<noteq> fw_seq (demo_waiter 3 ''c'')"
    by code_simp
  ultimately show ?thesis
    using fair_queue_refines [OF ok fresh, of 0 2] by simp
qed

text \<open>
  The key is computed once, when a waiter is queued right after its construction: it holds no aging
  term, and nothing later adds one.
\<close>

lemma queued_key_without_aging:
  "fst (enqueued_entry now (make_waiter q now sid small priority cost weight) s) =
   consumption_of s sid / max (1 / 1000000) weight + of_int priority * PRIORITY_PENALTY"
  by (simp add: enqueued_entry_def effective_key_def make_waiter_def Let_def)

section \<open>Retries\<close>

text \<open>
  However many sessions, cancellations and closings are interleaved, callers that consult the
  budget before each retry are allowed at most as many retries as there are global tokens.
\<close>

theorem retries_bounded:
  assumes "0 \<le> tokens"
  shows "allowed_count (snd (run_ops retry_step (new_budget tokens per_session, []) xs)) \<le> nat tokens"
proof -
  have "account_ok tokens (new_budget tokens per_session, [])"
    using assms by (auto simp: account_ok_def new_budget_def allowed_count_def)
  from account.run_inv [OF _ this, of xs] show ?thesis
    by (auto simp: account_ok_def list_all_iff)
qed

lemma retries_bounded_witness:
  "allowed_count (snd (run_ops retry_step (new_budget 1 12, [])
     [(0, Attempt ''a'' RC_tool [] False), (1, Attempt ''b'' RC_http [] False)])) = 1"
proof -
  have "allowed_count (snd (run_ops retry_step (new_budget 1 12, [])
     [(0, Attempt ''a'' RC_tool [] False), (1, Attempt ''b'' RC_http [] False)])) \<ge> 1"
    by code_simp
  then show ?thesis
    using retries_bounded [of 1 12 "[(0, Attempt ''a'' RC_tool [] False), (1, Attempt ''b'' RC_http [] False)]"]
    by simp
qed

text \<open>
  After a session is cancelled every later retry of it is refused, whatever the other sessions do,
  as long as it is not closed and no more sessions occur than the table may hold.
\<close>

theorem cancel_stops_retries:
  assumes few: "card (insert sid (op_session ` snd ` set (xs @ ys))) \<le> RETRY_MAX_SESSIONS"
    and unclosed: "Close sid \<notin> snd ` set ys"
    and mid: "mid = run_ops retry_step (new_budget tokens per_session, []) xs"
    and v: "(sid, v) \<in> set (drop (length (snd mid)) (snd (run_ops retry_step (retry_step mid (t, Cancel sid)) ys)))"
  shows "v = DENY_CANCELLED"
proof -
  let ?S = "insert sid (op_session ` snd ` set (xs @ ys))"
  have "table_inv ?S (new_budget tokens per_session, [])"
    using few by (simp add: table_inv_def small_table_def new_budget_def)
  from session_table.run_inv [OF _ this, of xs] have "table_inv ?S mid"
    by (auto simp: mid list_all_iff)
  then have "cancelled_inv sid ?S (length (snd mid)) (retry_step mid (t, Cancel sid))"
    by (rule cancel_marks) simp
  from cancelled_session.run_inv [OF _ this, of ys]
  have "cancelled_inv sid ?S (length (snd mid)) (run_ops retry_step (retry_step mid (t, Cancel sid)) ys)"
    using unclosed by (force simp: list_all_iff)
  then show ?thesis
    using v by (auto simp: cancelled_inv_def stays_cancelled_def)
qed

lemma cancel_stops_retries_witness:
  "snd (run_ops retry_step (retry_step (new_budget 5 2, []) (0, Cancel ''a'')) [(1, Attempt ''a'' RC_llm [] False)])
   = [(''a'', DENY_CANCELLED)]"
proof -
  let ?out = "snd (run_ops retry_step (retry_step (new_budget 5 2, []) (0, Cancel ''a'')) [(1, Attempt ''a'' RC_llm [] False)])"
  have "length ?out = 1" "fst (?out ! 0) = ''a''" by code_simp+
  then obtain v where out: "?out = [(''a'', v)]"
    by (cases ?out) auto
  then have "v = DENY_CANCELLED"
    by (intro cancel_stops_retries [of "''a''" "[]" "[(1, Attempt ''a'' RC_llm [] False)]" "(new_budget 5 2, [])" 5 2 v 0])
      (simp_all add: RETRY_MAX_SESSIONS_def)
  with out show ?thesis by simp
qed

end
