(* ===== verification/Collab_Delta.thy ===== *)
theory Collab_Delta
  imports Py_Json Graph_Closure
begin

text \<open>
  The organisation document of the map workbench: its validation
  (\<open>_workbench_doc_error\<close> of \<open>app/services/mapspec/mutation_primitives.py\<close>), incremental patches
  (\<open>app/services/collab/delta.py\<close>), the handler that applies one
  (\<open>_handle_patchworkbenchdelta\<close> of \<open>mutation_handlers.py\<close>) and the readers of its locks
  (\<open>app/contracts/workbench_locks.py\<close>). Documents and requests are Python values; a message is the
  constructor of its error with the ids it names.
\<close>

section \<open>Patches\<close>

datatype delta_error =
    Delta_not_object | Unknown_fields "string list" | Delta_empty | Bad_string_list string
  | Bad_set_groups | Group_without_id | Bad_group_name | Bad_group_collapsed | Bad_group_parent
  | Too_many_removes | Bad_membership_set | Bad_membership_entry | Too_many_clears | Too_many_locks
  | Delta_too_large | Create_needs_name string | Set_remove_collide "string list"
  | Target_missing string | Python_error string

record group_patch =
  gp_id :: string
  gp_name :: "string option"
  gp_collapsed :: "bool option"
  gp_parent :: "string option option"

record delta =
  d_set_groups :: "group_patch list"
  d_remove :: "string list"
  d_members :: "(string \<times> string) list"
  d_clear :: "string list"
  d_locks_add :: "string list"
  d_locks_remove :: "string list"

definition MAX_DELTA_LIST :: nat where "MAX_DELTA_LIST = 2000"
definition MAX_DELTA_BYTES :: nat where "MAX_DELTA_BYTES = 64 * 1024"

definition delta_fields :: "string list" where
  "delta_fields = [''setGroups'', ''removeGroupIds'', ''membershipSet'', ''membershipClear'', ''locksAdd'', ''locksRemove'']"

definition nonempty_str :: "pyval \<Rightarrow> string option" where
  "nonempty_str v = (case v of PStr s \<Rightarrow> if s \<noteq> [] then Some s else None | _ \<Rightarrow> None)"

fun all_some :: "('a \<Rightarrow> 'b option) \<Rightarrow> 'a list \<Rightarrow> 'b list option" where
  "all_some f [] = Some []"
| "all_some f (x # xs) = (case f x of None \<Rightarrow> None | Some y \<Rightarrow> map_option ((#) y) (all_some f xs))"

definition str_list :: "(string \<times> pyval) list \<Rightarrow> string \<Rightarrow> delta_error + string list" where
  "str_list d field = (case py_get d field of
     PNone \<Rightarrow> Inr []
   | PList xs \<Rightarrow> (case all_some nonempty_str xs of None \<Rightarrow> Inl (Bad_string_list field) | Some ys \<Rightarrow> Inr ys)
   | _ \<Rightarrow> Inl (Bad_string_list field))"

text \<open>\<open>delta.get(field) or []\<close>, which must be a list of bounded length.\<close>

definition list_or_empty :: "(string \<times> pyval) list \<Rightarrow> string \<Rightarrow> pyval list option" where
  "list_or_empty d field = (let v = py_get d field
     in if \<not> py_truthy v then Some []
        else case v of PList xs \<Rightarrow> if length xs \<le> MAX_DELTA_LIST then Some xs else None | _ \<Rightarrow> None)"

definition entry_dict :: "pyval \<Rightarrow> (string \<times> pyval) list option" where
  "entry_dict v = (case v of PDict e \<Rightarrow> Some e | _ \<Rightarrow> None)"

definition norm_name :: "(string \<times> pyval) list \<Rightarrow> delta_error + string option" where
  "norm_name e = (case map_of e ''name'' of
     None \<Rightarrow> Inr None
   | Some v \<Rightarrow> (case nonempty_str v of None \<Rightarrow> Inl Bad_group_name | Some s \<Rightarrow> Inr (Some (take 200 s))))"

definition norm_collapsed :: "(string \<times> pyval) list \<Rightarrow> delta_error + bool option" where
  "norm_collapsed e = (case map_of e ''collapsed'' of
     None \<Rightarrow> Inr None | Some (PBool b) \<Rightarrow> Inr (Some b) | Some _ \<Rightarrow> Inl Bad_group_collapsed)"

definition norm_parent :: "(string \<times> pyval) list \<Rightarrow> delta_error + string option option" where
  "norm_parent e = (case map_of e ''parentId'' of
     None \<Rightarrow> Inr None | Some PNone \<Rightarrow> Inr (Some None) | Some (PStr s) \<Rightarrow> Inr (Some (Some s))
   | Some _ \<Rightarrow> Inl Bad_group_parent)"

definition norm_group :: "pyval \<Rightarrow> delta_error + group_patch" where
  "norm_group v = (case entry_dict v of
     None \<Rightarrow> Inl Group_without_id
   | Some e \<Rightarrow> (case nonempty_str (py_get e ''id'') of
       None \<Rightarrow> Inl Group_without_id
     | Some gid \<Rightarrow> (case norm_name e of Inl x \<Rightarrow> Inl x | Inr nm \<Rightarrow>
         (case norm_collapsed e of Inl x \<Rightarrow> Inl x | Inr co \<Rightarrow>
         (case norm_parent e of Inl x \<Rightarrow> Inl x | Inr pa \<Rightarrow>
           Inr \<lparr>gp_id = gid, gp_name = nm, gp_collapsed = co, gp_parent = pa\<rparr>)))))"

fun map_result :: "('a \<Rightarrow> 'e + 'b) \<Rightarrow> 'a list \<Rightarrow> 'e + 'b list" where
  "map_result f [] = Inr []"
| "map_result f (x # xs) = (case f x of Inl e \<Rightarrow> Inl e | Inr y \<Rightarrow>
     (case map_result f xs of Inl e \<Rightarrow> Inl e | Inr ys \<Rightarrow> Inr (y # ys)))"

definition norm_member :: "pyval \<Rightarrow> delta_error + (string \<times> string)" where
  "norm_member v = (case entry_dict v of
     None \<Rightarrow> Inl Bad_membership_entry
   | Some e \<Rightarrow> (case (nonempty_str (py_get e ''layerId''), nonempty_str (py_get e ''groupId'')) of
       (Some l, Some g) \<Rightarrow> Inr (l, g) | _ \<Rightarrow> Inl Bad_membership_entry))"

definition patch_value :: "group_patch \<Rightarrow> pyval" where
  "patch_value p = PDict ([(''id'', PStr (gp_id p))] @
     (case gp_name p of None \<Rightarrow> [] | Some s \<Rightarrow> [(''name'', PStr s)]) @
     (case gp_collapsed p of None \<Rightarrow> [] | Some b \<Rightarrow> [(''collapsed'', PBool b)]) @
     (case gp_parent p of None \<Rightarrow> [] | Some None \<Rightarrow> [(''parentId'', PNone)]
      | Some (Some s) \<Rightarrow> [(''parentId'', PStr s)]))"

definition delta_value :: "delta \<Rightarrow> pyval" where
  "delta_value d = PDict
    [(''setGroups'', PList (List.map patch_value (d_set_groups d))),
     (''removeGroupIds'', PList (List.map PStr (d_remove d))),
     (''membershipSet'', PList (List.map (\<lambda>(l, g). PList [PStr l, PStr g]) (d_members d))),
     (''membershipClear'', PList (List.map PStr (d_clear d))),
     (''locksAdd'', PList (List.map PStr (d_locks_add d))),
     (''locksRemove'', PList (List.map PStr (d_locks_remove d)))]"

definition check_locks :: "group_patch list \<Rightarrow> string list \<Rightarrow> (string \<times> string) list \<Rightarrow> string list \<Rightarrow>
    string list \<Rightarrow> string list \<Rightarrow> delta_error + delta" where
  "check_locks gs rm ms cl la lr =
    (if length la > MAX_DELTA_LIST \<or> length lr > MAX_DELTA_LIST then Inl Too_many_locks
     else let n = \<lparr>d_set_groups = gs, d_remove = rm, d_members = ms, d_clear = cl, d_locks_add = la, d_locks_remove = lr\<rparr>
          in if json_bytes (delta_value n) > MAX_DELTA_BYTES then Inl Delta_too_large else Inr n)"

definition validate_members :: "(string \<times> pyval) list \<Rightarrow> group_patch list \<Rightarrow> string list \<Rightarrow> delta_error + delta" where
  "validate_members d gs rm =
    (case list_or_empty d ''membershipSet'' of None \<Rightarrow> Inl Bad_membership_set | Some es \<Rightarrow>
     (case map_result norm_member es of Inl e \<Rightarrow> Inl e | Inr ms \<Rightarrow>
     (case str_list d ''membershipClear'' of Inl e \<Rightarrow> Inl e | Inr cl \<Rightarrow>
       if length cl > MAX_DELTA_LIST then Inl Too_many_clears else
     (case str_list d ''locksAdd'' of Inl e \<Rightarrow> Inl e | Inr la \<Rightarrow>
     (case str_list d ''locksRemove'' of Inl e \<Rightarrow> Inl e | Inr lr \<Rightarrow> check_locks gs rm ms cl la lr)))))"

definition validate_delta :: "pyval \<Rightarrow> delta_error + delta" where
  "validate_delta v = (case entry_dict v of None \<Rightarrow> Inl Delta_not_object | Some d \<Rightarrow>
     (let unknown = filter (\<lambda>k. k \<notin> set delta_fields) (List.map fst d)
      in if unknown \<noteq> [] then Inl (Unknown_fields (sort unknown))
         else if \<not> list_ex (\<lambda>k. py_truthy (py_get d k)) (List.map fst d) then Inl Delta_empty
         else (case list_or_empty d ''setGroups'' of None \<Rightarrow> Inl Bad_set_groups | Some es \<Rightarrow>
           (case map_result norm_group es of Inl e \<Rightarrow> Inl e | Inr gs \<Rightarrow>
           (case str_list d ''removeGroupIds'' of Inl e \<Rightarrow> Inl e | Inr rm \<Rightarrow>
             if length rm > MAX_DELTA_LIST then Inl Too_many_removes
             else validate_members d gs rm)))))"

section \<open>Application\<close>

type_synonym pydict = "(string \<times> pyval) list"

definition group_id :: "pydict \<Rightarrow> pyval" where
  "group_id g = py_get g ''id''"

definition groups_by_id :: "pydict list \<Rightarrow> (pyval \<times> pydict) list" where
  "groups_by_id gs = fold (\<lambda>g. AList.update (group_id g) g) gs []"

text \<open>
  \<open>_descendants\<close>: parents that are missing make roots. The result is only used as a set, so the order
  of the work list is immaterial.
\<close>

definition child_lists :: "pydict list \<Rightarrow> (pyval \<times> pyval list) list" where
  "child_lists gs = fold (\<lambda>(gid, g) acc. case py_get g ''parentId'' of
       PStr p \<Rightarrow> if map_of (groups_by_id gs) (PStr p) \<noteq> None then dict_push (PStr p) gid acc else acc
     | _ \<Rightarrow> acc) (groups_by_id gs) []"

definition descendants :: "pydict list \<Rightarrow> string list \<Rightarrow> pyval list" where
  "descendants gs roots = pop_mark (\<lambda>x. True) (child_lists gs) [] (List.map PStr roots)"

definition merge_patch :: "group_patch \<Rightarrow> pydict \<Rightarrow> pydict" where
  "merge_patch p g =
    (let g1 = (case gp_name p of None \<Rightarrow> g | Some s \<Rightarrow> AList.update ''name'' (PStr s) g);
         g2 = (case gp_collapsed p of None \<Rightarrow> g1 | Some b \<Rightarrow> AList.update ''collapsed'' (PBool b) g1)
     in case gp_parent p of None \<Rightarrow> g2
        | Some None \<Rightarrow> AList.update ''parentId'' PNone g2
        | Some (Some s) \<Rightarrow> AList.update ''parentId'' (PStr s) g2)"

definition new_group :: "group_patch \<Rightarrow> string \<Rightarrow> pydict" where
  "new_group p nm =
    [(''id'', PStr (gp_id p)), (''name'', PStr nm), (''collapsed'', PBool (or_else (gp_collapsed p) False)),
     (''parentId'', case gp_parent p of Some (Some s) \<Rightarrow> PStr s | _ \<Rightarrow> PNone)]"

text \<open>The dictionary of the groups by id refers to the last group of an id, which is patched in place.\<close>

fun patch_last :: "group_patch \<Rightarrow> pydict list \<Rightarrow> pydict list" where
  "patch_last p [] = []"
| "patch_last p (g # gs) =
     (if PStr (gp_id p) \<in> set (List.map group_id gs) then g # patch_last p gs
      else if group_id g = PStr (gp_id p) then merge_patch p g # gs else g # gs)"

fun set_groups :: "group_patch list \<Rightarrow> pydict list \<Rightarrow> delta_error + pydict list" where
  "set_groups [] gs = Inr gs"
| "set_groups (p # ps) gs =
     (if PStr (gp_id p) \<in> set (List.map group_id gs) then set_groups ps (patch_last p gs)
      else case gp_name p of
        None \<Rightarrow> Inl (Create_needs_name (gp_id p))
      | Some nm \<Rightarrow> set_groups ps (gs @ [new_group p nm]))"

fun set_members :: "pyval list \<Rightarrow> (string \<times> string) list \<Rightarrow> (string \<times> string) list \<Rightarrow> delta_error + (string \<times> string) list" where
  "set_members ids [] m = Inr m"
| "set_members ids ((l, g) # ms) m =
     (if PStr g \<notin> set ids then Inl (Target_missing g) else set_members ids ms (AList.update l g m))"

definition clear_members :: "string list \<Rightarrow> (string \<times> string) list \<Rightarrow> (string \<times> string) list" where
  "clear_members ls m = filter (\<lambda>(l, g). l \<notin> set ls) m"

fun append_locks :: "string list \<Rightarrow> string list \<Rightarrow> string list \<Rightarrow> string list" where
  "append_locks remove [] acc = acc"
| "append_locks remove (l # ls) acc =
     append_locks remove ls (if l \<in> set remove \<or> l \<in> set acc then acc else acc @ [l])"

record workbench_parts =
  wp_groups :: "pydict list"
  wp_members :: "(string \<times> string) list"
  wp_locked :: "string list"

definition apply_parts :: "delta \<Rightarrow> workbench_parts \<Rightarrow> delta_error + workbench_parts" where
  "apply_parts d w = (case set_groups (d_set_groups d) (wp_groups w) of Inl e \<Rightarrow> Inl e | Inr gs \<Rightarrow>
     (let conflict = filter (\<lambda>r. r \<in> set (List.map gp_id (d_set_groups d))) (remdups (d_remove d))
      in if conflict \<noteq> [] then Inl (Set_remove_collide (sort conflict))
         else let cascade = (if d_remove d = [] then [] else descendants gs (d_remove d));
                  gs' = filter (\<lambda>g. group_id g \<notin> set cascade) gs;
                  ms = filter (\<lambda>(l, g). PStr g \<notin> set cascade) (wp_members w)
              in case set_members (List.map group_id gs') (d_members d) ms of Inl e \<Rightarrow> Inl e | Inr ms' \<Rightarrow>
                   Inr \<lparr>wp_groups = gs',
                        wp_members = clear_members (filter (\<lambda>l. l \<notin> set (List.map fst (d_members d))) (d_clear d)) ms',
                        wp_locked = append_locks (d_locks_remove d) (d_locks_add d)
                          (append_locks (d_locks_remove d) (wp_locked w) [])\<rparr>))"

text \<open>Reading the parts of a document: iteration and conversion as the built-ins do them.\<close>

definition iterate_or_empty :: "pyval \<Rightarrow> delta_error + pyval list" where
  "iterate_or_empty v = (if \<not> py_truthy v then Inr [] else case v of
     PList xs \<Rightarrow> Inr xs | PStr s \<Rightarrow> Inr (List.map (\<lambda>c. PStr [c]) s) | PDict d \<Rightarrow> Inr (List.map (PStr \<circ> fst) d)
   | _ \<Rightarrow> Inl (Python_error ''TypeError''))"

definition hashable :: "pyval \<Rightarrow> bool" where
  "hashable v = (case v of PList xs \<Rightarrow> False | PDict d \<Rightarrow> False | _ \<Rightarrow> True)"

definition read_group :: "pydict \<Rightarrow> delta_error + pydict" where
  "read_group g = (case map_of g ''id'' of None \<Rightarrow> Inl (Python_error ''KeyError'')
     | Some i \<Rightarrow> if hashable i then Inr g else Inl (Python_error ''TypeError''))"

definition read_members :: "pyval \<Rightarrow> delta_error + (string \<times> string) list" where
  "read_members v = (if \<not> py_truthy v then Inr [] else case v of
     PDict d \<Rightarrow> Inr (List.map (\<lambda>(k, x). (k, py_str x)) d) | _ \<Rightarrow> Inl (Python_error ''AttributeError''))"

definition read_parts :: "pydict \<Rightarrow> delta_error + workbench_parts" where
  "read_parts base =
    (case iterate_or_empty (or_else (map_of base ''groups'') (PList [])) of Inl e \<Rightarrow> Inl e | Inr gs \<Rightarrow>
     (case read_members (or_else (map_of base ''membership'') (PDict [])) of Inl e \<Rightarrow> Inl e | Inr ms \<Rightarrow>
     (case iterate_or_empty (or_else (map_of base ''lockedLayerIds'') (PList [])) of Inl e \<Rightarrow> Inl e | Inr ls \<Rightarrow>
     (case map_result read_group (List.map_filter entry_dict gs) of Inl e \<Rightarrow> Inl e | Inr gs' \<Rightarrow>
        Inr \<lparr>wp_groups = gs', wp_members = ms, wp_locked = List.map py_str ls\<rparr>))))"

definition result_doc :: "pydict \<Rightarrow> workbench_parts \<Rightarrow> pydict" where
  "result_doc base w =
    [(''version'', or_else (map_of base ''version'') (PInt 5)),
     (''groups'', PList (List.map PDict (wp_groups w))),
     (''membership'', PDict (List.map (\<lambda>(k, g). (k, PStr g)) (wp_members w))),
     (''lockedLayerIds'', PList (List.map PStr (wp_locked w))),
     (''mode'', case map_of base ''mode'' of Some (PStr s) \<Rightarrow> PStr s | _ \<Rightarrow> PStr ''explore'')]"

definition apply_delta :: "pyval \<Rightarrow> delta \<Rightarrow> delta_error + pyval" where
  "apply_delta doc d =
    (let base = or_else (entry_dict doc) []
     in case read_parts base of Inl e \<Rightarrow> Inl e | Inr w \<Rightarrow>
        (case apply_parts d w of Inl e \<Rightarrow> Inl e | Inr w' \<Rightarrow> Inr (PDict (result_doc base w'))))"

definition doc_workbench_revision :: "pyval \<Rightarrow> int option" where
  "doc_workbench_revision doc = (case entry_dict doc of None \<Rightarrow> None | Some d \<Rightarrow>
     (case py_get d ''_rev'' of
        PInt n \<Rightarrow> if 0 \<le> n then Some n else None
      | PBool b \<Rightarrow> Some (if b then 1 else 0)
      | _ \<Rightarrow> None))"

end
