(* ===== verification/Collab_Document.thy ===== *)
theory Collab_Document
  imports Collab_Delta
begin

text \<open>
  The full check of an organisation document, the two handlers that store one
  (\<open>SetWorkbenchState\<close> and \<open>PatchWorkbenchDelta\<close>), and what the lock guards read from it.
\<close>

section \<open>The check\<close>

definition MAX_WORKBENCH_DOC_BYTES :: nat where "MAX_WORKBENCH_DOC_BYTES = 256 * 1024"
definition WORKBENCH_GROUP_MAX_DEPTH :: nat where "WORKBENCH_GROUP_MAX_DEPTH = 4"
definition WORKBENCH_MODES :: "string list" where "WORKBENCH_MODES = [''explore'', ''analyze'', ''compose'']"

datatype doc_error =
    Doc_not_object | Doc_version | Doc_too_large | Groups_not_list | Group_bad_id | Group_ids_not_unique
  | Group_bad_parent string | Group_cycle string | Group_too_deep string nat
  | Doc_membership | Doc_locked | Doc_components | Doc_mode

definition is_version_5 :: "pyval \<Rightarrow> bool" where
  "is_version_5 v = (v = PInt 5 \<or> v = PFloat ''5.0'')"

definition doc_group :: "pyval \<Rightarrow> (string \<times> pydict) option" where
  "doc_group v = (case entry_dict v of None \<Rightarrow> None
     | Some g \<Rightarrow> map_option (\<lambda>i. (i, g)) (nonempty_str (py_get g ''id'')))"

definition parent_error :: "string list \<Rightarrow> string \<times> pydict \<Rightarrow> doc_error option" where
  "parent_error ids ig = (case py_get (snd ig) ''parentId'' of
     PNone \<Rightarrow> None
   | PStr p \<Rightarrow> if p \<in> set ids then None else Some (Group_bad_parent (fst ig))
   | _ \<Rightarrow> Some (Group_bad_parent (fst ig)))"

text \<open>
  The walk from a group to its root, at most one step more than there are groups: the depth, or \<open>None\<close>
  for a cycle.
\<close>

function climb :: "(string \<times> pydict) list \<Rightarrow> nat \<Rightarrow> pydict \<Rightarrow> nat \<Rightarrow> nat option" where
  "climb by_id limit cur steps =
    (case py_get cur ''parentId'' of
       PNone \<Rightarrow> Some (steps + 1)
     | p \<Rightarrow> (case map_of by_id (py_str p) of
         None \<Rightarrow> Some (steps + 1)
       | Some g \<Rightarrow> if limit < steps + 1 then None else climb by_id limit g (steps + 1)))"
  by pat_completeness auto

termination by (relation "measure (\<lambda>(by_id, limit, cur, steps). limit - steps)") auto

declare climb.simps [simp del]

definition depth_error :: "(string \<times> pydict) list \<Rightarrow> nat \<Rightarrow> string \<times> pydict \<Rightarrow> doc_error option" where
  "depth_error by_id limit ig = (case climb by_id limit (snd ig) 0 of
     None \<Rightarrow> Some (Group_cycle (fst ig))
   | Some depth \<Rightarrow> if WORKBENCH_GROUP_MAX_DEPTH < depth then Some (Group_too_deep (fst ig) depth) else None)"

definition str_value :: "pyval \<Rightarrow> string option" where
  "str_value v = (case v of PStr s \<Rightarrow> Some s | _ \<Rightarrow> None)"

definition str_items :: "pyval \<Rightarrow> string list option" where
  "str_items v = (case v of PList xs \<Rightarrow> all_some str_value xs | _ \<Rightarrow> None)"

definition tail_error :: "pydict \<Rightarrow> doc_error option" where
  "tail_error d =
    (if (case or_else (map_of d ''membership'') (PDict []) of
           PDict m \<Rightarrow> \<not> list_all (\<lambda>(k, v). str_value v \<noteq> None) m | _ \<Rightarrow> True) then Some Doc_membership
     else if str_items (or_else (map_of d ''lockedLayerIds'') (PList [])) = None then Some Doc_locked
     else if str_items (or_else (map_of d ''lockedComponentIds'') (PList [])) = None then Some Doc_components
     else if \<not> (case py_get d ''mode'' of PStr s \<Rightarrow> s \<in> set WORKBENCH_MODES | _ \<Rightarrow> False) then Some Doc_mode
     else None)"

definition workbench_doc_error :: "pyval \<Rightarrow> doc_error option" where
  "workbench_doc_error doc = (case entry_dict doc of None \<Rightarrow> Some Doc_not_object | Some d \<Rightarrow>
     (if \<not> is_version_5 (py_get d ''version'') then Some Doc_version
      else if json_bytes doc > MAX_WORKBENCH_DOC_BYTES then Some Doc_too_large
      else case py_get d ''groups'' of
        PList vs \<Rightarrow>
          (case all_some doc_group vs of
             None \<Rightarrow> Some Group_bad_id
           | Some gs \<Rightarrow>
               (let ids = List.map fst gs in
                if \<not> distinct ids then Some Group_ids_not_unique
                else case first_some (parent_error ids) gs of Some e \<Rightarrow> Some e | None \<Rightarrow>
                  (case first_some (depth_error gs (length ids)) gs of Some e \<Rightarrow> Some e | None \<Rightarrow> tail_error d)))
      | _ \<Rightarrow> Some Groups_not_list))"

section \<open>The handlers\<close>

datatype patch_outcome =
    Delta_invalid delta_error | Delta_conflict delta_error | Result_invalid doc_error | Raised string
  | Stored pydict

text \<open>\<open>spec\<close> is the loaded map document, \<open>None\<close> when there is none or it is no dictionary.\<close>

definition stored_workbench :: "pydict option \<Rightarrow> pyval" where
  "stored_workbench spec = (case spec of None \<Rightarrow> PNone
     | Some m \<Rightarrow> (case py_get m ''workbench'' of PDict d \<Rightarrow> PDict d | _ \<Rightarrow> PNone))"

definition handle_patch_delta :: "pydict option \<Rightarrow> pyval \<Rightarrow> patch_outcome" where
  "handle_patch_delta spec request = (case validate_delta request of Inl e \<Rightarrow> Delta_invalid e | Inr d \<Rightarrow>
     (case apply_delta (stored_workbench spec) d of
        Inl (Python_error x) \<Rightarrow> Raised x
      | Inl e \<Rightarrow> Delta_conflict e
      | Inr doc \<Rightarrow> (case workbench_doc_error doc of Some e \<Rightarrow> Result_invalid e | None \<Rightarrow>
          Stored (AList.update ''workbench''
            (PDict (AList.update ''_rev'' PNone (or_else (entry_dict doc) []))) (or_else spec [])))))"

section \<open>Locks\<close>

definition lock_ids_of :: "string \<Rightarrow> pyval \<Rightarrow> string list" where
  "lock_ids_of field spec = (case entry_dict spec of None \<Rightarrow> [] | Some m \<Rightarrow>
     (case entry_dict (py_get m ''workbench'') of None \<Rightarrow> [] | Some wb \<Rightarrow>
       (case or_else (map_of wb field) (PList []) of
          PList xs \<Rightarrow> List.map_filter nonempty_str xs | _ \<Rightarrow> [])))"

definition locked_layer_ids_of :: "pyval \<Rightarrow> string list" where
  "locked_layer_ids_of spec = lock_ids_of ''lockedLayerIds'' spec"

definition locked_component_ids_of :: "pyval \<Rightarrow> string list" where
  "locked_component_ids_of spec = lock_ids_of ''lockedComponentIds'' spec"

definition lock_matches :: "string \<Rightarrow> string \<Rightarrow> bool" where
  "lock_matches locked target =
    (target \<noteq> [] \<and> (locked = target \<or> prefix (locked @ ''__'') target \<or> prefix (target @ ''__'') locked))"

definition is_entity_locked :: "string \<Rightarrow> string list \<Rightarrow> bool" where
  "is_entity_locked entity locked = (entity \<noteq> [] \<and> list_ex (\<lambda>l. lock_matches l entity) locked)"

end
