(* ===== verification/Collab_Lemmas.thy ===== *)
theory Collab_Lemmas
  imports Collab_Document
begin

text \<open>
  What a validated patch is: the shape of the requests that pass \<open>validate_delta\<close> and of what it returns.
\<close>

section \<open>Checks that collect values\<close>

lemma all_some_Some: "all_some f xs = Some ys \<Longrightarrow> list_all2 (\<lambda>x y. f x = Some y) xs ys"
  by (induction xs arbitrary: ys) (auto split: option.splits)

lemma all_some_map: "(\<And>y. y \<in> set ys \<Longrightarrow> f (g y) = Some y) \<Longrightarrow> all_some f (List.map g ys) = Some ys"
  by (induction ys) auto

lemma all_some_length: "all_some f xs = Some ys \<Longrightarrow> length ys = length xs"
  by (metis all_some_Some list_all2_lengthD)

lemma map_result_Inr: "map_result f xs = Inr ys \<Longrightarrow> list_all2 (\<lambda>x y. f x = Inr y) xs ys"
  by (induction xs arbitrary: ys) (auto split: sum.splits)

lemma map_result_map: "(\<And>y. y \<in> set ys \<Longrightarrow> f (g y) = Inr y) \<Longrightarrow> map_result f (List.map g ys) = Inr ys"
  by (induction ys) auto

lemma list_all2_right: "list_all2 P xs ys \<Longrightarrow> (\<And>x y. P x y \<Longrightarrow> Q y) \<Longrightarrow> y \<in> set ys \<Longrightarrow> Q y"
  by (induction rule: list_all2_induct) auto

lemma nonempty_str_Some: "nonempty_str v = Some s \<longleftrightarrow> v = PStr s \<and> s \<noteq> []"
  by (auto simp: nonempty_str_def split: pyval.splits)

lemma entry_dict_Some: "entry_dict v = Some e \<longleftrightarrow> v = PDict e"
  by (auto simp: entry_dict_def split: pyval.splits)

definition nonempty_all :: "string list \<Rightarrow> bool" where
  "nonempty_all xs = list_all (\<lambda>s. s \<noteq> []) xs"

lemma str_list_Inr: "str_list d f = Inr ys \<Longrightarrow> nonempty_all ys \<and> (ys = [] \<or> py_get d f = PList (List.map PStr ys))"
proof -
  assume a: "str_list d f = Inr ys"
  then consider "ys = []" | xs where "py_get d f = PList xs" "all_some nonempty_str xs = Some ys"
    by (auto simp: str_list_def split: pyval.splits option.splits)
  then show ?thesis
  proof cases
    case (2 xs)
    then have "list_all2 (\<lambda>x y. nonempty_str x = Some y) xs ys" by (rule_tac all_some_Some)
    then have "xs = List.map PStr ys \<and> nonempty_all ys"
      by (induction rule: list_all2_induct) (auto simp: nonempty_all_def nonempty_str_Some)
    with 2 show ?thesis by simp
  qed (simp add: nonempty_all_def)
qed

lemma str_list_request:
  "py_get d f = PList (List.map PStr ys) \<Longrightarrow> nonempty_all ys \<Longrightarrow> str_list d f = Inr ys"
  using all_some_map [of ys nonempty_str PStr]
  by (simp add: str_list_def nonempty_all_def list_all_iff nonempty_str_Some)

section \<open>Well-formed patches\<close>

definition wf_group_patch :: "group_patch \<Rightarrow> bool" where
  "wf_group_patch p = (gp_id p \<noteq> [] \<and> (\<forall>s. gp_name p = Some s \<longrightarrow> s \<noteq> [] \<and> length s \<le> 200))"

definition wf_delta :: "delta \<Rightarrow> bool" where
  "wf_delta d = (list_all wf_group_patch (d_set_groups d) \<and> length (d_set_groups d) \<le> MAX_DELTA_LIST \<and>
     nonempty_all (d_remove d) \<and> length (d_remove d) \<le> MAX_DELTA_LIST \<and>
     list_all (\<lambda>(l, g). l \<noteq> [] \<and> g \<noteq> []) (d_members d) \<and> length (d_members d) \<le> MAX_DELTA_LIST \<and>
     nonempty_all (d_clear d) \<and> length (d_clear d) \<le> MAX_DELTA_LIST \<and>
     nonempty_all (d_locks_add d) \<and> length (d_locks_add d) \<le> MAX_DELTA_LIST \<and>
     nonempty_all (d_locks_remove d) \<and> length (d_locks_remove d) \<le> MAX_DELTA_LIST \<and>
     json_bytes (delta_value d) \<le> MAX_DELTA_BYTES \<and>
     (d_set_groups d \<noteq> [] \<or> d_remove d \<noteq> [] \<or> d_members d \<noteq> [] \<or> d_clear d \<noteq> [] \<or>
      d_locks_add d \<noteq> [] \<or> d_locks_remove d \<noteq> []))"

text \<open>The request a client sends for a patch.\<close>

definition delta_request :: "delta \<Rightarrow> pyval" where
  "delta_request d = PDict
    [(''setGroups'', PList (List.map patch_value (d_set_groups d))),
     (''removeGroupIds'', PList (List.map PStr (d_remove d))),
     (''membershipSet'', PList (List.map (\<lambda>(l, g). PDict [(''layerId'', PStr l), (''groupId'', PStr g)]) (d_members d))),
     (''membershipClear'', PList (List.map PStr (d_clear d))),
     (''locksAdd'', PList (List.map PStr (d_locks_add d))),
     (''locksRemove'', PList (List.map PStr (d_locks_remove d)))]"

lemma norm_group_wf: "norm_group v = Inr p \<Longrightarrow> wf_group_patch p"
  by (auto simp: norm_group_def wf_group_patch_def norm_name_def nonempty_str_Some
      split: option.splits sum.splits)

lemma norm_group_patch_value: "wf_group_patch p \<Longrightarrow> norm_group (patch_value p) = Inr p"
  by (cases p) (auto simp: norm_group_def patch_value_def entry_dict_Some entry_dict_def py_get_def wf_group_patch_def
      nonempty_str_def norm_name_def norm_collapsed_def norm_parent_def split: option.splits)

lemma norm_member_wf: "norm_member v = Inr x \<Longrightarrow> fst x \<noteq> [] \<and> snd x \<noteq> []"
  by (auto simp: norm_member_def nonempty_str_Some split: option.splits)

lemma norm_member_request:
  "l \<noteq> [] \<Longrightarrow> g \<noteq> [] \<Longrightarrow> norm_member (PDict [(''layerId'', PStr l), (''groupId'', PStr g)]) = Inr (l, g)"
  by (simp add: norm_member_def entry_dict_def py_get_def nonempty_str_def)

lemma list_or_empty_Some:
  "list_or_empty d f = Some xs \<Longrightarrow> length xs \<le> MAX_DELTA_LIST \<and> (py_truthy (py_get d f) \<longrightarrow> py_get d f = PList xs \<and> xs \<noteq> [])"
  by (auto simp: list_or_empty_def Let_def split: if_splits pyval.splits)

lemma list_or_empty_request:
  "py_get d f = PList xs \<Longrightarrow> length xs \<le> MAX_DELTA_LIST \<Longrightarrow> list_or_empty d f = Some xs"
  by (auto simp: list_or_empty_def Let_def)

lemma str_list_truthy: "str_list d f = Inr ys \<Longrightarrow> py_truthy (py_get d f) \<Longrightarrow> ys \<noteq> []"
  by (auto simp: str_list_def split: pyval.splits option.splits dest: all_some_length)

lemma map_result_wf:
  assumes "map_result f xs = Inr ys" and "\<And>x y. f x = Inr y \<Longrightarrow> P y"
  shows "list_all P ys" and "length ys = length xs"
proof -
  show "list_all P ys"
    unfolding list_all_iff
  proof
    fix y
    assume "y \<in> set ys"
    then show "P y"
      using list_all2_right [OF map_result_Inr [OF assms(1)], of P y] assms(2) by blast
  qed
  show "length ys = length xs"
    using map_result_Inr [OF assms(1)] by (simp add: list_all2_lengthD)
qed

lemma check_locks_Inr:
  "check_locks gs rm ms cl la lr = Inr n \<Longrightarrow>
   d_set_groups n = gs \<and> d_remove n = rm \<and> d_members n = ms \<and> d_clear n = cl \<and>
   d_locks_add n = la \<and> d_locks_remove n = lr \<and> length la \<le> MAX_DELTA_LIST \<and> length lr \<le> MAX_DELTA_LIST \<and> json_bytes (delta_value n) \<le> MAX_DELTA_BYTES"
  by (auto simp: check_locks_def Let_def split: if_splits)

lemma validate_members_Inr:
  assumes "validate_members d gs rm = Inr n"
  obtains es ms cl la lr where "list_or_empty d ''membershipSet'' = Some es" "map_result norm_member es = Inr ms"
    "str_list d ''membershipClear'' = Inr cl" "length cl \<le> MAX_DELTA_LIST"
    "str_list d ''locksAdd'' = Inr la" "str_list d ''locksRemove'' = Inr lr" "check_locks gs rm ms cl la lr = Inr n"
  using assms unfolding validate_members_def
  by (auto split: option.splits sum.splits if_splits)

lemma validate_delta_Inr:
  assumes "validate_delta v = Inr n"
  obtains d es gs rm where "v = PDict d" "set (List.map fst d) \<subseteq> set delta_fields"
    "list_ex (\<lambda>k. py_truthy (py_get d k)) (List.map fst d)" "list_or_empty d ''setGroups'' = Some es"
    "map_result norm_group es = Inr gs" "str_list d ''removeGroupIds'' = Inr rm" "length rm \<le> MAX_DELTA_LIST"
    "validate_members d gs rm = Inr n"
proof -
  obtain d where v: "v = PDict d"
    using assms by (auto simp: validate_delta_def entry_dict_Some split: option.splits)
  have u: "filter (\<lambda>k. k \<notin> set delta_fields) (List.map fst d) = []"
    "list_ex (\<lambda>k. py_truthy (py_get d k)) (List.map fst d)"
    using assms by (auto simp: v validate_delta_def entry_dict_def Let_def split: if_splits)
  obtain es gs rm where "list_or_empty d ''setGroups'' = Some es"
    "map_result norm_group es = Inr gs" "str_list d ''removeGroupIds'' = Inr rm" "length rm \<le> MAX_DELTA_LIST"
    "validate_members d gs rm = Inr n"
    using assms by (auto simp: v validate_delta_def entry_dict_def Let_def u
        split: option.splits sum.splits if_splits)
  moreover have "set (List.map fst d) \<subseteq> set delta_fields"
    using u(1) unfolding filter_empty_conv by blast
  ultimately show thesis using that v u(2) by blast
qed

lemma validate_delta_wf:
  assumes "validate_delta v = Inr n"
  shows "wf_delta n"
proof -
  obtain d es gs rm where d: "set (List.map fst d) \<subseteq> set delta_fields"
    "list_ex (\<lambda>k. py_truthy (py_get d k)) (List.map fst d)" "list_or_empty d ''setGroups'' = Some es"
    "map_result norm_group es = Inr gs" "str_list d ''removeGroupIds'' = Inr rm" "length rm \<le> MAX_DELTA_LIST"
    "validate_members d gs rm = Inr n"
    using validate_delta_Inr [OF assms] by metis
  obtain es' ms cl la lr where m: "list_or_empty d ''membershipSet'' = Some es'" "map_result norm_member es' = Inr ms"
    "str_list d ''membershipClear'' = Inr cl" "length cl \<le> MAX_DELTA_LIST"
    "str_list d ''locksAdd'' = Inr la" "str_list d ''locksRemove'' = Inr lr" "check_locks gs rm ms cl la lr = Inr n"
    using validate_members_Inr [OF d(7)] by metis
  note n = check_locks_Inr [OF m(7)]
  have gs: "list_all wf_group_patch gs" "length gs = length es"
    using map_result_wf [OF d(4), of wf_group_patch] norm_group_wf by auto
  have ms: "list_all (\<lambda>(l, g). l \<noteq> [] \<and> g \<noteq> []) ms" "length ms = length es'"
    using map_result_wf [OF m(2), of "\<lambda>(l, g). l \<noteq> [] \<and> g \<noteq> []"] norm_member_wf by auto
  have "gs \<noteq> [] \<or> rm \<noteq> [] \<or> ms \<noteq> [] \<or> cl \<noteq> [] \<or> la \<noteq> [] \<or> lr \<noteq> []"
  proof -
    obtain k where k: "k \<in> set delta_fields" "py_truthy (py_get d k)" using d(1,2) by (auto simp: list_ex_iff)
    have "k = ''setGroups'' \<or> k = ''removeGroupIds'' \<or> k = ''membershipSet'' \<or>
      k = ''membershipClear'' \<or> k = ''locksAdd'' \<or> k = ''locksRemove''"
      using k(1) by (simp add: delta_fields_def)
    then show ?thesis
    proof (elim disjE)
      assume "k = ''setGroups''"
      then show ?thesis using k(2) list_or_empty_Some [OF d(3)] gs(2) by auto
    next
      assume "k = ''membershipSet''"
      then show ?thesis using k(2) list_or_empty_Some [OF m(1)] ms(2) by auto
    qed (use k(2) str_list_truthy [OF d(5)] str_list_truthy [OF m(3)] str_list_truthy [OF m(5)]
        str_list_truthy [OF m(6)] in simp_all)
  qed
  moreover have "length gs \<le> MAX_DELTA_LIST" "length ms \<le> MAX_DELTA_LIST"
    using list_or_empty_Some [OF d(3)] list_or_empty_Some [OF m(1)] gs(2) ms(2) by auto
  moreover have "nonempty_all rm" "nonempty_all cl" "nonempty_all la" "nonempty_all lr"
    using str_list_Inr [OF d(5)] str_list_Inr [OF m(3)] str_list_Inr [OF m(5)] str_list_Inr [OF m(6)] by auto
  ultimately show ?thesis
    using n gs(1) ms(1) d(6) m(4) unfolding wf_delta_def by simp
qed

lemma validate_delta_request:
  assumes wf: "wf_delta n"
  shows "validate_delta (delta_request n) = Inr n"
proof -
  obtain d where d: "delta_request n = PDict d" by (simp add: delta_request_def)
  have get: "py_get d ''setGroups'' = PList (List.map patch_value (d_set_groups n))"
    "py_get d ''removeGroupIds'' = PList (List.map PStr (d_remove n))"
    "py_get d ''membershipSet'' = PList (List.map (\<lambda>(l, g). PDict [(''layerId'', PStr l), (''groupId'', PStr g)]) (d_members n))"
    "py_get d ''membershipClear'' = PList (List.map PStr (d_clear n))"
    "py_get d ''locksAdd'' = PList (List.map PStr (d_locks_add n))"
    "py_get d ''locksRemove'' = PList (List.map PStr (d_locks_remove n))"
    and keys: "List.map fst d = delta_fields"
    using d by (auto simp: delta_request_def py_get_def delta_fields_def)
  have ms: "map_result norm_member (List.map (\<lambda>(l, g). PDict [(''layerId'', PStr l), (''groupId'', PStr g)]) (d_members n)) = Inr (d_members n)"
    using wf by (intro map_result_map) (auto simp: wf_delta_def list_all_iff norm_member_request)
  have gs: "map_result norm_group (List.map patch_value (d_set_groups n)) = Inr (d_set_groups n)"
    using wf by (intro map_result_map) (auto simp: wf_delta_def list_all_iff norm_group_patch_value)
  have cl: "check_locks (d_set_groups n) (d_remove n) (d_members n) (d_clear n) (d_locks_add n) (d_locks_remove n) = Inr n"
  proof -
    have "\<lparr>d_set_groups = d_set_groups n, d_remove = d_remove n, d_members = d_members n, d_clear = d_clear n,
      d_locks_add = d_locks_add n, d_locks_remove = d_locks_remove n\<rparr> = n" by simp
    then show ?thesis
      using wf unfolding check_locks_def wf_delta_def Let_def by (simp only:) simp
  qed
  have "validate_members d (d_set_groups n) (d_remove n) = Inr n"
    using wf ms cl by (simp add: validate_members_def wf_delta_def list_or_empty_request get str_list_request)
  moreover have "list_ex (\<lambda>k. py_truthy (py_get d k)) delta_fields"
    using wf by (auto simp: delta_fields_def get wf_delta_def)
  ultimately show ?thesis
    using wf gs by (simp add: d validate_delta_def entry_dict_def keys wf_delta_def list_or_empty_request get
        str_list_request)
qed

end
