(* ===== verification/Collab_Apply.thy ===== *)
theory Collab_Apply
  imports Collab_Lemmas
begin

text \<open>
  Lemmas on the application of a patch: dictionaries under sequences of assignments, the closed form of
  the group updates, the cascade of a removal, and the order-preserving set of locks.
\<close>

section \<open>Sequences of assignments\<close>

definition assign :: "('k \<times> 'v) list \<Rightarrow> ('k \<times> 'v) list \<Rightarrow> ('k \<times> 'v) list" where
  "assign us d = fold (\<lambda>(k, v). AList.update k v) us d"

lemma assign_simps [simp]:
  "assign [] d = d"
  "assign ((k, v) # us) d = assign us (AList.update k v d)"
  by (simp_all add: assign_def)

lemma assign_append: "assign (us @ vs) d = assign vs (assign us d)"
  by (simp add: assign_def)

lemma assign_lookup: "map_of (assign us d) = map_of d ++ map_of (rev us)"
  by (induction us arbitrary: d) (auto simp: update_conv' map_add_def fun_eq_iff split: option.split)

lemma assign_keys: "fst ` set (assign us d) = fst ` set us \<union> fst ` set d"
proof (induction us arbitrary: d)
  case (Cons u us)
  then show ?case by (cases u) (simp add: dict_keys_update)
qed simp

lemma assign_distinct: "distinct (List.map fst d) \<Longrightarrow> distinct (List.map fst (assign us d))"
  by (induction us arbitrary: d) (auto simp: distinct_update)

lemma assign_old_keys: "fst ` set us \<subseteq> fst ` set d \<Longrightarrow> List.map fst (assign us d) = List.map fst d"
proof (induction us arbitrary: d)
  case (Cons u us)
  obtain k v where u: "u = (k, v)" by (cases u)
  have "List.map fst (AList.update k v d) = List.map fst d"
    using Cons.prems by (simp add: u update_keys)
  moreover have "fst ` set us \<subseteq> fst ` set (AList.update k v d)"
    using Cons.prems by (auto simp: dict_keys_update)
  ultimately show ?case using Cons.IH by (simp add: u)
qed simp

lemma dict_eq_by_lookup:
  "distinct (List.map fst xs) \<Longrightarrow> List.map fst xs = List.map fst ys \<Longrightarrow> map_of xs = map_of ys \<Longrightarrow> xs = ys"
proof (rule nth_equalityI)
  assume a: "distinct (List.map fst xs)" "List.map fst xs = List.map fst ys" "map_of xs = map_of ys"
  then show len: "length xs = length ys" by (metis length_map)
  fix i
  assume i: "i < length xs"
  have k: "fst (xs ! i) = fst (ys ! i)" using a(2) i len by (metis nth_map)
  have "map_of xs (fst (xs ! i)) = Some (snd (xs ! i))" "map_of ys (fst (ys ! i)) = Some (snd (ys ! i))"
    using a(1,2) i len by (simp_all add: map_of_eq_Some_iff)
  then show "xs ! i = ys ! i" using a(3) k by (simp add: prod_eq_iff)
qed

lemma assign_same:
  assumes d: "distinct (List.map fst d)" and "\<And>k. k \<in> fst ` set us \<Longrightarrow> map_of d k = map_of (rev us) k"
  shows "assign us d = d"
proof -
  have "fst ` set us \<subseteq> fst ` set d"
  proof
    fix k
    assume k: "k \<in> fst ` set us"
    then have "map_of (rev us) k \<noteq> None" by (simp add: map_of_eq_None_iff)
    with assms(2) [OF k] show "k \<in> fst ` set d"
      by (metis map_of_eq_None_iff)
  qed
  from assign_old_keys [OF this] have keys: "List.map fst (assign us d) = List.map fst d" .
  have "map_of (assign us d) = map_of d"
  proof
    fix k
    show "map_of (assign us d) k = map_of d k"
    proof (cases "k \<in> fst ` set us")
      case True
      then show ?thesis using assms(2) [OF True]
        by (auto simp: assign_lookup map_add_def split: option.split)
    next
      case False
      then have "map_of (rev us) k = None" by (simp add: map_of_eq_None_iff)
      then show ?thesis by (simp add: assign_lookup map_add_def)
    qed
  qed
  with keys d show ?thesis by (intro dict_eq_by_lookup) auto
qed

lemma assign_lookup_assigned: "k \<in> fst ` set us \<Longrightarrow> map_of (assign us d) k = map_of (rev us) k"
proof -
  assume "k \<in> fst ` set us"
  then obtain v where "map_of (rev us) k = Some v"
    by (cases "map_of (rev us) k") (auto simp: map_of_eq_None_iff)
  then show ?thesis by (simp add: assign_lookup map_add_def)
qed

lemma assign_twice: "distinct (List.map fst d) \<Longrightarrow> assign us (assign us d) = assign us d"
  by (rule assign_same) (simp_all add: assign_distinct assign_lookup_assigned)

section \<open>Group updates in closed form\<close>

definition patch_fields :: "group_patch \<Rightarrow> (string \<times> pyval) list" where
  "patch_fields p =
     (case gp_name p of None \<Rightarrow> [] | Some s \<Rightarrow> [(''name'', PStr s)]) @
     (case gp_collapsed p of None \<Rightarrow> [] | Some b \<Rightarrow> [(''collapsed'', PBool b)]) @
     (case gp_parent p of None \<Rightarrow> [] | Some None \<Rightarrow> [(''parentId'', PNone)]
      | Some (Some s) \<Rightarrow> [(''parentId'', PStr s)])"

lemma merge_patch_assign: "merge_patch p g = assign (patch_fields p) g"
  by (auto simp: merge_patch_def patch_fields_def Let_def split: option.split)

lemma patch_fields_no_id: "''id'' \<notin> fst ` set (patch_fields p)"
  by (cases "gp_name p"; cases "gp_collapsed p"; cases "gp_parent p"; cases "the (gp_parent p)")
    (simp_all add: patch_fields_def)

definition fields_for :: "group_patch list \<Rightarrow> pyval \<Rightarrow> (string \<times> pyval) list" where
  "fields_for ps i = concat (List.map patch_fields (filter (\<lambda>p. PStr (gp_id p) = i) ps))"

definition update_group :: "group_patch list \<Rightarrow> pydict \<Rightarrow> pydict" where
  "update_group ps g = assign (fields_for ps (group_id g)) g"

lemma fields_for_no_id: "''id'' \<notin> fst ` set (fields_for ps i)"
  using patch_fields_no_id unfolding fields_for_def set_concat set_map image_UN image_image by blast

lemma group_id_assign: "''id'' \<notin> fst ` set us \<Longrightarrow> group_id (assign us g) = group_id g"
proof -
  assume "''id'' \<notin> fst ` set us"
  then have "map_of (rev us) ''id'' = None" by (simp add: map_of_eq_None_iff)
  then show ?thesis by (simp add: group_id_def py_get_def assign_lookup map_add_def)
qed

lemma group_id_update [simp]: "group_id (update_group ps g) = group_id g"
  by (simp add: update_group_def group_id_assign fields_for_no_id)

lemma update_group_Nil [simp]: "update_group [] = (\<lambda>g. g)"
  by (simp add: update_group_def fields_for_def fun_eq_iff)

lemma update_group_Cons:
  "update_group (p # ps) g =
   (if group_id g = PStr (gp_id p) then update_group ps (merge_patch p g) else update_group ps g)"
  by (auto simp: update_group_def fields_for_def merge_patch_assign assign_append
      group_id_assign patch_fields_no_id)

lemma update_group_other: "\<forall>p \<in> set ps. PStr (gp_id p) \<noteq> group_id g \<Longrightarrow> update_group ps g = g"
  by (induction ps) (auto simp: update_group_Cons)

lemma update_group_twice: "distinct (List.map fst g) \<Longrightarrow> update_group ps (update_group ps g) = update_group ps g"
  using assign_twice [of g "fields_for ps (group_id g)"]
  by (simp add: update_group_def group_id_assign fields_for_no_id)

lemma group_id_merge [simp]: "group_id (merge_patch p g) = group_id g"
  by (simp add: merge_patch_assign group_id_assign patch_fields_no_id)

lemma group_id_new [simp]: "group_id (new_group p nm) = PStr (gp_id p)"
  by (simp add: new_group_def group_id_def py_get_def)

lemma merge_new_group: "gp_name p = Some nm \<Longrightarrow> merge_patch p (new_group p nm) = new_group p nm"
  by (auto simp: merge_patch_def new_group_def Let_def or_else_def split: option.split)

lemma distinct_new_group: "distinct (List.map fst (new_group p nm))"
  by (simp add: new_group_def)

lemma patch_last_map:
  "distinct (List.map group_id gs) \<Longrightarrow>
   patch_last p gs = List.map (\<lambda>g. if group_id g = PStr (gp_id p) then merge_patch p g else g) gs"
proof (induction gs)
  case (Cons g gs)
  have "List.map (\<lambda>g. if group_id g = PStr (gp_id p) then merge_patch p g else g) gs = gs"
    if "PStr (gp_id p) \<notin> set (List.map group_id gs)"
    using that by (intro map_idI) force
  then show ?case using Cons by auto
qed simp

lemma set_groups_form:
  "set_groups ps gs = Inr gs1 \<Longrightarrow> distinct (List.map group_id gs) \<Longrightarrow>
   \<exists>cs. gs1 = List.map (update_group ps) (gs @ cs) \<and> distinct (List.map group_id (gs @ cs)) \<and>
     (\<forall>c \<in> set cs. distinct (List.map fst c)) \<and>
     group_id ` set cs \<subseteq> (\<lambda>p. PStr (gp_id p)) ` set ps \<and>
     (\<lambda>p. PStr (gp_id p)) ` set ps \<subseteq> group_id ` set (gs @ cs)"
proof (induction ps arbitrary: gs)
  case Nil
  then show ?case by (intro exI [of _ "[]"]) auto
next
  case (Cons p ps)
  let ?i = "PStr (gp_id p)"
  show ?case
  proof (cases "?i \<in> set (List.map group_id gs)")
    case True
    let ?gs = "List.map (\<lambda>g. if group_id g = ?i then merge_patch p g else g) gs"
    have ids: "List.map group_id ?gs = List.map group_id gs" by simp
    have "set_groups ps ?gs = Inr gs1"
      using Cons.prems True by (simp add: patch_last_map)
    from Cons.IH [OF this, unfolded ids, OF Cons.prems(2)] obtain cs where
      cs: "gs1 = List.map (update_group ps) (?gs @ cs)" "distinct (List.map group_id (?gs @ cs))"
      "\<forall>c \<in> set cs. distinct (List.map fst c)" "group_id ` set cs \<subseteq> (\<lambda>p. PStr (gp_id p)) ` set ps"
      "(\<lambda>p. PStr (gp_id p)) ` set ps \<subseteq> group_id ` set (?gs @ cs)" by (elim exE conjE)
    have gid: "group_id ` set ?gs = group_id ` set gs"
      using ids by (metis set_map)
    have d: "distinct (List.map group_id (gs @ cs))"
      using cs(2) unfolding map_append ids .
    have "group_id c \<noteq> ?i" if "c \<in> set cs" for c
    proof -
      have "group_id ` set gs \<inter> group_id ` set cs = {}" using d by simp
      then show ?thesis using that True by (metis IntI empty_iff imageI set_map)
    qed
    then have "gs1 = List.map (update_group (p # ps)) (gs @ cs)"
      unfolding cs(1) by (auto simp: update_group_Cons)
    moreover have "(\<lambda>p. PStr (gp_id p)) ` set ps \<subseteq> group_id ` set (gs @ cs)"
      using cs(5) unfolding set_append image_Un gid .
    ultimately show ?thesis
      using cs(3,4) d True by (intro exI [of _ cs]) auto
  next
    case False
    then obtain nm where nm: "gp_name p = Some nm" and gs1: "set_groups ps (gs @ [new_group p nm]) = Inr gs1"
      using Cons.prems(1) by (auto split: option.splits)
    have "distinct (List.map group_id (gs @ [new_group p nm]))"
      using False Cons.prems(2) by simp
    from Cons.IH [OF gs1 this] obtain cs where
      cs: "gs1 = List.map (update_group ps) ((gs @ [new_group p nm]) @ cs)"
      "distinct (List.map group_id ((gs @ [new_group p nm]) @ cs))"
      "\<forall>c \<in> set cs. distinct (List.map fst c)" "group_id ` set cs \<subseteq> (\<lambda>p. PStr (gp_id p)) ` set ps"
      "(\<lambda>p. PStr (gp_id p)) ` set ps \<subseteq> group_id ` set ((gs @ [new_group p nm]) @ cs)"
      by (elim exE conjE)
    have "update_group (p # ps) g = update_group ps g" if "g \<in> set gs \<union> set cs" for g
      using that False cs(2) by (auto simp: update_group_Cons image_iff)
    moreover have "update_group (p # ps) (new_group p nm) = update_group ps (new_group p nm)"
      by (simp add: update_group_Cons merge_new_group [OF nm])
    ultimately have "gs1 = List.map (update_group (p # ps)) (gs @ new_group p nm # cs)"
      unfolding cs(1) by auto
    then show ?thesis
      using cs distinct_new_group by (intro exI [of _ "new_group p nm # cs"]) auto
  qed
qed

lemma set_groups_present:
  "distinct (List.map group_id gs) \<Longrightarrow> (\<lambda>p. PStr (gp_id p)) ` set ps \<subseteq> group_id ` set gs \<Longrightarrow>
   set_groups ps gs = Inr (List.map (update_group ps) gs)"
proof (induction ps arbitrary: gs)
  case (Cons p ps)
  let ?gs = "List.map (\<lambda>g. if group_id g = PStr (gp_id p) then merge_patch p g else g) gs"
  have ids: "List.map group_id ?gs = List.map group_id gs" by simp
  then have "group_id ` set ?gs = group_id ` set gs" by (metis set_map)
  then have "set_groups ps ?gs = Inr (List.map (update_group ps) ?gs)"
    using Cons.prems ids by (intro Cons.IH) (auto simp del: map_map)
  then show ?case
    using Cons.prems by (auto simp: patch_last_map update_group_Cons)
qed simp

section \<open>The cascade of a removal\<close>

lemma assign_new: "distinct (List.map fst (d @ us)) \<Longrightarrow> assign us d = d @ us"
proof (induction us arbitrary: d)
  case (Cons u us)
  obtain k v where u: "u = (k, v)" by (cases u)
  have "AList.update k v d = d @ [(k, v)]"
    using Cons.prems by (induction d) (auto simp: u)
  then show ?case using Cons.IH [of "d @ [u]"] Cons.prems by (simp add: u)
qed simp

lemma groups_by_id_distinct:
  assumes "distinct (List.map group_id gs)"
  shows "groups_by_id gs = List.map (\<lambda>g. (group_id g, g)) gs"
proof -
  have "groups_by_id gs = assign (List.map (\<lambda>g. (group_id g, g)) gs) []"
    by (simp add: groups_by_id_def assign_def fold_map o_def)
  also have "\<dots> = List.map (\<lambda>g. (group_id g, g)) gs"
    using assms by (subst assign_new) (simp_all add: o_def)
  finally show ?thesis .
qed

definition child_step :: "pyval set \<Rightarrow> pyval \<times> pydict \<Rightarrow> (pyval \<times> pyval list) list \<Rightarrow> (pyval \<times> pyval list) list" where
  "child_step ids ig acc = (case py_get (snd ig) ''parentId'' of
     PStr p \<Rightarrow> if PStr p \<in> ids then dict_push (PStr p) (fst ig) acc else acc | _ \<Rightarrow> acc)"

lemma child_step_edges:
  "adj_edges (child_step ids ig acc) = adj_edges acc \<union>
   {(a, b). b = fst ig \<and> a \<in> ids \<and> py_get (snd ig) ''parentId'' = a \<and> (\<exists>p. a = PStr p)}"
  by (auto simp: child_step_def adj_edges_push split: pyval.splits)

lemma child_fold_edges:
  "adj_edges (fold (child_step ids) xs acc) = adj_edges acc \<union>
   {(a, b). \<exists>g. (b, g) \<in> set xs \<and> a \<in> ids \<and> py_get g ''parentId'' = a \<and> (\<exists>p. a = PStr p)}"
  by (induction xs arbitrary: acc) (auto simp: child_step_edges)

lemma child_edges:
  assumes "distinct (List.map group_id gs)"
  shows "adj_edges (child_lists gs) =
    {(a, b). \<exists>g \<in> set gs. group_id g = b \<and> a \<in> group_id ` set gs \<and> py_get g ''parentId'' = a \<and> (\<exists>p. a = PStr p)}"
proof -
  have look: "map_of (groups_by_id gs) k \<noteq> None \<longleftrightarrow> k \<in> group_id ` set gs" for k
    by (simp add: groups_by_id_distinct [OF assms] map_of_eq_None_iff image_image)
  have "child_lists gs = fold (child_step (group_id ` set gs)) (groups_by_id gs) []"
    unfolding child_lists_def child_step_def look split_def ..
  then show ?thesis
    by (simp only: child_fold_edges) (auto simp: groups_by_id_distinct [OF assms])
qed

lemma descendants_reach:
  "distinct (List.map group_id gs) \<Longrightarrow>
   set (descendants gs roots) = (adj_edges (child_lists gs))\<^sup>* `` (PStr ` set roots)"
  unfolding descendants_def mark_reach by simp

lemma descendants_absent:
  assumes d: "distinct (List.map group_id gs)" and "\<forall>r \<in> set roots. PStr r \<notin> group_id ` set gs"
  shows "set (descendants gs roots) = PStr ` set roots"
proof -
  have "b \<in> PStr ` set roots" if "(a, b) \<in> (adj_edges (child_lists gs))\<^sup>*" "a \<in> PStr ` set roots" for a b
    using that by (induction rule: rtrancl_induct) (use assms(2) in \<open>auto simp: child_edges [OF d]\<close>)
  then show ?thesis by (auto simp: descendants_reach [OF d])
qed

lemma descendants_roots: "distinct (List.map group_id gs) \<Longrightarrow> PStr ` set roots \<subseteq> set (descendants gs roots)"
  by (auto simp: descendants_reach)

section \<open>Locks and members\<close>

lemma append_locks_set: "set (append_locks rm ls acc) = set acc \<union> (set ls - set rm)"
  by (induction rm ls acc rule: append_locks.induct) auto

lemma append_locks_distinct: "distinct acc \<Longrightarrow> distinct (append_locks rm ls acc)"
  by (induction rm ls acc rule: append_locks.induct) auto

lemma append_locks_none: "set ls - set rm \<subseteq> set acc \<Longrightarrow> append_locks rm ls acc = acc"
  by (induction rm ls acc rule: append_locks.induct) (auto simp: insert_Diff_if split: if_splits)

lemma append_locks_all: "distinct (acc @ ls) \<Longrightarrow> set ls \<inter> set rm = {} \<Longrightarrow> append_locks rm ls acc = acc @ ls"
  by (induction rm ls acc rule: append_locks.induct) auto

lemma set_members_assign:
  "set_members ids ms m = Inr m' \<Longrightarrow> m' = assign ms m \<and> (\<forall>x \<in> set ms. PStr (snd x) \<in> set ids)"
  by (induction ids ms m rule: set_members.induct) (auto split: if_splits)

lemma set_members_ok:
  "\<forall>x \<in> set ms. PStr (snd x) \<in> set ids \<Longrightarrow> set_members ids ms m = Inr (assign ms m)"
  by (induction ids ms m rule: set_members.induct) auto

lemma assign_values: "x \<in> set (assign us d) \<Longrightarrow> x \<in> set us \<or> x \<in> set d"
proof (induction us arbitrary: d)
  case (Cons u us)
  obtain k v where u: "u = (k, v)" by (cases u)
  have "x \<in> set us \<or> x \<in> set (AList.update k v d)"
    using Cons.IH [of "AList.update k v d"] Cons.prems by (simp add: u)
  moreover have "x = (k, v) \<or> x \<in> set d" if "x \<in> set (AList.update k v d)"
    using that by (induction d) (auto split: if_splits)
  ultimately show ?case by (auto simp: u)
qed simp

section \<open>The parts of a document\<close>

definition wf_parts :: "workbench_parts \<Rightarrow> bool" where
  "wf_parts w = (distinct (List.map group_id (wp_groups w)) \<and>
     (\<forall>g \<in> set (wp_groups w). distinct (List.map fst g)) \<and> distinct (List.map fst (wp_members w)))"

definition ids_of :: "workbench_parts \<Rightarrow> pyval set" where
  "ids_of w = group_id ` set (wp_groups w)"

definition members_exist :: "workbench_parts \<Rightarrow> bool" where
  "members_exist w = (\<forall>x \<in> set (wp_members w). PStr (snd x) \<in> ids_of w)"

definition patched_ids :: "delta \<Rightarrow> pyval set" where
  "patched_ids d = (\<lambda>p. PStr (gp_id p)) ` set (d_set_groups d)"

definition cascade_of :: "delta \<Rightarrow> pydict list \<Rightarrow> pyval list" where
  "cascade_of d gs = (if d_remove d = [] then [] else descendants gs (d_remove d))"

definition uncleared :: "delta \<Rightarrow> string list" where
  "uncleared d = filter (\<lambda>l. l \<notin> set (List.map fst (d_members d))) (d_clear d)"

definition next_locks :: "delta \<Rightarrow> string list \<Rightarrow> string list" where
  "next_locks d ls = append_locks (d_locks_remove d) (d_locks_add d) (append_locks (d_locks_remove d) ls [])"

text \<open>What an accepted patch leaves, with the groups \<open>gs\<close> before the removal and the created ones \<open>cs\<close>.\<close>

definition patched :: "delta \<Rightarrow> workbench_parts \<Rightarrow> workbench_parts \<Rightarrow> pydict list \<Rightarrow> pydict list \<Rightarrow> bool" where
  "patched d w w' gs cs = (
    gs = List.map (update_group (d_set_groups d)) (wp_groups w @ cs) \<and> distinct (List.map group_id gs) \<and>
    (\<forall>g \<in> set (wp_groups w @ cs). distinct (List.map fst g)) \<and>
    group_id ` set cs \<subseteq> patched_ids d \<and>
    PStr ` set (d_remove d) \<inter> patched_ids d = {} \<and>
    wp_groups w' = filter (\<lambda>g. group_id g \<notin> set (cascade_of d gs)) gs \<and>
    (\<forall>x \<in> set (d_members d). PStr (snd x) \<in> ids_of w') \<and>
    wp_members w' = clear_members (uncleared d)
       (assign (d_members d) (filter (\<lambda>(l, g). PStr g \<notin> set (cascade_of d gs)) (wp_members w))) \<and>
    wp_locked w' = next_locks d (wp_locked w))"

lemma apply_parts_shape:
  assumes wf: "wf_parts w" and ap: "apply_parts d w = Inr w'"
  obtains gs cs where "patched d w w' gs cs"
proof -
  obtain gs where gs: "set_groups (d_set_groups d) (wp_groups w) = Inr gs"
    using ap by (auto simp: apply_parts_def split: sum.splits)
  have dg: "distinct (List.map group_id (wp_groups w))" using wf by (simp add: wf_parts_def)
  obtain cs where cs: "gs = List.map (update_group (d_set_groups d)) (wp_groups w @ cs)"
    "distinct (List.map group_id (wp_groups w @ cs))" "\<forall>c \<in> set cs. distinct (List.map fst c)"
    "group_id ` set cs \<subseteq> patched_ids d"
    using set_groups_form [OF gs dg] unfolding patched_ids_def by (elim exE conjE)
  have d: "distinct (List.map group_id gs)"
    using cs(2) unfolding cs(1) map_map o_def group_id_update .
  have k: "\<forall>g \<in> set (wp_groups w @ cs). distinct (List.map fst g)"
    using wf cs(3) by (auto simp: wf_parts_def)
  have nc: "filter (\<lambda>r. r \<in> set (List.map gp_id (d_set_groups d))) (remdups (d_remove d)) = []"
    using ap by (auto simp: apply_parts_def gs Let_def split: if_splits)
  then have disj: "PStr ` set (d_remove d) \<inter> patched_ids d = {}"
    by (auto simp: filter_empty_conv patched_ids_def)
  obtain ms where ms: "set_members (List.map group_id (filter (\<lambda>g. group_id g \<notin> set (cascade_of d gs)) gs)) (d_members d)
      (filter (\<lambda>(l, g). PStr g \<notin> set (cascade_of d gs)) (wp_members w)) = Inr ms"
    and w': "w' = \<lparr>wp_groups = filter (\<lambda>g. group_id g \<notin> set (cascade_of d gs)) gs,
      wp_members = clear_members (uncleared d) ms, wp_locked = next_locks d (wp_locked w)\<rparr>"
    using ap nc by (auto simp: apply_parts_def gs Let_def cascade_of_def uncleared_def next_locks_def split: sum.splits)
  have "\<forall>x \<in> set (d_members d). PStr (snd x) \<in> ids_of w'"
    using set_members_assign [OF ms] by (simp add: w' ids_of_def)
  then have "patched d w w' gs cs"
    using cs(1,4) d k disj set_members_assign [OF ms] unfolding patched_def by (simp add: w')
  then show thesis by (rule that)
qed

lemma patchedD:
  assumes "patched d w w' gs cs"
  shows "gs = List.map (update_group (d_set_groups d)) (wp_groups w @ cs)" and "distinct (List.map group_id gs)"
    and "\<forall>g \<in> set (wp_groups w @ cs). distinct (List.map fst g)"
    and "PStr ` set (d_remove d) \<inter> patched_ids d = {}"
    and "group_id ` set cs \<subseteq> patched_ids d"
    and "wp_groups w' = filter (\<lambda>g. group_id g \<notin> set (cascade_of d gs)) gs"
    and "\<forall>x \<in> set (d_members d). PStr (snd x) \<in> ids_of w'"
    and "wp_members w' = clear_members (uncleared d)
       (assign (d_members d) (filter (\<lambda>(l, g). PStr g \<notin> set (cascade_of d gs)) (wp_members w)))"
    and "wp_locked w' = next_locks d (wp_locked w)"
  using assms unfolding patched_def by blast+

lemma patched_groups:
  assumes p: "patched d w w' gs cs" and g: "g \<in> set gs"
  shows "distinct (List.map fst g)" and "update_group (d_set_groups d) g = g"
proof -
  obtain h where h: "h \<in> set (wp_groups w @ cs)" "g = update_group (d_set_groups d) h"
    using g unfolding patchedD(1) [OF p] by auto
  have k: "distinct (List.map fst h)" using patchedD(3) [OF p] h(1) by blast
  show "distinct (List.map fst g)"
    using k by (simp add: h(2) update_group_def assign_distinct)
  show "update_group (d_set_groups d) g = g"
    unfolding h(2) by (rule update_group_twice [OF k])
qed

lemma cascade_roots: "patched d w w' gs cs \<Longrightarrow> PStr ` set (d_remove d) \<subseteq> set (cascade_of d gs)"
  using descendants_roots [OF patchedD(2)] by (auto simp: cascade_of_def)

lemma wf_after:
  assumes wf: "wf_parts w" and ap: "apply_parts d w = Inr w'"
  shows "wf_parts w'"
proof -
  obtain gs cs where p: "patched d w w' gs cs" by (rule apply_parts_shape [OF wf ap])
  have "distinct (List.map fst (wp_members w'))"
    using wf unfolding patchedD(8) [OF p] clear_members_def wf_parts_def
    by (auto intro!: distinct_map_filter assign_distinct)
  moreover have "distinct (List.map group_id (wp_groups w'))"
    using patchedD(2) [OF p] by (simp add: patchedD(6) [OF p] distinct_map_filter)
  moreover have "\<forall>g \<in> set (wp_groups w'). distinct (List.map fst g)"
    using patched_groups(1) [OF p] by (simp add: patchedD(6) [OF p])
  ultimately show ?thesis
    unfolding wf_parts_def by blast
qed

lemma clear_members_lookup: "map_of (clear_members ls m) k = (if k \<in> set ls then None else map_of m k)"
  by (induction m) (auto simp: clear_members_def)

lemma clear_members_twice [simp]: "clear_members ls (clear_members ls m) = clear_members ls m"
  by (simp add: clear_members_def)

lemma next_locks_facts:
  "distinct (next_locks d ls)" "set (next_locks d ls) = (set ls \<union> set (d_locks_add d)) - set (d_locks_remove d)"
  by (auto simp: next_locks_def append_locks_set append_locks_distinct)

lemma next_locks_again: "next_locks d (next_locks d ls) = next_locks d ls"
proof -
  let ?L = "next_locks d ls"
  have "append_locks (d_locks_remove d) ?L [] = ?L"
    using append_locks_all [of "[]" ?L "d_locks_remove d"] next_locks_facts [of d ls] by auto
  moreover have "append_locks (d_locks_remove d) (d_locks_add d) ?L = ?L"
    by (rule append_locks_none) (auto simp: next_locks_facts(2))
  ultimately show ?thesis by (simp add: next_locks_def [of d ?L])
qed

lemma member_origin:
  assumes p: "patched d w w' gs cs" and x: "x \<in> set (wp_members w')"
  shows "x \<in> set (d_members d) \<or> (x \<in> set (wp_members w) \<and> PStr (snd x) \<notin> set (cascade_of d gs))"
proof -
  have "x \<in> set (assign (d_members d) (filter (\<lambda>(l, g). PStr g \<notin> set (cascade_of d gs)) (wp_members w)))"
    using x unfolding patchedD(8) [OF p] clear_members_def by auto
  from assign_values [OF this] show ?thesis by auto
qed

lemma members_after:
  assumes wf: "wf_parts w" and ap: "apply_parts d w = Inr w'" and m: "members_exist w"
  shows "members_exist w'"
proof -
  obtain gs cs where p: "patched d w w' gs cs" by (rule apply_parts_shape [OF wf ap])
  have old: "ids_of w \<subseteq> group_id ` set gs"
    unfolding patchedD(1) [OF p] ids_of_def by (auto simp: image_image image_Un)
  show ?thesis
    unfolding members_exist_def
  proof
    fix x
    assume "x \<in> set (wp_members w')"
    from member_origin [OF p this]
    have "x \<in> set (d_members d) \<or> (x \<in> set (wp_members w) \<and> PStr (snd x) \<notin> set (cascade_of d gs))" .
    then show "PStr (snd x) \<in> ids_of w'"
    proof
      assume x: "x \<in> set (wp_members w) \<and> PStr (snd x) \<notin> set (cascade_of d gs)"
      then have "PStr (snd x) \<in> group_id ` set gs" using m old unfolding members_exist_def by blast
      then show ?thesis using x unfolding ids_of_def patchedD(6) [OF p] by auto
    qed (use patchedD(7) [OF p] in blast)
  qed
qed

lemma removed_after:
  assumes wf: "wf_parts w" and ap: "apply_parts d w = Inr w'" and r: "r \<in> set (d_remove d)"
  shows "PStr r \<notin> ids_of w'"
proof -
  obtain gs cs where p: "patched d w w' gs cs" by (rule apply_parts_shape [OF wf ap])
  show ?thesis
    using cascade_roots [OF p] r unfolding ids_of_def patchedD(6) [OF p] by auto
qed

text \<open>A patch applied to its own result changes nothing, when the groups it sets survive its removals.\<close>

lemma apply_parts_again:
  assumes wf: "wf_parts w" and ap: "apply_parts d w = Inr w'" and keep: "patched_ids d \<subseteq> ids_of w'"
  shows "apply_parts d w' = Inr w'"
proof -
  obtain gs cs where p: "patched d w w' gs cs" by (rule apply_parts_shape [OF wf ap])
  have wf': "wf_parts w'" by (rule wf_after [OF wf ap])
  have d: "distinct (List.map group_id (wp_groups w'))" using wf' by (simp add: wf_parts_def)
  have "List.map (update_group (d_set_groups d)) (wp_groups w') = wp_groups w'"
    using patched_groups(2) [OF p] unfolding patchedD(6) [OF p] by (intro map_idI) auto
  then have sg: "set_groups (d_set_groups d) (wp_groups w') = Inr (wp_groups w')"
    using set_groups_present [OF d] keep by (simp add: patched_ids_def ids_of_def)
  have nc: "filter (\<lambda>r. r \<in> set (List.map gp_id (d_set_groups d))) (remdups (d_remove d)) = []"
    using patchedD(4) [OF p] by (auto simp: filter_empty_conv patched_ids_def)
  have gone: "\<forall>r \<in> set (d_remove d). PStr r \<notin> group_id ` set (wp_groups w')"
    using removed_after [OF wf ap] by (simp add: ids_of_def)
  have casc: "set (cascade_of d (wp_groups w')) = PStr ` set (d_remove d)"
    using descendants_absent [OF d gone] by (simp add: cascade_of_def)
  have g: "filter (\<lambda>g. group_id g \<notin> set (cascade_of d (wp_groups w'))) (wp_groups w') = wp_groups w'"
    unfolding casc by (rule filter_True) (use gone in force)
  have m: "filter (\<lambda>(l, g). PStr g \<notin> set (cascade_of d (wp_groups w'))) (wp_members w') = wp_members w'"
  proof (rule filter_True, rule ballI)
    fix x
    assume "x \<in> set (wp_members w')"
    from member_origin [OF p this]
    have "x \<in> set (d_members d) \<or> PStr (snd x) \<notin> set (cascade_of d gs)" by auto
    then have "PStr (snd x) \<notin> PStr ` set (d_remove d)"
      using patchedD(7) [OF p] gone cascade_roots [OF p] unfolding ids_of_def by blast
    then show "case x of (l, g) \<Rightarrow> PStr g \<notin> set (cascade_of d (wp_groups w'))"
      unfolding casc by (simp add: split_def)
  qed
  have as: "assign (d_members d) (wp_members w') = wp_members w'"
  proof (rule assign_same)
    show "distinct (List.map fst (wp_members w'))" using wf' by (simp add: wf_parts_def)
    fix k
    assume k: "k \<in> fst ` set (d_members d)"
    then have "k \<notin> set (uncleared d)" by (auto simp: uncleared_def)
    then show "map_of (wp_members w') k = map_of (rev (d_members d)) k"
      unfolding patchedD(8) [OF p] by (simp add: clear_members_lookup assign_lookup_assigned [OF k])
  qed
  have sm: "set_members (List.map group_id (wp_groups w')) (d_members d) (wp_members w') = Inr (wp_members w')"
    using set_members_ok [of "d_members d" "List.map group_id (wp_groups w')" "wp_members w'"] as
      patchedD(7) [OF p] by (simp add: ids_of_def)
  have cl: "clear_members (uncleared d) (wp_members w') = wp_members w'"
    unfolding patchedD(8) [OF p] by simp
  have lo: "next_locks d (wp_locked w') = wp_locked w'"
    unfolding patchedD(9) [OF p] by (rule next_locks_again)
  show ?thesis
    using g m cl lo
    unfolding apply_parts_def sg sum.case Let_def nc cascade_of_def uncleared_def next_locks_def
    by (simp add: sm)
qed

lemma ids_after:
  assumes wf: "wf_parts w" and ap: "apply_parts d w = Inr w'"
  shows "ids_of w' \<subseteq> ids_of w \<union> patched_ids d"
proof -
  obtain gs cs where p: "patched d w w' gs cs" by (rule apply_parts_shape [OF wf ap])
  have "group_id ` set gs = ids_of w \<union> group_id ` set cs"
    unfolding patchedD(1) [OF p] ids_of_def by (auto simp: image_image image_Un)
  moreover have "set (wp_groups w') \<subseteq> set gs"
    unfolding patchedD(6) [OF p] by simp
  then have "ids_of w' \<subseteq> group_id ` set gs"
    unfolding ids_of_def by (rule image_mono)
  ultimately show ?thesis
    using patchedD(5) [OF p] by (metis subset_trans Un_mono subset_refl)
qed

lemma apply_parts_locks:
  assumes "wf_parts w" and "apply_parts d w = Inr w'"
  shows "set (wp_locked w') = (set (wp_locked w) \<union> set (d_locks_add d)) - set (d_locks_remove d)"
proof -
  obtain gs cs where p: "patched d w w' gs cs" by (rule apply_parts_shape [OF assms])
  show ?thesis unfolding patchedD(9) [OF p] by (rule next_locks_facts(2))
qed

end
