(* ===== verification/Collab_Properties.thy ===== *)
theory Collab_Properties
  imports Collab_Apply
begin

text \<open>
  What the patches of the organisation document promise: validated patches and requests determine each
  other, a patch is stable under replay unless it removes what it sets, and a stored document is valid,
  holds exactly the locks the patch leaves, and loses the component locks.
\<close>

section \<open>Documents and their parts\<close>

text \<open>The keys of a Python dictionary are distinct.\<close>

fun dict_ok :: "pyval \<Rightarrow> bool" where
  "dict_ok (PDict d) = (distinct (List.map fst d) \<and> list_all (\<lambda>x. dict_ok (snd x)) d)"
| "dict_ok (PList xs) = list_all dict_ok xs"
| "dict_ok v = True"

definition group_ids :: "pyval \<Rightarrow> pyval list" where
  "group_ids doc = (case py_get (or_else (entry_dict doc) []) ''groups'' of
     PList vs \<Rightarrow> List.map (\<lambda>v. group_id (or_else (entry_dict v) [])) vs | _ \<Rightarrow> [])"

definition string_ids :: "workbench_parts \<Rightarrow> bool" where
  "string_ids w = (ids_of w \<subseteq> range PStr)"

lemma dict_ok_get: "dict_ok (PDict d) \<Longrightarrow> map_of d k = Some v \<Longrightarrow> dict_ok v"
  by (auto dest!: map_of_SomeD simp: list_all_iff)

lemma str_value_Some: "str_value v = Some s \<longleftrightarrow> v = PStr s"
  by (auto simp: str_value_def split: pyval.splits)

lemma str_items_Some: "str_items v = Some ss \<longleftrightarrow> v = PList (List.map PStr ss)"
proof
  assume a: "str_items v = Some ss"
  then obtain xs where xs: "v = PList xs" "all_some str_value xs = Some ss"
    by (auto simp: str_items_def split: pyval.splits)
  have "xs = List.map PStr ss"
    using all_some_Some [OF xs(2)] by (induction rule: list_all2_induct) (auto simp: str_value_Some)
  with xs show "v = PList (List.map PStr ss)" by simp
next
  assume "v = PList (List.map PStr ss)"
  then show "str_items v = Some ss"
    using all_some_map [of ss str_value PStr] by (simp add: str_items_def str_value_def)
qed

lemma doc_group_Some: "doc_group v = Some (i, g) \<longleftrightarrow> v = PDict g \<and> py_get g ''id'' = PStr i \<and> i \<noteq> []"
  by (cases v) (auto simp: doc_group_def entry_dict_def nonempty_str_Some)

lemma map_result_same: "(\<And>x. x \<in> set xs \<Longrightarrow> f x = Inr x) \<Longrightarrow> map_result f xs = Inr xs"
  by (induction xs) auto

lemma iterate_list: "iterate_or_empty (PList xs) = Inr xs"
  by (simp add: iterate_or_empty_def)

lemma read_members_strings: "read_members (PDict (List.map (\<lambda>(k, g). (k, PStr g)) m)) = Inr m"
proof (cases "m = []")
  case True
  then show ?thesis by (simp add: read_members_def)
next
  case False
  then show ?thesis by (simp add: read_members_def py_str_def o_def split_def)
qed

lemma group_id_string: "group_id g = PStr s \<Longrightarrow> read_group g = Inr g"
  by (auto simp: group_id_def py_get_def read_group_def hashable_def or_else_def split: option.splits)

lemma read_groups: "group_id ` set gs \<subseteq> range PStr \<Longrightarrow> map_result read_group gs = Inr gs"
  by (intro map_result_same) (auto intro: group_id_string)

lemma map_filter_dicts: "List.map_filter entry_dict (List.map PDict gs) = gs"
  by (induction gs) (simp_all add: List.map_filter_simps entry_dict_def)

lemma read_result: "string_ids w \<Longrightarrow> read_parts (result_doc base w) = Inr w"
  by (simp add: read_parts_def result_doc_def iterate_list read_members_strings map_filter_dicts
      read_groups string_ids_def ids_of_def py_str_def o_def)

lemma result_again: "result_doc (result_doc base w) w' = result_doc base w'"
  by (auto simp: result_doc_def split: option.splits pyval.splits)

lemma group_ids_result: "group_ids (PDict (result_doc base w)) = List.map group_id (wp_groups w)"
  by (simp add: group_ids_def entry_dict_def result_doc_def py_get_def o_def)

lemma checked_doc_parts:
  assumes ok: "workbench_doc_error doc = None" and dk: "dict_ok doc"
  obtains d w where "doc = PDict d" "read_parts d = Inr w" "wf_parts w" "string_ids w"
    "py_get d ''groups'' = PList (List.map PDict (wp_groups w))"
    "or_else (map_of d ''lockedLayerIds'') (PList []) = PList (List.map PStr (wp_locked w))"
    "or_else (map_of d ''membership'') (PDict []) = PDict (List.map (\<lambda>(k, g). (k, PStr g)) (wp_members w))"
proof -
  obtain d where d: "doc = PDict d"
    using ok by (auto simp: workbench_doc_error_def entry_dict_Some split: option.splits)
  obtain vs where vs: "py_get d ''groups'' = PList vs"
    using ok by (auto simp: d workbench_doc_error_def entry_dict_def split: if_splits pyval.splits)
  obtain gs where gs: "all_some doc_group vs = Some gs" and dist: "distinct (List.map fst gs)" and tl: "tail_error d = None"
    using ok by (auto simp: d workbench_doc_error_def entry_dict_def vs Let_def split: if_splits option.splits)
  have "list_all2 (\<lambda>v x. doc_group v = Some x) vs gs" by (rule all_some_Some [OF gs])
  then have g: "vs = List.map PDict (List.map snd gs) \<and> List.map group_id (List.map snd gs) = List.map PStr (List.map fst gs)"
    by (induction rule: list_all2_induct) (auto simp: doc_group_Some group_id_def)
  obtain m where m: "or_else (map_of d ''membership'') (PDict []) = PDict m" "list_all (\<lambda>(k, v). str_value v \<noteq> None) m"
    using tl by (auto simp: tail_error_def split: if_splits pyval.splits)
  obtain ls where ls: "or_else (map_of d ''lockedLayerIds'') (PList []) = PList (List.map PStr ls)"
    using tl by (auto simp: tail_error_def str_items_Some split: if_splits)
  define ms where "ms = List.map (\<lambda>(k, v). (k, py_str v)) m"
  have "List.map ((\<lambda>(k, g). (k, PStr g)) \<circ> (\<lambda>(k, v). (k, py_str v))) m = m"
    using m(2) by (intro map_idI) (auto simp: list_all_iff str_value_Some py_str_def)
  then have mm: "m = List.map (\<lambda>(k, g). (k, PStr g)) ms"
    by (simp add: ms_def)
  let ?w = "\<lparr>wp_groups = List.map snd gs, wp_members = ms, wp_locked = ls\<rparr>"
  have grp: "or_else (map_of d ''groups'') (PList []) = PList (List.map PDict (List.map snd gs))"
    using vs g by (auto simp: py_get_def or_else_def split: option.splits)
  have ids: "List.map group_id (List.map snd gs) = List.map PStr (List.map fst gs)" using g by blast
  have ir: "group_id ` set (List.map snd gs) \<subseteq> range PStr"
    using arg_cong [OF ids, of set] by auto
  have "read_parts d = Inr ?w"
    unfolding read_parts_def grp iterate_list m(1) mm read_members_strings ls sum.case map_filter_dicts
      read_groups [OF ir] by (simp add: py_str_def o_def)
  moreover have "wf_parts ?w"
  proof -
    have "distinct (List.map group_id (List.map snd gs))"
      unfolding ids using dist by (simp add: distinct_map inj_on_def)
    moreover have "distinct (List.map fst g)" if "g \<in> set (List.map snd gs)" for g
    proof -
      have "dict_ok (PList (List.map PDict (List.map snd gs)))"
        using grp dict_ok_get [OF dk [unfolded d], of "''groups''"]
        by (auto simp: or_else_def split: option.splits simp del: dict_ok.simps) simp
      then show ?thesis using that by (auto simp: list_all_iff)
    qed
    moreover have "distinct (List.map fst ms)"
    proof -
      have "dict_ok (PDict m)"
        using m(1) dict_ok_get [OF dk [unfolded d], of "''membership''"]
        by (auto simp: or_else_def split: option.splits simp del: dict_ok.simps) simp
      then show ?thesis by (simp add: ms_def o_def split_def)
    qed
    ultimately show ?thesis by (simp add: wf_parts_def)
  qed
  moreover have "string_ids ?w" using ir by (simp add: string_ids_def ids_of_def)
  ultimately show thesis
    using that [OF d, of ?w] vs g m(1) ls mm by simp
qed

section \<open>Requests\<close>

text \<open>
  C38. Requests and validated patches determine each other: the patch a request validates to is well
  formed (non-empty ids and names, names of at most 200 characters, bounded lists, bounded size, not empty),
  and the request written for a patch validates to that same patch exactly when the patch is well formed.
\<close>

theorem delta_roundtrip:
  "(validate_delta (delta_request n) = Inr n \<longleftrightarrow> wf_delta n) \<and> (validate_delta v = Inr n \<longrightarrow> wf_delta n)"
  using validate_delta_wf validate_delta_request by blast

definition demo_delta :: delta where
  "demo_delta = \<lparr>d_set_groups = [\<lparr>gp_id = ''b'', gp_name = Some ''B2'', gp_collapsed = None, gp_parent = None\<rparr>],
     d_remove = [''a''], d_members = [], d_clear = [], d_locks_add = [''x''], d_locks_remove = []\<rparr>"

lemma delta_roundtrip_witness: "validate_delta (delta_request demo_delta) = Inr demo_delta \<and> wf_delta demo_delta"
proof -
  have "json_bytes (delta_value demo_delta) \<le> 200" by code_simp
  then have "wf_delta demo_delta"
    by (simp add: wf_delta_def demo_delta_def wf_group_patch_def nonempty_all_def MAX_DELTA_LIST_def MAX_DELTA_BYTES_def)
  then show ?thesis
    using delta_roundtrip [of demo_delta "delta_request demo_delta"] by simp
qed

section \<open>Replay\<close>

text \<open>
  Applying a patch to its own result changes nothing, provided that the stored document passed the
  check and that every group the patch sets is still there after its removals.
\<close>

theorem patch_replay_stable:
  assumes ok: "workbench_doc_error doc = None" and dk: "dict_ok doc" and ap: "apply_delta doc d = Inr doc'"
    and keep: "\<forall>p \<in> set (d_set_groups d). PStr (gp_id p) \<in> set (group_ids doc')"
  shows "apply_delta doc' d = Inr doc'"
proof -
  obtain b w where b: "doc = PDict b" "read_parts b = Inr w" "wf_parts w" "string_ids w"
    by (rule checked_doc_parts [OF ok dk])
  obtain w' where w': "apply_parts d w = Inr w'" "doc' = PDict (result_doc b w')"
    using ap b(1,2) by (auto simp: apply_delta_def entry_dict_def split: sum.splits)
  have "string_ids w'"
    using ids_after [OF b(3) w'(1)] b(4) by (auto simp: string_ids_def patched_ids_def)
  moreover have "patched_ids d \<subseteq> ids_of w'"
    using keep by (auto simp: w'(2) group_ids_result patched_ids_def ids_of_def)
  from apply_parts_again [OF b(3) w'(1) this] have "apply_parts d w' = Inr w'" .
  ultimately show ?thesis
    by (simp add: w'(2) apply_delta_def entry_dict_def read_result result_again)
qed

definition demo_doc :: pyval where
  "demo_doc = PDict [(''version'', PInt 5),
     (''groups'', PList [PDict [(''id'', PStr ''a''), (''name'', PStr ''A''), (''parentId'', PNone)],
                        PDict [(''id'', PStr ''b''), (''name'', PStr ''B''), (''parentId'', PStr ''a'')]]),
     (''membership'', PDict [(''l'', PStr ''b'')]), (''lockedLayerIds'', PList []),
     (''lockedComponentIds'', PList [PStr ''legend'']), (''mode'', PStr ''explore'')]"

definition demo_move :: delta where
  "demo_move = \<lparr>d_set_groups = [\<lparr>gp_id = ''b'', gp_name = None, gp_collapsed = None, gp_parent = Some None\<rparr>],
     d_remove = [''a''], d_members = [], d_clear = [], d_locks_add = [''x''], d_locks_remove = []\<rparr>"

lemma demo_doc_ok: "workbench_doc_error demo_doc = None" "dict_ok demo_doc"
proof -
  have "json_bytes demo_doc \<le> 300" by code_simp
  then have "\<not> json_bytes demo_doc > MAX_WORKBENCH_DOC_BYTES" by (simp add: MAX_WORKBENCH_DOC_BYTES_def)
  then show "workbench_doc_error demo_doc = None"
    unfolding workbench_doc_error_def
    by (simp add: demo_doc_def entry_dict_def py_get_def is_version_5_def doc_group_def nonempty_str_def parent_error_def
        depth_error_def climb.simps py_str_def WORKBENCH_GROUP_MAX_DEPTH_def tail_error_def str_value_def str_items_def
        WORKBENCH_MODES_def Let_def)
  show "dict_ok demo_doc" by code_simp
qed

lemma patch_replay_stable_witness:
  "\<exists>doc'. apply_delta demo_doc demo_move = Inr doc' \<and> group_ids doc' = [PStr ''b''] \<and> apply_delta doc' demo_move = Inr doc'"
proof -
  have "case apply_delta demo_doc demo_move of Inl e \<Rightarrow> False | Inr doc' \<Rightarrow> group_ids doc' = [PStr ''b'']"
    by code_simp
  then obtain doc' where d: "apply_delta demo_doc demo_move = Inr doc'" "group_ids doc' = [PStr ''b'']"
    by (auto split: sum.splits)
  from patch_replay_stable [OF demo_doc_ok d(1)] d show ?thesis by (simp add: demo_move_def)
qed

text \<open>
  The proviso is needed: this patch renames a group below the one it removes; its first application
  cascades both away, a replay brings the renamed one back as a root.
\<close>

lemma replay_recreates:
  "case apply_delta demo_doc demo_delta of Inl e \<Rightarrow> False
   | Inr doc1 \<Rightarrow> group_ids doc1 = [] \<and>
      (case apply_delta doc1 demo_delta of Inl e \<Rightarrow> False | Inr doc2 \<Rightarrow> group_ids doc2 = [PStr ''b''])"
  by code_simp

section \<open>What is stored\<close>

definition members_of :: "pyval \<Rightarrow> (string \<times> pyval) list" where
  "members_of doc = (case py_get (or_else (entry_dict doc) []) ''membership'' of PDict m \<Rightarrow> m | _ \<Rightarrow> [])"

definition doc_members_exist :: "pyval \<Rightarrow> bool" where
  "doc_members_exist doc = list_all (\<lambda>x. snd x \<in> set (group_ids doc)) (members_of doc)"

lemma lock_ids_simp:
  "lock_ids_of f (PDict m) = (case py_get m ''workbench'' of PDict wb \<Rightarrow>
     (case or_else (map_of wb f) (PList []) of PList xs \<Rightarrow> List.map_filter nonempty_str xs | _ \<Rightarrow> []) | _ \<Rightarrow> [])"
  by (auto simp: lock_ids_of_def entry_dict_def split: pyval.splits)

lemma map_filter_nonempty: "List.map_filter nonempty_str (List.map PStr xs) = filter (\<lambda>s. s \<noteq> []) xs"
  by (induction xs) (simp_all add: List.map_filter_simps nonempty_str_def)

lemma result_members_exist:
  assumes "wf_parts w" and "apply_parts d w = Inr w'"
    and "py_get doc ''groups'' = PList (List.map PDict (wp_groups w))"
    and mem: "or_else (map_of doc ''membership'') (PDict []) = PDict (List.map (\<lambda>(k, g). (k, PStr g)) (wp_members w))"
    and old: "doc_members_exist (PDict doc)"
  shows "doc_members_exist (PDict (result_doc doc w'))"
proof -
  have gi: "group_ids (PDict doc) = List.map group_id (wp_groups w)"
    by (simp add: group_ids_def entry_dict_def assms(3) o_def)
  have "members_exist w"
  proof (cases "map_of doc ''membership''")
    case None
    then show ?thesis using mem by (simp add: members_exist_def)
  next
    case (Some v)
    then have "members_of (PDict doc) = List.map (\<lambda>(k, g). (k, PStr g)) (wp_members w)"
      using mem by (simp add: members_of_def entry_dict_def py_get_def)
    then show ?thesis
      using old by (auto simp: doc_members_exist_def gi list_all_iff members_exist_def ids_of_def)
  qed
  have "members_of (PDict (result_doc doc w')) = List.map (\<lambda>(k, g). (k, PStr g)) (wp_members w')"
    by (simp add: members_of_def entry_dict_def result_doc_def py_get_def)
  then show ?thesis
    using members_after [OF assms(1,2) \<open>members_exist w\<close>]
    by (auto simp: doc_members_exist_def group_ids_result members_exist_def ids_of_def list_all_iff)
qed

text \<open>
  C37. What a stored patch leaves: the document written is valid, its layer locks are the previous ones
  and the added ones without the removed ones, no removed group is left, every layer sits in an existing
  group if that was so before, and all component locks are gone.
\<close>

theorem patch_stored_effect:
  assumes wb: "py_get m ''workbench'' = PDict doc" and ok: "workbench_doc_error (PDict doc) = None"
    and dk: "dict_ok (PDict doc)" and st: "handle_patch_delta (Some m) request = Stored m'"
  shows "\<exists>d new. validate_delta request = Inr d \<and> workbench_doc_error (PDict new) = None \<and>
    py_get m' ''workbench'' = PDict (AList.update ''_rev'' PNone new) \<and>
    set (locked_layer_ids_of (PDict m')) =
      (set (locked_layer_ids_of (PDict m)) \<union> set (d_locks_add d)) - set (d_locks_remove d) \<and>
    locked_component_ids_of (PDict m') = [] \<and>
    (\<forall>r \<in> set (d_remove d). PStr r \<notin> set (group_ids (PDict new))) \<and>
    (doc_members_exist (PDict doc) \<longrightarrow> doc_members_exist (PDict new))"
proof -
  obtain d where d: "validate_delta request = Inr d"
    using st by (auto simp: handle_patch_delta_def split: sum.splits)
  obtain b w where "PDict doc = PDict b" and b: "read_parts b = Inr w" "wf_parts w" "string_ids w"
    "py_get b ''groups'' = PList (List.map PDict (wp_groups w))"
    "or_else (map_of b ''lockedLayerIds'') (PList []) = PList (List.map PStr (wp_locked w))"
    "or_else (map_of b ''membership'') (PDict []) = PDict (List.map (\<lambda>(k, g). (k, PStr g)) (wp_members w))"
    by (rule checked_doc_parts [OF ok dk])
  then have w: "read_parts doc = Inr w" "wf_parts w"
    "py_get doc ''groups'' = PList (List.map PDict (wp_groups w))"
    "or_else (map_of doc ''lockedLayerIds'') (PList []) = PList (List.map PStr (wp_locked w))"
    "or_else (map_of doc ''membership'') (PDict []) = PDict (List.map (\<lambda>(k, g). (k, PStr g)) (wp_members w))"
    by simp_all
  obtain w' where w': "apply_parts d w = Inr w'"
    using st d w(1) wb by (auto simp: handle_patch_delta_def stored_workbench_def apply_delta_def entry_dict_def
        split: sum.splits delta_error.splits)
  let ?new = "result_doc doc w'"
  have ap: "apply_delta (PDict doc) d = Inr (PDict ?new)"
    by (simp add: apply_delta_def entry_dict_def w(1) w')
  have err: "workbench_doc_error (PDict ?new) = None"
    and m': "m' = AList.update ''workbench'' (PDict (AList.update ''_rev'' PNone ?new)) m"
    using st d wb by (auto simp: handle_patch_delta_def stored_workbench_def ap entry_dict_def split: option.splits)
  have wb': "py_get m' ''workbench'' = PDict (AList.update ''_rev'' PNone ?new)"
    by (simp add: m' py_get_def dict_update_lookup)
  have add: "\<forall>l \<in> set (d_locks_add d). l \<noteq> []"
    using validate_delta_wf [OF d] by (auto simp: wf_delta_def nonempty_all_def list_all_iff)
  have locks: "set (wp_locked w') = (set (wp_locked w) \<union> set (d_locks_add d)) - set (d_locks_remove d)"
    using apply_parts_locks [OF w(2) w'] by simp
  have "set (locked_layer_ids_of (PDict m')) = (set (locked_layer_ids_of (PDict m)) \<union> set (d_locks_add d)) - set (d_locks_remove d)"
    using add locks by (auto simp: locked_layer_ids_of_def lock_ids_simp wb wb' dict_update_lookup result_doc_def
        map_filter_nonempty w(4))
  moreover have "locked_component_ids_of (PDict m') = []"
    by (simp add: locked_component_ids_of_def lock_ids_simp wb' dict_update_lookup result_doc_def List.map_filter_simps)
  moreover have "\<forall>r \<in> set (d_remove d). PStr r \<notin> set (group_ids (PDict ?new))"
    using removed_after [OF w(2) w'] by (simp add: group_ids_result ids_of_def)
  moreover have "doc_members_exist (PDict ?new)" if "doc_members_exist (PDict doc)"
    using w(2) w' w(3,5) that by (rule result_members_exist)
  ultimately show ?thesis using d err wb' by blast
qed

lemma patch_stored_effect_witness:
  "\<exists>m'. handle_patch_delta (Some [(''workbench'', demo_doc)]) (delta_request demo_move) = Stored m' \<and>
     locked_component_ids_of (PDict [(''workbench'', demo_doc)]) = [''legend''] \<and>
     locked_component_ids_of (PDict m') = [] \<and> set (locked_layer_ids_of (PDict m')) = {''x''}"
proof -
  let ?m = "[(''workbench'', demo_doc)]"
  have "json_bytes (delta_value demo_move) \<le> 200" by code_simp
  then have "wf_delta demo_move"
    by (simp add: wf_delta_def demo_move_def wf_group_patch_def nonempty_all_def MAX_DELTA_LIST_def MAX_DELTA_BYTES_def)
  then have v: "validate_delta (delta_request demo_move) = Inr demo_move" by (rule validate_delta_request)
  have "case apply_delta demo_doc demo_move of Inl e \<Rightarrow> False
    | Inr new \<Rightarrow> json_bytes new \<le> 300 \<and> (case entry_dict new of None \<Rightarrow> False | Some d \<Rightarrow>
        tail_error d = None \<and> py_get d ''version'' = PInt 5 \<and>
        py_get d ''groups'' = PList [PDict [(''id'', PStr ''b''), (''name'', PStr ''B''), (''parentId'', PNone)]])"
    by code_simp
  then obtain d where d: "apply_delta demo_doc demo_move = Inr (PDict d)" "json_bytes (PDict d) \<le> 300"
    "tail_error d = None" "py_get d ''version'' = PInt 5"
    "py_get d ''groups'' = PList [PDict [(''id'', PStr ''b''), (''name'', PStr ''B''), (''parentId'', PNone)]]"
    by (auto split: sum.splits option.splits simp: entry_dict_Some)
  have "workbench_doc_error (PDict d) = None"
    using d(2) unfolding workbench_doc_error_def MAX_WORKBENCH_DOC_BYTES_def
    by (simp add: entry_dict_def d(3-5) py_get_def [of "[(_, _), (_, _), (_, _)]"] is_version_5_def doc_group_def
        nonempty_str_def parent_error_def depth_error_def climb.simps WORKBENCH_GROUP_MAX_DEPTH_def Let_def)
  moreover have wb: "stored_workbench (Some ?m) = demo_doc" "py_get ?m ''workbench'' = demo_doc"
    by (simp_all add: stored_workbench_def py_get_def demo_doc_def)
  ultimately obtain m' where m': "handle_patch_delta (Some ?m) (delta_request demo_move) = Stored m'"
    by (simp add: handle_patch_delta_def v d(1))
  have dd: "demo_doc = PDict (or_else (entry_dict demo_doc) [])"
    by (simp add: demo_doc_def entry_dict_def)
  have e: "set (locked_layer_ids_of (PDict ?m)) = {}" "locked_component_ids_of (PDict ?m) = [''legend'']"
    by code_simp+
  from patch_stored_effect [of ?m, OF _ _ _ m'] demo_doc_ok dd wb(2) v e m' show ?thesis
    by (fastforce simp: demo_move_def)
qed

end
