(* ===== verification/Collab_Leases.thy ===== *)
theory Collab_Leases
  imports Py_Value
begin

text \<open>
  Edit leases of the collaboration layer (\<open>app/services/collab/leases.py\<close>): who of the connected clients edits a
  layer or a group. With Redis a session's leases are one hash and every operation is one script there; without it
  they are a dictionary of the process. The time to live of the whole hash, an hour after its last write, removes
  nothing but expired leases and is left out.
\<close>

section \<open>Keys, clients, leases\<close>

definition safe_client :: "string \<Rightarrow> string" where
  "safe_client s = take 120 (filter (\<lambda>c. 32 \<le> char_code c \<and> char_code c \<noteq> 127 \<and> char_code c \<noteq> 34 \<and> char_code c \<noteq> 92) s)"

definition normalize_lock_key :: "string \<Rightarrow> string option" where
  "normalize_lock_key raw =
     (if length raw \<le> 260 \<and> list_ex (\<lambda>p. prefix p raw \<and> length p < length raw) [''layer:'', ''group:'']
      then Some raw else None)"

record edit_lease =
  el_client :: string
  el_label :: string
  el_exp :: time

type_synonym lease_bucket = "(string \<times> edit_lease) list"

definition LEASE_TTL_S :: int where "LEASE_TTL_S = 60 * 1000000"
definition MAX_LEASES_PER_CLIENT :: nat where "MAX_LEASES_PER_CLIENT = 16"
definition FALLBACK_MAX_SESSIONS :: nat where "FALLBACK_MAX_SESSIONS = 256"

definition live_leases :: "time \<Rightarrow> lease_bucket \<Rightarrow> lease_bucket" where
  "live_leases now b = filter (\<lambda>kv. \<not> el_exp (snd kv) < now) b"

definition leases_of :: "string \<Rightarrow> lease_bucket \<Rightarrow> nat" where
  "leases_of client b = length (filter (\<lambda>kv. el_client (snd kv) = client) b)"

datatype lease_answer = Granted | Held_by string string | Client_limit | Capacity | Invalid_lock_key | Redis_unavailable

section \<open>The scripts\<close>

text \<open>
  The scripts store whole seconds, rounded down. They find the client of a lease by a pattern that matches at
  least one character, so an empty client has no leases for them.
\<close>

definition whole_seconds :: "time \<Rightarrow> time" where
  "whole_seconds t = t div 1000000 * 1000000"

definition acquire_script :: "string \<Rightarrow> string \<Rightarrow> string \<Rightarrow> time \<Rightarrow> lease_bucket \<Rightarrow> lease_bucket \<times> lease_answer" where
  "acquire_script key client label now b =
     (let live = live_leases now b;
          mine = (if client = [] then 0 else leases_of client live);
          granted = (AList.update key \<lparr>el_client = client, el_label = label, el_exp = whole_seconds (now + LEASE_TTL_S)\<rparr> live, Granted)
      in case map_of live key of
           Some v \<Rightarrow> if el_client v \<noteq> client then (live, Held_by (el_client v) (el_label v)) else granted
         | None \<Rightarrow> if MAX_LEASES_PER_CLIENT \<le> mine then (live, Client_limit) else granted)"

definition renew_script :: "string \<Rightarrow> string \<Rightarrow> time \<Rightarrow> lease_bucket \<Rightarrow> lease_bucket \<times> bool" where
  "renew_script key client now b = (case map_of b key of
     None \<Rightarrow> (b, False)
   | Some v \<Rightarrow>
       if el_client v = [] \<or> el_client v \<noteq> client then (b, False)
       else if el_exp v < now then (AList.delete key b, False)
       else (AList.update key (v\<lparr>el_exp := whole_seconds (now + LEASE_TTL_S)\<rparr>) b, True))"

definition release_script :: "string \<Rightarrow> string \<Rightarrow> lease_bucket \<Rightarrow> lease_bucket \<times> bool" where
  "release_script key client b = (case map_of b key of
     None \<Rightarrow> (b, False)
   | Some v \<Rightarrow> if el_client v = [] \<or> el_client v \<noteq> client then (b, False) else (AList.delete key b, True))"

section \<open>The two stores\<close>

record lease_world =
  lw_shared :: "(string \<times> lease_bucket) list"
  lw_local :: "(string \<times> lease_bucket) list"

definition shared_bucket :: "string \<Rightarrow> lease_world \<Rightarrow> lease_bucket" where
  "shared_bucket sid w = or_else (map_of (lw_shared w) sid) []"

definition on_shared :: "string \<Rightarrow> (lease_bucket \<Rightarrow> lease_bucket \<times> 'a) \<Rightarrow> lease_world \<Rightarrow> lease_world \<times> 'a" where
  "on_shared sid f w = (case f (shared_bucket sid w) of (b, x) \<Rightarrow> (w\<lparr>lw_shared := AList.update sid b (lw_shared w)\<rparr>, x))"

definition sweep_local :: "string \<Rightarrow> time \<Rightarrow> lease_world \<Rightarrow> lease_world" where
  "sweep_local sid now w = (case map_of (lw_local w) sid of
     None \<Rightarrow> w | Some b \<Rightarrow> w\<lparr>lw_local := AList.update sid (live_leases now b) (lw_local w)\<rparr>)"

definition acquire_in :: "string \<Rightarrow> string \<Rightarrow> string \<Rightarrow> time \<Rightarrow> lease_bucket \<Rightarrow> lease_bucket \<times> lease_answer" where
  "acquire_in key client label now b =
     (let granted = (AList.update key \<lparr>el_client = client, el_label = label, el_exp = now + LEASE_TTL_S\<rparr> b, Granted)
      in case map_of b key of
           Some v \<Rightarrow> if \<not> el_exp v < now \<and> el_client v \<noteq> client then (b, Held_by (el_client v) (el_label v)) else granted
         | None \<Rightarrow> if MAX_LEASES_PER_CLIENT \<le> leases_of client (live_leases now b) then (b, Client_limit) else granted)"

definition acquire_local :: "string \<Rightarrow> string \<Rightarrow> string \<Rightarrow> string \<Rightarrow> time \<Rightarrow> lease_world \<Rightarrow> lease_world \<times> lease_answer" where
  "acquire_local sid key client label now w =
     (let w1 = sweep_local sid now w
      in if map_of (lw_local w1) sid = None \<and> FALLBACK_MAX_SESSIONS \<le> length (lw_local w1) then (w1, Capacity)
         else (case acquire_in key client label now (or_else (map_of (lw_local w1) sid) []) of
                 (b, x) \<Rightarrow> (w1\<lparr>lw_local := AList.update sid b (lw_local w1)\<rparr>, x)))"

definition renew_local :: "string \<Rightarrow> string \<Rightarrow> string \<Rightarrow> time \<Rightarrow> lease_world \<Rightarrow> lease_world \<times> bool" where
  "renew_local sid key client now w =
     (let w1 = sweep_local sid now w; b = or_else (map_of (lw_local w1) sid) []
      in case map_of b key of
           None \<Rightarrow> (w1, False)
         | Some v \<Rightarrow> if el_client v \<noteq> client then (w1, False)
             else (w1\<lparr>lw_local := AList.update sid (AList.update key (v\<lparr>el_exp := now + LEASE_TTL_S\<rparr>) b) (lw_local w1)\<rparr>, True))"

definition release_local :: "string \<Rightarrow> string \<Rightarrow> string \<Rightarrow> lease_world \<Rightarrow> lease_world \<times> bool" where
  "release_local sid key client w =
     (let b = or_else (map_of (lw_local w) sid) []
      in case map_of b key of
           None \<Rightarrow> (w, False)
         | Some v \<Rightarrow> if el_client v \<noteq> client then (w, False)
             else (let b1 = AList.delete key b
                   in (w\<lparr>lw_local := (if b1 = [] then AList.delete sid (lw_local w) else AList.update sid b1 (lw_local w))\<rparr>,
                       True)))"

section \<open>The registry\<close>

text \<open>
  What a call meets: the scripts run; the call fails, after the script took effect or not; Redis is configured but
  not connected; or there is no Redis.
\<close>

datatype lease_backend = Shared | Shared_fails bool | Shared_down | Process_local

datatype lease_error = Lease_backend_unavailable

definition acquire :: "lease_backend \<Rightarrow> string \<Rightarrow> string \<Rightarrow> string \<Rightarrow> string \<Rightarrow> time \<Rightarrow> lease_world \<Rightarrow> lease_world \<times> lease_answer" where
  "acquire be sid lock_key client label now w = (case normalize_lock_key lock_key of
     None \<Rightarrow> (w, Invalid_lock_key)
   | Some key \<Rightarrow>
       (let script = on_shared sid (acquire_script key (safe_client client) (safe_client label) now)
        in case be of
             Shared \<Rightarrow> script w
           | Shared_fails applied \<Rightarrow> (if applied then fst (script w) else w, Redis_unavailable)
           | Shared_down \<Rightarrow> (w, Redis_unavailable)
           | Process_local \<Rightarrow> acquire_local sid key (safe_client client) (safe_client label) now w))"

definition by_script :: "lease_backend \<Rightarrow> (lease_world \<Rightarrow> lease_world \<times> 'a) \<Rightarrow> (lease_world \<Rightarrow> lease_world \<times> 'a) \<Rightarrow>
    lease_world \<Rightarrow> lease_world \<times> (lease_error + 'a)" where
  "by_script be script local_op w = (case be of
     Shared \<Rightarrow> (case script w of (w1, x) \<Rightarrow> (w1, Inr x))
   | Shared_fails applied \<Rightarrow> (if applied then fst (script w) else w, Inl Lease_backend_unavailable)
   | Shared_down \<Rightarrow> (w, Inl Lease_backend_unavailable)
   | Process_local \<Rightarrow> (case local_op w of (w1, x) \<Rightarrow> (w1, Inr x)))"

definition renew :: "lease_backend \<Rightarrow> string \<Rightarrow> string \<Rightarrow> string \<Rightarrow> time \<Rightarrow> lease_world \<Rightarrow> lease_world \<times> (lease_error + bool)" where
  "renew be sid lock_key client now w = (case normalize_lock_key lock_key of
     None \<Rightarrow> (w, Inr False)
   | Some key \<Rightarrow> by_script be (on_shared sid (renew_script key (safe_client client) now))
       (renew_local sid key (safe_client client) now) w)"

definition release :: "lease_backend \<Rightarrow> string \<Rightarrow> string \<Rightarrow> string \<Rightarrow> lease_world \<Rightarrow> lease_world \<times> (lease_error + bool)" where
  "release be sid lock_key client w = (case normalize_lock_key lock_key of
     None \<Rightarrow> (w, Inr False)
   | Some key \<Rightarrow> by_script be (on_shared sid (release_script key (safe_client client)))
       (release_local sid key (safe_client client)) w)"

text \<open>A snapshot lists the live leases; only the store of the process is swept for it.\<close>

definition snapshot_leases :: "lease_backend \<Rightarrow> string \<Rightarrow> time \<Rightarrow> lease_world \<Rightarrow> lease_world \<times> (lease_error + lease_bucket)" where
  "snapshot_leases be sid now w = by_script be (\<lambda>w. (w, live_leases now (shared_bucket sid w)))
     (\<lambda>w. let w1 = sweep_local sid now w in (w1, or_else (map_of (lw_local w1) sid) [])) w"

text \<open>
  A client that disconnects: its live leases are released one by one; an error ends the loop. The number released
  is returned, and an empty dictionary is dropped if there was one.
\<close>

fun release_each :: "lease_backend \<Rightarrow> string \<Rightarrow> string \<Rightarrow> string list \<Rightarrow> nat \<Rightarrow> lease_world \<Rightarrow> lease_world \<times> (lease_error + nat)" where
  "release_each be sid client [] n w = (w, Inr n)"
| "release_each be sid client (k # ks) n w = (case release be sid k client w of
     (w1, Inl e) \<Rightarrow> (w1, Inl e)
   | (w1, Inr done_now) \<Rightarrow> release_each be sid client ks (if done_now then Suc n else n) w1)"

definition release_all :: "lease_backend \<Rightarrow> string \<Rightarrow> string \<Rightarrow> time \<Rightarrow> lease_world \<Rightarrow> lease_world \<times> (lease_error + nat)" where
  "release_all be sid client now w = (case snapshot_leases be sid now w of
     (w1, Inl e) \<Rightarrow> (w1, Inl e)
   | (w1, Inr leases) \<Rightarrow>
       (case release_each be sid (safe_client client)
               (List.map fst (filter (\<lambda>kv. el_client (snd kv) = safe_client client \<and> fst kv \<noteq> []) leases)) 0 w1 of
          (w2, Inr n) \<Rightarrow>
            (if 0 < n \<and> or_else (map_of (lw_local w2) sid) [] = [] then w2\<lparr>lw_local := AList.delete sid (lw_local w2)\<rparr> else w2, Inr n)
        | (w2, Inl e) \<Rightarrow> (w2, Inl e)))"

end
