(* ===== verification/Collab_Lease_Properties.thy ===== *)
theory Collab_Lease_Properties
  imports Collab_Leases
begin

text \<open>
  What edit leases promise: a granted lease excludes all other clients for its term, in both back ends and over
  any run; the two back ends agree; a client has a bounded number of leases; and the store of the process fills
  up with sessions nobody uses.
\<close>

section \<open>Runs\<close>

datatype edit_call =
    Edit_acquire string string string string
  | Edit_renew string string string
  | Edit_release string string string
  | Edit_release_all string string
  | Edit_snapshot string

fun edit_session :: "edit_call \<Rightarrow> string" where
  "edit_session (Edit_acquire sid k c l) = sid"
| "edit_session (Edit_renew sid k c) = sid"
| "edit_session (Edit_release sid k c) = sid"
| "edit_session (Edit_release_all sid c) = sid"
| "edit_session (Edit_snapshot sid) = sid"

fun run_edit :: "lease_backend \<Rightarrow> time \<Rightarrow> edit_call \<Rightarrow> lease_world \<Rightarrow> lease_world" where
  "run_edit be now (Edit_acquire sid k c l) w = fst (acquire be sid k c l now w)"
| "run_edit be now (Edit_renew sid k c) w = fst (renew be sid k c now w)"
| "run_edit be now (Edit_release sid k c) w = fst (release be sid k c w)"
| "run_edit be now (Edit_release_all sid c) w = fst (release_all be sid c now w)"
| "run_edit be now (Edit_snapshot sid) w = fst (snapshot_leases be sid now w)"

definition edit_step :: "lease_world \<Rightarrow> lease_backend \<times> time \<times> edit_call \<Rightarrow> lease_world" where
  "edit_step w op = run_edit (fst op) (fst (snd op)) (snd (snd op)) w"

text \<open>A call by somebody else than the client \<open>h\<close>; a snapshot is nobody's.\<close>

fun others_call :: "string \<Rightarrow> edit_call \<Rightarrow> bool" where
  "others_call h (Edit_acquire sid k c l) = (safe_client c \<noteq> h)"
| "others_call h (Edit_renew sid k c) = (safe_client c \<noteq> h)"
| "others_call h (Edit_release sid k c) = (safe_client c \<noteq> h)"
| "others_call h (Edit_release_all sid c) = (safe_client c \<noteq> h)"
| "others_call h (Edit_snapshot sid) = True"

section \<open>One bucket\<close>

definition held_in :: "string \<Rightarrow> string \<Rightarrow> time \<Rightarrow> lease_bucket \<Rightarrow> bool" where
  "held_in k h until b = (case map_of b k of None \<Rightarrow> False | Some v \<Rightarrow> el_client v = h \<and> until \<le> el_exp v)"

lemma held_live: "held_in k h until b \<Longrightarrow> now \<le> until \<Longrightarrow> held_in k h until (live_leases now b)"
proof (induction b)
  case (Cons kv b)
  then show ?case
    by (cases kv) (auto simp: held_in_def live_leases_def split: if_splits)
qed (simp add: held_in_def)

lemmas lease_lookup = dict_update_lookup dict_delete_lookup

lemma acquire_script_held:
  assumes "held_in k h until b" and "now \<le> until" and "client \<noteq> h"
  shows "held_in k h until (fst (acquire_script key client label now b))"
    and "key = k \<Longrightarrow> snd (acquire_script key client label now b) \<noteq> Granted"
  using held_live [OF assms(1,2)] assms(3)
  by (auto simp: acquire_script_def Let_def held_in_def lease_lookup simp del: map_of_eq_Some_iff split: option.splits if_splits)

lemma renew_script_held:
  assumes "held_in k h until b" and "client \<noteq> h"
  shows "held_in k h until (fst (renew_script key client now b))" and "key = k \<Longrightarrow> \<not> snd (renew_script key client now b)"
  using assms by (auto simp: renew_script_def held_in_def lease_lookup simp del: map_of_eq_Some_iff split: option.splits)

lemma release_script_held:
  assumes "held_in k h until b" and "client \<noteq> h"
  shows "held_in k h until (fst (release_script key client b))" and "key = k \<Longrightarrow> \<not> snd (release_script key client b)"
  using assms by (auto simp: release_script_def held_in_def lease_lookup simp del: map_of_eq_Some_iff split: option.splits)

lemma acquire_in_held:
  assumes "held_in k h until b" and "now \<le> until" and "client \<noteq> h"
  shows "held_in k h until (fst (acquire_in key client label now b))"
    and "key = k \<Longrightarrow> snd (acquire_in key client label now b) \<noteq> Granted"
  using assms by (auto simp: acquire_in_def Let_def held_in_def lease_lookup simp del: map_of_eq_Some_iff split: option.splits if_splits)

section \<open>Both stores\<close>

definition local_bucket :: "string \<Rightarrow> lease_world \<Rightarrow> lease_bucket" where
  "local_bucket sid w = or_else (map_of (lw_local w) sid) []"

definition bucket_at :: "lease_backend \<Rightarrow> string \<Rightarrow> lease_world \<Rightarrow> lease_bucket" where
  "bucket_at be sid w = (if be = Process_local then local_bucket sid w else shared_bucket sid w)"

lemma shared_put [simp]: "shared_bucket x (w\<lparr>lw_shared := AList.update sid b (lw_shared w)\<rparr>) = (if x = sid then b else shared_bucket x w)"
  by (simp add: shared_bucket_def dict_update_lookup)

lemma local_put [simp]: "local_bucket x (w\<lparr>lw_local := AList.update sid b (lw_local w)\<rparr>) = (if x = sid then b else local_bucket x w)"
  by (simp add: local_bucket_def dict_update_lookup)

lemma on_shared_bucket: "shared_bucket x (fst (on_shared sid f w)) = (if x = sid then fst (f (shared_bucket sid w)) else shared_bucket x w)"
  by (simp add: on_shared_def split: prod.splits)

lemma sweep_bucket: "local_bucket x (sweep_local sid now w) = (if x = sid then live_leases now (local_bucket sid w) else local_bucket x w)"
  by (auto simp: sweep_local_def local_bucket_def live_leases_def dict_update_lookup split: option.splits)

lemma sweep_shared: "shared_bucket x (sweep_local sid now w) = shared_bucket x w"
  by (simp add: sweep_local_def shared_bucket_def split: option.splits)

lemma live_twice [simp]: "live_leases now (live_leases now b) = live_leases now b"
  by (simp add: live_leases_def)

definition held_at :: "lease_backend \<Rightarrow> string \<Rightarrow> string \<Rightarrow> string \<Rightarrow> time \<Rightarrow> lease_world \<Rightarrow> bool" where
  "held_at be sid k h until w = held_in k h until (bucket_at be sid w)"

definition same_store :: "lease_backend \<Rightarrow> lease_backend \<Rightarrow> bool" where
  "same_store be be' \<longleftrightarrow> (be = Process_local) = (be' = Process_local)"

lemma same_storeD: "same_store be be' \<Longrightarrow> held_at be sid k h until w = held_at be' sid k h until w"
  by (simp add: same_store_def held_at_def bucket_at_def)

lemma held_on_shared:
  assumes "be \<noteq> Process_local" and "held_at be sid k h until w"
    and "held_in k h until (shared_bucket sid w) \<Longrightarrow> held_in k h until (fst (f (shared_bucket sid w)))"
  shows "held_at be sid k h until (fst (on_shared s f w))"
  using assms by (auto simp: held_at_def bucket_at_def on_shared_bucket)

lemma held_swept:
  assumes "held_at Process_local sid k h until w" and "now \<le> until"
  shows "held_at Process_local sid k h until (sweep_local s now w)"
  using assms held_live by (auto simp: held_at_def bucket_at_def sweep_bucket)

lemma acquire_local_keeps:
  assumes "held_at Process_local sid k h until w" and "now \<le> until" and "client \<noteq> h"
  shows "held_at Process_local sid k h until (fst (acquire_local s key client label now w))"
    and "key = k \<Longrightarrow> s = sid \<Longrightarrow> snd (acquire_local s key client label now w) \<noteq> Granted"
  using held_swept [OF assms(1,2), of s] acquire_in_held [OF _ assms(2,3)]
  by (auto simp: acquire_local_def Let_def held_at_def bucket_at_def local_bucket_def [symmetric] case_prod_beta)

lemma renew_local_keeps:
  assumes "held_at Process_local sid k h until w" and "now \<le> until" and "client \<noteq> h"
  shows "held_at Process_local sid k h until (fst (renew_local s key client now w))"
    and "key = k \<Longrightarrow> s = sid \<Longrightarrow> \<not> snd (renew_local s key client now w)"
  using held_swept [OF assms(1,2), of s] assms(3)
  by (auto simp: renew_local_def Let_def held_at_def bucket_at_def local_bucket_def [symmetric] held_in_def lease_lookup
      simp del: map_of_eq_Some_iff split: option.splits)

lemma local_drop: "local_bucket x (w\<lparr>lw_local := AList.delete sid (lw_local w)\<rparr>) = (if x = sid then [] else local_bucket x w)"
  by (simp add: local_bucket_def lease_lookup)

lemma release_local_keeps:
  assumes "held_at Process_local sid k h until w" and "client \<noteq> h"
  shows "held_at Process_local sid k h until (fst (release_local s key client w))"
    and "key = k \<Longrightarrow> s = sid \<Longrightarrow> \<not> snd (release_local s key client w)"
proof -
  have empty: "\<not> held_in k h until []" by (simp add: held_in_def)
  have other: "held_in k h until b \<Longrightarrow> map_of b key = Some v \<Longrightarrow> el_client v = client \<Longrightarrow> held_in k h until (AList.delete key b)" for b v
    using assms(2) by (auto simp: held_in_def lease_lookup simp del: map_of_eq_Some_iff split: option.splits)
  show "held_at Process_local sid k h until (fst (release_local s key client w))"
    using assms(1) other [of "local_bucket sid w"] empty
    by (auto simp: release_local_def Let_def held_at_def bucket_at_def local_bucket_def [symmetric] local_drop
        simp del: map_of_eq_Some_iff split: option.splits)
  show "key = k \<Longrightarrow> s = sid \<Longrightarrow> \<not> snd (release_local s key client w)"
    using assms by (auto simp: release_local_def Let_def held_at_def bucket_at_def local_bucket_def [symmetric] held_in_def
        simp del: map_of_eq_Some_iff split: option.splits)
qed

section \<open>The operations\<close>

lemma acquire_keeps:
  assumes "held_at be sid k h until w" and "now \<le> until" and "safe_client c \<noteq> h"
  shows "held_at be sid k h until (fst (acquire be s key c l now w))"
    and "normalize_lock_key key = Some k \<Longrightarrow> s = sid \<Longrightarrow> snd (acquire be s key c l now w) \<noteq> Granted"
proof -
  note sc = acquire_script_held [OF _ assms(2,3)]
  have script: "be \<noteq> Process_local \<Longrightarrow> held_at be sid k h until (fst (on_shared s (acquire_script j (safe_client c) (safe_client l) now) w))" for j
    by (rule held_on_shared [OF _ assms(1)]) (auto intro: sc)
  show "held_at be sid k h until (fst (acquire be s key c l now w))"
    using assms(1) script acquire_local_keeps(1) [OF _ assms(2,3)]
    by (cases be) (auto simp: acquire_def Let_def split: option.splits)
  show "normalize_lock_key key = Some k \<Longrightarrow> s = sid \<Longrightarrow> snd (acquire be s key c l now w) \<noteq> Granted"
    using assms(1) sc(2) acquire_local_keeps(2) [OF _ assms(2,3)]
    by (cases be) (auto simp: acquire_def Let_def on_shared_def held_at_def bucket_at_def case_prod_beta)
qed

lemma by_script_keeps:
  assumes "held_at be sid k h until w"
    and "be \<noteq> Process_local \<Longrightarrow> held_at be sid k h until (fst (script w))"
    and "be = Process_local \<Longrightarrow> held_at be sid k h until (fst (local_op w))"
  shows "held_at be sid k h until (fst (by_script be script local_op w))"
  using assms by (cases be) (auto simp: by_script_def split: prod.splits)

lemma by_script_answer:
  "snd (by_script be script local_op w) = Inr x \<Longrightarrow>
   be = Shared \<and> snd (script w) = x \<or> be = Process_local \<and> snd (local_op w) = x"
  by (cases be) (auto simp: by_script_def split: prod.splits)

lemma renew_keeps:
  assumes "held_at be sid k h until w" and "now \<le> until" and "safe_client c \<noteq> h"
  shows "held_at be sid k h until (fst (renew be s key c now w))"
    and "normalize_lock_key key = Some k \<Longrightarrow> s = sid \<Longrightarrow> snd (renew be s key c now w) \<noteq> Inr True"
proof -
  show "held_at be sid k h until (fst (renew be s key c now w))"
    using assms(1)
    by (auto simp: renew_def split: option.splits intro!: by_script_keeps held_on_shared renew_script_held renew_local_keeps assms)
  show "normalize_lock_key key = Some k \<Longrightarrow> s = sid \<Longrightarrow> snd (renew be s key c now w) \<noteq> Inr True"
    using assms(1) renew_script_held(2) [OF _ assms(3)] renew_local_keeps(2) [OF _ assms(2,3)]
    by (auto simp: renew_def on_shared_def held_at_def bucket_at_def case_prod_beta dest!: by_script_answer)
qed

lemma release_keeps:
  assumes "held_at be sid k h until w" and "safe_client c \<noteq> h"
  shows "held_at be sid k h until (fst (release be s key c w))"
    and "normalize_lock_key key = Some k \<Longrightarrow> s = sid \<Longrightarrow> snd (release be s key c w) \<noteq> Inr True"
proof -
  show "held_at be sid k h until (fst (release be s key c w))"
    using assms(1)
    by (auto simp: release_def split: option.splits intro!: by_script_keeps held_on_shared release_script_held release_local_keeps assms)
  show "normalize_lock_key key = Some k \<Longrightarrow> s = sid \<Longrightarrow> snd (release be s key c w) \<noteq> Inr True"
    using assms(1) release_script_held(2) [OF _ assms(2)] release_local_keeps(2) [OF _ assms(2)]
    by (auto simp: release_def on_shared_def held_at_def bucket_at_def case_prod_beta dest!: by_script_answer)
qed

lemma snapshot_keeps:
  assumes "held_at be sid k h until w" and "now \<le> until"
  shows "held_at be sid k h until (fst (snapshot_leases be s now w))"
  unfolding snapshot_leases_def
  by (rule by_script_keeps [OF assms(1)]) (use assms held_swept in \<open>auto simp: Let_def\<close>)

lemma release_each_keeps:
  "held_at be sid k h until w \<Longrightarrow> safe_client c \<noteq> h \<Longrightarrow> held_at be sid k h until (fst (release_each be s c ks n w))"
proof (induction ks arbitrary: n w)
  case (Cons x ks)
  obtain v y where r: "release be s x c w = (v, y)" by fastforce
  with release_keeps(1) [OF Cons.prems, of s x] have "held_at be sid k h until v" by simp
  with Cons r show ?case by (cases y) auto
qed simp

lemma safe_client_safe: "safe_client (safe_client c) = safe_client c"
proof -
  have "filter P (take n (filter P xs)) = take n (filter P xs)" for P n and xs :: string
    by (auto simp: filter_id_conv dest!: in_set_takeD)
  then show ?thesis by (simp add: safe_client_def)
qed

lemma held_dropped:
  assumes "held_at be sid k h until w" and "or_else (map_of (lw_local w) s) [] = []"
  shows "held_at be sid k h until (w\<lparr>lw_local := AList.delete s (lw_local w)\<rparr>)"
  using assms
  by (auto simp: held_at_def bucket_at_def local_drop shared_bucket_def) (simp add: held_in_def local_bucket_def)

lemma release_all_keeps:
  assumes "held_at be sid k h until w" and "now \<le> until" and "safe_client c \<noteq> h"
  shows "held_at be sid k h until (fst (release_all be s c now w))"
proof -
  obtain v y where sn: "snapshot_leases be s now w = (v, y)" by fastforce
  with snapshot_keeps [OF assms(1,2), of s] have v: "held_at be sid k h until v" by simp
  show ?thesis
  proof (cases y)
    case (Inl e)
    with sn v show ?thesis by (simp add: release_all_def)
  next
    case (Inr leases)
    let ?ks = "List.map fst (filter (\<lambda>kv. el_client (snd kv) = safe_client c \<and> fst kv \<noteq> []) leases)"
    obtain u z where el: "release_each be s (safe_client c) ?ks 0 v = (u, z)" by fastforce
    with release_each_keeps [OF v, of "safe_client c" s ?ks 0] assms(3) have u: "held_at be sid k h until u"
      by (simp add: safe_client_safe)
    from sn Inr el u held_dropped [OF u, of s] show ?thesis
      by (cases z) (simp_all add: release_all_def)
  qed
qed

definition others_op :: "lease_backend \<Rightarrow> string \<Rightarrow> time \<Rightarrow> lease_backend \<times> time \<times> edit_call \<Rightarrow> bool" where
  "others_op be h until op \<longleftrightarrow> same_store be (fst op) \<and> fst (snd op) \<le> until \<and> others_call h (snd (snd op))"

interpretation edit_runs: op_system edit_step "held_at be sid k h until" "others_op be h until" for be sid k h until
proof
  fix op w assume "others_op be h until op" and held: "held_at be sid k h until w"
  then have op: "same_store be (fst op)" "fst (snd op) \<le> until" "others_call h (snd (snd op))"
    by (simp_all add: others_op_def)
  from held have "held_at (fst op) sid k h until w" using same_storeD [OF op(1)] by blast
  then have "held_at (fst op) sid k h until (edit_step w op)"
    using op(2,3) unfolding edit_step_def
    by (cases "snd (snd op)") (simp_all add: acquire_keeps(1) renew_keeps(1) release_keeps(1) release_all_keeps snapshot_keeps)
  then show "held_at be sid k h until (edit_step w op)" using same_storeD [OF op(1)] by blast
qed

text \<open>The end of the term a client is granted.\<close>

definition lease_end :: "lease_backend \<Rightarrow> time \<Rightarrow> time" where
  "lease_end be now = (if be = Process_local then now + LEASE_TTL_S else whole_seconds (now + LEASE_TTL_S))"

lemma acquire_grants:
  assumes "acquire be sid key c l now w = (w1, Granted)" and "normalize_lock_key key = Some k"
  shows "held_at be sid k (safe_client c) (lease_end be now) w1"
proof -
  have script: "acquire_script k (safe_client c) (safe_client l) now b = (b1, Granted) \<Longrightarrow>
      held_in k (safe_client c) (whole_seconds (now + LEASE_TTL_S)) b1" for b b1
    by (auto simp: acquire_script_def Let_def held_in_def lease_lookup simp del: map_of_eq_Some_iff split: option.splits if_splits)
  have local_op: "acquire_in k (safe_client c) (safe_client l) now b = (b1, Granted) \<Longrightarrow>
      held_in k (safe_client c) (now + LEASE_TTL_S) b1" for b b1
    by (auto simp: acquire_in_def Let_def held_in_def lease_lookup simp del: map_of_eq_Some_iff split: option.splits if_splits)
  show ?thesis
    using assms
    by (cases be) (auto simp: acquire_def Let_def on_shared_def acquire_local_def held_at_def bucket_at_def lease_end_def
        split: prod.splits if_splits intro: script local_op)
qed

text \<open>
  C13. A granted edit lease excludes everybody else: in either store, over any run of operations of other clients
  on any layers and sessions before its term is over, with scripts that fail before or after they took effect,
  no other client is granted the lease, renews it or gives it back.
\<close>

theorem edit_lease_exclusive:
  assumes "acquire be sid key c l t0 w = (w0, Granted)" and "normalize_lock_key key = Some k"
    and "list_all (others_op be (safe_client c) (lease_end be t0)) ops" and "run_ops edit_step w0 ops = w1"
    and "safe_client d \<noteq> safe_client c" and "same_store be be'" and "now \<le> lease_end be t0"
  shows "snd (acquire be' sid key d m now w1) \<noteq> Granted \<and> snd (renew be' sid key d now w1) \<noteq> Inr True \<and>
    snd (release be' sid key d w1) \<noteq> Inr True"
proof -
  have "held_at be sid k (safe_client c) (lease_end be t0) w1"
    using edit_runs.run_inv [OF assms(3) acquire_grants [OF assms(1,2)]] assms(4) by simp
  then have held: "held_at be' sid k (safe_client c) (lease_end be t0) w1" using same_storeD [OF assms(6)] by blast
  show ?thesis
    using acquire_keeps(2) [OF held assms(7,5,2) refl] renew_keeps(2) [OF held assms(7,5,2) refl]
      release_keeps(2) [OF held assms(5,2) refl] by blast
qed

section \<open>The two stores agree\<close>

lemma live_lookup: "distinct (List.map fst b) \<Longrightarrow> map_of (live_leases now b) k = (case map_of b k of
    None \<Rightarrow> None | Some v \<Rightarrow> if el_exp v < now then None else Some v)"
  by (induction b) (auto simp: live_leases_def map_of_eq_None_iff simp del: map_of_eq_Some_iff split: option.splits)

lemma live_delete: "live_leases now (AList.delete k b) = AList.delete k (live_leases now b)"
  by (simp add: live_leases_def AList.delete_eq conj_commute)

lemma live_update:
  assumes "map_of b k = Some v" and "\<not> el_exp v < now" and "\<not> el_exp v' < now" and "distinct (List.map fst b)"
  shows "live_leases now (AList.update k v' b) = AList.update k v' (live_leases now b)"
  using assms
proof (induction b)
  case (Cons kv b)
  then show ?case by (cases kv) (auto simp: live_leases_def simp del: map_of_eq_Some_iff dest: map_of_SomeD)
qed simp

lemma live_later: "t \<le> now \<Longrightarrow> live_leases now (live_leases t b) = live_leases now b"
  by (auto simp: live_leases_def intro: filter_cong)

text \<open>What the scripts store of a bucket of the process: the same leases, their ends rounded down.\<close>

definition floored :: "lease_bucket \<Rightarrow> lease_bucket" where
  "floored b = List.map (\<lambda>(k, v). (k, v\<lparr>el_exp := whole_seconds (el_exp v)\<rparr>)) b"

lemma floored_lookup: "map_of (floored b) k = map_option (\<lambda>v. v\<lparr>el_exp := whole_seconds (el_exp v)\<rparr>) (map_of b k)"
  by (induction b) (auto simp: floored_def)

lemma floored_parts [simp]:
  "floored (AList.update k v b) = AList.update k (v\<lparr>el_exp := whole_seconds (el_exp v)\<rparr>) (floored b)"
  "floored (AList.delete k b) = AList.delete k (floored b)" "List.map fst (floored b) = List.map fst b" "floored [] = []"
  by (induction b) (auto simp: floored_def AList.delete_eq)

lemma floored_clients:
  "leases_of c (floored b) = leases_of c b"
  "List.map fst (filter (\<lambda>kv. el_client (snd kv) = c \<and> fst kv \<noteq> []) (floored b)) =
    List.map fst (filter (\<lambda>kv. el_client (snd kv) = c \<and> fst kv \<noteq> []) b)"
  by (induction b) (auto simp: floored_def leases_of_def)

lemma whole_below: "whole_seconds t \<le> t"
  by (simp add: whole_seconds_def minus_mod_eq_div_mult [symmetric])

text \<open>The two ends of a lease are told apart only by a call in the last fraction of its last second.\<close>

definition last_fraction :: "time \<Rightarrow> lease_bucket \<Rightarrow> bool" where
  "last_fraction now b = list_ex (\<lambda>kv. whole_seconds (el_exp (snd kv)) < now \<and> now \<le> el_exp (snd kv)) b"

lemma floored_live: "\<not> last_fraction now b \<Longrightarrow> live_leases now (floored b) = floored (live_leases now b)"
proof (induction b)
  case (Cons kv b)
  with whole_below [of "el_exp (snd kv)"] show ?case
    by (cases kv) (auto simp: last_fraction_def live_leases_def floored_def)
qed (simp add: live_leases_def floored_def)

lemma last_fraction_live: "last_fraction now (live_leases t b) \<Longrightarrow> last_fraction now b"
  unfolding last_fraction_def live_leases_def list_ex_iff by fastforce

lemma live_all: "(\<And>kv. kv \<in> set b \<Longrightarrow> now \<le> el_exp (snd kv)) \<Longrightarrow> live_leases now b = b"
  unfolding live_leases_def by (rule filter_True) fastforce

lemma live_ends: "kv \<in> set (live_leases now b) \<Longrightarrow> now \<le> el_exp (snd kv)"
  by (auto simp: live_leases_def)

lemma update_subset: "kv \<in> set (AList.update k v b) \<Longrightarrow> kv = (k, v) \<or> kv \<in> set b"
  by (induction b) (auto split: if_splits)

lemma live_put: "now \<le> el_exp v \<Longrightarrow> live_leases now (AList.update k v (live_leases now b)) = AList.update k v (live_leases now b)"
  by (rule live_all) (auto dest!: update_subset live_ends)

definition keyed_bucket :: "lease_bucket \<Rightarrow> bool" where
  "keyed_bucket b \<longleftrightarrow> distinct (List.map fst b)"

lemma keyed_live: "keyed_bucket b \<Longrightarrow> keyed_bucket (live_leases now b)"
  by (simp add: keyed_bucket_def live_leases_def distinct_map_filter)

lemma keyed_changes: "keyed_bucket b \<Longrightarrow> keyed_bucket (AList.update k v b)" "keyed_bucket b \<Longrightarrow> keyed_bucket (AList.delete k b)"
  by (simp_all add: keyed_bucket_def distinct_update AList.distinct_delete)

text \<open>The buckets of a session agree on the live leases, but for the fraction of their last second.\<close>

definition agree :: "time \<Rightarrow> lease_world \<Rightarrow> lease_world \<Rightarrow> bool" where
  "agree now w v \<longleftrightarrow> (\<forall>sid. live_leases now (shared_bucket sid w) = floored (live_leases now (local_bucket sid v)) \<and>
     keyed_bucket (shared_bucket sid w) \<and> keyed_bucket (local_bucket sid v))"

definition between_seconds :: "time \<Rightarrow> lease_world \<Rightarrow> bool" where
  "between_seconds now v = list_ex (\<lambda>(sid, b). last_fraction now b) (lw_local v)"

lemma local_clear: "\<not> between_seconds now v \<Longrightarrow> \<not> last_fraction now (local_bucket sid v)"
proof (cases "map_of (lw_local v) sid")
  case None
  then show ?thesis by (simp add: local_bucket_def last_fraction_def)
next
  case (Some b)
  assume "\<not> between_seconds now v"
  with map_of_SomeD [OF Some] Some show ?thesis by (fastforce simp: between_seconds_def local_bucket_def list_ex_iff)
qed

lemma agree_later: "agree t w v \<Longrightarrow> t \<le> now \<Longrightarrow> \<not> between_seconds now v \<Longrightarrow> agree now w v"
proof -
  assume a: "agree t w v" "t \<le> now" "\<not> between_seconds now v"
  have "live_leases now (shared_bucket sid w) = floored (live_leases now (local_bucket sid v))" for sid
  proof -
    have "live_leases now (shared_bucket sid w) = live_leases now (floored (live_leases t (local_bucket sid v)))"
      using a(1) live_later [OF a(2)] unfolding agree_def by metis
    moreover have "\<not> last_fraction now (live_leases t (local_bucket sid v))"
      using last_fraction_live local_clear [OF a(3)] by blast
    ultimately show ?thesis by (simp add: floored_live live_later [OF a(2)])
  qed
  with a(1) show "agree now w v" by (simp add: agree_def)
qed

lemma agree_at:
  assumes "agree now w v" and "\<And>x. x \<noteq> sid \<Longrightarrow> shared_bucket x w' = shared_bucket x w"
    and "\<And>x. x \<noteq> sid \<Longrightarrow> live_leases now (local_bucket x v') = live_leases now (local_bucket x v) \<and> keyed_bucket (local_bucket x v')"
    and "live_leases now (shared_bucket sid w') = floored (live_leases now (local_bucket sid v'))"
    and "keyed_bucket (shared_bucket sid w')" and "keyed_bucket (local_bucket sid v')"
  shows "agree now w' v'"
  using assms unfolding agree_def by metis

lemma agreeD:
  "agree now w v \<Longrightarrow> live_leases now (shared_bucket sid w) = floored (live_leases now (local_bucket sid v))"
  "agree now w v \<Longrightarrow> keyed_bucket (shared_bucket sid w)" "agree now w v \<Longrightarrow> keyed_bucket (local_bucket sid v)"
  by (simp_all add: agree_def)

lemma agree_swept: "agree now w v \<Longrightarrow> agree now w (sweep_local sid now v)"
  by (auto simp: agree_def sweep_bucket keyed_live)

lemma whole_end: "now \<le> whole_seconds (now + LEASE_TTL_S)"
proof -
  have "(now + LEASE_TTL_S) mod 1000000 < 1000000" by simp
  then show ?thesis by (simp add: whole_seconds_def minus_mod_eq_div_mult [symmetric] LEASE_TTL_S_def)
qed

lemma acquire_bucket:
  assumes "client \<noteq> []" and "keyed_bucket d" and "live_leases now b = floored (live_leases now d)"
  shows "acquire_script key client label now b =
    (floored (fst (acquire_in key client label now (live_leases now d))), snd (acquire_in key client label now (live_leases now d)))"
proof -
  have "map_of (live_leases now d) key = Some v \<Longrightarrow> \<not> el_exp v < now" for v
    using assms(2) by (auto simp: live_lookup keyed_bucket_def simp del: map_of_eq_Some_iff split: option.splits if_splits)
  with assms(1,3) show ?thesis
    by (auto simp: acquire_in_def acquire_script_def Let_def live_twice floored_lookup floored_clients simp del: map_of_eq_Some_iff
        split: option.splits)
qed

lemma acquire_live:
  "live_leases now (floored (fst (acquire_in key client label now (live_leases now d)))) =
    floored (live_leases now (fst (acquire_in key client label now (live_leases now d))))" if "live_leases now b = floored (live_leases now d)"
proof -
  let ?v = "\<lparr>el_client = client, el_label = label, el_exp = now + LEASE_TTL_S\<rparr>"
  have new: "now \<le> el_exp ?v" by (simp add: LEASE_TTL_S_def)
  have old: "live_leases now (floored (live_leases now d)) = floored (live_leases now d)" by (metis that live_twice)
  have "fst (acquire_in key client label now (live_leases now d)) \<in> {live_leases now d, AList.update key ?v (live_leases now d)}"
    by (auto simp: acquire_in_def Let_def split: option.splits)
  then show ?thesis
    using live_put [OF new, of key d] live_put [of now "?v\<lparr>el_exp := whole_seconds (now + LEASE_TTL_S)\<rparr>" key b] whole_end [of now] that old
    by (auto simp: live_twice)
qed

lemma acquire_keyed: "keyed_bucket b \<Longrightarrow> keyed_bucket (fst (acquire_script key client label now b))"
  by (auto simp: acquire_script_def Let_def keyed_live keyed_changes split: option.splits)

lemma acquire_agree:
  assumes "agree now w v" and "safe_client c \<noteq> []"
    and "map_of (lw_local v) sid \<noteq> None \<or> length (lw_local v) < FALLBACK_MAX_SESSIONS"
  shows "agree now (fst (acquire Shared sid key c l now w)) (fst (acquire Process_local sid key c l now v)) \<and>
    snd (acquire Shared sid key c l now w) = snd (acquire Process_local sid key c l now v)"
proof (cases "normalize_lock_key key")
  case None
  with assms(1) show ?thesis by (simp add: acquire_def)
next
  case (Some k)
  let ?x = "acquire_in k (safe_client c) (safe_client l) now (live_leases now (local_bucket sid v))"
  note ag = agreeD [OF assms(1), of sid]
  have room: "\<not> (map_of (lw_local (sweep_local sid now v)) sid = None \<and> FALLBACK_MAX_SESSIONS \<le> length (lw_local (sweep_local sid now v)))"
    using assms(3) by (auto simp: sweep_local_def lease_lookup simp del: map_of_eq_Some_iff split: option.splits)
  have loc: "acquire Process_local sid key c l now v = ((sweep_local sid now v)\<lparr>lw_local :=
      AList.update sid (fst ?x) (lw_local (sweep_local sid now v))\<rparr>, snd ?x)"
    using Some by (simp add: acquire_def acquire_local_def Let_def if_not_P [OF room] local_bucket_def [symmetric] sweep_bucket case_prod_beta)
  have sh: "acquire Shared sid key c l now w = (w\<lparr>lw_shared := AList.update sid (floored (fst ?x)) (lw_shared w)\<rparr>, snd ?x)"
    using Some acquire_bucket [OF assms(2) ag(3,1)] by (simp add: acquire_def on_shared_def)
  have keyed: "keyed_bucket (floored (fst ?x))"
    using acquire_keyed [OF ag(2)] acquire_bucket [OF assms(2) ag(3,1)] by (metis fst_conv)
  then have keyed': "keyed_bucket (fst ?x)" by (simp add: keyed_bucket_def)
  have "agree now (w\<lparr>lw_shared := AList.update sid (floored (fst ?x)) (lw_shared w)\<rparr>)
      ((sweep_local sid now v)\<lparr>lw_local := AList.update sid (fst ?x) (lw_local (sweep_local sid now v))\<rparr>)"
    by (rule agree_at [OF assms(1), of sid])
      (use agreeD [OF assms(1)] keyed keyed' acquire_live [OF ag(1)] in \<open>simp_all add: sweep_bucket\<close>)
  with loc sh show ?thesis by simp
qed

lemma renew_agree:
  assumes "agree now w v" and "safe_client c \<noteq> []"
  shows "agree now (fst (renew Shared sid key c now w)) (fst (renew Process_local sid key c now v)) \<and>
    snd (renew Shared sid key c now w) = snd (renew Process_local sid key c now v)"
proof (cases "normalize_lock_key key")
  case None
  with assms(1) show ?thesis by (simp add: renew_def)
next
  case (Some k)
  let ?b = "shared_bucket sid w" and ?v = "sweep_local sid now v" and ?d = "live_leases now (local_bucket sid v)"
  note ag = agreeD [OF assms(1), of sid]
  note at = live_lookup [OF ag(2) [unfolded keyed_bucket_def], of now k]
  have here: "map_of (live_leases now ?b) k = map_option (\<lambda>v. v\<lparr>el_exp := whole_seconds (el_exp v)\<rparr>) (map_of ?d k)"
    by (simp add: ag(1) floored_lookup)
  have both: "agree now (w\<lparr>lw_shared := AList.update sid x (lw_shared w)\<rparr>) (?v\<lparr>lw_local := AList.update sid y (lw_local ?v)\<rparr>)"
    if "live_leases now x = floored (live_leases now y)" "keyed_bucket x" "keyed_bucket y" for x y
    by (rule agree_at [OF assms(1), of sid]) (use that agreeD [OF assms(1)] in \<open>simp_all add: sweep_bucket\<close>)
  have swept: "agree now (w\<lparr>lw_shared := AList.update sid x (lw_shared w)\<rparr>) ?v"
    if "live_leases now x = live_leases now ?b" "keyed_bucket x" for x
    by (rule agree_at [OF assms(1), of sid]) (use that agreeD [OF assms(1)] keyed_live in \<open>simp_all add: sweep_bucket\<close>)
  have sh: "renew Shared sid key c now w = (w\<lparr>lw_shared := AList.update sid (fst (renew_script k (safe_client c) now ?b)) (lw_shared w)\<rparr>,
      Inr (snd (renew_script k (safe_client c) now ?b)))"
    using Some by (simp add: renew_def by_script_def on_shared_def case_prod_beta)
  have loc: "renew Process_local sid key c now v = (case map_of ?d k of None \<Rightarrow> (?v, Inr False)
      | Some e \<Rightarrow> if el_client e \<noteq> safe_client c then (?v, Inr False)
        else (?v\<lparr>lw_local := AList.update sid (AList.update k (e\<lparr>el_exp := now + LEASE_TTL_S\<rparr>) ?d) (lw_local ?v)\<rparr>, Inr True))"
    using Some by (simp add: renew_def by_script_def renew_local_def Let_def local_bucket_def [symmetric] sweep_bucket split: option.splits)
  show ?thesis
  proof (cases "map_of ?b k")
    case None
    have "fst (renew_script k (safe_client c) now ?b) = ?b \<and> \<not> snd (renew_script k (safe_client c) now ?b)"
      using None by (simp add: renew_script_def)
    moreover have "map_of ?d k = None" using at None here by simp
    ultimately show ?thesis using swept [OF refl ag(2)] by (simp add: sh loc)
  next
    case e: (Some e)
    show ?thesis
    proof (cases "el_client e = safe_client c")
      case False
      have "fst (renew_script k (safe_client c) now ?b) = ?b \<and> \<not> snd (renew_script k (safe_client c) now ?b)"
        using e False by (simp add: renew_script_def)
      moreover have "map_of ?d k = None \<or> (\<exists>f. map_of ?d k = Some f \<and> el_client f = el_client e)"
        using at e here by (cases "map_of ?d k") (auto simp del: map_of_eq_Some_iff split: if_splits)
      ultimately show ?thesis using swept [OF refl ag(2)] False by (auto simp: sh loc simp del: map_of_eq_Some_iff)
    next
      case c: True
      show ?thesis
      proof (cases "el_exp e < now")
        case True
        have none: "map_of (live_leases now ?b) k = None" using at e True by simp
        then have "AList.delete k (live_leases now ?b) = live_leases now ?b"
          by (simp add: map_of_eq_None_iff del: map_of_eq_Some_iff)
        then have "live_leases now (AList.delete k ?b) = live_leases now ?b" by (simp add: live_delete)
        moreover have "renew_script k (safe_client c) now ?b = (AList.delete k ?b, False)"
          using e c True assms(2) by (simp add: renew_script_def)
        moreover have "map_of ?d k = None" using none here by simp
        ultimately show ?thesis using swept [OF _ keyed_changes(2) [OF ag(2)]] by (simp add: sh loc)
      next
        case False
        obtain f where f: "map_of ?d k = Some f" "e = f\<lparr>el_exp := whole_seconds (el_exp f)\<rparr>"
          using at e here False by (cases "map_of ?d k") (auto simp del: map_of_eq_Some_iff)
        let ?e = "e\<lparr>el_exp := whole_seconds (now + LEASE_TTL_S)\<rparr>" and ?f = "f\<lparr>el_exp := now + LEASE_TTL_S\<rparr>"
        have "live_leases now (AList.update k ?e ?b) = AList.update k ?e (live_leases now ?b)"
          by (rule live_update [OF e False]) (use whole_end [of now] ag(2) in \<open>simp_all add: keyed_bucket_def\<close>)
        also have "\<dots> = floored (AList.update k ?f ?d)" by (simp add: ag(1) f(2))
        also have "AList.update k ?f ?d = live_leases now (AList.update k ?f ?d)"
          by (rule live_put [symmetric]) (simp add: LEASE_TTL_S_def)
        finally have "live_leases now (AList.update k ?e ?b) = floored (live_leases now (AList.update k ?f ?d))" .
        note ag' = both [OF this keyed_changes(1) [OF ag(2)] keyed_changes(1) [OF keyed_live [OF ag(3)]]]
        have "renew_script k (safe_client c) now ?b = (AList.update k ?e ?b, True)"
          using e c False assms(2) by (simp add: renew_script_def)
        then show ?thesis using ag' c f by (simp add: sh loc)
      qed
    qed
  qed
qed

lemma live_without: "live_leases now (AList.delete k b) = live_leases now b" if "map_of (live_leases now b) k = None"
  using that by (simp add: live_delete map_of_eq_None_iff del: map_of_eq_Some_iff)

lemma release_agree:
  assumes "agree now w v" and "safe_client c \<noteq> []"
  shows "agree now (fst (release Shared sid key c w)) (fst (release Process_local sid key c v))"
proof (cases "normalize_lock_key key")
  case None
  with assms(1) show ?thesis by (simp add: release_def)
next
  case (Some k)
  let ?b = "shared_bucket sid w" and ?d = "local_bucket sid v"
  let ?x = "fst (release_script k (safe_client c) ?b)"
  define y where "y = (case map_of ?d k of None \<Rightarrow> ?d | Some e \<Rightarrow> if el_client e \<noteq> safe_client c then ?d else AList.delete k ?d)"
  have sh: "fst (release Shared sid key c w) = w\<lparr>lw_shared := AList.update sid ?x (lw_shared w)\<rparr>"
    using Some by (simp add: release_def by_script_def on_shared_def case_prod_beta)
  have loc: "local_bucket s (fst (release Process_local sid key c v)) = (if s = sid then y else local_bucket s v)" for s
    using Some by (auto simp: release_def by_script_def release_local_def Let_def y_def local_bucket_def [symmetric] local_drop
        split: option.splits)
  note at_b = live_lookup [OF agreeD(2) [OF assms(1), of sid, unfolded keyed_bucket_def], of now k]
  note at_d = live_lookup [OF agreeD(3) [OF assms(1), of sid, unfolded keyed_bucket_def], of now k]
  have "live_leases now ?x = (case map_of (live_leases now ?b) k of None \<Rightarrow> live_leases now ?b
      | Some e \<Rightarrow> if el_client e \<noteq> safe_client c then live_leases now ?b else AList.delete k (live_leases now ?b))"
    using at_b assms(2) live_without [of now ?b k]
    by (auto simp: release_script_def live_delete simp del: map_of_eq_Some_iff split: option.splits if_splits)
  moreover have "live_leases now y = (case map_of (live_leases now ?d) k of None \<Rightarrow> live_leases now ?d
      | Some e \<Rightarrow> if el_client e \<noteq> safe_client c then live_leases now ?d else AList.delete k (live_leases now ?d))"
    using at_d live_without [of now ?d k]
    by (auto simp: y_def live_delete simp del: map_of_eq_Some_iff split: option.splits if_splits)
  ultimately have same: "live_leases now ?x = floored (live_leases now y)"
    unfolding agreeD(1) [OF assms(1)] by (auto simp: floored_lookup simp del: map_of_eq_Some_iff split: option.splits)
  have "keyed_bucket ?x" "keyed_bucket y"
    using agreeD(2,3) [OF assms(1), of sid] keyed_changes(2) by (auto simp: release_script_def y_def split: option.splits)
  with same show ?thesis
    unfolding sh by (intro agree_at [OF assms(1), of sid]) (simp_all add: loc agreeD(3) [OF assms(1)])
qed

lemma release_returns:
  assumes "be \<in> {Shared, Process_local}"
  obtains u y where "release be sid x c w = (u, Inr y)"
  using assms that by (cases "release be sid x c w") (auto simp: release_def by_script_def case_prod_beta split: option.splits)

lemma release_each_agree:
  assumes "safe_client c \<noteq> []"
  shows "agree now w v \<Longrightarrow> agree now (fst (release_each Shared sid c ks n w)) (fst (release_each Process_local sid c ks m v))"
proof (induction ks arbitrary: n m w v)
  case (Cons x ks)
  obtain w1 y where w1: "release Shared sid x c w = (w1, Inr y)" using release_returns [of Shared sid x c w] by blast
  obtain v1 z where v1: "release Process_local sid x c v = (v1, Inr z)" using release_returns [of Process_local sid x c v] by blast
  from release_agree [OF Cons.prems assms, of sid x] have "agree now w1 v1" by (simp add: w1 v1)
  from Cons.IH [OF this] show ?case by (simp add: w1 v1)
qed simp

lemma snapshot_agree:
  assumes "agree now w v"
  obtains v1 ls where "snapshot_leases Shared sid now w = (w, Inr (floored ls))"
    and "snapshot_leases Process_local sid now v = (v1, Inr ls)" and "agree now w v1"
  using agree_swept [OF assms, of sid] that
  by (auto simp: snapshot_leases_def by_script_def Let_def local_bucket_def [symmetric] sweep_bucket agreeD(1) [OF assms])

lemma agree_dropped: "agree now w v \<Longrightarrow> or_else (map_of (lw_local v) sid) [] = [] \<Longrightarrow> agree now w (v\<lparr>lw_local := AList.delete sid (lw_local v)\<rparr>)"
  by (auto simp: agree_def local_drop) (simp_all add: local_bucket_def keyed_bucket_def)

lemma release_all_agree:
  assumes "agree now w v" and "safe_client c \<noteq> []"
  shows "agree now (fst (release_all Shared sid c now w)) (fst (release_all Process_local sid c now v))"
proof -
  from snapshot_agree [OF assms(1), of sid] obtain v1 ls where
    sn: "snapshot_leases Shared sid now w = (w, Inr (floored ls))" "snapshot_leases Process_local sid now v = (v1, Inr ls)" "agree now w v1" .
  let ?ks = "List.map fst (filter (\<lambda>kv. el_client (snd kv) = safe_client c \<and> fst kv \<noteq> []) ls)"
  have each: "agree now (fst (release_each Shared sid (safe_client c) ?ks 0 w)) (fst (release_each Process_local sid (safe_client c) ?ks 0 v1))"
    by (rule release_each_agree [OF _ sn(3)]) (use assms(2) in \<open>simp add: safe_client_safe\<close>)
  have same: "shared_bucket x (w1\<lparr>lw_local := d\<rparr>) = shared_bucket x w1" for x w1 d by (simp add: shared_bucket_def)
  have sh: "agree now w1 z \<Longrightarrow> agree now (w1\<lparr>lw_local := d\<rparr>) z" for w1 d z by (simp add: agree_def same)
  show ?thesis
    using each agree_dropped [of now _ _ sid] by (auto simp: release_all_def sn case_prod_beta floored_clients split: sum.splits intro: sh)
qed

fun named_call :: "edit_call \<Rightarrow> bool" where
  "named_call (Edit_acquire sid k c l) = (safe_client c \<noteq> [])"
| "named_call (Edit_renew sid k c) = (safe_client c \<noteq> [])"
| "named_call (Edit_release sid k c) = (safe_client c \<noteq> [])"
| "named_call (Edit_release_all sid c) = (safe_client c \<noteq> [])"
| "named_call (Edit_snapshot sid) = True"

text \<open>What a client is told when it asks for a lease or renews one.\<close>

definition edit_answer :: "lease_backend \<Rightarrow> time \<Rightarrow> edit_call \<Rightarrow> lease_world \<Rightarrow> (lease_answer + (lease_error + bool)) option" where
  "edit_answer be now call w = (case call of
     Edit_acquire sid k c l \<Rightarrow> Some (Inl (snd (acquire be sid k c l now w)))
   | Edit_renew sid k c \<Rightarrow> Some (Inr (snd (renew be sid k c now w)))
   | _ \<Rightarrow> None)"

fun edit_answers :: "lease_backend \<Rightarrow> lease_world \<Rightarrow> (time \<times> edit_call) list \<Rightarrow>
    (lease_answer + (lease_error + bool)) option list" where
  "edit_answers be w [] = []"
| "edit_answers be w ((now, call) # ops) = edit_answer be now call w # edit_answers be (run_edit be now call w) ops"

text \<open>
  Calls by named clients in the order of time, none of them in the last fraction of a second of a lease; the store of
  the process tells which leases there are.
\<close>

fun timed_from :: "time \<Rightarrow> lease_world \<Rightarrow> (time \<times> edit_call) list \<Rightarrow> bool" where
  "timed_from t v [] = True"
| "timed_from t v ((now, call) # ops) = (t \<le> now \<and> \<not> between_seconds now v \<and> named_call call \<and>
     timed_from now (run_edit Process_local now call v) ops)"

lemma step_agree:
  assumes "agree now w v" and "named_call call" and "length (lw_local v) < FALLBACK_MAX_SESSIONS"
  shows "agree now (run_edit Shared now call w) (run_edit Process_local now call v) \<and>
    edit_answer Shared now call w = edit_answer Process_local now call v"
proof (cases call)
  case (Edit_snapshot sid)
  from snapshot_agree [OF assms(1), of sid] obtain v1 ls where "snapshot_leases Shared sid now w = (w, Inr (floored ls))"
    "snapshot_leases Process_local sid now v = (v1, Inr ls)" "agree now w v1" .
  then show ?thesis by (simp add: Edit_snapshot edit_answer_def)
next
  case (Edit_acquire sid k c l)
  with acquire_agree [OF assms(1), of c sid k l] assms(2,3) show ?thesis by (simp add: edit_answer_def)
next
  case (Edit_renew sid k c)
  with renew_agree [OF assms(1), of c sid k] assms(2) show ?thesis by (simp add: edit_answer_def)
next
  case (Edit_release sid k c)
  with release_agree [OF assms(1), of c sid k] assms(2) show ?thesis by (simp add: edit_answer_def)
next
  case (Edit_release_all sid c)
  with release_all_agree [OF assms(1), of c sid] assms(2) show ?thesis by (simp add: edit_answer_def)
qed

lemma update_length: "length (AList.update k v d) \<le> Suc (length d)" "map_of d k \<noteq> None \<Longrightarrow> length (AList.update k v d) = length d"
  by (induction d) (auto split: if_splits)

lemma sweep_length: "length (lw_local (sweep_local sid now w)) = length (lw_local w)"
  by (auto simp: sweep_local_def update_length(2) simp del: map_of_eq_Some_iff split: option.splits)

lemma release_length: "length (lw_local (fst (release Process_local sid k c w))) \<le> length (lw_local w)"
proof -
  have "map_of (or_else (map_of (lw_local w) sid) []) x = Some e \<Longrightarrow> map_of (lw_local w) sid \<noteq> None" for x e
    by (cases "map_of (lw_local w) sid") auto
  then show ?thesis
    by (auto simp: release_def by_script_def release_local_def Let_def update_length(2) length_delete_le
        simp del: map_of_eq_Some_iff split: option.splits)
qed

lemma release_each_length: "length (lw_local (fst (release_each Process_local sid c ks n w))) \<le> length (lw_local w)"
proof (induction ks arbitrary: n w)
  case (Cons x ks)
  obtain u y where r: "release Process_local sid x c w = (u, y)" by fastforce
  with release_length [of sid x c w] have "length (lw_local u) \<le> length (lw_local w)" by simp
  with r Cons.IH [of _ u] show ?case by (cases y) (auto intro: order_trans)
qed simp

lemma run_length: "length (lw_local (run_edit Process_local now call w)) \<le> Suc (length (lw_local w))"
proof (cases call)
  case (Edit_acquire sid k c l)
  then show ?thesis
    by (auto simp: acquire_def acquire_local_def Let_def case_prod_beta sweep_length update_length(1) [THEN order_trans]
        split: option.splits intro: order_trans [OF update_length(1)])
next
  case (Edit_renew sid k c)
  then show ?thesis
    by (auto simp: renew_def by_script_def renew_local_def Let_def case_prod_beta sweep_length split: option.splits
        intro: order_trans [OF update_length(1)])
next
  case (Edit_release sid k c)
  with release_length [of sid k c w] show ?thesis by simp
next
  case (Edit_release_all sid c)
  have "length (lw_local (fst (release_all Process_local sid c now w))) \<le> length (lw_local w)"
    using release_each_length [of sid "safe_client c" _ 0 "sweep_local sid now w"] sweep_length [of sid now w]
    by (auto simp: release_all_def snapshot_leases_def by_script_def Let_def case_prod_beta split: sum.splits
        intro: order_trans [OF length_delete_le])
  with Edit_release_all show ?thesis by simp
next
  case (Edit_snapshot sid)
  then show ?thesis by (simp add: snapshot_leases_def by_script_def Let_def sweep_length)
qed

text \<open>
  C29. A client cannot tell the two stores apart: over any run of calls by clients with a name, as long as the store
  of the process has room for them and no call falls in the last fraction of a second of a lease (the scripts round
  the end of a lease down), every request for a lease and every renewal is answered the same with Redis and without.
\<close>

theorem lease_back_ends_agree:
  assumes "agree t w v" and "timed_from t v ops" and "length (lw_local v) + length ops \<le> 256"
  shows "edit_answers Shared w ops = edit_answers Process_local v ops"
  using assms
proof (induction ops arbitrary: t w v)
  case (Cons op ops)
  obtain now call where op: "op = (now, call)" by fastforce
  let ?v = "run_edit Process_local now call v"
  from Cons.prems(2) op have c: "t \<le> now" "\<not> between_seconds now v" "named_call call" "timed_from now ?v ops" by simp_all
  have "length (lw_local v) < FALLBACK_MAX_SESSIONS" using Cons.prems(3) by (simp add: FALLBACK_MAX_SESSIONS_def)
  from step_agree [OF agree_later [OF Cons.prems(1) c(1,2)] c(3) this]
  have step: "agree now (run_edit Shared now call w) ?v" "edit_answer Shared now call w = edit_answer Process_local now call v"
    by blast+
  have "length (lw_local ?v) + length ops \<le> 256" using run_length [of now call v] Cons.prems(3) by simp
  from Cons.IH [OF step(1) c(4) this] step(2) op show ?case by simp
qed simp

section \<open>A full registry\<close>

definition all_expired :: "time \<Rightarrow> lease_world \<Rightarrow> bool" where
  "all_expired t w \<longleftrightarrow> (\<forall>sid b k v. map_of (lw_local w) sid = Some b \<longrightarrow> (k, v) \<in> set b \<longrightarrow> el_exp v < t)"

definition stale_registry :: "time \<Rightarrow> (string \<Rightarrow> bool) \<Rightarrow> lease_world \<Rightarrow> bool" where
  "stale_registry t known w \<longleftrightarrow> all_expired t w \<and> FALLBACK_MAX_SESSIONS \<le> length (lw_local w) \<and>
     (\<forall>sid. known sid = (map_of (lw_local w) sid \<noteq> None))"

lemma expired_live: "all_expired t w \<Longrightarrow> t \<le> now \<Longrightarrow> map_of (lw_local w) sid = Some b \<Longrightarrow> live_leases now b = []"
  by (fastforce simp: all_expired_def live_leases_def filter_empty_conv)

lemma stale_sweep: "stale_registry t known w \<Longrightarrow> t \<le> now \<Longrightarrow> stale_registry t known (sweep_local sid now w)"
proof (cases "map_of (lw_local w) sid")
  case (Some b)
  assume st: "stale_registry t known w" and t: "t \<le> now"
  then have "live_leases now b = []" using expired_live Some by (auto simp: stale_registry_def)
  with st Some sweep_length [of sid now w] show ?thesis
    by (auto simp: stale_registry_def all_expired_def sweep_local_def lease_lookup simp del: map_of_eq_Some_iff split: if_splits)
qed (simp add: sweep_local_def)

text \<open>
  Calls that cannot empty the registry: any call for a session outside it, and for those in it renewals, snapshots and
  clients that disconnect. A lease asked for or given back in a known session is not among them.
\<close>

definition idle_call :: "time \<Rightarrow> (string \<Rightarrow> bool) \<Rightarrow> lease_backend \<times> time \<times> edit_call \<Rightarrow> bool" where
  "idle_call t known op \<longleftrightarrow> fst op = Process_local \<and> t \<le> fst (snd op) \<and>
     (case snd (snd op) of Edit_release_all sid c \<Rightarrow> True | Edit_snapshot sid \<Rightarrow> True | Edit_renew sid k c \<Rightarrow> True
      | call \<Rightarrow> \<not> known (edit_session call))"

lemma new_session_refused:
  assumes "stale_registry t known w" and "\<not> known sid"
  shows "acquire Process_local sid key c l now w = (w, if normalize_lock_key key = None then Invalid_lock_key else Capacity)"
proof -
  have "map_of (lw_local w) sid = None" using assms by (auto simp: stale_registry_def)
  with assms(1) show ?thesis
    by (auto simp: acquire_def acquire_local_def Let_def sweep_local_def stale_registry_def split: option.splits)
qed

lemma stale_release_all:
  assumes "stale_registry t known w" and "t \<le> now"
  shows "stale_registry t known (fst (release_all Process_local sid c now w))"
proof -
  have "or_else (map_of (lw_local (sweep_local sid now w)) sid) [] = []"
    using expired_live [OF _ assms(2), of w sid] assms(1)
    by (auto simp: sweep_local_def stale_registry_def lease_lookup simp del: map_of_eq_Some_iff split: option.splits)
  then show ?thesis
    using stale_sweep [OF assms, of sid] by (simp add: release_all_def snapshot_leases_def by_script_def Let_def)
qed

lemma stale_renew:
  assumes "stale_registry t known w" and "t \<le> now"
  shows "stale_registry t known (fst (renew Process_local sid key c now w))"
proof -
  have "or_else (map_of (lw_local (sweep_local sid now w)) sid) [] = []"
    using expired_live [OF _ assms(2), of w sid] assms(1)
    by (auto simp: sweep_local_def stale_registry_def lease_lookup simp del: map_of_eq_Some_iff split: option.splits)
  then show ?thesis
    using stale_sweep [OF assms, of sid] assms(1)
    by (simp add: renew_def by_script_def renew_local_def Let_def split: option.splits)
qed

interpretation idle_registry: op_system edit_step "stale_registry t known" "idle_call t known" for t known
proof
  fix op w assume op: "idle_call t known op" and w: "stale_registry t known w"
  show "stale_registry t known (edit_step w op)"
  proof (cases "snd (snd op)")
    case (Edit_acquire sid k c l)
    with op w new_session_refused [OF w, of sid k c l "fst (snd op)"] show ?thesis by (simp add: idle_call_def edit_step_def)
  next
    case (Edit_renew sid k c)
    with op w stale_renew [OF w] show ?thesis by (simp add: idle_call_def edit_step_def)
  next
    case (Edit_release sid k c)
    with op w have "map_of (lw_local w) sid = None" by (auto simp: idle_call_def stale_registry_def)
    with op w Edit_release show ?thesis
      by (auto simp: idle_call_def edit_step_def release_def by_script_def release_local_def split: option.splits)
  next
    case (Edit_release_all sid c)
    with op w stale_release_all [OF w] show ?thesis by (simp add: idle_call_def edit_step_def)
  next
    case (Edit_snapshot sid)
    with op w stale_sweep [OF w] show ?thesis
      by (simp add: idle_call_def edit_step_def snapshot_leases_def by_script_def Let_def)
  qed
qed

text \<open>
  C30. Sessions whose leases have all expired fill the store of the process: once it knows 256 of them, no client of
  another session is granted a lease, however long ago the leases expired and even after the clients of those
  sessions have disconnected. This lasts as long as nobody asks for a new lease in one of the known sessions or gives
  an expired one back there.
\<close>

theorem expired_sessions_fill_registry:
  assumes "all_expired t w" and "256 \<le> length (lw_local w)"
    and "list_all (idle_call t (\<lambda>s. map_of (lw_local w) s \<noteq> None)) ops" and "run_ops edit_step w ops = w1"
    and "map_of (lw_local w) sid = None" and "normalize_lock_key key = Some k"
  shows "acquire Process_local sid key c l now w1 = (w1, Capacity)"
proof -
  let ?known = "\<lambda>s. map_of (lw_local w) s \<noteq> None"
  have "stale_registry t ?known w" using assms(1,2) by (simp add: stale_registry_def FALLBACK_MAX_SESSIONS_def)
  from idle_registry.run_inv [OF assms(3) this] assms(4) have "stale_registry t ?known w1" by simp
  from new_session_refused [OF this] assms(5,6) show ?thesis by simp
qed

section \<open>Instances\<close>

definition no_leases :: lease_world where
  "no_leases = \<lparr>lw_shared = [], lw_local = []\<rparr>"

definition second :: time where "second = 1000000"

definition first_grant where
  "first_grant = acquire Shared ''s'' ''layer:a'' ''ann'' ''Ann'' 0 no_leases"

definition other_calls :: "(lease_backend \<times> time \<times> edit_call) list" where
  "other_calls = [(Shared, second, Edit_acquire ''s'' ''layer:b'' ''bob'' ''Bob''), (Shared_fails True, second, Edit_release_all ''s'' ''bob''),
     (Shared, 59 * second, Edit_acquire ''s'' ''layer:a'' ''bob'' ''Bob'')]"

lemma edit_lease_exclusive_witness:
  "snd (acquire Shared ''s'' ''layer:a'' ''bob'' ''Bob'' (60 * second) (run_ops edit_step (fst first_grant) other_calls)) \<noteq> Granted"
proof -
  have parts: "acquire Shared ''s'' ''layer:a'' ''ann'' ''Ann'' 0 no_leases = (fst first_grant, Granted)" by code_simp
  have "normalize_lock_key ''layer:a'' = Some ''layer:a''"
    "list_all (others_op Shared (safe_client ''ann'') (lease_end Shared 0)) other_calls"
    "safe_client ''bob'' \<noteq> safe_client ''ann''" "same_store Shared Shared" "60 * second \<le> lease_end Shared 0"
    by code_simp+
  from edit_lease_exclusive [OF parts this(1,2) refl this(3-5), of "''Bob''"] show ?thesis by blast
qed

definition uneven_calls :: "(time \<times> edit_call) list" where
  "uneven_calls = [(1500000, Edit_acquire ''s'' ''layer:a'' ''ann'' ''Ann''), (2700000, Edit_renew ''s'' ''layer:a'' ''bob''),
     (60 * second, Edit_acquire ''s'' ''layer:a'' ''bob'' ''Bob''), (62 * second, Edit_acquire ''s'' ''layer:a'' ''bob'' ''Bob'')]"

lemma lease_back_ends_agree_witness:
  "edit_answers Shared no_leases uneven_calls = edit_answers Process_local no_leases uneven_calls \<and>
   edit_answers Process_local no_leases uneven_calls =
     [Some (Inl Granted), Some (Inr (Inr False)), Some (Inl (Held_by ''ann'' ''Ann'')), Some (Inl Granted)]"
proof -
  have "agree 0 no_leases no_leases"
    by (simp add: agree_def no_leases_def shared_bucket_def local_bucket_def keyed_bucket_def live_leases_def)
  moreover have "timed_from 0 no_leases uneven_calls" by code_simp
  moreover have "length (lw_local no_leases) + length uneven_calls \<le> 256" by (simp add: no_leases_def uneven_calls_def)
  moreover have "edit_answers Process_local no_leases uneven_calls =
     [Some (Inl Granted), Some (Inr (Inr False)), Some (Inl (Held_by ''ann'' ''Ann'')), Some (Inl Granted)]" by code_simp
  ultimately show ?thesis using lease_back_ends_agree [of 0 no_leases no_leases uneven_calls] by simp
qed

definition full_registry :: lease_world where
  "full_registry = \<lparr>lw_shared = [], lw_local = List.map (\<lambda>n. (CHR ''s'' # nat_str n, [])) [0..<256]\<rparr>"

lemma expired_sessions_fill_registry_witness:
  "snd (acquire Process_local ''new'' ''layer:a'' ''ann'' ''Ann'' (60 * second)
     (run_ops edit_step full_registry [(Process_local, second, Edit_release_all ''s1'' ''bob'')])) = Capacity"
proof -
  have "all_expired 0 full_registry"
    by (auto simp: all_expired_def full_registry_def simp del: map_of_eq_Some_iff dest!: map_of_SomeD)
  moreover have "256 \<le> length (lw_local full_registry)" by (simp add: full_registry_def)
  moreover have "list_all (idle_call 0 (\<lambda>s. map_of (lw_local full_registry) s \<noteq> None)) [(Process_local, second, Edit_release_all ''s1'' ''bob'')]"
    by (simp add: idle_call_def second_def)
  moreover have "map_of (lw_local full_registry) ''new'' = None"
    by (auto simp: full_registry_def map_of_eq_None_iff simp del: map_of_eq_Some_iff)
  moreover have "normalize_lock_key ''layer:a'' = Some ''layer:a''" by code_simp
  ultimately show ?thesis using expired_sessions_fill_registry [OF _ _ _ refl] by (metis snd_conv)
qed

end
