(* ===== verification/Interference.thy ===== *)
theory Interference
  imports Prelude
begin

text \<open>
  Programs over a shared database that other processes write to as well. A program runs on a
  world: the database and the number of points passed so far at which other sessions could commit.
  \<open>pause\<close> is such a point: the environment's commits are applied and the count goes up.
  Between two pauses a program runs alone (one transaction's statement). The outcome is an
  error (a raised exception) or a value; an error keeps the world it was raised in, as an
  exception keeps what was committed before it.

  \<open>keeps\<close> is the guarantee of a program (it keeps an invariant and moves the database only
  forward in a relation), \<open>relied\<close> the same of an environment; the locale \<open>forward_order\<close> composes
  guarantees, for every invariant and every preorder.
\<close>

type_synonym 's world = "'s \<times> nat"
type_synonym ('s, 'e, 'a) prog = "'s world \<Rightarrow> ('e + 'a) \<times> 's world"

definition ret :: "'a \<Rightarrow> ('s, 'e, 'a) prog" where
  "ret x w = (Inr x, w)"

definition fail_with :: "'e \<Rightarrow> ('s, 'e, 'a) prog" where
  "fail_with err w = (Inl err, w)"

definition seq :: "('s, 'e, 'a) prog \<Rightarrow> ('a \<Rightarrow> ('s, 'e, 'b) prog) \<Rightarrow> ('s, 'e, 'b) prog" where
  "seq m f w = (case m w of (Inl err, w') \<Rightarrow> (Inl err, w') | (Inr x, w') \<Rightarrow> f x w')"

definition on_error :: "('s, 'e, 'a) prog \<Rightarrow> ('e \<Rightarrow> ('s, 'e, 'a) prog) \<Rightarrow> ('s, 'e, 'a) prog" where
  "on_error m h w = (case m w of (Inl err, w') \<Rightarrow> h err w' | (Inr x, w') \<Rightarrow> (Inr x, w'))"

definition query :: "('s \<Rightarrow> 'a) \<Rightarrow> ('s, 'e, 'a) prog" where
  "query f w = (Inr (f (fst w)), w)"

definition commit :: "('s \<Rightarrow> 's \<times> 'a) \<Rightarrow> ('s, 'e, 'a) prog" where
  "commit f w = (case f (fst w) of (s', x) \<Rightarrow> (Inr x, (s', snd w)))"

definition pause :: "(nat \<Rightarrow> 's \<Rightarrow> 's) \<Rightarrow> ('s, 'e, unit) prog" where
  "pause env w = (Inr (), (env (snd w) (fst w), Suc (snd w)))"

definition tick :: "(nat \<Rightarrow> 'a) \<Rightarrow> ('s, 'e, 'a) prog" where
  "tick clk w = (Inr (clk (snd w)), w)"

lemmas prog_defs = ret_def fail_with_def seq_def on_error_def query_def commit_def pause_def tick_def

lemma prog_steps [simp]:
  "ret x w = (Inr x, w)"
  "fail_with err w = (Inl err, w)"
  "seq (ret y) f1 w = f1 y w"
  "seq (fail_with err) f2 w = (Inl err, w)"
  "seq (query g) f3 w = f3 (g (fst w)) w"
  "seq (pause env) f4 w = f4 () (env (snd w) (fst w), Suc (snd w))"
  "seq (tick clk) f5 w = f5 (clk (snd w)) w"
  "seq (commit u) f6 w = f6 (snd (u (fst w))) (fst (u (fst w)), snd w)"
  by (simp_all add: prog_defs split: prod.splits)

lemma seq_Inr: "seq m f w = (Inr y, w') \<Longrightarrow> \<exists>x w1. m w = (Inr x, w1) \<and> f x w1 = (Inr y, w')"
  by (auto simp: seq_def split: prod.splits sum.splits)

lemma seq_cases:
  assumes "seq m f w = (res, w')"
  obtains (raised) err where "m w = (Inl err, w')" and "res = Inl err"
  | (continued) x w1 where "m w = (Inr x, w1)" and "f x w1 = (res, w')"
  using assms by (auto simp: seq_def split: prod.splits sum.splits)

lemma seq_eq: "m w = (Inr x, w1) \<Longrightarrow> seq m f w = f x w1"
  by (simp add: seq_def)

lemma seq_err: "m w = (Inl err, w1) \<Longrightarrow> seq m f w = (Inl err, w1)"
  by (simp add: seq_def)

definition keeps :: "('s \<Rightarrow> bool) \<Rightarrow> ('s \<Rightarrow> 's \<Rightarrow> bool) \<Rightarrow> ('s, 'e, 'a) prog \<Rightarrow> bool" where
  "keeps good rel m = (\<forall>w. good (fst w) \<longrightarrow> good (fst (snd (m w))) \<and> rel (fst w) (fst (snd (m w))))"

lemma keepsI:
  "(\<And>s k. good s \<Longrightarrow> good (fst (snd (m (s, k)))) \<and> rel s (fst (snd (m (s, k))))) \<Longrightarrow> keeps good rel m"
  by (simp add: keeps_def)

lemma keepsD:
  "keeps good rel m \<Longrightarrow> good s \<Longrightarrow> m (s, k) = (res, (s', k')) \<Longrightarrow> good s' \<and> rel s s'"
  unfolding keeps_def by (metis fst_conv snd_conv)

text \<open>The guarantee from one database: what a program does after it read \<open>s\<close>.\<close>

definition keeps_at :: "('s \<Rightarrow> bool) \<Rightarrow> ('s \<Rightarrow> 's \<Rightarrow> bool) \<Rightarrow> ('s, 'e, 'a) prog \<Rightarrow> 's \<Rightarrow> bool" where
  "keeps_at good rel m s = (\<forall>k. good (fst (snd (m (s, k)))) \<and> rel s (fst (snd (m (s, k)))))"

lemma keeps_iff_at: "keeps good rel m \<longleftrightarrow> (\<forall>s. good s \<longrightarrow> keeps_at good rel m s)"
  by (auto simp: keeps_def keeps_at_def)

lemma keeps_atI: "(\<And>s. good s \<Longrightarrow> keeps_at good rel m s) \<Longrightarrow> keeps good rel m"
  by (simp add: keeps_iff_at)

lemma keeps_at: "keeps good rel m \<Longrightarrow> good s \<Longrightarrow> keeps_at good rel m s"
  by (simp add: keeps_iff_at)

lemma keeps_at_query: "keeps_at good rel (f (q s)) s \<Longrightarrow> keeps_at good rel (seq (query q) f) s"
  by (simp add: keeps_at_def)

lemma keeps_at_tick: "(\<And>x. keeps_at good rel (f x) s) \<Longrightarrow> keeps_at good rel (seq (tick c) f) s"
  by (simp add: keeps_at_def)

definition relied :: "('s \<Rightarrow> bool) \<Rightarrow> ('s \<Rightarrow> 's \<Rightarrow> bool) \<Rightarrow> (nat \<Rightarrow> 's \<Rightarrow> 's) \<Rightarrow> bool" where
  "relied good rel env = (\<forall>k s. good s \<longrightarrow> good (env k s) \<and> rel s (env k s))"

lemma reliedD: "relied good rel env \<Longrightarrow> good s \<Longrightarrow> good (env k s) \<and> rel s (env k s)"
  by (simp add: relied_def)

locale forward_order =
  fixes good :: "'s \<Rightarrow> bool"
    and rel :: "'s \<Rightarrow> 's \<Rightarrow> bool"
  assumes rel_refl: "rel s s"
    and rel_trans: "rel a b \<Longrightarrow> rel b c \<Longrightarrow> rel a c"
begin

lemma relied_idle: "relied good rel (\<lambda>k s. s)"
  by (simp add: relied_def rel_refl)

lemma keeps_ret: "keeps good rel (ret x)"
  by (simp add: keeps_def rel_refl)

lemma keeps_fail: "keeps good rel (fail_with err)"
  by (simp add: keeps_def rel_refl)

lemma keeps_query: "keeps good rel (query f)"
  by (simp add: keeps_def query_def rel_refl)

lemma keeps_tick: "keeps good rel (tick f)"
  by (simp add: keeps_def tick_def rel_refl)

lemma keeps_pause: "relied good rel env \<Longrightarrow> keeps good rel (pause env)"
  by (simp add: keeps_def pause_def relied_def)

lemma keeps_seq:
  assumes "keeps good rel m" and "\<And>x. keeps good rel (f x)"
  shows "keeps good rel (seq m f)"
proof (rule keepsI)
  fix s k assume i: "good s"
  obtain res s1 k1 where m: "m (s, k) = (res, (s1, k1))" by (cases "m (s, k)") auto
  note first = keepsD [OF assms(1) i m]
  show "good (fst (snd (seq m f (s, k)))) \<and> rel s (fst (snd (seq m f (s, k))))"
  proof (cases res)
    case (Inl err)
    then show ?thesis using m first by (simp add: seq_def)
  next
    case (Inr x)
    obtain res2 s2 k2 where f: "f x (s1, k1) = (res2, (s2, k2))" by (cases "f x (s1, k1)") auto
    have "good s2 \<and> rel s1 s2" using keepsD [OF assms(2) _ f] first by simp
    then show ?thesis using m f first Inr rel_trans by (auto simp: seq_def)
  qed
qed

lemma keeps_on_error:
  assumes "keeps good rel m" and "\<And>err. keeps good rel (h err)"
  shows "keeps good rel (on_error m h)"
proof (rule keepsI)
  fix s k assume i: "good s"
  obtain res s1 k1 where m: "m (s, k) = (res, (s1, k1))" by (cases "m (s, k)") auto
  note first = keepsD [OF assms(1) i m]
  show "good (fst (snd (on_error m h (s, k)))) \<and> rel s (fst (snd (on_error m h (s, k))))"
  proof (cases res)
    case (Inr x)
    then show ?thesis using m first by (simp add: on_error_def)
  next
    case (Inl err)
    obtain res2 s2 k2 where f: "h err (s1, k1) = (res2, (s2, k2))" by (cases "h err (s1, k1)") auto
    have "good s2 \<and> rel s1 s2" using keepsD [OF assms(2) _ f] first by simp
    then show ?thesis using m f first Inl rel_trans by (auto simp: on_error_def)
  qed
qed

lemma keeps_commit:
  assumes "\<And>s. good s \<Longrightarrow> good (fst (g s)) \<and> rel s (fst (g s))"
  shows "keeps good rel (commit g)"
proof (rule keepsI)
  fix s k assume "good s"
  from assms [OF this]
  show "good (fst (snd (commit g (s, k)))) \<and> rel s (fst (snd (commit g (s, k))))"
    by (simp add: commit_def case_prod_beta)
qed

text \<open>
  The shape of every compare-and-set: other sessions commit, then one statement whose effect is
  judged in the state they leave.
\<close>

lemma keeps_at_pause:
  assumes "relied good rel env" and "good s"
    and "\<And>k. good (env k s) \<Longrightarrow> rel s (env k s) \<Longrightarrow> keeps_at good rel (f ()) (env k s)"
  shows "keeps_at good rel (seq (pause env) f) s"
  unfolding keeps_at_def
proof
  fix k
  from reliedD [OF assms(1,2)] have "good (env k s)" "rel s (env k s)" by blast+
  moreover from assms(3) [OF this] have "good (fst (snd (f () (env k s, Suc k))))"
      "rel (env k s) (fst (snd (f () (env k s, Suc k))))"
    by (simp_all add: keeps_at_def)
  ultimately show "good (fst (snd (seq (pause env) f (s, k)))) \<and> rel s (fst (snd (seq (pause env) f (s, k))))"
    by (auto intro: rel_trans)
qed

lemma keeps_at_commit:
  assumes "good (fst (g s)) \<and> rel s (fst (g s))" and "\<And>x. keeps good rel (f x)"
  shows "keeps_at good rel (seq (commit g) f) s"
  unfolding keeps_at_def
proof
  fix k
  obtain res s2 k2 where run: "f (snd (g s)) (fst (g s), k) = (res, (s2, k2))" by (metis surj_pair)
  have "good s2 \<and> rel (fst (g s)) s2" using keepsD [OF assms(2) _ run] assms(1) by blast
  then show "good (fst (snd (seq (commit g) f (s, k)))) \<and> rel s (fst (snd (seq (commit g) f (s, k))))"
    using run assms(1) rel_trans by auto
qed

lemma keeps_if: "(c \<Longrightarrow> keeps good rel a) \<Longrightarrow> (\<not> c \<Longrightarrow> keeps good rel b) \<Longrightarrow> keeps good rel (if c then a else b)"
  by simp

lemma keeps_option:
  "keeps good rel a \<Longrightarrow> (\<And>y. x = Some y \<Longrightarrow> keeps good rel (b y)) \<Longrightarrow>
   keeps good rel (case x of None \<Rightarrow> a | Some y \<Rightarrow> b y)"
  by (cases x) simp_all

lemma keeps_sum:
  "(\<And>y. x = Inl y \<Longrightarrow> keeps good rel (a y)) \<Longrightarrow> (\<And>y. x = Inr y \<Longrightarrow> keeps good rel (b y)) \<Longrightarrow>
   keeps good rel (case x of Inl y \<Rightarrow> a y | Inr y \<Rightarrow> b y)"
  by (cases x) simp_all

lemma keeps_let: "(\<And>y. y = x \<Longrightarrow> keeps good rel (f y)) \<Longrightarrow> keeps good rel (let y = x in f y)"
  by simp

lemmas keeps_intros = keeps_ret keeps_fail keeps_query keeps_tick keeps_pause keeps_seq keeps_on_error
  keeps_if keeps_option keeps_sum

end

end
