(* ===== verification/Mission_Contracts.thy ===== *)
theory Mission_Contracts
  imports Py_Value
begin

text \<open>
  The closed vocabulary of the mission runtime
  (\<open>app/services/mission_runtime/contracts.py\<close>): mission states and their transition table,
  operation and recovery classes, the bounded reference lists, the resource budget, frontiers,
  checkpoints and the receipts of swarm tasks. Pydantic validators of mode \<open>before\<close> are the
  smart constructors \<open>mk_frontier\<close> and \<open>mk_receipt\<close>. Amounts of resources are rationals
  (exact, where the code has doubles); timestamps are microseconds.
\<close>

section \<open>States\<close>

datatype mission_state = MS_Created | MS_Planning | MS_Running | MS_Waiting_dependency
  | MS_Partially_complete | MS_Suspended | MS_Recovering | MS_Complete | MS_Failed | MS_Cancelled

definition mission_states :: "mission_state list" where
  "mission_states = [MS_Created, MS_Planning, MS_Running, MS_Waiting_dependency,
     MS_Partially_complete, MS_Suspended, MS_Recovering, MS_Complete, MS_Failed, MS_Cancelled]"

fun state_value :: "mission_state \<Rightarrow> string" where
  "state_value MS_Created = ''created''"
| "state_value MS_Planning = ''planning''"
| "state_value MS_Running = ''running''"
| "state_value MS_Waiting_dependency = ''waiting_dependency''"
| "state_value MS_Partially_complete = ''partially_complete''"
| "state_value MS_Suspended = ''suspended''"
| "state_value MS_Recovering = ''recovering''"
| "state_value MS_Complete = ''complete''"
| "state_value MS_Failed = ''failed''"
| "state_value MS_Cancelled = ''cancelled''"

text \<open>\<open>MissionState(text)\<close>: \<open>None\<close> is the \<open>ValueError\<close>.\<close>

definition state_of :: "string \<Rightarrow> mission_state option" where
  "state_of s = List.find (\<lambda>x. state_value x = s) mission_states"

definition mission_terminal_states :: "mission_state list" where
  "mission_terminal_states = [MS_Complete, MS_Failed, MS_Cancelled]"

definition mission_active_states :: "mission_state list" where
  "mission_active_states = [MS_Created, MS_Planning, MS_Running, MS_Waiting_dependency,
     MS_Partially_complete, MS_Suspended, MS_Recovering]"

fun mission_transitions :: "mission_state \<Rightarrow> mission_state list" where
  "mission_transitions MS_Created = [MS_Planning, MS_Running, MS_Cancelled, MS_Recovering]"
| "mission_transitions MS_Planning =
     [MS_Running, MS_Suspended, MS_Failed, MS_Cancelled, MS_Recovering]"
| "mission_transitions MS_Running =
     [MS_Waiting_dependency, MS_Partially_complete, MS_Suspended, MS_Recovering, MS_Complete,
      MS_Failed, MS_Cancelled]"
| "mission_transitions MS_Waiting_dependency =
     [MS_Running, MS_Suspended, MS_Recovering, MS_Failed, MS_Cancelled]"
| "mission_transitions MS_Partially_complete =
     [MS_Running, MS_Suspended, MS_Complete, MS_Failed, MS_Cancelled, MS_Recovering]"
| "mission_transitions MS_Suspended = [MS_Running, MS_Recovering, MS_Cancelled, MS_Failed]"
| "mission_transitions MS_Recovering =
     [MS_Running, MS_Partially_complete, MS_Waiting_dependency, MS_Suspended, MS_Complete,
      MS_Failed, MS_Cancelled]"
| "mission_transitions MS_Complete = []"
| "mission_transitions MS_Failed = []"
| "mission_transitions MS_Cancelled = []"

definition mission_transition_allowed :: "mission_state \<Rightarrow> mission_state \<Rightarrow> bool" where
  "mission_transition_allowed cur dest = (dest \<in> set (mission_transitions cur))"

definition mission_terminal :: "mission_state \<Rightarrow> bool" where
  "mission_terminal s = (s \<in> set mission_terminal_states)"

interpretation missions: transition_table mission_transitions mission_terminal
proof
  show "mission_terminal s \<Longrightarrow> mission_transitions s = []" for s
    by (cases s) (simp_all add: mission_terminal_def mission_terminal_states_def)
  show "s \<notin> set (mission_transitions s)" for s by (cases s) simp_all
qed

lemma state_of_value [simp]: "state_of (state_value s) = Some s"
  by (cases s) (simp_all add: state_of_def mission_states_def)

lemma terminal_or_active:
  "s \<in> set mission_active_states \<longleftrightarrow> \<not> mission_terminal s"
  by (cases s) (simp_all add: mission_active_states_def mission_terminal_def mission_terminal_states_def)

lemma transition_from_terminal: "mission_terminal s \<Longrightarrow> \<not> mission_transition_allowed s t"
  by (simp add: mission_transition_allowed_def missions.absorbing_stuck)

lemma enter_recovering_allowed:
  "\<not> mission_terminal s \<Longrightarrow> s \<noteq> MS_Recovering \<Longrightarrow> mission_transition_allowed s MS_Recovering"
  by (cases s)
    (simp_all add: mission_transition_allowed_def mission_terminal_def mission_terminal_states_def)

section \<open>Operation and recovery classes\<close>

datatype operation_class = OC_Pure | OC_Idempotent | OC_Repeatable | OC_Destructive_at_most_once
  | OC_Compensatable

text \<open>\<open>(side_effect or "pure").strip().lower()\<close> and the branches in their order.\<close>

definition operation_class_from_side_effect :: "string \<Rightarrow> operation_class" where
  "operation_class_from_side_effect side_effect =
     (let se = lower (strip (if side_effect = [] then ''pure'' else side_effect))
      in if se = ''destructive'' then OC_Destructive_at_most_once
         else if se = ''derived_external'' then OC_Idempotent
         else if se = ''compensatable'' then OC_Compensatable
         else if se = ''repeatable'' then OC_Repeatable
         else if se = ''idempotent'' then OC_Idempotent
         else OC_Pure)"

datatype recovery_class = RC_Completed | RC_Running_owner_dead | RC_Retryable_failure
  | RC_Non_retryable_failure | RC_Destructive_unknown | RC_Waiting_external | RC_Cancelled

datatype task_state = TS_Pending | TS_Ready | TS_Running | TS_Succeeded | TS_Failed | TS_Skipped
  | TS_Cancelled | TS_Unresolved

section \<open>Bounded lists of references\<close>

definition MAX_REFS :: nat where "MAX_REFS = 64"
definition MAX_SESSIONS :: nat where "MAX_SESSIONS = 16"
definition MAX_CHECKPOINTS_RING :: nat where "MAX_CHECKPOINTS_RING = 8"
definition MAX_FRONTIER :: nat where "MAX_FRONTIER = 64"
definition MAX_GOAL_CHARS :: nat where "MAX_GOAL_CHARS = 2000"
definition MAX_SUMMARY_CHARS :: nat where "MAX_SUMMARY_CHARS = 400"
definition MAX_CHECKPOINT_BYTES :: nat where "MAX_CHECKPOINT_BYTES = 16 * 1024"
definition MAX_SWARM_TASKS :: nat where "MAX_SWARM_TASKS = 48"

lemmas mission_bounds = MAX_REFS_def MAX_SESSIONS_def MAX_CHECKPOINTS_RING_def MAX_FRONTIER_def
  MAX_GOAL_CHARS_def MAX_SUMMARY_CHARS_def MAX_CHECKPOINT_BYTES_def MAX_SWARM_TASKS_def

fun clamp_refs_loop :: "string list \<Rightarrow> string list \<Rightarrow> string list" where
  "clamp_refs_loop out [] = out"
| "clamp_refs_loop out (r # rs) =
     (let s = strip r
      in if s = [] then clamp_refs_loop out rs
         else (let out' = (if s \<in> set out then out else out @ [s])
               in if length out' \<ge> MAX_REFS then out' else clamp_refs_loop out' rs))"

definition clamp_refs :: "string list \<Rightarrow> string list" where
  "clamp_refs refs = clamp_refs_loop [] refs"

lemma clamp_refs_loop_inv:
  "distinct out \<Longrightarrow> [] \<notin> set out \<Longrightarrow> length out < MAX_REFS \<Longrightarrow>
   distinct (clamp_refs_loop out rs) \<and> [] \<notin> set (clamp_refs_loop out rs)
   \<and> length (clamp_refs_loop out rs) \<le> MAX_REFS"
  by (induction out rs rule: clamp_refs_loop.induct) (auto simp: Let_def)

section \<open>The resource budget\<close>

type_synonym amounts = "(string \<times> rat) list"

record resource_budget =
  rb_quota :: amounts
  rb_consumed :: amounts
  rb_reserved :: amounts
  rb_retry_cost :: amounts

definition empty_budget :: resource_budget where
  "empty_budget = \<lparr>rb_quota = [], rb_consumed = [], rb_reserved = [], rb_retry_cost = []\<rparr>"

definition amount_at :: "amounts \<Rightarrow> string \<Rightarrow> rat" where
  "amount_at d k = or_else (map_of d k) 0"

definition budget_charge :: "string \<Rightarrow> rat \<Rightarrow> bool \<Rightarrow> resource_budget \<Rightarrow> resource_budget" where
  "budget_charge dm amount retry b =
     (if amount \<le> 0 then b
      else let key = take 64 dm;
               b1 = b\<lparr>rb_consumed := AList.update key (amount_at (rb_consumed b) key + amount) (rb_consumed b)\<rparr>
           in if retry
              then b1\<lparr>rb_retry_cost := AList.update key (amount_at (rb_retry_cost b1) key + amount) (rb_retry_cost b1)\<rparr>
              else b1)"

definition budget_release :: "string \<Rightarrow> rat \<Rightarrow> resource_budget \<Rightarrow> resource_budget" where
  "budget_release dm amount b =
     (let key = take 64 dm; nxt = max 0 (amount_at (rb_reserved b) key - amount)
      in if nxt = 0 then b\<lparr>rb_reserved := AList.delete key (rb_reserved b)\<rparr>
         else b\<lparr>rb_reserved := AList.update key nxt (rb_reserved b)\<rparr>)"

definition budget_reserve :: "string \<Rightarrow> rat \<Rightarrow> resource_budget \<Rightarrow> resource_budget" where
  "budget_reserve dm amount b =
     (if amount \<le> 0 then b
      else let key = take 64 dm
           in b\<lparr>rb_reserved := AList.update key (amount_at (rb_reserved b) key + amount) (rb_reserved b)\<rparr>)"

definition budget_exhausted :: "resource_budget \<Rightarrow> string list" where
  "budget_exhausted b =
     map fst (filter (\<lambda>(dm, limit). \<not> limit \<le> 0 \<and>
        amount_at (rb_consumed b) dm + amount_at (rb_reserved b) dm \<ge> limit) (rb_quota b))"

lemma amount_at_update [simp]:
  "amount_at (AList.update k v d) k' = (if k' = k then v else amount_at d k')"
  by (simp add: amount_at_def dict_update_lookup)

lemma amount_at_delete [simp]:
  "amount_at (AList.delete k d) k' = (if k' = k then 0 else amount_at d k')"
  by (simp add: amount_at_def dict_delete_lookup)

lemma consumed_charge:
  "amount_at (rb_consumed (budget_charge dm amount retry b)) k =
     amount_at (rb_consumed b) k + (if k = take 64 dm then max 0 amount else 0)"
  by (simp add: budget_charge_def Let_def max_def)

lemma reserved_release:
  "amount_at (rb_reserved (budget_release dm amount b)) k =
     (if k = take 64 dm then max 0 (amount_at (rb_reserved b) k - amount) else amount_at (rb_reserved b) k)"
  by (simp add: budget_release_def Let_def)

lemma reserved_reserve:
  "amount_at (rb_reserved (budget_reserve dm amount b)) k =
     amount_at (rb_reserved b) k + (if k = take 64 dm then max 0 amount else 0)"
  by (simp add: budget_reserve_def Let_def max_def)

lemma budget_other_fields [simp]:
  "rb_quota (budget_charge dm amount retry b) = rb_quota b"
  "rb_reserved (budget_charge dm amount retry b) = rb_reserved b"
  "rb_quota (budget_release dm amount b) = rb_quota b"
  "rb_consumed (budget_release dm amount b) = rb_consumed b"
  "rb_retry_cost (budget_release dm amount b) = rb_retry_cost b"
  "rb_quota (budget_reserve dm amount b) = rb_quota b"
  "rb_consumed (budget_reserve dm amount b) = rb_consumed b"
  by (simp_all add: budget_charge_def budget_release_def budget_reserve_def Let_def)

section \<open>Failure, recovery, frontier, references\<close>

record mission_failure =
  mf_error_code :: string
  mf_detail :: string
  mf_recovery_class :: string
  mf_at :: time

definition empty_failure :: mission_failure where
  "empty_failure = \<lparr>mf_error_code = [], mf_detail = [], mf_recovery_class = [], mf_at = 0\<rparr>"

record mission_recovery =
  rv_attempt :: int
  rv_last_checkpoint_id :: string
  rv_last_checkpoint_at :: time
  rv_last_recovery_at :: time
  rv_blocked_reason :: string
  rv_unresolved_ops :: "string list"

definition empty_recovery :: mission_recovery where
  "empty_recovery = \<lparr>rv_attempt = 0, rv_last_checkpoint_id = [], rv_last_checkpoint_at = 0,
     rv_last_recovery_at = 0, rv_blocked_reason = [], rv_unresolved_ops = []\<rparr>"

record mission_frontier =
  fr_completed :: "string list"
  fr_running :: "string list"
  fr_pending :: "string list"
  fr_failed :: "string list"
  fr_blocked :: "string list"

definition empty_frontier :: mission_frontier where
  "empty_frontier = \<lparr>fr_completed = [], fr_running = [], fr_pending = [], fr_failed = [], fr_blocked = []\<rparr>"

definition frontier_bound :: "string list \<Rightarrow> string list" where
  "frontier_bound v = map (take 96) (take MAX_FRONTIER v)"

text \<open>The validator runs on every construction, so on every read of the row too.\<close>

definition mk_frontier :: "mission_frontier \<Rightarrow> mission_frontier" where
  "mk_frontier f = \<lparr>fr_completed = frontier_bound (fr_completed f), fr_running = frontier_bound (fr_running f),
     fr_pending = frontier_bound (fr_pending f), fr_failed = frontier_bound (fr_failed f),
     fr_blocked = frontier_bound (fr_blocked f)\<rparr>"

lemma frontier_bound_idem [simp]: "frontier_bound (frontier_bound v) = frontier_bound v"
  by (simp add: frontier_bound_def take_map)

lemma frontier_bound_length: "length (frontier_bound v) \<le> MAX_FRONTIER"
  by (simp add: frontier_bound_def)

lemma mk_frontier_idem [simp]: "mk_frontier (mk_frontier f) = mk_frontier f"
  by (simp add: mk_frontier_def)

record mission_refs =
  mx_active_session_ids :: "string list"
  mx_session_plan_refs :: "string list"
  mx_workflow_instance_refs :: "string list"
  mx_swarm_run_refs :: "string list"
  mx_artifact_refs :: "string list"
  mx_map_product_refs :: "string list"
  mx_evidence_refs :: "string list"

definition empty_refs :: mission_refs where
  "empty_refs = \<lparr>mx_active_session_ids = [], mx_session_plan_refs = [], mx_workflow_instance_refs = [],
     mx_swarm_run_refs = [], mx_artifact_refs = [], mx_map_product_refs = [], mx_evidence_refs = []\<rparr>"

definition refs_add_session :: "string \<Rightarrow> mission_refs \<Rightarrow> mission_refs" where
  "refs_add_session session_id r =
     (let sid = strip session_id
      in if sid \<noteq> [] \<and> sid \<notin> set (mx_active_session_ids r)
         then r\<lparr>mx_active_session_ids := take MAX_SESSIONS (mx_active_session_ids r @ [sid])\<rparr> else r)"

text \<open>\<open>getattr(self, bucket, None)\<close> and \<open>setattr\<close> on the list-valued fields.\<close>

definition refs_bucket :: "string \<Rightarrow> mission_refs \<Rightarrow> string list option" where
  "refs_bucket b r =
     (if b = ''active_session_ids'' then Some (mx_active_session_ids r)
      else if b = ''session_plan_refs'' then Some (mx_session_plan_refs r)
      else if b = ''workflow_instance_refs'' then Some (mx_workflow_instance_refs r)
      else if b = ''swarm_run_refs'' then Some (mx_swarm_run_refs r)
      else if b = ''artifact_refs'' then Some (mx_artifact_refs r)
      else if b = ''map_product_refs'' then Some (mx_map_product_refs r)
      else if b = ''evidence_refs'' then Some (mx_evidence_refs r)
      else None)"

definition refs_set_bucket :: "string \<Rightarrow> string list \<Rightarrow> mission_refs \<Rightarrow> mission_refs" where
  "refs_set_bucket b v r =
     (if b = ''active_session_ids'' then r\<lparr>mx_active_session_ids := v\<rparr>
      else if b = ''session_plan_refs'' then r\<lparr>mx_session_plan_refs := v\<rparr>
      else if b = ''workflow_instance_refs'' then r\<lparr>mx_workflow_instance_refs := v\<rparr>
      else if b = ''swarm_run_refs'' then r\<lparr>mx_swarm_run_refs := v\<rparr>
      else if b = ''artifact_refs'' then r\<lparr>mx_artifact_refs := v\<rparr>
      else if b = ''map_product_refs'' then r\<lparr>mx_map_product_refs := v\<rparr>
      else if b = ''evidence_refs'' then r\<lparr>mx_evidence_refs := v\<rparr>
      else r)"

definition refs_add :: "string \<Rightarrow> string \<Rightarrow> mission_refs \<Rightarrow> mission_refs" where
  "refs_add bucket ref r =
     (case refs_bucket bucket r of
        None \<Rightarrow> r
      | Some attr \<Rightarrow>
          (let s = strip ref
           in if s = [] \<or> s \<in> set attr then r
              else refs_set_bucket bucket (take MAX_REFS (attr @ [s])) r))"

section \<open>Records, checkpoints, receipts\<close>

record mission_record =
  mc_mission_id :: string
  mc_org_id :: string
  mc_user_id :: string
  mc_project_id :: "string option"
  mc_owner_scope :: string
  mc_root_goal :: string
  mc_goal_revision :: int
  mc_state :: mission_state
  mc_revision :: int
  mc_created_at :: time
  mc_updated_at :: time
  mc_refs :: mission_refs
  mc_frontier :: mission_frontier
  mc_budget :: resource_budget
  mc_failure :: mission_failure
  mc_recovery :: mission_recovery
  mc_lease_owner :: string
  mc_lease_epoch :: int
  mc_lease_expires_at :: time

record mission_checkpoint =
  cp_checkpoint_id :: string
  cp_mission_id :: string
  cp_mission_revision :: int
  cp_goal_revision :: int
  cp_state :: mission_state
  cp_frontier :: mission_frontier
  cp_refs :: mission_refs
  cp_budget :: resource_budget
  cp_swarm_run_id :: string
  cp_session_plan_ref :: string
  cp_workflow_instance_refs :: "string list"
  cp_note :: string
  cp_created_at :: time

text \<open>
  \<open>to_bounded_dict\<close>: what is stored of a checkpoint. \<open>bytes\<close> is the size of its JSON text
  (the rendering of doubles is not modelled). Only the note, the frontier and the workflow
  references are cut.
\<close>

definition checkpoint_bounded :: "(mission_checkpoint \<Rightarrow> nat) \<Rightarrow> mission_checkpoint \<Rightarrow> mission_checkpoint" where
  "checkpoint_bounded bytes cp =
     (if bytes cp \<le> MAX_CHECKPOINT_BYTES then cp
      else let f = cp_frontier cp
           in cp\<lparr>cp_note := take 80 (cp_note cp),
                 cp_workflow_instance_refs := take 8 (cp_workflow_instance_refs cp),
                 cp_frontier := \<lparr>fr_completed = take 16 (fr_completed f), fr_running = take 16 (fr_running f),
                    fr_pending = take 16 (fr_pending f), fr_failed = take 16 (fr_failed f),
                    fr_blocked = take 16 (fr_blocked f)\<rparr>\<rparr>)"

record task_receipt =
  tr_task_id :: string
  tr_assignment_id :: string
  tr_state :: task_state
  tr_operation_class :: operation_class
  tr_produced_refs :: "string list"
  tr_summary :: string
  tr_error_code :: string
  tr_attempt :: int
  tr_idempotency_key :: string
  tr_settled_at :: time

definition mk_receipt :: "task_receipt \<Rightarrow> task_receipt" where
  "mk_receipt r = r\<lparr>tr_produced_refs := take 12 (clamp_refs (tr_produced_refs r)),
                    tr_summary := take MAX_SUMMARY_CHARS (tr_summary r)\<rparr>"

datatype swarm_state = SW_Running | SW_Succeeded | SW_Failed | SW_Cancelled | SW_Partial

record swarm_run =
  sr_swarm_run_id :: string
  sr_mission_id :: string
  sr_goal_slice :: string
  sr_state :: swarm_state
  sr_tasks :: "(string \<times> task_receipt) list"
  sr_created_at :: time
  sr_updated_at :: time

definition swarm_task_states :: "swarm_run \<Rightarrow> (string \<times> task_state) list" where
  "swarm_task_states s = map (\<lambda>(tid, t). (tid, tr_state t)) (sr_tasks s)"

lemma mk_receipt_simps [simp]:
  "tr_task_id (mk_receipt r) = tr_task_id r" "tr_state (mk_receipt r) = tr_state r"
  "tr_operation_class (mk_receipt r) = tr_operation_class r"
  "tr_assignment_id (mk_receipt r) = tr_assignment_id r" "tr_error_code (mk_receipt r) = tr_error_code r"
  by (simp_all add: mk_receipt_def)

record mission_diagnostics =
  md_mission_id :: string
  md_goal :: string
  md_state :: string
  md_revision :: int
  md_goal_revision :: int
  md_frontier :: mission_frontier
  md_blocked_reason :: string
  md_artifact_count :: nat
  md_swarm_status :: "swarm_state option"
  md_resource_use :: amounts
  md_last_checkpoint :: string
  md_lease_owner :: string
  md_lease_epoch :: int
  md_recovery_count :: int

end
