(* ===== verification/Mission_Store.thy ===== *)
theory Mission_Store
  imports Mission_Contracts Interference "HOL-Library.List_Lexorder" "HOL-Library.Char_ord"
begin

text \<open>
  The mission ledger (\<open>app/services/mission_runtime/store.py\<close>, tables of
  \<open>app/models/mission.py\<close>). The JSON columns hold the dumps of the contract models, \<open>{}\<close> being
  the dump of the default. Every method opens a session: the \<open>pause\<close> before its read stands for
  what other sessions committed since, the \<open>pause\<close> between its read and its \<open>UPDATE\<close> for
  what they commit meanwhile; the \<open>WHERE\<close> of the \<open>UPDATE\<close> decides. \<open>outside\<close> bundles that
  environment with the clock and the source of fresh identifiers. An \<open>OperationalError\<close> (the
  database is busy) commits nothing and is not modelled.
\<close>

section \<open>Tables\<close>

record mission_row =
  mr_mission_id :: string
  mr_org_id :: string
  mr_user_id :: string
  mr_project_id :: "string option"
  mr_owner_scope :: string
  mr_root_goal :: string
  mr_goal_revision :: int
  mr_state :: mission_state
  mr_revision :: int
  mr_refs :: mission_refs
  mr_frontier :: mission_frontier
  mr_budget :: resource_budget
  mr_failure :: mission_failure
  mr_recovery :: mission_recovery
  mr_lease_owner :: "string option"
  mr_lease_epoch :: int
  mr_lease_expires_at :: "time option"
  mr_heartbeat_at :: "time option"
  mr_created_at :: time
  mr_updated_at :: time
  mr_terminal_at :: "time option"

record checkpoint_row =
  ck_checkpoint_id :: string
  ck_mission_id :: string
  ck_org_id :: string
  ck_mission_revision :: int
  ck_goal_revision :: int
  ck_state :: mission_state
  ck_snapshot :: mission_checkpoint
  ck_created_at :: time

record swarm_row =
  sw_swarm_run_id :: string
  sw_mission_id :: string
  sw_org_id :: string
  sw_goal_slice :: string
  sw_state :: swarm_state
  sw_tasks :: "(string \<times> task_receipt) list"
  sw_revision :: int
  sw_created_at :: time
  sw_updated_at :: time
  sw_terminal_at :: "time option"

record mission_db =
  db_missions :: "mission_row list"
  db_checkpoints :: "checkpoint_row list"
  db_swarms :: "swarm_row list"

definition empty_mission_db :: mission_db where
  "empty_mission_db = \<lparr>db_missions = [], db_checkpoints = [], db_swarms = []\<rparr>"

datatype mission_error = Fencing string | Rejected string | Integrity | Value_error string | Crash

record outside =
  out_env :: "nat \<Rightarrow> mission_db \<Rightarrow> mission_db"
  out_clock :: "nat \<Rightarrow> time"
  out_token :: "nat \<Rightarrow> string"

type_synonym 'a mission_prog = "(mission_db, mission_error, 'a) prog"

definition mission_at :: "string \<Rightarrow> mission_db \<Rightarrow> mission_row option" where
  "mission_at mid s = row_at mr_mission_id mid (db_missions s)"

definition swarm_at :: "string \<Rightarrow> mission_db \<Rightarrow> swarm_row option" where
  "swarm_at sid s = row_at sw_swarm_run_id sid (db_swarms s)"

text \<open>\<open>_row_to_record\<close>.\<close>

definition mission_to_record :: "mission_row \<Rightarrow> mission_record" where
  "mission_to_record r = \<lparr>mc_mission_id = mr_mission_id r, mc_org_id = mr_org_id r, mc_user_id = mr_user_id r,
     mc_project_id = mr_project_id r, mc_owner_scope = mr_owner_scope r, mc_root_goal = take MAX_GOAL_CHARS (mr_root_goal r),
     mc_goal_revision = int_or (Some (mr_goal_revision r)) 1, mc_state = mr_state r,
     mc_revision = int_or (Some (mr_revision r)) 1, mc_created_at = mr_created_at r,
     mc_updated_at = mr_updated_at r, mc_refs = mr_refs r, mc_frontier = mk_frontier (mr_frontier r),
     mc_budget = mr_budget r, mc_failure = mr_failure r, mc_recovery = mr_recovery r,
     mc_lease_owner = or_else (mr_lease_owner r) [], mc_lease_epoch = mr_lease_epoch r,
     mc_lease_expires_at = or_else (mr_lease_expires_at r) 0\<rparr>"

section \<open>Create, get, list\<close>

definition new_mission_row ::
  "string \<Rightarrow> time \<Rightarrow> string \<Rightarrow> string \<Rightarrow> string option \<Rightarrow> string \<Rightarrow> string \<Rightarrow> string \<Rightarrow> amounts \<Rightarrow> mission_row" where
  "new_mission_row mid now org_id user_id project_id owner_scope root_goal session_id quota =
     \<lparr>mr_mission_id = mid, mr_org_id = org_id, mr_user_id = user_id, mr_project_id = project_id,
      mr_owner_scope = (if owner_scope \<noteq> [] then owner_scope
                        else ''u:'' @ (if user_id \<noteq> [] then user_id else ''anon'')),
      mr_root_goal = take MAX_GOAL_CHARS root_goal, mr_goal_revision = 1, mr_state = MS_Created,
      mr_revision = 1,
      mr_refs = empty_refs\<lparr>mx_active_session_ids := (if session_id \<noteq> [] then [session_id] else [])\<rparr>,
      mr_frontier = empty_frontier, mr_budget = empty_budget\<lparr>rb_quota := quota\<rparr>,
      mr_failure = empty_failure, mr_recovery = empty_recovery, mr_lease_owner = None,
      mr_lease_epoch = 0, mr_lease_expires_at = None, mr_heartbeat_at = None,
      mr_created_at = now, mr_updated_at = now, mr_terminal_at = None\<rparr>"

text \<open>\<open>INSERT\<close>: the primary key is unique.\<close>

definition insert_mission :: "mission_row \<Rightarrow> mission_db \<Rightarrow> mission_db \<times> bool" where
  "insert_mission row s =
     (case mission_at (mr_mission_id row) s of
        None \<Rightarrow> (s\<lparr>db_missions := db_missions s @ [row]\<rparr>, True)
      | Some _ \<Rightarrow> (s, False))"

definition create_mission ::
  "outside \<Rightarrow> string \<Rightarrow> string \<Rightarrow> string option \<Rightarrow> string \<Rightarrow> string \<Rightarrow> string \<Rightarrow> amounts \<Rightarrow> string option \<Rightarrow>
   mission_record mission_prog" where
  "create_mission ou org_id user_id project_id owner_scope root_goal session_id quota mission_id =
     seq (tick (out_token ou)) (\<lambda>token.
     seq (tick (out_clock ou)) (\<lambda>now.
       let mid = (if truthy mission_id then or_else mission_id [] else ''msn-'' @ token);
           row = new_mission_row mid now org_id user_id project_id owner_scope root_goal session_id quota
       in seq (pause (out_env ou)) (\<lambda>_.
          seq (commit (insert_mission row)) (\<lambda>added.
            if \<not> added then fail_with Integrity
            else
              seq (pause (out_env ou)) (\<lambda>_.
              seq (query (mission_at mid)) (\<lambda>refreshed. case refreshed of
                 None \<Rightarrow> fail_with Crash
               | Some r \<Rightarrow> ret (mission_to_record r)))))))"

definition org_user_match :: "string option \<Rightarrow> string option \<Rightarrow> mission_row \<Rightarrow> bool" where
  "org_user_match org_id user_id r =
     ((case org_id of None \<Rightarrow> True | Some o1 \<Rightarrow> mr_org_id r = o1) \<and>
      (case user_id of None \<Rightarrow> True | Some u \<Rightarrow> mr_user_id r = u))"

definition get_mission ::
  "outside \<Rightarrow> string \<Rightarrow> string option \<Rightarrow> string option \<Rightarrow> mission_record option mission_prog" where
  "get_mission ou mid org_id user_id =
     seq (pause (out_env ou)) (\<lambda>_.
       query (\<lambda>s. map_option mission_to_record
         (sql_first (\<lambda>r. mr_mission_id r = mid \<and> org_user_match org_id user_id r) (db_missions s))))"

definition list_unfinished ::
  "outside \<Rightarrow> string option \<Rightarrow> int \<Rightarrow> string option \<Rightarrow> mission_record list mission_prog" where
  "list_unfinished ou org_id limit user_id =
     seq (pause (out_env ou)) (\<lambda>_.
       query (\<lambda>s. map mission_to_record
         (take (nat (max 1 (min limit 500)))
           (sort_key mr_updated_at
             (sql_where (\<lambda>r. mr_state r \<in> set mission_active_states \<and> org_user_match org_id user_id r)
               (db_missions s))))))"

section \<open>The lease\<close>

definition lease_expiry :: "time \<Rightarrow> int \<Rightarrow> time" where
  "lease_expiry now ttl = now + max 1000000 ttl"

text \<open>An \<open>UPDATE\<close> of the row with one mission id: its row count.\<close>

definition update_mission ::
  "string \<Rightarrow> (mission_row \<Rightarrow> bool) \<Rightarrow> (mission_row \<Rightarrow> mission_row) \<Rightarrow> mission_db \<Rightarrow> mission_db \<times> nat" where
  "update_mission mid q f s =
     (case sql_update (\<lambda>r. mr_mission_id r = mid \<and> q r) f (db_missions s) of
        (rows, n) \<Rightarrow> (s\<lparr>db_missions := rows\<rparr>, n))"

definition lease_values :: "string \<Rightarrow> time \<Rightarrow> time \<Rightarrow> mission_row \<Rightarrow> mission_row \<Rightarrow> mission_row" where
  "lease_values tok now expires row r =
     r\<lparr>mr_lease_owner := Some tok, mr_lease_epoch := mr_lease_epoch row + 1,
       mr_lease_expires_at := Some expires, mr_heartbeat_at := Some now,
       mr_revision := mr_revision row + 1, mr_updated_at := now\<rparr>"

definition lease_free :: "time \<Rightarrow> string \<Rightarrow> mission_row \<Rightarrow> bool" where
  "lease_free now tok row =
     (\<not> ((case mr_lease_expires_at row of None \<Rightarrow> False | Some held \<Rightarrow> held > now)
         \<and> or_else (mr_lease_owner row) [] \<noteq> tok))"

definition acquire_lease ::
  "outside \<Rightarrow> string \<Rightarrow> string \<Rightarrow> int \<Rightarrow> string option \<Rightarrow> (int \<times> time) option mission_prog" where
  "acquire_lease ou mid owner ttl org_id =
     seq (tick (out_clock ou)) (\<lambda>now.
       let expires = lease_expiry now ttl; owner_tok = take 128 owner
       in if owner_tok = [] then ret None
          else
            seq (pause (out_env ou)) (\<lambda>_.
            seq (query (\<lambda>s. sql_first (\<lambda>r. mr_mission_id r = mid \<and> org_user_match org_id None r) (db_missions s)))
            (\<lambda>found. case found of
               None \<Rightarrow> ret None
             | Some row \<Rightarrow>
                 if mission_terminal (mr_state row) then ret None
                 else if \<not> lease_free now owner_tok row then ret None
                 else
                   seq (pause (out_env ou)) (\<lambda>_.
                   seq (commit (update_mission mid
                          (\<lambda>r. mr_revision r = mr_revision row \<and> mr_lease_epoch r = mr_lease_epoch row)
                          (lease_values owner_tok now expires row)))
                   (\<lambda>n. if n = 0 then ret None else ret (Some (mr_lease_epoch row + 1, expires)))))))"

definition heartbeat_lease ::
  "outside \<Rightarrow> string \<Rightarrow> string \<Rightarrow> int \<Rightarrow> int \<Rightarrow> bool mission_prog" where
  "heartbeat_lease ou mid owner epoch ttl =
     seq (tick (out_clock ou)) (\<lambda>now.
     seq (pause (out_env ou)) (\<lambda>_.
     seq (commit (update_mission mid
            (\<lambda>r. mr_lease_owner r = Some (take 128 owner) \<and> mr_lease_epoch r = epoch)
            (\<lambda>r. r\<lparr>mr_lease_expires_at := Some (lease_expiry now ttl), mr_heartbeat_at := Some now,
                   mr_updated_at := now\<rparr>)))
     (\<lambda>n. ret (n \<noteq> 0))))"

definition release_lease :: "outside \<Rightarrow> string \<Rightarrow> string \<Rightarrow> int \<Rightarrow> bool mission_prog" where
  "release_lease ou mid owner epoch =
     seq (pause (out_env ou)) (\<lambda>_.
     seq (tick (out_clock ou)) (\<lambda>now.
     seq (commit (update_mission mid
            (\<lambda>r. mr_lease_owner r = Some (take 128 owner) \<and> mr_lease_epoch r = epoch)
            (\<lambda>r. r\<lparr>mr_lease_owner := None, mr_lease_expires_at := None, mr_updated_at := now\<rparr>)))
     (\<lambda>n. ret (n \<noteq> 0))))"

section \<open>Fenced mutations\<close>

text \<open>
  The part \<open>transition\<close> and \<open>patch_mission\<close> share: read the row, let the operation decide
  (an error, nothing to do, or the new values), write them where the epoch is the caller's and
  the revision is the one that was read, and read the row again.
\<close>

definition fenced_update ::
  "outside \<Rightarrow> string \<Rightarrow> int \<Rightarrow>
   (mission_row \<Rightarrow> mission_error + (mission_row \<Rightarrow> mission_row) option) \<Rightarrow> mission_record mission_prog" where
  "fenced_update ou mid epoch decide =
     seq (pause (out_env ou)) (\<lambda>_.
     seq (query (mission_at mid)) (\<lambda>found. case found of
        None \<Rightarrow> fail_with (Rejected ''MISSION_NOT_FOUND'')
      | Some row \<Rightarrow>
          (case decide row of
             Inl err \<Rightarrow> fail_with err
           | Inr None \<Rightarrow> ret (mission_to_record row)
           | Inr (Some vals) \<Rightarrow>
               seq (pause (out_env ou)) (\<lambda>_.
               seq (commit (update_mission mid
                      (\<lambda>r. mr_lease_epoch r = epoch \<and> mr_revision r = mr_revision row) vals)) (\<lambda>n.
                 if n = 0 then fail_with (Fencing ''CAS_LOST'')
                 else
                   seq (pause (out_env ou)) (\<lambda>_.
                   seq (query (mission_at mid)) (\<lambda>again. case again of
                      None \<Rightarrow> fail_with Crash
                    | Some r \<Rightarrow> ret (mission_to_record r))))))))"

text \<open>The checks both start with.\<close>

definition fence_error :: "int \<Rightarrow> string \<Rightarrow> int option \<Rightarrow> mission_row \<Rightarrow> mission_error option" where
  "fence_error epoch owner expected row =
     (if mr_lease_epoch row \<noteq> epoch then Some (Fencing ''STALE_LEASE_EPOCH'')
      else if or_else (mr_lease_owner row) [] \<noteq> take 128 owner then Some (Fencing ''STALE_LEASE_OWNER'')
      else if expected \<noteq> None \<and> expected \<noteq> Some (mr_revision row) then Some (Rejected ''REVISION_CONFLICT'')
      else None)"

text \<open>A partial update of the recovery state: the two keys the code ever passes.\<close>

record recovery_patch =
  rp_attempt :: int
  rp_last_recovery_at :: time

definition mission_transition_values ::
  "time \<Rightarrow> mission_state \<Rightarrow> mission_failure option \<Rightarrow> recovery_patch option \<Rightarrow> mission_row \<Rightarrow>
   mission_row \<Rightarrow> mission_row" where
  "mission_transition_values now dest failure patch row r =
     (let r1 = r\<lparr>mr_state := dest, mr_revision := mr_revision row + 1, mr_updated_at := now\<rparr>;
          r2 = (if mission_terminal dest
                then r1\<lparr>mr_terminal_at := Some now, mr_lease_owner := None, mr_lease_expires_at := None\<rparr>
                else r1);
          r3 = (case failure of None \<Rightarrow> r2 | Some f \<Rightarrow> r2\<lparr>mr_failure := f\<rparr>)
      in case patch of None \<Rightarrow> r3
         | Some p \<Rightarrow> r3\<lparr>mr_recovery := (mr_recovery row)\<lparr>rv_attempt := rp_attempt p,
                          rv_last_recovery_at := rp_last_recovery_at p\<rparr>\<rparr>)"

definition transition_decision ::
  "time \<Rightarrow> mission_state \<Rightarrow> int \<Rightarrow> string \<Rightarrow> int option \<Rightarrow> mission_failure option \<Rightarrow> recovery_patch option \<Rightarrow>
   mission_row \<Rightarrow> mission_error + (mission_row \<Rightarrow> mission_row) option" where
  "transition_decision now dest epoch owner expected failure patch row =
     (case fence_error epoch owner expected row of
        Some err \<Rightarrow> Inl err
      | None \<Rightarrow>
          (if mr_state row = dest then Inr None
           else if \<not> mission_transition_allowed (mr_state row) dest
           then Inl (Rejected (''ILLEGAL_TRANSITION:'' @ state_value (mr_state row) @ ''->'' @ state_value dest))
           else Inr (Some (mission_transition_values now dest failure patch row))))"

definition transition_mission ::
  "outside \<Rightarrow> string \<Rightarrow> string \<Rightarrow> int \<Rightarrow> string \<Rightarrow> int option \<Rightarrow> mission_failure option \<Rightarrow>
   recovery_patch option \<Rightarrow> mission_record mission_prog" where
  "transition_mission ou mid to_state epoch owner expected failure patch =
     (case state_of to_state of
        None \<Rightarrow> fail_with (Value_error to_state)
      | Some dest \<Rightarrow>
          seq (tick (out_clock ou)) (\<lambda>now.
            if strip owner = [] then fail_with (Fencing ''EMPTY_LEASE_OWNER'')
            else fenced_update ou mid epoch
                   (transition_decision now dest epoch owner expected failure patch)))"

record mission_patch =
  pt_refs :: "mission_refs option"
  pt_frontier :: "mission_frontier option"
  pt_budget :: "resource_budget option"
  pt_recovery :: "mission_recovery option"
  pt_root_goal :: "string option"
  pt_bump_goal :: bool

definition no_mission_patch :: mission_patch where
  "no_mission_patch = \<lparr>pt_refs = None, pt_frontier = None, pt_budget = None, pt_recovery = None,
     pt_root_goal = None, pt_bump_goal = False\<rparr>"

definition patch_values :: "time \<Rightarrow> mission_patch \<Rightarrow> mission_row \<Rightarrow> mission_row \<Rightarrow> mission_row" where
  "patch_values now p row r =
     r\<lparr>mr_revision := mr_revision row + 1, mr_updated_at := now,
       mr_refs := or_else (pt_refs p) (mr_refs r),
       mr_frontier := or_else (pt_frontier p) (mr_frontier r),
       mr_budget := or_else (pt_budget p) (mr_budget r),
       mr_recovery := or_else (pt_recovery p) (mr_recovery r),
       mr_root_goal := (case pt_root_goal p of None \<Rightarrow> mr_root_goal r | Some g \<Rightarrow> take MAX_GOAL_CHARS g),
       mr_goal_revision := (if pt_bump_goal p then int_or (Some (mr_goal_revision row)) 1 + 1
                            else mr_goal_revision r)\<rparr>"

definition patch_decision ::
  "time \<Rightarrow> int \<Rightarrow> string \<Rightarrow> int option \<Rightarrow> mission_patch \<Rightarrow>
   mission_row \<Rightarrow> mission_error + (mission_row \<Rightarrow> mission_row) option" where
  "patch_decision now epoch owner expected p row =
     (case fence_error epoch owner expected row of
        Some err \<Rightarrow> Inl err
      | None \<Rightarrow>
          (if mission_terminal (mr_state row) then Inl (Rejected ''MISSION_TERMINAL'')
           else Inr (Some (patch_values now p row))))"

definition patch_mission ::
  "outside \<Rightarrow> string \<Rightarrow> int \<Rightarrow> string \<Rightarrow> mission_patch \<Rightarrow> int option \<Rightarrow> mission_record mission_prog" where
  "patch_mission ou mid epoch owner p expected =
     seq (tick (out_clock ou)) (\<lambda>now.
       fenced_update ou mid epoch (patch_decision now epoch owner expected p))"

section \<open>Checkpoints\<close>

definition newest_first :: "string \<Rightarrow> checkpoint_row list \<Rightarrow> checkpoint_row list" where
  "newest_first mid cks = sort_key (\<lambda>c. - ck_created_at c) (sql_where (\<lambda>c. ck_mission_id c = mid) cks)"

definition prune_checkpoints :: "string \<Rightarrow> checkpoint_row list \<Rightarrow> checkpoint_row list" where
  "prune_checkpoints mid cks =
     (let stale = drop MAX_CHECKPOINTS_RING (newest_first mid cks)
      in filter (\<lambda>c. c \<notin> set stale) cks)"

definition last_or_empty :: "string list \<Rightarrow> string" where
  "last_or_empty xs = (if xs = [] then [] else last xs)"

definition make_checkpoint :: "mission_record \<Rightarrow> string \<Rightarrow> string \<Rightarrow> time \<Rightarrow> mission_checkpoint" where
  "make_checkpoint rec token note wall =
     \<lparr>cp_checkpoint_id = ''mcp-'' @ mc_mission_id rec @ ''-r'' @ int_str (mc_revision rec) @ ''-'' @ token,
      cp_mission_id = mc_mission_id rec, cp_mission_revision = mc_revision rec,
      cp_goal_revision = mc_goal_revision rec, cp_state = mc_state rec, cp_frontier = mk_frontier (mc_frontier rec),
      cp_refs = mc_refs rec, cp_budget = mc_budget rec,
      cp_swarm_run_id = last_or_empty (mx_swarm_run_refs (mc_refs rec)),
      cp_session_plan_ref = last_or_empty (mx_session_plan_refs (mc_refs rec)),
      cp_workflow_instance_refs = mx_workflow_instance_refs (mc_refs rec),
      cp_note = take 200 note, cp_created_at = wall\<rparr>"

text \<open>
  One transaction: the fenced update of the mission, the insert of the checkpoint (whose
  identifier is unique) and the pruning of the ring. The insert is flushed before the query of
  the ring, so the new checkpoint is counted.
\<close>

datatype checkpoint_outcome = CK_lost | CK_duplicate | CK_written

definition store_checkpoint ::
  "string \<Rightarrow> int \<Rightarrow> string \<Rightarrow> mission_record \<Rightarrow> mission_checkpoint \<Rightarrow> mission_checkpoint \<Rightarrow> time \<Rightarrow>
   mission_db \<Rightarrow> mission_db \<times> checkpoint_outcome" where
  "store_checkpoint mid epoch owner rec cp snap now s =
     (case update_mission mid
             (\<lambda>r. mr_lease_epoch r = epoch \<and> mr_lease_owner r = Some (take 128 owner) \<and> mr_revision r = mc_revision rec)
             (\<lambda>r. r\<lparr>mr_recovery := (mc_recovery rec)\<lparr>rv_last_checkpoint_id := cp_checkpoint_id cp,
                                      rv_last_checkpoint_at := cp_created_at cp\<rparr>,
                    mr_revision := mc_revision rec + 1, mr_updated_at := now\<rparr>) s of
        (s1, n) \<Rightarrow>
          if n = 0 then (s, CK_lost)
          else if cp_checkpoint_id cp \<in> ck_checkpoint_id ` set (db_checkpoints s1) then (s, CK_duplicate)
          else (s1\<lparr>db_checkpoints := prune_checkpoints mid (db_checkpoints s1 @
                   [\<lparr>ck_checkpoint_id = cp_checkpoint_id cp, ck_mission_id = mid, ck_org_id = mc_org_id rec,
                     ck_mission_revision = cp_mission_revision cp, ck_goal_revision = cp_goal_revision cp,
                     ck_state = cp_state cp, ck_snapshot = snap, ck_created_at = now\<rparr>])\<rparr>, CK_written))"

definition write_checkpoint ::
  "outside \<Rightarrow> (mission_checkpoint \<Rightarrow> nat) \<Rightarrow> string \<Rightarrow> int \<Rightarrow> string \<Rightarrow> string \<Rightarrow> mission_checkpoint mission_prog" where
  "write_checkpoint ou bytes mid epoch owner note =
     seq (get_mission ou mid None None) (\<lambda>found. case found of
        None \<Rightarrow> fail_with (Rejected ''MISSION_NOT_FOUND'')
      | Some rec \<Rightarrow>
          if mc_lease_epoch rec \<noteq> epoch \<or> mc_lease_owner rec \<noteq> take 128 owner
          then fail_with (Fencing ''STALE_LEASE_EPOCH'')
          else
            seq (tick (out_token ou)) (\<lambda>token.
            seq (tick (out_clock ou)) (\<lambda>wall.
              let cp = make_checkpoint rec token note wall; snap = checkpoint_bounded bytes cp
              in seq (pause (out_env ou)) (\<lambda>_.
                 seq (tick (out_clock ou)) (\<lambda>now.
                 seq (commit (store_checkpoint mid epoch owner rec cp snap now)) (\<lambda>outcome.
                   case outcome of CK_lost \<Rightarrow> fail_with (Fencing ''CAS_LOST'')
                   | CK_duplicate \<Rightarrow> fail_with Integrity
                   | CK_written \<Rightarrow> ret cp))))))"

definition list_checkpoints :: "outside \<Rightarrow> string \<Rightarrow> int \<Rightarrow> checkpoint_row list mission_prog" where
  "list_checkpoints ou mid limit =
     seq (pause (out_env ou)) (\<lambda>_.
       query (\<lambda>s. take (nat (max 1 (min limit 32))) (newest_first mid (db_checkpoints s))))"

definition latest_checkpoint :: "outside \<Rightarrow> string \<Rightarrow> checkpoint_row option mission_prog" where
  "latest_checkpoint ou mid =
     seq (list_checkpoints ou mid 1) (\<lambda>cps. ret (case cps of [] \<Rightarrow> None | c # _ \<Rightarrow> Some c))"

section \<open>The swarm ledger\<close>

definition swarm_to_run :: "swarm_row \<Rightarrow> swarm_run" where
  "swarm_to_run w = \<lparr>sr_swarm_run_id = sw_swarm_run_id w, sr_mission_id = sw_mission_id w,
     sr_goal_slice = sw_goal_slice w, sr_state = sw_state w,
     sr_tasks = map (\<lambda>(tid, t). (tid, mk_receipt t)) (sw_tasks w),
     sr_created_at = sw_created_at w, sr_updated_at = sw_updated_at w\<rparr>"

definition truncate_tasks :: "(string \<times> task_receipt) list \<Rightarrow> (string \<times> task_receipt) list" where
  "truncate_tasks tasks =
     (if length tasks > MAX_SWARM_TASKS
      then map (\<lambda>k. (k, the (map_of tasks k))) (take MAX_SWARM_TASKS (sort (map fst tasks)))
      else tasks)"

definition new_swarm_row ::
  "string \<Rightarrow> string \<Rightarrow> string \<Rightarrow> string \<Rightarrow> (string \<times> task_receipt) list \<Rightarrow> time \<Rightarrow> swarm_row" where
  "new_swarm_row sid mid org_id goal_slice tasks now =
     \<lparr>sw_swarm_run_id = sid, sw_mission_id = mid, sw_org_id = org_id,
      sw_goal_slice = take MAX_GOAL_CHARS goal_slice, sw_state = SW_Running, sw_tasks = tasks,
      sw_revision = 1, sw_created_at = now, sw_updated_at = now, sw_terminal_at = None\<rparr>"

definition insert_swarm :: "swarm_row \<Rightarrow> mission_db \<Rightarrow> mission_db \<times> bool" where
  "insert_swarm row s =
     (case swarm_at (sw_swarm_run_id row) s of
        None \<Rightarrow> (s\<lparr>db_swarms := db_swarms s @ [row]\<rparr>, True)
      | Some _ \<Rightarrow> (s, False))"

definition create_swarm_run ::
  "outside \<Rightarrow> string \<Rightarrow> string \<Rightarrow> string \<Rightarrow> (string \<times> task_receipt) list \<Rightarrow> string option \<Rightarrow> swarm_run mission_prog" where
  "create_swarm_run ou mid org_id goal_slice tasks swarm_run_id =
     seq (tick (out_token ou)) (\<lambda>token.
     seq (tick (out_clock ou)) (\<lambda>now.
       let sid = (if truthy swarm_run_id then or_else swarm_run_id [] else ''swr-'' @ token);
           task_map = truncate_tasks tasks
       in if org_id = [] then fail_with (Rejected ''ORG_REQUIRED'')
          else
            let row = new_swarm_row sid mid org_id goal_slice task_map now
            in seq (pause (out_env ou)) (\<lambda>_.
               seq (query (mission_at mid)) (\<lambda>found. case found of
                  None \<Rightarrow> fail_with (Rejected ''MISSION_NOT_FOUND'')
                | Some m \<Rightarrow>
                    if mr_org_id m \<noteq> org_id then fail_with (Rejected ''ORG_MISMATCH'')
                    else if mission_terminal (mr_state m) then fail_with (Rejected ''MISSION_TERMINAL'')
                    else
                      seq (pause (out_env ou)) (\<lambda>_.
                      seq (commit (insert_swarm row)) (\<lambda>added.
                        if added then ret (swarm_to_run row) else fail_with Integrity))))))"

definition get_swarm_run :: "outside \<Rightarrow> string \<Rightarrow> swarm_run option mission_prog" where
  "get_swarm_run ou sid =
     seq (pause (out_env ou)) (\<lambda>_. query (\<lambda>s. map_option swarm_to_run (swarm_at sid s)))"

definition sticky_states :: "task_state list" where
  "sticky_states = [TS_Succeeded, TS_Skipped, TS_Cancelled, TS_Unresolved]"

definition settled_states :: "task_state list" where
  "settled_states = [TS_Succeeded, TS_Skipped, TS_Failed, TS_Cancelled, TS_Unresolved]"

definition run_state_of :: "(string \<times> task_receipt) list \<Rightarrow> swarm_state" where
  "run_state_of tasks =
     (let states = map (\<lambda>(tid, t). tr_state t) tasks
      in if states \<noteq> [] \<and> list_all (\<lambda>s. s \<in> set settled_states) states
         then if TS_Unresolved \<in> set states then SW_Partial
              else if TS_Failed \<in> set states then SW_Partial
              else if TS_Cancelled \<in> set states then SW_Cancelled
              else SW_Succeeded
         else SW_Running)"

definition settle_values :: "time \<Rightarrow> time \<Rightarrow> task_receipt \<Rightarrow> swarm_row \<Rightarrow> swarm_row \<Rightarrow> swarm_row" where
  "settle_values now wall receipt row w =
     (let tasks = AList.update (tr_task_id receipt) (receipt\<lparr>tr_settled_at := wall\<rparr>) (sw_tasks row);
          run_state = run_state_of tasks;
          w1 = w\<lparr>sw_tasks := tasks, sw_state := run_state, sw_revision := sw_revision row + 1, sw_updated_at := now\<rparr>
      in if run_state \<noteq> SW_Running then w1\<lparr>sw_terminal_at := Some now\<rparr> else w1)"

definition update_swarm ::
  "string \<Rightarrow> (swarm_row \<Rightarrow> bool) \<Rightarrow> (swarm_row \<Rightarrow> swarm_row) \<Rightarrow> mission_db \<Rightarrow> mission_db \<times> nat" where
  "update_swarm sid q f s =
     (case sql_update (\<lambda>w. sw_swarm_run_id w = sid \<and> q w) f (db_swarms s) of
        (rows, n) \<Rightarrow> (s\<lparr>db_swarms := rows\<rparr>, n))"

definition settle_once :: "outside \<Rightarrow> string \<Rightarrow> task_receipt \<Rightarrow> swarm_run mission_prog" where
  "settle_once ou sid receipt =
     seq (tick (out_clock ou)) (\<lambda>now.
     seq (pause (out_env ou)) (\<lambda>_.
     seq (query (swarm_at sid)) (\<lambda>found. case found of
        None \<Rightarrow> fail_with (Rejected ''SWARM_RUN_NOT_FOUND'')
      | Some row \<Rightarrow>
          (if (case map_of (sw_tasks row) (tr_task_id receipt) of None \<Rightarrow> False
               | Some existing \<Rightarrow> tr_state existing \<in> set sticky_states)
           then ret (swarm_to_run row)
           else
             seq (tick (out_clock ou)) (\<lambda>wall.
             seq (pause (out_env ou)) (\<lambda>_.
             seq (commit (update_swarm sid (\<lambda>w. sw_revision w = sw_revision row)
                    (settle_values now wall receipt row))) (\<lambda>n.
               if n = 0 then fail_with (Fencing ''CAS_LOST'')
               else
                 seq (get_swarm_run ou sid) (\<lambda>got. case got of
                    None \<Rightarrow> fail_with Crash
                  | Some run \<Rightarrow> ret run))))))))"

text \<open>At most eight attempts; only a lost compare-and-set is tried again.\<close>

fun settle_attempts :: "nat \<Rightarrow> outside \<Rightarrow> string \<Rightarrow> task_receipt \<Rightarrow> swarm_run mission_prog" where
  "settle_attempts 0 ou sid receipt = fail_with (Fencing ''CAS_LOST'')"
| "settle_attempts (Suc n) ou sid receipt =
     on_error (settle_once ou sid receipt) (\<lambda>err.
       if err = Fencing ''CAS_LOST'' then settle_attempts n ou sid receipt else fail_with err)"

definition settle_swarm_task :: "outside \<Rightarrow> string \<Rightarrow> task_receipt \<Rightarrow> swarm_run mission_prog" where
  "settle_swarm_task ou sid receipt = settle_attempts 8 ou sid receipt"

definition list_swarm_runs :: "outside \<Rightarrow> string \<Rightarrow> string option \<Rightarrow> swarm_run list mission_prog" where
  "list_swarm_runs ou mid org_id =
     seq (pause (out_env ou)) (\<lambda>_.
       query (\<lambda>s. map swarm_to_run
         (sort_key sw_created_at
           (sql_where (\<lambda>w. sw_mission_id w = mid \<and> (case org_id of None \<Rightarrow> True | Some o1 \<Rightarrow> sw_org_id w = o1))
             (db_swarms s)))))"

end
