(* ===== verification/Mission_Invariant.thy ===== *)
theory Mission_Invariant
  imports Mission_Store
begin

text \<open>
  The invariant of the mission ledger and the order its operations move forward in. The order
  says what nobody can take back: the epochs and revisions of a mission only grow, a revision
  stands for one content, an epoch for one owner, a terminal mission is frozen, and a settled
  receipt of a swarm task is never replaced. Every operation keeps both, whatever other
  sessions commit between its statements, as long as those keep them too.
\<close>

section \<open>The invariant\<close>

definition mission_row_ok :: "mission_row \<Rightarrow> bool" where
  "mission_row_ok r =
     (0 \<le> mr_lease_epoch r \<and> 1 \<le> mr_revision r \<and> 1 \<le> mr_goal_revision r
      \<and> length (mr_root_goal r) \<le> MAX_GOAL_CHARS
      \<and> (mr_lease_owner r = None \<longleftrightarrow> mr_lease_expires_at r = None)
      \<and> (mr_lease_owner r \<noteq> None \<longrightarrow> mr_lease_owner r \<noteq> Some [] \<and> 1 \<le> mr_lease_epoch r)
      \<and> (mission_terminal (mr_state r) \<longleftrightarrow> mr_terminal_at r \<noteq> None)
      \<and> (mission_terminal (mr_state r) \<longrightarrow> mr_lease_owner r = None))"

definition swarm_row_ok :: "swarm_row \<Rightarrow> bool" where
  "swarm_row_ok w =
     (1 \<le> sw_revision w \<and> distinct (map fst (sw_tasks w))
      \<and> list_all (\<lambda>(tid, t). tr_task_id t = tid) (sw_tasks w)
      \<and> (sw_state w = SW_Running \<or> sw_state w = run_state_of (sw_tasks w)))"

definition ring_ok :: "checkpoint_row list \<Rightarrow> bool" where
  "ring_ok cks = (\<forall>mid. length (sql_where (\<lambda>c. ck_mission_id c = mid) cks) \<le> MAX_CHECKPOINTS_RING)"

definition mission_db_ok :: "mission_db \<Rightarrow> bool" where
  "mission_db_ok s =
     (keyed mr_mission_id (db_missions s) \<and> keyed sw_swarm_run_id (db_swarms s)
      \<and> keyed ck_checkpoint_id (db_checkpoints s) \<and> ring_ok (db_checkpoints s)
      \<and> list_all mission_row_ok (db_missions s) \<and> list_all swarm_row_ok (db_swarms s))"

section \<open>The order\<close>

definition same_content :: "mission_row \<Rightarrow> mission_row \<Rightarrow> bool" where
  "same_content r r' =
     (mr_state r' = mr_state r \<and> mr_refs r' = mr_refs r \<and> mr_frontier r' = mr_frontier r
      \<and> mr_budget r' = mr_budget r \<and> mr_failure r' = mr_failure r \<and> mr_recovery r' = mr_recovery r
      \<and> mr_root_goal r' = mr_root_goal r \<and> mr_goal_revision r' = mr_goal_revision r
      \<and> mr_lease_epoch r' = mr_lease_epoch r \<and> mr_terminal_at r' = mr_terminal_at r)"

definition state_path :: "(mission_state \<times> mission_state) set" where
  "state_path = {(a, b). mission_transition_allowed a b}\<^sup>*"

definition mission_row_le :: "mission_row \<Rightarrow> mission_row \<Rightarrow> bool" where
  "mission_row_le r r' =
     (mr_mission_id r' = mr_mission_id r \<and> mr_org_id r' = mr_org_id r \<and> mr_user_id r' = mr_user_id r
      \<and> mr_lease_epoch r \<le> mr_lease_epoch r' \<and> mr_revision r \<le> mr_revision r'
      \<and> mr_goal_revision r \<le> mr_goal_revision r'
      \<and> (mr_state r, mr_state r') \<in> state_path
      \<and> (mission_terminal (mr_state r) \<longrightarrow> r' = r)
      \<and> (mr_revision r' = mr_revision r \<longrightarrow> same_content r r')
      \<and> (mr_lease_epoch r' = mr_lease_epoch r \<longrightarrow>
           mr_lease_owner r' = mr_lease_owner r \<or> mr_lease_owner r' = None))"

definition swarm_row_le :: "swarm_row \<Rightarrow> swarm_row \<Rightarrow> bool" where
  "swarm_row_le w w' =
     (sw_swarm_run_id w' = sw_swarm_run_id w \<and> sw_mission_id w' = sw_mission_id w \<and> sw_org_id w' = sw_org_id w
      \<and> sw_revision w \<le> sw_revision w'
      \<and> (sw_revision w' = sw_revision w \<longrightarrow> w' = w)
      \<and> (\<forall>tid t. map_of (sw_tasks w) tid = Some t \<longrightarrow> tr_state t \<in> set sticky_states \<longrightarrow>
           map_of (sw_tasks w') tid = Some t))"

definition mission_db_le :: "mission_db \<Rightarrow> mission_db \<Rightarrow> bool" where
  "mission_db_le s s' =
     ((\<forall>mid r. mission_at mid s = Some r \<longrightarrow> (\<exists>r'. mission_at mid s' = Some r' \<and> mission_row_le r r'))
      \<and> (\<forall>sid w. swarm_at sid s = Some w \<longrightarrow> (\<exists>w'. swarm_at sid s' = Some w' \<and> swarm_row_le w w')))"

lemma mission_db_leD:
  "mission_db_le s s' \<Longrightarrow> mission_at mid s = Some r \<Longrightarrow> \<exists>r'. mission_at mid s' = Some r' \<and> mission_row_le r r'"
  "mission_db_le s s' \<Longrightarrow> swarm_at sid s = Some w \<Longrightarrow> \<exists>w'. swarm_at sid s' = Some w' \<and> swarm_row_le w w'"
  by (simp_all add: mission_db_le_def)

lemma mission_row_leD:
  assumes "mission_row_le r r'"
  shows "mr_mission_id r' = mr_mission_id r" "mr_org_id r' = mr_org_id r" "mr_user_id r' = mr_user_id r"
    "mr_lease_epoch r \<le> mr_lease_epoch r'" "mr_revision r \<le> mr_revision r'"
    "mr_goal_revision r \<le> mr_goal_revision r'" "(mr_state r, mr_state r') \<in> state_path"
    "mission_terminal (mr_state r) \<Longrightarrow> r' = r" "mr_revision r' = mr_revision r \<Longrightarrow> same_content r r'"
    "mr_lease_epoch r' = mr_lease_epoch r \<Longrightarrow>
       mr_lease_owner r' = mr_lease_owner r \<or> mr_lease_owner r' = None"
  using assms by (simp_all add: mission_row_le_def)

lemma state_path_refl [simp]: "(a, a) \<in> state_path"
  by (simp add: state_path_def)

lemma state_path_step: "mission_transition_allowed a b \<Longrightarrow> (a, b) \<in> state_path"
  by (auto simp: state_path_def)

lemma state_path_trans: "(a, b) \<in> state_path \<Longrightarrow> (b, c) \<in> state_path \<Longrightarrow> (a, c) \<in> state_path"
  by (auto simp: state_path_def)

lemma same_content_refl [simp]: "same_content r r"
  by (simp add: same_content_def)

lemma same_content_trans: "same_content a b \<Longrightarrow> same_content b c \<Longrightarrow> same_content a c"
  by (simp add: same_content_def)

lemma mission_row_le_refl [simp]: "mission_row_le r r"
  by (simp add: mission_row_le_def)

lemma mission_row_le_trans:
  assumes ab: "mission_row_le a b" and bc: "mission_row_le b c"
  shows "mission_row_le a c"
proof -
  note x = mission_row_leD [OF ab] and y = mission_row_leD [OF bc]
  have "same_content a c" if "mr_revision c = mr_revision a"
  proof -
    have "mr_revision b = mr_revision a" "mr_revision c = mr_revision b" using that x(5) y(5) by auto
    then show ?thesis using x(9) y(9) same_content_trans by blast
  qed
  moreover have "mr_lease_owner c = mr_lease_owner a \<or> mr_lease_owner c = None"
    if "mr_lease_epoch c = mr_lease_epoch a"
  proof -
    have "mr_lease_epoch b = mr_lease_epoch a" "mr_lease_epoch c = mr_lease_epoch b"
      using that x(4) y(4) by auto
    then show ?thesis using x(10) y(10) by metis
  qed
  moreover have "c = a" if "mission_terminal (mr_state a)"
    using x(8) [OF that] y(8) that by simp
  ultimately show ?thesis
    unfolding mission_row_le_def
    using x(1-6) y(1-6) state_path_trans [OF x(7) y(7)] by simp
qed

lemma swarm_row_le_refl [simp]: "swarm_row_le w w"
  by (simp add: swarm_row_le_def)

lemma swarm_row_le_trans: "swarm_row_le a b \<Longrightarrow> swarm_row_le b c \<Longrightarrow> swarm_row_le a c"
  unfolding swarm_row_le_def by (intro conjI; force)

interpretation mission_order: forward_order mission_db_ok mission_db_le
proof
  show "mission_db_le s s" for s by (simp add: mission_db_le_def)
  show "mission_db_le a c" if ab: "mission_db_le a b" and bc: "mission_db_le b c" for a b c
    unfolding mission_db_le_def
  proof (intro conjI allI impI)
    fix mid r assume "mission_at mid a = Some r"
    from mission_db_leD(1) [OF ab this] obtain r1 where r1: "mission_at mid b = Some r1" "mission_row_le r r1"
      by blast
    from mission_db_leD(1) [OF bc r1(1)] obtain r2 where "mission_at mid c = Some r2" "mission_row_le r1 r2"
      by blast
    then show "\<exists>r'. mission_at mid c = Some r' \<and> mission_row_le r r'"
      using r1(2) mission_row_le_trans by blast
  next
    fix sid w assume "swarm_at sid a = Some w"
    from mission_db_leD(2) [OF ab this] obtain w1 where w1: "swarm_at sid b = Some w1" "swarm_row_le w w1"
      by blast
    from mission_db_leD(2) [OF bc w1(1)] obtain w2 where "swarm_at sid c = Some w2" "swarm_row_le w1 w2"
      by blast
    then show "\<exists>w'. swarm_at sid c = Some w' \<and> swarm_row_le w w'"
      using w1(2) swarm_row_le_trans by blast
  qed
qed

section \<open>Statements\<close>

lemma mission_at_Some: "mission_at mid s = Some r \<Longrightarrow> mr_mission_id r = mid \<and> r \<in> set (db_missions s)"
  by (auto simp: mission_at_def dest: row_at_Some)

lemma swarm_at_Some: "swarm_at sid s = Some w \<Longrightarrow> sw_swarm_run_id w = sid \<and> w \<in> set (db_swarms s)"
  by (auto simp: swarm_at_def dest: row_at_Some)

lemma mission_at_ok: "mission_db_ok s \<Longrightarrow> mission_at mid s = Some r \<Longrightarrow> mission_row_ok r"
  by (auto simp: mission_db_ok_def list_all_iff dest: mission_at_Some)

lemma swarm_at_ok: "mission_db_ok s \<Longrightarrow> swarm_at sid s = Some w \<Longrightarrow> swarm_row_ok w"
  by (auto simp: mission_db_ok_def list_all_iff dest: swarm_at_Some)

lemma update_mission_eq:
  assumes "mission_db_ok s"
  shows "update_mission mid q f s =
    (case mission_at mid s of None \<Rightarrow> (s, 0)
     | Some r \<Rightarrow> if q r then (s\<lparr>db_missions := row_put mr_mission_id mid (f r) (db_missions s)\<rparr>, 1) else (s, 0))"
proof -
  have k: "keyed mr_mission_id (db_missions s)" using assms by (simp add: mission_db_ok_def)
  show ?thesis
  proof (cases "mission_at mid s")
    case None
    then show ?thesis by (simp add: update_mission_def mission_at_def sql_update_none)
  next
    case (Some r)
    then have "row_at mr_mission_id mid (db_missions s) = Some r" by (simp add: mission_at_def)
    from sql_update_put [OF k this, of q f] Some show ?thesis
      by (simp add: update_mission_def)
  qed
qed

lemma mission_at_put [simp]:
  "mr_mission_id r = mid \<Longrightarrow> mission_at m (s\<lparr>db_missions := row_put mr_mission_id mid r (db_missions s)\<rparr>) =
     (if m = mid then map_option (\<lambda>x. r) (mission_at mid s) else mission_at m s)"
  by (simp add: mission_at_def row_at_put)

lemma swarm_at_put [simp]:
  "sw_swarm_run_id w = sid \<Longrightarrow> swarm_at x (s\<lparr>db_swarms := row_put sw_swarm_run_id sid w (db_swarms s)\<rparr>) =
     (if x = sid then map_option (\<lambda>_. w) (swarm_at sid s) else swarm_at x s)"
  by (simp add: swarm_at_def row_at_put)

lemma other_tables [simp]:
  "mission_at mid (s\<lparr>db_swarms := x\<rparr>) = mission_at mid s"
  "mission_at mid (s\<lparr>db_checkpoints := c\<rparr>) = mission_at mid s"
  "swarm_at sid (s\<lparr>db_missions := y\<rparr>) = swarm_at sid s"
  "swarm_at sid (s\<lparr>db_checkpoints := c\<rparr>) = swarm_at sid s"
  by (simp_all add: mission_at_def swarm_at_def)

lemma list_all_put: "list_all P t \<Longrightarrow> P r \<Longrightarrow> list_all P (row_put key k r t)"
  by (auto simp: row_put_def list_all_iff)

text \<open>
  One row of a mission is replaced by a later version of itself: what every \<open>UPDATE\<close> of the
  ledger has to show.
\<close>

lemma put_mission_keeps:
  assumes "mission_db_ok s" and "mission_at mid s = Some r" and "mr_mission_id r' = mid"
    and "mission_row_ok r'" and "mission_row_le r r'"
  shows "mission_db_ok (s\<lparr>db_missions := row_put mr_mission_id mid r' (db_missions s)\<rparr>)
    \<and> mission_db_le s (s\<lparr>db_missions := row_put mr_mission_id mid r' (db_missions s)\<rparr>)"
proof
  show "mission_db_ok (s\<lparr>db_missions := row_put mr_mission_id mid r' (db_missions s)\<rparr>)"
    using assms(1,3,4) by (simp add: mission_db_ok_def keyed_put list_all_put)
  show "mission_db_le s (s\<lparr>db_missions := row_put mr_mission_id mid r' (db_missions s)\<rparr>)"
    unfolding mission_db_le_def using assms(2,3,5) by simp
qed

lemma update_mission_keeps:
  assumes "mission_db_ok s"
    and "\<And>r. mission_at mid s = Some r \<Longrightarrow> mission_row_ok r \<Longrightarrow> q r \<Longrightarrow>
      mr_mission_id (f r) = mr_mission_id r \<and> mission_row_ok (f r) \<and> mission_row_le r (f r)"
  shows "mission_db_ok (fst (update_mission mid q f s)) \<and> mission_db_le s (fst (update_mission mid q f s))"
proof (cases "mission_at mid s")
  case None
  then show ?thesis using assms(1) by (simp add: update_mission_eq mission_order.rel_refl)
next
  case (Some r)
  show ?thesis
  proof (cases "q r")
    case True
    note f = assms(2) [OF Some mission_at_ok [OF assms(1) Some] True]
    have "mr_mission_id (f r) = mid" using f mission_at_Some [OF Some] by simp
    from put_mission_keeps [OF assms(1) Some this] f Some True assms(1) show ?thesis
      by (simp add: update_mission_eq)
  next
    case False
    then show ?thesis using assms(1) Some by (simp add: update_mission_eq mission_order.rel_refl)
  qed
qed

lemma update_swarm_eq:
  assumes "mission_db_ok s"
  shows "update_swarm sid q f s =
    (case swarm_at sid s of None \<Rightarrow> (s, 0)
     | Some w \<Rightarrow> if q w then (s\<lparr>db_swarms := row_put sw_swarm_run_id sid (f w) (db_swarms s)\<rparr>, 1) else (s, 0))"
proof -
  have k: "keyed sw_swarm_run_id (db_swarms s)" using assms by (simp add: mission_db_ok_def)
  show ?thesis
  proof (cases "swarm_at sid s")
    case None
    then show ?thesis by (simp add: update_swarm_def swarm_at_def sql_update_none)
  next
    case (Some w)
    then have "row_at sw_swarm_run_id sid (db_swarms s) = Some w" by (simp add: swarm_at_def)
    from sql_update_put [OF k this, of q f] Some show ?thesis
      by (simp add: update_swarm_def)
  qed
qed

lemma update_swarm_keeps:
  assumes "mission_db_ok s"
    and "\<And>w. swarm_at sid s = Some w \<Longrightarrow> swarm_row_ok w \<Longrightarrow> q w \<Longrightarrow>
      sw_swarm_run_id (f w) = sw_swarm_run_id w \<and> swarm_row_ok (f w) \<and> swarm_row_le w (f w)"
  shows "mission_db_ok (fst (update_swarm sid q f s)) \<and> mission_db_le s (fst (update_swarm sid q f s))"
proof (cases "swarm_at sid s")
  case None
  then show ?thesis using assms(1) by (simp add: update_swarm_eq mission_order.rel_refl)
next
  case (Some w)
  show ?thesis
  proof (cases "q w")
    case True
    note f = assms(2) [OF Some swarm_at_ok [OF assms(1) Some] True]
    have i: "sw_swarm_run_id (f w) = sid" using f swarm_at_Some [OF Some] by simp
    let ?s = "s\<lparr>db_swarms := row_put sw_swarm_run_id sid (f w) (db_swarms s)\<rparr>"
    have "mission_db_ok ?s" using assms(1) f i by (simp add: mission_db_ok_def keyed_put list_all_put)
    moreover have "mission_db_le s ?s" unfolding mission_db_le_def using f i Some by simp
    ultimately show ?thesis using assms(1) Some True by (simp add: update_swarm_eq)
  next
    case False
    then show ?thesis using assms(1) Some by (simp add: update_swarm_eq mission_order.rel_refl)
  qed
qed

end
