(* ===== verification/Mission_Guarantee.thy ===== *)
theory Mission_Guarantee
  imports Mission_Invariant
begin

text \<open>
  Every operation of the mission store keeps the invariant and moves the ledger forward only,
  under every environment that does so too (\<open>fair\<close>).
\<close>

abbreviation fair :: "outside \<Rightarrow> bool" where
  "fair ou \<equiv> relied mission_db_ok mission_db_le (out_env ou)"

abbreviation guarantees :: "'a mission_prog \<Rightarrow> bool" where
  "guarantees m \<equiv> keeps mission_db_ok mission_db_le m"

abbreviation guarantees_at :: "'a mission_prog \<Rightarrow> mission_db \<Rightarrow> bool" where
  "guarantees_at m s \<equiv> keeps_at mission_db_ok mission_db_le m s"

lemmas guarantee_rules = mission_order.keeps_intros

text \<open>No other session commits anything.\<close>

definition idle_env :: "nat \<Rightarrow> mission_db \<Rightarrow> mission_db" where
  "idle_env k s = s"

lemma fair_idle: "out_env ou = idle_env \<Longrightarrow> fair ou"
  by (simp add: relied_def idle_env_def mission_order.rel_refl)

lemma found_mission_at:
  assumes "mission_db_ok s"
    and "sql_first (\<lambda>r. mr_mission_id r = mid \<and> p r) (db_missions s) = Some row"
  shows "mission_at mid s = Some row \<and> p row"
proof -
  have "row \<in> set (db_missions s)" "mr_mission_id row = mid" "p row"
    using sql_first_Some [OF assms(2)] by simp_all
  moreover have "keyed mr_mission_id (db_missions s)" using assms(1) by (simp add: mission_db_ok_def)
  ultimately show ?thesis by (auto simp: mission_at_def dest: row_at_keyed)
qed

lemma mission_at_found: "mission_at mid s = Some row \<Longrightarrow> p row \<Longrightarrow> mission_db_ok s \<Longrightarrow>
    sql_first (\<lambda>r. mr_mission_id r = mid \<and> p r) (db_missions s) = Some row"
proof -
  assume m: "mission_at mid s = Some row" "p row" and ok: "mission_db_ok s"
  have "sql_first (\<lambda>r. mr_mission_id r = mid \<and> p r) (db_missions s) \<noteq> None"
    using mission_at_Some [OF m(1)] m(2) by (auto simp: sql_first_None)
  then obtain row' where "sql_first (\<lambda>r. mr_mission_id r = mid \<and> p r) (db_missions s) = Some row'" by blast
  with found_mission_at [OF ok this] m(1) show ?thesis by simp
qed

text \<open>
  Compare-and-set: what was read is still the content of the row if the statement matches it.
\<close>

lemma cas_step:
  assumes "fair ou" and "mission_db_ok s" and "mission_at mid s = Some row"
    and q: "\<And>r. q r \<Longrightarrow> mr_revision r = mr_revision row"
    and upd: "\<And>r. same_content row r \<Longrightarrow> mission_row_le row r \<Longrightarrow> mission_row_ok r \<Longrightarrow> q r \<Longrightarrow>
      mr_mission_id (f r) = mr_mission_id r \<and> mission_row_ok (f r) \<and> mission_row_le r (f r)"
    and g: "\<And>n. guarantees (g n)"
  shows "guarantees_at (seq (pause (out_env ou)) (\<lambda>_. seq (commit (update_mission mid q f)) g)) s"
proof (rule mission_order.keeps_at_pause [OF assms(1,2)])
  fix k
  let ?s = "out_env ou k s"
  assume ok: "mission_db_ok ?s" and le: "mission_db_le s ?s"
  show "guarantees_at (seq (commit (update_mission mid q f)) g) ?s"
  proof (rule mission_order.keeps_at_commit [OF _ g], rule update_mission_keeps [OF ok])
    fix r assume r: "mission_at mid ?s = Some r" "mission_row_ok r" "q r"
    from mission_db_leD(1) [OF le assms(3)] r(1) have le: "mission_row_le row r" by simp
    then have "same_content row r" using q [OF r(3)] by (rule mission_row_leD(9))
    then show "mr_mission_id (f r) = mr_mission_id r \<and> mission_row_ok (f r) \<and> mission_row_le r (f r)"
      using upd le r(2,3) by blast
  qed
qed

section \<open>Reads\<close>

lemma get_mission_guarantees: "fair ou \<Longrightarrow> guarantees (get_mission ou mid org_id user_id)"
  unfolding get_mission_def by (intro mission_order.keeps_intros)

lemma list_unfinished_guarantees: "fair ou \<Longrightarrow> guarantees (list_unfinished ou org_id limit user_id)"
  unfolding list_unfinished_def by (intro mission_order.keeps_intros)

lemma list_checkpoints_guarantees: "fair ou \<Longrightarrow> guarantees (list_checkpoints ou mid limit)"
  unfolding list_checkpoints_def by (intro mission_order.keeps_intros)

lemma latest_checkpoint_guarantees: "fair ou \<Longrightarrow> guarantees (latest_checkpoint ou mid)"
  unfolding latest_checkpoint_def
  by (intro mission_order.keeps_seq mission_order.keeps_ret list_checkpoints_guarantees)

lemma get_swarm_run_guarantees: "fair ou \<Longrightarrow> guarantees (get_swarm_run ou sid)"
  unfolding get_swarm_run_def by (intro mission_order.keeps_intros)

lemma list_swarm_runs_guarantees: "fair ou \<Longrightarrow> guarantees (list_swarm_runs ou mid org_id)"
  unfolding list_swarm_runs_def by (intro mission_order.keeps_intros)

section \<open>The lease\<close>

lemma acquire_lease_guarantees:
  assumes "fair ou"
  shows "guarantees (acquire_lease ou mid owner ttl org_id)"
  unfolding acquire_lease_def Let_def
proof (intro mission_order.keeps_seq mission_order.keeps_tick)
  fix now
  let ?f = "\<lambda>found. case found of None \<Rightarrow> ret None
    | Some row \<Rightarrow> if mission_terminal (mr_state row) then ret None
        else if \<not> lease_free now (take 128 owner) row then ret None
        else seq (pause (out_env ou)) (\<lambda>_.
          seq (commit (update_mission mid
                 (\<lambda>r. mr_revision r = mr_revision row \<and> mr_lease_epoch r = mr_lease_epoch row)
                 (lease_values (take 128 owner) now (lease_expiry now ttl) row)))
          (\<lambda>n. if n = 0 then ret None else ret (Some (mr_lease_epoch row + 1, lease_expiry now ttl))))"
  let ?q = "\<lambda>s. sql_first (\<lambda>r. mr_mission_id r = mid \<and> org_user_match org_id None r) (db_missions s)"
  have inner: "guarantees (seq (query ?q) ?f)" if tok: "take 128 owner \<noteq> []"
  proof (intro keeps_atI keeps_at_query)
    fix s assume ok: "mission_db_ok s"
    show "guarantees_at (?f (?q s)) s"
    proof (cases "?q s")
      case None
      then show ?thesis using ok by (simp add: keeps_at mission_order.keeps_ret)
    next
      case (Some row)
      note at = found_mission_at [OF ok Some, THEN conjunct1]
      note row_ok = mission_at_ok [OF ok at]
      have "guarantees_at (seq (pause (out_env ou)) (\<lambda>_.
          seq (commit (update_mission mid
                 (\<lambda>r. mr_revision r = mr_revision row \<and> mr_lease_epoch r = mr_lease_epoch row)
                 (lease_values (take 128 owner) now (lease_expiry now ttl) row)))
          (\<lambda>n. if n = 0 then ret None else ret (Some (mr_lease_epoch row + 1, lease_expiry now ttl))))) s"
        if "\<not> mission_terminal (mr_state row)"
      proof (rule cas_step [OF assms ok at])
        fix r assume "same_content row r" "mission_row_ok r"
          "mr_revision r = mr_revision row \<and> mr_lease_epoch r = mr_lease_epoch row"
        then show "mr_mission_id (lease_values (take 128 owner) now (lease_expiry now ttl) row r) = mr_mission_id r
            \<and> mission_row_ok (lease_values (take 128 owner) now (lease_expiry now ttl) row r)
            \<and> mission_row_le r (lease_values (take 128 owner) now (lease_expiry now ttl) row r)"
          using tok that row_ok
          by (simp add: lease_values_def same_content_def mission_row_ok_def mission_row_le_def)
      qed (simp_all add: mission_order.keeps_ret)
      then show ?thesis using ok Some by (simp add: keeps_at mission_order.keeps_ret)
    qed
  qed
  show "guarantees (if take 128 owner = [] then ret None else seq (pause (out_env ou)) (\<lambda>_. seq (query ?q) ?f))"
    using inner assms by (simp add: mission_order.keeps_ret mission_order.keeps_seq mission_order.keeps_pause)
qed

lemma update_then:
  assumes "fair ou"
    and "\<And>s r. mission_row_ok r \<Longrightarrow> q r \<Longrightarrow>
      mr_mission_id (f r) = mr_mission_id r \<and> mission_row_ok (f r) \<and> mission_row_le r (f r)"
    and "\<And>n. guarantees (g n)"
  shows "guarantees (seq (commit (update_mission mid q f)) g)"
proof (rule keeps_atI, rule mission_order.keeps_at_commit [OF _ assms(3)])
  show "mission_db_ok s \<Longrightarrow> mission_db_ok (fst (update_mission mid q f s)) \<and> mission_db_le s (fst (update_mission mid q f s))" for s
    using update_mission_keeps [of s mid q f] assms(2) by blast
qed

lemma heartbeat_lease_guarantees:
  assumes "fair ou"
  shows "guarantees (heartbeat_lease ou mid owner epoch ttl)"
  unfolding heartbeat_lease_def
proof (rule mission_order.keeps_seq [OF mission_order.keeps_tick], rule mission_order.keeps_seq [OF mission_order.keeps_pause [OF assms]])
  fix now
  show "guarantees (seq (commit (update_mission mid
      (\<lambda>r. mr_lease_owner r = Some (take 128 owner) \<and> mr_lease_epoch r = epoch)
      (\<lambda>r. r\<lparr>mr_lease_expires_at := Some (lease_expiry now ttl), mr_heartbeat_at := Some now,
             mr_updated_at := now\<rparr>))) (\<lambda>n. ret (n \<noteq> 0)))"
    by (rule update_then [OF assms])
      (auto simp: mission_row_ok_def mission_row_le_def same_content_def mission_order.keeps_ret)
qed

lemma release_lease_guarantees:
  assumes "fair ou"
  shows "guarantees (release_lease ou mid owner epoch)"
  unfolding release_lease_def
proof (rule mission_order.keeps_seq [OF mission_order.keeps_pause [OF assms]], rule mission_order.keeps_seq [OF mission_order.keeps_tick])
  fix now
  show "guarantees (seq (commit (update_mission mid
      (\<lambda>r. mr_lease_owner r = Some (take 128 owner) \<and> mr_lease_epoch r = epoch)
      (\<lambda>r. r\<lparr>mr_lease_owner := None, mr_lease_expires_at := None, mr_updated_at := now\<rparr>))) (\<lambda>n. ret (n \<noteq> 0)))"
    by (rule update_then [OF assms])
      (auto simp: mission_row_ok_def mission_row_le_def same_content_def mission_order.keeps_ret)
qed

section \<open>Fenced updates\<close>

lemma fenced_update_guarantees:
  assumes "fair ou"
    and decide: "\<And>row vals r. mission_row_ok row \<Longrightarrow> decide row = Inr (Some vals) \<Longrightarrow> same_content row r \<Longrightarrow>
      mission_row_ok r \<Longrightarrow> mr_revision r = mr_revision row \<Longrightarrow>
      mr_mission_id (vals r) = mr_mission_id r \<and> mission_row_ok (vals r) \<and> mission_row_le r (vals r)"
  shows "guarantees (fenced_update ou mid epoch decide)"
proof -
  let ?tail = "\<lambda>n :: nat. if n = 0 then fail_with (Fencing ''CAS_LOST'')
       else seq (pause (out_env ou)) (\<lambda>_. seq (query (mission_at mid)) (\<lambda>again. case again of
              None \<Rightarrow> fail_with Crash | Some r \<Rightarrow> ret (mission_to_record r)))"
  have t: "guarantees (?tail n)" for n
    by (intro guarantee_rules assms(1))
  let ?f = "\<lambda>found. case found of None \<Rightarrow> fail_with (Rejected ''MISSION_NOT_FOUND'')
      | Some row \<Rightarrow> (case decide row of Inl err \<Rightarrow> fail_with err
           | Inr None \<Rightarrow> ret (mission_to_record row)
           | Inr (Some vals) \<Rightarrow> seq (pause (out_env ou)) (\<lambda>_. seq (commit (update_mission mid
                  (\<lambda>r. mr_lease_epoch r = epoch \<and> mr_revision r = mr_revision row) vals)) ?tail))"
  have "guarantees (seq (query (mission_at mid)) ?f)"
  proof (intro keeps_atI keeps_at_query)
    fix s assume ok: "mission_db_ok s"
    show "guarantees_at (?f (mission_at mid s)) s"
    proof (cases "mission_at mid s")
      case None
      then show ?thesis using ok by (simp add: keeps_at mission_order.keeps_fail)
    next
      case (Some row)
      note row_ok = mission_at_ok [OF ok Some]
      have cas: "guarantees_at (seq (pause (out_env ou)) (\<lambda>_. seq (commit (update_mission mid
                  (\<lambda>r. mr_lease_epoch r = epoch \<and> mr_revision r = mr_revision row) vals)) ?tail)) s"
        if "decide row = Inr (Some vals)" for vals
        by (rule cas_step [OF assms(1) ok Some _ _ t]) (use decide [OF row_ok that] in auto)
      consider (err) err where "decide row = Inl err" | (same) "decide row = Inr None"
        | (new) vals where "decide row = Inr (Some vals)"
        by (cases "decide row") (auto simp: not_None_eq)
      then show ?thesis
        using Some ok cas by cases (simp_all add: keeps_at guarantee_rules)
    qed
  qed
  then show ?thesis
    unfolding fenced_update_def using assms(1) by (simp add: guarantee_rules)
qed

lemma transition_guarantees:
  assumes "fair ou"
  shows "guarantees (transition_mission ou mid to_state epoch owner expected failure patch)"
proof (cases "state_of to_state")
  case None
  then show ?thesis by (simp add: transition_mission_def mission_order.keeps_fail)
next
  case (Some dest)
  have "guarantees (fenced_update ou mid epoch (transition_decision now dest epoch owner expected failure patch))" for now
  proof (rule fenced_update_guarantees [OF assms])
    fix row vals r
    assume h: "mission_row_ok row" "transition_decision now dest epoch owner expected failure patch row = Inr (Some vals)"
      "same_content row r" "mission_row_ok r" "mr_revision r = mr_revision row"
    have allowed: "mission_transition_allowed (mr_state r) dest" "\<not> mission_terminal (mr_state r)"
      using h(2,3) transition_from_terminal
      by (auto simp: transition_decision_def same_content_def Let_def split: option.splits if_splits)
    have "vals = mission_transition_values now dest failure patch row"
      using h(2) by (auto simp: transition_decision_def split: option.splits if_splits)
    then show "mr_mission_id (vals r) = mr_mission_id r \<and> mission_row_ok (vals r) \<and> mission_row_le r (vals r)"
      using h(4,5) allowed state_path_step [OF allowed(1)]
      by (auto simp: mission_transition_values_def mission_row_ok_def mission_row_le_def Let_def split: option.split)
  qed
  then show ?thesis
    using Some by (simp add: transition_mission_def guarantee_rules)
qed

lemma patch_guarantees:
  assumes "fair ou"
  shows "guarantees (patch_mission ou mid epoch owner p expected)"
  unfolding patch_mission_def
proof (intro mission_order.keeps_seq mission_order.keeps_tick fenced_update_guarantees [OF assms])
  fix now row vals r
  assume h: "mission_row_ok row" "patch_decision now epoch owner expected p row = Inr (Some vals)"
      "same_content row r" "mission_row_ok r" "mr_revision r = mr_revision row"
  have "vals = patch_values now p row" "\<not> mission_terminal (mr_state r)"
    using h(2,3) by (auto simp: patch_decision_def same_content_def split: option.splits if_splits)
  then show "mr_mission_id (vals r) = mr_mission_id r \<and> mission_row_ok (vals r) \<and> mission_row_le r (vals r)"
    using h(1,3-5)
    by (auto simp: patch_values_def mission_row_ok_def mission_row_le_def same_content_def int_or_def split: option.split)
qed

section \<open>Creating and checkpointing\<close>

lemma insert_mission_keeps:
  assumes "mission_db_ok s" and "mission_row_ok row"
  shows "mission_db_ok (fst (insert_mission row s)) \<and> mission_db_le s (fst (insert_mission row s))"
proof (cases "mission_at (mr_mission_id row) s")
  case None
  have "mission_db_ok (s\<lparr>db_missions := db_missions s @ [row]\<rparr>)"
    using assms None by (auto simp: mission_db_ok_def keyed_def mission_at_def row_at_None)
  moreover have "mission_db_le s (s\<lparr>db_missions := db_missions s @ [row]\<rparr>)"
    by (auto simp: mission_db_le_def mission_at_def swarm_at_def row_at_append)
  ultimately show ?thesis by (simp add: insert_mission_def None)
next
  case (Some r)
  then show ?thesis using assms(1) by (simp add: insert_mission_def mission_order.rel_refl)
qed

lemma new_mission_row_ok:
  "mission_row_ok (new_mission_row mid now org_id user_id project_id owner_scope root_goal session_id quota)"
  by (simp add: mission_row_ok_def new_mission_row_def mission_terminal_def mission_terminal_states_def)

lemma create_mission_guarantees:
  assumes "fair ou"
  shows "guarantees (create_mission ou org_id user_id project_id owner_scope root_goal session_id quota mission_id)"
proof -
  have put: "guarantees (commit (insert_mission (new_mission_row mid now org_id user_id project_id owner_scope root_goal session_id quota)))"
    for mid now
    by (rule mission_order.keeps_commit) (simp add: insert_mission_keeps new_mission_row_ok)
  show ?thesis
    unfolding create_mission_def Let_def by (intro guarantee_rules put assms)
qed

lemma newest_first_set [simp]: "set (newest_first mid cks) = {c \<in> set cks. ck_mission_id c = mid}"
  by (auto simp: newest_first_def sql_where_def)

lemma prune_ring:
  assumes "distinct cks"
  shows "length (sql_where (\<lambda>c. ck_mission_id c = mid) (prune_checkpoints mid cks)) \<le> MAX_CHECKPOINTS_RING"
proof -
  let ?nf = "newest_first mid cks"
  have d: "distinct ?nf" using assms by (simp add: newest_first_def sql_where_def)
  have split: "take MAX_CHECKPOINTS_RING ?nf @ drop MAX_CHECKPOINTS_RING ?nf = ?nf" by simp
  have "set (sql_where (\<lambda>c. ck_mission_id c = mid) (prune_checkpoints mid cks)) =
      set ?nf - set (drop MAX_CHECKPOINTS_RING ?nf)"
    by (auto simp: sql_where_def prune_checkpoints_def)
  also have "\<dots> \<subseteq> set (take MAX_CHECKPOINTS_RING ?nf)"
    using split by (metis Diff_subset_conv Un_commute order_refl set_append)
  finally have "card (set (sql_where (\<lambda>c. ck_mission_id c = mid) (prune_checkpoints mid cks))) \<le>
      card (set (take MAX_CHECKPOINTS_RING ?nf))"
    by (simp add: card_mono)
  moreover have "distinct (sql_where (\<lambda>c. ck_mission_id c = mid) (prune_checkpoints mid cks))"
    using assms by (simp add: sql_where_def prune_checkpoints_def)
  ultimately show ?thesis
    using card_length [of "take MAX_CHECKPOINTS_RING ?nf"] by (simp add: distinct_card)
qed

lemma prune_other:
  "m \<noteq> mid \<Longrightarrow> sql_where (\<lambda>c. ck_mission_id c = m) (prune_checkpoints mid cks) = sql_where (\<lambda>c. ck_mission_id c = m) cks"
  by (auto simp: sql_where_def prune_checkpoints_def intro!: filter_cong dest!: in_set_dropD)

lemma store_checkpoint_keeps:
  assumes "mission_db_ok s"
  shows "mission_db_ok (fst (store_checkpoint mid epoch owner rec cp snap now s))
    \<and> mission_db_le s (fst (store_checkpoint mid epoch owner rec cp snap now s))"
proof -
  define q where "q = (\<lambda>r :: mission_row. mr_lease_epoch r = epoch \<and> mr_lease_owner r = Some (take 128 owner) \<and> mr_revision r = mc_revision rec)"
  define f where "f = (\<lambda>r :: mission_row. r\<lparr>mr_recovery := (mc_recovery rec)\<lparr>rv_last_checkpoint_id := cp_checkpoint_id cp,
      rv_last_checkpoint_at := cp_created_at cp\<rparr>, mr_revision := mc_revision rec + 1, mr_updated_at := now\<rparr>)"
  obtain s1 n where u: "update_mission mid q f s = (s1, n)" by (cases "update_mission mid q f s")
  have "mission_db_ok (fst (update_mission mid q f s)) \<and> mission_db_le s (fst (update_mission mid q f s))"
    by (rule update_mission_keeps [OF assms])
      (auto simp: q_def f_def mission_row_ok_def mission_row_le_def same_content_def)
  then have ok1: "mission_db_ok s1" and le1: "mission_db_le s s1" by (simp_all add: u)
  define row where "row = \<lparr>ck_checkpoint_id = cp_checkpoint_id cp, ck_mission_id = mid, ck_org_id = mc_org_id rec,
      ck_mission_revision = cp_mission_revision cp, ck_goal_revision = cp_goal_revision cp,
      ck_state = cp_state cp, ck_snapshot = snap, ck_created_at = now\<rparr>"
  have e: "store_checkpoint mid epoch owner rec cp snap now s =
      (if n = 0 then (s, CK_lost)
       else if cp_checkpoint_id cp \<in> ck_checkpoint_id ` set (db_checkpoints s1) then (s, CK_duplicate)
       else (s1\<lparr>db_checkpoints := prune_checkpoints mid (db_checkpoints s1 @ [row])\<rparr>, CK_written))"
    using u by (simp add: store_checkpoint_def q_def f_def row_def)
  show ?thesis
  proof (cases "n = 0 \<or> cp_checkpoint_id cp \<in> ck_checkpoint_id ` set (db_checkpoints s1)")
    case True
    then show ?thesis using assms by (auto simp: e mission_order.rel_refl)
  next
    case False
    have k: "keyed ck_checkpoint_id (db_checkpoints s1 @ [row])"
      using ok1 False by (auto simp: mission_db_ok_def keyed_def row_def)
    then have d: "distinct (db_checkpoints s1 @ [row])"
      unfolding keyed_def by (rule distinct_map [THEN iffD1, THEN conjunct1])
    have "ring_ok (prune_checkpoints mid (db_checkpoints s1 @ [row]))"
      unfolding ring_ok_def
    proof
      fix m
      show "length (sql_where (\<lambda>c. ck_mission_id c = m) (prune_checkpoints mid (db_checkpoints s1 @ [row]))) \<le> MAX_CHECKPOINTS_RING"
      proof (cases "m = mid")
        case True
        then show ?thesis using prune_ring [OF d] by simp
      next
        case False
        then show ?thesis
          using ok1 prune_other [OF False, of "db_checkpoints s1 @ [row]"]
          by (simp add: mission_db_ok_def ring_ok_def sql_where_def row_def)
      qed
    qed
    moreover have "keyed ck_checkpoint_id (prune_checkpoints mid (db_checkpoints s1 @ [row]))"
      using k unfolding keyed_def prune_checkpoints_def Let_def by (rule distinct_map_filter)
    ultimately have "mission_db_ok (s1\<lparr>db_checkpoints := prune_checkpoints mid (db_checkpoints s1 @ [row])\<rparr>)"
      using ok1 by (simp add: mission_db_ok_def)
    moreover have "mission_db_le s (s1\<lparr>db_checkpoints := prune_checkpoints mid (db_checkpoints s1 @ [row])\<rparr>)"
      using le1 by (simp add: mission_db_le_def)
    ultimately show ?thesis using False by (simp add: e)
  qed
qed

lemma write_checkpoint_guarantees:
  assumes "fair ou"
  shows "guarantees (write_checkpoint ou bytes mid epoch owner note)"
proof -
  have out: "guarantees (case x of CK_lost \<Rightarrow> fail_with (Fencing ''CAS_LOST'') | CK_duplicate \<Rightarrow> fail_with Integrity
      | CK_written \<Rightarrow> ret cp)" for x and cp :: mission_checkpoint
    by (cases x) (simp_all add: guarantee_rules)
  have put: "guarantees (commit (store_checkpoint mid epoch owner rec cp snap now))" for rec cp snap now
    by (rule mission_order.keeps_commit) (simp add: store_checkpoint_keeps)
  show ?thesis
    unfolding write_checkpoint_def Let_def
  proof (rule mission_order.keeps_seq [OF get_mission_guarantees [OF assms]], goal_cases)
    case (1 x)
    then show ?case using assms out put by (cases x) (simp_all add: guarantee_rules)
  qed
qed

section \<open>Swarm runs\<close>

definition task_dict :: "(string \<times> task_receipt) list \<Rightarrow> bool" where
  "task_dict tasks = (distinct (map fst tasks) \<and> list_all (\<lambda>(tid, t). tr_task_id t = tid) tasks)"

lemma task_dict_update: "task_dict tasks \<Longrightarrow> tr_task_id r = tid \<Longrightarrow> task_dict (AList.update tid r tasks)"
proof -
  assume "task_dict tasks" "tr_task_id r = tid"
  moreover have "set (AList.update tid r tasks) \<subseteq> insert (tid, r) (set tasks)"
    by (induction tasks) auto
  ultimately show ?thesis
    by (fastforce simp: task_dict_def distinct_update list_all_iff)
qed

lemma truncate_tasks_dict:
  assumes "task_dict tasks"
  shows "task_dict (truncate_tasks tasks)"
proof -
  have "map fst (map (\<lambda>k. (k, the (map_of tasks k))) ks) = ks" for ks
    by (induction ks) simp_all
  moreover have "tr_task_id (the (map_of tasks k)) = k" if "k \<in> set (take MAX_SWARM_TASKS (sort (map fst tasks)))" for k
  proof -
    have "k \<in> fst ` set tasks" using set_take_subset that by fastforce
    then obtain t where "map_of tasks k = Some t" by (metis map_of_eq_None_iff option.exhaust)
    then show ?thesis using assms map_of_SomeD by (fastforce simp: task_dict_def list_all_iff)
  qed
  ultimately show ?thesis using assms by (auto simp: task_dict_def truncate_tasks_def list_all_iff)
qed

lemma insert_swarm_keeps:
  assumes "mission_db_ok s" and "swarm_row_ok row"
  shows "mission_db_ok (fst (insert_swarm row s)) \<and> mission_db_le s (fst (insert_swarm row s))"
proof (cases "swarm_at (sw_swarm_run_id row) s")
  case None
  have "mission_db_ok (s\<lparr>db_swarms := db_swarms s @ [row]\<rparr>)"
    using assms None by (auto simp: mission_db_ok_def keyed_def swarm_at_def row_at_None)
  moreover have "mission_db_le s (s\<lparr>db_swarms := db_swarms s @ [row]\<rparr>)"
    by (auto simp: mission_db_le_def mission_at_def swarm_at_def row_at_append)
  ultimately show ?thesis by (simp add: insert_swarm_def None)
next
  case (Some r)
  then show ?thesis using assms(1) by (simp add: insert_swarm_def mission_order.rel_refl)
qed

lemma create_swarm_run_guarantees:
  assumes "fair ou" and "task_dict tasks"
  shows "guarantees (create_swarm_run ou mid org_id goal_slice tasks swarm_run_id)"
proof -
  have put: "guarantees (commit (insert_swarm (new_swarm_row sid mid org_id goal_slice (truncate_tasks tasks) now)))" for sid now
    by (rule mission_order.keeps_commit)
      (use truncate_tasks_dict [OF assms(2)] in \<open>simp add: insert_swarm_keeps swarm_row_ok_def new_swarm_row_def task_dict_def\<close>)
  show ?thesis
    unfolding create_swarm_run_def Let_def by (intro guarantee_rules assms(1) put)
qed

text \<open>A receipt that is not settled yet may be replaced; every settled one stays.\<close>

lemma settle_values_le:
  assumes "swarm_row_ok row"
    and "\<And>t. map_of (sw_tasks row) (tr_task_id receipt) = Some t \<Longrightarrow> tr_state t \<notin> set sticky_states"
  shows "sw_swarm_run_id (settle_values now wall receipt row row) = sw_swarm_run_id row
    \<and> swarm_row_ok (settle_values now wall receipt row row)
    \<and> swarm_row_le row (settle_values now wall receipt row row)"
proof -
  let ?r = "receipt\<lparr>tr_settled_at := wall\<rparr>"
  have "task_dict (sw_tasks row)" using assms(1) by (simp add: swarm_row_ok_def task_dict_def)
  then have d: "task_dict (AList.update (tr_task_id receipt) ?r (sw_tasks row))"
    by (simp add: task_dict_update)
  then show ?thesis
    using assms unfolding settle_values_def Let_def swarm_row_ok_def swarm_row_le_def task_dict_def
    by (auto simp: dict_update_lookup simp del: map_of_eq_Some_iff)
qed

lemma settle_once_guarantees:
  assumes "fair ou"
  shows "guarantees (settle_once ou sid receipt)"
proof -
  let ?tail = "\<lambda>n :: nat. if n = 0 then fail_with (Fencing ''CAS_LOST'')
      else seq (get_swarm_run ou sid) (\<lambda>got. case got of None \<Rightarrow> fail_with Crash | Some run \<Rightarrow> ret run)"
  have t: "guarantees (?tail n)" for n
    by (intro guarantee_rules get_swarm_run_guarantees assms)
  let ?blocked = "\<lambda>row. case map_of (sw_tasks row) (tr_task_id receipt) of None \<Rightarrow> False
      | Some existing \<Rightarrow> tr_state existing \<in> set sticky_states"
  let ?f = "\<lambda>now found. case found of None \<Rightarrow> fail_with (Rejected ''SWARM_RUN_NOT_FOUND'')
      | Some row \<Rightarrow> (if ?blocked row then ret (swarm_to_run row)
           else seq (tick (out_clock ou)) (\<lambda>wall. seq (pause (out_env ou)) (\<lambda>_.
             seq (commit (update_swarm sid (\<lambda>w. sw_revision w = sw_revision row) (settle_values now wall receipt row))) ?tail)))"
  have "guarantees (seq (query (swarm_at sid)) (?f now))" for now
  proof (intro keeps_atI keeps_at_query)
    fix s assume ok: "mission_db_ok s"
    show "guarantees_at (?f now (swarm_at sid s)) s"
    proof (cases "swarm_at sid s")
      case None
      then show ?thesis using ok by (simp add: keeps_at mission_order.keeps_fail)
    next
      case (Some row)
      have "guarantees_at (seq (tick (out_clock ou)) (\<lambda>wall. seq (pause (out_env ou)) (\<lambda>_.
             seq (commit (update_swarm sid (\<lambda>w. sw_revision w = sw_revision row) (settle_values now wall receipt row))) ?tail))) s"
        if nb: "\<not> ?blocked row"
      proof (rule keeps_at_tick, rule mission_order.keeps_at_pause [OF assms ok])
        fix wall k
        let ?s = "out_env ou k s"
        assume ok': "mission_db_ok ?s" and le: "mission_db_le s ?s"
        show "guarantees_at (seq (commit (update_swarm sid (\<lambda>w. sw_revision w = sw_revision row) (settle_values now wall receipt row))) ?tail) ?s"
        proof (rule mission_order.keeps_at_commit [OF _ t], rule update_swarm_keeps [OF ok'])
          fix w assume w: "swarm_at sid ?s = Some w" "swarm_row_ok w" "sw_revision w = sw_revision row"
          with mission_db_leD(2) [OF le Some] have "w = row" by (auto simp: swarm_row_le_def)
          moreover have "\<And>x. map_of (sw_tasks row) (tr_task_id receipt) = Some x \<Longrightarrow> tr_state x \<notin> set sticky_states"
            using nb by simp
          ultimately show "sw_swarm_run_id (settle_values now wall receipt row w) = sw_swarm_run_id w
              \<and> swarm_row_ok (settle_values now wall receipt row w) \<and> swarm_row_le w (settle_values now wall receipt row w)"
            using settle_values_le w(2) by blast
        qed
      qed
      then show ?thesis using Some ok by (simp add: keeps_at mission_order.keeps_ret)
    qed
  qed
  then show ?thesis
    unfolding settle_once_def using assms by (simp add: guarantee_rules)
qed

lemma settle_attempts_guarantees: "fair ou \<Longrightarrow> guarantees (settle_attempts n ou sid receipt)"
  by (induction n) (simp_all add: guarantee_rules settle_once_guarantees)

lemma settle_swarm_task_guarantees: "fair ou \<Longrightarrow> guarantees (settle_swarm_task ou sid receipt)"
  by (simp add: settle_swarm_task_def settle_attempts_guarantees)

text \<open>The store's methods as one collection for the components above it.\<close>

lemmas store_guarantees = get_mission_guarantees list_unfinished_guarantees list_checkpoints_guarantees
  latest_checkpoint_guarantees get_swarm_run_guarantees list_swarm_runs_guarantees acquire_lease_guarantees
  heartbeat_lease_guarantees release_lease_guarantees transition_guarantees patch_guarantees
  create_mission_guarantees write_checkpoint_guarantees create_swarm_run_guarantees
  settle_swarm_task_guarantees

end
