(* ===== verification/Mission_Recovery.thy ===== *)
theory Mission_Recovery
  imports Mission_Guarantee
begin

text \<open>
  Recovery of unfinished missions (\<open>app/services/mission_runtime/recovery.py\<close>) and the
  resource ledger (\<open>resources.py\<close>), as programs over the store. \<open>recover\<close> keeps the structure of its
  \<open>try/except/finally\<close>: fencing and rejection errors become a refusal, every other error
  propagates, and the lease is given back unless the recovery went through.
\<close>

section \<open>Resume plans\<close>

definition classify_swarm_task :: "task_receipt \<Rightarrow> recovery_class" where
  "classify_swarm_task receipt =
     (let st = tr_state receipt
      in if st = TS_Succeeded \<or> st = TS_Skipped then RC_Completed
         else if st = TS_Cancelled then RC_Cancelled
         else if st = TS_Unresolved then RC_Destructive_unknown
         else if st = TS_Failed then
           (if tr_operation_class receipt = OC_Destructive_at_most_once then RC_Destructive_unknown
            else if tr_operation_class receipt \<in> set [OC_Pure, OC_Idempotent, OC_Repeatable]
            then RC_Retryable_failure
            else RC_Non_retryable_failure)
         else if st = TS_Running then RC_Running_owner_dead
         else RC_Retryable_failure)"

datatype task_fate = Skip_task | Retry_task | Leave_unresolved | Leave_cancelled

definition task_fate_of :: "task_receipt \<Rightarrow> task_fate" where
  "task_fate_of receipt =
     (let klass = classify_swarm_task receipt
      in if klass = RC_Completed then Skip_task
         else if klass = RC_Cancelled then Leave_cancelled
         else if klass = RC_Destructive_unknown then Leave_unresolved
         else if klass = RC_Retryable_failure \<or> klass = RC_Running_owner_dead then
           (if tr_operation_class receipt = OC_Destructive_at_most_once \<and> tr_state receipt = TS_Running
            then Leave_unresolved else Retry_task)
         else Leave_unresolved)"

record resume_plan =
  pl_swarm_run_id :: string
  pl_skip :: "string list"
  pl_retry :: "string list"
  pl_unresolved :: "string list"
  pl_cancelled :: "string list"

definition fated :: "task_fate \<Rightarrow> (string \<times> task_receipt) list \<Rightarrow> string list" where
  "fated fate tasks = map fst (filter (\<lambda>(tid, r). task_fate_of r = fate) tasks)"

definition build_resume_plan :: "swarm_run \<Rightarrow> resume_plan" where
  "build_resume_plan swarm =
     \<lparr>pl_swarm_run_id = sr_swarm_run_id swarm,
      pl_skip = sort (fated Skip_task (sr_tasks swarm)),
      pl_retry = sort (fated Retry_task (sr_tasks swarm)),
      pl_unresolved = sort (fated Leave_unresolved (sr_tasks swarm)),
      pl_cancelled = sort (fated Leave_cancelled (sr_tasks swarm))\<rparr>"

section \<open>Inspection\<close>

record mission_inspection =
  in_state :: mission_state
  in_revision :: int
  in_lease_alive :: bool
  in_owner_dead :: bool
  in_lease_owner :: string
  in_lease_epoch :: int
  in_frontier :: mission_frontier
  in_checkpoint :: string
  in_swarm_plans :: "resume_plan list"
  in_resource_exhausted :: "string list"

definition inspect_mission :: "outside \<Rightarrow> string \<Rightarrow> string option \<Rightarrow> mission_inspection option mission_prog" where
  "inspect_mission ou mid org_id =
     seq (get_mission ou mid org_id None) (\<lambda>found. case found of
        None \<Rightarrow> ret None
      | Some rec \<Rightarrow>
          seq (tick (out_clock ou)) (\<lambda>wall.
          let lease_alive = (mc_lease_expires_at rec > wall \<and> mc_lease_owner rec \<noteq> [])
          in seq (list_swarm_runs ou mid None) (\<lambda>swarms.
             seq (latest_checkpoint ou mid) (\<lambda>cp.
               ret (Some \<lparr>in_state = mc_state rec, in_revision = mc_revision rec, in_lease_alive = lease_alive,
                 in_owner_dead = (mc_lease_owner rec \<noteq> [] \<and> \<not> lease_alive), in_lease_owner = mc_lease_owner rec,
                 in_lease_epoch = mc_lease_epoch rec, in_frontier = mc_frontier rec,
                 in_checkpoint = (case cp of None \<Rightarrow> [] | Some c \<Rightarrow> ck_checkpoint_id c),
                 in_swarm_plans = map build_resume_plan swarms,
                 in_resource_exhausted = budget_exhausted (mc_budget rec)\<rparr>)))))"

section \<open>Recovery\<close>

record recovered =
  rd_lease_epoch :: int
  rd_lease_expires_at :: time
  rd_state :: mission_state
  rd_frontier :: mission_frontier
  rd_resume_plans :: "resume_plan list"
  rd_unresolved :: "string list"

datatype recover_result = RR_not_found | RR_lease_held string | RR_acquire_failed
  | RR_already_terminal mission_state | RR_cannot_enter mission_state int
  | RR_failed mission_error int | RR_ok recovered

definition mark_unresolved :: "task_receipt \<Rightarrow> task_receipt" where
  "mark_unresolved r = r\<lparr>tr_state := TS_Unresolved,
     tr_error_code := (if tr_error_code r \<noteq> [] then tr_error_code r else ''DESTRUCTIVE_UNKNOWN'')\<rparr>"

fun settle_unresolved :: "outside \<Rightarrow> swarm_run \<Rightarrow> string list \<Rightarrow> unit mission_prog" where
  "settle_unresolved ou swarm [] = ret ()"
| "settle_unresolved ou swarm (tid # tids) =
     (case map_of (sr_tasks swarm) tid of
        None \<Rightarrow> fail_with Crash
      | Some receipt \<Rightarrow>
          (if tr_state receipt \<noteq> TS_Unresolved
           then seq (settle_swarm_task ou (sr_swarm_run_id swarm) (mark_unresolved receipt))
                  (\<lambda>_. settle_unresolved ou swarm tids)
           else settle_unresolved ou swarm tids))"

fun resume_swarms :: "outside \<Rightarrow> swarm_run list \<Rightarrow> resume_plan list \<Rightarrow> resume_plan list mission_prog" where
  "resume_swarms ou [] plans = ret plans"
| "resume_swarms ou (swarm # swarms) plans =
     (let plan = build_resume_plan swarm
      in seq (settle_unresolved ou swarm (pl_unresolved plan)) (\<lambda>_. resume_swarms ou swarms (plans @ [plan])))"

definition sorted_union :: "string list list \<Rightarrow> string list" where
  "sorted_union xss = sort (remdups (concat xss))"

definition next_mission_state :: "string list \<Rightarrow> string list \<Rightarrow> string list \<Rightarrow> mission_state" where
  "next_mission_state completed pending failed =
     (if failed \<noteq> [] \<and> pending = [] then MS_Partially_complete
      else if pending \<noteq> [] then MS_Running
      else if completed \<noteq> [] \<and> pending = [] \<and> failed = [] then MS_Complete
      else MS_Partially_complete)"

text \<open>From the resume plans on: the new frontier, the recovery record and the next state.\<close>

definition apply_resume ::
  "outside \<Rightarrow> string \<Rightarrow> string \<Rightarrow> int \<Rightarrow> time \<Rightarrow> mission_record \<Rightarrow> resume_plan list \<Rightarrow> recover_result mission_prog" where
  "apply_resume ou mid worker_id epoch expires rec plans =
     seq (tick (out_clock ou)) (\<lambda>wall.
       let recovery = (mc_recovery rec)\<lparr>rv_last_recovery_at := wall\<rparr>;
           completed = sorted_union (map pl_skip plans);
           pending = sorted_union (map pl_retry plans);
           failed = (if plans = [] then take MAX_FRONTIER (rv_unresolved_ops recovery)
                     else sorted_union (map pl_unresolved plans));
           next_state = (if plans = [] then MS_Running else next_mission_state completed pending failed);
           patch = (if plans = []
                    then no_mission_patch\<lparr>pt_recovery := Some (recovery\<lparr>rv_unresolved_ops := failed\<rparr>)\<rparr>
                    else no_mission_patch\<lparr>
                      pt_frontier := Some (mk_frontier \<lparr>fr_completed = completed, fr_running = [], fr_pending = pending,
                        fr_failed = failed, fr_blocked = failed\<rparr>),
                      pt_recovery := Some (recovery\<lparr>rv_unresolved_ops := take MAX_FRONTIER failed,
                        rv_blocked_reason := (if failed \<noteq> [] then ''destructive_unknown'' else [])\<rparr>)\<rparr>)
       in seq (patch_mission ou mid epoch worker_id patch None) (\<lambda>rec1.
          seq (if mission_transition_allowed (mc_state rec1) next_state \<and> mc_state rec1 \<noteq> next_state
               then transition_mission ou mid (state_value next_state) epoch worker_id None None None
               else ret rec1) (\<lambda>rec2.
            ret (RR_ok \<lparr>rd_lease_epoch = epoch, rd_lease_expires_at = expires, rd_state = mc_state rec2,
              rd_frontier = mc_frontier rec2, rd_resume_plans = plans, rd_unresolved = failed\<rparr>))))"

definition resume_work ::
  "outside \<Rightarrow> string \<Rightarrow> string \<Rightarrow> int \<Rightarrow> time \<Rightarrow> mission_record \<Rightarrow> recover_result mission_prog" where
  "resume_work ou mid worker_id epoch expires rec =
     seq (list_swarm_runs ou mid None) (\<lambda>swarms.
     seq (resume_swarms ou swarms []) (\<lambda>plans. apply_resume ou mid worker_id epoch expires rec plans))"

definition recover_body ::
  "outside \<Rightarrow> string \<Rightarrow> string \<Rightarrow> string option \<Rightarrow> int \<Rightarrow> time \<Rightarrow> recover_result mission_prog" where
  "recover_body ou mid worker_id org_id epoch expires =
     seq (get_mission ou mid org_id None) (\<lambda>found. case found of
        None \<Rightarrow> fail_with Crash
      | Some rec \<Rightarrow>
          (if mc_state rec = MS_Recovering then resume_work ou mid worker_id epoch expires rec
           else if mission_terminal (mc_state rec) then ret (RR_already_terminal (mc_state rec))
           else if \<not> mission_transition_allowed (mc_state rec) MS_Recovering
           then ret (RR_cannot_enter (mc_state rec) epoch)
           else
             seq (tick (out_clock ou)) (\<lambda>wall.
             seq (transition_mission ou mid (state_value MS_Recovering) epoch worker_id None None
                    (Some \<lparr>rp_attempt = rv_attempt (mc_recovery rec) + 1, rp_last_recovery_at = wall\<rparr>)) (\<lambda>rec1.
               resume_work ou mid worker_id epoch expires rec1))))"

definition caught :: "mission_error \<Rightarrow> bool" where
  "caught err = (case err of Fencing _ \<Rightarrow> True | Rejected _ \<Rightarrow> True | _ \<Rightarrow> False)"

definition recover ::
  "outside \<Rightarrow> string \<Rightarrow> string \<Rightarrow> string option \<Rightarrow> int \<Rightarrow> recover_result mission_prog" where
  "recover ou mid worker_id org_id ttl =
     seq (inspect_mission ou mid org_id) (\<lambda>inspection. case inspection of
        None \<Rightarrow> ret RR_not_found
      | Some i \<Rightarrow>
          if in_lease_alive i \<and> in_lease_owner i \<noteq> worker_id then ret (RR_lease_held (in_lease_owner i))
          else
            seq (acquire_lease ou mid worker_id ttl org_id) (\<lambda>acquired. case acquired of
               None \<Rightarrow> ret RR_acquire_failed
             | Some (epoch, expires) \<Rightarrow>
                 on_error
                   (seq (recover_body ou mid worker_id org_id epoch expires) (\<lambda>res.
                      case res of RR_ok _ \<Rightarrow> ret res
                      | _ \<Rightarrow> seq (release_lease ou mid worker_id epoch) (\<lambda>_. ret res)))
                   (\<lambda>err. seq (release_lease ou mid worker_id epoch) (\<lambda>_.
                      if caught err then ret (RR_failed err epoch) else fail_with err))))"

section \<open>The resource ledger\<close>

definition set_quota :: "outside \<Rightarrow> string \<Rightarrow> int \<Rightarrow> string \<Rightarrow> amounts \<Rightarrow> mission_record mission_prog" where
  "set_quota ou mid epoch owner quota =
     seq (get_mission ou mid None None) (\<lambda>found. case found of
        None \<Rightarrow> fail_with (Rejected ''MISSION_NOT_FOUND'')
      | Some rec \<Rightarrow>
          patch_mission ou mid epoch owner
            (no_mission_patch\<lparr>pt_budget := Some ((mc_budget rec)\<lparr>rb_quota :=
               fold (\<lambda>(k, v). AList.update (take 64 k) v) quota []\<rparr>)\<rparr>)
            (Some (mc_revision rec)))"

definition reserve_refused :: "resource_budget \<Rightarrow> string \<Rightarrow> rat \<Rightarrow> mission_error option" where
  "reserve_refused b dm amount =
     (if rb_quota b \<noteq> [] \<and> map_of (rb_quota b) dm = None
      then Some (Rejected (''BUDGET_DIMENSION_UNAVAILABLE:'' @ dm))
      else if map_of (rb_quota b) dm \<noteq> None \<and>
              amount_at (rb_consumed b) dm + amount_at (rb_reserved b) dm + amount > amount_at (rb_quota b) dm
      then Some (Rejected (''BUDGET_EXHAUSTED:'' @ dm))
      else None)"

definition reserve :: "outside \<Rightarrow> string \<Rightarrow> int \<Rightarrow> string \<Rightarrow> string \<Rightarrow> rat \<Rightarrow> mission_record mission_prog" where
  "reserve ou mid epoch owner dm amount =
     seq (get_mission ou mid None None) (\<lambda>found. case found of
        None \<Rightarrow> fail_with (Rejected ''MISSION_NOT_FOUND'')
      | Some rec \<Rightarrow>
          (case reserve_refused (mc_budget rec) dm amount of
             Some err \<Rightarrow> fail_with err
           | None \<Rightarrow> patch_mission ou mid epoch owner
               (no_mission_patch\<lparr>pt_budget := Some (budget_reserve dm amount (mc_budget rec))\<rparr>) (Some (mc_revision rec))))"

definition budget_ticket :: "string \<Rightarrow> string" where
  "budget_ticket key = ''receipt:budget:'' @ key"

definition add_ticket :: "string \<Rightarrow> mission_refs \<Rightarrow> mission_refs" where
  "add_ticket ticket refs =
     (if ticket \<in> set (mx_evidence_refs refs) then refs
      else refs\<lparr>mx_evidence_refs := take MAX_REFS (mx_evidence_refs refs @ [ticket])\<rparr>)"

definition consumption_patch ::
  "string \<Rightarrow> rat \<Rightarrow> rat \<Rightarrow> bool \<Rightarrow> string \<Rightarrow> mission_record \<Rightarrow> mission_patch" where
  "consumption_patch dm amount released retry key rec =
     no_mission_patch\<lparr>pt_budget := Some (budget_charge dm amount retry
                (if released \<noteq> 0 then budget_release dm released (mc_budget rec) else mc_budget rec)),
             pt_refs := (if key \<noteq> [] then Some (add_ticket (budget_ticket key) (mc_refs rec)) else None)\<rparr>"

text \<open>At most 24 attempts; only a lost race (\<open>REVISION_CONFLICT\<close>, \<open>CAS_LOST\<close>) is tried again.\<close>

definition lost_race :: "mission_error \<Rightarrow> bool" where
  "lost_race err = (err \<in> set [Rejected ''REVISION_CONFLICT'', Fencing ''REVISION_CONFLICT'',
     Rejected ''CAS_LOST'', Fencing ''CAS_LOST''])"

fun commit_attempts ::
  "nat \<Rightarrow> mission_error \<Rightarrow> outside \<Rightarrow> string \<Rightarrow> int \<Rightarrow> string \<Rightarrow> string \<Rightarrow> rat \<Rightarrow> rat \<Rightarrow> bool \<Rightarrow> string \<Rightarrow>
   string list option \<Rightarrow> (mission_record \<times> string list option) mission_prog" where
  "commit_attempts 0 last_conflict ou mid epoch owner dm amount released retry key seen = fail_with last_conflict"
| "commit_attempts (Suc n) last_conflict ou mid epoch owner dm amount released retry key seen =
     seq (get_mission ou mid None None) (\<lambda>found. case found of
        None \<Rightarrow> fail_with (Rejected ''MISSION_NOT_FOUND'')
      | Some rec \<Rightarrow>
          if key \<noteq> [] \<and> budget_ticket key \<in> set (mx_evidence_refs (mc_refs rec)) then ret (rec, seen)
          else
            on_error
              (seq (patch_mission ou mid epoch owner (consumption_patch dm amount released retry key rec)
                     (Some (mc_revision rec))) (\<lambda>updated.
                 ret (updated, if key \<noteq> [] then map_option (\<lambda>ks. List.insert key ks) seen else seen)))
              (\<lambda>err. if lost_race err
                 then commit_attempts n err ou mid epoch owner dm amount released retry key seen
                 else fail_with err))"

definition MAX_CAS_ATTEMPTS :: nat where "MAX_CAS_ATTEMPTS = 24"

definition commit_consumption ::
  "outside \<Rightarrow> string \<Rightarrow> int \<Rightarrow> string \<Rightarrow> string \<Rightarrow> rat \<Rightarrow> rat \<Rightarrow> bool \<Rightarrow> string \<Rightarrow>
   string list option \<Rightarrow> (mission_record \<times> string list option) mission_prog" where
  "commit_consumption ou mid epoch owner dm amount released retry key seen =
     (if key \<noteq> [] \<and> seen \<noteq> None \<and> key \<in> set (or_else seen [])
      then seq (get_mission ou mid None None) (\<lambda>got. case got of
             None \<Rightarrow> fail_with (Rejected ''MISSION_NOT_FOUND'')
           | Some rec \<Rightarrow> ret (rec, seen))
      else commit_attempts MAX_CAS_ATTEMPTS Crash ou mid epoch owner dm amount released retry key seen)"

definition release_reserved :: "outside \<Rightarrow> string \<Rightarrow> int \<Rightarrow> string \<Rightarrow> string \<Rightarrow> rat \<Rightarrow> mission_record mission_prog" where
  "release_reserved ou mid epoch owner dm amount =
     seq (get_mission ou mid None None) (\<lambda>found. case found of
        None \<Rightarrow> fail_with (Rejected ''MISSION_NOT_FOUND'')
      | Some rec \<Rightarrow> patch_mission ou mid epoch owner
          (no_mission_patch\<lparr>pt_budget := Some (budget_release dm amount (mc_budget rec))\<rparr>) (Some (mc_revision rec)))"

definition exhausted_dimensions :: "outside \<Rightarrow> string \<Rightarrow> string list mission_prog" where
  "exhausted_dimensions ou mid =
     seq (get_mission ou mid None None) (\<lambda>found.
       ret (case found of None \<Rightarrow> [] | Some rec \<Rightarrow> budget_exhausted (mc_budget rec)))"

section \<open>Guarantees\<close>

lemma inspect_guarantees: "fair ou \<Longrightarrow> guarantees (inspect_mission ou mid org_id)"
  unfolding inspect_mission_def Let_def by (intro guarantee_rules store_guarantees)

lemma settle_unresolved_guarantees: "fair ou \<Longrightarrow> guarantees (settle_unresolved ou swarm tids)"
  by (induction tids) (auto intro!: guarantee_rules store_guarantees)

lemma resume_swarms_guarantees: "fair ou \<Longrightarrow> guarantees (resume_swarms ou swarms plans)"
  by (induction swarms arbitrary: plans)
    (auto simp: Let_def intro!: guarantee_rules settle_unresolved_guarantees)

lemma resume_work_guarantees: "fair ou \<Longrightarrow> guarantees (resume_work ou mid worker_id epoch expires rec)"
  unfolding resume_work_def apply_resume_def Let_def
  by (intro guarantee_rules store_guarantees resume_swarms_guarantees)

lemma recover_body_guarantees: "fair ou \<Longrightarrow> guarantees (recover_body ou mid worker_id org_id epoch expires)"
  unfolding recover_body_def by (intro guarantee_rules store_guarantees resume_work_guarantees)

lemma recover_guarantees:
  assumes "fair ou"
  shows "guarantees (recover ou mid worker_id org_id ttl)"
proof -
  have fin: "guarantees (case res of RR_ok _ \<Rightarrow> ret res
      | _ \<Rightarrow> seq (release_lease ou mid w epoch) (\<lambda>_. ret res))" for res w epoch
    using assms by (cases res) (auto intro!: guarantee_rules store_guarantees)
  have body: "guarantees (case acquired of (epoch, expires) \<Rightarrow> on_error
      (seq (recover_body ou mid worker_id org_id epoch expires) (\<lambda>res.
         case res of RR_ok _ \<Rightarrow> ret res
         | _ \<Rightarrow> seq (release_lease ou mid worker_id epoch) (\<lambda>_. ret res)))
      (\<lambda>err. seq (release_lease ou mid worker_id epoch) (\<lambda>_.
         if caught err then ret (RR_failed err epoch) else fail_with err)))" for acquired
    unfolding case_prod_beta
    by (intro guarantee_rules store_guarantees recover_body_guarantees fin assms)
  show ?thesis
    unfolding recover_def
    by (intro guarantee_rules store_guarantees inspect_guarantees assms body)
qed

lemma commit_attempts_guarantees:
  "fair ou \<Longrightarrow> guarantees (commit_attempts n err ou mid epoch owner dm amount released retry key seen)"
  by (induction n arbitrary: err) (auto intro!: guarantee_rules store_guarantees)

lemma ledger_guarantees:
  assumes "fair ou"
  shows "guarantees (set_quota ou mid epoch owner quota)"
    and "guarantees (reserve ou mid epoch owner dm amount)"
    and "guarantees (commit_consumption ou mid epoch owner dm amount released retry key seen)"
    and "guarantees (release_reserved ou mid epoch owner dm amount)"
    and "guarantees (exhausted_dimensions ou mid)"
  unfolding set_quota_def reserve_def commit_consumption_def release_reserved_def exhausted_dimensions_def
  by (intro guarantee_rules store_guarantees commit_attempts_guarantees assms)+

end
