(* ===== verification/Mission_Service.thy ===== *)
theory Mission_Service
  imports Mission_Recovery
begin

text \<open>
  The facade of the mission runtime (\<open>service.py\<close>), the bridge to the specialist swarm
  (\<open>swarm_bridge.py\<close>), the ownership of artifacts (\<open>artifacts.py\<close>) and the server-side quota
  ceilings (\<open>quota_policy.py\<close>). The best-effort purge of the working context after a terminal
  transition belongs to another store and is left out.
\<close>

section \<open>Lifecycle\<close>

definition DEFAULT_LEASE_TTL :: int where "DEFAULT_LEASE_TTL = 30000000"

definition require_lease :: "outside \<Rightarrow> string \<Rightarrow> string \<Rightarrow> int \<Rightarrow> string option \<Rightarrow> int mission_prog" where
  "require_lease ou mid worker_id ttl org_id =
     seq (acquire_lease ou mid worker_id ttl org_id) (\<lambda>got. case got of
        None \<Rightarrow> fail_with (Fencing ''LEASE_ACQUIRE_FAILED'')
      | Some g \<Rightarrow> ret (fst g))"

definition some_or_crash :: "'a option \<Rightarrow> 'a mission_prog" where
  "some_or_crash x = (case x of None \<Rightarrow> fail_with Crash | Some y \<Rightarrow> ret y)"

definition start_mission ::
  "outside \<Rightarrow> (mission_checkpoint \<Rightarrow> nat) \<Rightarrow> string \<Rightarrow> string \<Rightarrow> string option \<Rightarrow> mission_record mission_prog" where
  "start_mission ou bytes mid worker_id org_id =
     seq (require_lease ou mid worker_id DEFAULT_LEASE_TTL org_id) (\<lambda>epoch.
     seq (get_mission ou mid org_id None) (\<lambda>found.
     seq (some_or_crash found) (\<lambda>rec.
     seq (if mc_state rec = MS_Created
          then transition_mission ou mid (state_value MS_Planning) epoch worker_id None None None
          else ret rec) (\<lambda>rec1.
     seq (if mc_state rec1 = MS_Planning
          then transition_mission ou mid (state_value MS_Running) epoch worker_id None None None
          else ret rec1) (\<lambda>rec2.
     seq (write_checkpoint ou bytes mid epoch worker_id ''start'') (\<lambda>_. ret rec2))))))"

definition suspend_mission ::
  "outside \<Rightarrow> (mission_checkpoint \<Rightarrow> nat) \<Rightarrow> string \<Rightarrow> string \<Rightarrow> string option \<Rightarrow> mission_record mission_prog" where
  "suspend_mission ou bytes mid worker_id org_id =
     seq (require_lease ou mid worker_id DEFAULT_LEASE_TTL org_id) (\<lambda>epoch.
     seq (write_checkpoint ou bytes mid epoch worker_id ''suspend'') (\<lambda>_.
     seq (transition_mission ou mid (state_value MS_Suspended) epoch worker_id None None None) (\<lambda>rec.
     seq (release_lease ou mid worker_id epoch) (\<lambda>_. ret rec))))"

definition cancel_mission :: "outside \<Rightarrow> string \<Rightarrow> string \<Rightarrow> string option \<Rightarrow> mission_record mission_prog" where
  "cancel_mission ou mid worker_id org_id =
     seq (require_lease ou mid worker_id DEFAULT_LEASE_TTL org_id) (\<lambda>epoch.
       transition_mission ou mid (state_value MS_Cancelled) epoch worker_id None None None)"

definition complete_mission ::
  "outside \<Rightarrow> (mission_checkpoint \<Rightarrow> nat) \<Rightarrow> string \<Rightarrow> string \<Rightarrow> string option \<Rightarrow> mission_record mission_prog" where
  "complete_mission ou bytes mid worker_id org_id =
     seq (require_lease ou mid worker_id DEFAULT_LEASE_TTL org_id) (\<lambda>epoch.
     seq (write_checkpoint ou bytes mid epoch worker_id ''complete'') (\<lambda>_.
       transition_mission ou mid (state_value MS_Complete) epoch worker_id None None None))"

section \<open>Goals and sessions\<close>

definition without :: "string list \<Rightarrow> string list \<Rightarrow> string list" where
  "without ids xs = filter (\<lambda>t. t \<notin> set ids) xs"

definition invalidate_frontier :: "string list \<Rightarrow> mission_frontier \<Rightarrow> mission_frontier" where
  "invalidate_frontier ids f =
     (if ids = [] then f
      else \<lparr>fr_completed = without ids (fr_completed f), fr_running = without ids (fr_running f),
            fr_pending = take MAX_FRONTIER (without ids (fr_pending f) @ sort (remdups ids)),
            fr_failed = without ids (fr_failed f), fr_blocked = without ids (fr_blocked f)\<rparr>)"

definition retain_refs :: "string list option \<Rightarrow> mission_refs \<Rightarrow> mission_refs" where
  "retain_refs keep refs =
     (case keep of None \<Rightarrow> refs
      | Some ks \<Rightarrow> refs\<lparr>mx_artifact_refs := take MAX_REFS (filter (\<lambda>r. r \<in> set ks) (mx_artifact_refs refs))\<rparr>)"

definition revise_goal ::
  "outside \<Rightarrow> string \<Rightarrow> string \<Rightarrow> string \<Rightarrow> string list \<Rightarrow> string list option \<Rightarrow> string option \<Rightarrow>
   mission_record mission_prog" where
  "revise_goal ou mid worker_id new_goal invalidate_ids keep org_id =
     seq (require_lease ou mid worker_id DEFAULT_LEASE_TTL org_id) (\<lambda>epoch.
     seq (get_mission ou mid org_id None) (\<lambda>found.
     seq (some_or_crash found) (\<lambda>rec.
       patch_mission ou mid epoch worker_id
         (no_mission_patch\<lparr>pt_root_goal := Some new_goal, pt_bump_goal := True,
                   pt_frontier := Some (invalidate_frontier invalidate_ids (mc_frontier rec)),
                   pt_refs := Some (retain_refs keep (mc_refs rec))\<rparr>)
         (Some (mc_revision rec)))))"

definition attach_refs :: "string \<Rightarrow> string \<Rightarrow> mission_refs \<Rightarrow> mission_refs" where
  "attach_refs session_id session_plan_ref refs =
     (let refs1 = (if session_id \<noteq> [] \<and> session_id \<notin> set (mx_active_session_ids refs)
                   then refs\<lparr>mx_active_session_ids := take MAX_SESSIONS (mx_active_session_ids refs @ [session_id])\<rparr>
                   else refs)
      in if session_plan_ref \<noteq> [] \<and> session_plan_ref \<notin> set (mx_session_plan_refs refs1)
         then refs1\<lparr>mx_session_plan_refs := take MAX_REFS (mx_session_plan_refs refs1 @ [session_plan_ref])\<rparr>
         else refs1)"

definition attach_session ::
  "outside \<Rightarrow> string \<Rightarrow> string \<Rightarrow> string \<Rightarrow> string \<Rightarrow> string \<Rightarrow> mission_record mission_prog" where
  "attach_session ou mid worker_id session_id org_id session_plan_ref =
     seq (require_lease ou mid worker_id DEFAULT_LEASE_TTL (Some org_id)) (\<lambda>epoch.
     seq (get_mission ou mid (Some org_id) None) (\<lambda>found.
     seq (some_or_crash found) (\<lambda>rec.
       patch_mission ou mid epoch worker_id
         (no_mission_patch\<lparr>pt_refs := Some (attach_refs session_id session_plan_ref (mc_refs rec))\<rparr>)
         (Some (mc_revision rec)))))"

definition missing_diagnostics :: "string \<Rightarrow> mission_diagnostics" where
  "missing_diagnostics mid = \<lparr>md_mission_id = mid, md_goal = [], md_state = ''missing'', md_revision = 0,
     md_goal_revision = 0, md_frontier = empty_frontier, md_blocked_reason = [], md_artifact_count = 0,
     md_swarm_status = None, md_resource_use = [], md_last_checkpoint = [], md_lease_owner = [],
     md_lease_epoch = 0, md_recovery_count = 0\<rparr>"

definition diagnostics :: "outside \<Rightarrow> string \<Rightarrow> string option \<Rightarrow> mission_diagnostics mission_prog" where
  "diagnostics ou mid org_id =
     seq (get_mission ou mid org_id None) (\<lambda>found. case found of
        None \<Rightarrow> ret (missing_diagnostics mid)
      | Some rec \<Rightarrow>
          seq (list_swarm_runs ou mid org_id) (\<lambda>swarms.
            ret \<lparr>md_mission_id = mid, md_goal = take 200 (mc_root_goal rec), md_state = state_value (mc_state rec),
              md_revision = mc_revision rec, md_goal_revision = mc_goal_revision rec, md_frontier = mc_frontier rec,
              md_blocked_reason = rv_blocked_reason (mc_recovery rec),
              md_artifact_count = length (mx_artifact_refs (mc_refs rec)),
              md_swarm_status = (if swarms = [] then None else Some (sr_state (last swarms))),
              md_resource_use = rb_consumed (mc_budget rec),
              md_last_checkpoint = rv_last_checkpoint_id (mc_recovery rec),
              md_lease_owner = mc_lease_owner rec, md_lease_epoch = mc_lease_epoch rec,
              md_recovery_count = rv_attempt (mc_recovery rec)\<rparr>))"

section \<open>Artifacts\<close>

definition artifact_bucket :: "string \<Rightarrow> string" where
  "artifact_bucket kind =
     or_else (map_of [(''artifact'', ''artifact_refs''), (''map_product'', ''map_product_refs''),
       (''evidence'', ''evidence_refs''), (''session_plan'', ''session_plan_refs''),
       (''workflow'', ''workflow_instance_refs'')] kind) ''artifact_refs''"

fun attach_loop :: "string list \<Rightarrow> string list \<Rightarrow> string list" where
  "attach_loop cur [] = cur"
| "attach_loop cur (r # rs) =
     (let s = strip r
      in if s = [] \<or> s \<in> set cur then attach_loop cur rs
         else if length (cur @ [s]) \<ge> MAX_REFS then cur @ [s]
         else attach_loop (cur @ [s]) rs)"

definition attach_artifacts ::
  "outside \<Rightarrow> string \<Rightarrow> int \<Rightarrow> string \<Rightarrow> string list \<Rightarrow> string \<Rightarrow> mission_record mission_prog" where
  "attach_artifacts ou mid epoch owner refs kind =
     seq (get_mission ou mid None None) (\<lambda>found. case found of
        None \<Rightarrow> fail_with (Rejected ''MISSION_NOT_FOUND'')
      | Some rec \<Rightarrow>
          (let bucket = artifact_bucket kind; cur = or_else (refs_bucket bucket (mc_refs rec)) []
           in patch_mission ou mid epoch owner
                (no_mission_patch\<lparr>pt_refs := Some (refs_set_bucket bucket (attach_loop cur refs) (mc_refs rec))\<rparr>)
                (Some (mc_revision rec))))"

definition artifact_inventory :: "outside \<Rightarrow> string \<Rightarrow> mission_refs option mission_prog" where
  "artifact_inventory ou mid = seq (get_mission ou mid None None) (\<lambda>found. ret (map_option mc_refs found))"

section \<open>The swarm bridge\<close>

definition swarm_status_state :: "string \<Rightarrow> task_state" where
  "swarm_status_state status =
     or_else (map_of [(''succeeded'', TS_Succeeded), (''success'', TS_Succeeded), (''failed'', TS_Failed),
       (''failure'', TS_Failed), (''degraded'', TS_Failed), (''partial'', TS_Failed), (''skipped'', TS_Skipped),
       (''cancelled'', TS_Cancelled), (''canceled'', TS_Cancelled), (''running'', TS_Running),
       (''pending'', TS_Pending), (''ready'', TS_Ready), (''unresolved'', TS_Unresolved)] (lower status)) TS_Failed"

definition receipt_from_swarm ::
  "time \<Rightarrow> string \<Rightarrow> string \<Rightarrow> string \<Rightarrow> string list \<Rightarrow> string \<Rightarrow> string \<Rightarrow> int \<Rightarrow> string \<Rightarrow> string \<Rightarrow> task_receipt" where
  "receipt_from_swarm wall task_id assignment_id status produced summary error_code attempt side_effect key =
     mk_receipt \<lparr>tr_task_id = task_id, tr_assignment_id = assignment_id, tr_state = swarm_status_state status,
       tr_operation_class = operation_class_from_side_effect side_effect, tr_produced_refs = produced,
       tr_summary = summary, tr_error_code = error_code, tr_attempt = attempt,
       tr_idempotency_key = (if key \<noteq> [] then key else if assignment_id \<noteq> [] then assignment_id else task_id),
       tr_settled_at = wall\<rparr>"

record task_descriptor =
  td_task_id :: string
  td_side_effect :: string
  td_idempotency_key :: string

fun descriptor_tasks :: "(string \<times> task_receipt) list \<Rightarrow> task_descriptor list \<Rightarrow> (string \<times> task_receipt) list" where
  "descriptor_tasks tasks [] = tasks"
| "descriptor_tasks tasks (d # ds) =
     (let tid = strip (td_task_id d)
      in if tid = [] then descriptor_tasks tasks ds
         else descriptor_tasks (AList.update tid
                (mk_receipt \<lparr>tr_task_id = tid, tr_assignment_id = [], tr_state = TS_Pending,
                  tr_operation_class = operation_class_from_side_effect (td_side_effect d),
                  tr_produced_refs = [], tr_summary = [], tr_error_code = [], tr_attempt = 0,
                  tr_idempotency_key = (if td_idempotency_key d \<noteq> [] then td_idempotency_key d else tid),
                  tr_settled_at = 0\<rparr>) tasks) ds)"

definition add_swarm_ref :: "string \<Rightarrow> mission_refs \<Rightarrow> mission_refs" where
  "add_swarm_ref sid refs =
     (if sid \<in> set (mx_swarm_run_refs refs) then refs
      else refs\<lparr>mx_swarm_run_refs := take MAX_REFS (mx_swarm_run_refs refs @ [sid])\<rparr>)"

text \<open>The reference is attached to the mission when credentials are given; failing that is only logged.\<close>

definition begin_run ::
  "outside \<Rightarrow> string \<Rightarrow> string \<Rightarrow> string \<Rightarrow> task_descriptor list \<Rightarrow> int \<Rightarrow> string \<Rightarrow> swarm_run mission_prog" where
  "begin_run ou mid org_id goal_slice descriptors epoch owner =
     seq (tick (out_token ou)) (\<lambda>token.
     seq (create_swarm_run ou mid org_id goal_slice (descriptor_tasks [] descriptors) (Some (''swr-'' @ token))) (\<lambda>run.
       if epoch \<noteq> 0 \<and> owner \<noteq> []
       then seq (get_mission ou mid None None) (\<lambda>found. case found of
              None \<Rightarrow> ret run
            | Some rec \<Rightarrow>
                seq (on_error
                  (seq (patch_mission ou mid epoch owner
                         (no_mission_patch\<lparr>pt_refs := Some (add_swarm_ref (sr_swarm_run_id run) (mc_refs rec))\<rparr>) None) (\<lambda>_. ret ()))
                  (\<lambda>err. ret ())) (\<lambda>_. ret run))
       else ret run))"

definition mark_task_running :: "outside \<Rightarrow> string \<Rightarrow> string \<Rightarrow> string \<Rightarrow> string \<Rightarrow> swarm_run mission_prog" where
  "mark_task_running ou sid task_id assignment_id side_effect =
     seq (tick (out_clock ou)) (\<lambda>wall. settle_swarm_task ou sid
       (receipt_from_swarm wall task_id assignment_id ''running'' [] [] [] 0 side_effect []))"

definition settle ::
  "outside \<Rightarrow> string \<Rightarrow> string \<Rightarrow> string \<Rightarrow> string \<Rightarrow> string list \<Rightarrow> string \<Rightarrow> string \<Rightarrow> int \<Rightarrow> string \<Rightarrow> string \<Rightarrow>
   swarm_run mission_prog" where
  "settle ou sid task_id status assignment_id produced summary error_code attempt side_effect key =
     seq (tick (out_clock ou)) (\<lambda>wall. settle_swarm_task ou sid
       (receipt_from_swarm wall task_id assignment_id status produced summary error_code attempt side_effect key))"

record subagent_receipt =
  sb_status :: string
  sb_assignment_id :: string
  sb_produced_refs :: "string list"
  sb_summary :: string
  sb_error_code :: string
  sb_attempt :: int

definition settle_from_subagent_receipt ::
  "outside \<Rightarrow> string \<Rightarrow> string \<Rightarrow> subagent_receipt \<Rightarrow> string \<Rightarrow> swarm_run mission_prog" where
  "settle_from_subagent_receipt ou sid task_id r side_effect =
     settle ou sid task_id (if sb_status r \<noteq> [] then sb_status r else ''failed'') (sb_assignment_id r)
       (sb_produced_refs r) (sb_summary r) (sb_error_code r) (sb_attempt r) side_effect []"

definition succeeded_refs :: "(string \<times> task_receipt) list \<Rightarrow> string list" where
  "succeeded_refs tasks =
     fold (\<lambda>r acc. if r \<in> set acc then acc else acc @ [r])
       (concat (map (\<lambda>(tid, t). if tr_state t = TS_Succeeded then tr_produced_refs t else []) tasks)) []"

definition collect_artifact_refs :: "outside \<Rightarrow> string \<Rightarrow> string list mission_prog" where
  "collect_artifact_refs ou sid =
     seq (get_swarm_run ou sid) (\<lambda>run.
       ret (case run of None \<Rightarrow> [] | Some r \<Rightarrow> take MAX_REFS (succeeded_refs (sr_tasks r))))"

section \<open>Quota ceilings\<close>

record org_limits =
  ol_storage :: "int option"
  ol_concurrent :: "int option"
  ol_rate :: "int option"

definition MISSION_CEILINGS :: amounts where
  "MISSION_CEILINGS = [(''tokens'', 200000), (''tool_calls'', 500), (''compute_ms'', 600000),
     (''cpu_ms'', 600000), (''wall_ms'', 3600000), (''memory_mb'', 2048),
     (''bytes'', 104857600), (''storage_bytes'', 104857600), (''concurrent_tasks'', 8)]"

definition tighten :: "string \<Rightarrow> rat \<Rightarrow> amounts \<Rightarrow> amounts" where
  "tighten k v limits = AList.update k (min (amount_at limits k) v) limits"

text \<open>
  The organisation's row overrides the process defaults \<open>(storage, concurrent, rate)\<close>; then the
  caller's values tighten further, and an unknown dimension is a \<open>ValueError\<close>.
\<close>

definition org_ceilings :: "int \<times> int \<times> int \<Rightarrow> org_limits option \<Rightarrow> amounts" where
  "org_ceilings defaults row =
     (let (d_storage, d_concurrent, d_rate) = defaults;
          storage = or_else (case row of None \<Rightarrow> None | Some r \<Rightarrow> ol_storage r) d_storage;
          concurrent = or_else (case row of None \<Rightarrow> None | Some r \<Rightarrow> ol_concurrent r) d_concurrent;
          rate = or_else (case row of None \<Rightarrow> None | Some r \<Rightarrow> ol_rate r) d_rate;
          l1 = (if storage > 0
                then tighten ''storage_bytes'' (of_int storage) (tighten ''bytes'' (of_int storage) MISSION_CEILINGS)
                else MISSION_CEILINGS);
          l2 = (if concurrent > 0 then tighten ''concurrent_tasks'' (of_int concurrent) l1 else l1)
      in tighten ''tool_calls'' (of_int (max 0 rate)) l2)"

fun tighten_all :: "amounts \<Rightarrow> amounts \<Rightarrow> mission_error + amounts" where
  "tighten_all [] limits = Inr limits"
| "tighten_all ((k, v) # req) limits =
     (if map_of limits k = None then Inl (Value_error ''Unknown mission quota dimension'')
      else tighten_all req (tighten k v limits))"

definition mission_quota :: "int \<times> int \<times> int \<Rightarrow> org_limits option \<Rightarrow> amounts \<Rightarrow> mission_error + amounts" where
  "mission_quota defaults row requested = tighten_all requested (org_ceilings defaults row)"

section \<open>Guarantees\<close>

lemma require_lease_guarantees: "fair ou \<Longrightarrow> guarantees (require_lease ou mid worker_id ttl org_id)"
  unfolding require_lease_def by (intro guarantee_rules store_guarantees)

lemma some_or_crash_guarantees: "guarantees (some_or_crash x)"
  unfolding some_or_crash_def by (intro guarantee_rules)

lemma service_guarantees:
  assumes "fair ou"
  shows "guarantees (start_mission ou bytes mid worker_id org_id)"
    and "guarantees (suspend_mission ou bytes mid worker_id org_id)"
    and "guarantees (cancel_mission ou mid worker_id org_id)"
    and "guarantees (complete_mission ou bytes mid worker_id org_id)"
    and "guarantees (revise_goal ou mid worker_id new_goal ids keep org_id)"
    and "guarantees (attach_session ou mid worker_id session_id org session_plan_ref)"
    and "guarantees (attach_artifacts ou mid epoch owner refs kind)"
  unfolding start_mission_def suspend_mission_def cancel_mission_def complete_mission_def
    revise_goal_def attach_session_def attach_artifacts_def Let_def
  by (intro guarantee_rules store_guarantees require_lease_guarantees some_or_crash_guarantees assms)+

lemma descriptor_tasks_dict: "task_dict tasks \<Longrightarrow> task_dict (descriptor_tasks tasks ds)"
  by (induction ds arbitrary: tasks) (simp_all add: Let_def task_dict_update)

lemma bridge_guarantees:
  assumes "fair ou"
  shows "guarantees (begin_run ou mid org goal_slice descriptors epoch owner)"
    and "guarantees (mark_task_running ou sid task_id assignment_id side_effect)"
    and "guarantees (settle ou sid task_id status assignment_id produced summary error_code attempt side_effect key)"
  unfolding begin_run_def mark_task_running_def settle_def
  by (intro guarantee_rules store_guarantees assms, simp add: descriptor_tasks_dict task_dict_def [of "[]"],
      intro guarantee_rules store_guarantees assms)
    (intro guarantee_rules store_guarantees assms)+

end
