(* ===== verification/Mission_Calls.thy ===== *)
theory Mission_Calls
  imports Mission_Service
begin

text \<open>
  Runs of the mission runtime: sequences of calls by any workers, each with its own environment.
  The lemmas here say what every run preserves, and what the fenced operations do with
  credentials that are out of date.
\<close>

datatype mission_call =
    Call_create string string string string string amounts
  | Call_acquire string string int "string option"
  | Call_heartbeat string string int int
  | Call_release string string int
  | Call_transition string string int string "int option" "mission_failure option" "recovery_patch option"
  | Call_patch string int string mission_patch "int option"
  | Call_checkpoint string int string string
  | Call_swarm string string string "(string \<times> task_receipt) list"
  | Call_settle string task_receipt
  | Call_recover string string "string option" int
  | Call_set_quota string int string amounts
  | Call_reserve string int string string rat
  | Call_commit string int string string rat rat bool string
  | Call_release_reserved string int string string rat
  | Call_start string string
  | Call_suspend string string
  | Call_cancel string string
  | Call_complete string string
  | Call_revise string string string "string list" "string list option"
  | Call_attach_session string string string string string
  | Call_attach_artifacts string int string "string list" string

definition run_prog :: "'a mission_prog \<Rightarrow> mission_db world \<Rightarrow> mission_db world" where
  "run_prog m w = snd (m w)"

fun run_call :: "outside \<Rightarrow> (mission_checkpoint \<Rightarrow> nat) \<Rightarrow> mission_call \<Rightarrow> mission_db world \<Rightarrow> mission_db world" where
  "run_call ou bytes (Call_create org user scope goal session quota) =
     run_prog (create_mission ou org user None scope goal session quota None)"
| "run_call ou bytes (Call_acquire mid owner ttl org) = run_prog (acquire_lease ou mid owner ttl org)"
| "run_call ou bytes (Call_heartbeat mid owner epoch ttl) = run_prog (heartbeat_lease ou mid owner epoch ttl)"
| "run_call ou bytes (Call_release mid owner epoch) = run_prog (release_lease ou mid owner epoch)"
| "run_call ou bytes (Call_transition mid to_state epoch owner expected failure patch) =
     run_prog (transition_mission ou mid to_state epoch owner expected failure patch)"
| "run_call ou bytes (Call_patch mid epoch owner p expected) = run_prog (patch_mission ou mid epoch owner p expected)"
| "run_call ou bytes (Call_checkpoint mid epoch owner note) = run_prog (write_checkpoint ou bytes mid epoch owner note)"
| "run_call ou bytes (Call_swarm mid org goal tasks) = run_prog (create_swarm_run ou mid org goal tasks None)"
| "run_call ou bytes (Call_settle sid receipt) = run_prog (settle_swarm_task ou sid receipt)"
| "run_call ou bytes (Call_recover mid worker org ttl) = run_prog (recover ou mid worker org ttl)"
| "run_call ou bytes (Call_set_quota mid epoch owner quota) = run_prog (set_quota ou mid epoch owner quota)"
| "run_call ou bytes (Call_reserve mid epoch owner dm amount) = run_prog (reserve ou mid epoch owner dm amount)"
| "run_call ou bytes (Call_commit mid epoch owner dm amount released retry key) =
     run_prog (commit_consumption ou mid epoch owner dm amount released retry key None)"
| "run_call ou bytes (Call_release_reserved mid epoch owner dm amount) =
     run_prog (release_reserved ou mid epoch owner dm amount)"
| "run_call ou bytes (Call_start mid worker) = run_prog (start_mission ou bytes mid worker None)"
| "run_call ou bytes (Call_suspend mid worker) = run_prog (suspend_mission ou bytes mid worker None)"
| "run_call ou bytes (Call_cancel mid worker) = run_prog (cancel_mission ou mid worker None)"
| "run_call ou bytes (Call_complete mid worker) = run_prog (complete_mission ou bytes mid worker None)"
| "run_call ou bytes (Call_revise mid worker goal ids keep) = run_prog (revise_goal ou mid worker goal ids keep None)"
| "run_call ou bytes (Call_attach_session mid worker session org plan) =
     run_prog (attach_session ou mid worker session org plan)"
| "run_call ou bytes (Call_attach_artifacts mid epoch owner refs kind) =
     run_prog (attach_artifacts ou mid epoch owner refs kind)"

text \<open>The tasks of a new swarm run are a dictionary of receipts under their task ids.\<close>

fun call_args_ok :: "mission_call \<Rightarrow> bool" where
  "call_args_ok (Call_swarm mid org goal tasks) = task_dict tasks"
| "call_args_ok _ = True"

definition mission_step ::
  "mission_db world \<Rightarrow> outside \<times> (mission_checkpoint \<Rightarrow> nat) \<times> mission_call \<Rightarrow> mission_db world" where
  "mission_step w x = (case x of (ou, bytes, c) \<Rightarrow> run_call ou bytes c w)"

definition mission_step_ok :: "outside \<times> (mission_checkpoint \<Rightarrow> nat) \<times> mission_call \<Rightarrow> bool" where
  "mission_step_ok x = (case x of (ou, bytes, c) \<Rightarrow> fair ou \<and> call_args_ok c)"

lemma run_prog_keeps: "guarantees m \<Longrightarrow> mission_db_ok (fst w) \<Longrightarrow>
    mission_db_ok (fst (run_prog m w)) \<and> mission_db_le (fst w) (fst (run_prog m w))"
  unfolding run_prog_def keeps_def by blast

lemma run_call_keeps:
  assumes "fair ou" and "call_args_ok c" and "mission_db_ok (fst w)"
  shows "mission_db_ok (fst (run_call ou bytes c w)) \<and> mission_db_le (fst w) (fst (run_call ou bytes c w))"
  using assms(2)
  by (cases c)
    (simp_all add: run_prog_keeps assms(1,3) store_guarantees recover_guarantees ledger_guarantees service_guarantees)

interpretation mission_runs: op_system_rel mission_step "\<lambda>w. mission_db_ok (fst w)" mission_step_ok
  "\<lambda>w w'. mission_db_le (fst w) (fst w')"
proof
  show "mission_step_ok x \<Longrightarrow> mission_db_ok (fst s) \<Longrightarrow> mission_db_ok (fst (mission_step s x))" for s x
    using run_call_keeps by (cases x) (auto simp: mission_step_def mission_step_ok_def)
  show "mission_step_ok x \<Longrightarrow> mission_db_ok (fst s) \<Longrightarrow> mission_db_le (fst s) (fst (mission_step s x))" for s x
    using run_call_keeps by (cases x) (auto simp: mission_step_def mission_step_ok_def)
  show "mission_db_le (fst s) (fst s)" for s :: "mission_db world" by (rule mission_order.rel_refl)
  show "mission_db_le (fst a) (fst b) \<Longrightarrow> mission_db_le (fst b) (fst c) \<Longrightarrow> mission_db_le (fst a) (fst c)"
    for a b c :: "mission_db world" by (rule mission_order.rel_trans)
qed

section \<open>Credentials out of date\<close>

lemma fenced_refused:
  assumes "mission_at mid (out_env ou k s) = Some r" and "decide r = Inl err"
  shows "fenced_update ou mid epoch decide (s, k) = (Inl err, (out_env ou k s, Suc k))"
  using assms by (simp add: fenced_update_def)

lemma stale_fence: "mr_lease_epoch r \<noteq> epoch \<Longrightarrow> fence_error epoch owner expected r = Some (Fencing ''STALE_LEASE_EPOCH'')"
  by (simp add: fence_error_def)

lemma stale_patch:
  assumes "mission_at mid (out_env ou k s) = Some r" and "mr_lease_epoch r \<noteq> epoch"
  shows "patch_mission ou mid epoch owner p expected (s, k)
    = (Inl (Fencing ''STALE_LEASE_EPOCH''), (out_env ou k s, Suc k))"
  unfolding patch_mission_def
  using fenced_refused [OF assms(1)] stale_fence [OF assms(2)] by (simp add: patch_decision_def)

lemma stale_transition:
  assumes "mission_at mid (out_env ou k s) = Some r" and "mr_lease_epoch r \<noteq> epoch"
    and "state_of to_state = Some dest" and "strip owner \<noteq> []"
  shows "transition_mission ou mid to_state epoch owner expected failure patch (s, k)
    = (Inl (Fencing ''STALE_LEASE_EPOCH''), (out_env ou k s, Suc k))"
  unfolding transition_mission_def
  using fenced_refused [OF assms(1)] stale_fence [OF assms(2)] assms(3,4) by (simp add: transition_decision_def)

lemma stale_statement:
  assumes "mission_db_ok s" and "mission_at mid s = Some r" and "mr_lease_epoch r \<noteq> epoch"
  shows "update_mission mid (\<lambda>r. p r \<and> mr_lease_epoch r = epoch) f s = (s, 0)"
  using assms by (simp add: update_mission_eq)

lemma stale_heartbeat:
  assumes "mission_db_ok (out_env ou k s)" and "mission_at mid (out_env ou k s) = Some r" and "mr_lease_epoch r \<noteq> epoch"
  shows "heartbeat_lease ou mid owner epoch ttl (s, k) = (Inr False, (out_env ou k s, Suc k))"
  using stale_statement [OF assms] by (simp add: heartbeat_lease_def)

lemma stale_release:
  assumes "mission_db_ok (out_env ou k s)" and "mission_at mid (out_env ou k s) = Some r" and "mr_lease_epoch r \<noteq> epoch"
  shows "release_lease ou mid owner epoch (s, k) = (Inr False, (out_env ou k s, Suc k))"
  using stale_statement [OF assms] by (simp add: release_lease_def)

lemma get_mission_at:
  assumes "mission_db_ok (out_env ou k s)" and "mission_at mid (out_env ou k s) = Some r"
  shows "get_mission ou mid None None (s, k) = (Inr (Some (mission_to_record r)), (out_env ou k s, Suc k))"
proof -
  have "sql_first (\<lambda>r. mr_mission_id r = mid \<and> org_user_match None None r) (db_missions (out_env ou k s)) = Some r"
    by (rule mission_at_found [OF assms(2) _ assms(1)]) (simp add: org_user_match_def)
  then show ?thesis by (simp add: get_mission_def query_def)
qed

lemma stale_checkpoint:
  assumes "mission_db_ok (out_env ou k s)" and "mission_at mid (out_env ou k s) = Some r" and "mr_lease_epoch r \<noteq> epoch"
  shows "write_checkpoint ou bytes mid epoch owner note (s, k)
    = (Inl (Fencing ''STALE_LEASE_EPOCH''), (out_env ou k s, Suc k))"
  unfolding write_checkpoint_def
  by (subst seq_eq, rule get_mission_at [OF assms(1,2)]) (simp add: mission_to_record_def assms(3))

end
