(* ===== verification/Mission_Properties.thy ===== *)
theory Mission_Properties
  imports Mission_Calls Lease_Lock
begin

text \<open>
  What the mission runtime promises: nothing of a mission is taken back, out-of-date
  credentials write nothing, lease epochs never repeat, charges are atomic and counted once
  per ticket, recovery never completes a mission with unresolved work, and the places where the
  code breaks its own bounds.
\<close>

section \<open>Runs\<close>

text \<open>
  C12. Whatever calls are made on the ledger, by any workers and with any other sessions
  committing in between, the invariant holds at the end, and between any two points of a run the
  ledger only moves forward: epochs and revisions of a mission grow, one revision stands for one
  content and one epoch for one owner, states follow the transition table, terminal missions are
  frozen and settled task receipts stay.
\<close>

theorem mission_runs_forward:
  assumes "list_all mission_step_ok xs" and "list_all mission_step_ok ys" and "mission_db_ok (fst w)"
  shows "mission_db_ok (fst (run_ops mission_step w (xs @ ys)))
    \<and> mission_db_le (fst (run_ops mission_step w xs)) (fst (run_ops mission_step w (xs @ ys)))"
  using mission_runs.run_inv [of "xs @ ys" w] mission_runs.run_between [OF assms] assms by simp

text \<open>
  Once a mission is complete, failed or cancelled its row never changes again, no matter
  what is called; nor does a swarm task's receipt once it is succeeded, skipped, cancelled or
  unresolved.
\<close>

theorem terminal_missions_frozen:
  assumes "list_all mission_step_ok xs" and "mission_db_ok (fst w)"
  shows "(mission_at mid (fst w) = Some r \<and> mission_terminal (mr_state r) \<longrightarrow>
           mission_at mid (fst (run_ops mission_step w xs)) = Some r)
    \<and> (swarm_at sid (fst w) = Some q \<and> map_of (sw_tasks q) tid = Some t \<and> tr_state t \<in> set sticky_states \<longrightarrow>
        (\<exists>q'. swarm_at sid (fst (run_ops mission_step w xs)) = Some q' \<and> map_of (sw_tasks q') tid = Some t))"
proof -
  have le: "mission_db_le (fst w) (fst (run_ops mission_step w xs))"
    using mission_runs.run_rel [OF assms] .
  show ?thesis
  proof (intro conjI impI)
    assume "mission_at mid (fst w) = Some r \<and> mission_terminal (mr_state r)"
    then show "mission_at mid (fst (run_ops mission_step w xs)) = Some r"
      using mission_db_leD(1) [OF le, of mid r] mission_row_leD(8) by force
  next
    assume "swarm_at sid (fst w) = Some q \<and> map_of (sw_tasks q) tid = Some t \<and> tr_state t \<in> set sticky_states"
    then show "\<exists>q'. swarm_at sid (fst (run_ops mission_step w xs)) = Some q' \<and> map_of (sw_tasks q') tid = Some t"
      using mission_db_leD(2) [OF le, of sid q] by (auto simp: swarm_row_le_def)
  qed
qed

text \<open>
  C5. Fencing: credentials with an epoch below the mission's are refused by every fenced
  operation at any later point of any run, and such a call writes nothing (the ledger it leaves is
  what other sessions made of it).
\<close>

theorem stale_epoch_fenced:
  assumes "mission_db_ok (fst w)" and "mission_at mid (fst w) = Some r" and "epoch < mr_lease_epoch r"
    and "list_all mission_step_ok xs" and "run_ops mission_step w xs = (s, k)" and "fair ou" and "strip owner \<noteq> []"
  shows "transition_mission ou mid (state_value dest) epoch owner expected failure patch (s, k)
        = (Inl (Fencing ''STALE_LEASE_EPOCH''), (out_env ou k s, Suc k))
    \<and> patch_mission ou mid epoch owner p expected (s, k)
        = (Inl (Fencing ''STALE_LEASE_EPOCH''), (out_env ou k s, Suc k))
    \<and> write_checkpoint ou bytes mid epoch owner note (s, k)
        = (Inl (Fencing ''STALE_LEASE_EPOCH''), (out_env ou k s, Suc k))
    \<and> heartbeat_lease ou mid owner epoch ttl (s, k) = (Inr False, (out_env ou k s, Suc k))
    \<and> release_lease ou mid owner epoch (s, k) = (Inr False, (out_env ou k s, Suc k))"
proof -
  have s: "mission_db_ok s" "mission_db_le (fst w) s"
    using mission_runs.run_inv [OF assms(4), of w] mission_runs.run_rel [OF assms(4), of w] assms(1,5) by simp_all
  have e: "mission_db_ok (out_env ou k s)" "mission_db_le s (out_env ou k s)"
    using reliedD [OF assms(6) s(1)] by blast+
  obtain r' where r': "mission_at mid (out_env ou k s) = Some r'" "mission_row_le r r'"
    using mission_db_leD(1) [OF mission_order.rel_trans [OF s(2) e(2)] assms(2)] by blast
  have "mr_lease_epoch r' \<noteq> epoch" using mission_row_leD(4) [OF r'(2)] assms(3) by simp
  then show ?thesis
    using stale_transition [OF r'(1) _ state_of_value assms(7)] stale_patch [OF r'(1)]
      stale_checkpoint [OF e(1) r'(1)] stale_heartbeat [OF e(1) r'(1)] stale_release [OF e(1) r'(1)] by simp
qed

section \<open>What is read\<close>

definition bounded_ids :: "string list \<Rightarrow> bool" where
  "bounded_ids xs = (length xs \<le> MAX_FRONTIER \<and> list_all (\<lambda>x. length x \<le> 96) xs)"

definition mission_record_ok :: "mission_record \<Rightarrow> bool" where
  "mission_record_ok rec =
     (length (mc_root_goal rec) \<le> MAX_GOAL_CHARS \<and> 1 \<le> mc_revision rec \<and> 1 \<le> mc_goal_revision rec
      \<and> 0 \<le> mc_lease_epoch rec
      \<and> list_all bounded_ids [fr_completed (mc_frontier rec), fr_running (mc_frontier rec), fr_pending (mc_frontier rec),
          fr_failed (mc_frontier rec), fr_blocked (mc_frontier rec)]
      \<and> (mission_terminal (mc_state rec) \<longrightarrow> mc_lease_owner rec = []))"

lemma frontier_bound_ids: "bounded_ids (frontier_bound v)"
  by (auto simp: bounded_ids_def frontier_bound_def list_all_iff)

lemma record_of_row_ok: "mission_row_ok r \<Longrightarrow> mission_record_ok (mission_to_record r)"
  by (auto simp: mission_row_ok_def mission_record_ok_def mission_to_record_def mk_frontier_def frontier_bound_ids int_or_def)

text \<open>
  C40. Every record read from the ledger is well formed: after any run of calls, with any
  filters, what \<open>get_mission\<close> returns has a goal of at most 2000 characters, frontiers of at most
  64 entries of at most 96 characters, positive revisions, and no lease owner if it is
  terminal.
\<close>

theorem records_well_formed:
  assumes "list_all mission_step_ok xs" and "mission_db_ok (fst w)" and "fair ou"
    and "fst (get_mission ou mid org user (run_ops mission_step w xs)) = Inr (Some rec)"
  shows "mission_record_ok rec \<and> mc_mission_id rec = mid"
proof -
  obtain s k where w: "run_ops mission_step w xs = (s, k)" by (metis surj_pair)
  have ok: "mission_db_ok (out_env ou k s)"
    using mission_runs.run_inv [OF assms(1), of w] assms(2) reliedD [OF assms(3)] by (simp add: w)
  obtain row where f: "sql_first (\<lambda>r. mr_mission_id r = mid \<and> org_user_match org user r) (db_missions (out_env ou k s)) = Some row"
    and rec: "rec = mission_to_record row"
    using assms(4) by (auto simp: w get_mission_def query_def)
  note at = found_mission_at [OF ok f, THEN conjunct1]
  show ?thesis
    using record_of_row_ok [OF mission_at_ok [OF ok at]] mission_at_Some [OF at] by (simp add: rec mission_to_record_def)
qed

section \<open>The lease\<close>

text \<open>What a granted lease did: the row it read, the row it wrote over, the row it left.\<close>

definition lease_granted ::
  "outside \<Rightarrow> string \<Rightarrow> string \<Rightarrow> int \<Rightarrow> mission_db \<Rightarrow> nat \<Rightarrow> int \<Rightarrow> time \<Rightarrow> mission_db \<Rightarrow> mission_row \<Rightarrow> mission_row \<Rightarrow> bool" where
  "lease_granted ou mid owner ttl s k e x s' row now_row =
     (let s1 = out_env ou k s; s2 = out_env ou (Suc k) s1
      in mission_at mid s1 = Some row \<and> mission_at mid s2 = Some now_row \<and> take 128 owner \<noteq> []
         \<and> \<not> mission_terminal (mr_state row) \<and> lease_free (out_clock ou k) (take 128 owner) row
         \<and> same_content row now_row \<and> e = mr_lease_epoch row + 1 \<and> x = lease_expiry (out_clock ou k) ttl
         \<and> mission_at mid s' = Some (lease_values (take 128 owner) (out_clock ou k) x row now_row)
         \<and> s' = s2\<lparr>db_missions := row_put mr_mission_id mid
                     (lease_values (take 128 owner) (out_clock ou k) x row now_row) (db_missions s2)\<rparr>)"

lemma acquire_granted:
  assumes fair: "fair ou" and ok: "mission_db_ok s"
    and got: "acquire_lease ou mid owner ttl org (s, k) = (Inr (Some (e, x)), (s', k'))"
  shows "\<exists>row now_row. lease_granted ou mid owner ttl s k e x s' row now_row"
proof -
  let ?tok = "take 128 owner" and ?now = "out_clock ou k" and ?s1 = "out_env ou k s"
  let ?s2 = "out_env ou (Suc k) ?s1" and ?x = "lease_expiry (out_clock ou k) ttl"
  have ok1: "mission_db_ok ?s1" and ok2: "mission_db_ok ?s2" and le: "mission_db_le ?s1 ?s2"
    using reliedD [OF fair] ok by blast+
  have tok: "?tok \<noteq> []" using got by (auto simp: acquire_lease_def Let_def)
  obtain row where f: "sql_first (\<lambda>r. mr_mission_id r = mid \<and> org_user_match org None r) (db_missions ?s1) = Some row"
    using got tok by (cases "sql_first (\<lambda>r. mr_mission_id r = mid \<and> org_user_match org None r) (db_missions ?s1)")
      (simp_all add: acquire_lease_def Let_def)
  note row = found_mission_at [OF ok1 f, THEN conjunct1]
  have nt: "\<not> mission_terminal (mr_state row)" and free: "lease_free ?now ?tok row"
    using got tok f by (auto simp: acquire_lease_def Let_def split: if_splits)
  obtain r2 where r2: "mission_at mid ?s2 = Some r2" "mission_row_le row r2"
    using mission_db_leD(1) [OF le row] by blast
  let ?q = "\<lambda>r. mr_revision r = mr_revision row \<and> mr_lease_epoch r = mr_lease_epoch row"
  have u: "update_mission mid ?q (lease_values ?tok ?now ?x row) ?s2 =
      (if ?q r2 then (?s2\<lparr>db_missions := row_put mr_mission_id mid (lease_values ?tok ?now ?x row r2) (db_missions ?s2)\<rparr>, 1)
       else (?s2, 0))"
    by (simp add: update_mission_eq [OF ok2] r2(1))
  have q: "?q r2" and e: "e = mr_lease_epoch row + 1" "x = ?x"
      and s': "s' = ?s2\<lparr>db_missions := row_put mr_mission_id mid (lease_values ?tok ?now ?x row r2) (db_missions ?s2)\<rparr>"
    using got tok f nt free u by (auto simp: acquire_lease_def Let_def split: if_splits)
  have "mission_at mid s' = Some (lease_values ?tok ?now ?x row r2)"
    using mission_at_Some [OF r2(1)] r2(1) by (simp add: s' lease_values_def)
  moreover have "same_content row r2" using mission_row_leD(9) [OF r2(2)] q by simp
  ultimately show ?thesis
    unfolding lease_granted_def Let_def using row r2(1) tok nt free e s' by blast
qed

text \<open>
  Epochs are fencing tokens: of two grants of a mission's lease, to whomever and however far
  apart in a run, the later one has the larger epoch, and every operation with the earlier
  epoch is out of date from then on.
\<close>

theorem lease_epochs_increase:
  assumes "fair ou" and "fair ou'" and "mission_db_ok (fst w)" and "list_all mission_step_ok xs"
    and "acquire_lease ou mid owner ttl org w = (Inr (Some (e, x)), w1)"
    and "acquire_lease ou' mid owner' ttl' org' (run_ops mission_step w1 xs) = (Inr (Some (e', x')), w2)"
  shows "e < e' \<and> (\<exists>r. mission_at mid (fst w2) = Some r \<and> mr_lease_epoch r = e' \<and> mr_lease_owner r = Some (take 128 owner'))"
proof -
  obtain s k where w: "w = (s, k)" by (cases w)
  obtain s1 k1 where w1: "w1 = (s1, k1)" by (cases w1)
  obtain s2 k2 where w2: "run_ops mission_step w1 xs = (s2, k2)" by (cases "run_ops mission_step w1 xs")
  obtain s3 k3 where w3: "w2 = (s3, k3)" by (cases w2)
  have ok1: "mission_db_ok s1"
    using keepsD [OF acquire_lease_guarantees [OF assms(1)]] assms(3,5) by (simp add: w w1)
  have ok2: "mission_db_ok s2" and le: "mission_db_le s1 s2"
    using mission_runs.run_inv [OF assms(4), of w1] mission_runs.run_rel [OF assms(4), of w1] ok1 w2 by (simp_all add: w1)
  obtain row nrow where g: "lease_granted ou mid owner ttl s k e x s1 row nrow"
    using acquire_granted [OF assms(1) _ assms(5) [unfolded w w1]] assms(3) w by auto
  obtain row' nrow' where g': "lease_granted ou' mid owner' ttl' s2 k2 e' x' s3 row' nrow'"
    using acquire_granted [OF assms(2) ok2 assms(6) [unfolded w2 w3]] by blast
  have "\<exists>r1. mission_at mid s1 = Some r1 \<and> mr_lease_epoch r1 = e"
    using g by (auto simp: lease_granted_def Let_def lease_values_def)
  then obtain r1 where r1: "mission_at mid s1 = Some r1" "mr_lease_epoch r1 = e" by blast
  have "mission_db_le s1 (out_env ou' k2 s2)"
    using mission_order.rel_trans [OF le] reliedD [OF assms(2) ok2] by blast
  from mission_db_leD(1) [OF this r1(1)] g' r1(2) have "e \<le> mr_lease_epoch row'"
    by (auto simp: lease_granted_def Let_def dest: mission_row_leD(4))
  then show ?thesis
    using g' by (auto simp: lease_granted_def Let_def lease_values_def w3)
qed

section \<open>Compare-and-set is atomic\<close>

text \<open>
  A fenced update that returns had its effect at one moment: the decision was taken on a row
  whose content and epoch were still the row's when the new values were written.
\<close>

definition wrote_at ::
  "outside \<Rightarrow> string \<Rightarrow> int \<Rightarrow> mission_db \<Rightarrow> mission_db \<Rightarrow> nat \<Rightarrow> mission_row \<Rightarrow> mission_row \<Rightarrow> (mission_row \<Rightarrow> mission_row) \<Rightarrow> mission_db \<Rightarrow> bool" where
  "wrote_at ou mid epoch s s2 k row r vals s' =
     (mission_db_ok s2 \<and> mission_db_le s s2 \<and> mission_at mid s2 = Some r \<and> same_content row r
      \<and> mr_revision r = mr_revision row \<and> mr_lease_epoch r = epoch \<and> mission_row_ok row
      \<and> s' = out_env ou k (s2\<lparr>db_missions := row_put mr_mission_id mid (vals r) (db_missions s2)\<rparr>))"

lemma fenced_update_success:
  assumes fair: "fair ou" and ok: "mission_db_ok s"
    and run: "fenced_update ou mid epoch decide (s, k) = (Inr rec, (s', k'))"
  shows "(\<exists>row. mission_at mid (out_env ou k s) = Some row \<and> decide row = Inr None)
    \<or> (\<exists>row r vals s2 k2. decide row = Inr (Some vals) \<and> wrote_at ou mid epoch s s2 k2 row r vals s')"
proof -
  let ?s1 = "out_env ou k s" and ?s2 = "out_env ou (Suc k) (out_env ou k s)"
  have ok1: "mission_db_ok ?s1" and le1: "mission_db_le s ?s1" using reliedD [OF fair ok] by blast+
  have ok2: "mission_db_ok ?s2" and le2: "mission_db_le ?s1 ?s2" using reliedD [OF fair ok1] by blast+
  obtain row where row: "mission_at mid ?s1 = Some row"
    using run by (cases "mission_at mid ?s1") (simp_all add: fenced_update_def)
  consider (same) "decide row = Inr None" | (new) vals where "decide row = Inr (Some vals)"
    using run row by (cases "decide row") (auto simp: fenced_update_def not_None_eq)
  then show ?thesis
  proof cases
    case same
    then show ?thesis using row by blast
  next
    case new
    obtain r where r: "mission_at mid ?s2 = Some r" "mission_row_le row r"
      using mission_db_leD(1) [OF le2 row] by blast
    have q: "mr_lease_epoch r = epoch \<and> mr_revision r = mr_revision row"
      using run row new r(1)
      by (auto simp: fenced_update_def update_mission_eq [OF ok2] split: if_splits)
    have s': "s' = out_env ou (Suc (Suc k)) (?s2\<lparr>db_missions := row_put mr_mission_id mid (vals r) (db_missions ?s2)\<rparr>)"
      using run row new r(1) q
      by (auto simp: fenced_update_def update_mission_eq [OF ok2] split: option.splits)
    have "wrote_at ou mid epoch s ?s2 (Suc (Suc k)) row r vals s'"
      unfolding wrote_at_def
      using ok2 mission_order.rel_trans [OF le1 le2] r(1) mission_row_leD(9) [OF r(2)] q s' mission_at_ok [OF ok1 row]
      by simp
    then show ?thesis using new by blast
  qed
qed

lemma patch_values_same:
  assumes "same_content row r" and "mr_revision r = mr_revision row"
  shows "patch_values now p row r = patch_values now p r r"
  using assms by (simp add: patch_values_def same_content_def)

lemma patch_success:
  assumes "fair ou" and "mission_db_ok s"
    and "patch_mission ou mid epoch owner p expected (s, k) = (Inr rec, (s', k'))"
  shows "\<exists>row r s2 k2 now. fence_error epoch owner expected row = None \<and> \<not> mission_terminal (mr_state r)
    \<and> wrote_at ou mid epoch s s2 k2 row r (\<lambda>r. patch_values now p r r) s'"
proof -
  let ?now = "out_clock ou k"
  have run: "fenced_update ou mid epoch (patch_decision ?now epoch owner expected p) (s, k) = (Inr rec, (s', k'))"
    using assms(3) by (simp add: patch_mission_def)
  have dec: "patch_decision ?now epoch owner expected p row \<noteq> Inr None" for row
    by (auto simp: patch_decision_def split: option.splits)
  from fenced_update_success [OF assms(1,2) run] dec
  obtain row r vals s2 k2 where d: "patch_decision ?now epoch owner expected p row = Inr (Some vals)"
    and w: "wrote_at ou mid epoch s s2 k2 row r vals s'" by blast
  have vals: "vals = patch_values ?now p row" and f: "fence_error epoch owner expected row = None"
    and nt: "\<not> mission_terminal (mr_state row)"
    using d by (auto simp: patch_decision_def split: option.splits if_splits)
  have c: "same_content row r" "mr_revision r = mr_revision row" using w by (simp_all add: wrote_at_def)
  have "vals r = patch_values ?now p r r" using patch_values_same [OF c] by (simp add: vals)
  moreover have "mr_state r = mr_state row" using c(1) by (simp add: same_content_def)
  ultimately have "mr_state r = mr_state row" "vals r = patch_values ?now p r r" by simp_all
  then have "wrote_at ou mid epoch s s2 k2 row r (\<lambda>r. patch_values ?now p r r) s'"
    using w by (simp add: wrote_at_def)
  then show ?thesis
    using f nt \<open>mr_state r = mr_state row\<close>
    by (intro exI [of _ row] exI [of _ r] exI [of _ s2] exI [of _ k2] exI [of _ ?now]) simp
qed

section \<open>Charging\<close>

definition charged_row ::
  "time \<Rightarrow> string \<Rightarrow> rat \<Rightarrow> rat \<Rightarrow> bool \<Rightarrow> string \<Rightarrow> mission_row \<Rightarrow> mission_row" where
  "charged_row now dm amount released retry key r =
     patch_values now (consumption_patch dm amount released retry key (mission_to_record r)) r r"

lemma charged_consumed:
  "amount_at (rb_consumed (mr_budget (charged_row now dm amount released retry key r))) d =
     amount_at (rb_consumed (mr_budget r)) d + (if d = take 64 dm then max 0 amount else 0)"
  by (simp add: charged_row_def patch_values_def consumption_patch_def no_mission_patch_def mission_to_record_def consumed_charge)

lemma consumption_patch_content:
  "same_content row r \<Longrightarrow> consumption_patch dm amount released retry key (mission_to_record row) =
     consumption_patch dm amount released retry key (mission_to_record r)"
  by (simp add: consumption_patch_def mission_to_record_def same_content_def)

text \<open>
  The moment a charge takes effect: at a state \<open>s1\<close> the ledger passed through, either the ticket
  of the key was there already and nothing is written, or the row is charged as it stands.
\<close>

definition charge_took_effect ::
  "outside \<Rightarrow> string \<Rightarrow> int \<Rightarrow> string \<Rightarrow> rat \<Rightarrow> rat \<Rightarrow> bool \<Rightarrow> string \<Rightarrow> mission_db \<Rightarrow> mission_db \<Rightarrow> bool" where
  "charge_took_effect ou mid epoch dm amount released retry key s s' =
     (\<exists>s1 k1 r. mission_db_ok s1 \<and> mission_db_le s s1 \<and> mission_at mid s1 = Some r \<and>
        ((key \<noteq> [] \<and> budget_ticket key \<in> set (mx_evidence_refs (mr_refs r)) \<and> s' = s1) \<or>
         (mr_lease_epoch r = epoch \<and> \<not> mission_terminal (mr_state r) \<and>
          \<not> (key \<noteq> [] \<and> budget_ticket key \<in> set (mx_evidence_refs (mr_refs r))) \<and>
          (\<exists>now. s' = out_env ou k1 (s1\<lparr>db_missions := row_put mr_mission_id mid
             (charged_row now dm amount released retry key r) (db_missions s1)\<rparr>)))))"

lemma charge_took_effect_later:
  "mission_db_le s0 s \<Longrightarrow> charge_took_effect ou mid epoch dm amount released retry key s s' \<Longrightarrow>
   charge_took_effect ou mid epoch dm amount released retry key s0 s'"
  unfolding charge_took_effect_def using mission_order.rel_trans by blast

lemma patch_of_row:
  assumes f: "fair ou" and ok: "mission_db_ok s1" and row: "mission_at mid s1 = Some row"
    and run: "patch_mission ou mid epoch owner
        (consumption_patch dm amount released retry key (mission_to_record row)) (Some (mr_revision row)) (s1, k1)
      = (Inr rec, (s', k'))"
    and no: "\<not> (key \<noteq> [] \<and> budget_ticket key \<in> set (mx_evidence_refs (mr_refs row)))"
  shows "charge_took_effect ou mid epoch dm amount released retry key s1 s'"
proof -
  from patch_success [OF f ok run] obtain row' r s2 k2 now
    where x: "fence_error epoch owner (Some (mr_revision row)) row' = None" "\<not> mission_terminal (mr_state r)"
      "wrote_at ou mid epoch s1 s2 k2 row' r (\<lambda>r. patch_values now
        (consumption_patch dm amount released retry key (mission_to_record row)) r r) s'"
    by blast
  have rev: "mr_revision r = mr_revision row"
    using x(1,3) by (auto simp: fence_error_def wrote_at_def split: if_splits)
  have "mission_db_le s1 s2" "mission_at mid s2 = Some r" using x(3) by (simp_all add: wrote_at_def)
  with mission_db_leD(1) [OF _ row] have "mission_row_le row r" by fastforce
  then have c: "same_content row r" using rev by (rule mission_row_leD(9))
  have refs: "mr_refs r = mr_refs row" using c by (simp add: same_content_def)
  show ?thesis
    unfolding charge_took_effect_def
    by (rule exI [of _ s2], rule exI [of _ k2], rule exI [of _ r])
      (use x(2,3) no refs consumption_patch_content [OF c] in \<open>auto simp: wrote_at_def charged_row_def\<close>)
qed

lemma row_revision [simp]: "mission_row_ok r \<Longrightarrow> mc_revision (mission_to_record r) = mr_revision r"
  by (simp add: mission_row_ok_def mission_to_record_def int_or_def)

lemma record_fields [simp]:
  "mc_refs (mission_to_record r) = mr_refs r" "mc_state (mission_to_record r) = mr_state r"
  "mc_budget (mission_to_record r) = mr_budget r" "mc_recovery (mission_to_record r) = mr_recovery r"
  "mc_lease_epoch (mission_to_record r) = mr_lease_epoch r"
  "mc_frontier (mission_to_record r) = mk_frontier (mr_frontier r)"
  "mc_lease_owner (mission_to_record r) = or_else (mr_lease_owner r) []"
  by (simp_all add: mission_to_record_def)

lemma commit_attempts_atomic:
  assumes f: "fair ou"
  shows "mission_db_ok s \<Longrightarrow>
    commit_attempts n err ou mid epoch owner dm amount released retry key seen (s, k) = (Inr (rec, seen'), (s', k')) \<Longrightarrow>
    charge_took_effect ou mid epoch dm amount released retry key s s'"
proof (induction n arbitrary: err s k)
  case 0
  then show ?case by simp
next
  case (Suc n)
  let ?s1 = "out_env ou k s"
  have ok1: "mission_db_ok ?s1" and le1: "mission_db_le s ?s1" using reliedD [OF f Suc.prems(1)] by blast+
  show ?case
  proof (cases "mission_at mid ?s1")
    case None
    then have "sql_first (\<lambda>r. mr_mission_id r = mid \<and> org_user_match None None r) (db_missions ?s1) = None"
      by (auto simp: mission_at_def row_at_None sql_first_None)
    then have "get_mission ou mid None None (s, k) = (Inr None, (?s1, Suc k))"
      by (simp add: get_mission_def query_def)
    then have False using Suc.prems(2) by (simp add: seq_def)
    then show ?thesis ..
  next
    case (Some row)
    note g = get_mission_at [OF ok1 Some]
    note rok = mission_at_ok [OF ok1 Some]
    show ?thesis
    proof (cases "key \<noteq> [] \<and> budget_ticket key \<in> set (mx_evidence_refs (mr_refs row))")
      case True
      then have "s' = ?s1" using Suc.prems(2) g by (simp add: seq_def)
      then show ?thesis
        unfolding charge_took_effect_def using ok1 le1 Some True by blast
    next
      case no: False
      let ?p = "consumption_patch dm amount released retry key (mission_to_record row)"
      obtain res s2 k2 where p: "patch_mission ou mid epoch owner ?p (Some (mr_revision row)) (?s1, Suc k) = (res, (s2, k2))"
        by (metis surj_pair)
      have le2: "mission_db_ok s2 \<and> mission_db_le ?s1 s2" by (rule keepsD [OF patch_guarantees [OF f] ok1 p])
      show ?thesis
      proof (cases res)
        case (Inr u)
        have "s' = s2"
          using Suc.prems(2) g p no rok Inr by (auto simp: seq_def on_error_def)
        then show ?thesis
          using charge_took_effect_later [OF le1 patch_of_row [OF f ok1 Some p [unfolded Inr] no]] by simp
      next
        case (Inl er)
        have "commit_attempts n er ou mid epoch owner dm amount released retry key seen (s2, k2) = (Inr (rec, seen'), (s', k'))"
          using Suc.prems(2) g p no rok Inl by (auto simp: seq_def on_error_def split: if_splits)
        from Suc.IH [OF _ this] le2 mission_order.rel_trans [OF le1] charge_took_effect_later
        show ?thesis by blast
      qed
    qed
  qed
qed

text \<open>
  C4. No charge is lost or applied to a stale budget: whatever other sessions commit meanwhile, a
  \<open>commit_consumption\<close> that returns either found its ticket and wrote nothing, or charged the row
  of a state the ledger really passed through, under the caller's epoch, adding exactly the amount to
  what was consumed there.
\<close>

theorem charge_is_atomic:
  assumes "fair ou" and "mission_db_ok s"
    and "commit_consumption ou mid epoch owner dm amount released retry key None (s, k) = (Inr (rec, seen'), (s', k'))"
  shows "\<exists>s1 k1 r. mission_db_ok s1 \<and> mission_db_le s s1 \<and> mission_at mid s1 = Some r \<and>
    ((key \<noteq> [] \<and> budget_ticket key \<in> set (mx_evidence_refs (mr_refs r)) \<and> s' = s1) \<or>
     (mr_lease_epoch r = epoch \<and>
      (\<exists>r'. s' = out_env ou k1 (s1\<lparr>db_missions := row_put mr_mission_id mid r' (db_missions s1)\<rparr>) \<and>
         mr_revision r' = mr_revision r + 1 \<and>
         (\<forall>d. amount_at (rb_consumed (mr_budget r')) d =
            amount_at (rb_consumed (mr_budget r)) d + (if d = take 64 dm then max 0 amount else 0)))))"
proof -
  have "charge_took_effect ou mid epoch dm amount released retry key s s'"
    using commit_attempts_atomic [OF assms(1,2)] assms(3) by (auto simp: commit_consumption_def)
  then obtain s1 k1 r where x: "mission_db_ok s1" "mission_db_le s s1" "mission_at mid s1 = Some r"
    "(key \<noteq> [] \<and> budget_ticket key \<in> set (mx_evidence_refs (mr_refs r)) \<and> s' = s1) \<or>
     (mr_lease_epoch r = epoch \<and> (\<exists>now. s' = out_env ou k1 (s1\<lparr>db_missions := row_put mr_mission_id mid
        (charged_row now dm amount released retry key r) (db_missions s1)\<rparr>)))"
    unfolding charge_took_effect_def by blast
  have rev: "mr_revision (charged_row now dm amount released retry key r) = mr_revision r + 1" for now
    by (simp add: charged_row_def patch_values_def)
  from x(4) show ?thesis
  proof (elim disjE conjE exE)
    assume "key \<noteq> []" "budget_ticket key \<in> set (mx_evidence_refs (mr_refs r))" "s' = s1"
    then show ?thesis using x(1-3) by blast
  next
    fix now assume e: "mr_lease_epoch r = epoch" "s' = out_env ou k1 (s1\<lparr>db_missions := row_put mr_mission_id mid
        (charged_row now dm amount released retry key r) (db_missions s1)\<rparr>)"
    have "\<exists>r'. s' = out_env ou k1 (s1\<lparr>db_missions := row_put mr_mission_id mid r' (db_missions s1)\<rparr>) \<and>
         mr_revision r' = mr_revision r + 1 \<and>
         (\<forall>d. amount_at (rb_consumed (mr_budget r')) d =
            amount_at (rb_consumed (mr_budget r)) d + (if d = take 64 dm then max 0 amount else 0))"
      using e(2) rev charged_consumed by (intro exI [of _ "charged_row now dm amount released retry key r"]) simp
    then show ?thesis using x(1-3) e(1) by blast
  qed
qed

text \<open>
  The quota holds under concurrency: a reservation of a positive amount that returns was
  added to the reservations of a state the ledger passed through, and consumption plus
  reservations of that dimension stayed within the mission's quota; a mission with quotas
  refuses every other dimension.
\<close>

theorem reserve_within_quota:
  assumes "fair ou" and "mission_db_ok s" and "0 < amount" and "length dm \<le> 64"
    and "reserve ou mid epoch owner dm amount (s, k) = (Inr rec, (s', k'))"
  shows "\<exists>s1 k1 r r'. mission_db_le s s1 \<and> mission_at mid s1 = Some r
    \<and> s' = out_env ou k1 (s1\<lparr>db_missions := row_put mr_mission_id mid r' (db_missions s1)\<rparr>)
    \<and> mr_lease_epoch r = epoch \<and> rb_quota (mr_budget r') = rb_quota (mr_budget r)
    \<and> amount_at (rb_reserved (mr_budget r')) dm = amount_at (rb_reserved (mr_budget r)) dm + amount
    \<and> (rb_quota (mr_budget r) = [] \<or>
       map_of (rb_quota (mr_budget r)) dm \<noteq> None \<and>
       amount_at (rb_consumed (mr_budget r')) dm + amount_at (rb_reserved (mr_budget r')) dm
         \<le> amount_at (rb_quota (mr_budget r)) dm)"
proof -
  let ?s1 = "out_env ou k s"
  have ok1: "mission_db_ok ?s1" and le1: "mission_db_le s ?s1" using reliedD [OF assms(1,2)] by blast+
  obtain row where row: "mission_at mid ?s1 = Some row"
  proof (cases "mission_at mid ?s1")
    case None
    then have "sql_first (\<lambda>r. mr_mission_id r = mid \<and> org_user_match None None r) (db_missions ?s1) = None"
      by (auto simp: mission_at_def row_at_None sql_first_None)
    then have False using assms(5) by (simp add: reserve_def get_mission_def query_def seq_def pause_def)
    then show ?thesis ..
  qed
  let ?b = "budget_reserve dm amount (mr_budget row)"
  have run: "reserve_refused (mr_budget row) dm amount = None \<and>
      patch_mission ou mid epoch owner (no_mission_patch\<lparr>pt_budget := Some ?b\<rparr>) (Some (mr_revision row)) (?s1, Suc k) = (Inr rec, (s', k'))"
    using assms(5) get_mission_at [OF ok1 row] mission_at_ok [OF ok1 row]
    by (cases "reserve_refused (mr_budget row) dm amount") (simp_all add: reserve_def seq_def)
  from patch_success [OF assms(1) ok1 run [THEN conjunct2]] obtain row' r s2 k2 now
    where f: "fence_error epoch owner (Some (mr_revision row)) row' = None"
      and w: "wrote_at ou mid epoch ?s1 s2 k2 row' r (\<lambda>r. patch_values now (no_mission_patch\<lparr>pt_budget := Some ?b\<rparr>) r r) s'"
    by blast
  have r: "mission_db_le ?s1 s2" "mission_at mid s2 = Some r" "mr_lease_epoch r = epoch" "mr_revision r = mr_revision row"
    using f w by (auto simp: fence_error_def wrote_at_def split: if_splits)
  obtain r0 where "mission_at mid s2 = Some r0" "mission_row_le row r0" using mission_db_leD(1) [OF r(1) row] by blast
  then have c: "same_content row r" using mission_row_leD(9) r(2,4) by auto
  define r' where "r' = patch_values now (no_mission_patch\<lparr>pt_budget := Some ?b\<rparr>) r r"
  have b': "mr_budget r' = ?b" "mr_budget row = mr_budget r"
    using c by (simp_all add: r'_def patch_values_def no_mission_patch_def same_content_def)
  have t: "take 64 dm = dm" using assms(4) by simp
  have sum: "amount_at (rb_reserved ?b) dm = amount_at (rb_reserved (mr_budget row)) dm + amount"
    using reserved_reserve [of dm amount "mr_budget row" dm] assms(3) by (simp add: t max_def)
  have s': "s' = out_env ou k2 (s2\<lparr>db_missions := row_put mr_mission_id mid r' (db_missions s2)\<rparr>)"
    using w by (simp add: wrote_at_def r'_def)
  have "rb_quota (mr_budget r) = [] \<or> map_of (rb_quota (mr_budget r)) dm \<noteq> None \<and>
       amount_at (rb_consumed (mr_budget r')) dm + amount_at (rb_reserved (mr_budget r')) dm
         \<le> amount_at (rb_quota (mr_budget r)) dm"
    using run [THEN conjunct1] sum b' unfolding reserve_refused_def by (auto simp: not_less split: if_splits)
  then show ?thesis
    using mission_order.rel_trans [OF le1 r(1)] r(2,3) s' b' sum by (intro exI conjI) (assumption | simp)+
qed

section \<open>Alone with the ledger\<close>

lemma idle_env_simp [simp]: "idle_env k s = s"
  by (simp add: idle_env_def)

lemma idle_fenced:
  assumes "out_env ou = idle_env" and "mission_db_ok s" and "mission_at mid s = Some row"
    and "decide row = Inr (Some vals)" and "mr_lease_epoch row = epoch" and "mr_mission_id (vals row) = mid"
  shows "fenced_update ou mid epoch decide (s, k) =
    (Inr (mission_to_record (vals row)),
     (s\<lparr>db_missions := row_put mr_mission_id mid (vals row) (db_missions s)\<rparr>, Suc (Suc (Suc k))))"
  using assms by (simp add: fenced_update_def update_mission_eq)

lemma idle_patch:
  assumes "out_env ou = idle_env" and "mission_db_ok s" and "mission_at mid s = Some row"
    and "fence_error epoch owner expected row = None" and "\<not> mission_terminal (mr_state row)"
  shows "patch_mission ou mid epoch owner p expected (s, k) =
    (Inr (mission_to_record (patch_values (out_clock ou k) p row row)),
     (s\<lparr>db_missions := row_put mr_mission_id mid (patch_values (out_clock ou k) p row row) (db_missions s)\<rparr>,
      Suc (Suc (Suc k))))"
proof -
  have e: "mr_lease_epoch row = epoch" using assms(4) by (auto simp: fence_error_def split: if_splits)
  have i: "mr_mission_id (patch_values (out_clock ou k) p row row) = mid"
    using mission_at_Some [OF assms(3)] by (simp add: patch_values_def)
  have d: "patch_decision (out_clock ou k) epoch owner expected p row = Inr (Some (patch_values (out_clock ou k) p row))"
    using assms(4,5) by (simp add: patch_decision_def)
  show ?thesis
    using idle_fenced [where decide = "patch_decision (out_clock ou k) epoch owner expected p", OF assms(1-3) d e i]
    by (simp add: patch_mission_def)
qed

lemma fence_with_revision:
  "fence_error epoch owner None r = None \<Longrightarrow> fence_error epoch owner (Some (mr_revision r)) r = None"
  by (auto simp: fence_error_def split: if_splits)

lemma some_attempts: obtains m where "MAX_CAS_ATTEMPTS = Suc m"
  using that [of 23] by (simp add: MAX_CAS_ATTEMPTS_def)

lemma idle_commit:
  assumes "out_env ou = idle_env" and "mission_db_ok s" and "mission_at mid s = Some r"
    and "fence_error epoch owner None r = None" and "\<not> mission_terminal (mr_state r)"
    and "\<not> (key \<noteq> [] \<and> budget_ticket key \<in> set (mx_evidence_refs (mr_refs r)))"
  shows "commit_consumption ou mid epoch owner dm amount released retry key None (s, k) =
    (Inr (mission_to_record (charged_row (out_clock ou (Suc k)) dm amount released retry key r), None),
     (s\<lparr>db_missions := row_put mr_mission_id mid
         (charged_row (out_clock ou (Suc k)) dm amount released retry key r) (db_missions s)\<rparr>, Suc (Suc (Suc (Suc k)))))"
proof -
  have g: "get_mission ou mid None None (s, k) = (Inr (Some (mission_to_record r)), (s, Suc k))"
    using get_mission_at [of ou k s mid r] assms(1-3) by simp
  note p = idle_patch [OF assms(1-3) fence_with_revision [OF assms(4)] assms(5)]
  obtain m where n: "MAX_CAS_ATTEMPTS = Suc m" by (rule some_attempts)
  show ?thesis
    using assms(6) mission_at_ok [OF assms(2,3)]
    by (auto simp: commit_consumption_def n seq_def g on_error_def p charged_row_def)
qed

lemma charged_fields:
  "mr_mission_id (charged_row now dm amount released retry key r) = mr_mission_id r"
  "mr_state (charged_row now dm amount released retry key r) = mr_state r"
  "mr_lease_epoch (charged_row now dm amount released retry key r) = mr_lease_epoch r"
  "mr_lease_owner (charged_row now dm amount released retry key r) = mr_lease_owner r"
  "mr_refs (charged_row now dm amount released retry key r) =
     (if key \<noteq> [] then add_ticket (budget_ticket key) (mr_refs r) else mr_refs r)"
  by (simp_all add: charged_row_def patch_values_def consumption_patch_def no_mission_patch_def)

text \<open>
  Exactly once, up to the 64 evidence references: repeating a charge under the same key
  adds nothing while the mission holds fewer than 64 evidence references; once it holds 64, the
  ticket of the first charge is cut off and the repetition is charged a second time.
\<close>

theorem replayed_charge:
  assumes "out_env ou = idle_env" and "mission_db_ok s" and "mission_at mid s = Some r"
    and "fence_error epoch owner None r = None" and "\<not> mission_terminal (mr_state r)"
    and "key \<noteq> []" and "budget_ticket key \<notin> set (mx_evidence_refs (mr_refs r))" and "0 < amount"
    and "w1 = snd (commit_consumption ou mid epoch owner dm amount released retry key None (s, k))"
    and "w2 = snd (commit_consumption ou mid epoch owner dm amount released retry key None w1)"
  shows "\<exists>r2. mission_at mid (fst w2) = Some r2 \<and>
    amount_at (rb_consumed (mr_budget r2)) (take 64 dm) = amount_at (rb_consumed (mr_budget r)) (take 64 dm) +
      (if length (mx_evidence_refs (mr_refs r)) < MAX_REFS then amount else 2 * amount)"
proof -
  define r1 where "r1 = charged_row (out_clock ou (Suc k)) dm amount released retry key r"
  define s1 where "s1 = s\<lparr>db_missions := row_put mr_mission_id mid r1 (db_missions s)\<rparr>"
  have c1: "commit_consumption ou mid epoch owner dm amount released retry key None (s, k)
      = (Inr (mission_to_record r1, None), (s1, Suc (Suc (Suc (Suc k)))))"
    using idle_commit [OF assms(1-5)] assms(7) by (simp add: r1_def s1_def)
  have w1: "w1 = (s1, Suc (Suc (Suc (Suc k))))" using assms(9) c1 by simp
  have i1: "mr_mission_id r1 = mid" using mission_at_Some [OF assms(3)] by (simp add: r1_def charged_fields)
  have at1: "mission_at mid s1 = Some r1" using assms(3) i1 by (simp add: s1_def)
  have fair: "fair ou" using assms(1) by (rule fair_idle)
  have ok1: "mission_db_ok s1"
    using keepsD [OF ledger_guarantees(3) [OF fair] assms(2) c1] by blast
  have cons1: "amount_at (rb_consumed (mr_budget r1)) (take 64 dm) = amount_at (rb_consumed (mr_budget r)) (take 64 dm) + amount"
    using charged_consumed [of "out_clock ou (Suc k)" dm amount released retry key r "take 64 dm"] assms(8)
    by (simp add: r1_def max_def)
  have ev1: "mx_evidence_refs (mr_refs r1) = take MAX_REFS (mx_evidence_refs (mr_refs r) @ [budget_ticket key])"
    using assms(6,7) by (simp add: r1_def charged_fields add_ticket_def)
  show ?thesis
  proof (cases "length (mx_evidence_refs (mr_refs r)) < MAX_REFS")
    case True
    then have t: "budget_ticket key \<in> set (mx_evidence_refs (mr_refs r1))" by (simp add: ev1)
    have g: "get_mission ou mid None None w1 = (Inr (Some (mission_to_record r1)), (s1, Suc (snd w1)))"
      using get_mission_at [of ou "snd w1" s1 mid r1] assms(1) ok1 at1 by (simp add: w1)
    obtain m where n: "MAX_CAS_ATTEMPTS = Suc m" by (rule some_attempts)
    have "fst w2 = s1" using assms(6,10) t g by (simp add: commit_consumption_def n seq_def)
    then show ?thesis using at1 cons1 True by simp
  next
    case False
    then have ev: "mx_evidence_refs (mr_refs r1) = take MAX_REFS (mx_evidence_refs (mr_refs r))" by (simp add: ev1)
    then have nt: "budget_ticket key \<notin> set (mx_evidence_refs (mr_refs r1))"
      using assms(7) by (auto dest: in_set_takeD)
    have f1: "fence_error epoch owner None r1 = None" using assms(4) by (simp add: fence_error_def r1_def charged_fields split: if_splits)
    have t1: "\<not> mission_terminal (mr_state r1)" using assms(5) by (simp add: r1_def charged_fields)
    define r2 where "r2 = charged_row (out_clock ou (Suc (snd w1))) dm amount released retry key r1"
    have "fst w2 = s1\<lparr>db_missions := row_put mr_mission_id mid r2 (db_missions s1)\<rparr>"
      using idle_commit [OF assms(1) ok1 at1 f1 t1, of key dm amount released retry "snd w1"] nt assms(10)
      by (simp add: w1 r2_def)
    then have "mission_at mid (fst w2) = Some r2"
      using at1 i1 by (simp add: r2_def charged_fields)
    moreover have "amount_at (rb_consumed (mr_budget r2)) (take 64 dm) = amount_at (rb_consumed (mr_budget r1)) (take 64 dm) + amount"
      using charged_consumed [of _ dm amount released retry key r1 "take 64 dm"] assms(8) by (simp add: r2_def max_def)
    ultimately show ?thesis using cons1 False by simp
  qed
qed

section \<open>Settling and resuming\<close>

definition settled_in :: "mission_db \<Rightarrow> string \<Rightarrow> string \<Rightarrow> bool" where
  "settled_in s sid tid = (\<exists>w t. swarm_at sid s = Some w \<and> map_of (sw_tasks w) tid = Some t
     \<and> tr_state t \<in> set sticky_states)"

lemma settled_in_later:
  assumes "mission_db_le s s'" and "settled_in s sid tid"
  shows "settled_in s' sid tid"
proof -
  obtain w t where w: "swarm_at sid s = Some w" "map_of (sw_tasks w) tid = Some t" "tr_state t \<in> set sticky_states"
    using assms(2) by (auto simp: settled_in_def)
  obtain w' where w': "swarm_at sid s' = Some w'" "swarm_row_le w w'" using mission_db_leD(2) [OF assms(1) w(1)] by blast
  then have "map_of (sw_tasks w') tid = Some t" using w(2,3) by (simp add: swarm_row_le_def)
  then show ?thesis using w'(1) w(3) by (auto simp: settled_in_def)
qed

lemma get_swarm_seq:
  "seq (get_swarm_run ou sid) f w =
     f (map_option swarm_to_run (swarm_at sid (out_env ou (snd w) (fst w)))) (out_env ou (snd w) (fst w), Suc (snd w))"
  by (simp add: get_swarm_run_def seq_def query_def pause_def)

lemma settle_once_settles:
  assumes fair: "fair ou" and ok: "mission_db_ok s" and st: "tr_state receipt \<in> set sticky_states"
    and run: "settle_once ou sid receipt (s, k) = (Inr res, (s', k'))"
  shows "settled_in s' sid (tr_task_id receipt)"
proof -
  let ?s1 = "out_env ou k s" and ?s2 = "out_env ou (Suc k) (out_env ou k s)"
  let ?tid = "tr_task_id receipt"
  have ok1: "mission_db_ok ?s1" and le1: "mission_db_le s ?s1" using reliedD [OF fair ok] by blast+
  have ok2: "mission_db_ok ?s2" and le2: "mission_db_le ?s1 ?s2" using reliedD [OF fair ok1] by blast+
  obtain row where row: "swarm_at sid ?s1 = Some row"
    using run by (cases "swarm_at sid ?s1") (simp_all add: settle_once_def)
  show ?thesis
  proof (cases "case map_of (sw_tasks row) ?tid of None \<Rightarrow> False | Some existing \<Rightarrow> tr_state existing \<in> set sticky_states")
    case True
    then have "settled_in ?s1 sid ?tid" using row by (auto simp: settled_in_def split: option.splits)
    moreover have "s' = ?s1" using run row True by (auto simp: settle_once_def split: option.splits)
    ultimately show ?thesis by simp
  next
    case False
    let ?new = "\<lambda>r. settle_values (out_clock ou k) (out_clock ou (Suc k)) receipt row r"
    let ?u = "update_swarm sid (\<lambda>w. sw_revision w = sw_revision row) ?new ?s2"
    obtain r where r: "swarm_at sid ?s2 = Some r" using mission_db_leD(2) [OF le2 row] by blast
    have q: "sw_revision r = sw_revision row" and s': "s' = out_env ou (Suc (Suc k)) (fst ?u)"
      using run row False r
      by (auto simp: settle_once_def update_swarm_eq [OF ok2] get_swarm_seq split: if_splits option.splits)
    have i: "sw_swarm_run_id (?new r) = sid" using swarm_at_Some [OF r] by (simp add: settle_values_def Let_def)
    have eq: "fst ?u = ?s2\<lparr>db_swarms := row_put sw_swarm_run_id sid (?new r) (db_swarms ?s2)\<rparr>"
      using r q by (simp add: update_swarm_eq [OF ok2])
    have "map_of (sw_tasks (?new r)) ?tid = Some (receipt\<lparr>tr_settled_at := out_clock ou (Suc k)\<rparr>)"
      by (simp add: settle_values_def Let_def dict_update_lookup)
    then have here: "settled_in (fst ?u) sid ?tid"
      using st i r unfolding eq settled_in_def by simp
    have rr: "r = row" using mission_db_leD(2) [OF le2 row] r q by (auto simp: swarm_row_le_def)
    have open_row: "\<And>t. map_of (sw_tasks row) ?tid = Some t \<Longrightarrow> tr_state t \<notin> set sticky_states"
      using False by simp
    have "mission_db_ok (fst ?u)"
    proof (rule update_swarm_keeps [OF ok2, THEN conjunct1])
      fix w assume w: "swarm_at sid ?s2 = Some w" "swarm_row_ok w" "sw_revision w = sw_revision row"
      then show "sw_swarm_run_id (?new w) = sw_swarm_run_id w \<and> swarm_row_ok (?new w) \<and> swarm_row_le w (?new w)"
        using settle_values_le [of row receipt] open_row r rr by simp
    qed
    then have "mission_db_le (fst ?u) s'" using reliedD [OF fair] s' by simp
    then show ?thesis using here settled_in_later by blast
  qed
qed

lemma settle_attempts_settles:
  assumes fair: "fair ou" and st: "tr_state receipt \<in> set sticky_states"
  shows "mission_db_ok s \<Longrightarrow> settle_attempts n ou sid receipt (s, k) = (Inr res, (s', k')) \<Longrightarrow>
    settled_in s' sid (tr_task_id receipt)"
proof (induction n arbitrary: s k)
  case 0
  then show ?case by simp
next
  case (Suc n)
  obtain r s1 k1 where one: "settle_once ou sid receipt (s, k) = (r, (s1, k1))" by (metis surj_pair)
  have ok1: "mission_db_ok s1" using keepsD [OF settle_once_guarantees [OF fair] Suc.prems(1) one] by blast
  show ?case
  proof (cases r)
    case (Inr x)
    then have "s1 = s'" "x = res" using Suc.prems(2) one by (simp_all add: on_error_def)
    then show ?thesis using settle_once_settles [OF fair Suc.prems(1) st] one Inr by simp
  next
    case (Inl err)
    then have "settle_attempts n ou sid receipt (s1, k1) = (Inr res, (s', k'))"
      using Suc.prems(2) one by (simp add: on_error_def split: if_splits)
    then show ?thesis using Suc.IH [OF ok1] by simp
  qed
qed

text \<open>
  C18. A settlement that returns is durable: after \<open>settle_swarm_task\<close> with a final receipt
  returned, and at every later point of any run, the task has a final receipt, either this one or
  the final receipt that was there before it.
\<close>

theorem settlement_is_durable:
  assumes "fair ou" and "mission_db_ok s" and "tr_state receipt \<in> set sticky_states"
    and "settle_swarm_task ou sid receipt (s, k) = (Inr res, w)" and "list_all mission_step_ok xs"
  shows "settled_in (fst (run_ops mission_step w xs)) sid (tr_task_id receipt)"
proof -
  obtain s' k' where w: "w = (s', k')" by (cases w)
  have "settled_in s' sid (tr_task_id receipt)"
    using settle_attempts_settles [OF assms(1,3,2)] assms(4) by (simp add: w settle_swarm_task_def)
  moreover have "mission_db_ok s'"
    using keepsD [OF settle_swarm_task_guarantees [OF assms(1)] assms(2)] assms(4) by (simp add: w)
  ultimately show ?thesis
    using mission_runs.run_rel [OF assms(5), of w] settled_in_later by (simp add: w)
qed

text \<open>
  A resume plan puts every task of a run in exactly one list, and never schedules work that
  must not run twice: what is retried is neither finished nor cancelled nor unresolved, and a
  destructive task is retried only if it never started.
\<close>

theorem resume_plan_partition:
  assumes "distinct (map fst (sr_tasks swarm))" and "map_of (sr_tasks swarm) tid = Some t"
  shows "(tid \<in> set (pl_skip (build_resume_plan swarm)) \<longleftrightarrow> tr_state t \<in> set [TS_Succeeded, TS_Skipped])
    \<and> (tid \<in> set (pl_cancelled (build_resume_plan swarm)) \<longleftrightarrow> tr_state t = TS_Cancelled)
    \<and> (tid \<in> set (pl_retry (build_resume_plan swarm)) \<longleftrightarrow>
        tr_state t \<in> set [TS_Pending, TS_Ready]
        \<or> tr_state t = TS_Running \<and> tr_operation_class t \<noteq> OC_Destructive_at_most_once
        \<or> tr_state t = TS_Failed \<and> tr_operation_class t \<in> set [OC_Pure, OC_Idempotent, OC_Repeatable])
    \<and> (tid \<in> set (pl_unresolved (build_resume_plan swarm)) \<longleftrightarrow>
        tr_state t = TS_Unresolved
        \<or> tr_state t = TS_Running \<and> tr_operation_class t = OC_Destructive_at_most_once
        \<or> tr_state t = TS_Failed \<and> tr_operation_class t \<in> set [OC_Destructive_at_most_once, OC_Compensatable])"
proof -
  have t: "(tid, r) \<in> set (sr_tasks swarm) \<longleftrightarrow> r = t" for r
    using assms map_of_eq_Some_iff [OF assms(1), of tid r] by auto
  have mem: "tid \<in> set (fated fate (sr_tasks swarm)) \<longleftrightarrow> task_fate_of t = fate" for fate
    unfolding fated_def set_map set_filter using t by (auto simp: image_iff)
  have fates: "task_fate_of t =
      (case tr_state t of TS_Succeeded \<Rightarrow> Skip_task | TS_Skipped \<Rightarrow> Skip_task | TS_Cancelled \<Rightarrow> Leave_cancelled
       | TS_Unresolved \<Rightarrow> Leave_unresolved | TS_Pending \<Rightarrow> Retry_task | TS_Ready \<Rightarrow> Retry_task
       | TS_Running \<Rightarrow> (if tr_operation_class t = OC_Destructive_at_most_once then Leave_unresolved else Retry_task)
       | TS_Failed \<Rightarrow> (if tr_operation_class t \<in> set [OC_Pure, OC_Idempotent, OC_Repeatable] then Retry_task else Leave_unresolved))"
    by (cases "tr_state t"; cases "tr_operation_class t") (simp_all add: task_fate_of_def classify_swarm_task_def)
  show ?thesis
    unfolding build_resume_plan_def
    by (cases "tr_state t"; cases "tr_operation_class t") (simp_all add: mem fates)
qed

end
