(* ===== verification/Mission_Outcomes.thy ===== *)
theory Mission_Outcomes
  imports Mission_Properties
begin

text \<open>
  What recovery leaves behind: unresolved tasks are settled, and a mission is completed only when all its
  tasks are.
\<close>

section \<open>Recovery settles what must not run again\<close>

definition read_before :: "mission_db \<Rightarrow> swarm_run \<Rightarrow> bool" where
  "read_before s swarm = (\<exists>s0 w. mission_db_ok s0 \<and> mission_db_le s0 s \<and> swarm_at (sr_swarm_run_id swarm) s0 = Some w
     \<and> swarm = swarm_to_run w)"

lemma read_before_later: "read_before s swarm \<Longrightarrow> mission_db_le s s' \<Longrightarrow> read_before s' swarm"
  unfolding read_before_def using mission_order.rel_trans by blast

lemma swarm_to_run_tasks: "map_of (sr_tasks (swarm_to_run w)) tid = map_option mk_receipt (map_of (sw_tasks w) tid)"
proof -
  have "map_of (map (\<lambda>(tid, t). (tid, mk_receipt t)) ts) tid = map_option mk_receipt (map_of ts tid)" for ts
    by (induction ts) auto
  then show ?thesis by (simp add: swarm_to_run_def)
qed

lemma read_before_task:
  assumes "read_before s swarm" and "map_of (sr_tasks swarm) tid = Some t"
  shows "tr_task_id t = tid" and "tr_state t \<in> set sticky_states \<Longrightarrow> settled_in s (sr_swarm_run_id swarm) tid"
proof -
  obtain s0 w where w: "mission_db_ok s0" "mission_db_le s0 s" "swarm_at (sr_swarm_run_id swarm) s0 = Some w"
    "swarm = swarm_to_run w" using assms(1) by (auto simp: read_before_def)
  obtain t0 where t0: "map_of (sw_tasks w) tid = Some t0" "t = mk_receipt t0"
    using assms(2) by (auto simp: w(4) swarm_to_run_tasks)
  have "list_all (\<lambda>(tid, t). tr_task_id t = tid) (sw_tasks w)"
    using swarm_at_ok [OF w(1,3)] by (simp add: swarm_row_ok_def)
  then show "tr_task_id t = tid" using map_of_SomeD [OF t0(1)] t0(2) by (auto simp: list_all_iff)
  show "settled_in s (sr_swarm_run_id swarm) tid" if "tr_state t \<in> set sticky_states"
  proof (rule settled_in_later [OF w(2)])
    show "settled_in s0 (sr_swarm_run_id swarm) tid"
      unfolding settled_in_def using w(3) t0 that by auto
  qed
qed

lemma settle_unresolved_settles:
  assumes fair: "fair ou"
  shows "mission_db_ok s \<Longrightarrow> read_before s swarm \<Longrightarrow> settle_unresolved ou swarm tids (s, k) = (Inr u, (s', k')) \<Longrightarrow>
    \<forall>tid \<in> set tids. settled_in s' (sr_swarm_run_id swarm) tid"
proof (induction tids arbitrary: s k)
  case Nil
  then show ?case by simp
next
  case (Cons tid tids)
  obtain t where t: "map_of (sr_tasks swarm) tid = Some t"
    using Cons.prems(3) by (cases "map_of (sr_tasks swarm) tid") simp_all
  note tf = read_before_task [OF Cons.prems(2) t]
  show ?case
  proof (cases "tr_state t = TS_Unresolved")
    case True
    then have run: "settle_unresolved ou swarm tids (s, k) = (Inr u, (s', k'))" using Cons.prems(3) t by simp
    have le: "mission_db_le s s'"
      using keepsD [OF settle_unresolved_guarantees [OF fair] Cons.prems(1) run] by blast
    have "settled_in s (sr_swarm_run_id swarm) tid" using tf(2) True by (simp add: sticky_states_def)
    then show ?thesis using Cons.IH [OF Cons.prems(1,2) run] settled_in_later [OF le] by simp
  next
    case False
    let ?m = "settle_swarm_task ou (sr_swarm_run_id swarm) (mark_unresolved t)"
    obtain r s1 k1 where one: "?m (s, k) = (r, (s1, k1))" by (metis surj_pair)
    obtain x where r: "r = Inr x" and rest: "settle_unresolved ou swarm tids (s1, k1) = (Inr u, (s', k'))"
      using Cons.prems(3) t False one by (cases r) (simp_all add: seq_def)
    have ok1: "mission_db_ok s1" and le1: "mission_db_le s s1"
      using keepsD [OF settle_swarm_task_guarantees [OF fair] Cons.prems(1) one] by blast+
    have le: "mission_db_le s1 s'"
      using keepsD [OF settle_unresolved_guarantees [OF fair] ok1 rest] by blast
    have "settled_in s1 (sr_swarm_run_id swarm) (tr_task_id (mark_unresolved t))"
      by (rule settle_attempts_settles [OF fair _ Cons.prems(1) one [unfolded r settle_swarm_task_def]])
        (simp add: mark_unresolved_def sticky_states_def)
    then have "settled_in s' (sr_swarm_run_id swarm) tid"
      using settled_in_later [OF le] tf(1) by (simp add: mark_unresolved_def)
    then show ?thesis using Cons.IH [OF ok1 read_before_later [OF Cons.prems(2) le1] rest] by simp
  qed
qed

lemma resume_swarms_settles:
  assumes fair: "fair ou"
  shows "mission_db_ok s \<Longrightarrow> list_all (read_before s) swarms \<Longrightarrow>
    resume_swarms ou swarms plans (s, k) = (Inr plans', (s', k')) \<Longrightarrow>
    plans' = plans @ map build_resume_plan swarms \<and>
    (\<forall>swarm \<in> set swarms. \<forall>tid \<in> set (pl_unresolved (build_resume_plan swarm)). settled_in s' (sr_swarm_run_id swarm) tid)"
proof (induction swarms arbitrary: s k plans)
  case Nil
  then show ?case by simp
next
  case (Cons swarm swarms)
  let ?m = "settle_unresolved ou swarm (pl_unresolved (build_resume_plan swarm))"
  obtain r s1 k1 where one: "?m (s, k) = (r, (s1, k1))" by (metis surj_pair)
  obtain u where r: "r = Inr u" and rest: "resume_swarms ou swarms (plans @ [build_resume_plan swarm]) (s1, k1) = (Inr plans', (s', k'))"
    using Cons.prems(3) one by (cases r) (simp_all add: seq_def Let_def)
  have ok1: "mission_db_ok s1" and le1: "mission_db_le s s1"
    using keepsD [OF settle_unresolved_guarantees [OF fair] Cons.prems(1) one] by blast+
  have le: "mission_db_le s1 s'" using keepsD [OF resume_swarms_guarantees [OF fair] ok1 rest] by blast
  have "list_all (read_before s1) swarms"
    using Cons.prems(2) read_before_later [OF _ le1] by (auto simp: list_all_iff)
  note IH = Cons.IH [OF ok1 this rest]
  have "\<forall>tid \<in> set (pl_unresolved (build_resume_plan swarm)). settled_in s1 (sr_swarm_run_id swarm) tid"
    using settle_unresolved_settles [OF fair Cons.prems(1) _ one [unfolded r]] Cons.prems(2) by simp
  then show ?case using IH settled_in_later [OF le] by simp
qed

lemma listed_read_before:
  assumes "mission_db_ok s" and "swarm \<in> set (map swarm_to_run (sort_key sw_created_at (sql_where p (db_swarms s))))"
  shows "read_before s swarm"
proof -
  obtain w where w: "w \<in> set (db_swarms s)" "swarm = swarm_to_run w" using assms(2) by (auto simp: sql_where_def)
  have "keyed sw_swarm_run_id (db_swarms s)" using assms(1) by (simp add: mission_db_ok_def)
  from row_at_keyed [OF this w(1)] have "swarm_at (sr_swarm_run_id swarm) s = Some w"
    by (simp add: swarm_at_def w(2) swarm_to_run_def)
  then show ?thesis unfolding read_before_def using assms(1) mission_order.rel_refl w(2) by blast
qed

lemma resume_work_settles:
  assumes fair: "fair ou" and ok: "mission_db_ok s"
    and run: "resume_work ou mid worker epoch expires rec (s, k) = (Inr res, (s', k'))"
  shows "\<exists>d. res = RR_ok d \<and> (\<forall>p \<in> set (rd_resume_plans d). \<forall>tid \<in> set (pl_unresolved p).
    settled_in s' (pl_swarm_run_id p) tid)"
proof -
  let ?s1 = "out_env ou k s"
  have ok1: "mission_db_ok ?s1" using reliedD [OF fair ok] by blast
  define swarms where "swarms = map swarm_to_run (sort_key sw_created_at (sql_where (\<lambda>w. sw_mission_id w = mid) (db_swarms ?s1)))"
  have l: "list_swarm_runs ou mid None (s, k) = (Inr swarms, (?s1, Suc k))"
    by (simp add: list_swarm_runs_def query_def swarms_def)
  obtain r s2 k2 where two: "resume_swarms ou swarms [] (?s1, Suc k) = (r, (s2, k2))" by (metis surj_pair)
  obtain plans where r: "r = Inr plans"
    and rest: "apply_resume ou mid worker epoch expires rec plans (s2, k2) = (Inr res, (s', k'))"
    using run l two unfolding resume_work_def by (cases r) (simp_all add: seq_def)
  have ok2: "mission_db_ok s2" using keepsD [OF resume_swarms_guarantees [OF fair] ok1 two] by blast
  have ag: "guarantees (apply_resume ou mid worker epoch expires rec plans)"
    unfolding apply_resume_def Let_def by (intro guarantee_rules store_guarantees fair)
  have le: "mission_db_le s2 s'" using keepsD [OF ag ok2 rest] by blast
  have "list_all (read_before ?s1) swarms"
    using listed_read_before [OF ok1] by (auto simp: list_all_iff swarms_def)
  from resume_swarms_settles [OF fair ok1 this two [unfolded r]]
  have p: "plans = map build_resume_plan swarms" and settled: "\<forall>swarm \<in> set swarms.
      \<forall>tid \<in> set (pl_unresolved (build_resume_plan swarm)). settled_in s2 (sr_swarm_run_id swarm) tid"
    by simp_all
  have "\<exists>d. res = RR_ok d \<and> rd_resume_plans d = plans"
    using rest unfolding apply_resume_def Let_def by (auto simp: seq_def tick_def split: prod.splits sum.splits)
  then obtain d where d: "res = RR_ok d" "rd_resume_plans d = plans" by blast
  have "\<forall>q \<in> set plans. \<forall>tid \<in> set (pl_unresolved q). settled_in s' (pl_swarm_run_id q) tid"
    using settled settled_in_later [OF le] unfolding p by (simp add: build_resume_plan_def)
  then show ?thesis using d by simp
qed

lemma recover_ok_resumed:
  assumes fair: "fair ou" and ok: "mission_db_ok s"
    and run: "recover ou mid worker org ttl (s, k) = (Inr (RR_ok d), (s', k'))"
  shows "\<exists>s1 k1 epoch expires rec. mission_db_ok s1 \<and> mission_db_le s s1 \<and>
    resume_work ou mid worker epoch expires rec (s1, k1) = (Inr (RR_ok d), (s', k'))"
proof -
  obtain i0 s1 k1 where i: "inspect_mission ou mid org (s, k) = (i0, (s1, k1))" by (metis surj_pair)
  have ok1: "mission_db_ok s1" and le1: "mission_db_le s s1" using keepsD [OF inspect_guarantees [OF fair] ok i] by blast+
  obtain a0 s2 k2 where a: "acquire_lease ou mid worker ttl org (s1, k1) = (a0, (s2, k2))" by (metis surj_pair)
  have ok2: "mission_db_ok s2" and le2: "mission_db_le s1 s2" using keepsD [OF acquire_lease_guarantees [OF fair] ok1 a] by blast+
  obtain epoch expires where acq: "a0 = Inr (Some (epoch, expires))"
    using run i a unfolding recover_def
    by (cases i0; cases a0) (auto simp: seq_def split: option.splits if_splits sum.splits prod.splits)
  obtain b0 s3 k3 where b: "recover_body ou mid worker org epoch expires (s2, k2) = (b0, (s3, k3))" by (metis surj_pair)
  have body: "b0 = Inr (RR_ok d) \<and> s3 = s' \<and> k3 = k'"
    using run i a acq b unfolding recover_def
    by (cases b0) (auto simp: seq_def on_error_def split: option.splits if_splits sum.splits prod.splits recover_result.splits)
  obtain g0 s4 k4 where g: "get_mission ou mid org None (s2, k2) = (g0, (s4, k4))" by (metis surj_pair)
  have ok4: "mission_db_ok s4" and le4: "mission_db_le s2 s4" using keepsD [OF get_mission_guarantees [OF fair] ok2 g] by blast+
  obtain rec where rec: "g0 = Inr (Some rec)"
    using b body g unfolding recover_body_def by (cases g0) (auto simp: seq_def split: option.splits)
  note le24 = mission_order.rel_trans [OF mission_order.rel_trans [OF le1 le2] le4]
  show ?thesis
  proof (cases "mc_state rec = MS_Recovering")
    case True
    then have "resume_work ou mid worker epoch expires rec (s4, k4) = (Inr (RR_ok d), (s', k'))"
      using b body g rec unfolding recover_body_def by (simp add: seq_def)
    then show ?thesis using ok4 le24 by blast
  next
    case False
    let ?p = "\<lparr>rp_attempt = rv_attempt (mc_recovery rec) + 1, rp_last_recovery_at = out_clock ou k4\<rparr>"
    obtain t0 s5 k5 where t: "transition_mission ou mid (state_value MS_Recovering) epoch worker None None (Some ?p) (s4, k4) = (t0, (s5, k5))"
      by (metis surj_pair)
    have ok5: "mission_db_ok s5" and le5: "mission_db_le s4 s5" using keepsD [OF transition_guarantees [OF fair] ok4 t] by blast+
    obtain rec1 where "t0 = Inr rec1" "resume_work ou mid worker epoch expires rec1 (s5, k5) = (Inr (RR_ok d), (s', k'))"
      using b body g rec t False unfolding recover_body_def
      by (cases t0) (auto simp: seq_def tick_def split: if_splits)
    then show ?thesis using ok5 mission_order.rel_trans [OF le24 le5] by blast
  qed
qed

text \<open>
  C16. Recovery never leaves doubtful work open: when \<open>recover\<close> succeeds, every task its resume
  plans call unresolved (a destructive task that was running or failed, a compensatable one that
  failed) has a final receipt in the ledger, whatever other workers did meanwhile, so it is never
  scheduled again.
\<close>

theorem recover_settles_unresolved:
  assumes "fair ou" and "mission_db_ok s"
    and "recover ou mid worker org ttl (s, k) = (Inr (RR_ok d), (s', k'))"
    and "p \<in> set (rd_resume_plans d)" and "tid \<in> set (pl_unresolved p)"
  shows "settled_in s' (pl_swarm_run_id p) tid"
proof -
  obtain s1 k1 epoch expires rec where r: "mission_db_ok s1"
    "resume_work ou mid worker epoch expires rec (s1, k1) = (Inr (RR_ok d), (s', k'))"
    using recover_ok_resumed [OF assms(1-3)] by blast
  from resume_work_settles [OF assms(1) r] assms(4,5) show ?thesis by auto
qed

section \<open>What recovery completes\<close>

lemma idle_get:
  assumes "out_env ou = idle_env" and "mission_db_ok s" and "get_mission ou mid org None (s, k) = (Inr (Some rec), w)"
  shows "w = (s, Suc k) \<and> (\<exists>row. mission_at mid s = Some row \<and> rec = mission_to_record row)"
proof -
  obtain row where f: "sql_first (\<lambda>r. mr_mission_id r = mid \<and> org_user_match org None r) (db_missions s) = Some row"
    and w: "rec = mission_to_record row" "w = (s, Suc k)"
    using assms(1,3) by (auto simp: get_mission_def query_def)
  then show ?thesis using found_mission_at [OF assms(2) f] by simp
qed

text \<open>
  What other workers leave alone while a mission is recovered: none of them completes it, and no task leaves a
  swarm run.
\<close>

definition mission_open :: "string \<Rightarrow> mission_db \<Rightarrow> bool" where
  "mission_open mid s = (case mission_at mid s of None \<Rightarrow> True | Some r \<Rightarrow> mr_state r \<noteq> MS_Complete)"

definition tasks_stay :: "mission_db \<Rightarrow> mission_db \<Rightarrow> bool" where
  "tasks_stay s s' = (\<forall>sid w. swarm_at sid s = Some w \<longrightarrow>
     (\<exists>w'. swarm_at sid s' = Some w' \<and> fst ` set (sw_tasks w) \<subseteq> fst ` set (sw_tasks w')))"

definition others_wait :: "string \<Rightarrow> outside \<Rightarrow> bool" where
  "others_wait mid ou = (\<forall>k s. tasks_stay s (out_env ou k s) \<and> (mission_open mid s \<longrightarrow> mission_open mid (out_env ou k s)))"

definition any_db :: "mission_db \<Rightarrow> bool" where
  "any_db s = True"

interpretation staying: forward_order any_db tasks_stay
proof
  show "tasks_stay s s" for s by (simp add: tasks_stay_def)
  show "tasks_stay a c" if ab: "tasks_stay a b" and bc: "tasks_stay b c" for a b c
    unfolding tasks_stay_def
  proof (intro allI impI)
    fix sid w assume "swarm_at sid a = Some w"
    then obtain w1 where w1: "swarm_at sid b = Some w1" "fst ` set (sw_tasks w) \<subseteq> fst ` set (sw_tasks w1)"
      using ab unfolding tasks_stay_def by blast
    then obtain w2 where "swarm_at sid c = Some w2" "fst ` set (sw_tasks w1) \<subseteq> fst ` set (sw_tasks w2)"
      using bc unfolding tasks_stay_def by blast
    with w1(2) show "\<exists>w'. swarm_at sid c = Some w' \<and> fst ` set (sw_tasks w) \<subseteq> fst ` set (sw_tasks w')" by blast
  qed
qed

lemma waiting: "others_wait mid ou \<Longrightarrow> relied any_db tasks_stay (out_env ou)"
  by (simp add: others_wait_def relied_def any_db_def)

lemma stayed: "tasks_stay s s' \<Longrightarrow> swarm_at sid s = Some w \<Longrightarrow> swarm_at sid s' = Some w' \<Longrightarrow>
    fst ` set (sw_tasks w) \<subseteq> fst ` set (sw_tasks w')"
  unfolding tasks_stay_def by force

lemma update_mission_stays: "keeps any_db tasks_stay (commit (update_mission mid q f))"
  by (rule staying.keeps_commit) (simp add: any_db_def tasks_stay_def update_mission_def swarm_at_def split: prod.split)

lemma mission_ops_stay:
  assumes "others_wait mid' ou"
  shows "keeps any_db tasks_stay (inspect_mission ou mid org)"
    and "keeps any_db tasks_stay (acquire_lease ou mid owner ttl org)"
    and "keeps any_db tasks_stay (get_mission ou mid org user)"
    and "keeps any_db tasks_stay (transition_mission ou mid to_state epoch owner expected failure patch)"
  unfolding inspect_mission_def get_mission_def list_swarm_runs_def latest_checkpoint_def list_checkpoints_def
    acquire_lease_def transition_mission_def fenced_update_def Let_def
  by (intro staying.keeps_intros waiting [OF assms] update_mission_stays)+

lemma stays_then:
  assumes "keeps any_db tasks_stay m" and "m (s, k) = (res, (s', k'))"
  shows "tasks_stay s s'"
  using keepsD [OF assms(1) _ assms(2)] by (simp add: any_db_def)

text \<open>A fenced update that does not complete the mission leaves it open.\<close>

definition completes :: "(mission_row \<Rightarrow> mission_error + (mission_row \<Rightarrow> mission_row) option) \<Rightarrow> bool" where
  "completes decide = (\<not> (\<forall>row x. decide row = Inr x \<longrightarrow> mr_state row \<noteq> MS_Complete \<and>
     (\<forall>vals r. x = Some vals \<longrightarrow> mr_mission_id (vals r) = mr_mission_id r \<and> (mr_state r \<noteq> MS_Complete \<longrightarrow> mr_state (vals r) \<noteq> MS_Complete))))"

lemma update_mission_open:
  assumes "mission_db_ok s" and "mission_open mid s"
    and "\<And>r. mr_mission_id (f r) = mr_mission_id r \<and> (mr_state r \<noteq> MS_Complete \<longrightarrow> mr_state (f r) \<noteq> MS_Complete)"
  shows "mission_open mid (fst (update_mission mid q f s))"
proof (cases "mission_at mid s")
  case (Some r)
  have "mr_mission_id (f r) = mid" using assms(3) [of r] mission_at_Some [OF Some] by simp
  then show ?thesis using assms(2) assms(3) [of r] Some by (simp add: update_mission_eq [OF assms(1)] mission_open_def)
qed (use assms(2) in \<open>simp add: update_mission_eq [OF assms(1)]\<close>)

lemma fenced_open:
  assumes fair: "fair ou" and ok: "mission_db_ok s" and others: "others_wait mid ou" and decide: "\<not> completes decide"
    and run: "fenced_update ou mid epoch decide (s, k) = (Inr rec, (s', k'))"
  shows "mc_state rec \<noteq> MS_Complete \<and> mission_open mid s'"
proof -
  let ?s1 = "out_env ou k s"
  have leave: "mission_open mid (out_env ou n u)" if "mission_open mid u" for n u
    using others that by (simp add: others_wait_def)
  have ok1: "mission_db_ok ?s1" using reliedD [OF fair ok] by blast
  obtain row where row: "mission_at mid ?s1 = Some row"
    using run by (cases "mission_at mid ?s1") (simp_all add: fenced_update_def)
  obtain x where x: "decide row = Inr x" using run row by (cases "decide row") (simp_all add: fenced_update_def)
  have open1: "mr_state row \<noteq> MS_Complete" using decide x unfolding completes_def by blast
  then have o1: "mission_open mid ?s1" using row by (simp add: mission_open_def)
  show ?thesis
  proof (cases x)
    case None
    with run row x open1 o1 show ?thesis by (auto simp: fenced_update_def mission_to_record_def)
  next
    case (Some vals)
    let ?s2 = "out_env ou (Suc k) ?s1"
    let ?u = "update_mission mid (\<lambda>r. mr_lease_epoch r = epoch \<and> mr_revision r = mr_revision row) vals ?s2"
    have ok2: "mission_db_ok ?s2" using reliedD [OF fair ok1] by blast
    have "mission_open mid (fst ?u)"
      by (rule update_mission_open [OF ok2 leave [OF o1]]) (use decide x Some in \<open>unfold completes_def, blast\<close>)
    from leave [OF this] have o3: "mission_open mid (out_env ou (Suc (Suc k)) (fst ?u))" .
    have "s' = out_env ou (Suc (Suc k)) (fst ?u) \<and> (\<exists>r. mission_at mid s' = Some r \<and> rec = mission_to_record r)"
      using run row x Some by (cases ?u) (auto simp: fenced_update_def split: if_splits option.splits)
    with o3 show ?thesis by (auto simp: mission_open_def mission_to_record_def)
  qed
qed

lemma patch_open: "\<not> completes (patch_decision now epoch owner expected p)"
  by (auto simp: completes_def patch_decision_def patch_values_def mission_terminal_def mission_terminal_states_def split: option.splits if_splits)

lemma transition_open: "dest \<noteq> MS_Complete \<Longrightarrow> \<not> completes (transition_decision now dest epoch owner expected failure patch)"
  by (auto simp: completes_def transition_decision_def mission_transition_values_def mission_transition_allowed_def Let_def
      split: option.splits if_splits)

text \<open>Whatever others do, recovery itself completes the mission only when its plans allow it.\<close>

lemma apply_resume_completes:
  assumes fair: "fair ou" and ok: "mission_db_ok s" and others: "others_wait mid ou"
    and run: "apply_resume ou mid worker epoch expires rec plans (s, k) = (Inr (RR_ok d), (s', k'))"
    and complete: "rd_state d = MS_Complete"
  shows "rd_resume_plans d = plans \<and> plans \<noteq> [] \<and> next_mission_state (sorted_union (map pl_skip plans))
    (sorted_union (map pl_retry plans)) (sorted_union (map pl_unresolved plans)) = MS_Complete"
proof -
  define next_state where "next_state = (if plans = [] then MS_Running
      else next_mission_state (sorted_union (map pl_skip plans)) (sorted_union (map pl_retry plans))
             (sorted_union (map pl_unresolved plans)))"
  have "\<exists>p failed. apply_resume ou mid worker epoch expires rec plans (s, k) =
      seq (patch_mission ou mid epoch worker p None) (\<lambda>rec1.
        seq (if mission_transition_allowed (mc_state rec1) next_state \<and> mc_state rec1 \<noteq> next_state
             then transition_mission ou mid (state_value next_state) epoch worker None None None
             else ret rec1) (\<lambda>rec2.
          ret (RR_ok \<lparr>rd_lease_epoch = epoch, rd_lease_expires_at = expires, rd_state = mc_state rec2,
            rd_frontier = mc_frontier rec2, rd_resume_plans = plans, rd_unresolved = failed\<rparr>))) (s, k)"
  proof (cases "plans = []")
    case True
    show ?thesis
      unfolding apply_resume_def Let_def prog_steps next_state_def if_P [OF True] by (rule exI, rule exI, rule refl)
  next
    case False
    show ?thesis
      unfolding apply_resume_def Let_def prog_steps next_state_def if_not_P [OF False] by (rule exI, rule exI, rule refl)
  qed
  then obtain p failed where e: "apply_resume ou mid worker epoch expires rec plans (s, k) =
      seq (patch_mission ou mid epoch worker p None) (\<lambda>rec1.
        seq (if mission_transition_allowed (mc_state rec1) next_state \<and> mc_state rec1 \<noteq> next_state
             then transition_mission ou mid (state_value next_state) epoch worker None None None
             else ret rec1) (\<lambda>rec2.
          ret (RR_ok \<lparr>rd_lease_epoch = epoch, rd_lease_expires_at = expires, rd_state = mc_state rec2,
            rd_frontier = mc_frontier rec2, rd_resume_plans = plans, rd_unresolved = failed\<rparr>))) (s, k)"
    by blast
  obtain r1 s1 k1 where p: "patch_mission ou mid epoch worker p None (s, k) = (r1, (s1, k1))" by (metis surj_pair)
  obtain rec1 where r1: "r1 = Inr rec1" using run p unfolding e by (cases r1) (simp_all add: seq_def)
  have ok1: "mission_db_ok s1" using keepsD [OF patch_guarantees [OF fair] ok p] by blast
  have "fenced_update ou mid epoch (patch_decision (out_clock ou k) epoch worker None p) (s, k) = (Inr rec1, (s1, k1))"
    using p r1 by (simp add: patch_mission_def)
  from fenced_open [OF fair ok others patch_open this] have open1: "mc_state rec1 \<noteq> MS_Complete" by blast
  have "next_state = MS_Complete"
  proof (rule ccontr)
    assume other: "next_state \<noteq> MS_Complete"
    obtain rec2 s2 k2 where t: "transition_mission ou mid (state_value next_state) epoch worker None None None (s1, k1) = (Inr rec2, (s2, k2))"
      and rec2: "mc_state rec2 = MS_Complete"
      using run p r1 open1 complete unfolding e by (auto simp: seq_def split: if_splits sum.splits prod.splits)
    then have "fenced_update ou mid epoch (transition_decision (out_clock ou k1) next_state epoch worker None None None) (s1, k1) =
      (Inr rec2, (s2, k2))" by (simp add: transition_mission_def split: if_splits)
    from fenced_open [OF fair ok1 others transition_open [OF other] this] rec2 show False by blast
  qed
  moreover have "rd_resume_plans d = plans"
    using run p r1 unfolding e by (auto simp: seq_def split: sum.splits prod.splits)
  ultimately show ?thesis by (auto simp: next_state_def split: if_splits)
qed

text \<open>The runs recovery decides on are those of the listing.\<close>

lemma resume_work_listing:
  assumes fair: "fair ou" and ok: "mission_db_ok s" and others: "others_wait mid ou"
    and run: "resume_work ou mid worker epoch expires rec (s, k) = (Inr (RR_ok d), (s', k'))"
    and complete: "rd_state d = MS_Complete"
  obtains s1 where "mission_db_ok s1" and "mission_db_le s s1" and "tasks_stay s s1" and "mission_db_le s1 s'"
    and "rd_resume_plans d = map (\<lambda>w. build_resume_plan (swarm_to_run w))
      (sort_key sw_created_at (sql_where (\<lambda>w. sw_mission_id w = mid) (db_swarms s1)))"
    and "next_mission_state (sorted_union (map pl_skip (rd_resume_plans d)))
      (sorted_union (map pl_retry (rd_resume_plans d))) (sorted_union (map pl_unresolved (rd_resume_plans d))) = MS_Complete"
proof -
  let ?s1 = "out_env ou k s"
  have s1: "mission_db_ok ?s1" "mission_db_le s ?s1" using reliedD [OF fair ok] by blast+
  have stay: "tasks_stay s ?s1" using others by (simp add: others_wait_def)
  define swarms where "swarms = map swarm_to_run (sort_key sw_created_at (sql_where (\<lambda>w. sw_mission_id w = mid) (db_swarms ?s1)))"
  have l: "list_swarm_runs ou mid None (s, k) = (Inr swarms, (?s1, Suc k))"
    by (simp add: list_swarm_runs_def query_def swarms_def)
  obtain r s2 k2 where two: "resume_swarms ou swarms [] (?s1, Suc k) = (r, (s2, k2))" by (metis surj_pair)
  obtain plans where r: "r = Inr plans"
    and rest: "apply_resume ou mid worker epoch expires rec plans (s2, k2) = (Inr (RR_ok d), (s', k'))"
    using run l two unfolding resume_work_def by (cases r) (simp_all add: seq_def)
  have s2: "mission_db_ok s2" "mission_db_le ?s1 s2" using keepsD [OF resume_swarms_guarantees [OF fair] s1(1) two] by blast+
  have "guarantees (apply_resume ou mid worker epoch expires rec plans)"
    unfolding apply_resume_def Let_def by (intro guarantee_rules store_guarantees fair)
  from keepsD [OF this s2(1) rest] mission_order.rel_trans [OF s2(2)] have late: "mission_db_le ?s1 s'" by blast
  have "list_all (read_before ?s1) swarms"
    using listed_read_before [OF s1(1)] by (auto simp: list_all_iff swarms_def)
  from resume_swarms_settles [OF fair s1(1) this two [unfolded r]]
  have plans: "plans = map (\<lambda>w. build_resume_plan (swarm_to_run w))
      (sort_key sw_created_at (sql_where (\<lambda>w. sw_mission_id w = mid) (db_swarms ?s1)))" by (simp add: swarms_def)
  from apply_resume_completes [OF fair s2(1) others rest complete] plans show thesis
    by (intro that [OF s1 stay late]) simp_all
qed

lemma recover_resumed:
  assumes fair: "fair ou" and ok: "mission_db_ok s" and others: "others_wait mid ou"
    and run: "recover ou mid worker org ttl (s, k) = (Inr (RR_ok d), (s', k'))"
  shows "\<exists>s1 k1 epoch expires rec. mission_db_ok s1 \<and> mission_db_le s s1 \<and> tasks_stay s s1 \<and>
    resume_work ou mid worker epoch expires rec (s1, k1) = (Inr (RR_ok d), (s', k'))"
proof -
  obtain i0 s1 k1 where i: "inspect_mission ou mid org (s, k) = (i0, (s1, k1))" by (metis surj_pair)
  have ok1: "mission_db_ok s1" and le1: "mission_db_le s s1" using keepsD [OF inspect_guarantees [OF fair] ok i] by blast+
  obtain a0 s2 k2 where a: "acquire_lease ou mid worker ttl org (s1, k1) = (a0, (s2, k2))" by (metis surj_pair)
  have ok2: "mission_db_ok s2" and le2: "mission_db_le s1 s2" using keepsD [OF acquire_lease_guarantees [OF fair] ok1 a] by blast+
  note stay12 = staying.rel_trans [OF stays_then [OF mission_ops_stay(1) [OF others] i] stays_then [OF mission_ops_stay(2) [OF others] a]]
  obtain epoch expires where acq: "a0 = Inr (Some (epoch, expires))"
    using run i a unfolding recover_def
    by (cases i0; cases a0) (auto simp: seq_def split: option.splits if_splits sum.splits prod.splits)
  obtain b0 s3 k3 where b: "recover_body ou mid worker org epoch expires (s2, k2) = (b0, (s3, k3))" by (metis surj_pair)
  have body: "b0 = Inr (RR_ok d) \<and> s3 = s' \<and> k3 = k'"
    using run i a acq b unfolding recover_def
    by (cases b0) (auto simp: seq_def on_error_def split: option.splits if_splits sum.splits prod.splits recover_result.splits)
  obtain g0 s4 k4 where g: "get_mission ou mid org None (s2, k2) = (g0, (s4, k4))" by (metis surj_pair)
  have ok4: "mission_db_ok s4" and le4: "mission_db_le s2 s4" using keepsD [OF get_mission_guarantees [OF fair] ok2 g] by blast+
  obtain rec where rec: "g0 = Inr (Some rec)"
    using b body g unfolding recover_body_def by (cases g0) (auto simp: seq_def split: option.splits)
  note stay4 = staying.rel_trans [OF stay12 stays_then [OF mission_ops_stay(3) [OF others] g]]
  note le24 = mission_order.rel_trans [OF mission_order.rel_trans [OF le1 le2] le4]
  show ?thesis
  proof (cases "mc_state rec = MS_Recovering")
    case True
    then have "resume_work ou mid worker epoch expires rec (s4, k4) = (Inr (RR_ok d), (s', k'))"
      using b body g rec unfolding recover_body_def by (simp add: seq_def)
    then show ?thesis using ok4 le24 stay4 by blast
  next
    case False
    let ?p = "\<lparr>rp_attempt = rv_attempt (mc_recovery rec) + 1, rp_last_recovery_at = out_clock ou k4\<rparr>"
    obtain t0 s5 k5 where t: "transition_mission ou mid (state_value MS_Recovering) epoch worker None None (Some ?p) (s4, k4) = (t0, (s5, k5))"
      by (metis surj_pair)
    have ok5: "mission_db_ok s5" and le5: "mission_db_le s4 s5" using keepsD [OF transition_guarantees [OF fair] ok4 t] by blast+
    obtain rec1 where "t0 = Inr rec1" "resume_work ou mid worker epoch expires rec1 (s5, k5) = (Inr (RR_ok d), (s', k'))"
      using b body g rec t False unfolding recover_body_def
      by (cases t0) (auto simp: seq_def tick_def split: if_splits)
    then show ?thesis
      using ok5 mission_order.rel_trans [OF le24 le5] staying.rel_trans [OF stay4 stays_then [OF mission_ops_stay(4) [OF others] t]] by blast
  qed
qed

lemma sorted_union_empty: "sorted_union xss = [] \<longleftrightarrow> (\<forall>xs \<in> set xss. xs = [])"
proof -
  have "set (sorted_union xss) = (\<Union>xs \<in> set xss. set xs)" by (auto simp: sorted_union_def)
  then show ?thesis by (metis (no_types, lifting) SUP_bot_conv(1) empty_set set_empty)
qed

lemma settled_plan:
  assumes "map_of (sr_tasks swarm) tid = Some t" and "pl_retry (build_resume_plan swarm) = []"
    and "pl_unresolved (build_resume_plan swarm) = []"
  shows "tr_state t \<in> set [TS_Succeeded, TS_Skipped, TS_Cancelled]"
proof -
  have mem: "(tid, t) \<in> set (sr_tasks swarm)" using assms(1) by (rule map_of_SomeD)
  have unsort: "sort xs = [] \<longleftrightarrow> xs = []" for xs :: "string list" by (metis set_empty set_sort)
  have "task_fate_of t \<noteq> Retry_task" "task_fate_of t \<noteq> Leave_unresolved"
    using assms(2,3) mem unfolding build_resume_plan_def fated_def by (auto simp: unsort filter_empty_conv)
  then show ?thesis
    by (cases "tr_state t"; cases "tr_operation_class t") (simp_all add: task_fate_of_def classify_swarm_task_def)
qed

text \<open>
  C17. Uncertainty never becomes success: when recovery ends with the mission complete, every task of every swarm
  run the mission had at its start has succeeded, been skipped or been cancelled for good, and at least one task
  had succeeded or been skipped. Other workers may do what they like in between, as long as they do not complete the
  mission themselves and no task leaves a swarm run. Runs created after the recovery has listed the runs are not
  covered: the transition checks the revision of the mission, which they do not move.
\<close>

theorem recover_completes_only_settled:
  assumes "fair ou" and "mission_db_ok s" and "others_wait mid ou"
    and "recover ou mid worker org ttl (s, k) = (Inr (RR_ok d), (s', k'))" and "rd_state d = MS_Complete"
    and "w \<in> set (db_swarms s)" and "sw_mission_id w = mid" and "map_of (sw_tasks w) tid = Some t"
  shows "(\<exists>w' t'. swarm_at (sw_swarm_run_id w) s' = Some w' \<and> map_of (sw_tasks w') tid = Some t' \<and>
      tr_state t' \<in> set [TS_Succeeded, TS_Skipped, TS_Cancelled])
    \<and> (\<exists>p \<in> set (rd_resume_plans d). pl_skip p \<noteq> [])"
proof -
  let ?sid = "sw_swarm_run_id w"
  obtain s1 k1 epoch expires rec where r: "mission_db_ok s1" "mission_db_le s s1" "tasks_stay s s1"
    "resume_work ou mid worker epoch expires rec (s1, k1) = (Inr (RR_ok d), (s', k'))"
    using recover_resumed [OF assms(1-4)] by blast
  obtain s2 where s2: "mission_db_ok s2" "mission_db_le s1 s2" "tasks_stay s1 s2" "mission_db_le s2 s'"
    and plans: "rd_resume_plans d = map (\<lambda>w. build_resume_plan (swarm_to_run w))
      (sort_key sw_created_at (sql_where (\<lambda>w. sw_mission_id w = mid) (db_swarms s2)))"
    and nx: "next_mission_state (sorted_union (map pl_skip (rd_resume_plans d)))
      (sorted_union (map pl_retry (rd_resume_plans d))) (sorted_union (map pl_unresolved (rd_resume_plans d))) = MS_Complete"
    by (rule resume_work_listing [OF assms(1) r(1) assms(3) r(4) assms(5)])
  have w: "swarm_at ?sid s = Some w"
    using row_at_keyed [OF _ assms(6), of sw_swarm_run_id] assms(2) by (simp add: swarm_at_def mission_db_ok_def)
  obtain w2 where w2: "swarm_at ?sid s2 = Some w2" "sw_mission_id w2 = mid"
    using mission_db_leD(2) [OF mission_order.rel_trans [OF r(2) s2(2)] w] assms(7) by (auto simp: swarm_row_le_def)
  have "tid \<in> fst ` set (sw_tasks w)" using map_of_SomeD [OF assms(8)] by (rule image_eqI [rotated]) simp
  then have "tid \<in> fst ` set (sw_tasks w2)"
    using stayed [OF staying.rel_trans [OF r(3) s2(3)] w w2(1)] by (rule subsetD [rotated])
  then obtain t2 where t2: "map_of (sw_tasks w2) tid = Some t2" by (cases "map_of (sw_tasks w2) tid") (simp_all add: map_of_eq_None_iff)
  have e: "sorted_union (map pl_retry (rd_resume_plans d)) = []" "sorted_union (map pl_unresolved (rd_resume_plans d)) = []"
      "sorted_union (map pl_skip (rd_resume_plans d)) \<noteq> []"
    using nx by (auto simp: next_mission_state_def split: if_splits)
  have "w2 \<in> set (db_swarms s2)" using w2(1) by (auto simp: swarm_at_def dest: row_at_Some)
  then have "build_resume_plan (swarm_to_run w2) \<in> set (rd_resume_plans d)" using w2(2) by (auto simp: plans sql_where_def)
  then have none: "pl_retry (build_resume_plan (swarm_to_run w2)) = []" "pl_unresolved (build_resume_plan (swarm_to_run w2)) = []"
    using e(1,2) by (auto simp: sorted_union_empty)
  have "map_of (sr_tasks (swarm_to_run w2)) tid = Some (mk_receipt t2)" using t2 by (simp add: swarm_to_run_tasks)
  from settled_plan [OF this none] have st: "tr_state t2 \<in> set [TS_Succeeded, TS_Skipped, TS_Cancelled]" by simp
  from mission_db_leD(2) [OF s2(4) w2(1)] t2 st
  have "\<exists>w'. swarm_at ?sid s' = Some w' \<and> map_of (sw_tasks w') tid = Some t2"
    by (auto simp: swarm_row_le_def sticky_states_def)
  moreover have "\<exists>p \<in> set (rd_resume_plans d). pl_skip p \<noteq> []" using e(3) by (auto simp: sorted_union_empty)
  ultimately show ?thesis using st by blast
qed

end
