(* ===== verification/Mission_Limits.thy ===== *)
theory Mission_Limits
  imports Mission_Outcomes
begin

text \<open>
  The mission lease as an exclusive lock (an instance of the lease contract), the ring of
  checkpoints, the quota ceilings, and the places where the mission runtime misses its own
  fences and bounds: a heartbeat does not protect against a takeover that already read the row, a
  worker's own renewal outdates its epoch, an unleased mission can be patched with an empty owner,
  and a full list of references keeps growing.
\<close>

section \<open>The lease as a lock\<close>

definition quiet_outside :: "time \<Rightarrow> outside" where
  "quiet_outside t = \<lparr>out_env = idle_env, out_clock = (\<lambda>_. t), out_token = (\<lambda>_. ''tok'')\<rparr>"

lemma mission_calm_simps [simp]: "out_env (quiet_outside t) = idle_env" "out_clock (quiet_outside t) k = t" "out_token (quiet_outside t) k = ''tok''"
  by (simp_all add: quiet_outside_def)

definition mission_take :: "string \<Rightarrow> time \<Rightarrow> string \<Rightarrow> int \<Rightarrow> mission_db \<Rightarrow> mission_db \<times> bool" where
  "mission_take mid t tok ttl s =
     (case acquire_lease (quiet_outside t) mid tok ttl None (s, 0) of (res, w) \<Rightarrow>
        (fst w, case res of Inr (Some _) \<Rightarrow> True | _ \<Rightarrow> False))"

text \<open>Giving back with the epoch the mission has, the best case for whoever tries.\<close>

definition mission_give :: "string \<Rightarrow> time \<Rightarrow> string \<Rightarrow> mission_db \<Rightarrow> mission_db \<times> bool" where
  "mission_give mid t tok s =
     (case mission_at mid s of
        None \<Rightarrow> (s, False)
      | Some r \<Rightarrow> (case release_lease (quiet_outside t) mid tok (mr_lease_epoch r) (s, 0) of (res, w) \<Rightarrow> (fst w, res = Inr True)))"

definition mission_holder :: "string \<Rightarrow> mission_db \<Rightarrow> (string \<times> time) option" where
  "mission_holder mid s =
     (case mission_at mid s of
        None \<Rightarrow> None
      | Some r \<Rightarrow> (case mr_lease_owner r of None \<Rightarrow> None
                   | Some h \<Rightarrow> (case mr_lease_expires_at r of None \<Rightarrow> None | Some e \<Rightarrow> Some (h, e))))"

definition worker_token :: "string \<Rightarrow> bool" where
  "worker_token tok = (tok \<noteq> [] \<and> length tok \<le> 128)"

lemma holder_row:
  "mission_holder mid s = Some (h, e) \<longleftrightarrow>
     (\<exists>r. mission_at mid s = Some r \<and> mr_lease_owner r = Some h \<and> mr_lease_expires_at r = Some e)"
  by (auto simp: mission_holder_def split: option.splits)

lemma idle_acquire_refused:
  assumes "out_env ou = idle_env" and "mission_db_ok s" and "mission_at mid s = Some r"
    and "mission_terminal (mr_state r) \<or> \<not> lease_free (out_clock ou k) (take 128 owner) r"
  shows "acquire_lease ou mid owner ttl None (s, k) =
    (Inr None, if take 128 owner = [] then (s, k) else (s, Suc k))"
proof -
  have f: "sql_first (\<lambda>r. mr_mission_id r = mid \<and> org_user_match None None r) (db_missions s) = Some r"
    by (rule mission_at_found [OF assms(3) _ assms(2)]) (simp add: org_user_match_def)
  show ?thesis using assms(1,4) f by (auto simp: acquire_lease_def Let_def)
qed

lemma idle_acquire:
  assumes "out_env ou = idle_env" and "mission_db_ok s" and "mission_at mid s = Some r"
    and "\<not> mission_terminal (mr_state r)" and "lease_free (out_clock ou k) (take 128 owner) r" and "owner \<noteq> []"
    and "x = lease_expiry (out_clock ou k) ttl"
  shows "acquire_lease ou mid owner ttl None (s, k) =
    (Inr (Some (mr_lease_epoch r + 1, x)),
     (s\<lparr>db_missions := row_put mr_mission_id mid (lease_values (take 128 owner) (out_clock ou k) x r r) (db_missions s)\<rparr>,
      Suc (Suc k)))"
proof -
  have f: "sql_first (\<lambda>r. mr_mission_id r = mid \<and> org_user_match None None r) (db_missions s) = Some r"
    by (rule mission_at_found [OF assms(3) _ assms(2)]) (simp add: org_user_match_def)
  show ?thesis using assms f by (simp add: acquire_lease_def Let_def update_mission_eq)
qed

lemma mission_take_cases:
  assumes "mission_db_ok s" and "mission_take mid t tok ttl s = (s', True)"
  shows "\<exists>row nrow. lease_granted (quiet_outside t) mid tok ttl s 0 (mr_lease_epoch row + 1) (lease_expiry t ttl) s' row nrow \<and> mission_db_ok s'"
proof -
  have fair: "fair (quiet_outside t)" by (rule fair_idle) simp
  obtain e x k' where a: "acquire_lease (quiet_outside t) mid tok ttl None (s, 0) = (Inr (Some (e, x)), (s', k'))"
    using assms(2) by (auto simp: mission_take_def split: prod.splits sum.splits option.splits)
  obtain row nrow where "lease_granted (quiet_outside t) mid tok ttl s 0 e x s' row nrow"
    using acquire_granted [OF fair assms(1) a] by blast
  moreover have "mission_db_ok s'" using keepsD [OF acquire_lease_guarantees [OF fair] assms(1) a] by blast
  ultimately show ?thesis by (auto simp: lease_granted_def Let_def)
qed

interpretation mission_locks: lease_lock "mission_take mid" "mission_give mid" "mission_holder mid" worker_token mission_db_ok
  for mid
proof
  fix s s' tok t ttl
  assume a: "mission_db_ok s" "worker_token tok" "mission_take mid t tok ttl s = (s', True)"
  from mission_take_cases [OF a(1,3)] obtain row nrow
    where g: "lease_granted (quiet_outside t) mid tok ttl s 0 (mr_lease_epoch row + 1) (lease_expiry t ttl) s' row nrow"
      and ok: "mission_db_ok s'" by blast
  have len: "take 128 tok = tok" using a(2) by (simp add: worker_token_def)
  have "mission_at mid s' = Some (lease_values tok t (lease_expiry t ttl) row nrow)"
    using g unfolding lease_granted_def Let_def mission_calm_simps len by blast
  then have "mission_holder mid s' = Some (tok, lease_expiry t ttl)" by (simp add: holder_row lease_values_def)
  then show "mission_db_ok s' \<and> (\<exists>e. mission_holder mid s' = Some (tok, e) \<and> t + ttl \<le> e)"
    using ok by (simp add: lease_expiry_def)
next
  fix s h e t tok ttl
  assume ok: "mission_db_ok s" and held: "mission_holder mid s = Some (h, e)" and t: "t < e"
    and tok: "worker_token tok" "tok \<noteq> h"
  obtain r where r: "mission_at mid s = Some r" "mr_lease_owner r = Some h" "mr_lease_expires_at r = Some e"
    using held by (auto simp: holder_row)
  have "\<not> lease_free t (take 128 tok) r" using r t tok by (simp add: lease_free_def worker_token_def)
  then have "acquire_lease (quiet_outside t) mid tok ttl None (s, 0) = (Inr None, (s, Suc 0))"
    using idle_acquire_refused [of "quiet_outside t" s mid r 0 tok ttl] ok r(1) tok(1) by (simp add: worker_token_def)
  then show "mission_take mid t tok ttl s = (s, False)" by (simp add: mission_take_def)
  have "update_mission mid (\<lambda>x. mr_lease_owner x = Some (take 128 tok) \<and> mr_lease_epoch x = mr_lease_epoch r) f s = (s, 0)"
    for f :: "mission_row \<Rightarrow> mission_row"
    using r tok by (simp add: update_mission_eq [OF ok] worker_token_def)
  then show "mission_give mid t tok s = (s, False)"
    using r(1) by (simp add: mission_give_def release_lease_def)
qed

text \<open>
  One owner at a time: once a worker took a mission's lease, no other worker takes it or gives
  it back before its term is over, whatever the order and number of attempts (made one after the
  other); the ledger stays as it was.
\<close>

theorem mission_lease_exclusive:
  assumes "mission_db_ok s0" and "worker_token h" and "mission_take mid t0 h ttl s0 = (s, True)"
    and "list_all (\<lambda>(t, x). t < t0 + ttl \<and> worker_token (lease_op_token x) \<and> lease_op_token x \<noteq> h) xs"
  shows "run_ops (mission_locks.lease_step mid) (s, []) xs = (s, replicate (length xs) False)"
  using assms by (rule mission_locks.exclusion)

text \<open>
  A heartbeat does not protect a lease against a takeover under way: if another worker read the
  row when the lease was expired, and the owner's heartbeat then extends the lease before the
  takeover's statement runs, the takeover still succeeds, since neither revision nor epoch
  changed, and the owner loses a lease that was live again.
\<close>

theorem heartbeat_does_not_stop_takeover:
  assumes "mission_db_ok s" and "mission_at mid s = Some r" and "\<not> mission_terminal (mr_state r)"
    and "mr_lease_owner r = Some h" and "mr_lease_expires_at r = Some x" and "x \<le> now"
    and "worker_token h" and "worker_token tok" and "tok \<noteq> h"
    and "ou = \<lparr>out_env = (\<lambda>k s. if k = 1 then fst (snd (heartbeat_lease (quiet_outside now) mid h (mr_lease_epoch r) ttl (s, 0))) else s),
               out_clock = (\<lambda>_. now), out_token = (\<lambda>_. [])\<rparr>"
  shows "mission_holder mid (out_env ou 1 s) = Some (h, lease_expiry now ttl) \<and> now < lease_expiry now ttl
    \<and> (\<exists>s' k'. acquire_lease ou mid tok ttl None (s, 0) = (Inr (Some (mr_lease_epoch r + 1, lease_expiry now ttl)), (s', k'))
         \<and> mission_holder mid s' = Some (tok, lease_expiry now ttl))"
proof -
  let ?beat = "\<lambda>r. r\<lparr>mr_lease_expires_at := Some (lease_expiry now ttl), mr_heartbeat_at := Some now, mr_updated_at := now\<rparr>"
  have i: "mr_mission_id r = mid" using mission_at_Some [OF assms(2)] by simp
  have th: "take 128 h = h" and tt: "take 128 tok = tok" "tok \<noteq> []" using assms(7,8) by (simp_all add: worker_token_def)
  define s1 where "s1 = s\<lparr>db_missions := row_put mr_mission_id mid (?beat r) (db_missions s)\<rparr>"
  have hb: "heartbeat_lease (quiet_outside now) mid h (mr_lease_epoch r) ttl (s, 0) = (Inr True, (s1, Suc 0))"
    using assms(2,4) th by (simp add: heartbeat_lease_def update_mission_eq [OF assms(1)] s1_def)
  have ok1: "mission_db_ok s1"
    using keepsD [OF heartbeat_lease_guarantees assms(1) hb] fair_idle [of "quiet_outside now"] by simp
  have at1: "mission_at mid s1 = Some (?beat r)" using assms(2) i by (simp add: s1_def)
  have env: "out_env ou 0 s = s" "out_env ou 1 s = s1" "out_clock ou k = now" for k
    using hb by (simp_all add: assms(10))
  have live: "now < lease_expiry now ttl" by (simp add: lease_expiry_def)
  have f: "sql_first (\<lambda>r. mr_mission_id r = mid \<and> org_user_match None None r) (db_missions s) = Some r"
    by (rule mission_at_found [OF assms(2) _ assms(1)]) (simp add: org_user_match_def)
  have free: "lease_free now tok r" using assms(5,6) by (simp add: lease_free_def)
  let ?new = "lease_values tok now (lease_expiry now ttl) r (?beat r)"
  let ?s2 = "s1\<lparr>db_missions := row_put mr_mission_id mid ?new (db_missions s1)\<rparr>"
  have run: "acquire_lease ou mid tok ttl None (s, 0) = (Inr (Some (mr_lease_epoch r + 1, lease_expiry now ttl)), (?s2, 2))"
    using f free assms(3) at1 env
    by (simp add: acquire_lease_def Let_def tt update_mission_eq [OF ok1] numeral_2_eq_2)
  have "mission_at mid ?s2 = Some ?new" using at1 i by (simp add: lease_values_def)
  then have "mission_holder mid ?s2 = Some (tok, lease_expiry now ttl)" by (simp add: holder_row lease_values_def)
  then show ?thesis using run live at1 assms(4) env(2) by (auto simp: holder_row)
qed

text \<open>
  Renewing is not a heartbeat: a worker that acquires a lease it already holds gets a new
  epoch, and its own earlier epoch is refused from then on.
\<close>

theorem renewal_outdates_own_epoch:
  assumes "out_env ou = idle_env" and "mission_db_ok s" and "mission_at mid s = Some r" and "\<not> mission_terminal (mr_state r)"
    and "mr_lease_owner r = Some owner" and "worker_token owner"
  shows "\<exists>x w. acquire_lease ou mid owner ttl None (s, k) = (Inr (Some (mr_lease_epoch r + 1, x)), w)
    \<and> fst (heartbeat_lease ou mid owner (mr_lease_epoch r) ttl w) = Inr False"
proof -
  let ?x = "lease_expiry (out_clock ou k) ttl"
  let ?new = "lease_values owner (out_clock ou k) ?x r r"
  let ?s1 = "s\<lparr>db_missions := row_put mr_mission_id mid ?new (db_missions s)\<rparr>"
  have t: "take 128 owner = owner" "owner \<noteq> []" using assms(6) by (simp_all add: worker_token_def)
  have run: "acquire_lease ou mid owner ttl None (s, k) = (Inr (Some (mr_lease_epoch r + 1, ?x)), (?s1, Suc (Suc k)))"
    using idle_acquire [OF assms(1-4), of k owner ?x ttl] assms(5) t by (simp add: lease_free_def)
  have ok1: "mission_db_ok ?s1"
    using keepsD [OF acquire_lease_guarantees [OF fair_idle [OF assms(1)]] assms(2) run] by blast
  have at1: "mission_at mid ?s1 = Some ?new" using assms(3) mission_at_Some [OF assms(3)] by (simp add: lease_values_def)
  have "heartbeat_lease ou mid owner (mr_lease_epoch r) ttl (?s1, Suc (Suc k)) = (Inr False, (?s1, Suc (Suc (Suc k))))"
    using stale_heartbeat [of ou "Suc (Suc k)" ?s1 mid ?new "mr_lease_epoch r"] ok1 at1 assms(1)
    by (simp add: lease_values_def)
  then show ?thesis using run by (metis fst_conv)
qed

text \<open>
  An unleased mission can be written without a lease: with an empty owner and the current epoch
  \<open>patch_mission\<close> passes its fence and writes, where \<open>transition\<close> refuses the same credentials.
\<close>

theorem unleased_mission_patched:
  assumes "out_env ou = idle_env" and "mission_db_ok s" and "mission_at mid s = Some r" and "\<not> mission_terminal (mr_state r)"
    and "mr_lease_owner r = None"
  shows "(\<exists>rec w. patch_mission ou mid (mr_lease_epoch r) [] p None (s, k) = (Inr rec, w)
      \<and> mission_at mid (fst w) = Some (patch_values (out_clock ou k) p r r))
    \<and> fst (transition_mission ou mid (state_value dest) (mr_lease_epoch r) [] None failure patch (s, k))
        = Inl (Fencing ''EMPTY_LEASE_OWNER'')"
proof -
  have f: "fence_error (mr_lease_epoch r) [] None r = None" using assms(5) by (simp add: fence_error_def)
  have i: "mr_mission_id (patch_values (out_clock ou k) p r r) = mid"
    using mission_at_Some [OF assms(3)] by (simp add: patch_values_def)
  show ?thesis
    using idle_patch [OF assms(1-3) f assms(4), of p k] assms(3) i
    by (simp add: transition_mission_def strip_def)
qed

section \<open>Bounds\<close>

lemma attach_loop_grows: "length cur \<le> length (attach_loop cur rs)"
  by (induction cur rs rule: attach_loop.induct) (auto simp: Let_def)

lemma attach_loop_bound: "length cur < MAX_REFS \<Longrightarrow> length (attach_loop cur rs) \<le> MAX_REFS"
  by (induction cur rs rule: attach_loop.induct) (auto simp: Let_def)

text \<open>
  The bound of 64 references holds as long as a list is not full; a list that is full grows by
  one with every \<open>attach\<close> of a new reference, because the length is tested after the append.
\<close>

theorem attach_bound:
  shows "(length cur < MAX_REFS \<longrightarrow> length (attach_loop cur rs) \<le> MAX_REFS)
    \<and> (MAX_REFS \<le> length cur \<and> strip r \<noteq> [] \<and> strip r \<notin> set cur \<longrightarrow> length (attach_loop cur (r # rs)) = Suc (length cur))"
  by (auto simp: attach_loop_bound Let_def)

text \<open>
  Which dimensions count as exhausted: those with a positive limit that consumption and
  reservations reach. A dimension with a limit of zero is never reported, although every positive
  reservation of it is refused.
\<close>

theorem exhausted_exactly:
  assumes "distinct (map fst (rb_quota b))"
  shows "(d \<in> set (budget_exhausted b) \<longleftrightarrow>
      (\<exists>l. map_of (rb_quota b) d = Some l \<and> 0 < l \<and> l \<le> amount_at (rb_consumed b) d + amount_at (rb_reserved b) d))
    \<and> (map_of (rb_quota b) d = Some 0 \<and> 0 \<le> amount_at (rb_consumed b) d \<and> 0 \<le> amount_at (rb_reserved b) d \<and> 0 < amount \<longrightarrow>
        reserve_refused b d amount = Some (Rejected (''BUDGET_EXHAUSTED:'' @ d)) \<and> d \<notin> set (budget_exhausted b))"
proof -
  have m: "(d, l) \<in> set (rb_quota b) \<longleftrightarrow> map_of (rb_quota b) d = Some l" for l
    using map_of_eq_Some_iff [OF assms] by blast
  have e: "d \<in> set (budget_exhausted b) \<longleftrightarrow>
      (\<exists>l. (d, l) \<in> set (rb_quota b) \<and> 0 < l \<and> l \<le> amount_at (rb_consumed b) d + amount_at (rb_reserved b) d)"
    unfolding budget_exhausted_def by (force simp: not_le)
  show ?thesis
    unfolding e m by (auto simp: reserve_refused_def amount_at_def)
qed

text \<open>Limits with the server's dimensions, none above the server's ceiling.\<close>

definition within_ceilings :: "amounts \<Rightarrow> bool" where
  "within_ceilings limits = (\<forall>d. (map_of limits d = None) = (map_of MISSION_CEILINGS d = None)
     \<and> amount_at limits d \<le> amount_at MISSION_CEILINGS d)"

lemma within_dom: "within_ceilings limits \<Longrightarrow> (map_of limits k = None) = (map_of MISSION_CEILINGS k = None)"
  by (simp add: within_ceilings_def)

lemma tighten_amount: "amount_at (tighten k v limits) d = (if d = k then min (amount_at limits k) v else amount_at limits d)"
  by (simp add: tighten_def)

lemma tighten_within:
  assumes "within_ceilings limits" and "map_of MISSION_CEILINGS k \<noteq> None"
  shows "within_ceilings (tighten k v limits)"
  unfolding within_ceilings_def
proof (intro allI conjI)
  fix d
  show "(map_of (tighten k v limits) d = None) = (map_of MISSION_CEILINGS d = None)"
    using assms by (simp add: tighten_def dict_update_lookup within_ceilings_def)
  have "amount_at limits d \<le> amount_at MISSION_CEILINGS d" using assms(1) by (simp add: within_ceilings_def)
  then show "amount_at (tighten k v limits) d \<le> amount_at MISSION_CEILINGS d"
    unfolding tighten_amount by (auto intro: min.coboundedI1)
qed

lemma org_ceilings_within: "within_ceilings (org_ceilings defaults row)"
proof -
  have dims: "map_of MISSION_CEILINGS ''bytes'' \<noteq> None" "map_of MISSION_CEILINGS ''storage_bytes'' \<noteq> None"
      "map_of MISSION_CEILINGS ''concurrent_tasks'' \<noteq> None" "map_of MISSION_CEILINGS ''tool_calls'' \<noteq> None"
    by (simp_all add: MISSION_CEILINGS_def)
  have base: "within_ceilings MISSION_CEILINGS" by (simp add: within_ceilings_def)
  have iff: "within_ceilings (if c then x else y)" if "within_ceilings x" "within_ceilings y" for c x y
    using that by simp
  obtain ds dc dr where d: "defaults = (ds, dc, dr)" by (cases defaults)
  show ?thesis
    unfolding org_ceilings_def d prod.case Let_def by (intro tighten_within iff dims base)
qed

lemma tighten_all_effect:
  "within_ceilings limits \<Longrightarrow> tighten_all req limits = Inr out \<Longrightarrow>
   within_ceilings out \<and> (\<forall>d. amount_at out d \<le> amount_at limits d) \<and> (\<forall>(k, v) \<in> set req. amount_at out k \<le> v)"
proof (induction req limits rule: tighten_all.induct)
  case (1 limits)
  then show ?case by simp
next
  case (2 k v req limits)
  have k: "map_of limits k \<noteq> None" and run: "tighten_all req (tighten k v limits) = Inr out"
    using 2(3) by (auto split: if_splits)
  have "map_of MISSION_CEILINGS k \<noteq> None" using k within_dom [OF 2(2)] by simp
  then have "within_ceilings (tighten k v limits)" using tighten_within [OF 2(2)] by blast
  note IH = 2(1) [OF k this run]
  have a: "amount_at out d \<le> (if d = k then min (amount_at limits k) v else amount_at limits d)" for d
    using IH unfolding tighten_amount by blast
  have "amount_at out d \<le> amount_at limits d" for d using a [of d] by (cases "d = k") simp_all
  moreover have "amount_at out k \<le> v" using a [of k] by simp
  ultimately show ?case using IH by auto
qed

lemma tighten_all_error:
  "within_ceilings limits \<Longrightarrow> tighten_all req limits = Inl err \<Longrightarrow> \<exists>k \<in> fst ` set req. map_of MISSION_CEILINGS k = None"
proof (induction req limits rule: tighten_all.induct)
  case (1 limits)
  then show ?case by simp
next
  case (2 k v req limits)
  show ?case
  proof (cases "map_of limits k = None")
    case True
    then have "map_of MISSION_CEILINGS k = None" using within_dom [OF 2(2)] by simp
    then show ?thesis by simp
  next
    case False
    then have "map_of MISSION_CEILINGS k \<noteq> None" using within_dom [OF 2(2)] by simp
    from 2(1) [OF False tighten_within [OF 2(2) this]] 2(3) False show ?thesis by auto
  qed
qed

text \<open>
  Ceilings only tighten: a quota computed for a mission has exactly the server's dimensions,
  none above the server's ceiling or above what the caller asked for; asking for a dimension
  the server does not know is an error.
\<close>

theorem mission_quota_tightens:
  shows "case mission_quota defaults row requested of
      Inl err \<Rightarrow> (\<exists>k \<in> fst ` set requested. map_of MISSION_CEILINGS k = None)
    | Inr limits \<Rightarrow> (\<forall>d. (map_of limits d = None) = (map_of MISSION_CEILINGS d = None))
        \<and> (\<forall>d. amount_at limits d \<le> amount_at MISSION_CEILINGS d)
        \<and> (\<forall>(k, v) \<in> set requested. amount_at limits k \<le> v)"
proof (cases "mission_quota defaults row requested")
  case (Inr limits)
  then have "tighten_all requested (org_ceilings defaults row) = Inr limits" by (simp add: mission_quota_def)
  from tighten_all_effect [OF org_ceilings_within this] show ?thesis
    unfolding Inr sum.case within_ceilings_def by blast
next
  case (Inl err)
  then have "tighten_all requested (org_ceilings defaults row) = Inl err" by (simp add: mission_quota_def)
  from tighten_all_error [OF org_ceilings_within this] show ?thesis by (simp add: Inl)
qed

lemma prune_keeps_newest:
  assumes "c \<in> set cks" and "ck_mission_id c = mid" and "c \<notin> set (prune_checkpoints mid cks)"
    and "c' \<in> set (prune_checkpoints mid cks)" and "ck_mission_id c' = mid"
  shows "ck_created_at c \<le> ck_created_at c'"
proof -
  let ?nf = "newest_first mid cks"
  have srt: "sorted (map (\<lambda>c. - ck_created_at c) ?nf)" by (simp add: newest_first_def)
  have split: "?nf = take MAX_CHECKPOINTS_RING ?nf @ drop MAX_CHECKPOINTS_RING ?nf" by simp
  have "c \<in> set (drop MAX_CHECKPOINTS_RING ?nf)" using assms(1,3) by (simp add: prune_checkpoints_def)
  moreover have "c' \<in> set (take MAX_CHECKPOINTS_RING ?nf)"
  proof -
    have "c' \<in> set ?nf" "c' \<notin> set (drop MAX_CHECKPOINTS_RING ?nf)" using assms(4,5) by (auto simp: prune_checkpoints_def)
    then show ?thesis using split by (metis Un_iff set_append)
  qed
  moreover have "sorted (map (\<lambda>c. - ck_created_at c) (take MAX_CHECKPOINTS_RING ?nf @ drop MAX_CHECKPOINTS_RING ?nf))"
    using srt by simp
  ultimately have "- ck_created_at c' \<le> - ck_created_at c"
    unfolding map_append sorted_append by auto
  then show ?thesis by simp
qed

lemma newest_survives:
  assumes dist: "distinct cks" and mid: "ck_mission_id new = mid"
    and later: "\<forall>c \<in> set cks. ck_mission_id c = mid \<longrightarrow> ck_created_at c < ck_created_at new"
  shows "new \<in> set (prune_checkpoints mid (cks @ [new]))"
proof (rule ccontr)
  assume out: "new \<notin> set (prune_checkpoints mid (cks @ [new]))"
  let ?nf = "newest_first mid (cks @ [new])"
  have dropped: "new \<in> set (drop MAX_CHECKPOINTS_RING ?nf)"
    using out by (simp add: prune_checkpoints_def Let_def split: if_splits)
  then obtain c0 rest where c0: "?nf = c0 # rest" by (cases ?nf) simp_all
  have "sorted (map (\<lambda>c. - ck_created_at c) ?nf)" by (simp add: newest_first_def)
  moreover have rest: "new \<in> set rest" using dropped c0
    by (auto simp: MAX_CHECKPOINTS_RING_def drop_Cons' dest: in_set_dropD)
  ultimately have le: "ck_created_at new \<le> ck_created_at c0" unfolding c0 by auto
  have "c0 \<in> set ?nf" by (simp add: c0)
  then have "c0 = new" using le later by auto
  moreover have "distinct ?nf"
    using later mid dist by (auto simp: newest_first_def sql_where_def)
  ultimately show False using rest by (simp add: c0)
qed

text \<open>
  C39. The ring keeps the newest: after a checkpoint was written while nobody else writes, a mission has at most eight
  checkpoints, the one just written is among them when the clock is past all the earlier ones,
  and whatever was dropped is no newer than anything kept.
\<close>

theorem checkpoint_ring:
  assumes "out_env ou = idle_env" and "mission_db_ok s"
    and "write_checkpoint ou bytes mid epoch owner note (s, k) = (Inr cp, (s', k'))"
    and "\<forall>c \<in> set (db_checkpoints s). ck_mission_id c = mid \<longrightarrow> ck_created_at c < out_clock ou (Suc (Suc k))"
  shows "length (sql_where (\<lambda>c. ck_mission_id c = mid) (db_checkpoints s')) \<le> 8
    \<and> (\<exists>c \<in> set (db_checkpoints s'). ck_mission_id c = mid \<and> ck_checkpoint_id c = cp_checkpoint_id cp
         \<and> ck_snapshot c = checkpoint_bounded bytes cp)
    \<and> (\<forall>c \<in> set (db_checkpoints s) - set (db_checkpoints s'). \<forall>c' \<in> set (db_checkpoints s').
         ck_mission_id c = mid \<longrightarrow> ck_mission_id c' = mid \<longrightarrow> ck_created_at c \<le> ck_created_at c')"
proof -
  have fair: "fair ou" using assms(1) by (rule fair_idle)
  obtain r g where g: "get_mission ou mid None None (s, k) = (r, g)" by (metis surj_pair)
  obtain rec where r: "r = Inr (Some rec)"
    using assms(3) g unfolding write_checkpoint_def by (cases r) (auto simp: seq_def split: option.splits)
  obtain row where row: "mission_at mid s = Some row" "rec = mission_to_record row" and g2: "g = (s, Suc k)"
    using idle_get [OF assms(1,2) g [unfolded r]] by blast
  define now where "now = out_clock ou (Suc (Suc k))"
  have get: "get_mission ou mid None None (s, k) = (Inr (Some rec), (s, Suc k))" using g r g2 by simp
  have cred: "\<not> (mc_lease_epoch rec \<noteq> epoch \<or> mc_lease_owner rec \<noteq> take 128 owner)"
    using assms(3) unfolding write_checkpoint_def
      seq_eq [where m = "get_mission ou mid None None" and w = "(s, k)", OF get] by (auto split: if_splits)
  define cp0 where "cp0 = make_checkpoint rec (out_token ou (Suc k)) note (out_clock ou (Suc k))"
  define res where "res = store_checkpoint mid epoch owner rec cp0 (checkpoint_bounded bytes cp0) now s"
  have wr: "snd res = CK_written" and cp: "cp = cp0" and s': "s' = fst res"
    using assms(1,3) cred unfolding write_checkpoint_def
      seq_eq [where m = "get_mission ou mid None None" and w = "(s, k)", OF get]
    by (auto simp: Let_def cp0_def res_def now_def split: checkpoint_outcome.splits)
  have ok': "mission_db_ok s'" using keepsD [OF write_checkpoint_guarantees [OF fair] assms(2,3)] by blast
  define new where "new = \<lparr>ck_checkpoint_id = cp_checkpoint_id cp, ck_mission_id = mid, ck_org_id = mc_org_id rec,
      ck_mission_revision = cp_mission_revision cp, ck_goal_revision = cp_goal_revision cp, ck_state = cp_state cp,
      ck_snapshot = checkpoint_bounded bytes cp, ck_created_at = now\<rparr>"
  have cks: "db_checkpoints s' = prune_checkpoints mid (db_checkpoints s @ [new])"
    using wr unfolding s' res_def store_checkpoint_def new_def cp update_mission_def
    by (auto split: prod.splits if_splits)
  have "distinct (db_checkpoints s)"
    using assms(2) unfolding mission_db_ok_def keyed_def by (meson distinct_map)
  then have "new \<in> set (prune_checkpoints mid (db_checkpoints s @ [new]))"
    using assms(4) by (intro newest_survives) (simp_all add: new_def now_def)
  then have kept: "\<exists>c \<in> set (db_checkpoints s'). ck_mission_id c = mid \<and> ck_checkpoint_id c = cp_checkpoint_id cp
         \<and> ck_snapshot c = checkpoint_bounded bytes cp"
    by (intro bexI [of _ new]) (simp_all add: cks new_def)
  have "length (sql_where (\<lambda>c. ck_mission_id c = mid) (db_checkpoints s')) \<le> 8"
    using ok' by (simp add: mission_db_ok_def ring_ok_def MAX_CHECKPOINTS_RING_def)
  moreover have "ck_created_at c \<le> ck_created_at c'"
    if "c \<in> set (db_checkpoints s) - set (db_checkpoints s')" "c' \<in> set (db_checkpoints s')"
      "ck_mission_id c = mid" "ck_mission_id c' = mid" for c c'
    using prune_keeps_newest [of c "db_checkpoints s @ [new]" mid c'] that by (simp add: cks)
  ultimately show ?thesis using kept by blast
qed

end
