(* ===== verification/Mission_Witnesses.thy ===== *)
theory Mission_Witnesses
  imports Mission_Limits
begin

text \<open>
  The properties of the mission runtime at concrete ledgers: a running mission leased by
  \<open>w1\<close> under epoch 1 until time 50, a completed one, and one with a swarm run.
\<close>

definition demo_row :: mission_row where
  "demo_row = (new_mission_row ''m'' 0 ''o'' ''u'' None [] ''goal'' [] [(''tokens'', 10)])
     \<lparr>mr_state := MS_Running, mr_lease_owner := Some ''w1'', mr_lease_epoch := 1, mr_lease_expires_at := Some 50\<rparr>"

definition demo_db :: mission_db where
  "demo_db = \<lparr>db_missions = [demo_row], db_checkpoints = [], db_swarms = []\<rparr>"

definition final_row :: mission_row where
  "final_row = demo_row\<lparr>mr_state := MS_Complete, mr_lease_owner := None, mr_lease_expires_at := None, mr_terminal_at := Some 9\<rparr>"

definition demo_task :: "string \<Rightarrow> task_state \<Rightarrow> operation_class \<Rightarrow> task_receipt" where
  "demo_task tid st oc = \<lparr>tr_task_id = tid, tr_assignment_id = [], tr_state = st, tr_operation_class = oc,
     tr_produced_refs = [], tr_summary = [], tr_error_code = [], tr_attempt = 0, tr_idempotency_key = tid, tr_settled_at = 0\<rparr>"

definition swarm_db :: "task_state \<Rightarrow> operation_class \<Rightarrow> mission_db" where
  "swarm_db st oc = \<lparr>db_missions = [demo_row, final_row\<lparr>mr_mission_id := ''f''\<rparr>], db_checkpoints = [],
     db_swarms = [new_swarm_row ''s'' ''m'' ''o'' [] [(''a'', demo_task ''a'' st oc)] 0]\<rparr>"

lemmas demo_defs = demo_row_def final_row_def new_mission_row_def demo_task_def new_swarm_row_def

lemma demo_ok [simp]: "mission_db_ok demo_db"
  by (simp add: demo_db_def demo_defs mission_db_ok_def keyed_def ring_ok_def sql_where_def mission_row_ok_def
      mission_terminal_def mission_terminal_states_def MAX_GOAL_CHARS_def)

lemma swarm_ok [simp]: "mission_db_ok (swarm_db st oc)"
  by (simp add: swarm_db_def demo_defs mission_db_ok_def keyed_def ring_ok_def sql_where_def mission_row_ok_def
      swarm_row_ok_def mission_terminal_def mission_terminal_states_def MAX_GOAL_CHARS_def)

lemma demo_at [simp]:
  "mission_at ''m'' demo_db = Some demo_row"
  "mission_at ''m'' (swarm_db st oc) = Some demo_row"
  "mission_at ''f'' (swarm_db st oc) = Some (final_row\<lparr>mr_mission_id := ''f''\<rparr>)"
  "swarm_at ''s'' (swarm_db st oc) = Some (new_swarm_row ''s'' ''m'' ''o'' [] [(''a'', demo_task ''a'' st oc)] 0)"
  by (simp_all add: mission_at_def swarm_at_def demo_db_def swarm_db_def demo_defs)

lemma demo_fields [simp]:
  "mr_lease_epoch demo_row = 1" "mr_lease_owner demo_row = Some ''w1''" "mr_lease_expires_at demo_row = Some 50"
  "mr_state demo_row = MS_Running" "mr_refs demo_row = empty_refs" "mr_mission_id demo_row = ''m''"
  "mr_budget demo_row = empty_budget\<lparr>rb_quota := [(''tokens'', 10)]\<rparr>"
  by (simp_all add: demo_defs empty_refs_def)

lemma relied_idle_env [simp]: "relied mission_db_ok mission_db_le idle_env"
  by (simp add: relied_def mission_order.rel_refl)

lemma fair_calm: "fair (quiet_outside t)"
  by simp

lemma demo_live [simp]: "\<not> mission_terminal MS_Running"
  by (simp add: mission_terminal_def mission_terminal_states_def)

lemma demo_fence [simp]: "fence_error 1 ''w1'' None demo_row = None"
  by (simp add: fence_error_def)

definition demo_calls :: "(outside \<times> (mission_checkpoint \<Rightarrow> nat) \<times> mission_call) list" where
  "demo_calls = [(quiet_outside 5, \<lambda>_. 0, Call_heartbeat ''m'' ''w1'' 1 100), (quiet_outside 6, \<lambda>_. 0, Call_cancel ''m'' ''w1'')]"

lemma demo_calls_ok [simp]: "list_all mission_step_ok demo_calls"
  by (simp add: demo_calls_def mission_step_ok_def)

lemma mission_runs_forward_witness:
  "mission_db_ok (fst (run_ops mission_step (demo_db, 0) (demo_calls @ demo_calls)))
   \<and> mission_db_le (fst (run_ops mission_step (demo_db, 0) demo_calls)) (fst (run_ops mission_step (demo_db, 0) (demo_calls @ demo_calls)))"
  using mission_runs_forward [of demo_calls demo_calls "(demo_db, 0)"] by simp

lemma terminal_missions_frozen_witness:
  "mission_at ''f'' (fst (run_ops mission_step (swarm_db TS_Unresolved OC_Pure, 0) demo_calls)) = Some (final_row\<lparr>mr_mission_id := ''f''\<rparr>)
   \<and> (\<exists>q'. swarm_at ''s'' (fst (run_ops mission_step (swarm_db TS_Unresolved OC_Pure, 0) demo_calls)) = Some q'
        \<and> map_of (sw_tasks q') ''a'' = Some (demo_task ''a'' TS_Unresolved OC_Pure))"
  using terminal_missions_frozen [of demo_calls "(swarm_db TS_Unresolved OC_Pure, 0)" "''f''" "final_row\<lparr>mr_mission_id := ''f''\<rparr>"
      "''s''" "new_swarm_row ''s'' ''m'' ''o'' [] [(''a'', demo_task ''a'' TS_Unresolved OC_Pure)] 0" "''a''"
      "demo_task ''a'' TS_Unresolved OC_Pure"]
  by (simp add: demo_defs mission_terminal_def mission_terminal_states_def sticky_states_def)

lemma records_well_formed_witness:
  "mission_record_ok (mission_to_record demo_row)"
  using records_well_formed [of "[]" "(demo_db, 0)" "quiet_outside 5" "''m''" None None "mission_to_record demo_row"]
    get_mission_at [of "quiet_outside 5" 0 demo_db "''m''" demo_row] by simp

lemma stale_epoch_fenced_witness:
  "fst (patch_mission (quiet_outside 9) ''m'' 0 ''w0'' no_mission_patch None (run_ops mission_step (demo_db, 0) demo_calls))
     = Inl (Fencing ''STALE_LEASE_EPOCH'')"
proof -
  obtain s k where r: "run_ops mission_step (demo_db, 0) demo_calls = (s, k)" by (metis surj_pair)
  have "strip ''w0'' \<noteq> []" by code_simp
  then show ?thesis
    using stale_epoch_fenced [of "(demo_db, 0)" "''m''" demo_row 0 demo_calls s k "quiet_outside 9" "''w0''"] r by simp
qed

definition taken_row :: mission_row where
  "taken_row = lease_values ''w2'' 100 (lease_expiry 100 0) demo_row demo_row"

definition taken_db :: mission_db where
  "taken_db = demo_db\<lparr>db_missions := row_put mr_mission_id ''m'' taken_row (db_missions demo_db)\<rparr>"

lemma first_take: "acquire_lease (quiet_outside 100) ''m'' ''w2'' 0 None (demo_db, 0) = (Inr (Some (2, lease_expiry 100 0)), (taken_db, 2))"
  using idle_acquire [of "quiet_outside 100" demo_db "''m''" demo_row 0 "''w2''" "lease_expiry 100 0" 0]
  by (simp add: lease_free_def taken_db_def taken_row_def numeral_2_eq_2)

lemma taken_at: "mission_at ''m'' taken_db = Some taken_row"
  by (simp add: taken_db_def taken_row_def lease_values_def)

lemma taken_ok: "mission_db_ok taken_db"
  using keepsD [OF acquire_lease_guarantees [OF fair_calm] demo_ok first_take] by blast

lemma lease_epochs_increase_witness: "\<exists>x w2. acquire_lease (quiet_outside 9000000) ''m'' ''w3'' 0 None (taken_db, 2) = (Inr (Some (3, x)), w2) \<and> (2 :: int) < 3"
proof -
  have t: "mr_state taken_row = MS_Running" "mr_lease_epoch taken_row = 2" "mr_lease_expires_at taken_row = Some (lease_expiry 100 0)"
    by (simp_all add: taken_row_def lease_values_def)
  obtain x w2 where a: "acquire_lease (quiet_outside 9000000) ''m'' ''w3'' 0 None (taken_db, 2) = (Inr (Some (3, x)), w2)"
    using idle_acquire [of "quiet_outside 9000000" taken_db "''m''" taken_row 2 "''w3''" "lease_expiry 9000000 0" 0] taken_ok taken_at t
    by (auto simp: lease_free_def lease_expiry_def)
  from lease_epochs_increase [OF fair_calm fair_calm _ _ first_take, of "[]"] a show ?thesis by auto
qed

lemma demo_commit: "commit_consumption (quiet_outside 7) ''m'' 1 ''w1'' ''tokens'' 4 0 False ''k'' None (demo_db, 0) =
    (Inr (mission_to_record (charged_row 7 ''tokens'' 4 0 False ''k'' demo_row), None),
     (demo_db\<lparr>db_missions := row_put mr_mission_id ''m'' (charged_row 7 ''tokens'' 4 0 False ''k'' demo_row) (db_missions demo_db)\<rparr>, 4))"
  using idle_commit [of "quiet_outside 7" demo_db "''m''" demo_row 1 "''w1''" "''k''" "''tokens''" 4 0 False 0]
  by (simp add: empty_refs_def eval_nat_numeral)

lemma charge_is_atomic_witness:
  "\<exists>s1 r. mission_db_le demo_db s1 \<and> mission_at ''m'' s1 = Some r
     \<and> fst (snd (commit_consumption (quiet_outside 7) ''m'' 1 ''w1'' ''tokens'' 4 0 False ''k'' None (demo_db, 0)))
         \<noteq> empty_mission_db"
  using charge_is_atomic [OF fair_calm demo_ok demo_commit]
  unfolding demo_commit by (auto simp: empty_mission_db_def demo_db_def row_put_def)

lemma replayed_charge_witness:
  "\<exists>r2. mission_at ''m'' (fst (snd (commit_consumption (quiet_outside 7) ''m'' 1 ''w1'' ''tokens'' 4 0 False ''k'' None
       (snd (commit_consumption (quiet_outside 7) ''m'' 1 ''w1'' ''tokens'' 4 0 False ''k'' None (demo_db, 0)))))) = Some r2
     \<and> amount_at (rb_consumed (mr_budget r2)) ''tokens'' = 4"
  using replayed_charge [of "quiet_outside 7" demo_db "''m''" demo_row 1 "''w1''" "''k''" 4 _ "''tokens''" 0 False 0, OF _ _ _ _ _ _ _ _ refl refl]
  by (simp add: empty_refs_def empty_budget_def amount_at_def MAX_REFS_def)

lemma reserve_within_quota_witness:
  "\<exists>s' k' rec s1 k1 r r'. reserve (quiet_outside 7) ''m'' 1 ''w1'' ''tokens'' 4 (demo_db, 0) = (Inr rec, (s', k'))
     \<and> mission_at ''m'' s1 = Some r \<and> s' = out_env (quiet_outside 7) k1 (s1\<lparr>db_missions := row_put mr_mission_id ''m'' r' (db_missions s1)\<rparr>)
     \<and> amount_at (rb_reserved (mr_budget r')) ''tokens'' = amount_at (rb_reserved (mr_budget r)) ''tokens'' + 4"
proof -
  have f: "fence_error 1 ''w1'' (Some (mr_revision demo_row)) demo_row = None" by (simp add: fence_error_def)
  have rf: "reserve_refused (mr_budget demo_row) ''tokens'' 4 = None"
    by (simp add: reserve_refused_def empty_budget_def amount_at_def)
  have g: "get_mission (quiet_outside 7) ''m'' None None (demo_db, 0) = (Inr (Some (mission_to_record demo_row)), (demo_db, 1))"
    using get_mission_at [of "quiet_outside 7" 0 demo_db "''m''" demo_row] by simp
  have rok: "mission_row_ok demo_row" by (rule mission_at_ok [OF demo_ok demo_at(1)])
  obtain rec s' k' where run: "reserve (quiet_outside 7) ''m'' 1 ''w1'' ''tokens'' 4 (demo_db, 0) = (Inr rec, (s', k'))"
    unfolding reserve_def seq_eq [where m = "get_mission (quiet_outside 7) ''m'' None None" and w = "(demo_db, 0)", OF g]
    using rf rok idle_patch [of "quiet_outside 7" demo_db "''m''" demo_row 1 "''w1''" "Some (mr_revision demo_row)"] f by simp
  from reserve_within_quota [OF fair_calm demo_ok _ _ run] run show ?thesis by fastforce
qed

lemma done_settle: "settle_swarm_task (quiet_outside 7) ''s'' (demo_task ''a'' TS_Unresolved OC_Pure) (swarm_db TS_Running OC_Pure, 0)
   = (Inr (the (map_option swarm_to_run (swarm_at ''s'' (fst (snd (settle_swarm_task (quiet_outside 7) ''s'' (demo_task ''a'' TS_Unresolved OC_Pure) (swarm_db TS_Running OC_Pure, 0))))))),
      snd (settle_swarm_task (quiet_outside 7) ''s'' (demo_task ''a'' TS_Unresolved OC_Pure) (swarm_db TS_Running OC_Pure, 0)))"
proof -
  have e: "settle_swarm_task ou sid r = settle_attempts (Suc 7) ou sid r" for ou sid r
    by (simp add: settle_swarm_task_def eval_nat_numeral)
  have one: "settle_once (quiet_outside 7) ''s'' (demo_task ''a'' TS_Unresolved OC_Pure) (swarm_db TS_Running OC_Pure, 0) =
     (let w = new_swarm_row ''s'' ''m'' ''o'' [] [(''a'', demo_task ''a'' TS_Running OC_Pure)] 0;
          s' = (swarm_db TS_Running OC_Pure)\<lparr>db_swarms := row_put sw_swarm_run_id ''s''
                 (settle_values 7 7 (demo_task ''a'' TS_Unresolved OC_Pure) w w) (db_swarms (swarm_db TS_Running OC_Pure))\<rparr>
      in (Inr (swarm_to_run (settle_values 7 7 (demo_task ''a'' TS_Unresolved OC_Pure) w w)), (s', 3)))"
    by (simp add: settle_once_def get_swarm_seq update_swarm_eq Let_def sticky_states_def eval_nat_numeral)
      (simp add: demo_defs settle_values_def Let_def sticky_states_def)
  show ?thesis
    unfolding e settle_attempts.simps on_error_def one Let_def
    by (simp add: settle_values_def Let_def new_swarm_row_def)
qed

lemma settlement_is_durable_witness:
  "settled_in (fst (run_ops mission_step (snd (settle_swarm_task (quiet_outside 7) ''s'' (demo_task ''a'' TS_Unresolved OC_Pure)
     (swarm_db TS_Running OC_Pure, 0))) demo_calls)) ''s'' ''a''"
  using settlement_is_durable [OF fair_calm swarm_ok _ done_settle demo_calls_ok]
  by (simp add: demo_task_def sticky_states_def)

lemma resume_plan_partition_witness:
  "''a'' \<in> set (pl_unresolved (build_resume_plan (swarm_to_run
     (new_swarm_row ''s'' ''m'' ''o'' [] [(''a'', demo_task ''a'' TS_Running OC_Destructive_at_most_once)] 0))))"
  using resume_plan_partition [of "swarm_to_run
     (new_swarm_row ''s'' ''m'' ''o'' [] [(''a'', demo_task ''a'' TS_Running OC_Destructive_at_most_once)] 0)" "''a''"
     "mk_receipt (demo_task ''a'' TS_Running OC_Destructive_at_most_once)"]
  by (simp add: swarm_to_run_def new_swarm_row_def demo_task_def)

lemma recovered_complete: "(case fst (recover (quiet_outside 100) ''m'' ''w2'' None 0 (swarm_db TS_Succeeded OC_Pure, 0)) of
    Inr (RR_ok d) \<Rightarrow> rd_state d = MS_Complete | _ \<Rightarrow> False)"
  by code_simp

lemma recovered_partial: "(case fst (recover (quiet_outside 100) ''m'' ''w2'' None 0 (swarm_db TS_Running OC_Destructive_at_most_once, 0)) of
    Inr (RR_ok d) \<Rightarrow> map (\<lambda>p. (pl_swarm_run_id p, pl_unresolved p)) (rd_resume_plans d) = [(''s'', [''a''])] | _ \<Rightarrow> False)"
  by code_simp

lemma recover_settles_unresolved_witness:
  "settled_in (fst (snd (recover (quiet_outside 100) ''m'' ''w2'' None 0 (swarm_db TS_Running OC_Destructive_at_most_once, 0)))) ''s'' ''a''"
proof -
  obtain res s' k' where r: "recover (quiet_outside 100) ''m'' ''w2'' None 0 (swarm_db TS_Running OC_Destructive_at_most_once, 0) = (res, (s', k'))"
    by (metis surj_pair)
  obtain d where d: "res = Inr (RR_ok d)" "map (\<lambda>p. (pl_swarm_run_id p, pl_unresolved p)) (rd_resume_plans d) = [(''s'', [''a''])]"
    using recovered_partial unfolding r by (auto split: sum.splits recover_result.splits)
  then obtain p where p: "p \<in> set (rd_resume_plans d)" "pl_swarm_run_id p = ''s''" "pl_unresolved p = [''a'']"
    by (cases "rd_resume_plans d") auto
  from recover_settles_unresolved [OF fair_calm swarm_ok r [unfolded d(1)] p(1), of "''a''"] p(2,3)
  show ?thesis by (simp add: r)
qed

lemma recover_completes_only_settled_witness:
  "\<exists>d w. recover (quiet_outside 100) ''m'' ''w2'' None 0 (swarm_db TS_Succeeded OC_Pure, 0) = (Inr (RR_ok d), w)
     \<and> rd_state d = MS_Complete \<and> (\<exists>p. p \<in> set (rd_resume_plans d) \<and> pl_skip p \<noteq> [])"
proof -
  obtain res s' k' where r: "recover (quiet_outside 100) ''m'' ''w2'' None 0 (swarm_db TS_Succeeded OC_Pure, 0) = (res, (s', k'))"
    by (metis surj_pair)
  obtain d where d: "res = Inr (RR_ok d)" "rd_state d = MS_Complete"
    using recovered_complete unfolding r by (auto split: sum.splits recover_result.splits)
  have "new_swarm_row ''s'' ''m'' ''o'' [] [(''a'', demo_task ''a'' TS_Succeeded OC_Pure)] 0 \<in> set (db_swarms (swarm_db TS_Succeeded OC_Pure))"
    by (simp add: swarm_db_def)
  moreover have "others_wait ''m'' (quiet_outside 100)"
    by (simp add: others_wait_def tasks_stay_def quiet_outside_def idle_env_def)
  ultimately show ?thesis
    using recover_completes_only_settled [OF fair_calm swarm_ok _ r [unfolded d(1)] d(2), of _ "''a''" "demo_task ''a'' TS_Succeeded OC_Pure"] r d
    by (fastforce simp: new_swarm_row_def)
qed

lemma mission_lease_exclusive_witness:
  "run_ops (mission_locks.lease_step ''m'') (taken_db, []) [(101, Take ''w3'' 5), (102, Give_back ''w1''), (999, Take ''w1'' 900)]
     = (taken_db, [False, False, False])"
proof -
  have "mission_take ''m'' 100 ''w2'' 0 demo_db = (taken_db, True)" by (simp add: mission_take_def first_take)
  then have t: "mission_take ''m'' 100 ''w2'' 1000 demo_db = (taken_db, True)"
    using idle_acquire [of "quiet_outside 100" demo_db "''m''" demo_row 0 "''w2''" "lease_expiry 100 1000" 1000]
    by (simp add: mission_take_def lease_free_def taken_db_def taken_row_def lease_expiry_def)
  from mission_lease_exclusive [OF demo_ok _ t, of "[(101, Take ''w3'' 5), (102, Give_back ''w1''), (999, Take ''w1'' 900)]"]
  show ?thesis by (simp add: worker_token_def eval_nat_numeral)
qed

lemma heartbeat_does_not_stop_takeover_witness:
  "\<exists>ou s' k'. mission_holder ''m'' (out_env ou 1 demo_db) = Some (''w1'', lease_expiry 60 0)
     \<and> acquire_lease ou ''m'' ''w2'' 0 None (demo_db, 0) = (Inr (Some (2, lease_expiry 60 0)), (s', k'))"
  using heartbeat_does_not_stop_takeover [of demo_db "''m''" demo_row "''w1''" 50 60 "''w2''" _ 0, OF _ _ _ _ _ _ _ _ _ refl]
  by (fastforce simp: worker_token_def)

lemma renewal_outdates_own_epoch_witness:
  "\<exists>x w. acquire_lease (quiet_outside 7) ''m'' ''w1'' 0 None (demo_db, 0) = (Inr (Some (2, x)), w)
     \<and> fst (heartbeat_lease (quiet_outside 7) ''m'' ''w1'' 1 0 w) = Inr False"
  using renewal_outdates_own_epoch [of "quiet_outside 7" demo_db "''m''" demo_row "''w1''" 0 0]
  by (simp add: worker_token_def)

lemma unleased_mission_patched_witness:
  "\<exists>rec w. patch_mission (quiet_outside 7) ''m'' 0 [] (no_mission_patch\<lparr>pt_root_goal := Some ''x''\<rparr>) None
      (\<lparr>db_missions = [new_mission_row ''m'' 0 ''o'' ''u'' None [] ''goal'' [] []], db_checkpoints = [], db_swarms = []\<rparr>, 0)
      = (Inr rec, w)"
proof -
  let ?r = "new_mission_row ''m'' 0 ''o'' ''u'' None [] ''goal'' [] []"
  let ?s = "\<lparr>db_missions = [?r], db_checkpoints = [], db_swarms = []\<rparr>"
  have "mission_db_ok ?s"
    using new_mission_row_ok by (simp add: mission_db_ok_def keyed_def ring_ok_def sql_where_def)
  moreover have "mission_at ''m'' ?s = Some ?r" by (simp add: mission_at_def new_mission_row_def)
  moreover have "\<not> mission_terminal (mr_state ?r)" "mr_lease_owner ?r = None" "mr_lease_epoch ?r = 0"
    by (simp_all add: new_mission_row_def mission_terminal_def mission_terminal_states_def)
  ultimately show ?thesis using unleased_mission_patched [of "quiet_outside 7" ?s "''m''" ?r] by (metis mission_calm_simps(1))
qed

lemma attach_bound_witness:
  "length (attach_loop (replicate 64 ''x'') [''y'']) = 65"
proof -
  have "strip ''y'' = ''y''" by code_simp
  then show ?thesis using attach_bound [of "replicate 64 ''x''" "[]" "''y''"] by (simp add: MAX_REFS_def)
qed

lemma exhausted_exactly_witness:
  "''tokens'' \<notin> set (budget_exhausted (empty_budget\<lparr>rb_quota := [(''tokens'', 0)]\<rparr>))
   \<and> reserve_refused (empty_budget\<lparr>rb_quota := [(''tokens'', 0)]\<rparr>) ''tokens'' 1 = Some (Rejected ''BUDGET_EXHAUSTED:tokens'')"
  using exhausted_exactly [of "empty_budget\<lparr>rb_quota := [(''tokens'', 0)]\<rparr>" "''tokens''" 1]
  by (simp add: empty_budget_def amount_at_def)

lemma mission_quota_tightens_witness:
  "\<exists>limits. mission_quota (0, 0, 240) None [(''tokens'', 5)] = Inr limits \<and> amount_at limits ''tokens'' \<le> 5
     \<and> amount_at limits ''tool_calls'' \<le> 500"
proof -
  have t: "map_of (org_ceilings (0, 0, 240) None) ''tokens'' \<noteq> None"
    using within_dom [OF org_ceilings_within [of "(0, 0, 240)" None], of "''tokens''"] by (simp add: MISSION_CEILINGS_def)
  obtain limits where l: "mission_quota (0, 0, 240) None [(''tokens'', 5)] = Inr limits"
    using t by (simp add: mission_quota_def)
  have "amount_at MISSION_CEILINGS ''tool_calls'' = 500" by (simp add: amount_at_def MISSION_CEILINGS_def)
  moreover have "amount_at limits ''tool_calls'' \<le> amount_at MISSION_CEILINGS ''tool_calls''" "amount_at limits ''tokens'' \<le> 5"
    using mission_quota_tightens [where defaults = "(0, 0, 240)" and row = None and requested = "[(''tokens'', 5)]"] unfolding l sum.case by auto
  ultimately show ?thesis using l by (intro exI [of _ limits]) simp
qed

lemma written_checkpoint: "(case fst (write_checkpoint (quiet_outside 7) (\<lambda>_. 0) ''m'' 1 ''w1'' ''note'' (demo_db, 0)) of Inr _ \<Rightarrow> True | Inl _ \<Rightarrow> False)"
  by code_simp

lemma checkpoint_ring_witness:
  "\<exists>cp s' k'. write_checkpoint (quiet_outside 7) (\<lambda>_. 0) ''m'' 1 ''w1'' ''note'' (demo_db, 0) = (Inr cp, (s', k'))
     \<and> length (sql_where (\<lambda>c. ck_mission_id c = ''m'') (db_checkpoints s')) \<le> 8"
proof -
  obtain res s' k' where r: "write_checkpoint (quiet_outside 7) (\<lambda>_. 0) ''m'' 1 ''w1'' ''note'' (demo_db, 0) = (res, (s', k'))"
    by (metis surj_pair)
  obtain cp where c: "res = Inr cp" using written_checkpoint unfolding r by (auto split: sum.splits)
  have "\<forall>x \<in> set (db_checkpoints demo_db). ck_mission_id x = ''m'' \<longrightarrow> ck_created_at x < out_clock (quiet_outside 7) (Suc (Suc 0))"
    by (simp add: demo_db_def)
  from checkpoint_ring [OF mission_calm_simps(1) demo_ok r [unfolded c] this, THEN conjunct1] r c show ?thesis by blast
qed

end
