(* ===== verification/Mapspec_Intents.thy ===== *)
theory Mapspec_Intents
  imports Collab_Document
begin

text \<open>
  The vocabulary of the map document engine (\<open>app/services/mapspec\<close>): origins, mutation intents
  (\<open>intents.py\<close>), the result value (\<open>mutation_contracts.py\<close>), what the registry declares of each
  intent (\<open>mutation_registry.py\<close>), the idempotency index, the lock guards and the patch of a layer's
  presentation (\<open>mutation_primitives.py\<close>, \<open>app/contracts/workbench_locks.py\<close>). A map document is a Python
  dictionary; a branch of it that has not the type the code expects is an exception, \<open>None\<close> here.
\<close>

section \<open>Intents\<close>

datatype origin = By_agent | By_user | By_system

fun origin_value :: "origin \<Rightarrow> string" where
  "origin_value By_agent = ''agent''"
| "origin_value By_user = ''user''"
| "origin_value By_system = ''system''"

text \<open>
  A field of an intent that may be absent is a value that may be \<open>PNone\<close>. \<open>OtherIntent\<close> stands for the
  classes whose handlers are not modelled: its name and its arguments.
\<close>

datatype intent =
    InitProjectIntent pyval pyval
  | SetViewIntent pyval pyval pyval pyval
  | PatchLayerPresentationIntent string "bool option" pyval
  | PatchLayerStyleIntent string pydict
  | RemoveLayerIntent string
  | ReorderLayersIntent "string list"
  | SetBasemapIntent pyval pyval pyval pyval
  | SetTimeIntent pydict
  | SetScenarioModeIntent "string option"
  | RefreshDataRevisionIntent string int
  | RestoreStyleIntent pydict
  | SetWorkbenchStateIntent pyval "int option"
  | PatchWorkbenchDeltaIntent pyval
  | CheckpointIntent "string option"
  | RollbackIntent string
  | OtherIntent string pydict

section \<open>Python values read as lists and dictionaries\<close>

definition iter_values :: "pyval \<Rightarrow> pyval list option" where
  "iter_values v = (case v of
     PList xs \<Rightarrow> Some xs
   | PDict d \<Rightarrow> Some (List.map (\<lambda>kv. PStr (fst kv)) d)
   | PStr s \<Rightarrow> Some (List.map (\<lambda>c. PStr [c]) s)
   | _ \<Rightarrow> None)"

text \<open>\<open>dict(v or {})\<close>.\<close>

definition dict_or_empty :: "pyval \<Rightarrow> pydict option" where
  "dict_or_empty v = (if py_truthy v then entry_dict v else Some [])"

text \<open>\<open>v if isinstance(v, dict) else {}\<close>.\<close>

definition dict_if :: "pyval \<Rightarrow> pydict" where
  "dict_if v = or_else (entry_dict v) []"

definition get_default :: "pydict \<Rightarrow> string \<Rightarrow> pyval \<Rightarrow> pyval" where
  "get_default d k dflt = or_else (map_of d k) dflt"

lemma entry_dict_simps [simp]:
  "entry_dict (PDict d) = Some d"
  "entry_dict PNone = None"
  "entry_dict (PStr s) = None"
  by (simp_all add: entry_dict_def)

lemma iter_values_list [simp]: "iter_values (PList xs) = Some xs"
  by (simp add: iter_values_def)

section \<open>Families of layers\<close>

definition LABEL_LAYER_SUFFIX :: string where "LABEL_LAYER_SUFFIX = ''-label''"

text \<open>\<open>str(layer.get("id") or "")\<close>.\<close>

definition layer_id_text :: "pydict \<Rightarrow> string" where
  "layer_id_text layer = (if py_truthy (py_get layer ''id'') then py_str (py_get layer ''id'') else [])"

definition should_remove_layer :: "pydict \<Rightarrow> string \<Rightarrow> bool" where
  "should_remove_layer layer target =
     (let lid = layer_id_text layer
      in lid \<noteq> [] \<and>
         (lid = target \<or> lid = target @ LABEL_LAYER_SUFFIX \<or> prefix (target @ ''__'') lid \<or> prefix (target @ ''-'') lid))"

definition layer_matches_removal_family :: "pyval \<Rightarrow> string \<Rightarrow> bool" where
  "layer_matches_removal_family lid target = (case lid of
     PStr s \<Rightarrow> target \<noteq> [] \<and> (s = target \<or> prefix (target @ ''-'') s \<or> prefix (target @ ''__'') s)
   | _ \<Rightarrow> False)"

text \<open>The family of a layer id: itself, its label layer and everything below it with either separator.\<close>

definition in_family :: "string \<Rightarrow> string \<Rightarrow> bool" where
  "in_family target s = (s = target \<or> prefix (target @ ''-'') s \<or> prefix (target @ ''__'') s)"

lemma should_remove_family:
  "should_remove_layer layer target \<longleftrightarrow> layer_id_text layer \<noteq> [] \<and> in_family target (layer_id_text layer)"
  by (auto simp: should_remove_layer_def in_family_def LABEL_LAYER_SUFFIX_def Let_def prefix_def)

lemma removal_family: "target \<noteq> [] \<Longrightarrow> layer_matches_removal_family (PStr s) target \<longleftrightarrow> in_family target s"
  by (auto simp: layer_matches_removal_family_def in_family_def)

lemma layer_id_text_str: "py_get layer ''id'' = PStr s \<Longrightarrow> layer_id_text layer = s"
  by (auto simp: layer_id_text_def py_str_def)

section \<open>Results\<close>

text \<open>
  \<open>MapSpecResult\<close>, without the review's evidence: the document, the flags and the machine readable code.
  \<open>rs_rolled_back\<close> is which of the two hints of a failed transaction it carries.
\<close>

record mutation_result =
  rs_spec :: "pydict option"
  rs_error :: bool
  rs_code :: string
  rs_superseded :: bool
  rs_duplicate :: bool
  rs_revision :: int
  rs_checkpoint :: "string option"
  rs_locked_layers :: "string list"
  rs_locked_components :: "string list"
  rs_mutation_id :: "string option"
  rs_producer :: "string option"
  rs_rolled_back :: bool

definition plain_result :: mutation_result where
  "plain_result = \<lparr>rs_spec = None, rs_error = False, rs_code = [], rs_superseded = False, rs_duplicate = False,
     rs_revision = 0, rs_checkpoint = None, rs_locked_layers = [], rs_locked_components = [],
     rs_mutation_id = None, rs_producer = None, rs_rolled_back = False\<rparr>"

definition error_result :: "string \<Rightarrow> mutation_result" where
  "error_result code = plain_result\<lparr>rs_error := True, rs_code := code\<rparr>"

definition superseded_result :: "pydict option \<Rightarrow> int \<Rightarrow> mutation_result" where
  "superseded_result spec revision =
     plain_result\<lparr>rs_superseded := True, rs_spec := spec, rs_revision := revision\<rparr>"

section \<open>The registry\<close>

text \<open>
  What a descriptor declares. Effect classes and lock targets of the classes not modelled come with the
  argument \<open>other\<close>; \<open>None\<close> means that the class is not registered.
\<close>

record descriptor =
  ds_presentation :: bool
  ds_touches_layers :: bool
  ds_auto_checkpoint :: bool
  ds_lock_targets :: "string list \<times> string list"

definition described :: "bool \<Rightarrow> bool \<Rightarrow> bool \<Rightarrow> string list \<times> string list \<Rightarrow> descriptor option" where
  "described pres touches auto targets = Some
     \<lparr>ds_presentation = pres, ds_touches_layers = touches, ds_auto_checkpoint = auto, ds_lock_targets = targets\<rparr>"

definition dict_ids :: "pyval \<Rightarrow> string list" where
  "dict_ids v = (case iter_values v of None \<Rightarrow> [] | Some xs \<Rightarrow>
     List.map_filter (\<lambda>x. case entry_dict x of None \<Rightarrow> None
       | Some e \<Rightarrow> (case py_get e ''id'' of PStr s \<Rightarrow> Some s | _ \<Rightarrow> None)) xs)"

definition restore_targets :: "pydict \<Rightarrow> string list \<times> string list" where
  "restore_targets snap = (dict_ids (py_get snap ''layers''),
     dict_ids (py_get (dict_if (py_get snap ''layout'')) ''components''))"

fun descriptor_for :: "(string \<Rightarrow> pydict \<Rightarrow> descriptor option) \<Rightarrow> intent \<Rightarrow> descriptor option" where
  "descriptor_for other (InitProjectIntent view th) = described False True False ([], [])"
| "descriptor_for other (SetViewIntent c z p b) = described False False False ([], [])"
| "descriptor_for other (PatchLayerPresentationIntent lid vis opac) = described True True True ([lid], [])"
| "descriptor_for other (PatchLayerStyleIntent lid paint) = described True False True ([lid], [])"
| "descriptor_for other (RemoveLayerIntent lid) = described False True True ([lid], [])"
| "descriptor_for other (ReorderLayersIntent lids) = described False True True (lids, [])"
| "descriptor_for other (SetBasemapIntent p r l v) = described False False False ([], [])"
| "descriptor_for other (SetTimeIntent f) = described False False False ([], [])"
| "descriptor_for other (SetScenarioModeIntent m) = described False False False ([], [])"
| "descriptor_for other (RefreshDataRevisionIntent r n) = described False False False ([], [])"
| "descriptor_for other (RestoreStyleIntent snap) = described False True False (restore_targets snap)"
| "descriptor_for other (SetWorkbenchStateIntent doc base) = described False False False ([], [])"
| "descriptor_for other (PatchWorkbenchDeltaIntent delta) = described False False False ([], [])"
| "descriptor_for other (CheckpointIntent cid) = described False False False ([], [])"
| "descriptor_for other (RollbackIntent cid) = described False True False ([], [])"
| "descriptor_for other (OtherIntent kind args) = other kind args"

definition intent_lock_targets :: "(string \<Rightarrow> pydict \<Rightarrow> descriptor option) \<Rightarrow> intent \<Rightarrow> string list \<times> string list" where
  "intent_lock_targets other i = (case descriptor_for other i of None \<Rightarrow> ([], []) | Some d \<Rightarrow> ds_lock_targets d)"

section \<open>Locks\<close>

definition LOCK_CONFLICT_CODE :: string where "LOCK_CONFLICT_CODE = ''layer_locked''"

text \<open>One half of \<open>guard_locked_partitions\<close>: the targets no lock hits, and the locked ids that were hit.\<close>

definition keep_first :: "'a list \<Rightarrow> 'a list" where
  "keep_first xs = rev (remdups (rev xs))"

definition lock_hits :: "string list \<Rightarrow> string \<Rightarrow> string list" where
  "lock_hits locked t = filter (\<lambda>l. lock_matches l t) locked"

definition split_target :: "string list \<Rightarrow> string \<Rightarrow> string list \<times> string list \<Rightarrow> string list \<times> string list" where
  "split_target locked t parts =
     (if t = [] then parts
      else if lock_hits locked t \<noteq> []
      then (fst parts, fold (\<lambda>l acc. if l \<in> set acc then acc else acc @ [l]) (lock_hits locked t) (snd parts))
      else if t \<in> set (fst parts) then parts else (fst parts @ [t], snd parts))"

definition split_targets :: "string list \<Rightarrow> string list \<Rightarrow> string list \<times> string list" where
  "split_targets locked targets = fold (split_target locked) (keep_first targets) ([], [])"

record lock_partition =
  lp_allowed_layers :: "string list"
  lp_locked_layers :: "string list"
  lp_allowed_components :: "string list"
  lp_locked_components :: "string list"

definition guard_locked_partitions :: "pydict option \<Rightarrow> string list \<Rightarrow> string list \<Rightarrow> lock_partition" where
  "guard_locked_partitions spec layers comps =
     (let doc = (case spec of None \<Rightarrow> PNone | Some m \<Rightarrow> PDict m);
          ls = split_targets (locked_layer_ids_of doc) layers;
          cs = split_targets (locked_component_ids_of doc) comps
      in \<lparr>lp_allowed_layers = fst ls, lp_locked_layers = snd ls,
          lp_allowed_components = fst cs, lp_locked_components = snd cs\<rparr>)"

definition has_locked :: "lock_partition \<Rightarrow> bool" where
  "has_locked p = (lp_locked_layers p \<noteq> [] \<or> lp_locked_components p \<noteq> [])"

definition lock_refusal_of :: "lock_partition \<Rightarrow> mutation_result" where
  "lock_refusal_of p = (error_result LOCK_CONFLICT_CODE)
     \<lparr>rs_locked_layers := sort (remdups (lp_locked_layers p)),
      rs_locked_components := sort (remdups (lp_locked_components p))\<rparr>"

definition guard_intent_locks ::
  "(string \<Rightarrow> pydict \<Rightarrow> descriptor option) \<Rightarrow> pydict option \<Rightarrow> intent \<Rightarrow> origin \<Rightarrow> mutation_result option" where
  "guard_intent_locks other spec i who =
     (if who = By_user then None
      else let targets = intent_lock_targets other i;
               p = guard_locked_partitions spec (fst targets) (snd targets)
           in if has_locked p then Some (lock_refusal_of p) else None)"

text \<open>Whether a user's intent touches what is locked, or writes a lock set itself.\<close>

definition lock_list_given :: "pydict \<Rightarrow> string \<Rightarrow> bool" where
  "lock_list_given doc k = (case py_get doc k of
     PList xs \<Rightarrow> list_ex (\<lambda>x. nonempty_str x \<noteq> None) xs | _ \<Rightarrow> False)"

definition user_lock_pin_hit ::
  "(string \<Rightarrow> pydict \<Rightarrow> descriptor option) \<Rightarrow> pydict option \<Rightarrow> intent \<Rightarrow> bool" where
  "user_lock_pin_hit other spec i =
     (let targets = intent_lock_targets other i
      in if fst targets \<noteq> [] \<or> snd targets \<noteq> [] then has_locked (guard_locked_partitions spec (fst targets) (snd targets))
         else (case i of SetWorkbenchStateIntent doc base \<Rightarrow>
                 (let d = dict_if doc in lock_list_given d ''lockedLayerIds'' \<or> lock_list_given d ''lockedComponentIds'')
               | _ \<Rightarrow> False))"

lemma fold_append_set:
  "set (fold (\<lambda>l acc. if l \<in> set acc then acc else acc @ [l]) xs acc) = set acc \<union> set xs"
  by (induction xs arbitrary: acc) auto

lemma split_target_hits:
  "set (snd (split_target locked t parts)) = set (snd parts) \<union> (if t = [] then {} else set (lock_hits locked t))"
  by (simp add: split_target_def fold_append_set)

lemma split_targets_fold:
  "set (snd (fold (split_target locked) ts parts)) =
   set (snd parts) \<union> {l. \<exists>t \<in> set ts. t \<noteq> [] \<and> l \<in> set (lock_hits locked t)}"
  by (induction ts arbitrary: parts) (auto simp: split_target_hits)

lemma split_targets_hits:
  "set (snd (split_targets locked targets)) = {l \<in> set locked. \<exists>t \<in> set targets. lock_matches l t}"
  by (auto simp: split_targets_def split_targets_fold keep_first_def lock_hits_def lock_matches_def)

text \<open>A guard lets an intent of another origin through exactly when no lock hits one of its targets.\<close>

lemma guard_passes:
  assumes "guard_intent_locks other (Some m) i who = None" and "who \<noteq> By_user"
    and "t \<in> set (fst (intent_lock_targets other i))" and "l \<in> set (locked_layer_ids_of (PDict m))"
  shows "\<not> lock_matches l t"
proof -
  have "snd (split_targets (locked_layer_ids_of (PDict m)) (fst (intent_lock_targets other i))) = []"
    using assms(1,2) by (simp add: guard_intent_locks_def guard_locked_partitions_def has_locked_def Let_def split: if_splits)
  then have "{l \<in> set (locked_layer_ids_of (PDict m)). \<exists>t \<in> set (fst (intent_lock_targets other i)). lock_matches l t} = {}"
    using split_targets_hits [of "locked_layer_ids_of (PDict m)" "fst (intent_lock_targets other i)"] by simp
  with assms(3,4) show ?thesis by blast
qed

section \<open>The idempotency index\<close>

definition MUTATION_DEDUP_LIMIT :: nat where "MUTATION_DEDUP_LIMIT = 64"

record dedup_entry =
  de_revision :: int
  de_time :: time
  de_origin :: string

type_synonym dedup_index = "(string \<times> dedup_entry) list"

text \<open>Only committed mutations have an entry, so the flag the code stores with each is not carried.\<close>

definition dedup_hit :: "dedup_index \<Rightarrow> string option \<Rightarrow> dedup_entry option" where
  "dedup_hit index mid = (if truthy mid then map_of index (or_else mid []) else None)"

definition dedup_commit_fields :: "dedup_index \<Rightarrow> string option \<Rightarrow> int \<Rightarrow> time \<Rightarrow> origin \<Rightarrow> dedup_index option" where
  "dedup_commit_fields index mid revision now who =
     (if \<not> truthy mid then None
      else Some (take_last MUTATION_DEDUP_LIMIT
        (AList.delete (or_else mid []) index @
         [(or_else mid [], \<lparr>de_revision = revision, de_time = now, de_origin = origin_value who\<rparr>)])))"

definition dedup_strip :: "dedup_index \<Rightarrow> string option \<Rightarrow> dedup_index" where
  "dedup_strip index mid = (if truthy mid then AList.delete (or_else mid []) index else index)"

section \<open>Presentation\<close>

definition TRANSIENT_INTERACTION_KEYS :: "string list" where
  "TRANSIENT_INTERACTION_KEYS = [''pan'', ''zoom'', ''hover'', ''selection'']"

definition strip_transient_state :: "pydict \<Rightarrow> pydict" where
  "strip_transient_state spec = filter (\<lambda>kv. fst kv \<notin> set TRANSIENT_INTERACTION_KEYS) spec"

definition OPACITY_PAINT_KEYS :: "(string \<times> string) list" where
  "OPACITY_PAINT_KEYS = [(''circle'', ''circle-opacity''), (''fill'', ''fill-opacity''), (''line'', ''line-opacity''),
     (''raster'', ''raster-opacity''), (''heatmap'', ''heatmap-opacity''), (''fill-extrusion'', ''fill-extrusion-opacity''),
     (''symbol'', ''icon-opacity'')]"

definition presentation_intent :: "pydict \<Rightarrow> bool \<Rightarrow> string \<Rightarrow> pydict" where
  "presentation_intent cint visible who =
     (let same = py_get cint ''presentation_owner'' = PStr ''user'' \<and>
            py_get cint ''expected_visible'' \<noteq> PNone \<and>
            py_truthy (py_get cint ''expected_visible'') = visible
      in AList.update ''presentation_owner'' (PStr (if same then ''user'' else who))
           (AList.update ''expected_visible'' (PBool visible) cint))"

definition patch_visibility :: "pydict \<Rightarrow> bool \<Rightarrow> string \<Rightarrow> pydict option" where
  "patch_visibility layer visible who =
     (let p = AList.delete ''visible'' layer
      in case dict_or_empty (py_get p ''layout'') of None \<Rightarrow> None | Some layout \<Rightarrow>
         (case dict_or_empty (py_get p ''cartographic_intent'') of None \<Rightarrow> None | Some cint \<Rightarrow>
            Some (AList.update ''cartographic_intent'' (PDict (presentation_intent cint visible who))
              (AList.update ''layout''
                (PDict (AList.update ''visibility'' (PStr (if visible then ''visible'' else ''none'')) layout)) p))))"

definition patch_opacity :: "pydict \<Rightarrow> pyval \<Rightarrow> pydict option" where
  "patch_opacity layer opacity =
     (case dict_or_empty (py_get layer ''paint'') of None \<Rightarrow> None | Some paint \<Rightarrow>
        (let p1 = AList.update ''opacity'' opacity paint;
             kind = (if py_truthy (py_get layer ''type'') then py_str (py_get layer ''type'') else []);
             p2 = (case map_of OPACITY_PAINT_KEYS kind of None \<Rightarrow> p1 | Some k \<Rightarrow> AList.update k opacity p1)
         in Some (AList.update ''paint'' (PDict p2) layer)))"

definition patch_layer_presentation :: "pydict \<Rightarrow> bool option \<Rightarrow> pyval \<Rightarrow> string \<Rightarrow> pydict option" where
  "patch_layer_presentation layer visible opacity who =
     (case (case visible of None \<Rightarrow> Some layer | Some v \<Rightarrow> patch_visibility layer v who) of
        None \<Rightarrow> None
      | Some p \<Rightarrow> if opacity = PNone then Some p else patch_opacity p opacity)"

end
