(* ===== verification/Carto_Repair.thy ===== *)
theory Carto_Repair
  imports Mapspec_Intents
begin

text \<open>
  The cartographic review of a candidate document (\<open>app/lib/cartography/quality_loop.py\<close>): the rules judge the
  document, the repairs they call safe are applied, and the document is judged again, at most twice. The rules
  themselves (\<open>semantic_checks.py\<close>) are an argument, but for the one that asks to show a hidden layer. Copies
  of the document have no counterpart here, values do not change. \<open>None\<close> is an exception: the engine then keeps
  the document as it was before the review.
\<close>

section \<open>Python values as keys and sequences\<close>

text \<open>Equality of dictionary keys; a float is an integer when its \<open>repr\<close> ends in \<open>.0\<close>.\<close>

definition key_of :: "pyval \<Rightarrow> pyval" where
  "key_of v = (case v of
     PBool b \<Rightarrow> PInt (if b then 1 else 0)
   | PFloat t \<Rightarrow> (if drop (length t - 2) t = ''.0'' then
       (case py_int (take (length t - 2) t) of None \<Rightarrow> v | Some n \<Rightarrow> PInt n) else v)
   | _ \<Rightarrow> v)"

definition is_number :: "pyval \<Rightarrow> bool" where
  "is_number v = (case v of PInt n \<Rightarrow> True | PFloat t \<Rightarrow> True | PBool b \<Rightarrow> True | _ \<Rightarrow> False)"

text \<open>\<open>d.get(k) or []\<close>, iterated.\<close>

definition py_entries :: "string \<Rightarrow> pydict \<Rightarrow> pyval list option" where
  "py_entries k d = (let v = py_get d k in iter_values (if py_truthy v then v else PList []))"

section \<open>The colours of a style\<close>

definition second_of :: "pyval \<Rightarrow> pyval option" where
  "second_of v = (case v of PList (a # b # r) \<Rightarrow> Some b | _ \<Rightarrow> None)"

definition first_two :: "pyval \<Rightarrow> pyval option" where
  "first_two v = (case v of PList (a # b # r) \<Rightarrow> Some (PList [a, b]) | _ \<Rightarrow> None)"

definition set_second :: "pyval \<Rightarrow> pyval \<Rightarrow> pyval" where
  "set_second v c = (case v of PList (a # b # r) \<Rightarrow> PList (a # c # r) | _ \<Rightarrow> v)"

definition pairs_of :: "string \<Rightarrow> pydict \<Rightarrow> pyval list option" where
  "pairs_of k spec = map_option (List.map_filter first_two) (py_entries k spec)"

text \<open>
  A style value as a method; the flag tells whether it is the value itself or one made for the occasion, whose
  changes are lost. \<open>Some None\<close>: not a method.
\<close>

definition normalize_paint_spec :: "pyval \<Rightarrow> (pydict \<times> bool) option option" where
  "normalize_paint_spec v = (case v of
     PDict spec \<Rightarrow>
       (let kind = py_get spec ''type''; field = py_get spec ''property''; grey = PStr ''#999999'' in
        if py_get spec ''method'' \<in> {PStr ''interpolate'', PStr ''step'', PStr ''match''} then Some (Some (spec, True))
        else if kind = PStr ''categorical'' \<and> py_truthy field then
          map_option (\<lambda>cases. Some ([(''method'', PStr ''match''), (''field'', field), (''cases'', PList cases),
            (''default'', if cases = [] then grey else or_else (second_of (last cases)) PNone)], False)) (pairs_of ''stops'' spec)
        else if py_truthy field \<and> kind = PStr ''interval'' then
          map_option (\<lambda>stops. Some ([(''method'', PStr ''step''), (''field'', field),
            (''default'', if stops = [] then grey else or_else (second_of (hd stops)) PNone),
            (''stops'', PList (tl stops))], False)) (pairs_of ''stops'' spec)
        else if py_truthy field \<and> kind = PStr ''exponential'' then
          map_option (\<lambda>stops. Some ([(''method'', PStr ''interpolate''), (''field'', field),
            (''stops'', PList stops)], False)) (pairs_of ''stops'' spec)
        else Some None)
   | _ \<Rightarrow> Some None)"

definition colours_in :: "string \<Rightarrow> pydict \<Rightarrow> pyval list option" where
  "colours_in k spec = map_option (List.map_filter second_of) (py_entries k spec)"

definition paint_output_colors :: "pydict \<Rightarrow> pyval list option" where
  "paint_output_colors spec = (let how = py_get spec ''method''; dflt = py_get spec ''default'' in
     if how = PStr ''step'' then
       map_option (\<lambda>cs. filter (\<lambda>c. c \<noteq> PNone) ((if dflt = PNone then [] else [dflt]) @ cs)) (colours_in ''stops'' spec)
     else if how = PStr ''interpolate'' then colours_in ''stops'' spec
     else if how = PStr ''match'' then colours_in ''cases'' spec
     else Some [])"

text \<open>A strict \<open>zip\<close> of the entries with the colours: different lengths raise.\<close>

definition recolour_entries :: "string \<Rightarrow> pyval list \<Rightarrow> pydict \<Rightarrow> pydict option" where
  "recolour_entries k colors spec = (case py_entries k spec of
     None \<Rightarrow> None
   | Some xs \<Rightarrow> if length xs \<noteq> length colors then None
       else Some (case py_get spec k of PList ys \<Rightarrow> AList.update k (PList (map2 set_second ys colors)) spec | _ \<Rightarrow> spec))"

definition recolour_spec :: "pyval list \<Rightarrow> pydict \<Rightarrow> pydict option" where
  "recolour_spec colors spec = (case paint_output_colors spec of
     None \<Rightarrow> None
   | Some outputs \<Rightarrow>
       (let how = py_get spec ''method'' in
        if length outputs \<noteq> length colors then Some spec
        else if how = PStr ''step'' then
          (if py_get spec ''default'' \<noteq> PNone
           then recolour_entries ''stops'' (tl colors) (AList.update ''default'' (hd colors) spec)
           else recolour_entries ''stops'' colors spec)
        else if how = PStr ''interpolate'' then recolour_entries ''stops'' colors spec
        else if how = PStr ''match'' then recolour_entries ''cases'' colors spec
        else Some spec))"

fun recolour_paint :: "pyval list \<Rightarrow> pydict \<Rightarrow> pydict option" where
  "recolour_paint colors [] = Some []"
| "recolour_paint colors ((prop, v) # rest) = (case normalize_paint_spec v of
     None \<Rightarrow> None
   | Some None \<Rightarrow> map_option ((#) (prop, v)) (recolour_paint colors rest)
   | Some (Some (spec, itself)) \<Rightarrow> (case recolour_spec colors spec of
       None \<Rightarrow> None
     | Some spec' \<Rightarrow> map_option ((#) (prop, if itself then PDict spec' else v)) (recolour_paint colors rest)))"

definition recolour_category :: "pyval \<Rightarrow> pyval \<Rightarrow> pyval" where
  "recolour_category v c = (case v of PDict m \<Rightarrow> PDict (AList.update ''color'' c m) | _ \<Rightarrow> v)"

definition is_list :: "pyval \<Rightarrow> bool" where
  "is_list v = (case v of PList xs \<Rightarrow> True | _ \<Rightarrow> False)"

definition recolour_legend :: "pyval list \<Rightarrow> pydict \<Rightarrow> pydict" where
  "recolour_legend colors legend =
     (let ramp = (if is_list (py_get legend ''palette_colors'') then Some ''palette_colors''
                  else if is_list (py_get legend ''colors'') then Some ''colors'' else None);
          legend1 = (case ramp of None \<Rightarrow> legend | Some k \<Rightarrow>
            (case py_get legend k of PList ys \<Rightarrow> if length ys = length colors then AList.update k (PList colors) legend else legend
             | _ \<Rightarrow> legend))
      in case py_get legend1 ''categories'' of
           PList cats \<Rightarrow> if length cats = length colors
             then AList.update ''categories'' (PList (map2 recolour_category cats colors)) legend1 else legend1
         | _ \<Rightarrow> legend1)"

definition apply_palette_change :: "pyval \<Rightarrow> pydict \<Rightarrow> pydict option" where
  "apply_palette_change colors layer = (case colors of
     PList (c # cs) \<Rightarrow>
       (let layer1 = (case py_get layer ''legend_spec'' of
              PDict legend \<Rightarrow> AList.update ''legend_spec'' (PDict (recolour_legend (c # cs) legend)) layer
            | _ \<Rightarrow> layer)
        in case py_get layer1 ''paint'' of
             PDict paint \<Rightarrow> map_option (\<lambda>p. AList.update ''paint'' (PDict p) layer1) (recolour_paint (c # cs) paint)
           | _ \<Rightarrow> Some layer1)
   | _ \<Rightarrow> Some layer)"

section \<open>The repairs\<close>

text \<open>The layer that bears an id: the last one of the list, as in the dictionary the code makes by id.\<close>

definition bears_id :: "pyval \<Rightarrow> pyval \<Rightarrow> bool" where
  "bears_id lid v = (case v of
     PDict layer \<Rightarrow> py_truthy (py_get layer ''id'') \<and> key_of (py_get layer ''id'') = key_of lid | _ \<Rightarrow> False)"

fun on_last :: "(pyval \<Rightarrow> bool) \<Rightarrow> (pydict \<Rightarrow> pydict option) \<Rightarrow> pyval list \<Rightarrow> pyval list option" where
  "on_last p f [] = Some []"
| "on_last p f (v # vs) =
     (if list_ex p vs \<or> \<not> p v then map_option ((#) v) (on_last p f vs)
      else case v of PDict layer \<Rightarrow> map_option (\<lambda>l. PDict l # vs) (f layer) | _ \<Rightarrow> Some (v # vs))"

definition on_layer :: "pyval \<Rightarrow> (pydict \<Rightarrow> pydict option) \<Rightarrow> pydict \<Rightarrow> pydict option" where
  "on_layer lid f spec =
     (if \<not> hashable lid then None
      else case py_get spec ''layers'' of
        PList vs \<Rightarrow> map_option (\<lambda>ws. AList.update ''layers'' (PList ws) spec) (on_last (bears_id lid) f vs)
      | _ \<Rightarrow> Some spec)"

definition show_layer :: "bool \<Rightarrow> pydict \<Rightarrow> pydict" where
  "show_layer visible layer =
     (let layer1 = AList.update ''visible'' (PBool visible) layer;
          layer2 = (case py_get layer1 ''layout'' of
              PDict layout \<Rightarrow> if py_get layout ''visibility'' = PStr ''none''
                then AList.update ''layout'' (PDict (AList.update ''visibility'' (PStr ''visible'') layout)) layer1 else layer1
            | _ \<Rightarrow> layer1)
      in case py_get layer2 ''cartographic_intent'' of
           PDict intent \<Rightarrow>
             (let intent1 = AList.update ''expected_visible'' (PBool visible) intent;
                  intent2 = (if py_get intent1 ''presentation_owner'' \<noteq> PStr ''user''
                    then AList.update ''presentation_owner'' (PStr ''system'') intent1 else intent1)
              in AList.update ''cartographic_intent'' (PDict intent2) layer2)
         | _ \<Rightarrow> layer2)"

definition set_paint :: "string \<Rightarrow> pyval \<Rightarrow> pydict \<Rightarrow> pydict" where
  "set_paint prop v layer =
     (let layer1 = (if map_of layer ''paint'' = None then AList.update ''paint'' (PDict []) layer else layer)
      in case py_get layer1 ''paint'' of
           PDict paint \<Rightarrow> AList.update ''paint'' (PDict (AList.update prop v paint)) layer1
         | _ \<Rightarrow> layer1)"

definition set_legend_visible :: "bool \<Rightarrow> pydict \<Rightarrow> pydict" where
  "set_legend_visible visible spec =
     (let layout = dict_if (py_get spec ''layout''); legend = dict_if (py_get layout ''legend'')
      in AList.update ''layout'' (PDict (AList.update ''legend''
           (PDict (AList.update ''visible'' (PBool visible) legend)) layout)) spec)"

text \<open>Floating components move to the places the repair names for them.\<close>

fun moves_of :: "pyval list \<Rightarrow> (pyval \<times> pydict) list \<Rightarrow> (pyval \<times> pydict) list option" where
  "moves_of [] moves = Some moves"
| "moves_of (v # vs) moves = (case v of
     PDict p \<Rightarrow> (let cid = py_get p ''component_id'' in
       if \<not> py_truthy cid then moves_of vs moves
       else if \<not> hashable cid then None
       else moves_of vs (AList.update (key_of cid) p moves))
   | _ \<Rightarrow> moves_of vs moves)"

definition move_component :: "(pyval \<times> pydict) list \<Rightarrow> pyval \<Rightarrow> pyval option" where
  "move_component moves v = (case v of
     PDict component \<Rightarrow>
       (if \<not> hashable (py_get component ''id'') then None
        else Some (case (map_of moves (key_of (py_get component ''id'')), py_get component ''placement'') of
          (Some move, PDict placement) \<Rightarrow>
            (let x = py_get move ''x''; y = py_get move ''y'' in
             if py_get placement ''mode'' = PStr ''floating'' \<and> is_number x \<and> is_number y
             then PDict (AList.update ''placement''
               (PDict (AList.update ''y'' y (AList.update ''x'' x placement))) component)
             else v)
        | _ \<Rightarrow> v))
   | _ \<Rightarrow> Some v)"

definition resolve_floating :: "pyval \<Rightarrow> pydict \<Rightarrow> pydict option" where
  "resolve_floating placements spec = (case (placements, py_get spec ''layout'') of
     (PList ps, PDict layout) \<Rightarrow>
       (case py_get layout ''components'' of
          PList cs \<Rightarrow>
            (case moves_of ps [] of
               None \<Rightarrow> None
             | Some moves \<Rightarrow> map_option (\<lambda>ds. AList.update ''layout'' (PDict (AList.update ''components'' (PList ds) layout)) spec)
                 (all_some (move_component moves) cs))
        | _ \<Rightarrow> Some spec)
   | _ \<Rightarrow> Some spec)"

definition apply_repair :: "pydict \<Rightarrow> pydict \<Rightarrow> pydict option" where
  "apply_repair repair spec =
     (let operation = py_get repair ''operation''; lid = py_get repair ''layer_id''; v = py_get repair ''value'' in
      if operation = PStr ''resolve_floating_layout'' then resolve_floating (py_get repair ''placements'') spec
      else if operation = PStr ''set_map_legend_visibility'' then Some (set_legend_visible (py_truthy v) spec)
      else if operation = PStr ''change_palette'' then
        on_layer lid (\<lambda>l. case v of PDict m \<Rightarrow> apply_palette_change (py_get m ''colors'') l | _ \<Rightarrow> Some l) spec
      else if operation = PStr ''set_layer_visibility'' then
        on_layer lid (\<lambda>l. Some (show_layer (py_truthy (py_get repair ''visible'')) l)) spec
      else if operation = PStr ''normalize_opacity'' \<or> operation = PStr ''refresh_style_from_legend'' then
        on_layer lid (\<lambda>l. Some (case py_get repair ''property'' of PStr prop \<Rightarrow> set_paint prop v l | _ \<Rightarrow> l)) spec
      else Some spec)"

text \<open>The dictionary of layers by id is made first; an id that cannot be a key raises.\<close>

definition layer_ids_usable :: "pydict \<Rightarrow> bool" where
  "layer_ids_usable spec = (case py_get spec ''layers'' of
     PList vs \<Rightarrow> list_all (\<lambda>v. case v of
       PDict layer \<Rightarrow> py_truthy (py_get layer ''id'') \<longrightarrow> hashable (py_get layer ''id'') | _ \<Rightarrow> True) vs
   | _ \<Rightarrow> True)"

fun repair_each :: "pydict list \<Rightarrow> pydict \<Rightarrow> pydict option" where
  "repair_each [] spec = Some spec"
| "repair_each (r # rs) spec = (case apply_repair r spec of None \<Rightarrow> None | Some spec' \<Rightarrow> repair_each rs spec')"

definition apply_repairs :: "pydict list \<Rightarrow> pydict \<Rightarrow> pydict option" where
  "apply_repairs repairs spec = (if layer_ids_usable spec then repair_each repairs spec else None)"

section \<open>The review\<close>

text \<open>
  \<open>qv_evaluate\<close> is the report of the rules on a document, \<open>qv_print\<close> the fingerprint of a value, \<open>qv_reports\<close>
  whether the fingerprint and the read-only reports of the end come about.
\<close>

record quality_rules =
  qv_evaluate :: "pydict \<Rightarrow> pydict option"
  qv_print :: "pyval \<Rightarrow> string"
  qv_reports :: "pydict \<Rightarrow> bool"

record loop_result =
  lr_spec :: pydict
  lr_status :: string
  lr_reason :: string
  lr_attempts :: "pydict list list"

definition review_checks :: "pydict \<Rightarrow> pydict list" where
  "review_checks review = List.map_filter entry_dict (or_else (iter_values (get_default review ''checks'' (PList []))) [])"

definition failing :: "pydict \<Rightarrow> bool" where
  "failing check = (py_get check ''status'' = PStr ''fail'')"

definition failure_print :: "(pyval \<Rightarrow> string) \<Rightarrow> pydict \<Rightarrow> string" where
  "failure_print fp review = fp (PList (List.map (\<lambda>c. PDict
     [(''rule'', py_get c ''rule''), (''status'', py_get c ''status''), (''layer_id'', py_get c ''layer_id''),
      (''source_id'', py_get c ''source_id''),
      (''evidence'', if py_truthy (py_get c ''evidence'') then py_get c ''evidence'' else PDict [])])
     (filter failing (review_checks review))))"

definition safe_fix :: "pydict \<Rightarrow> pydict option" where
  "safe_fix check =
     (if failing check \<and> py_get check ''repairability'' = PStr ''auto_safe'' then
        (case py_get check ''suggested_fix'' of
           PDict fix \<Rightarrow> if py_truthy (py_get fix ''operation'') then Some fix else None
         | _ \<Rightarrow> None)
      else None)"

fun plan_repairs :: "(pyval \<Rightarrow> string) \<Rightarrow> string list \<Rightarrow> pydict list \<Rightarrow> pydict list" where
  "plan_repairs fp seen [] = []"
| "plan_repairs fp seen (c # cs) = (case safe_fix c of
     None \<Rightarrow> plan_repairs fp seen cs
   | Some r \<Rightarrow> (let f = fp (PDict r) in
       if f \<in> set seen then plan_repairs fp seen cs else r # plan_repairs fp (f # seen) cs))"

text \<open>The user's locks keep a repair out, as does the caller's list of operations.\<close>

definition suppressed :: "string list \<Rightarrow> pydict \<Rightarrow> bool" where
  "suppressed ops r = (\<exists>op \<in> set ops. py_get r ''operation'' = PStr op)"

definition lock_refuses :: "string list \<Rightarrow> pydict \<Rightarrow> bool" where
  "lock_refuses locks r = (case py_get r ''layer_id'' of PStr lid \<Rightarrow> is_entity_locked lid locks | _ \<Rightarrow> False)"

definition verdict :: "pydict \<Rightarrow> (string \<times> string) option" where
  "verdict review = (let status = py_get review ''status'' in
     if status = PStr ''pass'' then Some (''passed'', ''quality_converged'')
     else if status = PStr ''warning'' then
       (if py_get review ''passed'' = PBool True then Some (''passed_with_warnings'', ''quality_converged_with_warnings'')
        else Some (''partial'', ''deterministic_evidence_incomplete''))
     else if status = PStr ''not_evaluated'' then Some (''not_evaluated'', ''missing_evidence'')
     else None)"

definition semantic_risk :: "pydict \<Rightarrow> bool" where
  "semantic_risk review = list_ex (\<lambda>c. failing c \<and> py_get c ''repairability'' = PStr ''auto_with_semantic_risk'')
     (review_checks review)"

definition loop_end :: "pydict \<Rightarrow> pydict list list \<Rightarrow> string \<times> string \<Rightarrow> loop_result option" where
  "loop_end spec tried why = Some \<lparr>lr_spec = spec, lr_status = fst why, lr_reason = snd why, lr_attempts = tried\<rparr>"

definition repairs_left :: "quality_rules \<Rightarrow> string list \<Rightarrow> string list \<Rightarrow> pydict \<Rightarrow> pydict list" where
  "repairs_left q locks ops review = filter (\<lambda>r. \<not> suppressed ops r \<and> \<not> lock_refuses locks r)
     (plan_repairs (qv_print q) [] (review_checks review))"

text \<open>
  One look at the document: either the loop is over, or there is the fingerprint of the failures and the repairs
  to be done about them. The argument that grows smaller is the number of repair rounds left.
\<close>

definition judge :: "quality_rules \<Rightarrow> string list \<Rightarrow> string list \<Rightarrow> pydict \<Rightarrow> string list \<Rightarrow> pydict list list \<Rightarrow>
    loop_result option + (string \<times> pydict list)" where
  "judge q locks ops spec failures tried = (case qv_evaluate q spec of
     None \<Rightarrow> Inl None
   | Some review \<Rightarrow> (case verdict review of
       Some why \<Rightarrow> Inl (loop_end spec tried why)
     | None \<Rightarrow>
        (let failed = failure_print (qv_print q) review; repairs = repairs_left q locks ops review in
         if failed \<in> set failures then Inl (loop_end spec tried (''repair_exhausted'', ''repeated_failure''))
         else if ops \<noteq> [] \<and> \<not> list_all (\<lambda>r. hashable (py_get r ''operation''))
             (plan_repairs (qv_print q) [] (review_checks review)) then Inl None
         else if repairs = [] then Inl (loop_end spec tried
           (if semantic_risk review then (''failed_repairable'', ''semantic_risk_requires_explicit_intent'')
            else (''failed_unrepairable'', ''no_auto_safe_repair'')))
         else Inr (failed, repairs))))"

fun review_loop :: "quality_rules \<Rightarrow> string list \<Rightarrow> string list \<Rightarrow> nat \<Rightarrow> pydict \<Rightarrow> string list \<Rightarrow> string list \<Rightarrow>
    pydict list list \<Rightarrow> loop_result option" where
  "review_loop q locks ops 0 spec failures patches tried = (case judge q locks ops spec failures tried of
     Inl r \<Rightarrow> r | Inr x \<Rightarrow> loop_end spec tried (''repair_exhausted'', ''max_iterations''))"
| "review_loop q locks ops (Suc n) spec failures patches tried = (case judge q locks ops spec failures tried of
     Inl r \<Rightarrow> r
   | Inr (failed, repairs) \<Rightarrow>
       (let patch = qv_print q (PList (List.map PDict repairs)) in
        if patch \<in> set patches then loop_end spec tried (''repair_exhausted'', ''repeated_patch'')
        else (case apply_repairs repairs spec of
          None \<Rightarrow> None
        | Some spec' \<Rightarrow> review_loop q locks ops n spec' (failed # failures) (patch # patches) (tried @ [repairs]))))"

definition MAX_REPAIR_ITERATIONS :: nat where "MAX_REPAIR_ITERATIONS = 2"

definition review_and_repair :: "quality_rules \<Rightarrow> nat \<Rightarrow> string list \<Rightarrow> pydict \<Rightarrow> loop_result option" where
  "review_and_repair q n ops spec =
     (case review_loop q (locked_layer_ids_of (PDict spec)) ops (min n MAX_REPAIR_ITERATIONS) spec [] [] [] of
        None \<Rightarrow> None
      | Some r \<Rightarrow> if qv_reports q (lr_spec r) then Some r else None)"

text \<open>
  The rule \<open>RESULT_VISIBILITY\<close> on one layer, as far as it asks for a repair: a hidden layer that is explicitly
  expected to be visible.
\<close>

definition visibility_fix :: "pydict \<Rightarrow> pydict option" where
  "visibility_fix layer =
     (let layout = dict_if (py_get layer ''layout'');
          declared_visible = (py_get layer ''visible'' \<noteq> PBool False \<and> py_get layout ''visibility'' \<noteq> PStr ''none'');
          expected_visible = py_get (dict_if (py_get layer ''cartographic_intent'')) ''expected_visible''
      in if declared_visible then None
         else if expected_visible = PBool True then
           Some [(''operation'', PStr ''set_layer_visibility''), (''layer_id'', py_get layer ''id''), (''visible'', PBool True)]
         else None)"

end
