(* ===== verification/Mapspec_Handlers.thy ===== *)
theory Mapspec_Handlers
  imports Mapspec_Intents
begin

text \<open>
  The handlers of the map document engine (\<open>app/services/mapspec/mutation_handlers.py\<close>) that compute a
  candidate from the loaded document alone. A handler ends in a plan (the candidate and how to commit it), in
  a final result (nothing is committed), or raises. Intents whose handlers are not modelled are an argument.
\<close>

section \<open>Plans\<close>

datatype layer_op = Upsert_op pyval pydict | Remove_op string | Replace_op "pyval list"

record plan =
  pl_spec :: pydict
  pl_auto_checkpoint :: bool
  pl_layer_op :: "layer_op option"
  pl_rollback :: bool
  pl_checkpoint :: "string option"

datatype handler_out = Plan plan | Terminal mutation_result | Raises

definition simple_plan :: "pydict \<Rightarrow> bool \<Rightarrow> handler_out" where
  "simple_plan spec auto = Plan \<lparr>pl_spec = spec, pl_auto_checkpoint = auto, pl_layer_op = None, pl_rollback = False,
     pl_checkpoint = None\<rparr>"

definition or_raise :: "'a option \<Rightarrow> ('a \<Rightarrow> handler_out) \<Rightarrow> handler_out" where
  "or_raise x f = (case x of None \<Rightarrow> Raises | Some y \<Rightarrow> f y)"

lemma or_raise_simps [simp]:
  "or_raise None f = Raises"
  "or_raise (Some y) f = f y"
  by (simp_all add: or_raise_def)

section \<open>Branches of the document\<close>

text \<open>\<open>dict(v)\<close>.\<close>

definition dict_of :: "pyval \<Rightarrow> pydict option" where
  "dict_of v = (case v of PDict d \<Rightarrow> Some d | PList [] \<Rightarrow> Some [] | PStr [] \<Rightarrow> Some [] | _ \<Rightarrow> None)"

definition set_field :: "string \<Rightarrow> pyval \<Rightarrow> pydict \<Rightarrow> pydict" where
  "set_field k v d = (if v = PNone then d else AList.update k v d)"

definition copy_of :: "pydict option \<Rightarrow> pydict" where
  "copy_of loaded = or_else loaded []"

definition layers_of :: "pydict option \<Rightarrow> pyval list option" where
  "layers_of loaded = iter_values (get_default (copy_of loaded) ''layers'' (PList []))"

definition MAPSPEC_MAX_FEATURES :: int where "MAPSPEC_MAX_FEATURES = 50000"

definition default_thresholds :: pyval where
  "default_thresholds = PDict [(''maxFeatures'', PInt MAPSPEC_MAX_FEATURES), (''timeoutMs'', PInt 30000)]"

definition new_project :: "pyval \<Rightarrow> pyval \<Rightarrow> pydict" where
  "new_project view thresholds =
     [(''version'', PStr ''1.0''), (''view'', view), (''sources'', PDict []), (''layers'', PList []),
      (''layout'', PDict
        [(''legend'', PDict [(''visible'', PBool True), (''position'', PStr ''top-right'')]),
         (''controls'', PList [PDict [(''type'', PStr ''navigation''), (''position'', PStr ''top-right'')]])]),
      (''thresholds'', thresholds)]"

definition skeleton :: pydict where
  "skeleton = new_project (PDict []) default_thresholds"

section \<open>The project, the view, the base map and time\<close>

definition handle_initproject :: "pyval \<Rightarrow> pyval \<Rightarrow> handler_out" where
  "handle_initproject view thresholds =
     or_raise (if py_truthy view then map_option (AList.update ''framed'' (PBool True)) (entry_dict view) else Some [])
       (\<lambda>v. simple_plan (new_project (PDict v) (if py_truthy thresholds then thresholds else default_thresholds)) False)"

definition handle_setview :: "pydict option \<Rightarrow> pyval \<Rightarrow> pyval \<Rightarrow> pyval \<Rightarrow> pyval \<Rightarrow> handler_out" where
  "handle_setview loaded center zoom pitch bearing =
     or_raise (dict_of (get_default (copy_of loaded) ''view'' (PDict []))) (\<lambda>view.
       simple_plan (AList.update ''view'' (PDict (AList.update ''framed'' (PBool True)
         (set_field ''bearing'' bearing (set_field ''pitch'' pitch (set_field ''zoom'' zoom
           (set_field ''center'' center view)))))) (copy_of loaded)) False)"

definition handle_setbasemap :: "pydict option \<Rightarrow> pyval \<Rightarrow> pyval \<Rightarrow> pyval \<Rightarrow> pyval \<Rightarrow> handler_out" where
  "handle_setbasemap loaded provider filters overlays style =
     or_raise (dict_of (get_default (copy_of loaded) ''basemap'' (PDict []))) (\<lambda>basemap.
       simple_plan (AList.update ''basemap'' (PDict
         (set_field ''vectorStyleUrl'' style (set_field ''overlays'' overlays
           (set_field ''rasterFilters'' filters (set_field ''providerId'' provider basemap))))) (copy_of loaded)) False)"

definition default_time :: pydict where
  "default_time = [(''enabled'', PBool True), (''field'', PStr ''timestamp''), (''type'', PStr ''continuous''),
     (''extent'', PList []), (''current'', PNone), (''step'', PFloat ''1.0''), (''speed'', PFloat ''1.0'')]"

text \<open>The fields an intent gives, in the order of the code; the play-back settings are merged.\<close>

definition time_fields :: "string list" where
  "time_fields = [''enabled'', ''field'', ''type'', ''extent'', ''current'', ''window'', ''playback'', ''step'', ''speed'']"

definition set_time_field :: "pydict \<Rightarrow> string \<Rightarrow> pydict option \<Rightarrow> pydict option" where
  "set_time_field given k cfg = (case cfg of None \<Rightarrow> None | Some c \<Rightarrow>
     (let v = py_get given k
      in if v = PNone then Some c
         else if k = ''playback'' then
           (case dict_or_empty (py_get c k) of None \<Rightarrow> None | Some old \<Rightarrow>
             (case entry_dict v of None \<Rightarrow> None | Some new \<Rightarrow>
                Some (AList.update k (PDict (fold (\<lambda>kv. AList.update (fst kv) (snd kv)) new old)) c)))
         else Some (AList.update k v c)))"

definition handle_settime :: "pydict option \<Rightarrow> pydict \<Rightarrow> handler_out" where
  "handle_settime loaded given =
     or_raise (fold (set_time_field given) time_fields (dict_of (get_default (copy_of loaded) ''time'' (PDict default_time))))
       (\<lambda>cfg. simple_plan (AList.update ''time'' (PDict cfg) (copy_of loaded)) False)"

definition SCENARIO_MODES :: "string list" where "SCENARIO_MODES = [''split_view'', ''swipe_compare'']"

definition handle_setscenariomode :: "pydict option \<Rightarrow> string option \<Rightarrow> handler_out" where
  "handle_setscenariomode loaded mode = (case mode of
     None \<Rightarrow> simple_plan (AList.delete ''scenario_mode'' (copy_of loaded)) False
   | Some m \<Rightarrow> if m \<in> set SCENARIO_MODES then simple_plan (AList.update ''scenario_mode'' (PStr m) (copy_of loaded)) False
       else Terminal (error_result []))"

section \<open>Layers\<close>

text \<open>
  The loop both patches share: every dictionary of the family is patched, and whether there was one.
\<close>

fun patch_family :: "(pydict \<Rightarrow> pydict option) \<Rightarrow> string \<Rightarrow> pyval list \<Rightarrow> (pyval list \<times> bool) option" where
  "patch_family f target [] = Some ([], False)"
| "patch_family f target (v # vs) =
     (case (case v of PDict layer \<Rightarrow>
              if should_remove_layer layer target then map_option (\<lambda>p. (PDict p, True)) (f layer) else Some (v, False)
            | _ \<Rightarrow> Some (v, False)) of
        None \<Rightarrow> None
      | Some (v', hit) \<Rightarrow> map_option (\<lambda>(vs', hits). (v' # vs', hit \<or> hits)) (patch_family f target vs))"

definition patch_layers :: "(pydict \<Rightarrow> pydict option) \<Rightarrow> pydict option \<Rightarrow> string \<Rightarrow> handler_out" where
  "patch_layers f loaded target =
     or_raise (layers_of loaded) (\<lambda>layers. or_raise (patch_family f target layers) (\<lambda>(patched, hit).
       if hit then simple_plan (AList.update ''layers'' (PList patched) (copy_of loaded)) True
       else Terminal (error_result [])))"

definition handle_patchlayerpresentation ::
  "origin \<Rightarrow> pydict option \<Rightarrow> string \<Rightarrow> bool option \<Rightarrow> pyval \<Rightarrow> handler_out" where
  "handle_patchlayerpresentation who loaded target visible opacity =
     patch_layers (\<lambda>layer. patch_layer_presentation layer visible opacity (origin_value who)) loaded target"

definition patch_style :: "pydict \<Rightarrow> pydict \<Rightarrow> pydict option" where
  "patch_style paint layer = (case dict_or_empty (py_get layer ''paint'') of None \<Rightarrow> None | Some old \<Rightarrow>
     Some (AList.update ''paint'' (PDict (fold (\<lambda>kv. AList.update (fst kv) (snd kv)) paint old)) layer))"

definition handle_patchlayerstyle :: "pydict option \<Rightarrow> string \<Rightarrow> pydict \<Rightarrow> handler_out" where
  "handle_patchlayerstyle loaded target paint = patch_layers (patch_style paint) loaded target"

definition handle_removelayer :: "pydict option \<Rightarrow> string \<Rightarrow> handler_out" where
  "handle_removelayer loaded target =
     or_raise (layers_of loaded) (\<lambda>layers. or_raise (all_some entry_dict layers) (\<lambda>ds.
       Plan \<lparr>pl_spec = AList.update ''layers'' (PList (List.map PDict (filter (\<lambda>l. \<not> should_remove_layer l target) ds)))
               (copy_of loaded),
             pl_auto_checkpoint = True, pl_layer_op = Some (Remove_op target), pl_rollback = False, pl_checkpoint = None\<rparr>))"

text \<open>The reordering keeps dictionaries only; each id is taken once.\<close>

definition take_match :: "string \<Rightarrow> pydict \<Rightarrow> pydict list \<Rightarrow> pydict list" where
  "take_match lid layer picked =
     (let i = layer_id_text layer
      in if i \<in> layer_id_text ` set picked \<or> \<not> in_family lid i then picked else picked @ [layer])"

definition picked_layers :: "string list \<Rightarrow> pydict list \<Rightarrow> pydict list" where
  "picked_layers lids current = fold (\<lambda>lid. fold (take_match lid) current) lids []"

definition left_over :: "pydict list \<Rightarrow> pydict list \<Rightarrow> pydict list" where
  "left_over picked current = filter (\<lambda>l. layer_id_text l \<notin> layer_id_text ` set picked) current"

definition handle_reorderlayers :: "pydict option \<Rightarrow> string list \<Rightarrow> handler_out" where
  "handle_reorderlayers loaded lids =
     or_raise (layers_of loaded) (\<lambda>layers.
       let current = List.map_filter entry_dict layers;
           picked = picked_layers lids current
       in if picked = [] then Terminal (error_result [])
          else simple_plan (AList.update ''layers'' (PList (List.map PDict (picked @ left_over picked current)))
                 (copy_of loaded)) True)"

section \<open>The style of an earlier version\<close>

definition component_ids :: "pydict \<Rightarrow> string list option" where
  "component_ids layout = (let v = py_get layout ''components''
     in if \<not> py_truthy v then Some []
        else map_option (List.map_filter (\<lambda>x. case entry_dict x of None \<Rightarrow> None
               | Some e \<Rightarrow> (case py_get e ''id'' of PStr s \<Rightarrow> Some s | _ \<Rightarrow> None))) (iter_values v))"

text \<open>The guard of a replaced layout: components that would disappear must not be locked. \<open>None\<close> raises.\<close>

definition refuse_locked_component_drop ::
  "pydict option \<Rightarrow> string list \<Rightarrow> origin \<Rightarrow> mutation_result option option" where
  "refuse_locked_component_drop loaded kept who = (case loaded of
     None \<Rightarrow> Some None
   | Some m \<Rightarrow>
       if who = By_user then Some None
       else (case component_ids (dict_if (py_get m ''layout'')) of None \<Rightarrow> None | Some current \<Rightarrow>
         (let dropped = filter (\<lambda>c. c \<notin> set kept) current;
              p = guard_locked_partitions loaded [] dropped
          in Some (if dropped \<noteq> [] \<and> has_locked p
               then Some ((lock_refusal_of p)\<lparr>rs_locked_layers := []\<rparr>) else None))))"

definition restore_branch :: "pydict \<Rightarrow> string \<Rightarrow> pydict \<Rightarrow> pydict" where
  "restore_branch snap k spec = (case entry_dict (py_get snap k) of None \<Rightarrow> spec | Some d \<Rightarrow> AList.update k (PDict d) spec)"

text \<open>\<open>{str(id): layer}\<close> over the dictionaries with an id: a later layer with the same id wins.\<close>

definition snapshot_layers :: "pydict \<Rightarrow> (string \<times> pydict) list option" where
  "snapshot_layers snap = (let v = py_get snap ''layers''
     in if \<not> py_truthy v then Some []
        else map_option (\<lambda>xs. fold (\<lambda>x acc. case entry_dict x of None \<Rightarrow> acc
               | Some e \<Rightarrow> if py_truthy (py_get e ''id'') then AList.update (py_str (py_get e ''id'')) e acc else acc) xs [])
               (iter_values v))"

definition snapshot_visible :: "pydict \<Rightarrow> bool option" where
  "snapshot_visible src = (case py_get (dict_if (py_get src ''layout'')) ''visibility'' of
     PStr s \<Rightarrow> Some (s = ''visible'')
   | _ \<Rightarrow> map_option py_truthy (map_of src ''visible''))"

definition restore_layer :: "origin \<Rightarrow> pydict \<Rightarrow> pydict \<Rightarrow> pydict option" where
  "restore_layer who src layer =
     (let l1 = (case entry_dict (py_get src ''paint'') of None \<Rightarrow> layer | Some p \<Rightarrow> AList.update ''paint'' (PDict p) layer);
          l2 = set_field ''label'' (py_get src ''label'') l1
      in case snapshot_visible src of None \<Rightarrow> Some l2
         | Some v \<Rightarrow> patch_layer_presentation l2 (Some v) PNone (origin_value who))"

definition restore_layers :: "origin \<Rightarrow> (string \<times> pydict) list \<Rightarrow> pydict \<Rightarrow> pydict option" where
  "restore_layers who snaps spec =
     (if snaps = [] then Some spec
      else let v = py_get spec ''layers''
           in case (if py_truthy v then iter_values v else Some []) of None \<Rightarrow> None | Some xs \<Rightarrow>
             (case all_some entry_dict xs of None \<Rightarrow> None | Some ds \<Rightarrow>
               map_option (\<lambda>rs. AList.update ''layers'' (PList (List.map PDict rs)) spec)
                 (all_some (\<lambda>l. case map_of snaps (layer_id_text l) of None \<Rightarrow> Some l | Some src \<Rightarrow> restore_layer who src l) ds)))"

definition handle_restorestyle :: "origin \<Rightarrow> pydict option \<Rightarrow> pydict \<Rightarrow> handler_out" where
  "handle_restorestyle who loaded snap =
     (let base = restore_branch snap ''time'' (restore_branch snap ''basemap'' (restore_branch snap ''view'' (copy_of loaded)));
          finish = (\<lambda>spec. or_raise (snapshot_layers snap) (\<lambda>snaps. or_raise (restore_layers who snaps spec)
            (\<lambda>r. simple_plan r False)))
      in case entry_dict (py_get snap ''layout'') of
           None \<Rightarrow> finish base
         | Some layout \<Rightarrow>
             or_raise (component_ids layout) (\<lambda>kept. or_raise (refuse_locked_component_drop loaded kept who) (\<lambda>refusal.
               case refusal of Some r \<Rightarrow> Terminal r | None \<Rightarrow> finish (AList.update ''layout'' (PDict layout) base))))"

section \<open>Data revisions and the organisation document\<close>

definition source_ref_of :: "pydict \<Rightarrow> pyval" where
  "source_ref_of entry =
     (if py_truthy (py_get entry ''ref_id'') then py_get entry ''ref_id''
      else if py_truthy (py_get entry ''ref'') then py_get entry ''ref''
      else case py_get entry ''url'' of PStr u \<Rightarrow> if prefix ''ref:'' u then PStr u else PNone | _ \<Rightarrow> PNone)"

definition stamp_source :: "string \<Rightarrow> int \<Rightarrow> pyval \<Rightarrow> pyval" where
  "stamp_source ref n v = (case entry_dict v of None \<Rightarrow> v | Some e \<Rightarrow>
     if source_ref_of e = PStr ref then PDict (AList.update ''content_revision'' (PInt n) e) else v)"

definition handle_refreshdatarevision :: "pydict option \<Rightarrow> string \<Rightarrow> int \<Rightarrow> handler_out" where
  "handle_refreshdatarevision loaded ref n =
     or_raise (dict_of (get_default (copy_of loaded) ''sources'' (PDict []))) (\<lambda>sources.
       let stamped = List.map (\<lambda>kv. (fst kv, stamp_source ref n (snd kv))) sources
       in if \<not> list_ex (\<lambda>kv. case entry_dict (snd kv) of None \<Rightarrow> False | Some e \<Rightarrow> source_ref_of e = PStr ref) sources \<or>
             stamped = sources
          then Terminal (plain_result\<lparr>rs_spec := Some (copy_of loaded)\<rparr>)
          else simple_plan (AList.update ''sources'' (PDict stamped) (copy_of loaded)) False)"

text \<open>\<open>int(stored)\<close> of the stored revision of the organisation document; what is no number counts as zero.\<close>

definition int_or_zero :: "pyval \<Rightarrow> int" where
  "int_or_zero v = (case v of PInt n \<Rightarrow> n | PBool b \<Rightarrow> (if b then 1 else 0) | PStr s \<Rightarrow> or_else (py_int s) 0
     | PFloat t \<Rightarrow> or_else (py_int (takeWhile (\<lambda>c. c \<noteq> CHR ''.'') t)) 0 | _ \<Rightarrow> 0)"

definition stored_workbench_rev :: "pydict option \<Rightarrow> int" where
  "stored_workbench_rev loaded = (case entry_dict (stored_workbench loaded) of None \<Rightarrow> 0
     | Some wb \<Rightarrow> int_or_zero (get_default wb ''_rev'' (PInt 0)))"

definition with_workbench :: "pydict \<Rightarrow> pydict option \<Rightarrow> pydict" where
  "with_workbench doc loaded = AList.update ''workbench'' (PDict (AList.update ''_rev'' PNone doc)) (copy_of loaded)"

definition handle_setworkbenchstate :: "pydict option \<Rightarrow> int \<Rightarrow> pyval \<Rightarrow> int option \<Rightarrow> handler_out" where
  "handle_setworkbenchstate loaded prior doc base =
     (if workbench_doc_error doc \<noteq> None then Terminal (error_result [])
      else if base \<noteq> None \<and> base \<noteq> Some (stored_workbench_rev loaded) then Terminal (superseded_result loaded prior)
      else simple_plan (with_workbench (or_else (entry_dict doc) []) loaded) False)"

definition handle_patchworkbenchdelta :: "pydict option \<Rightarrow> pyval \<Rightarrow> handler_out" where
  "handle_patchworkbenchdelta loaded delta = (case handle_patch_delta loaded delta of
     Delta_invalid e \<Rightarrow> Terminal (error_result ''workbench_delta_invalid'')
   | Delta_conflict e \<Rightarrow> Terminal (error_result ''workbench_delta_conflict'')
   | Result_invalid e \<Rightarrow> Terminal (error_result ''workbench_delta_invalid'')
   | Raised x \<Rightarrow> Raises
   | Stored spec \<Rightarrow> simple_plan spec False)"

text \<open>The dispatch of the registry over the handlers above; checkpoints and the other classes are \<open>rest\<close>.\<close>

fun handle_document ::
  "(intent \<Rightarrow> handler_out) \<Rightarrow> origin \<Rightarrow> pydict option \<Rightarrow> int \<Rightarrow> intent \<Rightarrow> handler_out" where
  "handle_document rest who loaded prior (InitProjectIntent view th) = handle_initproject view th"
| "handle_document rest who loaded prior (SetViewIntent c z p b) = handle_setview loaded c z p b"
| "handle_document rest who loaded prior (PatchLayerPresentationIntent lid vis opac) =
     handle_patchlayerpresentation who loaded lid vis opac"
| "handle_document rest who loaded prior (PatchLayerStyleIntent lid paint) = handle_patchlayerstyle loaded lid paint"
| "handle_document rest who loaded prior (RemoveLayerIntent lid) = handle_removelayer loaded lid"
| "handle_document rest who loaded prior (ReorderLayersIntent lids) = handle_reorderlayers loaded lids"
| "handle_document rest who loaded prior (SetBasemapIntent p r l v) = handle_setbasemap loaded p r l v"
| "handle_document rest who loaded prior (SetTimeIntent f) = handle_settime loaded f"
| "handle_document rest who loaded prior (SetScenarioModeIntent m) = handle_setscenariomode loaded m"
| "handle_document rest who loaded prior (RefreshDataRevisionIntent r n) = handle_refreshdatarevision loaded r n"
| "handle_document rest who loaded prior (RestoreStyleIntent snap) = handle_restorestyle who loaded snap"
| "handle_document rest who loaded prior (SetWorkbenchStateIntent doc base) = handle_setworkbenchstate loaded prior doc base"
| "handle_document rest who loaded prior (PatchWorkbenchDeltaIntent delta) = handle_patchworkbenchdelta loaded delta"
| "handle_document rest who loaded prior i = rest i"

end
