(* ===== verification/Carto_Layers.thy ===== *)
theory Carto_Layers
  imports Mapspec_Handlers Carto_Repair
begin

text \<open>
  What the cartographic review leaves of the layers of a document: every layer stays at its place with its id, a
  layer the user locked stays as it is, and the record of intent of a layer changes only by a repair that shows or
  hides it.
\<close>

section \<open>The layers of a document\<close>

definition doc_layers :: "pydict \<Rightarrow> pyval list" where
  "doc_layers d = or_else (layers_of (Some d)) []"

lemma doc_layers_get: "py_get d ''layers'' = py_get d' ''layers'' \<Longrightarrow> map_of d ''layers'' \<noteq> None \<Longrightarrow>
    map_of d' ''layers'' \<noteq> None \<Longrightarrow> doc_layers d = doc_layers d'"
  by (auto simp: doc_layers_def layers_of_def copy_of_def get_default_def py_get_def simp del: map_of_eq_Some_iff)

lemma doc_layers_update [simp]: "doc_layers (AList.update ''layers'' (PList xs) d) = xs"
  by (simp add: doc_layers_def layers_of_def copy_of_def get_default_def dict_update_lookup)

lemma doc_layers_other: "k \<noteq> ''layers'' \<Longrightarrow> doc_layers (AList.update k v d) = doc_layers d"
  by (simp add: doc_layers_def layers_of_def copy_of_def get_default_def dict_update_lookup)

lemma doc_layers_strip: "doc_layers (strip_transient_state d) = doc_layers d"
proof -
  have "map_of (filter (\<lambda>kv. fst kv \<notin> set TRANSIENT_INTERACTION_KEYS) d) ''layers'' = map_of d ''layers''"
    by (induction d) (auto simp: TRANSIENT_INTERACTION_KEYS_def)
  then show ?thesis by (simp add: doc_layers_def layers_of_def copy_of_def get_default_def strip_transient_state_def)
qed

section \<open>One repair\<close>

lemma key_of_str [simp]: "key_of (PStr s) = PStr s"
  by (simp add: key_of_def)

lemma key_of_is_str: "key_of v = PStr s \<longleftrightarrow> v = PStr s"
  by (auto simp: key_of_def split: pyval.splits option.splits)

lemma on_last_layers:
  "on_last p f vs = Some ws \<Longrightarrow>
   list_all2 (\<lambda>v w. w = v \<or> (\<exists>l l'. v = PDict l \<and> p v \<and> f l = Some l' \<and> w = PDict l')) vs ws"
proof (induction vs arbitrary: ws)
  case (Cons v vs)
  show ?case
  proof (cases "list_ex p vs \<or> \<not> p v")
    case True
    with Cons.prems obtain us where us: "on_last p f vs = Some us" "ws = v # us" by auto
    from Cons.IH [OF us(1)] show ?thesis by (simp add: us(2))
  next
    case False
    with Cons.prems show ?thesis by (auto simp: list_all2_refl split: pyval.splits)
  qed
qed simp

text \<open>How a repair may change an entry of the list of layers.\<close>

definition repaired :: "pydict \<Rightarrow> pyval \<Rightarrow> pyval \<Rightarrow> bool" where
  "repaired r v w = (w = v \<or> (\<exists>l l'. v = PDict l \<and> w = PDict l' \<and> bears_id (py_get r ''layer_id'') v \<and>
     py_get l' ''id'' = py_get l ''id'' \<and>
     (py_get l' ''cartographic_intent'' = py_get l ''cartographic_intent'' \<or>
      py_get r ''operation'' = PStr ''set_layer_visibility'' \<and> l' = show_layer (py_truthy (py_get r ''visible'')) l)))"

lemma repaired_refl [simp]: "repaired r v v"
  by (simp add: repaired_def)

lemma py_get_update: "py_get (AList.update a x m) b = (if b = a then x else py_get m b)"
  by (simp add: py_get_def dict_update_lookup)

lemma doc_layers_list: "py_get spec ''layers'' = PList vs \<Longrightarrow> doc_layers spec = vs"
  by (auto simp: doc_layers_def layers_of_def copy_of_def get_default_def py_get_def or_else_def iter_values_def
      split: option.splits)

lemma on_layer_layers:
  assumes "on_layer (py_get r ''layer_id'') f spec = Some spec'"
    and "\<And>l l'. f l = Some l' \<Longrightarrow> py_get l' ''id'' = py_get l ''id'' \<and>
      (py_get l' ''cartographic_intent'' = py_get l ''cartographic_intent'' \<or>
       py_get r ''operation'' = PStr ''set_layer_visibility'' \<and> l' = show_layer (py_truthy (py_get r ''visible'')) l)"
  shows "list_all2 (repaired r) (doc_layers spec) (doc_layers spec')"
proof (cases "py_get spec ''layers''")
  case (PList vs)
  with assms(1) obtain ws where ws: "on_last (bears_id (py_get r ''layer_id'')) f vs = Some ws"
    "spec' = AList.update ''layers'' (PList ws) spec" by (auto simp: on_layer_def split: if_splits)
  have "list_all2 (repaired r) vs ws"
    using on_last_layers [OF ws(1)] by (rule list_all2_mono) (use assms(2) in \<open>auto simp: repaired_def\<close>)
  then show ?thesis by (simp add: ws(2) doc_layers_list [OF PList])
qed (use assms(1) in \<open>auto simp: on_layer_def list_all2_refl split: if_splits\<close>)

lemma show_layer_id: "py_get (show_layer b l) ''id'' = py_get l ''id''"
  by (auto simp: show_layer_def Let_def py_get_update split: pyval.splits)

lemma set_paint_keeps: "k \<noteq> ''paint'' \<Longrightarrow> py_get (set_paint p v l) k = py_get l k"
  by (auto simp: set_paint_def Let_def py_get_update split: pyval.splits)

lemma palette_keeps:
  "apply_palette_change cs l = Some l' \<Longrightarrow> k \<notin> {''paint'', ''legend_spec''} \<Longrightarrow> py_get l' k = py_get l k"
  by (auto simp: apply_palette_change_def Let_def py_get_update split: pyval.splits list.splits)

lemma floating_layers: "resolve_floating ps spec = Some spec' \<Longrightarrow> doc_layers spec' = doc_layers spec"
  by (auto simp: resolve_floating_def doc_layers_other split: pyval.splits option.splits prod.splits)

lemma apply_repair_layers:
  assumes "apply_repair r spec = Some spec'"
  shows "list_all2 (repaired r) (doc_layers spec) (doc_layers spec')"
proof -
  let ?op = "py_get r ''operation''" and ?lid = "py_get r ''layer_id''"
  consider "doc_layers spec' = doc_layers spec"
    | "?op = PStr ''change_palette''" "on_layer ?lid (\<lambda>l. case py_get r ''value'' of
        PDict m \<Rightarrow> apply_palette_change (py_get m ''colors'') l | _ \<Rightarrow> Some l) spec = Some spec'"
    | "?op = PStr ''set_layer_visibility''" "on_layer ?lid (\<lambda>l. Some (show_layer (py_truthy (py_get r ''visible'')) l)) spec = Some spec'"
    | "on_layer ?lid (\<lambda>l. Some (case py_get r ''property'' of PStr prop \<Rightarrow> set_paint prop (py_get r ''value'') l | _ \<Rightarrow> l)) spec = Some spec'"
    using assms floating_layers by (fastforce simp: apply_repair_def Let_def set_legend_visible_def doc_layers_other split: if_splits)
  then show ?thesis
  proof cases
    case 1
    then show ?thesis by (simp add: list_all2_refl)
  next
    case 2
    show ?thesis by (rule on_layer_layers [OF 2(2)]) (use palette_keeps in \<open>auto split: pyval.splits\<close>)
  next
    case 3
    show ?thesis by (rule on_layer_layers [OF 3(2)]) (use 3(1) show_layer_id in auto)
  next
    case 4
    show ?thesis by (rule on_layer_layers [OF 4]) (auto simp: set_paint_keeps split: pyval.splits)
  qed
qed

section \<open>The whole review\<close>

lemma plan_repairs_safe: "r \<in> set (plan_repairs fp seen cs) \<Longrightarrow> \<exists>c \<in> set cs. safe_fix c = Some r"
  by (induction fp seen cs rule: plan_repairs.induct) (auto simp: Let_def split: option.splits if_splits)

lemma repair_each_keeps:
  "(\<And>r x y. r \<in> set rs \<Longrightarrow> P x \<Longrightarrow> apply_repair r x = Some y \<Longrightarrow> P y) \<Longrightarrow> P s \<Longrightarrow> repair_each rs s = Some t \<Longrightarrow> P t"
  by (induction rs arbitrary: s) (auto split: option.splits)

lemma judge_ends: "judge q locks ops spec failures tried = Inl (Some r) \<Longrightarrow> lr_spec r = spec"
  by (auto simp: judge_def loop_end_def Let_def split: option.splits if_splits)

lemma judge_repairs: "judge q locks ops spec failures tried = Inr (failed, repairs) \<Longrightarrow>
    \<exists>review. qv_evaluate q spec = Some review \<and> repairs = repairs_left q locks ops review"
  by (auto simp: judge_def Let_def split: option.splits if_splits)

lemma review_loop_keeps:
  assumes "\<And>x review y. P x \<Longrightarrow> qv_evaluate q x = Some review \<Longrightarrow> repair_each (repairs_left q locks ops review) x = Some y \<Longrightarrow> P y"
  shows "review_loop q locks ops n spec failures patches tried = Some r \<Longrightarrow> P spec \<Longrightarrow> P (lr_spec r)"
proof (induction n arbitrary: spec failures patches tried)
  case 0
  then show ?case by (auto simp: loop_end_def dest: judge_ends split: sum.splits)
next
  case (Suc n)
  show ?case
  proof (cases "judge q locks ops spec failures tried")
    case (Inl x)
    with Suc.prems judge_ends [of q locks ops spec failures tried r] show ?thesis by simp
  next
    case (Inr x)
    obtain failed repairs where x: "x = (failed, repairs)" by fastforce
    from judge_repairs [OF Inr [unfolded x]] obtain review where
      review: "qv_evaluate q spec = Some review" "repairs = repairs_left q locks ops review" by blast
    from Suc.prems(1) consider "lr_spec r = spec"
      | spec' fs ps ts where "repair_each repairs spec = Some spec'" "review_loop q locks ops n spec' fs ps ts = Some r"
      by (auto simp: Inr x loop_end_def Let_def apply_repairs_def split: option.splits if_splits)
    then show ?thesis
    proof cases
      case 1
      with Suc.prems(2) show ?thesis by simp
    next
      case 2
      from Suc.IH [OF 2(2) assms [OF Suc.prems(2) review(1) 2(1) [unfolded review(2)]]] show ?thesis .
    qed
  qed
qed

text \<open>A rollback is reviewed without a round of repair: what comes out is what went in.\<close>

lemma review_only: "review_and_repair q 0 ops spec = Some r \<Longrightarrow> lr_spec r = spec"
  by (auto simp: review_and_repair_def loop_end_def dest: judge_ends split: option.splits if_splits sum.splits)

lemma list_all2_in_set1: "list_all2 P xs ys \<Longrightarrow> x \<in> set xs \<Longrightarrow> \<exists>y \<in> set ys. P x y"
  by (induction rule: list_all2_induct) auto

lemma list_all2_in_set2: "list_all2 P xs ys \<Longrightarrow> y \<in> set ys \<Longrightarrow> \<exists>x \<in> set xs. P x y"
  by (induction rule: list_all2_induct) auto

lemma kept_by_repair:
  assumes "PDict l \<in> set (doc_layers x)" and "apply_repair r x = Some y"
  shows "\<exists>l'. PDict l' \<in> set (doc_layers y) \<and> repaired r (PDict l) (PDict l')"
proof -
  from apply_repair_layers [OF assms(2)] assms(1) obtain w where "w \<in> set (doc_layers y)" "repaired r (PDict l) w"
    by (metis list_all2_in_set1)
  then show ?thesis by (auto simp: repaired_def)
qed

lemma before_repair:
  assumes "PDict l' \<in> set (doc_layers y)" and "apply_repair r x = Some y"
  shows "\<exists>l. PDict l \<in> set (doc_layers x) \<and> repaired r (PDict l) (PDict l')"
proof -
  from apply_repair_layers [OF assms(2)] assms(1) obtain v where "v \<in> set (doc_layers x)" "repaired r v (PDict l')"
    by (metis list_all2_in_set2)
  then show ?thesis by (auto simp: repaired_def)
qed

lemma review_keeps_locked:
  assumes "review_and_repair q n ops d = Some r" and "PDict l \<in> set (doc_layers d)"
    and "py_get l ''id'' = PStr lid" and "lid \<in> set (locked_layer_ids_of (PDict d))"
  shows "PDict l \<in> set (doc_layers (lr_spec r))"
proof -
  let ?locks = "locked_layer_ids_of (PDict d)"
  obtain m where run: "review_loop q ?locks ops m d [] [] [] = Some r"
    using assms(1) by (auto simp: review_and_repair_def split: option.splits if_splits)
  have "PDict l \<in> set (doc_layers y)"
    if x: "PDict l \<in> set (doc_layers x)" and e: "repair_each (repairs_left q ?locks ops review) x = Some y" for x y review
  proof (rule repair_each_keeps [where P = "\<lambda>x. PDict l \<in> set (doc_layers x)", OF _ x e])
    fix rep u w
    assume rep: "rep \<in> set (repairs_left q ?locks ops review)" and u: "PDict l \<in> set (doc_layers u)"
      and ap: "apply_repair rep u = Some w"
    from rep have "\<not> lock_refuses ?locks rep" by (simp add: repairs_left_def)
    moreover have "lock_refuses ?locks rep" if "bears_id (py_get rep ''layer_id'') (PDict l)"
    proof -
      from that assms(3) have "py_get rep ''layer_id'' = PStr lid" "lid \<noteq> []"
        using key_of_is_str [of "py_get rep ''layer_id''" lid] by (auto simp: bears_id_def)
      with assms(4) show ?thesis by (auto simp: lock_refuses_def is_entity_locked_def lock_matches_def list_ex_iff)
    qed
    ultimately show "PDict l \<in> set (doc_layers w)"
      using kept_by_repair [OF u ap] by (auto simp: repaired_def)
  qed
  then show ?thesis
    by (intro review_loop_keeps [where P = "\<lambda>x. PDict l \<in> set (doc_layers x)", OF _ run assms(2)]) blast
qed

text \<open>
  Of all rules of the review only \<open>RESULT_VISIBILITY\<close> asks to show or hide a layer.
\<close>

definition visibility_by_rule :: "quality_rules \<Rightarrow> bool" where
  "visibility_by_rule q \<longleftrightarrow> (\<forall>x review c r. qv_evaluate q x = Some review \<longrightarrow> c \<in> set (review_checks review) \<longrightarrow>
     safe_fix c = Some r \<longrightarrow> py_get r ''operation'' = PStr ''set_layer_visibility'' \<longrightarrow>
     (\<exists>l. PDict l \<in> set (doc_layers x) \<and> visibility_fix l = Some r))"

lemma visibility_fix_shows:
  "visibility_fix l = Some r \<Longrightarrow> py_get r ''layer_id'' = py_get l ''id'' \<and> py_get r ''visible'' = PBool True \<and>
   py_get (dict_if (py_get l ''cartographic_intent'')) ''expected_visible'' = PBool True"
  by (auto simp: visibility_fix_def Let_def py_get_def split: if_splits)

lemma repairs_left_planned:
  "r \<in> set (repairs_left q locks ops review) \<Longrightarrow> \<exists>c \<in> set (review_checks review). safe_fix c = Some r"
  by (auto simp: repairs_left_def dest: plan_repairs_safe)

end
