(* ===== verification/Mapspec_Session.thy ===== *)
theory Mapspec_Session
  imports Mapspec_Handlers Interference
begin

text \<open>
  The state of one session that the map document engine reads and writes: the shared state
  (document, runtime layers, revision, idempotency index), the document's copy on disk with the revision beside
  it, and the checkpoints. Here are the operations of \<open>app/services/mapspec/store.py\<close> (\<open>get_mapspec\<close>,
  \<open>save_mapspec\<close>, \<open>discard_mapspec\<close>), the commit of \<open>session_data.py\<close> and \<open>snapshot\<close>, \<open>rollback\<close> and
  \<open>discard_checkpoint\<close> of \<open>checkpoint.py\<close>. What disk and cache do in a call, and whether the payloads behind
  the data references of a checkpoint can be restored, is decided outside (\<open>save_fate\<close> and the arguments).
\<close>

section \<open>State\<close>

record checkpoint =
  ck_spec :: pydict
  ck_hash :: string
  ck_self_contained :: bool

record provenance_entry =
  pv_origin :: string
  pv_kind :: string
  pv_target :: "string option"
  pv_revision :: int
  pv_visible :: "bool option"
  pv_shown :: "string list"
  pv_hidden :: "string list"

text \<open>
  \<open>se_spec\<close> is \<open>None\<close> when the shared state has no document field, \<open>Some None\<close> when the field is null. The
  checkpoint directories are a dictionary in the order they were made; the manifest maps content hashes to ids.
\<close>

record session =
  se_deleted :: bool
  se_spec :: "pydict option option"
  se_layers :: "pyval list"
  se_revision :: int
  se_dedup :: dedup_index
  se_provenance :: "provenance_entry list"
  se_disk :: "pydict option"
  se_disk_rev :: "int option"
  se_checkpoints :: "(string \<times> checkpoint) list"
  se_manifest :: "(string \<times> string) list"

definition new_map_session :: session where
  "new_map_session = \<lparr>se_deleted = False, se_spec = None, se_layers = [], se_revision = 0, se_dedup = [],
     se_provenance = [], se_disk = None, se_disk_rev = None, se_checkpoints = [], se_manifest = []\<rparr>"

section \<open>Reading\<close>

text \<open>\<open>get_mapspec\<close>: a document that survived only on disk comes back together with its revision.\<close>

definition get_mapspec :: "session \<Rightarrow> pydict option \<times> session" where
  "get_mapspec s = (case se_spec s of
     Some x \<Rightarrow> (x, s)
   | None \<Rightarrow> (case se_disk s of
       None \<Rightarrow> (None, s)
     | Some d \<Rightarrow> (Some d, s\<lparr>se_spec := Some (Some d),
         se_revision := (case se_disk_rev s of None \<Rightarrow> se_revision s | Some r \<Rightarrow> max (se_revision s) r)\<rparr>)))"

section \<open>The commit of the shared state\<close>

definition commit_layer_op :: "layer_op option \<Rightarrow> pyval list \<Rightarrow> pyval list" where
  "commit_layer_op x layers = (case x of
     None \<Rightarrow> layers
   | Some (Replace_op new) \<Rightarrow> new
   | Some (Remove_op target) \<Rightarrow>
       filter (\<lambda>l. case entry_dict l of None \<Rightarrow> True
         | Some e \<Rightarrow> \<not> layer_matches_removal_family (py_get e ''id'') target) layers
   | Some (Upsert_op lid payload) \<Rightarrow>
       (let put = (\<lambda>d. fold (\<lambda>kv. AList.update (fst kv) (snd kv)) payload d);
            hit = (\<lambda>l. case entry_dict l of None \<Rightarrow> False | Some e \<Rightarrow> py_get e ''id'' = lid)
        in case List.extract hit layers of
             None \<Rightarrow> layers @ [PDict (put [(''id'', lid)])]
           | Some (before, l, after) \<Rightarrow> before @ [PDict (put (or_else (entry_dict l) []))] @ after))"

definition commit_mapspec_state :: "pydict \<Rightarrow> int \<Rightarrow> layer_op option \<Rightarrow> dedup_index option \<Rightarrow> session \<Rightarrow> session" where
  "commit_mapspec_state spec revision lop dedup s =
     s\<lparr>se_layers := commit_layer_op lop (se_layers s), se_spec := Some (Some spec), se_revision := revision,
       se_dedup := or_else dedup (se_dedup s)\<rparr>"

section \<open>Saving\<close>

text \<open>
  What happens to one save. The disk writes may stop after the document or after its revision; the commit of
  the shared state may be rejected, or take effect and still raise; then the disk is put back, unless that
  fails too.
\<close>

datatype save_fate = Save_done | Disk_stops nat | Cache_rejected bool | Cache_unacked bool

definition persist_disk :: "nat \<Rightarrow> pydict \<Rightarrow> int \<Rightarrow> session \<Rightarrow> session" where
  "persist_disk stage spec revision s =
     (if stage = 0 then s
      else if stage = 1 then s\<lparr>se_disk := Some spec\<rparr>
      else s\<lparr>se_disk := Some spec, se_disk_rev := Some revision\<rparr>)"

definition restore_disk :: "pydict option \<Rightarrow> int option \<Rightarrow> session \<Rightarrow> session" where
  "restore_disk previous old_rev s = (case previous of
     None \<Rightarrow> s\<lparr>se_disk := None, se_disk_rev := None\<rparr>
   | Some d \<Rightarrow> s\<lparr>se_disk := Some d, se_disk_rev := old_rev\<rparr>)"

text \<open>
  \<open>cached\<close> is the document this process last saved, if it still remembers one. The flag of the result says
  that the call returned.
\<close>

definition save_mapspec :: "save_fate \<Rightarrow> pydict option \<Rightarrow> pydict \<Rightarrow> int \<Rightarrow> layer_op option \<Rightarrow> dedup_index option \<Rightarrow>
    session \<Rightarrow> session \<times> bool" where
  "save_mapspec fate cached spec revision lop dedup s =
     (let previous = (case cached of None \<Rightarrow> se_disk s | Some c \<Rightarrow> Some c);
          written = persist_disk 2 spec revision s;
          undone = (\<lambda>ok t. if ok then restore_disk previous (se_disk_rev s) t else t)
      in case fate of
           Save_done \<Rightarrow> (commit_mapspec_state spec revision lop dedup written, True)
         | Disk_stops stage \<Rightarrow> (persist_disk stage spec revision s, False)
         | Cache_rejected ok \<Rightarrow> (undone ok written, False)
         | Cache_unacked ok \<Rightarrow> (undone ok (commit_mapspec_state spec revision lop dedup written), False))"

text \<open>\<open>discard_mapspec\<close> in up to three writes: the file, the document field, the revision.\<close>

definition discard_mapspec :: "nat \<Rightarrow> session \<Rightarrow> session" where
  "discard_mapspec stage s =
     (let s1 = (if 1 \<le> stage then s\<lparr>se_disk := None\<rparr> else s);
          s2 = (if 2 \<le> stage then s1\<lparr>se_spec := Some None\<rparr> else s1)
      in if 3 \<le> stage then s2\<lparr>se_revision := 0\<rparr> else s2)"

section \<open>Checkpoints\<close>

definition is_id_char :: "char \<Rightarrow> bool" where
  "is_id_char c = (let n = char_code c
     in is_digit c \<or> (65 \<le> n \<and> n \<le> 90) \<or> (97 \<le> n \<and> n \<le> 122) \<or> n = 95 \<or> n = 46 \<or> n = 45)"

text \<open>\<open>re.match\<close> with \<open>$\<close>: one final newline is let through.\<close>

definition valid_checkpoint_id :: "string \<Rightarrow> bool" where
  "valid_checkpoint_id cid =
     (let body = (if cid \<noteq> [] \<and> last cid = CHR 0x0A then butlast cid else cid)
      in body \<noteq> [] \<and> list_all is_id_char body \<and> cid \<noteq> ''.'' \<and> cid \<noteq> ''..'')"

definition is_auto_id :: "string \<Rightarrow> bool" where
  "is_auto_id cid = (prefix ''ckpt_'' cid \<and> drop 5 cid \<noteq> [] \<and> list_all is_digit (drop 5 cid))"

definition MAPSPEC_CKPT_RETENTION :: nat where "MAPSPEC_CKPT_RETENTION = 20"

text \<open>The automatic checkpoints beyond the newest twenty go, with their entries of the manifest.\<close>

definition select_prune_targets :: "(string \<times> checkpoint) list \<Rightarrow> string list" where
  "select_prune_targets dirs = (let auto = sort (filter is_auto_id (List.map fst dirs))
     in take (length auto - MAPSPEC_CKPT_RETENTION) auto)"

definition prune_checkpoint_dirs :: "session \<Rightarrow> session" where
  "prune_checkpoint_dirs s = (let gone = select_prune_targets (se_checkpoints s)
     in s\<lparr>se_checkpoints := filter (\<lambda>kv. fst kv \<notin> set gone) (se_checkpoints s),
          se_manifest := filter (\<lambda>kv. snd kv \<notin> set gone) (se_manifest s)\<rparr>)"

text \<open>
  \<open>snapshot\<close>: \<open>None\<close> raises (an invalid id). \<open>fresh\<close> is the id minted from the clock, \<open>refs\<close> the references
  materialised for a checkpoint with a given id. Equal content under a minted id is not written again.
\<close>

definition write_checkpoint_dir :: "string \<Rightarrow> checkpoint \<Rightarrow> session \<Rightarrow> session" where
  "write_checkpoint_dir cid ck s =
     (case map_of (se_checkpoints s) cid of
        Some old \<Rightarrow>
          if ck_hash old = ck_hash ck then s\<lparr>se_manifest := AList.update (ck_hash ck) cid (se_manifest s)\<rparr>
          else prune_checkpoint_dirs (s\<lparr>se_checkpoints := AList.update cid ck (se_checkpoints s),
                 se_manifest := AList.update (ck_hash ck) cid (se_manifest s)\<rparr>)
      | None \<Rightarrow> prune_checkpoint_dirs (s\<lparr>se_checkpoints := AList.update cid ck (se_checkpoints s),
                 se_manifest := AList.update (ck_hash ck) cid (se_manifest s)\<rparr>))"

definition snapshot_spec :: "(pydict \<Rightarrow> (string \<times> string) list \<Rightarrow> string) \<Rightarrow> (string \<times> string) list \<Rightarrow> string \<Rightarrow>
    pydict \<Rightarrow> string option \<Rightarrow> session \<Rightarrow> (session \<times> string) option" where
  "snapshot_spec digest refs fresh spec cid s =
     (let name = (if truthy cid then or_else cid [] else fresh);
          h = digest spec (if cid = None then [] else refs);
          ck = \<lparr>ck_spec = spec, ck_hash = h, ck_self_contained = (cid \<noteq> None)\<rparr>
      in if \<not> valid_checkpoint_id name then None
         else case (if cid = None then map_of (se_manifest s) h else None) of
           Some known \<Rightarrow>
             if map_of (se_checkpoints s) known \<noteq> None then Some (s, known)
             else Some (write_checkpoint_dir name ck s, name)
         | None \<Rightarrow> Some (write_checkpoint_dir name ck s, name))"

text \<open>\<open>rollback\<close>: an id that is no name raises (the outer \<open>None\<close>); otherwise the document, if there is one.\<close>

definition rollback_spec :: "(checkpoint \<Rightarrow> bool) \<Rightarrow> string \<Rightarrow> session \<Rightarrow> pydict option option" where
  "rollback_spec restorable cid s =
     (if \<not> valid_checkpoint_id cid then None
      else Some (case map_of (se_checkpoints s) cid of None \<Rightarrow> None
        | Some ck \<Rightarrow> if restorable ck then Some (ck_spec ck) else None))"

definition discard_checkpoint :: "string \<Rightarrow> session \<Rightarrow> session" where
  "discard_checkpoint cid s =
     (if cid = [] then s
      else prune_checkpoint_dirs (s\<lparr>se_checkpoints := AList.delete cid (se_checkpoints s),
        se_manifest := filter (\<lambda>kv. snd kv \<noteq> cid) (se_manifest s)\<rparr>))"

section \<open>Facts\<close>

lemma get_mapspec_keeps:
  "se_deleted (snd (get_mapspec s)) = se_deleted s"
  "se_layers (snd (get_mapspec s)) = se_layers s"
  "se_dedup (snd (get_mapspec s)) = se_dedup s"
  "se_provenance (snd (get_mapspec s)) = se_provenance s"
  "se_checkpoints (snd (get_mapspec s)) = se_checkpoints s"
  "se_disk (snd (get_mapspec s)) = se_disk s"
  by (simp_all add: get_mapspec_def split: option.splits)

lemma get_mapspec_revision: "se_revision s \<le> se_revision (snd (get_mapspec s))"
  by (simp add: get_mapspec_def split: option.splits)

lemma get_mapspec_found: "se_spec s = Some (Some d) \<Longrightarrow> get_mapspec s = (Some d, s)"
  by (simp add: get_mapspec_def)

lemma get_mapspec_spec: "fst (get_mapspec s) = Some d \<Longrightarrow> se_spec (snd (get_mapspec s)) = Some (Some d)"
  by (simp add: get_mapspec_def split: option.splits)

lemma prune_keeps_named: "\<not> is_auto_id cid \<Longrightarrow> map_of (se_checkpoints (prune_checkpoint_dirs s)) cid = map_of (se_checkpoints s) cid"
proof -
  assume named: "\<not> is_auto_id cid"
  have "cid \<notin> set (select_prune_targets (se_checkpoints s))"
    using named by (auto simp: select_prune_targets_def Let_def dest: in_set_takeD)
  moreover have "map_of (filter (\<lambda>kv. fst kv \<notin> A) xs) cid = (if cid \<in> A then None else map_of xs cid)"
    for A and xs :: "(string \<times> checkpoint) list"
    by (induction xs) auto
  ultimately show ?thesis by (simp add: prune_checkpoint_dirs_def Let_def)
qed

end
