(* ===== verification/Mapspec_Engine.thy ===== *)
theory Mapspec_Engine
  imports Mapspec_Session Carto_Repair
begin

text \<open>
  The transaction of the map document engine: \<open>apply_mutation\<close> and \<open>_rollback_to_snapshot\<close> of
  \<open>app/services/mapspec/lifecycle_engine.py\<close>, with the handlers of checkpoints. A call is a program over the
  session: other workers commit before the lock is taken and, when the lock is lost, once more before the
  commit. What the call meets outside (the lock, disk and cache, the clock, the other handlers, the spatial
  guard, the rules of the cartographic review and the validation) is the argument \<open>engine_ctx\<close>, by the number of the call.
\<close>

section \<open>What is outside\<close>

datatype lock_fate = Lock_held | Lock_degraded | Lock_lost_early | Lock_lost_late

datatype engine_error = Lock_degraded_error | Lock_lost_error

text \<open>
  \<open>ec_guard\<close> is the spatial guard: \<open>None\<close> when it fails, \<open>Some None\<close> when it blocks, and the intent, possibly
  corrected, otherwise. \<open>ec_review\<close> are the rules the cartographic review judges by
  (\<open>Carto_Repair\<close>). \<open>ec_blocking\<close> are the blocking codes of the validation. \<open>ec_discard\<close> is the number of
  writes of a discard that are done, four when all are.
\<close>

record engine_ctx =
  ec_env :: "nat \<Rightarrow> session \<Rightarrow> session"
  ec_now :: "nat \<Rightarrow> time"
  ec_lock :: "nat \<Rightarrow> lock_fate"
  ec_save :: "nat \<Rightarrow> save_fate"
  ec_resave :: "nat \<Rightarrow> save_fate"
  ec_discard :: "nat \<Rightarrow> nat"
  ec_strip :: "nat \<Rightarrow> bool"
  ec_drop :: "nat \<Rightarrow> bool"
  ec_cached :: "nat \<Rightarrow> pydict option"
  ec_recached :: "nat \<Rightarrow> pydict option"
  ec_fresh_id :: "nat \<Rightarrow> string"
  ec_snapshot_ok :: "nat \<Rightarrow> bool"
  ec_refs :: "nat \<Rightarrow> pydict \<Rightarrow> (string \<times> string) list"
  ec_restorable :: "nat \<Rightarrow> checkpoint \<Rightarrow> bool"
  ec_digest :: "pydict \<Rightarrow> (string \<times> string) list \<Rightarrow> string"
  ec_guard :: "intent \<Rightarrow> intent option option"
  ec_descriptor :: "string \<Rightarrow> pydict \<Rightarrow> descriptor option"
  ec_other :: "nat \<Rightarrow> origin \<Rightarrow> pydict option \<Rightarrow> int \<Rightarrow> string \<Rightarrow> pydict \<Rightarrow> handler_out"
  ec_review :: quality_rules
  ec_blocking :: "pydict \<Rightarrow> string list"
  ec_mint :: "nat \<Rightarrow> string"
  ec_recorded :: "nat \<Rightarrow> bool"

type_synonym commit_check = "session \<Rightarrow> intent \<Rightarrow> origin \<Rightarrow> pydict option \<Rightarrow> mutation_result option"
type_synonym 'a session_prog = "(session, engine_error, 'a) prog"

section \<open>Handlers of checkpoints\<close>

definition take_snapshot :: "engine_ctx \<Rightarrow> nat \<Rightarrow> pydict \<Rightarrow> string option \<Rightarrow> session \<Rightarrow> (session \<times> string) option" where
  "take_snapshot ec k spec cid s =
     (if ec_snapshot_ok ec k then snapshot_spec (ec_digest ec) (ec_refs ec k spec) (ec_fresh_id ec k) spec cid s else None)"

definition handle_checkpoint :: "engine_ctx \<Rightarrow> nat \<Rightarrow> pydict option \<Rightarrow> string option \<Rightarrow> session \<Rightarrow> handler_out \<times> session" where
  "handle_checkpoint ec k loaded cid s = (case take_snapshot ec k (copy_of loaded) cid s of
     None \<Rightarrow> (Raises, s)
   | Some (s', name) \<Rightarrow> (Plan \<lparr>pl_spec = copy_of loaded, pl_auto_checkpoint = False, pl_layer_op = None,
       pl_rollback = False, pl_checkpoint = Some name\<rparr>, s'))"

definition handle_rollback :: "engine_ctx \<Rightarrow> nat \<Rightarrow> string \<Rightarrow> session \<Rightarrow> handler_out" where
  "handle_rollback ec k cid s = (case rollback_spec (ec_restorable ec k) cid s of
     None \<Rightarrow> Raises
   | Some None \<Rightarrow> Terminal (error_result [])
   | Some (Some spec) \<Rightarrow> Plan \<lparr>pl_spec = spec, pl_auto_checkpoint = False, pl_layer_op = None, pl_rollback = True,
       pl_checkpoint = None\<rparr>)"

text \<open>Only the two handlers above mark a rollback or make a checkpoint.\<close>

definition plain_out :: "handler_out \<Rightarrow> handler_out" where
  "plain_out out = (case out of Plan p \<Rightarrow> Plan (p\<lparr>pl_rollback := False, pl_checkpoint := None\<rparr>) | _ \<Rightarrow> out)"

definition dispatch :: "engine_ctx \<Rightarrow> nat \<Rightarrow> origin \<Rightarrow> pydict option \<Rightarrow> int \<Rightarrow> intent \<Rightarrow> session \<Rightarrow> handler_out \<times> session" where
  "dispatch ec k who loaded prior i s = (case i of
     CheckpointIntent cid \<Rightarrow> handle_checkpoint ec k loaded cid s
   | RollbackIntent cid \<Rightarrow> (handle_rollback ec k cid s, s)
   | OtherIntent kind args \<Rightarrow> (plain_out (ec_other ec k who loaded prior kind args), s)
   | _ \<Rightarrow> (handle_document (\<lambda>j. Raises) who loaded prior i, s))"

section \<open>From the load to the candidate\<close>

record candidate =
  cd_plan :: "plan option"
  cd_prior :: int
  cd_fresh :: bool
  cd_old :: "pydict option"
  cd_old_layers :: "pyval list"
  cd_index :: dedup_index
  cd_pinned :: bool

definition is_init :: "intent \<Rightarrow> bool" where
  "is_init i = (case i of InitProjectIntent v t \<Rightarrow> True | _ \<Rightarrow> False)"

definition is_rollback_intent :: "intent \<Rightarrow> bool" where
  "is_rollback_intent i = (case i of RollbackIntent c \<Rightarrow> True | _ \<Rightarrow> False)"

text \<open>A session without a document gets the skeleton, unless the intent makes or restores one.\<close>

definition needs_skeleton :: "pydict option \<Rightarrow> intent \<Rightarrow> bool" where
  "needs_skeleton loaded i = (\<not> truthy loaded \<and> \<not> is_init i \<and> \<not> is_rollback_intent i)"

definition legend_hidden :: "pydict \<Rightarrow> bool" where
  "legend_hidden spec =
     (py_get (dict_if (py_get (dict_if (py_get spec ''layout'')) ''legend'')) ''visible'' = PBool False)"

text \<open>A rollback is not repaired; a legend that the document hides is not shown again.\<close>

definition reviewed :: "engine_ctx \<Rightarrow> plan \<Rightarrow> pydict" where
  "reviewed ec p = (let spec = strip_transient_state (pl_spec p)
     in or_else (map_option lr_spec (review_and_repair (ec_review ec) (if pl_rollback p then 0 else 2)
          (if legend_hidden spec then [''set_map_legend_visibility''] else []) spec)) spec)"

definition new_blocking :: "engine_ctx \<Rightarrow> pydict option \<Rightarrow> pydict \<Rightarrow> string list" where
  "new_blocking ec prior_spec spec =
     filter (\<lambda>c. \<not> (truthy prior_spec \<and> c \<in> set (ec_blocking ec (or_else prior_spec [])))) (ec_blocking ec spec)"

text \<open>The deferred runtime write of an upsert uses the reviewed layer.\<close>

definition final_layer_op :: "pydict \<Rightarrow> layer_op option \<Rightarrow> layer_op option" where
  "final_layer_op spec lop = (case lop of
     Some (Upsert_op lid payload) \<Rightarrow>
       (case List.find (\<lambda>l. case entry_dict l of None \<Rightarrow> False | Some e \<Rightarrow> py_get e ''id'' = lid)
               (or_else (iter_values (get_default spec ''layers'' (PList []))) []) of
          None \<Rightarrow> lop
        | Some l \<Rightarrow> Some (Upsert_op lid (or_else (entry_dict l) [])))
   | _ \<Rightarrow> lop)"

definition review_plan :: "engine_ctx \<Rightarrow> plan \<Rightarrow> plan" where
  "review_plan ec p = (let spec = reviewed ec p
     in p\<lparr>pl_spec := spec, pl_layer_op := final_layer_op spec (pl_layer_op p)\<rparr>)"

text \<open>
  The part of the transaction after the revision check, up to the candidate or a final result. \<open>s0\<close> is the
  state read under the lock, \<open>s\<close> the same with a document brought back from disk.
\<close>

definition build_candidate :: "engine_ctx \<Rightarrow> nat \<Rightarrow> intent \<Rightarrow> origin \<Rightarrow> commit_check \<Rightarrow> pydict option \<Rightarrow> session \<Rightarrow>
    session \<Rightarrow> session \<times> (mutation_result + candidate)" where
  "build_candidate ec k i who check loaded s0 s =
     (case guard_intent_locks (ec_descriptor ec) loaded i who of Some r \<Rightarrow> (s, Inl r) | None \<Rightarrow>
      case check s i who loaded of Some r \<Rightarrow> (s, Inl r) | None \<Rightarrow>
        (let fill = needs_skeleton loaded i;
             base = (if fill then Some skeleton else loaded);
             prior_spec = (if fill then None else loaded);
             cd = \<lparr>cd_plan = None, cd_prior = se_revision s, cd_fresh = (loaded = None),
                   cd_old = (if is_init i then None else base), cd_old_layers = se_layers s0, cd_index = se_dedup s0,
                   cd_pinned = (who = By_user \<and> user_lock_pin_hit (ec_descriptor ec) prior_spec i)\<rparr>
         in if descriptor_for (ec_descriptor ec) i = None
            then (s, Inl (error_result ''UNSUPPORTED_MUTATION_INTENT''))
            else case dispatch ec k who base (se_revision s) i s of
               (Terminal r, s') \<Rightarrow> (s', Inl r)
             | (Raises, s') \<Rightarrow> (s', Inr cd)
             | (Plan p, s') \<Rightarrow>
                 if \<not> pl_rollback p \<and> new_blocking ec prior_spec (reviewed ec p) \<noteq> []
                 then (s', Inl (error_result []))
                 else (s', Inr (cd\<lparr>cd_plan := Some (review_plan ec p)\<rparr>))))"

definition duplicate_result :: "pydict option \<Rightarrow> int \<Rightarrow> string option \<Rightarrow> mutation_result" where
  "duplicate_result spec revision mid = plain_result\<lparr>rs_spec := spec, rs_revision := revision, rs_duplicate := True,
     rs_mutation_id := mid\<rparr>"

definition prepare :: "engine_ctx \<Rightarrow> nat \<Rightarrow> intent \<Rightarrow> origin \<Rightarrow> int option \<Rightarrow> commit_check \<Rightarrow> string option \<Rightarrow> session \<Rightarrow>
    session \<times> (mutation_result + candidate)" where
  "prepare ec k i who expected check mid s =
     (if se_deleted s then (s, Inl (error_result []))
      else case get_mapspec s of (loaded, s') \<Rightarrow>
        if dedup_hit (se_dedup s) mid \<noteq> None then (s', Inl (duplicate_result loaded (se_revision s') mid))
        else if who = By_user \<and> expected = None then (s, Inl (error_result []))
        else if expected \<noteq> None \<and> expected \<noteq> Some (se_revision s')
        then (s', Inl (superseded_result loaded (se_revision s')))
        else build_candidate ec k i who check loaded s s')"

section \<open>The commit\<close>

definition stamp_workbench :: "int \<Rightarrow> pydict \<Rightarrow> pydict" where
  "stamp_workbench revision spec = (case entry_dict (py_get spec ''workbench'') of
     None \<Rightarrow> spec
   | Some wb \<Rightarrow> if map_of wb ''_rev'' = Some PNone
       then AList.update ''workbench'' (PDict (AList.update ''_rev'' (PInt revision) wb)) spec else spec)"

text \<open>
  A transaction that raised: the document and the layers from before, under the next revision; without one
  the candidate is discarded. Then the idempotency entry and a checkpoint made on the way are removed.
\<close>

definition roll_back_to_snapshot :: "engine_ctx \<Rightarrow> nat \<Rightarrow> candidate \<Rightarrow> session \<Rightarrow> session \<times> bool" where
  "roll_back_to_snapshot ec k cd s =
     (case (if cd_fresh cd then None else cd_old cd) of
        Some old \<Rightarrow> save_mapspec (ec_resave ec k) (ec_recached ec k) old (cd_prior cd + 1)
                       (Some (Replace_op (cd_old_layers cd))) None s
      | None \<Rightarrow>
          (let t = discard_mapspec (ec_discard ec k) s
           in (if 4 \<le> ec_discard ec k then t\<lparr>se_layers := cd_old_layers cd\<rparr> else t, 4 \<le> ec_discard ec k)))"

definition fail_mutation :: "engine_ctx \<Rightarrow> nat \<Rightarrow> string option \<Rightarrow> candidate \<Rightarrow> string option \<Rightarrow> session \<Rightarrow>
    session \<times> mutation_result" where
  "fail_mutation ec k mid cd cid s = (case roll_back_to_snapshot ec k cd s of (s1, ok) \<Rightarrow>
     (let s2 = (if ec_strip ec k then s1\<lparr>se_dedup := dedup_strip (se_dedup s1) mid\<rparr> else s1);
          s3 = (if truthy cid \<and> ec_drop ec k then discard_checkpoint (or_else cid []) s2 else s2)
      in (s3, (error_result [])\<lparr>rs_rolled_back := ok\<rparr>)))"

definition committed_result :: "candidate \<Rightarrow> pydict \<Rightarrow> string option \<Rightarrow> string option \<Rightarrow> mutation_result" where
  "committed_result cd spec cid mid = plain_result\<lparr>rs_spec := Some spec, rs_revision := cd_prior cd + 1,
     rs_checkpoint := cid, rs_mutation_id := mid,
     rs_producer := (if cd_pinned cd then Some ''USER_PINNED'' else None)\<rparr>"

text \<open>The runtime layers written with the document; the outer \<open>None\<close> raises.\<close>

definition plan_layer_op :: "plan \<Rightarrow> pydict \<Rightarrow> layer_op option option" where
  "plan_layer_op p spec = (if pl_layer_op p \<noteq> None then Some (pl_layer_op p)
     else if pl_rollback p then map_option (\<lambda>ls. Some (Replace_op ls)) (iter_values (get_default spec ''layers'' (PList [])))
     else Some None)"

definition save_plan :: "engine_ctx \<Rightarrow> nat \<Rightarrow> origin \<Rightarrow> string option \<Rightarrow> candidate \<Rightarrow> plan \<Rightarrow> string option \<Rightarrow> session \<Rightarrow>
    session \<times> mutation_result" where
  "save_plan ec k who mid cd p cid s =
     (let revision = cd_prior cd + 1; spec = stamp_workbench revision (pl_spec p)
      in case plan_layer_op p spec of
           None \<Rightarrow> fail_mutation ec k mid cd cid s
         | Some lop \<Rightarrow>
             (case save_mapspec (ec_save ec k) (ec_cached ec k) spec revision lop
                     (dedup_commit_fields (cd_index cd) mid revision (ec_now ec k) who) s of
                (t, saved) \<Rightarrow> if saved then (t, committed_result cd spec cid mid) else fail_mutation ec k mid cd cid t))"

definition auto_checkpoint :: "engine_ctx \<Rightarrow> nat \<Rightarrow> plan \<Rightarrow> session \<Rightarrow> (session \<times> string option) option" where
  "auto_checkpoint ec k p s =
     (if pl_auto_checkpoint p \<and> \<not> truthy (pl_checkpoint p)
      then map_option (\<lambda>(t, name). (t, Some name)) (take_snapshot ec k (pl_spec p) None s)
      else Some (s, pl_checkpoint p))"

definition finish :: "engine_ctx \<Rightarrow> nat \<Rightarrow> bool \<Rightarrow> origin \<Rightarrow> string option \<Rightarrow> candidate \<Rightarrow> session \<Rightarrow>
    session \<times> mutation_result" where
  "finish ec k lost who mid cd s = (case cd_plan cd of
     None \<Rightarrow> fail_mutation ec k mid cd None s
   | Some p \<Rightarrow>
       if lost then (s, error_result [])
       else (case auto_checkpoint ec k p s of
          None \<Rightarrow> fail_mutation ec k mid cd (pl_checkpoint p) s
        | Some (s1, cid) \<Rightarrow> save_plan ec k who mid cd p cid s1))"

section \<open>The transaction\<close>

definition locked_body :: "engine_ctx \<Rightarrow> nat \<Rightarrow> intent \<Rightarrow> origin \<Rightarrow> int option \<Rightarrow> commit_check \<Rightarrow> string option \<Rightarrow>
    mutation_result session_prog" where
  "locked_body ec k i who expected check mid =
     seq (commit (prepare ec k i who expected check mid)) (\<lambda>p.
     seq (if ec_lock ec k = Lock_held then ret () else pause (ec_env ec)) (\<lambda>_.
     seq (case p of Inl r \<Rightarrow> ret r | Inr cd \<Rightarrow> commit (finish ec k (ec_lock ec k = Lock_lost_early) who mid cd)) (\<lambda>r.
       if ec_lock ec k = Lock_held then ret r else fail_with Lock_lost_error)))"

definition apply_mutation :: "engine_ctx \<Rightarrow> intent \<Rightarrow> origin \<Rightarrow> int option \<Rightarrow> commit_check \<Rightarrow> string option \<Rightarrow>
    mutation_result session_prog" where
  "apply_mutation ec i who expected check mid = (case ec_guard ec i of
     None \<Rightarrow> ret (error_result ''spatial_guard_unavailable'')
   | Some None \<Rightarrow> ret (error_result [])
   | Some (Some j) \<Rightarrow>
       seq (tick (\<lambda>k. k)) (\<lambda>k.
       seq (pause (ec_env ec)) (\<lambda>_.
         if ec_lock ec k = Lock_degraded then fail_with Lock_degraded_error
         else locked_body ec k j who expected check mid)))"

end
