(* ===== verification/Mapspec_Transaction.thy ===== *)
theory Mapspec_Transaction
  imports Mapspec_Engine
begin

text \<open>
  What one transaction of the map document engine does to the shared state of the session, in the cases of an
  abstract register with a revision: it is kept, written under the next revision, put back under the next
  revision, or emptied. The lemmas go from the save over the failure path to the whole call.
\<close>

section \<open>The register\<close>

text \<open>The shared state without the checkpoints, which are no part of the register.\<close>

definition kept :: "session \<Rightarrow> session \<Rightarrow> bool" where
  "kept s t = (se_deleted t = se_deleted s \<and> se_spec t = se_spec s \<and> se_layers t = se_layers s \<and>
     se_revision t = se_revision s \<and> se_dedup t = se_dedup s)"

lemma kept_refl: "kept s s"
  by (simp add: kept_def)

lemma kept_trans: "kept a b \<Longrightarrow> kept b c \<Longrightarrow> kept a c"
  by (simp add: kept_def)

section \<open>Checkpoints leave the register alone\<close>

lemma prune_kept: "kept s (prune_checkpoint_dirs s)"
  by (simp add: kept_def prune_checkpoint_dirs_def Let_def)

lemma write_dir_kept: "kept s (write_checkpoint_dir cid ck s)"
  by (simp add: kept_def write_checkpoint_dir_def prune_checkpoint_dirs_def Let_def split: option.splits)

lemma snapshot_kept: "snapshot_spec digest refs fresh spec cid s = Some (t, name) \<Longrightarrow> kept s t"
  by (auto simp: snapshot_spec_def Let_def write_dir_kept kept_refl split: option.splits if_splits)

lemma take_snapshot_kept: "take_snapshot ec k spec cid s = Some (t, name) \<Longrightarrow> kept s t"
  by (auto simp: take_snapshot_def intro: snapshot_kept split: if_splits)

lemma discard_checkpoint_kept: "kept s (discard_checkpoint cid s)"
  by (simp add: kept_def discard_checkpoint_def prune_checkpoint_dirs_def Let_def)

lemma dispatch_kept: "dispatch ec k who loaded prior i s = (out, t) \<Longrightarrow> kept s t"
  by (auto simp: dispatch_def handle_checkpoint_def kept_refl split: intent.splits option.splits intro: take_snapshot_kept)

lemma auto_checkpoint_kept: "auto_checkpoint ec k p s = Some (t, cid) \<Longrightarrow> kept s t"
  by (auto simp: auto_checkpoint_def kept_refl split: if_splits intro: take_snapshot_kept)

lemma build_candidate_kept: "build_candidate ec k i who check loaded s0 s = (t, x) \<Longrightarrow> kept s t"
  by (auto simp: build_candidate_def Let_def kept_refl split: option.splits if_splits prod.splits handler_out.splits
      dest!: dispatch_kept)

section \<open>Saving\<close>

text \<open>The register after a save is the one before or the one written; when it returns it is the latter.\<close>

lemma save_register:
  assumes "save_mapspec fate cached spec revision lop dedup s = (t, ok)"
  shows "kept s t \<and> \<not> ok \<or> kept (commit_mapspec_state spec revision lop dedup s) t"
  using assms
  by (cases fate) (auto simp: save_mapspec_def Let_def kept_def commit_mapspec_state_def persist_disk_def restore_disk_def
      split: option.splits if_splits)

lemma save_done: "save_mapspec Save_done cached spec revision lop dedup s =
    (commit_mapspec_state spec revision lop dedup (persist_disk 2 spec revision s), True)"
  by (simp add: save_mapspec_def Let_def)

lemma save_returns:
  "save_mapspec fate cached spec revision lop dedup s = (t, True) \<Longrightarrow>
   fate = Save_done \<and> t = commit_mapspec_state spec revision lop dedup (persist_disk 2 spec revision s)"
  by (cases fate) (auto simp: save_mapspec_def Let_def)

section \<open>The failure path\<close>

lemma fail_result: "fail_mutation ec k mid cd cid s = (t, r) \<Longrightarrow> rs_error r \<and> \<not> rs_superseded r \<and> \<not> rs_duplicate r"
  by (auto simp: fail_mutation_def Let_def error_result_def plain_result_def split: prod.splits)

text \<open>
  With a document to go back to, the failure path leaves the state of before or what was there, under the
  next revision or the one that was there; when it says that it rolled back, the document and the layers of
  before are there, under the next revision.
\<close>

lemma fail_with_document:
  assumes "fail_mutation ec k mid cd cid s = (t, r)" and "\<not> cd_fresh cd" and "cd_old cd = Some old"
  shows "(se_spec t = se_spec s \<and> se_layers t = se_layers s \<and> se_revision t = se_revision s \<and> \<not> rs_rolled_back r \<or>
          se_spec t = Some (Some old) \<and> se_layers t = cd_old_layers cd \<and> se_revision t = cd_prior cd + 1) \<and>
         (se_dedup t = se_dedup s \<or> se_dedup t = dedup_strip (se_dedup s) mid) \<and> se_deleted t = se_deleted s"
proof -
  obtain s1 ok where sv: "save_mapspec (ec_resave ec k) (ec_recached ec k) old (cd_prior cd + 1)
      (Some (Replace_op (cd_old_layers cd))) None s = (s1, ok)" by (meson surj_pair)
  have rb: "roll_back_to_snapshot ec k cd s = (s1, ok)"
    using assms(2,3) sv by (simp add: roll_back_to_snapshot_def)
  let ?s2 = "if ec_strip ec k then s1\<lparr>se_dedup := dedup_strip (se_dedup s1) mid\<rparr> else s1"
  let ?s3 = "if truthy cid \<and> ec_drop ec k then discard_checkpoint (or_else cid []) ?s2 else ?s2"
  have t: "t = ?s3" and r: "rs_rolled_back r = ok"
    using assms(1) rb by (auto simp: fail_mutation_def Let_def)
  have k3: "kept ?s2 ?s3" by (simp add: discard_checkpoint_kept kept_refl)
  have reg: "kept s s1 \<and> \<not> ok \<or> kept (commit_mapspec_state old (cd_prior cd + 1) (Some (Replace_op (cd_old_layers cd))) None s) s1"
    by (rule save_register [OF sv])
  from k3 reg show ?thesis
    unfolding t r by (auto simp: kept_def commit_mapspec_state_def commit_layer_op_def)
qed

lemma fail_without_document:
  assumes "fail_mutation ec k mid cd cid s = (t, r)" and "cd_fresh cd \<or> cd_old cd = None" and "rs_rolled_back r"
  shows "se_spec t = Some None \<and> se_layers t = cd_old_layers cd \<and> se_revision t = 0 \<and> se_disk t = None"
proof -
  have none: "(if cd_fresh cd then None else cd_old cd) = None" using assms(2) by auto
  have d: "4 \<le> ec_discard ec k"
    using assms(1,3) none by (auto simp: fail_mutation_def roll_back_to_snapshot_def Let_def split: prod.splits)
  let ?s1 = "(discard_mapspec (ec_discard ec k) s)\<lparr>se_layers := cd_old_layers cd\<rparr>"
  let ?s2 = "if ec_strip ec k then ?s1\<lparr>se_dedup := dedup_strip (se_dedup ?s1) mid\<rparr> else ?s1"
  let ?s3 = "if truthy cid \<and> ec_drop ec k then discard_checkpoint (or_else cid []) ?s2 else ?s2"
  have t: "t = ?s3"
    using assms(1) none d by (simp add: fail_mutation_def roll_back_to_snapshot_def Let_def)
  have disk: "se_disk (discard_checkpoint c x) = se_disk x" for c x
    by (simp add: discard_checkpoint_def prune_checkpoint_dirs_def Let_def)
  have "kept ?s2 ?s3" by (simp add: discard_checkpoint_kept kept_refl)
  with d show ?thesis unfolding t by (auto simp: kept_def discard_mapspec_def Let_def disk)
qed

section \<open>The candidate\<close>

text \<open>What a candidate records, and what was checked before there was one.\<close>

lemma build_candidateD:
  assumes "build_candidate ec k i who check loaded s0 s = (t, Inr cd)"
  shows "cd_prior cd = se_revision s \<and> cd_fresh cd = (loaded = None) \<and> cd_old_layers cd = se_layers s0 \<and>
         cd_index cd = se_dedup s0 \<and> (\<not> is_init i \<longrightarrow> loaded \<noteq> None \<longrightarrow> cd_old cd = (if truthy loaded \<or> is_rollback_intent i then loaded else Some skeleton)) \<and>
         guard_intent_locks (ec_descriptor ec) loaded i who = None \<and> check s i who loaded = None"
  using assms
  by (auto simp: build_candidate_def Let_def needs_skeleton_def split: option.splits if_splits prod.splits handler_out.splits)

lemma build_candidate_plan:
  assumes "build_candidate ec k i who check loaded s0 s = (t, Inr cd)" and "cd_plan cd = Some p"
  obtains q where "dispatch ec k who (if needs_skeleton loaded i then Some skeleton else loaded) (se_revision s) i s = (Plan q, t)"
    and "p = review_plan ec q"
    and "pl_rollback q \<or> new_blocking ec (if needs_skeleton loaded i then None else loaded) (reviewed ec q) = []"
proof -
  let ?base = "if needs_skeleton loaded i then Some skeleton else loaded"
  let ?prior = "if needs_skeleton loaded i then None else loaded"
  obtain out u where d: "dispatch ec k who ?base (se_revision s) i s = (out, u)" by (meson surj_pair)
  show thesis
  proof (cases out)
    case (Plan q)
    with assms d have "u = t" "p = review_plan ec q" "pl_rollback q \<or> new_blocking ec ?prior (reviewed ec q) = []"
      by (auto simp: build_candidate_def Let_def split: option.splits if_splits)
    with d Plan that show thesis by metis
  next
    case (Terminal r)
    with assms d show thesis by (auto simp: build_candidate_def Let_def split: option.splits if_splits)
  next
    case Raises
    with assms d show thesis by (auto simp: build_candidate_def Let_def split: option.splits if_splits)
  qed
qed

lemma prepareD:
  assumes "prepare ec k i who expected check mid s = (t, Inr cd)"
  shows "\<not> se_deleted s \<and> dedup_hit (se_dedup s) mid = None \<and> (who = By_user \<longrightarrow> expected \<noteq> None) \<and>
    (expected = None \<or> expected = Some (se_revision (snd (get_mapspec s)))) \<and>
    build_candidate ec k i who check (fst (get_mapspec s)) s (snd (get_mapspec s)) = (t, Inr cd)"
  using assms by (auto simp: prepare_def split: if_splits prod.splits)

text \<open>A call that ends before there is a candidate keeps the state, apart from a document brought back.\<close>

lemma prepare_kept:
  assumes "prepare ec k i who expected check mid s = (t, x)"
  shows "kept s t \<or> kept (snd (get_mapspec s)) t"
  using assms
  by (auto simp: prepare_def kept_refl split: if_splits prod.splits dest: build_candidate_kept)

section \<open>The whole call\<close>

lemma dedup_commit_lookup:
  assumes "dedup_commit_fields index (Some mid) revision now who = Some new"
  shows "\<exists>xs e. new = xs @ [(mid, e)] \<and> de_revision e = revision \<and> mid \<notin> fst ` set xs"
proof -
  have eq: "new = take_last 63 (AList.delete mid index) @ [(mid, \<lparr>de_revision = revision, de_time = now, de_origin = origin_value who\<rparr>)]"
    using assms by (auto simp: dedup_commit_fields_def MUTATION_DEDUP_LIMIT_def take_last_append1 split: if_splits)
  have "mid \<notin> fst ` set (AList.delete mid index)" by (simp add: AList.delete_eq image_def)
  with eq show ?thesis by (auto dest: set_take_last [THEN subsetD])
qed

text \<open>
  \<open>wrote\<close>: the new document is there under the next revision, and the id of the call is the last entry of the
  index. \<open>undone\<close>: an error, and if it says so, the document and the layers of before under the next revision.
\<close>

definition wrote :: "session \<Rightarrow> session \<Rightarrow> mutation_result \<Rightarrow> string option \<Rightarrow> bool" where
  "wrote s t r mid =
     (\<not> rs_error r \<and> \<not> rs_superseded r \<and> \<not> rs_duplicate r \<and> rs_spec r \<noteq> None \<and>
      se_spec t = Some (rs_spec r) \<and> se_revision t = se_revision s + 1 \<and> rs_revision r = se_revision t \<and>
      se_deleted t = se_deleted s \<and>
      (if truthy mid then \<exists>xs e. se_dedup t = xs @ [(or_else mid [], e)] \<and> de_revision e = se_revision t \<and>
         or_else mid [] \<notin> fst ` set xs else se_dedup t = se_dedup s))"

definition undone :: "session \<Rightarrow> session \<Rightarrow> mutation_result \<Rightarrow> pydict \<Rightarrow> bool" where
  "undone s t r d =
     (rs_error r \<and> se_deleted t = se_deleted s \<and> (se_revision t = se_revision s \<or> se_revision t = se_revision s + 1) \<and>
      (\<exists>d'. se_spec t = Some (Some d')) \<and>
      (rs_rolled_back r \<longrightarrow> se_spec t = Some (Some d) \<and> se_layers t = se_layers s \<and> se_revision t = se_revision s + 1))"

lemma commit_wrote:
  assumes "kept (commit_mapspec_state spec (cd_prior cd + 1) lop (dedup_commit_fields (cd_index cd) mid (cd_prior cd + 1) now who) u) t"
    and "kept s u" and "cd_prior cd = se_revision s" and "cd_index cd = se_dedup s"
  shows "wrote s t (committed_result cd spec cid mid) mid"
proof (cases "truthy mid")
  case True
  then obtain m where m: "mid = Some m" "m \<noteq> []" by (auto simp: truthy_iff)
  then obtain new where new: "dedup_commit_fields (cd_index cd) mid (cd_prior cd + 1) now who = Some new"
    by (simp add: dedup_commit_fields_def)
  from dedup_commit_lookup [OF new [unfolded m(1)]]
  obtain xs e where "new = xs @ [(m, e)]" "de_revision e = cd_prior cd + 1" "m \<notin> fst ` set xs" by blast
  with assms m new show ?thesis
    by (auto simp: wrote_def kept_def commit_mapspec_state_def committed_result_def plain_result_def)
next
  case False
  then have "dedup_commit_fields (cd_index cd) mid (cd_prior cd + 1) now who = None"
    by (simp add: dedup_commit_fields_def)
  with assms False show ?thesis
    by (simp add: wrote_def kept_def commit_mapspec_state_def committed_result_def plain_result_def)
qed

lemma fail_undone:
  assumes "fail_mutation ec k mid cd cid u = (t, r)"
    and "\<not> cd_fresh cd" and "cd_old cd = Some d" and "cd_prior cd = se_revision s" and "cd_old_layers cd = se_layers s"
    and "se_spec u = Some (Some d1)" and "se_deleted u = se_deleted s"
    and "se_revision u = se_revision s \<or> se_revision u = se_revision s + 1"
  shows "undone s t r d"
  using fail_with_document [OF assms(1-3)] fail_result [OF assms(1)] assms(4-8)
  by (auto simp: undone_def)

lemma save_plan_cases:
  assumes run: "save_plan ec k who mid cd p cid u = (t, r)" and u: "kept s u"
    and cd: "cd_prior cd = se_revision s" "cd_index cd = se_dedup s" "\<not> cd_fresh cd" "cd_old cd = Some d"
      "cd_old_layers cd = se_layers s" and doc: "se_spec s = Some (Some d1)"
  shows "wrote s t r mid \<or> undone s t r d"
proof -
  let ?spec = "stamp_workbench (cd_prior cd + 1) (pl_spec p)"
  let ?dd = "dedup_commit_fields (cd_index cd) mid (cd_prior cd + 1) (ec_now ec k) who"
  note ku = u [unfolded kept_def]
  show ?thesis
  proof (cases "plan_layer_op p ?spec")
    case None
    with run have f: "fail_mutation ec k mid cd cid u = (t, r)" by (simp add: save_plan_def Let_def)
    have "undone s t r d" by (rule fail_undone [OF f cd(3,4,1,5)]) (use ku doc in auto)
    then show ?thesis ..
  next
    case (Some lop)
    obtain v ok where sv: "save_mapspec (ec_save ec k) (ec_cached ec k) ?spec (cd_prior cd + 1) lop ?dd u = (v, ok)"
      by (meson surj_pair)
    note reg = save_register [OF sv]
    show ?thesis
    proof (cases ok)
      case True
      with run Some sv have "t = v" "r = committed_result cd ?spec cid mid" by (simp_all add: save_plan_def Let_def)
      with reg True commit_wrote [OF _ u cd(1,2)] show ?thesis by blast
    next
      case False
      with run Some sv have f: "fail_mutation ec k mid cd cid v = (t, r)" by (simp add: save_plan_def Let_def)
      have "undone s t r d"
        by (rule fail_undone [OF f cd(3,4,1,5), where ?d1.0 = "if kept u v then d1 else ?spec"])
          (use ku doc reg cd(1) in \<open>auto simp: kept_def commit_mapspec_state_def\<close>)
      then show ?thesis ..
    qed
  qed
qed

lemma finish_cases:
  assumes run: "finish ec k False who mid cd s = (t, r)"
    and cd: "cd_prior cd = se_revision s" "cd_index cd = se_dedup s" "\<not> cd_fresh cd" "cd_old cd = Some d"
      "cd_old_layers cd = se_layers s" and doc: "se_spec s = Some (Some d1)"
  shows "wrote s t r mid \<or> undone s t r d"
proof (cases "cd_plan cd")
  case None
  with run have f: "fail_mutation ec k mid cd None s = (t, r)" by (simp add: finish_def)
  have "undone s t r d" by (rule fail_undone [OF f cd(3,4,1,5) doc]) auto
  then show ?thesis ..
next
  case (Some p)
  show ?thesis
  proof (cases "auto_checkpoint ec k p s")
    case None
    with run Some have f: "fail_mutation ec k mid cd (pl_checkpoint p) s = (t, r)" by (simp add: finish_def)
    have "undone s t r d" by (rule fail_undone [OF f cd(3,4,1,5) doc]) auto
    then show ?thesis ..
  next
    case saved: (Some uc)
    obtain u cid where uc: "uc = (u, cid)" by fastforce
    with saved have "kept s u" using auto_checkpoint_kept by blast
    moreover have "save_plan ec k who mid cd p cid u = (t, r)" using run Some saved uc by (simp add: finish_def)
    ultimately show ?thesis using save_plan_cases cd doc by blast
  qed
qed

text \<open>A call under a lock that was held, by its two halves.\<close>

definition serial :: "engine_ctx \<Rightarrow> bool" where
  "serial ec \<longleftrightarrow> ec_env ec = (\<lambda>k s. s) \<and> ec_lock ec = (\<lambda>k. Lock_held)"

lemma apply_held:
  assumes "ec_lock ec k = Lock_held" and "ec_guard ec i = Some (Some j)"
  shows "apply_mutation ec i who expected check mid (s, k) =
    (case prepare ec k j who expected check mid (ec_env ec k s) of
       (u, Inl r) \<Rightarrow> (Inr r, (u, Suc k))
     | (u, Inr cd) \<Rightarrow> (case finish ec k False who mid cd u of (t, r) \<Rightarrow> (Inr r, (t, Suc k))))"
proof -
  obtain u x where pr: "prepare ec k j who expected check mid (ec_env ec k s) = (u, x)" by (meson surj_pair)
  show ?thesis
  proof (cases x)
    case (Inl r)
    with assms pr show ?thesis by (simp add: apply_mutation_def locked_body_def)
  next
    case (Inr cd)
    obtain t r where "finish ec k False who mid cd u = (t, r)" by (meson surj_pair)
    with assms pr Inr show ?thesis by (simp add: apply_mutation_def locked_body_def)
  qed
qed

lemma apply_unguarded:
  assumes "ec_guard ec i = None \<or> ec_guard ec i = Some None"
  shows "\<exists>r. apply_mutation ec i who expected check mid (s, k) = (Inr r, (s, k)) \<and> rs_error r"
  using assms by (auto simp: apply_mutation_def error_result_def)

lemma prepare_refused:
  assumes "prepare ec k i who expected check mid s = (u, Inl r)" and "se_spec s = Some (Some d)"
  shows "kept s u"
  using prepare_kept [OF assms(1)] get_mapspec_found [OF assms(2)] by auto

lemma held_cases:
  assumes held: "ec_lock ec k = Lock_held" "ec_guard ec i = Some (Some j)"
    and doc: "se_spec (ec_env ec k s0) = Some (Some d)" and init: "\<not> is_init j"
    and run: "apply_mutation ec i who expected check mid (s0, k) = (res, (t, k'))"
  shows "\<exists>r d'. res = Inr r \<and> k' = Suc k \<and> (d \<noteq> [] \<longrightarrow> d' = d) \<and>
    (kept (ec_env ec k s0) t \<or> wrote (ec_env ec k s0) t r mid \<or> undone (ec_env ec k s0) t r d')"
proof -
  let ?s = "ec_env ec k s0"
  obtain u x where pr: "prepare ec k j who expected check mid ?s = (u, x)" by (meson surj_pair)
  show ?thesis
  proof (cases x)
    case (Inl r)
    with run apply_held [OF held] pr have "res = Inr r" "t = u" "k' = Suc k" by auto
    moreover have "kept ?s u" using pr Inl doc by (intro prepare_refused) simp_all
    ultimately show ?thesis by (intro exI [of _ r] exI [of _ d]) simp
  next
    case (Inr cd)
    obtain t' r where fin: "finish ec k False who mid cd u = (t', r)" by (meson surj_pair)
    with run apply_held [OF held] pr Inr have eq: "res = Inr r" "t = t'" "k' = Suc k" by auto
    from prepareD [OF pr [unfolded Inr]] get_mapspec_found [OF doc]
    have b: "build_candidate ec k j who check (Some d) ?s ?s = (u, Inr cd)" by simp
    define d' where "d' = (if d \<noteq> [] \<or> is_rollback_intent j then d else skeleton)"
    note B = build_candidateD [OF b]
    have old: "cd_old cd = Some d'" using B init by (cases "d = []") (simp_all add: d'_def)
    have cd: "cd_prior cd = se_revision ?s" "\<not> cd_fresh cd" "cd_old_layers cd = se_layers ?s" "cd_index cd = se_dedup ?s"
      using B by simp_all
    from build_candidate_kept [OF b] have ku: "kept ?s u" .
    then have same: "se_revision u = se_revision ?s" "se_dedup u = se_dedup ?s" "se_layers u = se_layers ?s"
      "se_spec u = Some (Some d)" "se_deleted u = se_deleted ?s" using doc by (auto simp: kept_def)
    have "wrote u t' r mid \<or> undone u t' r d'"
      by (rule finish_cases [OF fin]) (simp_all only: cd old same not_False_eq_True)
    then have "wrote ?s t' r mid \<or> undone ?s t' r d'" using same by (auto simp: wrote_def undone_def)
    moreover have "d \<noteq> [] \<longrightarrow> d' = d" by (simp add: d'_def)
    ultimately show ?thesis using eq by (intro exI [of _ r] exI [of _ d']) simp
  qed
qed

end
