(* ===== verification/Mapspec_Properties.thy ===== *)
theory Mapspec_Properties
  imports Mapspec_Transaction
begin

text \<open>
  Properties of the map document engine: what a transaction does, what was checked before it wrote, that an
  idempotency key takes effect once and a revision is spent once, that a named checkpoint brings its document
  back, and what the locks of the workbench protect.
\<close>

section \<open>Runs of calls\<close>

record mutation_call =
  mc_ctx :: engine_ctx
  mc_intent :: intent
  mc_origin :: origin
  mc_expected :: "int option"
  mc_check :: commit_check
  mc_id :: "string option"

definition run_mutation :: "mutation_call \<Rightarrow> mutation_result session_prog" where
  "run_mutation c = apply_mutation (mc_ctx c) (mc_intent c) (mc_origin c) (mc_expected c) (mc_check c) (mc_id c)"

definition mutation_step :: "session world \<Rightarrow> mutation_call \<Rightarrow> session world" where
  "mutation_step w c = snd (run_mutation c w)"

definition serial_call :: "mutation_call \<Rightarrow> bool" where
  "serial_call c \<longleftrightarrow> serial (mc_ctx c)"

text \<open>The intent the spatial guard lets through, if it does.\<close>

definition guarded :: "mutation_call \<Rightarrow> intent option" where
  "guarded c = (case ec_guard (mc_ctx c) (mc_intent c) of Some (Some j) \<Rightarrow> Some j | _ \<Rightarrow> None)"

lemma serial_run:
  assumes "serial_call c"
  shows "run_mutation c (s, k) = (case guarded c of
     None \<Rightarrow> (fst (run_mutation c (s, k)), (s, k))
   | Some j \<Rightarrow> (case prepare (mc_ctx c) k j (mc_origin c) (mc_expected c) (mc_check c) (mc_id c) s of
       (u, Inl r) \<Rightarrow> (Inr r, (u, Suc k))
     | (u, Inr cd) \<Rightarrow> (case finish (mc_ctx c) k False (mc_origin c) (mc_id c) cd u of (t, r) \<Rightarrow> (Inr r, (t, Suc k)))))"
proof (cases "ec_guard (mc_ctx c) (mc_intent c)")
  case None
  then obtain r where "apply_mutation (mc_ctx c) (mc_intent c) (mc_origin c) (mc_expected c) (mc_check c) (mc_id c) (s, k) = (Inr r, (s, k))"
    using apply_unguarded by blast
  with None show ?thesis by (simp add: run_mutation_def guarded_def)
next
  case (Some x)
  show ?thesis
  proof (cases x)
    case None
    with Some obtain r where "apply_mutation (mc_ctx c) (mc_intent c) (mc_origin c) (mc_expected c) (mc_check c) (mc_id c) (s, k) = (Inr r, (s, k))"
      using apply_unguarded by blast
    with Some None show ?thesis by (simp add: run_mutation_def guarded_def)
  next
    case (Some j)
    with \<open>ec_guard (mc_ctx c) (mc_intent c) = Some x\<close> assms show ?thesis
      by (simp add: run_mutation_def guarded_def serial_call_def serial_def apply_held)
  qed
qed

lemma blocked_step:
  assumes "guarded c = None"
  shows "mutation_step (s, k) c = (s, k)"
proof -
  have "ec_guard (mc_ctx c) (mc_intent c) = None \<or> ec_guard (mc_ctx c) (mc_intent c) = Some None"
    using assms by (auto simp: guarded_def split: option.splits)
  from apply_unguarded [OF this, of "mc_origin c" "mc_expected c" "mc_check c" "mc_id c" s k]
  show ?thesis by (auto simp: mutation_step_def run_mutation_def)
qed

section \<open>One transaction\<close>

text \<open>
  C1. A transaction on a session with a document, under a lock that is held, ends in one of three ways:
  nothing changed; the new document was written under the next revision with the call's id as the newest
  entry of the idempotency index, and the expected revision, if one was given, was the current one; or the
  call reports an error, the revision stayed or went up by one, and if it says that it rolled back, the
  document and the runtime layers are those from before under the next revision.
\<close>

theorem mutation_transaction:
  assumes "ec_lock ec k = Lock_held" and "ec_guard ec i = Some (Some j)" and "\<not> is_init j"
    and "se_spec (ec_env ec k s0) = Some (Some d)" and "d \<noteq> []"
    and "apply_mutation ec i who expected check mid (s0, k) = (res, (t, k'))"
  shows "\<exists>r. res = Inr r \<and>
    (kept (ec_env ec k s0) t \<or>
     wrote (ec_env ec k s0) t r mid \<and> (expected = None \<or> expected = Some (se_revision (ec_env ec k s0))) \<or>
     undone (ec_env ec k s0) t r d)"
proof -
  let ?s = "ec_env ec k s0"
  from held_cases [OF assms(1,2,4,3,6)] assms(5)
  obtain r where r: "res = Inr r" "kept ?s t \<or> wrote ?s t r mid \<or> undone ?s t r d" by blast
  have "kept ?s t \<or> expected = None \<or> expected = Some (se_revision ?s)"
  proof (cases "prepare ec k j who expected check mid ?s")
    case (Pair u x)
    show ?thesis
    proof (cases x)
      case (Inl y)
      then have "t = u" using assms(6) apply_held [OF assms(1,2)] Pair by simp
      then show ?thesis using prepare_refused Pair Inl assms(4) by blast
    next
      case (Inr cd)
      from prepareD [OF Pair [unfolded Inr]] show ?thesis using get_mapspec_found [OF assms(4)] by simp
    qed
  qed
  with r show ?thesis by blast
qed

lemma finish_result:
  assumes "finish ec k False who mid cd s = (t, r)" and "\<not> rs_error r"
  shows "\<exists>p cid. cd_plan cd = Some p \<and> r = committed_result cd (stamp_workbench (cd_prior cd + 1) (pl_spec p)) cid mid"
  using assms
  by (auto simp: finish_def save_plan_def Let_def split: option.splits prod.splits if_splits dest!: fail_result)

text \<open>The plans of the modelled handlers; only a rollback is marked as one.\<close>

lemma dispatch_rollback:
  assumes "dispatch ec k who loaded prior i s = (Plan q, t)" and "\<not> is_rollback_intent i"
  shows "\<not> pl_rollback q"
proof -
  have simple: "simple_plan spec auto = Plan q \<Longrightarrow> \<not> pl_rollback q" for spec auto
    by (auto simp: simple_plan_def)
  have raise: "or_raise x f = Plan q \<Longrightarrow> \<exists>y. x = Some y \<and> f y = Plan q" for x :: "'b option" and f
    by (cases x) auto
  show ?thesis
    using assms
    by (cases i)
      (auto simp: dispatch_def is_rollback_intent_def handle_checkpoint_def plain_out_def handle_initproject_def
        handle_setview_def handle_setbasemap_def handle_settime_def handle_setscenariomode_def
        handle_patchlayerpresentation_def handle_patchlayerstyle_def patch_layers_def handle_removelayer_def
        handle_reorderlayers_def handle_restorestyle_def handle_refreshdatarevision_def handle_setworkbenchstate_def
        handle_patchworkbenchdelta_def Let_def
        split: option.splits if_splits handler_out.splits patch_outcome.splits prod.splits
        dest!: raise simple)
qed

text \<open>
  A call that moved the revision and reports no error wrote the reviewed plan of its handler, after every
  check.
\<close>

lemma committed_from_plan:
  assumes "ec_lock ec k = Lock_held" and "ec_guard ec i = Some (Some j)" and "\<not> is_init j"
    and "se_spec (ec_env ec k s0) = Some (Some d)" and "d \<noteq> []"
    and "apply_mutation ec i who expected check mid (s0, k) = (Inr r, (t, k'))"
    and "\<not> rs_error r" and "se_revision t \<noteq> se_revision (ec_env ec k s0)"
  obtains q u where "dispatch ec k who (Some d) (se_revision (ec_env ec k s0)) j (ec_env ec k s0) = (Plan q, u)"
    and "rs_spec r = Some (stamp_workbench (rs_revision r) (reviewed ec q))"
    and "pl_rollback q \<or> new_blocking ec (Some d) (reviewed ec q) = []"
    and "expected = Some (se_revision (ec_env ec k s0)) \<or> expected = None \<and> who \<noteq> By_user"
    and "guard_intent_locks (ec_descriptor ec) (Some d) j who = None"
    and "check (ec_env ec k s0) j who (Some d) = None"
    and "se_spec t = Some (rs_spec r)"
proof -
  let ?s = "ec_env ec k s0"
  obtain u x where pr: "prepare ec k j who expected check mid ?s = (u, x)" by (meson surj_pair)
  show thesis
  proof (cases x)
    case (Inl y)
    then have "t = u" using assms(6) apply_held [OF assms(1,2)] pr by simp
    then have "kept ?s t" using prepare_refused pr Inl assms(4) by blast
    with assms(8) show thesis by (simp add: kept_def)
  next
    case (Inr cd)
    note P = prepareD [OF pr [unfolded Inr]]
    from P get_mapspec_found [OF assms(4)] have b: "build_candidate ec k j who check (Some d) ?s ?s = (u, Inr cd)" by simp
    obtain t' r' where fin: "finish ec k False who mid cd u = (t', r')" by (meson surj_pair)
    with assms(6) apply_held [OF assms(1,2)] pr Inr have eq: "r' = r" by auto
    from finish_result [OF fin] eq assms(7)
    obtain p cid where p: "cd_plan cd = Some p" "r = committed_result cd (stamp_workbench (cd_prior cd + 1) (pl_spec p)) cid mid"
      by blast
    from build_candidate_plan [OF b p(1)] assms(5)
    obtain q where q: "dispatch ec k who (Some d) (se_revision ?s) j ?s = (Plan q, u)" "p = review_plan ec q"
      "pl_rollback q \<or> new_blocking ec (Some d) (reviewed ec q) = []"
      by (auto simp: needs_skeleton_def)
    have "rs_spec r = Some (stamp_workbench (rs_revision r) (reviewed ec q))"
      using p(2) q(2) by (simp add: committed_result_def review_plan_def Let_def)
    moreover have "expected = Some (se_revision ?s) \<or> expected = None \<and> who \<noteq> By_user"
      using P get_mapspec_found [OF assms(4)] by auto
    moreover from held_cases [OF assms(1,2,4,3,6)] assms(7,8) have "se_spec t = Some (rs_spec r)"
      by (auto simp: kept_def wrote_def undone_def)
    ultimately show thesis using that q(1,3) build_candidateD [OF b] by blast
  qed
qed

text \<open>
  C19. A call that moved the revision and reports no error was admitted: a user named the current revision, no
  lock hit a target of another origin's intent, the check of the caller passed, and unless it is a rollback
  the document written has no blocking defect that the one before did not have.
\<close>

theorem commit_was_admitted:
  assumes "ec_lock ec k = Lock_held" and "ec_guard ec i = Some (Some j)" and "\<not> is_init j"
    and "se_spec (ec_env ec k s0) = Some (Some d)" and "d \<noteq> []"
    and "apply_mutation ec i who expected check mid (s0, k) = (Inr r, (t, k'))"
    and "\<not> rs_error r" and "se_revision t \<noteq> se_revision (ec_env ec k s0)"
  shows "(expected = Some (se_revision (ec_env ec k s0)) \<or> expected = None \<and> who \<noteq> By_user) \<and>
    guard_intent_locks (ec_descriptor ec) (Some d) j who = None \<and>
    check (ec_env ec k s0) j who (Some d) = None \<and>
    (\<exists>spec. rs_spec r = Some (stamp_workbench (rs_revision r) spec) \<and>
       (is_rollback_intent j \<or> set (ec_blocking ec spec) \<subseteq> set (ec_blocking ec d)))"
proof (rule committed_from_plan [OF assms])
  fix q u
  assume d: "dispatch ec k who (Some d) (se_revision (ec_env ec k s0)) j (ec_env ec k s0) = (Plan q, u)"
    and blocking: "pl_rollback q \<or> new_blocking ec (Some d) (reviewed ec q) = []"
    and rest: "rs_spec r = Some (stamp_workbench (rs_revision r) (reviewed ec q))"
      "expected = Some (se_revision (ec_env ec k s0)) \<or> expected = None \<and> who \<noteq> By_user"
      "guard_intent_locks (ec_descriptor ec) (Some d) j who = None"
      "check (ec_env ec k s0) j who (Some d) = None"
  have "is_rollback_intent j \<or> set (ec_blocking ec (reviewed ec q)) \<subseteq> set (ec_blocking ec d)"
    using blocking dispatch_rollback [OF d] assms(5) by (auto simp: new_blocking_def filter_empty_conv)
  with rest show ?thesis by blast
qed

section \<open>Idempotency\<close>

text \<open>The id is in the index with at most \<open>n\<close> newer entries.\<close>

definition recent :: "string \<Rightarrow> nat \<Rightarrow> dedup_index \<Rightarrow> bool" where
  "recent m n index = (\<exists>xs e ys. index = xs @ (m, e) # ys \<and> length ys \<le> n)"

lemma recent_found: "recent m n index \<Longrightarrow> map_of index m \<noteq> None"
  by (auto simp: recent_def map_of_eq_None_iff simp del: map_of_eq_Some_iff)

lemma recent_mono: "recent m n index \<Longrightarrow> n \<le> n' \<Longrightarrow> recent m n' index"
  unfolding recent_def using order_trans by blast

lemma delete_append: "AList.delete k (xs @ ys) = AList.delete k xs @ AList.delete k ys"
  by (simp add: AList.delete_eq)

lemma delete_shorter: "length (AList.delete k xs) \<le> length xs"
  by (simp add: AList.delete_eq)

lemma recent_delete:
  assumes "recent m n index" and "k \<noteq> m"
  shows "recent m n (AList.delete k index)"
proof -
  obtain xs e ys where "index = xs @ (m, e) # ys" "length ys \<le> n" using assms(1) by (auto simp: recent_def)
  with assms(2) delete_shorter [of k ys]
  have "AList.delete k index = AList.delete k xs @ (m, e) # AList.delete k ys" "length (AList.delete k ys) \<le> n"
    by (simp_all add: delete_append)
  then show ?thesis unfolding recent_def by blast
qed

lemma take_last_split: "length ys < n \<Longrightarrow> \<exists>zs. take_last n (xs @ x # ys) = zs @ x # ys"
  by (rule exI [of _ "drop (Suc (length xs + length ys) - n) xs"]) (auto simp: take_last_def)

lemma recent_commit:
  assumes "recent m n index" and "n < 63" and "mid \<noteq> Some m"
    and "dedup_commit_fields index mid revision now who = Some new"
  shows "recent m (Suc n) new"
proof -
  obtain q e0 where q: "mid = Some q" "new = take_last 64 (AList.delete q index @ [(q, e0)])"
    using assms(4) by (auto simp: dedup_commit_fields_def MUTATION_DEDUP_LIMIT_def truthy_iff split: if_splits)
  with recent_delete [OF assms(1)] assms(3) have "recent m n (AList.delete q index)" by auto
  then obtain xs e ys where d: "AList.delete q index = xs @ (m, e) # ys" "length ys \<le> n" by (auto simp: recent_def)
  then have "length (ys @ [(q, e0)]) < 64" using assms(2) by simp
  from take_last_split [OF this, of xs "(m, e)"] q(2) d(1)
  obtain zs where "new = zs @ (m, e) # (ys @ [(q, e0)])" by auto
  moreover have "length (ys @ [(q, e0)]) \<le> Suc n" using d(2) by simp
  ultimately show ?thesis unfolding recent_def by blast
qed

lemma recent_strip: "recent m n index \<Longrightarrow> mid \<noteq> Some m \<Longrightarrow> recent m n (dedup_strip index mid)"
  by (cases mid) (auto simp: dedup_strip_def recent_delete)

lemma fail_dedup:
  assumes "fail_mutation ec k mid cd cid u = (t, r)"
  shows "(se_dedup t = se_dedup u \<or> se_dedup t = dedup_strip (se_dedup u) mid) \<and> se_deleted t = se_deleted u"
proof -
  obtain s1 ok where rb: "roll_back_to_snapshot ec k cd u = (s1, ok)" by (meson surj_pair)
  have same: "se_dedup s1 = se_dedup u \<and> se_deleted s1 = se_deleted u"
  proof (cases "if cd_fresh cd then None else cd_old cd")
    case None
    with rb show ?thesis by (auto simp: roll_back_to_snapshot_def discard_mapspec_def Let_def split: if_splits)
  next
    case (Some old)
    with rb have "save_mapspec (ec_resave ec k) (ec_recached ec k) old (cd_prior cd + 1)
        (Some (Replace_op (cd_old_layers cd))) None u = (s1, ok)" by (simp add: roll_back_to_snapshot_def)
    from save_register [OF this] show ?thesis by (auto simp: kept_def commit_mapspec_state_def)
  qed
  let ?s2 = "if ec_strip ec k then s1\<lparr>se_dedup := dedup_strip (se_dedup s1) mid\<rparr> else s1"
  let ?s3 = "if truthy cid \<and> ec_drop ec k then discard_checkpoint (or_else cid []) ?s2 else ?s2"
  have t: "t = ?s3" using assms rb by (simp add: fail_mutation_def Let_def)
  have "kept ?s2 ?s3" by (simp add: discard_checkpoint_kept kept_refl)
  with same show ?thesis unfolding t by (auto simp: kept_def split: if_splits)
qed

text \<open>The index after a transaction: as it was, with the new entry, and possibly stripped of the own id.\<close>

lemma finish_dedup:
  assumes run: "finish ec k False who mid cd s = (t, r)" and idx: "cd_index cd = se_dedup s"
  shows "\<exists>index. (index = se_dedup s \<or>
      Some index = dedup_commit_fields (se_dedup s) mid (cd_prior cd + 1) (ec_now ec k) who) \<and>
    (se_dedup t = index \<or> se_dedup t = dedup_strip index mid) \<and> se_deleted t = se_deleted s"
proof (cases "cd_plan cd")
  case None
  with run have "fail_mutation ec k mid cd None s = (t, r)" by (simp add: finish_def)
  from fail_dedup [OF this] show ?thesis by blast
next
  case (Some p)
  show ?thesis
  proof (cases "auto_checkpoint ec k p s")
    case None
    with run Some have "fail_mutation ec k mid cd (pl_checkpoint p) s = (t, r)" by (simp add: finish_def)
    from fail_dedup [OF this] show ?thesis by blast
  next
    case saved: (Some uc)
    obtain u cid where uc: "uc = (u, cid)" by fastforce
    with saved have ku: "kept s u" using auto_checkpoint_kept by blast
    then have su: "se_dedup u = se_dedup s" "se_deleted u = se_deleted s" by (simp_all add: kept_def)
    have sp: "save_plan ec k who mid cd p cid u = (t, r)" using run Some saved uc by (simp add: finish_def)
    let ?spec = "stamp_workbench (cd_prior cd + 1) (pl_spec p)"
    let ?dd = "dedup_commit_fields (cd_index cd) mid (cd_prior cd + 1) (ec_now ec k) who"
    show ?thesis
    proof (cases "plan_layer_op p ?spec")
      case None
      with sp have "fail_mutation ec k mid cd cid u = (t, r)" by (simp add: save_plan_def Let_def)
      from fail_dedup [OF this] su show ?thesis by auto
    next
      case (Some lop)
      obtain v ok where sv: "save_mapspec (ec_save ec k) (ec_cached ec k) ?spec (cd_prior cd + 1) lop ?dd u = (v, ok)"
        by (meson surj_pair)
      have v: "(se_dedup v = se_dedup s \<or> Some (se_dedup v) = ?dd) \<and> se_deleted v = se_deleted s"
        using save_register [OF sv] su by (cases ?dd) (auto simp: kept_def commit_mapspec_state_def)
      show ?thesis
      proof (cases ok)
        case True
        with sp Some sv have "t = v" by (simp add: save_plan_def Let_def)
        with v idx show ?thesis by (intro exI [of _ "se_dedup v"]) simp
      next
        case False
        with sp Some sv have "fail_mutation ec k mid cd cid v = (t, r)" by (simp add: save_plan_def Let_def)
        from fail_dedup [OF this] v idx show ?thesis by (intro exI [of _ "se_dedup v"]) auto
      qed
    qed
  qed
qed

lemma prepare_index:
  assumes "prepare ec k i who expected check mid s = (u, x)"
  shows "se_dedup u = se_dedup s \<and> se_deleted u = se_deleted s"
  using prepare_kept [OF assms] by (auto simp: kept_def get_mapspec_keeps)

lemma prepare_known:
  assumes "dedup_hit (se_dedup s) mid \<noteq> None" and "\<not> se_deleted s"
  shows "prepare ec k i who expected check mid s =
    (snd (get_mapspec s), Inl (duplicate_result (fst (get_mapspec s)) (se_revision (snd (get_mapspec s))) mid))"
  using assms by (simp add: prepare_def case_prod_beta)

lemma recent_step:
  assumes "serial_call c" and "recent m n (se_dedup s)" and "n < 63" and "m \<noteq> []" and "\<not> se_deleted s"
  shows "recent m (Suc n) (se_dedup (fst (mutation_step (s, k) c))) \<and> \<not> se_deleted (fst (mutation_step (s, k) c))"
proof (cases "guarded c")
  case None
  then show ?thesis using recent_mono [OF assms(2)] assms(5) by (simp add: blocked_step)
next
  case (Some j)
  obtain u x where pr: "prepare (mc_ctx c) k j (mc_origin c) (mc_expected c) (mc_check c) (mc_id c) s = (u, x)"
    by (meson surj_pair)
  note pi = prepare_index [OF pr]
  show ?thesis
  proof (cases x)
    case (Inl r)
    with Some pr pi show ?thesis
      using serial_run [OF assms(1)] recent_mono [OF assms(2)] assms(5) by (simp add: mutation_step_def)
  next
    case (Inr cd)
    obtain t r where fin: "finish (mc_ctx c) k False (mc_origin c) (mc_id c) cd u = (t, r)" by (meson surj_pair)
    with Some pr Inr have st: "fst (mutation_step (s, k) c) = t"
      using serial_run [OF assms(1)] by (simp add: mutation_step_def)
    have other: "mc_id c \<noteq> Some m"
    proof
      assume same: "mc_id c = Some m"
      with recent_found [OF assms(2)] assms(4) have "dedup_hit (se_dedup s) (mc_id c) \<noteq> None"
        by (simp add: dedup_hit_def)
      with prepare_known pr Inr assms(5) show False by simp
    qed
    note P = prepareD [OF pr [unfolded Inr]]
    from build_candidateD have "cd_index cd = se_dedup s" using P by blast
    then have "cd_index cd = se_dedup u" using pi by simp
    from finish_dedup [OF fin this] obtain index where
      ix: "index = se_dedup u \<or> Some index = dedup_commit_fields (se_dedup u) (mc_id c) (cd_prior cd + 1) (ec_now (mc_ctx c) k) (mc_origin c)"
      "se_dedup t = index \<or> se_dedup t = dedup_strip index (mc_id c)" "se_deleted t = se_deleted u" by blast
    have "recent m n (se_dedup u)" using assms(2) pi by simp
    with ix(1) recent_commit [OF _ assms(3) other] recent_mono [of m n "se_dedup u"]
    have "recent m (Suc n) index" by (metis Suc_n_not_le_n nat_le_linear)
    with ix(2) recent_strip [OF _ other] have "recent m (Suc n) (se_dedup t)" by metis
    with st ix(3) pi assms(5) show ?thesis by simp
  qed
qed

lemma recent_run:
  "list_all serial_call cs \<Longrightarrow> recent m n (se_dedup s) \<Longrightarrow> n + length cs \<le> 63 \<Longrightarrow> m \<noteq> [] \<Longrightarrow> \<not> se_deleted s \<Longrightarrow>
   recent m (n + length cs) (se_dedup (fst (run_ops mutation_step (s, k) cs))) \<and>
   \<not> se_deleted (fst (run_ops mutation_step (s, k) cs))"
proof (induction cs arbitrary: s k n)
  case Nil
  then show ?case by simp
next
  case (Cons c cs)
  obtain s1 k1 where st: "mutation_step (s, k) c = (s1, k1)" by (meson surj_pair)
  from recent_step [of c m n s k] Cons.prems st
  have "recent m (Suc n) (se_dedup s1)" "\<not> se_deleted s1" by simp_all
  with Cons.IH [of "Suc n" s1 k1] Cons.prems st show ?case by simp
qed

text \<open>
  C9. A key takes effect once: after a call wrote under an idempotency key, and at most 63 further calls by
  anyone, whatever their outcome, a call with the same key is answered as a duplicate with the current
  document and revision, and changes nothing.
\<close>

theorem committed_key_not_repeated:
  assumes "wrote s t r (Some m)" and "m \<noteq> []" and "\<not> se_deleted s"
    and "list_all serial_call cs" and "length cs \<le> 63"
    and "run_ops mutation_step (t, k) cs = (u, k1)"
    and "serial_call c" and "mc_id c = Some m" and "guarded c \<noteq> None"
  shows "run_mutation c (u, k1) = (Inr (duplicate_result (fst (get_mapspec u)) (se_revision (snd (get_mapspec u))) (Some m)),
    (snd (get_mapspec u), Suc k1))"
proof -
  obtain xs e where "se_dedup t = xs @ [(m, e)]" using assms(1,2) by (auto simp: wrote_def)
  then have "recent m 0 (se_dedup t)" by (auto simp: recent_def)
  from recent_run [OF assms(4) this, of k] assms(1,2,3,5,6)
  have u: "recent m (length cs) (se_dedup u)" "\<not> se_deleted u" by (simp_all add: wrote_def)
  have "dedup_hit (se_dedup u) (Some m) \<noteq> None" using recent_found [OF u(1)] assms(2) by (simp add: dedup_hit_def)
  from prepare_known [OF this u(2)] assms(8,9) show ?thesis
    using serial_run [OF assms(7), of u k1] by auto
qed

section \<open>Revisions\<close>

text \<open>No call of the run makes a new project.\<close>

definition keeps_project :: "mutation_call \<Rightarrow> bool" where
  "keeps_project c = (case guarded c of None \<Rightarrow> True | Some j \<Rightarrow> \<not> is_init j)"

definition has_document :: "session \<Rightarrow> bool" where
  "has_document s = (case se_spec s of Some (Some d) \<Rightarrow> True | _ \<Rightarrow> False)"

lemma has_documentE: "has_document s \<Longrightarrow> (\<And>d. se_spec s = Some (Some d) \<Longrightarrow> P) \<Longrightarrow> P"
  by (auto simp: has_document_def split: option.splits)

lemma step_forward:
  assumes "serial_call c" and "keeps_project c" and "has_document s"
  shows "has_document (fst (mutation_step (s, k) c)) \<and> se_revision s \<le> se_revision (fst (mutation_step (s, k) c))"
proof (cases "guarded c")
  case None
  then show ?thesis using assms(3) by (simp add: blocked_step)
next
  case (Some j)
  from Some have g: "ec_guard (mc_ctx c) (mc_intent c) = Some (Some j)"
    by (auto simp: guarded_def split: option.splits)
  from assms(1) have h: "ec_lock (mc_ctx c) k = Lock_held" "ec_env (mc_ctx c) k s = s"
    by (simp_all add: serial_call_def serial_def)
  from assms(3) obtain d where d: "se_spec s = Some (Some d)" by (rule has_documentE)
  obtain res t k' where run: "run_mutation c (s, k) = (res, (t, k'))" by (metis surj_pair)
  have "\<not> is_init j" using assms(2) Some by (simp add: keeps_project_def)
  from held_cases [OF h(1) g _ this run [unfolded run_mutation_def], of d] h(2) d
  obtain r d' where "kept s t \<or> wrote s t r (mc_id c) \<or> undone s t r d'" by auto
  then have "has_document t \<and> se_revision s \<le> se_revision t"
    using assms(3) by (auto simp: kept_def wrote_def undone_def has_document_def split: option.splits)
  with run show ?thesis by (simp add: mutation_step_def)
qed

interpretation mutation_runs: op_system_rel mutation_step "\<lambda>w. has_document (fst w)"
  "\<lambda>c. serial_call c \<and> keeps_project c" "\<lambda>w w'. se_revision (fst w) \<le> se_revision (fst w')"
proof
  show "serial_call x \<and> keeps_project x \<Longrightarrow> has_document (fst s) \<Longrightarrow> has_document (fst (mutation_step s x))" for x s
    using step_forward [of x "fst s" "snd s"] by simp
  show "serial_call x \<and> keeps_project x \<Longrightarrow> has_document (fst s) \<Longrightarrow> se_revision (fst s) \<le> se_revision (fst (mutation_step s x))" for x s
    using step_forward [of x "fst s" "snd s"] by simp
qed auto

text \<open>
  C8. A revision is spent once: when a call moved a session with a document past a revision, then at any later
  point of a run in which no call makes a new project, a call that expects that revision leaves document,
  layers, revision and index alone.
\<close>

theorem revision_spent_once:
  assumes "has_document t" and "n < se_revision t"
    and "list_all (\<lambda>c. serial_call c \<and> keeps_project c) cs" and "run_ops mutation_step (t, k) cs = (u, k1)"
    and "serial_call c" and "mc_expected c = Some n"
  shows "kept u (fst (mutation_step (u, k1) c))"
proof -
  from mutation_runs.run_inv [OF assms(3), of "(t, k)"] assms(1,4) have "has_document u" by simp
  then obtain d where d: "se_spec u = Some (Some d)" by (rule has_documentE)
  from mutation_runs.run_rel [OF assms(3), of "(t, k)"] assms(1,2,4) have later: "n < se_revision u" by simp
  show ?thesis
  proof (cases "guarded c")
    case None
    then show ?thesis by (simp add: blocked_step kept_refl)
  next
    case (Some j)
    obtain v x where pr: "prepare (mc_ctx c) k1 j (mc_origin c) (mc_expected c) (mc_check c) (mc_id c) u = (v, x)"
      by (meson surj_pair)
    show ?thesis
    proof (cases x)
      case (Inl r)
      with Some pr have "fst (mutation_step (u, k1) c) = v" using serial_run [OF assms(5)] by (simp add: mutation_step_def)
      with prepare_refused pr Inl d show ?thesis by simp
    next
      case (Inr cd)
      from prepareD [OF pr [unfolded Inr]] get_mapspec_found [OF d] assms(6) later show ?thesis by simp
    qed
  qed
qed

end
