(* ===== verification/Mapspec_Restore.thy ===== *)
theory Mapspec_Restore
  imports Mapspec_Properties Carto_Layers
begin

text \<open>
  Named checkpoints through runs of the map document engine, and what a failed transaction does to a
  document or a checkpoint it did not make.
\<close>

section \<open>A checkpoint of another name\<close>

abbreviation dir_at :: "string \<Rightarrow> session \<Rightarrow> checkpoint option" where
  "dir_at cid s \<equiv> map_of (se_checkpoints s) cid"

lemma write_dir_other:
  "\<not> is_auto_id cid \<Longrightarrow> name \<noteq> cid \<Longrightarrow> dir_at cid (write_checkpoint_dir name ck s) = dir_at cid s"
  by (auto simp: write_checkpoint_dir_def prune_keeps_named dict_update_lookup simp del: map_of_eq_Some_iff split: option.splits)

lemma snapshot_other:
  assumes "snapshot_spec digest refs fresh spec c s = Some (t, name)"
    and "\<not> is_auto_id cid" and "is_auto_id fresh" and "c \<noteq> Some cid"
  shows "dir_at cid t = dir_at cid s"
proof -
  have "truthy c \<longrightarrow> or_else c [] \<noteq> cid" using assms(4) by (cases c) auto
  moreover have "fresh \<noteq> cid" using assms(2,3) by auto
  ultimately show ?thesis
    using assms(1,2)
    by (auto simp: snapshot_spec_def Let_def write_dir_other simp del: map_of_eq_Some_iff split: option.splits if_splits)
qed

lemma save_dirs: "save_mapspec fate cached spec revision lop dedup s = (t, ok) \<Longrightarrow> se_checkpoints t = se_checkpoints s"
  by (cases fate) (auto simp: save_mapspec_def Let_def commit_mapspec_state_def persist_disk_def restore_disk_def
      split: option.splits if_splits)

lemma fail_dirs:
  assumes "fail_mutation ec k mid cd None s = (t, r)"
  shows "se_checkpoints t = se_checkpoints s"
  using assms
  by (auto simp: fail_mutation_def roll_back_to_snapshot_def discard_mapspec_def Let_def
      split: prod.splits option.splits if_splits dest!: save_dirs)

text \<open>Contexts whose saves succeed and whose minted ids are the automatic ones.\<close>

definition saves_well :: "mutation_call \<Rightarrow> bool" where
  "saves_well c \<longleftrightarrow> ec_save (mc_ctx c) = (\<lambda>k. Save_done) \<and> (\<forall>k. is_auto_id (ec_fresh_id (mc_ctx c) k))"

text \<open>What the plans of the handlers say of checkpoints.\<close>

lemma dispatch_tidy:
  assumes "dispatch ec k who loaded prior i s = (Plan q, t)"
  shows "(pl_rollback q \<longrightarrow> \<not> pl_auto_checkpoint q \<and> pl_checkpoint q = None) \<and>
    (pl_auto_checkpoint q \<longrightarrow> pl_checkpoint q = None)"
proof -
  have simple: "simple_plan spec auto = Plan q \<Longrightarrow> pl_checkpoint q = None \<and> \<not> pl_rollback q" for spec auto
    by (auto simp: simple_plan_def)
  have raise: "or_raise x f = Plan q \<Longrightarrow> \<exists>y. x = Some y \<and> f y = Plan q" for x :: "'b option" and f
    by (cases x) auto
  show ?thesis
    using assms
    by (cases i)
      (auto simp: dispatch_def handle_checkpoint_def handle_rollback_def plain_out_def handle_initproject_def
        handle_setview_def handle_setbasemap_def handle_settime_def handle_setscenariomode_def
        handle_patchlayerpresentation_def handle_patchlayerstyle_def patch_layers_def handle_removelayer_def
        handle_reorderlayers_def handle_restorestyle_def handle_refreshdatarevision_def handle_setworkbenchstate_def
        handle_patchworkbenchdelta_def Let_def
        split: option.splits if_splits handler_out.splits patch_outcome.splits prod.splits
        dest!: raise simple)
qed

lemma dispatch_dirs:
  assumes "dispatch ec k who loaded prior i s = (out, t)"
    and "\<not> is_auto_id cid" and "is_auto_id (ec_fresh_id ec k)" and "i \<noteq> CheckpointIntent (Some cid)"
  shows "dir_at cid t = dir_at cid s"
  using assms snapshot_other [OF _ assms(2,3)]
  by (cases i) (auto simp: dispatch_def handle_checkpoint_def take_snapshot_def split: option.splits if_splits)

lemma finish_dirs:
  assumes run: "finish ec k False who mid cd s = (t, r)"
    and save: "ec_save ec k = Save_done" and named: "\<not> is_auto_id cid" "is_auto_id (ec_fresh_id ec k)"
    and tidy: "\<And>p. cd_plan cd = Some p \<Longrightarrow> (pl_rollback p \<longrightarrow> \<not> pl_auto_checkpoint p \<and> pl_checkpoint p = None) \<and>
      (pl_auto_checkpoint p \<longrightarrow> pl_checkpoint p = None)"
  shows "dir_at cid t = dir_at cid s"
proof (cases "cd_plan cd")
  case None
  with run have "fail_mutation ec k mid cd None s = (t, r)" by (simp add: finish_def)
  then show ?thesis by (simp add: fail_dirs)
next
  case (Some p)
  note tidy = tidy [OF Some]
  show ?thesis
  proof (cases "auto_checkpoint ec k p s")
    case None
    with tidy have "pl_checkpoint p = None" by (auto simp: auto_checkpoint_def split: if_splits)
    with run Some None have "fail_mutation ec k mid cd None s = (t, r)" by (simp add: finish_def)
    then show ?thesis by (simp add: fail_dirs)
  next
    case saved: (Some uc)
    obtain u c where uc: "uc = (u, c)" by fastforce
    have du: "dir_at cid u = dir_at cid s"
      using saved uc snapshot_other [OF _ named] by (auto simp: auto_checkpoint_def take_snapshot_def split: if_splits)
    have sp: "save_plan ec k who mid cd p c u = (t, r)" using run Some saved uc by (simp add: finish_def)
    show ?thesis
    proof (cases "plan_layer_op p (stamp_workbench (cd_prior cd + 1) (pl_spec p))")
      case None
      then have "pl_rollback p" by (auto simp: plan_layer_op_def split: if_splits)
      with tidy saved uc have "c = None" by (auto simp: auto_checkpoint_def)
      with sp None have "fail_mutation ec k mid cd None u = (t, r)" by (simp add: save_plan_def Let_def)
      with du show ?thesis by (simp add: fail_dirs)
    next
      case (Some lop)
      with sp save du show ?thesis
        by (auto simp: save_plan_def Let_def save_done commit_mapspec_state_def persist_disk_def)
    qed
  qed
qed

lemma build_tidy:
  assumes "build_candidate ec k i who check loaded s0 s = (t, Inr cd)" and "cd_plan cd = Some p"
  shows "(pl_rollback p \<longrightarrow> \<not> pl_auto_checkpoint p \<and> pl_checkpoint p = None) \<and>
    (pl_auto_checkpoint p \<longrightarrow> pl_checkpoint p = None)"
  using build_candidate_plan [OF assms] dispatch_tidy by (metis (no_types, lifting) plan.select_convs plan.surjective
      plan.update_convs review_plan_def)

lemma build_dirs:
  assumes "build_candidate ec k i who check loaded s0 s = (t, x)"
    and "\<not> is_auto_id cid" and "is_auto_id (ec_fresh_id ec k)" and "i \<noteq> CheckpointIntent (Some cid)"
  shows "dir_at cid t = dir_at cid s"
  using assms(1) dispatch_dirs [OF _ assms(2,3,4)]
  by (auto simp: build_candidate_def Let_def simp del: map_of_eq_Some_iff
      split: option.splits if_splits prod.splits handler_out.splits)

lemma prepare_dirs:
  assumes "prepare ec k i who expected check mid s = (t, x)"
    and "\<not> is_auto_id cid" and "is_auto_id (ec_fresh_id ec k)" and "i \<noteq> CheckpointIntent (Some cid)"
  shows "dir_at cid t = dir_at cid s"
  using assms(1) build_dirs [OF _ assms(2,3,4)]
  by (auto simp: prepare_def get_mapspec_keeps case_prod_beta simp del: map_of_eq_Some_iff split: if_splits)

definition other_checkpoint :: "string \<Rightarrow> mutation_call \<Rightarrow> bool" where
  "other_checkpoint cid c = (guarded c \<noteq> Some (CheckpointIntent (Some cid)))"

lemma step_dirs:
  assumes "serial_call c" and "saves_well c" and "other_checkpoint cid c" and "\<not> is_auto_id cid"
  shows "dir_at cid (fst (mutation_step (s, k) c)) = dir_at cid s"
proof (cases "guarded c")
  case None
  then show ?thesis by (simp add: blocked_step)
next
  case (Some j)
  obtain u x where pr: "prepare (mc_ctx c) k j (mc_origin c) (mc_expected c) (mc_check c) (mc_id c) s = (u, x)"
    by (meson surj_pair)
  from assms(2) have sv: "ec_save (mc_ctx c) k = Save_done" "is_auto_id (ec_fresh_id (mc_ctx c) k)"
    by (simp_all add: saves_well_def)
  have du: "dir_at cid u = dir_at cid s"
    using prepare_dirs [OF pr assms(4) sv(2)] assms(3) Some by (auto simp: other_checkpoint_def)
  show ?thesis
  proof (cases x)
    case (Inl r)
    with Some pr du show ?thesis using serial_run [OF assms(1)] by (simp add: mutation_step_def)
  next
    case (Inr cd)
    obtain t r where fin: "finish (mc_ctx c) k False (mc_origin c) (mc_id c) cd u = (t, r)" by (meson surj_pair)
    from prepareD [OF pr [unfolded Inr]] build_tidy
    have "\<And>p. cd_plan cd = Some p \<Longrightarrow> (pl_rollback p \<longrightarrow> \<not> pl_auto_checkpoint p \<and> pl_checkpoint p = None) \<and>
      (pl_auto_checkpoint p \<longrightarrow> pl_checkpoint p = None)" by blast
    from finish_dirs [OF fin sv(1) assms(4) sv(2) this] du
    have "dir_at cid t = dir_at cid s" by simp
    with Some pr Inr fin show ?thesis using serial_run [OF assms(1)] by (simp add: mutation_step_def)
  qed
qed

lemma run_dirs:
  "list_all (\<lambda>c. serial_call c \<and> saves_well c \<and> other_checkpoint cid c) cs \<Longrightarrow> \<not> is_auto_id cid \<Longrightarrow>
   dir_at cid (fst (run_ops mutation_step w cs)) = dir_at cid (fst w)"
proof (induction cs arbitrary: w)
  case Nil
  then show ?case by simp
next
  case (Cons c cs)
  obtain s k where w: "w = (s, k)" by fastforce
  from step_dirs [of c cid s k] Cons.prems w have "dir_at cid (fst (mutation_step w c)) = dir_at cid (fst w)" by simp
  with Cons show ?case by simp
qed

section \<open>The round trip\<close>

text \<open>A document as the engine stores it: no transient keys, the organisation document stamped.\<close>

definition settled_doc :: "pydict \<Rightarrow> bool" where
  "settled_doc d = (d \<noteq> [] \<and> strip_transient_state d = d \<and>
     (case entry_dict (py_get d ''workbench'') of None \<Rightarrow> True | Some wb \<Rightarrow> map_of wb ''_rev'' \<noteq> Some PNone))"

lemma settled_stamp: "settled_doc d \<Longrightarrow> stamp_workbench n d = d"
  by (auto simp: settled_doc_def stamp_workbench_def split: option.splits)

text \<open>A checkpoint call that moved the revision left the document under its name.\<close>

lemma checkpoint_taken:
  assumes "serial_call c" and "saves_well c" and "guarded c = Some (CheckpointIntent (Some cid))"
    and "se_spec s = Some (Some d)" and "d \<noteq> []" and "cid \<noteq> []" and "\<not> is_auto_id cid" and "dir_at cid s = None"
    and "run_mutation c (s, k) = (Inr r, (t, k1))" and "\<not> rs_error r" and "se_revision t \<noteq> se_revision s"
  shows "\<exists>ck. dir_at cid t = Some ck \<and> ck_spec ck = d"
proof -
  let ?i = "CheckpointIntent (Some cid)"
  obtain u x where pr: "prepare (mc_ctx c) k ?i (mc_origin c) (mc_expected c) (mc_check c) (mc_id c) s = (u, x)"
    by (meson surj_pair)
  note run = serial_run [OF assms(1), of s k, unfolded assms(3) pr option.case prod.case]
  show ?thesis
  proof (cases x)
    case (Inl y)
    with run assms(9) have "t = u" by simp
    with prepare_refused pr Inl assms(4,11) show ?thesis by (fastforce simp: kept_def)
  next
    case (Inr cd)
    obtain t' r' where "finish (mc_ctx c) k False (mc_origin c) (mc_id c) cd u = (t', r')" by (meson surj_pair)
    with run Inr assms(9) have fin: "finish (mc_ctx c) k False (mc_origin c) (mc_id c) cd u = (t, r)" by simp
    from prepareD [OF pr [unfolded Inr]] get_mapspec_found [OF assms(4)]
    have b: "build_candidate (mc_ctx c) k ?i (mc_origin c) (mc_check c) (Some d) s s = (u, Inr cd)" by simp
    from assms(2) have sv: "ec_save (mc_ctx c) k = Save_done" "is_auto_id (ec_fresh_id (mc_ctx c) k)"
      by (simp_all add: saves_well_def)
    have "dir_at cid t = dir_at cid u"
      by (rule finish_dirs [OF fin sv(1) assms(7) sv(2)]) (use build_tidy [OF b] in blast)
    moreover obtain ck where "dir_at cid u = Some ck" "ck_spec ck = d"
    proof (cases "take_snapshot (mc_ctx c) k d (Some cid) s")
      case None
      with b assms(5) have "cd_plan cd = None"
        by (auto simp: build_candidate_def Let_def dispatch_def handle_checkpoint_def needs_skeleton_def copy_of_def
            is_init_def described_def split: option.splits)
      with fin fail_result assms(10) show ?thesis by (auto simp: finish_def)
    next
      case (Some vn)
      then obtain v where v: "vn = (v, cid)" "take_snapshot (mc_ctx c) k d (Some cid) s = Some (v, cid)"
        using assms(6) by (auto simp: take_snapshot_def snapshot_spec_def Let_def split: if_splits)
      with b assms(5) have "u = v"
        by (auto simp: build_candidate_def Let_def dispatch_def handle_checkpoint_def needs_skeleton_def copy_of_def
            is_init_def described_def split: option.splits if_splits)
      with v(2) assms(6,7,8) that show ?thesis
        by (auto simp: take_snapshot_def snapshot_spec_def Let_def write_checkpoint_dir_def prune_keeps_named
            dict_update_lookup simp del: map_of_eq_Some_iff split: if_splits)
    qed
    ultimately show ?thesis by metis
  qed
qed

lemma rollback_written:
  assumes "serial_call c" and "guarded c = Some (RollbackIntent cid)"
    and "has_document s" and "dir_at cid s = Some ck" and "valid_checkpoint_id cid"
    and "ec_restorable (mc_ctx c) k ck"
    and "settled_doc (ck_spec ck)"
    and "run_mutation c (s, k) = (Inr r, (t, k1))" and "\<not> rs_error r" and "se_revision t \<noteq> se_revision s"
  shows "se_spec t = Some (Some (ck_spec ck)) \<and> Some (se_layers t) = layers_of (Some (ck_spec ck))"
proof -
  let ?i = "RollbackIntent cid"
  obtain d where d: "se_spec s = Some (Some d)" using assms(3) by (rule has_documentE)
  obtain u x where pr: "prepare (mc_ctx c) k ?i (mc_origin c) (mc_expected c) (mc_check c) (mc_id c) s = (u, x)"
    by (meson surj_pair)
  note run = serial_run [OF assms(1), of s k, unfolded assms(2) pr option.case prod.case]
  show ?thesis
  proof (cases x)
    case (Inl y)
    with run assms(8) have "t = u" by simp
    with prepare_refused pr Inl d assms(10) show ?thesis by (fastforce simp: kept_def)
  next
    case (Inr cd)
    obtain t' r' where "finish (mc_ctx c) k False (mc_origin c) (mc_id c) cd u = (t', r')" by (meson surj_pair)
    with run Inr assms(8) have fin: "finish (mc_ctx c) k False (mc_origin c) (mc_id c) cd u = (t, r)" by simp
    from prepareD [OF pr [unfolded Inr]] get_mapspec_found [OF d]
    have b: "build_candidate (mc_ctx c) k ?i (mc_origin c) (mc_check c) (Some d) s s = (u, Inr cd)" by simp
    let ?p = "\<lparr>pl_spec = ck_spec ck, pl_auto_checkpoint = False, pl_layer_op = None, pl_rollback = True, pl_checkpoint = None\<rparr>"
    have rv: "review_plan (mc_ctx c) ?p = ?p"
      using assms(7) review_only [of "ec_review (mc_ctx c)"]
      by (auto simp: review_plan_def reviewed_def Let_def final_layer_op_def settled_doc_def or_else_def split: option.splits)
    have out: "dispatch (mc_ctx c) k (mc_origin c) (Some d) (se_revision s) ?i s = (Plan ?p, s)"
      using assms(4,5,6) by (simp add: dispatch_def handle_rollback_def rollback_spec_def)
    from b out rv have cd: "cd_plan cd = Some ?p" "u = s"
      by (auto simp: build_candidate_def Let_def needs_skeleton_def is_rollback_intent_def described_def split: option.splits)
    then have sp: "save_plan (mc_ctx c) k (mc_origin c) (mc_id c) cd ?p None s = (t, r)"
      using fin by (simp add: finish_def auto_checkpoint_def)
    show ?thesis
    proof (cases "layers_of (Some (ck_spec ck))")
      case None
      with sp settled_stamp [OF assms(7)] have "fail_mutation (mc_ctx c) k (mc_id c) cd None s = (t, r)"
        by (simp add: save_plan_def Let_def plan_layer_op_def layers_of_def copy_of_def)
      with fail_result assms(9) show ?thesis by blast
    next
      case (Some ls)
      obtain v ok where sv: "save_mapspec (ec_save (mc_ctx c) k) (ec_cached (mc_ctx c) k) (ck_spec ck) (cd_prior cd + 1)
          (Some (Replace_op ls)) (dedup_commit_fields (cd_index cd) (mc_id c) (cd_prior cd + 1) (ec_now (mc_ctx c) k) (mc_origin c)) s = (v, ok)"
        by (meson surj_pair)
      show ?thesis
      proof (cases ok)
        case True
        with sp sv Some settled_stamp [OF assms(7)] have "t = v"
          by (simp add: save_plan_def Let_def plan_layer_op_def layers_of_def copy_of_def)
        with save_returns [OF sv [unfolded eqTrueI [OF True]]] Some show ?thesis
          by (simp add: commit_mapspec_state_def commit_layer_op_def)
      next
        case False
        with sp sv Some settled_stamp [OF assms(7)] have "fail_mutation (mc_ctx c) k (mc_id c) cd None v = (t, r)"
          by (simp add: save_plan_def Let_def plan_layer_op_def layers_of_def copy_of_def)
        with fail_result assms(9) show ?thesis by blast
      qed
    qed
  qed
qed

text \<open>
  C10. A named checkpoint brings its document back: after a call that took it, and any calls that make no new
  project, take no checkpoint of that name and meet no failing save, a rollback to it that is accepted leaves
  exactly the document it was taken from, and the runtime layers of that document, provided that the data it
  refers to can be restored. No other worker takes part, and the name is new and not one of the automatic ones.
\<close>

theorem checkpoint_roundtrip:
  assumes "serial_call c0" and "saves_well c0" and "guarded c0 = Some (CheckpointIntent (Some cid))"
    and "se_spec s = Some (Some d)" and "settled_doc d" and "cid \<noteq> []" and "\<not> is_auto_id cid" and "dir_at cid s = None"
    and "run_mutation c0 (s, k) = (Inr r0, (t, k0))" and "\<not> rs_error r0" and "se_revision t \<noteq> se_revision s"
    and "list_all (\<lambda>c. serial_call c \<and> keeps_project c \<and> saves_well c \<and> other_checkpoint cid c) cs"
    and "run_ops mutation_step (t, k0) cs = (u, k1)"
    and "serial_call c1" and "guarded c1 = Some (RollbackIntent cid)" and "valid_checkpoint_id cid"
    and "ec_restorable (mc_ctx c1) = (\<lambda>k ck. True)"
    and "run_mutation c1 (u, k1) = (Inr r1, (v, k2))" and "\<not> rs_error r1" and "se_revision v \<noteq> se_revision u"
  shows "se_spec v = Some (Some d) \<and> Some (se_layers v) = layers_of (Some d)"
proof -
  have "d \<noteq> []" using assms(5) by (simp add: settled_doc_def)
  from checkpoint_taken [OF assms(1-4) this assms(6-11)] obtain ck where ck: "dir_at cid t = Some ck" "ck_spec ck = d" by blast
  have cs: "list_all (\<lambda>c. serial_call c \<and> saves_well c \<and> other_checkpoint cid c) cs"
    "list_all (\<lambda>c. serial_call c \<and> keeps_project c) cs"
    using assms(12) by (simp_all add: list_all_iff)
  from run_dirs [OF cs(1) assms(7), of "(t, k0)"] assms(13) ck have at: "dir_at cid u = Some ck" by simp
  have "keeps_project c0" by (simp add: keeps_project_def assms(3) is_init_def)
  with step_forward [OF assms(1), of s k] assms(4,9) have "has_document t"
    by (simp add: has_document_def mutation_step_def)
  with mutation_runs.run_inv [OF cs(2), of "(t, k0)"] assms(13) have "has_document u" by simp
  from rollback_written [OF assms(14,15) this at assms(16)] assms(5,17-20) ck(2) show ?thesis by simp
qed

end
