(* ===== verification/Gis_Mutation.thy ===== *)
theory Gis_Mutation
  imports Mapspec_Engine
begin

text \<open>
  The entry of all map mutations (\<open>app/services/gis_world_state/mutation.py\<close>): the guard that keeps an agent
  from reversing what the user decided about a layer, the call of the engine, and the record of what was done
  (\<open>provenance.py\<close>, \<open>envelope.py\<close>). Notifications to other components have no effect on the session and are
  not modelled.
\<close>

section \<open>The record of decisions\<close>

definition PROVENANCE_LIMIT :: nat where "PROVENANCE_LIMIT = 64"

definition append_provenance :: "provenance_entry \<Rightarrow> session \<Rightarrow> session" where
  "append_provenance e s = s\<lparr>se_provenance := take_last PROVENANCE_LIMIT (se_provenance s @ [e])\<rparr>"

text \<open>What an entry says of the visibility of a layer, if it is about it; a batch that says both says nothing.\<close>

definition layer_decision :: "string \<Rightarrow> provenance_entry \<Rightarrow> provenance_entry option" where
  "layer_decision layer e =
     (if pv_kind e = ''GISMutationBatch'' then
        (let shown = (layer \<in> set (pv_shown e)); hidden = (layer \<in> set (pv_hidden e))
         in if shown = hidden then None else Some (e\<lparr>pv_target := Some layer, pv_visible := Some shown\<rparr>))
      else if pv_kind e = ''PatchLayerPresentationIntent'' \<and> pv_target e = Some layer then Some e
      else None)"

definition newest_decision :: "provenance_entry option \<Rightarrow> provenance_entry \<Rightarrow> provenance_entry option" where
  "newest_decision best e = (case best of
     None \<Rightarrow> if pv_revision e \<ge> - 1 then Some e else None
   | Some b \<Rightarrow> if pv_revision e \<ge> pv_revision b then Some e else best)"

definition last_presentation_owner :: "provenance_entry list \<Rightarrow> string \<Rightarrow> provenance_entry option" where
  "last_presentation_owner entries layer = foldl newest_decision None (List.map_filter (layer_decision layer) entries)"

section \<open>The guard of the user's decisions\<close>

definition user_wins_result :: mutation_result where
  "user_wins_result = error_result ''user_wins_presentation''"

definition should_match_layer_family :: "pyval \<Rightarrow> string \<Rightarrow> bool" where
  "should_match_layer_family lid target = layer_matches_removal_family lid target"

definition layer_intent_of :: "pydict \<Rightarrow> pydict" where
  "layer_intent_of layer = dict_if (py_get layer ''cartographic_intent'')"

definition user_owned :: "pydict \<Rightarrow> bool" where
  "user_owned layer = (py_get (layer_intent_of layer) ''presentation_owner'' = PStr ''user'')"

definition spec_layers :: "pydict \<Rightarrow> pydict list" where
  "spec_layers spec = (let v = py_get spec ''layers''
     in if py_truthy v then List.map_filter entry_dict (or_else (iter_values v) []) else [])"

definition owned_in_family :: "pydict \<Rightarrow> string \<Rightarrow> pydict list" where
  "owned_in_family spec target =
     filter (\<lambda>l. user_owned l \<and> should_match_layer_family (py_get l ''id'') target) (spec_layers spec)"

text \<open>The user's value of a layer that contradicts an agent's one.\<close>

definition contradicts :: "bool \<Rightarrow> pydict \<Rightarrow> bool" where
  "contradicts visible layer = (let v = py_get (layer_intent_of layer) ''expected_visible''
     in v \<noteq> PNone \<and> py_truthy v \<noteq> visible)"

definition check_user_presentation_guard :: "intent \<Rightarrow> origin \<Rightarrow> pydict option \<Rightarrow> bool" where
  "check_user_presentation_guard i who prior =
     (who = By_agent \<and> (case prior of None \<Rightarrow> False | Some spec \<Rightarrow>
       (case i of
          RemoveLayerIntent target \<Rightarrow> owned_in_family spec target \<noteq> []
        | PatchLayerPresentationIntent target (Some visible) opac \<Rightarrow>
            list_ex (contradicts visible) (owned_in_family spec target)
        | _ \<Rightarrow> False)))"

text \<open>
  The older guard over the bounded record. An upsert (an intent outside) is judged by \<open>upsert\<close>, which gives
  the id and the visibility of its layer.
\<close>

definition ring_reverses :: "provenance_entry list \<Rightarrow> string \<Rightarrow> bool option \<Rightarrow> bool" where
  "ring_reverses entries layer visible = (case last_presentation_owner entries layer of
     None \<Rightarrow> False
   | Some e \<Rightarrow> pv_origin e = ''user'' \<and>
       (case visible of None \<Rightarrow> True | Some v \<Rightarrow> pv_visible e = Some (\<not> v)))"

definition check_user_presentation_guard_ring ::
  "(intent \<Rightarrow> (string \<times> bool) option) \<Rightarrow> provenance_entry list \<Rightarrow> intent \<Rightarrow> origin \<Rightarrow> pydict option \<Rightarrow> bool" where
  "check_user_presentation_guard_ring upsert entries i who prior =
     (who = By_agent \<and> (case i of
        PatchLayerPresentationIntent target (Some visible) opac \<Rightarrow> ring_reverses entries target (Some visible)
      | RemoveLayerIntent target \<Rightarrow>
          (case prior of None \<Rightarrow> True | Some spec \<Rightarrow> owned_in_family spec target = []) \<and> ring_reverses entries target None
      | OtherIntent kind args \<Rightarrow> (case upsert i of None \<Rightarrow> False | Some (lid, visible) \<Rightarrow> lid \<noteq> [] \<and>
          (case prior of None \<Rightarrow> True | Some spec \<Rightarrow>
             list_ex (\<lambda>l. should_match_layer_family (py_get l ''id'') lid) (spec_layers spec) \<and> owned_in_family spec lid = []) \<and>
          ring_reverses entries lid (Some visible))
      | _ \<Rightarrow> False))"

definition locked_guard :: "(intent \<Rightarrow> (string \<times> bool) option) \<Rightarrow> commit_check" where
  "locked_guard upsert s i who prior =
     (if check_user_presentation_guard i who prior \<or>
         check_user_presentation_guard_ring upsert (se_provenance s) i who prior
      then Some user_wins_result else None)"

section \<open>The envelope\<close>

definition REPAIR_ACTORS :: "string list" where
  "REPAIR_ACTORS = [''runtime_repair'', ''map_finalizer'', ''finalize_display'']"

definition classify_producer :: "origin \<Rightarrow> string \<Rightarrow> string" where
  "classify_producer who actor = (let a = strip actor in case who of
     By_user \<Rightarrow> ''USER_EXPLICIT''
   | By_agent \<Rightarrow> if a \<in> set REPAIR_ACTORS then ''REPAIR_AUTOFILL''
       else if a = ''tool:apply_template'' \<or> prefix ''tool:recipe_'' a then ''TEMPLATE'' else ''AGENT_EXPLICIT''
   | By_system \<Rightarrow> ''SYSTEM_DEFAULT'')"

definition envelope_id :: "string option \<Rightarrow> string \<Rightarrow> string" where
  "envelope_id mid minted = take 128 (if truthy mid then or_else mid [] else minted)"

fun intent_kind_name :: "intent \<Rightarrow> string" where
  "intent_kind_name (InitProjectIntent v t) = ''InitProjectIntent''"
| "intent_kind_name (SetViewIntent c z p b) = ''SetViewIntent''"
| "intent_kind_name (PatchLayerPresentationIntent l v opac) = ''PatchLayerPresentationIntent''"
| "intent_kind_name (PatchLayerStyleIntent l p) = ''PatchLayerStyleIntent''"
| "intent_kind_name (RemoveLayerIntent l) = ''RemoveLayerIntent''"
| "intent_kind_name (ReorderLayersIntent ls) = ''ReorderLayersIntent''"
| "intent_kind_name (SetBasemapIntent p r l v) = ''SetBasemapIntent''"
| "intent_kind_name (SetTimeIntent f) = ''SetTimeIntent''"
| "intent_kind_name (SetScenarioModeIntent m) = ''SetScenarioModeIntent''"
| "intent_kind_name (RefreshDataRevisionIntent r n) = ''RefreshDataRevisionIntent''"
| "intent_kind_name (RestoreStyleIntent s) = ''RestoreStyleIntent''"
| "intent_kind_name (SetWorkbenchStateIntent d b) = ''SetWorkbenchStateIntent''"
| "intent_kind_name (PatchWorkbenchDeltaIntent d) = ''PatchWorkbenchDeltaIntent''"
| "intent_kind_name (CheckpointIntent c) = ''CheckpointIntent''"
| "intent_kind_name (RollbackIntent c) = ''RollbackIntent''"
| "intent_kind_name (OtherIntent kind args) = kind"

definition intent_target_of :: "intent \<Rightarrow> string option" where
  "intent_target_of i = (case i of
     PatchLayerPresentationIntent l v opac \<Rightarrow> Some l | PatchLayerStyleIntent l p \<Rightarrow> Some l
   | RemoveLayerIntent l \<Rightarrow> Some l
   | OtherIntent kind args \<Rightarrow> first_some (\<lambda>k. case py_get args k of PStr s \<Rightarrow> Some s | _ \<Rightarrow> None)
       [''layer_id'', ''component_id'', ''source_id'']
   | _ \<Rightarrow> None)"

definition provenance_of :: "intent \<Rightarrow> origin \<Rightarrow> mutation_result \<Rightarrow> provenance_entry" where
  "provenance_of i who r = \<lparr>pv_origin = origin_value who, pv_kind = intent_kind_name i, pv_target = intent_target_of i,
     pv_revision = rs_revision r,
     pv_visible = (case i of PatchLayerPresentationIntent l v opac \<Rightarrow> v | _ \<Rightarrow> None),
     pv_shown = [], pv_hidden = []\<rparr>"

section \<open>The entry\<close>

text \<open>
  Before the lock only a patch or a removal is checked, against the record. After a commit the record gets one
  entry, if it can be written (\<open>ec_recorded\<close>). A result without id or class gets the envelope's.
\<close>

definition with_envelope :: "string \<Rightarrow> string \<Rightarrow> mutation_result \<Rightarrow> mutation_result" where
  "with_envelope mid producer r = r\<lparr>rs_producer := (if truthy (rs_producer r) then rs_producer r else Some producer),
     rs_mutation_id := (if truthy (rs_mutation_id r) then rs_mutation_id r else Some mid)\<rparr>"

definition prechecked :: "intent \<Rightarrow> bool" where
  "prechecked i = (case i of PatchLayerPresentationIntent l v opac \<Rightarrow> True | RemoveLayerIntent l \<Rightarrow> True | _ \<Rightarrow> False)"

definition apply_gis_mutation :: "engine_ctx \<Rightarrow> (intent \<Rightarrow> (string \<times> bool) option) \<Rightarrow> intent \<Rightarrow> origin \<Rightarrow> string \<Rightarrow>
    int option \<Rightarrow> string option \<Rightarrow> mutation_result session_prog" where
  "apply_gis_mutation ec upsert i who actor expected mid =
     seq (tick (\<lambda>k. k)) (\<lambda>k.
     seq (pause (ec_env ec)) (\<lambda>_.
     seq (query se_provenance) (\<lambda>entries.
       if prechecked i \<and> check_user_presentation_guard_ring upsert entries i who None then ret user_wins_result
       else let eid = envelope_id mid (ec_mint ec k) in
         seq (apply_mutation ec i who expected (locked_guard upsert) (Some eid)) (\<lambda>r0.
           let r = with_envelope eid (classify_producer who actor) r0
           in if rs_error r \<or> rs_superseded r \<or> rs_duplicate r then ret r
              else seq (pause (ec_env ec)) (\<lambda>_.
                   seq (commit (\<lambda>s. (if ec_recorded ec k then append_provenance (provenance_of i who r) s else s, ()))) (\<lambda>_.
                     ret r))))))"

end
