(* ===== verification/Mapspec_Locks.thy ===== *)
theory Mapspec_Locks
  imports Mapspec_Properties Gis_Mutation Carto_Layers
begin

text \<open>
  What mutations by agents and by the system leave of the layers the user locked, and what mutations by agents
  leave of the layers whose presentation the user decided.
\<close>

section \<open>Patches and removals, layer by layer\<close>

lemma doc_layers_stamp: "doc_layers (stamp_workbench n d) = doc_layers d"
  by (auto simp: stamp_workbench_def doc_layers_other split: option.splits)

lemma patch_family_member:
  "patch_family f target vs = Some (vs', hit) \<Longrightarrow> PDict l \<in> set vs \<Longrightarrow>
   (if should_remove_layer l target then \<exists>p. f l = Some p \<and> PDict p \<in> set vs' else PDict l \<in> set vs')"
proof (induction vs arbitrary: vs' hit)
  case Nil
  then show ?case by simp
next
  case (Cons v vs)
  then obtain v' h ws hs where step:
    "(case v of PDict layer \<Rightarrow>
        if should_remove_layer layer target then map_option (\<lambda>p. (PDict p, True)) (f layer) else Some (v, False)
      | _ \<Rightarrow> Some (v, False)) = Some (v', h)"
    and rest: "patch_family f target vs = Some (ws, hs)" "vs' = v' # ws"
    by (auto split: option.splits)
  show ?case
  proof (cases "v = PDict l")
    case True
    with step rest show ?thesis by (auto split: if_splits)
  next
    case False
    with Cons.prems have "PDict l \<in> set vs" by auto
    with Cons.IH [OF rest(1)] rest(2) show ?thesis by (auto split: if_splits)
  qed
qed

text \<open>The one layer id of a patch of presentation or style or of a removal.\<close>

definition layer_target :: "intent \<Rightarrow> string option" where
  "layer_target i = (case i of PatchLayerPresentationIntent l v opac \<Rightarrow> Some l | PatchLayerStyleIntent l p \<Rightarrow> Some l
     | RemoveLayerIntent l \<Rightarrow> Some l | _ \<Rightarrow> None)"

lemma patch_layers_plan:
  assumes "patch_layers f (Some d) target = Plan q" and "PDict l \<in> set (doc_layers d)"
  shows "if should_remove_layer l target then \<exists>p. f l = Some p \<and> PDict p \<in> set (doc_layers (pl_spec q))
    else PDict l \<in> set (doc_layers (pl_spec q))"
proof -
  obtain ls ps hit where ls: "layers_of (Some d) = Some ls" "patch_family f target ls = Some (ps, hit)"
    "doc_layers (pl_spec q) = ps"
    using assms(1) by (cases "layers_of (Some d)"; cases "patch_family f target (the (layers_of (Some d)))")
      (auto simp: patch_layers_def simple_plan_def split: if_splits)
  with assms(2) patch_family_member [OF ls(2)] show ?thesis by (simp add: doc_layers_def)
qed

lemma patch_family_origin:
  "patch_family f target vs = Some (vs', hit) \<Longrightarrow> PDict p \<in> set vs' \<Longrightarrow>
   PDict p \<in> set vs \<or> (\<exists>l. PDict l \<in> set vs \<and> should_remove_layer l target \<and> f l = Some p)"
proof (induction vs arbitrary: vs' hit)
  case (Cons v vs)
  then obtain v' h ws hs where step:
    "(case v of PDict layer \<Rightarrow>
        if should_remove_layer layer target then map_option (\<lambda>p. (PDict p, True)) (f layer) else Some (v, False)
      | _ \<Rightarrow> Some (v, False)) = Some (v', h)"
    and rest: "patch_family f target vs = Some (ws, hs)" "vs' = v' # ws"
    by (auto split: option.splits)
  from Cons.prems(2) rest(2) consider "v' = PDict p" | "PDict p \<in> set ws" by auto
  then show ?case
  proof cases
    case 1
    with step show ?thesis by (auto split: pyval.splits if_splits)
  next
    case 2
    from Cons.IH [OF rest(1) this] show ?thesis by auto
  qed
qed simp

lemma patch_layers_origin:
  assumes "patch_layers f (Some d) target = Plan q" and "PDict p \<in> set (doc_layers (pl_spec q))"
  shows "PDict p \<in> set (doc_layers d) \<or> (\<exists>l. PDict l \<in> set (doc_layers d) \<and> should_remove_layer l target \<and> f l = Some p)"
proof -
  obtain ls ps hit where ls: "layers_of (Some d) = Some ls" "patch_family f target ls = Some (ps, hit)"
    "doc_layers (pl_spec q) = ps"
    using assms(1) by (cases "layers_of (Some d)"; cases "patch_family f target (the (layers_of (Some d)))")
      (auto simp: patch_layers_def simple_plan_def split: if_splits)
  with assms(2) patch_family_origin [OF ls(2)] show ?thesis by (simp add: doc_layers_def)
qed

lemma outside_family_kept:
  assumes "dispatch ec k who (Some d) n i s = (Plan q, u)" and "layer_target i = Some target"
    and "PDict l \<in> set (doc_layers d)" and "\<not> should_remove_layer l target"
  shows "PDict l \<in> set (doc_layers (pl_spec q))"
proof (cases i)
  case (PatchLayerPresentationIntent x v opac)
  with assms patch_layers_plan [of _ d target q l] show ?thesis
    by (auto simp: dispatch_def handle_patchlayerpresentation_def layer_target_def)
next
  case (PatchLayerStyleIntent x p)
  with assms patch_layers_plan [of _ d target q l] show ?thesis
    by (auto simp: dispatch_def handle_patchlayerstyle_def layer_target_def)
next
  case (RemoveLayerIntent x)
  with assms(1,2) have "handle_removelayer (Some d) target = Plan q" by (auto simp: dispatch_def layer_target_def)
  then obtain ls ds where ls: "layers_of (Some d) = Some ls" "all_some entry_dict ls = Some ds"
    "doc_layers (pl_spec q) = List.map PDict (filter (\<lambda>l. \<not> should_remove_layer l target) ds)"
    by (cases "layers_of (Some d)"; cases "all_some entry_dict (the (layers_of (Some d)))") (auto simp: handle_removelayer_def)
  have "ls = List.map PDict ds" using ls(2)
    by (induction ls arbitrary: ds) (auto simp: entry_dict_def split: option.splits pyval.splits)
  with ls(1,3) assms(3,4) show ?thesis by (auto simp: doc_layers_def)
qed (use assms(2) in \<open>auto simp: layer_target_def\<close>)

lemma removal_subset:
  assumes "handle_removelayer (Some d) target = Plan q"
  shows "set (doc_layers (pl_spec q)) \<subseteq> set (doc_layers d)"
proof -
  from assms obtain ls ds where ls: "layers_of (Some d) = Some ls" "all_some entry_dict ls = Some ds"
    "doc_layers (pl_spec q) = List.map PDict (filter (\<lambda>l. \<not> should_remove_layer l target) ds)"
    by (cases "layers_of (Some d)"; cases "all_some entry_dict (the (layers_of (Some d)))") (auto simp: handle_removelayer_def)
  have "ls = List.map PDict ds" using ls(2)
    by (induction ls arbitrary: ds) (auto simp: entry_dict_def split: option.splits pyval.splits)
  with ls(1,3) show ?thesis by (auto simp: doc_layers_def)
qed

section \<open>Locked layers\<close>

lemma target_declared:
  "layer_target i = Some target \<Longrightarrow> target \<in> set (fst (intent_lock_targets other i))"
  by (cases i) (auto simp: layer_target_def intent_lock_targets_def described_def)

lemma locked_outside_family:
  assumes "\<not> lock_matches lid target" and "\<not> prefix (target @ ''-'') lid" and "target \<noteq> []"
    and "py_get l ''id'' = PStr lid"
  shows "\<not> should_remove_layer l target"
  using assms by (auto simp: should_remove_family layer_id_text_str in_family_def lock_matches_def)

text \<open>The locks of the candidate are those of the document, also for the review.\<close>

lemma locked_ids_workbench:
  "py_get d ''workbench'' = py_get d' ''workbench'' \<Longrightarrow> locked_layer_ids_of (PDict d) = locked_layer_ids_of (PDict d')"
  by (simp add: locked_layer_ids_of_def lock_ids_of_def)

lemma locks_strip: "locked_layer_ids_of (PDict (strip_transient_state d)) = locked_layer_ids_of (PDict d)"
proof (rule locked_ids_workbench)
  have "map_of (filter (\<lambda>kv. fst kv \<notin> set TRANSIENT_INTERACTION_KEYS) d) ''workbench'' = map_of d ''workbench''"
    by (induction d) (auto simp: TRANSIENT_INTERACTION_KEYS_def)
  then show "py_get (strip_transient_state d) ''workbench'' = py_get d ''workbench''"
    by (simp add: strip_transient_state_def py_get_def)
qed

lemma plan_locks:
  assumes "dispatch ec k who (Some d) n i s = (Plan q, u)" and "layer_target i = Some target"
  shows "locked_layer_ids_of (PDict (pl_spec q)) = locked_layer_ids_of (PDict d)"
proof (rule locked_ids_workbench)
  have patch: "py_get (pl_spec q) ''workbench'' = py_get d ''workbench''" if "patch_layers f (Some d) target = Plan q" for f
    using that by (cases "layers_of (Some d)"; cases "patch_family f target (the (layers_of (Some d)))")
      (auto simp: patch_layers_def simple_plan_def copy_of_def py_get_update split: if_splits)
  have removal: "py_get (pl_spec q) ''workbench'' = py_get d ''workbench''" if "handle_removelayer (Some d) target = Plan q"
    using that by (cases "layers_of (Some d)"; cases "all_some entry_dict (the (layers_of (Some d)))")
      (auto simp: handle_removelayer_def copy_of_def py_get_update)
  from assms show "py_get (pl_spec q) ''workbench'' = py_get d ''workbench''"
    by (cases i) (auto simp: layer_target_def dispatch_def handle_patchlayerpresentation_def handle_patchlayerstyle_def
        dest!: patch removal)
qed

lemma reviewed_keeps_locked:
  assumes "PDict l \<in> set (doc_layers (pl_spec q))" and "py_get l ''id'' = PStr lid"
    and "lid \<in> set (locked_layer_ids_of (PDict (pl_spec q)))"
  shows "PDict l \<in> set (doc_layers (reviewed ec q))"
  using assms review_keeps_locked [of "ec_review ec" _ _ "strip_transient_state (pl_spec q)" _ l lid]
  by (auto simp: reviewed_def Let_def doc_layers_strip locks_strip or_else_def split: option.splits)

text \<open>
  C25. A committed patch or removal by an agent or the system leaves every layer the user locked exactly as it
  was, unless the id of the locked layer continues the id of the target after a hyphen; the lock guard does
  not cover that part of the family which patches and removals act on. The repairs of the cartographic review,
  whatever its rules ask for, do not touch a locked layer either.
\<close>

theorem locked_layers_kept:
  assumes "ec_lock ec k = Lock_held" and "ec_guard ec i = Some (Some j)"
    and "se_spec (ec_env ec k s0) = Some (Some d)"
    and "apply_mutation ec i who expected check mid (s0, k) = (Inr r, (t, k'))"
    and "\<not> rs_error r" and "se_revision t \<noteq> se_revision (ec_env ec k s0)" and "who \<noteq> By_user"
    and "layer_target j = Some target" and "target \<noteq> []"
    and "PDict l \<in> set (doc_layers d)" and "py_get l ''id'' = PStr lid"
    and "lid \<in> set (locked_layer_ids_of (PDict d))" and "\<not> prefix (target @ ''-'') lid"
  shows "\<exists>d'. se_spec t = Some (Some d') \<and> PDict l \<in> set (doc_layers d')"
proof -
  have init: "\<not> is_init j" using assms(8) by (auto simp: layer_target_def is_init_def split: intent.splits)
  have "d \<noteq> []" using assms(10) by (auto simp: doc_layers_def layers_of_def copy_of_def get_default_def)
  from committed_from_plan [OF assms(1,2) init assms(3) this assms(4-6)]
  obtain q u where d: "dispatch ec k who (Some d) (se_revision (ec_env ec k s0)) j (ec_env ec k s0) = (Plan q, u)"
    and spec: "rs_spec r = Some (stamp_workbench (rs_revision r) (reviewed ec q))" "se_spec t = Some (rs_spec r)"
    and g: "guard_intent_locks (ec_descriptor ec) (Some d) j who = None" by blast
  from guard_passes [OF g assms(7) target_declared [OF assms(8)] assms(12)] have "\<not> lock_matches lid target" .
  from locked_outside_family [OF this assms(13,9,11)] outside_family_kept [OF d assms(8,10)]
  have "PDict l \<in> set (doc_layers (pl_spec q))" by blast
  from reviewed_keeps_locked [OF this assms(11)] assms(12) spec plan_locks [OF d assms(8)]
  show ?thesis by (simp add: doc_layers_stamp)
qed

section \<open>The user's decisions on presentation\<close>

lemma patched_intent:
  assumes "patch_layer_presentation l (Some v) opac who = Some p"
  shows "py_get p ''id'' = py_get l ''id'' \<and>
    (case dict_or_empty (py_get l ''cartographic_intent'') of None \<Rightarrow> False
     | Some c \<Rightarrow> layer_intent_of p = presentation_intent c v who)"
proof -
  have get: "py_get (AList.update a x m) b = (if b = a then x else py_get m b)" for a x m b
    by (simp add: py_get_def dict_update_lookup)
  have del: "b \<noteq> a \<Longrightarrow> py_get (AList.delete a m) b = py_get m b" for a m b
    by (simp add: py_get_def dict_delete_lookup)
  show ?thesis
    using assms
    by (auto simp: patch_layer_presentation_def patch_visibility_def patch_opacity_def Let_def get del
        layer_intent_of_def dict_if_def split: option.splits if_splits)
qed

text \<open>The user's decision on a layer: that it is the user's, and visible or not.\<close>

definition user_decided :: "pydict \<Rightarrow> string \<Rightarrow> bool \<Rightarrow> bool" where
  "user_decided l lid v = (py_get l ''id'' = PStr lid \<and> user_owned l \<and>
     py_get (layer_intent_of l) ''expected_visible'' \<noteq> PNone \<and>
     py_truthy (py_get (layer_intent_of l) ''expected_visible'') = v)"

lemma presentation_intent_same:
  assumes "py_get c ''presentation_owner'' = PStr ''user''" and "py_get c ''expected_visible'' \<noteq> PNone"
    and "py_truthy (py_get c ''expected_visible'') = v"
  shows "py_get (presentation_intent c v who) ''presentation_owner'' = PStr ''user'' \<and>
    py_get (presentation_intent c v who) ''expected_visible'' = PBool v"
  using assms by (simp add: presentation_intent_def Let_def py_get_def dict_update_lookup)

lemma decided_dict:
  assumes "user_decided l lid v"
  shows "dict_or_empty (py_get l ''cartographic_intent'') = Some (layer_intent_of l)"
  using assms
  by (cases "py_get l ''cartographic_intent''")
    (auto simp: user_decided_def user_owned_def layer_intent_of_def dict_if_def dict_or_empty_def entry_dict_def py_get_def)

lemma spec_layers_member: "PDict l \<in> set (doc_layers d) \<Longrightarrow> l \<in> set (spec_layers d)"
proof -
  assume a: "PDict l \<in> set (doc_layers d)"
  have look: "List.map_filter entry_dict ls = ds \<Longrightarrow> PDict l \<in> set ls \<Longrightarrow> l \<in> set ds" for ls ds
    by (induction ls arbitrary: ds) (auto simp: List.map_filter_simps entry_dict_def split: option.splits)
  obtain x where m: "map_of d ''layers'' = Some x"
    using a by (cases "map_of d ''layers''") (simp_all add: doc_layers_def layers_of_def copy_of_def get_default_def iter_values_def)
  then have "layers_of (Some d) = iter_values x"
    by (simp add: layers_of_def copy_of_def get_default_def del: map_of_eq_Some_iff)
  with a obtain ls where ls: "iter_values x = Some ls" "PDict l \<in> set ls"
    by (cases "iter_values x") (simp_all add: doc_layers_def)
  note x = m ls
  have "py_truthy x" using x(2,3) by (cases x) (auto simp: iter_values_def)
  with x look show ?thesis by (simp add: spec_layers_def py_get_def Let_def del: map_of_eq_Some_iff)
qed

lemma decided_same:
  "user_decided l lid v \<Longrightarrow> py_get p ''id'' = py_get l ''id'' \<Longrightarrow>
   py_get p ''cartographic_intent'' = py_get l ''cartographic_intent'' \<Longrightarrow> user_decided p lid v"
  by (simp add: user_decided_def user_owned_def layer_intent_of_def)

lemma decided_patched:
  assumes "user_decided l lid v" and "patch_layer_presentation l (Some v) opac who = Some p"
  shows "user_decided p lid v"
proof -
  from patched_intent [OF assms(2)] decided_dict [OF assms(1)]
  have p: "py_get p ''id'' = py_get l ''id''" "layer_intent_of p = presentation_intent (layer_intent_of l) v who" by auto
  from assms(1) presentation_intent_same [of "layer_intent_of l" v who]
  show ?thesis by (simp add: user_decided_def user_owned_def p)
qed

lemma paint_patched:
  assumes "patch_layer_presentation l None opac who = Some p \<or> patch_style paint l = Some p"
  shows "py_get p ''id'' = py_get l ''id'' \<and> py_get p ''cartographic_intent'' = py_get l ''cartographic_intent''"
proof -
  have get: "b \<noteq> a \<Longrightarrow> py_get (AList.update a x m) b = py_get m b" for a x m b
    by (simp add: py_get_def dict_update_lookup)
  show ?thesis
    using assms by (auto simp: patch_layer_presentation_def patch_opacity_def patch_style_def Let_def get
        split: option.splits if_splits)
qed

lemma decided_presented:
  assumes "user_decided l lid v" and "patch_layer_presentation l w opac who = Some p"
    and "\<And>b. w = Some b \<Longrightarrow> \<not> contradicts b l"
  shows "user_decided p lid v"
proof (cases w)
  case None
  with assms(2) paint_patched [of l opac who p] decided_same [OF assms(1)] show ?thesis by auto
next
  case (Some b)
  with assms(1,3) have "b = v" by (auto simp: contradicts_def user_decided_def Let_def)
  with Some assms(2) decided_patched [OF assms(1)] show ?thesis by blast
qed

text \<open>The layers of an id are all the user's, with a decision out of a set.\<close>

definition decided_in :: "bool set \<Rightarrow> pydict \<Rightarrow> string \<Rightarrow> bool" where
  "decided_in V d lid \<longleftrightarrow> (\<exists>l. PDict l \<in> set (doc_layers d) \<and> py_get l ''id'' = PStr lid) \<and>
     (\<forall>l. PDict l \<in> set (doc_layers d) \<longrightarrow> py_get l ''id'' = PStr lid \<longrightarrow> (\<exists>v \<in> V. user_decided l lid v))"

lemma decided_in_mono: "decided_in V d lid \<Longrightarrow> V \<subseteq> W \<Longrightarrow> decided_in W d lid"
  unfolding decided_in_def by blast

lemma owned_member:
  assumes "user_decided l lid v" and "PDict l \<in> set (doc_layers d)" and "should_remove_layer l target" and "target \<noteq> []"
  shows "l \<in> set (owned_in_family d target)"
proof -
  have lid: "py_get l ''id'' = PStr lid" "user_owned l" using assms(1) by (simp_all add: user_decided_def)
  with assms(3) have "in_family target lid" by (simp add: should_remove_family layer_id_text_str)
  with lid assms(4) spec_layers_member [OF assms(2)] show ?thesis
    by (simp add: owned_in_family_def should_match_layer_family_def removal_family)
qed

lemma decided_after_patch:
  assumes pl: "patch_layers f (Some d) target = Plan q" and old: "decided_in {v} d lid"
    and keep: "\<And>l p. f l = Some p \<Longrightarrow> py_get p ''id'' = py_get l ''id''"
    and step: "\<And>l p. PDict l \<in> set (doc_layers d) \<Longrightarrow> should_remove_layer l target \<Longrightarrow> user_decided l lid v \<Longrightarrow> f l = Some p \<Longrightarrow>
      user_decided p lid v"
  shows "decided_in {v} (pl_spec q) lid"
proof -
  from old obtain l where l: "PDict l \<in> set (doc_layers d)" "py_get l ''id'' = PStr lid"
    unfolding decided_in_def by blast
  have "\<exists>p. PDict p \<in> set (doc_layers (pl_spec q)) \<and> py_get p ''id'' = PStr lid"
    using patch_layers_plan [OF pl l(1)] l(2) keep [of l] by (auto split: if_splits)
  moreover have "user_decided p lid v" if p: "PDict p \<in> set (doc_layers (pl_spec q))" "py_get p ''id'' = PStr lid" for p
    using patch_layers_origin [OF pl p(1)] p(2) old step keep unfolding decided_in_def by force
  ultimately show ?thesis unfolding decided_in_def by blast
qed

text \<open>What the handlers of an agent's patch or removal leave of a decision, when the guard lets them run.\<close>

lemma decided_plan:
  assumes d: "dispatch ec k By_agent (Some d) n j s = (Plan q, u)" and t: "layer_target j = Some target" "target \<noteq> []"
    and g: "\<not> check_user_presentation_guard j By_agent (Some d)" and old: "decided_in {v} d lid"
  shows "decided_in {v} (pl_spec q) lid"
proof (cases j)
  case (PatchLayerPresentationIntent x w opac)
  with t(1) d have pl: "patch_layers (\<lambda>l. patch_layer_presentation l w opac ''agent'') (Some d) target = Plan q" "x = target"
    by (auto simp: layer_target_def dispatch_def handle_patchlayerpresentation_def)
  show ?thesis
  proof (rule decided_after_patch [OF pl(1) old])
    fix l p
    assume f: "patch_layer_presentation l w opac ''agent'' = Some p"
    with paint_patched [of l opac "''agent''" p] patched_intent [of l _ opac "''agent''" p]
    show "py_get p ''id'' = py_get l ''id''" by (cases w) auto
    assume l: "PDict l \<in> set (doc_layers d)" "should_remove_layer l target" "user_decided l lid v"
    have "w = Some b \<Longrightarrow> \<not> contradicts b l" for b
      using g owned_member [OF l(3,1,2) t(2)] PatchLayerPresentationIntent pl(2)
      by (auto simp: check_user_presentation_guard_def list_ex_iff)
    from decided_presented [OF l(3) f this] show "user_decided p lid v" .
  qed
next
  case (PatchLayerStyleIntent x paint)
  with t(1) d have pl: "patch_layers (patch_style paint) (Some d) target = Plan q"
    by (auto simp: layer_target_def dispatch_def handle_patchlayerstyle_def)
  have same: "patch_style paint l = Some p \<Longrightarrow> py_get p ''id'' = py_get l ''id'' \<and>
      py_get p ''cartographic_intent'' = py_get l ''cartographic_intent''" for l p
    using paint_patched [of l PNone "[]" p paint] by blast
  show ?thesis by (rule decided_after_patch [OF pl old]) (use same decided_same in blast)+
next
  case (RemoveLayerIntent x)
  with t(1) d have "handle_removelayer (Some d) target = Plan q" by (auto simp: dispatch_def layer_target_def)
  then have sub: "set (doc_layers (pl_spec q)) \<subseteq> set (doc_layers d)" by (rule removal_subset)
  have "\<not> should_remove_layer l target" if "PDict l \<in> set (doc_layers d)" "user_decided l lid v" for l
    using owned_member [OF that(2,1) _ t(2)] g t(1) RemoveLayerIntent
    by (auto simp: layer_target_def check_user_presentation_guard_def)
  with old sub outside_family_kept [OF d t(1)] show ?thesis unfolding decided_in_def by blast
qed (use t(1) in \<open>auto simp: layer_target_def\<close>)

text \<open>The repairs leave a decision with the user; which value it records is up to the rule on visibility.\<close>

lemma show_layer_intent:
  assumes "py_get l ''cartographic_intent'' = PDict c" and "py_get c ''presentation_owner'' = PStr ''user''"
  shows "py_get (show_layer b l) ''cartographic_intent'' = PDict (AList.update ''expected_visible'' (PBool b) c)"
proof -
  let ?l1 = "AList.update ''visible'' (PBool b) l"
  define l2 where "l2 = (case py_get ?l1 ''layout'' of
      PDict layout \<Rightarrow> if py_get layout ''visibility'' = PStr ''none''
        then AList.update ''layout'' (PDict (AList.update ''visibility'' (PStr ''visible'') layout)) ?l1 else ?l1
    | _ \<Rightarrow> ?l1)"
  have "py_get l2 ''cartographic_intent'' = PDict c"
    using assms(1) by (simp add: l2_def py_get_update split: pyval.split)
  then show ?thesis
    unfolding show_layer_def Let_def l2_def [symmetric] using assms(2) by (simp add: py_get_update)
qed

lemma shown_decided:
  assumes "user_decided l lid v"
  shows "user_decided (show_layer b l) lid b"
proof -
  from assms obtain c where c: "py_get l ''cartographic_intent'' = PDict c" "py_get c ''presentation_owner'' = PStr ''user''"
    by (cases "py_get l ''cartographic_intent''")
      (auto simp: user_decided_def user_owned_def layer_intent_of_def dict_if_def entry_dict_def py_get_def)
  from assms show_layer_intent [OF c] c(2) show ?thesis
    by (simp add: user_decided_def user_owned_def layer_intent_of_def dict_if_def show_layer_id py_get_update)
qed

lemma decided_repaired:
  assumes "user_decided l lid v" and "v \<in> V" and "repaired r (PDict l) (PDict l')"
    and "py_get r ''operation'' = PStr ''set_layer_visibility'' \<Longrightarrow> py_get r ''layer_id'' = PStr lid \<Longrightarrow>
      py_truthy (py_get r ''visible'') \<in> V"
  shows "\<exists>w \<in> V. user_decided l' lid w"
proof -
  have id: "py_get l ''id'' = PStr lid" using assms(1) by (simp add: user_decided_def)
  from assms(3) consider "l' = l"
    | "py_get l' ''id'' = py_get l ''id''" "py_get l' ''cartographic_intent'' = py_get l ''cartographic_intent''"
    | "l' = show_layer (py_truthy (py_get r ''visible'')) l" "py_get r ''operation'' = PStr ''set_layer_visibility''"
        "bears_id (py_get r ''layer_id'') (PDict l)"
    unfolding repaired_def by blast
  then show ?thesis
  proof cases
    case 1
    with assms(1,2) show ?thesis by blast
  next
    case 2
    with decided_same [OF assms(1)] assms(2) show ?thesis by blast
  next
    case 3
    then have "py_get r ''layer_id'' = PStr lid"
      using id key_of_is_str [of "py_get r ''layer_id''" lid] by (simp add: bears_id_def)
    with assms(4) 3 shown_decided [OF assms(1)] show ?thesis by blast
  qed
qed

lemma decided_one_repair:
  assumes "decided_in V x lid" and "apply_repair r x = Some y"
    and "py_get r ''operation'' = PStr ''set_layer_visibility'' \<Longrightarrow> py_get r ''layer_id'' = PStr lid \<Longrightarrow>
      py_truthy (py_get r ''visible'') \<in> V"
  shows "decided_in V y lid"
proof -
  obtain l where l: "PDict l \<in> set (doc_layers x)" "py_get l ''id'' = PStr lid" "\<exists>v \<in> V. user_decided l lid v"
    using assms(1) unfolding decided_in_def by blast
  have "\<exists>l'. PDict l' \<in> set (doc_layers y) \<and> py_get l' ''id'' = PStr lid"
    using kept_by_repair [OF l(1) assms(2)] l(2) by (auto simp: repaired_def)
  moreover have "\<exists>w \<in> V. user_decided l' lid w" if l': "PDict l' \<in> set (doc_layers y)" "py_get l' ''id'' = PStr lid" for l'
  proof -
    from before_repair [OF l'(1) assms(2)] obtain m where m: "PDict m \<in> set (doc_layers x)" "repaired r (PDict m) (PDict l')" by blast
    with l'(2) have "py_get m ''id'' = PStr lid" by (auto simp: repaired_def)
    with assms(1) m(1) obtain v where "v \<in> V" "user_decided m lid v" unfolding decided_in_def by blast
    from decided_repaired [OF this(2,1) m(2)] assms(3) show ?thesis by blast
  qed
  ultimately show ?thesis unfolding decided_in_def by blast
qed

lemma decided_after_review:
  assumes "review_and_repair q n ops d = Some r" and "decided_in V d lid" and "V = UNIV \<or> visibility_by_rule q"
  shows "decided_in V (lr_spec r) lid"
proof -
  let ?locks = "locked_layer_ids_of (PDict d)"
  obtain m where run: "review_loop q ?locks ops m d [] [] [] = Some r"
    using assms(1) by (auto simp: review_and_repair_def split: option.splits if_splits)
  show ?thesis
  proof (rule review_loop_keeps [where P = "\<lambda>x. decided_in V x lid", OF _ run assms(2)])
    fix x review y
    assume x: "decided_in V x lid" and ev: "qv_evaluate q x = Some review"
      and e: "repair_each (repairs_left q ?locks ops review) x = Some y"
    have shows_in: "py_truthy (py_get rep ''visible'') \<in> V"
      if rep: "rep \<in> set (repairs_left q ?locks ops review)" "py_get rep ''operation'' = PStr ''set_layer_visibility''"
        "py_get rep ''layer_id'' = PStr lid" for rep
    proof (cases "V = UNIV")
      case False
      with assms(3) ev repairs_left_planned [OF rep(1)] rep(2) obtain l where l: "PDict l \<in> set (doc_layers x)"
        "visibility_fix l = Some rep" unfolding visibility_by_rule_def by blast
      note fix_l = visibility_fix_shows [OF l(2)]
      from x l(1) fix_l rep(3) obtain v where "v \<in> V" "user_decided l lid v" unfolding decided_in_def by auto
      with fix_l show ?thesis by (simp add: user_decided_def layer_intent_of_def)
    qed simp
    show "decided_in V y lid"
      by (rule repair_each_keeps [where P = "\<lambda>x. decided_in V x lid", OF _ x e]) (use decided_one_repair shows_in in blast)
  qed
qed

lemma decided_stored:
  "decided_in V d lid \<Longrightarrow> decided_in V (stamp_workbench n d) lid"
  "decided_in V d lid \<Longrightarrow> decided_in V (strip_transient_state d) lid"
  by (simp_all add: decided_in_def doc_layers_stamp doc_layers_strip)

lemma decided_reviewed:
  assumes "decided_in V (pl_spec q) lid" and "V = UNIV \<or> visibility_by_rule (ec_review ec)"
  shows "decided_in V (reviewed ec q) lid"
  using decided_stored(2) [OF assms(1)] decided_after_review [OF _ decided_stored(2) [OF assms(1)] assms(2)]
  by (auto simp: reviewed_def Let_def or_else_def split: option.splits)

text \<open>
  C6. When a patch or removal by an agent commits, the layer on which the user decided is still there and the
  decision is still the user's: neither the agent's call nor any repair of the cartographic review takes it over or
  removes the layer. The value of the decision is the same as before, because the only rule of the review that asks
  to show or hide a layer asks to show one whose recorded decision is to show it.
\<close>

theorem user_presentation_wins:
  assumes "ec_lock ec k = Lock_held" and "ec_guard ec i = Some (Some j)"
    and "se_spec (ec_env ec k s0) = Some (Some d)"
    and "apply_mutation ec i By_agent expected (locked_guard upsert) mid (s0, k) = (Inr r, (t, k'))"
    and "\<not> rs_error r" and "se_revision t \<noteq> se_revision (ec_env ec k s0)"
    and "layer_target j = Some target" and "target \<noteq> []" and "decided_in {v} d lid"
  shows "\<exists>d'. se_spec t = Some (Some d') \<and> decided_in UNIV d' lid \<and>
    (visibility_by_rule (ec_review ec) \<longrightarrow> decided_in {v} d' lid)"
proof -
  have init: "\<not> is_init j" using assms(7) by (auto simp: layer_target_def is_init_def split: intent.splits)
  have "d \<noteq> []" using assms(9) by (auto simp: decided_in_def doc_layers_def layers_of_def copy_of_def get_default_def iter_values_def)
  from committed_from_plan [OF assms(1,2) init assms(3) this assms(4-6)]
  obtain q u where d: "dispatch ec k By_agent (Some d) (se_revision (ec_env ec k s0)) j (ec_env ec k s0) = (Plan q, u)"
    and spec: "rs_spec r = Some (stamp_workbench (rs_revision r) (reviewed ec q))" "se_spec t = Some (rs_spec r)"
    and c: "locked_guard upsert (ec_env ec k s0) j By_agent (Some d) = None" by blast
  from c have "\<not> check_user_presentation_guard j By_agent (Some d)" by (simp add: locked_guard_def split: if_splits)
  from decided_plan [OF d assms(7,8) this assms(9)] have plan: "decided_in {v} (pl_spec q) lid" .
  have "decided_in UNIV (reviewed ec q) lid"
    using decided_reviewed [of UNIV q lid ec] decided_in_mono [OF plan] by blast
  moreover have "visibility_by_rule (ec_review ec) \<Longrightarrow> decided_in {v} (reviewed ec q) lid"
    using decided_reviewed [OF plan] by blast
  ultimately show ?thesis using spec decided_stored(1) by auto
qed

section \<open>A new project that fails\<close>

lemma finish_rolled_back:
  assumes "finish ec k False who mid cd s = (t, r)" and "rs_rolled_back r"
  shows "\<exists>cid u. fail_mutation ec k mid cd cid u = (t, r)"
  using assms
  by (auto simp: finish_def save_plan_def Let_def committed_result_def plain_result_def
      split: option.splits prod.splits if_splits)

lemma guard_not_rolled_back: "guard_intent_locks desc loaded i who = Some r \<Longrightarrow> \<not> rs_rolled_back r"
  by (auto simp: guard_intent_locks_def Let_def lock_refusal_of_def error_result_def plain_result_def split: if_splits option.splits prod.splits)

lemma prepare_not_rolled_back:
  assumes "prepare ec k i who expected check mid s = (u, Inl r)" and "is_init i"
    and "se_spec s = Some (Some d)" and "check s i who (Some d) = None"
  shows "\<not> rs_rolled_back r"
proof -
  obtain v th where i: "i = InitProjectIntent v th" using assms(2) by (auto simp: is_init_def split: intent.splits)
  have out: "dispatch ec k who b n i z = (Terminal x, z') \<Longrightarrow> False" for b n z x z'
    by (auto simp: dispatch_def i handle_initproject_def simple_plan_def or_raise_def split: option.splits if_splits)
  show ?thesis
    using assms(1,4) out
    by (auto simp: prepare_def get_mapspec_found [OF assms(3)] build_candidate_def Let_def error_result_def plain_result_def
        duplicate_result_def superseded_result_def dest: guard_not_rolled_back
        split: option.splits prod.splits if_splits handler_out.splits)
qed

text \<open>
  C26. A call that makes a new project over an existing document, fails and reports that it was rolled back has
  deleted that document, in the shared state and on disk, and set the revision back to zero: the state from
  before is not restored.
\<close>

theorem failed_init_discards_document:
  assumes "ec_lock ec k = Lock_held" and "ec_guard ec i = Some (Some j)" and "is_init j"
    and "se_spec (ec_env ec k s0) = Some (Some d)" and "check (ec_env ec k s0) j who (Some d) = None"
    and "apply_mutation ec i who expected check mid (s0, k) = (Inr r, (t, k'))" and "rs_rolled_back r"
  shows "se_spec t = Some None \<and> se_disk t = None \<and> se_revision t = 0"
proof -
  obtain u x where pr: "prepare ec k j who expected check mid (ec_env ec k s0) = (u, x)" by (meson surj_pair)
  show ?thesis
  proof (cases x)
    case (Inl y)
    then have "y = r" using assms(6) apply_held [OF assms(1,2)] pr by simp
    with prepare_not_rolled_back [OF pr [unfolded Inl] assms(3,4,5)] assms(7) show ?thesis by simp
  next
    case (Inr cd)
    obtain t' r' where fin: "finish ec k False who mid cd u = (t', r')" by (meson surj_pair)
    with assms(6) apply_held [OF assms(1,2)] pr Inr have eq: "r' = r" "t' = t" by auto
    from finish_rolled_back [OF fin] eq assms(7) obtain cid w where f: "fail_mutation ec k mid cd cid w = (t, r)" by blast
    from prepareD [OF pr [unfolded Inr]] get_mapspec_found [OF assms(4)]
    have "build_candidate ec k j who check (Some d) (ec_env ec k s0) (ec_env ec k s0) = (u, Inr cd)" by simp
    with assms(3) have "cd_old cd = None"
      by (auto simp: build_candidate_def Let_def split: option.splits prod.splits if_splits handler_out.splits)
    with fail_without_document [OF f _ assms(7)] show ?thesis by simp
  qed
qed

end
