(* ===== verification/Mapspec_Witnesses.thy ===== *)
theory Mapspec_Witnesses
  imports Mapspec_Restore Mapspec_Locks
begin

text \<open>
  The properties of the map document engine at a concrete session: two layers, one of them locked, one of
  them hidden by the user, at revision 3.
\<close>

definition calm_rules :: quality_rules where
  "calm_rules = \<lparr>qv_evaluate = \<lambda>d. Some [(''status'', PStr ''pass'')], qv_print = \<lambda>v. [], qv_reports = \<lambda>d. True\<rparr>"

definition calm_ctx :: engine_ctx where
  "calm_ctx = \<lparr>ec_env = \<lambda>k s. s, ec_now = \<lambda>k. 0, ec_lock = \<lambda>k. Lock_held, ec_save = \<lambda>k. Save_done,
     ec_resave = \<lambda>k. Save_done, ec_discard = \<lambda>k. 4, ec_strip = \<lambda>k. True, ec_drop = \<lambda>k. True,
     ec_cached = \<lambda>k. None, ec_recached = \<lambda>k. None, ec_fresh_id = \<lambda>k. ''ckpt_1'', ec_snapshot_ok = \<lambda>k. True,
     ec_refs = \<lambda>k d. [], ec_restorable = \<lambda>k ck. True, ec_digest = \<lambda>d refs. List.concat (List.map fst d),
     ec_guard = \<lambda>i. Some (Some i), ec_descriptor = \<lambda>kind args. None,
     ec_other = \<lambda>k who loaded n kind args. Raises, ec_review = calm_rules, ec_blocking = \<lambda>d. [],
     ec_mint = \<lambda>k. ''mint'', ec_recorded = \<lambda>k. True\<rparr>"

definition layer_a :: pydict where "layer_a = [(''id'', PStr ''a'')]"

definition layer_b :: pydict where
  "layer_b = [(''id'', PStr ''b''), (''cartographic_intent'',
     PDict [(''presentation_owner'', PStr ''user''), (''expected_visible'', PBool False)])]"

definition map_doc :: pydict where
  "map_doc = [(''layers'', PList [PDict layer_a, PDict layer_b]),
     (''workbench'', PDict [(''lockedLayerIds'', PList [PStr ''a''])])]"

definition map_session :: session where
  "map_session = new_map_session\<lparr>se_spec := Some (Some map_doc), se_revision := 3, se_disk := Some map_doc,
     se_disk_rev := Some 3\<rparr>"

definition no_check :: commit_check where
  "no_check s i who prior = None"

definition show_b :: intent where
  "show_b = PatchLayerPresentationIntent ''b'' (Some False) PNone"

definition map_call :: "intent \<Rightarrow> string \<Rightarrow> mutation_call" where
  "map_call i m = \<lparr>mc_ctx = calm_ctx, mc_intent = i, mc_origin = By_agent, mc_expected = None, mc_check = no_check,
     mc_id = Some m\<rparr>"

lemma calm_fields [simp]:
  "ec_env calm_ctx k s = s" "ec_lock calm_ctx k = Lock_held" "ec_guard calm_ctx i = Some (Some i)"
  "ec_restorable calm_ctx = (\<lambda>k ck. True)" "ec_descriptor calm_ctx = (\<lambda>kind args. None)"
  by (simp_all add: calm_ctx_def)

lemma map_session_fields [simp]:
  "se_spec map_session = Some (Some map_doc)" "map_doc \<noteq> []" "\<not> se_deleted map_session"
  "se_revision map_session = 3" "dir_at cid map_session = None" "has_document map_session"
  by (simp_all add: map_session_def new_map_session_def map_doc_def has_document_def)

lemma map_layers [simp]: "doc_layers map_doc = [PDict layer_a, PDict layer_b]"
  by (simp add: doc_layers_def layers_of_def copy_of_def get_default_def map_doc_def iter_values_def)

lemma map_call_fields [simp]:
  "serial_call (map_call i m)" "guarded (map_call i m) = Some i" "mc_ctx (map_call i m) = calm_ctx"
  "mc_id (map_call i m) = Some m" "keeps_project (map_call i m) \<longleftrightarrow> \<not> is_init i"
  "saves_well (map_call i m)"
  by (simp_all add: map_call_def serial_call_def serial_def guarded_def calm_ctx_def keeps_project_def saves_well_def
      is_auto_id_def is_digit_def char_code_def)

lemma not_init [simp]:
  "\<not> is_init show_b" "\<not> is_init (CheckpointIntent c)" "\<not> is_init (RollbackIntent x)" "\<not> is_init (SetScenarioModeIntent m)"
  "is_init (InitProjectIntent v th)"
  by (simp_all add: show_b_def is_init_def)

text \<open>What a call returned, and what it left.\<close>

type_synonym outcome = "(engine_error + mutation_result) \<times> session \<times> nat"

definition returned :: "outcome \<Rightarrow> bool" where
  "returned x = (case fst x of Inr r \<Rightarrow> True | Inl e \<Rightarrow> False)"

definition outcome_of :: "outcome \<Rightarrow> mutation_result" where
  "outcome_of x = (case fst x of Inr r \<Rightarrow> r | Inl e \<Rightarrow> plain_result)"

definition left_by :: "outcome \<Rightarrow> session" where
  "left_by x = fst (snd x)"

lemma outcome_parts: "returned x \<Longrightarrow> x = (Inr (outcome_of x), (left_by x, snd (snd x)))"
  by (auto simp: returned_def outcome_of_def left_by_def split: sum.splits intro!: prod_eqI)

lemma any_parts: "x = (fst x, (left_by x, snd (snd x)))"
  by (simp add: left_by_def)

section \<open>One call\<close>

definition shown :: outcome where
  "shown = apply_mutation calm_ctx show_b By_agent None (locked_guard (\<lambda>i. None)) (Some ''m'') (map_session, 0)"

lemma shown_done: "\<not> rs_error (outcome_of shown)" "se_revision (left_by shown) = 4"
  by code_simp+

lemma shown_parts: "apply_mutation calm_ctx show_b By_agent None (locked_guard (\<lambda>i. None)) (Some ''m'') (map_session, 0) =
    (Inr (outcome_of shown), (left_by shown, snd (snd shown)))"
proof -
  have "returned shown" by code_simp
  from outcome_parts [OF this] show ?thesis by (simp add: shown_def)
qed

lemma mutation_transaction_witness:
  "\<exists>r. fst shown = Inr r \<and>
    (kept map_session (left_by shown) \<or> wrote map_session (left_by shown) r (Some ''m'') \<or> undone map_session (left_by shown) r map_doc)"
  using mutation_transaction [of calm_ctx 0 show_b show_b map_session map_doc, OF _ _ _ _ _ any_parts, of By_agent None
      "locked_guard (\<lambda>i. None)" "Some ''m''"]
  by (auto simp: shown_def)

lemma commit_was_admitted_witness:
  "guard_intent_locks (\<lambda>kind args. None) (Some map_doc) show_b By_agent = None \<and>
   (\<exists>spec. rs_spec (outcome_of shown) = Some (stamp_workbench (rs_revision (outcome_of shown)) spec))"
  using commit_was_admitted [of calm_ctx 0 show_b show_b map_session map_doc, OF _ _ _ _ _ _ shown_done(1), OF _ _ _ _ _ shown_parts [folded calm_fields(1) [of 0]]]
    shown_done(2) by auto

text \<open>
  Rules that find fault with the opacity of both layers, and whose repairs they call safe: the one of the locked
  layer is refused, the other is done once and then found to be of no avail.
\<close>

definition fault :: "string \<Rightarrow> pyval" where
  "fault lid = PDict [(''rule'', PStr ''OPACITY_VALIDITY''), (''status'', PStr ''fail''), (''layer_id'', PStr lid),
     (''repairability'', PStr ''auto_safe''), (''suggested_fix'', PDict [(''operation'', PStr ''normalize_opacity''),
       (''layer_id'', PStr lid), (''property'', PStr ''circle-opacity''), (''value'', PFloat ''1.0'')])]"

definition strict_rules :: quality_rules where
  "strict_rules = \<lparr>qv_evaluate = \<lambda>d. Some [(''status'', PStr ''fail''), (''checks'', PList [fault ''a'', fault ''b''])],
     qv_print = \<lambda>v. (case v of PDict m \<Rightarrow> (case py_get m ''layer_id'' of PStr s \<Rightarrow> s | _ \<Rightarrow> []) | _ \<Rightarrow> []), qv_reports = \<lambda>d. True\<rparr>"

definition strict_ctx :: engine_ctx where
  "strict_ctx = calm_ctx\<lparr>ec_review := strict_rules\<rparr>"

definition judged :: outcome where
  "judged = apply_mutation strict_ctx show_b By_agent None (locked_guard (\<lambda>i. None)) (Some ''m'') (map_session, 0)"

lemma judged_done: "\<not> rs_error (outcome_of judged)" "se_revision (left_by judged) = 4"
  by code_simp+

lemma judged_parts: "apply_mutation strict_ctx show_b By_agent None (locked_guard (\<lambda>i. None)) (Some ''m'') (map_session, 0) =
    (Inr (outcome_of judged), (left_by judged, snd (snd judged)))"
proof -
  have "returned judged" by code_simp
  from outcome_parts [OF this] show ?thesis by (simp add: judged_def)
qed

lemma strict_fields [simp]:
  "ec_env strict_ctx k s = s" "ec_lock strict_ctx k = Lock_held" "ec_guard strict_ctx i = Some (Some i)"
  "ec_review strict_ctx = strict_rules"
  by (simp_all add: strict_ctx_def calm_ctx_def)

lemma strict_visibility: "visibility_by_rule strict_rules"
  by (auto simp: visibility_by_rule_def strict_rules_def fault_def review_checks_def safe_fix_def failing_def get_default_def
      iter_values_def entry_dict_def List.map_filter_simps py_get_def split: if_splits)

lemma repaired_b: "(case se_spec (left_by judged) of Some (Some d) \<Rightarrow>
    List.map (\<lambda>l. py_get (dict_if l) ''paint'') (doc_layers d) = [PNone, PDict [(''circle-opacity'', PFloat ''1.0'')]] | _ \<Rightarrow> False)"
  by code_simp

lemma locked_layers_kept_witness:
  "\<exists>d'. se_spec (left_by judged) = Some (Some d') \<and> PDict layer_a \<in> set (doc_layers d')"
proof -
  have "''a'' \<in> set (locked_layer_ids_of (PDict map_doc))" "py_get layer_a ''id'' = PStr ''a''" by code_simp+
  then show ?thesis
    using locked_layers_kept [of strict_ctx 0 show_b show_b map_session map_doc, OF _ _ _ judged_parts judged_done(1), of "''b''" layer_a "''a''"]
      judged_done(2)
    by (simp add: layer_target_def show_b_def prefix_def)
qed

lemma user_presentation_wins_witness:
  "\<exists>d'. se_spec (left_by judged) = Some (Some d') \<and> decided_in {False} d' ''b''"
proof -
  have "user_decided layer_b ''b'' False" "py_get layer_a ''id'' = PStr ''a''" by code_simp+
  then have "decided_in {False} map_doc ''b''" by (auto simp: decided_in_def user_decided_def)
  then show ?thesis
    using user_presentation_wins [of strict_ctx 0 show_b show_b map_session map_doc, OF _ _ _ judged_parts judged_done(1), of "''b''" False "''b''"]
      judged_done(2) strict_visibility
    by (auto simp: layer_target_def show_b_def)
qed

section \<open>A new project on a full disk\<close>

definition full_ctx :: engine_ctx where
  "full_ctx = calm_ctx\<lparr>ec_save := \<lambda>k. Disk_stops 1\<rparr>"

definition failed :: outcome where
  "failed = apply_mutation full_ctx (InitProjectIntent PNone PNone) By_agent None no_check (Some ''m'') (map_session, 0)"

lemma failed_parts: "apply_mutation full_ctx (InitProjectIntent PNone PNone) By_agent None no_check (Some ''m'') (map_session, 0) =
    (Inr (outcome_of failed), (left_by failed, snd (snd failed)))"
proof -
  have "returned failed" by code_simp
  from outcome_parts [OF this] show ?thesis by (simp add: failed_def)
qed

lemma failed_init_discards_document_witness:
  "se_spec (left_by failed) = Some None \<and> se_disk (left_by failed) = None \<and> se_revision (left_by failed) = 0"
proof -
  have "rs_rolled_back (outcome_of failed)" by code_simp
  with failed_init_discards_document [of full_ctx 0 "InitProjectIntent PNone PNone" "InitProjectIntent PNone PNone" map_session map_doc,
      OF _ _ _ _ _ failed_parts]
  show ?thesis by (simp add: full_ctx_def no_check_def)
qed

section \<open>Runs of calls\<close>

definition first_run :: outcome where
  "first_run = run_mutation (map_call show_b ''m'') (map_session, 0)"

lemma first_wrote: "wrote map_session (left_by first_run) (outcome_of first_run) (Some ''m'')"
proof -
  have ok: "returned first_run" "\<not> rs_error (outcome_of first_run)" "se_revision (left_by first_run) = 4" by code_simp+
  have eq: "apply_mutation calm_ctx show_b By_agent None no_check (Some ''m'') (map_session, 0) =
      (Inr (outcome_of first_run), (left_by first_run, snd (snd first_run)))"
    using outcome_parts [OF ok(1)] by (simp add: first_run_def run_mutation_def map_call_def)
  from held_cases [of calm_ctx 0 show_b show_b map_session map_doc, OF _ _ _ _ eq] ok(2,3)
  show ?thesis by (auto simp: kept_def undone_def)
qed

definition between :: "session \<times> nat" where
  "between = run_ops mutation_step (left_by first_run, 1) [map_call (SetScenarioModeIntent None) ''n'']"

lemma between_parts: "run_ops mutation_step (left_by first_run, 1) [map_call (SetScenarioModeIntent None) ''n''] =
    (fst between, snd between)"
  by (simp add: between_def)

lemma committed_key_not_repeated_witness:
  "run_mutation (map_call show_b ''m'') (fst between, snd between) =
    (Inr (duplicate_result (fst (get_mapspec (fst between))) (se_revision (snd (get_mapspec (fst between)))) (Some ''m'')),
     (snd (get_mapspec (fst between)), Suc (snd between)))"
  using committed_key_not_repeated [OF first_wrote _ _ _ _ between_parts, of "map_call show_b ''m''"] by simp

definition late_call :: mutation_call where
  "late_call = (map_call show_b ''z'')\<lparr>mc_expected := Some 3\<rparr>"

lemma late_call_fields [simp]: "serial_call late_call" "mc_expected late_call = Some 3"
  by (simp_all add: late_call_def map_call_def serial_call_def serial_def calm_ctx_def)

lemma revision_spent_once_witness:
  "kept (fst between) (fst (mutation_step (fst between, snd between) late_call))"
proof -
  have "has_document (left_by first_run)" "(3::int) < se_revision (left_by first_run)" by code_simp+
  from revision_spent_once [OF this _ between_parts, of late_call] show ?thesis by simp
qed

definition stored :: outcome where
  "stored = run_mutation (map_call (CheckpointIntent (Some ''v1'')) ''c'') (map_session, 0)"

definition changed :: "session \<times> nat" where
  "changed = run_ops mutation_step (left_by stored, 1) [map_call show_b ''m'']"

definition restored :: outcome where
  "restored = run_mutation (map_call (RollbackIntent ''v1'') ''r'') changed"

lemma checkpoint_roundtrip_witness:
  "se_spec (left_by restored) = Some (Some map_doc) \<and> Some (se_layers (left_by restored)) = layers_of (Some map_doc)"
proof -
  have st: "returned stored" "\<not> rs_error (outcome_of stored)" "se_revision (left_by stored) = 4" "snd (snd stored) = 1"
    by code_simp+
  have re: "returned restored" "\<not> rs_error (outcome_of restored)" "se_revision (left_by restored) \<noteq> se_revision (fst changed)"
    by code_simp+
  have ids: "settled_doc map_doc" "\<not> is_auto_id ''v1''" "valid_checkpoint_id ''v1''" by code_simp+
  have e0: "run_mutation (map_call (CheckpointIntent (Some ''v1'')) ''c'') (map_session, 0) =
      (Inr (outcome_of stored), (left_by stored, 1))"
    using outcome_parts [OF st(1)] st(4) by (simp add: stored_def)
  have e1: "run_mutation (map_call (RollbackIntent ''v1'') ''r'') (fst changed, snd changed) =
      (Inr (outcome_of restored), (left_by restored, snd (snd restored)))"
    using outcome_parts [OF re(1)] by (simp add: restored_def)
  have e2: "run_ops mutation_step (left_by stored, 1) [map_call show_b ''m''] = (fst changed, snd changed)"
    by (simp add: changed_def)
  show ?thesis
    by (rule checkpoint_roundtrip [OF _ _ _ _ ids(1) _ ids(2) _ e0 st(2) _ _ e2 _ _ ids(3) _ e1 re(2,3)])
      (simp_all add: st(3) other_checkpoint_def show_b_def is_init_def)
qed

end
