(* ===== verification/Review_Policy.thy ===== *)
theory Review_Policy
  imports Gis_Mutation
begin

text \<open>
  Review of proposed map changes: the records of \<open>app/schemas/review_schema.py\<close>, the risk classes, the status
  machine and the approval policy of \<open>app/services/review/policy.py\<close>, and the codec from request bodies to
  intents of \<open>app/services/mapspec/mutation_registry.py\<close>.
\<close>

section \<open>Request bodies\<close>

text \<open>
  A body is its intent word with its validated fields. The codec raises for a body without any change; the
  words whose intents are not modelled are answered by \<open>other\<close>.
\<close>

record request_body =
  bd_intent :: string
  bd_fields :: pydict

definition str_field :: "request_body \<Rightarrow> string \<Rightarrow> string" where
  "str_field b k = (case py_get (bd_fields b) k of PStr s \<Rightarrow> s | _ \<Rightarrow> [])"

definition str_list_field :: "request_body \<Rightarrow> string \<Rightarrow> string list" where
  "str_list_field b k = (case py_get (bd_fields b) k of
     PList xs \<Rightarrow> List.map_filter (\<lambda>x. case x of PStr s \<Rightarrow> Some s | _ \<Rightarrow> None) xs | _ \<Rightarrow> [])"

definition codec_patch_layer_presentation :: "request_body \<Rightarrow> intent option" where
  "codec_patch_layer_presentation b =
     (let visible = py_get (bd_fields b) ''visible''; opacity = py_get (bd_fields b) ''opacity''
      in if visible = PNone \<and> opacity = PNone then None
         else Some (PatchLayerPresentationIntent (str_field b ''layer_id'')
           (if visible = PNone then None else Some (py_truthy visible)) opacity))"

definition codec_set_view :: "request_body \<Rightarrow> intent option" where
  "codec_set_view b =
     (let g = py_get (bd_fields b)
      in if g ''center'' = PNone \<and> g ''zoom'' = PNone \<and> g ''pitch'' = PNone \<and> g ''bearing'' = PNone then None
         else Some (SetViewIntent (g ''center'') (g ''zoom'') (g ''pitch'') (g ''bearing'')))"

definition codec_set_workbench_state :: "request_body \<Rightarrow> intent" where
  "codec_set_workbench_state b = SetWorkbenchStateIntent (py_get (bd_fields b) ''doc'')
     (case py_get (bd_fields b) ''base_workbench_revision'' of PInt n \<Rightarrow> Some n | _ \<Rightarrow> None)"

definition body_to_intent :: "(request_body \<Rightarrow> intent option) \<Rightarrow> request_body \<Rightarrow> intent option" where
  "body_to_intent other b =
     (if bd_intent b = ''patch_layer_style''
        then Some (PatchLayerStyleIntent (str_field b ''layer_id'') (dict_if (py_get (bd_fields b) ''paint'')))
      else if bd_intent b = ''patch_layer_presentation'' then codec_patch_layer_presentation b
      else if bd_intent b = ''set_view'' then codec_set_view b
      else if bd_intent b = ''remove_layer'' then Some (RemoveLayerIntent (str_field b ''layer_id''))
      else if bd_intent b = ''reorder_layers'' then Some (ReorderLayersIntent (str_list_field b ''layer_ids''))
      else if bd_intent b = ''set_time'' then Some (SetTimeIntent (bd_fields b))
      else if bd_intent b = ''init_project'' then Some (InitProjectIntent (py_get (bd_fields b) ''view'') PNone)
      else if bd_intent b = ''patch_workbench_state'' then Some (codec_set_workbench_state b)
      else if bd_intent b = ''patch_workbench_delta'' then Some (PatchWorkbenchDeltaIntent (py_get (bd_fields b) ''delta''))
      else other b)"

definition intent_target :: "request_body \<Rightarrow> string" where
  "intent_target b = or_else (first_some (\<lambda>k. let v = py_get (bd_fields b) k in if py_truthy v then Some (py_str v) else None)
     [''layer_id'', ''component_id'']) []"

section \<open>Actors, decisions, proposals\<close>

datatype actor_kind = Kind_user | Kind_agent

datatype actor_role = Role_anonymous | Role_viewer | Role_editor | Role_admin

record review_actor =
  ra_id :: string
  ra_kind :: actor_kind
  ra_role :: actor_role

datatype review_verb = Approve | Request_changes | Reject

fun verb_of :: "string \<Rightarrow> review_verb option" where
  "verb_of s = (if s = ''approve'' then Some Approve else if s = ''request_changes'' then Some Request_changes
     else if s = ''reject'' then Some Reject else None)"

record review_decision =
  dc_id :: string
  dc_verb :: review_verb
  dc_actor :: review_actor
  dc_reason :: string
  dc_base :: int
  dc_created :: time

record review_anchor =
  an_kind :: string
  an_id :: string
  an_layer :: "string option"

record anchored_comment =
  cm_id :: string
  cm_author :: review_actor
  cm_body :: string
  cm_anchor :: "review_anchor option"
  cm_created :: time

datatype proposal_status = Draft | Submitted | Changes_requested | Approved | Rejected | Merged | Superseded | Withdrawn

datatype proposal_risk = Low_risk | High_risk

record approval_policy =
  ap_min_low :: nat
  ap_min_high :: nat
  ap_distinct_high :: bool
  ap_min_role_high :: string
  ap_agent_needs_human :: bool
  ap_anonymous_high :: bool

definition default_policy :: approval_policy where
  "default_policy = \<lparr>ap_min_low = 1, ap_min_high = 1, ap_distinct_high = True, ap_min_role_high = ''editor'',
     ap_agent_needs_human = True, ap_anonymous_high = False\<rparr>"

record merge_step =
  ms_index :: nat
  ms_kind :: string
  ms_target :: string
  ms_revision :: int

record merge_evidence =
  me_at :: time
  me_actor :: review_actor
  me_base :: int
  me_revision :: int
  me_checkpoint :: string
  me_applied :: "merge_step list"
  me_rolled_back :: bool
  me_failure :: "string option"
  me_interleaved :: bool
  me_mutation_ids :: "string list"
  me_approvals :: "string list"
  me_policy :: approval_policy

record review_proposal =
  rp_id :: string
  rp_title :: string
  rp_description :: string
  rp_author :: review_actor
  rp_base :: int
  rp_intents :: "request_body list"
  rp_status :: proposal_status
  rp_risk :: proposal_risk
  rp_comments :: "anchored_comment list"
  rp_decisions :: "review_decision list"
  rp_evidence :: "merge_evidence option"
  rp_merging :: bool
  rp_created :: time
  rp_updated :: time

section \<open>Bounds\<close>

definition MAX_PROPOSAL_INTENTS :: nat where "MAX_PROPOSAL_INTENTS = 50"
definition MAX_COMMENTS_PER_PROPOSAL :: nat where "MAX_COMMENTS_PER_PROPOSAL = 500"
definition MAX_DECISIONS_PER_PROPOSAL :: nat where "MAX_DECISIONS_PER_PROPOSAL = 200"

definition sized :: "nat \<Rightarrow> nat \<Rightarrow> 'a list \<Rightarrow> bool" where
  "sized lo hi xs \<longleftrightarrow> lo \<le> length xs \<and> length xs \<le> hi"

definition actor_valid :: "review_actor \<Rightarrow> bool" where
  "actor_valid a \<longleftrightarrow> sized 1 128 (ra_id a)"

definition anchor_valid :: "review_anchor \<Rightarrow> bool" where
  "anchor_valid x \<longleftrightarrow> sized 1 200 (an_id x) \<and> (case an_layer x of None \<Rightarrow> True | Some l \<Rightarrow> sized 1 200 l) \<and>
     (an_kind x = ''feature'' \<longrightarrow> truthy (an_layer x))"

definition comment_valid :: "anchored_comment \<Rightarrow> bool" where
  "comment_valid c \<longleftrightarrow> sized 1 64 (cm_id c) \<and> actor_valid (cm_author c) \<and> sized 1 2000 (cm_body c) \<and>
     (case cm_anchor c of None \<Rightarrow> True | Some x \<Rightarrow> anchor_valid x)"

definition decision_valid :: "review_decision \<Rightarrow> bool" where
  "decision_valid d \<longleftrightarrow> sized 1 64 (dc_id d) \<and> actor_valid (dc_actor d) \<and> sized 0 2000 (dc_reason d) \<and> 0 \<le> dc_base d"

definition step_valid :: "merge_step \<Rightarrow> bool" where
  "step_valid m \<longleftrightarrow> sized 1 64 (ms_kind m) \<and> sized 0 200 (ms_target m) \<and> 0 \<le> ms_revision m"

definition evidence_valid :: "merge_evidence \<Rightarrow> bool" where
  "evidence_valid e \<longleftrightarrow> actor_valid (me_actor e) \<and> 0 \<le> me_base e \<and> 0 \<le> me_revision e \<and> sized 1 128 (me_checkpoint e) \<and>
     list_all step_valid (me_applied e) \<and> sized 0 MAX_PROPOSAL_INTENTS (me_applied e) \<and>
     (case me_failure e of None \<Rightarrow> True | Some f \<Rightarrow> sized 0 200 f) \<and> sized 0 MAX_PROPOSAL_INTENTS (me_mutation_ids e) \<and>
     sized 0 MAX_DECISIONS_PER_PROPOSAL (me_approvals e)"

definition body_valid :: "request_body \<Rightarrow> bool" where
  "body_valid b \<longleftrightarrow> sized 1 64 (bd_intent b) \<and> sized 0 200 (intent_target b)"

definition proposal_valid :: "review_proposal \<Rightarrow> bool" where
  "proposal_valid p \<longleftrightarrow> sized 1 64 (rp_id p) \<and> sized 1 200 (rp_title p) \<and> sized 0 4000 (rp_description p) \<and>
     actor_valid (rp_author p) \<and> 0 \<le> rp_base p \<and> sized 1 MAX_PROPOSAL_INTENTS (rp_intents p) \<and>
     list_all body_valid (rp_intents p) \<and>
     sized 0 MAX_COMMENTS_PER_PROPOSAL (rp_comments p) \<and> list_all comment_valid (rp_comments p) \<and>
     sized 0 MAX_DECISIONS_PER_PROPOSAL (rp_decisions p) \<and> list_all decision_valid (rp_decisions p) \<and>
     (case rp_evidence p of None \<Rightarrow> True | Some e \<Rightarrow> evidence_valid e)"

section \<open>Risk and status\<close>

definition HIGH_RISK_INTENT_KINDS :: "string list" where
  "HIGH_RISK_INTENT_KINDS = [''remove_layer'', ''remove_component'', ''rebind_component'', ''patch_workbench_state'']"

definition classify_risk :: "request_body list \<Rightarrow> proposal_risk" where
  "classify_risk bodies = (if list_ex (\<lambda>b. bd_intent b \<in> set HIGH_RISK_INTENT_KINDS) bodies then High_risk else Low_risk)"

fun proposal_transitions :: "proposal_status \<Rightarrow> proposal_status list" where
  "proposal_transitions Draft = [Submitted, Withdrawn]"
| "proposal_transitions Submitted = [Submitted, Changes_requested, Approved, Rejected, Superseded, Withdrawn]"
| "proposal_transitions Changes_requested = [Submitted, Approved, Withdrawn]"
| "proposal_transitions Approved = [Submitted, Merged, Rejected, Superseded, Withdrawn]"
| "proposal_transitions _ = []"

definition TERMINAL_PROPOSALS :: "proposal_status list" where
  "TERMINAL_PROPOSALS = [Rejected, Merged, Superseded, Withdrawn]"

section \<open>The approval policy\<close>

fun role_order :: "actor_role \<Rightarrow> nat" where
  "role_order Role_anonymous = 0" | "role_order Role_viewer = 1" | "role_order Role_editor = 2" | "role_order Role_admin = 3"

definition role_floor :: "string \<Rightarrow> nat" where
  "role_floor s = or_else (map_of [(''anonymous'', 0), (''viewer'', 1), (''editor'', 2), (''admin'', 3)] s) 2"

definition same_person :: "review_actor \<Rightarrow> review_actor \<Rightarrow> bool" where
  "same_person a b \<longleftrightarrow> ra_id a = ra_id b \<and> ra_kind a = ra_kind b"

datatype blocking_reason = Rejected_at_base | Needs_approvals nat nat | Needs_distinct_reviewer | Needs_role | Needs_authenticated

record policy_verdict =
  vd_satisfied :: bool
  vd_counted :: nat
  vd_reasons :: "blocking_reason list"

definition human_approvals :: "review_proposal \<Rightarrow> review_decision list \<Rightarrow> review_decision list" where
  "human_approvals p ds = filter (\<lambda>d. dc_verb d = Approve \<and> dc_base d = rp_base p \<and> ra_kind (dc_actor d) = Kind_user) ds"

definition evaluate_approval :: "approval_policy \<Rightarrow> review_proposal \<Rightarrow> review_decision list \<Rightarrow> policy_verdict" where
  "evaluate_approval pol p ds =
     (let high = rp_risk p = High_risk;
          needed = (if high then ap_min_high pol else ap_min_low pol);
          hs = human_approvals p ds;
          author = rp_author p;
          distinct_needed = (high \<and> ap_distinct_high pol \<or>
            \<not> high \<and> ra_kind author = Kind_agent \<and> ap_agent_needs_human pol);
          reasons =
            (if list_ex (\<lambda>d. dc_verb d = Reject \<and> dc_base d = rp_base p) ds then [Rejected_at_base] else []) @
            (if length hs < needed then [Needs_approvals needed (length hs)] else []) @
            (if distinct_needed \<and> list_ex (\<lambda>d. same_person (dc_actor d) author) hs then [Needs_distinct_reviewer] else []) @
            (if high \<and> list_ex (\<lambda>d. role_order (ra_role (dc_actor d)) < role_floor (ap_min_role_high pol)) hs
               then [Needs_role] else []) @
            (if high \<and> \<not> ap_anonymous_high pol \<and>
                (ra_role author = Role_anonymous \<or> list_ex (\<lambda>d. ra_role (dc_actor d) = Role_anonymous) hs)
               then [Needs_authenticated] else [])
      in \<lparr>vd_satisfied = (reasons = []), vd_counted = length hs, vd_reasons = reasons\<rparr>)"

definition approved_now :: "approval_policy \<Rightarrow> review_proposal \<Rightarrow> bool" where
  "approved_now pol p \<longleftrightarrow> vd_satisfied (evaluate_approval pol p (rp_decisions p))"

section \<open>Facts\<close>

text \<open>What the default policy asks of the decisions of a proposal.\<close>

definition well_approved :: "review_proposal \<Rightarrow> bool" where
  "well_approved p \<longleftrightarrow>
     human_approvals p (rp_decisions p) \<noteq> [] \<and>
     (\<forall>d \<in> set (rp_decisions p). \<not> (dc_verb d = Reject \<and> dc_base d = rp_base p)) \<and>
     (\<forall>d \<in> set (human_approvals p (rp_decisions p)).
        (rp_risk p = High_risk \<or> ra_kind (rp_author p) = Kind_agent \<longrightarrow> \<not> same_person (dc_actor d) (rp_author p)) \<and>
        (rp_risk p = High_risk \<longrightarrow> ra_role (dc_actor d) \<noteq> Role_anonymous \<and> ra_role (dc_actor d) \<noteq> Role_viewer)) \<and>
     (rp_risk p = High_risk \<longrightarrow> ra_role (rp_author p) \<noteq> Role_anonymous)"

lemma below_editor: "role_order r < 2 \<longleftrightarrow> r = Role_anonymous \<or> r = Role_viewer"
  by (cases r) auto

lemma approved_now_default: "approved_now default_policy p \<longleftrightarrow> well_approved p"
proof -
  have floor: "role_floor ''editor'' = 2" by (simp add: role_floor_def)
  have none: "length hs < Suc 0 \<longleftrightarrow> hs = []" for hs :: "review_decision list" by auto
  show ?thesis
    unfolding approved_now_def evaluate_approval_def well_approved_def Let_def
    by (cases "rp_risk p"; cases "ra_kind (rp_author p)")
      (auto simp: default_policy_def floor list_ex_iff below_editor none split: if_splits)
qed

end
