(* ===== verification/Review_Store.thy ===== *)
theory Review_Store
  imports Review_Policy
begin

text \<open>
  The store of review proposals (\<open>app/services/review/store.py\<close>): one file per session with the proposals and
  the leases of running merges, read as a whole and rewritten as a whole under the session's lock. The state of
  a session is its map together with that file. A path name that leaves the storage directory is not modelled.
\<close>

section \<open>State and surroundings\<close>

text \<open>A lease is the time it was taken; \<open>None\<close> is a stamp that cannot be read.\<close>

datatype review_file = No_file | Corrupt_file | Review_file "review_proposal list" "(string \<times> time option) list"

record review_world =
  rw_map :: session
  rw_file :: review_file

datatype review_error = Store_corrupt | Store_full | Write_failed | Invalid_transition | Forbidden "blocking_reason list"
  | Proposal_not_found | Malformed_intent | Invalid_record | Lock_failed engine_error | No_proposal_left

type_synonym 'a review_prog = "(review_world, review_error, 'a) prog"

text \<open>
  What a call meets: the engine's surroundings, what others commit at the points where it waits, the clock,
  the lock of the session, whether the file can be written, fresh ids, the validation of request bodies and
  the codec and guard of the intents outside the model.
\<close>

record review_ctx =
  rc_map :: engine_ctx
  rc_env :: "nat \<Rightarrow> review_world \<Rightarrow> review_world"
  rc_now :: "nat \<Rightarrow> time"
  rc_lock :: "nat \<Rightarrow> lock_fate"
  rc_write :: "nat \<Rightarrow> bool"
  rc_fresh :: "nat \<Rightarrow> string"
  rc_parse :: "pydict \<Rightarrow> request_body option"
  rc_codec :: "request_body \<Rightarrow> intent option"
  rc_upsert :: "intent \<Rightarrow> (string \<times> bool) option"

section \<open>Leases\<close>

definition MAX_PROPOSALS_PER_SESSION :: nat where "MAX_PROPOSALS_PER_SESSION = 100"

definition MERGE_LEASE_TTL :: int where "MERGE_LEASE_TTL = 300 * 1000000"

definition lease_expired :: "time option \<Rightarrow> time \<Rightarrow> bool" where
  "lease_expired stamp now = (case stamp of None \<Rightarrow> True | Some t \<Rightarrow> now - t > MERGE_LEASE_TTL)"

definition apply_lease :: "time \<Rightarrow> string \<Rightarrow> bool \<Rightarrow> (string \<times> time option) list \<Rightarrow> (string \<times> time option) list" where
  "apply_lease now pid in_progress leases =
     (if in_progress then (if map_of leases pid = None then leases @ [(pid, Some now)] else leases)
      else AList.delete pid leases)"

definition lease_lives :: "time \<Rightarrow> (string \<times> time option) list \<Rightarrow> string \<Rightarrow> bool" where
  "lease_lives now leases pid = (case map_of leases pid of None \<Rightarrow> False | Some stamp \<Rightarrow> \<not> lease_expired stamp now)"

definition reclaimed :: "time \<Rightarrow> (string \<times> time option) list \<Rightarrow> review_proposal \<Rightarrow> review_proposal" where
  "reclaimed now leases p = (if rp_merging p \<and> \<not> lease_lives now leases (rp_id p) then p\<lparr>rp_merging := False\<rparr> else p)"

definition reclaim_expired_leases :: "time \<Rightarrow> review_proposal list \<Rightarrow> (string \<times> time option) list \<Rightarrow>
    review_proposal list \<times> (string \<times> time option) list" where
  "reclaim_expired_leases now ps leases =
     (let qs = List.map (reclaimed now leases) ps
      in (qs, filter (\<lambda>kv. list_ex (\<lambda>q. rp_merging q \<and> rp_id q = fst kv) qs) leases))"

section \<open>Loading and saving\<close>

definition load_payload :: "time \<Rightarrow> review_file \<Rightarrow> (review_proposal list \<times> (string \<times> time option) list) option" where
  "load_payload now f = (case f of
     No_file \<Rightarrow> Some ([], [])
   | Corrupt_file \<Rightarrow> None
   | Review_file ps leases \<Rightarrow> if list_all proposal_valid ps then Some (reclaim_expired_leases now ps leases) else None)"

definition save_all :: "bool \<Rightarrow> review_proposal list \<Rightarrow> (string \<times> time option) list \<Rightarrow> review_world \<Rightarrow> review_world \<times> bool" where
  "save_all ok ps leases w = (if ok then (w\<lparr>rw_file := Review_file ps leases\<rparr>, True) else (w, False))"

definition find_proposal :: "string \<Rightarrow> review_proposal list \<Rightarrow> review_proposal option" where
  "find_proposal pid ps = List.find (\<lambda>p. rp_id p = pid) ps"

text \<open>Reading takes no lock and writes nothing back.\<close>

definition list_proposals :: "review_ctx \<Rightarrow> review_proposal list review_prog" where
  "list_proposals rc = seq (pause (rc_env rc)) (\<lambda>_. seq (tick (\<lambda>k. k)) (\<lambda>k. seq (query rw_file) (\<lambda>f.
     case load_payload (rc_now rc k) f of None \<Rightarrow> fail_with Store_corrupt | Some (ps, ls) \<Rightarrow> ret ps)))"

definition get_proposal :: "review_ctx \<Rightarrow> string \<Rightarrow> review_proposal option review_prog" where
  "get_proposal rc pid = seq (list_proposals rc) (\<lambda>ps. ret (find_proposal pid ps))"

text \<open>
  The two writing operations under the lock. A degraded lock is refused. When the lock is lost others can
  commit between the reading and the writing, the file is written all the same, and the call raises.
\<close>

definition write_locked :: "review_ctx \<Rightarrow> nat \<Rightarrow> review_proposal list \<Rightarrow> (string \<times> time option) list \<Rightarrow> 'a \<Rightarrow> 'a review_prog" where
  "write_locked rc k ps leases x =
     seq (if rc_lock rc k = Lock_held then ret () else pause (rc_env rc)) (\<lambda>_.
     seq (commit (save_all (rc_write rc k) ps leases)) (\<lambda>ok.
       if \<not> ok then fail_with Write_failed
       else if rc_lock rc k = Lock_held then ret x else fail_with (Lock_failed Lock_lost_error)))"

definition save_checked :: "time \<Rightarrow> review_proposal \<Rightarrow> review_file \<Rightarrow>
    review_error + review_proposal list \<times> (string \<times> time option) list" where
  "save_checked now p f = (case load_payload now f of
     None \<Rightarrow> Inl Store_corrupt
   | Some (ps, ls) \<Rightarrow>
       if list_all (\<lambda>q. rp_id q \<noteq> rp_id p) ps \<and> MAX_PROPOSALS_PER_SESSION \<le> length ps then Inl Store_full
       else Inr (filter (\<lambda>q. rp_id q \<noteq> rp_id p) ps @ [p], apply_lease now (rp_id p) (rp_merging p) ls))"

definition save_proposal :: "review_ctx \<Rightarrow> review_proposal \<Rightarrow> unit review_prog" where
  "save_proposal rc p = seq (pause (rc_env rc)) (\<lambda>_. seq (tick (\<lambda>k. k)) (\<lambda>k.
     if rc_lock rc k = Lock_degraded then fail_with (Lock_failed Lock_degraded_error)
     else seq (query rw_file) (\<lambda>f. case save_checked (rc_now rc k) p f of
       Inl e \<Rightarrow> fail_with e
     | Inr (ps, ls) \<Rightarrow> write_locked rc k ps ls ())))"

definition put_proposal :: "string \<Rightarrow> review_proposal \<Rightarrow> review_proposal list \<Rightarrow> review_proposal list" where
  "put_proposal pid q ps = List.map (\<lambda>p. if rp_id p = pid then q else p) ps"

text \<open>The change \<open>f\<close> of a proposal is given the number of the point, for the clock and fresh ids.\<close>

definition mutate_proposal :: "review_ctx \<Rightarrow> string \<Rightarrow> (nat \<Rightarrow> review_proposal \<Rightarrow> review_error + review_proposal) \<Rightarrow>
    review_proposal option review_prog" where
  "mutate_proposal rc pid f = seq (pause (rc_env rc)) (\<lambda>_. seq (tick (\<lambda>k. k)) (\<lambda>k.
     if rc_lock rc k = Lock_degraded then fail_with (Lock_failed Lock_degraded_error)
     else seq (query rw_file) (\<lambda>file. case load_payload (rc_now rc k) file of
       None \<Rightarrow> fail_with Store_corrupt
     | Some (ps, ls) \<Rightarrow> (case find_proposal pid ps of
         None \<Rightarrow> if rc_lock rc k = Lock_held then ret None else fail_with (Lock_failed Lock_lost_error)
       | Some p \<Rightarrow> (case f k p of
           Inl e \<Rightarrow> fail_with e
         | Inr q \<Rightarrow> write_locked rc k (put_proposal pid q ps) (apply_lease (rc_now rc k) pid (rp_merging q) ls) (Some q))))))"

section \<open>Facts\<close>

lemma find_proposal_Some: "find_proposal pid ps = Some p \<Longrightarrow> p \<in> set ps \<and> rp_id p = pid"
  by (auto simp: find_proposal_def find_Some_iff)

lemma reclaimed_same [simp]:
  "rp_id (reclaimed now ls p) = rp_id p"
  "rp_status (reclaimed now ls p) = rp_status p"
  "rp_decisions (reclaimed now ls p) = rp_decisions p"
  "rp_comments (reclaimed now ls p) = rp_comments p"
  "rp_base (reclaimed now ls p) = rp_base p"
  "rp_author (reclaimed now ls p) = rp_author p"
  "rp_intents (reclaimed now ls p) = rp_intents p"
  "rp_risk (reclaimed now ls p) = rp_risk p"
  "rp_evidence (reclaimed now ls p) = rp_evidence p"
  by (simp_all add: reclaimed_def)

lemma reclaimed_valid [simp]: "proposal_valid (reclaimed now ls p) = proposal_valid p"
  by (simp add: reclaimed_def proposal_valid_def)

lemma load_payload_Some:
  assumes "load_payload now f = Some (ps, ls)"
  shows "(f = No_file \<and> ps = [] \<or> (\<exists>qs l. f = Review_file qs l \<and> list_all proposal_valid qs \<and> ps = List.map (reclaimed now l) qs))"
  using assms by (auto simp: load_payload_def reclaim_expired_leases_def Let_def split: review_file.splits if_splits)

text \<open>
  The lease of a merge that did not end is reclaimed: every reading later than the lease time after the stamp,
  and every reading without a stamp, shows the proposal free.
\<close>

lemma reclaimed_free:
  assumes "load_payload now f = Some (ps, ls)" and "p \<in> set ps" and "rp_merging p"
  shows "\<exists>qs l t. f = Review_file qs l \<and> map_of l (rp_id p) = Some (Some t) \<and> now \<le> t + MERGE_LEASE_TTL"
proof -
  from load_payload_Some [OF assms(1)] assms(2) obtain qs l where
    f: "f = Review_file qs l" "ps = List.map (reclaimed now l) qs" by auto
  then obtain q where q: "q \<in> set qs" "p = reclaimed now l q" using assms(2) by auto
  then have "lease_lives now l (rp_id p)" using assms(3) by (auto simp: reclaimed_def split: if_splits)
  with f(1) show ?thesis by (auto simp: lease_lives_def lease_expired_def split: option.splits)
qed

end
