(* ===== verification/Review_Merge.thy ===== *)
theory Review_Merge
  imports Review_Store
begin

text \<open>
  The merge of an approved proposal (\<open>app/services/review/merge.py\<close>): the base revision is compared, a named
  checkpoint is taken, the intents are replayed one by one through the entry of all map mutations, each
  expecting the revision the one before left, and after a failure the checkpoint is restored.
\<close>

section \<open>Outcome\<close>

text \<open>The machine readable reason of a merge that did not end well.\<close>

datatype merge_failure = Base_revision_drift | Checkpoint_failed | Intent_invalid nat | Superseded_mid_merge
  | Intent_failed nat | Already_merged | Interleaved_before_rollback merge_failure | Rollback_failed merge_failure

record merge_outcome =
  mo_ok :: bool
  mo_conflict :: bool
  mo_interleaved :: bool
  mo_rolled_back :: bool
  mo_failure :: "merge_failure option"
  mo_evidence :: "merge_evidence option"

fun failure_text :: "merge_failure \<Rightarrow> string" where
  "failure_text Base_revision_drift = ''base_revision_drift''"
| "failure_text Checkpoint_failed = ''checkpoint_failed''"
| "failure_text (Intent_invalid i) = ''intent_invalid:'' @ py_str (PInt (int i))"
| "failure_text Superseded_mid_merge = ''superseded_mid_merge''"
| "failure_text (Intent_failed i) = ''intent_failed:'' @ py_str (PInt (int i))"
| "failure_text Already_merged = ''already_merged''"
| "failure_text (Interleaved_before_rollback f) = failure_text f @ ''+interleaved_before_rollback''"
| "failure_text (Rollback_failed f) = failure_text f @ ''+rollback_failed''"

record replay_state =
  re_revision :: int
  re_applied :: "merge_step list"
  re_ids :: "string list"
  re_failure :: "merge_failure option"
  re_interleaved :: bool

section \<open>The replay\<close>

definition merge_key :: "string \<Rightarrow> int \<Rightarrow> nat \<Rightarrow> string" where
  "merge_key pid base i = ''merge:'' @ pid @ '':'' @ py_str (PInt base) @ '':'' @ py_str (PInt (int i))"

definition merge_actor :: "string \<Rightarrow> string" where
  "merge_actor pid = ''review_merge:'' @ pid"

definition merge_checkpoint_id :: "string \<Rightarrow> string" where
  "merge_checkpoint_id pid = take 120 (''mr_'' @ pid)"

text \<open>\<open>int(r.mutation_revision or dflt)\<close>.\<close>

definition revision_or :: "mutation_result \<Rightarrow> int \<Rightarrow> int" where
  "revision_or r dflt = (if rs_revision r \<noteq> 0 then rs_revision r else dflt)"

definition step_of :: "nat \<Rightarrow> request_body \<Rightarrow> int \<Rightarrow> merge_step" where
  "step_of i b revision = \<lparr>ms_index = i, ms_kind = bd_intent b, ms_target = intent_target b, ms_revision = revision\<rparr>"

definition after_intent :: "nat \<Rightarrow> request_body \<Rightarrow> mutation_result \<Rightarrow> replay_state \<Rightarrow> replay_state" where
  "after_intent i b r st =
     (if rs_superseded r then st\<lparr>re_interleaved := True, re_failure := Some Superseded_mid_merge\<rparr>
      else let st1 = (if truthy (rs_mutation_id r) then st\<lparr>re_ids := re_ids st @ [or_else (rs_mutation_id r) []]\<rparr> else st)
        in if rs_duplicate r
           then (let v = revision_or r (re_revision st)
                 in st1\<lparr>re_revision := v, re_applied := re_applied st @ [step_of i b v]\<rparr>)
           else if rs_error r then st1\<lparr>re_failure := Some (Intent_failed i)\<rparr>
           else (let v = revision_or r (re_revision st + 1)
                 in st1\<lparr>re_revision := v, re_applied := re_applied st @ [step_of i b v]\<rparr>))"

fun replay :: "review_ctx \<Rightarrow> string \<Rightarrow> int \<Rightarrow> nat \<Rightarrow> request_body list \<Rightarrow> replay_state \<Rightarrow> replay_state session_prog" where
  "replay rc pid base i [] st = ret st"
| "replay rc pid base i (b # bs) st = (case body_to_intent (rc_codec rc) b of
     None \<Rightarrow> ret (st\<lparr>re_failure := Some (Intent_invalid i)\<rparr>)
   | Some it \<Rightarrow>
       seq (apply_gis_mutation (rc_map rc) (rc_upsert rc) it By_system (merge_actor pid) (Some (re_revision st))
              (Some (merge_key pid base i))) (\<lambda>r.
         let st' = after_intent i b r st
         in if re_failure st' = None then replay rc pid base (Suc i) bs st' else ret st'))"

section \<open>The rollback and the merge\<close>

text \<open>What the outcome says of interleaving, of the rollback and of the failure, after the restoring call.\<close>

definition after_rollback :: "merge_failure \<Rightarrow> mutation_result \<Rightarrow> bool \<times> bool \<times> merge_failure" where
  "after_rollback f r =
     (if rs_superseded r then (True, False, Interleaved_before_rollback f)
      else if rs_error r then (False, False, Rollback_failed f) else (False, True, f))"

definition undo_replay :: "review_ctx \<Rightarrow> string \<Rightarrow> replay_state \<Rightarrow> (bool \<times> bool \<times> merge_failure option) session_prog" where
  "undo_replay rc pid st = (case re_failure st of
     None \<Rightarrow> ret (re_interleaved st, False, None)
   | Some f \<Rightarrow> if re_interleaved st then ret (True, False, Some f)
       else seq (apply_gis_mutation (rc_map rc) (rc_upsert rc) (RollbackIntent (merge_checkpoint_id pid)) By_system
                   (merge_actor pid) (Some (re_revision st)) None)
              (\<lambda>r. case after_rollback f r of (interleaved, undone_all, f') \<Rightarrow> ret (interleaved, undone_all, Some f')))"

definition evidence_of :: "review_proposal \<Rightarrow> review_actor \<Rightarrow> approval_policy \<Rightarrow> string list \<Rightarrow> string \<Rightarrow> int \<Rightarrow>
    merge_failure option \<Rightarrow> time \<Rightarrow> merge_evidence" where
  "evidence_of p actor pol approvals ckpt revision failure now =
     \<lparr>me_at = now, me_actor = actor, me_base = rp_base p, me_revision = revision, me_checkpoint = ckpt, me_applied = [],
      me_rolled_back = False, me_failure = map_option failure_text failure, me_interleaved = False, me_mutation_ids = [],
      me_approvals = approvals, me_policy = pol\<rparr>"

text \<open>The bounds of the evidence are checked where it is built; \<open>None\<close> raises.\<close>

definition checked_outcome :: "merge_outcome \<Rightarrow> merge_outcome option" where
  "checked_outcome out = (case mo_evidence out of None \<Rightarrow> Some out
     | Some ev \<Rightarrow> if evidence_valid ev then Some out else None)"

definition failed_outcome :: "bool \<Rightarrow> merge_failure \<Rightarrow> merge_evidence option \<Rightarrow> merge_outcome" where
  "failed_outcome conflict f ev = \<lparr>mo_ok = False, mo_conflict = conflict, mo_interleaved = False, mo_rolled_back = False,
     mo_failure = Some f, mo_evidence = ev\<rparr>"

definition merge_outcome_of :: "merge_evidence \<Rightarrow> replay_state \<Rightarrow> bool \<times> bool \<times> merge_failure option \<Rightarrow> merge_outcome" where
  "merge_outcome_of ev st res = (case res of (interleaved, undone_all, f) \<Rightarrow>
     \<lparr>mo_ok = (f = None), mo_conflict = False, mo_interleaved = interleaved, mo_rolled_back = undone_all, mo_failure = f,
      mo_evidence = Some (ev\<lparr>me_applied := re_applied st, me_rolled_back := undone_all, me_interleaved := interleaved,
        me_mutation_ids := re_ids st\<rparr>)\<rparr>)"

definition merge_proposal_intents :: "review_ctx \<Rightarrow> review_proposal \<Rightarrow> review_actor \<Rightarrow> approval_policy \<Rightarrow> string list \<Rightarrow>
    merge_outcome option session_prog" where
  "merge_proposal_intents rc p actor pol approvals =
     (let pid = rp_id p; ckpt = merge_checkpoint_id pid; now = rc_now rc; evidence = evidence_of p actor pol approvals;
          answer = (\<lambda>out. ret (checked_outcome out))
      in seq (pause (ec_env (rc_map rc))) (\<lambda>_. seq (tick now) (\<lambda>t0. seq (query se_revision) (\<lambda>current.
         if current \<noteq> rp_base p
         then answer (failed_outcome True Base_revision_drift (Some (evidence ''none'' current (Some Base_revision_drift) t0)))
         else seq (apply_gis_mutation (rc_map rc) (rc_upsert rc) (CheckpointIntent (Some ckpt)) By_system
                     (merge_actor pid) (Some current) None) (\<lambda>r.
           if rs_superseded r then answer (failed_outcome True Base_revision_drift None)
           else if rs_error r
           then answer (failed_outcome False Checkpoint_failed (Some (evidence ckpt current (Some Checkpoint_failed) t0)))
           else seq (replay rc pid (rp_base p) 0 (rp_intents p)
                       \<lparr>re_revision = revision_or r (current + 1), re_applied = [], re_ids = [], re_failure = None,
                        re_interleaved = False\<rparr>) (\<lambda>st.
                seq (undo_replay rc pid st) (\<lambda>res. seq (tick now) (\<lambda>t1.
                  answer (merge_outcome_of (evidence ckpt (re_revision st) (snd (snd res)) t1) st res)))))))))"

end
