(* ===== verification/Review_Service.thy ===== *)
theory Review_Service
  imports Review_Merge
begin

text \<open>
  The operations on proposals (\<open>app/services/review/service.py\<close>): drafting, submission, comments, decisions,
  merge, rebase, withdrawal and superseding. Every change of a proposal is a function given to the store, which
  applies it under the lock. The notification of other clients has no effect on the state and is not modelled.
\<close>

section \<open>Changes of one proposal\<close>

type_synonym change = "nat \<Rightarrow> review_proposal \<Rightarrow> review_error + review_proposal"

definition move_to :: "proposal_status \<Rightarrow> review_proposal \<Rightarrow> review_error + review_proposal" where
  "move_to st p = (if st \<in> set (proposal_transitions (rp_status p)) then Inr (p\<lparr>rp_status := st\<rparr>) else Inl Invalid_transition)"

definition touched :: "time \<Rightarrow> review_error + review_proposal \<Rightarrow> review_error + review_proposal" where
  "touched now x = (case x of Inl e \<Rightarrow> Inl e | Inr p \<Rightarrow> Inr (p\<lparr>rp_updated := now\<rparr>))"

definition author_change :: "review_ctx \<Rightarrow> review_actor \<Rightarrow> proposal_status \<Rightarrow> change" where
  "author_change rc actor st k p =
     (if rp_merging p then Inl Invalid_transition
      else if \<not> same_person (rp_author p) actor then Inl (Forbidden [])
      else touched (rc_now rc k) (move_to st p))"

definition submit_change :: "review_ctx \<Rightarrow> review_actor \<Rightarrow> int \<Rightarrow> change" where
  "submit_change rc actor base k p =
     (if rp_merging p then Inl Invalid_transition
      else if \<not> same_person (rp_author p) actor then Inl (Forbidden [])
      else if base \<noteq> rp_base p then Inl Invalid_transition
      else touched (rc_now rc k) (move_to Submitted p))"

definition comment_change :: "review_ctx \<Rightarrow> anchored_comment \<Rightarrow> change" where
  "comment_change rc c k p =
     (if MAX_COMMENTS_PER_PROPOSAL \<le> length (rp_comments p) then Inl Invalid_transition
      else Inr (p\<lparr>rp_comments := rp_comments p @ [c], rp_updated := rc_now rc k\<rparr>))"

text \<open>What forbids an approval at the time it is recorded.\<close>

definition approve_gate :: "review_proposal \<Rightarrow> review_actor \<Rightarrow> review_error option" where
  "approve_gate p actor =
     (let high = rp_risk p = High_risk
      in if ra_kind actor \<noteq> Kind_user then Some (Forbidden [])
         else if (high \<or> ra_kind (rp_author p) = Kind_agent) \<and> same_person actor (rp_author p)
         then Some (Forbidden [Needs_distinct_reviewer])
         else if high \<and> ra_role actor = Role_anonymous then Some (Forbidden [Needs_authenticated])
         else if high \<and> ra_role actor \<notin> {Role_editor, Role_admin} then Some (Forbidden [Needs_role])
         else None)"

definition with_decision :: "review_decision \<Rightarrow> review_proposal \<Rightarrow> review_proposal" where
  "with_decision d p = p\<lparr>rp_decisions := rp_decisions p @ [d]\<rparr>"

definition approve_change :: "approval_policy \<Rightarrow> review_decision \<Rightarrow> review_proposal \<Rightarrow> review_error + review_proposal" where
  "approve_change pol d p = (case approve_gate p (dc_actor d) of
     Some e \<Rightarrow> Inl e
   | None \<Rightarrow>
       if rp_status p = Draft \<or> rp_status p \<in> set TERMINAL_PROPOSALS then Inl Invalid_transition
       else (let q = with_decision d p
             in if approved_now pol q \<and> rp_status q \<in> {Submitted, Changes_requested} then move_to Approved q else Inr q))"

definition decide_change :: "approval_policy \<Rightarrow> review_verb \<Rightarrow> review_decision \<Rightarrow> review_proposal \<Rightarrow> review_error + review_proposal" where
  "decide_change pol verb d p = (case verb of
     Approve \<Rightarrow> approve_change pol d p
   | Request_changes \<Rightarrow>
       if rp_status p \<noteq> Submitted then Inl Invalid_transition else move_to Changes_requested (with_decision d p)
   | Reject \<Rightarrow>
       if rp_status p \<notin> {Submitted, Approved} then Inl Invalid_transition else move_to Rejected (with_decision d p))"

definition decision_change :: "review_ctx \<Rightarrow> approval_policy \<Rightarrow> review_actor \<Rightarrow> review_verb \<Rightarrow> string \<Rightarrow> change" where
  "decision_change rc pol actor verb reason k p =
     (if rp_merging p then Inl Invalid_transition
      else if MAX_DECISIONS_PER_PROPOSAL \<le> length (rp_decisions p) then Inl Invalid_transition
      else (let d = \<lparr>dc_id = ''rd_'' @ rc_fresh rc k, dc_verb = verb, dc_actor = actor, dc_reason = reason,
                  dc_base = rp_base p, dc_created = rc_now rc k\<rparr>
            in if \<not> decision_valid d then Inl Invalid_record
               else touched (rc_now rc k) (decide_change pol verb d p)))"

definition reserve_change :: "change" where
  "reserve_change k p =
     (if rp_merging p then Inl Invalid_transition
      else if rp_status p \<noteq> Approved then Inl Invalid_transition
      else Inr (p\<lparr>rp_merging := True\<rparr>))"

definition release_change :: "review_ctx \<Rightarrow> change" where
  "release_change rc k p = Inr (p\<lparr>rp_merging := False, rp_updated := rc_now rc k\<rparr>)"

definition keep_change :: "review_ctx \<Rightarrow> merge_evidence option \<Rightarrow> change" where
  "keep_change rc ev k p = Inr (p\<lparr>rp_merging := False, rp_evidence := ev, rp_updated := rc_now rc k\<rparr>)"

definition merged_change :: "review_ctx \<Rightarrow> merge_evidence option \<Rightarrow> change" where
  "merged_change rc ev k p =
     (if rp_status p \<noteq> Approved then Inl Invalid_transition
      else Inr (p\<lparr>rp_status := Merged, rp_evidence := ev, rp_merging := False, rp_updated := rc_now rc k\<rparr>))"

definition rebase_change :: "review_ctx \<Rightarrow> review_actor \<Rightarrow> int \<Rightarrow> int \<Rightarrow> change" where
  "rebase_change rc actor old_base new_base k p =
     (if \<not> same_person (rp_author p) actor then Inl (Forbidden [])
      else if rp_merging p \<or> rp_base p \<noteq> old_base \<or> rp_status p \<notin> {Submitted, Approved} then Inl Invalid_transition
      else (case move_to Submitted p of Inl e \<Rightarrow> Inl e
            | Inr q \<Rightarrow> Inr (q\<lparr>rp_base := new_base, rp_updated := rc_now rc k\<rparr>)))"

section \<open>Targets of a rebase\<close>

definition ids_in :: "pyval \<Rightarrow> string list option" where
  "ids_in v = (if \<not> py_truthy v then Some []
     else map_option (List.map_filter (\<lambda>x. case entry_dict x of None \<Rightarrow> None
       | Some e \<Rightarrow> (let i = py_get e ''id'' in if py_truthy i then Some (py_str i) else None))) (iter_values v))"

definition target_missing :: "string list \<Rightarrow> string list \<Rightarrow> request_body \<Rightarrow> bool" where
  "target_missing layers components b =
     (let kind = bd_intent b; cid = str_field b ''component_id''
      in if kind \<in> set [''patch_layer_style'', ''patch_layer_presentation'', ''remove_layer'']
         then str_field b ''layer_id'' \<notin> set layers
         else if kind = ''reorder_layers'' then \<not> list_ex (\<lambda>l. l \<in> set layers) (str_list_field b ''layer_ids'')
         else if kind \<in> set [''remove_component'', ''duplicate_component'', ''rebind_component''] then cid \<notin> set components
         else kind = ''patch_component'' \<and> \<not> py_truthy (py_get (bd_fields b) ''upsert'') \<and> cid \<notin> set components)"

definition validate_targets :: "request_body list \<Rightarrow> pydict option \<Rightarrow> review_error option" where
  "validate_targets bodies spec = (case spec of
     None \<Rightarrow> None
   | Some d \<Rightarrow> (case (ids_in (py_get d ''layers''), ids_in (py_get (dict_if (py_get d ''layout'')) ''components'')) of
       (Some layers, Some components) \<Rightarrow>
         if list_ex (target_missing layers components) bodies then Some Invalid_transition else None
     | _ \<Rightarrow> Some Invalid_record))"

section \<open>Operations\<close>

definition must_get :: "review_ctx \<Rightarrow> string \<Rightarrow> review_proposal review_prog" where
  "must_get rc pid = seq (get_proposal rc pid) (\<lambda>x. case x of None \<Rightarrow> fail_with Proposal_not_found | Some p \<Rightarrow> ret p)"

text \<open>A program over the map, run in a session with reviews.\<close>

definition on_map :: "'a session_prog \<Rightarrow> 'a review_prog" where
  "on_map m w = (case m (rw_map (fst w), snd w) of (res, (s, k)) \<Rightarrow>
     ((case res of Inl e \<Rightarrow> Inl (Lock_failed e) | Inr x \<Rightarrow> Inr x), ((fst w)\<lparr>rw_map := s\<rparr>, k)))"

definition found :: "review_proposal option \<Rightarrow> review_proposal review_prog" where
  "found x = (case x of None \<Rightarrow> fail_with Proposal_not_found | Some p \<Rightarrow> ret p)"

definition create_proposal :: "review_ctx \<Rightarrow> review_actor \<Rightarrow> string \<Rightarrow> pydict list \<Rightarrow> string \<Rightarrow> review_proposal review_prog" where
  "create_proposal rc author title intents description = (case all_some (rc_parse rc) intents of
     None \<Rightarrow> fail_with Malformed_intent
   | Some bodies \<Rightarrow> seq (pause (rc_env rc)) (\<lambda>_. seq (tick (\<lambda>k. k)) (\<lambda>k. seq (query rw_map) (\<lambda>s.
       let p = \<lparr>rp_id = ''rp_'' @ rc_fresh rc k, rp_title = title, rp_description = description, rp_author = author,
             rp_base = se_revision s, rp_intents = bodies, rp_status = Draft, rp_risk = classify_risk bodies,
             rp_comments = [], rp_decisions = [], rp_evidence = None, rp_merging = False, rp_created = rc_now rc k,
             rp_updated = rc_now rc k\<rparr>
       in if \<not> proposal_valid p then fail_with Invalid_record
          else seq (save_proposal rc p) (\<lambda>_. ret p)))))"

definition submit_proposal :: "review_ctx \<Rightarrow> string \<Rightarrow> review_actor \<Rightarrow> int \<Rightarrow> review_proposal review_prog" where
  "submit_proposal rc pid actor base = seq (mutate_proposal rc pid (submit_change rc actor base)) found"

definition add_comment :: "review_ctx \<Rightarrow> string \<Rightarrow> review_actor \<Rightarrow> string \<Rightarrow> review_anchor option \<Rightarrow> review_proposal review_prog" where
  "add_comment rc pid actor body anchor = seq (tick (\<lambda>k. k)) (\<lambda>k.
     let c = \<lparr>cm_id = ''rc_'' @ rc_fresh rc k, cm_author = actor, cm_body = body, cm_anchor = anchor, cm_created = rc_now rc k\<rparr>
     in if \<not> comment_valid c then fail_with Invalid_record
        else seq (mutate_proposal rc pid (comment_change rc c)) found)"

definition record_decision :: "review_ctx \<Rightarrow> approval_policy \<Rightarrow> string \<Rightarrow> review_actor \<Rightarrow> string \<Rightarrow> string \<Rightarrow>
    review_proposal review_prog" where
  "record_decision rc pol pid actor decision reason = (case verb_of decision of
     None \<Rightarrow> fail_with Invalid_transition
   | Some verb \<Rightarrow> if ra_kind actor \<noteq> Kind_user then fail_with (Forbidden [])
       else seq (mutate_proposal rc pid (decision_change rc pol actor verb reason)) found)"

definition withdraw_proposal :: "review_ctx \<Rightarrow> string \<Rightarrow> review_actor \<Rightarrow> review_proposal review_prog" where
  "withdraw_proposal rc pid actor = seq (mutate_proposal rc pid (author_change rc actor Withdrawn)) found"

definition supersede_proposal :: "review_ctx \<Rightarrow> string \<Rightarrow> review_actor \<Rightarrow> review_proposal review_prog" where
  "supersede_proposal rc pid actor = seq (mutate_proposal rc pid (author_change rc actor Superseded)) found"

definition rebase_proposal :: "review_ctx \<Rightarrow> string \<Rightarrow> review_actor \<Rightarrow> review_proposal review_prog" where
  "rebase_proposal rc pid actor = seq (must_get rc pid) (\<lambda>p.
     if \<not> same_person (rp_author p) actor then fail_with (Forbidden [])
     else if rp_merging p then fail_with Invalid_transition
     else if rp_status p \<notin> {Submitted, Approved} then fail_with Invalid_transition
     else seq (pause (rc_env rc)) (\<lambda>_. seq (on_map (commit (\<lambda>s. let g = get_mapspec s in (snd g, fst g)))) (\<lambda>spec.
          seq (pause (rc_env rc)) (\<lambda>_. seq (query rw_map) (\<lambda>s.
            let new_base = se_revision s
            in if new_base = rp_base p then fail_with Invalid_transition
               else (case validate_targets (rp_intents p) spec of
                 Some e \<Rightarrow> fail_with e
               | None \<Rightarrow> seq (mutate_proposal rc pid (rebase_change rc actor (rp_base p) new_base))
                   (\<lambda>x. case x of None \<Rightarrow> fail_with No_proposal_left | Some q \<Rightarrow> ret q)))))))"

definition counted_ids :: "review_proposal \<Rightarrow> string list" where
  "counted_ids p = List.map dc_id (human_approvals p (rp_decisions p))"

definition merge_refused :: "approval_policy \<Rightarrow> review_proposal \<Rightarrow> review_error option" where
  "merge_refused pol p =
     (let reasons = vd_reasons (evaluate_approval pol p (rp_decisions p))
      in if rp_status p = Submitted then Some (Forbidden reasons)
         else if rp_status p \<noteq> Approved then Some Invalid_transition
         else if \<not> approved_now pol p then Some (Forbidden reasons) else None)"

definition close_merge :: "review_ctx \<Rightarrow> string \<Rightarrow> merge_outcome \<Rightarrow> (review_proposal \<times> merge_outcome) review_prog" where
  "close_merge rc pid out =
     (if \<not> mo_ok out
      then seq (mutate_proposal rc pid (keep_change rc (mo_evidence out))) (\<lambda>_. seq (must_get rc pid) (\<lambda>p. ret (p, out)))
      else on_error (seq (mutate_proposal rc pid (merged_change rc (mo_evidence out)))
             (\<lambda>x. case x of None \<Rightarrow> fail_with No_proposal_left | Some q \<Rightarrow> ret (q, out)))
           (\<lambda>e. if e = Invalid_transition
              then seq (mutate_proposal rc pid (keep_change rc (mo_evidence out))) (\<lambda>_. seq (must_get rc pid) (\<lambda>p.
                ret (p, \<lparr>mo_ok = False, mo_conflict = False, mo_interleaved = False, mo_rolled_back = False,
                  mo_failure = Some Already_merged, mo_evidence = None\<rparr>)))
              else fail_with e))"

definition merge_proposal :: "review_ctx \<Rightarrow> approval_policy \<Rightarrow> string \<Rightarrow> review_actor \<Rightarrow>
    (review_proposal \<times> merge_outcome) review_prog" where
  "merge_proposal rc pol pid actor = seq (must_get rc pid) (\<lambda>p. case merge_refused pol p of
     Some e \<Rightarrow> fail_with e
   | None \<Rightarrow> seq (mutate_proposal rc pid reserve_change) (\<lambda>x. case x of
       None \<Rightarrow> fail_with No_proposal_left
     | Some reserved \<Rightarrow>
         seq (on_error (seq (on_map (merge_proposal_intents rc reserved actor pol (counted_ids p)))
                  (\<lambda>out. case out of None \<Rightarrow> fail_with Invalid_record | Some y \<Rightarrow> ret y))
                (\<lambda>e. seq (mutate_proposal rc pid (release_change rc)) (\<lambda>_. fail_with e)))
             (close_merge rc pid)))"

section \<open>Calls\<close>

datatype review_call =
    Review_create review_actor string "pydict list" string
  | Review_submit string review_actor int
  | Review_comment string review_actor string "review_anchor option"
  | Review_decide string review_actor string string
  | Review_merge string review_actor
  | Review_rebase string review_actor
  | Review_withdraw string review_actor
  | Review_supersede string review_actor

definition done_with :: "'a review_prog \<Rightarrow> unit review_prog" where
  "done_with m = seq m (\<lambda>_. ret ())"

text \<open>The service runs with the default policy.\<close>

fun run_review :: "review_ctx \<Rightarrow> review_call \<Rightarrow> unit review_prog" where
  "run_review rc (Review_create a title intents description) = done_with (create_proposal rc a title intents description)"
| "run_review rc (Review_submit pid a base) = done_with (submit_proposal rc pid a base)"
| "run_review rc (Review_comment pid a body anchor) = done_with (add_comment rc pid a body anchor)"
| "run_review rc (Review_decide pid a decision reason) = done_with (record_decision rc default_policy pid a decision reason)"
| "run_review rc (Review_merge pid a) = done_with (merge_proposal rc default_policy pid a)"
| "run_review rc (Review_rebase pid a) = done_with (rebase_proposal rc pid a)"
| "run_review rc (Review_withdraw pid a) = done_with (withdraw_proposal rc pid a)"
| "run_review rc (Review_supersede pid a) = done_with (supersede_proposal rc pid a)"

definition review_step :: "review_world world \<Rightarrow> review_ctx \<times> review_call \<Rightarrow> review_world world" where
  "review_step w op = snd (run_review (fst op) (snd op) w)"

end
