(* ===== verification/Review_Invariant.thy ===== *)
theory Review_Invariant
  imports Review_Service
begin

text \<open>
  The invariant of the review store, the order in which a proposal can move, and the changes of a proposal that
  respect both: every change the service hands to the store is one of them.
\<close>

section \<open>The invariant\<close>

definition proposal_ok :: "review_proposal \<Rightarrow> bool" where
  "proposal_ok p \<longleftrightarrow> proposal_valid p \<and> (rp_status p \<in> {Approved, Merged} \<longrightarrow> well_approved p)"

definition file_ok :: "review_file \<Rightarrow> bool" where
  "file_ok f = (case f of No_file \<Rightarrow> True | Corrupt_file \<Rightarrow> False
     | Review_file ps ls \<Rightarrow> list_all proposal_ok ps \<and> distinct (List.map rp_id ps) \<and> length ps \<le> MAX_PROPOSALS_PER_SESSION)"

definition reviews_ok :: "review_world \<Rightarrow> bool" where
  "reviews_ok w \<longleftrightarrow> file_ok (rw_file w) \<and> 0 \<le> se_revision (rw_map w)"

text \<open>The forward order of a proposal.\<close>

definition proposal_le :: "review_proposal \<Rightarrow> review_proposal \<Rightarrow> bool" where
  "proposal_le p q \<longleftrightarrow> rp_id q = rp_id p \<and> rp_author q = rp_author p \<and> rp_intents q = rp_intents p \<and> rp_risk q = rp_risk p \<and>
     rp_created q = rp_created p \<and> prefix (rp_decisions p) (rp_decisions q) \<and> prefix (rp_comments p) (rp_comments q) \<and>
     (rp_status p \<in> set TERMINAL_PROPOSALS \<longrightarrow>
        rp_status q = rp_status p \<and> rp_base q = rp_base p \<and> rp_decisions q = rp_decisions p)"

definition proposal_at :: "string \<Rightarrow> review_world \<Rightarrow> review_proposal option" where
  "proposal_at pid w = (case rw_file w of Review_file ps ls \<Rightarrow> find_proposal pid ps | _ \<Rightarrow> None)"

definition review_forward :: "string \<Rightarrow> review_world \<Rightarrow> review_world \<Rightarrow> bool" where
  "review_forward pid w v \<longleftrightarrow> (\<forall>p. proposal_at pid w = Some p \<longrightarrow> (\<exists>q. proposal_at pid v = Some q \<and> proposal_le p q))"

lemma proposal_le_refl: "proposal_le p p"
  by (simp add: proposal_le_def)

lemma proposal_le_trans: "proposal_le p q \<Longrightarrow> proposal_le q r \<Longrightarrow> proposal_le p r"
  unfolding proposal_le_def by (metis prefix_order.order_trans)

lemma reclaimed_le: "proposal_le p (reclaimed now ls p)"
  by (simp add: proposal_le_def reclaimed_def)

lemma well_approved_updates [simp]:
  "well_approved (p\<lparr>rp_status := st\<rparr>) = well_approved p"
  "well_approved (p\<lparr>rp_merging := m\<rparr>) = well_approved p"
  "well_approved (p\<lparr>rp_updated := t\<rparr>) = well_approved p"
  "well_approved (p\<lparr>rp_comments := cs\<rparr>) = well_approved p"
  "well_approved (p\<lparr>rp_evidence := ev\<rparr>) = well_approved p"
  by (simp_all add: well_approved_def human_approvals_def)

lemma proposal_valid_updates [simp]:
  "proposal_valid (p\<lparr>rp_status := st\<rparr>) = proposal_valid p"
  "proposal_valid (p\<lparr>rp_merging := m\<rparr>) = proposal_valid p"
  "proposal_valid (p\<lparr>rp_updated := t\<rparr>) = proposal_valid p"
  by (simp_all add: proposal_valid_def)

definition evidence_ok :: "merge_evidence option \<Rightarrow> bool" where
  "evidence_ok ev = (case ev of None \<Rightarrow> True | Some e \<Rightarrow> evidence_valid e)"

lemma proposal_valid_evidence: "proposal_valid p \<Longrightarrow> evidence_ok ev \<Longrightarrow> proposal_valid (p\<lparr>rp_evidence := ev\<rparr>)"
  by (simp add: proposal_valid_def evidence_ok_def)

lemma proposal_valid_base: "proposal_valid p \<Longrightarrow> 0 \<le> b \<Longrightarrow> proposal_valid (p\<lparr>rp_base := b\<rparr>)"
  by (simp add: proposal_valid_def)

lemma proposal_valid_comment:
  "proposal_valid p \<Longrightarrow> comment_valid c \<Longrightarrow> length (rp_comments p) < MAX_COMMENTS_PER_PROPOSAL \<Longrightarrow>
   proposal_valid (p\<lparr>rp_comments := rp_comments p @ [c]\<rparr>)"
  by (simp add: proposal_valid_def sized_def)

lemma reclaimed_ok: "proposal_ok (reclaimed now ls p) = proposal_ok p"
  by (simp add: proposal_ok_def reclaimed_def)

section \<open>Changes that keep the invariant and the order\<close>

definition fine_change :: "change \<Rightarrow> bool" where
  "fine_change f \<longleftrightarrow> (\<forall>k p q. proposal_ok p \<longrightarrow> f k p = Inr q \<longrightarrow> proposal_ok q \<and> proposal_le p q)"

lemma fine_changeI: "(\<And>k p q. proposal_ok p \<Longrightarrow> f k p = Inr q \<Longrightarrow> proposal_ok q \<and> proposal_le p q) \<Longrightarrow> fine_change f"
  by (simp add: fine_change_def)

lemma terminal_set: "rp_status p \<in> set TERMINAL_PROPOSALS \<longleftrightarrow> proposal_transitions (rp_status p) = []"
  by (cases "rp_status p") (simp_all add: TERMINAL_PROPOSALS_def)

lemma move_toD: "move_to st p = Inr q \<Longrightarrow> q = p\<lparr>rp_status := st\<rparr> \<and> rp_status p \<notin> set TERMINAL_PROPOSALS"
  by (auto simp: move_to_def terminal_set split: if_splits)

text \<open>A change of the status that approves nothing.\<close>

lemma moved_ok:
  assumes "proposal_ok p" and "st \<notin> {Approved, Merged}" and "move_to st p = Inr q"
  shows "proposal_ok (q\<lparr>rp_updated := t\<rparr>) \<and> proposal_le p (q\<lparr>rp_updated := t\<rparr>)"
  using assms move_toD [OF assms(3)] by (auto simp: proposal_ok_def proposal_le_def)

lemma touched_moved:
  assumes "proposal_ok p" and "st \<notin> {Approved, Merged}" and "touched now (move_to st p) = Inr q"
  shows "proposal_ok q \<and> proposal_le p q"
proof -
  obtain m where "move_to st p = Inr m" "q = m\<lparr>rp_updated := now\<rparr>"
    using assms(3) by (cases "move_to st p") (simp_all add: touched_def)
  with moved_ok [OF assms(1,2)] show ?thesis by simp
qed

lemma fine_author: "st \<notin> {Approved, Merged} \<Longrightarrow> fine_change (author_change rc actor st)"
  by (rule fine_changeI, rule touched_moved) (simp_all add: author_change_def split: if_splits)

lemma fine_submit: "fine_change (submit_change rc actor base)"
  by (rule fine_changeI, rule touched_moved [where st = Submitted]) (simp_all add: submit_change_def split: if_splits)

lemma fine_comment:
  assumes "comment_valid c"
  shows "fine_change (comment_change rc c)"
proof (rule fine_changeI)
  fix k p q
  assume p: "proposal_ok p" "comment_change rc c k p = Inr q"
  then have q: "q = p\<lparr>rp_comments := rp_comments p @ [c], rp_updated := rc_now rc k\<rparr>" "length (rp_comments p) < MAX_COMMENTS_PER_PROPOSAL"
    by (auto simp: comment_change_def split: if_splits)
  with p(1) proposal_valid_comment [OF _ assms q(2)] show "proposal_ok q \<and> proposal_le p q"
    by (simp add: proposal_ok_def proposal_le_def)
qed

lemma fine_reserve: "fine_change reserve_change"
  by (rule fine_changeI) (auto simp: reserve_change_def proposal_ok_def proposal_le_def split: if_splits)

lemma fine_release: "fine_change (release_change rc)"
  by (rule fine_changeI) (auto simp: release_change_def proposal_ok_def proposal_le_def)

lemma fine_keep:
  assumes "evidence_ok ev"
  shows "fine_change (keep_change rc ev)"
proof (rule fine_changeI)
  fix k p q
  assume p: "proposal_ok p" "keep_change rc ev k p = Inr q"
  then have "q = p\<lparr>rp_merging := False, rp_evidence := ev, rp_updated := rc_now rc k\<rparr>" by (simp add: keep_change_def)
  with p(1) proposal_valid_evidence [OF _ assms, of "p\<lparr>rp_merging := False\<rparr>"] show "proposal_ok q \<and> proposal_le p q"
    by (simp add: proposal_ok_def proposal_le_def)
qed

lemma fine_merged:
  assumes "evidence_ok ev"
  shows "fine_change (merged_change rc ev)"
proof (rule fine_changeI)
  fix k p q
  assume p: "proposal_ok p" "merged_change rc ev k p = Inr q"
  then have "q = p\<lparr>rp_status := Merged, rp_evidence := ev, rp_merging := False, rp_updated := rc_now rc k\<rparr>" "rp_status p = Approved"
    by (auto simp: merged_change_def split: if_splits)
  with p(1) proposal_valid_evidence [OF _ assms, of "p\<lparr>rp_status := Merged\<rparr>"] show "proposal_ok q \<and> proposal_le p q"
    by (simp add: proposal_ok_def proposal_le_def TERMINAL_PROPOSALS_def)
qed

lemma fine_rebase:
  assumes "0 \<le> new_base"
  shows "fine_change (rebase_change rc actor old_base new_base)"
proof (rule fine_changeI)
  fix k p q
  assume p: "proposal_ok p" "rebase_change rc actor old_base new_base k p = Inr q"
  then obtain m where m: "move_to Submitted p = Inr m" "q = m\<lparr>rp_base := new_base, rp_updated := rc_now rc k\<rparr>"
    by (auto simp: rebase_change_def split: if_splits sum.splits)
  from move_toD [OF m(1)] have "m = p\<lparr>rp_status := Submitted\<rparr>" "rp_status p \<notin> set TERMINAL_PROPOSALS" by simp_all
  with m(2) p(1) proposal_valid_base [OF _ assms, of "p\<lparr>rp_status := Submitted\<rparr>"] show "proposal_ok q \<and> proposal_le p q"
    by (simp add: proposal_ok_def proposal_le_def)
qed

section \<open>Decisions\<close>

lemma decided_valid:
  assumes "proposal_valid p" and "decision_valid d" and "length (rp_decisions p) < MAX_DECISIONS_PER_PROPOSAL"
  shows "proposal_valid (with_decision d p)"
  using assms by (auto simp: proposal_valid_def with_decision_def sized_def)

text \<open>An approval that passes the gate keeps a proposal well approved.\<close>

lemma approve_gate_passed:
  assumes "approve_gate p a = None"
  shows "ra_kind a = Kind_user \<and> (rp_risk p = High_risk \<or> ra_kind (rp_author p) = Kind_agent \<longrightarrow> \<not> same_person a (rp_author p)) \<and>
    (rp_risk p = High_risk \<longrightarrow> ra_role a \<noteq> Role_anonymous \<and> ra_role a \<noteq> Role_viewer)"
  using assms by (auto simp: approve_gate_def Let_def split: if_splits)

lemma approved_again:
  assumes "well_approved p" and "approve_gate p (dc_actor d) = None" and "dc_verb d = Approve"
  shows "well_approved (with_decision d p)"
proof -
  have "human_approvals (with_decision d p) (rp_decisions (with_decision d p)) =
      human_approvals p (rp_decisions p) @ (if dc_base d = rp_base p \<and> ra_kind (dc_actor d) = Kind_user then [d] else [])"
    using assms(3) by (simp add: human_approvals_def with_decision_def)
  with assms(1,3) approve_gate_passed [OF assms(2)] show ?thesis
    by (auto simp: well_approved_def with_decision_def)
qed

lemma approve_ok:
  assumes "proposal_ok p" and "decision_valid d" and "dc_verb d = Approve"
    and "length (rp_decisions p) < MAX_DECISIONS_PER_PROPOSAL" and "approve_change default_policy d p = Inr q"
  shows "proposal_ok q \<and> proposal_le p q"
proof -
  let ?w = "with_decision d p"
  have gate: "approve_gate p (dc_actor d) = None" and open_status: "rp_status p \<notin> set TERMINAL_PROPOSALS"
    and q: "if approved_now default_policy ?w \<and> rp_status ?w \<in> {Submitted, Changes_requested} then move_to Approved ?w = Inr q else q = ?w"
    using assms(5) by (auto simp: approve_change_def Let_def split: option.splits if_splits)
  have v: "proposal_valid ?w" using assms(1,2,4) decided_valid by (simp add: proposal_ok_def)
  have st: "rp_status ?w = rp_status p" by (simp add: with_decision_def)
  have ok: "proposal_ok q"
  proof (cases "approved_now default_policy ?w \<and> rp_status ?w \<in> {Submitted, Changes_requested}")
    case True
    with q have "move_to Approved ?w = Inr q" by simp
    from move_toD [OF this] have q': "q = ?w\<lparr>rp_status := Approved\<rparr>" by blast
    have "well_approved ?w" using True approved_now_default [of ?w] by simp
    with v q' show ?thesis by (simp add: proposal_ok_def)
  next
    case False
    with q have q': "q = ?w" by (simp split: if_splits)
    have "rp_status p = Approved \<Longrightarrow> well_approved ?w"
      using assms(1,3) gate approved_again by (simp add: proposal_ok_def)
    moreover have "rp_status p \<noteq> Merged" using open_status by (auto simp: TERMINAL_PROPOSALS_def)
    ultimately show ?thesis using v st q' by (auto simp: proposal_ok_def)
  qed
  have "q = ?w \<or> q = ?w\<lparr>rp_status := Approved\<rparr>" using q by (auto split: if_splits dest!: move_toD)
  then have "rp_decisions q = rp_decisions p @ [d] \<and> rp_id q = rp_id p \<and> rp_author q = rp_author p \<and> rp_intents q = rp_intents p \<and>
      rp_risk q = rp_risk p \<and> rp_created q = rp_created p \<and> rp_comments q = rp_comments p"
    by (auto simp: with_decision_def)
  with ok open_status show ?thesis by (simp add: proposal_le_def)
qed

lemma decide_ok:
  assumes "proposal_ok p" and "decision_valid d" and "dc_verb d = verb"
    and "length (rp_decisions p) < MAX_DECISIONS_PER_PROPOSAL" and "decide_change default_policy verb d p = Inr q"
  shows "proposal_ok q \<and> proposal_le p q"
proof -
  have other: "proposal_ok q \<and> proposal_le p q" if "move_to st (with_decision d p) = Inr q" "st \<notin> {Approved, Merged}" for st
  proof -
    from move_toD [OF that(1)] have q: "q = (with_decision d p)\<lparr>rp_status := st\<rparr>" "rp_status p \<notin> set TERMINAL_PROPOSALS"
      by (simp_all add: with_decision_def)
    have "proposal_valid (with_decision d p)" using assms(1,2,4) decided_valid by (simp add: proposal_ok_def)
    with q that(2) show ?thesis by (auto simp: proposal_ok_def proposal_le_def with_decision_def)
  qed
  show ?thesis
  proof (cases verb)
    case Approve
    with assms approve_ok show ?thesis by (simp add: decide_change_def)
  qed (use assms(5) other in \<open>auto simp: decide_change_def split: if_splits\<close>)
qed

lemma fine_decision: "fine_change (decision_change rc default_policy actor verb reason)"
proof (rule fine_changeI)
  fix k p q
  assume p: "proposal_ok p" "decision_change rc default_policy actor verb reason k p = Inr q"
  let ?d = "\<lparr>dc_id = ''rd_'' @ rc_fresh rc k, dc_verb = verb, dc_actor = actor, dc_reason = reason,
    dc_base = rp_base p, dc_created = rc_now rc k\<rparr>"
  from p(2) obtain m where m: "decision_valid ?d" "length (rp_decisions p) < MAX_DECISIONS_PER_PROPOSAL"
    "decide_change default_policy verb ?d p = Inr m" "q = m\<lparr>rp_updated := rc_now rc k\<rparr>"
    by (auto simp: decision_change_def touched_def Let_def split: if_splits sum.splits)
  from decide_ok [OF p(1) m(1) _ m(2,3)] have "proposal_ok m \<and> proposal_le p m" by simp
  with m(4) show "proposal_ok q \<and> proposal_le p q"
    by (simp add: proposal_ok_def proposal_le_def)
qed

end
