(* ===== verification/Review_Guarantee.thy ===== *)
theory Review_Guarantee
  imports Review_Invariant Mapspec_Transaction
begin

text \<open>
  The guarantee of the review operations, whatever other workers commit between their steps. First what the map
  engine keeps (a revision that is not negative), then the locale \<open>review_guarantee\<close>: it asks for the guarantee
  of the store's two writing operations and gives it for all operations of the service.
\<close>

section \<open>The revision of the map\<close>

definition counted :: "session \<Rightarrow> bool" where
  "counted s \<longleftrightarrow> 0 \<le> se_revision s"

interpretation counting: forward_order counted "\<lambda>_ _. True"
  by unfold_locales auto

abbreviation map_safe :: "'a session_prog \<Rightarrow> bool" where
  "map_safe m \<equiv> keeps counted (\<lambda>_ _. True) m"

lemma get_mapspec_counted: "counted s \<Longrightarrow> counted (snd (get_mapspec s))"
  using get_mapspec_revision [of s] by (simp add: counted_def)

lemma kept_counted: "kept s t \<Longrightarrow> counted s = counted t"
  by (simp add: kept_def counted_def)

lemma prepare_counted:
  assumes "prepare ec k i who expected check mid s = (t, x)" and "counted s"
  shows "counted t"
  using prepare_kept [OF assms(1)] get_mapspec_counted [OF assms(2)] assms(2) by (auto dest: kept_counted)

lemma prepare_prior:
  assumes "prepare ec k i who expected check mid s = (t, Inr cd)" and "counted s"
  shows "0 \<le> cd_prior cd"
  using prepareD [OF assms(1)] build_candidateD get_mapspec_counted [OF assms(2)] by (fastforce simp: counted_def)

lemma save_counted:
  "save_mapspec fate cached spec revision lop dedup s = (t, ok) \<Longrightarrow> 0 \<le> revision \<Longrightarrow> counted s \<Longrightarrow> counted t"
  using save_register [of fate cached spec revision lop dedup s t ok]
  by (auto simp: kept_def commit_mapspec_state_def counted_def)

lemma fail_counted:
  assumes "fail_mutation ec k mid cd cid s = (t, r)" and "0 \<le> cd_prior cd" and "counted s"
  shows "counted t"
proof -
  obtain s1 ok where rb: "roll_back_to_snapshot ec k cd s = (s1, ok)" by (meson surj_pair)
  have "counted s1"
  proof (cases "if cd_fresh cd then None else cd_old cd")
    case None
    with rb assms(3) show ?thesis
      by (auto simp: roll_back_to_snapshot_def discard_mapspec_def Let_def counted_def split: if_splits)
  next
    case (Some old)
    with rb have "save_mapspec (ec_resave ec k) (ec_recached ec k) old (cd_prior cd + 1)
        (Some (Replace_op (cd_old_layers cd))) None s = (s1, ok)" by (simp add: roll_back_to_snapshot_def)
    from save_counted [OF this] assms(2,3) show ?thesis by simp
  qed
  moreover have "se_revision t = se_revision s1"
    using assms(1) rb discard_checkpoint_kept by (auto simp: fail_mutation_def Let_def kept_def)
  ultimately show ?thesis by (simp add: counted_def)
qed

lemma finish_counted:
  assumes "finish ec k lost who mid cd s = (t, r)" and "0 \<le> cd_prior cd" and "counted s"
  shows "counted t"
proof -
  have save: "save_plan ec k who mid cd p cid u = (t, r) \<Longrightarrow> counted u \<Longrightarrow> counted t" for p cid u
    using fail_counted save_counted assms(2)
    by (fastforce simp: save_plan_def Let_def split: option.splits prod.splits if_splits)
  have auto: "auto_checkpoint ec k p s = Some (u, cid) \<Longrightarrow> counted u" for p u cid
    using auto_checkpoint_kept kept_counted assms(3) by blast
  show ?thesis
    using assms(1) save auto fail_counted [OF _ assms(2,3)] assms(3)
    by (auto simp: finish_def split: option.splits if_splits prod.splits)
qed

lemma relied_counted: "relied counted (\<lambda>_ _. True) (ec_env ec) \<Longrightarrow> map_safe (pause (ec_env ec))"
  by (rule counting.keeps_pause)

lemma locked_body_counted:
  assumes "relied counted (\<lambda>_ _. True) (ec_env ec)"
  shows "map_safe (locked_body ec k i who expected check mid)"
proof (rule keepsI)
  fix s n assume s: "counted s"
  obtain u x where pr: "prepare ec k i who expected check mid s = (u, x)" by (meson surj_pair)
  let ?v = "if ec_lock ec k = Lock_held then u else ec_env ec n u"
  have v: "counted ?v" using prepare_counted [OF pr s] reliedD [OF assms] by simp
  have done_step: "counted (fst (case x of Inl r \<Rightarrow> (?v, r) | Inr cd \<Rightarrow> finish ec k (ec_lock ec k = Lock_lost_early) who mid cd ?v))"
  proof (cases x)
    case (Inr cd)
    obtain t r where f: "finish ec k (ec_lock ec k = Lock_lost_early) who mid cd ?v = (t, r)" by (meson surj_pair)
    from prepare_prior [OF pr [unfolded Inr] s] finish_counted [OF f _ v] f Inr show ?thesis by simp
  qed (use v in simp)
  then show "counted (fst (snd (locked_body ec k i who expected check mid (s, n)))) \<and> True"
    using pr by (cases x) (auto simp: locked_body_def seq_def commit_def pause_def split: prod.splits)
qed

lemma apply_counted:
  assumes "relied counted (\<lambda>_ _. True) (ec_env ec)"
  shows "map_safe (apply_mutation ec i who expected check mid)"
  unfolding apply_mutation_def
  by (auto intro!: counting.keeps_intros assms locked_body_counted split: option.splits)

lemma gis_counted:
  assumes "relied counted (\<lambda>_ _. True) (ec_env ec)"
  shows "map_safe (apply_gis_mutation ec up i who actor expected mid)"
  unfolding apply_gis_mutation_def Let_def
  by (intro counting.keeps_intros counting.keeps_commit assms apply_counted)
    (auto simp: append_provenance_def counted_def)

lemma replay_counted:
  assumes "relied counted (\<lambda>_ _. True) (ec_env (rc_map rc))"
  shows "map_safe (replay rc pid base i bs st)"
proof (induction bs arbitrary: i st)
  case Nil
  show ?case unfolding replay.simps by (rule counting.keeps_ret)
next
  case (Cons b bs)
  then show ?case
    by (auto intro!: counting.keeps_intros gis_counted assms simp: Let_def split: option.splits)
qed

lemma merge_counted:
  assumes "relied counted (\<lambda>_ _. True) (ec_env (rc_map rc))"
  shows "map_safe (merge_proposal_intents rc p actor pol approvals)"
proof -
  have undo: "map_safe (undo_replay rc pid st)" for pid st
    unfolding undo_replay_def
    by (auto intro!: counting.keeps_intros gis_counted assms split: option.splits prod.splits)
  show ?thesis
    unfolding merge_proposal_intents_def Let_def
    by (intro counting.keeps_intros gis_counted replay_counted assms undo)
qed

section \<open>What a program returns\<close>

definition returns_in :: "('s \<Rightarrow> bool) \<Rightarrow> ('a \<Rightarrow> bool) \<Rightarrow> ('s, 'e, 'a) prog \<Rightarrow> bool" where
  "returns_in good P m \<longleftrightarrow> (\<forall>w y w'. good (fst w) \<longrightarrow> m w = (Inr y, w') \<longrightarrow> P y)"

context forward_order
begin

lemma keeps_seq_post:
  assumes "keeps good rel m" and "returns_in good P m" and "\<And>x. P x \<Longrightarrow> keeps good rel (f x)"
  shows "keeps good rel (seq m f)"
proof (rule keepsI)
  fix s k assume i: "good s"
  obtain res s1 k1 where m: "m (s, k) = (res, (s1, k1))" by (metis surj_pair)
  note first = keepsD [OF assms(1) i m]
  show "good (fst (snd (seq m f (s, k)))) \<and> rel s (fst (snd (seq m f (s, k))))"
  proof (cases res)
    case (Inl err)
    then show ?thesis using m first by (simp add: seq_def)
  next
    case (Inr x)
    with assms(2) m i have "P x" by (fastforce simp: returns_in_def)
    obtain res2 s2 k2 where f: "f x (s1, k1) = (res2, (s2, k2))" by (metis surj_pair)
    have "good s2 \<and> rel s1 s2" using keepsD [OF assms(3) [OF \<open>P x\<close>] _ f] first by simp
    then show ?thesis using m f first Inr rel_trans by (auto simp: seq_def)
  qed
qed

end

lemma returns_ret: "P x \<Longrightarrow> returns_in good P (ret x)"
  by (simp add: returns_in_def)

lemma returns_query: "(\<And>s. good s \<Longrightarrow> P (f s)) \<Longrightarrow> returns_in good P (query f)"
  by (simp add: returns_in_def query_def)

text \<open>The evidence of a merge that returns is within its bounds.\<close>

lemma returns_seq: "(\<And>x. returns_in (\<lambda>_. True) P (f x)) \<Longrightarrow> returns_in (\<lambda>_. True) P (seq m f)"
  unfolding returns_in_def by (fastforce dest: seq_Inr)

lemma returns_if: "returns_in g P a \<Longrightarrow> returns_in g P b \<Longrightarrow> returns_in g P (if c then a else b)"
  by simp

definition outcome_ok :: "merge_outcome option \<Rightarrow> bool" where
  "outcome_ok x = (case x of None \<Rightarrow> True | Some out \<Rightarrow> evidence_ok (mo_evidence out))"

lemma checked_ok: "outcome_ok (checked_outcome out)"
  by (simp add: outcome_ok_def checked_outcome_def evidence_ok_def split: option.splits)

lemma merge_returns: "returns_in (\<lambda>_. True) outcome_ok (merge_proposal_intents rc p actor pol approvals)"
  unfolding merge_proposal_intents_def Let_def
  by (intro returns_seq returns_if returns_ret checked_ok)

section \<open>The locale\<close>

definition fresh_proposal :: "review_ctx \<Rightarrow> review_proposal \<Rightarrow> bool" where
  "fresh_proposal rc p \<longleftrightarrow> proposal_ok p \<and> (\<exists>k. rp_id p = ''rp_'' @ rc_fresh rc k)"

locale review_guarantee = forward_order good rel
  for good :: "review_world \<Rightarrow> bool" and rel :: "review_world \<Rightarrow> review_world \<Rightarrow> bool" +
  fixes allowed :: "review_ctx \<Rightarrow> bool"
  assumes world_ok: "good w \<Longrightarrow> 0 \<le> se_revision (rw_map w)"
    and waits: "allowed rc \<Longrightarrow> relied good rel (rc_env rc)"
    and engine_waits: "allowed rc \<Longrightarrow> relied counted (\<lambda>_ _. True) (ec_env (rc_map rc))"
    and mutates: "allowed rc \<Longrightarrow> fine_change f \<Longrightarrow> keeps good rel (mutate_proposal rc pid f)"
    and saves: "allowed rc \<Longrightarrow> fresh_proposal rc p \<Longrightarrow> keeps good rel (save_proposal rc p)"
    and map_changes: "good w \<Longrightarrow> counted s \<Longrightarrow> good (w\<lparr>rw_map := s\<rparr>) \<and> rel w (w\<lparr>rw_map := s\<rparr>)"
begin

lemma maps: "map_safe m \<Longrightarrow> keeps good rel (on_map m)"
proof (rule keepsI)
  fix w k
  assume m: "map_safe m" and w: "good w"
  obtain res s k1 where run: "m (rw_map w, k) = (res, (s, k1))" by (metis surj_pair)
  have "counted (rw_map w)" using world_ok [OF w] by (simp add: counted_def)
  from keepsD [OF m this run] map_changes [OF w] run
  show "good (fst (snd (on_map m (w, k)))) \<and> rel w (fst (snd (on_map m (w, k))))"
    by (simp add: on_map_def)
qed

lemma list_keeps: "allowed rc \<Longrightarrow> keeps good rel (list_proposals rc)"
  unfolding list_proposals_def by (auto intro!: keeps_intros waits split: option.splits prod.splits)

lemma get_keeps: "allowed rc \<Longrightarrow> keeps good rel (get_proposal rc pid)"
  unfolding get_proposal_def by (intro keeps_intros list_keeps)

lemma must_get_keeps: "allowed rc \<Longrightarrow> keeps good rel (must_get rc pid)"
  unfolding must_get_def by (intro keeps_intros get_keeps)

lemma found_keeps: "keeps good rel (found x)"
  unfolding found_def by (intro keeps_intros)

lemma submit_keeps: "allowed rc \<Longrightarrow> keeps good rel (submit_proposal rc pid actor base)"
  unfolding submit_proposal_def by (intro keeps_intros mutates fine_submit found_keeps)

lemma comment_keeps: "allowed rc \<Longrightarrow> keeps good rel (add_comment rc pid actor body anchor)"
  unfolding add_comment_def Let_def by (auto intro!: keeps_intros mutates fine_comment found_keeps)

lemma decision_keeps: "allowed rc \<Longrightarrow> keeps good rel (record_decision rc default_policy pid actor decision reason)"
  unfolding record_decision_def by (intro keeps_intros mutates fine_decision found_keeps)

lemma withdraw_keeps: "allowed rc \<Longrightarrow> keeps good rel (withdraw_proposal rc pid actor)"
  unfolding withdraw_proposal_def by (intro keeps_intros mutates fine_author found_keeps) auto

lemma supersede_keeps: "allowed rc \<Longrightarrow> keeps good rel (supersede_proposal rc pid actor)"
  unfolding supersede_proposal_def by (intro keeps_intros mutates fine_author found_keeps) auto

lemma map_revision: "returns_in good (\<lambda>s. 0 \<le> se_revision s) (query rw_map)"
  by (intro returns_query world_ok)

lemma create_keeps: "allowed rc \<Longrightarrow> keeps good rel (create_proposal rc author title intents description)"
  unfolding create_proposal_def Let_def
  by (intro keeps_intros waits saves)
    (auto simp: fresh_proposal_def proposal_ok_def)

lemma rebase_keeps: "allowed rc \<Longrightarrow> keeps good rel (rebase_proposal rc pid actor)"
proof -
  assume a: "allowed rc"
  have doc: "keeps good rel (on_map (commit (\<lambda>s. (snd (get_mapspec s), fst (get_mapspec s)))))"
    by (intro maps counting.keeps_commit) (simp add: get_mapspec_counted)
  show ?thesis
    unfolding rebase_proposal_def Let_def
    by ((rule keeps_seq_post [OF keeps_query map_revision] doc must_get_keeps [OF a] keeps_pause waits [OF a] keeps_if
          keeps_fail keeps_option keeps_ret mutates [OF a] fine_rebase keeps_seq | assumption)+)
qed

lemma close_keeps:
  assumes "allowed rc" and "evidence_ok (mo_evidence out)"
  shows "keeps good rel (close_merge rc pid out)"
  unfolding close_merge_def
  by (intro keeps_intros mutates [OF assms(1)] fine_keep fine_merged assms must_get_keeps)

lemma merge_keeps:
  assumes "allowed rc"
  shows "keeps good rel (merge_proposal rc default_policy pid actor)"
proof -
  let ?run = "\<lambda>reserved p. seq (on_map (merge_proposal_intents rc reserved actor default_policy (counted_ids p)))
    (\<lambda>out. case out of None \<Rightarrow> fail_with Invalid_record | Some y \<Rightarrow> ret y)"
  have run: "keeps good rel (on_map (merge_proposal_intents rc reserved actor default_policy (counted_ids p)))" for reserved p
    by (intro maps merge_counted engine_waits assms)
  have post: "returns_in good (\<lambda>out. evidence_ok (mo_evidence out))
      (on_error (?run reserved p) (\<lambda>e. seq (mutate_proposal rc pid (release_change rc)) (\<lambda>_. fail_with e)))" for reserved p
    unfolding returns_in_def
  proof (intro allI impI)
    fix w :: "review_world \<times> nat" and y w'
    assume g: "good (fst w)"
    assume "on_error (?run reserved p) (\<lambda>e. seq (mutate_proposal rc pid (release_change rc)) (\<lambda>_. fail_with e)) w = (Inr y, w')"
    then have "?run reserved p w = (Inr y, w') \<or> (\<exists>e v. seq (mutate_proposal rc pid (release_change rc)) (\<lambda>_. fail_with e) v = (Inr y, w'))"
      by (auto simp: on_error_def split: prod.splits sum.splits)
    moreover have "seq (mutate_proposal rc pid (release_change rc)) (\<lambda>_. fail_with e) v \<noteq> (Inr y, w')" for e v
      by (auto dest!: seq_Inr)
    ultimately obtain out v where "on_map (merge_proposal_intents rc reserved actor default_policy (counted_ids p)) w = (Inr out, v)"
      and "(case out of None \<Rightarrow> fail_with Invalid_record | Some y \<Rightarrow> ret y) v = (Inr y, w')"
      by (auto dest!: seq_Inr)
    then have "out = Some y" and "\<exists>s k. merge_proposal_intents rc reserved actor default_policy (counted_ids p) (rw_map (fst w), snd w) = (Inr out, (s, k))"
      by (auto simp: on_map_def split: option.splits prod.splits sum.splits)
    with merge_returns [of rc reserved actor default_policy "counted_ids p"] show "evidence_ok (mo_evidence y)"
      by (fastforce simp: returns_in_def outcome_ok_def)
  qed
  show ?thesis
    unfolding merge_proposal_def
    by (intro keeps_seq keeps_option keeps_fail keeps_ret must_get_keeps assms mutates fine_reserve
          keeps_seq_post [OF _ post] keeps_on_error run fine_release close_keeps)
qed

lemma done_keeps: "keeps good rel m \<Longrightarrow> keeps good rel (done_with m)"
  unfolding done_with_def by (intro keeps_intros)

lemma call_keeps:
  assumes "allowed rc"
  shows "keeps good rel (run_review rc c)"
  by (cases c) (simp_all only: run_review.simps, (intro done_keeps create_keeps submit_keeps comment_keeps
      decision_keeps merge_keeps rebase_keeps withdraw_keeps supersede_keeps assms)+)

lemma step_keeps:
  assumes "allowed (fst op)" and "good (fst w)"
  shows "good (fst (review_step w op)) \<and> rel (fst w) (fst (review_step w op))"
  using call_keeps [OF assms(1), of "snd op"] assms(2) by (cases w) (simp add: keeps_def review_step_def)

end

end
