(* ===== verification/Review_Properties.thy ===== *)
theory Review_Properties
  imports Review_Guarantee
begin

text \<open>
  The two interpretations of \<open>review_guarantee\<close> and what they give: over any run of review operations, by any
  callers and with any interference that keeps the same guarantee, the store stays readable, every approved or
  merged proposal satisfies the approval policy, and a closed proposal stays as it was.
\<close>

section \<open>The writes\<close>

lemma load_ok:
  assumes "file_ok f" and "load_payload now f = Some (ps, ls)"
  shows "list_all proposal_ok ps \<and> distinct (List.map rp_id ps) \<and> length ps \<le> MAX_PROPOSALS_PER_SESSION"
proof -
  have ids: "List.map rp_id (List.map (reclaimed now l) qs) = List.map rp_id qs" for l qs by simp
  from load_payload_Some [OF assms(2)] assms(1) show ?thesis
    by (auto simp: file_ok_def list_all_iff reclaimed_ok simp del: List.map_map simp: ids)
qed

lemma put_ids: "rp_id q = pid \<Longrightarrow> List.map rp_id (put_proposal pid q ps) = List.map rp_id ps"
  by (simp add: put_proposal_def)

lemma put_ok:
  assumes "file_ok (Review_file ps ls)" and "proposal_ok q" and "rp_id q = pid"
  shows "file_ok (Review_file (put_proposal pid q ps) ls')"
proof -
  have "length (put_proposal pid q ps) = length ps" by (simp add: put_proposal_def)
  moreover have "list_all proposal_ok (put_proposal pid q ps)"
    using assms(1,2) by (auto simp: file_ok_def list_all_iff put_proposal_def)
  ultimately show ?thesis using assms(1) put_ids [OF assms(3), of ps] by (simp add: file_ok_def)
qed

lemma loaded_file_ok: "file_ok f \<Longrightarrow> load_payload now f = Some (ps, ls) \<Longrightarrow> file_ok (Review_file ps ls')"
  using load_ok [of f now ps ls] by (simp add: file_ok_def)

lemma changed_ok:
  assumes "file_ok f" and "load_payload now f = Some (ps, ls)" and "find_proposal pid ps = Some p"
    and "fine_change c" and "c k p = Inr q"
  shows "file_ok (Review_file (put_proposal pid q ps) ls') \<and> rp_id q = pid \<and> proposal_le p q"
proof -
  from find_proposal_Some [OF assms(3)] load_ok [OF assms(1,2)] have p: "proposal_ok p" "rp_id p = pid"
    by (auto simp: list_all_iff)
  with assms(4,5) have "proposal_ok q" "proposal_le p q" by (auto simp: fine_change_def)
  with p put_ok [OF loaded_file_ok [OF assms(1,2)]] show ?thesis by (simp add: proposal_le_def)
qed

lemma saved_ok:
  assumes "file_ok f" and "proposal_ok p" and "save_checked now p f = Inr (ps, ls)"
  shows "file_ok (Review_file ps ls')"
proof -
  obtain qs l where q: "load_payload now f = Some (qs, l)" "ps = filter (\<lambda>q. rp_id q \<noteq> rp_id p) qs @ [p]"
    "\<not> (list_all (\<lambda>q. rp_id q \<noteq> rp_id p) qs \<and> MAX_PROPOSALS_PER_SESSION \<le> length qs)"
    using assms(3) by (auto simp: save_checked_def split: option.splits if_splits)
  from load_ok [OF assms(1) q(1)] have ok: "list_all proposal_ok qs" "distinct (List.map rp_id qs)" "length qs \<le> MAX_PROPOSALS_PER_SESSION"
    by auto
  have "length (filter (\<lambda>q. rp_id q \<noteq> rp_id p) qs) < MAX_PROPOSALS_PER_SESSION"
  proof (cases "list_all (\<lambda>q. rp_id q \<noteq> rp_id p) qs")
    case True
    with q(3) show ?thesis using length_filter_le [of "\<lambda>q. rp_id q \<noteq> rp_id p" qs] by linarith
  next
    case False
    then obtain x where "x \<in> set qs" "rp_id x = rp_id p" by (auto simp: list_all_iff)
    then have "length (filter (\<lambda>q. rp_id q \<noteq> rp_id p) qs) < length qs" by (intro length_filter_less [of x]) auto
    with ok(3) show ?thesis by simp
  qed
  with ok assms(2) q(2) show ?thesis by (auto simp: file_ok_def list_all_iff distinct_map_filter)
qed

section \<open>The invariant\<close>

interpretation review_order: forward_order reviews_ok "\<lambda>_ _. True"
  by unfold_locales auto

lemma write_keeps_ok:
  assumes "relied reviews_ok (\<lambda>_ _. True) (rc_env rc)" and "file_ok (Review_file ps ls)"
  shows "keeps reviews_ok (\<lambda>_ _. True) (write_locked rc k ps ls x)"
  unfolding write_locked_def
  by (intro review_order.keeps_intros review_order.keeps_commit assms(1))
    (use assms(2) in \<open>auto simp: save_all_def reviews_ok_def\<close>)

lemma file_returned: "returns_in reviews_ok file_ok (query rw_file)"
  by (rule returns_query) (simp add: reviews_ok_def)

lemma mutate_keeps_ok:
  assumes env: "relied reviews_ok (\<lambda>_ _. True) (rc_env rc)" and f: "fine_change f"
  shows "keeps reviews_ok (\<lambda>_ _. True) (mutate_proposal rc pid f)"
proof -
  have step: "keeps reviews_ok (\<lambda>_ _. True) (case load_payload (rc_now rc k) fl of
       None \<Rightarrow> fail_with Store_corrupt
     | Some (ps, ls) \<Rightarrow> (case find_proposal pid ps of
         None \<Rightarrow> if rc_lock rc k = Lock_held then ret None else fail_with (Lock_failed Lock_lost_error)
       | Some p \<Rightarrow> (case f k p of
           Inl e \<Rightarrow> fail_with e
         | Inr q \<Rightarrow> write_locked rc k (put_proposal pid q ps) (apply_lease (rc_now rc k) pid (rp_merging q) ls) (Some q))))"
    if good_file: "file_ok fl" for fl k
  proof (cases "load_payload (rc_now rc k) fl")
    case None
    then show ?thesis by (simp add: review_order.keeps_fail del: prog_steps)
  next
    case (Some pl)
    obtain ps ls where pl: "pl = (ps, ls)" by fastforce
    show ?thesis
    proof (cases "find_proposal pid ps")
      case None
      with Some pl show ?thesis by (simp add: review_order.keeps_fail review_order.keeps_ret del: prog_steps)
    next
      case p: (Some p)
      with Some pl changed_ok [OF good_file _ p f] show ?thesis
        by (cases "f k p") (simp_all add: review_order.keeps_fail write_keeps_ok [OF env] del: prog_steps)
    qed
  qed
  show ?thesis
    unfolding mutate_proposal_def
    by ((rule review_order.keeps_seq_post [OF review_order.keeps_query file_returned] step review_order.keeps_pause env
          review_order.keeps_if review_order.keeps_fail review_order.keeps_tick review_order.keeps_seq | assumption)+)
qed

lemma save_keeps_ok:
  assumes env: "relied reviews_ok (\<lambda>_ _. True) (rc_env rc)" and p: "proposal_ok p"
  shows "keeps reviews_ok (\<lambda>_ _. True) (save_proposal rc p)"
proof -
  have step: "keeps reviews_ok (\<lambda>_ _. True)
      (case save_checked (rc_now rc k) p fl of Inl e \<Rightarrow> fail_with e | Inr (ps, ls) \<Rightarrow> write_locked rc k ps ls ())"
    if good_file: "file_ok fl" for fl k
  proof (cases "save_checked (rc_now rc k) p fl")
    case (Inr pl)
    obtain ps ls where "pl = (ps, ls)" by fastforce
    with Inr saved_ok [OF good_file p, of "rc_now rc k" ps ls] show ?thesis by (simp add: write_keeps_ok [OF env])
  qed (simp add: review_order.keeps_fail del: prog_steps)
  show ?thesis
    unfolding save_proposal_def
    by ((rule review_order.keeps_seq_post [OF review_order.keeps_query file_returned] step review_order.keeps_pause env
          review_order.keeps_if review_order.keeps_fail review_order.keeps_tick review_order.keeps_seq | assumption)+)
qed

definition sound_surroundings :: "review_ctx \<Rightarrow> bool" where
  "sound_surroundings rc \<longleftrightarrow> relied reviews_ok (\<lambda>_ _. True) (rc_env rc) \<and>
     relied counted (\<lambda>_ _. True) (ec_env (rc_map rc))"

interpretation store_kept: review_guarantee reviews_ok "\<lambda>_ _. True" sound_surroundings
  by unfold_locales
    (auto simp: sound_surroundings_def fresh_proposal_def counted_def reviews_ok_def intro: mutate_keeps_ok save_keeps_ok)

section \<open>The order of one proposal\<close>

lemma find_put:
  "rp_id q = pid \<Longrightarrow> find_proposal x (put_proposal pid q ps) =
    (if x = pid then map_option (\<lambda>_. q) (find_proposal x ps) else find_proposal x ps)"
  by (induction ps) (auto simp: find_proposal_def put_proposal_def)

lemma find_reclaimed:
  "find_proposal x (List.map (reclaimed now l) qs) = map_option (reclaimed now l) (find_proposal x qs)"
  by (induction qs) (auto simp: find_proposal_def)

lemma find_saved: "rp_id p \<noteq> x \<Longrightarrow> find_proposal x (filter (\<lambda>q. rp_id q \<noteq> rp_id p) ps @ [p]) = find_proposal x ps"
  by (induction ps) (auto simp: find_proposal_def)

lemma loaded_at:
  assumes "load_payload now (rw_file w) = Some (ps, ls)" and "proposal_at x w = Some p"
  shows "\<exists>q. find_proposal x ps = Some q \<and> proposal_le p q"
proof -
  from load_payload_Some [OF assms(1)] assms(2) obtain qs l where
    "rw_file w = Review_file qs l" "ps = List.map (reclaimed now l) qs" "find_proposal x qs = Some p"
    by (auto simp: proposal_at_def)
  then show ?thesis using reclaimed_le by (auto simp: find_reclaimed)
qed

lemma forward_refl: "review_forward x w w"
  using proposal_le_refl by (auto simp: review_forward_def)

lemma forward_trans: "review_forward x u v \<Longrightarrow> review_forward x v w \<Longrightarrow> review_forward x u w"
  unfolding review_forward_def using proposal_le_trans by metis

lemma forward_file:
  assumes "load_payload now (rw_file w) = Some (ps, ls)"
    and "\<And>q. find_proposal x ps = Some q \<Longrightarrow> \<exists>r. find_proposal x qs = Some r \<and> proposal_le q r"
  shows "review_forward x w (w\<lparr>rw_file := Review_file qs l\<rparr>)"
  unfolding review_forward_def
proof (intro allI impI)
  fix p assume "proposal_at x w = Some p"
  from loaded_at [OF assms(1) this] assms(2) proposal_le_trans
  show "\<exists>q. proposal_at x (w\<lparr>rw_file := Review_file qs l\<rparr>) = Some q \<and> proposal_le p q"
    by (fastforce simp: proposal_at_def)
qed

text \<open>With a lock that is never lost the effect of the two writing operations is one write, or none.\<close>

definition never_lost :: "review_ctx \<Rightarrow> bool" where
  "never_lost rc \<longleftrightarrow> (\<forall>k. rc_lock rc k \<in> {Lock_held, Lock_degraded})"

lemma mutate_effect:
  assumes "never_lost rc"
  shows "let w1 = rc_env rc n w; v = fst (snd (mutate_proposal rc pid f (w, n)))
    in v = w1 \<or> (\<exists>ps ls p q l. load_payload (rc_now rc (Suc n)) (rw_file w1) = Some (ps, ls) \<and> find_proposal pid ps = Some p \<and>
         f (Suc n) p = Inr q \<and> v = w1\<lparr>rw_file := Review_file (put_proposal pid q ps) l\<rparr>)"
  using assms [unfolded never_lost_def, THEN spec, of "Suc n"]
  by (auto simp: mutate_proposal_def write_locked_def save_all_def Let_def split: option.splits sum.splits prod.splits)

lemma save_effect:
  assumes "never_lost rc"
  shows "let w1 = rc_env rc n w; v = fst (snd (save_proposal rc p (w, n)))
    in v = w1 \<or> (\<exists>ps ls. save_checked (rc_now rc (Suc n)) p (rw_file w1) = Inr (ps, ls) \<and>
         v = w1\<lparr>rw_file := Review_file ps ls\<rparr>)"
  using assms [unfolded never_lost_def, THEN spec, of "Suc n"]
  by (auto simp: save_proposal_def write_locked_def save_all_def Let_def split: option.splits sum.splits prod.splits)

definition steady_surroundings :: "string \<Rightarrow> review_ctx \<Rightarrow> bool" where
  "steady_surroundings x rc \<longleftrightarrow> relied reviews_ok (review_forward x) (rc_env rc) \<and>
     relied counted (\<lambda>_ _. True) (ec_env (rc_map rc)) \<and> never_lost rc \<and> (\<forall>k. ''rp_'' @ rc_fresh rc k \<noteq> x)"

lemma mutate_forward:
  assumes "steady_surroundings x rc" and "fine_change f"
  shows "keeps reviews_ok (review_forward x) (mutate_proposal rc pid f)"
proof (rule keepsI)
  fix w n assume w: "reviews_ok w"
  let ?w1 = "rc_env rc n w"
  let ?v = "fst (snd (mutate_proposal rc pid f (w, n)))"
  from assms(1) have env: "relied reviews_ok (review_forward x) (rc_env rc)" and lost: "never_lost rc"
    by (simp_all add: steady_surroundings_def)
  from reliedD [OF env w] have w1: "reviews_ok ?w1" "review_forward x w ?w1" by blast+
  then have good_file: "file_ok (rw_file ?w1)" by (simp add: reviews_ok_def)
  from mutate_effect [OF lost, of n w pid f]
  consider "?v = ?w1" | ps ls p q l where "load_payload (rc_now rc (Suc n)) (rw_file ?w1) = Some (ps, ls)"
      "find_proposal pid ps = Some p" "f (Suc n) p = Inr q" "?v = ?w1\<lparr>rw_file := Review_file (put_proposal pid q ps) l\<rparr>"
    by (auto simp: Let_def)
  then show "reviews_ok ?v \<and> review_forward x w ?v"
  proof cases
    case 1
    with w1 show ?thesis by simp
  next
    case 2
    from changed_ok [OF good_file 2(1,2) assms(2) 2(3)] have q: "file_ok (Review_file (put_proposal pid q ps) l)" "rp_id q = pid" "proposal_le p q"
      by blast+
    have "review_forward x ?w1 ?v"
      unfolding 2(4) by (rule forward_file [OF 2(1)]) (use 2(2) q proposal_le_refl in \<open>auto simp: find_put\<close>)
    with forward_trans [OF w1(2)] q(1) 2(4) w1(1) show ?thesis by (simp add: reviews_ok_def)
  qed
qed

lemma save_forward:
  assumes "steady_surroundings x rc" and "fresh_proposal rc p"
  shows "keeps reviews_ok (review_forward x) (save_proposal rc p)"
proof (rule keepsI)
  fix w n assume w: "reviews_ok w"
  let ?w1 = "rc_env rc n w"
  let ?v = "fst (snd (save_proposal rc p (w, n)))"
  from assms have env: "relied reviews_ok (review_forward x) (rc_env rc)" and lost: "never_lost rc"
    and other: "rp_id p \<noteq> x" and ok: "proposal_ok p"
    by (auto simp: steady_surroundings_def fresh_proposal_def)
  from reliedD [OF env w] have w1: "reviews_ok ?w1" "review_forward x w ?w1" by blast+
  then have good_file: "file_ok (rw_file ?w1)" by (simp add: reviews_ok_def)
  from save_effect [OF lost, of n w p]
  consider "?v = ?w1" | ps ls where "save_checked (rc_now rc (Suc n)) p (rw_file ?w1) = Inr (ps, ls)"
      "?v = ?w1\<lparr>rw_file := Review_file ps ls\<rparr>"
    by (auto simp: Let_def)
  then show "reviews_ok ?v \<and> review_forward x w ?v"
  proof cases
    case 1
    with w1 show ?thesis by simp
  next
    case 2
    obtain qs l where l: "load_payload (rc_now rc (Suc n)) (rw_file ?w1) = Some (qs, l)" "ps = filter (\<lambda>q. rp_id q \<noteq> rp_id p) qs @ [p]"
      using 2(1) by (auto simp: save_checked_def split: option.splits if_splits)
    have "review_forward x ?w1 ?v"
      unfolding 2(2) by (rule forward_file [OF l(1)]) (use l(2) other proposal_le_refl in \<open>auto simp: find_saved\<close>)
    with forward_trans [OF w1(2)] saved_ok [OF good_file ok 2(1)] 2(2) w1(1) show ?thesis by (simp add: reviews_ok_def)
  qed
qed

interpretation proposal_kept: review_guarantee reviews_ok "review_forward x" "steady_surroundings x" for x
proof
  show "review_forward x w w" for w by (rule forward_refl)
  show "review_forward x u v \<Longrightarrow> review_forward x v w \<Longrightarrow> review_forward x u w" for u v w by (rule forward_trans)
qed (auto simp: steady_surroundings_def reviews_ok_def counted_def review_forward_def proposal_at_def
    intro: mutate_forward save_forward proposal_le_refl)

section \<open>Runs\<close>

interpretation review_runs: op_system review_step "\<lambda>w. reviews_ok (fst w)" "\<lambda>op. sound_surroundings (fst op)"
  by unfold_locales (use store_kept.step_keeps in blast)

interpretation proposal_runs: op_system_rel review_step "\<lambda>w. reviews_ok (fst w)" "\<lambda>op. steady_surroundings x (fst op)"
  "\<lambda>w v. review_forward x (fst w) (fst v)" for x
proof
  show "steady_surroundings x (fst op) \<Longrightarrow> reviews_ok (fst w) \<Longrightarrow> reviews_ok (fst (review_step w op))" for op w
    using proposal_kept.step_keeps by blast
  show "steady_surroundings x (fst op) \<Longrightarrow> reviews_ok (fst w) \<Longrightarrow> review_forward x (fst w) (fst (review_step w op))" for op w
    using proposal_kept.step_keeps by blast
qed (auto intro: forward_refl forward_trans)

lemma review_run_ok:
  assumes "list_all (\<lambda>op. sound_surroundings (fst op)) cs" and "reviews_ok s" and "run_ops review_step (s, k) cs = (t, k')"
  shows "reviews_ok t"
  using review_runs.run_inv [OF assms(1), of "(s, k)"] assms(2,3) by simp

lemma at_ok: "reviews_ok w \<Longrightarrow> proposal_at x w = Some p \<Longrightarrow> proposal_ok p"
  using find_proposal_Some by (fastforce simp: reviews_ok_def file_ok_def proposal_at_def list_all_iff split: review_file.splits)

text \<open>
  C2. Over any run of review operations with any interference that keeps the store's invariant, an approved or
  merged proposal carries an approval by a human at its current base revision and no rejection there; if it
  is of high risk or by an agent, no approval at that base is the author's own, and if it is of high risk all
  are by editors or administrators and the author is not anonymous.
\<close>

theorem approvals_hold:
  assumes "list_all (\<lambda>op. sound_surroundings (fst op)) cs" and "reviews_ok s"
    and "run_ops review_step (s, k) cs = (t, k')"
    and "proposal_at pid t = Some p" and "rp_status p \<in> {Approved, Merged}"
  shows "(\<exists>d \<in> set (rp_decisions p). dc_verb d = Approve \<and> dc_base d = rp_base p \<and> ra_kind (dc_actor d) = Kind_user) \<and>
    (\<forall>d \<in> set (rp_decisions p). dc_base d = rp_base p \<longrightarrow> dc_verb d \<noteq> Reject) \<and>
    (\<forall>d \<in> set (rp_decisions p). dc_verb d = Approve \<longrightarrow> dc_base d = rp_base p \<longrightarrow> ra_kind (dc_actor d) = Kind_user \<longrightarrow>
       (rp_risk p = High_risk \<or> ra_kind (rp_author p) = Kind_agent \<longrightarrow> \<not> same_person (dc_actor d) (rp_author p)) \<and>
       (rp_risk p = High_risk \<longrightarrow> ra_role (dc_actor d) \<in> {Role_editor, Role_admin})) \<and>
    (rp_risk p = High_risk \<longrightarrow> ra_role (rp_author p) \<noteq> Role_anonymous)"
proof -
  have "well_approved p" using at_ok [OF review_run_ok [OF assms(1-3)] assms(4)] assms(5) by (auto simp: proposal_ok_def)
  moreover have "r \<noteq> Role_anonymous \<and> r \<noteq> Role_viewer \<Longrightarrow> r \<in> {Role_editor, Role_admin}" for r by (cases r) auto
  moreover have "(human_approvals p (rp_decisions p) \<noteq> []) = (\<exists>d \<in> set (human_approvals p (rp_decisions p)). True)"
    by (cases "human_approvals p (rp_decisions p)") auto
  ultimately show ?thesis unfolding well_approved_def human_approvals_def by auto
qed

text \<open>
  C24. While no lock is lost and no call mints its id, a proposal stays in the store over any run; its author,
  intents and risk never change, decisions and comments are only added, and once it is rejected, merged,
  superseded or withdrawn its status, its base and its decisions are final.
\<close>

theorem closed_proposals_frozen:
  assumes "list_all (\<lambda>op. steady_surroundings pid (fst op)) cs" and "reviews_ok s" and "proposal_at pid s = Some p"
    and "run_ops review_step (s, k) cs = (t, k')"
  shows "\<exists>q. proposal_at pid t = Some q \<and> rp_author q = rp_author p \<and> rp_intents q = rp_intents p \<and> rp_risk q = rp_risk p \<and>
    prefix (rp_decisions p) (rp_decisions q) \<and> prefix (rp_comments p) (rp_comments q) \<and>
    (rp_status p \<in> set TERMINAL_PROPOSALS \<longrightarrow>
       rp_status q = rp_status p \<and> rp_base q = rp_base p \<and> rp_decisions q = rp_decisions p)"
  using proposal_runs.run_rel [OF assms(1), of "(s, k)"] assms(2-4)
  by (auto simp: review_forward_def proposal_le_def)

text \<open>
  No run of review operations makes the store unreadable: afterwards it loads at any time, with at most
  hundred proposals with different ids.
\<close>

theorem review_store_readable:
  assumes "list_all (\<lambda>op. sound_surroundings (fst op)) cs" and "reviews_ok s"
    and "run_ops review_step (s, k) cs = (t, k')"
  shows "\<exists>ps ls. load_payload now (rw_file t) = Some (ps, ls) \<and> length ps \<le> 100 \<and> distinct (List.map rp_id ps)"
proof -
  have f: "file_ok (rw_file t)" using review_run_ok [OF assms] by (simp add: reviews_ok_def)
  then have "load_payload now (rw_file t) \<noteq> None"
    by (auto simp: load_payload_def file_ok_def list_all_iff proposal_ok_def split: review_file.splits)
  then obtain ps ls where "load_payload now (rw_file t) = Some (ps, ls)" by auto
  with load_ok [OF f this] show ?thesis by (auto simp: MAX_PROPOSALS_PER_SESSION_def)
qed

lemma leases_bounded: "\<exists>last. \<forall>k t. map_of l k = Some (Some t) \<longrightarrow> t + MERGE_LEASE_TTL \<le> last"
  for l :: "(string \<times> time option) list"
proof (induction l)
  case Nil
  then show ?case by simp
next
  case (Cons a l)
  then obtain last where last: "\<forall>k t. map_of l k = Some (Some t) \<longrightarrow> t + MERGE_LEASE_TTL \<le> last" by blast
  have "\<forall>k t. map_of (a # l) k = Some (Some t) \<longrightarrow> t + MERGE_LEASE_TTL \<le> max last (or_else (snd a) 0 + MERGE_LEASE_TTL)"
    using last by (fastforce split: if_splits simp: max_def)
  then show ?case by blast
qed

text \<open>
  No merge blocks a proposal for ever: for every content of the store there is a time after which every
  reading shows all proposals free, also when the worker that merges has died.
\<close>

theorem merge_lease_reclaimed:
  "\<exists>last. \<forall>now > last. \<forall>ps ls. load_payload now f = Some (ps, ls) \<longrightarrow> list_all (\<lambda>p. \<not> rp_merging p) ps"
proof (cases f)
  case (Review_file qs l)
  obtain last where last: "\<forall>k t. map_of l k = Some (Some t) \<longrightarrow> t + MERGE_LEASE_TTL \<le> last" using leases_bounded by blast
  have "list_all (\<lambda>p. \<not> rp_merging p) ps" if "last < now" "load_payload now f = Some (ps, ls)" for now ps ls
    unfolding list_all_iff
  proof (intro ballI notI)
    fix p assume "p \<in> set ps" "rp_merging p"
    from reclaimed_free [OF that(2) this] Review_file last that(1) show False by fastforce
  qed
  then show ?thesis by blast
qed (auto simp: load_payload_def)

end
