(* ===== verification/Review_Replay.thy ===== *)
theory Review_Replay
  imports Review_Service Mapspec_Restore
begin

text \<open>
  What a merge does to the map, as transactions of the map document engine: a merge that succeeds is one write
  for its checkpoint and one for every intent; a merge that says it was rolled back leaves the document of
  before; and two ways in which a merge without any concurrent writer stops half way.
\<close>

section \<open>A call of the merge as one transaction\<close>

definition gis_call :: "engine_ctx \<Rightarrow> (intent \<Rightarrow> (string \<times> bool) option) \<Rightarrow> intent \<Rightarrow> int option \<Rightarrow> string \<Rightarrow> mutation_call" where
  "gis_call ec upsert i expected eid = \<lparr>mc_ctx = ec, mc_intent = i, mc_origin = By_system, mc_expected = expected,
     mc_check = locked_guard upsert, mc_id = Some eid\<rparr>"

lemma gis_call_fields [simp]:
  "mc_ctx (gis_call ec up i n eid) = ec" "mc_intent (gis_call ec up i n eid) = i"
  "mc_expected (gis_call ec up i n eid) = n" "mc_id (gis_call ec up i n eid) = Some eid"
  "mc_origin (gis_call ec up i n eid) = By_system" "mc_check (gis_call ec up i n eid) = locked_guard up"
  "serial_call (gis_call ec up i n eid) \<longleftrightarrow> serial ec"
  by (simp_all add: gis_call_def serial_call_def)

lemma system_passes: "locked_guard upsert s i By_system prior = None"
  by (simp add: locked_guard_def check_user_presentation_guard_def check_user_presentation_guard_ring_def)

lemma serial_returns:
  assumes "serial_call c"
  shows "\<exists>r t k'. run_mutation c (s, k) = (Inr r, (t, k')) \<and> k \<le> k'"
proof (cases "guarded c")
  case None
  then have "ec_guard (mc_ctx c) (mc_intent c) = None \<or> ec_guard (mc_ctx c) (mc_intent c) = Some None"
    by (auto simp: guarded_def split: option.splits)
  from apply_unguarded [OF this] show ?thesis by (simp add: run_mutation_def) blast
next
  case (Some j)
  then show ?thesis using serial_run [OF assms] by (auto split: prod.splits sum.splits)
qed

lemma gis_system:
  assumes "serial ec" and "apply_gis_mutation ec up i By_system actor expected mid (s, k) = (res, (t, k'))"
  shows "\<exists>r0 t0 k0. run_mutation (gis_call ec up i expected (envelope_id mid (ec_mint ec k))) (s, Suc k) = (Inr r0, (t0, k0)) \<and>
    res = Inr (with_envelope (envelope_id mid (ec_mint ec k)) (classify_producer By_system actor) r0) \<and>
    t = t0\<lparr>se_provenance := se_provenance t\<rparr> \<and> k < k'"
proof -
  let ?c = "gis_call ec up i expected (envelope_id mid (ec_mint ec k))"
  from assms(1) obtain r0 t0 k0 where run: "run_mutation ?c (s, Suc k) = (Inr r0, (t0, k0))" and later: "Suc k \<le> k0"
    using serial_returns [of ?c s "Suc k"] by (metis gis_call_fields(7))
  from run have app: "apply_mutation ec i By_system expected (locked_guard up) (Some (envelope_id mid (ec_mint ec k))) (s, Suc k) =
    (Inr r0, (t0, k0))" by (simp add: run_mutation_def)
  have env: "ec_env ec n x = x" for n x using assms(1) by (simp add: serial_def)
  have after: "seq (apply_mutation ec i By_system expected (locked_guard up) (Some (envelope_id mid (ec_mint ec k)))) f (s, Suc k) =
    f r0 (t0, k0)" for f :: "mutation_result \<Rightarrow> mutation_result session_prog"
    by (simp add: seq_def app)
  have "res = Inr (with_envelope (envelope_id mid (ec_mint ec k)) (classify_producer By_system actor) r0) \<and>
    t = t0\<lparr>se_provenance := se_provenance t\<rparr> \<and> k < k'"
    using assms(2) later
    by (auto simp: apply_gis_mutation_def check_user_presentation_guard_ring_def env after Let_def
        append_provenance_def split: if_splits)
  with run show ?thesis by blast
qed

text \<open>What the index of idempotency keys can contain after a call.\<close>

abbreviation keys_of :: "session \<Rightarrow> string set" where
  "keys_of s \<equiv> fst ` set (se_dedup s)"

lemma kept_keys: "kept s t \<Longrightarrow> keys_of t = keys_of s"
  by (simp add: kept_def)

lemma commit_fields_keys:
  "dedup_commit_fields index mid revision now who = Some new \<Longrightarrow> fst ` set new \<subseteq> insert (or_else mid []) (fst ` set index)"
  by (auto simp: dedup_commit_fields_def AList.delete_eq split: if_splits dest!: set_take_last [THEN subsetD])

lemma strip_keys: "fst ` set (dedup_strip index mid) \<subseteq> fst ` set index"
  by (auto simp: dedup_strip_def AList.delete_eq)

lemma save_keys:
  assumes "save_mapspec fate cached spec revision lop dedup s = (t, ok)"
  shows "keys_of t \<subseteq> keys_of s \<union> (case dedup of None \<Rightarrow> {} | Some new \<Rightarrow> fst ` set new)"
  using save_register [OF assms] by (auto simp: kept_def commit_mapspec_state_def split: option.splits)

lemma fail_keys:
  assumes "fail_mutation ec k mid cd cid s = (t, r)"
  shows "keys_of t \<subseteq> keys_of s"
proof -
  obtain u ok where u: "roll_back_to_snapshot ec k cd s = (u, ok)" by (meson surj_pair)
  have restored: "keys_of u \<subseteq> keys_of s"
  proof (cases "if cd_fresh cd then None else cd_old cd")
    case None
    with u have "se_dedup u = se_dedup s"
      by (auto simp: roll_back_to_snapshot_def discard_mapspec_def Let_def split: if_splits)
    then show ?thesis by simp
  next
    case (Some old)
    with u have "save_mapspec (ec_resave ec k) (ec_recached ec k) old (cd_prior cd + 1)
      (Some (Replace_op (cd_old_layers cd))) None s = (u, ok)" by (simp add: roll_back_to_snapshot_def)
    from save_keys [OF this] show ?thesis by simp
  qed
  have drop: "se_dedup (discard_checkpoint c v) = se_dedup v" for c v
    using discard_checkpoint_kept [of v c] by (simp add: kept_def)
  have "se_dedup t = se_dedup u \<or> se_dedup t = dedup_strip (se_dedup u) mid"
    using assms by (auto simp: fail_mutation_def Let_def u drop split: if_splits)
  then have "keys_of t \<subseteq> keys_of u" using strip_keys [of "se_dedup u" mid] by (elim disjE) simp_all
  from this restored show ?thesis by (rule order_trans)
qed

lemma save_plan_keys:
  assumes run: "save_plan ec k who mid cd p cid s = (t, r)" and index: "fst ` set (cd_index cd) \<subseteq> keys_of s"
  shows "keys_of t \<subseteq> insert (or_else mid []) (keys_of s)"
proof -
  let ?dd = "dedup_commit_fields (cd_index cd) mid (cd_prior cd + 1) (ec_now ec k) who"
  let ?spec = "stamp_workbench (cd_prior cd + 1) (pl_spec p)"
  have new: "(case ?dd of None \<Rightarrow> {} | Some new \<Rightarrow> fst ` set new) \<subseteq> insert (or_else mid []) (keys_of s)"
  proof (cases ?dd)
    case (Some new)
    from commit_fields_keys [OF this] index Some show ?thesis by auto
  qed simp
  show ?thesis
  proof (cases "plan_layer_op p ?spec")
    case None
    with run have "fail_mutation ec k mid cd cid s = (t, r)" by (simp add: save_plan_def Let_def)
    from fail_keys [OF this] show ?thesis by auto
  next
    case (Some lop)
    obtain u ok where sv: "save_mapspec (ec_save ec k) (ec_cached ec k) ?spec (cd_prior cd + 1) lop ?dd s = (u, ok)"
      by (meson surj_pair)
    from save_keys [OF sv] new have u: "keys_of u \<subseteq> insert (or_else mid []) (keys_of s)" by (meson Un_least order_trans subset_insertI)
    show ?thesis
    proof (cases ok)
      case True
      with run sv Some have "t = u" by (simp add: save_plan_def Let_def)
      with u show ?thesis by simp
    next
      case False
      with run sv Some have "fail_mutation ec k mid cd cid u = (t, r)" by (simp add: save_plan_def Let_def)
      from fail_keys [OF this] u show ?thesis by (rule order_trans)
    qed
  qed
qed

lemma finish_keys:
  assumes run: "finish ec k lost who mid cd s = (t, r)" and index: "fst ` set (cd_index cd) \<subseteq> keys_of s"
  shows "keys_of t \<subseteq> insert (or_else mid []) (keys_of s)"
proof (cases "cd_plan cd")
  case None
  with run have "fail_mutation ec k mid cd None s = (t, r)" by (simp add: finish_def)
  from fail_keys [OF this] show ?thesis by auto
next
  case (Some p)
  show ?thesis
  proof (cases "lost \<or> auto_checkpoint ec k p s = None")
    case True
    with run Some have "t = s \<or> fail_mutation ec k mid cd (pl_checkpoint p) s = (t, r)"
      by (auto simp: finish_def split: if_splits)
    moreover have "fail_mutation ec k mid cd (pl_checkpoint p) s = (t, r) \<Longrightarrow> keys_of t \<subseteq> keys_of s" by (rule fail_keys)
    ultimately show ?thesis by auto
  next
    case False
    then obtain u cid where u: "auto_checkpoint ec k p s = Some (u, cid)" by auto
    with run Some False have sp: "save_plan ec k who mid cd p cid u = (t, r)" by (simp add: finish_def)
    have "keys_of u = keys_of s" using auto_checkpoint_kept [OF u] by (rule kept_keys)
    with save_plan_keys [OF sp] index show ?thesis by simp
  qed
qed

lemma step_keys:
  assumes "serial_call c" and "se_spec s = Some (Some d)" and "run_mutation c (s, k) = (Inr r, (t, k'))"
  shows "keys_of t \<subseteq> insert (or_else (mc_id c) []) (keys_of s)"
proof (cases "guarded c")
  case None
  with blocked_step [OF None, of s k] assms(3) show ?thesis by (auto simp: mutation_step_def)
next
  case (Some j)
  obtain u x where pr: "prepare (mc_ctx c) k j (mc_origin c) (mc_expected c) (mc_check c) (mc_id c) s = (u, x)"
    by (meson surj_pair)
  note run = serial_run [OF assms(1), of s k, unfolded Some pr option.case prod.case]
  have u: "keys_of u = keys_of s"
    using prepare_kept [OF pr] get_mapspec_found [OF assms(2)] kept_keys by auto
  show ?thesis
  proof (cases x)
    case (Inl y)
    with run assms(3) u show ?thesis by auto
  next
    case (Inr cd)
    from prepareD [OF pr [unfolded Inr]] get_mapspec_found [OF assms(2)]
    have "build_candidate (mc_ctx c) k j (mc_origin c) (mc_check c) (Some d) s s = (u, Inr cd)" by simp
    from build_candidateD [OF this] u have index: "fst ` set (cd_index cd) \<subseteq> keys_of u" by simp
    from run assms(3) Inr have "finish (mc_ctx c) k False (mc_origin c) (mc_id c) cd u = (t, r)" by (auto split: prod.splits)
    from finish_keys [OF this index] u show ?thesis by simp
  qed
qed

section \<open>What one call of the merge can do\<close>

lemma error_kinds:
  "rs_error (error_result c)" "\<not> rs_duplicate (error_result c)" "rs_superseded (superseded_result d n)"
  by (simp_all add: error_result_def plain_result_def superseded_result_def)

lemma lock_refusal_error: "guard_intent_locks desc loaded i who = Some r \<Longrightarrow> rs_error r \<and> \<not> rs_duplicate r"
  by (auto simp: guard_intent_locks_def Let_def lock_refusal_of_def error_result_def plain_result_def split: if_splits option.splits prod.splits)

text \<open>
  Final answers of handlers: a refusal of one or the other kind, or an answer that nothing had to be done, which
  carries no revision. The handlers that are modelled give no other, and the rest (\<open>plain_handlers\<close>) neither.
\<close>

definition plain_answer :: "mutation_result \<Rightarrow> bool" where
  "plain_answer r = (rs_superseded r \<or> \<not> rs_duplicate r \<and> (rs_error r \<or> rs_revision r = 0))"

definition plain_handlers :: "engine_ctx \<Rightarrow> bool" where
  "plain_handlers ec \<longleftrightarrow> (\<forall>k who d n kind args r. ec_other ec k who d n kind args = Terminal r \<longrightarrow> plain_answer r)"

lemma plain_answers [simp]:
  "plain_answer (error_result c)" "plain_answer (superseded_result d n)" "plain_answer (plain_result\<lparr>rs_spec := x\<rparr>)"
  by (simp_all add: plain_answer_def error_result_def plain_result_def superseded_result_def)

lemma or_raise_Terminal: "or_raise x f = Terminal r \<longleftrightarrow> (\<exists>y. x = Some y \<and> f y = Terminal r)"
  by (cases x) simp_all

lemma simple_plan_not [simp]: "simple_plan d a \<noteq> Terminal r"
  by (simp add: simple_plan_def)

lemma patch_layers_answer: "patch_layers f loaded target = Terminal r \<Longrightarrow> plain_answer r"
  by (auto simp: patch_layers_def or_raise_Terminal split: if_splits prod.splits)

lemma drop_refusal_answer: "refuse_locked_component_drop loaded kept_ids who = Some (Some r) \<Longrightarrow> plain_answer r"
  by (cases loaded; cases "component_ids (dict_if (py_get (the loaded) ''layout''))")
    (auto simp: refuse_locked_component_drop_def Let_def lock_refusal_of_def plain_answer_def error_result_def plain_result_def
      split: if_splits)

lemma restore_answer: "handle_restorestyle who loaded bundle = Terminal r \<Longrightarrow> plain_answer r"
  by (auto simp: handle_restorestyle_def or_raise_Terminal Let_def intro: drop_refusal_answer split: option.splits)

lemma document_answer: "handle_document (\<lambda>j. Raises) who loaded n i = Terminal r \<Longrightarrow> plain_answer r"
  by (cases i)
    (auto simp: or_raise_Terminal Let_def handle_initproject_def handle_setview_def handle_setbasemap_def handle_settime_def
      handle_setscenariomode_def handle_patchlayerpresentation_def handle_patchlayerstyle_def handle_removelayer_def
      handle_reorderlayers_def handle_refreshdatarevision_def handle_setworkbenchstate_def handle_patchworkbenchdelta_def
      split: if_splits option.splits patch_outcome.splits dest: patch_layers_answer restore_answer)

lemma dispatch_answer:
  assumes "plain_handlers ec" and "dispatch ec k who loaded n i s = (Terminal r, t)"
  shows "plain_answer r"
proof -
  consider kind args where "plain_out (ec_other ec k who loaded n kind args) = Terminal r"
    | cid where "handle_checkpoint ec k loaded cid s = (Terminal r, t)"
    | cid where "handle_rollback ec k cid s = Terminal r"
    | "handle_document (\<lambda>j. Raises) who loaded n i = Terminal r"
    using assms(2) by (cases i) (auto simp: dispatch_def)
  then show ?thesis
  proof cases
    case 1
    then have "ec_other ec k who loaded n kind args = Terminal r" by (auto simp: plain_out_def split: handler_out.splits)
    with assms(1) show ?thesis by (simp add: plain_handlers_def)
  qed (auto simp: handle_checkpoint_def handle_rollback_def dest: document_answer split: option.splits prod.splits)
qed

lemma finish_ok:
  assumes run: "finish ec k False who mid cd s = (t, r)" and cd: "cd_prior cd = se_revision s" "cd_index cd = se_dedup s"
    and ok: "\<not> rs_error r"
  shows "wrote s t r mid"
proof -
  have fail: "fail_mutation ec k mid cd c u \<noteq> (t, r)" for c u using fail_result ok by blast
  obtain p where p: "cd_plan cd = Some p" using run fail by (cases "cd_plan cd") (auto simp: finish_def)
  obtain u cid where u: "auto_checkpoint ec k p s = Some (u, cid)"
    using run fail p by (cases "auto_checkpoint ec k p s") (auto simp: finish_def)
  with run p have sp: "save_plan ec k who mid cd p cid u = (t, r)" by (simp add: finish_def)
  let ?spec = "stamp_workbench (cd_prior cd + 1) (pl_spec p)"
  let ?dd = "dedup_commit_fields (cd_index cd) mid (cd_prior cd + 1) (ec_now ec k) who"
  obtain lop where lop: "plan_layer_op p ?spec = Some lop"
    using sp fail by (cases "plan_layer_op p ?spec") (auto simp: save_plan_def Let_def)
  obtain v written where sv: "save_mapspec (ec_save ec k) (ec_cached ec k) ?spec (cd_prior cd + 1) lop ?dd u = (v, written)"
    by (meson surj_pair)
  with sp fail lop have "written" by (cases written) (auto simp: save_plan_def Let_def)
  with sp sv lop have "t = v" "r = committed_result cd ?spec cid mid" by (simp_all add: save_plan_def Let_def)
  with save_register [OF sv] \<open>written\<close> commit_wrote [OF _ auto_checkpoint_kept [OF u] cd] show ?thesis by blast
qed

lemma prepare_answers:
  assumes "prepare ec k j By_system expected (locked_guard up) mid s = (u, Inl r)"
    and "dedup_hit (se_dedup s) mid = None" and "plain_handlers ec"
  shows "plain_answer r"
proof -
  have "guard_intent_locks desc loaded i who = Some r \<Longrightarrow> plain_answer r" for desc loaded i who r
    using lock_refusal_error [of desc loaded i who r] by (simp add: plain_answer_def)
  with assms(1,2) show ?thesis
    by (auto simp: prepare_def build_candidate_def Let_def system_passes intro: dispatch_answer [OF assms(3)]
        split: if_splits option.splits prod.splits handler_out.splits)
qed

text \<open>What one call of a merge can answer, and what it did then.\<close>

lemma gis_answers:
  assumes "serial ec" and "se_spec s = Some (Some d)" and "plain_handlers ec"
    and "dedup_hit (se_dedup s) (Some eid) = None"
    and "run_mutation (gis_call ec up i n eid) (s, k) = (Inr r, (t, k'))"
    and "\<not> rs_error r" and "\<not> rs_superseded r"
  shows "\<not> rs_duplicate r \<and> (wrote s t r (Some eid) \<or> kept s t \<and> rs_revision r = 0) \<and> n \<in> {None, Some (se_revision s)}"
proof (cases "guarded (gis_call ec up i n eid)")
  case None
  then have "ec_guard ec i = None \<or> ec_guard ec i = Some None"
    by (auto simp: guarded_def split: option.splits)
  with assms(5,6) error_kinds show ?thesis by (auto simp: run_mutation_def apply_mutation_def)
next
  case (Some j)
  obtain u x where pr: "prepare ec k j By_system n (locked_guard up) (Some eid) s = (u, x)" by (meson surj_pair)
  note run = serial_run [of "gis_call ec up i n eid" s k, unfolded Some gis_call_fields pr option.case prod.case, OF assms(1)]
  have n: "n \<in> {None, Some (se_revision s)}"
  proof (cases x)
    case (Inl y)
    with run assms(5) have "y = r" by simp
    with pr Inl assms(4,6,7) error_kinds get_mapspec_found [OF assms(2)] show ?thesis
      by (auto simp: prepare_def split: if_splits)
  next
    case (Inr cd)
    from prepareD [OF pr [unfolded Inr]] get_mapspec_found [OF assms(2)] show ?thesis by auto
  qed
  show ?thesis
  proof (cases x)
    case (Inl y)
    with run assms(5) have eq: "t = u" "y = r" by simp_all
    have "kept s t" using prepare_refused [OF _ assms(2)] pr Inl eq by blast
    moreover have "plain_answer r" by (rule prepare_answers [OF pr [unfolded Inl eq(2)] assms(4,3)])
    ultimately show ?thesis using assms(6,7) n by (auto simp: plain_answer_def)
  next
    case (Inr cd)
    with run assms(5) have fin: "finish ec k False By_system (Some eid) cd u = (t, r)" by (auto split: prod.splits)
    from prepareD [OF pr [unfolded Inr]] get_mapspec_found [OF assms(2)]
    have b: "build_candidate ec k j By_system (locked_guard up) (Some d) s s = (u, Inr cd)" by simp
    from build_candidate_kept [OF b] have ku: "kept s u" .
    with build_candidateD [OF b] have "cd_prior cd = se_revision u" "cd_index cd = se_dedup u" by (simp_all add: kept_def)
    from finish_ok [OF fin this assms(6)] ku have "wrote s t r (Some eid)"
      by (auto simp: wrote_def kept_def split: if_splits)
    moreover from this have "\<not> rs_duplicate r" by (simp add: wrote_def)
    ultimately show ?thesis using n by blast
  qed
qed

text \<open>A call whose handler answers for itself only with errors has written when it ends without one.\<close>

lemma gis_written:
  assumes "serial ec" and "se_spec s = Some (Some d)" and "ec_guard ec i = Some (Some j)"
    and "\<And>k d n v u r. dispatch ec k By_system d n j v = (Terminal r, u) \<Longrightarrow> rs_error r"
    and "dedup_hit (se_dedup s) (Some eid) = None"
    and "run_mutation (gis_call ec up i n eid) (s, k) = (Inr r, (t, k'))"
    and "\<not> rs_error r" and "\<not> rs_superseded r"
  shows "wrote s t r (Some eid)"
proof -
  have g: "guarded (gis_call ec up i n eid) = Some j" using assms(3) by (simp add: guarded_def)
  obtain u x where pr: "prepare ec k j By_system n (locked_guard up) (Some eid) s = (u, x)" by (meson surj_pair)
  note run = serial_run [of "gis_call ec up i n eid" s k, unfolded g gis_call_fields pr option.case prod.case, OF assms(1)]
  have "\<not> isl x"
  proof
    assume "isl x"
    then obtain y where x: "x = Inl y" by (cases x) auto
    with run assms(6) have "y = r" by simp
    with pr x assms(5,7,8) error_kinds lock_refusal_error assms(4) show False
      by (auto simp: prepare_def build_candidate_def Let_def system_passes split: if_splits option.splits prod.splits handler_out.splits)
  qed
  then obtain cd where x: "x = Inr cd" by (cases x) auto
  with run assms(6) have fin: "finish ec k False By_system (Some eid) cd u = (t, r)" by (auto split: prod.splits)
  from prepareD [OF pr [unfolded x]] get_mapspec_found [OF assms(2)]
  have b: "build_candidate ec k j By_system (locked_guard up) (Some d) s s = (u, Inr cd)" by simp
  from build_candidate_kept [OF b] have ku: "kept s u" .
  with build_candidateD [OF b] have "cd_prior cd = se_revision u" "cd_index cd = se_dedup u" by (simp_all add: kept_def)
  from finish_ok [OF fin this assms(7)] ku show ?thesis by (auto simp: wrote_def kept_def split: if_splits)
qed

lemma checkpoint_answers: "dispatch ec k who d n (CheckpointIntent name) v = (Terminal r, u) \<Longrightarrow> rs_error r"
  by (auto simp: dispatch_def handle_checkpoint_def error_kinds split: option.splits prod.splits)

lemma rollback_answers: "dispatch ec k who d n (RollbackIntent cid) v = (Terminal r, u) \<Longrightarrow> rs_error r"
  by (auto simp: dispatch_def handle_rollback_def error_kinds split: option.splits)

lemma refused_afresh:
  assumes "serial ec" and "plain_handlers ec" and "dedup_hit (se_dedup s) (Some eid) = None"
    and "run_mutation (gis_call ec up i n eid) (s, k) = (Inr r, (t, k'))" and "rs_error r" and "\<not> rs_superseded r"
  shows "\<not> rs_duplicate r"
proof (cases "guarded (gis_call ec up i n eid)")
  case None
  then have "ec_guard ec i = None \<or> ec_guard ec i = Some None"
    by (auto simp: guarded_def split: option.splits)
  with assms(4) error_kinds show ?thesis by (auto simp: run_mutation_def apply_mutation_def)
next
  case (Some j)
  obtain u x where pr: "prepare ec k j By_system n (locked_guard up) (Some eid) s = (u, x)" by (meson surj_pair)
  note run = serial_run [of "gis_call ec up i n eid" s k, unfolded Some gis_call_fields pr option.case prod.case, OF assms(1)]
  show ?thesis
  proof (cases x)
    case (Inl y)
    with run assms(4) have "y = r" by simp
    with prepare_answers [OF pr [unfolded Inl] assms(3,2)] assms(6) show ?thesis by (simp add: plain_answer_def)
  next
    case (Inr cd)
    with run assms(4) have "finish ec k False By_system (Some eid) cd u = (t, r)" by (auto split: prod.splits)
    with fail_result show ?thesis
      by (auto simp: finish_def save_plan_def Let_def committed_result_def plain_result_def
          split: option.splits prod.splits if_splits)
  qed
qed

section \<open>The replay\<close>

definition step_key :: "string \<Rightarrow> int \<Rightarrow> nat \<Rightarrow> string" where
  "step_key pid base i = take 128 (merge_key pid base i)"

lemma step_envelope: "envelope_id (Some (merge_key pid base i)) m = step_key pid base i"
  by (simp add: envelope_id_def step_key_def merge_key_def truthy_def)

lemma step_key_full: "step_key pid base i \<noteq> []"
  by (simp add: step_key_def merge_key_def)

text \<open>
  One write of the engine for every intent, from the \<open>i\<close>-th on; between two of them only the record of origins
  changes. With \<open>idle\<close> the last intent found nothing to do and wrote nothing.
\<close>

inductive merged_through :: "review_ctx \<Rightarrow> string \<Rightarrow> int \<Rightarrow> nat \<Rightarrow> session \<Rightarrow> request_body list \<Rightarrow> bool \<Rightarrow> session \<Rightarrow> bool"
  for rc pid base where
  all_merged: "merged_through rc pid base i s [] False s"
| last_idle: "body_to_intent (rc_codec rc) b = Some it \<Longrightarrow>
    run_mutation (gis_call (rc_map rc) (rc_upsert rc) it (Some (se_revision s)) (step_key pid base i)) (s, k) = (Inr r, (t, k')) \<Longrightarrow>
    kept s t \<Longrightarrow> \<not> rs_error r \<Longrightarrow> \<not> rs_superseded r \<Longrightarrow> merged_through rc pid base i s [b] True (t\<lparr>se_provenance := pv\<rparr>)"
| one_merged: "body_to_intent (rc_codec rc) b = Some it \<Longrightarrow>
    run_mutation (gis_call (rc_map rc) (rc_upsert rc) it (Some (se_revision s)) (step_key pid base i)) (s, k) = (Inr r, (t, k')) \<Longrightarrow>
    wrote s t r (Some (step_key pid base i)) \<Longrightarrow>
    merged_through rc pid base (Suc i) (t\<lparr>se_provenance := pv\<rparr>) bs idle v \<Longrightarrow>
    merged_through rc pid base i s (b # bs) idle v"

lemma envelope_same [simp]:
  "rs_error (with_envelope eid w r) = rs_error r" "rs_superseded (with_envelope eid w r) = rs_superseded r"
  "rs_duplicate (with_envelope eid w r) = rs_duplicate r" "rs_revision (with_envelope eid w r) = rs_revision r"
  "rs_spec (with_envelope eid w r) = rs_spec r"
  by (simp_all add: with_envelope_def)

lemma fresh_hit: "eid \<notin> keys_of s \<Longrightarrow> dedup_hit (se_dedup s) (Some eid) = None"
  by (simp add: dedup_hit_def map_of_eq_None_iff del: map_of_eq_Some_iff)

lemma after_written:
  assumes "re_failure (after_intent i b r st) = None" and "\<not> rs_duplicate r \<or> rs_superseded r"
  shows "\<not> rs_error r \<and> \<not> rs_superseded r \<and> \<not> rs_duplicate r \<and>
    re_revision (after_intent i b r st) = revision_or r (re_revision st + 1) \<and>
    re_applied (after_intent i b r st) = re_applied st @ [step_of i b (revision_or r (re_revision st + 1))] \<and>
    re_interleaved (after_intent i b r st) = re_interleaved st"
  using assms by (auto simp: after_intent_def Let_def split: if_splits)

lemma written_document: "wrote s t r mid \<Longrightarrow> has_document t"
  by (auto simp: wrote_def has_document_def)

definition steps_from :: "nat \<Rightarrow> request_body list \<Rightarrow> int \<Rightarrow> merge_step list" where
  "steps_from i bs n = List.map (\<lambda>j. step_of (i + j) (bs ! j) (n + 1 + int j)) [0..<length bs]"

lemma steps_from_Cons: "steps_from i (b # bs) n = step_of i b (n + 1) # steps_from (Suc i) bs (n + 1)"
proof -
  have "[0..<length (b # bs)] = 0 # List.map Suc [0..<length bs]"
    by (simp only: length_Cons upt_conv_Cons [of 0] map_Suc_upt)
  then show ?thesis by (simp add: steps_from_def comp_def algebra_simps)
qed

text \<open>
  One step of a replay that goes on: the intent was written, or there was nothing to do. A step that expects another
  revision than the map has does not go on.
\<close>

lemma replay_step:
  assumes "serial (rc_map rc)" and "plain_handlers (rc_map rc)" and "has_document s"
    and "step_key pid base i \<notin> keys_of s" and "body_to_intent (rc_codec rc) b = Some it"
    and "replay rc pid base i (b # bs) st (s, k) = (Inr st', (t, k'))" and "re_failure st' = None"
  obtains r t0 k0 pv k1 where
    "run_mutation (gis_call (rc_map rc) (rc_upsert rc) it (Some (re_revision st)) (step_key pid base i)) (s, Suc k) = (Inr r, (t0, k0))"
    and "re_revision st = se_revision s" and "\<not> rs_error r" and "\<not> rs_superseded r"
    and "wrote s t0 r (Some (step_key pid base i)) \<or> kept s t0 \<and> rs_revision r = 0"
    and "replay rc pid base (Suc i) bs (after_intent i b
        (with_envelope (step_key pid base i) (classify_producer By_system (merge_actor pid)) r) st)
      (t0\<lparr>se_provenance := pv\<rparr>, k1) = (Inr st', (t, k'))"
    and "keys_of t0 \<subseteq> insert (step_key pid base i) (keys_of s)"
    and "re_failure (after_intent i b (with_envelope (step_key pid base i) (classify_producer By_system (merge_actor pid)) r) st) = None"
    and "\<not> rs_duplicate r"
proof -
  let ?ec = "rc_map rc" and ?key = "step_key pid base i"
  obtain d where d: "se_spec s = Some (Some d)" using assms(3) by (rule has_documentE)
  obtain res1 t1 k1 where app: "apply_gis_mutation ?ec (rc_upsert rc) it By_system (merge_actor pid) (Some (re_revision st))
      (Some (merge_key pid base i)) (s, k) = (res1, (t1, k1))" by (metis surj_pair)
  from gis_system [OF assms(1) app, unfolded step_envelope]
  obtain r t0 k0 where run: "run_mutation (gis_call ?ec (rc_upsert rc) it (Some (re_revision st)) ?key) (s, Suc k) = (Inr r, (t0, k0))"
    and r: "res1 = Inr (with_envelope ?key (classify_producer By_system (merge_actor pid)) r)"
    and t1: "t1 = t0\<lparr>se_provenance := se_provenance t1\<rparr>" by blast
  let ?st = "after_intent i b (with_envelope ?key (classify_producer By_system (merge_actor pid)) r) st"
  have rest: "(if re_failure ?st = None then replay rc pid base (Suc i) bs ?st else ret ?st) (t1, k1) = (Inr st', (t, k'))"
    using assms(5,6) by (simp add: seq_def app r Let_def)
  with assms(7) have none: "re_failure ?st = None" by (auto split: if_splits)
  have fresh: "dedup_hit (se_dedup s) (Some ?key) = None" by (rule fresh_hit [OF assms(4)])
  have new: "\<not> rs_superseded r" using none by (auto simp: after_intent_def)
  have "\<not> rs_error r"
  proof
    assume e: "rs_error r"
    with none have "rs_duplicate r" by (auto simp: after_intent_def Let_def split: if_splits)
    with refused_afresh [OF assms(1,2) fresh run e new] show False by blast
  qed
  with new have ok: "\<not> rs_error r" "\<not> rs_superseded r" by blast+
  note ans = gis_answers [OF assms(1) d assms(2) fresh run ok]
  have keys: "keys_of t0 \<subseteq> insert ?key (keys_of s)" using step_keys [OF _ d run] assms(1) by simp
  show thesis
    by (rule that [OF run _ ok _ _ keys none, of "se_provenance t1" k1]) (use ans rest none t1 in auto)
qed

lemma later_keys:
  assumes "keys_of t \<subseteq> insert (step_key pid base i) (keys_of s)"
    and "\<forall>j < length (b # bs). step_key pid base (i + j) \<notin> keys_of s" and "inj_on (step_key pid base) {i..<i + length (b # bs)}"
  shows "\<forall>j < length bs. step_key pid base (Suc i + j) \<notin> keys_of t"
proof (intro allI impI)
  fix j assume j: "j < length bs"
  then have "step_key pid base (Suc i + j) \<noteq> step_key pid base i"
    using inj_onD [OF assms(3), of "Suc i + j" i] by auto
  moreover have "step_key pid base (i + Suc j) \<notin> keys_of s"
    using assms(2) [rule_format, of "Suc j"] j by simp
  ultimately show "step_key pid base (Suc i + j) \<notin> keys_of t" using assms(1) by auto
qed

lemma replay_applies:
  assumes "serial (rc_map rc)" and "plain_handlers (rc_map rc)" and "has_document s"
    and "\<forall>j < length bs. step_key pid base (i + j) \<notin> keys_of s" and "inj_on (step_key pid base) {i..<i + length bs}"
    and "re_revision st = se_revision s" and "re_failure st = None"
    and "replay rc pid base i bs st (s, k) = (Inr st', (t, k'))" and "re_failure st' = None"
  shows "\<exists>idle. merged_through rc pid base i s bs idle t \<and>
    se_revision t = se_revision s + int (length bs) - (if idle then 1 else 0) \<and>
    re_revision st' = se_revision s + int (length bs) \<and> re_applied st' = re_applied st @ steps_from i bs (se_revision s)"
  using assms
proof (induction bs arbitrary: i s st k)
  case Nil
  then show ?case by (auto simp: steps_from_def intro: all_merged)
next
  case (Cons b bs)
  obtain it where it: "body_to_intent (rc_codec rc) b = Some it"
    using Cons.prems(8,9) by (cases "body_to_intent (rc_codec rc) b") auto
  let ?key = "step_key pid base i" and ?w = "with_envelope (step_key pid base i) (classify_producer By_system (merge_actor pid))"
  from Cons.prems(4) have "step_key pid base (i + 0) \<notin> keys_of s" by blast
  then have "?key \<notin> keys_of s" by simp
  from replay_step [OF Cons.prems(1-3) this it Cons.prems(8,9)] obtain r t0 k0 pv k1 where
    run: "run_mutation (gis_call (rc_map rc) (rc_upsert rc) it (Some (re_revision st)) ?key) (s, Suc k) = (Inr r, (t0, k0))"
    and ok: "\<not> rs_error r" "\<not> rs_superseded r" "\<not> rs_duplicate r"
    and eff: "wrote s t0 r (Some ?key) \<or> kept s t0 \<and> rs_revision r = 0"
    and rest: "replay rc pid base (Suc i) bs (after_intent i b (?w r) st) (t0\<lparr>se_provenance := pv\<rparr>, k1) = (Inr st', (t, k'))"
    and keys: "keys_of t0 \<subseteq> insert ?key (keys_of s)" and none: "re_failure (after_intent i b (?w r) st) = None" by metis
  let ?t0 = "t0\<lparr>se_provenance := pv\<rparr>" and ?st = "after_intent i b (?w r) st"
  have st: "re_revision ?st = se_revision s + 1" "re_applied ?st = re_applied st @ [step_of i b (se_revision s + 1)]"
    using after_written [OF none] ok eff Cons.prems(6) by (auto simp: revision_or_def wrote_def split: if_splits)
  have later: "\<forall>j < length bs. step_key pid base (Suc i + j) \<notin> keys_of ?t0"
    using later_keys [OF keys Cons.prems(4,5)] by simp
  have apart: "inj_on (step_key pid base) {Suc i..<Suc i + length bs}"
    using Cons.prems(5) by (rule inj_on_subset) auto
  have doc: "has_document ?t0" using eff Cons.prems(3) written_document by (auto simp: has_document_def kept_def)
  show ?case
  proof (cases "wrote s t0 r (Some ?key)")
    case True
    then have n: "se_revision ?t0 = se_revision s + 1" by (simp add: wrote_def)
    from Cons.IH [OF Cons.prems(1,2) doc later apart _ none rest Cons.prems(9)] st(1) n
    obtain idle where tail: "merged_through rc pid base (Suc i) ?t0 bs idle t"
      "se_revision t = se_revision s + 1 + int (length bs) - (if idle then 1 else 0)"
      "re_revision st' = se_revision s + 1 + int (length bs)" "re_applied st' = re_applied ?st @ steps_from (Suc i) bs (se_revision s + 1)"
      by metis
    from one_merged [OF it run [unfolded Cons.prems(6)] True tail(1)] tail st show ?thesis
      by (intro exI [of _ idle]) (simp add: steps_from_Cons)
  next
    case False
    with eff have idle: "kept s t0" by blast
    show ?thesis
    proof (cases bs)
      case Nil
      with rest have "st' = ?st" "t = ?t0" by simp_all
      with last_idle [OF it run [unfolded Cons.prems(6)] idle ok(1,2), of pv] Nil st idle show ?thesis
        by (intro exI [of _ True]) (simp add: steps_from_Cons, simp add: steps_from_def kept_def)
    next
      case (Cons b2 bs2)
      obtain it2 where it2: "body_to_intent (rc_codec rc) b2 = Some it2"
        using rest Cons Cons.prems(9) by (cases "body_to_intent (rc_codec rc) b2") auto
      from later Cons have "step_key pid base (Suc i + 0) \<notin> keys_of ?t0" by blast
      then have "step_key pid base (Suc i) \<notin> keys_of ?t0" by simp
      from replay_step [OF Cons.prems(1,2) doc this it2 rest [unfolded Cons] Cons.prems(9)]
      have "re_revision ?st = se_revision ?t0" by blast
      with st(1) idle show ?thesis by (simp add: kept_def)
    qed
  qed
qed

section \<open>The merge\<close>

lemma seq_returned: "seq m f w = (Inr y, w') \<Longrightarrow> (\<And>x w1. m w = (Inr x, w1) \<Longrightarrow> f x w1 = (Inr y, w') \<Longrightarrow> P) \<Longrightarrow> P"
  using seq_Inr by fastforce

lemma checked_same: "checked_outcome x = Some out \<Longrightarrow> out = x"
  by (auto simp: checked_outcome_def split: option.splits if_splits)

definition minted_id :: "engine_ctx \<Rightarrow> nat \<Rightarrow> string" where
  "minted_id ec k = envelope_id None (ec_mint ec k)"

lemma merge_run:
  assumes serial: "serial (rc_map rc)" and doc: "se_spec s = Some (Some d)"
    and guard: "ec_guard (rc_map rc) (CheckpointIntent (Some (merge_checkpoint_id (rp_id p)))) =
      Some (Some (CheckpointIntent (Some (merge_checkpoint_id (rp_id p)))))"
    and fresh: "minted_id (rc_map rc) (Suc k) \<notin> keys_of s"
    and run: "merge_proposal_intents rc p actor pol approvals (s, k) = (Inr (Some out), (t, k'))"
    and good: "mo_ok out \<or> mo_rolled_back out"
  obtains r u n pv k1 st v k2 interleaved undone_all f where "se_revision s = rp_base p"
    and "run_mutation (gis_call (rc_map rc) (rc_upsert rc) (CheckpointIntent (Some (merge_checkpoint_id (rp_id p))))
      (Some (se_revision s)) (minted_id (rc_map rc) (Suc k))) (s, Suc (Suc k)) = (Inr r, (u, n))"
    and "wrote s u r (Some (minted_id (rc_map rc) (Suc k)))"
    and "replay rc (rp_id p) (rp_base p) 0 (rp_intents p) \<lparr>re_revision = se_revision u, re_applied = [], re_ids = [],
      re_failure = None, re_interleaved = False\<rparr> (u\<lparr>se_provenance := pv\<rparr>, k1) = (Inr st, (v, k2))"
    and "Suc k < k1" and "undo_replay rc (rp_id p) st (v, k2) = (Inr (interleaved, undone_all, f), (t, k'))"
    and "mo_ok out \<longleftrightarrow> f = None" and "mo_rolled_back out = undone_all"
    and "\<exists>ev. mo_evidence out = Some ev \<and> me_applied ev = re_applied st \<and> me_revision ev = re_revision st"
proof -
  let ?ec = "rc_map rc" and ?c = "CheckpointIntent (Some (merge_checkpoint_id (rp_id p)))"
  have env: "ec_env ?ec n x = x" for n x using serial by (simp add: serial_def)
  have none: "envelope_id None (ec_mint ?ec (Suc k)) = minted_id ?ec (Suc k)" by (simp add: minted_id_def)
  obtain res1 t1 k1 where app: "apply_gis_mutation ?ec (rc_upsert rc) ?c By_system (merge_actor (rp_id p))
      (Some (se_revision s)) None (s, Suc k) = (res1, (t1, k1))" by (metis surj_pair)
  from gis_system [OF serial app, unfolded none]
  obtain r u n where ck: "run_mutation (gis_call ?ec (rc_upsert rc) ?c (Some (se_revision s)) (minted_id ?ec (Suc k))) (s, Suc (Suc k)) = (Inr r, (u, n))"
    and r: "res1 = Inr (with_envelope (minted_id ?ec (Suc k)) (classify_producer By_system (merge_actor (rp_id p))) r)"
    and t1: "t1 = u\<lparr>se_provenance := se_provenance t1\<rparr>" and later: "Suc k < k1" by blast
  let ?r = "with_envelope (minted_id ?ec (Suc k)) (classify_producer By_system (merge_actor (rp_id p))) r"
  let ?st = "\<lparr>re_revision = revision_or ?r (se_revision s + 1), re_applied = [], re_ids = [], re_failure = None,
    re_interleaved = False\<rparr>"
  have after: "seq (apply_gis_mutation ?ec (rc_upsert rc) ?c By_system (merge_actor (rp_id p)) (Some (se_revision s)) None) g (s, Suc k) =
    g ?r (t1, k1)" for g :: "mutation_result \<Rightarrow> merge_outcome option session_prog"
    by (simp add: seq_def app r)
  have bad: "checked_outcome (failed_outcome c g ev) = Some out \<Longrightarrow> False" for c g ev
    using good checked_same [of "failed_outcome c g ev" out] by (auto simp: failed_outcome_def)
  have base: "se_revision s = rp_base p"
    using run bad bad [OF sym] by (auto simp: merge_proposal_intents_def Let_def env split: if_splits)
  note after' = after [unfolded base]
  have fine: "\<not> rs_superseded r" "\<not> rs_error r"
    using run bad bad [OF sym] base by (auto simp: merge_proposal_intents_def Let_def env after' split: if_splits)
  from gis_written [OF serial doc guard checkpoint_answers fresh_hit [OF fresh] ck fine(2,1)]
  have w: "wrote s u r (Some (minted_id ?ec (Suc k)))" .
  then have v: "revision_or ?r (se_revision s + 1) = se_revision u" by (auto simp: revision_or_def wrote_def)
  have rest: "seq (replay rc (rp_id p) (rp_base p) 0 (rp_intents p) ?st) (\<lambda>st.
      seq (undo_replay rc (rp_id p) st) (\<lambda>res. seq (tick (rc_now rc)) (\<lambda>now.
        ret (checked_outcome (merge_outcome_of (evidence_of p actor pol approvals (merge_checkpoint_id (rp_id p))
          (re_revision st) (snd (snd res)) now) st res))))) (t1, k1) = (Inr (Some out), (t, k'))"
    using run base fine by (simp add: merge_proposal_intents_def Let_def env after')
  obtain st w1 where st: "replay rc (rp_id p) (rp_base p) 0 (rp_intents p) ?st (t1, k1) = (Inr st, w1)"
    and rest2: "seq (undo_replay rc (rp_id p) st) (\<lambda>res. seq (tick (rc_now rc)) (\<lambda>now.
        ret (checked_outcome (merge_outcome_of (evidence_of p actor pol approvals (merge_checkpoint_id (rp_id p))
          (re_revision st) (snd (snd res)) now) st res)))) w1 = (Inr (Some out), (t, k'))" by (rule seq_returned [OF rest])
  obtain res w2 where un: "undo_replay rc (rp_id p) st w1 = (Inr res, w2)"
    and fin: "seq (tick (rc_now rc)) (\<lambda>now. ret (checked_outcome (merge_outcome_of (evidence_of p actor pol approvals
      (merge_checkpoint_id (rp_id p)) (re_revision st) (snd (snd res)) now) st res))) w2 =
      ((Inr (Some out) :: engine_error + merge_outcome option), (t, k'))" by (rule seq_returned [OF rest2])
  obtain interleaved undone_all f where res: "res = (interleaved, undone_all, f)" by (cases res) auto
  from fin have w2: "w2 = (t, k')" and out: "checked_outcome (merge_outcome_of (evidence_of p actor pol approvals
      (merge_checkpoint_id (rp_id p)) (re_revision st) f (rc_now rc k')) st (interleaved, undone_all, f)) = Some out"
    by (auto simp: res)
  obtain x k2 where w1: "w1 = (x, k2)" by fastforce
  have replayed: "replay rc (rp_id p) (rp_base p) 0 (rp_intents p) \<lparr>re_revision = se_revision u, re_applied = [], re_ids = [],
      re_failure = None, re_interleaved = False\<rparr> (u\<lparr>se_provenance := se_provenance t1\<rparr>, k1) = (Inr st, (x, k2))"
    using st unfolding v w1 t1 [symmetric] .
  have undone: "undo_replay rc (rp_id p) st (x, k2) = (Inr (interleaved, undone_all, f), (t, k'))"
    using un unfolding w1 w2 res .
  have parts: "mo_ok out \<longleftrightarrow> f = None" "mo_rolled_back out = undone_all"
    "\<exists>ev. mo_evidence out = Some ev \<and> me_applied ev = re_applied st \<and> me_revision ev = re_revision st"
    by (simp_all add: checked_same [OF out] merge_outcome_of_def evidence_of_def)
  show thesis by (rule that [OF base ck w replayed later undone parts])
qed

text \<open>
  The ids a merge at point \<open>k\<close> sends are new: none is in the index, the keys of two positions differ, and the id
  of the checkpoint is not given out again.
\<close>

definition fresh_ids :: "review_ctx \<Rightarrow> review_proposal \<Rightarrow> session \<Rightarrow> nat \<Rightarrow> bool" where
  "fresh_ids rc p s k \<longleftrightarrow> inj_on (step_key (rp_id p) (rp_base p)) {0..<length (rp_intents p)} \<and>
     (\<forall>i < length (rp_intents p). step_key (rp_id p) (rp_base p) i \<notin> keys_of s) \<and>
     (\<forall>n > k. minted_id (rc_map rc) n \<notin> keys_of s \<and>
        (n \<noteq> Suc k \<longrightarrow> minted_id (rc_map rc) n \<noteq> minted_id (rc_map rc) (Suc k)) \<and>
        (\<forall>i < length (rp_intents p). minted_id (rc_map rc) n \<noteq> step_key (rp_id p) (rp_base p) i))"

lemma checkpoint_keys:
  assumes "fresh_ids rc p s k0" and "serial (rc_map rc)" and "se_spec s = Some (Some d)"
    and "run_mutation (gis_call (rc_map rc) (rc_upsert rc) i n (minted_id (rc_map rc) (Suc k0))) (s, k) = (Inr r, (u, k'))"
  shows "\<forall>i < length (rp_intents p). step_key (rp_id p) (rp_base p) i \<notin> keys_of u"
    and "m > Suc k0 \<Longrightarrow> minted_id (rc_map rc) m \<notin> keys_of u"
proof -
  have sub: "keys_of u \<subseteq> insert (minted_id (rc_map rc) (Suc k0)) (keys_of s)"
    using step_keys [OF _ assms(3,4)] assms(2) by simp
  have steps: "step_key (rp_id p) (rp_base p) i \<notin> keys_of s" "minted_id (rc_map rc) (Suc k0) \<noteq> step_key (rp_id p) (rp_base p) i"
    if "i < length (rp_intents p)" for i
    using assms(1) that by (simp_all add: fresh_ids_def)
  have outside: "x \<notin> keys_of u" if "x \<notin> keys_of s" "minted_id (rc_map rc) (Suc k0) \<noteq> x" for x
    using subsetD [OF sub, of x] that by (metis insertE)
  show "\<forall>i < length (rp_intents p). step_key (rp_id p) (rp_base p) i \<notin> keys_of u"
    by (intro allI impI outside steps)
  assume m: "m > Suc k0"
  then have "minted_id (rc_map rc) m \<notin> keys_of s" "minted_id (rc_map rc) m \<noteq> minted_id (rc_map rc) (Suc k0)"
    using assms(1) by (simp_all add: fresh_ids_def)
  then show "minted_id (rc_map rc) m \<notin> keys_of u" by (metis outside)
qed

text \<open>
  C3. A merge without concurrent writers, whose ids are new, applied the whole proposal to its base when it succeeds:
  the map was at the proposal's base revision, one write stored the checkpoint, and after it every intent, in its
  order, is one write of the engine under the idempotency key of its position. Only the last intent may have found
  nothing to do, as when a time axis that is not there is removed; it is then no write, and the evidence counts one
  revision more than the map has. The steps in the evidence carry consecutive revisions from the base on. Of what is
  not modelled this uses that a handler which answers by itself without an error names no revision, as none in
  \<open>mutation_handlers.py\<close> does, and that the spatial guard, which looks at geometry only, lets the checkpoint pass.
\<close>

theorem merge_applies_all:
  assumes "serial (rc_map rc)" and "plain_handlers (rc_map rc)" and "has_document s" and "fresh_ids rc p s k"
    and "ec_guard (rc_map rc) (CheckpointIntent (Some (merge_checkpoint_id (rp_id p)))) =
      Some (Some (CheckpointIntent (Some (merge_checkpoint_id (rp_id p)))))"
    and "merge_proposal_intents rc p actor pol approvals (s, k) = (Inr (Some out), (t, k'))" and "mo_ok out"
  shows "se_revision s = rp_base p \<and>
    (\<exists>u r pv idle. wrote s u r (Some (minted_id (rc_map rc) (Suc k))) \<and>
      merged_through rc (rp_id p) (rp_base p) 0 (u\<lparr>se_provenance := pv\<rparr>) (rp_intents p) idle t \<and>
      se_revision t = rp_base p + 1 + int (length (rp_intents p)) - (if idle then 1 else 0)) \<and>
    (\<exists>ev. mo_evidence out = Some ev \<and> me_revision ev = rp_base p + 1 + int (length (rp_intents p)) \<and>
      me_applied ev = List.map (\<lambda>i. step_of i (rp_intents p ! i) (rp_base p + 2 + int i)) [0..<length (rp_intents p)])"
proof -
  obtain d where d: "se_spec s = Some (Some d)" using assms(3) by (rule has_documentE)
  have mint: "minted_id (rc_map rc) (Suc k) \<notin> keys_of s" using assms(4) by (simp add: fresh_ids_def)
  from merge_run [OF assms(1) d assms(5) mint assms(6)] assms(7)
  obtain r u n pv k1 st v k2 interleaved undone_all f where base: "se_revision s = rp_base p"
    and ck: "run_mutation (gis_call (rc_map rc) (rc_upsert rc) (CheckpointIntent (Some (merge_checkpoint_id (rp_id p))))
      (Some (se_revision s)) (minted_id (rc_map rc) (Suc k))) (s, Suc (Suc k)) = (Inr r, (u, n))"
    and w: "wrote s u r (Some (minted_id (rc_map rc) (Suc k)))"
    and st: "replay rc (rp_id p) (rp_base p) 0 (rp_intents p) \<lparr>re_revision = se_revision u, re_applied = [], re_ids = [],
      re_failure = None, re_interleaved = False\<rparr> (u\<lparr>se_provenance := pv\<rparr>, k1) = (Inr st, (v, k2))"
    and un: "undo_replay rc (rp_id p) st (v, k2) = (Inr (interleaved, undone_all, f), (t, k'))"
    and f: "f = None" and ev: "\<exists>ev. mo_evidence out = Some ev \<and> me_applied ev = re_applied st \<and> me_revision ev = re_revision st"
    by metis
  have ok: "re_failure st = None" and v: "v = t"
    using un f by (auto simp: undo_replay_def Let_def split: option.splits if_splits prod.splits elim!: seq_returned)
  have u: "se_revision u = rp_base p + 1" "has_document (u\<lparr>se_provenance := pv\<rparr>)"
    using w base written_document [OF w] by (simp_all add: wrote_def has_document_def)
  have keys: "\<forall>j < length (rp_intents p). step_key (rp_id p) (rp_base p) (0 + j) \<notin> keys_of (u\<lparr>se_provenance := pv\<rparr>)"
    using checkpoint_keys(1) [OF assms(4,1) d ck] by simp
  have inj: "inj_on (step_key (rp_id p) (rp_base p)) {0..<0 + length (rp_intents p)}"
    using assms(4) by (simp add: fresh_ids_def)
  from replay_applies [OF assms(1,2) u(2) keys inj _ _ st ok] v u(1) obtain idle where
    "merged_through rc (rp_id p) (rp_base p) 0 (u\<lparr>se_provenance := pv\<rparr>) (rp_intents p) idle t"
    "se_revision t = rp_base p + 1 + int (length (rp_intents p)) - (if idle then 1 else 0)"
    "re_revision st = rp_base p + 1 + int (length (rp_intents p))" "re_applied st = steps_from 0 (rp_intents p) (rp_base p + 1)"
    by auto
  moreover from this(3,4) ev have "\<exists>ev. mo_evidence out = Some ev \<and> me_revision ev = rp_base p + 1 + int (length (rp_intents p)) \<and>
      me_applied ev = List.map (\<lambda>i. step_of i (rp_intents p ! i) (rp_base p + 2 + int i)) [0..<length (rp_intents p)]"
    by (auto simp: steps_from_def algebra_simps)
  ultimately show ?thesis using base w by blast
qed

section \<open>The rollback\<close>

text \<open>No save fails, named checkpoints are not pruned by chance, and what a checkpoint refers to can be restored.\<close>

definition sound_engine :: "engine_ctx \<Rightarrow> bool" where
  "sound_engine ec \<longleftrightarrow> serial ec \<and> ec_save ec = (\<lambda>k. Save_done) \<and> (\<forall>k. is_auto_id (ec_fresh_id ec k)) \<and>
     ec_restorable ec = (\<lambda>k ck. True)"

definition spares_checkpoint :: "engine_ctx \<Rightarrow> string \<Rightarrow> intent \<Rightarrow> bool" where
  "spares_checkpoint ec cid i \<longleftrightarrow> (case ec_guard ec i of Some (Some j) \<Rightarrow> \<not> is_init j \<and> j \<noteq> CheckpointIntent (Some cid) | _ \<Rightarrow> True)"

lemma spared_call:
  assumes "sound_engine ec" and "spares_checkpoint ec cid i"
  shows "serial_call (gis_call ec up i n eid)" "keeps_project (gis_call ec up i n eid)"
    "saves_well (gis_call ec up i n eid)" "other_checkpoint cid (gis_call ec up i n eid)"
  using assms
  by (auto simp: sound_engine_def spares_checkpoint_def keeps_project_def saves_well_def other_checkpoint_def
      guarded_def split: option.splits)

lemma dir_at_provenance: "dir_at cid (s\<lparr>se_provenance := pv\<rparr>) = dir_at cid s"
  by simp

lemma merge_call_keeps:
  assumes ec: "sound_engine ec" and i: "spares_checkpoint ec cid it" and cid: "\<not> is_auto_id cid" and doc: "has_document s"
    and app: "apply_gis_mutation ec up it By_system actor n (Some (merge_key pid base i)) (s, k) = (res, (t, k'))"
  shows "has_document t \<and> dir_at cid t = dir_at cid s \<and> keys_of t \<subseteq> insert (step_key pid base i) (keys_of s) \<and> \<not> isl res \<and> k < k'"
proof -
  have serial: "serial ec" using ec by (simp add: sound_engine_def)
  obtain d where d: "se_spec s = Some (Some d)" using doc by (rule has_documentE)
  from gis_system [OF serial app, unfolded step_envelope] obtain r0 t0 k0 where
    run: "run_mutation (gis_call ec up it n (step_key pid base i)) (s, Suc k) = (Inr r0, (t0, k0))" and res: "\<not> isl res" "k < k'"
    and t: "t = t0\<lparr>se_provenance := se_provenance t\<rparr>" by fastforce
  note call = spared_call [OF ec i, of up n "step_key pid base i"]
  have step: "fst (mutation_step (s, Suc k) (gis_call ec up it n (step_key pid base i))) = t0"
    using run by (simp add: mutation_step_def)
  have "has_document t0" using step_forward [OF call(1,2) doc, of "Suc k"] step by simp
  moreover have "dir_at cid t0 = dir_at cid s" using step_dirs [OF call(1,3,4) cid, of s "Suc k"] step by simp
  moreover have "keys_of t0 \<subseteq> insert (step_key pid base i) (keys_of s)"
    using step_keys [OF call(1) d run] by simp
  moreover have "has_document t = has_document t0" "dir_at cid t = dir_at cid t0" "keys_of t = keys_of t0"
    using arg_cong [OF t, of has_document] arg_cong [OF t, of "dir_at cid"] arg_cong [OF t, of se_dedup]
    by (simp_all add: has_document_def)
  ultimately show ?thesis using res by simp
qed

lemma replay_keeps:
  assumes "sound_engine (rc_map rc)" and "\<not> is_auto_id cid" and "has_document s"
    and "\<forall>b \<in> set bs. \<forall>it. body_to_intent (rc_codec rc) b = Some it \<longrightarrow> spares_checkpoint (rc_map rc) cid it"
    and "replay rc pid base i bs st (s, k) = (res, (t, k'))"
  shows "has_document t \<and> dir_at cid t = dir_at cid s \<and> keys_of t \<subseteq> keys_of s \<union> step_key pid base ` {i..<i + length bs} \<and> k \<le> k'"
  using assms
proof (induction bs arbitrary: i s st k)
  case Nil
  then show ?case by auto
next
  case (Cons b bs)
  show ?case
  proof (cases "body_to_intent (rc_codec rc) b")
    case None
    with Cons.prems show ?thesis by auto
  next
    case (Some it)
    obtain res1 t1 k1 where app: "apply_gis_mutation (rc_map rc) (rc_upsert rc) it By_system (merge_actor pid)
        (Some (re_revision st)) (Some (merge_key pid base i)) (s, k) = (res1, (t1, k1))" by (metis surj_pair)
    have "spares_checkpoint (rc_map rc) cid it" using Cons.prems(4) Some by simp
    from merge_call_keeps [OF Cons.prems(1) this Cons.prems(2,3) app]
    have one: "has_document t1" "dir_at cid t1 = dir_at cid s" "keys_of t1 \<subseteq> insert (step_key pid base i) (keys_of s)"
      and "\<not> isl res1" and after: "k < k1" by blast+
    then obtain r where r: "res1 = Inr r" by (cases res1) auto
    let ?st = "after_intent i b r st"
    have rest: "(if re_failure ?st = None then replay rc pid base (Suc i) bs ?st else ret ?st) (t1, k1) = (res, (t, k'))"
      using Cons.prems(5) Some by (simp add: seq_def app r Let_def)
    have sub: "X \<subseteq> Y \<union> f ` A \<Longrightarrow> Y \<subseteq> insert (f i) Z \<Longrightarrow> X \<subseteq> Z \<union> f ` (A \<union> {i})"
      for X Y Z :: "'x set" and f :: "nat \<Rightarrow> 'x" and A by blast
    have bound: "{Suc i..<Suc i + length bs} \<union> {i} = {i..<i + length (b # bs)}" by auto
    show ?thesis
    proof (cases "re_failure ?st")
      case (Some f)
      with rest one after show ?thesis by auto
    next
      case None
      with rest have "replay rc pid base (Suc i) bs ?st (t1, k1) = (res, (t, k'))" by simp
      from Cons.IH [OF Cons.prems(1,2) one(1) _ this] Cons.prems(4)
      have two: "has_document t \<and> dir_at cid t = dir_at cid t1 \<and>
        keys_of t \<subseteq> keys_of t1 \<union> step_key pid base ` {Suc i..<Suc i + length bs} \<and> k1 \<le> k'" by simp
      from two have "keys_of t \<subseteq> keys_of t1 \<union> step_key pid base ` {Suc i..<Suc i + length bs}" by blast
      from sub [OF this one(3)] two one after show ?thesis unfolding bound by simp
    qed
  qed
qed

text \<open>
  C7. A merge that says it was rolled back left the document it started from, with its layers: with saves that
  succeed, new ids, a readable checkpoint, no concurrent writer and no intent that starts a new project or takes the
  merge's own checkpoint again, whatever part of the intents was written before one of them was refused is taken back.
\<close>

theorem merge_rolls_back:
  assumes "sound_engine (rc_map rc)" and "se_spec s = Some (Some d)" and "settled_doc d" and "fresh_ids rc p s k"
    and "cid = merge_checkpoint_id (rp_id p)" and "valid_checkpoint_id cid" and "\<not> is_auto_id cid" and "dir_at cid s = None"
    and "ec_guard (rc_map rc) (CheckpointIntent (Some cid)) = Some (Some (CheckpointIntent (Some cid)))"
    and "ec_guard (rc_map rc) (RollbackIntent cid) = Some (Some (RollbackIntent cid))"
    and "\<forall>b \<in> set (rp_intents p). \<forall>it. body_to_intent (rc_codec rc) b = Some it \<longrightarrow> spares_checkpoint (rc_map rc) cid it"
    and "merge_proposal_intents rc p actor pol approvals (s, k) = (Inr (Some out), (t, k'))" and "mo_rolled_back out"
  shows "se_spec t = Some (Some d) \<and> Some (se_layers t) = layers_of (Some d)"
proof -
  let ?ec = "rc_map rc" and ?up = "rc_upsert rc"
  have serial: "serial ?ec" using assms(1) by (simp add: sound_engine_def)
  have mint: "minted_id ?ec (Suc k) \<notin> keys_of s" using assms(4) by (simp add: fresh_ids_def)
  have full: "d \<noteq> []" "cid \<noteq> []" using assms(3,5) by (auto simp: settled_doc_def merge_checkpoint_id_def)
  from merge_run [OF serial assms(2) assms(9) [unfolded assms(5)] mint assms(12)] assms(13)
  obtain r u n pv k1 st v k2 interleaved undone_all f where
    ck: "run_mutation (gis_call ?ec ?up (CheckpointIntent (Some cid)) (Some (se_revision s)) (minted_id ?ec (Suc k))) (s, Suc (Suc k)) =
      (Inr r, (u, n))"
    and w: "wrote s u r (Some (minted_id ?ec (Suc k)))"
    and st: "replay rc (rp_id p) (rp_base p) 0 (rp_intents p) \<lparr>re_revision = se_revision u, re_applied = [], re_ids = [],
      re_failure = None, re_interleaved = False\<rparr> (u\<lparr>se_provenance := pv\<rparr>, k1) = (Inr st, (v, k2))"
    and later: "Suc k < k1"
    and un: "undo_replay rc (rp_id p) st (v, k2) = (Inr (interleaved, undone_all, f), (t, k'))" and yes: "undone_all"
    unfolding assms(5) by metis
  let ?c0 = "gis_call ?ec ?up (CheckpointIntent (Some cid)) (Some (se_revision s)) (minted_id ?ec (Suc k))"
  have guards: "guarded ?c0 = Some (CheckpointIntent (Some cid))" "saves_well ?c0"
    using assms(1,9) by (simp_all add: guarded_def saves_well_def sound_engine_def)
  have w': "\<not> rs_error r" "se_revision u \<noteq> se_revision s" using w by (simp_all add: wrote_def)
  from checkpoint_taken [OF _ guards(2,1) assms(2) full assms(7,8) ck w'] serial
  obtain c where c: "dir_at cid u = Some c" "ck_spec c = d" by auto
  have doc: "has_document (u\<lparr>se_provenance := pv\<rparr>)" using written_document [OF w] by (simp add: has_document_def)
  from replay_keeps [OF assms(1,7) doc assms(11) st] c(1)
  have v: "has_document v" "dir_at cid v = Some c"
    "keys_of v \<subseteq> keys_of u \<union> step_key (rp_id p) (rp_base p) ` {0..<length (rp_intents p)}" by auto
  from replay_keeps [OF assms(1,7) doc assms(11) st] later have k2: "k2 > Suc k" by auto
  have fresh: "minted_id ?ec k2 \<notin> keys_of v"
  proof -
    have "minted_id ?ec k2 \<notin> keys_of u" by (rule checkpoint_keys(2) [OF assms(4) serial assms(2) ck k2])
    moreover have "minted_id ?ec k2 \<notin> step_key (rp_id p) (rp_base p) ` {0..<length (rp_intents p)}"
      using assms(4) k2 by (auto simp: fresh_ids_def)
    ultimately show ?thesis using v(3) by blast
  qed
  obtain e where e: "se_spec v = Some (Some e)" using v(1) by (rule has_documentE)
  obtain res1 t1 k3 where app: "apply_gis_mutation ?ec ?up (RollbackIntent cid) By_system (merge_actor (rp_id p))
      (Some (re_revision st)) None (v, k2) = (res1, (t1, k3))" by (metis surj_pair)
  from gis_system [OF serial app, folded minted_id_def] obtain r1 t0 k0 where
    rb: "run_mutation (gis_call ?ec ?up (RollbackIntent cid) (Some (re_revision st)) (minted_id ?ec k2)) (v, Suc k2) = (Inr r1, (t0, k0))"
    and r1: "res1 = Inr (with_envelope (minted_id ?ec k2) (classify_producer By_system (merge_actor (rp_id p))) r1)"
    and t1: "t1 = t0\<lparr>se_provenance := se_provenance t1\<rparr>" by blast
  have un': "t1 = t" "\<not> rs_superseded r1" "\<not> rs_error r1"
    using un yes
    by (auto simp: undo_replay_def seq_def app [unfolded assms(5)] r1 after_rollback_def split: option.splits if_splits)
  from gis_written [OF serial e assms(10) rollback_answers fresh_hit [OF fresh] rb un'(3,2)]
  have "wrote v t0 r1 (Some (minted_id ?ec k2))" .
  then have moved: "se_revision t0 \<noteq> se_revision v" by (simp add: wrote_def)
  have "se_spec t0 = Some (Some (ck_spec c)) \<and> Some (se_layers t0) = layers_of (Some (ck_spec c))"
    by (rule rollback_written [OF _ _ v(1,2) assms(6) _ _ rb un'(3) moved])
      (use serial assms(1,3,10) c in \<open>simp_all add: guarded_def sound_engine_def\<close>)
  with c(2) un'(1) arg_cong [OF t1, of se_spec] arg_cong [OF t1, of se_layers] show ?thesis by simp
qed

section \<open>Merges that stop half way\<close>

lemma stale_call:
  assumes "serial ec" and "has_document s" and "\<not> se_deleted s" and "ec_guard ec i = Some (Some j)"
    and "envelope_id mid (ec_mint ec k) \<notin> keys_of s" and "n \<noteq> se_revision s"
    and "apply_gis_mutation ec up i By_system actor (Some n) mid (s, k) = (res, (t, k'))"
  shows "\<exists>r. res = Inr r \<and> rs_superseded r \<and> kept s t"
proof -
  let ?c = "gis_call ec up i (Some n) (envelope_id mid (ec_mint ec k))"
  obtain d where d: "se_spec s = Some (Some d)" using assms(2) by (rule has_documentE)
  from gis_system [OF assms(1,7)] obtain r0 t0 k0 where run: "run_mutation ?c (s, Suc k) = (Inr r0, (t0, k0))"
    and res: "res = Inr (with_envelope (envelope_id mid (ec_mint ec k)) (classify_producer By_system actor) r0)"
    and t: "t = t0\<lparr>se_provenance := se_provenance t\<rparr>" by blast
  have pr: "prepare ec (Suc k) j By_system (Some n) (locked_guard up) (Some (envelope_id mid (ec_mint ec k))) s =
      (s, Inl (superseded_result (Some d) (se_revision s)))"
    using assms(3,6) fresh_hit [OF assms(5)] get_mapspec_found [OF d] by (simp add: prepare_def)
  have "guarded ?c = Some j" using assms(4) by (simp add: guarded_def)
  with serial_run [of ?c s "Suc k"] assms(1) pr run have "r0 = superseded_result (Some d) (se_revision s)" "t0 = s" by simp_all
  moreover have "kept s t"
    using calculation(2) arg_cong [OF t, of "kept s"] kept_refl [of s] by (simp add: kept_def)
  ultimately show ?thesis using res by (simp add: error_kinds(3))
qed

text \<open>
  C27. When an intent of a merge fails in a way the engine undoes itself, as when its save fails or its handler
  raises, the engine has moved the revision; the merge's own rollback is then refused as outdated, the merge
  reports that somebody else wrote in between, and everything its earlier intents wrote stays.
\<close>

theorem failed_save_blocks_rollback:
  assumes "serial (rc_map rc)" and "body_to_intent (rc_codec rc) b = Some it"
    and "apply_gis_mutation (rc_map rc) (rc_upsert rc) it By_system (merge_actor pid) (Some (re_revision st))
      (Some (merge_key pid base i)) (s0, k0) = (Inr r, (s, k))"
    and "rs_error r" and "\<not> rs_superseded r" and "\<not> rs_duplicate r" and "\<not> re_interleaved st"
    and "se_revision s \<noteq> re_revision st" and "has_document s" and "\<not> se_deleted s"
    and "ec_guard (rc_map rc) (RollbackIntent (merge_checkpoint_id pid)) = Some (Some (RollbackIntent (merge_checkpoint_id pid)))"
    and "minted_id (rc_map rc) k \<notin> keys_of s"
  shows "\<exists>t k'. seq (replay rc pid base i (b # bs) st) (undo_replay rc pid) (s0, k0) =
    (Inr (True, False, Some (Interleaved_before_rollback (Intent_failed i))), (t, k')) \<and> kept s t"
proof -
  let ?st = "after_intent i b r st"
  have st: "re_failure ?st = Some (Intent_failed i)" "re_revision ?st = re_revision st" "\<not> re_interleaved ?st"
    using assms(4-7) by (simp_all add: after_intent_def Let_def)
  have rep: "replay rc pid base i (b # bs) st (s0, k0) = (Inr ?st, (s, k))"
    using assms(2,3) st(1) by (simp add: seq_def Let_def)
  obtain res t k' where app: "apply_gis_mutation (rc_map rc) (rc_upsert rc) (RollbackIntent (merge_checkpoint_id pid)) By_system
      (merge_actor pid) (Some (re_revision st)) None (s, k) = (res, (t, k'))" by (metis surj_pair)
  from stale_call [OF assms(1,9,10,11) assms(12) [unfolded minted_id_def] assms(8) [symmetric] app]
  obtain r1 where "res = Inr r1" "rs_superseded r1" "kept s t" by blast
  with app have "undo_replay rc pid ?st (s, k) = (Inr (True, False, Some (Interleaved_before_rollback (Intent_failed i))), (t, k'))"
    using st by (simp add: undo_replay_def seq_def after_rollback_def)
  with rep \<open>kept s t\<close> show ?thesis by (simp add: seq_def)
qed

text \<open>
  C28. An intent that finds nothing to change ends without an error and without a revision; the merge counts it
  as one revision all the same, so its next intent is refused as outdated and the merge stops, reporting that
  somebody else wrote in between.
\<close>

theorem noop_intent_stops_merge:
  assumes "serial (rc_map rc)" and "body_to_intent (rc_codec rc) b1 = Some i1" and "body_to_intent (rc_codec rc) b2 = Some i2"
    and "apply_gis_mutation (rc_map rc) (rc_upsert rc) i1 By_system (merge_actor pid) (Some (re_revision st))
      (Some (merge_key pid base i)) (s0, k0) = (Inr r, (s, k))"
    and "\<not> rs_error r" and "\<not> rs_superseded r" and "\<not> rs_duplicate r" and "rs_revision r = 0"
    and "re_failure st = None" and "se_revision s = re_revision st" and "has_document s" and "\<not> se_deleted s"
    and "ec_guard (rc_map rc) i2 = Some (Some j)" and "step_key pid base (Suc i) \<notin> keys_of s"
  shows "\<exists>st' t k'. replay rc pid base i (b1 # b2 # bs) st (s0, k0) = (Inr st', (t, k')) \<and>
    re_failure st' = Some Superseded_mid_merge \<and> re_interleaved st' \<and> kept s t"
proof -
  let ?st = "after_intent i b1 r st"
  have st: "re_failure ?st = None" "re_revision ?st = re_revision st + 1"
    using assms(5-9) by (simp_all add: after_intent_def Let_def revision_or_def)
  obtain res t k' where app: "apply_gis_mutation (rc_map rc) (rc_upsert rc) i2 By_system (merge_actor pid)
      (Some (re_revision ?st)) (Some (merge_key pid base (Suc i))) (s, k) = (res, (t, k'))" by (metis surj_pair)
  have "re_revision ?st \<noteq> se_revision s" using st(2) assms(10) by simp
  from stale_call [OF assms(1,11,12,13) _ this app] assms(14)
  obtain r2 where r2: "res = Inr r2" "rs_superseded r2" "kept s t" by (auto simp: step_envelope)
  then have "re_failure (after_intent (Suc i) b2 r2 ?st) = Some Superseded_mid_merge" "re_interleaved (after_intent (Suc i) b2 r2 ?st)"
    by (simp_all add: after_intent_def)
  moreover from this have "replay rc pid base i (b1 # b2 # bs) st (s0, k0) = (Inr (after_intent (Suc i) b2 r2 ?st), (t, k'))"
    using assms(2,3,4) st(1) app r2(1) by (simp add: seq_def Let_def)
  ultimately show ?thesis using r2(3) by blast
qed

end
