(* ===== verification/Review_Witnesses.thy ===== *)
theory Review_Witnesses
  imports Review_Properties Review_Replay Mapspec_Witnesses
begin

text \<open>
  The properties of reviews and merges at a concrete session: an agent proposes a view and the removal of a
  layer, an editor approves, and the proposal is merged.
\<close>

definition review_engine :: engine_ctx where
  "review_engine = calm_ctx\<lparr>ec_mint := \<lambda>k. if k = 1 then ''first'' else ''later''\<rparr>"

definition calm_review :: review_ctx where
  "calm_review = \<lparr>rc_map = review_engine, rc_env = \<lambda>k w. w, rc_now = \<lambda>k. 0, rc_lock = \<lambda>k. Lock_held, rc_write = \<lambda>k. True,
     rc_fresh = \<lambda>k. ''f'',
     rc_parse = \<lambda>d. (case py_get d ''intent'' of PStr s \<Rightarrow> Some \<lparr>bd_intent = s, bd_fields = d\<rparr> | _ \<Rightarrow> None),
     rc_codec = \<lambda>b. None, rc_upsert = \<lambda>i. None\<rparr>"

definition later_review :: review_ctx where
  "later_review = calm_review\<lparr>rc_fresh := \<lambda>k. ''g''\<rparr>"

definition view_body :: request_body where
  "view_body = \<lparr>bd_intent = ''set_view'', bd_fields = [(''intent'', PStr ''set_view''), (''zoom'', PInt 5)]\<rparr>"

definition removal_body :: request_body where
  "removal_body = \<lparr>bd_intent = ''remove_layer'', bd_fields = [(''intent'', PStr ''remove_layer''), (''layer_id'', PStr ''b'')]\<rparr>"

definition the_agent :: review_actor where "the_agent = \<lparr>ra_id = ''bot'', ra_kind = Kind_agent, ra_role = Role_editor\<rparr>"
definition the_editor :: review_actor where "the_editor = \<lparr>ra_id = ''ann'', ra_kind = Kind_user, ra_role = Role_editor\<rparr>"

definition empty_review_store :: review_world where
  "empty_review_store = \<lparr>rw_map = map_session, rw_file = No_file\<rparr>"

definition review_day :: "(review_ctx \<times> review_call) list" where
  "review_day = List.map (Pair calm_review)
    [Review_create the_agent ''t'' [bd_fields view_body, bd_fields removal_body] ''d'', Review_submit ''rp_f'' the_agent 3,
     Review_decide ''rp_f'' the_editor ''approve'' ''fine'', Review_merge ''rp_f'' the_editor]"

definition after_day :: "review_world world" where
  "after_day = run_ops review_step (empty_review_store, 0) review_day"

lemma calm_surroundings [simp]:
  "sound_surroundings calm_review" "sound_surroundings later_review" "steady_surroundings ''rp_f'' later_review"
  by (auto simp: sound_surroundings_def steady_surroundings_def calm_review_def later_review_def review_engine_def relied_def
      calm_ctx_def never_lost_def review_forward_def proposal_le_refl)

lemma review_day_sound: "list_all (\<lambda>op. sound_surroundings (fst op)) review_day"
  by (simp add: review_day_def)

lemma empty_store_ok: "reviews_ok empty_review_store"
  by (simp add: reviews_ok_def empty_review_store_def file_ok_def)

lemma after_day_parts: "run_ops review_step (empty_review_store, 0) review_day = (fst after_day, snd after_day)"
  by (simp add: after_day_def)

lemma merged_then: "map_option rp_status (proposal_at ''rp_f'' (fst after_day)) = Some Merged"
  by code_simp

lemma approvals_hold_witness:
  "\<exists>p d. proposal_at ''rp_f'' (fst after_day) = Some p \<and> rp_status p = Merged \<and> d \<in> set (rp_decisions p) \<and>
     dc_verb d = Approve \<and> dc_base d = rp_base p \<and> ra_kind (dc_actor d) = Kind_user"
proof -
  obtain p where p: "proposal_at ''rp_f'' (fst after_day) = Some p" "rp_status p = Merged" using merged_then by auto
  with approvals_hold [OF review_day_sound empty_store_ok after_day_parts p(1)] show ?thesis by auto
qed

definition next_day :: "(review_ctx \<times> review_call) list" where
  "next_day = List.map (Pair later_review)
    [Review_withdraw ''rp_f'' the_agent, Review_comment ''rp_f'' the_editor ''late'' None]"

definition after_next_day :: "review_world world" where
  "after_next_day = run_ops review_step after_day next_day"

lemma closed_proposals_frozen_witness:
  "\<exists>q. proposal_at ''rp_f'' (fst after_next_day) = Some q \<and> rp_status q = Merged \<and> rp_author q = the_agent"
proof -
  obtain p where p: "proposal_at ''rp_f'' (fst after_day) = Some p" "rp_status p = Merged" using merged_then by auto
  have author: "map_option rp_author (proposal_at ''rp_f'' (fst after_day)) = Some the_agent" by code_simp
  have ok: "reviews_ok (fst after_day)" by (rule review_run_ok [OF review_day_sound empty_store_ok after_day_parts])
  have cs: "list_all (\<lambda>op. steady_surroundings ''rp_f'' (fst op)) next_day" by (simp add: next_day_def)
  have run: "run_ops review_step (fst after_day, snd after_day) next_day = (fst after_next_day, snd after_next_day)"
    by (simp add: after_next_day_def)
  from closed_proposals_frozen [OF cs ok p(1) run] p(2) author p(1) show ?thesis by (auto simp: TERMINAL_PROPOSALS_def)
qed

lemma review_store_readable_witness:
  "\<exists>ps ls. load_payload 0 (rw_file (fst after_day)) = Some (ps, ls) \<and> length ps \<le> 100"
  using review_store_readable [OF review_day_sound empty_store_ok after_day_parts, of 0] by blast

definition approved_proposal :: review_proposal where
  "approved_proposal = \<lparr>rp_id = ''rp_f'', rp_title = ''t'', rp_description = ''d'', rp_author = the_agent, rp_base = 3,
     rp_intents = [view_body, removal_body], rp_status = Approved, rp_risk = High_risk, rp_comments = [],
     rp_decisions = [\<lparr>dc_id = ''rd_f'', dc_verb = Approve, dc_actor = the_editor, dc_reason = ''fine'', dc_base = 3,
       dc_created = 0\<rparr>],
     rp_evidence = None, rp_merging = True, rp_created = 0, rp_updated = 0\<rparr>"

definition crashed_file :: review_file where
  "crashed_file = Review_file [approved_proposal] [(''rp_f'', Some 0)]"

lemma merge_lease_reclaimed_witness:
  "\<exists>now p ls. load_payload now crashed_file = Some ([p], ls) \<and> rp_status p = Approved \<and> \<not> rp_merging p"
proof -
  obtain last where free: "\<And>now ps ls. last < now \<Longrightarrow> load_payload now crashed_file = Some (ps, ls) \<Longrightarrow> list_all (\<lambda>p. \<not> rp_merging p) ps"
    using merge_lease_reclaimed [of crashed_file] by blast
  have "proposal_valid approved_proposal" by code_simp
  then obtain p ls where p: "load_payload (last + 1) crashed_file = Some ([p], ls)" "p = reclaimed (last + 1) [(''rp_f'', Some 0)] approved_proposal"
    by (simp add: load_payload_def crashed_file_def reclaim_expired_leases_def Let_def)
  then have "\<not> rp_merging p" using free [OF _ p(1)] by simp
  moreover have "rp_status p = Approved" using p(2) by (simp add: approved_proposal_def)
  ultimately show ?thesis using p(1) by blast
qed

section \<open>Merges\<close>

definition merge_of :: "review_ctx \<Rightarrow> request_body list \<Rightarrow> (engine_error + merge_outcome option) \<times> session \<times> nat" where
  "merge_of rc bs = merge_proposal_intents rc (approved_proposal\<lparr>rp_intents := bs\<rparr>) the_editor default_policy [] (map_session, 0)"

definition merge_result :: "(engine_error + merge_outcome option) \<times> session \<times> nat \<Rightarrow> merge_outcome option" where
  "merge_result x = (case fst x of Inr r \<Rightarrow> r | Inl e \<Rightarrow> None)"

lemma merge_parts: "merge_result x = Some out \<Longrightarrow> x = (Inr (Some out), (fst (snd x), snd (snd x)))"
  by (auto simp: merge_result_def split: sum.splits intro!: prod_eqI)

lemma calm_review_fields [simp]:
  "rc_map calm_review = review_engine" "rc_codec calm_review b = None" "serial review_engine" "sound_engine review_engine"
  "ec_guard review_engine i = Some (Some i)" "ec_mint review_engine k = (if k = 1 then ''first'' else ''later'')"
  by (simp_all add: calm_review_def review_engine_def calm_ctx_def serial_def sound_engine_def is_auto_id_def is_digit_def char_code_def)

lemma plain_merge_fresh: "fresh_ids calm_review (approved_proposal\<lparr>rp_intents := [b1, b2]\<rparr>) map_session 0"
proof -
  have two: "(i < Suc (Suc 0)) = (i = 0 \<or> i = Suc 0)" for i by auto
  have keys: "step_key ''rp_f'' 3 0 = ''merge:rp_f:3:0''" "step_key ''rp_f'' 3 (Suc 0) = ''merge:rp_f:3:1''" by code_simp+
  have "rp_id (approved_proposal\<lparr>rp_intents := [b1, b2]\<rparr>) = ''rp_f''" "rp_base (approved_proposal\<lparr>rp_intents := [b1, b2]\<rparr>) = 3"
    by (simp_all add: approved_proposal_def)
  moreover have "inj_on (step_key ''rp_f'' 3) {0..<Suc (Suc 0)}" by (simp add: atLeast0_lessThan_Suc keys)
  moreover have "se_dedup map_session = []" by (simp add: map_session_def new_map_session_def)
  ultimately show ?thesis
    by (simp add: fresh_ids_def minted_id_def envelope_id_def truthy_def two keys)
qed

lemma review_engine_plain: "plain_handlers review_engine"
  by (simp add: plain_handlers_def review_engine_def calm_ctx_def)

definition good_merge where "good_merge = merge_of calm_review [view_body, removal_body]"

lemma merge_applies_all_witness:
  "se_revision (fst (snd good_merge)) = 6 \<and>
   (\<exists>out ev. merge_result good_merge = Some out \<and> mo_evidence out = Some ev \<and> map ms_revision (me_applied ev) = [5, 6])"
proof -
  have "map_option mo_ok (merge_result good_merge) = Some True" by code_simp
  then obtain out where out: "merge_result good_merge = Some out" "mo_ok out" by auto
  have eq: "merge_proposal_intents calm_review (approved_proposal\<lparr>rp_intents := [view_body, removal_body]\<rparr>) the_editor
      default_policy [] (map_session, 0) = (Inr (Some out), (fst (snd good_merge), snd (snd good_merge)))"
    using merge_parts [OF out(1)] by (simp add: good_merge_def merge_of_def)
  have "has_document map_session" "se_revision (fst (snd good_merge)) = 6" by code_simp+
  from merge_applies_all [OF _ _ this(1) plain_merge_fresh _ eq out(2)] this(2) review_engine_plain
  show ?thesis using out(1) by (auto simp: approved_proposal_def step_of_def)
qed

definition lost_body :: request_body where
  "lost_body = \<lparr>bd_intent = ''patch_layer_style'', bd_fields = [(''layer_id'', PStr ''zz''), (''paint'', PDict [])]\<rparr>"

definition undone_merge where "undone_merge = merge_of calm_review [view_body, lost_body]"

lemma merge_rolls_back_witness:
  "se_spec (fst (snd undone_merge)) = Some (Some map_doc) \<and> se_revision (fst (snd undone_merge)) = 6"
proof -
  have "map_option mo_rolled_back (merge_result undone_merge) = Some True" by code_simp
  then obtain out where out: "merge_result undone_merge = Some out" "mo_rolled_back out" by auto
  have eq: "merge_proposal_intents calm_review (approved_proposal\<lparr>rp_intents := [view_body, lost_body]\<rparr>) the_editor
      default_policy [] (map_session, 0) = (Inr (Some out), (fst (snd undone_merge), snd (snd undone_merge)))"
    using merge_parts [OF out(1)] by (simp add: undone_merge_def merge_of_def)
  have decoded: "body_to_intent (rc_codec calm_review) view_body = Some (SetViewIntent PNone (PInt 5) PNone PNone)"
    "body_to_intent (rc_codec calm_review) lost_body = Some (PatchLayerStyleIntent ''zz'' [])" by code_simp+
  have ids: "settled_doc map_doc" "\<not> is_auto_id ''mr_rp_f''" "valid_checkpoint_id ''mr_rp_f''"
    "merge_checkpoint_id ''rp_f'' = ''mr_rp_f''" by code_simp+
  have spared: "\<forall>b \<in> set [view_body, lost_body]. \<forall>it. body_to_intent (rc_codec calm_review) b = Some it \<longrightarrow>
      spares_checkpoint review_engine ''mr_rp_f'' it"
    using decoded by (auto simp: spares_checkpoint_def is_init_def)
  have name: "rp_id (approved_proposal\<lparr>rp_intents := [view_body, lost_body]\<rparr>) = ''rp_f''"
    by (simp add: approved_proposal_def)
  have "se_spec (fst (snd undone_merge)) = Some (Some map_doc) \<and> Some (se_layers (fst (snd undone_merge))) = layers_of (Some map_doc)"
    by (rule merge_rolls_back [OF _ _ ids(1) plain_merge_fresh _ ids(3,2) _ _ _ _ eq out(2)])
      (use spared ids(4) in \<open>simp_all add: name\<close>)
  moreover have "se_revision (fst (snd undone_merge)) = 6" by code_simp
  ultimately show ?thesis by blast
qed

definition full_review :: review_ctx where
  "full_review = calm_review\<lparr>rc_map := review_engine\<lparr>ec_save := \<lambda>k. Disk_stops 1\<rparr>\<rparr>"

definition at_start :: replay_state where
  "at_start = \<lparr>re_revision = 3, re_applied = [], re_ids = [], re_failure = None, re_interleaved = False\<rparr>"

definition one_call :: "review_ctx \<Rightarrow> intent \<Rightarrow> outcome" where
  "one_call rc i = apply_gis_mutation (rc_map rc) (rc_upsert rc) i By_system (merge_actor ''rp_f'') (Some 3)
     (Some (merge_key ''rp_f'' 3 0)) (map_session, 0)"

lemma one_call_parts:
  "returned (one_call rc i) \<Longrightarrow> apply_gis_mutation (rc_map rc) (rc_upsert rc) i By_system (merge_actor ''rp_f'') (Some (re_revision at_start))
     (Some (merge_key ''rp_f'' 3 0)) (map_session, 0) = (Inr (outcome_of (one_call rc i)), (left_by (one_call rc i), snd (snd (one_call rc i))))"
  using outcome_parts [of "one_call rc i"] by (simp add: one_call_def at_start_def)

definition new_view :: intent where "new_view = SetViewIntent PNone (PInt 5) PNone PNone"

lemma failed_save_blocks_rollback_witness:
  "\<exists>t k. seq (replay full_review ''rp_f'' 3 0 [view_body] at_start) (undo_replay full_review ''rp_f'') (map_session, 0) =
    (Inr (True, False, Some (Interleaved_before_rollback (Intent_failed 0))), (t, k)) \<and> se_revision t = 4"
proof -
  let ?x = "one_call full_review new_view"
  have x: "returned ?x" "rs_error (outcome_of ?x)" "\<not> rs_superseded (outcome_of ?x)" "\<not> rs_duplicate (outcome_of ?x)"
    "se_revision (left_by ?x) = 4" "has_document (left_by ?x)" "\<not> se_deleted (left_by ?x)" "snd (snd ?x) = 2"
    "list_all (\<lambda>kv. fst kv \<noteq> ''later'') (se_dedup (left_by ?x))"
    "body_to_intent (rc_codec full_review) view_body = Some new_view"
    by code_simp+
  have rc: "serial (rc_map full_review)" "ec_guard (rc_map full_review) i = Some (Some i)" "minted_id (rc_map full_review) 2 = ''later''" for i
    using calm_review_fields by (simp_all add: full_review_def serial_def minted_id_def envelope_id_def truthy_def)
  have "minted_id (rc_map full_review) (snd (snd ?x)) \<notin> fst ` set (se_dedup (left_by ?x))"
    using x(8,9) rc(3) by (auto simp: list_all_iff)
  from failed_save_blocks_rollback [OF rc(1) x(10) one_call_parts [OF x(1)] x(2-4) _ _ x(6,7) rc(2) this, of "[]"] x(5)
  show ?thesis by (auto simp: at_start_def kept_def)
qed

definition other_review :: review_ctx where
  "other_review = calm_review\<lparr>rc_codec := \<lambda>b. Some (OtherIntent (bd_intent b) (bd_fields b)),
     rc_map := review_engine\<lparr>ec_other := \<lambda>k who loaded n kind args. Terminal plain_result,
       ec_descriptor := \<lambda>kind args. described False False False ([], [])\<rparr>\<rparr>"

definition unbind_body :: request_body where
  "unbind_body = \<lparr>bd_intent = ''set_temporal_view'', bd_fields = [(''remove'', PBool True)]\<rparr>"

lemma noop_intent_stops_merge_witness:
  "\<exists>st t k. replay other_review ''rp_f'' 3 0 [unbind_body, view_body] at_start (map_session, 0) = (Inr st, (t, k)) \<and>
    re_failure st = Some Superseded_mid_merge \<and> re_interleaved st \<and> se_revision t = 3"
proof -
  let ?i = "OtherIntent ''set_temporal_view'' [(''remove'', PBool True)]"
  let ?x = "one_call other_review ?i"
  have x: "returned ?x" "\<not> rs_error (outcome_of ?x)" "\<not> rs_superseded (outcome_of ?x)" "\<not> rs_duplicate (outcome_of ?x)"
    "rs_revision (outcome_of ?x) = 0" "se_revision (left_by ?x) = 3" "has_document (left_by ?x)" "\<not> se_deleted (left_by ?x)"
    "se_dedup (left_by ?x) = []" "body_to_intent (rc_codec other_review) unbind_body = Some ?i"
    "body_to_intent (rc_codec other_review) view_body = Some new_view"
    by code_simp+
  have rc: "serial (rc_map other_review)" "ec_guard (rc_map other_review) i = Some (Some i)" for i
    using calm_review_fields by (simp_all add: other_review_def serial_def)
  from noop_intent_stops_merge [OF rc(1) x(10,11) one_call_parts [OF x(1)] x(2-5) _ _ x(7,8) rc(2), of "[]"] x(6,9)
  show ?thesis by (auto simp: at_start_def kept_def)
qed

end
