(* ===== verification/Spec2Isabelle.thy ===== *)
theory Spec2Isabelle
  imports Prelude Py_Value Jobs_Lifecycle Jobs_Progress Jobs_Store Jobs_Invariant Jobs_Properties
    Graph_Closure Lease_Lock Workflow_Contracts Workflow_Graph Workflow_Store Workflow_Invariant
    Workflow_Recovery Workflow_Properties Kahn Geo_Plan Geo_Graph Geo_Properties Planning_Model
    Planning_Properties Governor_Fairness Governor_Gate Governor_Retry Governor_Properties Py_Json
    Collab_Delta Collab_Document Collab_Lemmas Collab_Apply Collab_Properties Collab_Leases Collab_Lease_Properties Interference Mission_Contracts
    Mission_Store Mission_Invariant Mission_Guarantee Mission_Recovery Mission_Service Mission_Calls
    Mission_Properties Mission_Outcomes Mission_Limits Mission_Witnesses Mapspec_Intents Carto_Repair Mapspec_Handlers
    Carto_Layers
    Mapspec_Session Mapspec_Engine Mapspec_Transaction Mapspec_Properties Mapspec_Restore Gis_Mutation
    Mapspec_Locks Mapspec_Witnesses Review_Policy Review_Store Review_Merge Review_Service Review_Invariant
    Review_Guarantee Review_Properties Review_Replay Review_Witnesses
begin

text \<open>
  A verification of the state-keeping core of the WebGIS agent backend (\<open>app/\<close>, Python).

  \<^bold>\<open>The program.\<close> Users and language model agents work on a session: a map document with layers, the data behind
  it, and long-running work. Work is done by durable jobs (\<open>app/services/jobs\<close>), workflow instances over typed
  graphs (\<open>workflow_runtime\<close>), execution plans of the data plane (\<open>geocompute\<close>), canonical plans of the agent
  (\<open>planning\<close>) and missions that outlive sessions (\<open>mission_runtime\<close>); a governor (\<open>governor\<close>) limits what runs
  at once. The map document changes only through the transaction engine (\<open>mapspec/lifecycle_engine.py\<close>), which
  all callers reach through one entry (\<open>gis_world_state/mutation.py\<close>) and which the review of proposed changes
  (\<open>review\<close>) drives too; its organisation part is changed by patches (\<open>collab/delta.py\<close>) and protected by locks
  (\<open>contracts/workbench_locks.py\<close>). The parts meet in the database, in the shared state of the session and in
  its lock; several processes use all three, so most theorems are about runs in which others commit too.

  \<^bold>\<open>Shared theories.\<close>
  \<^item> \<open>Prelude\<close>: Python dictionaries as association lists, tables as lists of rows (\<open>sql_update\<close> is one conditional
    UPDATE with its row count), and the locales \<open>op_system\<close>, \<open>op_system_rel\<close> (invariants and relations over runs
    of operations) and \<open>transition_table\<close> (status machines).
  \<^item> \<open>Py_Value\<close>, \<open>Py_Json\<close>: JSON-like values, truth, \<open>str\<close>, \<open>repr\<close>, \<open>json.dumps\<close>.
  \<^item> \<open>Interference\<close>: programs over a shared state with pauses at which others commit; the locale \<open>forward_order\<close> is
    the rely-guarantee calculus of these programs. \<open>Lease_Lock\<close>: the contract of a lease with an expiry.
  \<^item> \<open>Graph_Closure\<close>, \<open>Kahn\<close>: the work-list traversals and the two forms of Kahn's algorithm the program repeats.

  \<^bold>\<open>Components.\<close> Each has its state as records, an operation per method, an invariant, and its properties.
  \<^item> \<open>Jobs_Lifecycle\<close>, \<open>Jobs_Progress\<close>, \<open>Jobs_Store\<close>: \<open>jobs/lifecycle.py\<close>, \<open>progress.py\<close>, \<open>store.py\<close> over the table
    of jobs. \<open>Jobs_Invariant\<close> shows that all operations keep the table invariant and never rewrite a finished row;
    \<open>Jobs_Properties\<close> the effect of each operation on every branch and the fencing of a retried job.
  \<^item> \<open>Workflow_Contracts\<close>, \<open>Workflow_Graph\<close>, \<open>Workflow_Store\<close>, \<open>Workflow_Recovery\<close>: \<open>contracts.py\<close>, \<open>retry.py\<close>,
    \<open>machine.py\<close>, \<open>store.py\<close>, \<open>recovery.py\<close>, \<open>recompute.py\<close> of \<open>workflow_runtime\<close>. \<open>Workflow_Invariant\<close>: the journal
    of a node is its history. \<open>Workflow_Properties\<close>: claims, run leases, recovery sweeps; the graph functions
    compute exactly the closures they name.
  \<^item> \<open>Geo_Plan\<close>, \<open>Geo_Graph\<close>, \<open>Geo_Properties\<close>: \<open>plan.py\<close>, \<open>normalization.py\<close>, \<open>graph.py\<close> of \<open>geocompute\<close>: admission
    of a plan is characterised exactly, and an admitted plan has a schedule.
  \<^item> \<open>Planning_Model\<close>, \<open>Planning_Properties\<close>: \<open>planning/models.py\<close>, \<open>deps.py\<close>: a validated plan never gets stuck.
  \<^item> \<open>Governor_Fairness\<close>, \<open>Governor_Gate\<close>, \<open>Governor_Retry\<close>, \<open>Governor_Properties\<close>: \<open>fairness.py\<close>, the channel gate of
    \<open>backpressure.py\<close>, \<open>retry_budget.py\<close>. The heap with lazily dropped entries refines a sorted list; the slots of
    a gate are exact and never idle but for two ways of miscounting, which its reachable states count.
  \<^item> \<open>Collab_Delta\<close>, \<open>Collab_Document\<close>, \<open>Collab_Lemmas\<close>, \<open>Collab_Apply\<close>, \<open>Collab_Properties\<close>: patches of the
    organisation document (\<open>collab/delta.py\<close>, \<open>mutation_primitives.py\<close>, \<open>mutation_handlers.py\<close>), its check and the
    readers of its locks.
  \<^item> \<open>Collab_Leases\<close>, \<open>Collab_Lease_Properties\<close>: \<open>collab/leases.py\<close>, the leases by which clients that edit together keep
    out of each other's way, in Redis and in the process: exclusion, agreement of the two, and a leak.
  \<^item> \<open>Mission_Contracts\<close>, \<open>Mission_Store\<close>, \<open>Mission_Recovery\<close>, \<open>Mission_Service\<close>: the whole of \<open>mission_runtime\<close>.
    \<open>Mission_Invariant\<close> states what is well formed and what is never taken back, \<open>Mission_Guarantee\<close> that every
    operation keeps it under interference, \<open>Mission_Calls\<close> makes runs of them; \<open>Mission_Properties\<close>,
    \<open>Mission_Outcomes\<close> and \<open>Mission_Limits\<close> hold the theorems, \<open>Mission_Witnesses\<close> their instances.
  \<^item> \<open>Mapspec_Intents\<close>, \<open>Mapspec_Handlers\<close>, \<open>Mapspec_Session\<close>, \<open>Mapspec_Engine\<close>: \<open>intents.py\<close>, \<open>mutation_registry.py\<close>,
    \<open>mutation_primitives.py\<close>, \<open>mutation_handlers.py\<close>, \<open>store.py\<close>, \<open>checkpoint.py\<close> and \<open>lifecycle_engine.py\<close> of
    \<open>mapspec\<close>, with the commit of \<open>session_data.py\<close>. \<open>Mapspec_Transaction\<close> reduces a call of the engine to a step of
    a register with a revision; \<open>Mapspec_Properties\<close> (idempotency, spent revisions), \<open>Mapspec_Restore\<close>
    (checkpoints), \<open>Mapspec_Locks\<close> (locked layers, decisions of the user) rest on it.
  \<^item> \<open>Carto_Repair\<close>, \<open>Carto_Layers\<close>: the cartographic review every candidate document goes through
    (\<open>lib/cartography/quality_loop.py\<close>): the loop of review and repair, each repair, and what they leave of layers,
    locks and decisions, whatever the rules report.
  \<^item> \<open>Gis_Mutation\<close>: the entry of all mutations, with both guards of the user's decisions.
  \<^item> \<open>Review_Policy\<close>, \<open>Review_Store\<close>, \<open>Review_Merge\<close>, \<open>Review_Service\<close>: \<open>schemas/review_schema.py\<close> and \<open>policy.py\<close>,
    \<open>store.py\<close>, \<open>merge.py\<close>, \<open>service.py\<close> of \<open>review\<close>. \<open>Review_Invariant\<close>, \<open>Review_Guarantee\<close> and \<open>Review_Properties\<close>:
    approvals over arbitrary runs; \<open>Review_Replay\<close>: a merge as a sequence of engine transactions.

  \<^bold>\<open>Interfaces.\<close> \<open>transition_table\<close> is interpreted for jobs, workflow nodes and missions; \<open>op_system\<close> and
  \<open>op_system_rel\<close> for the runs of jobs, workflow stores, retry budgets, missions, map mutations and reviews;
  \<open>forward_order\<close> for the mission ledger, the tasks of its swarm runs and the review store; \<open>lease_lock\<close> for the run lease of a workflow and
  the lease of a mission; \<open>closure\<close> and \<open>opposite_closures\<close> for the graph loops; \<open>review_guarantee\<close> twice, for the
  invariant of the store and for the forward order of one proposal.

  \<^bold>\<open>Conventions.\<close> Times are integers in microseconds. Floats are rationals where the code compares or adds them, and
  the text of their \<open>repr\<close> where it only passes them on. Raised errors are values of a sum or option type. A clock,
  fresh ids, digests, redactors, the environment and every component that is not modelled are arguments. Definitions
  bear the names of the code; a name that two modules share is prefixed in one of them (\<open>node_is_terminal\<close>,
  \<open>mission_transition_values\<close>), so that each name stands for one definition.

  \<^bold>\<open>Bounds and termination.\<close> Loops with a limit in the code recurse on that limit: the compare-and-set loops (8
  attempts for settlements, 24 for charges) and the two rounds of cartographic repair. The other limits are data: the ring of 8 mission checkpoints, the 64
  entries of the idempotency index and of the record of decisions, the retention of automatic map checkpoints, 50
  intents, 500 comments and 200 decisions of a proposal, 100 proposals, leases of 300 seconds. All other loops are
  functions with a termination proof: every turn of a graph loop marks a node or shortens the work list, a scan of
  a text shortens it, the climb through nested groups has the number of steps it checks. No definition needs fuel,
  so that an operation returns is part of its definition.

  \<^bold>\<open>Not modelled.\<close>
  \<^item> Numerics and rendering (\<open>lib/geo_analysis\<close>, the rest of \<open>lib/cartography\<close>, \<open>services/rs\<close>, tiles, exports): floating point
    array code over numpy, GDAL and shapely.
  \<^item> The language model side (\<open>agent\<close>, \<open>agent_pi_bridge.py\<close>, \<open>services/chat\<close>, \<open>tools\<close>): prompts and streams, no state
    with a contract of its own.
  \<^item> Of the workflow runtime the driver and its adapters, of the data plane the executor: both schedule Python
    callables with asyncio over the stores modelled here; of the governor the estimates and metrics.
  \<^item> Of the engine ten handlers (data ingestion, components, layout, temporal view, visual healing) and the
    validation: arguments of \<open>engine_ctx\<close> with what the theorems use of them as hypotheses. Of the cartographic review
    the rules (\<open>semantic_checks.py\<close>), but for the one on visibility: their report on a document is an arbitrary function,
    on which the theorem about locked layers assumes nothing. Of the reviews the read-only projection and the export.
  \<^item> HTTP routes, database models without operations, the frontend and scripts. Log lines, metrics and
    notifications are left out everywhere: they do not change the modelled state.
\<close>

end
